(* ===== verification/Prelude.thy ===== *)
theory Prelude
  imports Main "HOL-Library.AList"
begin

text \<open>
  Shared vocabulary of the development: the decimal printing and parsing of
  Go's \<open>strconv\<close> package (Redis keys and sorted-set members are decimal
  identifiers), the simplification collections the component theories fill,
  and generic facts on lists, prefixes and options.

  Identifiers of accounts, users, groups and API keys are Go \<open>int64\<close> values;
  they are \<open>int\<close> here and the theorems that print and re-parse them state the
  64-bit range.  Strings are byte strings.
\<close>

named_theorems key_simps \<open>injectivity and disjointness of Redis keys\<close>
named_theorems db_simps \<open>what a Redis command leaves unchanged\<close>

type_synonym id = int
type_synonym key = string
type_synonym member = string

section \<open>Decimal printing: \<open>strconv.FormatInt(i, 10)\<close>\<close>

definition digit :: "nat \<Rightarrow> char" where
  "digit d = char_of (48 + d)"

fun format_nat :: "nat \<Rightarrow> string" where
  "format_nat n = (if n < 10 then [digit n] else format_nat (n div 10) @ [digit (n mod 10)])"

declare format_nat.simps [simp del]

definition format_int :: "int \<Rightarrow> string" where
  "format_int i = (if i < 0 then CHR ''-'' # format_nat (nat (- i)) else format_nat (nat i))"

section \<open>Decimal parsing: \<open>strconv.ParseInt(s, 10, 64)\<close>\<close>

definition digit_val :: "char \<Rightarrow> nat option" where
  "digit_val c =
     (let n = of_char c :: nat in if 48 \<le> n \<and> n \<le> 57 then Some (n - 48) else None)"

fun parse_digits :: "nat \<Rightarrow> string \<Rightarrow> nat option" where
  "parse_digits acc [] = Some acc"
| "parse_digits acc (c # cs) =
     (case digit_val c of None \<Rightarrow> None | Some d \<Rightarrow> parse_digits (10 * acc + d) cs)"

definition parse_nat :: "string \<Rightarrow> nat option" where
  "parse_nat s = (if s = [] then None else parse_digits 0 s)"

definition int64_min :: int where "int64_min = - 9223372036854775808"
definition int64_max :: int where "int64_max = 9223372036854775807"

definition in_int64 :: "int \<Rightarrow> bool" where
  "in_int64 i \<longleftrightarrow> int64_min \<le> i \<and> i \<le> int64_max"

definition check64 :: "int \<Rightarrow> int option" where
  "check64 i = (if in_int64 i then Some i else None)"

fun parse_int :: "string \<Rightarrow> int option" where
  "parse_int [] = None"
| "parse_int (c # cs) =
     (if c = CHR ''-'' then Option.bind (parse_nat cs) (\<lambda>n. check64 (- int n))
      else if c = CHR ''+'' then Option.bind (parse_nat cs) (\<lambda>n. check64 (int n))
      else Option.bind (parse_nat (c # cs)) (\<lambda>n. check64 (int n)))"

lemma digit_val_digit [simp]: "d < 10 \<Longrightarrow> digit_val (digit d) = Some d"
  by (simp add: digit_val_def digit_def Let_def)

lemma digit_not_sign: "d < 10 \<Longrightarrow> digit d \<noteq> CHR ''-'' \<and> digit d \<noteq> CHR ''+''"
proof -
  assume d: "d < 10"
  have "(of_char (digit d) :: nat) = 48 + d" using d by (simp add: digit_def)
  then show ?thesis by auto
qed

lemma parse_digits_append:
  "parse_digits acc (xs @ ys) = Option.bind (parse_digits acc xs) (\<lambda>a. parse_digits a ys)"
  by (induction xs arbitrary: acc) (auto split: option.splits)

lemma parse_digits_format_nat:
  "\<exists>k. \<forall>acc. parse_digits acc (format_nat n) = Some (acc * 10 ^ k + n)"
proof (induction n rule: format_nat.induct)
  case (1 n)
  show ?case
  proof (cases "n < 10")
    case True
    have "\<forall>acc. parse_digits acc (format_nat n) = Some (acc * 10 ^ 1 + n)"
      using True by (simp add: format_nat.simps [of n])
    then show ?thesis by blast
  next
    case False
    with 1 obtain k where
      k: "\<forall>acc. parse_digits acc (format_nat (n div 10)) = Some (acc * 10 ^ k + n div 10)"
      by blast
    have "\<forall>acc. parse_digits acc (format_nat n) = Some (acc * 10 ^ (Suc k) + n)"
    proof
      fix acc
      have "parse_digits acc (format_nat n) = Some (10 * (acc * 10 ^ k + n div 10) + n mod 10)"
        using False k by (simp add: format_nat.simps [of n] parse_digits_append)
      then show "parse_digits acc (format_nat n) = Some (acc * 10 ^ (Suc k) + n)"
        by (simp add: algebra_simps)
    qed
    then show ?thesis by blast
  qed
qed

lemma format_nat_not_Nil [simp]: "format_nat n \<noteq> []"
  by (subst format_nat.simps) simp

lemma parse_nat_format_nat [simp]: "parse_nat (format_nat n) = Some n"
proof -
  obtain k where "\<forall>acc. parse_digits acc (format_nat n) = Some (acc * 10 ^ k + n)"
    using parse_digits_format_nat by blast
  from spec [OF this, of 0] show ?thesis by (simp add: parse_nat_def)
qed

lemma format_nat_chars: "c \<in> set (format_nat n) \<Longrightarrow> \<exists>d<10. c = digit d"
proof (induction n rule: format_nat.induct)
  case (1 n)
  show ?case
  proof (cases "n < 10")
    case True
    with 1 show ?thesis by (auto simp: format_nat.simps [of n])
  next
    case False
    with "1.prems" consider "c \<in> set (format_nat (n div 10))" | "c = digit (n mod 10)"
      by (auto simp: format_nat.simps [of n])
    then show ?thesis
    proof cases
      case 1
      then show ?thesis using "1.IH" False by blast
    next
      case 2
      then show ?thesis by (intro exI [of _ "n mod 10"]) simp
    qed
  qed
qed

lemma format_nat_hd: "\<exists>d<10. \<exists>cs. format_nat n = digit d # cs"
proof (cases "format_nat n")
  case Nil
  then show ?thesis by simp
next
  case (Cons c cs)
  then show ?thesis using format_nat_chars [of c n] by auto
qed

text \<open>Printing an \<open>int64\<close> and parsing it back gives the same identifier.\<close>

lemma parse_int_format_int: "in_int64 i \<Longrightarrow> parse_int (format_int i) = Some i"
proof (cases "i < 0")
  case True
  assume "in_int64 i"
  with True show ?thesis by (simp add: format_int_def check64_def)
next
  case False
  assume "in_int64 i"
  obtain d cs where d: "d < 10" and f: "format_nat (nat i) = digit d # cs"
    using format_nat_hd by blast
  have "parse_nat (digit d # cs) = Some (nat i)" using f [symmetric] by simp
  with False d f digit_not_sign [OF d] \<open>in_int64 i\<close> show ?thesis
    by (simp add: format_int_def check64_def)
qed

lemma format_nat_inj: "format_nat m = format_nat n \<Longrightarrow> m = n"
  by (metis option.inject parse_nat_format_nat)

lemma format_int_inj [key_simps]: "format_int i = format_int j \<longleftrightarrow> i = j"
proof
  assume eq: "format_int i = format_int j"
  obtain d cs where d: "d < 10" "format_nat (nat i) = digit d # cs" using format_nat_hd by blast
  obtain e ds where e: "e < 10" "format_nat (nat j) = digit e # ds" using format_nat_hd by blast
  show "i = j"
  proof (cases "i < 0")
    case True
    then have "j < 0" using eq e digit_not_sign [OF e(1)]
      by (auto simp: format_int_def split: if_splits)
    then show ?thesis using True eq by (auto simp: format_int_def dest: format_nat_inj)
  next
    case False
    then have "\<not> j < 0" using eq d digit_not_sign [OF d(1)]
      by (auto simp: format_int_def split: if_splits)
    then show ?thesis using False eq by (auto simp: format_int_def dest: format_nat_inj)
  qed
qed simp

lemma format_int_chars: "c \<in> set (format_int i) \<Longrightarrow> c = CHR ''-'' \<or> (\<exists>d<10. c = digit d)"
  by (auto simp: format_int_def dest: format_nat_chars split: if_splits)

lemma format_int_not_Nil [simp]: "format_int i \<noteq> []"
  by (simp add: format_int_def)

lemma digit_code: "d < 10 \<Longrightarrow> (of_char (digit d) :: nat) = 48 + d"
  by (simp add: digit_def)

lemma format_int_no_colon: "CHR '':'' \<notin> set (format_int i)"
proof
  assume "CHR '':'' \<in> set (format_int i)"
  from format_int_chars [OF this] have "\<exists>d<10. CHR '':'' = digit d" by simp
  then obtain d where "d < 10" "CHR '':'' = digit d" by blast
  then have "(of_char CHR '':'' :: nat) = 48 + d" by (metis digit_code)
  with \<open>d < 10\<close> show False by simp
qed

lemma format_int_hd_not: "c \<noteq> CHR ''-'' \<Longrightarrow> \<not> (48 \<le> (of_char c :: nat) \<and> (of_char c :: nat) < 58) \<Longrightarrow>
    format_int i \<noteq> c # cs"
proof
  assume c: "c \<noteq> CHR ''-''" "\<not> (48 \<le> (of_char c :: nat) \<and> (of_char c :: nat) < 58)"
    and f: "format_int i = c # cs"
  then have "c \<in> set (format_int i)" by simp
  with c obtain d where "d < 10" "c = digit d" using format_int_chars by blast
  with c show False by (simp add: digit_code)
qed

text \<open>Two decimal fields joined by a colon are both determined by the joined string.\<close>

lemma split_at_colon:
  "CHR '':'' \<notin> set xs \<Longrightarrow> CHR '':'' \<notin> set ys \<Longrightarrow>
   xs @ CHR '':'' # us = ys @ CHR '':'' # vs \<longleftrightarrow> xs = ys \<and> us = vs"
proof (induction xs arbitrary: ys)
  case Nil
  then show ?case by (cases ys) auto
next
  case (Cons x xs)
  then show ?case by (cases ys) auto
qed

lemma format_pair_inj [key_simps]:
  "format_int a @ CHR '':'' # format_int b = format_int c @ CHR '':'' # format_int d
     \<longleftrightarrow> a = c \<and> b = d"
  by (simp only: split_at_colon [OF format_int_no_colon format_int_no_colon] format_int_inj)

section \<open>Lists\<close>

lemma filter_eq_length_le: "length (filter P xs) \<le> length xs"
  by (rule length_filter_le)

lemma distinct_length_le_card:
  "distinct xs \<Longrightarrow> set xs \<subseteq> A \<Longrightarrow> finite A \<Longrightarrow> length xs \<le> card A"
  by (metis card_mono distinct_card)

section \<open>Go text\<close>

text \<open>
  Go strings as lists of code points, where the code trims white space:
  \<open>strings.TrimSpace\<close> and its laws.  \<open>text_of\<close> embeds an ASCII literal.
\<close>

text \<open>\<open>unicode.IsSpace\<close>.\<close>

definition is_space :: "nat \<Rightarrow> bool" where
  "is_space r \<longleftrightarrow> 9 \<le> r \<and> r \<le> 13 \<or> r = 32 \<or> r = 133 \<or> r = 160 \<or> r = 5760 \<or>
     8192 \<le> r \<and> r \<le> 8202 \<or> r = 8232 \<or> r = 8233 \<or> r = 8239 \<or> r = 8287 \<or> r = 12288"

definition trim_space :: "nat list \<Rightarrow> nat list" where
  "trim_space rs = rev (dropWhile is_space (rev (dropWhile is_space rs)))"

type_synonym go_text = "nat list"

definition text_of :: "string \<Rightarrow> go_text" where
  "text_of s = map of_char s"

lemma trim_space_ends: "trim_space rs \<noteq> [] \<Longrightarrow>
    \<not> is_space (hd (trim_space rs)) \<and> \<not> is_space (last (trim_space rs))"
proof -
  let ?a = "dropWhile is_space rs"
  assume ne: "trim_space rs \<noteq> []"
  then have "dropWhile is_space (rev ?a) \<noteq> []" by (simp add: trim_space_def)
  then have l: "\<not> is_space (last (trim_space rs))" by (simp add: trim_space_def last_rev hd_dropWhile)
  have pre: "\<exists>zs. ?a = trim_space rs @ zs"
    by (metis rev_append rev_rev_ident takeWhile_dropWhile_id trim_space_def)
  then obtain zs where zs: "?a = trim_space rs @ zs" by blast
  have a: "?a \<noteq> []" unfolding zs using ne by blast
  have "hd (trim_space rs) = hd ?a" unfolding zs using ne by simp
  then show ?thesis using l hd_dropWhile [OF a] by simp
qed

lemma trim_space_id: "xs \<noteq> [] \<Longrightarrow> \<not> is_space (hd xs) \<Longrightarrow> \<not> is_space (last xs) \<Longrightarrow> trim_space xs = xs"
proof -
  have d: "dropWhile is_space ys = ys" if "ys \<noteq> []" "\<not> is_space (hd ys)" for ys
    using that by (cases ys) simp_all
  assume "xs \<noteq> []" "\<not> is_space (hd xs)" "\<not> is_space (last xs)"
  then show ?thesis using d [of xs] d [of "rev xs"] by (simp add: trim_space_def hd_rev)
qed

lemma trim_space_Nil [simp]: "trim_space [] = []"
  by (simp add: trim_space_def)

lemma trim_space_idem [simp]: "trim_space (trim_space xs) = trim_space xs"
  using trim_space_id[of "trim_space xs"] trim_space_ends[of xs] by (cases "trim_space xs = []") auto

end
