(* ===== verification/Redis_Iface.thy ===== *)
theory Redis_Iface
  imports Prelude
begin

text \<open>
  The Redis server is not part of the repository: it is a parameter of the
  model.  A \<open>'s redis\<close> record holds the commands the repository's code issues,
  as functions on an abstract server state \<open>'s\<close>; the locale \<open>redis_store\<close> states
  what the code relies on, each assumption a line of the Redis command
  reference.  Everything the Go code and its Lua scripts do is defined in the
  component theories over this record and proved under the locale.

  A small reference server at the end of the theory satisfies the locale; the
  witnesses of the properties evaluate the scripts on it.

  Sorted-set scores are Unix seconds or milliseconds (integers below 2 to the
  53, exact in a Redis double), values of string keys are byte strings, the
  clock is in microseconds, a key's deadline is in Unix milliseconds.
\<close>

record 's redis =
  r_us :: "'s \<Rightarrow> int"
  r_zscore :: "'s \<Rightarrow> key \<Rightarrow> member \<Rightarrow> int option"
  r_zmembers :: "'s \<Rightarrow> key \<Rightarrow> member list"
  r_zadd :: "'s \<Rightarrow> key \<Rightarrow> int \<Rightarrow> member \<Rightarrow> 's"
  r_zrem :: "'s \<Rightarrow> key \<Rightarrow> member \<Rightarrow> 's"
  r_zremrangebyscore :: "'s \<Rightarrow> key \<Rightarrow> int \<Rightarrow> 's"
  r_get :: "'s \<Rightarrow> key \<Rightarrow> string option"
  r_set :: "'s \<Rightarrow> key \<Rightarrow> string \<Rightarrow> int option \<Rightarrow> 's"
  r_incrby :: "'s \<Rightarrow> key \<Rightarrow> int \<Rightarrow> 's"
  r_del :: "'s \<Rightarrow> key \<Rightarrow> 's"
  r_pexpire :: "'s \<Rightarrow> key \<Rightarrow> int \<Rightarrow> 's"
  r_deadline :: "'s \<Rightarrow> key \<Rightarrow> int option"
  r_pass :: "'s \<Rightarrow> int \<Rightarrow> 's"

section \<open>Derived commands\<close>

definition r_zcard :: "'s redis \<Rightarrow> 's \<Rightarrow> key \<Rightarrow> int" where
  "r_zcard R s k = int (length (r_zmembers R s k))"

definition r_exists :: "'s redis \<Rightarrow> 's \<Rightarrow> key \<Rightarrow> bool" where
  "r_exists R s k \<longleftrightarrow> r_zmembers R s k \<noteq> [] \<or> r_get R s k \<noteq> None"

text \<open>\<open>TIME\<close> replies with the seconds and the microseconds within the second.\<close>

definition time_sec :: "'s redis \<Rightarrow> 's \<Rightarrow> int" where
  "time_sec R s = r_us R s div 1000000"

definition time_ms :: "'s redis \<Rightarrow> 's \<Rightarrow> int" where
  "time_ms R s = time_sec R s * 1000 + (r_us R s mod 1000000) div 1000"

definition r_expire :: "'s redis \<Rightarrow> 's \<Rightarrow> key \<Rightarrow> int \<Rightarrow> 's" where
  "r_expire R s k secs = r_pexpire R s k (secs * 1000)"

text \<open>\<open>PTTL\<close>: -2 without the key, -1 without a deadline, else the remaining milliseconds.\<close>

definition r_pttl :: "'s redis \<Rightarrow> 's \<Rightarrow> key \<Rightarrow> int" where
  "r_pttl R s k =
     (if \<not> r_exists R s k then -2
      else case r_deadline R s k of None \<Rightarrow> -1 | Some t \<Rightarrow> t - time_ms R s)"

text \<open>\<open>ZRANGE key -inf hi BYSCORE LIMIT 0 n\<close> and \<open>ZCOUNT key (lo +inf\<close>.\<close>

definition r_zrangebyscore :: "'s redis \<Rightarrow> 's \<Rightarrow> key \<Rightarrow> int \<Rightarrow> nat \<Rightarrow> member list" where
  "r_zrangebyscore R s k hi n =
     take n (filter (\<lambda>m. case r_zscore R s k m of None \<Rightarrow> False | Some sc \<Rightarrow> sc \<le> hi)
               (r_zmembers R s k))"

definition r_zcount_above :: "'s redis \<Rightarrow> 's \<Rightarrow> key \<Rightarrow> int \<Rightarrow> int" where
  "r_zcount_above R s k lo =
     int (length (filter (\<lambda>m. case r_zscore R s k m of None \<Rightarrow> False | Some sc \<Rightarrow> lo < sc)
               (r_zmembers R s k)))"

text \<open>\<open>INCR\<close>'s reply is the value after the increment.\<close>

definition r_incr_reply :: "'s redis \<Rightarrow> 's \<Rightarrow> key \<Rightarrow> int" where
  "r_incr_reply R s k =
     (case r_get R s k of None \<Rightarrow> 1
      | Some v \<Rightarrow> (case parse_int v of None \<Rightarrow> 0 | Some n \<Rightarrow> n + 1))"

section \<open>What the code relies on\<close>

locale redis_store =
  fixes R :: "'s redis"
  assumes us_nonneg: "0 \<le> r_us R s"
    and us_zadd: "r_us R (r_zadd R s k sc m) = r_us R s"
    and us_zrem: "r_us R (r_zrem R s k m) = r_us R s"
    and us_zremrange: "r_us R (r_zremrangebyscore R s k hi) = r_us R s"
    and us_set: "r_us R (r_set R s k v px) = r_us R s"
    and us_incrby: "r_us R (r_incrby R s k d) = r_us R s"
    and us_del: "r_us R (r_del R s k) = r_us R s"
    and us_pexpire: "r_us R (r_pexpire R s k d) = r_us R s"
    and us_pass: "0 \<le> d \<Longrightarrow> r_us R (r_pass R s d) = r_us R s + d"
    and zmembers_distinct: "distinct (r_zmembers R s k)"
    and zmembers_set: "set (r_zmembers R s k) = {m. r_zscore R s k m \<noteq> None}"
    and zmembers_sorted: "sorted (map (\<lambda>m. the (r_zscore R s k m)) (r_zmembers R s k))"
    and zscore_zadd: "r_zscore R (r_zadd R s k sc m) k' m' =
          (if k' = k \<and> m' = m then Some sc else r_zscore R s k' m')"
    and zscore_zrem: "r_zscore R (r_zrem R s k m) k' m' =
          (if k' = k \<and> m' = m then None else r_zscore R s k' m')"
    and zscore_zremrange: "r_zscore R (r_zremrangebyscore R s k hi) k' m' =
          (if k' = k \<and> (\<exists>sc. r_zscore R s k m' = Some sc \<and> sc \<le> hi) then None
           else r_zscore R s k' m')"
    and zscore_set: "k' \<noteq> k \<Longrightarrow> r_zscore R (r_set R s k v px) k' m = r_zscore R s k' m"
    and zscore_set_same: "px = None \<or> 0 < the px \<Longrightarrow> r_zscore R (r_set R s k v px) k m = None"
    and zscore_incrby: "r_zscore R (r_incrby R s k d) k' m = r_zscore R s k' m"
    and zscore_del: "r_zscore R (r_del R s k) k' m = (if k' = k then None else r_zscore R s k' m)"
    and zscore_pexpire: "r_zscore R (r_pexpire R s k d) k' m =
          (if k' = k \<and> d \<le> 0 then None else r_zscore R s k' m)"
    and zscore_pass: "0 \<le> d \<Longrightarrow> r_zscore R (r_pass R s d) k m =
          (if \<exists>t. r_deadline R s k = Some t \<and> t \<le> (r_us R s + d) div 1000 then None
           else r_zscore R s k m)"
    and get_zadd: "r_get R (r_zadd R s k sc m) k' = r_get R s k'"
    and get_zrem: "r_get R (r_zrem R s k m) k' = r_get R s k'"
    and get_zremrange: "r_get R (r_zremrangebyscore R s k hi) k' = r_get R s k'"
    and get_set: "px = None \<or> 0 < the px \<Longrightarrow>
          r_get R (r_set R s k v px) k' = (if k' = k then Some v else r_get R s k')"
    and get_incrby_new: "r_get R s k = None \<Longrightarrow> r_zmembers R s k = [] \<Longrightarrow>
          r_get R (r_incrby R s k d) k = Some (format_int d)"
    and get_incrby_int: "r_get R s k = Some (format_int n) \<Longrightarrow> in_int64 n \<Longrightarrow> in_int64 (n + d) \<Longrightarrow>
          r_get R (r_incrby R s k d) k = Some (format_int (n + d))"
    and get_incrby_other: "k' \<noteq> k \<Longrightarrow> r_get R (r_incrby R s k d) k' = r_get R s k'"
    and get_del: "r_get R (r_del R s k) k' = (if k' = k then None else r_get R s k')"
    and get_pexpire: "r_get R (r_pexpire R s k d) k' =
          (if k' = k \<and> d \<le> 0 then None else r_get R s k')"
    and get_pass: "0 \<le> d \<Longrightarrow> r_get R (r_pass R s d) k =
          (if \<exists>t. r_deadline R s k = Some t \<and> t \<le> (r_us R s + d) div 1000 then None
           else r_get R s k)"
    and deadline_exists: "r_deadline R s k = Some t \<Longrightarrow> r_exists R s k"
    and deadline_zadd: "r_deadline R (r_zadd R s k sc m) k' = r_deadline R s k'"
    and deadline_zrem: "r_deadline R (r_zrem R s k m) k' =
          (if r_exists R (r_zrem R s k m) k' then r_deadline R s k' else None)"
    and deadline_zremrange: "r_deadline R (r_zremrangebyscore R s k hi) k' =
          (if r_exists R (r_zremrangebyscore R s k hi) k' then r_deadline R s k' else None)"
    and deadline_set: "px = None \<or> 0 < the px \<Longrightarrow> r_deadline R (r_set R s k v px) k' =
          (if k' = k then map_option (\<lambda>d. r_us R s div 1000 + d) px else r_deadline R s k')"
    and deadline_incrby: "r_deadline R (r_incrby R s k d) k' = r_deadline R s k'"
    and deadline_del: "r_deadline R (r_del R s k) k' = (if k' = k then None else r_deadline R s k')"
    and deadline_pexpire: "r_deadline R (r_pexpire R s k d) k' =
          (if k' = k then (if r_exists R s k \<and> 0 < d then Some (r_us R s div 1000 + d) else None)
           else r_deadline R s k')"
    and deadline_pass: "0 \<le> d \<Longrightarrow> r_deadline R (r_pass R s d) k =
          (case r_deadline R s k of None \<Rightarrow> None
           | Some t \<Rightarrow> if t \<le> (r_us R s + d) div 1000 then None else Some t)"
begin

lemmas us_frame [simp] =
  us_zadd us_zrem us_zremrange us_set us_incrby us_del us_pexpire

lemmas zscore_frame [simp] =
  zscore_zadd zscore_zrem zscore_zremrange zscore_incrby zscore_del zscore_pexpire

lemmas get_frame [simp] =
  get_zadd get_zrem get_zremrange get_del get_pexpire get_incrby_other

lemma time_sec_frame [simp]:
  "time_sec R (r_zadd R s k sc m) = time_sec R s"
  "time_sec R (r_zrem R s k m) = time_sec R s"
  "time_sec R (r_zremrangebyscore R s k hi) = time_sec R s"
  "time_sec R (r_set R s k v px) = time_sec R s"
  "time_sec R (r_incrby R s k d) = time_sec R s"
  "time_sec R (r_del R s k) = time_sec R s"
  "time_sec R (r_pexpire R s k d) = time_sec R s"
  by (simp_all add: time_sec_def)

lemma time_ms_us: "time_ms R s = r_us R s div 1000"
proof -
  have "r_us R s = 1000 * (1000 * (r_us R s div 1000000)) + r_us R s mod 1000000" by simp
  then have "r_us R s div 1000 = 1000 * (r_us R s div 1000000) + (r_us R s mod 1000000) div 1000"
    by (metis div_mult_self4 mult.commute add.commute zero_neq_numeral)
  then show ?thesis by (simp add: time_ms_def time_sec_def)
qed

lemma time_sec_nonneg [simp]: "0 \<le> time_sec R s"
  using us_nonneg by (simp add: time_sec_def pos_imp_zdiv_nonneg_iff)

lemma time_sec_ms: "time_sec R s * 1000 \<le> r_us R s div 1000"
  by (simp add: time_sec_def)

lemma zscore_expire [simp]:
  "r_zscore R (r_expire R s k secs) k' m =
     (if k' = k \<and> secs \<le> 0 then None else r_zscore R s k' m)"
  by (simp add: r_expire_def)

lemma us_expire [simp]: "r_us R (r_expire R s k secs) = r_us R s"
  by (simp add: r_expire_def)

lemma time_sec_expire [simp]: "time_sec R (r_expire R s k secs) = time_sec R s"
  by (simp add: time_sec_def)

lemma get_expire [simp]:
  "r_get R (r_expire R s k secs) k' = (if k' = k \<and> secs \<le> 0 then None else r_get R s k')"
  by (simp add: r_expire_def)

text \<open>\<open>ZCARD\<close> is the number of members with a score.\<close>

lemma zmembers_dom: "set (r_zmembers R s k) = dom (r_zscore R s k)"
  by (simp add: zmembers_set dom_def)

lemma finite_members [simp]: "finite (dom (r_zscore R s k))"
  by (metis zmembers_dom List.finite_set)

lemma zcard_card: "r_zcard R s k = int (card (dom (r_zscore R s k)))"
  by (metis distinct_card r_zcard_def zmembers_distinct zmembers_dom)

lemma zcard_nonneg [simp]: "0 \<le> r_zcard R s k"
  by (simp add: r_zcard_def)

lemma zcard_mono:
  assumes "\<And>m. r_zscore R s k m \<noteq> None \<Longrightarrow> r_zscore R s' k' m \<noteq> None"
  shows "r_zcard R s k \<le> r_zcard R s' k'"
proof -
  have "dom (r_zscore R s k) \<subseteq> dom (r_zscore R s' k')" using assms by (auto simp: dom_def)
  then show ?thesis by (simp add: zcard_card card_mono)
qed

lemma zcard_cong:
  assumes "\<And>m. r_zscore R s k m = None \<longleftrightarrow> r_zscore R s' k' m = None"
  shows "r_zcard R s k = r_zcard R s' k'"
  using assms by (intro antisym zcard_mono) auto

lemma zcard_zadd:
  "r_zcard R (r_zadd R s k sc m) k' =
     (if k' = k \<and> r_zscore R s k m = None then r_zcard R s k + 1 else r_zcard R s k')"
proof (cases "k' = k \<and> r_zscore R s k m = None")
  case True
  have "dom (r_zscore R (r_zadd R s k sc m) k) = insert m (dom (r_zscore R s k))"
    by (auto split: if_splits)
  moreover have "m \<notin> dom (r_zscore R s k)" using True by (simp add: dom_def)
  ultimately show ?thesis using True by (simp add: zcard_card)
next
  case False
  have "r_zcard R (r_zadd R s k sc m) k' = r_zcard R s k'"
    by (rule zcard_cong) (use False in auto)
  with False show ?thesis by simp
qed

lemma zcard_expire [simp]: "0 < secs \<Longrightarrow> r_zcard R (r_expire R s k secs) k' = r_zcard R s k'"
  by (rule zcard_cong) simp

lemma zcard_incrby [simp]: "r_zcard R (r_incrby R s k d) k' = r_zcard R s k'"
  by (rule zcard_cong) simp

lemma zcard_set [simp]: "k' \<noteq> k \<Longrightarrow> r_zcard R (r_set R s k v px) k' = r_zcard R s k'"
  by (rule zcard_cong) (simp add: zscore_set)

lemma zcard_set_le: "px = None \<or> 0 < the px \<Longrightarrow> r_zcard R (r_set R s k v px) k' \<le> r_zcard R s k'"
  by (rule zcard_mono) (metis zscore_set zscore_set_same)

lemma zcard_del [simp]: "r_zcard R (r_del R s k) k' = (if k' = k then 0 else r_zcard R s k')"
  by (auto simp: zcard_card dom_def)

lemma zcard_zremrange_other [simp]:
  "k' \<noteq> k \<Longrightarrow> r_zcard R (r_zremrangebyscore R s k hi) k' = r_zcard R s k'"
  by (rule zcard_cong) simp

lemma zcard_zrem_other [simp]: "k' \<noteq> k \<Longrightarrow> r_zcard R (r_zrem R s k m) k' = r_zcard R s k'"
  by (rule zcard_cong) simp

lemma zcard_zremrange_le: "r_zcard R (r_zremrangebyscore R s k hi) k' \<le> r_zcard R s k'"
  by (rule zcard_mono) (auto split: if_splits)

lemma zcard_zrem_le: "r_zcard R (r_zrem R s k m) k' \<le> r_zcard R s k'"
  by (rule zcard_mono) (auto split: if_splits)

lemma zcard_expire_le: "r_zcard R (r_expire R s k secs) k' \<le> r_zcard R s k'"
  by (rule zcard_mono) (auto split: if_splits)

lemma zcard_pass_le: "0 \<le> d \<Longrightarrow> r_zcard R (r_pass R s d) k \<le> r_zcard R s k"
  by (rule zcard_mono) (auto simp: zscore_pass split: if_splits)

lemma zmembers_iff: "m \<in> set (r_zmembers R s k) \<longleftrightarrow> r_zscore R s k m \<noteq> None"
  by (simp add: zmembers_set)

lemma zcard_zero_iff: "r_zcard R s k = 0 \<longleftrightarrow> (\<forall>m. r_zscore R s k m = None)"
proof -
  have "r_zcard R s k = 0 \<longleftrightarrow> set (r_zmembers R s k) = {}"
    by (simp add: r_zcard_def)
  then show ?thesis by (auto simp: zmembers_set)
qed

lemma exists_zscore: "r_zscore R s k m = Some sc \<Longrightarrow> r_exists R s k"
  using zmembers_iff [of m s k] by (auto simp: r_exists_def)

lemma no_members: "(\<And>m. r_zscore R s k m = None) \<Longrightarrow> r_zmembers R s k = []"
  using zmembers_set [of s k] by simp

end

section \<open>Integer counters\<close>

text \<open>A string key holds the counter \<open>n\<close>: a decimal 64-bit integer, or no key for 0.\<close>

definition counter_is :: "'s redis \<Rightarrow> key \<Rightarrow> 's \<Rightarrow> int \<Rightarrow> bool" where
  "counter_is R k s n \<longleftrightarrow>
     (r_get R s k = Some (format_int n) \<and> in_int64 n) \<or>
     (n = 0 \<and> r_get R s k = None \<and> r_zmembers R s k = [])"

context redis_store
begin

lemma members_Nil: "r_zmembers R s k = [] \<longleftrightarrow> (\<forall>m. r_zscore R s k m = None)"
  using zmembers_set [of s k] by (metis (mono_tags) empty_Collect_eq set_empty)

lemma counter_incr:
  "counter_is R k s n \<Longrightarrow> in_int64 (n + d) \<Longrightarrow> counter_is R k (r_incrby R s k d) (n + d)"
  by (auto simp: counter_is_def get_incrby_new get_incrby_int)

lemma counter_expire: "counter_is R k s n \<Longrightarrow> 0 < ttl \<Longrightarrow> counter_is R k (r_expire R s k ttl) n"
  unfolding counter_is_def by (auto simp: members_Nil)

lemma counter_parse: "counter_is R k s n \<Longrightarrow>
    (case r_get R s k of None \<Rightarrow> Some 0 | Some t \<Rightarrow> parse_int t) = Some n"
  by (auto simp: counter_is_def parse_int_format_int)

lemma counter_frame:
  "k' \<noteq> k \<Longrightarrow> counter_is R k (r_incrby R s k' d) n = counter_is R k s n"
  "k' \<noteq> k \<Longrightarrow> counter_is R k (r_zadd R s k' sc m) n = counter_is R k s n"
  "k' \<noteq> k \<Longrightarrow> counter_is R k (r_zremrangebyscore R s k' hi) n = counter_is R k s n"
  "k' \<noteq> k \<Longrightarrow> counter_is R k (r_expire R s k' t) n = counter_is R k s n"
  "k' \<noteq> k \<Longrightarrow> counter_is R k (r_del R s k') n = counter_is R k s n"
  by (auto simp: counter_is_def members_Nil)

lemma counter_del: "counter_is R k (r_del R s k) 0"
  by (simp add: counter_is_def members_Nil)

lemma counter_pass:
  "counter_is R k s n \<Longrightarrow> 0 \<le> d \<Longrightarrow>
     (case r_deadline R s k of None \<Rightarrow> True | Some t \<Rightarrow> (r_us R s + d) div 1000 < t) \<Longrightarrow>
     counter_is R k (r_pass R s d) n"
  by (auto simp: counter_is_def members_Nil get_pass zscore_pass split: option.splits)

end

section \<open>A reference server\<close>

text \<open>
  One entry per key: its sorted-set part, its string part and its deadline.
  It exists to evaluate the scripts in witnesses and to show that the
  assumptions of the locale are consistent.
\<close>

record entry =
  e_zset :: "(member \<times> int) list"
  e_str :: "string option"
  e_dl :: "int option"

record refdb =
  rd_us :: nat
  rd_ent :: "key \<Rightarrow> entry"

definition no_entry :: entry where
  "no_entry = \<lparr>e_zset = [], e_str = None, e_dl = None\<rparr>"

definition empty_db :: "nat \<Rightarrow> refdb" where
  "empty_db t = \<lparr>rd_us = t, rd_ent = (\<lambda>_. no_entry)\<rparr>"

definition ref_live :: "entry \<Rightarrow> bool" where
  "ref_live e \<longleftrightarrow> e_zset e \<noteq> [] \<or> e_str e \<noteq> None"

definition ref_dl :: "entry \<Rightarrow> int option" where
  "ref_dl e = (if ref_live e then e_dl e else None)"

definition ref_upd :: "refdb \<Rightarrow> key \<Rightarrow> entry \<Rightarrow> refdb" where
  "ref_upd s k e = s\<lparr>rd_ent := (rd_ent s)(k := e)\<rparr>"

definition ref_members :: "entry \<Rightarrow> member list" where
  "ref_members e = sort_key (\<lambda>m. the (map_of (e_zset e) m)) (map fst (AList.clearjunk (e_zset e)))"

definition ref_redis :: "refdb redis" where
  "ref_redis = \<lparr>
     r_us = (\<lambda>s. int (rd_us s)),
     r_zscore = (\<lambda>s k m. map_of (e_zset (rd_ent s k)) m),
     r_zmembers = (\<lambda>s k. ref_members (rd_ent s k)),
     r_zadd = (\<lambda>s k sc m. let e = rd_ent s k in
        ref_upd s k (e\<lparr>e_zset := AList.update m sc (e_zset e), e_dl := ref_dl e\<rparr>)),
     r_zrem = (\<lambda>s k m. let e = rd_ent s k in
        ref_upd s k (e\<lparr>e_zset := AList.delete m (e_zset e)\<rparr>)),
     r_zremrangebyscore = (\<lambda>s k hi. let e = rd_ent s k in
        ref_upd s k (e\<lparr>e_zset := filter (\<lambda>p. hi < snd p) (AList.clearjunk (e_zset e))\<rparr>)),
     r_get = (\<lambda>s k. e_str (rd_ent s k)),
     r_set = (\<lambda>s k v px. ref_upd s k
        \<lparr>e_zset = [], e_str = Some v, e_dl = map_option (\<lambda>d. int (rd_us s) div 1000 + d) px\<rparr>),
     r_incrby = (\<lambda>s k d. let e = rd_ent s k in
        case e_str e of
          None \<Rightarrow> if e_zset e = [] then ref_upd s k \<lparr>e_zset = [], e_str = Some (format_int d), e_dl = None\<rparr> else s
        | Some v \<Rightarrow> (case parse_int v of None \<Rightarrow> s
            | Some n \<Rightarrow> if in_int64 (n + d) then ref_upd s k (e\<lparr>e_str := Some (format_int (n + d))\<rparr>) else s)),
     r_del = (\<lambda>s k. ref_upd s k no_entry),
     r_pexpire = (\<lambda>s k d. let e = rd_ent s k in
        if d \<le> 0 then ref_upd s k no_entry
        else ref_upd s k (e\<lparr>e_dl := (if ref_live e then Some (int (rd_us s) div 1000 + d) else None)\<rparr>)),
     r_deadline = (\<lambda>s k. ref_dl (rd_ent s k)),
     r_pass = (\<lambda>s d. \<lparr>rd_us = rd_us s + nat d,
        rd_ent = (\<lambda>k. let e = rd_ent s k in
          case ref_dl e of None \<Rightarrow> e
          | Some t \<Rightarrow> if t \<le> (int (rd_us s) + d) div 1000 then no_entry else e)\<rparr>)\<rparr>"

lemma ref_live_no_entry [simp]: "\<not> ref_live no_entry"
  by (simp add: ref_live_def no_entry_def)

lemma ref_dl_no_entry [simp]: "ref_dl no_entry = None"
  by (simp add: ref_dl_def)

lemma no_entry_fields [simp]: "e_zset no_entry = []" "e_str no_entry = None"
  by (simp_all add: no_entry_def)

lemma ref_members_set: "set (ref_members e) = dom (map_of (e_zset e))"
  by (simp add: ref_members_def clearjunk_keys_set dom_map_of_conv_image_fst flip: set_map)

lemma ref_members_Nil [simp]: "ref_members e = [] \<longleftrightarrow> e_zset e = []"
proof -
  have "ref_members e = [] \<longleftrightarrow> set (ref_members e) = {}" by simp
  also have "\<dots> \<longleftrightarrow> e_zset e = []"
    by (simp add: ref_members_set dom_map_of_conv_image_fst)
  finally show ?thesis .
qed

lemma ref_live_members: "ref_live e \<longleftrightarrow> ref_members e \<noteq> [] \<or> e_str e \<noteq> None"
  by (simp add: ref_live_def)

lemma ref_members_distinct: "distinct (ref_members e)"
  by (simp add: ref_members_def)

lemma ref_members_sorted: "sorted (map (\<lambda>m. the (map_of (e_zset e) m)) (ref_members e))"
  by (simp add: ref_members_def)

lemma ref_remrange: "map_of (filter (\<lambda>p. hi < snd p) (AList.clearjunk xs)) m =
    (case map_of xs m of None \<Rightarrow> None | Some sc \<Rightarrow> if sc \<le> hi then None else Some sc)"
  for xs :: "(member \<times> int) list"
proof (induction xs rule: AList.clearjunk.induct)
  case (2 p ps)
  then show ?case by (cases p) (auto simp: delete_conv' split: option.splits)
qed simp

lemma ref_ops [simp]:
  "r_us ref_redis s = int (rd_us s)"
  "r_zscore ref_redis s k m = map_of (e_zset (rd_ent s k)) m"
  "r_zmembers ref_redis s k = ref_members (rd_ent s k)"
  "r_zadd ref_redis s k sc m = ref_upd s k ((rd_ent s k)
     \<lparr>e_zset := AList.update m sc (e_zset (rd_ent s k)), e_dl := ref_dl (rd_ent s k)\<rparr>)"
  "r_zrem ref_redis s k m = ref_upd s k ((rd_ent s k)
     \<lparr>e_zset := AList.delete m (e_zset (rd_ent s k))\<rparr>)"
  "r_zremrangebyscore ref_redis s k hi = ref_upd s k ((rd_ent s k)
     \<lparr>e_zset := filter (\<lambda>p. hi < snd p) (AList.clearjunk (e_zset (rd_ent s k)))\<rparr>)"
  "r_get ref_redis s k = e_str (rd_ent s k)"
  "r_set ref_redis s k v px = ref_upd s k
     \<lparr>e_zset = [], e_str = Some v, e_dl = map_option (\<lambda>d. int (rd_us s) div 1000 + d) px\<rparr>"
  "r_del ref_redis s k = ref_upd s k no_entry"
  "r_pexpire ref_redis s k d = (if d \<le> 0 then ref_upd s k no_entry
     else ref_upd s k ((rd_ent s k)
       \<lparr>e_dl := (if ref_live (rd_ent s k) then Some (int (rd_us s) div 1000 + d) else None)\<rparr>))"
  "r_deadline ref_redis s k = ref_dl (rd_ent s k)"
  "r_pass ref_redis s d = \<lparr>rd_us = rd_us s + nat d,
     rd_ent = (\<lambda>k. case ref_dl (rd_ent s k) of None \<Rightarrow> rd_ent s k
        | Some t \<Rightarrow> if t \<le> (int (rd_us s) + d) div 1000 then no_entry else rd_ent s k)\<rparr>"
  by (simp_all add: ref_redis_def Let_def)

lemma ref_incrby [simp]: "r_incrby ref_redis s k d =
    (case e_str (rd_ent s k) of
       None \<Rightarrow> if e_zset (rd_ent s k) = []
         then ref_upd s k \<lparr>e_zset = [], e_str = Some (format_int d), e_dl = None\<rparr> else s
     | Some v \<Rightarrow> (case parse_int v of None \<Rightarrow> s
         | Some n \<Rightarrow> if in_int64 (n + d)
             then ref_upd s k ((rd_ent s k)\<lparr>e_str := Some (format_int (n + d))\<rparr>) else s))"
  by (simp add: ref_redis_def Let_def)

lemma ref_upd_sel [simp]:
  "rd_us (ref_upd s k e) = rd_us s"
  "rd_ent (ref_upd s k e) = (rd_ent s)(k := e)"
  by (simp_all add: ref_upd_def)

lemma ref_exists [simp]: "r_exists ref_redis s k \<longleftrightarrow> ref_live (rd_ent s k)"
  by (simp add: r_exists_def ref_live_def)

lemma update_not_Nil [simp]: "AList.update m sc xs \<noteq> []"
  by (cases xs) auto

interpretation ref: redis_store ref_redis
proof (unfold_locales, goal_cases)
qed (auto simp: ref_members_set ref_members_distinct ref_members_sorted update_conv'
     delete_conv' ref_remrange ref_dl_def ref_live_def parse_int_format_int
     split: option.splits if_splits)

end
