(* ===== verification/Redis_Net.thy ===== *)
theory Redis_Net
  imports Redis_Iface
begin

text \<open>
  How the Go process talks to Redis: programs of round trips.  A round trip
  runs one atomic server-side action (a command, a Lua script, a pipeline).
  Before it, other clients may have changed the server; it may fail before
  the server saw it, or after (the action took effect and the reply was lost).
  The world carries the outcome of every future round trip as a list, so every
  schedule of interference and failures is a value of \<open>w_net\<close>; once the list
  is used up the network is quiet and sound.

  \<open>bindW\<close> is Go's \<open>if err != nil { return ..., err }\<close>; \<open>tryW\<close> is the code's
  best-effort call whose error is logged and dropped.
\<close>

datatype fault = Fine | Lost | ReplyLost

datatype err =
    ErrRedis
  | ErrInvalid string
  | ErrDenied
  | ErrUnavailable

record 's world =
  w_db :: 's
  w_net :: "(('s \<Rightarrow> 's) \<times> fault) list"

type_synonym ('s, 'a) prog = "'s world \<Rightarrow> (err + 'a) \<times> 's world"

definition returnW :: "'a \<Rightarrow> ('s, 'a) prog" where
  "returnW a w = (Inr a, w)"

definition failW :: "err \<Rightarrow> ('s, 'a) prog" where
  "failW e w = (Inl e, w)"

definition bindW :: "('s, 'a) prog \<Rightarrow> ('a \<Rightarrow> ('s, 'b) prog) \<Rightarrow> ('s, 'b) prog" where
  "bindW p k w = (case p w of (Inl e, w') \<Rightarrow> (Inl e, w') | (Inr a, w') \<Rightarrow> k a w')"

definition tryW :: "('s, 'a) prog \<Rightarrow> ('s, unit) prog" where
  "tryW p w = (Inr (), snd (p w))"

definition catchW :: "('s, 'a) prog \<Rightarrow> ('s, err + 'a) prog" where
  "catchW p w = (case p w of (r, w') \<Rightarrow> (Inr r, w'))"

fun round_trip :: "('s \<Rightarrow> 'a \<times> 's) \<Rightarrow> ('s, 'a) prog" where
  "round_trip f w =
     (case w_net w of
        [] \<Rightarrow> (case f (w_db w) of (a, d) \<Rightarrow> (Inr a, w\<lparr>w_db := d\<rparr>))
      | (env, Fine) # rest \<Rightarrow>
          (case f (env (w_db w)) of (a, d) \<Rightarrow> (Inr a, w\<lparr>w_db := d, w_net := rest\<rparr>))
      | (env, Lost) # rest \<Rightarrow> (Inl ErrRedis, w\<lparr>w_db := env (w_db w), w_net := rest\<rparr>)
      | (env, ReplyLost) # rest \<Rightarrow>
          (Inl ErrRedis, w\<lparr>w_db := snd (f (env (w_db w))), w_net := rest\<rparr>))"

declare round_trip.simps [simp del]

text \<open>A query changes nothing; an update has no reply of interest.\<close>

definition query :: "('s \<Rightarrow> 'a) \<Rightarrow> ('s, 'a) prog" where
  "query f = round_trip (\<lambda>s. (f s, s))"

definition update :: "('s \<Rightarrow> 's) \<Rightarrow> ('s, unit) prog" where
  "update f = round_trip (\<lambda>s. ((), f s))"

text \<open>The quiet network: no interference, no failure.\<close>

definition quiet :: "'s \<Rightarrow> 's world" where
  "quiet s = \<lparr>w_db = s, w_net = []\<rparr>"

lemma quiet_sel [simp]: "w_db (quiet s) = s" "w_net (quiet s) = []"
  by (simp_all add: quiet_def)

lemma quiet_inj [simp]: "quiet a = quiet b \<longleftrightarrow> a = b"
  by (simp add: quiet_def)

lemma round_trip_quiet [simp]: "round_trip f (quiet s) = (Inr (fst (f s)), quiet (snd (f s)))"
  by (simp add: round_trip.simps quiet_def split: prod.split)

lemma query_quiet [simp]: "query f (quiet s) = (Inr (f s), quiet s)"
  by (simp add: query_def)

lemma update_quiet [simp]: "update f (quiet s) = (Inr (), quiet (f s))"
  by (simp add: update_def)

lemma returnW_app [simp]: "returnW a w = (Inr a, w)"
  by (simp add: returnW_def)

lemma failW_app [simp]: "failW e w = (Inl e, w)"
  by (simp add: failW_def)

lemma bindW_Inr [simp]: "p w = (Inr a, w') \<Longrightarrow> bindW p k w = k a w'"
  by (simp add: bindW_def)

lemma bindW_Inl [simp]: "p w = (Inl e, w') \<Longrightarrow> bindW p k w = (Inl e, w')"
  by (simp add: bindW_def)

lemma tryW_eq [simp]: "p w = (r, w') \<Longrightarrow> tryW p w = (Inr (), w')"
  by (simp add: tryW_def)

lemma catchW_eq [simp]: "p w = (r, w') \<Longrightarrow> catchW p w = (Inr r, w')"
  by (simp add: catchW_def)

section \<open>Invariants through arbitrary interference and failure\<close>

text \<open>
  \<open>net_keeps I w\<close>: every other client's action keeps \<open>I\<close>.  \<open>keeps I p\<close>: whatever
  the network does, running \<open>p\<close> from a state with \<open>I\<close> ends in one with \<open>I\<close>.
\<close>

definition net_keeps :: "('s \<Rightarrow> bool) \<Rightarrow> 's world \<Rightarrow> bool" where
  "net_keeps I w \<longleftrightarrow> (\<forall>e f. (e, f) \<in> set (w_net w) \<longrightarrow> (\<forall>s. I s \<longrightarrow> I (e s)))"

definition keeps :: "('s \<Rightarrow> bool) \<Rightarrow> ('s, 'a) prog \<Rightarrow> bool" where
  "keeps I p \<longleftrightarrow>
     (\<forall>w. I (w_db w) \<and> net_keeps I w \<longrightarrow>
          I (w_db (snd (p w))) \<and> net_keeps I (snd (p w)))"

text \<open>
  A plain pipeline (\<open>rdb.Pipeline()\<close>) is not a transaction: other clients may run
  between its commands, and each reply may be lost; \<open>Exec\<close> reports an error when
  any command failed.  A \<open>TxPipeline\<close> is one \<open>round_trip\<close>.
\<close>

fun pipelineW :: "('s \<Rightarrow> 'a \<times> 's) list \<Rightarrow> ('s, 'a list) prog" where
  "pipelineW [] w = (Inr [], w)"
| "pipelineW (f # fs) w =
     (case round_trip f w of
        (r, w1) \<Rightarrow> (case pipelineW fs w1 of
          (rs, w2) \<Rightarrow>
            ((case r of Inl e \<Rightarrow> Inl e
              | Inr a \<Rightarrow> (case rs of Inl e \<Rightarrow> Inl e | Inr as \<Rightarrow> Inr (a # as))), w2)))"

fun seq_actions :: "('s \<Rightarrow> 'a \<times> 's) list \<Rightarrow> 's \<Rightarrow> 'a list \<times> 's" where
  "seq_actions [] s = ([], s)"
| "seq_actions (f # fs) s =
     (case f s of (a, s1) \<Rightarrow> (case seq_actions fs s1 of (as, s2) \<Rightarrow> (a # as, s2)))"

lemma pipelineW_quiet [simp]:
  "pipelineW fs (quiet s) = (Inr (fst (seq_actions fs s)), quiet (snd (seq_actions fs s)))"
proof (induction fs arbitrary: s)
  case (Cons f fs)
  then show ?case by (cases "f s"; cases "seq_actions fs (snd (f s))") simp
qed simp

named_theorems keeps_intros \<open>programs that keep an invariant\<close>

lemma keepsD:
  "keeps I p \<Longrightarrow> I (w_db w) \<Longrightarrow> net_keeps I w \<Longrightarrow> p w = (r, w') \<Longrightarrow> I (w_db w') \<and> net_keeps I w'"
  by (metis keeps_def snd_conv)

lemma keeps_round_trip [keeps_intros]:
  assumes f: "\<And>s. I s \<Longrightarrow> I (snd (f s))"
  shows "keeps I (round_trip f)"
proof -
  have "I (w_db (snd (round_trip f w))) \<and> net_keeps I (snd (round_trip f w))"
    if I: "I (w_db w)" and N: "net_keeps I w" for w
  proof (cases "w_net w")
    case Nil
    then show ?thesis using f [OF I]
      by (cases "f (w_db w)") (simp add: round_trip.simps net_keeps_def)
  next
    case (Cons p rest)
    obtain env fl where p: "p = (env, fl)" by (cases p)
    have E: "I (env (w_db w))"
      using I N Cons p by (auto simp: net_keeps_def)
    have R: "\<And>d. net_keeps I (w\<lparr>w_db := d, w_net := rest\<rparr>)"
      using N Cons by (auto simp: net_keeps_def)
    show ?thesis using f [OF E] E R Cons p
      by (cases fl; cases "f (env (w_db w))") (simp_all add: round_trip.simps)
  qed
  then show ?thesis by (simp add: keeps_def)
qed

lemma keeps_query [keeps_intros]: "keeps I (query f)"
  by (simp add: query_def keeps_round_trip)

lemma keeps_update [keeps_intros]: "(\<And>s. I s \<Longrightarrow> I (f s)) \<Longrightarrow> keeps I (update f)"
  by (simp add: update_def keeps_round_trip)

lemma keeps_return [keeps_intros]: "keeps I (returnW a)"
  by (simp add: keeps_def)

lemma keeps_fail [keeps_intros]: "keeps I (failW e)"
  by (simp add: keeps_def)

lemma keeps_bind [keeps_intros]:
  assumes p: "keeps I p" and k: "\<And>a. keeps I (k a)"
  shows "keeps I (bindW p k)"
proof -
  have "I (w_db (snd (bindW p k w))) \<and> net_keeps I (snd (bindW p k w))"
    if I: "I (w_db w)" and N: "net_keeps I w" for w
  proof -
    obtain r w' where pw: "p w = (r, w')" by (cases "p w")
    from keepsD [OF p I N pw] have w': "I (w_db w')" "net_keeps I w'" by auto
    then show ?thesis using pw k by (cases r) (auto simp: bindW_def keeps_def)
  qed
  then show ?thesis by (simp add: keeps_def)
qed

lemma keeps_try [keeps_intros]: "keeps I p \<Longrightarrow> keeps I (tryW p)"
  by (simp add: keeps_def tryW_def)

lemma keeps_catch [keeps_intros]: "keeps I p \<Longrightarrow> keeps I (catchW p)"
  by (auto simp: keeps_def catchW_def split: prod.split)

lemma keeps_pipeline [keeps_intros]:
  assumes "\<And>f s. f \<in> set fs \<Longrightarrow> I s \<Longrightarrow> I (snd (f s))"
  shows "keeps I (pipelineW fs)"
  using assms
proof (induction fs)
  case Nil
  then show ?case by (simp add: keeps_def)
next
  case (Cons f fs)
  then have f: "keeps I (round_trip f)" and fs: "keeps I (pipelineW fs)"
    by (auto intro: keeps_round_trip)
  have "I (w_db (snd (pipelineW (f # fs) w))) \<and> net_keeps I (snd (pipelineW (f # fs) w))"
    if I: "I (w_db w)" and N: "net_keeps I w" for w
  proof -
    obtain r w1 where 1: "round_trip f w = (r, w1)" by (cases "round_trip f w")
    obtain rs w2 where 2: "pipelineW fs w1 = (rs, w2)" by (cases "pipelineW fs w1")
    from keepsD [OF f I N 1] have "I (w_db w1)" "net_keeps I w1" by auto
    from keepsD [OF fs this 2] 1 2 show ?thesis by simp
  qed
  then show ?case by (simp add: keeps_def)
qed

lemma keeps_if [keeps_intros]:
  "(b \<Longrightarrow> keeps I p) \<Longrightarrow> (\<not> b \<Longrightarrow> keeps I q) \<Longrightarrow> keeps I (if b then p else q)"
  by simp

lemma keeps_prod [keeps_intros]: "(\<And>a b. keeps I (k a b)) \<Longrightarrow> keeps I (case x of (a, b) \<Rightarrow> k a b)"
  by (simp split: prod.split)

end
