(* ===== verification/Slot_Keys.thy ===== *)
theory Slot_Keys
  imports Prelude
begin

text \<open>
  The Redis key namespace of the concurrency cache
  (\<open>backend/internal/repository/concurrency_cache.go\<close> and
  \<open>account_proxy_concurrency.go\<close>): one key per account, user, API key, or
  user and group, each a fixed prefix and decimal identifiers.  The lemmas say
  that different components of the cache never share a key.
\<close>

definition accountSlotKeyPrefix :: key where
  "accountSlotKeyPrefix = ''concurrency:account:''"

definition userSlotKeyPrefix :: key where
  "userSlotKeyPrefix = ''concurrency:user:''"

definition userGroupSlotKeyPrefix :: key where
  "userGroupSlotKeyPrefix = ''concurrency:user_group:''"

definition apiKeySlotKeyPrefix :: key where
  "apiKeySlotKeyPrefix = ''concurrency:api_key:''"

definition liveAccountSlotKeyPrefix :: key where
  "liveAccountSlotKeyPrefix = ''concurrency:live:account:''"

definition liveUserSlotKeyPrefix :: key where
  "liveUserSlotKeyPrefix = ''concurrency:live:user:''"

definition liveUserGroupSlotKeyPrefix :: key where
  "liveUserGroupSlotKeyPrefix = ''concurrency:live:user_group:''"

definition liveAPIKeySlotKeyPrefix :: key where
  "liveAPIKeySlotKeyPrefix = ''concurrency:live:api_key:''"

definition openAIWSIngressLeaseKeyPrefix :: key where
  "openAIWSIngressLeaseKeyPrefix = ''concurrency:openai_ws_ingress:api_key:''"

definition waitQueueKeyPrefix :: key where
  "waitQueueKeyPrefix = ''concurrency:wait:''"

definition accountWaitKeyPrefix :: key where
  "accountWaitKeyPrefix = ''wait:account:''"

definition openAIWSIngressLeaseTTLSeconds :: int where
  "openAIWSIngressLeaseTTLSeconds = 60"

definition liveLeaseTTLSeconds :: int where
  "liveLeaseTTLSeconds = 60"

definition defaultSlotTTLMinutes :: int where
  "defaultSlotTTLMinutes = 15"

definition accountActiveIndexKey :: key where
  "accountActiveIndexKey = ''concurrency:account:active_index''"

definition userActiveIndexKey :: key where
  "userActiveIndexKey = ''concurrency:user:active_index''"

definition activeIndexCleanupBatchSize :: nat where
  "activeIndexCleanupBatchSize = 1000"

definition accountSlotKey :: "id \<Rightarrow> key" where
  "accountSlotKey accountID = accountSlotKeyPrefix @ format_int accountID"

definition userSlotKey :: "id \<Rightarrow> key" where
  "userSlotKey userID = userSlotKeyPrefix @ format_int userID"

definition apiKeySlotKey :: "id \<Rightarrow> key" where
  "apiKeySlotKey apiKeyID = apiKeySlotKeyPrefix @ format_int apiKeyID"

definition liveAccountSlotKey :: "id \<Rightarrow> key" where
  "liveAccountSlotKey accountID = liveAccountSlotKeyPrefix @ format_int accountID"

definition liveUserSlotKey :: "id \<Rightarrow> key" where
  "liveUserSlotKey userID = liveUserSlotKeyPrefix @ format_int userID"

definition userGroupSlotKey :: "id \<Rightarrow> id \<Rightarrow> key" where
  "userGroupSlotKey userID groupID =
     userGroupSlotKeyPrefix @ format_int userID @ CHR '':'' # format_int groupID"

definition liveUserGroupSlotKey :: "id \<Rightarrow> id \<Rightarrow> key" where
  "liveUserGroupSlotKey userID groupID =
     liveUserGroupSlotKeyPrefix @ format_int userID @ CHR '':'' # format_int groupID"

definition liveAPIKeySlotKey :: "id \<Rightarrow> key" where
  "liveAPIKeySlotKey apiKeyID = liveAPIKeySlotKeyPrefix @ format_int apiKeyID"

definition openAIWSIngressLeaseKey :: "id \<Rightarrow> key" where
  "openAIWSIngressLeaseKey apiKeyID = openAIWSIngressLeaseKeyPrefix @ format_int apiKeyID"

definition waitQueueKey :: "id \<Rightarrow> key" where
  "waitQueueKey userID = waitQueueKeyPrefix @ format_int userID"

definition accountWaitKey :: "id \<Rightarrow> key" where
  "accountWaitKey accountID = accountWaitKeyPrefix @ format_int accountID"

definition accountProxySlotKey :: "id \<Rightarrow> id \<Rightarrow> key" where
  "accountProxySlotKey accountID proxyID =
     ''concurrency:proxy_pool:{'' @ format_int accountID @ ''}:proxy:'' @ format_int proxyID"

definition accountProxyCursorKey :: "id \<Rightarrow> key" where
  "accountProxyCursorKey accountID =
     ''concurrency:proxy_pool:{'' @ format_int accountID @ ''}:cursor''"

lemmas prefix_defs =
  accountSlotKeyPrefix_def userSlotKeyPrefix_def userGroupSlotKeyPrefix_def
  apiKeySlotKeyPrefix_def liveAccountSlotKeyPrefix_def liveUserSlotKeyPrefix_def
  liveUserGroupSlotKeyPrefix_def liveAPIKeySlotKeyPrefix_def
  openAIWSIngressLeaseKeyPrefix_def waitQueueKeyPrefix_def accountWaitKeyPrefix_def
  accountActiveIndexKey_def userActiveIndexKey_def

lemmas slot_key_defs =
  accountSlotKey_def userSlotKey_def apiKeySlotKey_def liveAccountSlotKey_def
  liveUserSlotKey_def userGroupSlotKey_def liveUserGroupSlotKey_def liveAPIKeySlotKey_def
  openAIWSIngressLeaseKey_def waitQueueKey_def accountWaitKey_def
  accountProxySlotKey_def accountProxyCursorKey_def

section \<open>Injectivity\<close>

lemma slot_key_inj [key_simps]:
  "accountSlotKey a = accountSlotKey b \<longleftrightarrow> a = b"
  "userSlotKey a = userSlotKey b \<longleftrightarrow> a = b"
  "apiKeySlotKey a = apiKeySlotKey b \<longleftrightarrow> a = b"
  "liveAccountSlotKey a = liveAccountSlotKey b \<longleftrightarrow> a = b"
  "liveUserSlotKey a = liveUserSlotKey b \<longleftrightarrow> a = b"
  "liveAPIKeySlotKey a = liveAPIKeySlotKey b \<longleftrightarrow> a = b"
  "openAIWSIngressLeaseKey a = openAIWSIngressLeaseKey b \<longleftrightarrow> a = b"
  "waitQueueKey a = waitQueueKey b \<longleftrightarrow> a = b"
  "accountWaitKey a = accountWaitKey b \<longleftrightarrow> a = b"
  by (simp_all add: slot_key_defs key_simps)

lemma userGroupSlotKey_inj [key_simps]:
  "userGroupSlotKey u g = userGroupSlotKey u' g' \<longleftrightarrow> u = u' \<and> g = g'"
  "liveUserGroupSlotKey u g = liveUserGroupSlotKey u' g' \<longleftrightarrow> u = u' \<and> g = g'"
  by (simp_all add: slot_key_defs key_simps)

lemma format_int_no_brace: "CHR ''}'' \<notin> set (format_int i)"
proof
  assume "CHR ''}'' \<in> set (format_int i)"
  from format_int_chars [OF this] have "\<exists>d<10. CHR ''}'' = digit d" by simp
  then obtain d where "d < 10" "CHR ''}'' = digit d" by blast
  then have "(of_char CHR ''}'' :: nat) = 48 + d" by (metis digit_code)
  with \<open>d < 10\<close> show False by simp
qed

lemma split_at_brace:
  "CHR ''}'' \<notin> set xs \<Longrightarrow> CHR ''}'' \<notin> set ys \<Longrightarrow>
   xs @ CHR ''}'' # us = ys @ CHR ''}'' # vs \<longleftrightarrow> xs = ys \<and> us = vs"
proof (induction xs arbitrary: ys)
  case Nil
  then show ?case by (cases ys) auto
next
  case (Cons x xs)
  then show ?case by (cases ys) auto
qed

lemma proxy_key_inj [key_simps]:
  "accountProxySlotKey a p = accountProxySlotKey b q \<longleftrightarrow> a = b \<and> p = q"
  "accountProxyCursorKey a = accountProxyCursorKey b \<longleftrightarrow> a = b"
  "accountProxySlotKey a p \<noteq> accountProxyCursorKey b"
  "accountProxyCursorKey b \<noteq> accountProxySlotKey a p"
  by (simp_all add: slot_key_defs key_simps split_at_brace [OF format_int_no_brace format_int_no_brace])

section \<open>Disjoint namespaces\<close>

lemma accountSlotKey_disjoint [key_simps]:
  "accountSlotKey a \<noteq> userSlotKey a'"
  "accountSlotKey a \<noteq> apiKeySlotKey a'"
  "accountSlotKey a \<noteq> liveAccountSlotKey a'"
  "accountSlotKey a \<noteq> liveUserSlotKey a'"
  "accountSlotKey a \<noteq> liveAPIKeySlotKey a'"
  "accountSlotKey a \<noteq> openAIWSIngressLeaseKey a'"
  "accountSlotKey a \<noteq> userGroupSlotKey u' g'"
  "accountSlotKey a \<noteq> liveUserGroupSlotKey u' g'"
  "accountSlotKey a \<noteq> accountProxySlotKey a' p'"
  "accountSlotKey a \<noteq> accountProxyCursorKey a'"
  "accountSlotKey a \<noteq> waitQueueKey a'"
  "accountSlotKey a \<noteq> accountWaitKey a'"
  by (simp_all add: slot_key_defs prefix_defs)

lemma userSlotKey_disjoint [key_simps]:
  "userSlotKey a \<noteq> accountSlotKey a'"
  "userSlotKey a \<noteq> apiKeySlotKey a'"
  "userSlotKey a \<noteq> liveAccountSlotKey a'"
  "userSlotKey a \<noteq> liveUserSlotKey a'"
  "userSlotKey a \<noteq> liveAPIKeySlotKey a'"
  "userSlotKey a \<noteq> openAIWSIngressLeaseKey a'"
  "userSlotKey a \<noteq> userGroupSlotKey u' g'"
  "userSlotKey a \<noteq> liveUserGroupSlotKey u' g'"
  "userSlotKey a \<noteq> accountProxySlotKey a' p'"
  "userSlotKey a \<noteq> accountProxyCursorKey a'"
  "userSlotKey a \<noteq> waitQueueKey a'"
  "userSlotKey a \<noteq> accountWaitKey a'"
  by (simp_all add: slot_key_defs prefix_defs)

lemma apiKeySlotKey_disjoint [key_simps]:
  "apiKeySlotKey a \<noteq> accountSlotKey a'"
  "apiKeySlotKey a \<noteq> userSlotKey a'"
  "apiKeySlotKey a \<noteq> liveAccountSlotKey a'"
  "apiKeySlotKey a \<noteq> liveUserSlotKey a'"
  "apiKeySlotKey a \<noteq> liveAPIKeySlotKey a'"
  "apiKeySlotKey a \<noteq> openAIWSIngressLeaseKey a'"
  "apiKeySlotKey a \<noteq> userGroupSlotKey u' g'"
  "apiKeySlotKey a \<noteq> liveUserGroupSlotKey u' g'"
  "apiKeySlotKey a \<noteq> accountProxySlotKey a' p'"
  "apiKeySlotKey a \<noteq> accountProxyCursorKey a'"
  "apiKeySlotKey a \<noteq> waitQueueKey a'"
  "apiKeySlotKey a \<noteq> accountWaitKey a'"
  by (simp_all add: slot_key_defs prefix_defs)

lemma liveAccountSlotKey_disjoint [key_simps]:
  "liveAccountSlotKey a \<noteq> accountSlotKey a'"
  "liveAccountSlotKey a \<noteq> userSlotKey a'"
  "liveAccountSlotKey a \<noteq> apiKeySlotKey a'"
  "liveAccountSlotKey a \<noteq> liveUserSlotKey a'"
  "liveAccountSlotKey a \<noteq> liveAPIKeySlotKey a'"
  "liveAccountSlotKey a \<noteq> openAIWSIngressLeaseKey a'"
  "liveAccountSlotKey a \<noteq> userGroupSlotKey u' g'"
  "liveAccountSlotKey a \<noteq> liveUserGroupSlotKey u' g'"
  "liveAccountSlotKey a \<noteq> accountProxySlotKey a' p'"
  "liveAccountSlotKey a \<noteq> accountProxyCursorKey a'"
  "liveAccountSlotKey a \<noteq> waitQueueKey a'"
  "liveAccountSlotKey a \<noteq> accountWaitKey a'"
  by (simp_all add: slot_key_defs prefix_defs)

lemma liveUserSlotKey_disjoint [key_simps]:
  "liveUserSlotKey a \<noteq> accountSlotKey a'"
  "liveUserSlotKey a \<noteq> userSlotKey a'"
  "liveUserSlotKey a \<noteq> apiKeySlotKey a'"
  "liveUserSlotKey a \<noteq> liveAccountSlotKey a'"
  "liveUserSlotKey a \<noteq> liveAPIKeySlotKey a'"
  "liveUserSlotKey a \<noteq> openAIWSIngressLeaseKey a'"
  "liveUserSlotKey a \<noteq> userGroupSlotKey u' g'"
  "liveUserSlotKey a \<noteq> liveUserGroupSlotKey u' g'"
  "liveUserSlotKey a \<noteq> accountProxySlotKey a' p'"
  "liveUserSlotKey a \<noteq> accountProxyCursorKey a'"
  "liveUserSlotKey a \<noteq> waitQueueKey a'"
  "liveUserSlotKey a \<noteq> accountWaitKey a'"
  by (simp_all add: slot_key_defs prefix_defs)

lemma liveAPIKeySlotKey_disjoint [key_simps]:
  "liveAPIKeySlotKey a \<noteq> accountSlotKey a'"
  "liveAPIKeySlotKey a \<noteq> userSlotKey a'"
  "liveAPIKeySlotKey a \<noteq> apiKeySlotKey a'"
  "liveAPIKeySlotKey a \<noteq> liveAccountSlotKey a'"
  "liveAPIKeySlotKey a \<noteq> liveUserSlotKey a'"
  "liveAPIKeySlotKey a \<noteq> openAIWSIngressLeaseKey a'"
  "liveAPIKeySlotKey a \<noteq> userGroupSlotKey u' g'"
  "liveAPIKeySlotKey a \<noteq> liveUserGroupSlotKey u' g'"
  "liveAPIKeySlotKey a \<noteq> accountProxySlotKey a' p'"
  "liveAPIKeySlotKey a \<noteq> accountProxyCursorKey a'"
  "liveAPIKeySlotKey a \<noteq> waitQueueKey a'"
  "liveAPIKeySlotKey a \<noteq> accountWaitKey a'"
  by (simp_all add: slot_key_defs prefix_defs)

lemma openAIWSIngressLeaseKey_disjoint [key_simps]:
  "openAIWSIngressLeaseKey a \<noteq> accountSlotKey a'"
  "openAIWSIngressLeaseKey a \<noteq> userSlotKey a'"
  "openAIWSIngressLeaseKey a \<noteq> apiKeySlotKey a'"
  "openAIWSIngressLeaseKey a \<noteq> liveAccountSlotKey a'"
  "openAIWSIngressLeaseKey a \<noteq> liveUserSlotKey a'"
  "openAIWSIngressLeaseKey a \<noteq> liveAPIKeySlotKey a'"
  "openAIWSIngressLeaseKey a \<noteq> userGroupSlotKey u' g'"
  "openAIWSIngressLeaseKey a \<noteq> liveUserGroupSlotKey u' g'"
  "openAIWSIngressLeaseKey a \<noteq> accountProxySlotKey a' p'"
  "openAIWSIngressLeaseKey a \<noteq> accountProxyCursorKey a'"
  "openAIWSIngressLeaseKey a \<noteq> waitQueueKey a'"
  "openAIWSIngressLeaseKey a \<noteq> accountWaitKey a'"
  by (simp_all add: slot_key_defs prefix_defs)

lemma userGroupSlotKey_disjoint [key_simps]:
  "userGroupSlotKey u g \<noteq> accountSlotKey a'"
  "userGroupSlotKey u g \<noteq> userSlotKey a'"
  "userGroupSlotKey u g \<noteq> apiKeySlotKey a'"
  "userGroupSlotKey u g \<noteq> liveAccountSlotKey a'"
  "userGroupSlotKey u g \<noteq> liveUserSlotKey a'"
  "userGroupSlotKey u g \<noteq> liveAPIKeySlotKey a'"
  "userGroupSlotKey u g \<noteq> openAIWSIngressLeaseKey a'"
  "userGroupSlotKey u g \<noteq> liveUserGroupSlotKey u' g'"
  "userGroupSlotKey u g \<noteq> accountProxySlotKey a' p'"
  "userGroupSlotKey u g \<noteq> accountProxyCursorKey a'"
  "userGroupSlotKey u g \<noteq> waitQueueKey a'"
  "userGroupSlotKey u g \<noteq> accountWaitKey a'"
  by (simp_all add: slot_key_defs prefix_defs)

lemma liveUserGroupSlotKey_disjoint [key_simps]:
  "liveUserGroupSlotKey u g \<noteq> accountSlotKey a'"
  "liveUserGroupSlotKey u g \<noteq> userSlotKey a'"
  "liveUserGroupSlotKey u g \<noteq> apiKeySlotKey a'"
  "liveUserGroupSlotKey u g \<noteq> liveAccountSlotKey a'"
  "liveUserGroupSlotKey u g \<noteq> liveUserSlotKey a'"
  "liveUserGroupSlotKey u g \<noteq> liveAPIKeySlotKey a'"
  "liveUserGroupSlotKey u g \<noteq> openAIWSIngressLeaseKey a'"
  "liveUserGroupSlotKey u g \<noteq> userGroupSlotKey u' g'"
  "liveUserGroupSlotKey u g \<noteq> accountProxySlotKey a' p'"
  "liveUserGroupSlotKey u g \<noteq> accountProxyCursorKey a'"
  "liveUserGroupSlotKey u g \<noteq> waitQueueKey a'"
  "liveUserGroupSlotKey u g \<noteq> accountWaitKey a'"
  by (simp_all add: slot_key_defs prefix_defs)

lemma accountProxySlotKey_disjoint [key_simps]:
  "accountProxySlotKey a p \<noteq> accountSlotKey a'"
  "accountProxySlotKey a p \<noteq> userSlotKey a'"
  "accountProxySlotKey a p \<noteq> apiKeySlotKey a'"
  "accountProxySlotKey a p \<noteq> liveAccountSlotKey a'"
  "accountProxySlotKey a p \<noteq> liveUserSlotKey a'"
  "accountProxySlotKey a p \<noteq> liveAPIKeySlotKey a'"
  "accountProxySlotKey a p \<noteq> openAIWSIngressLeaseKey a'"
  "accountProxySlotKey a p \<noteq> userGroupSlotKey u' g'"
  "accountProxySlotKey a p \<noteq> liveUserGroupSlotKey u' g'"
  "accountProxySlotKey a p \<noteq> waitQueueKey a'"
  "accountProxySlotKey a p \<noteq> accountWaitKey a'"
  by (simp_all add: slot_key_defs prefix_defs)

lemma accountProxyCursorKey_disjoint [key_simps]:
  "accountProxyCursorKey a \<noteq> accountSlotKey a'"
  "accountProxyCursorKey a \<noteq> userSlotKey a'"
  "accountProxyCursorKey a \<noteq> apiKeySlotKey a'"
  "accountProxyCursorKey a \<noteq> liveAccountSlotKey a'"
  "accountProxyCursorKey a \<noteq> liveUserSlotKey a'"
  "accountProxyCursorKey a \<noteq> liveAPIKeySlotKey a'"
  "accountProxyCursorKey a \<noteq> openAIWSIngressLeaseKey a'"
  "accountProxyCursorKey a \<noteq> userGroupSlotKey u' g'"
  "accountProxyCursorKey a \<noteq> liveUserGroupSlotKey u' g'"
  "accountProxyCursorKey a \<noteq> waitQueueKey a'"
  "accountProxyCursorKey a \<noteq> accountWaitKey a'"
  by (simp_all add: slot_key_defs prefix_defs)

lemma waitQueueKey_disjoint [key_simps]:
  "waitQueueKey a \<noteq> accountSlotKey a'"
  "waitQueueKey a \<noteq> userSlotKey a'"
  "waitQueueKey a \<noteq> apiKeySlotKey a'"
  "waitQueueKey a \<noteq> liveAccountSlotKey a'"
  "waitQueueKey a \<noteq> liveUserSlotKey a'"
  "waitQueueKey a \<noteq> liveAPIKeySlotKey a'"
  "waitQueueKey a \<noteq> openAIWSIngressLeaseKey a'"
  "waitQueueKey a \<noteq> userGroupSlotKey u' g'"
  "waitQueueKey a \<noteq> liveUserGroupSlotKey u' g'"
  "waitQueueKey a \<noteq> accountProxySlotKey a' p'"
  "waitQueueKey a \<noteq> accountProxyCursorKey a'"
  "waitQueueKey a \<noteq> accountWaitKey a'"
  by (simp_all add: slot_key_defs prefix_defs)

lemma accountWaitKey_disjoint [key_simps]:
  "accountWaitKey a \<noteq> accountSlotKey a'"
  "accountWaitKey a \<noteq> userSlotKey a'"
  "accountWaitKey a \<noteq> apiKeySlotKey a'"
  "accountWaitKey a \<noteq> liveAccountSlotKey a'"
  "accountWaitKey a \<noteq> liveUserSlotKey a'"
  "accountWaitKey a \<noteq> liveAPIKeySlotKey a'"
  "accountWaitKey a \<noteq> openAIWSIngressLeaseKey a'"
  "accountWaitKey a \<noteq> userGroupSlotKey u' g'"
  "accountWaitKey a \<noteq> liveUserGroupSlotKey u' g'"
  "accountWaitKey a \<noteq> accountProxySlotKey a' p'"
  "accountWaitKey a \<noteq> accountProxyCursorKey a'"
  "accountWaitKey a \<noteq> waitQueueKey a'"
  by (simp_all add: slot_key_defs prefix_defs)

text \<open>
  The active indexes live beside the slot keys (\<open>concurrency:account:active_index\<close>
  against \<open>concurrency:account:7\<close>); a decimal identifier never starts with the
  letter the index name starts with.
\<close>

lemma index_key_disjoint [key_simps]:
  "accountSlotKey a \<noteq> accountActiveIndexKey" "accountActiveIndexKey \<noteq> accountSlotKey a"
  "accountSlotKey a \<noteq> userActiveIndexKey" "userActiveIndexKey \<noteq> accountSlotKey a"
  "userSlotKey a \<noteq> accountActiveIndexKey" "accountActiveIndexKey \<noteq> userSlotKey a"
  "userSlotKey a \<noteq> userActiveIndexKey" "userActiveIndexKey \<noteq> userSlotKey a"
  "apiKeySlotKey a \<noteq> accountActiveIndexKey" "accountActiveIndexKey \<noteq> apiKeySlotKey a"
  "apiKeySlotKey a \<noteq> userActiveIndexKey" "userActiveIndexKey \<noteq> apiKeySlotKey a"
  "liveAccountSlotKey a \<noteq> accountActiveIndexKey" "accountActiveIndexKey \<noteq> liveAccountSlotKey a"
  "liveAccountSlotKey a \<noteq> userActiveIndexKey" "userActiveIndexKey \<noteq> liveAccountSlotKey a"
  "liveUserSlotKey a \<noteq> accountActiveIndexKey" "accountActiveIndexKey \<noteq> liveUserSlotKey a"
  "liveUserSlotKey a \<noteq> userActiveIndexKey" "userActiveIndexKey \<noteq> liveUserSlotKey a"
  "liveAPIKeySlotKey a \<noteq> accountActiveIndexKey" "accountActiveIndexKey \<noteq> liveAPIKeySlotKey a"
  "liveAPIKeySlotKey a \<noteq> userActiveIndexKey" "userActiveIndexKey \<noteq> liveAPIKeySlotKey a"
  "openAIWSIngressLeaseKey a \<noteq> accountActiveIndexKey" "accountActiveIndexKey \<noteq> openAIWSIngressLeaseKey a"
  "openAIWSIngressLeaseKey a \<noteq> userActiveIndexKey" "userActiveIndexKey \<noteq> openAIWSIngressLeaseKey a"
  "userGroupSlotKey u g \<noteq> accountActiveIndexKey" "accountActiveIndexKey \<noteq> userGroupSlotKey u g"
  "userGroupSlotKey u g \<noteq> userActiveIndexKey" "userActiveIndexKey \<noteq> userGroupSlotKey u g"
  "liveUserGroupSlotKey u g \<noteq> accountActiveIndexKey" "accountActiveIndexKey \<noteq> liveUserGroupSlotKey u g"
  "liveUserGroupSlotKey u g \<noteq> userActiveIndexKey" "userActiveIndexKey \<noteq> liveUserGroupSlotKey u g"
  "accountProxySlotKey a p \<noteq> accountActiveIndexKey" "accountActiveIndexKey \<noteq> accountProxySlotKey a p"
  "accountProxySlotKey a p \<noteq> userActiveIndexKey" "userActiveIndexKey \<noteq> accountProxySlotKey a p"
  "accountProxyCursorKey a \<noteq> accountActiveIndexKey" "accountActiveIndexKey \<noteq> accountProxyCursorKey a"
  "accountProxyCursorKey a \<noteq> userActiveIndexKey" "userActiveIndexKey \<noteq> accountProxyCursorKey a"
  "waitQueueKey a \<noteq> accountActiveIndexKey" "accountActiveIndexKey \<noteq> waitQueueKey a"
  "waitQueueKey a \<noteq> userActiveIndexKey" "userActiveIndexKey \<noteq> waitQueueKey a"
  "accountWaitKey a \<noteq> accountActiveIndexKey" "accountActiveIndexKey \<noteq> accountWaitKey a"
  "accountWaitKey a \<noteq> userActiveIndexKey" "userActiveIndexKey \<noteq> accountWaitKey a"
  "accountActiveIndexKey \<noteq> userActiveIndexKey" "userActiveIndexKey \<noteq> accountActiveIndexKey"
  using format_int_hd_not [of "CHR ''a''" a "''ctive_index''"]
  by (auto simp: slot_key_defs prefix_defs)

end
