(* ===== verification/Slot_Scripts.thy ===== *)
theory Slot_Scripts
  imports Redis_Net Slot_Keys
begin

text \<open>
  The Lua scripts of \<open>concurrency_cache.go\<close>, \<open>concurrency_group_transfer.go\<close> and
  \<open>account_proxy_concurrency.go\<close>.  A script runs atomically on the server, so it
  is a function from the server state to its reply and the next state.  Each
  definition takes the script's \<open>KEYS\<close> and then its \<open>ARGV\<close>, and follows the
  script line by line; a later binding of \<open>s\<close> is the state after the command.
\<close>

definition acquireScript ::
    "'s redis \<Rightarrow> key \<Rightarrow> key \<Rightarrow> int \<Rightarrow> int \<Rightarrow> member \<Rightarrow> 's \<Rightarrow> (int \<times> int) \<times> 's" where
  "acquireScript R key liveKey maxConcurrency ttl requestID s =
     (let now = time_sec R s;
          expireBefore = now - ttl;
          s = r_zremrangebyscore R s key expireBefore;
          s = r_zremrangebyscore R s liveKey (now - 60)
      in if r_zscore R s key requestID \<noteq> None then
           (let s = r_zadd R s key now requestID;
                s = r_expire R s key ttl
            in ((1, now), s))
         else
           (let count = r_zcard R s key + r_zcard R s liveKey
            in if count < maxConcurrency then
                 (let s = r_zadd R s key now requestID;
                      s = r_expire R s key ttl
                  in ((1, now), s))
               else ((0, now), s)))"

definition acquireUserGroupScript ::
    "'s redis \<Rightarrow> key \<Rightarrow> key \<Rightarrow> key \<Rightarrow> key \<Rightarrow> int \<Rightarrow> int \<Rightarrow> int \<Rightarrow> member \<Rightarrow> 's \<Rightarrow> (int \<times> int) \<times> 's" where
  "acquireUserGroupScript R userKey userLiveKey groupKey groupLiveKey userMax groupMax ttl requestID s =
     (let now = time_sec R s;
          expireBefore = now - ttl;
          s = r_zremrangebyscore R s userKey expireBefore;
          s = r_zremrangebyscore R s userLiveKey (now - 60);
          s = r_zremrangebyscore R s groupKey expireBefore;
          s = r_zremrangebyscore R s groupLiveKey (now - 60)
      in if r_zscore R s userKey requestID \<noteq> None then
           (let s = r_zadd R s userKey now requestID;
                s = r_zadd R s groupKey now requestID;
                s = r_expire R s userKey ttl;
                s = r_expire R s groupKey ttl
            in ((1, now), s))
         else if userMax > 0 \<and> r_zcard R s userKey + r_zcard R s userLiveKey \<ge> userMax then ((0, now), s)
         else if groupMax > 0 \<and> r_zcard R s groupKey + r_zcard R s groupLiveKey \<ge> groupMax then ((0, now), s)
         else
           (let s = r_zadd R s userKey now requestID;
                s = r_zadd R s groupKey now requestID;
                s = r_expire R s userKey ttl;
                s = r_expire R s groupKey ttl
            in ((1, now), s)))"

definition getCountScript :: "'s redis \<Rightarrow> key \<Rightarrow> key \<Rightarrow> int \<Rightarrow> 's \<Rightarrow> int \<times> 's" where
  "getCountScript R key liveKey ttl s =
     (let now = time_sec R s;
          expireBefore = now - ttl;
          s = r_zremrangebyscore R s key expireBefore;
          s = r_zremrangebyscore R s liveKey (now - 60)
      in (r_zcard R s key + r_zcard R s liveKey, s))"

definition acquireLiveLeaseScript ::
    "'s redis \<Rightarrow> key \<Rightarrow> key \<Rightarrow> key \<Rightarrow> key \<Rightarrow> key \<Rightarrow> int \<Rightarrow> int \<Rightarrow> int \<Rightarrow> member \<Rightarrow> int \<Rightarrow> 's \<Rightarrow> int \<times> 's" where
  "acquireLiveLeaseScript R accountRegular accountLive userRegular userLive apiLive
     accountMax userMax ttl leaseID replacing s =
     (let now = time_sec R s;
          liveExpireBefore = now - ttl;
          s = r_zremrangebyscore R s accountLive liveExpireBefore;
          s = r_zremrangebyscore R s userLive liveExpireBefore;
          s = r_zremrangebyscore R s apiLive liveExpireBefore
      in if r_zscore R s accountLive leaseID \<noteq> None then (1, s)
         else
           (let accountCount = r_zcard R s accountRegular + r_zcard R s accountLive;
                userCount = r_zcard R s userRegular + r_zcard R s userLive;
                allowance = (if replacing = 1 then 1 else 0)
            in if accountMax > 0 \<and> accountCount \<ge> accountMax + allowance then (0, s)
               else if userMax > 0 \<and> userCount \<ge> userMax + allowance then (0, s)
               else
                 (let s = r_zadd R s accountLive now leaseID;
                      s = r_zadd R s userLive now leaseID;
                      s = r_zadd R s apiLive now leaseID;
                      s = r_expire R s accountLive ttl;
                      s = r_expire R s userLive ttl;
                      s = r_expire R s apiLive ttl
                  in (1, s))))"

definition acquireLiveLeaseForGroupScript ::
    "'s redis \<Rightarrow> key \<Rightarrow> key \<Rightarrow> key \<Rightarrow> key \<Rightarrow> key \<Rightarrow> key \<Rightarrow> key \<Rightarrow>
     int \<Rightarrow> int \<Rightarrow> int \<Rightarrow> int \<Rightarrow> member \<Rightarrow> int \<Rightarrow> 's \<Rightarrow> int \<times> 's" where
  "acquireLiveLeaseForGroupScript R accountRegular accountLive userRegular userLive
     groupRegular groupLive apiLive accountMax userMax groupMax ttl leaseID replacing s =
     (let now = time_sec R s;
          liveExpireBefore = now - ttl;
          s = r_zremrangebyscore R s accountLive liveExpireBefore;
          s = r_zremrangebyscore R s userLive liveExpireBefore;
          s = r_zremrangebyscore R s groupLive liveExpireBefore;
          s = r_zremrangebyscore R s apiLive liveExpireBefore
      in if r_zscore R s accountLive leaseID \<noteq> None then (1, s)
         else
           (let accountCount = r_zcard R s accountRegular + r_zcard R s accountLive;
                userCount = r_zcard R s userRegular + r_zcard R s userLive;
                groupCount = r_zcard R s groupRegular + r_zcard R s groupLive;
                allowance = (if replacing = 1 then 1 else 0)
            in if accountMax > 0 \<and> accountCount \<ge> accountMax + allowance then (0, s)
               else if userMax > 0 \<and> userCount \<ge> userMax + allowance then (0, s)
               else if groupMax > 0 \<and> groupCount \<ge> groupMax + allowance then (0, s)
               else
                 (let s = r_zadd R s accountLive now leaseID;
                      s = r_zadd R s userLive now leaseID;
                      s = r_zadd R s groupLive now leaseID;
                      s = r_zadd R s apiLive now leaseID;
                      s = r_expire R s accountLive ttl;
                      s = r_expire R s userLive ttl;
                      s = r_expire R s groupLive ttl;
                      s = r_expire R s apiLive ttl
                  in (1, s))))"

text \<open>The two loops over \<open>KEYS\<close>: the first prunes and checks, and returns early.\<close>

fun refresh_check :: "'s redis \<Rightarrow> int \<Rightarrow> member \<Rightarrow> key list \<Rightarrow> 's \<Rightarrow> bool \<times> 's" where
  "refresh_check R expireBefore leaseID [] s = (True, s)"
| "refresh_check R expireBefore leaseID (key # keys) s =
     (let s = r_zremrangebyscore R s key expireBefore
      in if r_zscore R s key leaseID = None then (False, s)
         else refresh_check R expireBefore leaseID keys s)"

fun refresh_touch :: "'s redis \<Rightarrow> int \<Rightarrow> int \<Rightarrow> member \<Rightarrow> key list \<Rightarrow> 's \<Rightarrow> 's" where
  "refresh_touch R now ttl leaseID [] s = s"
| "refresh_touch R now ttl leaseID (key # keys) s =
     (let s = r_zadd R s key now leaseID;
          s = r_expire R s key ttl
      in refresh_touch R now ttl leaseID keys s)"

definition refreshLiveLeaseScript ::
    "'s redis \<Rightarrow> key list \<Rightarrow> int \<Rightarrow> member \<Rightarrow> 's \<Rightarrow> int \<times> 's" where
  "refreshLiveLeaseScript R keys ttl leaseID s =
     (let now = time_sec R s;
          expireBefore = now - ttl
      in case refresh_check R expireBefore leaseID keys s of
           (False, s) \<Rightarrow> (0, s)
         | (True, s) \<Rightarrow> (1, refresh_touch R now ttl leaseID keys s))"

definition trackSlotScript :: "'s redis \<Rightarrow> key \<Rightarrow> int \<Rightarrow> member \<Rightarrow> 's \<Rightarrow> int \<times> 's" where
  "trackSlotScript R key ttl requestID s =
     (let now = time_sec R s;
          expireBefore = now - ttl;
          s = r_zremrangebyscore R s key expireBefore;
          s = r_zadd R s key now requestID;
          s = r_expire R s key ttl
      in (1, s))"

definition acquireOpenAIWSIngressLeaseScript ::
    "'s redis \<Rightarrow> key \<Rightarrow> int \<Rightarrow> int \<Rightarrow> member \<Rightarrow> 's \<Rightarrow> int \<times> 's" where
  "acquireOpenAIWSIngressLeaseScript R key maxConnections ttl leaseID s =
     (let now = time_sec R s;
          expireBefore = now - ttl;
          s = r_zremrangebyscore R s key expireBefore
      in if r_zscore R s key leaseID \<noteq> None then
           (let s = r_zadd R s key now leaseID;
                s = r_expire R s key ttl
            in (1, s))
         else if r_zcard R s key < maxConnections then
           (let s = r_zadd R s key now leaseID;
                s = r_expire R s key ttl
            in (1, s))
         else (0, s))"

definition refreshOpenAIWSIngressLeaseScript ::
    "'s redis \<Rightarrow> key \<Rightarrow> int \<Rightarrow> member \<Rightarrow> 's \<Rightarrow> int \<times> 's" where
  "refreshOpenAIWSIngressLeaseScript R key ttl leaseID s =
     (let now = time_sec R s;
          expireBefore = now - ttl;
          s = r_zremrangebyscore R s key expireBefore
      in if r_zscore R s key leaseID = None then (0, s)
         else
           (let s = r_zadd R s key now leaseID;
                s = r_expire R s key ttl
            in (1, s)))"

text \<open>
  \<open>tonumber\<close> of the stored counter; comparing \<open>nil\<close> aborts a script, which the
  \<open>None\<close> of \<open>lua_counter\<close> stands for.
\<close>

definition lua_counter :: "string option \<Rightarrow> int option" where
  "lua_counter v = (case v of None \<Rightarrow> Some 0 | Some t \<Rightarrow> parse_int t)"

definition incrementWaitScript ::
    "'s redis \<Rightarrow> key \<Rightarrow> int \<Rightarrow> int \<Rightarrow> 's \<Rightarrow> (int \<times> int) option \<times> 's" where
  "incrementWaitScript R key maxWait ttl s =
     (case lua_counter (r_get R s key) of
        None \<Rightarrow> (None, s)
      | Some current \<Rightarrow>
          (let now = time_sec R s
           in if current \<ge> maxWait then (Some (0, now), s)
              else
                (let s = r_incrby R s key 1;
                     s = r_expire R s key ttl
                 in (Some (1, now), s))))"

definition incrementAccountWaitScript ::
    "'s redis \<Rightarrow> key \<Rightarrow> int \<Rightarrow> int \<Rightarrow> 's \<Rightarrow> (int \<times> int) option \<times> 's" where
  "incrementAccountWaitScript R key maxWait ttl s =
     (case lua_counter (r_get R s key) of
        None \<Rightarrow> (None, s)
      | Some current \<Rightarrow>
          (let now = time_sec R s
           in if current \<ge> maxWait then (Some (0, now), s)
              else
                (let s = r_incrby R s key 1;
                     s = r_expire R s key ttl
                 in (Some (1, now), s))))"

definition decrementWaitScript :: "'s redis \<Rightarrow> key \<Rightarrow> 's \<Rightarrow> int option \<times> 's" where
  "decrementWaitScript R key s =
     (case r_get R s key of
        None \<Rightarrow> (Some 1, s)
      | Some v \<Rightarrow>
          (case parse_int v of
             None \<Rightarrow> (None, s)
           | Some current \<Rightarrow>
               if current > 0 then (Some 1, r_incrby R s key (- 1)) else (Some 1, s)))"

definition cleanupExpiredSlotsScript :: "'s redis \<Rightarrow> key \<Rightarrow> int \<Rightarrow> 's \<Rightarrow> int \<times> 's" where
  "cleanupExpiredSlotsScript R key ttl s =
     (let now = time_sec R s;
          expireBefore = now - ttl;
          s = r_zremrangebyscore R s key expireBefore;
          s = (if r_zcard R s key = 0 then r_del R s key else r_expire R s key ttl)
      in (1, s))"

text \<open>The loop over \<open>ZRANGE key 0 -1\<close>; \<open>take (length activePrefix)\<close> is the \<open>string.sub\<close>.\<close>

fun remove_foreign :: "'s redis \<Rightarrow> key \<Rightarrow> string \<Rightarrow> member list \<Rightarrow> int \<Rightarrow> 's \<Rightarrow> int \<times> 's" where
  "remove_foreign R key activePrefix [] removed s = (removed, s)"
| "remove_foreign R key activePrefix (m # ms) removed s =
     (if take (length activePrefix) m \<noteq> activePrefix then
        remove_foreign R key activePrefix ms
          (removed + (if r_zscore R s key m = None then 0 else 1)) (r_zrem R s key m)
      else remove_foreign R key activePrefix ms removed s)"

definition startupCleanupSlotScript ::
    "'s redis \<Rightarrow> key \<Rightarrow> string \<Rightarrow> int \<Rightarrow> 's \<Rightarrow> (int \<times> int) \<times> 's" where
  "startupCleanupSlotScript R key activePrefix slotTTL s =
     (let (removed, s) = remove_foreign R key activePrefix (r_zmembers R s key) 0 s;
          remaining = r_zcard R s key;
          s = (if remaining = 0 then r_del R s key else r_expire R s key slotTTL)
      in ((removed, remaining), s))"

definition refreshAPIKeySlotScript :: "'s redis \<Rightarrow> key \<Rightarrow> int \<Rightarrow> member \<Rightarrow> 's \<Rightarrow> int \<times> 's" where
  "refreshAPIKeySlotScript R key ttl requestID s =
     (let now = time_sec R s;
          s = r_zremrangebyscore R s key (now - ttl)
      in if r_zscore R s key requestID = None then (0, s)
         else
           (let s = (if r_zscore R s key requestID = None then s else r_zadd R s key now requestID);
                s = r_expire R s key ttl
            in (1, s)))"

text \<open>\<open>concurrency_group_transfer.go\<close>: \<open>k1\<close> to \<open>k5\<close> are \<open>KEYS[1]\<close> to \<open>KEYS[5]\<close>.\<close>

definition moveUserGroupScript ::
    "'s redis \<Rightarrow> key \<Rightarrow> key \<Rightarrow> key \<Rightarrow> key \<Rightarrow> key \<Rightarrow> int \<Rightarrow> int \<Rightarrow> int \<Rightarrow> member \<Rightarrow> 's \<Rightarrow> (int \<times> int) \<times> 's" where
  "moveUserGroupScript R k1 k2 k3 k4 k5 ttl userMax groupMax rid s =
     (let now = time_sec R s;
          s = r_zremrangebyscore R s k1 (now - ttl);
          s = r_zremrangebyscore R s k2 (now - 60);
          s = r_zremrangebyscore R s k4 (now - ttl);
          s = r_zremrangebyscore R s k5 (now - 60);
          held = (r_zscore R s k1 rid \<noteq> None)
      in if \<not> held \<and> userMax > 0 \<and> r_zcard R s k1 + r_zcard R s k2 \<ge> userMax then ((0, now), s)
         else if groupMax > 0 \<and> r_zscore R s k4 rid = None
                 \<and> r_zcard R s k4 + r_zcard R s k5 \<ge> groupMax then ((0, now), s)
         else
           (let s = r_zadd R s k1 now rid;
                s = r_expire R s k1 ttl;
                s = (if k3 \<noteq> k4 then r_zrem R s k3 rid else s);
                s = (if groupMax > 0
                     then (let s = r_zadd R s k4 now rid in r_expire R s k4 ttl)
                     else r_zrem R s k4 rid)
            in ((1, now), s)))"

section \<open>The proxy pool\<close>

text \<open>
  \<open>KEYS[i+3]\<close> and \<open>ARGV[i+4]\<close> travel together as a list of (key, decimal proxy id).
  The first loop prunes each proxy key; on a hit it refreshes the slot and
  returns, otherwise it yields the position after the last selected proxy
  (0-based here, so \<open>i % n + 1\<close> is \<open>(i + 1) mod n\<close>).
\<close>

fun pool_scan ::
    "'s redis \<Rightarrow> key \<Rightarrow> int \<Rightarrow> int \<Rightarrow> member \<Rightarrow> string option \<Rightarrow> nat \<Rightarrow>
     (key \<times> string) list \<Rightarrow> nat \<Rightarrow> nat \<Rightarrow> 's \<Rightarrow> (string + nat) \<times> 's" where
  "pool_scan R accKey now ttl request lastSel n [] i start s = (Inr start, s)"
| "pool_scan R accKey now ttl request lastSel n ((key, pid) # ps) i start s =
     (let s = r_zremrangebyscore R s key (now - ttl)
      in if r_zscore R s key request \<noteq> None then
           (let s = r_zadd R s key now request;
                s = r_expire R s key ttl;
                s = r_zadd R s accKey now request;
                s = r_expire R s accKey ttl
            in (Inl pid, s))
         else
           (let start = (if lastSel = Some pid then (i + 1) mod n else start)
            in pool_scan R accKey now ttl request lastSel n ps (i + 1) start s))"

fun pool_pick ::
    "'s redis \<Rightarrow> int \<Rightarrow> int \<Rightarrow> (key \<times> string) list \<Rightarrow> nat \<Rightarrow> nat list \<Rightarrow> 's \<Rightarrow> (key \<times> string) option" where
  "pool_pick R limit pinned ps start [] s = None"
| "pool_pick R limit pinned ps start (offset # offs) s =
     (let (key, pid) = ps ! ((start + offset) mod length ps)
      in if (pinned = 0 \<or> parse_int pid = Some pinned) \<and> (limit \<le> 0 \<or> r_zcard R s key < limit)
         then Some (key, pid)
         else pool_pick R limit pinned ps start offs s)"

definition acquireProxyPoolScript ::
    "'s redis \<Rightarrow> key \<Rightarrow> key \<Rightarrow> key \<Rightarrow> (key \<times> string) list \<Rightarrow> int \<Rightarrow> int \<Rightarrow> member \<Rightarrow> int \<Rightarrow> 's
     \<Rightarrow> (int \<times> int) \<times> 's" where
  "acquireProxyPoolScript R k1 k2 k3 ps limit ttl request pinned s =
     (let now = time_sec R s;
          n = length ps;
          s = r_zremrangebyscore R s k1 (now - ttl);
          s = r_zremrangebyscore R s k2 (now - 60);
          lastSel = r_get R s k3
      in case pool_scan R k1 now ttl request lastSel n ps 0 0 s of
           (Inl pid, s) \<Rightarrow> ((the (parse_int pid), now), s)
         | (Inr start, s) \<Rightarrow>
             (let count = r_zcard R s k1 + r_zcard R s k2
              in if limit > 0 \<and> count \<ge> limit * int n then ((0, now), s)
                 else case pool_pick R limit pinned ps start [0..<n] s of
                   None \<Rightarrow> ((0, now), s)
                 | Some (key, pid) \<Rightarrow>
                     (let s = r_zadd R s key now request;
                          s = r_expire R s key ttl;
                          s = r_zadd R s k1 now request;
                          s = r_expire R s k1 ttl;
                          s = r_set R s k3 pid (Some (ttl * 1000))
                      in ((the (parse_int pid), now), s))))"

definition releaseProxyPoolScript :: "'s redis \<Rightarrow> key \<Rightarrow> key \<Rightarrow> member \<Rightarrow> 's \<Rightarrow> int \<times> 's" where
  "releaseProxyPoolScript R k1 k2 rid s =
     (let s = r_zrem R s k1 rid;
          s = r_zrem R s k2 rid
      in (1, s))"

lemmas slot_script_defs =
  acquireScript_def acquireUserGroupScript_def getCountScript_def acquireLiveLeaseScript_def
  acquireLiveLeaseForGroupScript_def refreshLiveLeaseScript_def trackSlotScript_def
  acquireOpenAIWSIngressLeaseScript_def refreshOpenAIWSIngressLeaseScript_def
  incrementWaitScript_def incrementAccountWaitScript_def decrementWaitScript_def
  cleanupExpiredSlotsScript_def startupCleanupSlotScript_def refreshAPIKeySlotScript_def
  moveUserGroupScript_def acquireProxyPoolScript_def releaseProxyPoolScript_def

end
