(* ===== verification/Slot_Safety.thy ===== *)
theory Slot_Safety
  imports Slot_Scripts
begin

text \<open>
  What the slot scripts guarantee.  The occupancy of a dimension (an account, a
  user, a user in a group) is the size of its regular set plus the size of its
  live-lease set; the scripts are the steps of a transition system in which
  any number of gateway processes interleave, time passes and keys expire, and
  the configured limit holds in every reachable state.  The second half relates
  one dimension to an abstract counting semaphore with leases.
\<close>

definition occupancy :: "'s redis \<Rightarrow> 's \<Rightarrow> key \<Rightarrow> key \<Rightarrow> int" where
  "occupancy R s key liveKey = r_zcard R s key + r_zcard R s liveKey"

text \<open>The members whose score is past the cut-off \<open>hi\<close>.\<close>

definition unexpired :: "'s redis \<Rightarrow> int \<Rightarrow> key \<Rightarrow> 's \<Rightarrow> member \<Rightarrow> int option" where
  "unexpired R hi k s m =
     (case r_zscore R s k m of None \<Rightarrow> None | Some sc \<Rightarrow> if hi < sc then Some sc else None)"

section \<open>No script adds a member it has not counted\<close>

context redis_store
begin

lemma zscore_prune: "r_zscore R (r_zremrangebyscore R s k hi) k' m =
    (if k' = k then unexpired R hi k s m else r_zscore R s k' m)"
  by (auto simp: unexpired_def zscore_zremrange split: option.splits)

text \<open>
  \<open>grows A s s'\<close>: going from \<open>s\<close> to \<open>s'\<close>, only the sets in \<open>A\<close> may have gained a
  member, and at most one each.
\<close>

definition grows :: "key set \<Rightarrow> 's \<Rightarrow> 's \<Rightarrow> bool" where
  "grows A s s' \<longleftrightarrow> (\<forall>k. r_zcard R s' k \<le> r_zcard R s k + (if k \<in> A then 1 else 0))"

lemma growsD: "grows A s s' \<Longrightarrow> k \<notin> A \<Longrightarrow> r_zcard R s' k \<le> r_zcard R s k"
  by (auto simp: grows_def dest: spec [of _ k])

lemma growsD1: "grows A s s' \<Longrightarrow> r_zcard R s' k \<le> r_zcard R s k + 1"
  by (auto simp: grows_def split: if_splits dest: spec [of _ k])

lemma grows_shrink:
  assumes "grows A s s'" and "\<And>k. r_zcard R s'' k \<le> r_zcard R s' k"
  shows "grows A s s''"
  unfolding grows_def using assms by (meson grows_def order_trans)

lemma grows_refl: "grows {} s s"
  by (simp add: grows_def)

lemma grows_prune: "grows A s s' \<Longrightarrow> grows A s (r_zremrangebyscore R s' k hi)"
  by (erule grows_shrink) (rule zcard_zremrange_le)

lemma grows_zrem: "grows A s s' \<Longrightarrow> grows A s (r_zrem R s' k m)"
  by (erule grows_shrink) (rule zcard_zrem_le)

lemma grows_expire: "grows A s s' \<Longrightarrow> grows A s (r_expire R s' k d)"
  by (erule grows_shrink) (rule zcard_expire_le)

lemma grows_del: "grows A s s' \<Longrightarrow> grows A s (r_del R s' k)"
  by (erule grows_shrink) simp_all

lemma grows_set: "px = None \<or> 0 < the px \<Longrightarrow> grows A s s' \<Longrightarrow> grows A s (r_set R s' k v px)"
  by (erule grows_shrink) (rule zcard_set_le)

lemma grows_incrby: "grows A s s' \<Longrightarrow> grows A s (r_incrby R s' k d)"
  by (erule grows_shrink) simp_all

lemma grows_pass: "grows A s s' \<Longrightarrow> 0 \<le> d \<Longrightarrow> grows A s (r_pass R s' d)"
  by (erule grows_shrink) (rule zcard_pass_le)

lemma grows_readd: "r_zscore R s' k m \<noteq> None \<Longrightarrow> grows A s s' \<Longrightarrow> grows A s (r_zadd R s' k sc m)"
  by (erule grows_shrink) (simp_all add: zcard_zadd)

lemma grows_zadd: "k \<notin> A \<Longrightarrow> grows A s s' \<Longrightarrow> grows (insert k A) s (r_zadd R s' k sc m)"
proof -
  assume k: "k \<notin> A" and g: "grows A s s'"
  have "r_zcard R (r_zadd R s' k sc m) k' \<le> r_zcard R s k' + (if k' \<in> insert k A then 1 else 0)" for k'
    using k spec [OF g [unfolded grows_def], of k'] by (auto simp: zcard_zadd split: if_splits)
  then show ?thesis by (simp add: grows_def)
qed

lemmas grows_steps = grows_prune grows_zrem grows_expire grows_del grows_incrby grows_refl

text \<open>
  \<open>admits A G s s'\<close>: either no set gained a member, or the script first pruned
  expired members to a state where \<open>G\<close> holds and then added one member to
  each set in \<open>A\<close>.
\<close>

definition admits :: "key set \<Rightarrow> ('s \<Rightarrow> bool) \<Rightarrow> 's \<Rightarrow> 's \<Rightarrow> bool" where
  "admits A G s s' \<longleftrightarrow>
     grows {} s s' \<or> (\<exists>s0. grows {} s s0 \<and> G s0 \<and> grows A s0 s')"

lemma admits_none: "grows {} s s' \<Longrightarrow> admits A G s s'"
  by (simp add: admits_def)

lemma admits_add: "grows {} s s0 \<Longrightarrow> G s0 \<Longrightarrow> grows A s0 s' \<Longrightarrow> admits A G s s'"
  by (auto simp: admits_def)

lemma admits_occupancy:
  assumes "admits A (\<lambda>s. G s \<and> occupancy R s k l < mx) s s'" and "l \<notin> A"
  shows "occupancy R s' k l \<le> max (occupancy R s k l) mx"
  using assms(1) unfolding admits_def
proof (elim disjE exE conjE)
  assume g: "grows {} s s'"
  show ?thesis using growsD [OF g, of k] growsD [OF g, of l] by (simp add: occupancy_def)
next
  fix s0 assume "occupancy R s0 k l < mx" and g: "grows A s0 s'"
  then show ?thesis using growsD1 [OF g, of k] growsD [OF g assms(2)] by (simp add: occupancy_def)
qed

lemma acquireScript_admits:
  "admits {key} (\<lambda>s. occupancy R s key liveKey < mx)
     s (snd (acquireScript R key liveKey mx ttl rid s))"
proof -
  define s0 where "s0 = r_zremrangebyscore R
    (r_zremrangebyscore R s key (time_sec R s - ttl)) liveKey (time_sec R s - 60)"
  have g: "grows {} s s0" by (simp add: s0_def grows_steps)
  show ?thesis
  proof (cases "r_zscore R s0 key rid = None")
    case True
    then show ?thesis
      unfolding acquireScript_def Let_def unfolding s0_def [symmetric]
      by (auto simp: admits_none [OF g] occupancy_def
          intro!: admits_add [OF g] grows_expire grows_zadd grows_refl)
  next
    case False
    then show ?thesis
      unfolding acquireScript_def Let_def unfolding s0_def [symmetric]
      by (auto intro!: admits_none grows_expire grows_readd g)
  qed
qed

lemma acquireUserGroupScript_admits:
  assumes keys: "userKey \<noteq> groupKey" "userKey \<noteq> userLiveKey" "userKey \<noteq> groupLiveKey"
      "groupKey \<noteq> userLiveKey" "groupKey \<noteq> groupLiveKey"
    and fresh: "unexpired R (time_sec R s - ttl) userKey s rid \<noteq> None \<Longrightarrow>
           unexpired R (time_sec R s - ttl) groupKey s rid \<noteq> None"
  shows "admits {groupKey, userKey}
      (\<lambda>s. (0 < um \<longrightarrow> occupancy R s userKey userLiveKey < um)
         \<and> (0 < gm \<longrightarrow> occupancy R s groupKey groupLiveKey < gm))
      s (snd (acquireUserGroupScript R userKey userLiveKey groupKey groupLiveKey um gm ttl rid s))"
proof -
  define s0 where "s0 = r_zremrangebyscore R (r_zremrangebyscore R (r_zremrangebyscore R
    (r_zremrangebyscore R s userKey (time_sec R s - ttl)) userLiveKey (time_sec R s - 60))
     groupKey (time_sec R s - ttl)) groupLiveKey (time_sec R s - 60)"
  have g: "grows {} s s0" by (simp add: s0_def grows_steps)
  have h: "r_zscore R s0 userKey rid \<noteq> None \<Longrightarrow> r_zscore R s0 groupKey rid \<noteq> None"
    using keys fresh by (auto simp: s0_def zscore_prune unexpired_def split: option.splits if_splits
        simp del: zscore_zremrange)
  show ?thesis
  proof (cases "r_zscore R s0 userKey rid = None")
    case True
    then show ?thesis using keys(1)
      unfolding acquireUserGroupScript_def Let_def unfolding s0_def [symmetric]
      by (auto simp: admits_none [OF g] occupancy_def
          intro!: admits_add [OF g] grows_expire grows_zadd grows_refl)
  next
    case False
    then show ?thesis using h keys(1)
      unfolding acquireUserGroupScript_def Let_def unfolding s0_def [symmetric]
      by (auto intro!: admits_none grows_expire grows_readd g)
  qed
qed

lemma acquireLiveLeaseScript_admits:
  assumes keys: "distinct [al, ul, pl]" "ar \<notin> {al, ul, pl}" "ur \<notin> {al, ul, pl}"
  shows "admits {pl, ul, al}
      (\<lambda>s. (0 < am \<longrightarrow> occupancy R s ar al < am + (if replacing = 1 then 1 else 0))
         \<and> (0 < um \<longrightarrow> occupancy R s ur ul < um + (if replacing = 1 then 1 else 0)))
      s (snd (acquireLiveLeaseScript R ar al ur ul pl am um ttl lid replacing s))"
proof -
  define s0 where "s0 = r_zremrangebyscore R (r_zremrangebyscore R
    (r_zremrangebyscore R s al (time_sec R s - ttl)) ul (time_sec R s - ttl)) pl (time_sec R s - ttl)"
  have g: "grows {} s s0" by (simp add: s0_def grows_steps)
  show ?thesis
    unfolding acquireLiveLeaseScript_def Let_def unfolding s0_def [symmetric] using keys
    by (auto simp: admits_none [OF g] occupancy_def not_le
        intro!: admits_add [OF g] grows_expire grows_zadd grows_refl)
qed

lemma acquireLiveLeaseForGroupScript_admits:
  assumes keys: "distinct [al, ul, gl, pl]"
  shows "admits {pl, gl, ul, al}
      (\<lambda>s. (0 < am \<longrightarrow> occupancy R s ar al < am + (if replacing = 1 then 1 else 0))
         \<and> (0 < um \<longrightarrow> occupancy R s ur ul < um + (if replacing = 1 then 1 else 0))
         \<and> (0 < gm \<longrightarrow> occupancy R s gr gl < gm + (if replacing = 1 then 1 else 0)))
      s (snd (acquireLiveLeaseForGroupScript R ar al ur ul gr gl pl am um gm ttl lid replacing s))"
proof -
  define s0 where "s0 = r_zremrangebyscore R (r_zremrangebyscore R (r_zremrangebyscore R
    (r_zremrangebyscore R s al (time_sec R s - ttl)) ul (time_sec R s - ttl)) gl (time_sec R s - ttl))
      pl (time_sec R s - ttl)"
  have g: "grows {} s s0" by (simp add: s0_def grows_steps)
  show ?thesis
    unfolding acquireLiveLeaseForGroupScript_def Let_def unfolding s0_def [symmetric] using keys
    by (auto simp: admits_none [OF g] occupancy_def not_le
        intro!: admits_add [OF g] grows_expire grows_zadd grows_refl)
qed

lemma getCountScript_grows: "grows {} s (snd (getCountScript R key liveKey ttl s))"
  by (simp add: getCountScript_def Let_def grows_steps)

lemma refresh_check_grows: "grows {} s (snd (refresh_check R hi lid keys s))"
proof (induction keys arbitrary: s)
  case (Cons key keys)
  have "grows {} s (snd (refresh_check R hi lid keys (r_zremrangebyscore R s key hi)))"
    by (rule grows_shrink [OF grows_prune [OF grows_refl]])
      (rule growsD [OF Cons.IH], simp)
  then show ?case by (simp add: Let_def grows_steps)
qed (simp add: grows_refl)

lemma refresh_check_frame:
  "k \<notin> set keys \<Longrightarrow> r_zscore R (snd (refresh_check R hi lid keys s)) k m = r_zscore R s k m"
proof (induction keys arbitrary: s)
  case (Cons key keys)
  then have "r_zscore R (snd (refresh_check R hi lid keys (r_zremrangebyscore R s key hi))) k m =
      r_zscore R s k m" by simp
  then show ?case using Cons.prems by (auto simp: Let_def)
qed simp

text \<open>When the check succeeds, every key still holds the lease, unexpired.\<close>

lemma refresh_check_holds:
  "fst (refresh_check R hi lid keys s) \<Longrightarrow> k \<in> set keys \<Longrightarrow>
     r_zscore R (snd (refresh_check R hi lid keys s)) k lid = unexpired R hi k s lid \<and>
     unexpired R hi k s lid \<noteq> None"
proof (induction keys arbitrary: s)
  case (Cons key keys)
  let ?s = "r_zremrangebyscore R s key hi"
  have u: "unexpired R hi k ?s lid = unexpired R hi k s lid" for k
    by (auto simp: unexpired_def zscore_prune simp del: zscore_zremrange split: option.splits)
  have held: "unexpired R hi key s lid \<noteq> None" and rest: "fst (refresh_check R hi lid keys ?s)"
    and sc: "r_zscore R ?s key lid = unexpired R hi key s lid"
    using Cons.prems(1) by (auto simp: Let_def zscore_prune simp del: zscore_zremrange split: if_splits)
  have step: "refresh_check R hi lid (key # keys) s = refresh_check R hi lid keys ?s"
    using held sc by (auto simp: Let_def simp del: zscore_frame)
  show ?case
  proof (cases "k \<in> set keys")
    case True
    show ?thesis using Cons.IH [OF rest True] unfolding step u by simp
  next
    case False
    with Cons.prems(2) have k: "k = key" by simp
    have "r_zscore R (snd (refresh_check R hi lid keys ?s)) k lid = r_zscore R ?s k lid"
      using False by (rule refresh_check_frame)
    then show ?thesis using k held sc unfolding step by simp
  qed
qed simp

lemma refresh_touch_grows:
  "(\<And>k. k \<in> set keys \<Longrightarrow> r_zscore R s k lid \<noteq> None) \<Longrightarrow> 0 < ttl \<Longrightarrow>
     grows {} s (refresh_touch R now ttl lid keys s)"
proof (induction keys arbitrary: s)
  case (Cons key keys)
  let ?s = "r_expire R (r_zadd R s key now lid) key ttl"
  have "grows {} ?s (refresh_touch R now ttl lid keys ?s)"
    using Cons.prems by (intro Cons.IH) auto
  moreover have "grows {} s ?s" using Cons.prems by (intro grows_expire grows_readd grows_refl) auto
  ultimately have "grows {} s (refresh_touch R now ttl lid keys ?s)"
    by (meson empty_iff grows_shrink growsD)
  then show ?case by (simp add: Let_def)
qed (simp add: grows_refl)

lemma refreshLiveLeaseScript_grows:
  assumes "0 < ttl"
  shows "grows {} s (snd (refreshLiveLeaseScript R keys ttl lid s))"
proof -
  define c where "c = refresh_check R (time_sec R s - ttl) lid keys s"
  have g: "grows {} s (snd c)" by (simp add: c_def refresh_check_grows)
  show ?thesis
  proof (cases c)
    case (Pair b s1)
    have held: "b \<Longrightarrow> k \<in> set keys \<Longrightarrow> r_zscore R s1 k lid \<noteq> None" for k
      using refresh_check_holds [of "time_sec R s - ttl" lid keys s k] Pair by (simp add: c_def)
    have "b \<Longrightarrow> grows {} s1 (refresh_touch R (time_sec R s) ttl lid keys s1)"
      by (rule refresh_touch_grows [OF held assms])
    with g Pair have "b \<Longrightarrow> grows {} s (refresh_touch R (time_sec R s) ttl lid keys s1)"
      by (metis empty_iff grows_shrink growsD snd_conv)
    with g Pair show ?thesis
      by (auto simp: refreshLiveLeaseScript_def Let_def c_def [symmetric] split: bool.split)
  qed
qed

lemma trackSlotScript_grows: "grows {key} s (snd (trackSlotScript R key ttl rid s))"
  by (simp add: trackSlotScript_def Let_def grows_expire grows_zadd grows_prune grows_refl)

lemma acquireOpenAIWSIngressLeaseScript_admits:
  "admits {key} (\<lambda>s. r_zcard R s key < mx)
     s (snd (acquireOpenAIWSIngressLeaseScript R key mx ttl lid s))"
proof -
  define s0 where "s0 = r_zremrangebyscore R s key (time_sec R s - ttl)"
  have g: "grows {} s s0" by (simp add: s0_def grows_steps)
  show ?thesis
  proof (cases "r_zscore R s0 key lid = None")
    case True
    then show ?thesis
      unfolding acquireOpenAIWSIngressLeaseScript_def Let_def unfolding s0_def [symmetric]
      by (auto simp: admits_none [OF g] intro!: admits_add [OF g] grows_expire grows_zadd grows_refl)
  next
    case False
    then show ?thesis
      unfolding acquireOpenAIWSIngressLeaseScript_def Let_def unfolding s0_def [symmetric]
      by (auto intro!: admits_none grows_expire grows_readd g)
  qed
qed

lemma refreshOpenAIWSIngressLeaseScript_grows:
  "grows {} s (snd (refreshOpenAIWSIngressLeaseScript R key ttl lid s))"
proof -
  define s0 where "s0 = r_zremrangebyscore R s key (time_sec R s - ttl)"
  have g: "grows {} s s0" by (simp add: s0_def grows_steps)
  show ?thesis
    unfolding refreshOpenAIWSIngressLeaseScript_def Let_def unfolding s0_def [symmetric]
    by (auto intro!: grows_expire grows_readd g)
qed

lemma refreshAPIKeySlotScript_grows:
  "grows {} s (snd (refreshAPIKeySlotScript R key ttl rid s))"
proof -
  define s0 where "s0 = r_zremrangebyscore R s key (time_sec R s - ttl)"
  have g: "grows {} s s0" by (simp add: s0_def grows_steps)
  show ?thesis
    unfolding refreshAPIKeySlotScript_def Let_def unfolding s0_def [symmetric]
    by (auto intro!: grows_expire grows_readd g)
qed

lemma incrementWaitScript_grows:
  "grows {} s (snd (incrementWaitScript R key mw ttl s))"
  "grows {} s (snd (incrementAccountWaitScript R key mw ttl s))"
  by (auto simp: incrementWaitScript_def incrementAccountWaitScript_def Let_def
      split: option.split intro!: grows_steps)

lemma decrementWaitScript_grows: "grows {} s (snd (decrementWaitScript R key s))"
  by (auto simp: decrementWaitScript_def split: option.split intro!: grows_steps)

lemma cleanupExpiredSlotsScript_grows:
  "grows {} s (snd (cleanupExpiredSlotsScript R key ttl s))"
  by (auto simp: cleanupExpiredSlotsScript_def Let_def intro!: grows_steps)

lemma remove_foreign_grows: "grows {} s (snd (remove_foreign R key pre ms n s))"
proof (induction ms arbitrary: n s)
  case (Cons m ms)
  have "grows {} s (snd (remove_foreign R key pre ms k (r_zrem R s key m)))" for k
    by (rule grows_shrink [OF grows_zrem [OF grows_refl]]) (rule growsD [OF Cons.IH], simp)
  then show ?case using Cons.IH by simp
qed (simp add: grows_refl)

lemma startupCleanupSlotScript_grows:
  "grows {} s (snd (startupCleanupSlotScript R key pre ttl s))"
proof -
  define s1 where "s1 = snd (remove_foreign R key pre (r_zmembers R s key) 0 s)"
  have "grows {} s s1" by (simp add: s1_def remove_foreign_grows)
  then show ?thesis
    by (auto simp: startupCleanupSlotScript_def Let_def s1_def [symmetric] case_prod_beta
        intro!: grows_steps)
qed

lemma releaseProxyPoolScript_grows: "grows {} s (snd (releaseProxyPoolScript R k1 k2 rid s))"
  by (simp add: releaseProxyPoolScript_def Let_def grows_steps)

lemma moveUserGroupScript_admits:
  assumes keys: "distinct [k1, k2, k4, k5]" "k3 \<notin> {k1, k2, k5}"
    and t: "0 < ttl"
  shows "\<exists>A \<subseteq> {k4, k1}. admits A
      (\<lambda>s. (k1 \<in> A \<and> 0 < um \<longrightarrow> occupancy R s k1 k2 < um)
         \<and> (k4 \<in> A \<longrightarrow> occupancy R s k4 k5 < gm))
      s (snd (moveUserGroupScript R k1 k2 k3 k4 k5 ttl um gm rid s))"
proof -
  define s0 where "s0 = r_zremrangebyscore R (r_zremrangebyscore R (r_zremrangebyscore R
    (r_zremrangebyscore R s k1 (time_sec R s - ttl)) k2 (time_sec R s - 60))
     k4 (time_sec R s - ttl)) k5 (time_sec R s - 60)"
  have g: "grows {} s s0" by (simp add: s0_def grows_steps)
  define h1 where "h1 \<longleftrightarrow> r_zscore R s0 k1 rid \<noteq> None"
  define h4 where "h4 \<longleftrightarrow> r_zscore R s0 k4 rid \<noteq> None"
  define A where "A = (if h4 \<or> gm \<le> 0 then {} else {k4}) \<union> (if h1 then {} else {k1})"
  have a1: "grows (if h1 then {} else {k1}) s0 (r_expire R (r_zadd R s0 k1 now rid) k1 ttl)"
    (is "grows _ _ ?s1") for now
    by (auto simp: h1_def intro!: grows_expire grows_zadd grows_refl intro: grows_readd)
  define s2 where "s2 now = (if k3 \<noteq> k4 then r_zrem R (r_expire R (r_zadd R s0 k1 now rid) k1 ttl) k3 rid
      else r_expire R (r_zadd R s0 k1 now rid) k1 ttl)" for now
  have a2: "grows (if h1 then {} else {k1}) s0 (s2 now)" for now
    using a1 by (simp add: s2_def grows_zrem)
  have h4': "r_zscore R (s2 now) k4 rid \<noteq> None \<longleftrightarrow> h4" for now
    using keys t by (auto simp: h4_def s2_def)
  have a3: "grows A s0 (if gm > 0 then r_expire R (r_zadd R (s2 now) k4 now rid) k4 ttl
      else r_zrem R (s2 now) k4 rid)" for now
    using a2 [of now] h4' [of now] keys
    by (auto simp: A_def insert_commute [of k1 k4] intro!: grows_expire grows_zrem grows_zadd intro: grows_readd)
  have "admits A (\<lambda>s. (k1 \<in> A \<and> 0 < um \<longrightarrow> occupancy R s k1 k2 < um)
         \<and> (k4 \<in> A \<longrightarrow> occupancy R s k4 k5 < gm))
      s (snd (moveUserGroupScript R k1 k2 k3 k4 k5 ttl um gm rid s))"
    using keys(1) admits_none [OF g] a3 [of "time_sec R s"]
    unfolding moveUserGroupScript_def Let_def unfolding s0_def [symmetric] s2_def [symmetric]
    by (auto simp: A_def h1_def h4_def occupancy_def not_le intro!: admits_add [OF g])
  moreover have "A \<subseteq> {k4, k1}" by (auto simp: A_def)
  ultimately show ?thesis by blast
qed

text \<open>
  The proxy pool.  A scan that finds the request returns the proxy it holds;
  otherwise no proxy key holds it and the start position is within the pool.
\<close>

lemma pool_scan_miss:
  "pool_scan R acc now ttl rq lst n ps i start s = (Inr st, s') \<Longrightarrow>
     grows {} s s' \<and> (0 < n \<longrightarrow> start < n \<longrightarrow> st < n) \<and>
     (\<forall>(key, pid) \<in> set ps. unexpired R (now - ttl) key s rq = None) \<and>
     (\<forall>k m. r_zscore R s' k m =
        (if k \<in> fst ` set ps then unexpired R (now - ttl) k s m else r_zscore R s k m))"
proof (induction ps arbitrary: i start s)
  case Nil
  then show ?case by (simp add: grows_refl)
next
  case (Cons p ps)
  obtain key pid where p: "p = (key, pid)" by (cases p)
  let ?s = "r_zremrangebyscore R s key (now - ttl)"
  have miss: "unexpired R (now - ttl) key s rq = None"
    using Cons.prems by (auto simp: p Let_def zscore_prune simp del: zscore_zremrange split: if_splits)
  have rec: "pool_scan R acc now ttl rq lst n ps (i + 1)
      (if lst = Some pid then (i + 1) mod n else start) ?s = (Inr st, s')"
    using Cons.prems miss by (auto simp: p Let_def zscore_prune simp del: zscore_zremrange)
  note IH = Cons.IH [OF rec]
  have u: "unexpired R (now - ttl) k ?s m = unexpired R (now - ttl) k s m" for k m
    by (auto simp: unexpired_def zscore_prune simp del: zscore_zremrange split: option.splits)
  have "grows {} s s'" using IH by (meson empty_iff grows_prune grows_refl grows_shrink growsD)
  moreover have "0 < n \<longrightarrow> start < n \<longrightarrow> st < n" using IH by auto
  ultimately show ?case using IH miss
    by (auto simp: p u zscore_prune simp del: zscore_zremrange)
qed

lemma pool_scan_hit:
  "pool_scan R acc now ttl rq lst n ps i start s = (Inl pid, s') \<Longrightarrow> acc \<notin> fst ` set ps \<Longrightarrow> 0 < ttl \<Longrightarrow>
     \<exists>key s0. (key, pid) \<in> set ps \<and> grows {} s s0 \<and> r_zscore R s0 key rq \<noteq> None \<and>
        r_zscore R s0 acc rq = r_zscore R s acc rq \<and> unexpired R (now - ttl) key s rq \<noteq> None \<and>
        s' = r_expire R (r_zadd R (r_expire R (r_zadd R s0 key now rq) key ttl) acc now rq) acc ttl"
proof (induction ps arbitrary: i start s)
  case (Cons p ps)
  obtain key p' where p: "p = (key, p')" by (cases p)
  let ?s = "r_zremrangebyscore R s key (now - ttl)"
  have u: "unexpired R (now - ttl) k ?s m = unexpired R (now - ttl) k s m" for k m
    by (auto simp: unexpired_def zscore_prune simp del: zscore_zremrange split: option.splits)
  show ?case
  proof (cases "r_zscore R ?s key rq = None")
    case True
    then have "pool_scan R acc now ttl rq lst n ps (i + 1)
        (if lst = Some p' then (i + 1) mod n else start) ?s = (Inl pid, s')"
      using Cons.prems by (simp add: p Let_def del: zscore_zremrange)
    from Cons.IH [OF this] Cons.prems obtain k s0 where "(k, pid) \<in> set ps" "grows {} ?s s0"
        "r_zscore R s0 k rq \<noteq> None" "r_zscore R s0 acc rq = r_zscore R ?s acc rq"
        "unexpired R (now - ttl) k s rq \<noteq> None"
        "s' = r_expire R (r_zadd R (r_expire R (r_zadd R s0 k now rq) k ttl) acc now rq) acc ttl"
      by (auto simp: u)
    moreover have "grows {} s s0"
      using \<open>grows {} ?s s0\<close> by (meson empty_iff grows_prune grows_refl grows_shrink growsD)
    ultimately show ?thesis using Cons.prems p by (intro exI [of _ k] exI [of _ s0]) auto
  next
    case False
    then have "s' = r_expire R (r_zadd R (r_expire R (r_zadd R ?s key now rq) key ttl) acc now rq) acc ttl"
      "pid = p'"
      using Cons.prems by (auto simp: p Let_def simp del: zscore_zremrange)
    moreover have "unexpired R (now - ttl) key s rq \<noteq> None"
      using False by (simp add: zscore_prune del: zscore_zremrange)
    ultimately show ?thesis using False Cons.prems p
      by (intro exI [of _ key] exI [of _ ?s]) (auto simp: grows_steps)
  qed
qed simp

lemma pool_pick_Some:
  "pool_pick R limit pinned ps start offs s = Some (key, pid) \<Longrightarrow> ps \<noteq> [] \<Longrightarrow>
     (key, pid) \<in> set ps \<and> (pinned = 0 \<or> parse_int pid = Some pinned)
     \<and> (0 < limit \<longrightarrow> r_zcard R s key < limit)"
proof (induction offs)
  case (Cons o' offs)
  obtain k p where e: "ps ! ((start + o') mod length ps) = (k, p)" by fastforce
  have "(k, p) \<in> set ps" using Cons.prems(2) by (simp flip: e)
  then show ?case using Cons e by (auto simp: Let_def split: if_splits)
qed simp

lemma acquireProxyPoolScript_admits:
  assumes keys: "distinct (k1 # k2 # k3 # map fst ps)" and t: "0 < ttl"
    and fresh: "\<And>key pid. (key, pid) \<in> set ps \<Longrightarrow> unexpired R (time_sec R s - ttl) key s rq \<noteq> None
        \<Longrightarrow> unexpired R (time_sec R s - ttl) k1 s rq \<noteq> None"
  shows "\<exists>key. key \<in> insert k3 (fst ` set ps) \<and> admits {k1, key}
      (\<lambda>s. 0 < limit \<longrightarrow> r_zcard R s key < limit \<and> occupancy R s k1 k2 < limit * int (length ps))
      s (snd (acquireProxyPoolScript R k1 k2 k3 ps limit ttl rq pinned s))"
proof -
  let ?now = "time_sec R s"
  define s1 where "s1 = r_zremrangebyscore R (r_zremrangebyscore R s k1 (?now - ttl)) k2 (?now - 60)"
  define c where "c = pool_scan R k1 ?now ttl rq (r_get R s k3) (length ps) ps 0 0 s1"
  have g1: "grows {} s s1" by (simp add: s1_def grows_steps)
  have get: "r_get R s1 k3 = r_get R s k3" by (simp add: s1_def)
  have disj: "k1 \<notin> fst ` set ps" "k2 \<notin> fst ` set ps" "k1 \<noteq> k2" using keys by auto
  have u: "k \<in> fst ` set ps \<Longrightarrow> unexpired R h k s1 m = unexpired R h k s m" for h k m
    using disj by (auto simp: s1_def unexpired_def)
  have u1: "r_zscore R s1 k1 rq = unexpired R (?now - ttl) k1 s rq"
    using disj by (simp add: s1_def zscore_prune del: zscore_zremrange)
  have A: "acquireProxyPoolScript R k1 k2 k3 ps limit ttl rq pinned s =
      (case c of
           (Inl pid, s) \<Rightarrow> ((the (parse_int pid), ?now), s)
         | (Inr start, s) \<Rightarrow>
             (let count = r_zcard R s k1 + r_zcard R s k2
              in if limit > 0 \<and> count \<ge> limit * int (length ps) then ((0, ?now), s)
                 else case pool_pick R limit pinned ps start [0..<length ps] s of
                   None \<Rightarrow> ((0, ?now), s)
                 | Some (key, pid) \<Rightarrow>
                     ((the (parse_int pid), ?now), r_set R (r_expire R (r_zadd R (r_expire R
                        (r_zadd R s key ?now rq) key ttl) k1 ?now rq) k1 ttl) k3 pid (Some (ttl * 1000)))))"
    by (simp only: acquireProxyPoolScript_def Let_def c_def s1_def get_zremrange)
  show ?thesis
  proof (cases c)
    case (Pair r s2)
    show ?thesis
    proof (cases r)
      case (Inl pid)
      from pool_scan_hit [of k1 ?now ttl rq "r_get R s k3" "length ps" ps 0 0 s1 pid s2] Pair Inl disj t
      obtain key s0 where h: "(key, pid) \<in> set ps" "grows {} s1 s0" "r_zscore R s0 key rq \<noteq> None"
        "r_zscore R s0 k1 rq = r_zscore R s1 k1 rq" "unexpired R (?now - ttl) key s1 rq \<noteq> None"
        "s2 = r_expire R (r_zadd R (r_expire R (r_zadd R s0 key ?now rq) key ttl) k1 ?now rq) k1 ttl"
        by (auto simp: c_def)
      have "unexpired R (?now - ttl) key s rq \<noteq> None"
        using h(5) u [of key] h(1) by (metis fst_conv image_eqI)
      then have "r_zscore R s0 k1 rq \<noteq> None" using fresh [OF h(1)] u1 h(4) by simp
      then have "grows {} s0 s2" using h(3,6) t by (auto intro!: grows_expire grows_readd grows_refl)
      then have "grows {} s s2" using g1 h(2) by (meson empty_iff grows_shrink growsD)
      then show ?thesis unfolding A Pair Inl by (intro exI [of _ k3]) (simp add: admits_none)
    next
      case (Inr start)
      from pool_scan_miss [of k1 ?now ttl rq "r_get R s k3" "length ps" ps 0 0 s1 start s2] Pair Inr
      have g2: "grows {} s s2" using g1 unfolding c_def by (metis empty_iff grows_shrink growsD)
      show ?thesis
      proof (cases "pool_pick R limit pinned ps start [0..<length ps] s2")
        case None
        then show ?thesis unfolding A Pair Inr
          by (intro exI [of _ k3]) (simp add: Let_def admits_none g2)
      next
        case (Some kp)
        obtain key pid where kp: "kp = (key, pid)" by (cases kp)
        have ne: "ps \<noteq> []" using Some by auto
        note P = pool_pick_Some [OF Some [unfolded kp] ne]
        from P have "key \<in> fst ` set ps" by force
        then have "key \<noteq> k1" "key \<noteq> k3" using keys by auto
        then show ?thesis unfolding A Pair Inr using Some kp P t \<open>key \<in> fst ` set ps\<close>
          by (intro exI [of _ key])
            (auto simp: Let_def admits_none g2 occupancy_def not_le
              intro!: admits_add [OF g2] grows_set grows_expire grows_zadd grows_refl)
      qed
    qed
  qed
qed

end

end
