(* ===== verification/Slot_System.thy ===== *)
theory Slot_System
  imports Slot_Safety
begin

text \<open>
  The concurrency cache as a transition system: every script and every plain
  command the gateway processes send, in any order and from any number of
  processes, and the passage of time.  The limits a call passes are at most
  the configured ones (an administrator may lower them between calls).  The
  occupancy of every dimension stays within its limit, plus one while live
  leases may replace a regular slot.
\<close>

record slot_limits =
  lim_account :: "id \<Rightarrow> int"
  lim_user :: "id \<Rightarrow> int"
  lim_group :: "id \<Rightarrow> id \<Rightarrow> int"
  lim_proxy :: "id \<Rightarrow> int"
  lim_ingress :: "id \<Rightarrow> int"
  may_replace :: bool

definition allowance :: "slot_limits \<Rightarrow> int" where
  "allowance L = (if may_replace L then 1 else 0)"

definition slots_within :: "'s redis \<Rightarrow> slot_limits \<Rightarrow> 's \<Rightarrow> bool" where
  "slots_within R L s \<longleftrightarrow>
     (\<forall>a. occupancy R s (accountSlotKey a) (liveAccountSlotKey a) \<le> lim_account L a + allowance L) \<and>
     (\<forall>u. occupancy R s (userSlotKey u) (liveUserSlotKey u) \<le> lim_user L u + allowance L) \<and>
     (\<forall>u g. occupancy R s (userGroupSlotKey u g) (liveUserGroupSlotKey u g)
              \<le> lim_group L u g + allowance L) \<and>
     (\<forall>a p. r_zcard R s (accountProxySlotKey a p) \<le> lim_proxy L a) \<and>
     (\<forall>k. r_zcard R s (openAIWSIngressLeaseKey k) \<le> lim_ingress L k)"

text \<open>
  A request id offered to the group script is new, or already held in both
  dimensions; one offered to a proxy pool is new, or already counted on the account.
\<close>

definition consistent_id :: "'s redis \<Rightarrow> int \<Rightarrow> key \<Rightarrow> key \<Rightarrow> 's \<Rightarrow> member \<Rightarrow> bool" where
  "consistent_id R ttl k k' s rid \<longleftrightarrow>
     (unexpired R (time_sec R s - ttl) k s rid \<noteq> None \<longrightarrow>
      unexpired R (time_sec R s - ttl) k' s rid \<noteq> None)"

inductive slot_step :: "'s redis \<Rightarrow> slot_limits \<Rightarrow> 's \<Rightarrow> 's \<Rightarrow> bool" for R L where
  acquire_account: "mx \<le> lim_account L a \<Longrightarrow>
    slot_step R L s (snd (acquireScript R (accountSlotKey a) (liveAccountSlotKey a) mx ttl rid s))"
| acquire_user: "mx \<le> lim_user L u \<Longrightarrow>
    slot_step R L s (snd (acquireScript R (userSlotKey u) (liveUserSlotKey u) mx ttl rid s))"
| acquire_user_group: "0 < um \<Longrightarrow> um \<le> lim_user L u \<Longrightarrow> 0 < gm \<Longrightarrow> gm \<le> lim_group L u g \<Longrightarrow>
    consistent_id R ttl (userSlotKey u) (userGroupSlotKey u g) s rid \<Longrightarrow>
    slot_step R L s (snd (acquireUserGroupScript R (userSlotKey u) (liveUserSlotKey u)
      (userGroupSlotKey u g) (liveUserGroupSlotKey u g) um gm ttl rid s))"
| count: "slot_step R L s (snd (getCountScript R k k' ttl s))"
| acquire_live: "0 < am \<Longrightarrow> am \<le> lim_account L a \<Longrightarrow> 0 < um \<Longrightarrow> um \<le> lim_user L u \<Longrightarrow>
    (replacing = 1 \<longrightarrow> may_replace L) \<Longrightarrow>
    slot_step R L s (snd (acquireLiveLeaseScript R (accountSlotKey a) (liveAccountSlotKey a)
      (userSlotKey u) (liveUserSlotKey u) (liveAPIKeySlotKey k) am um ttl rid replacing s))"
| acquire_live_group: "0 < am \<Longrightarrow> am \<le> lim_account L a \<Longrightarrow> 0 < um \<Longrightarrow> um \<le> lim_user L u \<Longrightarrow>
    0 < gm \<Longrightarrow> gm \<le> lim_group L u g \<Longrightarrow> (replacing = 1 \<longrightarrow> may_replace L) \<Longrightarrow>
    slot_step R L s (snd (acquireLiveLeaseForGroupScript R (accountSlotKey a) (liveAccountSlotKey a)
      (userSlotKey u) (liveUserSlotKey u) (userGroupSlotKey u g) (liveUserGroupSlotKey u g)
      (liveAPIKeySlotKey k) am um gm ttl rid replacing s))"
| refresh_live: "0 < ttl \<Longrightarrow> slot_step R L s (snd (refreshLiveLeaseScript R ks ttl rid s))"
| track_api_key: "slot_step R L s (snd (trackSlotScript R (apiKeySlotKey k) ttl rid s))"
| refresh_api_key: "slot_step R L s (snd (refreshAPIKeySlotScript R (apiKeySlotKey k) ttl rid s))"
| acquire_ingress: "mx \<le> lim_ingress L k \<Longrightarrow>
    slot_step R L s (snd (acquireOpenAIWSIngressLeaseScript R (openAIWSIngressLeaseKey k) mx ttl rid s))"
| refresh_ingress:
    "slot_step R L s (snd (refreshOpenAIWSIngressLeaseScript R (openAIWSIngressLeaseKey k) ttl rid s))"
| wait_user: "slot_step R L s (snd (incrementWaitScript R (waitQueueKey u) mw ttl s))"
| wait_account: "slot_step R L s (snd (incrementAccountWaitScript R (accountWaitKey a) mw ttl s))"
| unwait: "slot_step R L s (snd (decrementWaitScript R k s))"
| cleanup: "slot_step R L s (snd (cleanupExpiredSlotsScript R k ttl s))"
| startup: "slot_step R L s (snd (startupCleanupSlotScript R k pre ttl s))"
| move: "0 < um \<Longrightarrow> um \<le> lim_user L u \<Longrightarrow> gm \<le> lim_group L u g \<Longrightarrow> 0 < ttl \<Longrightarrow>
    slot_step R L s (snd (moveUserGroupScript R (userSlotKey u) (liveUserSlotKey u)
      (userGroupSlotKey u g0) (userGroupSlotKey u g) (liveUserGroupSlotKey u g) ttl um gm rid s))"
| pool: "0 < lim \<Longrightarrow> lim \<le> lim_proxy L a \<Longrightarrow> lim * int (length ids) \<le> lim_account L a \<Longrightarrow>
    distinct ids \<Longrightarrow> 0 < ttl \<Longrightarrow>
    (\<forall>i \<in> set ids. consistent_id R ttl (accountProxySlotKey a i) (accountSlotKey a) s rid) \<Longrightarrow>
    slot_step R L s (snd (acquireProxyPoolScript R (accountSlotKey a) (liveAccountSlotKey a)
      (accountProxyCursorKey a) (map (\<lambda>i. (accountProxySlotKey a i, format_int i)) ids)
      lim ttl rid pinned s))"
| release_pool: "slot_step R L s (snd (releaseProxyPoolScript R k k' rid s))"
| release: "slot_step R L s (r_zrem R s k rid)"
| prune: "slot_step R L s (r_zremrangebyscore R s k hi)"
| index_account: "slot_step R L s (r_zadd R s accountActiveIndexKey sc m)"
| index_user: "slot_step R L s (r_zadd R s userActiveIndexKey sc m)"
| drop_key: "slot_step R L s (r_del R s k)"
| time: "0 \<le> d \<Longrightarrow> slot_step R L s (r_pass R s d)"

context redis_store
begin

lemma occupancy_admits:
  assumes "admits A G s s'" "k \<in> A \<Longrightarrow> l \<notin> A"
    and "\<And>s0. k \<in> A \<or> l \<in> A \<Longrightarrow> G s0 \<Longrightarrow> occupancy R s0 k l < b"
    and "occupancy R s k l \<le> b"
  shows "occupancy R s' k l \<le> b"
  using assms(1) unfolding admits_def
proof (elim disjE exE conjE)
  assume "grows {} s s'"
  from growsD [OF this, of k] growsD [OF this, of l] show ?thesis
    using assms(4) by (simp add: occupancy_def)
next
  fix s0 assume g0: "grows {} s s0" and G: "G s0" and g: "grows A s0 s'"
  have le: "occupancy R s0 k l \<le> b"
    using growsD [OF g0, of k] growsD [OF g0, of l] assms(4) by (simp add: occupancy_def)
  show ?thesis
  proof (cases "k \<in> A \<or> l \<in> A")
    case False
    then show ?thesis using growsD [OF g, of k] growsD [OF g, of l] le by (simp add: occupancy_def)
  next
    case True
    from assms(3) [OF True G] have lt: "occupancy R s0 k l < b" .
    from True show ?thesis
    proof
      assume "k \<in> A"
      then show ?thesis using growsD1 [OF g, of k] growsD [OF g, of l] assms(2) lt
        by (simp add: occupancy_def)
    next
      assume "l \<in> A"
      then have "k \<notin> A" using assms(2) by blast
      then show ?thesis using growsD [OF g, of k] growsD1 [OF g, of l] lt
        by (simp add: occupancy_def)
    qed
  qed
qed

lemma zcard_admits:
  assumes "admits A G s s'" "\<And>s0. k \<in> A \<Longrightarrow> G s0 \<Longrightarrow> r_zcard R s0 k < b" "r_zcard R s k \<le> b"
  shows "r_zcard R s' k \<le> b"
  using assms(1) unfolding admits_def
proof (elim disjE exE conjE)
  assume "grows {} s s'"
  from growsD [OF this, of k] show ?thesis using assms(3) by simp
next
  fix s0 assume g0: "grows {} s s0" and G: "G s0" and g: "grows A s0 s'"
  show ?thesis
  proof (cases "k \<in> A")
    case True
    show ?thesis using growsD1 [OF g, of k] assms(2) [OF True G] by linarith
  next
    case False
    have "r_zcard R s0 k \<le> r_zcard R s k" by (rule growsD [OF g0]) simp
    then show ?thesis using growsD [OF g False] assms(3) by linarith
  qed
qed

lemma within_admits:
  assumes ad: "admits A G s s'" and w: "slots_within R L s"
    and acc: "\<And>a s0. accountSlotKey a \<in> A \<or> liveAccountSlotKey a \<in> A \<Longrightarrow> G s0 \<Longrightarrow>
        occupancy R s0 (accountSlotKey a) (liveAccountSlotKey a) < lim_account L a + allowance L"
      "\<And>a. accountSlotKey a \<in> A \<Longrightarrow> liveAccountSlotKey a \<notin> A"
    and usr: "\<And>u s0. userSlotKey u \<in> A \<or> liveUserSlotKey u \<in> A \<Longrightarrow> G s0 \<Longrightarrow>
        occupancy R s0 (userSlotKey u) (liveUserSlotKey u) < lim_user L u + allowance L"
      "\<And>u. userSlotKey u \<in> A \<Longrightarrow> liveUserSlotKey u \<notin> A"
    and grp: "\<And>u g s0. userGroupSlotKey u g \<in> A \<or> liveUserGroupSlotKey u g \<in> A \<Longrightarrow> G s0 \<Longrightarrow>
        occupancy R s0 (userGroupSlotKey u g) (liveUserGroupSlotKey u g) < lim_group L u g + allowance L"
      "\<And>u g. userGroupSlotKey u g \<in> A \<Longrightarrow> liveUserGroupSlotKey u g \<notin> A"
    and prx: "\<And>a p s0. accountProxySlotKey a p \<in> A \<Longrightarrow> G s0 \<Longrightarrow>
        r_zcard R s0 (accountProxySlotKey a p) < lim_proxy L a"
    and ing: "\<And>k s0. openAIWSIngressLeaseKey k \<in> A \<Longrightarrow> G s0 \<Longrightarrow>
        r_zcard R s0 (openAIWSIngressLeaseKey k) < lim_ingress L k"
  shows "slots_within R L s'"
  unfolding slots_within_def
proof (intro conjI allI)
  fix a show "occupancy R s' (accountSlotKey a) (liveAccountSlotKey a) \<le> lim_account L a + allowance L"
    by (rule occupancy_admits [OF ad acc(2) acc(1)]) (use w in \<open>auto simp: slots_within_def\<close>)
next
  fix u show "occupancy R s' (userSlotKey u) (liveUserSlotKey u) \<le> lim_user L u + allowance L"
    by (rule occupancy_admits [OF ad usr(2) usr(1)]) (use w in \<open>auto simp: slots_within_def\<close>)
next
  fix u g show "occupancy R s' (userGroupSlotKey u g) (liveUserGroupSlotKey u g) \<le> lim_group L u g + allowance L"
    by (rule occupancy_admits [OF ad grp(2) grp(1)]) (use w in \<open>auto simp: slots_within_def\<close>)
next
  fix a p show "r_zcard R s' (accountProxySlotKey a p) \<le> lim_proxy L a"
    by (rule zcard_admits [OF ad prx]) (use w in \<open>auto simp: slots_within_def\<close>)
next
  fix k show "r_zcard R s' (openAIWSIngressLeaseKey k) \<le> lim_ingress L k"
    by (rule zcard_admits [OF ad ing]) (use w in \<open>auto simp: slots_within_def\<close>)
qed

lemma within_grows: "grows {} s s' \<Longrightarrow> slots_within R L s \<Longrightarrow> slots_within R L s'"
  by (rule within_admits [OF admits_none [of s s' "{}" "\<lambda>_. True"]]) auto

lemma within_grows_free:
  assumes "grows {k} s s'" "slots_within R L s"
    and "k \<in> range apiKeySlotKey \<union> {accountActiveIndexKey, userActiveIndexKey}"
  shows "slots_within R L s'"
  by (rule within_admits [OF admits_add [OF grows_refl _ assms(1), of "\<lambda>_. True"]])
    (use assms(2,3) in \<open>auto simp: key_simps\<close>)

lemma slot_step_within:
  "slot_step R L s s' \<Longrightarrow> slots_within R L s \<Longrightarrow> slots_within R L s'"
proof (induction rule: slot_step.induct)
  case (acquire_account mx a s ttl rid)
  then show ?case
    by (intro within_admits [OF acquireScript_admits]) (auto simp: key_simps allowance_def)
next
  case (acquire_user mx u s ttl rid)
  then show ?case
    by (intro within_admits [OF acquireScript_admits]) (auto simp: key_simps allowance_def)
next
  case (acquire_user_group um u gm g ttl s rid)
  show ?case
    by (rule within_admits [OF acquireUserGroupScript_admits])
      (use acquire_user_group in \<open>auto simp: key_simps allowance_def consistent_id_def\<close>)
next
  case (count s k k' ttl)
  then show ?case by (rule within_grows [OF getCountScript_grows])
next
  case (acquire_live am a um u replacing s k ttl rid)
  show ?case
    by (rule within_admits [OF acquireLiveLeaseScript_admits])
      (use acquire_live in \<open>auto simp: key_simps allowance_def split: if_splits\<close>)
next
  case (acquire_live_group am a um u gm g replacing s k ttl rid)
  show ?case
    by (rule within_admits [OF acquireLiveLeaseForGroupScript_admits])
      (use acquire_live_group in \<open>auto simp: key_simps allowance_def split: if_splits\<close>)
next
  case (refresh_live ttl s ks rid)
  then show ?case by (intro within_grows [OF refreshLiveLeaseScript_grows])
next
  case (track_api_key s k ttl rid)
  then show ?case by (intro within_grows_free [OF trackSlotScript_grows]) auto
next
  case (acquire_ingress mx k s ttl rid)
  then show ?case
    by (intro within_admits [OF acquireOpenAIWSIngressLeaseScript_admits]) (auto simp: key_simps)
next
  case (move um u gm g ttl s g0 rid)
  have "\<exists>A \<subseteq> {userGroupSlotKey u g, userSlotKey u}. admits A
      (\<lambda>s. (userSlotKey u \<in> A \<and> 0 < um \<longrightarrow> occupancy R s (userSlotKey u) (liveUserSlotKey u) < um)
         \<and> (userGroupSlotKey u g \<in> A \<longrightarrow>
              occupancy R s (userGroupSlotKey u g) (liveUserGroupSlotKey u g) < gm))
      s (snd (moveUserGroupScript R (userSlotKey u) (liveUserSlotKey u) (userGroupSlotKey u g0)
          (userGroupSlotKey u g) (liveUserGroupSlotKey u g) ttl um gm rid s))"
    by (rule moveUserGroupScript_admits) (use move in \<open>auto simp: key_simps\<close>)
  then obtain A where A: "A \<subseteq> {userGroupSlotKey u g, userSlotKey u}" and ad: "admits A
      (\<lambda>s. (userSlotKey u \<in> A \<and> 0 < um \<longrightarrow> occupancy R s (userSlotKey u) (liveUserSlotKey u) < um)
         \<and> (userGroupSlotKey u g \<in> A \<longrightarrow>
              occupancy R s (userGroupSlotKey u g) (liveUserGroupSlotKey u g) < gm))
      s (snd (moveUserGroupScript R (userSlotKey u) (liveUserSlotKey u) (userGroupSlotKey u g0)
          (userGroupSlotKey u g) (liveUserGroupSlotKey u g) ttl um gm rid s))"
    by blast
  have no: "accountSlotKey a \<notin> A" "liveAccountSlotKey a \<notin> A" "liveUserSlotKey u' \<notin> A"
      "liveUserGroupSlotKey u' g' \<notin> A" "accountProxySlotKey a p \<notin> A" "openAIWSIngressLeaseKey k \<notin> A"
      "userSlotKey u' \<in> A \<Longrightarrow> u' = u" "userGroupSlotKey u' g' \<in> A \<Longrightarrow> u' = u \<and> g' = g"
    for a u' g' p k
    using A by (auto simp: key_simps)
  show ?case
  proof (rule within_admits [OF ad], goal_cases)
    case (4 u' s0)
    then have "u' = u" using no(3,7) by blast
    with 4 move no(3) show ?case by (auto simp: allowance_def)
  next
    case (6 u' g' s0)
    then have "u' = u \<and> g' = g" using no(4,8) by blast
    with 6 move no(4) show ?case by (auto simp: allowance_def)
  qed (use move no(1-6) in auto)
next
  case (pool lim a ids ttl s rid pinned)
  let ?ps = "map (\<lambda>i. (accountProxySlotKey a i, format_int i)) ids"
  have "\<exists>key. key \<in> insert (accountProxyCursorKey a) (fst ` set ?ps) \<and> admits {accountSlotKey a, key}
      (\<lambda>s. 0 < lim \<longrightarrow> r_zcard R s key < lim \<and>
           occupancy R s (accountSlotKey a) (liveAccountSlotKey a) < lim * int (length ?ps))
      s (snd (acquireProxyPoolScript R (accountSlotKey a) (liveAccountSlotKey a)
          (accountProxyCursorKey a) ?ps lim ttl rid pinned s))"
  proof (rule acquireProxyPoolScript_admits)
    show "distinct (accountSlotKey a # liveAccountSlotKey a # accountProxyCursorKey a # map fst ?ps)"
      using pool by (auto simp: key_simps distinct_map inj_on_def)
  qed (use pool in \<open>auto simp: consistent_id_def\<close>)
  then obtain key where key: "key \<in> insert (accountProxyCursorKey a) (fst ` set ?ps)"
    and ad: "admits {accountSlotKey a, key}
      (\<lambda>s. 0 < lim \<longrightarrow> r_zcard R s key < lim \<and>
           occupancy R s (accountSlotKey a) (liveAccountSlotKey a) < lim * int (length ?ps))
      s (snd (acquireProxyPoolScript R (accountSlotKey a) (liveAccountSlotKey a)
          (accountProxyCursorKey a) ?ps lim ttl rid pinned s))"
    by blast
  have key: "key \<in> insert (accountProxyCursorKey a) (accountProxySlotKey a ` set ids)"
    using key by force
  show ?case
    by (rule within_admits [OF ad]) (use key pool in \<open>auto simp: key_simps allowance_def\<close>)
next
  case (release_pool s k k' rid)
  then show ?case by (intro within_grows [OF releaseProxyPoolScript_grows])
next
  case (release s k rid)
  then show ?case by (intro within_grows [OF grows_zrem [OF grows_refl]])
next
  case (prune s k hi)
  then show ?case by (intro within_grows [OF grows_prune [OF grows_refl]])
next
  case (index_account s sc m)
  then show ?case by (intro within_grows_free [OF grows_zadd [OF _ grows_refl]]) auto
next
  case (index_user s sc m)
  then show ?case by (intro within_grows_free [OF grows_zadd [OF _ grows_refl]]) auto
next
  case (drop_key s k)
  then show ?case by (intro within_grows [OF grows_del [OF grows_refl]])
next
  case (time d s)
  then show ?case by (intro within_grows [OF grows_pass [OF grows_refl]])
qed (auto intro: within_grows refreshAPIKeySlotScript_grows refreshOpenAIWSIngressLeaseScript_grows
      incrementWaitScript_grows decrementWaitScript_grows cleanupExpiredSlotsScript_grows
      startupCleanupSlotScript_grows)

lemma slot_steps_within:
  "(slot_step R L)\<^sup>*\<^sup>* s s' \<Longrightarrow> slots_within R L s \<Longrightarrow> slots_within R L s'"
  by (induction rule: rtranclp_induct) (auto intro: slot_step_within)

end

end
