(* ===== verification/Slot_Semaphore.thy ===== *)
theory Slot_Semaphore
  imports Slot_Safety
begin

text \<open>
  The contract of one dimension of the cache (one account, say): a counting
  semaphore whose holders are leases.  A holder is a request id with the second
  of its last acquisition; it lapses \<open>ttl\<close> seconds later.  Live leases lapse
  after 60 seconds.  The Lua scripts and Redis's own key expiry implement it:
  pruning is lazy, a key's \<open>EXPIRE\<close> may drop the whole set, and neither is
  visible at the semaphore.
\<close>

record sem =
  sem_now :: int
  sem_held :: "member \<Rightarrow> int option"
  sem_live :: "member \<Rightarrow> int option"

definition sem_count :: "sem \<Rightarrow> int" where
  "sem_count \<sigma> = int (card (dom (sem_held \<sigma>))) + int (card (dom (sem_live \<sigma>)))"

definition sem_try :: "int \<Rightarrow> member \<Rightarrow> sem \<Rightarrow> bool \<times> sem" where
  "sem_try mx rid \<sigma> =
     (if sem_held \<sigma> rid \<noteq> None \<or> sem_count \<sigma> < mx
      then (True, \<sigma>\<lparr>sem_held := (sem_held \<sigma>)(rid \<mapsto> sem_now \<sigma>)\<rparr>) else (False, \<sigma>))"

definition sem_free :: "member \<Rightarrow> sem \<Rightarrow> sem" where
  "sem_free rid \<sigma> = \<sigma>\<lparr>sem_held := (sem_held \<sigma>)(rid := None)\<rparr>"

definition lapse :: "int \<Rightarrow> (member \<Rightarrow> int option) \<Rightarrow> member \<Rightarrow> int option" where
  "lapse hi h m = (case h m of None \<Rightarrow> None | Some sc \<Rightarrow> if hi < sc then Some sc else None)"

definition sem_wait :: "int \<Rightarrow> int \<Rightarrow> sem \<Rightarrow> sem" where
  "sem_wait ttl t \<sigma> =
     \<lparr>sem_now = t, sem_held = lapse (t - ttl) (sem_held \<sigma>), sem_live = lapse (t - 60) (sem_live \<sigma>)\<rparr>"

definition sem_abs :: "'s redis \<Rightarrow> int \<Rightarrow> key \<Rightarrow> key \<Rightarrow> 's \<Rightarrow> sem" where
  "sem_abs R ttl key liveKey s =
     \<lparr>sem_now = time_sec R s,
      sem_held = unexpired R (time_sec R s - ttl) key s,
      sem_live = unexpired R (time_sec R s - 60) liveKey s\<rparr>"

section \<open>Key expiry never drops a lease early\<close>

definition scores_past :: "'s redis \<Rightarrow> key \<Rightarrow> 's \<Rightarrow> bool" where
  "scores_past R k s \<longleftrightarrow> (\<forall>m sc. r_zscore R s k m = Some sc \<longrightarrow> sc \<le> time_sec R s)"

definition lease_ok :: "'s redis \<Rightarrow> int \<Rightarrow> key \<Rightarrow> 's \<Rightarrow> bool" where
  "lease_ok R ttl k s \<longleftrightarrow> scores_past R k s \<and>
     (\<forall>m sc t. r_zscore R s k m = Some sc \<longrightarrow> r_deadline R s k = Some t \<longrightarrow> (sc + ttl) * 1000 \<le> t)"

named_theorems lease_intros \<open>commands that keep the lease discipline\<close>

lemma ms_to_sec: "a * 1000 \<le> y div 1000 \<Longrightarrow> a \<le> y div 1000000" for a y :: int
proof -
  assume "a * 1000 \<le> y div 1000"
  moreover have "1000 * (y div 1000) + y mod 1000 = y" "0 \<le> y mod 1000" by simp_all
  ultimately have "a * 1000000 \<le> y" by linarith
  from zdiv_mono1 [OF this, of 1000000] show ?thesis by simp
qed

context redis_store
begin

lemma scores_past_steps [lease_intros]:
  "scores_past R k s \<Longrightarrow> scores_past R k (r_zremrangebyscore R s k' hi)"
  "scores_past R k s \<Longrightarrow> scores_past R k (r_zrem R s k' m)"
  "scores_past R k s \<Longrightarrow> scores_past R k (r_expire R s k' d)"
  "scores_past R k s \<Longrightarrow> scores_past R k (r_del R s k')"
  "scores_past R k s \<Longrightarrow> sc \<le> time_sec R s \<Longrightarrow> scores_past R k (r_zadd R s k' sc m)"
  by (auto simp: scores_past_def)

lemma lease_ok_past: "lease_ok R ttl k s \<Longrightarrow> scores_past R k s"
  by (simp add: lease_ok_def)

lemma lease_ok_steps [lease_intros]:
  "lease_ok R ttl k s \<Longrightarrow> lease_ok R ttl k (r_zremrangebyscore R s k' hi)"
  "lease_ok R ttl k s \<Longrightarrow> lease_ok R ttl k (r_zrem R s k' m)"
  "lease_ok R ttl k s \<Longrightarrow> lease_ok R ttl k (r_del R s k')"
  "lease_ok R ttl k s \<Longrightarrow> k \<noteq> k' \<Longrightarrow> lease_ok R ttl k (r_zadd R s k' sc m)"
  "lease_ok R ttl k s \<Longrightarrow> k \<noteq> k' \<Longrightarrow> lease_ok R ttl k (r_expire R s k' d)"
  by (auto simp: lease_ok_def scores_past_def deadline_zremrange deadline_zrem deadline_del
      deadline_zadd r_expire_def deadline_pexpire split: if_splits)

lemma deadline_expire: "0 < secs \<Longrightarrow> r_exists R s k \<Longrightarrow>
    r_deadline R (r_expire R s k secs) k = Some (r_us R s div 1000 + secs * 1000)"
  by (simp add: r_expire_def deadline_pexpire)

text \<open>\<open>EXPIRE key ttl\<close> restores the discipline whatever the deadline was before.\<close>

lemma lease_ok_expire [lease_intros]:
  assumes "scores_past R k s" and "0 < ttl"
  shows "lease_ok R ttl k (r_expire R s k ttl)"
proof -
  have "(sc + ttl) * 1000 \<le> r_us R s div 1000 + ttl * 1000"
    if "r_zscore R s k m = Some sc" for m sc
    using that assms(1) time_sec_ms [of s] by (auto simp: scores_past_def dest!: spec [of _ m])
  then show ?thesis
    using assms scores_past_steps(3) [OF assms(1)]
    by (auto simp: lease_ok_def r_expire_def deadline_pexpire split: if_splits)
qed

lemma lease_ok_pass [lease_intros]: "lease_ok R ttl k s \<Longrightarrow> 0 \<le> d \<Longrightarrow> lease_ok R ttl k (r_pass R s d)"
proof -
  assume ok: "lease_ok R ttl k s" and d: "0 \<le> d"
  have "time_sec R s \<le> time_sec R (r_pass R s d)"
    using d by (simp add: time_sec_def us_pass zdiv_mono1)
  then show ?thesis using ok d
    by (fastforce simp: lease_ok_def scores_past_def zscore_pass deadline_pass split: if_splits option.splits)
qed

lemma unexpired_lapse: "hi \<le> hi' \<Longrightarrow> unexpired R hi' k s = lapse hi' (unexpired R hi k s)"
  by (auto simp: unexpired_def lapse_def split: option.splits)

text \<open>
  Time passing, with Redis removing every key whose deadline came: the
  semaphore only sees the leases that lapse.
\<close>

lemma pass_refines:
  assumes ok: "lease_ok R ttl key s" "lease_ok R 60 liveKey s" and d: "0 \<le> d"
  shows "sem_abs R ttl key liveKey (r_pass R s d) =
           sem_wait ttl (time_sec R (r_pass R s d)) (sem_abs R ttl key liveKey s)"
proof -
  let ?t = "time_sec R (r_pass R s d)"
  have t: "time_sec R s \<le> ?t" using d by (simp add: time_sec_def us_pass zdiv_mono1)
  have main: "unexpired R (?t - l) k (r_pass R s d) m = unexpired R (?t - l) k s m"
    if "lease_ok R l k s" for l k m
  proof (cases "r_zscore R s k m")
    case None
    then show ?thesis using d by (simp add: unexpired_def zscore_pass)
  next
    case (Some sc)
    have "sc \<le> ?t - l"
      if "r_deadline R s k = Some x" "x \<le> (r_us R s + d) div 1000" for x
    proof -
      have "(sc + l) * 1000 \<le> x" using \<open>lease_ok R l k s\<close> Some that(1) by (auto simp: lease_ok_def)
      with that(2) have "(sc + l) * 1000 \<le> (r_us R s + d) div 1000" by linarith
      then have "sc + l \<le> (r_us R s + d) div 1000000" by (rule ms_to_sec)
      then show ?thesis using d by (simp add: time_sec_def us_pass)
    qed
    then show ?thesis using d Some by (auto simp: unexpired_def zscore_pass)
  qed
  have "unexpired R (?t - l) k s = lapse (?t - l) (unexpired R (time_sec R s - l) k s)" for l k
    using t by (intro unexpired_lapse) simp
  then show ?thesis using main [OF ok(1)] main [OF ok(2)]
    by (simp add: sem_abs_def sem_wait_def fun_eq_iff)
qed

section \<open>Refinement of the scripts\<close>

lemma unexpired_zadd: "hi < sc \<Longrightarrow>
    unexpired R hi k (r_zadd R s k sc m) = (unexpired R hi k s)(m \<mapsto> sc)"
  by (auto simp: unexpired_def fun_eq_iff)

lemma unexpired_zadd_other: "k \<noteq> k' \<Longrightarrow> unexpired R hi k (r_zadd R s k' sc m) = unexpired R hi k s"
  by (auto simp: unexpired_def fun_eq_iff)

lemma unexpired_expire: "0 < d \<Longrightarrow> unexpired R hi k (r_expire R s k' d) = unexpired R hi k s"
  by (auto simp: unexpired_def fun_eq_iff)

lemma unexpired_prune: "h \<le> hi \<Longrightarrow> unexpired R hi k (r_zremrangebyscore R s k' h) = unexpired R hi k s"
  by (auto simp: unexpired_def fun_eq_iff split: option.splits)

lemma unexpired_prune_other:
  "k \<noteq> k' \<Longrightarrow> unexpired R hi k (r_zremrangebyscore R s k' h) = unexpired R hi k s"
  by (auto simp: unexpired_def fun_eq_iff split: option.splits)

lemma unexpired_zrem: "unexpired R hi k (r_zrem R s k m) = (unexpired R hi k s)(m := None)"
  by (auto simp: unexpired_def fun_eq_iff)

lemma unexpired_zrem_other: "k \<noteq> k' \<Longrightarrow> unexpired R hi k (r_zrem R s k' m) = unexpired R hi k s"
  by (auto simp: unexpired_def fun_eq_iff)

lemma unexpired_del_other: "k \<noteq> k' \<Longrightarrow> unexpired R hi k (r_del R s k') = unexpired R hi k s"
  by (auto simp: unexpired_def fun_eq_iff)

lemmas unexpired_steps =
  unexpired_zadd unexpired_zadd_other unexpired_expire unexpired_prune unexpired_prune_other
  unexpired_zrem unexpired_zrem_other unexpired_del_other

text \<open>After pruning, \<open>ZCARD\<close> counts the unexpired members.\<close>

lemma zcard_pruned: "r_zcard R (r_zremrangebyscore R s k hi) k = int (card (dom (unexpired R hi k s)))"
proof -
  have "r_zscore R (r_zremrangebyscore R s k hi) k = unexpired R hi k s"
    by (rule ext) (simp add: zscore_prune del: zscore_zremrange)
  then show ?thesis by (simp add: zcard_card)
qed

lemma acquire_refines:
  assumes "key \<noteq> liveKey" "0 < ttl"
  shows "\<exists>ok s'. acquireScript R key liveKey mx ttl rid s = ((of_bool ok, time_sec R s), s') \<and>
           sem_try mx rid (sem_abs R ttl key liveKey s) = (ok, sem_abs R ttl key liveKey s')"
proof -
  define s0 where "s0 = r_zremrangebyscore R
    (r_zremrangebyscore R s key (time_sec R s - ttl)) liveKey (time_sec R s - 60)"
  have t: "time_sec R s0 = time_sec R s" by (simp add: s0_def)
  have k: "r_zscore R s0 key m = unexpired R (time_sec R s - ttl) key s m" for m
    using assms by (simp add: s0_def zscore_prune del: zscore_zremrange)
  have "r_zcard R s0 key = int (card (dom (unexpired R (time_sec R s - ttl) key s)))"
    using assms by (simp add: s0_def zcard_pruned)
  moreover have "r_zcard R s0 liveKey = int (card (dom (unexpired R (time_sec R s - 60) liveKey s)))"
    using assms by (simp add: s0_def zcard_pruned unexpired_steps)
  ultimately have c: "r_zcard R s0 key + r_zcard R s0 liveKey = sem_count (sem_abs R ttl key liveKey s)"
    by (simp add: sem_count_def sem_abs_def)
  have a0: "sem_abs R ttl key liveKey s0 = sem_abs R ttl key liveKey s"
    using assms by (simp add: sem_abs_def t) (simp add: s0_def unexpired_steps)
  have a1: "sem_abs R ttl key liveKey (r_expire R (r_zadd R s0 key (time_sec R s) rid) key ttl) =
      (sem_abs R ttl key liveKey s)\<lparr>sem_held := (sem_held (sem_abs R ttl key liveKey s))(rid \<mapsto> time_sec R s)\<rparr>"
    using assms a0 by (simp add: sem_abs_def t unexpired_steps)
  let ?\<sigma> = "sem_abs R ttl key liveKey s"
  have held: "sem_held ?\<sigma> rid = unexpired R (time_sec R s - ttl) key s rid" and now: "sem_now ?\<sigma> = time_sec R s"
    by (simp_all add: sem_abs_def)
  have "acquireScript R key liveKey mx ttl rid s =
      (if sem_held ?\<sigma> rid \<noteq> None \<or> sem_count ?\<sigma> < mx
       then ((1, time_sec R s), r_expire R (r_zadd R s0 key (time_sec R s) rid) key ttl)
       else ((0, time_sec R s), s0))"
    unfolding acquireScript_def Let_def unfolding s0_def [symmetric] k c held by simp
  then show ?thesis
    by (auto simp: sem_try_def a0 a1 now)
qed

lemma release_refines:
  "key \<noteq> liveKey \<Longrightarrow>
     sem_abs R ttl key liveKey (r_zrem R s key rid) = sem_free rid (sem_abs R ttl key liveKey s)"
  by (simp add: sem_abs_def sem_free_def unexpired_steps)

lemma count_refines:
  assumes "key \<noteq> liveKey"
  shows "\<exists>s'. getCountScript R key liveKey ttl s = (sem_count (sem_abs R ttl key liveKey s), s') \<and>
           sem_abs R ttl key liveKey s' = sem_abs R ttl key liveKey s"
  using assms
  by (simp add: getCountScript_def Let_def sem_count_def sem_abs_def unexpired_steps zcard_pruned)

lemma cleanup_refines:
  assumes "key \<noteq> liveKey" "0 < ttl"
  shows "sem_abs R ttl key liveKey (snd (cleanupExpiredSlotsScript R key ttl s)) = sem_abs R ttl key liveKey s"
proof -
  define s0 where "s0 = r_zremrangebyscore R s key (time_sec R s - ttl)"
  have t: "time_sec R s0 = time_sec R s" by (simp add: s0_def)
  have a0: "sem_abs R ttl key liveKey s0 = sem_abs R ttl key liveKey s"
    using assms by (simp add: sem_abs_def t) (simp add: s0_def unexpired_steps)
  have "unexpired R hi key (r_del R s0 key) = unexpired R hi key s0" if "r_zcard R s0 key = 0" for hi
    using that by (auto simp: unexpired_def zcard_zero_iff fun_eq_iff)
  then show ?thesis using assms a0
    unfolding cleanupExpiredSlotsScript_def Let_def unfolding s0_def [symmetric]
    by (auto simp: sem_abs_def unexpired_steps t)
qed

text \<open>
  The live-lease script, seen from the account.  It does not prune the
  regular set, so it may refuse where the semaphore would admit, and never
  admits where the semaphore would refuse.
\<close>

lemma live_lease_refines:
  assumes keys: "distinct [ar, al, ul, pl]" and am: "0 < am"
    and \<sigma>_def: "\<sigma> = sem_abs R ttl ar al s"
  shows "\<exists>r s'. acquireLiveLeaseScript R ar al ur ul pl am um 60 lid replacing s = (r, s') \<and>
     (sem_abs R ttl ar al s' = \<sigma> \<or>
      r = 1 \<and> sem_count \<sigma> < am + (if replacing = 1 then 1 else 0) \<and>
      sem_abs R ttl ar al s' = \<sigma>\<lparr>sem_live := (sem_live \<sigma>)(lid \<mapsto> sem_now \<sigma>)\<rparr>)"
proof -
  define s0 where "s0 = r_zremrangebyscore R (r_zremrangebyscore R
    (r_zremrangebyscore R s al (time_sec R s - 60)) ul (time_sec R s - 60)) pl (time_sec R s - 60)"
  have t: "time_sec R s0 = time_sec R s" by (simp add: s0_def)
  have a0: "sem_abs R ttl ar al s0 = \<sigma>"
    using keys by (simp add: sem_abs_def \<sigma>_def t) (simp add: s0_def unexpired_steps)
  have "dom (unexpired R (time_sec R s - ttl) ar s) \<subseteq> dom (r_zscore R s0 ar)"
    using keys by (auto simp: s0_def unexpired_def split: option.splits if_splits)
  then have "int (card (dom (unexpired R (time_sec R s - ttl) ar s))) \<le> r_zcard R s0 ar"
    by (simp add: zcard_card card_mono)
  moreover have "r_zcard R s0 al = int (card (dom (unexpired R (time_sec R s - 60) al s)))"
    using keys by (simp add: s0_def zcard_pruned unexpired_steps)
  ultimately have c: "sem_count \<sigma> \<le> r_zcard R s0 ar + r_zcard R s0 al"
    by (simp add: sem_count_def sem_abs_def \<sigma>_def)
  let ?s' = "r_expire R (r_expire R (r_expire R (r_zadd R (r_zadd R (r_zadd R s0 al (time_sec R s) lid)
    ul (time_sec R s) lid) pl (time_sec R s) lid) al 60) ul 60) pl 60"
  have a1: "sem_abs R ttl ar al ?s' = \<sigma>\<lparr>sem_live := (sem_live \<sigma>)(lid \<mapsto> sem_now \<sigma>)\<rparr>"
    using keys a0 by (auto simp: sem_abs_def t unexpired_steps \<sigma>_def)
  show ?thesis
    unfolding acquireLiveLeaseScript_def Let_def unfolding s0_def [symmetric]
    using am c by (auto simp: a0 a1 not_le)
qed

end

end
