(* ===== verification/Slot_Cache.thy ===== *)
theory Slot_Cache
  imports Slot_System Slot_Semaphore
begin

text \<open>
  The Go methods of \<open>concurrencyCache\<close> (\<open>concurrency_cache.go\<close>,
  \<open>concurrency_group_transfer.go\<close>, \<open>account_proxy_concurrency.go\<close>) as programs of
  round trips.  The nil checks on the receiver and its client have no
  counterpart: a cache here is never nil.  A Go map result is a partial function.
\<close>

section \<open>Configuration\<close>

record concurrencyCache =
  slotTTLSeconds :: int
  waitQueueTTLSeconds :: int
  apiKeySlotTTLSeconds :: int

definition NewConcurrencyCacheWithAPIKeyTTL :: "int \<Rightarrow> int \<Rightarrow> int \<Rightarrow> concurrencyCache" where
  "NewConcurrencyCacheWithAPIKeyTTL slotTTLMinutes waitTTLSeconds apiKeyTTLSeconds =
     (let slotTTLMinutes = (if slotTTLMinutes \<le> 0 then defaultSlotTTLMinutes else slotTTLMinutes);
          waitTTLSeconds = (if waitTTLSeconds \<le> 0 then slotTTLMinutes * 60 else waitTTLSeconds)
      in \<lparr>slotTTLSeconds = slotTTLMinutes * 60, waitQueueTTLSeconds = waitTTLSeconds,
          apiKeySlotTTLSeconds = apiKeyTTLSeconds\<rparr>)"

definition NewConcurrencyCache :: "int \<Rightarrow> int \<Rightarrow> concurrencyCache" where
  "NewConcurrencyCache slotTTLMinutes waitTTLSeconds =
     NewConcurrencyCacheWithAPIKeyTTL slotTTLMinutes waitTTLSeconds 0"

definition effectiveAPIKeySlotTTLSeconds :: "concurrencyCache \<Rightarrow> int" where
  "effectiveAPIKeySlotTTLSeconds c =
     (if apiKeySlotTTLSeconds c > 0 then apiKeySlotTTLSeconds c else slotTTLSeconds c)"

text \<open>Durations are in nanoseconds; the Go quotient truncates, and the operands are positive.\<close>

definition APIKeySlotRefreshInterval :: "concurrencyCache \<Rightarrow> int" where
  "APIKeySlotRefreshInterval c = effectiveAPIKeySlotTTLSeconds c * 1000000000 div 3"

definition APIKeySlotTTL :: "concurrencyCache \<Rightarrow> int" where
  "APIKeySlotTTL c = effectiveAPIKeySlotTTLSeconds c * 1000000000"

section \<open>Active indexes\<close>

record slotIndexSpec =
  indexKey :: key
  slotKey :: "id \<Rightarrow> key"
  waitKey :: "id \<Rightarrow> key"

definition accountSlotIndex :: slotIndexSpec where
  "accountSlotIndex = \<lparr>indexKey = accountActiveIndexKey, slotKey = accountSlotKey, waitKey = accountWaitKey\<rparr>"

definition userSlotIndex :: slotIndexSpec where
  "userSlotIndex = \<lparr>indexKey = userActiveIndexKey, slotKey = userSlotKey, waitKey = waitQueueKey\<rparr>"

record activeIndexLoad =
  al_id :: id
  al_member :: member
  al_slotCount :: int
  al_waitCount :: int

definition redisUnixSeconds :: "'s redis \<Rightarrow> ('s, int) prog" where
  "redisUnixSeconds R = query (time_sec R)"

definition touchActiveIndexAt :: "'s redis \<Rightarrow> key \<Rightarrow> id \<Rightarrow> int \<Rightarrow> ('s, unit) prog" where
  "touchActiveIndexAt R index i expireAt =
     (if i \<le> 0 \<or> expireAt \<le> 0 then returnW ()
      else tryW (update (\<lambda>s. r_zadd R s index expireAt (format_int i))))"

definition activeIndexTTL :: "concurrencyCache \<Rightarrow> int \<Rightarrow> int \<Rightarrow> int" where
  "activeIndexTTL c slotCount waitCount =
     (let ttlSeconds = (if slotCount > 0 then slotTTLSeconds c else 0)
      in if waitCount > 0 \<and> waitQueueTTLSeconds c > ttlSeconds then waitQueueTTLSeconds c else ttlSeconds)"

text \<open>Replies of the commands in a pipeline.\<close>

datatype reply = RUnit | RInt int | RStr "string option"

definition cmd_prune :: "'s redis \<Rightarrow> key \<Rightarrow> int \<Rightarrow> 's \<Rightarrow> reply \<times> 's" where
  "cmd_prune R k hi s = (RUnit, r_zremrangebyscore R s k hi)"

definition cmd_zcard :: "'s redis \<Rightarrow> key \<Rightarrow> 's \<Rightarrow> reply \<times> 's" where
  "cmd_zcard R k s = (RInt (r_zcard R s k), s)"

definition cmd_get :: "'s redis \<Rightarrow> key \<Rightarrow> 's \<Rightarrow> reply \<times> 's" where
  "cmd_get R k s = (RStr (r_get R s k), s)"

text \<open>\<open>if v, err := getCmd.Int(); err == nil && v > 0\<close>: a missing or malformed counter reads 0.\<close>

definition wait_of :: "string option \<Rightarrow> int" where
  "wait_of v = (case Option.bind v parse_int of None \<Rightarrow> 0 | Some n \<Rightarrow> if n > 0 then n else 0)"

fun load_of_replies :: "id \<Rightarrow> member \<Rightarrow> reply list \<Rightarrow> activeIndexLoad" where
  "load_of_replies i m [_, RInt n, RStr v] =
     \<lparr>al_id = i, al_member = m, al_slotCount = n, al_waitCount = wait_of v\<rparr>"
| "load_of_replies i m _ = \<lparr>al_id = i, al_member = m, al_slotCount = 0, al_waitCount = 0\<rparr>"

definition load_cmds :: "'s redis \<Rightarrow> int \<Rightarrow> key \<Rightarrow> key \<Rightarrow> ('s \<Rightarrow> reply \<times> 's) list" where
  "load_cmds R cutoff sk wk = [cmd_prune R sk cutoff, cmd_zcard R sk, cmd_get R wk]"

definition readActiveLoadForKey ::
    "'s redis \<Rightarrow> concurrencyCache \<Rightarrow> id \<Rightarrow> key \<Rightarrow> key \<Rightarrow> int \<Rightarrow> ('s, activeIndexLoad) prog" where
  "readActiveLoadForKey R c i sk wk now =
     bindW (pipelineW (load_cmds R (now - slotTTLSeconds c) sk wk))
       (\<lambda>rs. returnW (load_of_replies i (format_int i) rs))"

text \<open>The errors of the steps inside are logged and end the refresh; \<open>tryW\<close> drops them.\<close>

definition refreshActiveIndex ::
    "'s redis \<Rightarrow> concurrencyCache \<Rightarrow> key \<Rightarrow> id \<Rightarrow> key \<Rightarrow> key \<Rightarrow> ('s, unit) prog" where
  "refreshActiveIndex R c index i sk wk =
     (if i \<le> 0 then returnW ()
      else tryW (bindW (redisUnixSeconds R) (\<lambda>now.
        bindW (readActiveLoadForKey R c i sk wk now) (\<lambda>load.
          if al_slotCount load = 0 \<and> al_waitCount load \<le> 0
          then update (\<lambda>s. r_zrem R s index (format_int i))
          else
            (let ttlSeconds = activeIndexTTL c (al_slotCount load) (al_waitCount load)
             in if ttlSeconds \<le> 0 then returnW ()
                else touchActiveIndexAt R index i (now + ttlSeconds))))))"

definition refreshAccountActiveIndex :: "'s redis \<Rightarrow> concurrencyCache \<Rightarrow> id \<Rightarrow> ('s, unit) prog" where
  "refreshAccountActiveIndex R c accountID =
     refreshActiveIndex R c accountActiveIndexKey accountID (accountSlotKey accountID) (accountWaitKey accountID)"

definition refreshUserActiveIndex :: "'s redis \<Rightarrow> concurrencyCache \<Rightarrow> id \<Rightarrow> ('s, unit) prog" where
  "refreshUserActiveIndex R c userID =
     refreshActiveIndex R c userActiveIndexKey userID (userSlotKey userID) (waitQueueKey userID)"

section \<open>Account and user slots\<close>

definition AcquireAccountSlot ::
    "'s redis \<Rightarrow> concurrencyCache \<Rightarrow> id \<Rightarrow> int \<Rightarrow> member \<Rightarrow> ('s, bool) prog" where
  "AcquireAccountSlot R c accountID maxConcurrency requestID =
     bindW (round_trip (acquireScript R (accountSlotKey accountID) (liveAccountSlotKey accountID)
              maxConcurrency (slotTTLSeconds c) requestID))
       (\<lambda>(result, now).
          bindW (if result = 1
                 then touchActiveIndexAt R accountActiveIndexKey accountID (now + slotTTLSeconds c)
                 else returnW ())
            (\<lambda>_. returnW (result = 1)))"

definition ReleaseAccountSlot ::
    "'s redis \<Rightarrow> concurrencyCache \<Rightarrow> id \<Rightarrow> member \<Rightarrow> ('s, unit) prog" where
  "ReleaseAccountSlot R c accountID requestID =
     bindW (update (\<lambda>s. r_zrem R s (accountSlotKey accountID) requestID))
       (\<lambda>_. refreshAccountActiveIndex R c accountID)"

definition GetAccountConcurrency :: "'s redis \<Rightarrow> concurrencyCache \<Rightarrow> id \<Rightarrow> ('s, int) prog" where
  "GetAccountConcurrency R c accountID =
     round_trip (getCountScript R (accountSlotKey accountID) (liveAccountSlotKey accountID) (slotTTLSeconds c))"

text \<open>The batch pipelines: four commands per id, the sum of the last two replies.\<close>

definition count_cmds :: "'s redis \<Rightarrow> int \<Rightarrow> int \<Rightarrow> key \<Rightarrow> key \<Rightarrow> ('s \<Rightarrow> reply \<times> 's) list" where
  "count_cmds R cutoff liveCutoff sk lk =
     [cmd_prune R sk cutoff, cmd_prune R lk liveCutoff, cmd_zcard R sk, cmd_zcard R lk]"

fun batch_counts :: "id list \<Rightarrow> reply list \<Rightarrow> (id \<times> int) list" where
  "batch_counts (i # is) (_ # _ # RInt a # RInt b # rs) = (i, a + b) # batch_counts is rs"
| "batch_counts _ _ = []"

definition go_map :: "(id \<times> 'v) list \<Rightarrow> id \<Rightarrow> 'v option" where
  "go_map xs = map_of (rev xs)"

definition GetAccountConcurrencyBatch ::
    "'s redis \<Rightarrow> concurrencyCache \<Rightarrow> id list \<Rightarrow> ('s, id \<Rightarrow> int option) prog" where
  "GetAccountConcurrencyBatch R c accountIDs =
     (if accountIDs = [] then returnW (go_map [])
      else bindW (redisUnixSeconds R) (\<lambda>now.
        bindW (pipelineW (concat (map (\<lambda>a.
            count_cmds R (now - slotTTLSeconds c) (now - liveLeaseTTLSeconds)
              (accountSlotKey a) (liveAccountSlotKey a)) accountIDs)))
          (\<lambda>rs. returnW (go_map (batch_counts accountIDs rs)))))"

definition AcquireUserSlot ::
    "'s redis \<Rightarrow> concurrencyCache \<Rightarrow> id \<Rightarrow> int \<Rightarrow> member \<Rightarrow> ('s, bool) prog" where
  "AcquireUserSlot R c userID maxConcurrency requestID =
     bindW (round_trip (acquireScript R (userSlotKey userID) (liveUserSlotKey userID)
              maxConcurrency (slotTTLSeconds c) requestID))
       (\<lambda>(result, now).
          bindW (if result = 1
                 then touchActiveIndexAt R userActiveIndexKey userID (now + slotTTLSeconds c)
                 else returnW ())
            (\<lambda>_. returnW (result = 1)))"

definition ReleaseUserSlot ::
    "'s redis \<Rightarrow> concurrencyCache \<Rightarrow> id \<Rightarrow> member \<Rightarrow> ('s, unit) prog" where
  "ReleaseUserSlot R c userID requestID =
     bindW (update (\<lambda>s. r_zrem R s (userSlotKey userID) requestID))
       (\<lambda>_. refreshUserActiveIndex R c userID)"

definition AcquireUserGroupSlot ::
    "'s redis \<Rightarrow> concurrencyCache \<Rightarrow> id \<Rightarrow> id \<Rightarrow> int \<Rightarrow> int \<Rightarrow> member \<Rightarrow> ('s, bool) prog" where
  "AcquireUserGroupSlot R c userID groupID userMax groupMax requestID =
     (if userID \<le> 0 \<or> groupID \<le> 0 \<or> requestID = [] \<or> groupMax \<le> 0 then returnW False
      else bindW (round_trip (acquireUserGroupScript R (userSlotKey userID) (liveUserSlotKey userID)
             (userGroupSlotKey userID groupID) (liveUserGroupSlotKey userID groupID)
             userMax groupMax (slotTTLSeconds c) requestID))
        (\<lambda>(result, now).
           bindW (if result = 1
                  then touchActiveIndexAt R userActiveIndexKey userID (now + slotTTLSeconds c)
                  else returnW ())
             (\<lambda>_. returnW (result = 1))))"

definition ReleaseUserGroupSlot ::
    "'s redis \<Rightarrow> concurrencyCache \<Rightarrow> id \<Rightarrow> id \<Rightarrow> member \<Rightarrow> ('s, unit) prog" where
  "ReleaseUserGroupSlot R c userID groupID requestID =
     (if userID \<le> 0 \<or> groupID \<le> 0 \<or> requestID = [] then returnW ()
      else bindW (update (\<lambda>s.
          let s = r_zrem R s (userSlotKey userID) requestID
          in r_zrem R s (userGroupSlotKey userID groupID) requestID))
        (\<lambda>_. refreshUserActiveIndex R c userID))"

definition GetUserConcurrency :: "'s redis \<Rightarrow> concurrencyCache \<Rightarrow> id \<Rightarrow> ('s, int) prog" where
  "GetUserConcurrency R c userID =
     round_trip (getCountScript R (userSlotKey userID) (liveUserSlotKey userID) (slotTTLSeconds c))"

definition MoveUserGroupSlot ::
    "'s redis \<Rightarrow> concurrencyCache \<Rightarrow> id \<Rightarrow> id \<Rightarrow> id \<Rightarrow> int \<Rightarrow> int \<Rightarrow> member \<Rightarrow> ('s, bool) prog" where
  "MoveUserGroupSlot R c userID sourceID targetID userMax groupMax requestID =
     (if userID \<le> 0 \<or> targetID \<le> 0 \<or> requestID = []
      then failW (ErrInvalid ''invalid user group concurrency transfer'')
      else bindW (round_trip (moveUserGroupScript R (userSlotKey userID) (liveUserSlotKey userID)
             (userGroupSlotKey userID sourceID) (userGroupSlotKey userID targetID)
             (liveUserGroupSlotKey userID targetID) (slotTTLSeconds c) userMax groupMax requestID))
        (\<lambda>(result, now).
           bindW (if result = 1
                  then touchActiveIndexAt R userActiveIndexKey userID (now + slotTTLSeconds c)
                  else returnW ())
             (\<lambda>_. returnW (result = 1))))"

section \<open>API-key slots and ingress leases\<close>

definition TrackAPIKeySlot :: "'s redis \<Rightarrow> concurrencyCache \<Rightarrow> id \<Rightarrow> member \<Rightarrow> ('s, unit) prog" where
  "TrackAPIKeySlot R c apiKeyID requestID =
     bindW (round_trip (trackSlotScript R (apiKeySlotKey apiKeyID) (effectiveAPIKeySlotTTLSeconds c) requestID))
       (\<lambda>_. returnW ())"

definition ReleaseAPIKeySlot :: "'s redis \<Rightarrow> id \<Rightarrow> member \<Rightarrow> ('s, unit) prog" where
  "ReleaseAPIKeySlot R apiKeyID requestID = update (\<lambda>s. r_zrem R s (apiKeySlotKey apiKeyID) requestID)"

definition RefreshAPIKeySlot :: "'s redis \<Rightarrow> concurrencyCache \<Rightarrow> id \<Rightarrow> member \<Rightarrow> ('s, bool) prog" where
  "RefreshAPIKeySlot R c apiKeyID requestID =
     bindW (round_trip (refreshAPIKeySlotScript R (apiKeySlotKey apiKeyID)
              (effectiveAPIKeySlotTTLSeconds c) requestID))
       (\<lambda>n. returnW (n = 1))"

definition AcquireOpenAIWSIngressLease :: "'s redis \<Rightarrow> id \<Rightarrow> int \<Rightarrow> member \<Rightarrow> ('s, bool) prog" where
  "AcquireOpenAIWSIngressLease R apiKeyID maxConnections leaseID =
     (if apiKeyID \<le> 0 \<or> maxConnections \<le> 0 \<or> leaseID = [] then returnW False
      else bindW (round_trip (acquireOpenAIWSIngressLeaseScript R (openAIWSIngressLeaseKey apiKeyID)
             maxConnections openAIWSIngressLeaseTTLSeconds leaseID))
        (\<lambda>result. returnW (result = 1)))"

definition RefreshOpenAIWSIngressLease :: "'s redis \<Rightarrow> id \<Rightarrow> member \<Rightarrow> ('s, bool) prog" where
  "RefreshOpenAIWSIngressLease R apiKeyID leaseID =
     (if apiKeyID \<le> 0 \<or> leaseID = [] then returnW False
      else bindW (round_trip (refreshOpenAIWSIngressLeaseScript R (openAIWSIngressLeaseKey apiKeyID)
             openAIWSIngressLeaseTTLSeconds leaseID))
        (\<lambda>result. returnW (result = 1)))"

definition ReleaseOpenAIWSIngressLease :: "'s redis \<Rightarrow> id \<Rightarrow> member \<Rightarrow> ('s, unit) prog" where
  "ReleaseOpenAIWSIngressLease R apiKeyID leaseID =
     (if apiKeyID \<le> 0 \<or> leaseID = [] then returnW ()
      else update (\<lambda>s. r_zrem R s (openAIWSIngressLeaseKey apiKeyID) leaseID))"

end
