(* ===== verification/Slot_Leases.thy ===== *)
theory Slot_Leases
  imports Slot_Cache
begin

text \<open>
  The rest of the methods of \<open>concurrencyCache\<close>: live leases, wait counters, the
  load batches, and the maintenance of the active indexes (periodic
  reconciliation and the clean-up at process start).
\<close>

section \<open>Live leases\<close>

definition AcquireLiveLease ::
    "'s redis \<Rightarrow> id \<Rightarrow> int \<Rightarrow> id \<Rightarrow> int \<Rightarrow> id \<Rightarrow> member \<Rightarrow> bool \<Rightarrow> ('s, bool) prog" where
  "AcquireLiveLease R accountID accountMax userID userMax apiKeyID leaseID replacingRegularSlots =
     (if accountID \<le> 0 \<or> userID \<le> 0 \<or> apiKeyID \<le> 0 \<or> leaseID = [] then returnW False
      else
        (let replacing = (if replacingRegularSlots then 1 else 0)
         in bindW (round_trip (acquireLiveLeaseScript R (accountSlotKey accountID)
                (liveAccountSlotKey accountID) (userSlotKey userID) (liveUserSlotKey userID)
                (liveAPIKeySlotKey apiKeyID) accountMax userMax liveLeaseTTLSeconds leaseID replacing))
              (\<lambda>result. returnW (result = 1))))"

definition AcquireLiveLeaseForGroup ::
    "'s redis \<Rightarrow> id \<Rightarrow> int \<Rightarrow> id \<Rightarrow> int \<Rightarrow> id \<Rightarrow> int \<Rightarrow> id \<Rightarrow> member \<Rightarrow> bool \<Rightarrow> ('s, bool) prog" where
  "AcquireLiveLeaseForGroup R accountID accountMax userID userMax groupID groupMax apiKeyID leaseID
     replacingRegularSlots =
     (if accountID \<le> 0 \<or> userID \<le> 0 \<or> groupID \<le> 0 \<or> apiKeyID \<le> 0 \<or> leaseID = [] \<or> groupMax \<le> 0
      then returnW False
      else
        (let replacing = (if replacingRegularSlots then 1 else 0)
         in bindW (round_trip (acquireLiveLeaseForGroupScript R (accountSlotKey accountID)
                (liveAccountSlotKey accountID) (userSlotKey userID) (liveUserSlotKey userID)
                (userGroupSlotKey userID groupID) (liveUserGroupSlotKey userID groupID)
                (liveAPIKeySlotKey apiKeyID) accountMax userMax groupMax liveLeaseTTLSeconds
                leaseID replacing))
              (\<lambda>result. returnW (result = 1))))"

definition RefreshLiveLease :: "'s redis \<Rightarrow> id \<Rightarrow> id \<Rightarrow> id \<Rightarrow> member \<Rightarrow> ('s, bool) prog" where
  "RefreshLiveLease R accountID userID apiKeyID leaseID =
     (if leaseID = [] then returnW False
      else bindW (round_trip (refreshLiveLeaseScript R
             [liveAccountSlotKey accountID, liveUserSlotKey userID, liveAPIKeySlotKey apiKeyID]
             liveLeaseTTLSeconds leaseID))
        (\<lambda>result. returnW (result = 1)))"

definition RefreshLiveLeaseForGroup ::
    "'s redis \<Rightarrow> id \<Rightarrow> id \<Rightarrow> id \<Rightarrow> id \<Rightarrow> member \<Rightarrow> ('s, bool) prog" where
  "RefreshLiveLeaseForGroup R accountID userID groupID apiKeyID leaseID =
     (if groupID \<le> 0 \<or> leaseID = [] then returnW False
      else bindW (round_trip (refreshLiveLeaseScript R
             [liveAccountSlotKey accountID, liveUserSlotKey userID,
              liveUserGroupSlotKey userID groupID, liveAPIKeySlotKey apiKeyID]
             liveLeaseTTLSeconds leaseID))
        (\<lambda>result. returnW (result = 1)))"

definition zrem_all :: "'s redis \<Rightarrow> key list \<Rightarrow> member \<Rightarrow> 's \<Rightarrow> 's" where
  "zrem_all R ks m s = fold (\<lambda>k s. r_zrem R s k m) ks s"

definition ReleaseLiveLease :: "'s redis \<Rightarrow> id \<Rightarrow> id \<Rightarrow> id \<Rightarrow> member \<Rightarrow> ('s, unit) prog" where
  "ReleaseLiveLease R accountID userID apiKeyID leaseID =
     (if leaseID = [] then returnW ()
      else update (zrem_all R
        [liveAccountSlotKey accountID, liveUserSlotKey userID, liveAPIKeySlotKey apiKeyID] leaseID))"

definition ReleaseLiveLeaseForGroup ::
    "'s redis \<Rightarrow> id \<Rightarrow> id \<Rightarrow> id \<Rightarrow> id \<Rightarrow> member \<Rightarrow> ('s, unit) prog" where
  "ReleaseLiveLeaseForGroup R accountID userID groupID apiKeyID leaseID =
     (if groupID \<le> 0 \<or> leaseID = [] then returnW ()
      else update (zrem_all R
        [liveAccountSlotKey accountID, liveUserSlotKey userID,
         liveUserGroupSlotKey userID groupID, liveAPIKeySlotKey apiKeyID] leaseID))"

definition GetAPIKeyConcurrencyBatch ::
    "'s redis \<Rightarrow> concurrencyCache \<Rightarrow> id list \<Rightarrow> ('s, id \<Rightarrow> int option) prog" where
  "GetAPIKeyConcurrencyBatch R c apiKeyIDs =
     (if apiKeyIDs = [] then returnW (go_map [])
      else bindW (redisUnixSeconds R) (\<lambda>now.
        bindW (pipelineW (concat (map (\<lambda>k.
            count_cmds R (now - effectiveAPIKeySlotTTLSeconds c) (now - liveLeaseTTLSeconds)
              (apiKeySlotKey k) (liveAPIKeySlotKey k)) apiKeyIDs)))
          (\<lambda>rs. returnW (go_map (batch_counts apiKeyIDs rs)))))"

section \<open>Wait counters\<close>

definition IncrementWaitCount :: "'s redis \<Rightarrow> concurrencyCache \<Rightarrow> id \<Rightarrow> int \<Rightarrow> ('s, bool) prog" where
  "IncrementWaitCount R c userID maxWait =
     bindW (round_trip (incrementWaitScript R (waitQueueKey userID) maxWait (waitQueueTTLSeconds c)))
       (\<lambda>reply. case reply of
          None \<Rightarrow> failW ErrRedis
        | Some (result, now) \<Rightarrow>
            bindW (if result = 1
                   then touchActiveIndexAt R userActiveIndexKey userID (now + waitQueueTTLSeconds c)
                   else returnW ())
              (\<lambda>_. returnW (result = 1)))"

definition DecrementWaitCount :: "'s redis \<Rightarrow> concurrencyCache \<Rightarrow> id \<Rightarrow> ('s, unit) prog" where
  "DecrementWaitCount R c userID =
     bindW (round_trip (decrementWaitScript R (waitQueueKey userID)))
       (\<lambda>reply. case reply of
          None \<Rightarrow> failW ErrRedis
        | Some _ \<Rightarrow> refreshUserActiveIndex R c userID)"

definition IncrementAccountWaitCount :: "'s redis \<Rightarrow> concurrencyCache \<Rightarrow> id \<Rightarrow> int \<Rightarrow> ('s, bool) prog" where
  "IncrementAccountWaitCount R c accountID maxWait =
     bindW (round_trip (incrementAccountWaitScript R (accountWaitKey accountID) maxWait (waitQueueTTLSeconds c)))
       (\<lambda>reply. case reply of
          None \<Rightarrow> failW ErrRedis
        | Some (result, now) \<Rightarrow>
            bindW (if result = 1
                   then touchActiveIndexAt R accountActiveIndexKey accountID (now + waitQueueTTLSeconds c)
                   else returnW ())
              (\<lambda>_. returnW (result = 1)))"

definition DecrementAccountWaitCount :: "'s redis \<Rightarrow> concurrencyCache \<Rightarrow> id \<Rightarrow> ('s, unit) prog" where
  "DecrementAccountWaitCount R c accountID =
     bindW (round_trip (decrementWaitScript R (accountWaitKey accountID)))
       (\<lambda>reply. case reply of
          None \<Rightarrow> failW ErrRedis
        | Some _ \<Rightarrow> refreshAccountActiveIndex R c accountID)"

definition GetAccountWaitingCount :: "'s redis \<Rightarrow> id \<Rightarrow> ('s, int) prog" where
  "GetAccountWaitingCount R accountID =
     bindW (query (\<lambda>s. r_get R s (accountWaitKey accountID)))
       (\<lambda>v. case v of None \<Rightarrow> returnW 0
          | Some t \<Rightarrow> (case parse_int t of None \<Rightarrow> failW ErrRedis | Some n \<Rightarrow> returnW n))"

section \<open>Load batches\<close>

text \<open>\<open>AccountLoadInfo\<close> and \<open>UserLoadInfo\<close> have the same four fields.\<close>

record load_info =
  li_id :: id
  CurrentConcurrency :: int
  WaitingCount :: int
  LoadRate :: int

text \<open>Go's \<open>/\<close> truncates; both operands are non-negative unless a stored counter is negative.\<close>

definition go_div :: "int \<Rightarrow> int \<Rightarrow> int" where
  "go_div a b = (if a < 0 then - ((- a) div b) else a div b)"

definition load_info_of :: "id \<Rightarrow> int \<Rightarrow> int \<Rightarrow> string option \<Rightarrow> load_info" where
  "load_info_of i mx currentConcurrency v =
     (let waitingCount = (case Option.bind v parse_int of None \<Rightarrow> 0 | Some n \<Rightarrow> n);
          loadRate = (if mx > 0 then go_div ((currentConcurrency + waitingCount) * 100) mx else 0)
      in \<lparr>li_id = i, CurrentConcurrency = currentConcurrency, WaitingCount = waitingCount,
          LoadRate = loadRate\<rparr>)"

fun batch_loads :: "(id \<times> int) list \<Rightarrow> reply list \<Rightarrow> (id \<times> load_info) list" where
  "batch_loads ((i, mx) # is) (_ # _ # RInt a # RInt b # RStr v # rs) =
     (i, load_info_of i mx (a + b) v) # batch_loads is rs"
| "batch_loads _ _ = []"

definition GetAccountsLoadBatch ::
    "'s redis \<Rightarrow> concurrencyCache \<Rightarrow> (id \<times> int) list \<Rightarrow> ('s, id \<Rightarrow> load_info option) prog" where
  "GetAccountsLoadBatch R c accounts =
     (if accounts = [] then returnW (go_map [])
      else bindW (redisUnixSeconds R) (\<lambda>now.
        bindW (pipelineW (concat (map (\<lambda>(a, _).
            count_cmds R (now - slotTTLSeconds c) (now - liveLeaseTTLSeconds)
              (accountSlotKey a) (liveAccountSlotKey a) @ [cmd_get R (accountWaitKey a)]) accounts)))
          (\<lambda>rs. returnW (go_map (batch_loads accounts rs)))))"

definition GetUsersLoadBatch ::
    "'s redis \<Rightarrow> concurrencyCache \<Rightarrow> (id \<times> int) list \<Rightarrow> ('s, id \<Rightarrow> load_info option) prog" where
  "GetUsersLoadBatch R c users =
     (if users = [] then returnW (go_map [])
      else bindW (redisUnixSeconds R) (\<lambda>now.
        bindW (pipelineW (concat (map (\<lambda>(u, _).
            count_cmds R (now - slotTTLSeconds c) (now - liveLeaseTTLSeconds)
              (userSlotKey u) (liveUserSlotKey u) @ [cmd_get R (waitQueueKey u)]) users)))
          (\<lambda>rs. returnW (go_map (batch_loads users rs)))))"

section \<open>Maintenance of the indexes\<close>

definition CleanupExpiredAccountSlots :: "'s redis \<Rightarrow> concurrencyCache \<Rightarrow> id \<Rightarrow> ('s, unit) prog" where
  "CleanupExpiredAccountSlots R c accountID =
     bindW (round_trip (cleanupExpiredSlotsScript R (accountSlotKey accountID) (slotTTLSeconds c)))
       (\<lambda>_. refreshAccountActiveIndex R c accountID)"

text \<open>\<open>strconv.ParseInt\<close> of an index member, and the check that the id is positive.\<close>

definition index_id :: "member \<Rightarrow> id option" where
  "index_id m = (case parse_int m of None \<Rightarrow> None | Some i \<Rightarrow> if i \<le> 0 then None else Some i)"

fun split_members :: "member list \<Rightarrow> (id \<times> member) list \<times> member list" where
  "split_members [] = ([], [])"
| "split_members (m # ms) =
     (case split_members ms of (cands, stale) \<Rightarrow>
        (case index_id m of None \<Rightarrow> (cands, m # stale) | Some i \<Rightarrow> ((i, m) # cands, stale)))"

fun loads_of_replies :: "(id \<times> member) list \<Rightarrow> reply list \<Rightarrow> activeIndexLoad list" where
  "loads_of_replies ((i, m) # cs) (r1 # r2 # r3 # rs) =
     load_of_replies i m [r1, r2, r3] # loads_of_replies cs rs"
| "loads_of_replies _ _ = []"

definition activeIndexPipelineChunkSize :: nat where
  "activeIndexPipelineChunkSize = 500"

function read_chunks ::
    "'s redis \<Rightarrow> slotIndexSpec \<Rightarrow> int \<Rightarrow> (id \<times> member) list \<Rightarrow> ('s, activeIndexLoad list) prog" where
  "read_chunks R spec cutoff cands w =
     (if cands = [] then (Inr [], w)
      else
        (let chunk = take activeIndexPipelineChunkSize cands
         in bindW (pipelineW (concat (map (\<lambda>(i, m).
                load_cmds R cutoff (slotKey spec i) (waitKey spec i)) chunk)))
              (\<lambda>rs. bindW (read_chunks R spec cutoff (drop activeIndexPipelineChunkSize cands))
                (\<lambda>loads. returnW (loads_of_replies chunk rs @ loads))) w))"
  by pat_completeness auto
termination
  by (relation "measure (\<lambda>(R, spec, cutoff, cands, w). length cands)")
    (auto simp: activeIndexPipelineChunkSize_def)

declare read_chunks.simps [simp del]

definition readIndexLoads ::
    "'s redis \<Rightarrow> concurrencyCache \<Rightarrow> slotIndexSpec \<Rightarrow> member list \<Rightarrow> int \<Rightarrow>
     ('s, activeIndexLoad list \<times> member list) prog" where
  "readIndexLoads R c spec members now =
     (case split_members members of (cands, stale) \<Rightarrow>
        bindW (read_chunks R spec (now - slotTTLSeconds c) cands)
          (\<lambda>loads. returnW (loads, stale)))"

definition zadd_many :: "'s redis \<Rightarrow> key \<Rightarrow> (int \<times> member) list \<Rightarrow> 's \<Rightarrow> 's" where
  "zadd_many R k zs s = fold (\<lambda>(sc, m) s. r_zadd R s k sc m) zs s"

definition zrem_many :: "'s redis \<Rightarrow> key \<Rightarrow> member list \<Rightarrow> 's \<Rightarrow> 's" where
  "zrem_many R k ms s = fold (\<lambda>m s. r_zrem R s k m) ms s"

definition removeActiveIndexMembers :: "'s redis \<Rightarrow> key \<Rightarrow> member list \<Rightarrow> ('s, unit) prog" where
  "removeActiveIndexMembers R index members =
     (if members = [] then returnW () else tryW (update (zrem_many R index members)))"

definition reconcileExpiredIndexCandidates ::
    "'s redis \<Rightarrow> concurrencyCache \<Rightarrow> slotIndexSpec \<Rightarrow> ('s, unit) prog" where
  "reconcileExpiredIndexCandidates R c spec =
     bindW (redisUnixSeconds R) (\<lambda>now.
       bindW (query (\<lambda>s. r_zrangebyscore R s (indexKey spec) now activeIndexCleanupBatchSize)) (\<lambda>members.
         bindW (readIndexLoads R c spec members now) (\<lambda>(loads, staleMembers).
           (let idle = (\<lambda>l. al_slotCount l = 0 \<and> al_waitCount l \<le> 0);
                staleMembers = staleMembers @ map al_member (filter idle loads);
                refreshed = map (\<lambda>l. (now + activeIndexTTL c (al_slotCount l) (al_waitCount l), al_member l))
                              (filter (\<lambda>l. \<not> idle l) loads)
            in bindW (if refreshed \<noteq> [] then tryW (update (zadd_many R (indexKey spec) refreshed))
                      else returnW ())
                 (\<lambda>_. removeActiveIndexMembers R (indexKey spec) staleMembers)))))"

definition CleanupExpiredAccountSlotKeys :: "'s redis \<Rightarrow> concurrencyCache \<Rightarrow> ('s, unit) prog" where
  "CleanupExpiredAccountSlotKeys R c =
     bindW (reconcileExpiredIndexCandidates R c accountSlotIndex)
       (\<lambda>_. reconcileExpiredIndexCandidates R c userSlotIndex)"

definition legacyWaitSweepMarkerKey :: key where
  "legacyWaitSweepMarkerKey = ''concurrency:startup:legacy_wait_sweep:v1''"

text \<open>
  \<open>SCAN cursor MATCH pattern COUNT 200\<close> is a parameter \<open>scan\<close>: from a cursor and
  a pattern to keys and the next cursor.  The loop runs until the cursor is 0
  again, which is the server's promise, so it is bounded by fuel here;
  \<open>None\<close> is a loop still running.
\<close>

fun scan_del ::
    "'s redis \<Rightarrow> (int \<Rightarrow> string \<Rightarrow> 's \<Rightarrow> key list \<times> int) \<Rightarrow> nat \<Rightarrow> string \<Rightarrow> int \<Rightarrow> ('s, unit option) prog" where
  "scan_del R scan 0 pattern cursor = returnW None"
| "scan_del R scan (Suc fuel) pattern cursor =
     bindW (query (scan cursor pattern)) (\<lambda>(ks, nxt).
       bindW (if ks \<noteq> [] then update (\<lambda>s. fold (\<lambda>k s. r_del R s k) ks s) else returnW ())
         (\<lambda>_. if nxt = 0 then returnW (Some ()) else scan_del R scan fuel pattern nxt))"

definition sweepLegacyWaitKeysOnce ::
    "'s redis \<Rightarrow> (int \<Rightarrow> string \<Rightarrow> 's \<Rightarrow> key list \<times> int) \<Rightarrow> nat \<Rightarrow> ('s, unit option) prog" where
  "sweepLegacyWaitKeysOnce R scan fuel =
     bindW (query (\<lambda>s. r_exists R s legacyWaitSweepMarkerKey)) (\<lambda>present.
       if present then returnW (Some ())
       else bindW (scan_del R scan fuel (accountWaitKeyPrefix @ ''*'') 0) (\<lambda>r1.
         case r1 of None \<Rightarrow> returnW None
         | Some _ \<Rightarrow> bindW (scan_del R scan fuel (waitQueueKeyPrefix @ ''*'') 0) (\<lambda>r2.
             case r2 of None \<Rightarrow> returnW None
             | Some _ \<Rightarrow> bindW (update (\<lambda>s. r_set R s legacyWaitSweepMarkerKey ''1'' None))
                 (\<lambda>_. returnW (Some ())))))"

definition allIndexMembers :: "'s redis \<Rightarrow> key \<Rightarrow> ('s, member list) prog" where
  "allIndexMembers R index = query (\<lambda>s. r_zmembers R s index)"

fun stale_loop ::
    "'s redis \<Rightarrow> concurrencyCache \<Rightarrow> slotIndexSpec \<Rightarrow> string \<Rightarrow> int \<Rightarrow> member list \<Rightarrow>
     ('s, (int \<times> member) list \<times> member list) prog" where
  "stale_loop R c spec pre now [] = returnW ([], [])"
| "stale_loop R c spec pre now (m # ms) =
     (case index_id m of
        None \<Rightarrow> bindW (stale_loop R c spec pre now ms)
                  (\<lambda>(refreshed, stale). returnW (refreshed, m # stale))
      | Some i \<Rightarrow>
          bindW (round_trip (startupCleanupSlotScript R (slotKey spec i) pre (slotTTLSeconds c)))
            (\<lambda>(_, remaining).
               bindW (update (\<lambda>s. r_del R s (waitKey spec i))) (\<lambda>_.
                 bindW (stale_loop R c spec pre now ms) (\<lambda>(refreshed, stale).
                   if remaining > 0 then returnW ((now + slotTTLSeconds c, m) # refreshed, stale)
                   else returnW (refreshed, m # stale)))))"

definition cleanupStaleProcessSlotsForIndex ::
    "'s redis \<Rightarrow> concurrencyCache \<Rightarrow> slotIndexSpec \<Rightarrow> member list \<Rightarrow> string \<Rightarrow> int \<Rightarrow> ('s, unit) prog" where
  "cleanupStaleProcessSlotsForIndex R c spec members activeRequestPrefix now =
     bindW (stale_loop R c spec activeRequestPrefix now members) (\<lambda>(refreshed, stale).
       bindW (if refreshed \<noteq> [] then tryW (update (zadd_many R (indexKey spec) refreshed)) else returnW ())
         (\<lambda>_. removeActiveIndexMembers R (indexKey spec) stale))"

definition CleanupStaleProcessSlots ::
    "'s redis \<Rightarrow> (int \<Rightarrow> string \<Rightarrow> 's \<Rightarrow> key list \<times> int) \<Rightarrow> nat \<Rightarrow> concurrencyCache \<Rightarrow> string \<Rightarrow>
     ('s, unit option) prog" where
  "CleanupStaleProcessSlots R scan fuel c activeRequestPrefix =
     (if activeRequestPrefix = [] then returnW (Some ())
      else bindW (sweepLegacyWaitKeysOnce R scan fuel) (\<lambda>swept.
        case swept of None \<Rightarrow> returnW None
        | Some _ \<Rightarrow>
            bindW (redisUnixSeconds R) (\<lambda>now.
            bindW (allIndexMembers R accountActiveIndexKey) (\<lambda>accountMembers.
            bindW (cleanupStaleProcessSlotsForIndex R c accountSlotIndex accountMembers activeRequestPrefix now) (\<lambda>_.
            bindW (allIndexMembers R userActiveIndexKey) (\<lambda>userMembers.
            bindW (cleanupStaleProcessSlotsForIndex R c userSlotIndex userMembers activeRequestPrefix now) (\<lambda>_.
              returnW (Some ()))))))))"

section \<open>Proxy pools\<close>

text \<open>The loop that validates the pool: a non-positive or repeated id is refused.\<close>

fun pool_keys :: "id \<Rightarrow> id list \<Rightarrow> id list \<Rightarrow> (key \<times> string) list option" where
  "pool_keys accountID seen [] = Some []"
| "pool_keys accountID seen (i # is) =
     (if i \<le> 0 \<or> i \<in> set seen then None
      else map_option ((#) (accountProxySlotKey accountID i, format_int i))
             (pool_keys accountID (i # seen) is))"

definition AcquireAccountProxyPoolSlot ::
    "'s redis \<Rightarrow> concurrencyCache \<Rightarrow> id \<Rightarrow> id list \<Rightarrow> int \<Rightarrow> member \<Rightarrow> id list \<Rightarrow> ('s, id) prog" where
  "AcquireAccountProxyPoolSlot R c accountID proxyIDs maxConcurrency requestID pinnedProxyIDs =
     (if proxyIDs = [] then failW (ErrInvalid ''proxy pool requires an available proxy'')
      else
        (let pinned = (case pinnedProxyIDs of [] \<Rightarrow> 0 | p # _ \<Rightarrow> p)
         in case pool_keys accountID [] proxyIDs of
              None \<Rightarrow> failW (ErrInvalid ''invalid proxy pool ID'')
            | Some ps \<Rightarrow>
                bindW (round_trip (acquireProxyPoolScript R (accountSlotKey accountID)
                    (liveAccountSlotKey accountID) (accountProxyCursorKey accountID) ps
                    maxConcurrency (slotTTLSeconds c) requestID pinned))
                  (\<lambda>(selected, now).
                     bindW (if selected > 0
                            then touchActiveIndexAt R accountActiveIndexKey accountID (now + slotTTLSeconds c)
                            else returnW ())
                       (\<lambda>_. returnW selected))))"

definition ReleaseAccountProxyPoolSlot ::
    "'s redis \<Rightarrow> concurrencyCache \<Rightarrow> id \<Rightarrow> id \<Rightarrow> member \<Rightarrow> ('s, unit) prog" where
  "ReleaseAccountProxyPoolSlot R c accountID proxyID requestID =
     bindW (round_trip (releaseProxyPoolScript R (accountSlotKey accountID)
              (accountProxySlotKey accountID proxyID) requestID))
       (\<lambda>_. refreshAccountActiveIndex R c accountID)"

definition cmd_zcount_above :: "'s redis \<Rightarrow> key \<Rightarrow> int \<Rightarrow> 's \<Rightarrow> reply \<times> 's" where
  "cmd_zcount_above R k lo s = (RInt (r_zcount_above R s k lo), s)"

fun proxy_counts :: "(id \<times> id) list \<Rightarrow> reply list \<Rightarrow> ((id \<times> id) \<times> int) list" where
  "proxy_counts (p # ps) (RInt n # rs) = (p, n) # proxy_counts ps rs"
| "proxy_counts _ _ = []"

text \<open>
  \<open>pools\<close> is Go's \<open>map[int64][]int64\<close> as a list in iteration order; the nested
  result map is one map on (account, proxy) pairs.
\<close>

definition GetAccountProxyConcurrencyBatch ::
    "'s redis \<Rightarrow> concurrencyCache \<Rightarrow> (id \<times> id list) list \<Rightarrow> ('s, id \<times> id \<Rightarrow> int option) prog" where
  "GetAccountProxyConcurrencyBatch R c pools =
     bindW (redisUnixSeconds R) (\<lambda>now.
       (let ps = concat (map (\<lambda>(aid, ids). map (Pair aid) ids) pools)
        in bindW (pipelineW (map (\<lambda>(aid, i).
                cmd_zcount_above R (accountProxySlotKey aid i) (now - slotTTLSeconds c)) ps))
             (\<lambda>rs. returnW (map_of (rev (proxy_counts ps rs))))))"

end
