(* ===== verification/Slot_Theorems.thy ===== *)
theory Slot_Theorems
  imports Slot_Leases
begin

text \<open>
  The properties of the concurrency cache, with their witnesses on the
  reference server.
\<close>

section \<open>Vocabulary\<close>

text \<open>A member belongs to the process whose prefix it carries.\<close>

definition own :: "string \<Rightarrow> member \<Rightarrow> bool" where
  "own pre m \<longleftrightarrow> take (length pre) m = pre"

text \<open>The position after the last selected proxy, and the unexpired slots of a key.\<close>

definition pool_start :: "string option \<Rightarrow> id list \<Rightarrow> nat" where
  "pool_start lst ids =
     (case filter (\<lambda>j. lst = Some (format_int (ids ! j))) [0..<length ids] of
        [] \<Rightarrow> 0 | j # _ \<Rightarrow> (j + 1) mod length ids)"

definition lease_count :: "'s redis \<Rightarrow> int \<Rightarrow> key \<Rightarrow> 's \<Rightarrow> int" where
  "lease_count R ttl k s = int (card (dom (unexpired R (time_sec R s - ttl) k s)))"

section \<open>Lemmas on the methods\<close>

text \<open>
  \<open>keeps_from C I p\<close>: the program keeps \<open>I\<close> when it starts in a state with \<open>C\<close> and the other
  clients keep both, each for itself.  \<open>C\<close> says what the others leave of the request's id.
\<close>

definition keeps_from :: "('s \<Rightarrow> bool) \<Rightarrow> ('s \<Rightarrow> bool) \<Rightarrow> ('s, 'a) prog \<Rightarrow> bool" where
  "keeps_from C I p \<longleftrightarrow>
     (\<forall>w. I (w_db w) \<and> C (w_db w) \<and> net_keeps I w \<and> net_keeps C w \<longrightarrow>
          I (w_db (snd (p w))) \<and> net_keeps I (snd (p w)))"

lemma keeps_from_keeps: "keeps I p \<Longrightarrow> keeps_from C I p"
  by (simp add: keeps_def keeps_from_def)

lemma keeps_from_round_trip:
  assumes "\<And>s. I s \<Longrightarrow> C s \<Longrightarrow> I (snd (f s))"
  shows "keeps_from C I (round_trip f)"
proof -
  have "I (w_db (snd (round_trip f w))) \<and> net_keeps I (snd (round_trip f w))"
    if w: "I (w_db w)" "C (w_db w)" "net_keeps I w" "net_keeps C w" for w
  proof (cases "w_net w")
    case Nil
    then show ?thesis using w assms[of "w_db w"]
      by (cases w; cases "f (w_db w)") (simp add: round_trip.simps net_keeps_def)
  next
    case (Cons x xs)
    obtain e r where x: "x = (e, r)" by fastforce
    have "I (e (w_db w))" "C (e (w_db w))" using w Cons x by (auto simp: net_keeps_def)
    then show ?thesis using assms[of "e (w_db w)"] w Cons x
      by (cases w; cases r; cases "f (e (w_db w))") (auto simp: round_trip.simps net_keeps_def)
  qed
  then show ?thesis by (simp add: keeps_from_def)
qed

lemma keeps_from_bind:
  assumes p: "keeps_from C I p" and k: "\<And>a. keeps I (k a)"
  shows "keeps_from C I (bindW p k)"
proof -
  have "I (w_db (snd (bindW p k w))) \<and> net_keeps I (snd (bindW p k w))"
    if w: "I (w_db w)" "C (w_db w)" "net_keeps I w" "net_keeps C w" for w
    using p w k unfolding keeps_from_def keeps_def bindW_def
    by (cases "p w") (fastforce split: sum.split)
  then show ?thesis by (simp add: keeps_from_def)
qed

lemma keeps_from_try: "keeps_from C I p \<Longrightarrow> keeps_from C I (tryW p)"
  by (simp add: keeps_from_def tryW_def)


context redis_store
begin

lemma keeps_step:
  "(\<And>s. slots_within R L s \<Longrightarrow> slot_step R L s (snd (f s))) \<Longrightarrow> keeps (slots_within R L) (round_trip f)"
  by (intro keeps_round_trip) (blast intro: slot_step_within)

lemma keeps_update_step:
  "(\<And>s. slot_step R L s (f s)) \<Longrightarrow> keeps (slots_within R L) (update f)"
  by (intro keeps_update) (blast intro: slot_step_within)

lemma keeps_index_add [keeps_intros]:
  "index \<in> {accountActiveIndexKey, userActiveIndexKey} \<Longrightarrow>
     keeps (slots_within R L) (touchActiveIndexAt R index i t)"
  unfolding touchActiveIndexAt_def
  by (intro keeps_intros keeps_update_step) (auto intro: slot_step.intros)

lemma within_cmds [simp]:
  "slots_within R L s \<Longrightarrow> slots_within R L (snd (cmd_prune R k hi s))"
  "slots_within R L s \<Longrightarrow> slots_within R L (snd (cmd_zcard R k s))"
  "slots_within R L s \<Longrightarrow> slots_within R L (snd (cmd_get R k s))"
  "slots_within R L s \<Longrightarrow> slots_within R L (snd (cmd_zcount_above R k hi s))"
  by (simp_all add: cmd_prune_def cmd_zcard_def cmd_get_def cmd_zcount_above_def
      slot_step_within [OF slot_step.prune])

lemma keeps_count_cmds:
  "f \<in> set (count_cmds R c1 c2 k1 k2) \<Longrightarrow> slots_within R L s \<Longrightarrow> slots_within R L (snd (f s))"
  "f \<in> set (load_cmds R c1 k1 k2) \<Longrightarrow> slots_within R L s \<Longrightarrow> slots_within R L (snd (f s))"
  unfolding count_cmds_def load_cmds_def by auto

lemma keeps_refresh_index [keeps_intros]:
  "index \<in> {accountActiveIndexKey, userActiveIndexKey} \<Longrightarrow>
     keeps (slots_within R L) (refreshActiveIndex R c index i sk wk)"
  unfolding refreshActiveIndex_def redisUnixSeconds_def readActiveLoadForKey_def Let_def
  by (intro keeps_intros keeps_update_step) (auto intro: slot_step.intros keeps_count_cmds(2))

lemma keeps_refresh_indexes [keeps_intros]:
  "keeps (slots_within R L) (refreshAccountActiveIndex R c a)"
  "keeps (slots_within R L) (refreshUserActiveIndex R c u)"
  by (simp_all add: refreshAccountActiveIndex_def refreshUserActiveIndex_def keeps_refresh_index)

lemma keeps_option [keeps_intros]:
  "keeps I p \<Longrightarrow> (\<And>x. keeps I (q x)) \<Longrightarrow> keeps I (case v of None \<Rightarrow> p | Some x \<Rightarrow> q x)"
  by (simp split: option.split)

lemma keeps_account_methods:
  "mx \<le> lim_account L a \<Longrightarrow> keeps (slots_within R L) (AcquireAccountSlot R c a mx rid)"
  "keeps (slots_within R L) (ReleaseAccountSlot R c a rid)"
  "keeps (slots_within R L) (GetAccountConcurrency R c a)"
  "keeps (slots_within R L) (GetAccountConcurrencyBatch R c as)"
  unfolding AcquireAccountSlot_def ReleaseAccountSlot_def GetAccountConcurrency_def
    GetAccountConcurrencyBatch_def redisUnixSeconds_def
  by ((intro keeps_intros keeps_step keeps_update_step; auto intro: slot_step.intros keeps_count_cmds)+)

lemma keeps_user_methods:
  "mx \<le> lim_user L u \<Longrightarrow> keeps (slots_within R L) (AcquireUserSlot R c u mx rid)"
  "keeps (slots_within R L) (ReleaseUserSlot R c u rid)"
  "keeps (slots_within R L) (ReleaseUserGroupSlot R c u g rid)"
  "keeps (slots_within R L) (GetUserConcurrency R c u)"
  unfolding AcquireUserSlot_def ReleaseUserSlot_def GetUserConcurrency_def ReleaseUserGroupSlot_def Let_def
  by ((intro keeps_intros keeps_step keeps_update_step;
       auto intro: slot_step.intros slot_step_within)+)

lemma within_fold: "(\<And>x s. slots_within R L s \<Longrightarrow> slots_within R L (f x s)) \<Longrightarrow>
    slots_within R L s \<Longrightarrow> slots_within R L (fold f xs s)"
  by (induction xs arbitrary: s) auto

lemma within_many [simp]:
  "slots_within R L s \<Longrightarrow> slots_within R L (zrem_many R k ms s)"
  "slots_within R L s \<Longrightarrow> slots_within R L (zrem_all R ks m s)"
  "slots_within R L s \<Longrightarrow> slots_within R L (fold (\<lambda>k s. r_del R s k) ks s)"
  "slots_within R L s \<Longrightarrow> k \<in> {accountActiveIndexKey, userActiveIndexKey} \<Longrightarrow>
     slots_within R L (zadd_many R k zs s)"
  unfolding zrem_many_def zrem_all_def zadd_many_def
  by (rule within_fold, auto intro: slot_step_within slot_step.intros)+

lemma keeps_lease_methods:
  "0 < am \<Longrightarrow> am \<le> lim_account L a \<Longrightarrow> 0 < um \<Longrightarrow> um \<le> lim_user L u \<Longrightarrow>
     (repl \<longrightarrow> may_replace L) \<Longrightarrow> keeps (slots_within R L) (AcquireLiveLease R a am u um k lid repl)"
  "0 < am \<Longrightarrow> am \<le> lim_account L a \<Longrightarrow> 0 < um \<Longrightarrow> um \<le> lim_user L u \<Longrightarrow> gm \<le> lim_group L u g \<Longrightarrow>
     (repl \<longrightarrow> may_replace L) \<Longrightarrow>
     keeps (slots_within R L) (AcquireLiveLeaseForGroup R a am u um g gm k lid repl)"
  "keeps (slots_within R L) (RefreshLiveLease R a u k lid)"
  "keeps (slots_within R L) (RefreshLiveLeaseForGroup R a u g k lid)"
  "keeps (slots_within R L) (ReleaseLiveLease R a u k lid)"
  "keeps (slots_within R L) (ReleaseLiveLeaseForGroup R a u g k lid)"
  unfolding AcquireLiveLease_def AcquireLiveLeaseForGroup_def RefreshLiveLease_def
    RefreshLiveLeaseForGroup_def ReleaseLiveLease_def ReleaseLiveLeaseForGroup_def Let_def
    liveLeaseTTLSeconds_def
  by ((intro keeps_intros keeps_step; auto intro: slot_step.intros split: if_splits)+)

lemma keeps_other_methods:
  "keeps (slots_within R L) (TrackAPIKeySlot R c k rid)"
  "keeps (slots_within R L) (RefreshAPIKeySlot R c k rid)"
  "keeps (slots_within R L) (ReleaseAPIKeySlot R k rid)"
  "mx \<le> lim_ingress L k \<Longrightarrow> keeps (slots_within R L) (AcquireOpenAIWSIngressLease R k mx lid)"
  "keeps (slots_within R L) (RefreshOpenAIWSIngressLease R k lid)"
  "keeps (slots_within R L) (ReleaseOpenAIWSIngressLease R k lid)"
  "keeps (slots_within R L) (IncrementWaitCount R c u mw)"
  "keeps (slots_within R L) (DecrementWaitCount R c u)"
  "keeps (slots_within R L) (IncrementAccountWaitCount R c a mw)"
  "keeps (slots_within R L) (DecrementAccountWaitCount R c a)"
  "keeps (slots_within R L) (CleanupExpiredAccountSlots R c a)"
  "keeps (slots_within R L) (ReleaseAccountProxyPoolSlot R c a pid rid)"
  unfolding TrackAPIKeySlot_def RefreshAPIKeySlot_def ReleaseAPIKeySlot_def
    AcquireOpenAIWSIngressLease_def RefreshOpenAIWSIngressLease_def ReleaseOpenAIWSIngressLease_def
    IncrementWaitCount_def DecrementWaitCount_def IncrementAccountWaitCount_def
    DecrementAccountWaitCount_def CleanupExpiredAccountSlots_def ReleaseAccountProxyPoolSlot_def
  by ((intro keeps_intros keeps_step keeps_update_step; auto intro: slot_step.intros)+)

lemma keeps_read_chunks [keeps_intros]: "keeps (slots_within R L) (read_chunks R spec cutoff cands)"
proof (induction "length cands" arbitrary: cands rule: less_induct)
  case less
  show ?case
  proof (cases "cands = []")
    case True
    then show ?thesis by (simp add: keeps_def read_chunks.simps)
  next
    case False
    let ?chunk = "take activeIndexPipelineChunkSize cands"
    let ?rest = "drop activeIndexPipelineChunkSize cands"
    have IH: "keeps (slots_within R L) (read_chunks R spec cutoff ?rest)"
      by (rule less) (use False in \<open>simp add: activeIndexPipelineChunkSize_def\<close>)
    have "read_chunks R spec cutoff cands =
       bindW (pipelineW (concat (map (\<lambda>(i, m). load_cmds R cutoff (slotKey spec i) (waitKey spec i)) ?chunk)))
          (\<lambda>rs. bindW (read_chunks R spec cutoff ?rest)
             (\<lambda>loads. returnW (loads_of_replies ?chunk rs @ loads)))"
      using False by (intro ext, subst read_chunks.simps) (simp add: Let_def)
    then show ?thesis
      by (simp only:) (intro keeps_intros IH, auto intro: keeps_count_cmds(2))
  qed
qed

lemma keeps_scan_del [keeps_intros]: "keeps (slots_within R L) (scan_del R scan fuel pat cur)"
proof (induction fuel arbitrary: cur)
  case 0
  then show ?case by (simp add: keeps_def)
next
  case (Suc fuel)
  show ?case unfolding scan_del.simps
    by (intro keeps_intros Suc keeps_update) auto
qed

lemma keeps_stale_loop [keeps_intros]: "keeps (slots_within R L) (stale_loop R c spec pre now ms)"
proof (induction ms)
  case Nil
  then show ?case by (simp add: keeps_def)
next
  case (Cons m ms)
  show ?case unfolding stale_loop.simps
    by (intro keeps_intros Cons keeps_step keeps_update_step) (auto intro: slot_step.intros)
qed

lemma keeps_maintenance:
  "keeps (slots_within R L) (CleanupExpiredAccountSlotKeys R c)"
  "keeps (slots_within R L) (CleanupStaleProcessSlots R scan fuel c pre)"
  unfolding CleanupExpiredAccountSlotKeys_def reconcileExpiredIndexCandidates_def readIndexLoads_def
    removeActiveIndexMembers_def CleanupStaleProcessSlots_def sweepLegacyWaitKeysOnce_def
    cleanupStaleProcessSlotsForIndex_def redisUnixSeconds_def allIndexMembers_def Let_def
    accountSlotIndex_def userSlotIndex_def
  by ((intro keeps_intros keeps_update; auto intro: within_grows [OF grows_set [OF _ grows_refl]])+)

lemma keeps_group_methods:
  "0 < um \<Longrightarrow> um \<le> lim_user L u \<Longrightarrow> gm \<le> lim_group L u g \<Longrightarrow> 0 < slotTTLSeconds c \<Longrightarrow>
     keeps (slots_within R L) (MoveUserGroupSlot R c u g0 g um gm rid)"
  unfolding MoveUserGroupSlot_def
  by (intro keeps_intros keeps_step) (auto intro: slot_step.intros)

lemma keeps_reads:
  "keeps (slots_within R L) (GetAPIKeyConcurrencyBatch R c ks)"
  "keeps (slots_within R L) (GetAccountWaitingCount R a)"
  "keeps (slots_within R L) (GetAccountsLoadBatch R c ams)"
  "keeps (slots_within R L) (GetUsersLoadBatch R c ams)"
  "keeps (slots_within R L) (GetAccountProxyConcurrencyBatch R c pools)"
  unfolding GetAPIKeyConcurrencyBatch_def GetAccountWaitingCount_def GetAccountsLoadBatch_def
    GetUsersLoadBatch_def GetAccountProxyConcurrencyBatch_def redisUnixSeconds_def Let_def
  by ((intro keeps_intros; auto intro: keeps_count_cmds(1))+)

lemma keeps_from_user_group:
  assumes "0 < um" and "um \<le> lim_user L u" and "gm \<le> lim_group L u g"
  shows "keeps_from (\<lambda>s. consistent_id R (slotTTLSeconds c) (userSlotKey u) (userGroupSlotKey u g) s rid)
     (slots_within R L) (AcquireUserGroupSlot R c u g um gm rid)"
proof (cases "u \<le> 0 \<or> g \<le> 0 \<or> rid = [] \<or> gm \<le> 0")
  case True
  then show ?thesis unfolding AcquireUserGroupSlot_def by (simp add: keeps_from_keeps keeps_return)
next
  case False
  then show ?thesis unfolding AcquireUserGroupSlot_def using assms
    by (simp only: if_False)
      (intro keeps_from_bind keeps_from_round_trip keeps_intros slot_step_within[OF slot_step.acquire_user_group]; simp)
qed

lemma pool_keys_Some:
  "pool_keys a seen ids = Some ps \<Longrightarrow>
     ps = map (\<lambda>i. (accountProxySlotKey a i, format_int i)) ids \<and> distinct ids \<and> set ids \<inter> set seen = {}"
  by (induction a seen ids arbitrary: ps rule: pool_keys.induct) (auto split: if_splits)

lemma keeps_from_pool:
  assumes "0 < lim" and "lim \<le> lim_proxy L a" and "lim * int (length ids) \<le> lim_account L a"
    and "0 < slotTTLSeconds c"
  shows "keeps_from (\<lambda>s. \<forall>i\<in>set ids. consistent_id R (slotTTLSeconds c) (accountProxySlotKey a i) (accountSlotKey a) s rid)
     (slots_within R L) (AcquireAccountProxyPoolSlot R c a ids lim rid pins)"
proof (cases "ids = [] \<or> pool_keys a [] ids = None")
  case True
  then show ?thesis unfolding AcquireAccountProxyPoolSlot_def Let_def
    by (auto simp: keeps_from_keeps keeps_fail)
next
  case False
  then obtain ps where k: "pool_keys a [] ids = Some ps" "ids \<noteq> []" by blast
  note ps = pool_keys_Some[OF k(1)]
  show ?thesis unfolding AcquireAccountProxyPoolSlot_def Let_def using assms k ps
    by simp (intro keeps_from_bind keeps_from_round_trip keeps_intros slot_step_within[OF slot_step.pool]; simp)
qed

text \<open>The group script is all or nothing.\<close>

lemma user_group_atomic:
  assumes keys: "userKey \<noteq> groupKey" "userKey \<noteq> userLiveKey" "userKey \<noteq> groupLiveKey"
      "groupKey \<noteq> userLiveKey" "groupKey \<noteq> groupLiveKey" and t: "0 < ttl"
    and run: "acquireUserGroupScript R userKey userLiveKey groupKey groupLiveKey um gm ttl rid s = ((r, now), s')"
  shows "now = time_sec R s \<and>
    (r = 1 \<and> r_zscore R s' userKey rid = Some now \<and> r_zscore R s' groupKey rid = Some now \<or>
     r = 0 \<and> unexpired R (now - ttl) userKey s rid = None \<and> r_zscore R s' userKey rid = None \<and>
       (\<forall>m. r_zscore R s' groupKey m = unexpired R (now - ttl) groupKey s m)) \<and>
    (\<forall>m. m \<noteq> rid \<longrightarrow> r_zscore R s' userKey m = unexpired R (now - ttl) userKey s m \<and>
                       r_zscore R s' groupKey m = unexpired R (now - ttl) groupKey s m)"
proof -
  define s0 where "s0 = r_zremrangebyscore R (r_zremrangebyscore R (r_zremrangebyscore R
    (r_zremrangebyscore R s userKey (time_sec R s - ttl)) userLiveKey (time_sec R s - 60))
     groupKey (time_sec R s - ttl)) groupLiveKey (time_sec R s - 60)"
  have u: "r_zscore R s0 userKey m = unexpired R (time_sec R s - ttl) userKey s m"
    and g: "r_zscore R s0 groupKey m = unexpired R (time_sec R s - ttl) groupKey s m" for m
    using keys by (simp_all add: s0_def zscore_prune unexpired_def del: zscore_zremrange)
  have f: "time_sec R s0 = time_sec R s" by (simp add: s0_def)
  from u have u': "\<forall>m. r_zscore R s0 userKey m = unexpired R (time_sec R s - ttl) userKey s m" by simp
  from g have g': "\<forall>m. r_zscore R s0 groupKey m = unexpired R (time_sec R s - ttl) groupKey s m" by simp
  show ?thesis using run keys(1) t
    unfolding acquireUserGroupScript_def Let_def unfolding s0_def [symmetric]
    using u' g' by (auto split: if_splits)
qed

text \<open>Refreshing live leases: all keys or none, and never a new member.\<close>

lemma refresh_touch_zscore:
  "0 < ttl \<Longrightarrow> r_zscore R (refresh_touch R now ttl lid keys s) k m =
     (if k \<in> set keys \<and> m = lid then Some now else r_zscore R s k m)"
  by (induction keys arbitrary: s) (auto simp: Let_def)

lemma refresh_check_none:
  "r_zscore R s k m = None \<Longrightarrow> r_zscore R (snd (refresh_check R hi lid keys s)) k m = None"
proof (induction keys arbitrary: s)
  case (Cons key keys)
  have p: "r_zscore R (r_zremrangebyscore R s key hi) k m = None"
    using Cons.prems by simp
  from Cons.IH [OF this] p show ?case by (simp add: Let_def del: zscore_frame)
qed simp

lemma refresh_check_iff:
  "fst (refresh_check R hi lid keys s) \<longleftrightarrow> (\<forall>k \<in> set keys. unexpired R hi k s lid \<noteq> None)"
proof (induction keys arbitrary: s)
  case (Cons key keys)
  have u: "unexpired R hi k (r_zremrangebyscore R s key hi) lid = unexpired R hi k s lid" for k
    by (auto simp: unexpired_def zscore_prune simp del: zscore_zremrange split: option.splits)
  show ?case by (simp add: Let_def Cons.IH u zscore_prune del: zscore_zremrange)
qed simp

lemma refresh_live_iff:
  assumes "0 < ttl"
  shows "\<exists>s'. refreshLiveLeaseScript R keys ttl lid s =
      (of_bool (\<forall>k \<in> set keys. unexpired R (time_sec R s - ttl) k s lid \<noteq> None), s') \<and>
    ((\<forall>k \<in> set keys. unexpired R (time_sec R s - ttl) k s lid \<noteq> None) \<longrightarrow>
       (\<forall>k \<in> set keys. r_zscore R s' k lid = Some (time_sec R s))) \<and>
    (\<forall>k m. r_zscore R s k m = None \<longrightarrow> r_zscore R s' k m = None)"
proof -
  define c where "c = refresh_check R (time_sec R s - ttl) lid keys s"
  have none: "r_zscore R s k m = None \<Longrightarrow> r_zscore R (snd c) k m = None" for k m
    unfolding c_def by (rule refresh_check_none)
  have iff: "fst c \<longleftrightarrow> (\<forall>k \<in> set keys. unexpired R (time_sec R s - ttl) k s lid \<noteq> None)"
    by (simp add: c_def refresh_check_iff)
  have held: "fst c \<Longrightarrow> k \<in> set keys \<Longrightarrow> r_zscore R s k lid \<noteq> None" for k
    using iff by (auto simp: unexpired_def split: option.splits)
  have eq: "refreshLiveLeaseScript R keys ttl lid s =
     (if fst c then (1, refresh_touch R (time_sec R s) ttl lid keys (snd c)) else (0, snd c))"
    unfolding refreshLiveLeaseScript_def Let_def c_def [symmetric]
    by (auto simp: case_prod_beta split: bool.split)
  show ?thesis
  proof (cases "fst c")
    case True
    then show ?thesis using iff held none
      by (auto simp: eq refresh_touch_zscore assms)
  next
    case False
    then show ?thesis using iff none by (auto simp: eq)
  qed
qed

section \<open>Wait counters\<close>

lemma counter_lua: "counter_is R k s n \<Longrightarrow> lua_counter (r_get R s k) = Some n"
  by (auto simp: counter_is_def lua_counter_def parse_int_format_int)

lemma increment_wait:
  assumes "counter_is R k s n" "0 < ttl" "in_int64 mw" "0 \<le> n"
  shows "incrementWaitScript R k mw ttl s =
      (Some (of_bool (n < mw), time_sec R s), snd (incrementWaitScript R k mw ttl s))"
    and "counter_is R k (snd (incrementWaitScript R k mw ttl s)) (if n < mw then n + 1 else n)"
    and "incrementAccountWaitScript R k mw ttl s = incrementWaitScript R k mw ttl s"
proof -
  have "n < mw \<Longrightarrow> in_int64 (n + 1)" using assms by (auto simp: in_int64_def int64_min_def)
  then show "incrementWaitScript R k mw ttl s =
      (Some (of_bool (n < mw), time_sec R s), snd (incrementWaitScript R k mw ttl s))"
    "counter_is R k (snd (incrementWaitScript R k mw ttl s)) (if n < mw then n + 1 else n)"
    "incrementAccountWaitScript R k mw ttl s = incrementWaitScript R k mw ttl s"
    using assms counter_expire [OF counter_incr [of k s n 1]]
    by (auto simp: incrementWaitScript_def incrementAccountWaitScript_def counter_lua Let_def
        split: option.split)
qed

lemma decrement_wait:
  assumes "counter_is R k s n" "0 \<le> n"
  shows "fst (decrementWaitScript R k s) = Some 1"
    and "counter_is R k (snd (decrementWaitScript R k s)) (if 0 < n then n - 1 else n)"
proof -
  have i: "0 < n \<Longrightarrow> in_int64 (n - 1)" if "in_int64 n"
    using that by (auto simp: in_int64_def int64_min_def)
  show "fst (decrementWaitScript R k s) = Some 1"
    using assms by (auto simp: decrementWaitScript_def counter_is_def parse_int_format_int split: option.split)
  show "counter_is R k (snd (decrementWaitScript R k s)) (if 0 < n then n - 1 else n)"
  proof (cases "r_get R s k")
    case None
    then show ?thesis using assms by (auto simp: decrementWaitScript_def counter_is_def)
  next
    case (Some v)
    then have "v = format_int n" "in_int64 n" using assms by (auto simp: counter_is_def)
    then show ?thesis using Some assms i counter_incr [of k s n "- 1"]
      by (auto simp: decrementWaitScript_def parse_int_format_int)
  qed
qed

section \<open>Start-up clean-up\<close>

lemma remove_foreign_spec:
  "distinct ms \<Longrightarrow> (\<And>m. m \<in> set ms \<Longrightarrow> r_zscore R s key m \<noteq> None) \<Longrightarrow>
   fst (remove_foreign R key pre ms n s) = n + int (length (filter (\<lambda>m. \<not> own pre m) ms)) \<and>
   (\<forall>k m. r_zscore R (snd (remove_foreign R key pre ms n s)) k m =
      (if k = key \<and> m \<in> set ms \<and> \<not> own pre m then None else r_zscore R s k m)) \<and>
   time_sec R (snd (remove_foreign R key pre ms n s)) = time_sec R s"
proof (induction ms arbitrary: n s)
  case (Cons m ms)
  show ?case
  proof (cases "own pre m")
    case True
    with Cons.IH [of s n] Cons.prems show ?thesis by (auto simp: own_def)
  next
    case False
    have "r_zscore R (r_zrem R s key m) key m' \<noteq> None" if "m' \<in> set ms" for m'
      using that Cons.prems by auto
    moreover have "r_zscore R s key m \<noteq> None" using Cons.prems(2) by simp
    moreover have "distinct ms" "m \<notin> set ms" using Cons.prems(1) by simp_all
    ultimately show ?thesis using Cons.IH [of "r_zrem R s key m" "n + 1"] False
      by (auto simp: own_def)
  qed
qed simp

lemma startup_spec:
  assumes "0 < ttl"
  shows "\<exists>s'. startupCleanupSlotScript R key pre ttl s =
      ((int (length (filter (\<lambda>m. \<not> own pre m) (r_zmembers R s key))),
        int (length (filter (own pre) (r_zmembers R s key)))), s') \<and>
     (\<forall>m. r_zscore R s' key m = (if own pre m then r_zscore R s key m else None)) \<and>
     (\<forall>k m. k \<noteq> key \<longrightarrow> r_zscore R s' k m = r_zscore R s k m)"
proof -
  define c where "c = remove_foreign R key pre (r_zmembers R s key) 0 s"
  have spec: "fst c = int (length (filter (\<lambda>m. \<not> own pre m) (r_zmembers R s key)))"
    "\<And>k m. r_zscore R (snd c) k m =
        (if k = key \<and> m \<in> set (r_zmembers R s key) \<and> \<not> own pre m then None else r_zscore R s k m)"
    using remove_foreign_spec [of "r_zmembers R s key" s key pre 0] zmembers_iff zmembers_distinct
    by (simp_all add: c_def)
  have sc: "r_zscore R (snd c) key m = (if own pre m then r_zscore R s key m else None)" for m
    using zmembers_iff [of m s key] by (auto simp: spec(2))
  have "set (r_zmembers R (snd c) key) = set (filter (own pre) (r_zmembers R s key))"
    by (auto simp: zmembers_iff sc split: if_splits)
  then have len: "r_zcard R (snd c) key = int (length (filter (own pre) (r_zmembers R s key)))"
    by (metis distinct_card distinct_filter r_zcard_def zmembers_distinct)
  define s' where "s' = (if r_zcard R (snd c) key = 0 then r_del R (snd c) key
      else r_expire R (snd c) key ttl)"
  have "startupCleanupSlotScript R key pre ttl s = ((fst c, r_zcard R (snd c) key), s')"
    unfolding startupCleanupSlotScript_def Let_def c_def [symmetric] s'_def by (simp add: case_prod_beta)
  moreover have "r_zscore R s' key m = r_zscore R (snd c) key m" for m
    using assms zcard_zero_iff [of "snd c" key] by (simp add: s'_def)
  moreover have "k \<noteq> key \<Longrightarrow> r_zscore R s' k m = r_zscore R s k m" for k m
    using assms by (simp add: s'_def spec(2))
  ultimately show ?thesis unfolding spec(1) len sc by simp
qed

section \<open>Proxy selection\<close>

lemma map_rotate: "start < length ps \<Longrightarrow>
    map (\<lambda>o'. ps ! ((start + o') mod length ps)) [0..<length ps] = rotate start ps"
  by (intro nth_equalityI) (simp_all add: nth_rotate)

lemma pool_pick_find:
  "pool_pick R limit pinned ps start offs s =
     find (\<lambda>(key, pid). (pinned = 0 \<or> parse_int pid = Some pinned) \<and> (limit \<le> 0 \<or> r_zcard R s key < limit))
       (map (\<lambda>o'. ps ! ((start + o') mod length ps)) offs)"
  by (induction offs) (auto simp: Let_def split: prod.split)

lemma pool_scan_start:
  "pool_scan R acc now ttl rq lst n ps i start s = (Inr st, s') \<Longrightarrow> distinct (map snd ps) \<Longrightarrow>
     ((\<forall>p \<in> set ps. lst \<noteq> Some (snd p)) \<longrightarrow> st = start) \<and>
     (\<forall>j < length ps. lst = Some (snd (ps ! j)) \<longrightarrow> st = (i + j + 1) mod n)"
proof (induction ps arbitrary: i start s)
  case (Cons p ps)
  obtain key pid where p: "p = (key, pid)" by (cases p)
  have rec: "pool_scan R acc now ttl rq lst n ps (i + 1)
      (if lst = Some pid then (i + 1) mod n else start) (r_zremrangebyscore R s key (now - ttl)) = (Inr st, s')"
    using Cons.prems by (auto simp: p Let_def split: if_splits)
  note IH = Cons.IH [OF rec]
  have d: "distinct (map snd ps)" "pid \<notin> snd ` set ps" using Cons.prems p by auto
  show ?case
  proof (cases "lst = Some pid")
    case True
    then have "\<forall>q \<in> set ps. lst \<noteq> Some (snd q)" using d by force
    then have "st = (i + 1) mod n" using IH d True by simp
    moreover have "j = 0" if j: "j < length (p # ps)" "lst = Some (snd ((p # ps) ! j))" for j
    proof (rule ccontr)
      assume "j \<noteq> 0"
      then have "(p # ps) ! j \<in> set ps" using j(1) by (cases j) auto
      with j(2) True d(2) show False by force
    qed
    ultimately show ?thesis using True p by fastforce
  next
    case False
    have "lst = Some (snd ((p # ps) ! j)) \<Longrightarrow> j < length (p # ps) \<Longrightarrow> st = (i + j + 1) mod n" for j
      using IH d False p by (cases j) auto
    then show ?thesis using IH d False p by auto
  qed
qed simp

lemma pool_start_eq:
  assumes "\<forall>i \<in> set ids. lst \<noteq> Some (format_int i) \<Longrightarrow> st = 0"
    and "\<And>j. j < length ids \<Longrightarrow> lst = Some (format_int (ids ! j)) \<Longrightarrow> st = (j + 1) mod length ids"
  shows "st = pool_start lst ids"
proof (cases "filter (\<lambda>j. lst = Some (format_int (ids ! j))) [0..<length ids]")
  case Nil
  then have "\<forall>j < length ids. lst \<noteq> Some (format_int (ids ! j))" by (simp add: filter_empty_conv)
  then have "\<forall>i \<in> set ids. lst \<noteq> Some (format_int i)" by (auto simp: in_set_conv_nth)
  then show ?thesis using assms(1) Nil by (simp add: pool_start_def)
next
  case (Cons j js)
  then have "j \<in> set (filter (\<lambda>j. lst = Some (format_int (ids ! j))) [0..<length ids])" by simp
  then have "j < length ids" "lst = Some (format_int (ids ! j))" by auto
  from assms(2) [OF this] show ?thesis using Cons by (simp add: pool_start_def)
qed

lemma find_map: "find P (map f xs) = map_option f (find (P \<circ> f) xs)"
  by (induction xs) auto

lemma find_cong_set: "(\<And>x. x \<in> set xs \<Longrightarrow> P x = Q x) \<Longrightarrow> find P xs = find Q xs"
  by (induction xs) auto

lemma pool_select:
  assumes ids: "distinct ids" "\<And>i. i \<in> set ids \<Longrightarrow> in_int64 i" and t: "0 < ttl"
    and keys: "distinct (k1 # k2 # k3 # map pk ids)"
    and fresh: "\<And>i. i \<in> set ids \<Longrightarrow> unexpired R (time_sec R s - ttl) (pk i) s rq = None"
  shows "fst (acquireProxyPoolScript R k1 k2 k3 (map (\<lambda>i. (pk i, format_int i)) ids) limit ttl rq pinned s) =
    (if 0 < limit \<and> limit * int (length ids) \<le> sem_count (sem_abs R ttl k1 k2 s) then 0
     else case find (\<lambda>i. (pinned = 0 \<or> i = pinned) \<and> (limit \<le> 0 \<or> lease_count R ttl (pk i) s < limit))
                 (rotate (pool_start (r_get R s k3) ids) ids) of
        None \<Rightarrow> 0 | Some i \<Rightarrow> i, time_sec R s)"
proof -
  let ?now = "time_sec R s" and ?n = "length ids"
  let ?ps = "map (\<lambda>i. (pk i, format_int i)) ids"
  define s1 where "s1 = r_zremrangebyscore R (r_zremrangebyscore R s k1 (?now - ttl)) k2 (?now - 60)"
  have get: "r_get R s1 k3 = r_get R s k3" by (simp add: s1_def)
  define c where "c = pool_scan R k1 ?now ttl rq (r_get R s k3) (length ?ps) ?ps 0 0 s1"
  have pk: "pk i \<noteq> k1" "pk i \<noteq> k2" if "i \<in> set ids" for i using keys that by auto
  have u1: "unexpired R h (pk i) s1 = unexpired R h (pk i) s" if "i \<in> set ids" for h i
    using pk [OF that] by (simp add: s1_def unexpired_prune_other)
  have k12: "r_zscore R s1 k1 = unexpired R (?now - ttl) k1 s" "r_zscore R s1 k2 = unexpired R (?now - 60) k2 s"
    using keys by (auto simp: s1_def zscore_prune unexpired_prune_other fun_eq_iff simp del: zscore_zremrange)
  obtain r s2 where c: "c = (r, s2)" by (cases c)
  have "\<exists>st. r = Inr st"
  proof (cases r)
    case (Inl pid)
    from pool_scan_hit [of k1 ?now ttl rq "r_get R s k3" ?n ?ps 0 0 s1 pid s2] c Inl keys t
    obtain i where "i \<in> set ids" "unexpired R (?now - ttl) (pk i) s1 rq \<noteq> None"
      by (auto simp: c_def image_image)
    then show ?thesis using fresh u1 by simp
  qed simp
  then obtain st where st: "r = Inr st" by blast
  note scan = c [unfolded c_def st]
  have miss: "r_zscore R s2 k m = (if k \<in> pk ` set ids then unexpired R (?now - ttl) k s1 m else r_zscore R s1 k m)"
    and st_lt: "0 < ?n \<Longrightarrow> st < ?n" for k m
    using pool_scan_miss [OF scan] by (auto simp: image_image)
  have "st = pool_start (r_get R s k3) ids"
  proof (rule pool_start_eq)
    have d: "distinct (map snd ?ps)" using ids(1) by (simp add: comp_def distinct_map inj_on_def key_simps)
    note S = pool_scan_start [OF scan d]
    show "\<forall>i \<in> set ids. r_get R s k3 \<noteq> Some (format_int i) \<Longrightarrow> st = 0" using S by auto
    show "j < ?n \<Longrightarrow> r_get R s k3 = Some (format_int (ids ! j)) \<Longrightarrow> st = (j + 1) mod ?n" for j
      using S by auto
  qed
  moreover have "r_zcard R s2 (pk i) = lease_count R ttl (pk i) s" if "i \<in> set ids" for i
  proof -
    have "r_zscore R s2 (pk i) = unexpired R (?now - ttl) (pk i) s"
      using that u1 [OF that] by (auto simp: miss fun_eq_iff)
    then show ?thesis by (simp add: zcard_card lease_count_def)
  qed
  then have pick: "find (\<lambda>(key, pid). (pinned = 0 \<or> parse_int pid = Some pinned) \<and> (limit \<le> 0 \<or> r_zcard R s2 key < limit))
       (rotate st ?ps) = map_option (\<lambda>i. (pk i, format_int i))
     (find (\<lambda>i. (pinned = 0 \<or> i = pinned) \<and> (limit \<le> 0 \<or> lease_count R ttl (pk i) s < limit)) (rotate st ids))"
    unfolding rotate_map find_map
    by (intro arg_cong [where f = "map_option _"] find_cong_set)
      (use ids(2) in \<open>auto simp: parse_int_format_int\<close>)
  moreover have "r_zcard R s2 k1 + r_zcard R s2 k2 = sem_count (sem_abs R ttl k1 k2 s)"
  proof -
    have "r_zscore R s2 k1 = unexpired R (?now - ttl) k1 s" "r_zscore R s2 k2 = unexpired R (?now - 60) k2 s"
      using keys k12 by (auto simp: miss fun_eq_iff)
    then show ?thesis by (simp add: zcard_card sem_count_def sem_abs_def)
  qed
  moreover have "fst (acquireProxyPoolScript R k1 k2 k3 ?ps limit ttl rq pinned s) =
      (if 0 < limit \<and> limit * int ?n \<le> r_zcard R s2 k1 + r_zcard R s2 k2 then (0, ?now)
       else case pool_pick R limit pinned ?ps st [0..<?n] s2 of None \<Rightarrow> (0, ?now)
          | Some (key, pid) \<Rightarrow> (the (parse_int pid), ?now))"
    unfolding acquireProxyPoolScript_def Let_def s1_def [symmetric] get
    using scan by (auto split: option.split)
  moreover have "pool_pick R limit pinned ?ps st [0..<?n] s2 =
      map_option (\<lambda>i. (pk i, format_int i))
     (find (\<lambda>i. (pinned = 0 \<or> i = pinned) \<and> (limit \<le> 0 \<or> lease_count R ttl (pk i) s < limit)) (rotate st ids))"
  proof (cases "ids = []")
    case False
    then have "st < length ?ps" using st_lt by simp
    from map_rotate [OF this] show ?thesis by (simp add: pool_pick_find pick)
  qed simp
  ultimately have "fst (acquireProxyPoolScript R k1 k2 k3 ?ps limit ttl rq pinned s) =
      (if 0 < limit \<and> limit * int ?n \<le> sem_count (sem_abs R ttl k1 k2 s) then (0, ?now)
       else case find (\<lambda>i. (pinned = 0 \<or> i = pinned) \<and> (limit \<le> 0 \<or> lease_count R ttl (pk i) s < limit))
              (rotate (pool_start (r_get R s k3) ids) ids) of None \<Rightarrow> (0, ?now)
          | Some i \<Rightarrow> (the (parse_int (format_int i)), ?now))"
    by (simp add: option.case_eq_if option.map_sel)
  moreover have "parse_int (format_int i) = Some i"
    if "find P (rotate m ids) = Some i" for P m i
    using that ids(2) by (auto simp: find_Some_iff parse_int_format_int) (metis nth_mem parse_int_format_int length_rotate set_rotate)
  ultimately show ?thesis by (auto split: option.split)
qed

section \<open>The active index after a release; batches\<close>

lemma release_index:
  assumes "0 < accountID" "0 < slotTTLSeconds c" "0 < waitQueueTTLSeconds c"
    and s1: "s1 = r_zrem R s (accountSlotKey accountID) rid"
  shows "\<exists>s'. ReleaseAccountSlot R c accountID rid (quiet s) = (Inr (), quiet s') \<and>
     (let n = lease_count R (slotTTLSeconds c) (accountSlotKey accountID) s1;
          v = wait_of (r_get R s (accountWaitKey accountID))
      in r_zscore R s' accountActiveIndexKey (format_int accountID) =
           (if n = 0 \<and> v = 0 then None else Some (time_sec R s + activeIndexTTL c n v)))"
proof -
  let ?sk = "accountSlotKey accountID" and ?now = "time_sec R s"
  define s2 where "s2 = r_zremrangebyscore R s1 ?sk (?now - slotTTLSeconds c)"
  have now: "time_sec R s1 = ?now" by (simp add: s1)
  have n: "r_zcard R s2 ?sk = lease_count R (slotTTLSeconds c) ?sk s1"
    by (simp add: s2_def zcard_pruned lease_count_def now)
  have v: "r_get R s2 (accountWaitKey accountID) = r_get R s (accountWaitKey accountID)"
    by (simp add: s2_def s1)
  have load: "readActiveLoadForKey R c accountID ?sk (accountWaitKey accountID) ?now (quiet s1) =
     (Inr \<lparr>al_id = accountID, al_member = format_int accountID,
           al_slotCount = lease_count R (slotTTLSeconds c) ?sk s1,
           al_waitCount = wait_of (r_get R s (accountWaitKey accountID))\<rparr>, quiet s2)"
    by (simp add: readActiveLoadForKey_def load_cmds_def cmd_prune_def cmd_zcard_def cmd_get_def
        bindW_def s2_def [symmetric] n v)
  have pos: "0 \<le> wait_of x" for x by (simp add: wait_of_def split: option.split)
  have npos: "0 \<le> lease_count R (slotTTLSeconds c) ?sk s1" by (simp add: lease_count_def)
  have now_pos: "0 \<le> ?now" by simp
  let ?n = "lease_count R (slotTTLSeconds c) ?sk s1" and ?v = "wait_of (r_get R s (accountWaitKey accountID))"
  show ?thesis
  proof (cases "?n = 0 \<and> ?v = 0")
    case True
    then show ?thesis using assms(1) load
      by (simp add: ReleaseAccountSlot_def refreshAccountActiveIndex_def refreshActiveIndex_def
          redisUnixSeconds_def bindW_def tryW_def s1 [symmetric] now Let_def)
  next
    case False
    then have ttl: "0 < activeIndexTTL c ?n ?v"
      using assms(2,3) pos [of "r_get R s (accountWaitKey accountID)"] npos
      by (auto simp: activeIndexTTL_def Let_def)
    have nv: "\<not> (?n = 0 \<and> ?v \<le> 0)" using False pos [of "r_get R s (accountWaitKey accountID)"] by auto
    from ttl now_pos have "0 < ?now + activeIndexTTL c ?n ?v" by linarith
    then show ?thesis using assms(1) load False ttl nv
      by (simp add: ReleaseAccountSlot_def refreshAccountActiveIndex_def refreshActiveIndex_def
          redisUnixSeconds_def bindW_def tryW_def s1 [symmetric] now Let_def touchActiveIndexAt_def)
  qed
qed

lemma seq_append:
  "seq_actions (xs @ ys) s =
     (case seq_actions xs s of (as, s1) \<Rightarrow> (case seq_actions ys s1 of (bs, s2) \<Rightarrow> (as @ bs, s2)))"
  by (induction xs arbitrary: s) (auto split: prod.split)

lemma batch_counts_quiet:
  assumes "\<And>a b. sk a \<noteq> lk b" "inj sk" "inj lk"
  shows "t = time_sec R s \<Longrightarrow>
    batch_counts ids (fst (seq_actions (concat (map (\<lambda>a. count_cmds R (t - ttl) (t - 60) (sk a) (lk a)) ids)) s))
      = map (\<lambda>a. (a, sem_count (sem_abs R ttl (sk a) (lk a) s))) ids"
proof (induction ids arbitrary: s)
  case (Cons i ids)
  let ?s1 = "r_zremrangebyscore R (r_zremrangebyscore R s (sk i) (t - ttl)) (lk i) (t - 60)"
  have same: "sem_abs R ttl (sk a) (lk a) ?s1 = sem_abs R ttl (sk a) (lk a) s" for a
  proof -
    have "unexpired R (t - ttl) (sk a) ?s1 = unexpired R (t - ttl) (sk a) s"
      using assms(1) [of a i] by (simp add: unexpired_prune unexpired_prune_other)
    moreover have "unexpired R (t - 60) (lk a) ?s1 = unexpired R (t - 60) (lk a) s"
      using assms(1) [of i a] by (simp add: unexpired_prune unexpired_prune_other)
    ultimately show ?thesis using Cons.prems by (simp add: sem_abs_def)
  qed
  have c: "r_zcard R ?s1 (sk i) + r_zcard R ?s1 (lk i) = sem_count (sem_abs R ttl (sk i) (lk i) s)"
    using assms(1) [of i i] Cons.prems
    by (simp add: zcard_pruned unexpired_prune_other sem_count_def sem_abs_def)
  have "t = time_sec R ?s1" using Cons.prems by simp
  from Cons.IH [OF this] c same show ?case
    by (simp add: seq_append count_cmds_def cmd_prune_def cmd_zcard_def case_prod_beta)
qed simp

lemma go_map_same: "a \<in> set is \<Longrightarrow> go_map (map (\<lambda>a. (a, f a)) is) a = Some (f a)"
  by (simp add: go_map_def rev_map map_of_map_restrict restrict_map_def)

end

end
