(* ===== verification/Concurrency_Service.thy ===== *)
theory Concurrency_Service
  imports Slot_Theorems "HOL-Library.Word"
begin

text \<open>
  \<open>service/concurrency_service.go\<close>, \<open>account_proxy_routing.go\<close> (pool admission) and
  \<open>api_key_fallback_concurrency.go\<close>: request ids, admission after a reserved
  slot, release closures, fail-open wait counters, and the ingress lease
  heartbeat.  Release closures are values of \<open>release_fn\<close>; a \<open>sync.Once\<close> is the
  request id's membership in the process's list of done releases.  The
  admission gate and the performance authority are parameters: services the
  request path consults.
\<close>

section \<open>Request ids\<close>

record proc =
  rid_prefix :: string
  rid_counter :: "64 word"
  once_done :: "member list"

definition digit36 :: "nat \<Rightarrow> char" where
  "digit36 d = (if d < 10 then char_of (48 + d) else char_of (87 + d))"

text \<open>\<open>strconv.FormatUint(n, 36)\<close>.\<close>

fun format36 :: "nat \<Rightarrow> string" where
  "format36 n = (if n < 36 then [digit36 n] else format36 (n div 36) @ [digit36 (n mod 36)])"

declare format36.simps [simp del]

definition generateRequestID :: "proc \<Rightarrow> member \<times> proc" where
  "generateRequestID p =
     (let seq = rid_counter p + 1
      in (rid_prefix p @ ''-'' @ format36 (unat seq), p\<lparr>rid_counter := seq\<rparr>))"

section \<open>Results and releases\<close>

datatype release_fn =
    RelNothing
  | RelAccount id member
  | RelUser id member
  | RelUserGroup id id member
  | RelProxy id id member

record AcquireResult =
  ProxyID :: id
  Acquired :: bool
  ReleaseFunc :: "release_fn option"

definition not_acquired :: AcquireResult where
  "not_acquired = \<lparr>ProxyID = 0, Acquired = False, ReleaseFunc = None\<rparr>"

text \<open>
  Running a release closure.  Errors are logged.  The account and proxy closures
  run once (\<open>once.Do\<close>); the user closures have no \<open>Once\<close> of their own.
\<close>

fun run_release :: "'s redis \<Rightarrow> concurrencyCache \<Rightarrow> release_fn \<Rightarrow> proc \<Rightarrow> ('s, proc) prog" where
  "run_release R c RelNothing p = returnW p"
| "run_release R c (RelAccount a rid) p =
     (if rid \<in> set (once_done p) then returnW p
      else bindW (tryW (ReleaseAccountSlot R c a rid))
        (\<lambda>_. returnW (p\<lparr>once_done := rid # once_done p\<rparr>)))"
| "run_release R c (RelUser u rid) p =
     bindW (tryW (ReleaseUserSlot R c u rid)) (\<lambda>_. returnW p)"
| "run_release R c (RelUserGroup u g rid) p =
     bindW (tryW (ReleaseUserGroupSlot R c u g rid)) (\<lambda>_. returnW p)"
| "run_release R c (RelProxy a pid rid) p =
     (if rid \<in> set (once_done p) then returnW p
      else bindW (tryW (ReleaseAccountProxyPoolSlot R c a pid rid))
        (\<lambda>_. returnW (p\<lparr>once_done := rid # once_done p\<rparr>)))"

section \<open>Admission of account requests\<close>

type_synonym 's gate = "id \<Rightarrow> ('s, bool) prog"

datatype 's perf =
    NoPerf
  | PerfTrial "id \<Rightarrow> ('s, bool \<times> ('s, unit) prog option) prog"
  | PerfReader "id \<Rightarrow> ('s, bool) prog"

text \<open>
  The service methods return \<open>(result, error)\<close>; here a value \<open>Inl error\<close> or
  \<open>Inr result\<close>, with the process state after the call.
\<close>

type_synonym ('s, 'a) svc = "('s, (err + 'a) \<times> proc) prog"

definition admitAccountRequest ::
    "'s redis \<Rightarrow> concurrencyCache \<Rightarrow> 's gate option \<Rightarrow> id \<Rightarrow> AcquireResult \<Rightarrow> proc \<Rightarrow> ('s, AcquireResult) svc" where
  "admitAccountRequest R c gate accountID result p =
     (if \<not> Acquired result then returnW (Inr result, p)
      else case gate of
        None \<Rightarrow> returnW (Inr result, p)
      | Some check \<Rightarrow>
          bindW (catchW (check accountID)) (\<lambda>verdict.
            (if verdict = Inr True then returnW (Inr result, p)
             else bindW (case ReleaseFunc result of None \<Rightarrow> returnW p | Some rf \<Rightarrow> run_release R c rf p)
               (\<lambda>p. returnW (Inl (case verdict of Inl e \<Rightarrow> e | Inr _ \<Rightarrow> ErrDenied), p)))))"

definition acquireAccountProxyPoolSlot ::
    "'s redis \<Rightarrow> concurrencyCache \<Rightarrow> 's gate option \<Rightarrow> id \<Rightarrow> int \<Rightarrow> id list \<Rightarrow> id list \<Rightarrow> proc \<Rightarrow>
     ('s, AcquireResult) svc" where
  "acquireAccountProxyPoolSlot R c gate accountID limit ids pinnedProxyIDs p =
     (if pool_keys accountID [] ids = None
      then returnW (Inl (ErrInvalid ''invalid or duplicate proxy ID''), p)
      else
        (let (requestID, p) = generateRequestID p
         in bindW (catchW (AcquireAccountProxyPoolSlot R c accountID ids limit requestID pinnedProxyIDs))
              (\<lambda>r. case r of
                 Inl e \<Rightarrow> returnW (Inl e, p)
               | Inr proxyID \<Rightarrow>
                   if proxyID = 0 then returnW (Inr not_acquired, p)
                   else admitAccountRequest R c gate accountID
                          \<lparr>ProxyID = proxyID, Acquired = True,
                           ReleaseFunc = Some (RelProxy accountID proxyID requestID)\<rparr> p)))"

text \<open>The body of \<open>AcquireAccountSlot\<close> after the performance check.\<close>

definition acquire_account_body ::
    "'s redis \<Rightarrow> concurrencyCache \<Rightarrow> 's gate option \<Rightarrow> id \<Rightarrow> int \<Rightarrow> id list \<Rightarrow> proc \<Rightarrow> ('s, AcquireResult) svc" where
  "acquire_account_body R c gate accountID maxConcurrency proxyIDs p =
     (if length proxyIDs > 1 then acquireAccountProxyPoolSlot R c gate accountID maxConcurrency proxyIDs [] p
      else if maxConcurrency \<le> 0 then
        admitAccountRequest R c gate accountID
          \<lparr>ProxyID = 0, Acquired = True, ReleaseFunc = Some RelNothing\<rparr> p
      else
        (let (requestID, p) = generateRequestID p
         in bindW (catchW (AcquireAccountSlot R c accountID maxConcurrency requestID))
              (\<lambda>r. case r of
                 Inl e \<Rightarrow> returnW (Inl e, p)
               | Inr acquired \<Rightarrow>
                   if acquired then
                     admitAccountRequest R c gate accountID
                       \<lparr>ProxyID = 0, Acquired = True,
                        ReleaseFunc = Some (RelAccount accountID requestID)\<rparr> p
                   else returnW (Inr not_acquired, p))))"

definition svcAcquireAccountSlot ::
    "'s redis \<Rightarrow> concurrencyCache \<Rightarrow> 's perf \<Rightarrow> 's gate option \<Rightarrow> id \<Rightarrow> int \<Rightarrow> id list \<Rightarrow> proc \<Rightarrow>
     ('s, AcquireResult) svc" where
  "svcAcquireAccountSlot R c perf gate accountID maxConcurrency proxyIDs p =
     (case perf of
        NoPerf \<Rightarrow> acquire_account_body R c gate accountID maxConcurrency proxyIDs p
      | PerfTrial trial \<Rightarrow>
          bindW (catchW (trial accountID)) (\<lambda>t. case t of
            Inl e \<Rightarrow> returnW (Inl e, p)
          | Inr (allowed, cancel) \<Rightarrow>
              if \<not> allowed then returnW (Inr not_acquired, p)
              else bindW (acquire_account_body R c gate accountID maxConcurrency proxyIDs p)
                (\<lambda>(r, p). bindW
                   (case cancel of
                      None \<Rightarrow> returnW ()
                    | Some k \<Rightarrow> if (case r of Inl _ \<Rightarrow> True | Inr res \<Rightarrow> \<not> Acquired res) then tryW k else returnW ())
                   (\<lambda>_. returnW (r, p))))
      | PerfReader paused \<Rightarrow>
          bindW (catchW (paused accountID)) (\<lambda>t. case t of
            Inl e \<Rightarrow> returnW (Inl e, p)
          | Inr b \<Rightarrow> if b then returnW (Inr not_acquired, p)
                    else acquire_account_body R c gate accountID maxConcurrency proxyIDs p))"

section \<open>User slots and the fallback transfer\<close>

definition svcAcquireUserSlot ::
    "'s redis \<Rightarrow> concurrencyCache \<Rightarrow> id \<Rightarrow> int \<Rightarrow> proc \<Rightarrow> ('s, AcquireResult) svc" where
  "svcAcquireUserSlot R c userID maxConcurrency p =
     (let (requestID, p) = generateRequestID p
      in if maxConcurrency \<le> 0
         then returnW (Inr \<lparr>ProxyID = 0, Acquired = True, ReleaseFunc = Some RelNothing\<rparr>, p)
         else bindW (catchW (AcquireUserSlot R c userID maxConcurrency requestID))
           (\<lambda>r. case r of
              Inl e \<Rightarrow> returnW (Inl e, p)
            | Inr acquired \<Rightarrow>
                if acquired
                then returnW (Inr \<lparr>ProxyID = 0, Acquired = True, ReleaseFunc = Some (RelUser userID requestID)\<rparr>, p)
                else returnW (Inr not_acquired, p)))"

definition svcAcquireUserGroupSlot ::
    "'s redis \<Rightarrow> concurrencyCache \<Rightarrow> id \<Rightarrow> id \<Rightarrow> int \<Rightarrow> int \<Rightarrow> proc \<Rightarrow> ('s, AcquireResult) svc" where
  "svcAcquireUserGroupSlot R c userID groupID userMax groupMax p =
     (if groupID \<le> 0 \<or> groupMax \<le> 0 then svcAcquireUserSlot R c userID userMax p
      else
        (let (requestID, p) = generateRequestID p
         in bindW (catchW (AcquireUserGroupSlot R c userID groupID userMax groupMax requestID))
              (\<lambda>r. case r of
                 Inl e \<Rightarrow> returnW (Inl e, p)
               | Inr acquired \<Rightarrow>
                   if \<not> acquired then returnW (Inr not_acquired, p)
                   else returnW (Inr \<lparr>ProxyID = 0, Acquired = True,
                          ReleaseFunc = Some (RelUserGroup userID groupID requestID)\<rparr>, p))))"

text \<open>
  \<open>bindFallbackConcurrency\<close>: the variables its two closures share.  The admission
  closure moves the group dimension; the release closure runs once.
\<close>

record fallback =
  fb_user :: id
  fb_userMax :: int
  fb_rid :: member
  fb_group :: id
  fb_released :: bool
  fb_moved :: bool
  fb_original :: release_fn

definition bindFallbackConcurrency :: "id \<Rightarrow> id \<Rightarrow> int \<Rightarrow> member \<Rightarrow> release_fn \<Rightarrow> fallback" where
  "bindFallbackConcurrency userID groupID userMax requestID original =
     \<lparr>fb_user = userID, fb_userMax = userMax, fb_rid = requestID, fb_group = groupID,
      fb_released = False, fb_moved = False, fb_original = original\<rparr>"

definition concurrencyAdmission ::
    "'s redis \<Rightarrow> concurrencyCache \<Rightarrow> id \<Rightarrow> int \<Rightarrow> fallback \<Rightarrow> ('s, (err + unit) \<times> fallback) prog" where
  "concurrencyAdmission R c target targetLimit fb =
     (if fb_released fb then returnW (Inl ErrUnavailable, fb)
      else bindW (catchW (MoveUserGroupSlot R c (fb_user fb) (fb_group fb) target (fb_userMax fb)
                            targetLimit (fb_rid fb)))
        (\<lambda>r. case r of
           Inl e \<Rightarrow> returnW (Inl e, fb)
         | Inr acquired \<Rightarrow>
             if \<not> acquired then returnW (Inl ErrDenied, fb)
             else returnW (Inr (), fb\<lparr>fb_group := target, fb_moved := True\<rparr>)))"

definition fallback_release ::
    "'s redis \<Rightarrow> concurrencyCache \<Rightarrow> fallback \<Rightarrow> proc \<Rightarrow> ('s, fallback \<times> proc) prog" where
  "fallback_release R c fb p =
     (if fb_released fb then returnW (fb, p)
      else
        (let fb = fb\<lparr>fb_released := True\<rparr>
         in if \<not> fb_moved fb then bindW (run_release R c (fb_original fb) p) (\<lambda>p. returnW (fb, p))
            else bindW (tryW (ReleaseUserGroupSlot R c (fb_user fb) (fb_group fb) (fb_rid fb)))
              (\<lambda>_. returnW (fb, p))))"

section \<open>Wait counters and loads\<close>

definition defaultExtraWaitSlots :: int where
  "defaultExtraWaitSlots = 20"

definition CalculateMaxWait :: "int \<Rightarrow> int" where
  "CalculateMaxWait userConcurrency =
     (let userConcurrency = (if userConcurrency \<le> 0 then 1 else userConcurrency)
      in userConcurrency + defaultExtraWaitSlots)"

definition fail_open :: "('s, bool) prog \<Rightarrow> ('s, bool) prog" where
  "fail_open q = bindW (catchW q) (\<lambda>r. case r of Inl e \<Rightarrow> returnW True | Inr b \<Rightarrow> returnW b)"

definition svcIncrementWaitCount :: "'s redis \<Rightarrow> concurrencyCache \<Rightarrow> id \<Rightarrow> int \<Rightarrow> ('s, bool) prog" where
  "svcIncrementWaitCount R c userID maxWait = fail_open (IncrementWaitCount R c userID maxWait)"

definition svcDecrementWaitCount :: "'s redis \<Rightarrow> concurrencyCache \<Rightarrow> id \<Rightarrow> ('s, unit) prog" where
  "svcDecrementWaitCount R c userID = tryW (DecrementWaitCount R c userID)"

definition svcIncrementAccountWaitCount :: "'s redis \<Rightarrow> concurrencyCache \<Rightarrow> id \<Rightarrow> int \<Rightarrow> ('s, bool) prog" where
  "svcIncrementAccountWaitCount R c accountID maxWait =
     fail_open (IncrementAccountWaitCount R c accountID maxWait)"

definition svcDecrementAccountWaitCount :: "'s redis \<Rightarrow> concurrencyCache \<Rightarrow> id \<Rightarrow> ('s, unit) prog" where
  "svcDecrementAccountWaitCount R c accountID = tryW (DecrementAccountWaitCount R c accountID)"

definition zeroAPIKeyConcurrencyMap :: "id list \<Rightarrow> id \<Rightarrow> int option" where
  "zeroAPIKeyConcurrencyMap ks = go_map (map (\<lambda>k. (k, 0)) ks)"

text \<open>A key missing from \<open>counts\<close> reads as Go's zero value.\<close>

definition svcGetAPIKeyConcurrencyBatch ::
    "'s redis \<Rightarrow> concurrencyCache \<Rightarrow> id list \<Rightarrow> ('s, id \<Rightarrow> int option) prog" where
  "svcGetAPIKeyConcurrencyBatch R c ks =
     (if ks = [] then returnW (zeroAPIKeyConcurrencyMap ks)
      else bindW (catchW (GetAPIKeyConcurrencyBatch R c ks)) (\<lambda>r. case r of
        Inl e \<Rightarrow> returnW (zeroAPIKeyConcurrencyMap ks)
      | Inr counts \<Rightarrow> returnW (go_map (map (\<lambda>k. (k, case counts k of None \<Rightarrow> 0 | Some n \<Rightarrow> n)) ks))))"

definition svcTrackAPIKeySlot ::
    "'s redis \<Rightarrow> concurrencyCache \<Rightarrow> id \<Rightarrow> proc \<Rightarrow> ('s, member option \<times> proc) prog" where
  "svcTrackAPIKeySlot R c apiKeyID p =
     (if apiKeyID \<le> 0 then returnW (None, p)
      else
        (let (requestID, p) = generateRequestID p
         in bindW (catchW (TrackAPIKeySlot R c apiKeyID requestID)) (\<lambda>r. case r of
              Inl e \<Rightarrow> returnW (None, p)
            | Inr _ \<Rightarrow> returnW (Some requestID, p))))"

section \<open>The ingress lease heartbeat\<close>

definition openAIWSIngressLeaseTTL :: int where
  "openAIWSIngressLeaseTTL = 60 * 1000000000"

text \<open>\<open>refresh\<close>: the outcome of the Redis call, and \<open>time.Now()\<close> after it.\<close>

definition lease_refresh :: "int \<Rightarrow> err + bool \<Rightarrow> int \<Rightarrow> int \<times> bool" where
  "lease_refresh lastConfirmedAt outcome now =
     (if outcome = Inr True then (now, False)
      else
        (let elapsed = now - lastConfirmedAt
         in if outcome = Inr False \<or> elapsed \<ge> openAIWSIngressLeaseTTL then (lastConfirmedAt, True)
            else (lastConfirmedAt, False)))"

datatype lease_event = CtxDone | Stopped | Tick "err + bool" int

datatype lease_end = Running int | Ended | LeaseLost

fun refreshLoop :: "lease_event list \<Rightarrow> int \<Rightarrow> lease_end" where
  "refreshLoop [] lastConfirmedAt = Running lastConfirmedAt"
| "refreshLoop (CtxDone # es) lastConfirmedAt = Ended"
| "refreshLoop (Stopped # es) lastConfirmedAt = Ended"
| "refreshLoop (Tick outcome now # es) lastConfirmedAt =
     (case lease_refresh lastConfirmedAt outcome now of
        (lastConfirmedAt, lost) \<Rightarrow> if lost then LeaseLost else refreshLoop es lastConfirmedAt)"

definition svcAcquireOpenAIWSIngressLease ::
    "'s redis \<Rightarrow> id \<Rightarrow> int \<Rightarrow> proc \<Rightarrow> ('s, member option \<times> bool) svc" where
  "svcAcquireOpenAIWSIngressLease R apiKeyID maxConnections p =
     (if maxConnections \<le> 0 then returnW (Inr (None, True), p)
      else if apiKeyID \<le> 0 then returnW (Inl ErrUnavailable, p)
      else
        (let (leaseID, p) = generateRequestID p
         in bindW (catchW (AcquireOpenAIWSIngressLease R apiKeyID maxConnections leaseID)) (\<lambda>r. case r of
              Inl e \<Rightarrow> returnW (Inl e, p)
            | Inr acquired \<Rightarrow>
                if \<not> acquired then returnW (Inr (None, False), p)
                else returnW (Inr (Some leaseID, True), p))))"

end
