(* ===== verification/Slot_Provider.thy ===== *)
theory Slot_Provider
  imports Slot_Theorems
begin

text \<open>
  The interface between the request path and the slot cache.  A provider
  acquires and releases slots of a resource; its laws, on a working network,
  are those of the counting semaphore \<open>view\<close>.  The concurrency cache provides it
  twice, for accounts and for users.
\<close>

lemma sem_free_try:
  "sem_try mx rid \<sigma> = (True, \<sigma>') \<Longrightarrow> sem_held \<sigma> rid = None \<Longrightarrow> sem_free rid \<sigma>' = \<sigma>"
  by (cases \<sigma>) (auto simp: sem_try_def sem_free_def fun_upd_idem split: if_splits)

locale slot_provider =
  fixes acquire :: "id \<Rightarrow> int \<Rightarrow> member \<Rightarrow> ('s, bool) prog"
    and release :: "id \<Rightarrow> member \<Rightarrow> ('s, unit) prog"
    and view :: "id \<Rightarrow> 's \<Rightarrow> sem"
  assumes acquire_law:
      "\<exists>ok s'. acquire i mx rid (quiet s) = (Inr ok, quiet s') \<and> sem_try mx rid (view i s) = (ok, view i s')"
    and release_law:
      "\<exists>s'. release i rid (quiet s) = (Inr (), quiet s') \<and> view i s' = sem_free rid (view i s)"
begin

text \<open>A new request that acquires and releases leaves the semaphore as it was.\<close>

lemma acquire_release:
  assumes "acquire i mx rid (quiet s) = (Inr True, quiet s1)" and "release i rid (quiet s1) = (r, w)"
    and "sem_held (view i s) rid = None"
  shows "r = Inr () \<and> (\<exists>s2. w = quiet s2 \<and> view i s2 = view i s)"
proof -
  from acquire_law [of i mx rid s] assms(1) have t: "sem_try mx rid (view i s) = (True, view i s1)" by auto
  from release_law [of i rid s1] assms(2) obtain s2 where
    "r = Inr ()" "w = quiet s2" "view i s2 = sem_free rid (view i s1)" by auto
  with sem_free_try [OF t assms(3)] show ?thesis by simp
qed

text \<open>A refused request changes nothing.\<close>

lemma refused:
  "acquire i mx rid (quiet s) = (Inr False, quiet s1) \<Longrightarrow> view i s1 = view i s"
  using acquire_law [of i mx rid s] by (auto simp: sem_try_def split: if_splits)

text \<open>Releasing twice is releasing once.\<close>

lemma release_twice:
  assumes "release i rid (quiet s) = (r1, quiet s1)" and "release i rid (quiet s1) = (r2, quiet s2)"
  shows "view i s2 = view i s1"
  using release_law [of i rid s] release_law [of i rid s1] assms
  by (auto simp: sem_free_def)

end

section \<open>The concurrency cache provides it\<close>

locale configured_cache = redis_store R for R :: "'s redis" +
  fixes c :: concurrencyCache
  assumes slot_ttl: "0 < slotTTLSeconds c"

context configured_cache
begin

lemma refresh_index_quiet:
  "\<exists>s'. refreshActiveIndex R c idx i sk wk (quiet s) = (Inr (), quiet s') \<and> time_sec R s' = time_sec R s \<and>
     (\<forall>k h. k \<noteq> idx \<longrightarrow> (k \<noteq> sk \<or> time_sec R s - slotTTLSeconds c \<le> h) \<longrightarrow>
        unexpired R h k s' = unexpired R h k s)"
proof -
  define s1 where "s1 = r_zremrangebyscore R s sk (time_sec R s - slotTTLSeconds c)"
  have t: "time_sec R s1 = time_sec R s" by (simp add: s1_def)
  have u: "k \<noteq> sk \<or> time_sec R s - slotTTLSeconds c \<le> h \<Longrightarrow> unexpired R h k s1 = unexpired R h k s" for k h
    by (cases "k = sk") (simp_all add: s1_def unexpired_prune unexpired_prune_other)
  obtain load where load: "readActiveLoadForKey R c i sk wk (time_sec R s) (quiet s) = (Inr load, quiet s1)"
    by (simp add: readActiveLoadForKey_def load_cmds_def cmd_prune_def cmd_zcard_def cmd_get_def
        bindW_def s1_def [symmetric])
  show ?thesis
    by (auto simp: refreshActiveIndex_def redisUnixSeconds_def bindW_def tryW_def load
        touchActiveIndexAt_def Let_def t u unexpired_zadd_other unexpired_zrem_other)
qed

lemma account_acquire:
  "\<exists>ok s'. AcquireAccountSlot R c a mx rid (quiet s) = (Inr ok, quiet s') \<and>
     sem_try mx rid (sem_abs R (slotTTLSeconds c) (accountSlotKey a) (liveAccountSlotKey a) s) =
       (ok, sem_abs R (slotTTLSeconds c) (accountSlotKey a) (liveAccountSlotKey a) s')"
proof -
  have ne: "accountSlotKey a \<noteq> liveAccountSlotKey a" by (simp add: key_simps)
  from acquire_refines [OF ne slot_ttl, of mx rid s] show ?thesis
    by (auto simp: AcquireAccountSlot_def bindW_def touchActiveIndexAt_def tryW_def sem_abs_def
        unexpired_zadd_other key_simps)
qed

lemma user_acquire:
  "\<exists>ok s'. AcquireUserSlot R c a mx rid (quiet s) = (Inr ok, quiet s') \<and>
     sem_try mx rid (sem_abs R (slotTTLSeconds c) (userSlotKey a) (liveUserSlotKey a) s) =
       (ok, sem_abs R (slotTTLSeconds c) (userSlotKey a) (liveUserSlotKey a) s')"
proof -
  have ne: "userSlotKey a \<noteq> liveUserSlotKey a" by (simp add: key_simps)
  from acquire_refines [OF ne slot_ttl, of mx rid s] show ?thesis
    by (auto simp: AcquireUserSlot_def bindW_def touchActiveIndexAt_def tryW_def sem_abs_def
        unexpired_zadd_other key_simps)
qed

lemma account_release:
  "\<exists>s'. ReleaseAccountSlot R c a rid (quiet s) = (Inr (), quiet s') \<and>
     sem_abs R (slotTTLSeconds c) (accountSlotKey a) (liveAccountSlotKey a) s' =
       sem_free rid (sem_abs R (slotTTLSeconds c) (accountSlotKey a) (liveAccountSlotKey a) s)"
proof -
  let ?s = "r_zrem R s (accountSlotKey a) rid"
  from refresh_index_quiet [of accountActiveIndexKey a "accountSlotKey a" "accountWaitKey a" ?s]
  obtain s' where "refreshAccountActiveIndex R c a (quiet ?s) = (Inr (), quiet s')"
      "time_sec R s' = time_sec R ?s"
    and u: "\<And>k h. k \<noteq> accountActiveIndexKey \<Longrightarrow> k \<noteq> accountSlotKey a \<or> time_sec R ?s - slotTTLSeconds c \<le> h \<Longrightarrow>
        unexpired R h k s' = unexpired R h k ?s"
    by (auto simp: refreshAccountActiveIndex_def)
  moreover have "sem_abs R (slotTTLSeconds c) (accountSlotKey a) (liveAccountSlotKey a) ?s =
      sem_free rid (sem_abs R (slotTTLSeconds c) (accountSlotKey a) (liveAccountSlotKey a) s)"
    by (rule release_refines) (simp add: key_simps)
  ultimately show ?thesis
    by (simp add: ReleaseAccountSlot_def bindW_def sem_abs_def [of R _ _ _ s'] sem_abs_def [of R _ _ _ ?s]
        u key_simps)
qed

lemma user_release:
  "\<exists>s'. ReleaseUserSlot R c a rid (quiet s) = (Inr (), quiet s') \<and>
     sem_abs R (slotTTLSeconds c) (userSlotKey a) (liveUserSlotKey a) s' =
       sem_free rid (sem_abs R (slotTTLSeconds c) (userSlotKey a) (liveUserSlotKey a) s)"
proof -
  let ?s = "r_zrem R s (userSlotKey a) rid"
  from refresh_index_quiet [of userActiveIndexKey a "userSlotKey a" "waitQueueKey a" ?s]
  obtain s' where "refreshUserActiveIndex R c a (quiet ?s) = (Inr (), quiet s')"
      "time_sec R s' = time_sec R ?s"
    and u: "\<And>k h. k \<noteq> userActiveIndexKey \<Longrightarrow> k \<noteq> userSlotKey a \<or> time_sec R ?s - slotTTLSeconds c \<le> h \<Longrightarrow>
        unexpired R h k s' = unexpired R h k ?s"
    by (auto simp: refreshUserActiveIndex_def)
  moreover have "sem_abs R (slotTTLSeconds c) (userSlotKey a) (liveUserSlotKey a) ?s =
      sem_free rid (sem_abs R (slotTTLSeconds c) (userSlotKey a) (liveUserSlotKey a) s)"
    by (rule release_refines) (simp add: key_simps)
  ultimately show ?thesis
    by (simp add: ReleaseUserSlot_def bindW_def sem_abs_def [of R _ _ _ s'] sem_abs_def [of R _ _ _ ?s]
        u key_simps)
qed

end

sublocale configured_cache \<subseteq> account: slot_provider
  "AcquireAccountSlot R c" "ReleaseAccountSlot R c"
  "\<lambda>a. sem_abs R (slotTTLSeconds c) (accountSlotKey a) (liveAccountSlotKey a)"
  by unfold_locales (rule account_acquire, rule account_release)

sublocale configured_cache \<subseteq> user: slot_provider
  "AcquireUserSlot R c" "ReleaseUserSlot R c"
  "\<lambda>u. sem_abs R (slotTTLSeconds c) (userSlotKey u) (liveUserSlotKey u)"
  by unfold_locales (rule user_acquire, rule user_release)

text \<open>The reference server with the default configuration is an instance.\<close>

interpretation default_cache: configured_cache ref_redis "NewConcurrencyCache 15 60"
  by unfold_locales (simp add: NewConcurrencyCache_def NewConcurrencyCacheWithAPIKeyTTL_def)

end
