(* ===== verification/Slot_Properties.thy ===== *)
theory Slot_Properties
  imports Slot_Theorems
begin

text \<open>
  The properties of the concurrency cache, stated over any Redis server that
  keeps the documented laws, and their witnesses: runs on the reference server
  at second 1000, with the cache configured for 15-minute slots.
\<close>

section \<open>The setting of the witnesses\<close>

definition db0 :: refdb where
  "db0 = empty_db 1000000000"

definition cache0 :: concurrencyCache where
  "cache0 = NewConcurrencyCache 15 60"

definition one_each :: slot_limits where
  "one_each = \<lparr>lim_account = (\<lambda>_. 1), lim_user = (\<lambda>_. 1), lim_group = (\<lambda>_ _. 1),
     lim_proxy = (\<lambda>_. 1), lim_ingress = (\<lambda>_. 1), may_replace = False\<rparr>"

lemma ref_zcard: "r_zcard ref_redis s k = int (length (AList.clearjunk (e_zset (rd_ent s k))))"
  by (simp add: r_zcard_def ref_members_def)

lemma ref_clock: "time_sec ref_redis s = int (rd_us s) div 1000000"
  by (simp add: time_sec_def)

lemma ref_unexpired_none [simp]: "e_zset (rd_ent s k) = [] \<Longrightarrow> unexpired ref_redis hi k s = Map.empty"
  by (simp add: unexpired_def fun_eq_iff)

lemmas ref_eval =
  ref_zcard ref_clock r_expire_def Let_def key_simps empty_db_def no_entry_def quiet_def
  round_trip.simps query_def update_def touchActiveIndexAt_def ref_live_def ref_dl_def
  bindW_def tryW_def db0_def

lemma cache0_sel [simp]: "slotTTLSeconds cache0 = 900" "waitQueueTTLSeconds cache0 = 60"
  by (simp_all add: cache0_def NewConcurrencyCache_def NewConcurrencyCacheWithAPIKeyTTL_def)

lemma one_each_sel [simp]:
  "lim_account one_each a = 1" "lim_user one_each u = 1" "lim_group one_each u g = 1"
  "lim_proxy one_each a = 1" "lim_ingress one_each k = 1" "\<not> may_replace one_each"
  by (simp_all add: one_each_def)

lemma db0_within: "slots_within ref_redis one_each db0"
  by (simp add: slots_within_def occupancy_def ref_zcard db0_def empty_db_def allowance_def)

section \<open>Limits\<close>

text \<open>
  C1. Whatever the gateway processes do, in whatever order, and however time
  passes, the regular and live slots of every account, user and user group
  together never exceed the configured limit (by more than the one slot a
  replacing live lease may add), no proxy of a pool exceeds its limit, and no
  API key exceeds its ingress connections.
\<close>

theorem slot_limits_hold:
  assumes "redis_store R" and "slots_within R L s" and "(slot_step R L)\<^sup>*\<^sup>* s s'"
  shows "slots_within R L s'"
  using redis_store.slot_steps_within [OF assms(1,3,2)] .

theorem slot_limits_hold_witness:
  "slots_within ref_redis one_each
     (snd (acquireScript ref_redis (accountSlotKey 7) (liveAccountSlotKey 7) 1 900 ''b''
       (snd (acquireScript ref_redis (accountSlotKey 7) (liveAccountSlotKey 7) 1 900 ''a'' db0))))"
proof (rule slot_limits_hold [OF ref.redis_store_axioms db0_within])
  let ?acq = "\<lambda>rid s. snd (acquireScript ref_redis (accountSlotKey 7) (liveAccountSlotKey 7) 1 900 rid s)"
  have "slot_step ref_redis one_each s (?acq rid s)" for rid s
    by (rule slot_step.acquire_account) simp
  then show "(slot_step ref_redis one_each)\<^sup>*\<^sup>* db0 (?acq ''b'' (?acq ''a'' db0))"
    by (meson rtranclp.rtrancl_into_rtrancl rtranclp.rtrancl_refl)
qed

text \<open>
  The methods of the cache, each with what it needs of the state it starts in: a request id
  offered to a group or to a proxy pool is either new, or already held in both dimensions.
  Limits are those the caller passes.
\<close>

inductive cache_method :: "'s redis \<Rightarrow> concurrencyCache \<Rightarrow> slot_limits \<Rightarrow> ('s \<Rightarrow> bool) \<Rightarrow> ('s, unit) prog \<Rightarrow> bool"
  for R c L where
  acquire_account: "mx \<le> lim_account L a \<Longrightarrow> cache_method R c L (\<lambda>_. True) (tryW (AcquireAccountSlot R c a mx rid))"
| release_account: "cache_method R c L (\<lambda>_. True) (tryW (ReleaseAccountSlot R c a rid))"
| count_account: "cache_method R c L (\<lambda>_. True) (tryW (GetAccountConcurrency R c a))"
| count_accounts: "cache_method R c L (\<lambda>_. True) (tryW (GetAccountConcurrencyBatch R c as))"
| acquire_user: "mx \<le> lim_user L u \<Longrightarrow> cache_method R c L (\<lambda>_. True) (tryW (AcquireUserSlot R c u mx rid))"
| release_user: "cache_method R c L (\<lambda>_. True) (tryW (ReleaseUserSlot R c u rid))"
| count_user: "cache_method R c L (\<lambda>_. True) (tryW (GetUserConcurrency R c u))"
| acquire_user_group: "0 < um \<Longrightarrow> um \<le> lim_user L u \<Longrightarrow> gm \<le> lim_group L u g \<Longrightarrow>
    cache_method R c L (\<lambda>s. consistent_id R (slotTTLSeconds c) (userSlotKey u) (userGroupSlotKey u g) s rid)
      (tryW (AcquireUserGroupSlot R c u g um gm rid))"
| release_user_group: "cache_method R c L (\<lambda>_. True) (tryW (ReleaseUserGroupSlot R c u g rid))"
| move_user_group: "0 < um \<Longrightarrow> um \<le> lim_user L u \<Longrightarrow> gm \<le> lim_group L u g \<Longrightarrow> 0 < slotTTLSeconds c \<Longrightarrow>
    cache_method R c L (\<lambda>_. True) (tryW (MoveUserGroupSlot R c u g0 g um gm rid))"
| track_api_key: "cache_method R c L (\<lambda>_. True) (tryW (TrackAPIKeySlot R c k rid))"
| refresh_api_key: "cache_method R c L (\<lambda>_. True) (tryW (RefreshAPIKeySlot R c k rid))"
| release_api_key: "cache_method R c L (\<lambda>_. True) (tryW (ReleaseAPIKeySlot R k rid))"
| count_api_keys: "cache_method R c L (\<lambda>_. True) (tryW (GetAPIKeyConcurrencyBatch R c ks))"
| acquire_ingress: "mx \<le> lim_ingress L k \<Longrightarrow>
    cache_method R c L (\<lambda>_. True) (tryW (AcquireOpenAIWSIngressLease R k mx lid))"
| refresh_ingress: "cache_method R c L (\<lambda>_. True) (tryW (RefreshOpenAIWSIngressLease R k lid))"
| release_ingress: "cache_method R c L (\<lambda>_. True) (tryW (ReleaseOpenAIWSIngressLease R k lid))"
| acquire_live: "0 < am \<Longrightarrow> am \<le> lim_account L a \<Longrightarrow> 0 < um \<Longrightarrow> um \<le> lim_user L u \<Longrightarrow>
    (repl \<longrightarrow> may_replace L) \<Longrightarrow> cache_method R c L (\<lambda>_. True) (tryW (AcquireLiveLease R a am u um k lid repl))"
| acquire_live_group: "0 < am \<Longrightarrow> am \<le> lim_account L a \<Longrightarrow> 0 < um \<Longrightarrow> um \<le> lim_user L u \<Longrightarrow>
    gm \<le> lim_group L u g \<Longrightarrow> (repl \<longrightarrow> may_replace L) \<Longrightarrow>
    cache_method R c L (\<lambda>_. True) (tryW (AcquireLiveLeaseForGroup R a am u um g gm k lid repl))"
| refresh_live: "cache_method R c L (\<lambda>_. True) (tryW (RefreshLiveLease R a u k lid))"
| refresh_live_group: "cache_method R c L (\<lambda>_. True) (tryW (RefreshLiveLeaseForGroup R a u g k lid))"
| release_live: "cache_method R c L (\<lambda>_. True) (tryW (ReleaseLiveLease R a u k lid))"
| release_live_group: "cache_method R c L (\<lambda>_. True) (tryW (ReleaseLiveLeaseForGroup R a u g k lid))"
| wait_user: "cache_method R c L (\<lambda>_. True) (tryW (IncrementWaitCount R c u mw))"
| unwait_user: "cache_method R c L (\<lambda>_. True) (tryW (DecrementWaitCount R c u))"
| wait_account: "cache_method R c L (\<lambda>_. True) (tryW (IncrementAccountWaitCount R c a mw))"
| unwait_account: "cache_method R c L (\<lambda>_. True) (tryW (DecrementAccountWaitCount R c a))"
| waiting: "cache_method R c L (\<lambda>_. True) (tryW (GetAccountWaitingCount R a))"
| account_loads: "cache_method R c L (\<lambda>_. True) (tryW (GetAccountsLoadBatch R c ams))"
| user_loads: "cache_method R c L (\<lambda>_. True) (tryW (GetUsersLoadBatch R c ams))"
| cleanup_account: "cache_method R c L (\<lambda>_. True) (tryW (CleanupExpiredAccountSlots R c a))"
| cleanup_keys: "cache_method R c L (\<lambda>_. True) (tryW (CleanupExpiredAccountSlotKeys R c))"
| cleanup_stale: "cache_method R c L (\<lambda>_. True) (tryW (CleanupStaleProcessSlots R scan fuel c pre))"
| acquire_pool: "0 < lim \<Longrightarrow> lim \<le> lim_proxy L a \<Longrightarrow> lim * int (length ids) \<le> lim_account L a \<Longrightarrow>
    0 < slotTTLSeconds c \<Longrightarrow>
    cache_method R c L
      (\<lambda>s. \<forall>i\<in>set ids. consistent_id R (slotTTLSeconds c) (accountProxySlotKey a i) (accountSlotKey a) s rid)
      (tryW (AcquireAccountProxyPoolSlot R c a ids lim rid pins))"
| release_pool: "cache_method R c L (\<lambda>_. True) (tryW (ReleaseAccountProxyPoolSlot R c a pid rid))"
| pool_counts: "cache_method R c L (\<lambda>_. True) (tryW (GetAccountProxyConcurrencyBatch R c pools))"

lemma cache_method_keeps:
  assumes "redis_store R" and "cache_method R c L C p"
  shows "keeps_from C (slots_within R L) p"
proof -
  note plain = redis_store.keeps_account_methods[OF assms(1)] redis_store.keeps_user_methods[OF assms(1)]
    redis_store.keeps_group_methods[OF assms(1)] redis_store.keeps_lease_methods[OF assms(1)]
    redis_store.keeps_other_methods[OF assms(1)] redis_store.keeps_maintenance[OF assms(1)]
    redis_store.keeps_reads[OF assms(1)]
  from assms(2) show ?thesis
    by (cases rule: cache_method.cases)
      ((simp only:)?; rule keeps_from_try;
       (rule redis_store.keeps_from_user_group[OF assms(1)] redis_store.keeps_from_pool[OF assms(1)]; assumption)?;
       (rule keeps_from_keeps, rule plain; assumption)?)+
qed

text \<open>
  C20. The same limits survive every exported method of the cache that talks to Redis
  (\<open>cache_method\<close> lists them all: acquiring, moving, refreshing and releasing slots, live
  leases, proxy-pool slots and ingress leases, wait counters, counts, loads and clean-ups)
  whatever the network does: lost requests, lost replies, and other clients acting between
  any two round trips, as long as those clients respect the limits themselves and leave the
  request's id consistent, where the method needs it to be.
\<close>

theorem methods_keep_limits:
  assumes "redis_store R" and "cache_method R c L C p"
    and "slots_within R L (w_db w)" and "net_keeps (slots_within R L) w"
    and "C (w_db w)" and "net_keeps C w"
  shows "slots_within R L (w_db (snd (p w)))"
  using cache_method_keeps[OF assms(1,2)] assms(3-6) unfolding keeps_from_def by blast

theorem methods_keep_limits_witness:
  "slots_within ref_redis one_each (w_db (snd
     (tryW (AcquireUserGroupSlot ref_redis cache0 7 4 1 1 ''a'')
       \<lparr>w_db = db0, w_net = [(\<lambda>s. r_zrem ref_redis s (accountSlotKey 7) ''b'', ReplyLost)]\<rparr>)))"
proof (rule methods_keep_limits[OF ref.redis_store_axioms])
  let ?w = "\<lparr>w_db = db0, w_net = [(\<lambda>s. r_zrem ref_redis s (accountSlotKey 7) ''b'', ReplyLost)]\<rparr>"
  let ?C = "\<lambda>s. consistent_id ref_redis (slotTTLSeconds cache0) (userSlotKey 7) (userGroupSlotKey 7 4) s ''a''"
  show "cache_method ref_redis cache0 one_each ?C (tryW (AcquireUserGroupSlot ref_redis cache0 7 4 1 1 ''a''))"
    by (rule cache_method.acquire_user_group) simp_all
  show "slots_within ref_redis one_each (w_db ?w)" using db0_within by simp
  show "net_keeps (slots_within ref_redis one_each) ?w"
    unfolding net_keeps_def using ref.slot_step_within [OF slot_step.release] by simp
  show "?C (w_db ?w)" by (simp add: consistent_id_def db0_def empty_db_def no_entry_def)
  show "net_keeps ?C ?w"
    unfolding net_keeps_def by (auto simp: consistent_id_def unexpired_def time_sec_def key_simps split: if_splits)
qed

section \<open>The semaphore\<close>

text \<open>
  C21. The acquire, release, count and clean-up of one account refine the
  counting semaphore with leases: the reply of the script is the semaphore's
  verdict, and the abstract holders change exactly as the semaphore says,
  although the script prunes lapsed members and the semaphore never sees them.
\<close>

theorem account_slots_refine_semaphore:
  assumes "redis_store R" and "0 < ttl"
  shows
    "(let k = accountSlotKey a; l = liveAccountSlotKey a; \<alpha> = sem_abs R ttl k l;
          ((reply, now), s') = acquireScript R k l mx ttl rid s;
          (n, s'') = getCountScript R k l ttl s
      in sem_try mx rid (\<alpha> s) = (reply = 1, \<alpha> s') \<and> reply \<in> {0, 1} \<and> now = sem_now (\<alpha> s) \<and>
         \<alpha> (r_zrem R s k rid) = sem_free rid (\<alpha> s) \<and>
         n = sem_count (\<alpha> s) \<and> \<alpha> s'' = \<alpha> s \<and>
         \<alpha> (snd (cleanupExpiredSlotsScript R k ttl s)) = \<alpha> s)"
proof -
  let ?k = "accountSlotKey a" and ?l = "liveAccountSlotKey a"
  have ne: "?k \<noteq> ?l" by (simp add: key_simps)
  note L = redis_store.acquire_refines [OF assms(1) ne assms(2)] redis_store.count_refines [OF assms(1) ne]
    redis_store.release_refines [OF assms(1) ne] redis_store.cleanup_refines [OF assms(1) ne assms(2)]
  from L(1) [of mx rid s] L(2) [of ttl s] show ?thesis
    by (auto simp: L(3,4) sem_abs_def [of R ttl ?k ?l s, THEN arg_cong [where f = sem_now]])
qed

theorem account_slots_refine_semaphore_witness:
  "sem_try 1 ''a'' (sem_abs ref_redis 900 (accountSlotKey 7) (liveAccountSlotKey 7) db0) =
     (True, sem_abs ref_redis 900 (accountSlotKey 7) (liveAccountSlotKey 7)
        (snd (acquireScript ref_redis (accountSlotKey 7) (liveAccountSlotKey 7) 1 900 ''a'' db0)))"
  using account_slots_refine_semaphore [OF ref.redis_store_axioms, of 900 7 1 "''a''" db0]
  by (simp add: Let_def case_prod_beta)
    (simp add: acquireScript_def ref_eval)

text \<open>
  Key expiry is invisible: under the lease discipline every script keeps
  (members stamped with the server clock, \<open>EXPIRE\<close> renewed to the slot TTL at
  each stamp), letting time pass, with Redis dropping whole sets whose deadline
  came, removes from the semaphore exactly the leases that lapsed.
\<close>

theorem expiry_is_lapse:
  assumes "redis_store R" and "0 < ttl" and "0 \<le> d"
    and "lease_ok R ttl (accountSlotKey a) s" and "lease_ok R 60 (liveAccountSlotKey a) s"
  shows "let k = accountSlotKey a; l = liveAccountSlotKey a;
             s1 = snd (acquireScript R k l mx ttl rid s); s2 = r_pass R s1 d
         in lease_ok R ttl k s1 \<and> lease_ok R 60 l s1 \<and>
            sem_abs R ttl k l s2 = sem_wait ttl (time_sec R s2) (sem_abs R ttl k l s1)"
proof -
  let ?k = "accountSlotKey a" and ?l = "liveAccountSlotKey a"
  let ?s1 = "snd (acquireScript R ?k ?l mx ttl rid s)"
  have ne: "?k \<noteq> ?l" "?l \<noteq> ?k" by (simp_all add: key_simps)
  note I = redis_store.lease_ok_steps [OF assms(1)] redis_store.lease_ok_expire [OF assms(1) _ assms(2)]
    redis_store.scores_past_steps [OF assms(1)] redis_store.lease_ok_past [OF assms(1)]
  have k: "lease_ok R ttl ?k ?s1"
    using assms(2,4) ne unfolding acquireScript_def Let_def
    by (auto intro!: I(1,2,6) I(7,8) simp: redis_store.time_sec_frame [OF assms(1)]
        intro: I(11) redis_store.lease_ok_past [OF assms(1)])
  have l: "lease_ok R 60 ?l ?s1"
    using assms(5) ne unfolding acquireScript_def Let_def by (auto intro!: I(1-5))
  show ?thesis using k l redis_store.pass_refines [OF assms(1) k l assms(3)] by (simp add: Let_def)
qed

theorem expiry_is_lapse_witness:
  "sem_abs ref_redis 900 (accountSlotKey 7) (liveAccountSlotKey 7)
     (r_pass ref_redis (snd (acquireScript ref_redis (accountSlotKey 7) (liveAccountSlotKey 7) 1 900 ''a'' db0))
        900000000) =
   sem_wait 900 1900 (sem_abs ref_redis 900 (accountSlotKey 7) (liveAccountSlotKey 7)
     (snd (acquireScript ref_redis (accountSlotKey 7) (liveAccountSlotKey 7) 1 900 ''a'' db0)))"
proof -
  have "lease_ok ref_redis t k db0" for t k
    by (simp add: lease_ok_def scores_past_def db0_def empty_db_def)
  note this [of 900 "accountSlotKey 7"] this [of 60 "liveAccountSlotKey 7"]
  from expiry_is_lapse [OF ref.redis_store_axioms _ _ this, of 900000000 1 "''a''"]
  have "let s1 = snd (acquireScript ref_redis (accountSlotKey 7) (liveAccountSlotKey 7) 1 900 ''a'' db0);
            s2 = r_pass ref_redis s1 900000000
        in sem_abs ref_redis 900 (accountSlotKey 7) (liveAccountSlotKey 7) s2 =
           sem_wait 900 (time_sec ref_redis s2)
             (sem_abs ref_redis 900 (accountSlotKey 7) (liveAccountSlotKey 7) s1)"
    by (simp add: Let_def)
  moreover have "time_sec ref_redis (r_pass ref_redis
      (snd (acquireScript ref_redis (accountSlotKey 7) (liveAccountSlotKey 7) 1 900 ''a'' db0)) 900000000) = 1900"
    by (simp add: acquireScript_def ref_eval)
  ultimately show ?thesis by (simp add: Let_def del: ref_ops)
qed

text \<open>
  A live lease is admitted only where the account's semaphore has room
  (counting one extra place when it replaces a regular slot), and a refused or
  repeated request changes nothing at the semaphore.
\<close>

theorem live_lease_within_semaphore:
  assumes "redis_store R" and "0 < accountMax"
    and "acquireLiveLeaseScript R (accountSlotKey a) (liveAccountSlotKey a) (userSlotKey u)
           (liveUserSlotKey u) (liveAPIKeySlotKey k) accountMax userMax liveLeaseTTLSeconds lid replacing s
         = (reply, s')"
  shows "let \<alpha> = sem_abs R ttl (accountSlotKey a) (liveAccountSlotKey a)
     in \<alpha> s' = \<alpha> s \<or>
        reply = 1 \<and> sem_count (\<alpha> s) < accountMax + (if replacing = 1 then 1 else 0) \<and>
        \<alpha> s' = (\<alpha> s)\<lparr>sem_live := (sem_live (\<alpha> s))(lid \<mapsto> sem_now (\<alpha> s))\<rparr>"
proof -
  have "distinct [accountSlotKey a, liveAccountSlotKey a, liveUserSlotKey u, liveAPIKeySlotKey k]"
    by (simp add: key_simps)
  from redis_store.live_lease_refines [OF assms(1) this assms(2) refl,
      where ttl = ttl and s = s and ur = "userSlotKey u" and um = userMax and lid = lid and replacing = replacing]
    assms(3) show ?thesis
    unfolding liveLeaseTTLSeconds_def Let_def by auto
qed

theorem live_lease_within_semaphore_witness:
  "\<exists>s'. acquireLiveLeaseScript ref_redis (accountSlotKey 7) (liveAccountSlotKey 7) (userSlotKey 3)
      (liveUserSlotKey 3) (liveAPIKeySlotKey 5) 1 1 liveLeaseTTLSeconds ''l'' 0 db0 = (1, s') \<and>
    (sem_abs ref_redis 900 (accountSlotKey 7) (liveAccountSlotKey 7) s' =
       sem_abs ref_redis 900 (accountSlotKey 7) (liveAccountSlotKey 7) db0 \<or>
     sem_count (sem_abs ref_redis 900 (accountSlotKey 7) (liveAccountSlotKey 7) db0) < 1)"
proof -
  obtain r s' where run: "acquireLiveLeaseScript ref_redis (accountSlotKey 7) (liveAccountSlotKey 7)
      (userSlotKey 3) (liveUserSlotKey 3) (liveAPIKeySlotKey 5) 1 1 liveLeaseTTLSeconds ''l'' 0 db0 = (r, s')"
    by fastforce
  moreover have "r = 1"
    using run by (simp add: acquireLiveLeaseScript_def ref_eval split: if_splits)
  moreover note live_lease_within_semaphore [OF ref.redis_store_axioms _ run, where ttl = 900]
  ultimately show ?thesis by (auto simp: Let_def)
qed

section \<open>Users in groups\<close>

text \<open>
  Acquiring a user slot and a group slot is all or nothing: on success the
  request is stamped in both sets, on refusal it is in neither as a new member,
  and no other request's slot is touched beyond the pruning of lapsed ones.
\<close>

theorem user_group_all_or_nothing:
  assumes "redis_store R" and "0 < ttl"
    and "acquireUserGroupScript R (userSlotKey u) (liveUserSlotKey u) (userGroupSlotKey u g)
           (liveUserGroupSlotKey u g) userMax groupMax ttl rid s = ((reply, now), s')"
  shows "now = time_sec R s \<and>
    (reply = 1 \<and> r_zscore R s' (userSlotKey u) rid = Some now \<and>
       r_zscore R s' (userGroupSlotKey u g) rid = Some now \<or>
     reply = 0 \<and> unexpired R (now - ttl) (userSlotKey u) s rid = None \<and>
       r_zscore R s' (userSlotKey u) rid = None \<and>
       (\<forall>m. r_zscore R s' (userGroupSlotKey u g) m = unexpired R (now - ttl) (userGroupSlotKey u g) s m)) \<and>
    (\<forall>m. m \<noteq> rid \<longrightarrow>
       r_zscore R s' (userSlotKey u) m = unexpired R (now - ttl) (userSlotKey u) s m \<and>
       r_zscore R s' (userGroupSlotKey u g) m = unexpired R (now - ttl) (userGroupSlotKey u g) s m)"
  by (rule redis_store.user_group_atomic [OF assms(1) _ _ _ _ _ assms(2,3)]) (simp_all add: key_simps)

theorem user_group_all_or_nothing_witness:
  "\<exists>s'. acquireUserGroupScript ref_redis (userSlotKey 3) (liveUserSlotKey 3) (userGroupSlotKey 3 4)
      (liveUserGroupSlotKey 3 4) 2 1 900 ''a'' db0 = ((1, 1000), s') \<and>
     r_zscore ref_redis s' (userSlotKey 3) ''a'' = Some 1000 \<and>
     r_zscore ref_redis s' (userGroupSlotKey 3 4) ''a'' = Some 1000"
proof -
  obtain r n s' where run: "acquireUserGroupScript ref_redis (userSlotKey 3) (liveUserSlotKey 3)
      (userGroupSlotKey 3 4) (liveUserGroupSlotKey 3 4) 2 1 900 ''a'' db0 = ((r, n), s')"
    by (metis surj_pair)
  have "r = 1 \<and> n = 1000" using run
    by (simp add: acquireUserGroupScript_def ref_eval split: if_splits)
  with user_group_all_or_nothing [OF ref.redis_store_axioms _ run] run show ?thesis
    by (auto simp del: ref_ops)
qed

section \<open>Refresh and wait counters\<close>

text \<open>
  C31. A heartbeat of a live lease answers 1 exactly when every one of its keys
  still holds the lease unexpired, renews all of them in that case, and never
  puts back a member that was gone.
\<close>

theorem live_refresh_never_resurrects:
  assumes "redis_store R"
    and "refreshLiveLeaseScript R keys liveLeaseTTLSeconds lid s = (reply, s')"
  shows "let held = (\<forall>k \<in> set keys. unexpired R (time_sec R s - liveLeaseTTLSeconds) k s lid \<noteq> None)
     in reply = of_bool held \<and>
        (held \<longrightarrow> (\<forall>k \<in> set keys. r_zscore R s' k lid = Some (time_sec R s))) \<and>
        (\<forall>k m. r_zscore R s k m = None \<longrightarrow> r_zscore R s' k m = None)"
  using redis_store.refresh_live_iff [OF assms(1), of liveLeaseTTLSeconds keys lid s] assms(2)
  by (auto simp: liveLeaseTTLSeconds_def Let_def)

theorem live_refresh_never_resurrects_witness:
  "fst (refreshLiveLeaseScript ref_redis [liveAccountSlotKey 7, liveUserSlotKey 3] liveLeaseTTLSeconds ''l'' db0) = 0"
proof -
  obtain r s' where run: "refreshLiveLeaseScript ref_redis [liveAccountSlotKey 7, liveUserSlotKey 3]
      liveLeaseTTLSeconds ''l'' db0 = (r, s')" by fastforce
  from live_refresh_never_resurrects [OF ref.redis_store_axioms run] run show ?thesis
    by (auto simp: unexpired_def ref_eval)
qed

fun wait_run :: "'s redis \<Rightarrow> key \<Rightarrow> int \<Rightarrow> int \<Rightarrow> bool list \<Rightarrow> 's \<Rightarrow> 's" where
  "wait_run R k mw ttl [] s = s"
| "wait_run R k mw ttl (inc # ops) s =
     wait_run R k mw ttl ops
       (if inc then snd (incrementWaitScript R k mw ttl s) else snd (decrementWaitScript R k s))"

fun saturating :: "int \<Rightarrow> bool list \<Rightarrow> int \<Rightarrow> int" where
  "saturating mw [] n = n"
| "saturating mw (inc # ops) n =
     saturating mw ops (if inc then (if n < mw then n + 1 else n) else (if 0 < n then n - 1 else n))"

lemma saturating_bounds: "0 \<le> n \<Longrightarrow> n \<le> mw \<Longrightarrow> 0 \<le> saturating mw ops n \<and> saturating mw ops n \<le> mw"
  by (induction ops arbitrary: n) auto

text \<open>
  Any sequence of increments and decrements of a wait counter is the
  saturating counter: it never passes \<open>maxWait\<close>, never goes below 0, and the
  stored value stays a 64-bit decimal.
\<close>

theorem wait_counter_saturates:
  assumes "redis_store R" and "0 < ttl" and "in_int64 mw"
    and "counter_is R k s n" and "0 \<le> n" and "n \<le> mw"
  shows "counter_is R k (wait_run R k mw ttl ops s) (saturating mw ops n) \<and>
     0 \<le> saturating mw ops n \<and> saturating mw ops n \<le> mw"
proof -
  have "counter_is R k (wait_run R k mw ttl ops s) (saturating mw ops n)"
    using assms(4-6)
  proof (induction ops arbitrary: s n)
    case (Cons inc ops)
    show ?case
    proof (cases inc)
      case True
      from redis_store.increment_wait(2) [OF assms(1) Cons.prems(1) assms(2,3) Cons.prems(2)]
      show ?thesis using True Cons by (simp split: if_splits)
    next
      case False
      from redis_store.decrement_wait(2) [OF assms(1) Cons.prems(1,2)]
      show ?thesis using False Cons by (simp split: if_splits)
    qed
  qed simp
  with saturating_bounds [OF assms(5,6)] show ?thesis by simp
qed

theorem wait_counter_saturates_witness:
  "counter_is ref_redis (waitQueueKey 3)
     (wait_run ref_redis (waitQueueKey 3) 2 60 [True, True, True, False] db0) 1"
  using wait_counter_saturates [OF ref.redis_store_axioms, of 60 2 "waitQueueKey 3" db0 0
      "[True, True, True, False]"]
  by (simp add: counter_is_def in_int64_def int64_min_def int64_max_def db0_def empty_db_def ref_members_def)

section \<open>Start-up, pools, indexes, batches\<close>

text \<open>
  The start-up clean-up of one slot key removes exactly the members of
  other processes, leaves every other key alone, and reports how many it
  removed and how many remain.
\<close>

theorem startup_cleanup_keeps_own:
  assumes "redis_store R" and "0 < ttl"
    and "startupCleanupSlotScript R key pre ttl s = ((removed, remaining), s')"
  shows "removed = int (length (filter (\<lambda>m. \<not> own pre m) (r_zmembers R s key))) \<and>
     remaining = int (length (filter (own pre) (r_zmembers R s key))) \<and>
     (\<forall>m. r_zscore R s' key m = (if own pre m then r_zscore R s key m else None)) \<and>
     (\<forall>k m. k \<noteq> key \<longrightarrow> r_zscore R s' k m = r_zscore R s k m)"
  using redis_store.startup_spec [OF assms(1,2), of key pre s] assms(3) by auto

theorem startup_cleanup_keeps_own_witness:
  "fst (startupCleanupSlotScript ref_redis (accountSlotKey 7) ''p1-'' 900
     (snd (acquireScript ref_redis (accountSlotKey 7) (liveAccountSlotKey 7) 5 900 ''p0-1'' db0))) = (1, 0)"
proof -
  let ?s = "snd (acquireScript ref_redis (accountSlotKey 7) (liveAccountSlotKey 7) 5 900 ''p0-1'' db0)"
  obtain x y s' where run: "startupCleanupSlotScript ref_redis (accountSlotKey 7) ''p1-'' 900 ?s = ((x, y), s')"
    by (metis surj_pair)
  have "r_zmembers ref_redis ?s (accountSlotKey 7) = [''p0-1'']"
    by (simp add: acquireScript_def ref_eval ref_members_def)
  with startup_cleanup_keeps_own [OF ref.redis_store_axioms _ run] run show ?thesis
    by (simp add: own_def del: ref_ops)
qed

text \<open>
  A new request to a proxy pool gets the first proxy, in cyclic order
  after the last one selected, that fits the session's pin and has a free slot;
  it is refused when none has, or when the account as a whole (live sessions
  and slots from before the pool included) is at the sum of the limits.
\<close>

theorem proxy_pool_round_robin:
  assumes "redis_store R" and "0 < ttl" and "distinct ids" and "\<forall>i \<in> set ids. in_int64 i"
    and "\<forall>i \<in> set ids. unexpired R (time_sec R s - ttl) (accountProxySlotKey a i) s rid = None"
  shows "fst (acquireProxyPoolScript R (accountSlotKey a) (liveAccountSlotKey a) (accountProxyCursorKey a)
            (map (\<lambda>i. (accountProxySlotKey a i, format_int i)) ids) limit ttl rid pinned s) =
    (if 0 < limit \<and>
        limit * int (length ids) \<le> sem_count (sem_abs R ttl (accountSlotKey a) (liveAccountSlotKey a) s)
     then 0
     else case find (\<lambda>i. (pinned = 0 \<or> i = pinned) \<and>
                         (limit \<le> 0 \<or> lease_count R ttl (accountProxySlotKey a i) s < limit))
                 (rotate (pool_start (r_get R s (accountProxyCursorKey a)) ids) ids) of
            None \<Rightarrow> 0 | Some i \<Rightarrow> i,
     time_sec R s)"
proof (rule redis_store.pool_select [OF assms(1,3)])
  show "distinct (accountSlotKey a # liveAccountSlotKey a # accountProxyCursorKey a
      # map (accountProxySlotKey a) ids)"
    using assms(3) by (auto simp: key_simps distinct_map inj_on_def)
qed (use assms(2,4,5) in auto)

theorem proxy_pool_round_robin_witness:
  "fst (acquireProxyPoolScript ref_redis (accountSlotKey 7) (liveAccountSlotKey 7) (accountProxyCursorKey 7)
     (map (\<lambda>i. (accountProxySlotKey 7 i, format_int i)) [3, 4, 9]) 1 900 ''q'' 0
     (r_set ref_redis db0 (accountProxyCursorKey 7) (format_int 4) None)) = (9, 1000)"
  using proxy_pool_round_robin [OF ref.redis_store_axioms, of 900 "[3, 4, 9]"
      "r_set ref_redis db0 (accountProxyCursorKey 7) (format_int 4) None" 7 "''q''" 1 0]
  by (simp add: in_int64_def int64_min_def int64_max_def ref_eval pool_start_def
      lease_count_def sem_count_def sem_abs_def upt_rec)

text \<open>
  After a release on a working network the account is in the active
  index exactly when it still has unexpired slots or waiting requests, and then
  with the deadline its remaining load calls for.
\<close>

theorem release_leaves_index_exact:
  assumes "redis_store R" and "0 < accountID" and "0 < slotTTLSeconds c" and "0 < waitQueueTTLSeconds c"
  shows "\<exists>s'. ReleaseAccountSlot R c accountID rid (quiet s) = (Inr (), quiet s') \<and>
     (let n = lease_count R (slotTTLSeconds c) (accountSlotKey accountID) (r_zrem R s (accountSlotKey accountID) rid);
          v = wait_of (r_get R s (accountWaitKey accountID))
      in r_zscore R s' accountActiveIndexKey (format_int accountID) =
           (if n = 0 \<and> v = 0 then None else Some (time_sec R s + activeIndexTTL c n v)))"
  by (rule redis_store.release_index [OF assms refl])

theorem release_leaves_index_exact_witness:
  "\<exists>s'. ReleaseAccountSlot ref_redis cache0 7 ''a'' (quiet db0) = (Inr (), quiet s') \<and>
     r_zscore ref_redis s' accountActiveIndexKey (format_int 7) = None"
  using release_leaves_index_exact [OF ref.redis_store_axioms, of 7 cache0 "''a''" db0]
  by (simp add: lease_count_def ref_eval wait_of_def)

text \<open>
  On a working network the batch query of account loads reports for every
  account what the account's semaphore counts, which is also the reply of the
  single-account query.
\<close>

theorem batch_equals_single:
  assumes "redis_store R" and "a \<in> set accountIDs"
  shows "\<exists>f w. GetAccountConcurrencyBatch R c accountIDs (quiet s) = (Inr f, w) \<and>
     (\<exists>n w'. GetAccountConcurrency R c a (quiet s) = (Inr n, w') \<and> f a = Some n)"
proof -
  let ?ttl = "slotTTLSeconds c"
  have ne: "accountIDs \<noteq> []" using assms(2) by auto
  have ok: "\<And>x y. accountSlotKey x \<noteq> liveAccountSlotKey y" "inj accountSlotKey" "inj liveAccountSlotKey"
    by (simp_all add: key_simps inj_def)
  note B = redis_store.batch_counts_quiet [OF assms(1) ok refl, where ttl = ?ttl and s = s and ids = accountIDs]
  from redis_store.count_refines [OF assms(1) ok(1), of a a ?ttl s]
  obtain s' where C: "getCountScript R (accountSlotKey a) (liveAccountSlotKey a) ?ttl s =
      (sem_count (sem_abs R ?ttl (accountSlotKey a) (liveAccountSlotKey a) s), s')" by blast
  show ?thesis using ne assms(2) B
    by (simp add: GetAccountConcurrencyBatch_def GetAccountConcurrency_def redisUnixSeconds_def bindW_def
        liveLeaseTTLSeconds_def C redis_store.go_map_same [OF assms(1)])
qed

theorem batch_equals_single_witness:
  "\<exists>f w n w'. GetAccountConcurrencyBatch ref_redis cache0 [5, 7] (quiet db0) = (Inr f, w) \<and>
     GetAccountConcurrency ref_redis cache0 7 (quiet db0) = (Inr n, w') \<and> f 7 = Some n"
  using batch_equals_single [OF ref.redis_store_axioms, of 7 "[5, 7]" cache0 db0] by auto

section \<open>An unchecked path\<close>

text \<open>
  A request id that already holds a user slot (from \<open>AcquireUserSlot\<close>) and is
  offered to the group script enters the group set without the group check:
  here the user holds slots a and b, the group of limit 1 holds a, and b is
  admitted as a second member.
\<close>

lemma group_limit_unchecked_for_held_user_slot:
  "let s = r_zadd ref_redis (r_zadd ref_redis (r_zadd ref_redis db0 (userSlotKey 3) 1000 ''a'')
             (userSlotKey 3) 1000 ''b'') (userGroupSlotKey 3 4) 1000 ''a'';
       ((reply, now), s') = acquireUserGroupScript ref_redis (userSlotKey 3) (liveUserSlotKey 3)
          (userGroupSlotKey 3 4) (liveUserGroupSlotKey 3 4) 5 1 900 ''b'' s
   in reply = 1 \<and> r_zcard ref_redis s' (userGroupSlotKey 3 4) = 2"
  by (simp add: acquireUserGroupScript_def ref_eval)

end
