(* ===== verification/Service_Properties.thy ===== *)
theory Service_Properties
  imports Concurrency_Service Slot_Provider Slot_Properties
begin

text \<open>
  What the request path guarantees: denied requests hold no slot, the limits
  survive every service call, request ids are unique and recognisable, the wait
  queue fails open, and the ingress heartbeat gives up in time.
\<close>

section \<open>Request ids\<close>

lemma digit36_inj: "d < 36 \<Longrightarrow> e < 36 \<Longrightarrow> digit36 d = digit36 e \<Longrightarrow> d = e"
proof -
  assume "d < 36" "e < 36" "digit36 d = digit36 e"
  then have "(of_char (digit36 d) :: nat) = of_char (digit36 e)" by simp
  with \<open>d < 36\<close> \<open>e < 36\<close> show "d = e" by (auto simp: digit36_def split: if_splits)
qed

lemma format36_not_Nil [simp]: "format36 n \<noteq> []" "[] \<noteq> format36 n"
  by (subst format36.simps, simp)+

lemma format36_inj: "format36 m = format36 n \<Longrightarrow> m = n"
proof (induction m arbitrary: n rule: format36.induct)
  case (1 m)
  show ?case
  proof (cases "m < 36")
    case True
    with 1 show ?thesis
      by (auto simp: format36.simps [of m] format36.simps [of n] dest: digit36_inj split: if_splits)
  next
    case False
    with "1.prems" have n: "\<not> n < 36"
      by (auto simp: format36.simps [of m] format36.simps [of n] split: if_splits)
    have "format36 (m div 36) = format36 (n div 36)" "digit36 (m mod 36) = digit36 (n mod 36)"
      using "1.prems" False n by (simp_all add: format36.simps [of m] format36.simps [of n])
    with "1.IH" [OF False] have "m div 36 = n div 36" "m mod 36 = n mod 36"
      by (auto intro: digit36_inj)
    then show ?thesis by (metis div_mult_mod_eq)
  qed
qed

fun request_ids :: "nat \<Rightarrow> proc \<Rightarrow> member list" where
  "request_ids 0 p = []"
| "request_ids (Suc n) p = (let (rid, p') = generateRequestID p in rid # request_ids n p')"

lemma request_ids_nth: "i < n \<Longrightarrow>
    request_ids n p ! i = rid_prefix p @ ''-'' @ format36 (unat (rid_counter p + of_nat (Suc i)))"
proof (induction n arbitrary: p i)
  case (Suc n)
  show ?case
  proof (cases i)
    case 0
    then show ?thesis by (simp add: generateRequestID_def Let_def)
  next
    case (Suc j)
    then show ?thesis using Suc.prems Suc.IH [of j "snd (generateRequestID p)"]
      by (simp add: generateRequestID_def Let_def add_ac)
  qed
qed simp

lemma request_ids_length [simp]: "length (request_ids n p) = n"
  by (induction n arbitrary: p) (simp_all add: case_prod_beta)

text \<open>
  The request ids one process generates are pairwise distinct until its
  64-bit counter has gone all the way round, and every one of them carries the
  process's prefix, so the start-up clean-up of that process keeps them.
\<close>

theorem request_ids_unique:
  assumes "n \<le> 2 ^ 64"
  shows "distinct (request_ids n p) \<and> (\<forall>rid \<in> set (request_ids n p). own (rid_prefix p) rid)"
proof
  show "distinct (request_ids n p)"
  proof (clarsimp simp: distinct_conv_nth)
    fix i j assume ij: "i < n" "j < n" "i \<noteq> j" "request_ids n p ! i = request_ids n p ! j"
    then have "unat (rid_counter p + of_nat (Suc i)) = unat (rid_counter p + of_nat (Suc j))"
      by (intro format36_inj) (simp only: request_ids_nth append_same_eq same_append_eq)
    then have "rid_counter p + of_nat (Suc i) = rid_counter p + of_nat (Suc j)"
      by (simp only: word_unat_eq_iff)
    then have "(of_nat i :: 64 word) = of_nat j" by simp
    then have "i mod 2 ^ 64 = j mod 2 ^ 64"
      by (simp add: word_of_nat_eq_iff take_bit_eq_mod)
    with ij assms show False by simp
  qed
  show "\<forall>rid \<in> set (request_ids n p). own (rid_prefix p) rid"
    by (auto simp: in_set_conv_nth request_ids_nth own_def)
qed

theorem request_ids_unique_witness:
  "distinct (request_ids 3 \<lparr>rid_prefix = ''r1'', rid_counter = - 2, once_done = []\<rparr>)"
  using request_ids_unique [of 3 "\<lparr>rid_prefix = ''r1'', rid_counter = - 2, once_done = []\<rparr>"] by simp

section \<open>Denied requests hold no slot\<close>

context configured_cache
begin

lemma denied_admission:
  assumes check: "check a (quiet s) = (v, quiet s)" "v \<noteq> Inr True"
    and fresh: "rid \<notin> set (once_done p)"
  shows "\<exists>s' p'. admitAccountRequest R c (Some check) a
       \<lparr>ProxyID = 0, Acquired = True, ReleaseFunc = Some (RelAccount a rid)\<rparr> p (quiet s) =
       (Inr (Inl (case v of Inl e \<Rightarrow> e | Inr _ \<Rightarrow> ErrDenied), p'), quiet s') \<and>
     sem_abs R (slotTTLSeconds c) (accountSlotKey a) (liveAccountSlotKey a) s' =
       sem_free rid (sem_abs R (slotTTLSeconds c) (accountSlotKey a) (liveAccountSlotKey a) s)"
  using account.release_law [of a rid s] assms
  by (auto simp: admitAccountRequest_def bindW_def catchW_def tryW_def)

end

text \<open>
  C28. When the admission gate refuses an account, or fails, after the slot was
  reserved, the request gets an error and its slot is gone again: the account's
  semaphore is exactly what it was before the request.
\<close>

theorem denied_request_leaves_no_slot:
  assumes "redis_store R" and "0 < slotTTLSeconds c" and "0 < mx"
    and "\<And>w. check a w = (v, w)" and "v \<noteq> Inr True"
    and "fst (generateRequestID p) \<notin> set (once_done p)"
    and "sem_held (sem_abs R (slotTTLSeconds c) (accountSlotKey a) (liveAccountSlotKey a) s)
           (fst (generateRequestID p)) = None"
  shows "\<exists>r p' s'. svcAcquireAccountSlot R c NoPerf (Some check) a mx [] p (quiet s) = (Inr (r, p'), quiet s') \<and>
     (r = Inr not_acquired \<or> r = Inl (case v of Inl e \<Rightarrow> e | Inr _ \<Rightarrow> ErrDenied)) \<and>
     sem_abs R (slotTTLSeconds c) (accountSlotKey a) (liveAccountSlotKey a) s' =
     sem_abs R (slotTTLSeconds c) (accountSlotKey a) (liveAccountSlotKey a) s"
proof -
  have cfg: "configured_cache R c"
    using assms(1,2) by (simp add: configured_cache_def configured_cache_axioms_def)
  let ?v = "sem_abs R (slotTTLSeconds c) (accountSlotKey a) (liveAccountSlotKey a)"
  obtain rid p1 where g: "generateRequestID p = (rid, p1)" by (cases "generateRequestID p")
  have p1: "once_done p1 = once_done p" using g by (auto simp: generateRequestID_def Let_def)
  from configured_cache.account_acquire [OF cfg, of a mx rid s] obtain ok s1 where
    A: "AcquireAccountSlot R c a mx rid (quiet s) = (Inr ok, quiet s1)"
      "sem_try mx rid (?v s) = (ok, ?v s1)" by blast
  show ?thesis
  proof (cases ok)
    case False
    then have "?v s1 = ?v s" using A(2) by (auto simp: sem_try_def split: if_splits)
    then show ?thesis using A(1) False assms(3) g
      by (auto simp: svcAcquireAccountSlot_def acquire_account_body_def bindW_def catchW_def)
  next
    case True
    have "rid \<notin> set (once_done p1)" using assms(6) g p1 by simp
    from configured_cache.denied_admission [OF cfg, where check = check and a = a and s = s1, OF assms(4,5) this]
    obtain s2 p2 where D: "admitAccountRequest R c (Some check) a
        \<lparr>ProxyID = 0, Acquired = True, ReleaseFunc = Some (RelAccount a rid)\<rparr> p1 (quiet s1) =
        (Inr (Inl (case v of Inl e \<Rightarrow> e | Inr _ \<Rightarrow> ErrDenied), p2), quiet s2)"
      "?v s2 = sem_free rid (?v s1)" by blast
    have "?v s2 = ?v s" using D(2) A(2) True assms(7) g by (simp add: sem_free_try)
    then show ?thesis using A(1) D(1) True assms(3) g
      by (auto simp: svcAcquireAccountSlot_def acquire_account_body_def bindW_def catchW_def)
  qed
qed

theorem denied_request_leaves_no_slot_witness:
  "\<exists>r p' s'. svcAcquireAccountSlot ref_redis cache0 NoPerf (Some (\<lambda>_. returnW False)) 7 1 []
      \<lparr>rid_prefix = ''r1'', rid_counter = 0, once_done = []\<rparr> (quiet db0) = (Inr (r, p'), quiet s') \<and>
    (r = Inr not_acquired \<or> r = Inl ErrDenied)"
  using denied_request_leaves_no_slot [OF ref.redis_store_axioms, of cache0 1 "\<lambda>_. returnW False" 7 "Inr False"
      "\<lparr>rid_prefix = ''r1'', rid_counter = 0, once_done = []\<rparr>" db0]
  by (auto simp: sem_abs_def db0_def empty_db_def)


section \<open>Limits through the service\<close>

context redis_store
begin

lemma keeps_sum [keeps_intros]:
  "(\<And>e. keeps I (p e)) \<Longrightarrow> (\<And>x. keeps I (q x)) \<Longrightarrow> keeps I (case v of Inl e \<Rightarrow> p e | Inr x \<Rightarrow> q x)"
  by (simp split: sum.split)

lemma keeps_run_release [keeps_intros]: "keeps (slots_within R L) (run_release R c rf p)"
proof (cases rf)
  case (RelUserGroup u g rid)
  then show ?thesis by (simp, intro keeps_intros keeps_user_methods)
qed (simp_all, (intro keeps_intros keeps_account_methods keeps_user_methods keeps_other_methods impI conjI | simp)+)

lemma keeps_admit [keeps_intros]:
  assumes "\<And>g. gate = Some g \<Longrightarrow> keeps (slots_within R L) (g a)"
  shows "keeps (slots_within R L) (admitAccountRequest R c gate a res p)"
  using assms unfolding admitAccountRequest_def
  by (cases gate; cases "ReleaseFunc res") (auto intro!: keeps_intros)

lemma keeps_account_service:
  assumes "mx \<le> lim_account L a" "length ids \<le> 1"
    and "\<forall>g. gate = Some g \<longrightarrow> keeps (slots_within R L) (g a)"
  shows "keeps (slots_within R L) (acquire_account_body R c gate a mx ids p)"
  using assms unfolding acquire_account_body_def Let_def case_prod_beta
  by (auto intro!: keeps_intros keeps_account_methods)

lemma keeps_bind_result:
  assumes p: "keeps I p" and k: "\<And>w a w'. p w = (Inr a, w') \<Longrightarrow> keeps I (k a)"
  shows "keeps I (bindW p k)"
proof -
  have "I (w_db (snd (bindW p k w))) \<and> net_keeps I (snd (bindW p k w))"
    if I: "I (w_db w)" and N: "net_keeps I w" for w
  proof -
    obtain r w' where pw: "p w = (r, w')" by (cases "p w")
    from keepsD [OF p I N pw] have w': "I (w_db w')" "net_keeps I w'" by auto
    then show ?thesis using pw k by (cases r) (auto simp: bindW_def keeps_def)
  qed
  then show ?thesis by (simp add: keeps_def)
qed

end

text \<open>A performance authority keeps \<open>I\<close>, and so does every cancellation it hands out.\<close>

definition perf_keeps :: "('s \<Rightarrow> bool) \<Rightarrow> id \<Rightarrow> 's perf \<Rightarrow> bool" where
  "perf_keeps I a perf =
     (case perf of
        NoPerf \<Rightarrow> True
      | PerfTrial t \<Rightarrow> keeps I (t a) \<and>
          (\<forall>w b k w'. t a w = (Inr (b, Some k), w') \<longrightarrow> keeps I k)
      | PerfReader t \<Rightarrow> keeps I (t a))"

text \<open>
  Through the service method of accounts with at most one proxy, its performance check, its admission
  gate and the release of denied slots, the configured limits survive whatever
  the network does, as long as the consulted services keep them too.
\<close>

theorem account_service_keeps_limits:
  assumes "redis_store R" and "mx \<le> lim_account L a" and "length ids \<le> 1"
    and "\<forall>g. gate = Some g \<longrightarrow> keeps (slots_within R L) (g a)"
    and "perf_keeps (slots_within R L) a perf"
  shows "keeps (slots_within R L) (svcAcquireAccountSlot R c perf gate a mx ids p)"
proof (cases perf)
  case NoPerf
  then show ?thesis using redis_store.keeps_account_service [OF assms(1-4)]
    by (simp add: svcAcquireAccountSlot_def)
next
  case (PerfReader t)
  then show ?thesis using assms(5)
    by (auto simp: svcAcquireAccountSlot_def perf_keeps_def
        intro!: keeps_intros redis_store.keeps_sum [OF assms(1)]
          redis_store.keeps_account_service [OF assms(1-4)])
next
  case (PerfTrial t)
  have t: "keeps (slots_within R L) (t a)"
    and k: "\<And>w b k w'. t a w = (Inr (b, Some k), w') \<Longrightarrow> keeps (slots_within R L) k"
    using assms(5) PerfTrial by (auto simp: perf_keeps_def)
  show ?thesis unfolding svcAcquireAccountSlot_def PerfTrial perf.case
  proof (rule redis_store.keeps_bind_result [OF assms(1) keeps_catch [OF t]], goal_cases)
    case (1 w x w')
    then have x: "x = Inr (b, Some q) \<Longrightarrow> keeps (slots_within R L) q" for b q
      using k by (auto simp: catchW_def split: prod.splits)
    show ?case
    proof (cases x)
      case (Inr bc)
      obtain b cancel where bc: "bc = (b, cancel)" by (cases bc)
      have body: "keeps (slots_within R L) (acquire_account_body R c gate a mx ids p)"
        by (rule redis_store.keeps_account_service [OF assms(1-4)])
      have "keeps (slots_within R L) q" if "cancel = Some q" for q
        by (rule x) (simp add: Inr bc that)
      then have q: "keeps (slots_within R L) (case cancel of None \<Rightarrow> returnW ()
          | Some k \<Rightarrow> if B then tryW k else returnW ())" for B
        by (auto simp: keeps_return keeps_try split: option.split)
      show ?thesis
        by (simp add: Inr bc case_prod_beta) (intro keeps_intros body q conjI impI)
    qed (simp add: keeps_return)
  qed
qed

theorem account_service_keeps_limits_witness:
  "keeps (slots_within ref_redis one_each)
     (svcAcquireAccountSlot ref_redis cache0 NoPerf (Some (\<lambda>_. returnW False)) 7 1 []
       \<lparr>rid_prefix = ''r1'', rid_counter = 0, once_done = []\<rparr>)"
  by (rule account_service_keeps_limits [OF ref.redis_store_axioms])
    (simp_all add: perf_keeps_def keeps_def)

section \<open>Fail-open wait counters\<close>

text \<open>
  Asking for a place in a wait queue never fails: whatever the network
  does the caller gets a verdict, and on a working network the verdict is no
  exactly when the counter stands at the limit.
\<close>

theorem wait_queue_fails_open:
  assumes "redis_store R"
  shows "(\<exists>b w'. svcIncrementWaitCount R c u mw w = (Inr b, w')) \<and>
    (counter_is R (waitQueueKey u) s n \<and> 0 \<le> n \<and> in_int64 mw \<and> 0 < waitQueueTTLSeconds c \<longrightarrow>
       (\<exists>w'. svcIncrementWaitCount R c u mw (quiet s) = (Inr (n < mw), w')))"
proof (intro conjI impI)
  show "\<exists>b w'. svcIncrementWaitCount R c u mw w = (Inr b, w')"
    by (auto simp: svcIncrementWaitCount_def fail_open_def bindW_def catchW_def split: prod.split sum.split)
  assume A: "counter_is R (waitQueueKey u) s n \<and> 0 \<le> n \<and> in_int64 mw \<and> 0 < waitQueueTTLSeconds c"
  then have "incrementWaitScript R (waitQueueKey u) mw (waitQueueTTLSeconds c) s =
      (Some (of_bool (n < mw), time_sec R s),
       snd (incrementWaitScript R (waitQueueKey u) mw (waitQueueTTLSeconds c) s))"
    by (intro redis_store.increment_wait(1) [OF assms]) auto
  then obtain s' where "incrementWaitScript R (waitQueueKey u) mw (waitQueueTTLSeconds c) s =
      (Some (of_bool (n < mw), time_sec R s), s')" by metis
  then show "\<exists>w'. svcIncrementWaitCount R c u mw (quiet s) = (Inr (n < mw), w')"
    by (auto simp: svcIncrementWaitCount_def fail_open_def IncrementWaitCount_def bindW_def catchW_def
        touchActiveIndexAt_def tryW_def)
qed

theorem wait_queue_fails_open_witness:
  "\<exists>w'. svcIncrementWaitCount ref_redis cache0 3 2 (quiet db0) = (Inr True, w')"
  using wait_queue_fails_open [OF ref.redis_store_axioms, of cache0 3 2 "quiet db0" db0 0]
  by (simp add: counter_is_def db0_def empty_db_def ref_members_def in_int64_def int64_min_def int64_max_def)

section \<open>The ingress heartbeat\<close>

text \<open>When the heartbeat last confirmed ownership, over ticks of (outcome, time).\<close>

fun last_confirmed :: "((err + bool) \<times> int) list \<Rightarrow> int \<Rightarrow> int" where
  "last_confirmed [] t = t"
| "last_confirmed ((outcome, now) # ts) t = last_confirmed ts (if outcome = Inr True then now else t)"

definition gives_up :: "int \<Rightarrow> (err + bool) \<times> int \<Rightarrow> bool" where
  "gives_up t tick =
     (case tick of (outcome, now) \<Rightarrow>
        outcome = Inr False \<or> (outcome \<noteq> Inr True \<and> openAIWSIngressLeaseTTL \<le> now - t))"

text \<open>
  The heartbeat of an ingress lease cancels the session exactly when some
  tick found the lease gone, or failed one full lease lifetime after the last
  confirmation; a shorter outage never cancels, and a longer one always does.
\<close>

theorem heartbeat_gives_up_in_time:
  "refreshLoop (map (\<lambda>(outcome, now). Tick outcome now) ts) t = LeaseLost \<longleftrightarrow>
     (\<exists>i < length ts. gives_up (last_confirmed (take i ts) t) (ts ! i))"
proof (induction ts arbitrary: t)
  case (Cons x ts)
  obtain outcome now where x: "x = (outcome, now)" by (cases x)
  have split: "(\<exists>i < length (x # ts). P i) \<longleftrightarrow> P 0 \<or> (\<exists>i < length ts. P (Suc i))" for P
    by (simp add: Ex_less_Suc2)
  show ?case unfolding split
    by (cases "gives_up t x")
      (auto simp: x gives_up_def lease_refresh_def Let_def Cons.IH split: if_splits)
qed simp

section \<open>The fallback transfer\<close>

context redis_store
begin

lemma refresh_index_keeps_none:
  "refreshActiveIndex R c idx i sk wk (quiet s) = (r, w) \<Longrightarrow> k \<noteq> idx \<Longrightarrow> r_zscore R s k m = None \<Longrightarrow>
     r = Inr () \<and> (\<exists>s'. w = quiet s' \<and> r_zscore R s' k m = None)"
  by (auto simp: refreshActiveIndex_def redisUnixSeconds_def readActiveLoadForKey_def load_cmds_def
      cmd_prune_def cmd_zcard_def cmd_get_def bindW_def tryW_def touchActiveIndexAt_def Let_def
      split: if_splits)

lemma move_leaves_source:
  assumes "distinct [k1, k2, k4, k5]" "k3 \<notin> {k1, k2, k5}" "k3 \<noteq> k4" "0 < ttl"
    and "moveUserGroupScript R k1 k2 k3 k4 k5 ttl um gm rid s = ((1, now), s')"
  shows "r_zscore R s' k3 rid = None"
  using assms by (auto simp: moveUserGroupScript_def Let_def split: if_splits)

end

text \<open>
  C27. A request whose group dimension was moved to a fallback group and that
  then finishes is gone from its user, from the group it left and from the
  group it moved to, and its release closure does nothing the second time.
\<close>

theorem fallback_transfer_released:
  assumes "redis_store R" and "0 < slotTTLSeconds c" and "0 < u" and "0 < target" and "rid \<noteq> []"
    and "fb = bindFallbackConcurrency u g um rid orig"
    and "concurrencyAdmission R c target limit fb (quiet s) = (Inr (Inr (), fb1), quiet s1)"
    and "fallback_release R c fb1 p (quiet s1) = (Inr (fb2, p2), quiet s2)"
  shows "r_zscore R s2 (userSlotKey u) rid = None \<and>
     r_zscore R s2 (userGroupSlotKey u g) rid = None \<and>
     r_zscore R s2 (userGroupSlotKey u target) rid = None \<and>
     fallback_release R c fb2 p2 (quiet s2) = (Inr (fb2, p2), quiet s2)"
proof -
  obtain r now s0 where M: "moveUserGroupScript R (userSlotKey u) (liveUserSlotKey u)
      (userGroupSlotKey u g) (userGroupSlotKey u target) (liveUserGroupSlotKey u target)
      (slotTTLSeconds c) um limit rid s = ((r, now), s0)"
    by (metis surj_pair)
  have mv: "MoveUserGroupSlot R c u g target um limit rid (quiet s) =
      (Inr (r = 1), quiet (if r = 1 \<and> 0 < now + slotTTLSeconds c
         then r_zadd R s0 userActiveIndexKey (now + slotTTLSeconds c) (format_int u) else s0))"
    using assms(3-5) M
    by (auto simp: MoveUserGroupSlot_def bindW_def touchActiveIndexAt_def tryW_def)
  with assms(6,7) have r: "r = 1"
    and fb1: "fb1 = fb\<lparr>fb_group := target, fb_moved := True\<rparr>"
    and s1: "\<And>k. k \<noteq> userActiveIndexKey \<Longrightarrow> r_zscore R s1 k rid = r_zscore R s0 k rid"
    using redis_store.zscore_zadd [OF assms(1)]
    by (auto simp: concurrencyAdmission_def bindFallbackConcurrency_def bindW_def catchW_def split: if_splits)
  let ?z = "r_zrem R (r_zrem R s1 (userSlotKey u) rid) (userGroupSlotKey u target) rid"
  have src: "r_zscore R ?z (userGroupSlotKey u g) rid = None"
  proof (cases "g = target")
    case False
    have "r_zscore R s0 (userGroupSlotKey u g) rid = None"
      by (rule redis_store.move_leaves_source [OF assms(1) _ _ _ assms(2) M [unfolded r]])
        (use False in \<open>auto simp: key_simps\<close>)
    then show ?thesis using s1 [of "userGroupSlotKey u g"]
      by (simp add: redis_store.zscore_zrem [OF assms(1)] key_simps)
  qed (simp add: redis_store.zscore_zrem [OF assms(1)])
  obtain rr w where RF: "refreshActiveIndex R c userActiveIndexKey u (userSlotKey u) (waitQueueKey u) (quiet ?z) = (rr, w)"
    by fastforce
  have rel: "ReleaseUserGroupSlot R c u target rid (quiet s1) = (rr, w)"
    using assms(3-5) RF by (simp add: ReleaseUserGroupSlot_def bindW_def refreshUserActiveIndex_def Let_def)
  have none: "r_zscore R ?z k rid = None \<Longrightarrow> k \<noteq> userActiveIndexKey \<Longrightarrow> r_zscore R s2 k rid = None" for k
  proof -
    assume k: "r_zscore R ?z k rid = None" "k \<noteq> userActiveIndexKey"
    from redis_store.refresh_index_keeps_none [OF assms(1) RF k(2,1)]
    obtain s' where "w = quiet s'" "r_zscore R s' k rid = None" by blast
    moreover have "w = quiet s2"
      using assms(6,8) fb1 rel
      by (auto simp: fallback_release_def bindFallbackConcurrency_def bindW_def tryW_def Let_def)
    ultimately show ?thesis by simp
  qed
  have "fb_released fb2 \<and> p2 = p" using assms(6,8) fb1 rel
    by (auto simp: fallback_release_def bindFallbackConcurrency_def bindW_def tryW_def Let_def)
  then show ?thesis using none src
    by (simp add: fallback_release_def redis_store.zscore_zrem [OF assms(1)] key_simps)
qed

theorem fallback_transfer_released_witness:
  "\<exists>fb1 s1 fb2 p2 s2.
     concurrencyAdmission ref_redis cache0 5 2 (bindFallbackConcurrency 3 4 9 ''r'' RelNothing) (quiet db0)
       = (Inr (Inr (), fb1), quiet s1) \<and>
     fallback_release ref_redis cache0 fb1 \<lparr>rid_prefix = ''r1'', rid_counter = 0, once_done = []\<rparr> (quiet s1) = (Inr (fb2, p2), quiet s2) \<and>
     r_zscore ref_redis s2 (userGroupSlotKey 3 5) ''r'' = None"
proof -
  let ?p = "\<lparr>rid_prefix = ''r1'', rid_counter = 0, once_done = []\<rparr>"
  obtain fb1 s1 where 1: "concurrencyAdmission ref_redis cache0 5 2 (bindFallbackConcurrency 3 4 9 ''r'' RelNothing)
      (quiet db0) = (Inr (Inr (), fb1), quiet s1)" "\<not> fb_released fb1" "fb_moved fb1" "fb_user fb1 = 3"
      "fb_group fb1 = 5" "fb_rid fb1 = ''r''"
    by (simp add: concurrencyAdmission_def bindFallbackConcurrency_def MoveUserGroupSlot_def
        moveUserGroupScript_def catchW_def ref_eval)
  have cfg: "configured_cache ref_redis cache0"
    using ref.redis_store_axioms by (simp add: configured_cache_def configured_cache_axioms_def)
  let ?z = "r_zrem ref_redis (r_zrem ref_redis s1 (userSlotKey 3) ''r'') (userGroupSlotKey 3 5) ''r''"
  from configured_cache.refresh_index_quiet [OF cfg, of userActiveIndexKey 3 "userSlotKey 3" "waitQueueKey 3" ?z]
  obtain s2 where "refreshUserActiveIndex ref_redis cache0 3 (quiet ?z) = (Inr (), quiet s2)"
    by (auto simp: refreshUserActiveIndex_def simp del: ref_ops)
  then have 2: "fallback_release ref_redis cache0 fb1 ?p (quiet s1) = (Inr (fb1\<lparr>fb_released := True\<rparr>, ?p), quiet s2)"
    using 1(2-) by (simp add: fallback_release_def ReleaseUserGroupSlot_def bindW_def tryW_def Let_def del: ref_ops)
  from fallback_transfer_released [OF ref.redis_store_axioms _ _ _ _ refl 1(1) 2] 1(1) 2
  show ?thesis by (auto simp del: ref_ops)
qed

text \<open>
  When the reply of the transfer is lost, the closure still believes the slot
  is in the source group: the release that follows leaves the request in the
  target group until its lease lapses.
\<close>

lemma lost_transfer_reply_leaks_target_slot:
  "let w = \<lparr>w_db = db0, w_net = [(\<lambda>s. s, ReplyLost)]\<rparr>;
       fb = bindFallbackConcurrency 3 4 9 ''r'' (RelUserGroup 3 4 ''r'');
       (r1, w1) = concurrencyAdmission ref_redis cache0 5 2 fb w;
       (r2, w2) = fallback_release ref_redis cache0 (case r1 of Inr (_, f) \<Rightarrow> f | Inl _ \<Rightarrow> fb) p w1
   in r_zscore ref_redis (w_db w2) (userGroupSlotKey 3 5) ''r'' = Some 1000"
  by (simp add: concurrencyAdmission_def bindFallbackConcurrency_def MoveUserGroupSlot_def
      moveUserGroupScript_def catchW_def fallback_release_def ReleaseUserGroupSlot_def
      refreshUserActiveIndex_def refreshActiveIndex_def redisUnixSeconds_def readActiveLoadForKey_def
      load_cmds_def cmd_prune_def cmd_zcard_def cmd_get_def ref_eval wait_of_def)

end
