(* ===== verification/Load_Cache.thy ===== *)
theory Load_Cache
  imports Concurrency_Service
begin

text \<open>
  The short-lived cache of account load batches in \<open>concurrency_service.go\<close>:
  \<open>getAccountsLoadBatch\<close> and its helpers.  The cache map is a list of entries in
  the (arbitrary) order a Go range would visit; evicting "some entry" is
  dropping the head.  \<open>singleflight\<close> runs its function for the caller that wins;
  SHA-256 is a parameter of the key.
\<close>

type_synonym load_map = "id \<Rightarrow> load_info option"

record load_cache =
  lc_ttl :: int
  lc_entries :: "(string \<times> load_map \<times> int) list"

definition maxAccountLoadBatchCacheEntries :: nat where
  "maxAccountLoadBatchCacheEntries = 256"

definition SetAccountLoadBatchCacheTTL :: "int \<Rightarrow> load_cache \<Rightarrow> load_cache" where
  "SetAccountLoadBatchCacheTTL ttl st =
     (let st = st\<lparr>lc_ttl := ttl\<rparr> in if ttl \<le> 0 then st\<lparr>lc_entries := []\<rparr> else st)"

definition getCachedAccountLoadBatch :: "string \<Rightarrow> int \<Rightarrow> load_cache \<Rightarrow> load_map option \<times> load_cache" where
  "getCachedAccountLoadBatch key now st =
     (case map_of (lc_entries st) key of
        None \<Rightarrow> (None, st)
      | Some (m, expiresAt) \<Rightarrow>
          if \<not> now < expiresAt then (None, st\<lparr>lc_entries := AList.delete key (lc_entries st)\<rparr>)
          else (Some m, st))"

function evict_any :: "nat \<Rightarrow> 'a list \<Rightarrow> 'a list" where
  "evict_any mx xs = (if xs \<noteq> [] \<and> length xs \<ge> mx then evict_any mx (tl xs) else xs)"
  by pat_completeness auto
termination by (relation "measure (\<lambda>(_, xs). length xs)") auto

declare evict_any.simps [simp del]

definition storeCachedAccountLoadBatch :: "string \<Rightarrow> load_map \<Rightarrow> int \<Rightarrow> int \<Rightarrow> load_cache \<Rightarrow> load_cache" where
  "storeCachedAccountLoadBatch key m expiresAt now st =
     (let es = lc_entries st;
          es = (if length es \<ge> maxAccountLoadBatchCacheEntries
                then evict_any maxAccountLoadBatchCacheEntries (filter (\<lambda>(_, _, e). now < e) es)
                else es)
      in st\<lparr>lc_entries := AList.update key (m, expiresAt) es\<rparr>)"

text \<open>The cache key: sixteen little-endian bytes per account, hashed, after the count.\<close>

definition le64 :: "64 word \<Rightarrow> 8 word list" where
  "le64 w = map (\<lambda>i. ucast (drop_bit (8 * i) w)) [0..<8]"

definition accountLoadBatchCacheKey :: "(8 word list \<Rightarrow> string) \<Rightarrow> (id \<times> int) list \<Rightarrow> string" where
  "accountLoadBatchCacheKey sha256hex accounts =
     format_int (int (length accounts)) @ '':'' @
     sha256hex (concat (map (\<lambda>(i, mx). le64 (word_of_int i) @ le64 (word_of_int mx)) accounts))"

text \<open>
  \<open>t1\<close> and \<open>t2\<close> are the clock at the two look-ups; an error reply leaves the cache
  as it is.
\<close>

definition getAccountsLoadBatch ::
    "'s redis \<Rightarrow> concurrencyCache \<Rightarrow> (8 word list \<Rightarrow> string) \<Rightarrow> (id \<times> int) list \<Rightarrow> bool \<Rightarrow> int \<Rightarrow> int \<Rightarrow>
     load_cache \<Rightarrow> ('s, (err + load_map) \<times> load_cache) prog" where
  "getAccountsLoadBatch R c sha256hex accounts allowCache t1 t2 st =
     (if accounts = [] then returnW (Inr (\<lambda>_. None), st)
      else if \<not> allowCache \<or> lc_ttl st \<le> 0 then
        bindW (catchW (GetAccountsLoadBatch R c accounts)) (\<lambda>r. returnW (r, st))
      else
        (let key = accountLoadBatchCacheKey sha256hex accounts
         in case getCachedAccountLoadBatch key t1 st of
              (Some m, st) \<Rightarrow> returnW (Inr m, st)
            | (None, st) \<Rightarrow>
                (case getCachedAccountLoadBatch key t2 st of
                   (Some m, st) \<Rightarrow> returnW (Inr m, st)
                 | (None, st) \<Rightarrow>
                     bindW (catchW (GetAccountsLoadBatch R c accounts)) (\<lambda>r. case r of
                       Inl e \<Rightarrow> returnW (Inl e, st)
                     | Inr m \<Rightarrow> returnW (Inr m, storeCachedAccountLoadBatch key m (t2 + lc_ttl st) t2 st)))))"

section \<open>Properties\<close>

definition cache_ok :: "load_cache \<Rightarrow> bool" where
  "cache_ok st \<longleftrightarrow> distinct (map fst (lc_entries st)) \<and> length (lc_entries st) \<le> maxAccountLoadBatchCacheEntries"

lemma evict_any_suffix: "\<exists>ys. xs = ys @ evict_any mx xs"
proof (induction mx xs rule: evict_any.induct)
  case (1 mx xs)
  show ?case
  proof (cases "xs \<noteq> [] \<and> length xs \<ge> mx")
    case True
    then obtain ys where "tl xs = ys @ evict_any mx (tl xs)" using 1 by blast
    moreover have "evict_any mx xs = evict_any mx (tl xs)"
      using True by (subst evict_any.simps) simp
    moreover have "xs = hd xs # tl xs" using True by simp
    ultimately have "xs = (hd xs # ys) @ evict_any mx xs" by (metis append_Cons)
    then show ?thesis by blast
  next
    case False
    then have "evict_any mx xs = xs" by (subst evict_any.simps) auto
    then show ?thesis by simp
  qed
qed

lemma evict_any_length: "0 < mx \<Longrightarrow> length (evict_any mx xs) < mx"
  by (induction mx xs rule: evict_any.induct) (subst evict_any.simps, auto)

lemma update_length: "length (AList.update k v xs) \<le> length xs + 1"
  by (induction xs) auto

lemma store_ok:
  assumes "cache_ok st"
  shows "cache_ok (storeCachedAccountLoadBatch key m e now st)"
    and "map_of (lc_entries (storeCachedAccountLoadBatch key m e now st)) key = Some (m, e)"
proof -
  let ?es = "if length (lc_entries st) \<ge> maxAccountLoadBatchCacheEntries
    then evict_any maxAccountLoadBatchCacheEntries (filter (\<lambda>(_, _, e). now < e) (lc_entries st))
    else lc_entries st"
  have "length ?es < maxAccountLoadBatchCacheEntries"
    using evict_any_length [of maxAccountLoadBatchCacheEntries]
    by (auto simp: maxAccountLoadBatchCacheEntries_def)
  moreover have "distinct (map fst ?es)"
  proof -
    obtain ys where "filter (\<lambda>(_, _, e). now < e) (lc_entries st) =
        ys @ evict_any maxAccountLoadBatchCacheEntries (filter (\<lambda>(_, _, e). now < e) (lc_entries st))"
      using evict_any_suffix by blast
    moreover have "distinct (map fst (filter (\<lambda>(_, _, e). now < e) (lc_entries st)))"
      using assms by (simp add: cache_ok_def distinct_map_filter)
    ultimately have "distinct (map fst (evict_any maxAccountLoadBatchCacheEntries
        (filter (\<lambda>(_, _, e). now < e) (lc_entries st))))"
      by (metis distinct_append map_append)
    then show ?thesis using assms by (simp add: cache_ok_def)
  qed
  ultimately show "cache_ok (storeCachedAccountLoadBatch key m e now st)"
    using update_length [of key "(m, e)" ?es]
    by (simp add: cache_ok_def storeCachedAccountLoadBatch_def Let_def distinct_update)
  show "map_of (lc_entries (storeCachedAccountLoadBatch key m e now st)) key = Some (m, e)"
    by (simp add: storeCachedAccountLoadBatch_def Let_def update_conv')
qed

lemma get_ok: "cache_ok st \<Longrightarrow> cache_ok (snd (getCachedAccountLoadBatch key now st))"
  using length_delete_le [of key "lc_entries st"]
  by (auto simp: cache_ok_def getCachedAccountLoadBatch_def distinct_delete split: option.split)

lemma get_cached:
  "getCachedAccountLoadBatch key now st = (Some m, st') \<Longrightarrow>
     st' = st \<and> (\<exists>e. map_of (lc_entries st) key = Some (m, e) \<and> now < e)"
  by (auto simp: getCachedAccountLoadBatch_def split: option.splits if_splits)

lemma delete_subset: "set (AList.delete k xs) \<subseteq> set xs"
  by (simp add: AList.delete_eq)

lemma get_missed:
  "getCachedAccountLoadBatch key now st = (None, st') \<Longrightarrow>
     lc_ttl st' = lc_ttl st \<and> set (lc_entries st') \<subseteq> set (lc_entries st) \<and>
     map_of (lc_entries st') key = None"
proof -
  assume "getCachedAccountLoadBatch key now st = (None, st')"
  then consider "st' = st" "map_of (lc_entries st) key = None"
    | "st' = st\<lparr>lc_entries := AList.delete key (lc_entries st)\<rparr>"
    by (auto simp: getCachedAccountLoadBatch_def split: option.splits if_splits)
  then show ?thesis
    by cases (simp_all add: delete_conv' delete_subset)
qed

lemma get_hit:
  "map_of (lc_entries st) key = Some (m, e) \<Longrightarrow> now < e \<Longrightarrow>
     getCachedAccountLoadBatch key now st = (Some m, st)"
  by (simp add: getCachedAccountLoadBatch_def)

text \<open>
  The load cache never holds more than 256 batches. A batch it answers
  with is in the cache, either from before or fetched now with a lifetime of
  the configured TTL, and every later call within that lifetime gets the same
  batch without a round trip to Redis; an error is never cached.
\<close>

theorem load_cache_serves_fresh:
  assumes "cache_ok st" and "0 < lc_ttl st" and "accounts \<noteq> []"
    and "getAccountsLoadBatch R c sha accounts True t1 t2 st w = (Inr (r, st'), w')"
  shows "cache_ok st' \<and>
     (case r of
        Inl e \<Rightarrow> set (lc_entries st') \<subseteq> set (lc_entries st)
      | Inr m \<Rightarrow> \<exists>e. map_of (lc_entries st') (accountLoadBatchCacheKey sha accounts) = Some (m, e) \<and>
          (map_of (lc_entries st) (accountLoadBatchCacheKey sha accounts) = Some (m, e) \<or> e = t2 + lc_ttl st) \<and>
          (\<forall>t t'. t < e \<longrightarrow> getAccountsLoadBatch R c sha accounts True t t' st' w' = (Inr (Inr m, st'), w')))"
proof -
  let ?key = "accountLoadBatchCacheKey sha accounts"
  obtain g1 st1 where 1: "getCachedAccountLoadBatch ?key t1 st = (g1, st1)" by fastforce
  obtain g2 st2 where 2: "getCachedAccountLoadBatch ?key t2 st1 = (g2, st2)" by fastforce
  have ok: "cache_ok st1" "cache_ok st2" using get_ok assms(1) 1 2 by (metis snd_conv)+
  have again: "\<forall>t t'. t < e \<longrightarrow> getAccountsLoadBatch R c sha accounts True t t' s w' = (Inr (Inr m, s), w')"
    if "map_of (lc_entries s) ?key = Some (m, e)" "0 < lc_ttl s" for m e s
    using that assms(3) by (simp add: getAccountsLoadBatch_def get_hit Let_def)
  show ?thesis
  proof (cases g1)
    case (Some m)
    then obtain e where e: "st1 = st" "map_of (lc_entries st) ?key = Some (m, e)"
      using get_cached 1 by blast
    then have "r = Inr m" "st' = st" using assms(2-4) 1 Some
      by (auto simp: getAccountsLoadBatch_def Let_def)
    then show ?thesis using e again [OF e(2) assms(2)] assms(1) by auto
  next
    case None
    from get_missed [OF 1 [unfolded None]] have m1: "lc_ttl st1 = lc_ttl st"
      "set (lc_entries st1) \<subseteq> set (lc_entries st)" "map_of (lc_entries st1) ?key = None" by auto
    then have "g2 = None" "st2 = st1" using 2 by (auto simp: getCachedAccountLoadBatch_def)
    obtain q w1 where q: "GetAccountsLoadBatch R c accounts w = (q, w1)" by fastforce
    show ?thesis
    proof (cases q)
      case (Inl e)
      then have "r = Inl e" "st' = st1" using assms(2-4) 1 2 None \<open>g2 = None\<close> \<open>st2 = st1\<close> q
        by (auto simp: getAccountsLoadBatch_def Let_def bindW_def catchW_def)
      then show ?thesis using ok m1 by simp
    next
      case (Inr m)
      then have r: "r = Inr m" "st' = storeCachedAccountLoadBatch ?key m (t2 + lc_ttl st) t2 st1" "w' = w1"
        using assms(2-4) 1 2 None \<open>g2 = None\<close> \<open>st2 = st1\<close> q m1(1)
        by (auto simp: getAccountsLoadBatch_def Let_def bindW_def catchW_def)
      have "lc_ttl st' = lc_ttl st" using r(2) m1(1) by (simp add: storeCachedAccountLoadBatch_def Let_def)
      with store_ok [OF ok(1), of ?key m "t2 + lc_ttl st" t2] r again [of st' m "t2 + lc_ttl st"] assms(2)
      show ?thesis by auto
    qed
  qed
qed

lemma load_batch_returns: "\<exists>r st' w'. getAccountsLoadBatch R c sha accounts b t1 t2 st w = (Inr (r, st'), w')"
proof -
  obtain q w1 where "GetAccountsLoadBatch R c accounts w = (q, w1)" by fastforce
  then show ?thesis
    by (cases q) (auto simp: getAccountsLoadBatch_def Let_def bindW_def catchW_def split: prod.split option.split)
qed

theorem load_cache_serves_fresh_witness:
  "\<exists>r st' w'. getAccountsLoadBatch ref_redis \<lparr>slotTTLSeconds = 900, waitQueueTTLSeconds = 60, apiKeySlotTTLSeconds = 0\<rparr>
      (\<lambda>_. ''h'') [(7, 3)] True 5 5 \<lparr>lc_ttl = 200, lc_entries = []\<rparr> (quiet (empty_db 1000)) = (Inr (r, st'), w') \<and>
     cache_ok st'"
proof -
  obtain r st' w' where run: "getAccountsLoadBatch ref_redis
      \<lparr>slotTTLSeconds = 900, waitQueueTTLSeconds = 60, apiKeySlotTTLSeconds = 0\<rparr>
      (\<lambda>_. ''h'') [(7, 3)] True 5 5 \<lparr>lc_ttl = 200, lc_entries = []\<rparr> (quiet (empty_db 1000)) = (Inr (r, st'), w')"
    using load_batch_returns by blast
  from load_cache_serves_fresh [OF _ _ _ run] run show ?thesis
    by (auto simp: cache_ok_def maxAccountLoadBatchCacheEntries_def)
qed

end
