(* ===== verification/Counters.thy ===== *)
theory Counters
  imports Redis_Net
begin

text \<open>
  The Redis counters of the gateway: fixed-window failure counters
  (\<open>timeout_counter_cache.go\<close>, \<open>internal500_counter_cache.go\<close>,
  \<open>openai_403_counter_cache.go\<close>), per-minute request counters (\<open>rpm_cache.go\<close>,
  \<open>user_rpm_cache.go\<close>), download permits (\<open>batch_image_download_limiter.go\<close>), and
  the temporary-unschedulable state with its sliding failure window
  (\<open>temp_unsched_cache.go\<close>).
\<close>

text \<open>\<open>INCR\<close> and \<open>DECR\<close>: \<open>None\<close> is the error reply for a value that is no integer.\<close>

definition incr_cmd :: "'s redis \<Rightarrow> key \<Rightarrow> int \<Rightarrow> 's \<Rightarrow> int option \<times> 's" where
  "incr_cmd R key d s =
     (case r_get R s key of
        None \<Rightarrow> (Some d, r_incrby R s key d)
      | Some v \<Rightarrow> (case parse_int v of None \<Rightarrow> (None, s) | Some n \<Rightarrow> (Some (n + d), r_incrby R s key d)))"

definition check_reply :: "('s, 'a option) prog \<Rightarrow> ('s, 'a) prog" where
  "check_reply q = bindW q (\<lambda>r. case r of None \<Rightarrow> failW ErrRedis | Some a \<Rightarrow> returnW a)"

text \<open>\<open>rdb.Get(...).Int64()\<close> with \<open>redis.Nil\<close> read as 0.\<close>

definition get_int :: "'s redis \<Rightarrow> key \<Rightarrow> ('s, int) prog" where
  "get_int R key =
     bindW (query (\<lambda>s. r_get R s key))
       (\<lambda>v. case v of None \<Rightarrow> returnW 0
          | Some t \<Rightarrow> (case parse_int t of None \<Rightarrow> failW ErrRedis | Some n \<Rightarrow> returnW n))"

section \<open>Fixed-window counters\<close>

definition timeoutCounterPrefix :: key where
  "timeoutCounterPrefix = ''timeout_count:account:''"

definition internal500CounterPrefix :: key where
  "internal500CounterPrefix = ''internal500_count:account:''"

definition openAI403CounterPrefix :: key where
  "openAI403CounterPrefix = ''openai_403_count:account:''"

definition internal500CounterTTLSeconds :: int where
  "internal500CounterTTLSeconds = 86400"

definition timeoutCounterIncrScript :: "'s redis \<Rightarrow> key \<Rightarrow> int \<Rightarrow> 's \<Rightarrow> int option \<times> 's" where
  "timeoutCounterIncrScript R key ttl s =
     (case incr_cmd R key 1 s of
        (None, s) \<Rightarrow> (None, s)
      | (Some count, s) \<Rightarrow> (Some count, if count = 1 then r_expire R s key ttl else s))"

definition internal500CounterIncrScript :: "'s redis \<Rightarrow> key \<Rightarrow> int \<Rightarrow> 's \<Rightarrow> int option \<times> 's" where
  "internal500CounterIncrScript R key ttl s =
     (case incr_cmd R key 1 s of
        (None, s) \<Rightarrow> (None, s)
      | (Some count, s) \<Rightarrow> (Some count, if count = 1 then r_expire R s key ttl else s))"

definition openAI403CounterIncrScript :: "'s redis \<Rightarrow> key \<Rightarrow> int \<Rightarrow> 's \<Rightarrow> int option \<times> 's" where
  "openAI403CounterIncrScript R key ttl s =
     (case incr_cmd R key 1 s of
        (None, s) \<Rightarrow> (None, s)
      | (Some count, s) \<Rightarrow> (Some count, if count = 1 then r_expire R s key ttl else s))"

definition IncrementTimeoutCount :: "'s redis \<Rightarrow> id \<Rightarrow> int \<Rightarrow> ('s, int) prog" where
  "IncrementTimeoutCount R accountID windowMinutes =
     (let key = timeoutCounterPrefix @ format_int accountID;
          ttlSeconds = windowMinutes * 60;
          ttlSeconds = (if ttlSeconds < 60 then 60 else ttlSeconds)
      in check_reply (round_trip (timeoutCounterIncrScript R key ttlSeconds)))"

definition GetTimeoutCount :: "'s redis \<Rightarrow> id \<Rightarrow> ('s, int) prog" where
  "GetTimeoutCount R accountID = get_int R (timeoutCounterPrefix @ format_int accountID)"

definition ResetTimeoutCount :: "'s redis \<Rightarrow> id \<Rightarrow> ('s, unit) prog" where
  "ResetTimeoutCount R accountID = update (\<lambda>s. r_del R s (timeoutCounterPrefix @ format_int accountID))"

definition IncrementInternal500Count :: "'s redis \<Rightarrow> id \<Rightarrow> ('s, int) prog" where
  "IncrementInternal500Count R accountID =
     check_reply (round_trip (internal500CounterIncrScript R (internal500CounterPrefix @ format_int accountID)
       internal500CounterTTLSeconds))"

definition ResetInternal500Count :: "'s redis \<Rightarrow> id \<Rightarrow> ('s, unit) prog" where
  "ResetInternal500Count R accountID = update (\<lambda>s. r_del R s (internal500CounterPrefix @ format_int accountID))"

definition IncrementOpenAI403Count :: "'s redis \<Rightarrow> id \<Rightarrow> int \<Rightarrow> ('s, int) prog" where
  "IncrementOpenAI403Count R accountID windowMinutes =
     (let key = openAI403CounterPrefix @ format_int accountID;
          ttlSeconds = windowMinutes * 60;
          ttlSeconds = (if ttlSeconds < 60 then 60 else ttlSeconds)
      in check_reply (round_trip (openAI403CounterIncrScript R key ttlSeconds)))"

definition ResetOpenAI403Count :: "'s redis \<Rightarrow> id \<Rightarrow> ('s, unit) prog" where
  "ResetOpenAI403Count R accountID = update (\<lambda>s. r_del R s (openAI403CounterPrefix @ format_int accountID))"

section \<open>Per-minute counters\<close>

definition rpmKeyPrefix :: key where "rpmKeyPrefix = ''rpm:''"
definition rpmKeyTTL :: int where "rpmKeyTTL = 120"
definition userGroupRPMKeyPrefix :: key where "userGroupRPMKeyPrefix = ''rpm:ug:''"
definition userRPMKeyPrefix :: key where "userRPMKeyPrefix = ''rpm:u:''"
definition userRPMKeyTTL :: int where "userRPMKeyTTL = 120"

definition colon :: "string \<Rightarrow> string \<Rightarrow> string" where
  "colon a b = a @ CHR '':'' # b"

definition rpm_key :: "id \<Rightarrow> int \<Rightarrow> key" where
  "rpm_key accountID minute = rpmKeyPrefix @ colon (format_int accountID) (format_int minute)"

definition user_rpm_key :: "id \<Rightarrow> int \<Rightarrow> key" where
  "user_rpm_key userID minute = userRPMKeyPrefix @ colon (format_int userID) (format_int minute)"

definition user_group_rpm_key :: "id \<Rightarrow> id \<Rightarrow> int \<Rightarrow> key" where
  "user_group_rpm_key userID groupID minute =
     userGroupRPMKeyPrefix @ colon (format_int userID) (colon (format_int groupID) (format_int minute))"

definition currentMinute :: "'s redis \<Rightarrow> ('s, int) prog" where
  "currentMinute R = bindW (query (time_sec R)) (\<lambda>t. returnW (t div 60))"

text \<open>\<open>MULTI; INCR key; EXPIRE key 120; EXEC\<close>: \<open>Exec\<close> fails when \<open>INCR\<close> does.\<close>

definition atomicIncr :: "'s redis \<Rightarrow> key \<Rightarrow> int \<Rightarrow> ('s, int) prog" where
  "atomicIncr R key ttl =
     check_reply (round_trip (\<lambda>s. case incr_cmd R key 1 s of (r, s) \<Rightarrow> (r, r_expire R s key ttl)))"

definition IncrementRPM :: "'s redis \<Rightarrow> id \<Rightarrow> ('s, int) prog" where
  "IncrementRPM R accountID =
     bindW (currentMinute R) (\<lambda>minute. atomicIncr R (rpm_key accountID minute) rpmKeyTTL)"

definition GetRPM :: "'s redis \<Rightarrow> id \<Rightarrow> ('s, int) prog" where
  "GetRPM R accountID = bindW (currentMinute R) (\<lambda>minute. get_int R (rpm_key accountID minute))"

text \<open>In the batch a missing or malformed counter reads 0.\<close>

definition GetRPMBatch :: "'s redis \<Rightarrow> id list \<Rightarrow> ('s, id \<Rightarrow> int option) prog" where
  "GetRPMBatch R accountIDs =
     (if accountIDs = [] then returnW (\<lambda>_. None)
      else bindW (currentMinute R) (\<lambda>minute.
        bindW (pipelineW (map (\<lambda>a s. (r_get R s (rpm_key a minute), s)) accountIDs))
          (\<lambda>vs. returnW (map_of (rev (zip accountIDs
             (map (\<lambda>v. case Option.bind v parse_int of None \<Rightarrow> 0 | Some n \<Rightarrow> n) vs)))))))"

definition IncrementUserGroupRPM :: "'s redis \<Rightarrow> id \<Rightarrow> id \<Rightarrow> ('s, int) prog" where
  "IncrementUserGroupRPM R userID groupID =
     bindW (currentMinute R) (\<lambda>minute. atomicIncr R (user_group_rpm_key userID groupID minute) userRPMKeyTTL)"

definition IncrementUserRPM :: "'s redis \<Rightarrow> id \<Rightarrow> ('s, int) prog" where
  "IncrementUserRPM R userID =
     bindW (currentMinute R) (\<lambda>minute. atomicIncr R (user_rpm_key userID minute) userRPMKeyTTL)"

definition GetUserGroupRPM :: "'s redis \<Rightarrow> id \<Rightarrow> id \<Rightarrow> ('s, int) prog" where
  "GetUserGroupRPM R userID groupID =
     bindW (currentMinute R) (\<lambda>minute. get_int R (user_group_rpm_key userID groupID minute))"

definition GetUserRPM :: "'s redis \<Rightarrow> id \<Rightarrow> ('s, int) prog" where
  "GetUserRPM R userID = bindW (currentMinute R) (\<lambda>minute. get_int R (user_rpm_key userID minute))"

section \<open>Download permits\<close>

text \<open>\<open>tonumber(GET or "0")\<close>; comparing nil aborts the script.\<close>

definition number_or_zero :: "string option \<Rightarrow> int option" where
  "number_or_zero v = (case v of None \<Rightarrow> Some 0 | Some t \<Rightarrow> parse_int t)"

definition batchImageDownloadAcquireScript :: "'s redis \<Rightarrow> key \<Rightarrow> int \<Rightarrow> int \<Rightarrow> 's \<Rightarrow> int option \<times> 's" where
  "batchImageDownloadAcquireScript R key mx ttl s =
     (case number_or_zero (r_get R s key) of
        None \<Rightarrow> (None, s)
      | Some current \<Rightarrow>
          if current \<ge> mx then (Some 0, s)
          else (let s = r_incrby R s key 1; s = r_expire R s key ttl in (Some 1, s)))"

definition batchImageDownloadReleaseScript :: "'s redis \<Rightarrow> key \<Rightarrow> 's \<Rightarrow> int option \<times> 's" where
  "batchImageDownloadReleaseScript R key s =
     (case number_or_zero (r_get R s key) of
        None \<Rightarrow> (None, s)
      | Some current \<Rightarrow>
          if current \<le> 1 then (Some 0, r_del R s key)
          else (Some (current - 1), r_incrby R s key (- 1)))"

record batchImageDownloadLimiter =
  bd_prefix :: string
  bd_maxActive :: int
  bd_ttlSeconds :: int

definition NewBatchImageDownloadLimiter :: "int \<Rightarrow> int \<Rightarrow> batchImageDownloadLimiter" where
  "NewBatchImageDownloadLimiter cfgConcurrency cfgDurationSeconds =
     \<lparr>bd_prefix = ''batch_image:download:active:'',
      bd_maxActive = (if cfgConcurrency > 0 then cfgConcurrency else 2),
      bd_ttlSeconds = (if cfgDurationSeconds > 0 then cfgDurationSeconds else 600)\<rparr>"

definition activeKey :: "batchImageDownloadLimiter \<Rightarrow> string \<Rightarrow> key" where
  "activeKey l userID = bd_prefix l @ userID"

text \<open>The permit is its key and its \<open>Once\<close>.\<close>

record permit =
  pm_key :: key
  pm_done :: bool

definition AcquirePermit :: "'s redis \<Rightarrow> batchImageDownloadLimiter \<Rightarrow> string \<Rightarrow> ('s, permit) prog" where
  "AcquirePermit R l userID =
     (let key = activeKey l userID
      in bindW (check_reply (round_trip (batchImageDownloadAcquireScript R key (bd_maxActive l) (bd_ttlSeconds l))))
           (\<lambda>ok. if ok \<noteq> 1 then failW ErrDenied else returnW \<lparr>pm_key = key, pm_done = False\<rparr>))"

definition ReleasePermit :: "'s redis \<Rightarrow> permit \<Rightarrow> ('s, (err + unit) \<times> permit) prog" where
  "ReleasePermit R p =
     (if pm_key p = [] \<or> pm_done p then returnW (Inr (), p)
      else bindW (catchW (check_reply (round_trip (batchImageDownloadReleaseScript R (pm_key p)))))
        (\<lambda>r. returnW ((case r of Inl e \<Rightarrow> Inl e | Inr _ \<Rightarrow> Inr ()), p\<lparr>pm_done := True\<rparr>)))"

section \<open>Temporarily unschedulable accounts\<close>

definition tempUnschedPrefix :: key where
  "tempUnschedPrefix = ''temp_unsched:account:''"

text \<open>
  \<open>until_of\<close> is \<open>cjson.decode(existing).until_unix\<close>, \<open>None\<close> when the value does not
  decode or has no such number.
\<close>

definition tempUnschedSetScript ::
    "'s redis \<Rightarrow> (string \<Rightarrow> int option) \<Rightarrow> key \<Rightarrow> int \<Rightarrow> string \<Rightarrow> int \<Rightarrow> 's \<Rightarrow> int \<times> 's" where
  "tempUnschedSetScript R until_of key new_until new_value new_ttl s =
     (case Option.bind (r_get R s key) until_of of
        Some existing_until \<Rightarrow>
          if new_until \<le> existing_until then (0, s)
          else (1, r_set R s key new_value (Some (new_ttl * 1000)))
      | None \<Rightarrow> (1, r_set R s key new_value (Some (new_ttl * 1000))))"

text \<open>\<open>now\<close> is the local clock in nanoseconds; \<open>stateJSON\<close> is \<open>json.Marshal\<close> of the state.\<close>

definition SetTempUnsched ::
    "'s redis \<Rightarrow> (string \<Rightarrow> int option) \<Rightarrow> int \<Rightarrow> id \<Rightarrow> int \<Rightarrow> string \<Rightarrow> ('s, unit) prog" where
  "SetTempUnsched R until_of now accountID untilUnix stateJSON =
     (let key = tempUnschedPrefix @ format_int accountID;
          ttl = untilUnix * 1000000000 - now
      in if ttl \<le> 0 then returnW ()
         else (let ttlSeconds = ttl div 1000000000;
                   ttlSeconds = (if ttlSeconds < 1 then 1 else ttlSeconds)
               in bindW (round_trip (tempUnschedSetScript R until_of key untilUnix stateJSON ttlSeconds))
                    (\<lambda>_. returnW ())))"

definition GetTempUnsched :: "'s redis \<Rightarrow> (string \<Rightarrow> 'st option) \<Rightarrow> id \<Rightarrow> ('s, 'st option) prog" where
  "GetTempUnsched R decode accountID =
     bindW (query (\<lambda>s. r_get R s (tempUnschedPrefix @ format_int accountID)))
       (\<lambda>v. case v of None \<Rightarrow> returnW None
          | Some t \<Rightarrow> (case decode t of None \<Rightarrow> failW (ErrInvalid ''unmarshal state'') | Some st \<Rightarrow> returnW (Some st)))"

definition DeleteTempUnsched :: "'s redis \<Rightarrow> id \<Rightarrow> ('s, unit) prog" where
  "DeleteTempUnsched R accountID = update (\<lambda>s. r_del R s (tempUnschedPrefix @ format_int accountID))"

definition openAIAPIKeyHealthKey :: "id \<Rightarrow> key" where
  "openAIAPIKeyHealthKey accountID = ''openai_apikey_health:{'' @ format_int accountID @ ''}:failures''"

definition openAIAPIKeyHealthFailureScript ::
    "'s redis \<Rightarrow> key \<Rightarrow> int \<Rightarrow> int \<Rightarrow> 's \<Rightarrow> (int \<times> int) option \<times> 's" where
  "openAIAPIKeyHealthFailureScript R key windowMinutes threshold s =
     (let sequence_key = key @ '':sequence'';
          now_ms = time_ms R s;
          window_ms = windowMinutes * 60 * 1000
      in case incr_cmd R sequence_key 1 s of
           (None, s) \<Rightarrow> (None, s)
         | (Some sequence, s) \<Rightarrow>
             (let s = r_zremrangebyscore R s key (now_ms - window_ms);
                  s = r_zadd R s key now_ms (colon (format_int now_ms) (format_int sequence));
                  count = r_zcard R s key;
                  ttl = max 60 ((windowMinutes + 1) * 60);
                  s = r_expire R s key ttl;
                  s = r_expire R s sequence_key ttl
              in if count \<ge> threshold
                 then (Some (count, 1), r_del R (r_del R s key) sequence_key)
                 else (Some (count, 0), s)))"

definition RecordOpenAIAPIKeyHealthFailure :: "'s redis \<Rightarrow> id \<Rightarrow> int \<Rightarrow> int \<Rightarrow> ('s, int \<times> bool) prog" where
  "RecordOpenAIAPIKeyHealthFailure R accountID windowMinutes threshold =
     (let windowMinutes = (if windowMinutes < 1 then 1 else windowMinutes);
          threshold = (if threshold < 1 then 1 else threshold)
      in bindW (check_reply (round_trip (openAIAPIKeyHealthFailureScript R (openAIAPIKeyHealthKey accountID)
             windowMinutes threshold)))
           (\<lambda>(count, tripped). returnW (count, tripped = 1)))"

end
