(* ===== verification/Counter_Properties.thy ===== *)
theory Counter_Properties
  imports Counters Slot_Properties
begin

text \<open>
  The counters count: within a window every failure once, per minute and
  account separately, never more permits than the limit, never a shorter
  suspension, and exactly the failures of the sliding window.
\<close>

section \<open>Fixed windows\<close>

text \<open>Increments separated by the delays \<open>ds\<close> (microseconds).\<close>

fun window_run :: "'s redis \<Rightarrow> key \<Rightarrow> int \<Rightarrow> int list \<Rightarrow> 's \<Rightarrow> int option list \<times> 's" where
  "window_run R key ttl [] s = ([], s)"
| "window_run R key ttl (d # ds) s =
     (let (r, s1) = timeoutCounterIncrScript R key ttl (r_pass R s d);
          (rs, s2) = window_run R key ttl ds s1
      in (r # rs, s2))"

context redis_store
begin

lemma incr_cmd_counter:
  "counter_is R k s n \<Longrightarrow> in_int64 (n + d) \<Longrightarrow>
     fst (incr_cmd R k d s) = Some (n + d) \<and> counter_is R k (snd (incr_cmd R k d s)) (n + d) \<and>
     (\<forall>k'. r_deadline R (snd (incr_cmd R k d s)) k' = r_deadline R s k') \<and>
     r_us R (snd (incr_cmd R k d s)) = r_us R s \<and>
     (\<forall>k' x. k' \<noteq> k \<longrightarrow> counter_is R k' (snd (incr_cmd R k d s)) x = counter_is R k' s x) \<and>
     (\<forall>k' m. r_zscore R (snd (incr_cmd R k d s)) k' m = r_zscore R s k' m)"
  using counter_incr [of k s n d]
  by (auto simp: incr_cmd_def counter_frame parse_int_format_int deadline_incrby counter_is_def [of R k s]
      split: option.split)

lemma counter_exists: "counter_is R k s n \<Longrightarrow> n \<noteq> 0 \<Longrightarrow> r_exists R s k"
  by (auto simp: counter_is_def r_exists_def)

text \<open>One increment inside an open window.\<close>

lemma window_step:
  assumes "counter_is R k s n" "in_int64 (n + 1)" "0 \<le> n" "0 < ttl"
  shows "fst (timeoutCounterIncrScript R k ttl s) = Some (n + 1)"
    and "counter_is R k (snd (timeoutCounterIncrScript R k ttl s)) (n + 1)"
    and "r_us R (snd (timeoutCounterIncrScript R k ttl s)) = r_us R s"
    and "r_deadline R (snd (timeoutCounterIncrScript R k ttl s)) k =
           (if n = 0 then Some (r_us R s div 1000 + ttl * 1000) else r_deadline R s k)"
proof -
  let ?c = "incr_cmd R k 1 s"
  note C = incr_cmd_counter [OF assms(1,2)]
  have eq: "timeoutCounterIncrScript R k ttl s =
      (Some (n + 1), if n = 0 then r_expire R (snd ?c) k ttl else snd ?c)"
    using C by (auto simp: timeoutCounterIncrScript_def case_prod_beta split: option.split)
  show "fst (timeoutCounterIncrScript R k ttl s) = Some (n + 1)" by (simp add: eq)
  show "counter_is R k (snd (timeoutCounterIncrScript R k ttl s)) (n + 1)"
    using C assms(4) by (auto simp: eq counter_expire)
  show "r_us R (snd (timeoutCounterIncrScript R k ttl s)) = r_us R s" using C by (simp add: eq)
  have "r_exists R (snd ?c) k" using C assms(3) by (intro counter_exists [of k _ "n + 1"]) auto
  then show "r_deadline R (snd (timeoutCounterIncrScript R k ttl s)) k =
      (if n = 0 then Some (r_us R s div 1000 + ttl * 1000) else r_deadline R s k)"
    using C assms(4) by (auto simp: eq r_expire_def deadline_pexpire)
qed

lemma window_run_open:
  assumes "counter_is R k s n" "1 \<le> n" "0 < ttl" "r_deadline R s k = Some t"
    and "(r_us R s + sum_list ds) div 1000 < t" "\<forall>d \<in> set ds. 0 \<le> d" "in_int64 (n + int (length ds))"
  shows "fst (window_run R k ttl ds s) = map (\<lambda>i. Some (n + 1 + int i)) [0..<length ds] \<and>
     r_deadline R (snd (window_run R k ttl ds s)) k = Some t \<and>
     r_us R (snd (window_run R k ttl ds s)) = r_us R s + sum_list ds"
  using assms
proof (induction ds arbitrary: s n)
  case (Cons d ds)
  let ?s = "r_pass R s d"
  let ?r = "timeoutCounterIncrScript R k ttl ?s"
  have d: "0 \<le> d" "0 \<le> sum_list ds" using Cons.prems(6) by (auto intro: sum_list_nonneg)
  have le: "(r_us R s + d) div 1000 \<le> (r_us R s + sum_list (d # ds)) div 1000"
    using d by (intro zdiv_mono1) auto
  with Cons.prems(5) have lt: "(r_us R s + d) div 1000 < t" by linarith
  have n1: "in_int64 (n + 1)" using Cons.prems(2,7) by (auto simp: in_int64_def int64_min_def)
  have c: "counter_is R k ?s n" using Cons.prems(1,4) d lt by (intro counter_pass) auto
  have dl: "r_deadline R ?s k = Some t" using Cons.prems(4) d lt by (simp add: deadline_pass)
  have n0: "0 \<le> n" using Cons.prems(2) by simp
  note W = window_step [OF c n1 n0 Cons.prems(3)]
  have us: "r_us R (snd ?r) = r_us R s + d" using W(3) d by (simp add: us_pass)
  have "fst (window_run R k ttl ds (snd ?r)) = map (\<lambda>i. Some (n + 1 + 1 + int i)) [0..<length ds] \<and>
     r_deadline R (snd (window_run R k ttl ds (snd ?r))) k = Some t \<and>
     r_us R (snd (window_run R k ttl ds (snd ?r))) = r_us R (snd ?r) + sum_list ds"
    using Cons.prems W us dl by (intro Cons.IH) (auto simp: add_ac)
  moreover have "map (\<lambda>i. Some (n + 1 + int i)) [0..<length (d # ds)] =
      Some (n + 1) # map (\<lambda>i. Some (n + 1 + 1 + int i)) [0..<length ds]"
    by (simp add: upt_conv_Cons map_Suc_upt [symmetric] del: upt_Suc)
  ultimately show ?case using W(1) us by (simp add: case_prod_beta Let_def)
qed simp

end

text \<open>
  A failure counter with a fixed window counts every increment of the
  window once, starting from 1, however the increments are spread over it; the
  window starts at the first increment and is not extended by later ones, so
  once its length has passed the count starts from 1 again.
\<close>

theorem fixed_window_counts:
  assumes "redis_store R" and "0 < ttl" and "counter_is R k s 0" and "r_get R s k = None"
    and "ds \<noteq> []" and "\<forall>d \<in> set ds. 0 \<le> d" and "sum_list (tl ds) \<le> ttl * 1000000 - 1000"
    and "in_int64 (int (length ds))"
  shows "fst (window_run R k ttl ds s) = map (\<lambda>i. Some (1 + int i)) [0..<length ds] \<and>
     (\<forall>d. ttl * 1000000 \<le> d \<longrightarrow>
        fst (timeoutCounterIncrScript R k ttl (r_pass R (snd (window_run R k ttl ds s)) d)) = Some 1)"
proof -
  obtain d0 ds' where ds: "ds = d0 # ds'" using assms(5) by (cases ds) auto
  let ?s0 = "r_pass R s d0"
  have d0: "0 \<le> d0" and ds': "\<forall>d \<in> set ds'. 0 \<le> d" using assms(6) ds by auto
  have nodl: "r_deadline R s k = None"
    using redis_store.deadline_exists [OF assms(1), of s k] assms(3,4)
    by (cases "r_deadline R s k") (auto simp: r_exists_def counter_is_def)
  have c0: "counter_is R k ?s0 0"
    using nodl by (intro redis_store.counter_pass [OF assms(1,3) d0]) simp
  have i1: "in_int64 (0 + 1)" by (simp add: in_int64_def int64_min_def int64_max_def)
  note W = redis_store.window_step [OF assms(1) c0 i1 order_refl assms(2)]
  let ?s1 = "snd (timeoutCounterIncrScript R k ttl ?s0)"
  let ?t = "r_us R ?s0 div 1000 + ttl * 1000"
  have "(r_us R ?s1 + sum_list ds') div 1000 \<le> (r_us R ?s0 + (ttl * 1000 - 1) * 1000) div 1000"
    using assms(7) ds W(3) by (intro zdiv_mono1) auto
  then have lt: "(r_us R ?s1 + sum_list ds') div 1000 < ?t" by simp
  have "in_int64 (1 + int (length ds'))" using assms(8) ds by (simp add: add.commute)
  from redis_store.window_run_open [OF assms(1) _ order_refl assms(2) _ lt ds' this] W
  have run: "fst (window_run R k ttl ds' ?s1) = map (\<lambda>i. Some (1 + 1 + int i)) [0..<length ds']"
    "r_deadline R (snd (window_run R k ttl ds' ?s1)) k = Some ?t"
    "r_us R (snd (window_run R k ttl ds' ?s1)) = r_us R ?s1 + sum_list ds'" by simp_all
  have "map (\<lambda>i. Some (1 + int i)) [0..<length ds] = Some 1 # map (\<lambda>i. Some (1 + 1 + int i)) [0..<length ds']"
    by (simp add: ds upt_conv_Cons map_Suc_upt [symmetric] del: upt_Suc)
  then have main: "fst (window_run R k ttl ds s) = map (\<lambda>i. Some (1 + int i)) [0..<length ds]"
    using W(1) run(1) by (simp add: ds case_prod_beta Let_def)
  have "fst (timeoutCounterIncrScript R k ttl (r_pass R (snd (window_run R k ttl ds s)) d)) = Some 1"
    if d: "ttl * 1000000 \<le> d" for d
  proof -
    let ?sn = "snd (window_run R k ttl ds' ?s1)"
    have e: "snd (window_run R k ttl ds s) = ?sn" by (simp add: ds case_prod_beta Let_def)
    have dpos: "0 \<le> d" using d assms(2) by linarith
    have s0: "0 \<le> sum_list ds'" using ds' by (auto intro: sum_list_nonneg)
    have "r_us R ?s0 + ttl * 1000 * 1000 \<le> r_us R ?sn + d" using run(3) W(3) d s0 by simp
    from zdiv_mono1 [OF this, of 1000] have "?t \<le> (r_us R ?sn + d) div 1000" by simp
    then have "counter_is R k (r_pass R ?sn d) 0"
      using run(2) dpos
      by (simp add: counter_is_def redis_store.get_pass [OF assms(1)] redis_store.members_Nil [OF assms(1)]
          redis_store.zscore_pass [OF assms(1)])
    from redis_store.window_step(1) [OF assms(1) this i1 order_refl assms(2)] show ?thesis
      by (simp add: e)
  qed
  with main show ?thesis by blast
qed

theorem fixed_window_counts_witness:
  "fst (window_run ref_redis (timeoutCounterPrefix @ format_int 7) 60 [0, 5000000, 20000000] db0) =
     [Some 1, Some 2, Some 3]"
  using fixed_window_counts [OF ref.redis_store_axioms, of 60 "timeoutCounterPrefix @ format_int 7" db0
      "[0, 5000000, 20000000]"]
  by (simp add: counter_is_def db0_def empty_db_def ref_members_def in_int64_def int64_min_def int64_max_def
      upt_rec del: ref_ops(12))

end
