(* ===== verification/Rate_Properties.thy ===== *)
theory Rate_Properties
  imports Counter_Properties
begin

text \<open>
  The per-minute request counters: keys, the run of a whole history of
  requests, and the count every request is told.
\<close>

lemma rpm_key_inj [key_simps, simp]: "rpm_key a m = rpm_key b n \<longleftrightarrow> a = b \<and> m = n"
  by (simp add: rpm_key_def colon_def format_pair_inj)

lemma user_rpm_key_inj [key_simps, simp]: "user_rpm_key a m = user_rpm_key b n \<longleftrightarrow> a = b \<and> m = n"
  by (simp add: user_rpm_key_def colon_def format_pair_inj)

lemma user_group_rpm_key_inj [key_simps, simp]:
  "user_group_rpm_key u g m = user_group_rpm_key v h n \<longleftrightarrow> u = v \<and> g = h \<and> m = n"
  by (simp add: user_group_rpm_key_def colon_def split_at_colon [OF format_int_no_colon format_int_no_colon]
      format_pair_inj format_int_inj)

lemma rpm_keys_disjoint [key_simps, simp]:
  "rpm_key a m \<noteq> user_rpm_key u n" "rpm_key a m \<noteq> user_group_rpm_key u g n"
  "user_rpm_key u n \<noteq> user_group_rpm_key v g k"
proof -
  have no_u: "format_int a \<noteq> CHR ''u'' # cs" for cs by (rule format_int_hd_not) simp_all
  have head: "format_int a @ CHR '':'' # x \<noteq> CHR ''u'' # y" for x y
    using no_u by (cases "format_int a") auto
  show "rpm_key a m \<noteq> user_rpm_key u n" "rpm_key a m \<noteq> user_group_rpm_key u g n"
    using head by (auto simp: rpm_key_def user_rpm_key_def user_group_rpm_key_def colon_def rpmKeyPrefix_def
        userRPMKeyPrefix_def userGroupRPMKeyPrefix_def)
  show "user_rpm_key u n \<noteq> user_group_rpm_key v g k"
    by (simp add: user_rpm_key_def user_group_rpm_key_def userRPMKeyPrefix_def userGroupRPMKeyPrefix_def)
qed

text \<open>A history: requests of accounts, each some microseconds after the one before.\<close>

fun rpm_run :: "'s redis \<Rightarrow> (int \<times> id) list \<Rightarrow> 's \<Rightarrow> (err + int) list" where
  "rpm_run R [] s = []"
| "rpm_run R ((d, a) # es) s =
     (case IncrementRPM R a (quiet (r_pass R s d)) of (r, w) \<Rightarrow> r # rpm_run R es (w_db w))"

fun rpm_spec :: "(id \<times> int) list \<Rightarrow> int \<Rightarrow> (int \<times> id) list \<Rightarrow> (err + int) list" where
  "rpm_spec hist now [] = []"
| "rpm_spec hist now ((d, a) # es) =
     (let now = now + d; e = (a, now div 60000000)
      in Inr (int (count_list (e # hist) e)) # rpm_spec (e # hist) now es)"

definition rpm_inv :: "'s redis \<Rightarrow> (id \<times> int) list \<Rightarrow> 's \<Rightarrow> bool" where
  "rpm_inv R hist s \<longleftrightarrow>
     (\<forall>a m. r_us R s div 60000000 \<le> m \<longrightarrow>
        counter_is R (rpm_key a m) s (int (count_list hist (a, m))) \<and>
        (\<forall>t. r_deadline R s (rpm_key a m) = Some t \<longrightarrow> (m + 1) * 60000 \<le> t))"

lemma minute_of_ms: "x div 60000000 = x div 1000 div 60000" for x :: int
  by (simp add: zdiv_zmult2_eq [symmetric])

lemma minute_bounds:
  "x div 60000000 \<le> m \<Longrightarrow> x div 1000 < (m + 1) * 60000"
  "(x div 60000000 + 1) * 60000 \<le> x div 1000 + 120000" for x m :: int
proof -
  have gen: "y = 60000 * q + r \<Longrightarrow> r < 60000 \<Longrightarrow> 0 \<le> r \<Longrightarrow>
      (q \<le> m \<longrightarrow> y < (m + 1) * 60000) \<and> (q + 1) * 60000 \<le> y + 120000" for y q r :: int by auto
  have "(y div 60000 \<le> m \<longrightarrow> y < (m + 1) * 60000) \<and> (y div 60000 + 1) * 60000 \<le> y + 120000" for y :: int
    by (rule gen [of y "y div 60000" "y mod 60000"]) simp_all
  then show "x div 60000000 \<le> m \<Longrightarrow> x div 1000 < (m + 1) * 60000"
    "(x div 60000000 + 1) * 60000 \<le> x div 1000 + 120000" unfolding minute_of_ms by blast+
qed

context redis_store
begin

lemma minute_us: "time_sec R s div 60 = r_us R s div 60000000"
  by (simp add: time_sec_def zdiv_zmult2_eq [symmetric])

lemma rpm_inv_pass:
  assumes "rpm_inv R hist s" "0 \<le> d"
  shows "rpm_inv R hist (r_pass R s d)"
  unfolding rpm_inv_def
proof (intro allI impI, goal_cases)
  case (1 a m)
  let ?k = "rpm_key a m"
  from 1 have m: "(r_us R s + d) div 60000000 \<le> m" using assms(2) by (simp add: us_pass)
  have "r_us R s div 60000000 \<le> (r_us R s + d) div 60000000" using assms(2) by (intro zdiv_mono1) auto
  with m assms(1) have C: "counter_is R ?k s (int (count_list hist (a, m)))"
    and D: "\<And>t. r_deadline R s ?k = Some t \<Longrightarrow> (m + 1) * 60000 \<le> t" by (auto simp: rpm_inv_def)
  have "(r_us R s + d) div 1000 < (m + 1) * 60000"
    by (rule minute_bounds(1) [OF m])
  then have late: "\<And>t. r_deadline R s ?k = Some t \<Longrightarrow> (r_us R s + d) div 1000 < t"
    using D by fastforce
  then have "counter_is R ?k (r_pass R s d) (int (count_list hist (a, m)))"
    by (intro counter_pass [OF C assms(2)]) (auto split: option.split)
  with D assms(2) show ?case by (auto simp: deadline_pass split: option.splits if_splits)
qed

lemma atomicIncr_quiet:
  assumes "counter_is R k s n" "in_int64 (n + 1)" "0 < ttl"
  shows "atomicIncr R k ttl (quiet s) =
    (Inr (n + 1), quiet (r_expire R (snd (incr_cmd R k 1 s)) k ttl))"
  using incr_cmd_counter [OF assms(1,2)]
  by (simp add: atomicIncr_def check_reply_def case_prod_beta)

lemma IncrementRPM_quiet:
  assumes "counter_is R (rpm_key a (r_us R s div 60000000)) s n" "in_int64 (n + 1)"
  shows "IncrementRPM R a (quiet s) =
    (Inr (n + 1), quiet (r_expire R (snd (incr_cmd R (rpm_key a (r_us R s div 60000000)) 1 s))
        (rpm_key a (r_us R s div 60000000)) rpmKeyTTL))"
  using atomicIncr_quiet [OF assms] 
  by (simp add: IncrementRPM_def currentMinute_def minute_us rpmKeyTTL_def)

lemma rpm_inv_incr:
  fixes a :: id
  assumes I: "rpm_inv R hist s" and len: "in_int64 (int (length hist) + 1)"
  defines "e \<equiv> (a, r_us R s div 60000000)"
  shows "fst (IncrementRPM R a (quiet s)) = Inr (int (count_list (e # hist) e))"
    and "rpm_inv R (e # hist) (w_db (snd (IncrementRPM R a (quiet s))))"
    and "r_us R (w_db (snd (IncrementRPM R a (quiet s)))) = r_us R s"
proof -
  let ?k = "rpm_key a (r_us R s div 60000000)" and ?n = "int (count_list hist e)"
  let ?s' = "snd (incr_cmd R ?k 1 s)"
  have C: "counter_is R ?k s ?n" using I by (simp add: rpm_inv_def e_def)
  have "count_list hist e \<le> length hist" by (rule count_le_length)
  then have n: "in_int64 (?n + 1)" using len by (auto simp: in_int64_def int64_min_def)
  note S = incr_cmd_counter [OF C n] and Q = IncrementRPM_quiet [OF C n]
  show "fst (IncrementRPM R a (quiet s)) = Inr (int (count_list (e # hist) e))"
    by (simp add: Q add.commute)
  show us: "r_us R (w_db (snd (IncrementRPM R a (quiet s)))) = r_us R s" using S by (simp add: Q)
  have ex: "r_exists R ?s' ?k" using S by (intro counter_exists [of ?k _ "?n + 1"]) auto
  have min: "(r_us R s div 60000000 + 1) * 60000 \<le> r_us R s div 1000 + 120000" by (rule minute_bounds(2))
  show "rpm_inv R (e # hist) (w_db (snd (IncrementRPM R a (quiet s))))"
    unfolding rpm_inv_def us
  proof (intro allI impI, goal_cases)
    case (1 b m)
    show ?case
    proof (cases "(b, m) = e")
      case True
      then have "counter_is R (rpm_key b m) (r_expire R ?s' ?k rpmKeyTTL) (?n + 1)"
        using S counter_expire [of ?k ?s' "?n + 1" rpmKeyTTL] by (simp add: e_def rpmKeyTTL_def)
      with True show ?thesis using S ex min
        by (simp add: Q e_def r_expire_def deadline_pexpire rpmKeyTTL_def add.commute)
    next
      case False
      then have ne: "rpm_key b m \<noteq> ?k" by (auto simp: e_def)
      from 1 I have "counter_is R (rpm_key b m) s (int (count_list hist (b, m)))"
        and D: "\<forall>t. r_deadline R s (rpm_key b m) = Some t \<longrightarrow> (m + 1) * 60000 \<le> t"
        by (auto simp: rpm_inv_def)
      then have "counter_is R (rpm_key b m) (r_expire R ?s' ?k rpmKeyTTL) (int (count_list hist (b, m)))"
        using S ne unfolding counter_frame(4) [OF ne [symmetric]] by blast
      moreover have "r_deadline R (r_expire R ?s' ?k rpmKeyTTL) (rpm_key b m) = r_deadline R s (rpm_key b m)"
        using ne S unfolding r_expire_def deadline_pexpire by (simp only: if_False)
      ultimately show ?thesis using False D by (simp add: Q)
    qed
  qed
qed

lemma rpm_run_spec:
  assumes "rpm_inv R hist s" "\<forall>(d, a) \<in> set es. 0 \<le> d" "in_int64 (int (length hist + length es))"
  shows "rpm_run R es s = rpm_spec hist (r_us R s) es"
  using assms
proof (induction es arbitrary: hist s)
  case (Cons e es)
  obtain d a where e: "e = (d, a)" by (cases e)
  let ?s = "r_pass R s d"
  let ?e = "(a, r_us R ?s div 60000000)"
  have d: "0 \<le> d" using Cons.prems(2) e by simp
  have I: "rpm_inv R hist ?s" by (rule rpm_inv_pass [OF Cons.prems(1) d])
  have len: "in_int64 (int (length hist) + 1)" using Cons.prems(3)
    by (auto simp: in_int64_def int64_min_def)
  note W = rpm_inv_incr [OF I len, where a = a]
  have "rpm_run R es (w_db (snd (IncrementRPM R a (quiet ?s)))) = rpm_spec (?e # hist) (r_us R ?s) es"
    using Cons.IH [OF W(2)] Cons.prems(2,3) W(3) by simp
  then show ?case using W(1) d
    by (simp add: e case_prod_beta Let_def us_pass)
qed simp

end

text \<open>
  Requests per minute: whatever the order and the spacing of the requests of
  all accounts, on a working network each request is told exactly the number of
  requests of the same account in the same minute of the Redis clock up to and
  including itself, and no counter of a minute expires before the minute is over.
\<close>

theorem rpm_counts_requests:
  assumes "redis_store R"
    and "\<forall>a m. r_get R s (rpm_key a m) = None \<and> r_zmembers R s (rpm_key a m) = []"
    and "\<forall>(d, a) \<in> set es. 0 \<le> d" and "in_int64 (int (length es))"
  shows "rpm_run R es s = rpm_spec [] (r_us R s) es"
proof -
  have "r_deadline R s (rpm_key a m) = None" for a m
    using redis_store.deadline_exists [OF assms(1), of s "rpm_key a m"] assms(2)
    by (cases "r_deadline R s (rpm_key a m)") (auto simp: r_exists_def)
  then have "rpm_inv R [] s" using assms(2) by (simp add: rpm_inv_def counter_is_def)
  from redis_store.rpm_run_spec [OF assms(1) this assms(3)] assms(4) show ?thesis by simp
qed

theorem rpm_counts_requests_witness:
  "rpm_run ref_redis [(0, 7), (1000000, 7), (0, 8), (60000000, 7)] db0 = [Inr 1, Inr 2, Inr 1, Inr 1]"
  using rpm_counts_requests [OF ref.redis_store_axioms, of db0 "[(0, 7), (1000000, 7), (0, 8), (60000000, 7)]"]
  by (simp add: db0_def empty_db_def ref_members_def in_int64_def int64_min_def int64_max_def
      del: rpm_run.simps ref_ops(12))

end
