(* ===== verification/Window_Properties.thy ===== *)
theory Window_Properties
  imports Counter_Properties
begin

text \<open>
  Download permits, temporary suspensions and the sliding failure window of
  \<open>Counters\<close>: whole histories of operations against their specifications.
\<close>

section \<open>Download permits\<close>

datatype permit_op = PAcquire | PRelease nat | PWait int

definition outstanding :: "permit list \<Rightarrow> int" where
  "outstanding ps = int (length (filter (\<lambda>p. \<not> pm_done p) ps))"

text \<open>\<open>PRelease i\<close> calls \<open>Release\<close> on the \<open>i\<close>-th permit handed out, perhaps not for the first time.\<close>

fun permit_run :: "'s redis \<Rightarrow> batchImageDownloadLimiter \<Rightarrow> string \<Rightarrow> permit_op list \<Rightarrow> permit list \<Rightarrow> 's \<Rightarrow>
    permit list \<times> 's" where
  "permit_run R l u [] ps s = (ps, s)"
| "permit_run R l u (PWait d # ops) ps s = permit_run R l u ops ps (r_pass R s d)"
| "permit_run R l u (PAcquire # ops) ps s =
     (case AcquirePermit R l u (quiet s) of
        (Inr p, w) \<Rightarrow> permit_run R l u ops (ps @ [p]) (w_db w)
      | (Inl e, w) \<Rightarrow> permit_run R l u ops ps (w_db w))"
| "permit_run R l u (PRelease i # ops) ps s =
     (if i < length ps
      then (case ReleasePermit R (ps ! i) (quiet s) of
              (Inr (r, p), w) \<Rightarrow> permit_run R l u ops (ps[i := p]) (w_db w)
            | (Inl e, w) \<Rightarrow> permit_run R l u ops ps (w_db w))
      else permit_run R l u ops ps s)"

fun waits :: "permit_op list \<Rightarrow> int list" where
  "waits [] = []"
| "waits (PWait d # ops) = d # waits ops"
| "waits (PAcquire # ops) = waits ops"
| "waits (PRelease i # ops) = waits ops"

definition permit_inv :: "'s redis \<Rightarrow> batchImageDownloadLimiter \<Rightarrow> key \<Rightarrow> int \<Rightarrow> permit list \<Rightarrow> 's \<Rightarrow> bool" where
  "permit_inv R l k t0 ps s \<longleftrightarrow>
     counter_is R k s (outstanding ps) \<and> outstanding ps \<le> bd_maxActive l \<and>
     (\<forall>p \<in> set ps. pm_key p = k) \<and> (\<forall>t. r_deadline R s k = Some t \<longrightarrow> t0 \<le> t)"

lemma outstanding_simps [simp]:
  "outstanding [] = 0" "0 \<le> outstanding ps"
  "outstanding (ps @ [p]) = outstanding ps + (if pm_done p then 0 else 1)"
  by (simp_all add: outstanding_def)

lemma outstanding_release:
  assumes "i < length ps" "\<not> pm_done (ps ! i)" "pm_done p"
  shows "outstanding (ps[i := p]) = outstanding ps - 1"
proof -
  have 1: "outstanding (take i ps @ [q] @ drop (Suc i) ps) =
      outstanding (take i ps @ drop (Suc i) ps) + (if pm_done q then 0 else 1)" for q
    by (simp add: outstanding_def)
  have "ps = take i ps @ [ps ! i] @ drop (Suc i) ps" using assms(1) by (simp add: id_take_nth_drop)
  moreover have "ps[i := p] = take i ps @ [p] @ drop (Suc i) ps" using assms(1) by (simp add: upd_conv_take_nth_drop)
  ultimately show ?thesis using 1 [of "ps ! i"] 1 [of p] assms(2,3) by simp
qed

context redis_store
begin

lemma number_counter: "counter_is R k s n \<Longrightarrow> number_or_zero (r_get R s k) = Some n"
  using counter_parse by (simp add: number_or_zero_def)

lemma AcquirePermit_quiet:
  assumes "counter_is R (activeKey l u) s n"
  shows "AcquirePermit R l u (quiet s) =
    (if bd_maxActive l \<le> n then (Inl ErrDenied, quiet s)
     else (Inr \<lparr>pm_key = activeKey l u, pm_done = False\<rparr>,
        quiet (r_expire R (r_incrby R s (activeKey l u) 1) (activeKey l u) (bd_ttlSeconds l))))"
  using assms by (simp add: AcquirePermit_def batchImageDownloadAcquireScript_def number_counter check_reply_def Let_def)

lemma ReleasePermit_quiet:
  assumes "counter_is R (pm_key p) s n" "pm_key p \<noteq> []" "\<not> pm_done p"
  shows "ReleasePermit R p (quiet s) =
    (Inr (Inr (), p\<lparr>pm_done := True\<rparr>),
     quiet (if n \<le> 1 then r_del R s (pm_key p) else r_incrby R s (pm_key p) (- 1)))"
  using assms by (simp add: ReleasePermit_def batchImageDownloadReleaseScript_def number_counter check_reply_def)

lemma permit_acquire:
  assumes I: "permit_inv R l (activeKey l u) t0 ps s" and "0 < bd_ttlSeconds l" "in_int64 (bd_maxActive l)"
    and now: "t0 \<le> r_us R s div 1000 + bd_ttlSeconds l * 1000"
  defines "r \<equiv> AcquirePermit R l u (quiet s)"
  shows "(\<exists>e. fst r = Inl e \<and> w_db (snd r) = s) \<or>
    (\<exists>p. fst r = Inr p \<and> permit_inv R l (activeKey l u) t0 (ps @ [p]) (w_db (snd r)) \<and>
         r_us R (w_db (snd r)) = r_us R s)"
proof (cases "bd_maxActive l \<le> outstanding ps")
  case True
  have "counter_is R (activeKey l u) s (outstanding ps)" using I by (simp add: permit_inv_def)
  from AcquirePermit_quiet [OF this] True show ?thesis by (simp add: r_def)
next
  case False
  let ?k = "activeKey l u" and ?n = "outstanding ps"
  have c: "counter_is R ?k s ?n" using I by (simp add: permit_inv_def)
  have n: "in_int64 (?n + 1)" using False assms(3) outstanding_simps(2) [of ps]
    unfolding in_int64_def int64_min_def by linarith
  have c1: "counter_is R ?k (r_incrby R s ?k 1) (?n + 1)" by (rule counter_incr [OF c n])
  have ex: "r_exists R (r_incrby R s ?k 1) ?k"
    using outstanding_simps(2) [of ps] by (intro counter_exists [OF c1]) linarith
  have "counter_is R ?k (r_expire R (r_incrby R s ?k 1) ?k (bd_ttlSeconds l)) (?n + 1)"
    by (rule counter_expire [OF c1 assms(2)])
  with I False ex now assms(2) show ?thesis
    by (simp add: r_def AcquirePermit_quiet [OF c] permit_inv_def r_expire_def deadline_pexpire)
qed

lemma permit_release:
  assumes I: "permit_inv R l k t0 ps s" and "k \<noteq> []" "in_int64 (bd_maxActive l)" "i < length ps"
  shows "\<exists>r p s'. ReleasePermit R (ps ! i) (quiet s) = (Inr (r, p), quiet s') \<and>
     permit_inv R l k t0 (ps[i := p]) s' \<and> r_us R s' = r_us R s"
proof (cases "pm_done (ps ! i)")
  case True
  then have "ReleasePermit R (ps ! i) (quiet s) = (Inr (Inr (), ps ! i), quiet s)"
    by (simp add: ReleasePermit_def)
  with I show ?thesis by simp
next
  case False
  let ?n = "outstanding ps" and ?p = "(ps ! i)\<lparr>pm_done := True\<rparr>"
  have key: "pm_key (ps ! i) = k" using I assms(4) by (simp add: permit_inv_def)
  have c: "counter_is R k s ?n" using I by (simp add: permit_inv_def)
  have n: "in_int64 (?n + - 1)" using I assms(3) outstanding_simps(2) [of ps]
    unfolding in_int64_def int64_min_def permit_inv_def by linarith
  have keys: "\<forall>p \<in> set (ps[i := ?p]). pm_key p = k"
    using I key set_update_subset_insert [of ps i ?p] by (auto simp: permit_inv_def)
  let ?s' = "if ?n \<le> 1 then r_del R s k else r_incrby R s k (- 1)"
  have out: "outstanding (ps[i := ?p]) = ?n - 1" using False assms(4) by (simp add: outstanding_release)
  have "1 \<le> ?n" using out outstanding_simps(2) [of "ps[i := ?p]"] by linarith
  then have "counter_is R k ?s' (?n - 1)" using counter_incr [OF c n] counter_del [of k s] by auto
  with I keys have "permit_inv R l k t0 (ps[i := ?p]) ?s'"
    by (simp add: permit_inv_def out deadline_del deadline_incrby)
  moreover have "ReleasePermit R (ps ! i) (quiet s) = (Inr (Inr (), ?p), quiet ?s')"
    using ReleasePermit_quiet [of "ps ! i" s ?n] c key False assms(2) by simp
  ultimately show ?thesis by (intro exI [of _ "Inr ()"] exI [of _ ?p] exI [of _ ?s']) simp
qed

lemma permit_run_inv:
  assumes "permit_inv R l (activeKey l u) t0 ps s" "activeKey l u \<noteq> []" "0 < bd_ttlSeconds l"
    and "in_int64 (bd_maxActive l)" "\<forall>d \<in> set (waits ops). 0 \<le> d"
    and "(r_us R s + sum_list (waits ops)) div 1000 < t0" "t0 \<le> r_us R s div 1000 + bd_ttlSeconds l * 1000"
    and "permit_run R l u ops ps s = (ps', s')"
  shows "permit_inv R l (activeKey l u) t0 ps' s'"
  using assms
proof (induction ops arbitrary: ps s)
  case (Cons op ops)
  show ?case
  proof (cases op)
    case (PWait d)
    have d: "0 \<le> d" "0 \<le> sum_list (waits ops)" using Cons.prems(5) PWait by (auto intro: sum_list_nonneg)
    have "(r_us R s + d) div 1000 \<le> (r_us R s + (d + sum_list (waits ops))) div 1000"
      using d by (intro zdiv_mono1) auto
    then have lt: "(r_us R s + d) div 1000 < t0" using Cons.prems(6) PWait by simp
    have D: "\<And>t. r_deadline R s (activeKey l u) = Some t \<Longrightarrow> t0 \<le> t" using Cons.prems(1) by (simp add: permit_inv_def)
    have "counter_is R (activeKey l u) (r_pass R s d) (outstanding ps)"
      using Cons.prems(1) D lt by (intro counter_pass [OF _ d(1)]) (force simp: permit_inv_def split: option.split)+
    then have I: "permit_inv R l (activeKey l u) t0 ps (r_pass R s d)"
      using Cons.prems(1) D d(1) by (auto simp: permit_inv_def deadline_pass split: option.splits if_splits)
    have "r_us R s div 1000 \<le> (r_us R s + d) div 1000" using d by (intro zdiv_mono1) auto
    then have "t0 \<le> (r_us R s + d) div 1000 + bd_ttlSeconds l * 1000" using Cons.prems(7) by linarith
    with Cons.IH [OF I] Cons.prems PWait d show ?thesis by (simp add: us_pass add.assoc)
  next
    case PAcquire
    from permit_acquire [OF Cons.prems(1,3,4,7)] Cons.IH [of ps s] Cons.IH Cons.prems PAcquire
    show ?thesis by (cases "AcquirePermit R l u (quiet s)") auto
  next
    case (PRelease i)
    show ?thesis
    proof (cases "i < length ps")
      case True
      from permit_release [OF Cons.prems(1,2,4) True] Cons.IH Cons.prems PRelease True
      show ?thesis by auto
    next
      case False
      with Cons PRelease show ?thesis by simp
    qed
  qed
qed simp

end
text \<open>
  Download permits: after any run of acquisitions, releases (repeated ones
  included) and waiting shorter than the permit lifetime, the Redis counter of the
  user equals the number of permits handed out and not yet released, that number
  is at most the configured limit, and the next acquisition is refused exactly
  when the limit is reached.
\<close>

theorem download_permits_bounded:
  assumes "redis_store R" and "l = NewBatchImageDownloadLimiter conc dur" and "in_int64 conc"
    and "r_get R s (activeKey l u) = None" and "r_zmembers R s (activeKey l u) = []"
    and "\<forall>d \<in> set (waits ops). 0 \<le> d" and "sum_list (waits ops) < (bd_ttlSeconds l - 1) * 1000000"
    and "permit_run R l u ops [] s = (ps, s')"
  shows "counter_is R (activeKey l u) s' (outstanding ps) \<and> outstanding ps \<le> bd_maxActive l \<and>
    (fst (AcquirePermit R l u (quiet s')) = Inl ErrDenied \<longleftrightarrow> outstanding ps = bd_maxActive l)"
proof -
  let ?t0 = "r_us R s div 1000 + bd_ttlSeconds l * 1000"
  have l: "0 < bd_ttlSeconds l" "in_int64 (bd_maxActive l)" "activeKey l u \<noteq> []" "0 < bd_maxActive l"
    using assms(2,3) by (auto simp: NewBatchImageDownloadLimiter_def activeKey_def in_int64_def int64_min_def int64_max_def)
  have "r_deadline R s (activeKey l u) = None"
    using redis_store.deadline_exists [OF assms(1), of s "activeKey l u"] assms(4,5)
    by (cases "r_deadline R s (activeKey l u)") (auto simp: r_exists_def)
  then have I: "permit_inv R l (activeKey l u) ?t0 [] s"
    using assms(4,5) l(4) by (simp add: permit_inv_def counter_is_def)
  have "(r_us R s + sum_list (waits ops)) div 1000 \<le> (r_us R s + (bd_ttlSeconds l * 1000 - 1) * 1000) div 1000"
    using assms(7) by (intro zdiv_mono1) auto
  then have "(r_us R s + sum_list (waits ops)) div 1000 < ?t0" by simp
  from redis_store.permit_run_inv [OF assms(1) I l(3,1,2) assms(6) this order_refl assms(8)]
  have F: "permit_inv R l (activeKey l u) ?t0 ps s'" .
  then have c: "counter_is R (activeKey l u) s' (outstanding ps)" by (simp add: permit_inv_def)
  from F redis_store.AcquirePermit_quiet [OF assms(1) c] show ?thesis by (auto simp: permit_inv_def)
qed

theorem download_permits_bounded_witness:
  "case permit_run ref_redis (NewBatchImageDownloadLimiter 1 0) ''5''
      [PAcquire, PAcquire, PRelease 0, PRelease 0, PAcquire] [] db0 of
     (ps, s') \<Rightarrow> outstanding ps \<le> 1 \<and> length ps = 2"
proof -
  let ?l = "NewBatchImageDownloadLimiter 1 0"
  let ?ops = "[PAcquire, PAcquire, PRelease 0, PRelease 0, PAcquire]"
  obtain ps s' where run: "permit_run ref_redis ?l ''5'' ?ops [] db0 = (ps, s')"
    by (cases "permit_run ref_redis ?l ''5'' ?ops [] db0")
  have len: "length ps = 2" using run
    by (auto simp add: AcquirePermit_def ReleasePermit_def batchImageDownloadAcquireScript_def
        batchImageDownloadReleaseScript_def number_or_zero_def check_reply_def NewBatchImageDownloadLimiter_def
        activeKey_def catchW_def ref_eval parse_int_format_int in_int64_def int64_min_def int64_max_def)
  from download_permits_bounded [OF ref.redis_store_axioms refl _ _ _ _ _ run] len run show ?thesis
    by (simp add: in_int64_def int64_min_def int64_max_def db0_def empty_db_def ref_members_def
        NewBatchImageDownloadLimiter_def del: permit_run.simps)
qed

end
