(* ===== verification/Suspension_Properties.thy ===== *)
theory Suspension_Properties
  imports Window_Properties
begin

text \<open>
  The account suspensions of \<open>temp_unsched_cache.go\<close>: a suspension is never
  shortened, and the failure window of an OpenAI API key trips exactly when the
  failures of the last minutes reach the threshold.
\<close>

section \<open>Temporary suspension\<close>

text \<open>Several goroutines suspend one account: their \<open>until\<close> second and their JSON.\<close>

fun suspend_run :: "'s redis \<Rightarrow> (string \<Rightarrow> int option) \<Rightarrow> int \<Rightarrow> id \<Rightarrow> (int \<times> string) list \<Rightarrow> 's \<Rightarrow> 's" where
  "suspend_run R until_of now a [] s = s"
| "suspend_run R until_of now a ((u, json) # us) s =
     suspend_run R until_of now a us (w_db (snd (SetTempUnsched R until_of now a u json (quiet s))))"

definition suspended_until :: "'s redis \<Rightarrow> (string \<Rightarrow> int option) \<Rightarrow> id \<Rightarrow> 's \<Rightarrow> int option" where
  "suspended_until R until_of a s = Option.bind (r_get R s (tempUnschedPrefix @ format_int a)) until_of"

context redis_store
begin

lemma SetTempUnsched_until:
  assumes "until_of json = Some u"
  shows "suspended_until R until_of a (w_db (snd (SetTempUnsched R until_of now a u json (quiet s)))) =
    (if u * 1000000000 \<le> now then suspended_until R until_of a s
     else case suspended_until R until_of a s of None \<Rightarrow> Some u | Some x \<Rightarrow> Some (max x u))"
  using assms
  by (auto simp: SetTempUnsched_def Let_def tempUnschedSetScript_def suspended_until_def get_set max_def
      split: option.splits if_splits)

lemma suspend_run_until:
  assumes "\<forall>(u, json) \<in> set us. until_of json = Some u \<and> now < u * 1000000000"
  shows "suspended_until R until_of a (suspend_run R until_of now a us s) =
    (case suspended_until R until_of a s of
       None \<Rightarrow> (case map fst us of [] \<Rightarrow> None | v # vs \<Rightarrow> Some (fold max vs v))
     | Some x \<Rightarrow> Some (fold max (map fst us) x))"
  using assms
proof (induction us arbitrary: s)
  case Nil
  then show ?case by (auto split: option.split)
next
  case (Cons p us)
  obtain u json where p: "p = (u, json)" by (cases p)
  from Cons.prems p have u: "until_of json = Some u" "\<not> u * 1000000000 \<le> now" by auto
  show ?case
    using Cons p SetTempUnsched_until [of until_of json u a now s, OF u(1)] u(2)
    by (auto split: option.splits simp: max.commute)
qed

end

text \<open>
  A suspension only grows: whatever suspensions are set, in whatever order,
  the account stays suspended until the latest of them and of the suspension it
  already had; expired ones change nothing.
\<close>

theorem suspension_only_grows:
  assumes "redis_store R" and "\<forall>(u, json) \<in> set us. until_of json = Some u \<and> now < u * 1000000000"
  shows "(\<forall>x. suspended_until R until_of a s = Some x \<longrightarrow>
       suspended_until R until_of a (suspend_run R until_of now a us s) = Some (Max (insert x (fst ` set us)))) \<and>
    (suspended_until R until_of a s = None \<and> us \<noteq> [] \<longrightarrow>
       suspended_until R until_of a (suspend_run R until_of now a us s) = Some (Max (fst ` set us))) \<and>
    (\<forall>u json. u * 1000000000 \<le> now \<longrightarrow>
       SetTempUnsched R until_of now a u json (quiet s) = (Inr (), quiet s))"
proof (intro conjI allI impI)
  note S = redis_store.suspend_run_until [OF assms, of a s]
  show "suspended_until R until_of a (suspend_run R until_of now a us s) = Some (Max (insert x (fst ` set us)))"
    if "suspended_until R until_of a s = Some x" for x
    using S that Max.set_eq_fold [of x "map fst us"] by simp
  show "suspended_until R until_of a (suspend_run R until_of now a us s) = Some (Max (fst ` set us))"
    if "suspended_until R until_of a s = None \<and> us \<noteq> []"
    using S that Max.set_eq_fold [of "fst (hd us)" "map fst (tl us)"] by (cases us) simp_all
  show "SetTempUnsched R until_of now a u json (quiet s) = (Inr (), quiet s)" if "u * 1000000000 \<le> now" for u json
    using that by (simp add: SetTempUnsched_def Let_def)
qed

theorem suspension_only_grows_witness:
  "suspended_until ref_redis (\<lambda>j. if j = ''{30}'' then Some 30 else if j = ''{20}'' then Some 20 else None) 7
     (suspend_run ref_redis (\<lambda>j. if j = ''{30}'' then Some 30 else if j = ''{20}'' then Some 20 else None) 0 7
        [(30, ''{30}''), (20, ''{20}'')] db0) = Some 30"
  using suspension_only_grows [OF ref.redis_store_axioms, of "[(30, ''{30}''), (20, ''{20}'')]"
      "\<lambda>j. if j = ''{30}'' then Some 30 else if j = ''{20}'' then Some 20 else None" 0 7 db0]
  by (simp add: suspended_until_def db0_def empty_db_def del: suspend_run.simps)


section \<open>The failure window of an OpenAI API key\<close>

text \<open>Failures reported after the delays \<open>ds\<close> (microseconds).\<close>

fun health_run :: "'s redis \<Rightarrow> id \<Rightarrow> int \<Rightarrow> int \<Rightarrow> int list \<Rightarrow> 's \<Rightarrow> (err + int \<times> bool) list" where
  "health_run R a W th [] s = []"
| "health_run R a W th (d # ds) s =
     (case RecordOpenAIAPIKeyHealthFailure R a W th (quiet (r_pass R s d)) of
        (r, w) \<Rightarrow> r # health_run R a W th ds (w_db w))"

text \<open>The specification keeps the milliseconds of the failures since the last trip.\<close>

fun health_spec :: "int \<Rightarrow> int \<Rightarrow> int list \<Rightarrow> int \<Rightarrow> int list \<Rightarrow> (err + int \<times> bool) list" where
  "health_spec W th hist now [] = []"
| "health_spec W th hist now (d # ds) =
     (let now = now + d;
          t = now div 1000;
          hist = t # filter (\<lambda>x. t - W * 60000 < x) hist;
          n = int (length hist)
      in Inr (n, th \<le> n) # health_spec W th (if th \<le> n then [] else hist) now ds)"

definition stamp :: "int \<times> int \<Rightarrow> member" where
  "stamp p = colon (format_int (fst p)) (format_int (snd p))"

definition window_inv :: "'s redis \<Rightarrow> key \<Rightarrow> key \<Rightarrow> int \<Rightarrow> int list \<Rightarrow> (int \<times> int) list \<Rightarrow> int \<Rightarrow> 's \<Rightarrow> bool" where
  "window_inv R k sk W hist ps n s \<longleftrightarrow>
     counter_is R sk s n \<and> 0 \<le> n \<and>
     distinct (map snd ps) \<and> (\<forall>p \<in> set ps. snd p \<le> n) \<and>
     (\<forall>m sc. r_zscore R s k m = Some sc \<longleftrightarrow> (\<exists>q. (sc, q) \<in> set ps \<and> m = stamp (sc, q))) \<and>
     (\<forall>c \<ge> r_us R s div 1000 - W * 60000.
        filter (\<lambda>x. c < x) hist = filter (\<lambda>x. c < x) (map fst ps)) \<and>
     (\<forall>x \<in> set hist. x \<le> r_us R s div 1000) \<and>
     r_deadline R s sk = r_deadline R s k \<and>
     (\<forall>t. r_deadline R s k = Some t \<longrightarrow> (\<forall>x \<in> set hist. x + W * 60000 \<le> t))"

lemma stamp_inj [simp]: "stamp p = stamp q \<longleftrightarrow> p = q"
  by (auto simp: stamp_def colon_def format_pair_inj prod_eq_iff)

context redis_store
begin

lemma window_inv_card:
  assumes "window_inv R k sk W hist ps n s"
  shows "r_zcard R s k = int (length ps)"
proof -
  have "\<And>m. r_zscore R s k m \<noteq> None \<longleftrightarrow> (\<exists>p \<in> set ps. m = stamp p)"
    using assms unfolding window_inv_def by (metis not_None_eq prod.collapse)
  then have "dom (r_zscore R s k) = stamp ` set ps" by (auto simp: dom_def)
  moreover have "distinct ps" using assms by (simp add: window_inv_def distinct_map)
  ultimately show ?thesis by (simp add: zcard_card card_image inj_on_def distinct_card)
qed

lemma window_inv_pass:
  assumes I: "window_inv R k sk W hist ps n s" and d: "0 \<le> d"
  shows "\<exists>ps' n'. n' \<le> n \<and> window_inv R k sk W hist ps' n' (r_pass R s d)"
proof (cases "\<exists>t. r_deadline R s k = Some t \<and> t \<le> (r_us R s + d) div 1000")
  case True
  have mono: "r_us R s div 1000 \<le> (r_us R s + d) div 1000" using d by (intro zdiv_mono1) auto
  from True obtain t where t: "r_deadline R s k = Some t" "t \<le> (r_us R s + d) div 1000" by blast
  have sk: "r_deadline R s sk = Some t" using I t by (simp add: window_inv_def)
  have old: "\<And>x c. x \<in> set hist \<Longrightarrow> (r_us R s + d) div 1000 - W * 60000 \<le> c \<Longrightarrow> \<not> c < x"
    using I t by (fastforce simp: window_inv_def)
  have "window_inv R k sk W hist [] 0 (r_pass R s d)"
    using I t sk d mono old
    by (auto simp: window_inv_def counter_is_def get_pass zscore_pass members_Nil deadline_pass us_pass
        filter_empty_conv)
  moreover have "0 \<le> n" using I by (simp add: window_inv_def)
  ultimately show ?thesis by blast
next
  case False
  have mono: "r_us R s div 1000 \<le> (r_us R s + d) div 1000" using d by (intro zdiv_mono1) auto
  have "counter_is R sk s n" "r_deadline R s sk = r_deadline R s k" using I by (simp_all add: window_inv_def)
  then have C: "counter_is R sk (r_pass R s d) n"
    using False by (intro counter_pass [OF _ d]) (auto split: option.split simp: not_le)
  have Z: "r_zscore R (r_pass R s d) k = r_zscore R s k" using False d by (auto simp: zscore_pass fun_eq_iff)
  have D: "r_deadline R (r_pass R s d) k = r_deadline R s k" "r_deadline R (r_pass R s d) sk = r_deadline R s sk"
    using False d I by (auto simp: deadline_pass window_inv_def split: option.split)
  have "window_inv R k sk W hist ps n (r_pass R s d)"
    using I mono d unfolding window_inv_def C Z D us_pass [OF d] by (auto intro: order_trans simp: C)
  then show ?thesis by blast
qed


lemma window_record:
  fixes s :: 's and W th :: int
  assumes I: "window_inv R k sk W hist ps n s" and k: "k \<noteq> sk" and n: "in_int64 (n + 1)" and W: "1 \<le> W"
    and sk: "sk = k @ '':sequence''"
  defines "t \<equiv> r_us R s div 1000"
  defines "h \<equiv> t # filter (\<lambda>x. t - W * 60000 < x) hist"
  defines "r \<equiv> openAIAPIKeyHealthFailureScript R k W th s"
  shows "fst r = Some (int (length h), if th \<le> int (length h) then 1 else 0)"
    and "\<exists>ps' n'. n' \<le> n + 1 \<and> window_inv R k sk W (if th \<le> int (length h) then [] else h) ps' n' (snd r)"
    and "r_us R (snd r) = r_us R s"
proof -
  let ?s1 = "snd (incr_cmd R sk 1 s)"
  let ?ps = "(t, n + 1) # filter (\<lambda>p. t - W * 60000 < fst p) ps"
  let ?ttl = "max 60 ((W + 1) * 60)"
  let ?s3 = "r_zadd R (r_zremrangebyscore R ?s1 k (t - W * 60000)) k t (stamp (t, n + 1))"
  let ?s5 = "r_expire R (r_expire R ?s3 k ?ttl) sk ?ttl"
  have c: "counter_is R sk s n" "0 \<le> n" using I by (simp_all add: window_inv_def)
  note C = incr_cmd_counter [OF c(1) n]
  have c1: "counter_is R sk ?s3 (n + 1)" using C k by (simp add: counter_frame)
  have fresh: "\<And>x. (x, n + 1) \<notin> set ps" using I by (fastforce simp: window_inv_def)
  have Z: "r_zscore R ?s3 k m = Some sc \<longleftrightarrow> (\<exists>q. (sc, q) \<in> set ?ps \<and> m = stamp (sc, q))" for m sc
    using I C fresh by (auto simp: window_inv_def)
  have hist: "filter (\<lambda>x. c < x) h = filter (\<lambda>x. c < x) (map fst ?ps)" for c
    using I by (simp add: window_inv_def h_def t_def filter_map o_def)
  have us: "r_us R ?s3 = r_us R s" using C by simp
  have "\<forall>x \<in> set hist. x \<le> t" using I by (simp add: window_inv_def t_def)
  then have ht: "\<forall>x \<in> set h. x \<le> t" by (simp add: h_def)
  have ex: "r_exists R ?s3 k" by (rule exists_zscore [of _ _ "stamp (t, n + 1)"]) simp
  have exsk: "r_exists R (r_expire R ?s3 k ?ttl) sk"
    using counter_exists [OF counter_expire [OF c1]] counter_frame(4) [OF k, of ?s3 ?ttl "n + 1"] c(2) c1
    by (intro counter_exists [of sk _ "n + 1"]) auto
  have c5: "counter_is R sk ?s5 (n + 1)" using c1 k by (intro counter_expire) (simp_all add: counter_frame)
  have "window_inv R k sk W h ?ps (n + 1) ?s5"
    unfolding window_inv_def
  proof (intro conjI)
    show "counter_is R sk ?s5 (n + 1)" by (rule c5)
    show "distinct (map snd ?ps)" using I fresh by (auto simp: window_inv_def distinct_map_filter)
    show "\<forall>p \<in> set ?ps. snd p \<le> n + 1" using I by (fastforce simp: window_inv_def)
    show "\<forall>m sc. r_zscore R ?s5 k m = Some sc \<longleftrightarrow> (\<exists>q. (sc, q) \<in> set ?ps \<and> m = stamp (sc, q))"
      using Z k by simp
    show "\<forall>c \<ge> r_us R ?s5 div 1000 - W * 60000. filter (\<lambda>x. c < x) h = filter (\<lambda>x. c < x) (map fst ?ps)"
      using hist by blast
    show "\<forall>x \<in> set h. x \<le> r_us R ?s5 div 1000" using ht us by (simp add: t_def)
    show "r_deadline R ?s5 sk = r_deadline R ?s5 k"
      using ex exsk k us by (simp add: r_expire_def deadline_pexpire)
    show "\<forall>e. r_deadline R ?s5 k = Some e \<longrightarrow> (\<forall>x \<in> set h. x + W * 60000 \<le> e)"
      using ht ex exsk k us W by (fastforce simp: r_expire_def deadline_pexpire t_def)
  qed (use c in simp)
  note I5 = this
  have len: "length ?ps = length h"
    using hist [of "t - W * 60000"] W by (simp add: h_def filter_map o_def length_filter_conv_card)
  have card: "r_zcard R ?s3 k = int (length h)"
    using window_inv_card [OF I5] k len by simp
  have w: "W * 60 * 1000 = W * 60000" by simp
  have eq: "r = (Some (int (length h), if th \<le> int (length h) then 1 else 0),
      if th \<le> int (length h) then r_del R (r_del R ?s5 k) sk else ?s5)"
    using C card unfolding r_def openAIAPIKeyHealthFailureScript_def sk [symmetric] w
    by (simp add: time_ms_us t_def case_prod_beta Let_def stamp_def)
  show "fst r = Some (int (length h), if th \<le> int (length h) then 1 else 0)" by (simp add: eq)
  show "r_us R (snd r) = r_us R s" using us by (simp add: eq)
  have "window_inv R k sk W [] [] 0 (r_del R (r_del R ?s5 k) sk)"
    using k by (simp add: window_inv_def counter_del deadline_del)
  then show "\<exists>ps' n'. n' \<le> n + 1 \<and> window_inv R k sk W (if th \<le> int (length h) then [] else h) ps' n' (snd r)"
    using I5 c(2) unfolding eq snd_conv
    by (cases "th \<le> int (length h)") (rule exI [of _ "[]"], rule exI [of _ 0], simp,
      rule exI [of _ ?ps], rule exI [of _ "n + 1"], simp)
qed


lemma health_run_spec:
  assumes "window_inv R (openAIAPIKeyHealthKey a) (openAIAPIKeyHealthKey a @ '':sequence'') W hist ps n s"
    and "1 \<le> W" "1 \<le> th" "\<forall>d \<in> set ds. 0 \<le> d" "in_int64 (n + int (length ds))"
  shows "health_run R a W th ds s = health_spec W th hist (r_us R s) ds"
  using assms
proof (induction ds arbitrary: hist ps n s)
  case (Cons d ds)
  let ?k = "openAIAPIKeyHealthKey a" and ?s = "r_pass R s d"
  let ?sk = "?k @ '':sequence''"
  let ?r = "openAIAPIKeyHealthFailureScript R ?k W th ?s"
  have d: "0 \<le> d" using Cons.prems(4) by simp
  obtain ps1 n1 where 1: "n1 \<le> n" "window_inv R ?k ?sk W hist ps1 n1 ?s"
    using window_inv_pass [OF Cons.prems(1) d] by blast
  have n0: "0 \<le> n1" using 1(2) by (simp add: window_inv_def)
  have n1: "in_int64 (n1 + 1)" using 1(1) n0 Cons.prems(5) by (auto simp: in_int64_def int64_min_def)
  have k: "?k \<noteq> ?sk" by simp
  note S = window_record [OF 1(2) k n1 Cons.prems(2) refl, where th = th]
  let ?h = "r_us R ?s div 1000 # filter (\<lambda>x. r_us R ?s div 1000 - W * 60000 < x) hist"
  obtain ps2 n2 where 2: "n2 \<le> n1 + 1"
      "window_inv R ?k ?sk W (if th \<le> int (length ?h) then [] else ?h) ps2 n2 (snd ?r)"
    using S(2) by blast
  have n20: "0 \<le> n2" using 2(2) by (simp add: window_inv_def)
  have "in_int64 (n2 + int (length ds))"
    using 1(1) 2(1) n20 Cons.prems(5) by (auto simp: in_int64_def int64_min_def)
  from Cons.IH [OF 2(2) Cons.prems(2,3) _ this] Cons.prems(4)
  have "health_run R a W th ds (snd ?r) =
      health_spec W th (if th \<le> int (length ?h) then [] else ?h) (r_us R (snd ?r)) ds" by simp
  then show ?case
    using S(1,3) d Cons.prems(2,3)
    by (simp add: RecordOpenAIAPIKeyHealthFailure_def check_reply_def Let_def us_pass case_prod_beta)
qed simp

end

text \<open>
  The health window of an API key: for every history of failures, each call
  reports the number of failures of the last \<open>windowMinutes\<close> minutes since the last
  trip, itself included, and trips exactly when that number reaches the
  threshold, whereupon counting starts afresh.
\<close>

theorem health_window_counts:
  assumes "redis_store R" and "1 \<le> W" and "1 \<le> th" and "\<forall>d \<in> set ds. 0 \<le> d" and "in_int64 (int (length ds))"
    and "\<forall>k \<in> {openAIAPIKeyHealthKey a, openAIAPIKeyHealthKey a @ '':sequence''}.
           r_get R s k = None \<and> r_zmembers R s k = []"
  shows "health_run R a W th ds s = health_spec W th [] (r_us R s) ds"
proof -
  have "r_deadline R s k = None" if "r_get R s k = None \<and> r_zmembers R s k = []" for k
    using redis_store.deadline_exists [OF assms(1), of s k] that
    by (cases "r_deadline R s k") (auto simp: r_exists_def)
  then have "window_inv R (openAIAPIKeyHealthKey a) (openAIAPIKeyHealthKey a @ '':sequence'') W [] [] 0 s"
    using assms(6) by (simp add: window_inv_def counter_is_def redis_store.members_Nil [OF assms(1)])
  from redis_store.health_run_spec [OF assms(1) this assms(2,3,4)] assms(5) show ?thesis by simp
qed

theorem health_window_counts_witness:
  "health_run ref_redis 7 1 3 [0, 30000000, 31000000, 0, 0] db0 =
     [Inr (1, False), Inr (2, False), Inr (2, False), Inr (3, True), Inr (1, False)]"
  using health_window_counts [OF ref.redis_store_axioms, of 1 3 "[0, 30000000, 31000000, 0, 0]" 7 db0]
  by (simp add: db0_def empty_db_def ref_members_def in_int64_def int64_min_def int64_max_def Let_def
      del: health_run.simps)

end
