(* ===== verification/Session_Limit.thy ===== *)
theory Session_Limit
  imports Redis_Net
begin

text \<open>
  The session limit of an account (\<open>session_limit_cache.go\<close>): a sorted set of
  session ids scored with their last activity in Redis seconds, pruned by the idle
  timeout, and the 30-second cache of window costs.  Durations are nanoseconds.
\<close>

section \<open>Scripts\<close>

definition sessionLimitKeyPrefix :: key where
  "sessionLimitKeyPrefix = ''session_limit:account:''"

definition windowCostKeyPrefix :: key where
  "windowCostKeyPrefix = ''window_cost:account:''"

definition windowCostCacheTTL :: int where
  "windowCostCacheTTL = 30 * 1000000000"

definition registerSessionScript :: "'s redis \<Rightarrow> key \<Rightarrow> int \<Rightarrow> int \<Rightarrow> member \<Rightarrow> 's \<Rightarrow> int \<times> 's" where
  "registerSessionScript R key maxSessions idleTimeout sessionUUID s =
     (let now = time_sec R s;
          expireBefore = now - idleTimeout;
          s = r_zremrangebyscore R s key expireBefore
      in if r_zscore R s key sessionUUID \<noteq> None
         then (1, r_expire R (r_zadd R s key now sessionUUID) key (idleTimeout + 60))
         else if r_zcard R s key < maxSessions
         then (1, r_expire R (r_zadd R s key now sessionUUID) key (idleTimeout + 60))
         else (0, s))"

definition refreshSessionScript :: "'s redis \<Rightarrow> key \<Rightarrow> int \<Rightarrow> member \<Rightarrow> 's \<Rightarrow> int \<times> 's" where
  "refreshSessionScript R key idleTimeout sessionUUID s =
     (let now = time_sec R s
      in if r_zscore R s key sessionUUID \<noteq> None
         then (1, r_expire R (r_zadd R s key now sessionUUID) key (idleTimeout + 60))
         else (1, s))"

definition getActiveSessionCountScript :: "'s redis \<Rightarrow> key \<Rightarrow> int \<Rightarrow> 's \<Rightarrow> int \<times> 's" where
  "getActiveSessionCountScript R key idleTimeout s =
     (let now = time_sec R s;
          s = r_zremrangebyscore R s key (now - idleTimeout)
      in (r_zcard R s key, s))"

definition isSessionActiveScript :: "'s redis \<Rightarrow> key \<Rightarrow> int \<Rightarrow> member \<Rightarrow> 's \<Rightarrow> int \<times> 's" where
  "isSessionActiveScript R key idleTimeout sessionUUID s =
     (let now = time_sec R s;
          expireBefore = now - idleTimeout
      in case r_zscore R s key sessionUUID of
           None \<Rightarrow> (0, s)
         | Some score \<Rightarrow> if score \<le> expireBefore then (0, s) else (1, s))"

section \<open>The cache\<close>

record sessionLimitCache =
  defaultIdleTimeout :: int

definition NewSessionLimitCache :: "int \<Rightarrow> sessionLimitCache" where
  "NewSessionLimitCache defaultIdleTimeoutMinutes =
     (let m = (if defaultIdleTimeoutMinutes \<le> 0 then 5 else defaultIdleTimeoutMinutes)
      in \<lparr>defaultIdleTimeout = m * 60 * 1000000000\<rparr>)"

definition sessionLimitKey :: "id \<Rightarrow> key" where
  "sessionLimitKey accountID = sessionLimitKeyPrefix @ format_int accountID"

definition windowCostKey :: "id \<Rightarrow> key" where
  "windowCostKey accountID = windowCostKeyPrefix @ format_int accountID"

definition whole_seconds :: "int \<Rightarrow> int" where
  "whole_seconds d = (if d < 0 then - (- d div 1000000000) else d div 1000000000)"

definition idle_seconds :: "sessionLimitCache \<Rightarrow> int \<Rightarrow> int" where
  "idle_seconds c idleTimeout =
     (let secs = whole_seconds idleTimeout
      in if secs \<le> 0 then whole_seconds (defaultIdleTimeout c) else secs)"

text \<open>
  The reply comes with the error: \<open>RegisterSession\<close> admits the session when the
  cache fails, the caller sees both.
\<close>

definition RegisterSession ::
    "'s redis \<Rightarrow> sessionLimitCache \<Rightarrow> id \<Rightarrow> string \<Rightarrow> int \<Rightarrow> int \<Rightarrow> ('s, bool \<times> err option) prog" where
  "RegisterSession R c accountID sessionUUID maxSessions idleTimeout =
     (if sessionUUID = [] \<or> maxSessions \<le> 0 then returnW (True, None)
      else bindW (catchW (round_trip (registerSessionScript R (sessionLimitKey accountID) maxSessions
                (idle_seconds c idleTimeout) sessionUUID)))
             (\<lambda>r. case r of Inl e \<Rightarrow> returnW (True, Some e) | Inr n \<Rightarrow> returnW (n = 1, None)))"

definition UnregisterSession :: "'s redis \<Rightarrow> id \<Rightarrow> string \<Rightarrow> ('s, unit) prog" where
  "UnregisterSession R accountID sessionUUID =
     (if sessionUUID = [] then returnW ()
      else update (\<lambda>s. r_zrem R s (sessionLimitKey accountID) sessionUUID))"

definition RefreshSession :: "'s redis \<Rightarrow> sessionLimitCache \<Rightarrow> id \<Rightarrow> string \<Rightarrow> int \<Rightarrow> ('s, unit) prog" where
  "RefreshSession R c accountID sessionUUID idleTimeout =
     (if sessionUUID = [] then returnW ()
      else bindW (round_trip (refreshSessionScript R (sessionLimitKey accountID) (idle_seconds c idleTimeout) sessionUUID))
             (\<lambda>_. returnW ()))"

definition GetActiveSessionCount :: "'s redis \<Rightarrow> sessionLimitCache \<Rightarrow> id \<Rightarrow> ('s, int) prog" where
  "GetActiveSessionCount R c accountID =
     round_trip (getActiveSessionCountScript R (sessionLimitKey accountID) (whole_seconds (defaultIdleTimeout c)))"

text \<open>A pipeline whose commands are read one by one: \<open>Exec\<close>'s error is dropped.\<close>

fun pipeline_each :: "('s \<Rightarrow> 'a \<times> 's) list \<Rightarrow> ('s, (err + 'a) list) prog" where
  "pipeline_each [] = returnW []"
| "pipeline_each (f # fs) =
     bindW (catchW (round_trip f)) (\<lambda>r. bindW (pipeline_each fs) (\<lambda>rs. returnW (r # rs)))"

definition batch_idle :: "sessionLimitCache \<Rightarrow> (id \<Rightarrow> int option) \<Rightarrow> id \<Rightarrow> int" where
  "batch_idle c idleTimeouts accountID =
     (case idleTimeouts accountID of
        Some t \<Rightarrow> if t > 0 then t else defaultIdleTimeout c
      | None \<Rightarrow> defaultIdleTimeout c)"

fun collect_counts :: "(id \<times> (err + int)) list \<Rightarrow> (id \<Rightarrow> int option)" where
  "collect_counts [] = Map.empty"
| "collect_counts ((a, r) # rest) =
     (case r of Inl _ \<Rightarrow> collect_counts rest
      | Inr n \<Rightarrow> (collect_counts rest)(a \<mapsto> n))"

text \<open>
  \<open>cmds\<close> is a Go map from the account to its last command: of repeated ids the last
  command counts, successful or not (hence \<open>rev\<close> and \<open>AList.clearjunk\<close>).
\<close>

definition GetActiveSessionCountBatch ::
    "'s redis \<Rightarrow> sessionLimitCache \<Rightarrow> id list \<Rightarrow> (id \<Rightarrow> int option) \<Rightarrow> ('s, id \<Rightarrow> int option) prog" where
  "GetActiveSessionCountBatch R c accountIDs idleTimeouts =
     (if accountIDs = [] then returnW Map.empty
      else bindW (pipeline_each (map (\<lambda>a. getActiveSessionCountScript R (sessionLimitKey a)
                    (whole_seconds (batch_idle c idleTimeouts a))) accountIDs))
             (\<lambda>rs. returnW (collect_counts (AList.clearjunk (rev (zip accountIDs rs))))))"

definition IsSessionActive :: "'s redis \<Rightarrow> sessionLimitCache \<Rightarrow> id \<Rightarrow> string \<Rightarrow> ('s, bool) prog" where
  "IsSessionActive R c accountID sessionUUID =
     (if sessionUUID = [] then returnW False
      else bindW (round_trip (isSessionActiveScript R (sessionLimitKey accountID)
                (whole_seconds (defaultIdleTimeout c)) sessionUUID))
             (\<lambda>n. returnW (n = 1)))"

text \<open>
  Window costs are Go floats: \<open>print\<close> is how the client writes one, \<open>parse\<close> is
  \<open>strconv.ParseFloat\<close>.
\<close>

definition GetWindowCost :: "'s redis \<Rightarrow> (string \<Rightarrow> 'c option) \<Rightarrow> 'c \<Rightarrow> id \<Rightarrow> ('s, 'c \<times> bool) prog" where
  "GetWindowCost R parse zero accountID =
     bindW (query (\<lambda>s. r_get R s (windowCostKey accountID)))
       (\<lambda>v. case v of None \<Rightarrow> returnW (zero, False)
          | Some t \<Rightarrow> (case parse t of None \<Rightarrow> failW (ErrInvalid ''float'') | Some x \<Rightarrow> returnW (x, True)))"

definition SetWindowCost :: "'s redis \<Rightarrow> ('c \<Rightarrow> string) \<Rightarrow> id \<Rightarrow> 'c \<Rightarrow> ('s, unit) prog" where
  "SetWindowCost R print accountID cost =
     update (\<lambda>s. r_set R s (windowCostKey accountID) (print cost) (Some (windowCostCacheTTL div 1000000)))"

text \<open>\<open>MGET\<close> replies a string or nil for every key; what does not parse is left out.\<close>

fun collect_costs :: "(string \<Rightarrow> 'c option) \<Rightarrow> (id \<times> string option) list \<Rightarrow> (id \<Rightarrow> 'c option) \<Rightarrow> (id \<Rightarrow> 'c option)" where
  "collect_costs parse [] m = m"
| "collect_costs parse ((a, v) # rest) m =
     collect_costs parse rest
       (case Option.bind v parse of None \<Rightarrow> m | Some cost \<Rightarrow> m(a \<mapsto> cost))"

definition GetWindowCostBatch :: "'s redis \<Rightarrow> (string \<Rightarrow> 'c option) \<Rightarrow> id list \<Rightarrow> ('s, id \<Rightarrow> 'c option) prog" where
  "GetWindowCostBatch R parse accountIDs =
     (if accountIDs = [] then returnW Map.empty
      else bindW (query (\<lambda>s. map (\<lambda>a. r_get R s (windowCostKey a)) accountIDs))
             (\<lambda>vals. returnW (collect_costs parse (zip accountIDs vals) Map.empty)))"

lemma sessionLimitKey_inj [key_simps, simp]: "sessionLimitKey a = sessionLimitKey b \<longleftrightarrow> a = b"
  by (simp add: sessionLimitKey_def format_int_inj)

lemma windowCostKey_other [key_simps, simp]: "windowCostKey a \<noteq> sessionLimitKey b"
  by (simp add: sessionLimitKey_def windowCostKey_def windowCostKeyPrefix_def sessionLimitKeyPrefix_def)

section \<open>Active sessions\<close>

definition active_sessions :: "'s redis \<Rightarrow> int \<Rightarrow> id \<Rightarrow> 's \<Rightarrow> string set" where
  "active_sessions R idle a s =
     {u. \<exists>t. r_zscore R s (sessionLimitKey a) u = Some t \<and> time_sec R s - idle < t}"

lemma idle_seconds_pos: "0 < defaultIdleTimeout c div 1000000000 \<Longrightarrow> 0 < idle_seconds c d"
  by (auto simp: idle_seconds_def whole_seconds_def Let_def)

context redis_store
begin

lemma active_pruned:
  "dom (r_zscore R (r_zremrangebyscore R s (sessionLimitKey a) (time_sec R s - idle)) (sessionLimitKey a)) =
     active_sessions R idle a s"
  by (auto simp: active_sessions_def dom_def not_le split: if_splits)

lemma card_pruned:
  "r_zcard R (r_zremrangebyscore R s (sessionLimitKey a) (time_sec R s - idle)) (sessionLimitKey a) =
     int (card (active_sessions R idle a s))"
  by (simp add: zcard_card active_pruned)

lemma script_admits:
  assumes "0 < idle"
  shows "registerSessionScript R (sessionLimitKey a) mx idle u s =
    (let adm = (u \<in> active_sessions R idle a s \<or> int (card (active_sessions R idle a s)) < mx);
         s1 = r_zremrangebyscore R s (sessionLimitKey a) (time_sec R s - idle)
     in if adm then (1, r_expire R (r_zadd R s1 (sessionLimitKey a) (time_sec R s) u) (sessionLimitKey a) (idle + 60))
        else (0, s1))"
proof -
  have "r_zscore R (r_zremrangebyscore R s (sessionLimitKey a) (time_sec R s - idle)) (sessionLimitKey a) u \<noteq> None
      \<longleftrightarrow> u \<in> active_sessions R idle a s"
    unfolding active_pruned [symmetric] by (simp only: dom_def mem_Collect_eq)
  then show ?thesis unfolding registerSessionScript_def Let_def card_pruned by simp
qed

lemma active_register:
  assumes "0 < idle"
  shows "active_sessions R idle b (snd (registerSessionScript R (sessionLimitKey a) mx idle u s)) =
    (if b = a \<and> (u \<in> active_sessions R idle a s \<or> int (card (active_sessions R idle a s)) < mx)
     then insert u (active_sessions R idle b s) else active_sessions R idle b s)"
  using assms
  by (auto simp: script_admits [OF assms] Let_def active_sessions_def split: if_splits)

end

end
