(* ===== verification/Session_Properties.thy ===== *)
theory Session_Properties
  imports Session_Limit Slot_Properties
begin

text \<open>
  Session limits: exact admission by one call, and the limit as an invariant of
  every method under interference and network failure.
\<close>

lemma keeps_result: "keeps I p \<Longrightarrow> I (w_db w) \<Longrightarrow> net_keeps I w \<Longrightarrow> I (w_db (snd (p w)))"
  by (simp add: keeps_def)

definition sessions_within :: "'s redis \<Rightarrow> (id \<Rightarrow> int) \<Rightarrow> 's \<Rightarrow> bool" where
  "sessions_within R lim s \<longleftrightarrow> (\<forall>a. 0 < lim a \<longrightarrow> r_zcard R s (sessionLimitKey a) \<le> lim a)"

context redis_store
begin

lemma register_keeps: "sessions_within R lim s \<Longrightarrow>
    sessions_within R lim (snd (registerSessionScript R (sessionLimitKey a) (lim a) i u s))"
  unfolding sessions_within_def
proof (intro allI impI)
  fix b
  assume I: "\<forall>a. 0 < lim a \<longrightarrow> r_zcard R s (sessionLimitKey a) \<le> lim a" and b: "0 < lim b"
  let ?s1 = "r_zremrangebyscore R s (sessionLimitKey a) (time_sec R s - i)"
  have le: "r_zcard R ?s1 (sessionLimitKey b) \<le> lim b"
    using I b zcard_zremrange_le order_trans by blast
  then have "r_zcard R (r_zadd R ?s1 (sessionLimitKey a) sc u) (sessionLimitKey b) \<le> lim b"
    if "r_zscore R ?s1 (sessionLimitKey a) u \<noteq> None \<or> r_zcard R ?s1 (sessionLimitKey a) < lim a" for sc
    using that unfolding zcard_zadd [of ?s1] by auto
  with le show "r_zcard R (snd (registerSessionScript R (sessionLimitKey a) (lim a) i u s)) (sessionLimitKey b) \<le> lim b"
    unfolding registerSessionScript_def Let_def by (auto intro: order_trans [OF zcard_expire_le])
qed

lemma refresh_keeps: "sessions_within R lim s \<Longrightarrow>
    sessions_within R lim (snd (refreshSessionScript R (sessionLimitKey a) i u s))"
  unfolding sessions_within_def refreshSessionScript_def Let_def
  by (auto intro!: order_trans [OF zcard_expire_le] simp: zcard_zadd)

lemma count_keeps: "sessions_within R lim s \<Longrightarrow>
    sessions_within R lim (snd (getActiveSessionCountScript R k i s))"
  unfolding sessions_within_def getActiveSessionCountScript_def Let_def
  by (auto intro: order_trans [OF zcard_zremrange_le])

lemma active_keeps: "snd (isSessionActiveScript R k i u s) = s"
  by (simp add: isSessionActiveScript_def Let_def split: option.split)

lemma unregister_keeps: "sessions_within R lim s \<Longrightarrow> sessions_within R lim (r_zrem R s k u)"
  unfolding sessions_within_def by (auto intro: order_trans [OF zcard_zrem_le])

lemma pass_keeps: "sessions_within R lim s \<Longrightarrow> 0 \<le> d \<Longrightarrow> sessions_within R lim (r_pass R s d)"
  unfolding sessions_within_def by (auto intro: order_trans [OF zcard_pass_le])

lemma keeps_pipeline_each:
  "(\<And>f s. f \<in> set fs \<Longrightarrow> I s \<Longrightarrow> I (snd (f s))) \<Longrightarrow> keeps I (pipeline_each fs)"
  by (induction fs) (auto intro!: keeps_intros)

lemma cost_keeps: "sessions_within R lim s \<Longrightarrow> sessions_within R lim (r_set R s (windowCostKey a) v px)"
  unfolding sessions_within_def by (auto simp: zcard_set [OF windowCostKey_other [symmetric]])

lemmas session_keeps = register_keeps refresh_keeps count_keeps unregister_keeps cost_keeps

lemma methods_keep_sessions:
  "keeps (sessions_within R lim) (RegisterSession R c a u (lim a) d)"
  "keeps (sessions_within R lim) (UnregisterSession R a u)"
  "keeps (sessions_within R lim) (RefreshSession R c a u d)"
  "keeps (sessions_within R lim) (GetActiveSessionCount R c a)"
  "keeps (sessions_within R lim) (GetActiveSessionCountBatch R c as idles)"
  "keeps (sessions_within R lim) (IsSessionActive R c a u)"
  "keeps (sessions_within R lim) (SetWindowCost R pr a x)"
proof -
  show "keeps (sessions_within R lim) (RegisterSession R c a u (lim a) d)"
    unfolding RegisterSession_def
    by (intro keeps_intros register_keeps) (auto intro: keeps_intros split: sum.split)
  show "keeps (sessions_within R lim) (GetActiveSessionCountBatch R c as idles)"
    unfolding GetActiveSessionCountBatch_def
    by (intro keeps_intros keeps_pipeline_each) (auto intro: count_keeps)
qed (auto simp: UnregisterSession_def RefreshSession_def GetActiveSessionCount_def IsSessionActive_def
    SetWindowCost_def active_keeps intro!: keeps_intros session_keeps)

end

text \<open>
  Admission of sessions, on a working network: a session is admitted exactly
  when it is active already or fewer than \<open>maxSessions\<close> sessions are active; an
  admitted session becomes active, a refused one changes no active session, other
  accounts are unaffected, and the count then reported is the number of active
  sessions.
\<close>

theorem session_admission:
  assumes "redis_store R" and "u \<noteq> []" and "0 < mx" and "c = NewSessionLimitCache minutes"
    and "idle = whole_seconds (defaultIdleTimeout c)"
  shows "case RegisterSession R c a u mx 0 (quiet s) of (r, w) \<Rightarrow>
     let adm = (u \<in> active_sessions R idle a s \<or> int (card (active_sessions R idle a s)) < mx) in
     r = Inr (adm, None) \<and>
     (\<forall>b. active_sessions R idle b (w_db w) =
        (if b = a \<and> adm then insert u (active_sessions R idle b s) else active_sessions R idle b s)) \<and>
     fst (IsSessionActive R c a u w) = Inr adm \<and>
     fst (GetActiveSessionCount R c a w) = Inr (int (card (active_sessions R idle a (w_db w))))"
proof -
  have idle: "0 < idle"
    using assms(4,5) by (simp add: NewSessionLimitCache_def whole_seconds_def Let_def)
  let ?f = "registerSessionScript R (sessionLimitKey a) mx idle u"
  have reg: "RegisterSession R c a u mx 0 (quiet s) = (Inr (fst (?f s) = 1, None), quiet (snd (?f s)))"
    using assms(2,3,5) by (simp add: RegisterSession_def idle_seconds_def whole_seconds_def)
  note act = redis_store.active_register [OF assms(1) idle, of _ a mx u s]
  have fst: "(fst (?f s) = 1) \<longleftrightarrow>
      u \<in> active_sessions R idle a s \<or> int (card (active_sessions R idle a s)) < mx"
    by (simp add: redis_store.script_admits [OF assms(1) idle] Let_def)
  have isact: "fst (IsSessionActive R c a u (quiet x)) = Inr (u \<in> active_sessions R idle a x)" for x
    using assms(2,5)
    by (simp add: IsSessionActive_def isSessionActiveScript_def active_sessions_def Let_def not_le split: option.split)
  have count: "fst (GetActiveSessionCount R c a (quiet x)) = Inr (int (card (active_sessions R idle a x)))" for x
    using assms(5) redis_store.card_pruned [OF assms(1)]
    by (simp add: GetActiveSessionCount_def getActiveSessionCountScript_def Let_def)
  show ?thesis unfolding reg by (auto simp: Let_def act fst isact count)
qed

theorem session_admission_witness:
  "fst (RegisterSession ref_redis (NewSessionLimitCache 5) 7 ''u'' 1 0 (quiet db0)) = Inr (True, None)"
proof -
  have "active_sessions ref_redis 300 7 db0 = {}" by (simp add: active_sessions_def db0_def empty_db_def)
  then show ?thesis
    using session_admission [OF ref.redis_store_axioms _ _ refl refl, of "''u''" 1 5 7 db0]
    by (simp add: NewSessionLimitCache_def whole_seconds_def case_prod_beta Let_def)
qed

text \<open>
  C32. The session limit is never exceeded: whatever the other instances do that
  respects it, however requests and replies get lost and however much time passes,
  every method of the cache keeps the number of sessions recorded for an account
  within its limit.
\<close>

theorem session_limit_holds:
  assumes "redis_store R" and "sessions_within R lim (w_db w)" and "net_keeps (sessions_within R lim) w"
  shows "sessions_within R lim (w_db (snd (RegisterSession R c a u (lim a) d w))) \<and>
    sessions_within R lim (w_db (snd (UnregisterSession R a u w))) \<and>
    sessions_within R lim (w_db (snd (RefreshSession R c a u d w))) \<and>
    sessions_within R lim (w_db (snd (GetActiveSessionCount R c a w))) \<and>
    sessions_within R lim (w_db (snd (GetActiveSessionCountBatch R c as idles w))) \<and>
    sessions_within R lim (w_db (snd (IsSessionActive R c a u w))) \<and>
    (\<forall>e. 0 \<le> e \<longrightarrow> sessions_within R lim (r_pass R (w_db w) e))"
  using redis_store.pass_keeps [OF assms(1,2)]
  by (intro conjI keeps_result [OF _ assms(2,3)] redis_store.methods_keep_sessions [OF assms(1)]) blast

theorem session_limit_holds_witness:
  "sessions_within ref_redis (\<lambda>_. 1)
     (w_db (snd (RegisterSession ref_redis (NewSessionLimitCache 5) 7 ''v'' 1 0
        \<lparr>w_db = db0, w_net = [(\<lambda>s. s, ReplyLost)]\<rparr>)))"
  using session_limit_holds [OF ref.redis_store_axioms, of "\<lambda>_. 1" "\<lparr>w_db = db0, w_net = [(\<lambda>s. s, ReplyLost)]\<rparr>"
      "NewSessionLimitCache 5" 7 "''v''"]
  by (simp add: sessions_within_def net_keeps_def db0_def empty_db_def ref_zcard)

end
