(* ===== verification/Lease_Lock.thy ===== *)
theory Lease_Lock
  imports Redis_Net
begin

text \<open>
  A lock with an owner and a lifetime, as both the message queue and the leader
  election take it: an interface (\<open>lease_lock\<close>), the interleavings of its users
  (\<open>lease_steps\<close>), and mutual exclusion of the grants that have not lapsed.
\<close>

text \<open>
  A configuration is the server state and the grants handed out: owner and the
  millisecond until which the grant is good.  \<open>env\<close> is what others may do.
\<close>

inductive lease_steps ::
    "('s \<Rightarrow> int) \<Rightarrow> (string \<Rightarrow> 's \<Rightarrow> bool \<times> 's) \<Rightarrow> (string \<Rightarrow> 's \<Rightarrow> bool \<times> 's) \<Rightarrow> ('s \<Rightarrow> int \<Rightarrow> 's) \<Rightarrow>
     ('s \<Rightarrow> 's \<Rightarrow> bool) \<Rightarrow> int \<Rightarrow> 's \<Rightarrow> 's \<times> (string \<times> int) list \<Rightarrow> bool"
  for clock grab free pass env ttl s0 where
  start: "lease_steps clock grab free pass env ttl s0 (s0, [])"
| granted: "lease_steps clock grab free pass env ttl s0 (s, gs) \<Longrightarrow> grab u s = (True, s') \<Longrightarrow>
    lease_steps clock grab free pass env ttl s0 (s', (u, clock s + ttl) # filter (\<lambda>g. fst g \<noteq> u) gs)"
| denied: "lease_steps clock grab free pass env ttl s0 (s, gs) \<Longrightarrow> grab u s = (False, s') \<Longrightarrow>
    lease_steps clock grab free pass env ttl s0 (s', gs)"
| released: "lease_steps clock grab free pass env ttl s0 (s, gs) \<Longrightarrow> free u s = (b, s') \<Longrightarrow>
    lease_steps clock grab free pass env ttl s0 (s', filter (\<lambda>g. fst g \<noteq> u) gs)"
| waited: "lease_steps clock grab free pass env ttl s0 (s, gs) \<Longrightarrow> 0 \<le> d \<Longrightarrow>
    lease_steps clock grab free pass env ttl s0 (pass s d, gs)"
| others: "lease_steps clock grab free pass env ttl s0 (s, gs) \<Longrightarrow> env s s' \<Longrightarrow>
    lease_steps clock grab free pass env ttl s0 (s', gs)"

text \<open>The grants whose lifetime has not run out.\<close>

definition live_grants :: "int \<Rightarrow> (string \<times> int) list \<Rightarrow> string set" where
  "live_grants now gs = fst ` {g \<in> set gs. now < snd g}"

lemma live_grants_single [simp]: "live_grants now [(u, e)] = (if now < e then {u} else {})"
  by (auto simp: live_grants_def)

locale lease_lock =
  fixes clock :: "'s \<Rightarrow> int"
    and holder :: "'s \<Rightarrow> string option"
    and ends :: "'s \<Rightarrow> int option"
    and grab :: "string \<Rightarrow> 's \<Rightarrow> bool \<times> 's"
    and free :: "string \<Rightarrow> 's \<Rightarrow> bool \<times> 's"
    and pass :: "'s \<Rightarrow> int \<Rightarrow> 's"
    and env :: "'s \<Rightarrow> 's \<Rightarrow> bool"
    and ttl :: int
  assumes grab_granted: "grab u s = (True, s') \<Longrightarrow>
      (holder s = None \<or> holder s = Some u) \<and> holder s' = Some u \<and> ends s' = Some (clock s + ttl) \<and> clock s' = clock s"
    and grab_denied: "grab u s = (False, s') \<Longrightarrow> holder s' = holder s \<and> ends s' = ends s \<and> clock s' = clock s"
    and free_own: "holder s = Some u \<Longrightarrow> holder (snd (free u s)) = None \<and> clock (snd (free u s)) = clock s"
    and free_other: "holder s \<noteq> Some u \<Longrightarrow>
      holder (snd (free u s)) = holder s \<and> ends (snd (free u s)) = ends s \<and> clock (snd (free u s)) = clock s"
    and pass_mono: "0 \<le> d \<Longrightarrow> clock s \<le> clock (pass s d)"
    and pass_live: "0 \<le> d \<Longrightarrow> ends s = Some t \<Longrightarrow> clock (pass s d) < t \<Longrightarrow>
      holder (pass s d) = holder s \<and> ends (pass s d) = Some t"
    and env_clock: "env s s' \<Longrightarrow> clock s' = clock s"
    and env_live: "env s s' \<Longrightarrow> ends s = Some t \<Longrightarrow> clock s < t \<Longrightarrow> holder s' = holder s \<and> ends s' = Some t"
begin

lemma lease_invariant:
  assumes "lease_steps clock grab free pass env ttl s0 x"
  shows "\<forall>(u, e) \<in> set (snd x). clock (fst x) < e \<longrightarrow>
    holder (fst x) = Some u \<and> (\<exists>t. ends (fst x) = Some t \<and> e \<le> t)"
  using assms
proof induction
  case (granted s gs u s')
  from grab_granted [OF granted.hyps(2)] granted.IH show ?case by fastforce
next
  case (denied s gs u s')
  from grab_denied [OF denied.hyps(2)] denied.IH show ?case by auto
next
  case (released s gs u b s')
  then have s': "s' = snd (free u s)" by simp
  show ?case
  proof (cases "holder s = Some u")
    case True
    with free_own [OF True] released.IH s' show ?thesis by fastforce
  next
    case False
    with free_other [OF False] released.IH s' show ?thesis by auto
  qed
next
  case (waited s gs d)
  show ?case
  proof (clarsimp)
    fix u e
    assume g: "(u, e) \<in> set gs" and lt: "clock (pass s d) < e"
    from waited.IH g lt pass_mono [OF waited.hyps(2), of s] obtain t where
      t: "holder s = Some u" "ends s = Some t" "e \<le> t" by fastforce
    with pass_live [OF waited.hyps(2) t(2)] lt
    show "holder (pass s d) = Some u \<and> (\<exists>t. ends (pass s d) = Some t \<and> e \<le> t)" by auto
  qed
next
  case (others s gs s')
  from env_clock [OF others.hyps(2)] env_live [OF others.hyps(2)] others.IH show ?case by fastforce
qed simp

lemma exclusive:
  assumes "lease_steps clock grab free pass env ttl s0 (s, gs)" and "u \<in> live_grants (clock s) gs"
  shows "holder s = Some u \<and> live_grants (clock s) gs = {u}"
proof -
  have H: "holder s = Some v" if "v \<in> live_grants (clock s) gs" for v
    using lease_invariant [OF assms(1)] that by (auto simp: live_grants_def)
  have "v = u" if "v \<in> live_grants (clock s) gs" for v using H [OF that] H [OF assms(2)] by simp
  then show ?thesis using H [OF assms(2)] assms(2) by blast
qed

end

end
