(* ===== verification/Msg_Queue.thy ===== *)
theory Msg_Queue
  imports Lease_Lock
begin

text \<open>
  The serial queue of user messages (\<open>user_msg_queue_cache.go\<close> and the lock
  methods of \<open>user_msg_queue_service.go\<close>): a re-entrant lock per account, the time
  of the last completion, and the index of locks the background worker visits.
\<close>

section \<open>Keys\<close>

definition umqKeyPrefix :: string where "umqKeyPrefix = ''umq:''"
definition umqLockSuffix :: string where "umqLockSuffix = '':lock''"
definition umqLastSuffix :: string where "umqLastSuffix = '':last''"
definition umqLockIndexKey :: key where "umqLockIndexKey = ''umq:lock:index''"
definition umqLockIndexCleanupBatchSize :: int where "umqLockIndexCleanupBatchSize = 1000"

definition umqLockKey :: "id \<Rightarrow> key" where
  "umqLockKey accountID = umqKeyPrefix @ ''{'' @ format_int accountID @ ''}'' @ umqLockSuffix"

definition umqLastKey :: "id \<Rightarrow> key" where
  "umqLastKey accountID = umqKeyPrefix @ ''{'' @ format_int accountID @ ''}'' @ umqLastSuffix"

section \<open>Scripts\<close>

text \<open>Replies: whether the lock was taken, and when it expires (milliseconds).\<close>

definition acquireLockScript :: "'s redis \<Rightarrow> key \<Rightarrow> string \<Rightarrow> int \<Rightarrow> 's \<Rightarrow> (int \<times> int) \<times> 's" where
  "acquireLockScript R key requestID ttl s =
     (let cur = r_get R s key in
      if cur = Some requestID
      then (let s = r_pexpire R s key ttl; ms = time_ms R s in ((1, ms + ttl), s))
      else if cur \<noteq> None
      then (let ms = time_ms R s; pttl = r_pttl R s key
            in if pttl > 0 then ((0, ms + pttl), s) else ((0, ms), s))
      else (let s = r_set R s key requestID (Some ttl); ms = time_ms R s in ((1, ms + ttl), s)))"

definition releaseLockScript :: "'s redis \<Rightarrow> key \<Rightarrow> key \<Rightarrow> string \<Rightarrow> 's \<Rightarrow> int \<times> 's" where
  "releaseLockScript R lockKey lastKey requestID s =
     (if r_get R s lockKey = Some requestID
      then (let s = r_del R s lockKey;
                ms = time_ms R s;
                s = r_set R s lastKey (format_int ms) (Some 60000)
            in (1, s))
      else (0, s))"

definition reconcileLockScript :: "'s redis \<Rightarrow> key \<Rightarrow> 's \<Rightarrow> (int \<times> int) \<times> 's" where
  "reconcileLockScript R key s =
     (let pttl = r_pttl R s key in
      if pttl = -2 then ((-2, 0), s)
      else if pttl = -1 then ((-1, 0), r_del R s key)
      else ((1, pttl), s))"

section \<open>The cache\<close>

text \<open>The index writes are best effort; the reply of the lock script decides.\<close>

definition AcquireLock :: "'s redis \<Rightarrow> id \<Rightarrow> string \<Rightarrow> int \<Rightarrow> ('s, bool) prog" where
  "AcquireLock R accountID requestID lockTtlMs =
     bindW (round_trip (acquireLockScript R (umqLockKey accountID) requestID lockTtlMs)) (\<lambda>(acquired, expireAtMs).
       bindW (if expireAtMs > 0
              then tryW (update (\<lambda>s. r_zadd R s umqLockIndexKey expireAtMs (format_int accountID)))
              else returnW ())
         (\<lambda>_. returnW (acquired = 1)))"

definition ReleaseLock :: "'s redis \<Rightarrow> id \<Rightarrow> string \<Rightarrow> ('s, bool) prog" where
  "ReleaseLock R accountID requestID =
     bindW (round_trip (releaseLockScript R (umqLockKey accountID) (umqLastKey accountID) requestID)) (\<lambda>result.
       bindW (if result = 1
              then tryW (update (\<lambda>s. r_zrem R s umqLockIndexKey (format_int accountID)))
              else returnW ())
         (\<lambda>_. returnW (result = 1)))"

definition GetLastCompletedMs :: "'s redis \<Rightarrow> id \<Rightarrow> ('s, int) prog" where
  "GetLastCompletedMs R accountID =
     bindW (query (\<lambda>s. r_get R s (umqLastKey accountID)))
       (\<lambda>v. case v of None \<Rightarrow> returnW 0
          | Some val \<Rightarrow> (case parse_int val of None \<Rightarrow> failW (ErrInvalid ''umq parse last completed'')
              | Some ms \<Rightarrow> returnW ms))"

definition GetCurrentTimeMs :: "'s redis \<Rightarrow> ('s, int) prog" where
  "GetCurrentTimeMs R = query (time_ms R)"

definition removeLockIndexMember :: "'s redis \<Rightarrow> member \<Rightarrow> ('s, unit) prog" where
  "removeLockIndexMember R mem = tryW (update (\<lambda>s. r_zrem R s umqLockIndexKey mem))"

text \<open>One candidate of the reconcile loop; its result is the number of locks cleaned (0 or 1).\<close>

definition reconcile_member :: "'s redis \<Rightarrow> int \<Rightarrow> member \<Rightarrow> ('s, int) prog" where
  "reconcile_member R nowMs mem =
     (case parse_int mem of
        None \<Rightarrow> bindW (removeLockIndexMember R mem) (\<lambda>_. returnW 0)
      | Some accountID \<Rightarrow>
          if accountID \<le> 0 then bindW (removeLockIndexMember R mem) (\<lambda>_. returnW 0)
          else bindW (round_trip (reconcileLockScript R (umqLockKey accountID))) (\<lambda>(status, pttl).
            if status = -2 then bindW (removeLockIndexMember R mem) (\<lambda>_. returnW 0)
            else if status = -1 then bindW (removeLockIndexMember R mem) (\<lambda>_. returnW 1)
            else if status = 1
            then bindW (tryW (update (\<lambda>s. r_zadd R s umqLockIndexKey (nowMs + pttl) mem))) (\<lambda>_. returnW 0)
            else returnW 0))"

text \<open>An error ends the loop with the count so far; both are returned.\<close>

fun reconcile_loop :: "'s redis \<Rightarrow> int \<Rightarrow> member list \<Rightarrow> int \<Rightarrow> ('s, int \<times> err option) prog" where
  "reconcile_loop R nowMs [] cleaned = returnW (cleaned, None)"
| "reconcile_loop R nowMs (mem # rest) cleaned =
     bindW (catchW (reconcile_member R nowMs mem))
       (\<lambda>r. case r of Inl e \<Rightarrow> returnW (cleaned, Some e)
          | Inr n \<Rightarrow> reconcile_loop R nowMs rest (cleaned + n))"

definition ReconcileExpiredLockCandidates :: "'s redis \<Rightarrow> int \<Rightarrow> ('s, int \<times> err option) prog" where
  "ReconcileExpiredLockCandidates R maxCount =
     (let maxCount = (if maxCount \<le> 0 then umqLockIndexCleanupBatchSize else maxCount)
      in bindW (GetCurrentTimeMs R) (\<lambda>nowMs.
           bindW (query (\<lambda>s. r_zrangebyscore R s umqLockIndexKey nowMs (nat maxCount)))
             (\<lambda>members. reconcile_loop R nowMs members 0)))"

section \<open>The service\<close>

record QueueLockResult =
  Acquired :: bool
  RequestID :: string

text \<open>
  \<open>cache\<close> tells whether a cache is configured; \<open>requestID\<close> is what
  \<open>generateUMQRequestID\<close> drew from the system's random source.
\<close>

definition TryAcquire :: "'s redis \<Rightarrow> bool \<Rightarrow> int \<Rightarrow> string \<Rightarrow> id \<Rightarrow> ('s, QueueLockResult) prog" where
  "TryAcquire R cache cfgLockTTLMs requestID accountID =
     (if \<not> cache then returnW \<lparr>Acquired = True, RequestID = []\<rparr>
      else (let lockTTL = (if cfgLockTTLMs \<le> 0 then 120000 else cfgLockTTLMs)
            in bindW (catchW (AcquireLock R accountID requestID lockTTL))
                 (\<lambda>r. case r of Inl _ \<Rightarrow> returnW \<lparr>Acquired = True, RequestID = []\<rparr>
                    | Inr acquired \<Rightarrow> returnW \<lparr>Acquired = acquired, RequestID = requestID\<rparr>)))"

definition ReleaseQueueLock :: "'s redis \<Rightarrow> bool \<Rightarrow> id \<Rightarrow> string \<Rightarrow> ('s, unit) prog" where
  "ReleaseQueueLock R cache accountID requestID =
     (if \<not> cache \<or> requestID = [] then returnW ()
      else bindW (ReleaseLock R accountID requestID) (\<lambda>_. returnW ()))"

section \<open>Keys are apart\<close>

lemma umqLockKey_inj [key_simps, simp]: "umqLockKey a = umqLockKey b \<longleftrightarrow> a = b"
  by (simp add: umqLockKey_def format_int_inj)

lemma umq_keys_differ [key_simps, simp]:
  "umqLockKey a \<noteq> umqLockIndexKey" "umqLastKey a \<noteq> umqLockIndexKey" "umqLockKey a \<noteq> umqLastKey b"
proof -
  show "umqLockKey a \<noteq> umqLockIndexKey" "umqLastKey a \<noteq> umqLockIndexKey"
    by (simp_all add: umqLockKey_def umqLastKey_def umqLockIndexKey_def umqKeyPrefix_def)
  have "rev (umqLockKey a) \<noteq> rev (umqLastKey b)"
    by (simp add: umqLockKey_def umqLastKey_def umqLockSuffix_def umqLastSuffix_def)
  then show "umqLockKey a \<noteq> umqLastKey b" by metis
qed

section \<open>The lock as a lease\<close>

definition queue_grab :: "'s redis \<Rightarrow> key \<Rightarrow> int \<Rightarrow> string \<Rightarrow> 's \<Rightarrow> bool \<times> 's" where
  "queue_grab R key ttl u s = (case acquireLockScript R key u ttl s of ((a, _), s') \<Rightarrow> (a = 1, s'))"

definition queue_free :: "'s redis \<Rightarrow> key \<Rightarrow> key \<Rightarrow> string \<Rightarrow> 's \<Rightarrow> bool \<times> 's" where
  "queue_free R lockKey lastKey u s = (case releaseLockScript R lockKey lastKey u s of (n, s') \<Rightarrow> (n = 1, s'))"

text \<open>
  Others may run the reconcile script on the lock or do anything that leaves the
  clock and the lock's value and deadline alone (the index, other accounts).
\<close>

definition queue_env :: "'s redis \<Rightarrow> key \<Rightarrow> 's \<Rightarrow> 's \<Rightarrow> bool" where
  "queue_env R key s s' \<longleftrightarrow>
     s' = snd (reconcileLockScript R key s) \<or>
     r_us R s' = r_us R s \<and> r_get R s' key = r_get R s key \<and> r_deadline R s' key = r_deadline R s key"

locale queue_lock = redis_store R for R :: "'s redis" +
  fixes account :: id and ttl :: int
  assumes ttl_pos: "0 < ttl"

sublocale queue_lock \<subseteq> queue: lease_lock "time_ms R" "\<lambda>s. r_get R s (umqLockKey account)"
    "\<lambda>s. r_deadline R s (umqLockKey account)" "queue_grab R (umqLockKey account) ttl"
    "queue_free R (umqLockKey account) (umqLastKey account)" "r_pass R" "queue_env R (umqLockKey account)" ttl
proof (unfold_locales, goal_cases)
  case (1 u s s')
  then show ?case using ttl_pos
    by (auto simp: queue_grab_def acquireLockScript_def Let_def time_ms_us get_set deadline_set deadline_pexpire
        r_exists_def split: if_splits)
next
  case (2 u s s')
  then show ?case by (auto simp: queue_grab_def acquireLockScript_def Let_def split: if_splits)
next
  case (3 s u)
  then show ?case by (simp add: queue_free_def releaseLockScript_def Let_def time_ms_us get_set)
next
  case (4 s u)
  then show ?case by (simp add: queue_free_def releaseLockScript_def Let_def)
next
  case (5 d s)
  then show ?case by (simp add: time_ms_us us_pass zdiv_mono1)
next
  case (6 d s t)
  then show ?case by (simp add: time_ms_us us_pass get_pass deadline_pass)
next
  case (7 s s')
  then show ?case by (auto simp: queue_env_def reconcileLockScript_def Let_def time_ms_us)
next
  case (8 s s' t)
  then have "r_exists R s (umqLockKey account)" by (intro deadline_exists)
  with 8 have "r_pttl R s (umqLockKey account) = t - time_ms R s" "0 < t - time_ms R s"
    by (simp_all add: r_pttl_def)
  with 8 show ?case by (auto simp: queue_env_def reconcileLockScript_def Let_def)
qed

context queue_lock
begin

lemmas queue_exclusive = queue.exclusive

end

text \<open>The default lifetime, 120 seconds, on the reference server.\<close>

interpretation default_queue: queue_lock ref_redis 7 120000
  by unfold_locales simp

end
