(* ===== verification/Leader_Lock.thy ===== *)
theory Leader_Lock
  imports Lease_Lock
begin

text \<open>
  Leader election of the background jobs (\<open>leader_lock_cache.go\<close>,
  \<open>leader_lock.go\<close>): \<open>SET key owner NX\<close> with a lifetime, compare-and-delete, and
  the fallback to a Postgres advisory lock.  Lifetimes are nanoseconds.
\<close>

definition leaderLockKeyPrefix :: key where
  "leaderLockKeyPrefix = ''leader:lock:''"

definition leaderLockReleaseScript :: "'s redis \<Rightarrow> key \<Rightarrow> string \<Rightarrow> 's \<Rightarrow> int \<times> 's" where
  "leaderLockReleaseScript R key owner s =
     (if r_get R s key = Some owner then (1, r_del R s key) else (0, s))"

text \<open>
  The client's \<open>SetNX\<close>: no expiry for a zero lifetime, else milliseconds, at least one.
\<close>

definition px_of :: "int \<Rightarrow> int option" where
  "px_of ttl = (if ttl \<le> 0 then None else Some (max 1 (ttl div 1000000)))"

definition setnx :: "'s redis \<Rightarrow> key \<Rightarrow> string \<Rightarrow> int option \<Rightarrow> 's \<Rightarrow> bool \<times> 's" where
  "setnx R key v px s = (if r_exists R s key then (False, s) else (True, r_set R s key v px))"

definition TryAcquireLeaderLock :: "'s redis \<Rightarrow> string \<Rightarrow> string \<Rightarrow> int \<Rightarrow> ('s, bool) prog" where
  "TryAcquireLeaderLock R key owner ttl = round_trip (setnx R (leaderLockKeyPrefix @ key) owner (px_of ttl))"

definition ReleaseLeaderLock :: "'s redis \<Rightarrow> string \<Rightarrow> string \<Rightarrow> ('s, unit) prog" where
  "ReleaseLeaderLock R key owner =
     bindW (round_trip (leaderLockReleaseScript R (leaderLockKeyPrefix @ key) owner)) (\<lambda>_. returnW ())"

text \<open>What the caller got: nothing, a Redis lock, the advisory lock, or no gate at all.\<close>

datatype leadership = NotLeader | RedisLeader | AdvisoryLeader | Ungated

text \<open>
  \<open>cache\<close> tells whether a lock cache is configured; \<open>db\<close> is \<open>None\<close> without a
  database, else the outcome of \<open>pg_try_advisory_lock\<close>.
\<close>

definition tryAcquireSingletonLeaderLock ::
    "'s redis \<Rightarrow> bool \<Rightarrow> bool option \<Rightarrow> string \<Rightarrow> string \<Rightarrow> int \<Rightarrow> ('s, leadership) prog" where
  "tryAcquireSingletonLeaderLock R cache db key owner ttl =
     (let fallback = (case db of Some granted \<Rightarrow> if granted then AdvisoryLeader else NotLeader | None \<Rightarrow> Ungated)
      in if cache
         then bindW (catchW (TryAcquireLeaderLock R key owner ttl))
                (\<lambda>r. case r of Inr ok \<Rightarrow> returnW (if ok then RedisLeader else NotLeader)
                   | Inl _ \<Rightarrow> returnW fallback)
         else returnW fallback)"

definition release_leadership :: "'s redis \<Rightarrow> string \<Rightarrow> string \<Rightarrow> leadership \<Rightarrow> ('s, unit) prog" where
  "release_leadership R key owner l =
     (if l = RedisLeader then tryW (ReleaseLeaderLock R key owner) else returnW ())"

section \<open>The lock as a lease\<close>

definition leader_free :: "'s redis \<Rightarrow> key \<Rightarrow> string \<Rightarrow> 's \<Rightarrow> bool \<times> 's" where
  "leader_free R key u s = (case leaderLockReleaseScript R key u s of (n, s') \<Rightarrow> (n = 1, s'))"

text \<open>Others leave the clock and the lock alone.\<close>

definition leader_env :: "'s redis \<Rightarrow> key \<Rightarrow> 's \<Rightarrow> 's \<Rightarrow> bool" where
  "leader_env R key s s' \<longleftrightarrow>
     r_us R s' = r_us R s \<and> r_get R s' key = r_get R s key \<and> r_deadline R s' key = r_deadline R s key"

locale leader_lock = redis_store R for R :: "'s redis" +
  fixes job :: key and ms :: int
  assumes ms_pos: "0 < ms"

sublocale leader_lock \<subseteq> leader: lease_lock "time_ms R" "\<lambda>s. r_get R s job" "\<lambda>s. r_deadline R s job"
    "\<lambda>u. setnx R job u (Some ms)" "leader_free R job" "r_pass R" "leader_env R job" ms
proof (unfold_locales, goal_cases)
  case (1 u s s')
  then show ?case using ms_pos
    by (auto simp: setnx_def time_ms_us get_set deadline_set r_exists_def split: if_splits)
next
  case (2 u s s')
  then show ?case by (simp add: setnx_def split: if_splits)
next
  case (3 s u)
  then show ?case by (simp add: leader_free_def leaderLockReleaseScript_def time_ms_us)
next
  case (4 s u)
  then show ?case by (simp add: leader_free_def leaderLockReleaseScript_def)
next
  case (5 d s)
  then show ?case by (simp add: time_ms_us us_pass zdiv_mono1)
next
  case (6 d s t)
  then show ?case by (simp add: time_ms_us us_pass get_pass deadline_pass)
qed (simp_all add: leader_env_def time_ms_us)

context leader_lock
begin

lemmas leader_exclusive = leader.exclusive

end

interpretation minute_leader: leader_lock ref_redis "leaderLockKeyPrefix @ ''usage''" 60000
  by unfold_locales simp

end
