(* ===== verification/Lock_Properties.thy ===== *)
theory Lock_Properties
  imports Msg_Queue Leader_Lock Slot_Properties
begin

text \<open>
  Mutual exclusion of the message-queue lock and of the leader lock, and what the
  background worker does to the index of queue locks.
\<close>

text \<open>
  C25. The message-queue lock excludes: in every interleaving of acquisitions,
  releases, reconciliations, other commands and time, at most one request holds an
  unexpired grant for the account, Redis names it as the holder, and on a working
  network any other request is refused and its release changes nothing.
\<close>

theorem queue_lock_excludes:
  assumes "redis_store R" and "0 < ttl"
    and "lease_steps (time_ms R) (queue_grab R (umqLockKey a) ttl) (queue_free R (umqLockKey a) (umqLastKey a))
           (r_pass R) (queue_env R (umqLockKey a)) ttl s0 (s, gs)"
    and "u \<in> live_grants (time_ms R s) gs"
  shows "r_get R s (umqLockKey a) = Some u \<and> live_grants (time_ms R s) gs = {u} \<and>
    (\<forall>v. v \<noteq> u \<longrightarrow> fst (AcquireLock R a v ttl (quiet s)) = Inr False \<and>
       ReleaseLock R a v (quiet s) = (Inr False, quiet s))"
proof -
  have L: "queue_lock R ttl" using assms(1,2) by (simp add: queue_lock_def queue_lock_axioms_def)
  have H: "r_get R s (umqLockKey a) = Some u \<and> live_grants (time_ms R s) gs = {u}"
    by (rule queue_lock.queue_exclusive [OF L assms(3,4)])
  then show ?thesis
    by (auto simp: AcquireLock_def acquireLockScript_def ReleaseLock_def releaseLockScript_def Let_def)
qed

theorem queue_lock_excludes_witness:
  "fst (AcquireLock ref_redis 7 ''b'' 1000 (quiet (snd (queue_grab ref_redis (umqLockKey 7) 1000 ''a'' db0)))) = Inr False"
proof -
  let ?r = "queue_grab ref_redis (umqLockKey 7) 1000 ''a'' db0"
  have r: "?r = (True, snd ?r)" "time_ms ref_redis (snd ?r) = time_ms ref_redis db0"
    by (simp_all add: queue_grab_def acquireLockScript_def time_ms_def ref_eval)
  have S: "lease_steps (time_ms ref_redis) (queue_grab ref_redis (umqLockKey 7) 1000) (queue_free ref_redis (umqLockKey 7) (umqLastKey 7)) (r_pass ref_redis)
      (queue_env ref_redis (umqLockKey 7)) 1000 db0 (snd ?r, [(''a'', time_ms ref_redis db0 + 1000)])"
    using lease_steps.granted [where gs = "[]" and grab = "queue_grab ref_redis (umqLockKey 7) 1000" and u = "''a''" and s' = "snd ?r",
        OF lease_steps.start r(1)] by simp
  from queue_lock_excludes [OF ref.redis_store_axioms _ S, of "''a''"] r(2) show ?thesis
    by simp
qed

text \<open>
  The leader lock excludes while Redis answers: in every interleaving of its grants at most one
  instance leads on an unexpired grant (an instance that falls back to the advisory lock of the database, or
  runs without a lock, is not bound by it); a former leader's release never removes the lock of the
  present one, and on a working network another instance is told to skip the run.
\<close>

theorem leader_lock_excludes:
  assumes "redis_store R" and "px_of ttl = Some ms"
    and "lease_steps (time_ms R) (\<lambda>v. setnx R (leaderLockKeyPrefix @ job) v (Some ms))
           (leader_free R (leaderLockKeyPrefix @ job)) (r_pass R) (leader_env R (leaderLockKeyPrefix @ job)) ms s0 (s, gs)"
    and "u \<in> live_grants (time_ms R s) gs"
  shows "live_grants (time_ms R s) gs = {u} \<and>
    (\<forall>v db. tryAcquireSingletonLeaderLock R True db job v ttl (quiet s) = (Inr NotLeader, quiet s)) \<and>
    (\<forall>v. v \<noteq> u \<longrightarrow> release_leadership R job v RedisLeader (quiet s) = (Inr (), quiet s)) \<and>
    r_get R (w_db (snd (release_leadership R job u RedisLeader (quiet s)))) (leaderLockKeyPrefix @ job) = None"
proof -
  have "0 < ms" using assms(2) by (auto simp: px_of_def split: if_splits)
  then have L: "leader_lock R ms" using assms(1) by (simp add: leader_lock_def leader_lock_axioms_def)
  have H: "r_get R s (leaderLockKeyPrefix @ job) = Some u \<and> live_grants (time_ms R s) gs = {u}"
    by (rule leader_lock.leader_exclusive [OF L assms(3,4)])
  then show ?thesis
    by (auto simp: tryAcquireSingletonLeaderLock_def TryAcquireLeaderLock_def setnx_def r_exists_def
        release_leadership_def ReleaseLeaderLock_def leaderLockReleaseScript_def Let_def
        redis_store.get_del [OF assms(1)])
qed

theorem leader_lock_excludes_witness:
  "fst (tryAcquireSingletonLeaderLock ref_redis True None ''j'' ''b'' 60000000000
     (quiet (snd (setnx ref_redis (leaderLockKeyPrefix @ ''j'') ''a'' (Some 60000) db0)))) = Inr NotLeader"
proof -
  let ?r = "setnx ref_redis (leaderLockKeyPrefix @ ''j'') ''a'' (Some 60000) db0"
  have r: "?r = (True, snd ?r)" "time_ms ref_redis (snd ?r) = time_ms ref_redis db0"
    by (simp_all add: setnx_def time_ms_def ref_eval)
  have S: "lease_steps (time_ms ref_redis) (\<lambda>v. setnx ref_redis (leaderLockKeyPrefix @ ''j'') v (Some 60000)) (leader_free ref_redis (leaderLockKeyPrefix @ ''j'')) (r_pass ref_redis)
      (leader_env ref_redis (leaderLockKeyPrefix @ ''j'')) 60000 db0 (snd ?r, [(''a'', time_ms ref_redis db0 + 60000)])"
    using lease_steps.granted [where gs = "[]" and grab = "\<lambda>v. setnx ref_redis (leaderLockKeyPrefix @ ''j'') v (Some 60000)" and u = "''a''" and s' = "snd ?r",
        OF lease_steps.start r(1)] by simp
  from leader_lock_excludes [OF ref.redis_store_axioms _ S, of 60000000000 "''a''"] r(2) show ?thesis
    by (simp add: px_of_def)
qed

section \<open>The index of queue locks\<close>

text \<open>A lock that would block its queue for ever: it exists and has no deadline.\<close>

definition stuck_lock :: "'s redis \<Rightarrow> 's \<Rightarrow> id \<Rightarrow> bool" where
  "stuck_lock R s a \<longleftrightarrow> r_exists R s (umqLockKey a) \<and> r_deadline R s (umqLockKey a) = None"

text \<open>No key is past its deadline: Redis does not show expired keys.\<close>

definition no_overdue :: "'s redis \<Rightarrow> 's \<Rightarrow> bool" where
  "no_overdue R s \<longleftrightarrow> (\<forall>a t. r_deadline R s (umqLockKey a) = Some t \<longrightarrow> time_ms R s < t)"

context redis_store
begin

lemma exists_cong:
  "(\<And>m. r_zscore R s' k m = r_zscore R s k m) \<Longrightarrow> r_get R s' k = r_get R s k \<Longrightarrow> r_exists R s' k = r_exists R s k"
  by (simp add: r_exists_def members_Nil)

lemma reconcile_one:
  assumes a: "0 < a" "in_int64 a" and no: "no_overdue R s"
  defines "r \<equiv> reconcile_member R (time_ms R s) (format_int a) (quiet s)"
  shows "\<exists>s'. r = (Inr (if stuck_lock R s a then 1 else 0), quiet s') \<and>
    r_us R s' = r_us R s \<and>
    (\<forall>b. r_get R s' (umqLockKey b) = (if b = a \<and> stuck_lock R s a then None else r_get R s (umqLockKey b)) \<and>
         r_deadline R s' (umqLockKey b) = r_deadline R s (umqLockKey b) \<and>
         (r_exists R s' (umqLockKey b) \<longleftrightarrow> r_exists R s (umqLockKey b) \<and> \<not> (b = a \<and> stuck_lock R s a))) \<and>
    (\<forall>m. r_zscore R s' umqLockIndexKey m =
        (if m \<noteq> format_int a then r_zscore R s umqLockIndexKey m else r_deadline R s (umqLockKey a)))"
proof -
  let ?k = "umqLockKey a" and ?m = "format_int a"
  have p: "parse_int ?m = Some a" using a by (simp add: parse_int_format_int)
  have K: "umqLockIndexKey \<noteq> umqLockKey b" for b by (rule umq_keys_differ(1) [symmetric])
  have exz: "r_exists R (r_zrem R x umqLockIndexKey ?m) (umqLockKey b) = r_exists R x (umqLockKey b)"
    "r_exists R (r_zadd R x umqLockIndexKey sc ?m) (umqLockKey b) = r_exists R x (umqLockKey b)" for x b sc
    by (rule exists_cong; simp)+
  have dlz: "r_deadline R (r_zrem R x umqLockIndexKey ?m) (umqLockKey b) = r_deadline R x (umqLockKey b)" for x b
    using deadline_exists [of x "umqLockKey b"] by (cases "r_deadline R x (umqLockKey b)") (simp_all add: deadline_zrem exz)
  have exd: "r_exists R (r_del R s ?k) (umqLockKey b) = (r_exists R s (umqLockKey b) \<and> b \<noteq> a)" for b
    by (cases "b = a") (simp_all add: r_exists_def members_Nil)
  consider "\<not> r_exists R s ?k" | "stuck_lock R s a" | t where "r_exists R s ?k" "r_deadline R s ?k = Some t"
    by (cases "r_deadline R s ?k") (auto simp: stuck_lock_def)
  then show ?thesis
  proof cases
    case 1
    then have d: "r_deadline R s ?k = None" using deadline_exists [of s ?k] by (cases "r_deadline R s ?k") auto
    from 1 have "r = (Inr 0, quiet (r_zrem R s umqLockIndexKey ?m))"
      using a by (simp add: r_def reconcile_member_def p reconcileLockScript_def r_pttl_def removeLockIndexMember_def)
    with 1 d show ?thesis by (auto simp: stuck_lock_def exz dlz)
  next
    case 2
    then have "r = (Inr 1, quiet (r_zrem R (r_del R s ?k) umqLockIndexKey ?m))"
      using a by (simp add: r_def reconcile_member_def p reconcileLockScript_def r_pttl_def removeLockIndexMember_def
          stuck_lock_def)
    with 2 K show ?thesis by (auto simp: exz dlz exd deadline_del stuck_lock_def)
  next
    case 3
    from no 3 have "0 < t - time_ms R s" by (simp add: no_overdue_def)
    with 3 have "r = (Inr 0, quiet (r_zadd R s umqLockIndexKey t ?m))"
      using a by (simp add: r_def reconcile_member_def p reconcileLockScript_def r_pttl_def)
    with 3 show ?thesis by (auto simp: exz deadline_zadd stuck_lock_def)
  qed
qed

lemma reconcile_all:
  assumes "\<forall>a \<in> set as. 0 < a \<and> in_int64 a" "distinct as" "no_overdue R s"
  shows "\<exists>s'. reconcile_loop R (time_ms R s) (map format_int as) n (quiet s) =
      (Inr (n + int (length (filter (stuck_lock R s) as)), None), quiet s') \<and>
    (\<forall>b. r_get R s' (umqLockKey b) = (if b \<in> set as \<and> stuck_lock R s b then None else r_get R s (umqLockKey b))) \<and>
    (\<forall>m. r_zscore R s' umqLockIndexKey m =
        (if m \<notin> format_int ` set as then r_zscore R s umqLockIndexKey m
         else r_deadline R s (umqLockKey (the (parse_int m)))))"
  using assms
proof (induction as arbitrary: s n)
  case (Cons a as)
  from Cons.prems(1) have a: "0 < a" "in_int64 a" by simp_all
  let ?d = "if stuck_lock R s a then 1 else 0 :: int"
  from reconcile_one [OF a Cons.prems(3)] obtain s1 where s1:
    "reconcile_member R (time_ms R s) (format_int a) (quiet s) = (Inr ?d, quiet s1)"
    "r_us R s1 = r_us R s"
    and get: "\<And>b. r_get R s1 (umqLockKey b) = (if b = a \<and> stuck_lock R s a then None else r_get R s (umqLockKey b))"
    and dl: "\<And>b. r_deadline R s1 (umqLockKey b) = r_deadline R s (umqLockKey b)"
    and ex: "\<And>b. r_exists R s1 (umqLockKey b) \<longleftrightarrow> r_exists R s (umqLockKey b) \<and> \<not> (b = a \<and> stuck_lock R s a)"
    and zs: "\<And>m. r_zscore R s1 umqLockIndexKey m =
        (if m \<noteq> format_int a then r_zscore R s umqLockIndexKey m else r_deadline R s (umqLockKey a))"
    by blast
  have now: "time_ms R s1 = time_ms R s" using s1(2) by (simp add: time_ms_us)
  have no: "no_overdue R s1" using Cons.prems(3) by (simp add: no_overdue_def dl now)
  have stuck: "\<And>b. b \<noteq> a \<Longrightarrow> stuck_lock R s1 b = stuck_lock R s b" by (simp add: stuck_lock_def ex dl)
  have na: "a \<notin> set as" using Cons.prems(2) by simp
  have fl: "filter (stuck_lock R s1) as = filter (stuck_lock R s) as"
    by (rule filter_cong [OF refl]) (metis na stuck)
  have "\<forall>a \<in> set as. 0 < a \<and> in_int64 a" "distinct as" using Cons.prems by simp_all
  from Cons.IH [OF this no, of "n + ?d"] obtain s' where
    loop: "reconcile_loop R (time_ms R s1) (map format_int as) (n + ?d) (quiet s1) =
      (Inr (n + ?d + int (length (filter (stuck_lock R s1) as)), None), quiet s')"
    and get': "\<And>b. r_get R s' (umqLockKey b) =
      (if b \<in> set as \<and> stuck_lock R s1 b then None else r_get R s1 (umqLockKey b))"
    and zs': "\<And>m. r_zscore R s' umqLockIndexKey m = (if m \<notin> format_int ` set as
        then r_zscore R s1 umqLockIndexKey m else r_deadline R s1 (umqLockKey (the (parse_int m))))"
    by blast
  have run: "reconcile_loop R (time_ms R s) (map format_int (a # as)) n (quiet s) =
      (Inr (n + int (length (filter (stuck_lock R s) (a # as))), None), quiet s')"
    using s1(1) loop by (simp add: now fl)
  have G: "r_get R s' (umqLockKey b) = (if b \<in> set (a # as) \<and> stuck_lock R s b then None else r_get R s (umqLockKey b))" for b
    using na stuck [of b] by (cases "b = a") (simp_all add: get' get)
  have Z: "r_zscore R s' umqLockIndexKey m = (if m \<notin> format_int ` set (a # as) then r_zscore R s umqLockIndexKey m
      else r_deadline R s (umqLockKey (the (parse_int m))))" for m
    by (simp add: zs' zs dl parse_int_format_int a)
  show ?case using run G Z by blast
qed simp

end

text \<open>
  The background worker, on a working network: of the due entries of the
  index it deletes exactly the locks without a deadline and reports their number,
  drops the entries of locks that are gone, moves the entry of every living lock to
  the lock's true expiry, and touches no other lock or entry.
\<close>

theorem reconcile_repairs_index:
  assumes "redis_store R" and "no_overdue R s" and "0 < maxCount"
    and "\<forall>m \<in> set (r_zmembers R s umqLockIndexKey). \<exists>a. 0 < a \<and> in_int64 a \<and> m = format_int a"
    and "due = {a. format_int a \<in> set (r_zrangebyscore R s umqLockIndexKey (time_ms R s) (nat maxCount))}"
  shows "\<exists>s'. ReconcileExpiredLockCandidates R maxCount (quiet s) =
      (Inr (int (card {a \<in> due. stuck_lock R s a}), None), quiet s') \<and>
    (\<forall>a. r_get R s' (umqLockKey a) = (if a \<in> due \<and> stuck_lock R s a then None else r_get R s (umqLockKey a))) \<and>
    (\<forall>a. a \<in> due \<longrightarrow> r_zscore R s' umqLockIndexKey (format_int a) = r_deadline R s (umqLockKey a)) \<and>
    (\<forall>m. m \<notin> format_int ` due \<longrightarrow> r_zscore R s' umqLockIndexKey m = r_zscore R s umqLockIndexKey m)"
proof -
  let ?ms = "r_zrangebyscore R s umqLockIndexKey (time_ms R s) (nat maxCount)"
  let ?as = "map (the \<circ> parse_int) ?ms"
  have sub: "set ?ms \<subseteq> set (r_zmembers R s umqLockIndexKey)"
    using set_take_subset by (fastforce simp: r_zrangebyscore_def)
  then have can: "\<exists>a. 0 < a \<and> in_int64 a \<and> m = format_int a" if "m \<in> set ?ms" for m using assms(4) that by blast
  have ms: "map format_int ?as = ?ms"
    unfolding map_map by (rule map_idI) (use can parse_int_format_int in fastforce)
  have as: "\<forall>a \<in> set ?as. 0 < a \<and> in_int64 a" using can parse_int_format_int by fastforce
  have "distinct ?ms" by (simp add: r_zrangebyscore_def redis_store.zmembers_distinct [OF assms(1)])
  then have dist: "distinct ?as" using ms by (metis distinct_map)
  have due: "due = set ?as"
    unfolding assms(5) by (subst ms [symmetric]) (auto simp del: map_map simp: format_int_inj)
  have card: "card {a \<in> due. stuck_lock R s a} = length (filter (stuck_lock R s) ?as)"
    using distinct_card [OF distinct_filter [OF dist]] by (simp add: due)
  from redis_store.reconcile_all [OF assms(1) as dist assms(2), of 0] obtain s' where
    run: "reconcile_loop R (time_ms R s) ?ms 0 (quiet s) =
      (Inr (int (length (filter (stuck_lock R s) ?as)), None), quiet s')"
    and G: "\<forall>b. r_get R s' (umqLockKey b) =
      (if b \<in> set ?as \<and> stuck_lock R s b then None else r_get R s (umqLockKey b))"
    and Z: "\<forall>m. r_zscore R s' umqLockIndexKey m = (if m \<notin> format_int ` set ?as
        then r_zscore R s umqLockIndexKey m else r_deadline R s (umqLockKey (the (parse_int m))))"
    unfolding ms by auto
  have "ReconcileExpiredLockCandidates R maxCount (quiet s) =
      (Inr (int (card {a \<in> due. stuck_lock R s a}), None), quiet s')"
    using run assms(3) unfolding card by (simp add: ReconcileExpiredLockCandidates_def GetCurrentTimeMs_def)
  moreover have "r_zscore R s' umqLockIndexKey (format_int a) = r_deadline R s (umqLockKey a)" if "a \<in> due" for a
  proof -
    have "a \<in> set ?as" "in_int64 a" using that as unfolding due by blast+
    then show ?thesis using spec [OF Z, of "format_int a"] by (simp only: parse_int_format_int option.sel image_eqI if_False) simp
  qed
  moreover have "\<forall>m. m \<notin> format_int ` due \<longrightarrow> r_zscore R s' umqLockIndexKey m = r_zscore R s umqLockIndexKey m"
    using Z by (simp only: due) simp
  moreover note G [folded due]
  ultimately show ?thesis by (intro exI [of _ s'] conjI allI impI) blast+
qed

theorem reconcile_repairs_index_witness:
  "\<exists>s'. ReconcileExpiredLockCandidates ref_redis 10
      (quiet (r_set ref_redis (r_zadd ref_redis db0 umqLockIndexKey 5 (format_int 7)) (umqLockKey 7) ''a'' None)) = (Inr (1, None), quiet s')"
proof -
  let ?s = "r_set ref_redis (r_zadd ref_redis db0 umqLockIndexKey 5 (format_int 7)) (umqLockKey 7) ''a'' None"
  have due: "{a. format_int a \<in> set (r_zrangebyscore ref_redis ?s umqLockIndexKey (time_ms ref_redis ?s) (nat 10))} = {7}"
    by (auto simp: r_zrangebyscore_def time_ms_def ref_members_def ref_eval umq_keys_differ(1) [symmetric])
  have st: "stuck_lock ref_redis ?s a \<longleftrightarrow> a = 7" for a
    by (auto simp: stuck_lock_def ref_eval)
  have "\<forall>m \<in> set (r_zmembers ref_redis ?s umqLockIndexKey). \<exists>a. 0 < a \<and> in_int64 a \<and> m = format_int a"
    by (auto simp: ref_members_def ref_eval umq_keys_differ(1) [symmetric] in_int64_def int64_min_def int64_max_def)
  moreover have "no_overdue ref_redis ?s" by (simp add: no_overdue_def ref_eval)
  ultimately show ?thesis
    using reconcile_repairs_index [OF ref.redis_store_axioms, of ?s 10] unfolding due st by auto
qed

end
