(* ===== verification/Idempotency.thy ===== *)
theory Idempotency
  imports Redis_Net Prelude
begin

text \<open>
  The idempotency coordinator (\<open>service/idempotency.go\<close>), its SQL repository
  (\<open>repository/idempotency_repo.go\<close>) and the clean-up worker.  The table is a list of
  rows; each statement is one atomic action on it, issued over the same unreliable
  connection as in \<open>Redis_Net\<close>.  The table record is extensible: the fields beyond it
  are what the guarded operation itself works on.

  SHA-256, JSON and the log redaction are parameters (\<open>idem_ext\<close>); log lines and
  metrics are left out.  Times and durations are nanoseconds.
\<close>

section \<open>Data\<close>

definition IdempotencyStatusProcessing :: string where "IdempotencyStatusProcessing = ''processing''"
definition IdempotencyStatusSucceeded :: string where "IdempotencyStatusSucceeded = ''succeeded''"
definition IdempotencyStatusFailedRetryable :: string where
  "IdempotencyStatusFailedRetryable = ''failed_retryable''"

datatype idem_err =
    KeyRequired
  | KeyInvalid
  | KeyConflict
  | InProgress "int option"
  | RetryBackoff "int option"
  | StoreUnavail
  | InvalidPayload
  | ScopeRequired
  | ExecutorNil
  | ExecFailed err

record IdempotencyRecord =
  ir_id :: int
  ir_scope :: string
  ir_hash :: string
  ir_fingerprint :: string
  ir_status :: string
  ir_responseStatus :: "int option"
  ir_responseBody :: "string option"
  ir_errorReason :: "string option"
  ir_lockedUntil :: "int option"
  ir_expiresAt :: int

record IdempotencyConfig =
  DefaultTTL :: int
  SystemOperationTTL :: int
  ProcessingTimeout :: int
  FailedRetryBackoff :: int
  MaxStoredResponseLen :: int
  ObserveOnly :: bool

definition DefaultIdempotencyConfig :: IdempotencyConfig where
  "DefaultIdempotencyConfig =
     \<lparr>DefaultTTL = 24 * 3600 * 1000000000, SystemOperationTTL = 3600 * 1000000000,
      ProcessingTimeout = 30 * 1000000000, FailedRetryBackoff = 5 * 1000000000,
      MaxStoredResponseLen = 64 * 1024, ObserveOnly = True\<rparr>"

text \<open>A raw key is a list of code points.  \<open>op_bounded\<close> is \<open>ExecutionTimeout > 0\<close>.\<close>

record 'p IdempotencyExecuteOptions =
  op_scope :: string
  op_actorScope :: string
  op_method :: string
  op_route :: string
  op_key :: "nat list"
  op_payload :: 'p
  op_ttl :: int
  op_requireKey :: bool
  op_bounded :: bool

record 'd IdempotencyExecuteResult =
  Data :: 'd
  Replayed :: bool

text \<open>
  \<open>ie_stored\<close> is the response's own \<open>IdempotencyStoredResponse\<close>, or the identity for
  one without that method; \<open>ie_encode\<close> is \<open>json.Marshal\<close> and \<open>ie_decode\<close> \<open>json.Unmarshal\<close>; \<open>ie_none\<close> is the empty object replayed for an
  empty body, \<open>ie_blank\<close> tells whether \<open>strings.TrimSpace\<close> leaves nothing.
\<close>

record ('p, 'd) idem_ext =
  ie_sha :: "string \<Rightarrow> string"
  ie_upper :: "string \<Rightarrow> string"
  ie_payload :: "'p \<Rightarrow> string option"
  ie_stored :: "'d \<Rightarrow> 'd"
  ie_encode :: "'d \<Rightarrow> string option"
  ie_redact :: "string \<Rightarrow> string"
  ie_decode :: "string \<Rightarrow> 'd option"
  ie_none :: 'd
  ie_blank :: "string \<Rightarrow> bool"
  ie_reason :: "err \<Rightarrow> string"

section \<open>The repository\<close>

record idem_db =
  id_rows :: "IdempotencyRecord list"
  id_next :: int

definition update_rows ::
    "(IdempotencyRecord \<Rightarrow> bool) \<Rightarrow> (IdempotencyRecord \<Rightarrow> IdempotencyRecord) \<Rightarrow> 'z idem_db_scheme \<Rightarrow> int \<times> 'z idem_db_scheme" where
  "update_rows P f db =
     (int (length (filter P (id_rows db))), db\<lparr>id_rows := map (\<lambda>r. if P r then f r else r) (id_rows db)\<rparr>)"

text \<open>\<open>INSERT ... ON CONFLICT DO NOTHING RETURNING id\<close>.\<close>

definition insert_row :: "IdempotencyRecord \<Rightarrow> 'z idem_db_scheme \<Rightarrow> int option \<times> 'z idem_db_scheme" where
  "insert_row rec db =
     (if list_ex (\<lambda>r. ir_scope r = ir_scope rec \<and> ir_hash r = ir_hash rec) (id_rows db) then (None, db)
      else (Some (id_next db),
            db\<lparr>id_rows := id_rows db @ [rec\<lparr>ir_id := id_next db\<rparr>], id_next := id_next db + 1\<rparr>))"

definition CreateProcessing :: "IdempotencyRecord \<Rightarrow> ('z idem_db_scheme, int option) prog" where
  "CreateProcessing rec = round_trip (insert_row rec)"

definition select_row :: "string \<Rightarrow> string \<Rightarrow> 'z idem_db_scheme \<Rightarrow> IdempotencyRecord option" where
  "select_row scope keyHash db = List.find (\<lambda>r. ir_scope r = scope \<and> ir_hash r = keyHash) (id_rows db)"

definition GetByScopeAndKeyHash :: "string \<Rightarrow> string \<Rightarrow> ('z idem_db_scheme, IdempotencyRecord option) prog" where
  "GetByScopeAndKeyHash scope keyHash = query (select_row scope keyHash)"

definition reclaim_rows :: "int \<Rightarrow> string \<Rightarrow> int \<Rightarrow> int \<Rightarrow> int \<Rightarrow> 'z idem_db_scheme \<Rightarrow> int \<times> 'z idem_db_scheme" where
  "reclaim_rows i fromStatus now newLockedUntil newExpiresAt =
     update_rows (\<lambda>r. ir_id r = i \<and> ir_status r = fromStatus \<and>
         (case ir_lockedUntil r of None \<Rightarrow> True | Some t \<Rightarrow> t \<le> now))
       (\<lambda>r. r\<lparr>ir_status := IdempotencyStatusProcessing, ir_lockedUntil := Some newLockedUntil,
              ir_errorReason := None, ir_expiresAt := newExpiresAt\<rparr>)"

definition TryReclaim :: "int \<Rightarrow> string \<Rightarrow> int \<Rightarrow> int \<Rightarrow> int \<Rightarrow> ('z idem_db_scheme, bool) prog" where
  "TryReclaim i fromStatus now newLockedUntil newExpiresAt =
     bindW (round_trip (reclaim_rows i fromStatus now newLockedUntil newExpiresAt)) (\<lambda>n. returnW (n > 0))"

definition extend_rows :: "int \<Rightarrow> string \<Rightarrow> int \<Rightarrow> int \<Rightarrow> 'z idem_db_scheme \<Rightarrow> int \<times> 'z idem_db_scheme" where
  "extend_rows i requestFingerprint newLockedUntil newExpiresAt =
     update_rows (\<lambda>r. ir_id r = i \<and> ir_status r = IdempotencyStatusProcessing \<and> ir_fingerprint r = requestFingerprint)
       (\<lambda>r. r\<lparr>ir_lockedUntil := Some newLockedUntil, ir_expiresAt := newExpiresAt\<rparr>)"

definition ExtendProcessingLock :: "int \<Rightarrow> string \<Rightarrow> int \<Rightarrow> int \<Rightarrow> ('z idem_db_scheme, bool) prog" where
  "ExtendProcessingLock i requestFingerprint newLockedUntil newExpiresAt =
     bindW (round_trip (extend_rows i requestFingerprint newLockedUntil newExpiresAt)) (\<lambda>n. returnW (n > 0))"

definition succeed_rows :: "int \<Rightarrow> int \<Rightarrow> string \<Rightarrow> int \<Rightarrow> 'z idem_db_scheme \<Rightarrow> int \<times> 'z idem_db_scheme" where
  "succeed_rows i responseStatus responseBody expiresAt =
     update_rows (\<lambda>r. ir_id r = i)
       (\<lambda>r. r\<lparr>ir_status := IdempotencyStatusSucceeded, ir_responseStatus := Some responseStatus,
              ir_responseBody := Some responseBody, ir_errorReason := None, ir_lockedUntil := None,
              ir_expiresAt := expiresAt\<rparr>)"

definition MarkSucceeded :: "int \<Rightarrow> int \<Rightarrow> string \<Rightarrow> int \<Rightarrow> ('z idem_db_scheme, unit) prog" where
  "MarkSucceeded i responseStatus responseBody expiresAt =
     bindW (round_trip (succeed_rows i responseStatus responseBody expiresAt)) (\<lambda>_. returnW ())"

definition fail_rows :: "int \<Rightarrow> string \<Rightarrow> int \<Rightarrow> int \<Rightarrow> 'z idem_db_scheme \<Rightarrow> int \<times> 'z idem_db_scheme" where
  "fail_rows i errorReason lockedUntil expiresAt =
     update_rows (\<lambda>r. ir_id r = i)
       (\<lambda>r. r\<lparr>ir_status := IdempotencyStatusFailedRetryable, ir_errorReason := Some errorReason,
              ir_lockedUntil := Some lockedUntil, ir_expiresAt := expiresAt\<rparr>)"

definition MarkFailedRetryable :: "int \<Rightarrow> string \<Rightarrow> int \<Rightarrow> int \<Rightarrow> ('z idem_db_scheme, unit) prog" where
  "MarkFailedRetryable i errorReason lockedUntil expiresAt =
     bindW (round_trip (fail_rows i errorReason lockedUntil expiresAt)) (\<lambda>_. returnW ())"

text \<open>\<open>ORDER BY expires_at ASC LIMIT n\<close>; rows expiring together go in table order.\<close>

definition victims :: "int \<Rightarrow> int \<Rightarrow> 'z idem_db_scheme \<Rightarrow> int list" where
  "victims now limit db =
     map ir_id (take (nat limit) (sort_key ir_expiresAt (filter (\<lambda>r. ir_expiresAt r \<le> now) (id_rows db))))"

definition delete_expired :: "int \<Rightarrow> int \<Rightarrow> 'z idem_db_scheme \<Rightarrow> int \<times> 'z idem_db_scheme" where
  "delete_expired now limit db =
     (let vs = victims now limit db;
          gone = (\<lambda>r. ir_id r \<in> set vs)
      in (int (length (filter gone (id_rows db))), db\<lparr>id_rows := filter (\<lambda>r. \<not> gone r) (id_rows db)\<rparr>))"

definition DeleteExpired :: "int \<Rightarrow> int \<Rightarrow> ('z idem_db_scheme, int) prog" where
  "DeleteExpired now limit =
     round_trip (delete_expired now (if limit \<le> 0 then 500 else limit))"

definition cleanupOnce :: "int \<Rightarrow> int \<Rightarrow> ('z idem_db_scheme, unit) prog" where
  "cleanupOnce now batch = tryW (DeleteExpired now batch)"

section \<open>Keys and fingerprints\<close>

text \<open>
  \<open>len(key) > 128\<close> counts bytes; a key with a multi-byte code point is invalid either
  way, so counting code points gives the same result.
\<close>

definition NormalizeIdempotencyKey :: "nat list \<Rightarrow> idem_err + string" where
  "NormalizeIdempotencyKey raw =
     (let key = trim_space raw in
      if key = [] then Inr []
      else if length key > 128 then Inl KeyInvalid
      else if list_ex (\<lambda>r. r < 33 \<or> r > 126) key then Inl KeyInvalid
      else Inr (map char_of key))"

definition HashIdempotencyKey :: "('p, 'd) idem_ext \<Rightarrow> string \<Rightarrow> string" where
  "HashIdempotencyKey E key = ie_sha E key"

definition newline :: string where "newline = [char_of (10 :: nat)]"

definition BuildIdempotencyFingerprint ::
    "('p, 'd) idem_ext \<Rightarrow> string \<Rightarrow> string \<Rightarrow> string \<Rightarrow> 'p \<Rightarrow> idem_err + string" where
  "BuildIdempotencyFingerprint E method route actorScope payload =
     (let method = (if method = [] then ''POST'' else method);
          route = (if route = [] then ''/'' else route);
          actorScope = (if actorScope = [] then ''anonymous'' else actorScope)
      in case ie_payload E payload of
           None \<Rightarrow> Inl InvalidPayload
         | Some raw \<Rightarrow> Inr (ie_sha E (ie_upper E method @ newline @ route @ newline @ actorScope @ newline @ raw)))"

section \<open>Stored responses\<close>

text \<open>\<open>utf8.ValidString\<close> on bytes.\<close>

definition utf8_cont :: "nat \<Rightarrow> bool" where
  "utf8_cont c \<longleftrightarrow> 128 \<le> c \<and> c \<le> 191"

fun valid_utf8 :: "nat list \<Rightarrow> bool" where
  "valid_utf8 [] = True"
| "valid_utf8 (b # bs) =
     (if b < 128 then valid_utf8 bs
      else if 194 \<le> b \<and> b \<le> 223
      then (case bs of c # r \<Rightarrow> utf8_cont c \<and> valid_utf8 r | _ \<Rightarrow> False)
      else if 224 \<le> b \<and> b \<le> 239
      then (case bs of c # d # r \<Rightarrow>
              (if b = 224 then 160 else 128) \<le> c \<and> c \<le> (if b = 237 then 159 else 191) \<and>
              utf8_cont d \<and> valid_utf8 r
            | _ \<Rightarrow> False)
      else if 240 \<le> b \<and> b \<le> 244
      then (case bs of c # d # e # r \<Rightarrow>
              (if b = 240 then 144 else 128) \<le> c \<and> c \<le> (if b = 244 then 143 else 191) \<and>
              utf8_cont d \<and> utf8_cont e \<and> valid_utf8 r
            | _ \<Rightarrow> False)
      else False)"

fun truncate_loop :: "string \<Rightarrow> nat \<Rightarrow> string" where
  "truncate_loop s 0 = []"
| "truncate_loop s (Suc n) =
     (if valid_utf8 (map of_char (take (Suc n) s)) then take (Suc n) s else truncate_loop s n)"

definition truncateUTF8 :: "string \<Rightarrow> int \<Rightarrow> string" where
  "truncateUTF8 s maxBytes =
     (if maxBytes \<le> 0 \<or> int (length s) \<le> maxBytes then s else truncate_loop s (nat maxBytes))"

definition truncation_mark :: string where "truncation_mark = ''...(truncated)''"

definition marshalStoredResponse :: "('p, 'd) idem_ext \<Rightarrow> IdempotencyConfig \<Rightarrow> 'd \<Rightarrow> string option" where
  "marshalStoredResponse E cfg d =
     (case ie_encode E (ie_stored E d) of
        None \<Rightarrow> None
      | Some raw \<Rightarrow>
          (let redacted = ie_redact E raw in
           Some (if MaxStoredResponseLen cfg > 0 \<and> int (length redacted) > MaxStoredResponseLen cfg
                 then truncateUTF8 redacted (MaxStoredResponseLen cfg) @ truncation_mark
                 else redacted)))"

definition decodeStoredResponse :: "('p, 'd) idem_ext \<Rightarrow> string option \<Rightarrow> 'd option" where
  "decodeStoredResponse E stored =
     (case stored of None \<Rightarrow> Some (ie_none E)
      | Some s \<Rightarrow> if ie_blank E s then Some (ie_none E) else ie_decode E s)"

text \<open>\<open>conflictWithRetryAfter\<close>: the seconds until the lock ends, at least 1; none without a lock.\<close>

definition retry_after :: "int option \<Rightarrow> int \<Rightarrow> int option" where
  "retry_after lockedUntil now =
     (case lockedUntil of None \<Rightarrow> None
      | Some t \<Rightarrow> (let d = t - now;
                       sec = (if d < 0 then - (- d div 1000000000) else d div 1000000000)
                   in Some (if sec \<le> 0 then 1 else sec)))"

section \<open>The coordinator\<close>

text \<open>A request that passed the gate either owns a row or has a response to replay.\<close>

datatype 'd claim = Owned int | Replay 'd

text \<open>The \<open>switch existing.Status\<close> of a row that was not reclaimed after its expiry.\<close>

definition settle_existing ::
    "('p, 'd) idem_ext \<Rightarrow> int \<Rightarrow> int \<Rightarrow> int \<Rightarrow> IdempotencyRecord \<Rightarrow> ('z idem_db_scheme, idem_err + 'd claim) prog" where
  "settle_existing E now lockedUntil expiresAt existing =
     (if ir_status existing = IdempotencyStatusSucceeded
      then (case decodeStoredResponse E (ir_responseBody existing) of
              None \<Rightarrow> returnW (Inl StoreUnavail)
            | Some d \<Rightarrow> returnW (Inr (Replay d)))
      else if ir_status existing = IdempotencyStatusProcessing
      then returnW (Inl (InProgress (retry_after (ir_lockedUntil existing) now)))
      else if ir_status existing = IdempotencyStatusFailedRetryable
      then (if (case ir_lockedUntil existing of None \<Rightarrow> False | Some t \<Rightarrow> t > now)
            then returnW (Inl (RetryBackoff (retry_after (ir_lockedUntil existing) now)))
            else bindW (catchW (TryReclaim (ir_id existing) IdempotencyStatusFailedRetryable now lockedUntil expiresAt))
                   (\<lambda>r. case r of
                      Inl _ \<Rightarrow> returnW (Inl StoreUnavail)
                    | Inr taken \<Rightarrow>
                        if taken then returnW (Inr (Owned (ir_id existing)))
                        else returnW (Inl (InProgress (retry_after (ir_lockedUntil existing) now)))))
      else returnW (Inl KeyConflict))"

text \<open>The branch of a request whose insert found a row.\<close>

definition resolve_existing ::
    "('p, 'd) idem_ext \<Rightarrow> string \<Rightarrow> string \<Rightarrow> string \<Rightarrow> int \<Rightarrow> int \<Rightarrow> int \<Rightarrow> ('z idem_db_scheme, idem_err + 'd claim) prog" where
  "resolve_existing E scope keyHash fingerprint now lockedUntil expiresAt =
     bindW (catchW (GetByScopeAndKeyHash scope keyHash)) (\<lambda>r. case r of
        Inl _ \<Rightarrow> returnW (Inl StoreUnavail)
      | Inr None \<Rightarrow> returnW (Inl StoreUnavail)
      | Inr (Some existing) \<Rightarrow>
          if ir_fingerprint existing \<noteq> fingerprint then returnW (Inl KeyConflict)
          else if ir_expiresAt existing \<le> now
          then bindW (catchW (TryReclaim (ir_id existing) (ir_status existing) now lockedUntil expiresAt)) (\<lambda>r. case r of
                 Inl _ \<Rightarrow> returnW (Inl StoreUnavail)
               | Inr taken \<Rightarrow>
                   if taken then returnW (Inr (Owned (ir_id existing)))
                   else bindW (catchW (GetByScopeAndKeyHash scope keyHash)) (\<lambda>r. case r of
                          Inl _ \<Rightarrow> returnW (Inl StoreUnavail)
                        | Inr None \<Rightarrow> returnW (Inl StoreUnavail)
                        | Inr (Some latest) \<Rightarrow>
                            if ir_fingerprint latest \<noteq> fingerprint then returnW (Inl KeyConflict)
                            else settle_existing E now lockedUntil expiresAt latest))
          else settle_existing E now lockedUntil expiresAt existing)"

definition claim_row ::
    "('p, 'd) idem_ext \<Rightarrow> IdempotencyConfig \<Rightarrow> string \<Rightarrow> string \<Rightarrow> string \<Rightarrow> int \<Rightarrow> int \<Rightarrow> ('z idem_db_scheme, idem_err + 'd claim) prog" where
  "claim_row E cfg scope keyHash fingerprint now ttl =
     (let expiresAt = now + ttl;
          lockedUntil = now + ProcessingTimeout cfg;
          rec = \<lparr>ir_id = 0, ir_scope = scope, ir_hash = keyHash, ir_fingerprint = fingerprint,
                 ir_status = IdempotencyStatusProcessing, ir_responseStatus = None, ir_responseBody = None,
                 ir_errorReason = None, ir_lockedUntil = Some lockedUntil, ir_expiresAt = expiresAt\<rparr>
      in bindW (catchW (CreateProcessing rec)) (\<lambda>r. case r of
           Inl _ \<Rightarrow> returnW (Inl StoreUnavail)
         | Inr (Some i) \<Rightarrow> returnW (Inr (Owned i))
         | Inr None \<Rightarrow> resolve_existing E scope keyHash fingerprint now lockedUntil expiresAt))"

text \<open>The guarded operation, and its outcome written to the row; \<open>later\<close> is the clock after it.\<close>

definition run_owned ::
    "('p, 'd) idem_ext \<Rightarrow> IdempotencyConfig \<Rightarrow> int \<Rightarrow> int \<Rightarrow> int \<Rightarrow> ('z idem_db_scheme, 'd) prog \<Rightarrow>
     ('z idem_db_scheme, idem_err + 'd IdempotencyExecuteResult) prog" where
  "run_owned E cfg i expiresAt later execute =
     (if i = 0 then returnW (Inl StoreUnavail)
      else bindW (catchW execute) (\<lambda>r. case r of
        Inl e \<Rightarrow>
          (let backoffUntil = later + FailedRetryBackoff cfg;
               reason = (if ie_reason E e = [] then ''EXECUTION_FAILED'' else ie_reason E e)
           in bindW (catchW (MarkFailedRetryable i reason backoffUntil expiresAt))
                (\<lambda>_. returnW (Inl (ExecFailed e))))
      | Inr d \<Rightarrow>
          (case marshalStoredResponse E cfg d of
             None \<Rightarrow> returnW (Inl StoreUnavail)
           | Some body \<Rightarrow>
               bindW (catchW (MarkSucceeded i 200 body expiresAt)) (\<lambda>r. case r of
                 Inl _ \<Rightarrow> returnW (Inl StoreUnavail)
               | Inr _ \<Rightarrow> returnW (Inr \<lparr>Data = d, Replayed = False\<rparr>)))))"

text \<open>
  \<open>Execute\<close>: \<open>repo\<close> tells whether a repository is configured, \<open>now\<close> and \<open>later\<close> are the
  two readings of the clock.  Without a key the operation runs unguarded.
\<close>

definition Execute ::
    "('p, 'd) idem_ext \<Rightarrow> IdempotencyConfig \<Rightarrow> bool \<Rightarrow> 'p IdempotencyExecuteOptions \<Rightarrow> int \<Rightarrow> int \<Rightarrow>
     ('z idem_db_scheme, 'd) prog option \<Rightarrow> ('z idem_db_scheme, idem_err + 'd IdempotencyExecuteResult) prog" where
  "Execute E cfg repo opts now later exec =
     (case exec of None \<Rightarrow> returnW (Inl ExecutorNil) | Some execute \<Rightarrow>
      case NormalizeIdempotencyKey (op_key opts) of Inl e \<Rightarrow> returnW (Inl e) | Inr key \<Rightarrow>
      if key = []
      then (if op_requireKey opts \<and> \<not> ObserveOnly cfg then returnW (Inl KeyRequired)
            else bindW (catchW execute) (\<lambda>r. case r of
                   Inl e \<Rightarrow> returnW (Inl (ExecFailed e))
                 | Inr d \<Rightarrow> returnW (Inr \<lparr>Data = d, Replayed = False\<rparr>)))
      else if \<not> repo then returnW (Inl StoreUnavail)
      else if op_scope opts = [] then returnW (Inl ScopeRequired)
      else (case BuildIdempotencyFingerprint E (op_method opts) (op_route opts) (op_actorScope opts) (op_payload opts) of
              Inl e \<Rightarrow> returnW (Inl e)
            | Inr fingerprint \<Rightarrow>
                (let ttl = (if op_ttl opts \<le> 0 then DefaultTTL cfg else op_ttl opts) in
                 bindW (claim_row E cfg (op_scope opts) (HashIdempotencyKey E key) fingerprint now ttl) (\<lambda>c. case c of
                   Inl e \<Rightarrow> returnW (Inl e)
                 | Inr (Replay d) \<Rightarrow> returnW (Inr \<lparr>Data = d, Replayed = True\<rparr>)
                 | Inr (Owned i) \<Rightarrow>
                     run_owned E cfg i (if op_bounded opts then later + ttl else now + ttl) later execute))))"

section \<open>Lease renewal\<close>

definition renew_interval :: "IdempotencyConfig \<Rightarrow> int \<Rightarrow> int" where
  "renew_interval cfg ttl =
     (let lease = (if ProcessingTimeout cfg \<le> 0 then ProcessingTimeout DefaultIdempotencyConfig else ProcessingTimeout cfg);
          interval = min (lease div 3) (ttl div 3)
      in if interval < 1000000 then 1000000 else interval)"

text \<open>The renewal goroutine at the clock readings of its ticks, until it is cancelled or loses the row.\<close>

fun renewProcessingLease :: "IdempotencyConfig \<Rightarrow> int \<Rightarrow> string \<Rightarrow> int \<Rightarrow> int list \<Rightarrow> ('z idem_db_scheme, unit) prog" where
  "renewProcessingLease cfg i fingerprint ttl [] = returnW ()"
| "renewProcessingLease cfg i fingerprint ttl (now # ticks) =
     (let lease = (if ProcessingTimeout cfg \<le> 0 then ProcessingTimeout DefaultIdempotencyConfig else ProcessingTimeout cfg)
      in bindW (catchW (ExtendProcessingLock i fingerprint (now + lease) (now + ttl))) (\<lambda>r. case r of
           Inl _ \<Rightarrow> renewProcessingLease cfg i fingerprint ttl ticks
         | Inr ok \<Rightarrow> if ok then renewProcessingLease cfg i fingerprint ttl ticks else returnW ()))"

end
