(* ===== verification/Idempotency_Gate.thy ===== *)
theory Idempotency_Gate
  imports Idempotency_Properties
begin

text \<open>
  The coordinator on a working database: what a claim does to the table, that one
  success is replayed, and that refused requests leave everything as it was.
\<close>

section \<open>The table\<close>

definition wf_table :: "'z idem_db_scheme \<Rightarrow> bool" where
  "wf_table db \<longleftrightarrow>
     distinct (map ir_id (id_rows db)) \<and>
     distinct (map (\<lambda>r. (ir_scope r, ir_hash r)) (id_rows db)) \<and>
     (\<forall>r \<in> set (id_rows db). 0 < ir_id r \<and> ir_id r < id_next db) \<and> 0 < id_next db"

text \<open>An update of rows that keeps their identity.\<close>

definition keeps_identity :: "(IdempotencyRecord \<Rightarrow> IdempotencyRecord) \<Rightarrow> bool" where
  "keeps_identity f \<longleftrightarrow> (\<forall>r. ir_id (f r) = ir_id r \<and> ir_scope (f r) = ir_scope r \<and> ir_hash (f r) = ir_hash r)"

lemma select_row_Some: "select_row scope h db = Some r \<Longrightarrow>
    r \<in> set (id_rows db) \<and> ir_scope r = scope \<and> ir_hash r = h"
  by (auto simp: select_row_def find_Some_iff)

lemma select_row_None: "select_row scope h db = None \<longleftrightarrow>
    \<not> list_ex (\<lambda>r. ir_scope r = scope \<and> ir_hash r = h) (id_rows db)"
  by (auto simp: select_row_def find_None_iff list_ex_iff)

lemma wf_unique: "wf_table db \<Longrightarrow> r \<in> set (id_rows db) \<Longrightarrow> q \<in> set (id_rows db) \<Longrightarrow> ir_id r = ir_id q \<Longrightarrow> r = q"
  by (auto simp: wf_table_def distinct_map dest: inj_onD)

lemma find_map_same:
  "(\<And>r. P (g r) = P r) \<Longrightarrow> List.find P (map g xs) = map_option g (List.find P xs)"
  by (induction xs) auto

lemma update_select:
  assumes "keeps_identity f"
  shows "select_row scope h (snd (update_rows P f db)) = map_option (\<lambda>r. if P r then f r else r) (select_row scope h db)"
  using assms unfolding update_rows_def select_row_def keeps_identity_def
  by simp (rule find_map_same, simp)

lemma update_wf: "keeps_identity f \<Longrightarrow> wf_table db \<Longrightarrow> wf_table (snd (update_rows P f db))"
  unfolding wf_table_def update_rows_def keeps_identity_def by (auto simp: comp_def if_distrib cong: if_cong)

lemma update_count:
  assumes "wf_table db" "r \<in> set (id_rows db)" "\<And>q. P q \<Longrightarrow> ir_id q = ir_id r"
  shows "0 < fst (update_rows P f db) \<longleftrightarrow> P r"
  using assms wf_unique [OF assms(1) _ assms(2)]
  by (auto simp: update_rows_def filter_empty_conv)

lemma update_none: "(\<And>r. r \<in> set (id_rows db) \<Longrightarrow> \<not> P r) \<Longrightarrow> snd (update_rows P f db) = db"
  by (simp add: update_rows_def map_idI)

lemma insert_wf: "wf_table db \<Longrightarrow> wf_table (snd (insert_row rec db))"
  by (auto simp: wf_table_def insert_row_def list_ex_iff)

lemma insert_select:
  "select_row (ir_scope rec) (ir_hash rec) db = None \<Longrightarrow>
     insert_row rec db = (Some (id_next db), snd (insert_row rec db)) \<and>
     select_row (ir_scope rec) (ir_hash rec) (snd (insert_row rec db)) = Some (rec\<lparr>ir_id := id_next db\<rparr>)"
proof -
  have app: "List.find P xs = None \<Longrightarrow> List.find P (xs @ [y]) = (if P y then Some y else None)"
    for P :: "IdempotencyRecord \<Rightarrow> bool" and xs y by (induction xs) (auto split: if_splits)
  assume none: "select_row (ir_scope rec) (ir_hash rec) db = None"
  then have "\<not> list_ex (\<lambda>r. ir_scope r = ir_scope rec \<and> ir_hash r = ir_hash rec) (id_rows db)"
    by (simp add: select_row_None)
  then show ?thesis using app [OF none [unfolded select_row_def]] by (simp add: insert_row_def select_row_def)
qed

section \<open>Claims on a working database\<close>

definition lock_lapsed :: "int \<Rightarrow> IdempotencyRecord \<Rightarrow> bool" where
  "lock_lapsed now r \<longleftrightarrow> (case ir_lockedUntil r of None \<Rightarrow> True | Some t \<Rightarrow> t \<le> now)"

lemma reclaim_quiet:
  assumes "wf_table db" "r \<in> set (id_rows db)"
  shows "TryReclaim (ir_id r) st now l e (quiet db) =
    (Inr (ir_status r = st \<and> lock_lapsed now r),
     quiet (if ir_status r = st \<and> lock_lapsed now r then snd (reclaim_rows (ir_id r) st now l e db) else db))"
proof -
  have pos: "0 < fst (reclaim_rows (ir_id r) st now l e db) \<longleftrightarrow> ir_status r = st \<and> lock_lapsed now r"
    unfolding reclaim_rows_def by (subst update_count [OF assms]) (auto simp: lock_lapsed_def)
  moreover have "snd (reclaim_rows (ir_id r) st now l e db) = db" if "\<not> (ir_status r = st \<and> lock_lapsed now r)"
    unfolding reclaim_rows_def
    by (rule update_none) (use that wf_unique [OF assms(1) _ assms(2)] in \<open>auto simp: lock_lapsed_def\<close>)
  ultimately show ?thesis by (simp add: TryReclaim_def)
qed

lemma reclaim_keeps: "keeps_identity (\<lambda>r. r\<lparr>ir_status := a, ir_lockedUntil := b, ir_errorReason := c, ir_expiresAt := d\<rparr>)"
  by (simp add: keeps_identity_def)

lemma reclaim_select:
  assumes "wf_table db" "select_row scope h db = Some r" "ir_status r = st" "lock_lapsed now r"
  shows "wf_table (snd (reclaim_rows (ir_id r) st now l e db)) \<and>
    select_row scope h (snd (reclaim_rows (ir_id r) st now l e db)) =
      Some (r\<lparr>ir_status := IdempotencyStatusProcessing, ir_lockedUntil := Some l, ir_errorReason := None, ir_expiresAt := e\<rparr>)"
  using assms reclaim_keeps by (auto simp: reclaim_rows_def update_wf update_select lock_lapsed_def)

text \<open>What the gate answers when the row of the key is \<open>ex\<close> and still good.\<close>

definition settled :: "('p, 'd) idem_ext \<Rightarrow> int \<Rightarrow> IdempotencyRecord \<Rightarrow> (idem_err + 'd claim)" where
  "settled E now ex =
     (if ir_status ex = IdempotencyStatusSucceeded
      then (case decodeStoredResponse E (ir_responseBody ex) of None \<Rightarrow> Inl StoreUnavail | Some d \<Rightarrow> Inr (Replay d))
      else if ir_status ex = IdempotencyStatusProcessing then Inl (InProgress (retry_after (ir_lockedUntil ex) now))
      else if ir_status ex = IdempotencyStatusFailedRetryable
      then (if lock_lapsed now ex then Inr (Owned (ir_id ex)) else Inl (RetryBackoff (retry_after (ir_lockedUntil ex) now)))
      else Inl KeyConflict)"

lemma settle_quiet:
  assumes "wf_table db" "r \<in> set (id_rows db)"
  shows "settle_existing E now l e r (quiet db) =
    (Inr (settled E now r),
     quiet (if ir_status r = IdempotencyStatusFailedRetryable \<and> lock_lapsed now r
            then snd (reclaim_rows (ir_id r) IdempotencyStatusFailedRetryable now l e db) else db))"
  by (auto simp: settle_existing_def settled_def reclaim_quiet [OF assms] lock_lapsed_def
      IdempotencyStatusSucceeded_def IdempotencyStatusProcessing_def IdempotencyStatusFailedRetryable_def
      split: option.split)

text \<open>Whatever the table holds, a claim that succeeds leaves its own row with its fingerprint.\<close>

definition claim_outcome ::
    "('p, 'd) idem_ext \<Rightarrow> string \<Rightarrow> string \<Rightarrow> string \<Rightarrow> int \<Rightarrow> (idem_err + 'd claim) \<Rightarrow>
     'z idem_db_scheme \<Rightarrow> 'z idem_db_scheme \<Rightarrow> bool" where
  "claim_outcome E scope h fp now r db db' \<longleftrightarrow>
     wf_table db' \<and>
     (case r of
        Inr (Owned i) \<Rightarrow> 0 < i \<and> (\<exists>rec. select_row scope h db' = Some rec \<and> ir_id rec = i \<and> ir_fingerprint rec = fp)
      | _ \<Rightarrow> db' = db)"

lemma claim_fresh:
  assumes "wf_table db" "select_row scope h db = None"
  shows "\<exists>db'. claim_row E cfg scope h fp now ttl (quiet db) = (Inr (Inr (Owned (id_next db))), quiet db') \<and>
    claim_outcome E scope h fp now (Inr (Owned (id_next db)) :: idem_err + 'd claim) db db'"
proof -
  let ?rec = "\<lparr>ir_id = 0, ir_scope = scope, ir_hash = h, ir_fingerprint = fp,
     ir_status = IdempotencyStatusProcessing, ir_responseStatus = None, ir_responseBody = None,
     ir_errorReason = None, ir_lockedUntil = Some (now + ProcessingTimeout cfg), ir_expiresAt = now + ttl\<rparr>"
  have "select_row (ir_scope ?rec) (ir_hash ?rec) db = None" using assms(2) by simp
  note S = insert_select [OF this]
  have I: "fst (insert_row ?rec db) = Some (id_next db)"
    "select_row scope h (snd (insert_row ?rec db)) = Some (?rec\<lparr>ir_id := id_next db\<rparr>)"
    using S by (metis fst_conv) (use S in simp)
  have pos: "0 < id_next db" using assms(1) by (simp add: wf_table_def)
  show ?thesis
    using I insert_wf [OF assms(1), of ?rec] pos
    by (intro exI [of _ "snd (insert_row ?rec db)"] conjI)
       (simp_all add: claim_row_def CreateProcessing_def Let_def claim_outcome_def)
qed

lemma claim_found:
  assumes wf: "wf_table db" and ex: "select_row scope h db = Some ex"
  shows "\<exists>db'. claim_row E cfg scope h fp now ttl (quiet db) =
      (Inr (if ir_fingerprint ex \<noteq> fp then Inl KeyConflict
            else if ir_expiresAt ex \<le> now \<and> lock_lapsed now ex then Inr (Owned (ir_id ex))
            else settled E now ex), quiet db') \<and>
    claim_outcome E scope h fp now
      (if ir_fingerprint ex \<noteq> fp then Inl KeyConflict
       else if ir_expiresAt ex \<le> now \<and> lock_lapsed now ex then Inr (Owned (ir_id ex))
       else settled E now ex) db db'"
proof -
  from select_row_Some [OF ex] have mem: "ex \<in> set (id_rows db)" by simp
  have ins: "insert_row rec db = (None, db)" if "ir_scope rec = scope" "ir_hash rec = h" for rec
    using ex that select_row_None [of scope h db] by (simp add: insert_row_def)
  have pos: "0 < ir_id ex" using wf mem by (simp add: wf_table_def)
  note S = settle_quiet [OF wf mem] and T = reclaim_quiet [OF wf mem]
  have R: "wf_table (snd (reclaim_rows (ir_id ex) (ir_status ex) now l e db)) \<and>
      (\<exists>rec. select_row scope h (snd (reclaim_rows (ir_id ex) (ir_status ex) now l e db)) = Some rec \<and>
         ir_id rec = ir_id ex \<and> ir_fingerprint rec = ir_fingerprint ex)" if "lock_lapsed now ex" for l e
    using reclaim_select [OF wf ex refl that, of l e] by auto
  let ?l = "now + ProcessingTimeout cfg" and ?e = "now + ttl"
  let ?db' = "if ir_fingerprint ex = fp \<and> lock_lapsed now ex \<and>
        (ir_expiresAt ex \<le> now \<or> ir_status ex = IdempotencyStatusFailedRetryable)
      then snd (reclaim_rows (ir_id ex) (ir_status ex) now ?l ?e db) else db"
  have "claim_row E cfg scope h fp now ttl (quiet db) =
      (Inr (if ir_fingerprint ex \<noteq> fp then Inl KeyConflict
            else if ir_expiresAt ex \<le> now \<and> lock_lapsed now ex then Inr (Owned (ir_id ex))
            else settled E now ex), quiet ?db')"
    by (auto simp: claim_row_def CreateProcessing_def Let_def ins resolve_existing_def GetByScopeAndKeyHash_def ex T S)
  moreover have "claim_outcome E scope h fp now
      (if ir_fingerprint ex \<noteq> fp then Inl KeyConflict
       else if ir_expiresAt ex \<le> now \<and> lock_lapsed now ex then Inr (Owned (ir_id ex))
       else settled E now ex) db ?db'"
    using R wf pos
    by (auto simp: claim_outcome_def settled_def split: option.split sum.split claim.split)
       (auto simp: IdempotencyStatusSucceeded_def IdempotencyStatusProcessing_def IdempotencyStatusFailedRetryable_def)
  ultimately show ?thesis by blast
qed

section \<open>Requests\<close>

text \<open>A request that reaches the gate, with its key and its fingerprint.\<close>

definition gated ::
    "('p, 'd) idem_ext \<Rightarrow> 'p IdempotencyExecuteOptions \<Rightarrow> string \<Rightarrow> string \<Rightarrow> bool" where
  "gated E opts key fp \<longleftrightarrow> NormalizeIdempotencyKey (op_key opts) = Inr key \<and> key \<noteq> [] \<and> op_scope opts \<noteq> [] \<and>
     BuildIdempotencyFingerprint E (op_method opts) (op_route opts) (op_actorScope opts) (op_payload opts) = Inr fp"

definition request_ttl :: "IdempotencyConfig \<Rightarrow> 'p IdempotencyExecuteOptions \<Rightarrow> int" where
  "request_ttl cfg opts = (if op_ttl opts \<le> 0 then DefaultTTL cfg else op_ttl opts)"

text \<open>The guarded operation on a working database does not touch the table of keys.\<close>

definition leaves_table :: "('z idem_db_scheme, 'd) prog \<Rightarrow> bool" where
  "leaves_table p \<longleftrightarrow> (\<forall>db. \<exists>r db'. p (quiet db) = (r, quiet db') \<and>
     id_rows db' = id_rows db \<and> id_next db' = id_next db)"

lemma Execute_gated:
  assumes "gated E opts key fp"
  shows "Execute E cfg True opts now later (Some execute) =
    bindW (claim_row E cfg (op_scope opts) (HashIdempotencyKey E key) fp now (request_ttl cfg opts)) (\<lambda>c. case c of
      Inl e \<Rightarrow> returnW (Inl e)
    | Inr (Replay d) \<Rightarrow> returnW (Inr \<lparr>Data = d, Replayed = True\<rparr>)
    | Inr (Owned i) \<Rightarrow> run_owned E cfg i (if op_bounded opts then later + request_ttl cfg opts
        else now + request_ttl cfg opts) later execute)"
  using assms unfolding gated_def Execute_def request_ttl_def Let_def by simp

lemma claim_cases:
  assumes "wf_table db"
  obtains r db' where "claim_row E cfg scope h fp now ttl (quiet db) = (Inr r, quiet db')"
    "claim_outcome E scope h fp now r db db'"
  using claim_fresh [OF assms] claim_found [OF assms] by (cases "select_row scope h db") blast+

lemma settled_replay: "settled E now ex = Inr (Replay d) \<longleftrightarrow>
    ir_status ex = IdempotencyStatusSucceeded \<and> decodeStoredResponse E (ir_responseBody ex) = Some d"
  by (auto simp: settled_def split: option.splits)

lemma succeed_keeps: "keeps_identity (\<lambda>r. r\<lparr>ir_status := a, ir_responseStatus := b, ir_responseBody := c,
    ir_errorReason := d, ir_lockedUntil := e, ir_expiresAt := f\<rparr>)"
  by (simp add: keeps_identity_def)

text \<open>A run that returned a fresh success stored its body in its row.\<close>

lemma run_owned_success:
  assumes wf: "wf_table db" and row: "select_row scope h db = Some rec" "ir_id rec = i"
    and ex: "leaves_table execute"
    and run: "run_owned E cfg i expiresAt later execute (quiet db) = (Inr (Inr res), w)"
  shows "\<exists>db' rec'. w = quiet db' \<and> wf_table db' \<and> select_row scope h db' = Some rec' \<and> Replayed res = False \<and>
    ir_fingerprint rec' = ir_fingerprint rec \<and> ir_status rec' = IdempotencyStatusSucceeded \<and>
    ir_responseBody rec' = marshalStoredResponse E cfg (Data res) \<and> ir_expiresAt rec' = expiresAt"
proof -
  obtain r db1 where e: "execute (quiet db) = (r, quiet db1)" and same: "id_rows db1 = id_rows db" "id_next db1 = id_next db"
    using ex [unfolded leaves_table_def, rule_format, of db] by blast
  have wf1: "wf_table db1" "select_row scope h db1 = Some rec"
    using wf row(1) same by (simp_all add: wf_table_def select_row_def)
  have i: "i \<noteq> 0" using wf row select_row_Some [OF row(1)] by (auto simp: wf_table_def)
  show ?thesis
  proof (cases r)
    case (Inl err)
    with run e i show ?thesis
      by (simp add: run_owned_def catchW_def bindW_def MarkFailedRetryable_def Let_def split: prod.splits)
  next
    case (Inr d)
    obtain body where b: "marshalStoredResponse E cfg d = Some body"
      using run e i Inr by (cases "marshalStoredResponse E cfg d") (simp_all add: run_owned_def)
    let ?db' = "snd (succeed_rows i 200 body expiresAt db1)"
    have "run_owned E cfg i expiresAt later execute (quiet db) = (Inr (Inr \<lparr>Data = d, Replayed = False\<rparr>), quiet ?db')"
      using e i Inr b by (simp add: run_owned_def MarkSucceeded_def)
    with run have res: "res = \<lparr>Data = d, Replayed = False\<rparr>" "w = quiet ?db'" by simp_all
    have "wf_table ?db'" using wf1 succeed_keeps by (simp add: succeed_rows_def update_wf)
    moreover have "select_row scope h ?db' = Some (rec\<lparr>ir_status := IdempotencyStatusSucceeded,
        ir_responseStatus := Some 200, ir_responseBody := Some body, ir_errorReason := None,
        ir_lockedUntil := None, ir_expiresAt := expiresAt\<rparr>)"
      using wf1 row(2) succeed_keeps by (simp add: succeed_rows_def update_select)
    ultimately show ?thesis using res b by auto
  qed
qed

text \<open>After a fresh success the row of the key holds the response until the expiry.\<close>

lemma fresh_success:
  assumes "wf_table db" and "gated E opts key fp" and "leaves_table execute"
    and "Execute E cfg True opts now later (Some execute) (quiet db) = (Inr (Inr res), w)" and "Replayed res = False"
  obtains db2 rec where "w = quiet db2" "wf_table db2"
    "select_row (op_scope opts) (HashIdempotencyKey E key) db2 = Some rec" "ir_fingerprint rec = fp"
    "ir_status rec = IdempotencyStatusSucceeded" "ir_responseBody rec = marshalStoredResponse E cfg (Data res)"
    "ir_expiresAt rec = (if op_bounded opts then later else now) + request_ttl cfg opts"
proof -
  let ?h = "HashIdempotencyKey E key" and ?ttl = "request_ttl cfg opts"
  let ?exp = "if op_bounded opts then later + ?ttl else now + ?ttl"
  obtain r db1 where claim: "claim_row E cfg (op_scope opts) ?h fp now ?ttl (quiet db) = (Inr r, quiet db1)"
    and out: "claim_outcome E (op_scope opts) ?h fp now r db db1"
    by (rule claim_cases [OF assms(1)])
  note run = assms(4)[unfolded Execute_gated [OF assms(2)]]
  obtain i where r: "r = Inr (Owned i)"
    using run claim assms(5) by (cases r) (auto split: claim.splits)
  with out obtain rec where rec: "wf_table db1" "select_row (op_scope opts) ?h db1 = Some rec" "ir_id rec = i"
      "ir_fingerprint rec = fp"
    by (auto simp: claim_outcome_def)
  from run claim r have "run_owned E cfg i ?exp later execute (quiet db1) = (Inr (Inr res), w)" by simp
  from run_owned_success [OF rec(1,2,3) assms(3) this] rec(4) show ?thesis
    by (auto intro: that split: if_splits)
qed

text \<open>A repeated request before the expiry gets what the row has settled to.\<close>

lemma repeated_request:
  assumes "wf_table db" and "gated E opts key fp" and "select_row (op_scope opts) (HashIdempotencyKey E key) db = Some ex"
    and "ir_fingerprint ex = fp" and "now < ir_expiresAt ex"
  shows "settled E now ex = Inr (Replay d) \<Longrightarrow>
      Execute E cfg True opts now later (Some execute) (quiet db) = (Inr (Inr \<lparr>Data = d, Replayed = True\<rparr>), quiet db)"
    and "settled E now ex = Inl err \<Longrightarrow>
      Execute E cfg True opts now later (Some execute) (quiet db) = (Inr (Inl err), quiet db)"
proof -
  let ?h = "HashIdempotencyKey E key" and ?ttl = "request_ttl cfg opts"
  from claim_found [OF assms(1,3), where E = E and fp = fp and cfg = cfg and now = now and ttl = ?ttl]
  obtain db1 where 1: "claim_row E cfg (op_scope opts) ?h fp now ?ttl (quiet db) = (Inr (settled E now ex), quiet db1)"
    "claim_outcome E (op_scope opts) ?h fp now (settled E now ex) db db1"
    using assms(4,5) by auto
  then show "settled E now ex = Inr (Replay d) \<Longrightarrow>
      Execute E cfg True opts now later (Some execute) (quiet db) = (Inr (Inr \<lparr>Data = d, Replayed = True\<rparr>), quiet db)"
    "settled E now ex = Inl err \<Longrightarrow>
      Execute E cfg True opts now later (Some execute) (quiet db) = (Inr (Inl err), quiet db)"
    by (simp_all add: Execute_gated [OF assms(2)] claim_outcome_def)
qed

section \<open>A concrete instance\<close>

text \<open>Plain strings as payloads and responses, for the witnesses.\<close>

definition plain_ext :: "(string, string) idem_ext" where
  "plain_ext = \<lparr>ie_sha = id, ie_upper = id, ie_payload = Some,
     ie_stored = (\<lambda>s. if s = ''secret'' then ''hidden'' else s), ie_encode = Some, ie_redact = id,
     ie_decode = (\<lambda>s. if drop (length s - length truncation_mark) s = truncation_mark then None else Some s),
     ie_none = [], ie_blank = (\<lambda>s. s = []), ie_reason = (\<lambda>_. [])\<rparr>"

definition plain_opts :: "string IdempotencyExecuteOptions" where
  "plain_opts = \<lparr>op_scope = ''s'', op_actorScope = ''u'', op_method = ''POST'', op_route = ''/x'', op_key = [107],
     op_payload = ''p'', op_ttl = 100, op_requireKey = True, op_bounded = False\<rparr>"

definition plain_fp :: string where
  "plain_fp = ''POST'' @ newline @ ''/x'' @ newline @ ''u'' @ newline @ ''p''"

definition no_rows :: idem_db where
  "no_rows = \<lparr>id_rows = [], id_next = 1\<rparr>"

definition short_cfg :: IdempotencyConfig where
  "short_cfg = DefaultIdempotencyConfig\<lparr>MaxStoredResponseLen := 3, ProcessingTimeout := 50\<rparr>"

lemma truncation_mark_nonempty [simp]: "truncation_mark \<noteq> []"
  by (simp add: truncation_mark_def)

lemma plain_gated: "gated plain_ext plain_opts [char_of (107 :: nat)] plain_fp"
  by (simp add: gated_def plain_ext_def plain_opts_def plain_fp_def NormalizeIdempotencyKey_def trim_space_def
      is_space_def BuildIdempotencyFingerprint_def Let_def)

lemma no_rows_wf: "wf_table no_rows"
  by (simp add: no_rows_def wf_table_def)

lemma return_leaves: "leaves_table (returnW a)"
  by (simp add: leaves_table_def)

text \<open>One request on the empty table.\<close>

lemma plain_run:
  "\<exists>db. Execute plain_ext cfg True plain_opts 0 1 (Some (returnW a)) (quiet no_rows) =
     (Inr (Inr \<lparr>Data = a, Replayed = False\<rparr>), quiet db)"
  unfolding Execute_gated [OF plain_gated]
  by (simp add: claim_row_def CreateProcessing_def Let_def insert_row_def no_rows_def
      run_owned_def MarkSucceeded_def marshalStoredResponse_def plain_ext_def plain_opts_def)

section \<open>The properties\<close>

text \<open>
  C10. A success is replayed: when a request with a key has returned a fresh
  success whose redacted encoding fits the size limit, any later request with the same
  scope, key and payload, before the stored outcome expires, gets the decoding of that encoding,
  in which the response may hide one-time secrets, marked as replayed; its own
  operation is not run and nothing in the database changes.  The database works, and the
  operation leaves the table of keys alone.  A longer response is cut and lost.
\<close>

theorem success_is_replayed:
  assumes "wf_table db" and "gated E opts key fp" and "leaves_table execute"
    and "Execute E cfg True opts now later (Some execute) (quiet db) = (Inr (Inr res), w)" and "Replayed res = False"
    and "ie_encode E (ie_stored E (Data res)) = Some raw" and "\<not> ie_blank E (ie_redact E raw)"
    and "ie_decode E (ie_redact E raw) = Some d"
    and "0 < MaxStoredResponseLen cfg \<Longrightarrow> int (length (ie_redact E raw)) \<le> MaxStoredResponseLen cfg"
    and "now2 < (if op_bounded opts then later else now) + request_ttl cfg opts"
  shows "Execute E cfg True opts now2 later2 (Some execute2) w = (Inr (Inr \<lparr>Data = d, Replayed = True\<rparr>), w)"
proof -
  obtain db2 rec where 2: "w = quiet db2" "wf_table db2"
    "select_row (op_scope opts) (HashIdempotencyKey E key) db2 = Some rec" "ir_fingerprint rec = fp"
    "ir_status rec = IdempotencyStatusSucceeded" "ir_responseBody rec = marshalStoredResponse E cfg (Data res)"
    "ir_expiresAt rec = (if op_bounded opts then later else now) + request_ttl cfg opts"
    by (rule fresh_success [OF assms(1-5)])
  have "marshalStoredResponse E cfg (Data res) = Some (ie_redact E raw)"
    using assms(6,9) by (auto simp: marshalStoredResponse_def Let_def)
  then have "settled E now2 rec = Inr (Replay d)"
    using 2(5,6) assms(7,8) by (simp add: settled_replay decodeStoredResponse_def)
  from repeated_request(1) [OF 2(2) assms(2) 2(3,4) _ this] assms(10) 2(1,7) show ?thesis by simp
qed

theorem success_is_replayed_witness:
  "\<exists>w. Execute plain_ext DefaultIdempotencyConfig True plain_opts 0 1 (Some (returnW ''secret'')) (quiet no_rows) =
       (Inr (Inr \<lparr>Data = ''secret'', Replayed = False\<rparr>), w) \<and>
     Execute plain_ext DefaultIdempotencyConfig True plain_opts 50 51 (Some (failW ErrRedis)) w =
       (Inr (Inr \<lparr>Data = ''hidden'', Replayed = True\<rparr>), w)"
proof -
  obtain db where run: "Execute plain_ext DefaultIdempotencyConfig True plain_opts 0 1 (Some (returnW ''secret'')) (quiet no_rows) =
     (Inr (Inr \<lparr>Data = ''secret'', Replayed = False\<rparr>), quiet db)" using plain_run by blast
  from success_is_replayed [OF no_rows_wf plain_gated return_leaves run, of "''hidden''" "''hidden''" 50 51 "failW ErrRedis"] run
  show ?thesis
    by (auto simp: plain_ext_def plain_opts_def request_ttl_def DefaultIdempotencyConfig_def truncation_mark_def)
qed

text \<open>The seconds that a refusal tells to wait.\<close>

fun retry_hint :: "idem_err \<Rightarrow> int option" where
  "retry_hint (InProgress s) = s"
| "retry_hint (RetryBackoff s) = s"
| "retry_hint _ = None"

text \<open>
  C30. Refusals are free: a request whose key is taken by another payload, by a
  request still processing, or by a failure still backing off is answered with the
  conflict at hand; its operation is not run and the database is unchanged.  A key taken by another
  payload is reported without a hint; the other refusals tell, for a locked row, the whole
  seconds until its lock ends, but at least one, and a failure still backing off always has a lock.
\<close>

theorem refusal_leaves_no_trace:
  assumes "wf_table db" and "gated E opts key fp"
    and "select_row (op_scope opts) (HashIdempotencyKey E key) db = Some ex"
    and "ir_fingerprint ex \<noteq> fp \<or> (now < ir_expiresAt ex \<and>
           (ir_status ex = IdempotencyStatusProcessing \<or>
            ir_status ex = IdempotencyStatusFailedRetryable \<and> \<not> lock_lapsed now ex))"
  shows "\<exists>err. Execute E cfg True opts now later (Some execute) (quiet db) = (Inr (Inl err), quiet db) \<and>
    (if ir_fingerprint ex \<noteq> fp then err = KeyConflict
     else (if ir_status ex = IdempotencyStatusProcessing then (\<exists>s. err = InProgress s) else (\<exists>s. err = RetryBackoff (Some s))) \<and>
       retry_hint err = (case ir_lockedUntil ex of None \<Rightarrow> None
         | Some t \<Rightarrow> Some (if t < now then 1 else max 1 ((t - now) div 1000000000))))"
proof -
  define err where "err = (if ir_fingerprint ex \<noteq> fp then KeyConflict
      else if ir_status ex = IdempotencyStatusProcessing then InProgress (retry_after (ir_lockedUntil ex) now)
      else RetryBackoff (retry_after (ir_lockedUntil ex) now))"
  have hint: "retry_after (Some t) now = Some (if t < now then 1 else max 1 ((t - now) div 1000000000))" for t
  proof -
    have "0 \<le> (now - t) div 1000000000" if "t < now" using that by (intro pos_imp_zdiv_nonneg_iff[THEN iffD2]) auto
    then show ?thesis by (auto simp: retry_after_def Let_def)
  qed
  have "Execute E cfg True opts now later (Some execute) (quiet db) = (Inr (Inl err), quiet db)"
  proof (cases "ir_fingerprint ex = fp")
    case True
    then have "settled E now ex = Inl err" using assms(4)
      by (auto simp: err_def settled_def IdempotencyStatusSucceeded_def IdempotencyStatusProcessing_def
          IdempotencyStatusFailedRetryable_def)
    from repeated_request(2) [OF assms(1,2,3) True _ this] assms(4) True show ?thesis by simp
  next
    case False
    with claim_found [OF assms(1,3), where E = E and fp = fp and cfg = cfg and now = now and ttl = "request_ttl cfg opts"]
    show ?thesis by (auto simp: err_def Execute_gated [OF assms(2)] claim_outcome_def)
  qed
  then show ?thesis using assms(4) hint
    by (intro exI[of _ err]) (auto simp: err_def lock_lapsed_def retry_after_def[of None] split: option.splits)
qed

theorem refusal_leaves_no_trace_witness:
  "\<exists>db :: idem_db. Execute plain_ext short_cfg True plain_opts 0 1 (Some (failW ErrRedis)) (quiet db) =
     (Inr (Inl (InProgress (Some 7))), quiet db)"
proof -
  let ?r = "\<lparr>ir_id = 1, ir_scope = ''s'', ir_hash = [char_of (107 :: nat)], ir_fingerprint = plain_fp,
     ir_status = IdempotencyStatusProcessing, ir_responseStatus = None, ir_responseBody = None,
     ir_errorReason = None, ir_lockedUntil = Some 7500000000, ir_expiresAt = 9000000000\<rparr>"
  let ?db = "\<lparr>id_rows = [?r], id_next = 2\<rparr> :: idem_db"
  have "wf_table ?db" by (simp add: wf_table_def)
  from refusal_leaves_no_trace [OF this plain_gated, of ?r 0 short_cfg 1 "failW ErrRedis"]
  have "Execute plain_ext short_cfg True plain_opts 0 1 (Some (failW ErrRedis)) (quiet ?db) =
     (Inr (Inl (InProgress (Some 7))), quiet ?db)"
    by (auto simp: select_row_def plain_opts_def HashIdempotencyKey_def plain_ext_def)
  then show ?thesis by blast
qed

text \<open>
  A response longer than the limit is stored cut off and marked; unless a text
  ending in the mark were JSON, no later request with the key ever gets it: every
  repetition before the expiry is answered with the error for an unavailable store.
\<close>

theorem truncated_response_is_lost:
  assumes "wf_table db" and "gated E opts key fp" and "leaves_table execute"
    and "Execute E cfg True opts now later (Some execute) (quiet db) = (Inr (Inr res), w)" and "Replayed res = False"
    and "ie_encode E (ie_stored E (Data res)) = Some raw" and "0 < MaxStoredResponseLen cfg"
    and "MaxStoredResponseLen cfg < int (length (ie_redact E raw))"
    and "\<And>x. \<not> ie_blank E (x @ truncation_mark) \<and> ie_decode E (x @ truncation_mark) = None"
    and "now2 < (if op_bounded opts then later else now) + request_ttl cfg opts"
  shows "Execute E cfg True opts now2 later2 (Some execute2) w = (Inr (Inl StoreUnavail), w)"
proof -
  have body: "decodeStoredResponse E (marshalStoredResponse E cfg (Data res)) = None"
    using assms(6,7,8,9) by (simp add: marshalStoredResponse_def decodeStoredResponse_def Let_def)
  obtain db2 rec where 2: "w = quiet db2" "wf_table db2"
    "select_row (op_scope opts) (HashIdempotencyKey E key) db2 = Some rec" "ir_fingerprint rec = fp"
    "ir_status rec = IdempotencyStatusSucceeded" "ir_responseBody rec = marshalStoredResponse E cfg (Data res)"
    "ir_expiresAt rec = (if op_bounded opts then later else now) + request_ttl cfg opts"
    by (rule fresh_success [OF assms(1-5)])
  have "settled E now2 rec = Inl StoreUnavail" using 2(5,6) body by (simp add: settled_def)
  from repeated_request(2) [OF 2(2) assms(2) 2(3,4) _ this] assms(10) 2(1,7) show ?thesis by simp
qed

theorem truncated_response_is_lost_witness:
  "\<exists>w. Execute plain_ext short_cfg True plain_opts 0 1 (Some (returnW ''long'')) (quiet no_rows) =
       (Inr (Inr \<lparr>Data = ''long'', Replayed = False\<rparr>), w) \<and>
     Execute plain_ext short_cfg True plain_opts 50 51 (Some (returnW ''long'')) w = (Inr (Inl StoreUnavail), w)"
proof -
  obtain db where run: "Execute plain_ext short_cfg True plain_opts 0 1 (Some (returnW ''long'')) (quiet no_rows) =
     (Inr (Inr \<lparr>Data = ''long'', Replayed = False\<rparr>), quiet db)" using plain_run by blast
  from truncated_response_is_lost [OF no_rows_wf plain_gated return_leaves run, of "''long''" 50 51 "returnW ''long''"] run
  show ?thesis
    by (auto simp: plain_ext_def plain_opts_def request_ttl_def short_cfg_def)
qed

end
