(* ===== verification/Idempotency_Claims.thy ===== *)
theory Idempotency_Claims
  imports Idempotency_Gate
begin

text \<open>
  Many requests at once: a claim on a row excludes every other claim until it
  lapses, in every interleaving of the repository's statements, and the clean-up
  removes the oldest expired rows and nothing else.
\<close>

section \<open>Interleavings of claims\<close>

text \<open>
  A configuration: the table, the clock all instances share, the claims handed out
  (request, row, and when the claim lapses), and whether an overtaken request has
  touched its row.  A request renews or finishes its row at any time, its claim
  lapsed or not, since \<open>MarkSucceeded\<close> and \<open>MarkFailedRetryable\<close> go by the id of
  the row alone; it is overtaken when another request holds a standing claim on the row.
\<close>

definition overtaken :: "int \<Rightarrow> nat \<Rightarrow> int \<Rightarrow> (nat \<times> int \<times> int) list \<Rightarrow> bool" where
  "overtaken now w i gs \<longleftrightarrow> (\<exists>(w', i', u') \<in> set gs. i' = i \<and> now < u' \<and> w' \<noteq> w)"

inductive idem_reach :: "int \<Rightarrow> int \<Rightarrow> 'z idem_db_scheme \<times> int \<times> (nat \<times> int \<times> int) list \<times> bool \<Rightarrow> bool"
  for PT ttl where
  start: "wf_table db \<Longrightarrow> idem_reach PT ttl (db, now, [], False)"
| create: "idem_reach PT ttl (db, now, gs, bad) \<Longrightarrow> w \<notin> fst ` set gs \<Longrightarrow> ir_status rec = IdempotencyStatusProcessing \<Longrightarrow>
    ir_lockedUntil rec = Some (now + PT) \<Longrightarrow> ir_expiresAt rec = now + ttl \<Longrightarrow>
    insert_row rec db = (Some i, db') \<Longrightarrow> idem_reach PT ttl (db', now, (w, i, now + PT) # gs, bad)"
| reclaim: "idem_reach PT ttl (db, now, gs, bad) \<Longrightarrow> w \<notin> fst ` set gs \<Longrightarrow>
    reclaim_rows i st now (now + PT) (now + ttl) db = (n, db') \<Longrightarrow>
    idem_reach PT ttl (db', now, if 0 < n then (w, i, now + PT) # gs else gs, bad)"
| renew: "idem_reach PT ttl (db, now, gs, bad) \<Longrightarrow> (w, i, u) \<in> set gs \<Longrightarrow>
    extend_rows i fp (now + PT) (now + ttl) db = (n, db') \<Longrightarrow>
    idem_reach PT ttl (db', now,
      if 0 < n then (w, i, now + PT) # filter (\<lambda>g. \<not> (fst g = w \<and> fst (snd g) = i)) gs else gs,
      bad \<or> overtaken now w i gs)"
| finish: "idem_reach PT ttl (db, now, gs, bad) \<Longrightarrow> (w, i, u) \<in> set gs \<Longrightarrow>
    db' = snd (succeed_rows i status body e db) \<or> db' = snd (fail_rows i reason l e db) \<Longrightarrow>
    idem_reach PT ttl (db', now, filter (\<lambda>g. \<not> (fst g = w \<and> fst (snd g) = i)) gs, bad \<or> overtaken now w i gs)"
| clean: "idem_reach PT ttl (db, now, gs, bad) \<Longrightarrow> delete_expired now limit db = (n, db') \<Longrightarrow>
    idem_reach PT ttl (db', now, gs, bad)"
| tick: "idem_reach PT ttl (db, now, gs, bad) \<Longrightarrow> 0 \<le> d \<Longrightarrow> idem_reach PT ttl (db, now + d, gs, bad)"

text \<open>The row a standing claim needs.\<close>

definition claimed_row :: "'z idem_db_scheme \<Rightarrow> int \<Rightarrow> int \<Rightarrow> bool" where
  "claimed_row db i u \<longleftrightarrow> (\<exists>r \<in> set (id_rows db). ir_id r = i \<and> ir_status r = IdempotencyStatusProcessing \<and>
     (\<exists>l. ir_lockedUntil r = Some l \<and> u \<le> l) \<and> u \<le> ir_expiresAt r)"

definition claims_inv :: "'z idem_db_scheme \<Rightarrow> int \<Rightarrow> (nat \<times> int \<times> int) list \<Rightarrow> bool" where
  "claims_inv db now gs \<longleftrightarrow> wf_table db \<and>
     (\<forall>(w, i, u) \<in> set gs. i < id_next db \<and> (now < u \<longrightarrow> claimed_row db i u)) \<and>
     (\<forall>(w, i, u) \<in> set gs. \<forall>(w', i', u') \<in> set gs. i = i' \<and> now < u \<and> now < u' \<longrightarrow> w = w')"

lemma claims_invD:
  assumes "claims_inv db now gs"
  shows "wf_table db" "(w, i, u) \<in> set gs \<Longrightarrow> i < id_next db"
    "(w, i, u) \<in> set gs \<Longrightarrow> now < u \<Longrightarrow> claimed_row db i u"
    "(w, i, u) \<in> set gs \<Longrightarrow> (w', i, u') \<in> set gs \<Longrightarrow> now < u \<Longrightarrow> now < u' \<Longrightarrow> w = w'"
  using assms unfolding claims_inv_def by (fastforce, fastforce, fastforce, fastforce)

lemma claims_invI:
  assumes "wf_table db" "\<And>w i u. (w, i, u) \<in> set gs \<Longrightarrow> i < id_next db"
    "\<And>w i u. (w, i, u) \<in> set gs \<Longrightarrow> now < u \<Longrightarrow> claimed_row db i u"
    "\<And>w i u w' u'. (w, i, u) \<in> set gs \<Longrightarrow> (w', i, u') \<in> set gs \<Longrightarrow> now < u \<Longrightarrow> now < u' \<Longrightarrow> w = w'"
  shows "claims_inv db now gs"
  using assms unfolding claims_inv_def by fastforce

lemma update_rows_next: "id_next (snd (update_rows P f db)) = id_next db"
  by (simp add: update_rows_def)

lemma claimed_other:
  "claimed_row db j u \<Longrightarrow> (\<And>r. P r \<Longrightarrow> ir_id r \<noteq> j) \<Longrightarrow> claimed_row (snd (update_rows P f db)) j u"
  unfolding claimed_row_def update_rows_def by fastforce

lemma claimed_insert: "claimed_row db j u \<Longrightarrow> claimed_row (snd (insert_row rec db)) j u"
  unfolding claimed_row_def insert_row_def by auto

lemma claimed_updated:
  assumes "0 < fst (update_rows P f db)"
    and "\<And>r. P r \<Longrightarrow> ir_id (f r) = i \<and> ir_status (f r) = IdempotencyStatusProcessing \<and>
      ir_lockedUntil (f r) = Some l \<and> u \<le> l \<and> u \<le> ir_expiresAt (f r)"
  shows "claimed_row (snd (update_rows P f db)) i u"
proof -
  from assms(1) obtain r where r: "r \<in> set (id_rows db)" "P r"
    by (auto simp: update_rows_def filter_empty_conv)
  then have "f r \<in> set (id_rows (snd (update_rows P f db)))" by (force simp: update_rows_def)
  with assms(2) [OF r(2)] show ?thesis unfolding claimed_row_def by blast
qed

lemma delete_wf: "wf_table db \<Longrightarrow> wf_table (snd (delete_expired now limit db))"
  unfolding wf_table_def delete_expired_def Let_def by (auto simp: distinct_map_filter)

lemma claimed_delete:
  assumes "wf_table db" "claimed_row db j u" "now < u"
  shows "claimed_row (snd (delete_expired now limit db)) j u"
proof -
  from assms(2) obtain r where r: "r \<in> set (id_rows db)" "ir_id r = j" "ir_status r = IdempotencyStatusProcessing"
      "\<exists>l. ir_lockedUntil r = Some l \<and> u \<le> l" "u \<le> ir_expiresAt r"
    by (auto simp: claimed_row_def)
  have "ir_id r \<notin> set (victims now limit db)"
  proof
    assume "ir_id r \<in> set (victims now limit db)"
    then obtain q where "ir_id q = ir_id r" "q \<in> set (id_rows db)" "ir_expiresAt q \<le> now"
      by (fastforce simp: victims_def dest: in_set_takeD)
    with wf_unique [OF assms(1) _ r(1), of q] r(5) assms(3) show False by auto
  qed
  with r show ?thesis by (auto simp: claimed_row_def delete_expired_def Let_def)
qed

text \<open>A step that hands out nothing, and a step that hands out one claim.\<close>

lemma claims_shrink:
  assumes I: "claims_inv db now gs" and "wf_table db'" "id_next db \<le> id_next db'" "now \<le> now'" "set gs' \<subseteq> set gs"
    and C: "\<And>w i u. (w, i, u) \<in> set gs' \<Longrightarrow> now' < u \<Longrightarrow> claimed_row db i u \<Longrightarrow> claimed_row db' i u"
  shows "claims_inv db' now' gs'"
proof (rule claims_invI)
  note D = claims_invD [OF I]
  show "wf_table db'" by (rule assms(2))
  show "i < id_next db'" if "(w, i, u) \<in> set gs'" for w i u
    using D(2) that assms(3,5) by fastforce
  show "claimed_row db' i u" if "(w, i, u) \<in> set gs'" "now' < u" for w i u
  proof (rule C [OF that])
    show "claimed_row db i u" by (rule D(3) [of w]) (use that assms(4,5) in auto)
  qed
  show "w = w'" if "(w, i, u) \<in> set gs'" "(w', i, u') \<in> set gs'" "now' < u" "now' < u'" for w i u w' u'
    by (rule D(4) [of w i u w' u']) (use that assms(4,5) in auto)
qed

lemma claims_grant:
  assumes I: "claims_inv db now gs" and "i0 < id_next db" "claimed_row db i0 u0"
    and same: "\<And>w u. (w, i0, u) \<in> set gs \<Longrightarrow> now < u \<Longrightarrow> w = w0"
  shows "claims_inv db now ((w0, i0, u0) # gs)"
proof (rule claims_invI)
  note D = claims_invD [OF I]
  show "wf_table db" by (rule D(1))
  show "i < id_next db" if "(w, i, u) \<in> set ((w0, i0, u0) # gs)" for w i u
    using D(2) that assms(2) by auto
  show "claimed_row db i u" if "(w, i, u) \<in> set ((w0, i0, u0) # gs)" "now < u" for w i u
    using D(3) that assms(3) by auto
  show "w = w'" if "(w, i, u) \<in> set ((w0, i0, u0) # gs)" "(w', i, u') \<in> set ((w0, i0, u0) # gs)"
      "now < u" "now < u'" for w i u w' u'
    using that same [of w u] same [of w' u'] D(4) [of w i u w' u'] by auto
qed

lemma outcome_update:
  "\<exists>f. keeps_identity f \<and> snd (succeed_rows i status body e db) = snd (update_rows (\<lambda>r. ir_id r = i) f db)"
  "\<exists>f. keeps_identity f \<and> snd (fail_rows i reason l e db) = snd (update_rows (\<lambda>r. ir_id r = i) f db)"
  unfolding succeed_rows_def fail_rows_def
  by (rule exI, rule conjI [OF _ refl], simp add: keeps_identity_def)+

lemma claims_invariant:
  assumes "idem_reach PT ttl x" and "PT \<le> ttl"
  shows "case x of (db, now, gs, bad) \<Rightarrow> \<not> bad \<longrightarrow> claims_inv db now gs"
  using assms(1)
proof induction
  case (start db now)
  then show ?case by (simp add: claims_inv_def)
next
  case (create db now gs bad w rec i db')
  show ?case unfolding prod.case
  proof
  assume "\<not> bad"
  then have I: "claims_inv db now gs" using create.IH by simp
  note D = claims_invD [OF I]
  from create.hyps(6) have i: "i = id_next db" and db': "db' = snd (insert_row rec db)"
    and row: "rec\<lparr>ir_id := i\<rparr> \<in> set (id_rows db')" "id_next db' = id_next db + 1"
    by (auto simp: insert_row_def split: if_splits)
  have "claims_inv db' now gs"
    using claims_shrink [OF I, of db' now gs] insert_wf [OF D(1), of rec] claimed_insert [of db _ _ rec] row(2)
    by (simp add: db')
  moreover have "claimed_row db' i (now + PT)"
    using create.hyps(3,4,5) assms(2) row(1) by (auto simp: claimed_row_def intro!: bexI [of _ "rec\<lparr>ir_id := i\<rparr>"])
  ultimately show "claims_inv db' now ((w, i, now + PT) # gs)" using D(2) i row(2) by (intro claims_grant) fastforce+
  qed
next
  case (reclaim db now gs bad w i st n db')
  show ?case unfolding prod.case
  proof
  assume "\<not> bad"
  then have I: "claims_inv db now gs" using reclaim.IH by simp
  note D = claims_invD [OF I]
  let ?P = "\<lambda>r. ir_id r = i \<and> ir_status r = st \<and> (case ir_lockedUntil r of None \<Rightarrow> True | Some t \<Rightarrow> t \<le> now)"
  let ?f = "\<lambda>r. r\<lparr>ir_status := IdempotencyStatusProcessing, ir_lockedUntil := Some (now + PT), ir_errorReason := None,
    ir_expiresAt := now + ttl\<rparr>"
  have up: "update_rows ?P ?f db = (n, db')" using reclaim.hyps(3) by (simp add: reclaim_rows_def)
  show "claims_inv db' now (if 0 < n then (w, i, now + PT) # gs else gs)"
  proof (cases "0 < n")
    case True
    then obtain r where r: "r \<in> set (id_rows db)" "?P r" using up by (auto simp: update_rows_def filter_empty_conv)
    have free: "\<not> now < u" if "(w', i, u) \<in> set gs" for w' u
    proof
      assume "now < u"
      from D(3) [OF that this] obtain q l where "q \<in> set (id_rows db)" "ir_id q = i" "ir_lockedUntil q = Some l" "u \<le> l"
        by (auto simp: claimed_row_def)
      with wf_unique [OF D(1) r(1), of q] r(2) \<open>now < u\<close> show False by auto
    qed
    have new: "claimed_row db' i (now + PT)"
      using claimed_updated [of ?P ?f db i "now + PT" "now + PT"] up True assms(2) by simp
    have "keeps_identity ?f" by (simp add: keeps_identity_def)
    then have wf: "wf_table db'" "id_next db' = id_next db"
      using update_wf [OF _ D(1), of ?f ?P] update_rows_next [of ?P ?f db] unfolding up by simp_all
    have "claims_inv db' now gs"
    proof (rule claims_shrink [OF I wf(1) _ order_refl order_refl])
      show "claimed_row db' j u" if "(w', j, u) \<in> set gs" "now < u" "claimed_row db j u" for w' j u
        using claimed_other [OF that(3), of ?P ?f] free that(1,2) up by fastforce
    qed (simp add: wf(2))
    moreover have "i < id_next db'" using D(1) r wf(2) by (auto simp: wf_table_def)
    ultimately show ?thesis using True new free by (simp, intro claims_grant) blast+
  next
    case False
    then have "\<not> ?P r" if "r \<in> set (id_rows db)" for r using up that by (auto simp: update_rows_def filter_empty_conv)
    then have "db' = db" using update_none [of db ?P ?f] up by auto
    with False I show ?thesis by simp
  qed
  qed
next
  case (renew db now gs bad w i u fp n db')
  show ?case unfolding prod.case
  proof
  assume ok: "\<not> (bad \<or> overtaken now w i gs)"
  then have I: "claims_inv db now gs" using renew.IH by simp
  note D = claims_invD [OF I]
  let ?P = "\<lambda>r. ir_id r = i \<and> ir_status r = IdempotencyStatusProcessing \<and> ir_fingerprint r = fp"
  let ?f = "\<lambda>r. r\<lparr>ir_lockedUntil := Some (now + PT), ir_expiresAt := now + ttl\<rparr>"
  have up: "update_rows ?P ?f db = (n, db')" using renew.hyps(3) by (simp add: extend_rows_def)
  have same: "w' = w" if "(w', i, u') \<in> set gs" "now < u'" for w' u'
    using ok that by (auto simp: overtaken_def)
  show "claims_inv db' now (if 0 < n then (w, i, now + PT) # filter (\<lambda>g. \<not> (fst g = w \<and> fst (snd g) = i)) gs else gs)"
  proof (cases "0 < n")
    case True
    have new: "claimed_row db' i (now + PT)"
      using claimed_updated [of ?P ?f db i "now + PT" "now + PT"] up True assms(2) by simp
    have "keeps_identity ?f" by (simp add: keeps_identity_def)
    then have wf: "wf_table db'" "id_next db' = id_next db"
      using update_wf [OF _ D(1), of ?f ?P] update_rows_next [of ?P ?f db] unfolding up by simp_all
    let ?gs = "filter (\<lambda>g. \<not> (fst g = w \<and> fst (snd g) = i)) gs"
    have "claims_inv db' now ?gs"
    proof (rule claims_shrink [OF I wf(1) _ order_refl])
      show "claimed_row db' j v" if "(w', j, v) \<in> set ?gs" "now < v" "claimed_row db j v" for w' j v
      proof -
        have "j \<noteq> i" using that(1,2) same by auto
        then show ?thesis using claimed_other [OF that(3), of ?P ?f] up by auto
      qed
    qed (auto simp: wf(2))
    moreover have "i < id_next db'" using D(2) [OF renew.hyps(2)] wf(2) by simp
    ultimately have "claims_inv db' now ((w, i, now + PT) # ?gs)"
      using new same by (intro claims_grant) auto
    with True show ?thesis by simp
  next
    case False
    then have "\<not> ?P r" if "r \<in> set (id_rows db)" for r using up that by (auto simp: update_rows_def filter_empty_conv)
    then have "db' = db" using update_none [of db ?P ?f] up by auto
    with False I show ?thesis by simp
  qed
  qed
next
  case (finish db now gs bad w i u db' status body e reason l)
  show ?case unfolding prod.case
  proof
  assume ok: "\<not> (bad \<or> overtaken now w i gs)"
  then have I: "claims_inv db now gs" using finish.IH by simp
  note D = claims_invD [OF I]
  obtain f where f: "keeps_identity f" "db' = snd (update_rows (\<lambda>r. ir_id r = i) f db)"
    using finish.hyps(3) outcome_update by metis
  show "claims_inv db' now (filter (\<lambda>g. \<not> (fst g = w \<and> fst (snd g) = i)) gs)"
  proof (rule claims_shrink [OF I])
    show "wf_table db'" "id_next db \<le> id_next db'" using update_wf [OF f(1) D(1)] f(2) by (simp_all add: update_rows_next)
    show "claimed_row db' j v" if "(w', j, v) \<in> set (filter (\<lambda>g. \<not> (fst g = w \<and> fst (snd g) = i)) gs)" "now < v"
        "claimed_row db j v" for w' j v
    proof -
      have "j \<noteq> i" using that(1,2) ok by (auto simp: overtaken_def)
      then show ?thesis using claimed_other [OF that(3), of "\<lambda>r. ir_id r = i" f] f(2) by simp
    qed
  qed auto
  qed
next
  case (clean db now gs bad limit n db')
  show ?case unfolding prod.case
  proof
  assume "\<not> bad"
  then have I: "claims_inv db now gs" using clean.IH by simp
  have db': "db' = snd (delete_expired now limit db)" using clean.hyps(2) by simp
  have wf: "wf_table db" by (rule claims_invD(1) [OF I])
  show "claims_inv db' now gs" unfolding db'
  proof (rule claims_shrink [OF I delete_wf [OF wf] _ order_refl order_refl])
    show "claimed_row (snd (delete_expired now limit db)) j u" if "now < u" "claimed_row db j u" for j u
      by (rule claimed_delete [OF wf that(2,1)])
  qed (simp add: delete_expired_def Let_def)
  qed
next
  case (tick db now gs bad d)
  show ?case unfolding prod.case
  proof
  assume "\<not> bad"
  then have I: "claims_inv db now gs" using tick.IH by simp
  from claims_shrink [OF I claims_invD(1) [OF I]] tick.hyps(2) show "claims_inv db (now + d) gs" by simp
  qed
qed

text \<open>
  C11. Claims exclude each other: in every interleaving of inserts, reclaims,
  renewals, outcomes, clean-ups and time, in which no request renews or finishes a row
  after another has taken it over, at most one request holds a standing claim
  on a key, and the row of that key is marked as processing and locked at least
  until the claim lapses.  Requests may outlive their claims otherwise, and finish late.
  The stored lifetime must not be shorter than the processing timeout.
\<close>

theorem claims_exclude:
  assumes "idem_reach PT ttl (db, now, gs, False)" and "PT \<le> ttl"
    and "(w, ir_id r, u) \<in> set gs" and "now < u" and "(w', ir_id r', u') \<in> set gs" and "now < u'"
    and "r \<in> set (id_rows db)" and "r' \<in> set (id_rows db)"
    and "ir_scope r = ir_scope r'" and "ir_hash r = ir_hash r'"
  shows "w = w' \<and> r = r' \<and> ir_status r = IdempotencyStatusProcessing \<and> \<not> lock_lapsed now r"
proof -
  have I: "claims_inv db now gs" using claims_invariant [OF assms(1,2)] by simp
  note D = claims_invD [OF I]
  have "distinct (map (\<lambda>r. (ir_scope r, ir_hash r)) (id_rows db))" using D(1) by (simp add: wf_table_def)
  then have r: "r = r'" using assms(7-10) by (auto simp: distinct_map dest: inj_onD)
  have "w = w'" using D(4) [OF assms(3)] assms(4-6) r by blast
  moreover obtain q l where q: "q \<in> set (id_rows db)" "ir_id q = ir_id r" "ir_status q = IdempotencyStatusProcessing"
      "ir_lockedUntil q = Some l" "u \<le> l"
    using D(3) [OF assms(3,4)] by (auto simp: claimed_row_def)
  moreover have "q = r" by (rule wf_unique [OF D(1) q(1) assms(7) q(2)])
  ultimately show ?thesis using r assms(4) by (auto simp: lock_lapsed_def)
qed

definition held_row :: "int \<Rightarrow> int \<Rightarrow> IdempotencyRecord" where
  "held_row l e = \<lparr>ir_id = 1, ir_scope = ''s'', ir_hash = ''k'', ir_fingerprint = ''f'',
     ir_status = IdempotencyStatusProcessing, ir_responseStatus = None, ir_responseBody = None,
     ir_errorReason = None, ir_lockedUntil = Some l, ir_expiresAt = e\<rparr>"

definition held_table :: "int \<Rightarrow> int \<Rightarrow> idem_db" where
  "held_table l e = \<lparr>id_rows = [held_row l e], id_next = 2\<rparr>"

text \<open>Request 1 outlives its claim, request 2 takes the row over.\<close>

theorem claims_exclude_witness:
  "idem_reach 30 100 (held_table 60 130, 30, [(2, 1, 60), (1, 1, 30)], False) \<and>
   {w :: nat. \<exists>u :: int. (w, 1 :: int, u) \<in> set [(2, 1, 60), (1, 1, 30)] \<and> 30 < u} = {2} \<and>
   \<not> lock_lapsed 30 (held_row 60 130)"
proof -
  have ins: "insert_row (held_row 30 100) no_rows = (Some 1, held_table 30 100)"
    by (simp add: insert_row_def no_rows_def held_row_def held_table_def)
  have a: "idem_reach 30 100 (held_table 30 100, 0, [(1, 1, 30)], False)"
    using idem_reach.create [OF idem_reach.start [OF no_rows_wf], of 1 "held_row 30 100" 0 30 100 1 "held_table 30 100"] ins
    by (simp add: held_row_def)
  have b: "idem_reach 30 100 (held_table 30 100, 30, [(1, 1, 30)], False)"
    using idem_reach.tick [OF a, of 30] by simp
  have "reclaim_rows 1 IdempotencyStatusProcessing 30 (30 + 30) (30 + 100) (held_table 30 100) = (1, held_table 60 130)"
    by (simp add: reclaim_rows_def update_rows_def held_table_def held_row_def)
  from idem_reach.reclaim [OF b _ this, of 2]
  have c: "idem_reach 30 100 (held_table 60 130, 30, [(2, 1, 60), (1, 1, 30)], False)" by simp
  have "w = 2" if "(w, 1, u) \<in> set [(2, 1, 60), (1, 1, 30)]" "30 < u" for w :: nat and u :: int
    using claims_exclude [OF c, of w "held_row 60 130" u 2 "held_row 60 130" 60] that
    by (auto simp: held_table_def held_row_def)
  then have "{w :: nat. \<exists>u :: int. (w, 1 :: int, u) \<in> set [(2, 1, 60), (1, 1, 30)] \<and> 30 < u} = {2}" by auto
  moreover have "\<not> lock_lapsed 30 (held_row 60 130)"
    using claims_exclude [OF c, of 2 "held_row 60 130" 60 2 "held_row 60 130" 60] by (simp add: held_table_def held_row_def)
  ultimately show ?thesis using c by blast
qed

section \<open>Late reports\<close>

text \<open>
  C34. Nothing in the code keeps an overtaken request away from the row: while a second request still
  holds its standing claim on a key, a third one is refused; but once the first, whose claim had lapsed, reports
  its failure, the third gets the key as soon as the back-off of that report is over, and two requests
  run the operation at the same time.
\<close>

theorem late_report_reopens_key:
  assumes "wf_table db" and "select_row scope h db = Some r" and "ir_status r = IdempotencyStatusProcessing"
    and "ir_lockedUntil r = Some l" and "now < l" and "now < ir_expiresAt r"
    and "backoff \<le> now"
  shows "\<exists>db1 db2.
     claim_row E cfg scope h (ir_fingerprint r) now ttl (quiet db) = (Inr (Inl (InProgress (retry_after (Some l) now))), quiet db) \<and>
     MarkFailedRetryable (ir_id r) reason backoff e (quiet db) = (Inr (), quiet db1) \<and>
     claim_row E cfg scope h (ir_fingerprint r) now ttl (quiet db1) = (Inr (Inr (Owned (ir_id r))), quiet db2)"
proof -
  have s: "settled E now r = Inl (InProgress (retry_after (Some l) now))"
    using assms(3,4) by (simp add: settled_def IdempotencyStatusProcessing_def IdempotencyStatusSucceeded_def)
  have 1: "claim_row E cfg scope h (ir_fingerprint r) now ttl (quiet db) = (Inr (Inl (InProgress (retry_after (Some l) now))), quiet db)"
    using claim_found [OF assms(1,2), where E = E and cfg = cfg and fp = "ir_fingerprint r" and now = now and ttl = ttl]
      assms(6) s by (auto simp: claim_outcome_def)
  define f :: "IdempotencyRecord \<Rightarrow> IdempotencyRecord" where "f = (\<lambda>r. r\<lparr>ir_status := IdempotencyStatusFailedRetryable, ir_errorReason := Some reason,
      ir_lockedUntil := Some backoff, ir_expiresAt := e\<rparr>)"
  let ?db1 = "snd (fail_rows (ir_id r) reason backoff e db)"
  have k: "keeps_identity f" by (simp add: keeps_identity_def f_def)
  have db1: "?db1 = snd (update_rows (\<lambda>q. ir_id q = ir_id r) f db)" by (simp add: fail_rows_def f_def)
  have row: "wf_table ?db1" "select_row scope h ?db1 = Some (f r)"
    using assms(1,2) k unfolding db1 by (simp_all add: update_wf update_select)
  have "ir_fingerprint (f r) = ir_fingerprint r" "ir_id (f r) = ir_id r" "lock_lapsed now (f r)"
    "settled E now (f r) = Inr (Owned (ir_id r))"
    using assms(7) by (simp_all add: f_def lock_lapsed_def settled_def IdempotencyStatusProcessing_def
        IdempotencyStatusSucceeded_def IdempotencyStatusFailedRetryable_def)
  then obtain db2 where "claim_row E cfg scope h (ir_fingerprint r) now ttl (quiet ?db1) = (Inr (Inr (Owned (ir_id r))), quiet db2)"
    using claim_found [OF row, where E = E and cfg = cfg and fp = "ir_fingerprint r" and now = now and ttl = ttl] by auto
  moreover have "MarkFailedRetryable (ir_id r) reason backoff e (quiet db) = (Inr (), quiet ?db1)"
    by (simp add: MarkFailedRetryable_def)
  ultimately show ?thesis using 1 by blast
qed

theorem late_report_reopens_key_witness:
  "\<exists>db1 db2. MarkFailedRetryable 1 ''E'' 40 130 (quiet (held_table 60 130)) = (Inr (), quiet db1) \<and>
     claim_row plain_ext short_cfg ''s'' ''k'' ''f'' 45 100 (quiet db1) = (Inr (Inr (Owned 1)), quiet db2)"
  using late_report_reopens_key [of "held_table 60 130" "''s''" "''k''" "held_row 60 130" 60 45 40 plain_ext short_cfg 100 "''E''" 130]
  by (auto simp: held_table_def held_row_def wf_table_def select_row_def)

section \<open>Clean-up\<close>

lemma sorted_take_drop:
  assumes "sorted (map f xs)" "x \<in> set (take k xs)" "y \<in> set (drop k xs)"
  shows "f x \<le> f y"
proof -
  have "sorted (map f (take k xs @ drop k xs))" using assms(1) by (simp only: append_take_drop_id)
  then have "\<forall>a \<in> f ` set (take k xs). \<forall>b \<in> f ` set (drop k xs). a \<le> b"
    unfolding map_append sorted_append set_map by blast
  with assms(2,3) show ?thesis by blast
qed

text \<open>
  The clean-up deletes expired rows only, oldest first, as many as the batch
  allows, reports their number, and keeps the table well formed.
\<close>

theorem cleanup_takes_oldest_expired:
  assumes "wf_table db" and "0 < limit" and "DeleteExpired now limit (quiet db) = (Inr n, quiet db')"
  shows "n = min limit (int (length (filter (\<lambda>r. ir_expiresAt r \<le> now) (id_rows db)))) \<and>
    n = int (length (id_rows db)) - int (length (id_rows db')) \<and> wf_table db' \<and>
    set (id_rows db') \<subseteq> set (id_rows db) \<and>
    (\<forall>r \<in> set (id_rows db) - set (id_rows db'). ir_expiresAt r \<le> now \<and>
       (\<forall>q \<in> set (id_rows db'). ir_expiresAt q \<le> now \<longrightarrow> ir_expiresAt r \<le> ir_expiresAt q))"
proof -
  let ?xs = "sort_key ir_expiresAt (filter (\<lambda>r. ir_expiresAt r \<le> now) (id_rows db))"
  let ?k = "nat limit"
  let ?gone = "\<lambda>r. ir_id r \<in> set (victims now limit db)"
  have n: "n = int (length (filter ?gone (id_rows db)))" and db': "id_rows db' = filter (\<lambda>r. \<not> ?gone r) (id_rows db)"
    and db'': "db' = snd (delete_expired now limit db)"
    using assms(2,3) by (auto simp: DeleteExpired_def delete_expired_def Let_def)
  have dist: "distinct (id_rows db)" using assms(1) by (simp add: wf_table_def distinct_map)
  have gone: "?gone r \<longleftrightarrow> r \<in> set (take ?k ?xs)" if "r \<in> set (id_rows db)" for r
  proof
    assume "?gone r"
    then obtain q where q: "q \<in> set (take ?k ?xs)" "ir_id q = ir_id r" by (auto simp: victims_def)
    then have "q \<in> set (id_rows db)" by (auto dest: in_set_takeD)
    with wf_unique [OF assms(1) _ that, of q] q show "r \<in> set (take ?k ?xs)" by simp
  qed (simp add: victims_def)
  have sub: "set (take ?k ?xs) \<subseteq> set (id_rows db)" by (auto dest: in_set_takeD)
  have "set (filter ?gone (id_rows db)) = set (take ?k ?xs)" using gone sub by auto
  then have "length (filter ?gone (id_rows db)) = length (take ?k ?xs)"
    using distinct_card [of "filter ?gone (id_rows db)"] distinct_card [of "take ?k ?xs"] dist by simp
  then have 1: "n = min limit (int (length (filter (\<lambda>r. ir_expiresAt r \<le> now) (id_rows db))))"
    using n assms(2) by auto
  have 2: "n = int (length (id_rows db)) - int (length (id_rows db'))"
    using n db' sum_length_filter_compl [of ?gone "id_rows db"] by simp
  have "ir_expiresAt r \<le> now \<and> (\<forall>q \<in> set (id_rows db'). ir_expiresAt q \<le> now \<longrightarrow> ir_expiresAt r \<le> ir_expiresAt q)"
    if "r \<in> set (id_rows db) - set (id_rows db')" for r
  proof -
    have r: "r \<in> set (take ?k ?xs)" using that db' gone by auto
    have "ir_expiresAt r \<le> ir_expiresAt q" if q: "q \<in> set (id_rows db')" "ir_expiresAt q \<le> now" for q
    proof -
      have "q \<in> set ?xs" "q \<notin> set (take ?k ?xs)" using q db' gone by auto
      moreover have "set ?xs = set (take ?k ?xs) \<union> set (drop ?k ?xs)"
        unfolding set_append [symmetric] append_take_drop_id ..
      ultimately have qd: "q \<in> set (drop ?k ?xs)" by blast
      from sorted_take_drop [OF sorted_sort_key r qd] show ?thesis .
    qed
    moreover have "ir_expiresAt r \<le> now" using r by (auto dest: in_set_takeD)
    ultimately show ?thesis by blast
  qed
  then have 3: "\<forall>r \<in> set (id_rows db) - set (id_rows db'). ir_expiresAt r \<le> now \<and>
      (\<forall>q \<in> set (id_rows db'). ir_expiresAt q \<le> now \<longrightarrow> ir_expiresAt r \<le> ir_expiresAt q)" by blast
  have 4: "wf_table db'" "set (id_rows db') \<subseteq> set (id_rows db)"
    using delete_wf [OF assms(1)] db' by (simp_all add: db'')
  show ?thesis by (intro conjI 1 2 3 4)
qed

definition old_row :: "int \<Rightarrow> string \<Rightarrow> int \<Rightarrow> IdempotencyRecord" where
  "old_row i h e = \<lparr>ir_id = i, ir_scope = ''s'', ir_hash = h, ir_fingerprint = ''f'',
     ir_status = IdempotencyStatusSucceeded, ir_responseStatus = None, ir_responseBody = None,
     ir_errorReason = None, ir_lockedUntil = None, ir_expiresAt = e\<rparr>"

definition old_rows :: idem_db where
  "old_rows = \<lparr>id_rows = [old_row 1 ''a'' 3, old_row 2 ''b'' 1, old_row 3 ''c'' 9], id_next = 4\<rparr>"

theorem cleanup_takes_oldest_expired_witness:
  "\<exists>db'. DeleteExpired 5 1 (quiet old_rows) = (Inr 1, quiet db') \<and> length (id_rows db') = 2"
proof -
  have wf: "wf_table old_rows" by (simp add: wf_table_def old_rows_def old_row_def)
  obtain n db' where run: "DeleteExpired 5 1 (quiet old_rows) = (Inr n, quiet db')"
    by (simp add: DeleteExpired_def)
  from cleanup_takes_oldest_expired [OF wf _ run] run show ?thesis by (auto simp: old_rows_def old_row_def)
qed

end
