(* ===== verification/Session_Memory.thy ===== *)
theory Session_Memory
  imports Prelude "HOL-Library.Word"
begin

text \<open>
  The bounded in-memory session cache (\<open>session_memory_cache.go\<close>) and the digest
  session store built on it (\<open>digest_session_store.go\<close>).  A list element is named by
  its key: a key has one element at a time.  The seeded hash \<open>h\<close> is a parameter; the
  incremental hash of a prefix is the hash of the text written so far.  Every method
  holds the mutex; \<open>now\<close> is its reading of the clock.
\<close>

section \<open>Data\<close>

definition sessionMemoryCacheMaxEntries :: int where "sessionMemoryCacheMaxEntries = 16384"
definition sessionMemoryCacheMaxBytes :: int where "sessionMemoryCacheMaxBytes = 32 * 1024 * 1024"
definition sessionMemoryCacheEntryCost :: int where "sessionMemoryCacheEntryCost = 512"
definition digestSessionTTL :: int where "digestSessionTTL = 5 * 60 * 1000000000"

record 'v sessionMemoryEntry =
  se_hash :: "64 word"
  se_value :: 'v
  se_expiresAt :: int
  se_cost :: int

text \<open>
  \<open>entries\<close> is the Go map (nil until the first \<open>Store\<close>: \<open>sm_ready\<close>), \<open>lru\<close> the list with
  its front first, \<open>prefixes\<close> the buckets of the index, \<open>sm_timer\<close> whether a sweep is due.
\<close>

record 'v sessionMemoryCache =
  sm_ready :: bool
  sm_entries :: "(string \<times> 'v sessionMemoryEntry) list"
  sm_prefixes :: "64 word \<Rightarrow> string list"
  sm_lru :: "string list"
  sm_bytes :: int
  sm_maxEntries :: int
  sm_maxBytes :: int
  sm_timer :: bool
  sm_closed :: bool

definition zero_cache :: "'v sessionMemoryCache" where
  "zero_cache = \<lparr>sm_ready = False, sm_entries = [], sm_prefixes = (\<lambda>_. []), sm_lru = [], sm_bytes = 0,
     sm_maxEntries = 0, sm_maxBytes = 0, sm_timer = False, sm_closed = False\<rparr>"

section \<open>Operations\<close>

definition initLocked :: "'v sessionMemoryCache \<Rightarrow> 'v sessionMemoryCache" where
  "initLocked c =
     (if sm_ready c then c
      else c\<lparr>sm_ready := True,
             sm_maxEntries := (if sm_maxEntries c \<le> 0 then sessionMemoryCacheMaxEntries else sm_maxEntries c),
             sm_maxBytes := (if sm_maxBytes c \<le> 0 then sessionMemoryCacheMaxBytes else sm_maxBytes c)\<rparr>)"

text \<open>A bucket gives up an element by moving its last element to the hole.\<close>

fun swap_remove :: "'a \<Rightarrow> 'a list \<Rightarrow> 'a list" where
  "swap_remove x [] = []"
| "swap_remove x (y # ys) =
     (if y = x then (if ys = [] then [] else last ys # butlast ys) else y # swap_remove x ys)"

definition removeLocked :: "string \<Rightarrow> 'v sessionMemoryCache \<Rightarrow> 'v sessionMemoryCache" where
  "removeLocked k c =
     (case map_of (sm_entries c) k of
        None \<Rightarrow> c
      | Some e \<Rightarrow>
          c\<lparr>sm_entries := AList.delete k (sm_entries c),
            sm_prefixes := (sm_prefixes c)(se_hash e := swap_remove k (sm_prefixes c (se_hash e))),
            sm_bytes := sm_bytes c - se_cost e,
            sm_lru := removeAll k (sm_lru c)\<rparr>)"

text \<open>
  The eviction loop; \<open>None\<close> is the nil dereference of \<open>removeLocked(c.lru.Back())\<close> on an
  empty list.
\<close>

function evict_loop :: "int \<Rightarrow> 'v sessionMemoryCache \<Rightarrow> 'v sessionMemoryCache option" where
  "evict_loop cost c =
     (if int (length (sm_entries c)) \<ge> sm_maxEntries c \<or> sm_bytes c + cost > sm_maxBytes c
      then (if sm_lru c = [] \<or> map_of (sm_entries c) (last (sm_lru c)) = None then None
            else evict_loop cost (removeLocked (last (sm_lru c)) c))
      else Some c)"
  by pat_completeness auto
termination
proof (relation "measure (\<lambda>(cost, c). length (sm_lru c))", goal_cases)
  case (2 cost c)
  then have ne: "sm_lru c \<noteq> []" by simp
  then have "length (removeAll (last (sm_lru c)) (sm_lru c)) < length (sm_lru c)"
    by (intro length_removeAll_less last_in_set)
  with 2 ne show ?case by (auto simp: removeLocked_def)
qed simp

declare evict_loop.simps [simp del]

text \<open>\<open>cost_of\<close> and \<open>expires_of\<close> are the value's methods.\<close>

definition Store ::
    "(string \<Rightarrow> 64 word) \<Rightarrow> ('v \<Rightarrow> int) \<Rightarrow> ('v \<Rightarrow> int) \<Rightarrow> int \<Rightarrow> string \<Rightarrow> 'v \<Rightarrow>
     'v sessionMemoryCache \<Rightarrow> 'v sessionMemoryCache option" where
  "Store h cost_of expires_of now key value c =
     (if sm_closed c then Some c
      else (let c = initLocked c;
                c = (if map_of (sm_entries c) key \<noteq> None then removeLocked key c else c);
                cost = sessionMemoryCacheEntryCost + int (length key) + cost_of value;
                expiresAt = expires_of value
            in if cost > sm_maxBytes c \<or> \<not> expiresAt > now then Some c
               else (case evict_loop cost c of None \<Rightarrow> None
                 | Some c \<Rightarrow>
                     (let entry = \<lparr>se_hash = h key, se_value = value, se_expiresAt = expiresAt, se_cost = cost\<rparr>
                      in Some (c\<lparr>sm_lru := key # sm_lru c,
                                 sm_entries := (key, entry) # sm_entries c,
                                 sm_prefixes := (sm_prefixes c)(h key := sm_prefixes c (h key) @ [key]),
                                 sm_bytes := sm_bytes c + cost,
                                 sm_timer := True\<rparr>)))))"

definition move_front :: "string \<Rightarrow> 'v sessionMemoryCache \<Rightarrow> 'v sessionMemoryCache" where
  "move_front k c = c\<lparr>sm_lru := k # removeAll k (sm_lru c)\<rparr>"

definition Load :: "int \<Rightarrow> string \<Rightarrow> 'v sessionMemoryCache \<Rightarrow> 'v option \<times> 'v sessionMemoryCache" where
  "Load now key c =
     (case map_of (sm_entries c) key of
        None \<Rightarrow> (None, c)
      | Some entry \<Rightarrow>
          if \<not> se_expiresAt entry > now then (None, removeLocked key c)
          else (Some (se_value entry), move_front key c))"

definition Delete :: "string \<Rightarrow> 'v sessionMemoryCache \<Rightarrow> 'v sessionMemoryCache" where
  "Delete key c = (if map_of (sm_entries c) key \<noteq> None then removeLocked key c else c)"

text \<open>The sweep walks from the back of the list; the previous element is taken before a removal.\<close>

fun sweep_loop :: "int \<Rightarrow> string list \<Rightarrow> 'v sessionMemoryCache \<Rightarrow> 'v sessionMemoryCache" where
  "sweep_loop now [] c = c"
| "sweep_loop now (k # ks) c =
     sweep_loop now ks
       (case map_of (sm_entries c) k of
          None \<Rightarrow> c
        | Some entry \<Rightarrow> if \<not> se_expiresAt entry > now then removeLocked k c else c)"

definition sweepExpired :: "int \<Rightarrow> 'v sessionMemoryCache \<Rightarrow> 'v sessionMemoryCache" where
  "sweepExpired now c =
     (let c = c\<lparr>sm_timer := False\<rparr>
      in if sm_closed c then c
         else (let c = sweep_loop now (rev (sm_lru c)) c
               in if sm_entries c \<noteq> [] then c\<lparr>sm_timer := True\<rparr> else c))"

definition Close :: "'v sessionMemoryCache \<Rightarrow> 'v sessionMemoryCache" where
  "Close c = c\<lparr>sm_closed := True, sm_timer := False, sm_ready := False, sm_entries := [],
     sm_prefixes := (\<lambda>_. []), sm_lru := [], sm_bytes := 0\<rparr>"

definition ItemCount :: "'v sessionMemoryCache \<Rightarrow> int" where
  "ItemCount c = int (length (sm_entries c))"

section \<open>The longest digest prefix\<close>

text \<open>The ends of the prefixes: before every separator, and the whole chain.\<close>

fun prefix_ends :: "string \<Rightarrow> nat \<Rightarrow> nat list" where
  "prefix_ends [] n = [n]"
| "prefix_ends (x # xs) n = (if x = CHR ''-'' then n # prefix_ends xs (Suc n) else prefix_ends xs (Suc n))"

definition digest_prefixes :: "(string \<Rightarrow> 64 word) \<Rightarrow> string \<Rightarrow> string \<Rightarrow> (64 word \<times> nat) list" where
  "digest_prefixes h ns chain = map (\<lambda>e. (h (ns @ take e chain), e)) (prefix_ends chain 0)"

text \<open>The first element of a bucket that is alive and has exactly the wanted key.\<close>

definition bucket_hit ::
    "int \<Rightarrow> string \<Rightarrow> string \<Rightarrow> nat \<Rightarrow> 'v sessionMemoryCache \<Rightarrow> string \<Rightarrow> bool" where
  "bucket_hit now ns chain end c k =
     (case map_of (sm_entries c) k of
        None \<Rightarrow> False
      | Some entry \<Rightarrow> se_expiresAt entry > now \<and>
          length k = length ns + end \<and> take (length ns) k = ns \<and> drop (length ns) k = take end chain)"

fun scan_prefixes ::
    "int \<Rightarrow> string \<Rightarrow> string \<Rightarrow> (64 word \<times> nat) list \<Rightarrow> 'v sessionMemoryCache \<Rightarrow>
     ('v \<times> string) option \<times> 'v sessionMemoryCache" where
  "scan_prefixes now ns chain [] c = (None, c)"
| "scan_prefixes now ns chain ((hash, end) # rest) c =
     (case List.find (bucket_hit now ns chain end c) (sm_prefixes c hash) of
        Some k \<Rightarrow> (Some (se_value (the (map_of (sm_entries c) k)), take end chain), move_front k c)
      | None \<Rightarrow> scan_prefixes now ns chain rest c)"

text \<open>
  The mutex is free while the prefixes are hashed: \<open>env\<close> is what other goroutines do
  to the cache meanwhile.
\<close>

definition longestDigestPrefix ::
    "(string \<Rightarrow> 64 word) \<Rightarrow> ('v sessionMemoryCache \<Rightarrow> 'v sessionMemoryCache) \<Rightarrow> int \<Rightarrow> string \<Rightarrow> string \<Rightarrow>
     'v sessionMemoryCache \<Rightarrow> ('v \<times> string) option \<times> 'v sessionMemoryCache" where
  "longestDigestPrefix h env now ns chain c =
     (if sm_entries c = [] then (None, c)
      else (let prefixes = digest_prefixes h ns chain
            in scan_prefixes now ns chain (rev prefixes) (env c)))"

section \<open>The digest session store\<close>

record sessionEntry =
  ss_uuid :: string
  ss_accountID :: int
  ss_expiresAt :: int

definition sessionCost :: "sessionEntry \<Rightarrow> int" where
  "sessionCost e = int (length (ss_uuid e))"

record DigestSessionStore =
  ds_cache :: "sessionEntry sessionMemoryCache"
  ds_ttl :: int

definition NewDigestSessionStore :: DigestSessionStore where
  "NewDigestSessionStore = \<lparr>ds_cache = zero_cache, ds_ttl = digestSessionTTL\<rparr>"

definition buildNS :: "id \<Rightarrow> string \<Rightarrow> string" where
  "buildNS groupID prefixHash = format_int groupID @ '':'' @ prefixHash @ ''|''"

definition Save ::
    "(string \<Rightarrow> 64 word) \<Rightarrow> int \<Rightarrow> id \<Rightarrow> string \<Rightarrow> string \<Rightarrow> string \<Rightarrow> int \<Rightarrow> string \<Rightarrow>
     DigestSessionStore \<Rightarrow> DigestSessionStore option" where
  "Save h now groupID prefixHash digestChain uuid accountID oldDigestChain s =
     (if digestChain = [] then Some s
      else (let ns = buildNS groupID prefixHash;
                ttl = (if ds_ttl s \<le> 0 then digestSessionTTL else ds_ttl s)
            in case Store h sessionCost ss_expiresAt now (ns @ digestChain)
                      \<lparr>ss_uuid = uuid, ss_accountID = accountID, ss_expiresAt = now + ttl\<rparr> (ds_cache s) of
                 None \<Rightarrow> None
               | Some c \<Rightarrow>
                   Some (s\<lparr>ds_cache := (if oldDigestChain \<noteq> [] \<and> oldDigestChain \<noteq> digestChain
                                       then Delete (ns @ oldDigestChain) c else c)\<rparr>)))"

definition Find ::
    "(string \<Rightarrow> 64 word) \<Rightarrow> (sessionEntry sessionMemoryCache \<Rightarrow> sessionEntry sessionMemoryCache) \<Rightarrow> int \<Rightarrow> id \<Rightarrow>
     string \<Rightarrow> string \<Rightarrow> DigestSessionStore \<Rightarrow> (string \<times> int \<times> string) option \<times> DigestSessionStore" where
  "Find h env now groupID prefixHash digestChain s =
     (if digestChain = [] then (None, s)
      else (case longestDigestPrefix h env now (buildNS groupID prefixHash) digestChain (ds_cache s) of
              (None, c) \<Rightarrow> (None, s\<lparr>ds_cache := c\<rparr>)
            | (Some (e, chain), c) \<Rightarrow> (Some (ss_uuid e, ss_accountID e, chain), s\<lparr>ds_cache := c\<rparr>)))"

end
