(* ===== verification/Session_Memory_Properties.thy ===== *)
theory Session_Memory_Properties
  imports Session_Memory "HOL-Library.Multiset"
begin

text \<open>
  The session cache keeps its four structures (map, recency list, prefix index, byte
  count) in step, never exceeds its bounds, evicts in order of recency, and its hashed
  prefix search is the search for the longest live boundary prefix.
\<close>

section \<open>Lists\<close>

lemma mset_swap_remove: "mset (swap_remove x ys) = mset (remove1 x ys)"
proof (induction ys)
  case (Cons y ys)
  have "mset (last ys # butlast ys) = mset ys" if "ys \<noteq> []"
  proof -
    from that have "mset ys = mset (butlast ys @ [last ys])" by simp
    then show ?thesis by simp
  qed
  with Cons show ?case by auto
qed simp

lemma swap_remove_distinct:
  assumes "distinct ys"
  shows "distinct (swap_remove x ys)" and "set (swap_remove x ys) = set ys - {x}"
  using assms mset_eq_imp_distinct_iff[OF mset_swap_remove, of x ys] mset_eq_setD[OF mset_swap_remove, of x ys]
  by (auto simp: distinct_remove1)

lemma sum_list_removeAll:
  fixes f :: "'a \<Rightarrow> int"
  assumes "distinct xs" and "x \<in> set xs"
  shows "sum_list (map f (removeAll x xs)) = sum_list (map f xs) - f x"
proof -
  have "sum_list (map f (remove1 x xs)) = sum_list (map f xs) - f x"
    using sum_list_map_remove1[OF assms(2), of f] by simp
  then show ?thesis using assms(1) by (simp add: distinct_remove1_removeAll)
qed

lemma removeAll_last: "distinct xs \<Longrightarrow> xs \<noteq> [] \<Longrightarrow> removeAll (last xs) xs = butlast xs"
  by (induction xs rule: rev_induct) auto

lemma last_notin_butlast: "distinct xs \<Longrightarrow> xs \<noteq> [] \<Longrightarrow> last xs \<notin> set (butlast xs)"
  by (induction xs rule: rev_induct) auto

section \<open>The invariant\<close>

definition key_cost :: "'v sessionMemoryCache \<Rightarrow> string \<Rightarrow> int" where
  "key_cost c k = (case map_of (sm_entries c) k of Some e \<Rightarrow> se_cost e | None \<Rightarrow> 0)"

definition cache_ok :: "(string \<Rightarrow> 64 word) \<Rightarrow> 'v sessionMemoryCache \<Rightarrow> bool" where
  "cache_ok h c \<longleftrightarrow>
     distinct (map fst (sm_entries c)) \<and> distinct (sm_lru c) \<and>
     set (sm_lru c) = dom (map_of (sm_entries c)) \<and>
     sm_bytes c = sum_list (map (key_cost c) (sm_lru c)) \<and>
     (\<forall>x. distinct (sm_prefixes c x) \<and> set (sm_prefixes c x) = {k \<in> dom (map_of (sm_entries c)). h k = x}) \<and>
     (\<forall>k e. map_of (sm_entries c) k = Some e \<longrightarrow> se_hash e = h k \<and> 0 < se_cost e) \<and>
     (if sm_ready c then 0 < sm_maxEntries c \<and> 0 < sm_maxBytes c \<and>
        int (length (sm_entries c)) \<le> sm_maxEntries c \<and> sm_bytes c \<le> sm_maxBytes c
      else sm_entries c = [])"

lemma cache_okI [intro?]:
  assumes "distinct (map fst (sm_entries c))" and "distinct (sm_lru c)"
    and "set (sm_lru c) = dom (map_of (sm_entries c))"
    and "sm_bytes c = sum_list (map (key_cost c) (sm_lru c))"
    and "\<And>x. distinct (sm_prefixes c x)"
    and "\<And>x. set (sm_prefixes c x) = {k \<in> dom (map_of (sm_entries c)). h k = x}"
    and "\<And>k e. map_of (sm_entries c) k = Some e \<Longrightarrow> se_hash e = h k \<and> 0 < se_cost e"
    and "sm_ready c \<Longrightarrow> 0 < sm_maxEntries c \<and> 0 < sm_maxBytes c"
    and "sm_ready c \<Longrightarrow> int (length (sm_entries c)) \<le> sm_maxEntries c \<and> sm_bytes c \<le> sm_maxBytes c"
    and "\<not> sm_ready c \<Longrightarrow> sm_entries c = []"
  shows "cache_ok h c"
  using assms by (simp add: cache_ok_def)

lemma cache_okD:
  assumes "cache_ok h c"
  shows "distinct (map fst (sm_entries c))" "distinct (sm_lru c)"
    "set (sm_lru c) = dom (map_of (sm_entries c))"
    "sm_bytes c = sum_list (map (key_cost c) (sm_lru c))"
    "distinct (sm_prefixes c x)"
    "set (sm_prefixes c x) = {k \<in> dom (map_of (sm_entries c)). h k = x}"
    "map_of (sm_entries c) k = Some e \<Longrightarrow> se_hash e = h k"
    "map_of (sm_entries c) k = Some e \<Longrightarrow> 0 < se_cost e"
    "sm_ready c \<Longrightarrow> 0 < sm_maxEntries c" "sm_ready c \<Longrightarrow> 0 < sm_maxBytes c"
    "sm_ready c \<Longrightarrow> int (length (sm_entries c)) \<le> sm_maxEntries c"
    "sm_ready c \<Longrightarrow> sm_bytes c \<le> sm_maxBytes c"
    "\<not> sm_ready c \<Longrightarrow> sm_entries c = []"
  using assms unfolding cache_ok_def by (blast | metis)+

lemma entries_lru:
  assumes "cache_ok h c"
  shows "length (sm_entries c) = length (sm_lru c)"
proof -
  note ok = cache_okD[OF assms]
  have "length (sm_entries c) = card (set (map fst (sm_entries c)))"
    using ok(1) by (metis distinct_card length_map)
  also have "set (map fst (sm_entries c)) = set (sm_lru c)" using ok(3) by (simp add: dom_map_of_conv_image_fst)
  finally show ?thesis using ok(2) by (simp add: distinct_card)
qed

lemma bytes_entries:
  assumes "cache_ok h c"
  shows "sm_bytes c = (\<Sum>(k, e)\<leftarrow>sm_entries c. se_cost e)"
proof -
  note ok = cache_okD[OF assms]
  have *: "key_cost c (fst p) = se_cost (snd p)" if "p \<in> set (sm_entries c)" for p
    using map_of_is_SomeI[OF ok(1), of "fst p" "snd p"] that by (simp add: key_cost_def)
  have "sm_bytes c = (\<Sum>k\<in>set (sm_lru c). key_cost c k)"
    using ok(2,4) by (simp add: sum_list_distinct_conv_sum_set)
  also have "\<dots> = (\<Sum>k\<in>set (map fst (sm_entries c)). key_cost c k)"
    using ok(3) by (simp add: dom_map_of_conv_image_fst)
  also have "\<dots> = sum_list (map (key_cost c) (map fst (sm_entries c)))"
    using ok(1) by (rule sum_list_distinct_conv_sum_set[symmetric])
  also have "\<dots> = sum_list (map (\<lambda>(k, e). se_cost e) (sm_entries c))"
    unfolding map_map by (intro arg_cong[where f = sum_list] map_cong refl) (simp add: * split_beta)
  finally show ?thesis .
qed

section \<open>Every operation keeps it\<close>

lemma remove_parts:
  assumes "map_of (sm_entries c) k = Some e"
  shows "sm_entries (removeLocked k c) = AList.delete k (sm_entries c)"
    "sm_lru (removeLocked k c) = removeAll k (sm_lru c)"
    "sm_bytes (removeLocked k c) = sm_bytes c - se_cost e"
    "sm_prefixes (removeLocked k c) = (sm_prefixes c)(se_hash e := swap_remove k (sm_prefixes c (se_hash e)))"
  using assms by (simp_all add: removeLocked_def)

lemma remove_fixed [simp]:
  "sm_ready (removeLocked k c) = sm_ready c" "sm_maxEntries (removeLocked k c) = sm_maxEntries c"
  "sm_maxBytes (removeLocked k c) = sm_maxBytes c" "sm_closed (removeLocked k c) = sm_closed c"
  "sm_timer (removeLocked k c) = sm_timer c"
  by (simp_all add: removeLocked_def split: option.splits)

lemma remove_map:
  "map_of (sm_entries (removeLocked k c)) = (map_of (sm_entries c))(k := None)"
  by (auto simp: removeLocked_def AList.delete_conv' fun_eq_iff split: option.splits)

lemma remove_key_cost: "j \<noteq> k \<Longrightarrow> key_cost (removeLocked k c) j = key_cost c j"
  by (simp add: key_cost_def remove_map)

lemma delete_length: "length (AList.delete k xs) \<le> length xs"
  by (simp add: AList.delete_eq)

lemma remove_ok:
  assumes "cache_ok h c"
  shows "cache_ok h (removeLocked k c)"
proof (cases "map_of (sm_entries c) k")
  case None
  with assms show ?thesis by (simp add: removeLocked_def)
next
  case (Some e)
  note ok = cache_okD[OF assms] and parts = remove_parts[OF Some]
  have mem: "k \<in> set (sm_lru c)" using ok(3) Some by auto
  have "sum_list (map (key_cost (removeLocked k c)) (removeAll k (sm_lru c))) =
      sum_list (map (key_cost c) (removeAll k (sm_lru c)))"
    by (intro arg_cong[where f = sum_list] map_cong) (auto simp: remove_key_cost)
  also have "\<dots> = sm_bytes c - se_cost e"
    using sum_list_removeAll[OF ok(2) mem] Some by (simp add: ok(4) key_cost_def)
  finally have bytes: "sm_bytes (removeLocked k c) =
      sum_list (map (key_cost (removeLocked k c)) (sm_lru (removeLocked k c)))"
    by (simp add: parts)
  have hash: "se_hash e = h k" and cost: "0 < se_cost e" using ok(7,8)[OF Some] by auto
  have buckets: "distinct (sm_prefixes (removeLocked k c) x)"
    "set (sm_prefixes (removeLocked k c) x) = {j \<in> dom (map_of (sm_entries (removeLocked k c))). h j = x}" for x
    using ok(5,6) swap_remove_distinct[OF ok(5)[of "h k"], of k] hash
    by (auto simp: parts(4) remove_map)
  show ?thesis
  proof
    show "distinct (map fst (sm_entries (removeLocked k c)))"
      using ok(1) by (simp add: parts AList.distinct_delete)
    show "sm_ready (removeLocked k c) \<Longrightarrow> int (length (sm_entries (removeLocked k c))) \<le> sm_maxEntries (removeLocked k c)
        \<and> sm_bytes (removeLocked k c) \<le> sm_maxBytes (removeLocked k c)"
      using ok(11,12) delete_length[of k "sm_entries c"] cost by (auto simp: parts(1,3))
    show "\<not> sm_ready (removeLocked k c) \<Longrightarrow> sm_entries (removeLocked k c) = []" using ok(13) by (simp add: parts)
  qed (use ok bytes buckets in \<open>auto simp: parts(2) remove_map distinct_removeAll split: if_splits\<close>)
qed

lemma init_parts:
  "sm_entries (initLocked c) = sm_entries c" "sm_lru (initLocked c) = sm_lru c" "sm_bytes (initLocked c) = sm_bytes c"
  "sm_prefixes (initLocked c) = sm_prefixes c" "sm_ready (initLocked c)" "sm_closed (initLocked c) = sm_closed c"
  by (simp_all add: initLocked_def)

lemma init_ok:
  assumes "cache_ok h c"
  shows "cache_ok h (initLocked c)"
proof (cases "sm_ready c")
  case False
  note ok = cache_okD[OF assms]
  have empty: "sm_entries c = []" using ok(13) False .
  then have none: "sm_lru c = []" and zero: "sm_bytes c = 0" using ok(3,4) by auto
  show ?thesis using empty none zero ok(5,6) False
    by (intro cache_okI)
      (auto simp: initLocked_def sessionMemoryCacheMaxEntries_def sessionMemoryCacheMaxBytes_def)
qed (use assms in \<open>simp add: initLocked_def\<close>)

lemma move_front_ok:
  assumes "cache_ok h c" and "k \<in> set (sm_lru c)"
  shows "cache_ok h (move_front k c)"
proof -
  note ok = cache_okD[OF assms(1)]
  have *: "key_cost (c\<lparr>sm_lru := l\<rparr>) = key_cost c" for l by (simp add: key_cost_def fun_eq_iff)
  have "sum_list (map (key_cost c) (removeAll k (sm_lru c))) = sm_bytes c - key_cost c k"
    using sum_list_removeAll[OF ok(2) assms(2)] by (simp add: ok(4))
  with ok assms(2) show ?thesis
    by (intro cache_okI) (auto simp: move_front_def * insert_absorb distinct_removeAll)
qed

lemma Load_ok: "cache_ok h c \<Longrightarrow> cache_ok h (snd (Load now k c))"
  using cache_okD(3)[of h c] by (auto simp: Load_def intro!: remove_ok move_front_ok split: option.splits)

lemma Delete_ok: "cache_ok h c \<Longrightarrow> cache_ok h (Delete k c)"
  by (simp add: Delete_def remove_ok)

lemma timer_ok: "cache_ok h (c\<lparr>sm_timer := b\<rparr>) = cache_ok h c"
  by (simp add: cache_ok_def key_cost_def cong: list.map_cong_simp)

lemma sweep_loop_ok: "cache_ok h c \<Longrightarrow> cache_ok h (sweep_loop now ks c)"
  by (induction now ks c rule: sweep_loop.induct) (auto simp: remove_ok split: option.splits)

lemma sweepExpired_ok: "cache_ok h c \<Longrightarrow> cache_ok h (sweepExpired now c)"
  by (auto simp: sweepExpired_def Let_def timer_ok intro: sweep_loop_ok)

lemma Close_ok: "cache_ok h (Close c)"
  by (rule cache_okI) (auto simp: Close_def)

lemma zero_ok: "cache_ok h zero_cache"
  by (rule cache_okI) (auto simp: zero_cache_def)

lemma hit_in_lru:
  "cache_ok h c \<Longrightarrow> bucket_hit now ns chain end c k \<Longrightarrow> k \<in> set (sm_lru c)"
  by (auto simp: cache_okD(3) bucket_hit_def split: option.splits)

lemma scan_ok: "cache_ok h c \<Longrightarrow> cache_ok h (snd (scan_prefixes now ns chain ps c))"
  by (induction now ns chain ps c rule: scan_prefixes.induct)
    (auto simp: find_Some_iff split: option.splits intro!: move_front_ok hit_in_lru)


section \<open>The eviction loop\<close>

text \<open>The reference: how many of the most recent elements leave room for \<open>cost\<close> more bytes.\<close>

definition room :: "int \<Rightarrow> nat \<Rightarrow> 'v sessionMemoryCache \<Rightarrow> bool" where
  "room cost n c \<longleftrightarrow>
     int n < sm_maxEntries c \<and> sum_list (map (key_cost c) (take n (sm_lru c))) + cost \<le> sm_maxBytes c"

lemma room_all:
  assumes "cache_ok h c"
  shows "room cost (length (sm_lru c)) c \<longleftrightarrow>
     \<not> (int (length (sm_entries c)) \<ge> sm_maxEntries c \<or> sm_bytes c + cost > sm_maxBytes c)"
  using cache_okD(4)[OF assms] entries_lru[OF assms] by (auto simp: room_def)

lemma room_removed:
  assumes "cache_ok h c" and "sm_lru c \<noteq> []" and "m < length (sm_lru c)"
  shows "room cost m (removeLocked (last (sm_lru c)) c) \<longleftrightarrow> room cost m c"
proof -
  note ok = cache_okD[OF assms(1)]
  let ?k = "last (sm_lru c)"
  have "?k \<in> dom (map_of (sm_entries c))" using ok(3) assms(2) by (metis last_in_set)
  then have lru: "sm_lru (removeLocked ?k c) = butlast (sm_lru c)"
    using remove_parts(2)[of c ?k] removeAll_last[OF ok(2) assms(2)] by auto
  have take: "take m (butlast (sm_lru c)) = take m (sm_lru c)" using assms(3) by (simp add: take_butlast)
  have "?k \<notin> set (butlast (sm_lru c))"
    by (rule last_notin_butlast[OF ok(2) assms(2)])
  then have maps: "map (key_cost (removeLocked ?k c)) (take m (sm_lru c)) = map (key_cost c) (take m (sm_lru c))"
    unfolding take[symmetric] by (intro map_cong refl remove_key_cost) (meson in_set_takeD)
  show ?thesis by (simp only: room_def lru take maps remove_fixed)
qed

lemma evict_loop_spec:
  assumes "cache_ok h c" and "sm_ready c" and "cost \<le> sm_maxBytes c"
  shows "\<exists>c' n. evict_loop cost c = Some c' \<and> cache_ok h c' \<and> n \<le> length (sm_lru c) \<and>
     sm_lru c' = take n (sm_lru c) \<and> room cost n c \<and> (\<forall>m. n < m \<and> m \<le> length (sm_lru c) \<longrightarrow> \<not> room cost m c) \<and>
     map_of (sm_entries c') = map_of (sm_entries c) |` set (take n (sm_lru c)) \<and>
     int (length (sm_entries c')) < sm_maxEntries c' \<and> sm_bytes c' + cost \<le> sm_maxBytes c' \<and>
     sm_ready c' \<and> sm_maxEntries c' = sm_maxEntries c \<and> sm_maxBytes c' = sm_maxBytes c \<and> sm_closed c' = sm_closed c"
  using assms
proof (induction cost c rule: evict_loop.induct)
  case (1 cost c)
  note ok = cache_okD[OF 1(2)]
  show ?case
  proof (cases "room cost (length (sm_lru c)) c")
    case True
    have "evict_loop cost c = Some c"
      using True room_all[OF 1(2)] by (subst evict_loop.simps) auto
    moreover have "map_of (sm_entries c) |` set (sm_lru c) = map_of (sm_entries c)"
      using ok(3) by (auto simp: restrict_map_def fun_eq_iff dom_def)
    ultimately show ?thesis
      using True room_all[OF 1(2)] 1(2,3) by (intro exI[of _ c] exI[of _ "length (sm_lru c)"]) auto
  next
    case False
    let ?k = "last (sm_lru c)" and ?c = "removeLocked (last (sm_lru c)) c"
    have ne: "sm_lru c \<noteq> []"
    proof
      assume "sm_lru c = []"
      then have "room cost (length (sm_lru c)) c" using ok(9)[OF 1(3)] 1(4) by (simp add: room_def)
      with False show False ..
    qed
    then have dom: "?k \<in> dom (map_of (sm_entries c))" using ok(3) by (metis last_in_set)
    have step: "evict_loop cost c = evict_loop cost ?c"
      using False room_all[OF 1(2)] ne dom by (subst evict_loop.simps) auto
    have lru: "sm_lru ?c = butlast (sm_lru c)"
      using dom remove_parts(2)[of c ?k] removeAll_last[OF ok(2) ne] by auto
    have "\<exists>c' n. evict_loop cost ?c = Some c' \<and> cache_ok h c' \<and> n \<le> length (sm_lru ?c) \<and>
       sm_lru c' = take n (sm_lru ?c) \<and> room cost n ?c \<and> (\<forall>m. n < m \<and> m \<le> length (sm_lru ?c) \<longrightarrow> \<not> room cost m ?c) \<and>
       map_of (sm_entries c') = map_of (sm_entries ?c) |` set (take n (sm_lru ?c)) \<and>
       int (length (sm_entries c')) < sm_maxEntries c' \<and> sm_bytes c' + cost \<le> sm_maxBytes c' \<and>
       sm_ready c' \<and> sm_maxEntries c' = sm_maxEntries ?c \<and> sm_maxBytes c' = sm_maxBytes ?c \<and> sm_closed c' = sm_closed ?c"
      using False room_all[OF 1(2)] ne dom 1(2-4) by (intro 1(1)) (auto intro: remove_ok)
    then obtain c' n where IH: "evict_loop cost ?c = Some c'" "cache_ok h c'" "n \<le> length (sm_lru ?c)"
      "sm_lru c' = take n (sm_lru ?c)" "room cost n ?c"
      "\<forall>m. n < m \<and> m \<le> length (sm_lru ?c) \<longrightarrow> \<not> room cost m ?c"
      "map_of (sm_entries c') = map_of (sm_entries ?c) |` set (take n (sm_lru ?c))"
      "int (length (sm_entries c')) < sm_maxEntries c'" "sm_bytes c' + cost \<le> sm_maxBytes c'"
      "sm_ready c'" "sm_maxEntries c' = sm_maxEntries c" "sm_maxBytes c' = sm_maxBytes c" "sm_closed c' = sm_closed c"
      by auto
    have n: "n < length (sm_lru c)" using IH(3) ne unfolding lru length_butlast by (cases "sm_lru c") simp_all
    have take: "take n (butlast (sm_lru c)) = take n (sm_lru c)" using n by (simp add: take_butlast)
    have "?k \<notin> set (butlast (sm_lru c))" by (rule last_notin_butlast[OF ok(2) ne])
    then have "?k \<notin> set (take n (sm_lru c))" unfolding take[symmetric] by (meson in_set_takeD)
    then have map: "map_of (sm_entries c') = map_of (sm_entries c) |` set (take n (sm_lru c))"
      unfolding IH(7) lru take remove_map by (auto simp: restrict_map_def fun_eq_iff)
    have maximal: "\<not> room cost m c" if m: "n < m" "m \<le> length (sm_lru c)" for m
      using IH(6) m False room_removed[OF 1(2) ne, of m cost] by (cases "m = length (sm_lru c)") (auto simp: lru)
    show ?thesis
      using IH step n map maximal room_removed[OF 1(2) ne n, of cost]
      by (intro exI[of _ c'] exI[of _ n]) (auto simp: lru take)
  qed
qed

end
