(* ===== verification/Digest_Properties.thy ===== *)
theory Digest_Properties
  imports Session_Memory_Properties
begin

text \<open>
  The session cache over whole runs, and the digest session store: every operation
  returns, the bounds hold for ever, the hashed search finds the longest live boundary
  prefix, and what is saved is found.
\<close>

section \<open>Store\<close>

abbreviation store_cost :: "('v \<Rightarrow> int) \<Rightarrow> string \<Rightarrow> 'v \<Rightarrow> int" where
  "store_cost cost_of key v \<equiv> sessionMemoryCacheEntryCost + int (length key) + cost_of v"

abbreviation store_entry ::
    "(string \<Rightarrow> 64 word) \<Rightarrow> ('v \<Rightarrow> int) \<Rightarrow> ('v \<Rightarrow> int) \<Rightarrow> string \<Rightarrow> 'v \<Rightarrow> 'v sessionMemoryEntry" where
  "store_entry h cost_of expires_of key v \<equiv>
     \<lparr>se_hash = h key, se_value = v, se_expiresAt = expires_of v, se_cost = store_cost cost_of key v\<rparr>"

definition push_entry :: "string \<Rightarrow> 'v sessionMemoryEntry \<Rightarrow> 'v sessionMemoryCache \<Rightarrow> 'v sessionMemoryCache" where
  "push_entry key e c = c\<lparr>sm_lru := key # sm_lru c, sm_entries := (key, e) # sm_entries c,
     sm_prefixes := (sm_prefixes c)(se_hash e := sm_prefixes c (se_hash e) @ [key]),
     sm_bytes := sm_bytes c + se_cost e, sm_timer := True\<rparr>"

lemma Store_cases:
  "Store h cost_of expires_of now key v c =
     (if sm_closed c then Some c
      else if store_cost cost_of key v > sm_maxBytes (initLocked c) \<or> \<not> expires_of v > now
        then Some (Delete key (initLocked c))
      else map_option (push_entry key (store_entry h cost_of expires_of key v))
             (evict_loop (store_cost cost_of key v) (Delete key (initLocked c))))"
  unfolding Store_def Let_def Delete_def push_entry_def
  by (simp add: init_parts split: option.splits)

lemma push_ok:
  assumes ok: "cache_ok h c" and ready: "sm_ready c" and new: "key \<notin> dom (map_of (sm_entries c))"
    and e: "se_hash e = h key" "0 < se_cost e"
    and room: "int (length (sm_entries c)) < sm_maxEntries c" "sm_bytes c + se_cost e \<le> sm_maxBytes c"
  shows "cache_ok h (push_entry key e c)"
proof
  note ok = cache_okD[OF ok]
  let ?c = "push_entry key e c"
  have old: "map (key_cost ?c) (sm_lru c) = map (key_cost c) (sm_lru c)"
    using new ok(3) by (intro map_cong refl) (auto simp: key_cost_def push_entry_def)
  have own: "key_cost ?c key = se_cost e" by (simp add: key_cost_def push_entry_def)
  have lru: "sm_lru ?c = key # sm_lru c" by (simp add: push_entry_def)
  have "sm_bytes ?c = se_cost e + sm_bytes c" by (simp add: push_entry_def)
  then show "sm_bytes ?c = sum_list (map (key_cost ?c) (sm_lru ?c))"
    by (simp only: lru list.map sum_list.Cons old own ok(4))
  show "distinct (map fst (sm_entries ?c))" using ok(1) new by (simp add: push_entry_def dom_map_of_conv_image_fst)
  show "distinct (sm_lru ?c)" using ok(2,3) new by (simp add: push_entry_def)
  show "set (sm_lru ?c) = dom (map_of (sm_entries ?c))" using ok(3) by (simp add: push_entry_def)
  show "distinct (sm_prefixes ?c x)" for x using ok(5,6) new by (simp add: push_entry_def)
  show "set (sm_prefixes ?c x) = {k \<in> dom (map_of (sm_entries ?c)). h k = x}" for x
    using ok(6) e(1) by (auto simp: push_entry_def)
  show "se_hash d = h j \<and> 0 < se_cost d" if "map_of (sm_entries ?c) j = Some d" for j d
    using that ok(7,8)[of j d] e by (auto simp: push_entry_def split: if_splits)
qed (use ready room cache_okD(9,10)[OF ok] in \<open>simp_all add: push_entry_def\<close>)

lemma Store_spec:
  assumes ok: "cache_ok h c" and cost: "0 \<le> cost_of v" and opened: "\<not> sm_closed c"
    and fits: "store_cost cost_of key v \<le> sm_maxBytes (initLocked c)" and alive: "now < expires_of v"
  defines "c1 \<equiv> Delete key (initLocked c)"
  shows "\<exists>c' n. Store h cost_of expires_of now key v c = Some c' \<and> cache_ok h c' \<and>
     n \<le> length (sm_lru c1) \<and> sm_lru c' = key # take n (sm_lru c1) \<and>
     room (store_cost cost_of key v) n c1 \<and>
     (\<forall>m. n < m \<and> m \<le> length (sm_lru c1) \<longrightarrow> \<not> room (store_cost cost_of key v) m c1) \<and>
     map_of (sm_entries c') =
       (map_of (sm_entries c1) |` set (take n (sm_lru c1)))(key \<mapsto> store_entry h cost_of expires_of key v)"
proof -
  have ok1: "cache_ok h c1" unfolding c1_def by (intro Delete_ok init_ok ok)
  have ready: "sm_ready c1" and max: "sm_maxBytes c1 = sm_maxBytes (initLocked c)"
    by (auto simp: c1_def Delete_def init_parts)
  have fresh: "map_of (sm_entries c1) key = None" by (simp add: c1_def Delete_def remove_map)
  let ?k = "store_cost cost_of key v"
  obtain c' n where ev: "evict_loop ?k c1 = Some c'" "cache_ok h c'" "n \<le> length (sm_lru c1)"
      "sm_lru c' = take n (sm_lru c1)" "room ?k n c1"
      "\<forall>m. n < m \<and> m \<le> length (sm_lru c1) \<longrightarrow> \<not> room ?k m c1"
      "map_of (sm_entries c') = map_of (sm_entries c1) |` set (take n (sm_lru c1))"
      "int (length (sm_entries c')) < sm_maxEntries c'" "sm_bytes c' + ?k \<le> sm_maxBytes c'" "sm_ready c'"
    using evict_loop_spec[OF ok1 ready, of ?k] fits max by auto
  let ?e = "store_entry h cost_of expires_of key v"
  have "cache_ok h (push_entry key ?e c')"
    using ev fresh cost
    by (intro push_ok) (auto simp: restrict_map_def sessionMemoryCacheEntryCost_def split: if_splits)
  then show ?thesis
    using opened fits alive ev fresh unfolding Store_cases c1_def[symmetric]
    by (intro exI[of _ "push_entry key ?e c'"] exI[of _ n]) (auto simp: push_entry_def)
qed

lemma Store_ok:
  assumes "cache_ok h c" and "0 \<le> cost_of v"
  shows "\<exists>c'. Store h cost_of expires_of now key v c = Some c' \<and> cache_ok h c'"
proof (cases "\<not> sm_closed c \<and> store_cost cost_of key v \<le> sm_maxBytes (initLocked c) \<and> now < expires_of v")
  case True
  with Store_spec[where h = h and c = c and cost_of = cost_of and v = v, OF assms] show ?thesis by blast
next
  case False
  then show ?thesis using assms(1) unfolding Store_cases by (auto intro: Delete_ok init_ok)
qed

section \<open>Runs\<close>

text \<open>The critical sections of the cache, as they interleave under the mutex.\<close>

datatype 'v cache_call =
  OStore int string 'v
| OLoad int string
| ODelete string
| OSweep int
| OScan int string string
| OClose

fun cache_op :: "(string \<Rightarrow> 64 word) \<Rightarrow> ('v \<Rightarrow> int) \<Rightarrow> ('v \<Rightarrow> int) \<Rightarrow> 'v cache_call \<Rightarrow>
    'v sessionMemoryCache \<Rightarrow> 'v sessionMemoryCache option" where
  "cache_op h cost_of expires_of (OStore now key v) c = Store h cost_of expires_of now key v c"
| "cache_op h cost_of expires_of (OLoad now key) c = Some (snd (Load now key c))"
| "cache_op h cost_of expires_of (ODelete key) c = Some (Delete key c)"
| "cache_op h cost_of expires_of (OSweep now) c = Some (sweepExpired now c)"
| "cache_op h cost_of expires_of (OScan now ns chain) c =
     Some (snd (scan_prefixes now ns chain (rev (digest_prefixes h ns chain)) c))"
| "cache_op h cost_of expires_of OClose c = Some (Close c)"

fun cache_run :: "(string \<Rightarrow> 64 word) \<Rightarrow> ('v \<Rightarrow> int) \<Rightarrow> ('v \<Rightarrow> int) \<Rightarrow> 'v cache_call list \<Rightarrow>
    'v sessionMemoryCache \<Rightarrow> 'v sessionMemoryCache option" where
  "cache_run h cost_of expires_of [] c = Some c"
| "cache_run h cost_of expires_of (op # ops) c =
     (case cache_op h cost_of expires_of op c of None \<Rightarrow> None | Some c \<Rightarrow> cache_run h cost_of expires_of ops c)"

lemma cache_op_ok:
  assumes "cache_ok h c" and "\<forall>v. 0 \<le> cost_of v"
  shows "\<exists>c'. cache_op h cost_of expires_of op c = Some c' \<and> cache_ok h c'"
  using assms by (cases op) (auto intro: Store_ok Load_ok Delete_ok sweepExpired_ok scan_ok Close_ok)

lemma cache_run_ok:
  assumes "cache_ok h c" and "\<forall>v. 0 \<le> cost_of v"
  shows "\<exists>c'. cache_run h cost_of expires_of ops c = Some c' \<and> cache_ok h c'"
  using assms
proof (induction ops arbitrary: c)
  case (Cons op ops)
  from cache_op_ok[OF Cons.prems, where op = op and expires_of = expires_of] obtain c1 where
    "cache_op h cost_of expires_of op c = Some c1" "cache_ok h c1" by blast
  with Cons.IH[OF this(2) Cons.prems(2)] show ?case by auto
qed simp

lemma run_from_zero:
  assumes "cache_run h cost_of expires_of ops zero_cache = Some c" and "\<forall>v. 0 \<le> cost_of v"
  shows "cache_ok h c"
  using cache_run_ok[OF zero_ok, where h = h and cost_of = cost_of and ops = ops and expires_of = expires_of]
    assms by auto

text \<open>The limits of a cache born as the zero value are the package's constants.\<close>

definition default_limits :: "'v sessionMemoryCache \<Rightarrow> bool" where
  "default_limits c \<longleftrightarrow> sm_maxEntries c \<in> {0, sessionMemoryCacheMaxEntries} \<and>
     sm_maxBytes c \<in> {0, sessionMemoryCacheMaxBytes}"

lemma limits_parts [simp]:
  "default_limits (removeLocked k c) = default_limits c" "default_limits (Delete k c) = default_limits c"
  "default_limits (move_front k c) = default_limits c" "default_limits (push_entry k e c) = default_limits c"
  "default_limits (Close c) = default_limits c" "default_limits (c\<lparr>sm_timer := b\<rparr>) = default_limits c"
  by (simp_all add: default_limits_def Delete_def move_front_def push_entry_def Close_def)

lemma limits_init [simp]: "default_limits c \<Longrightarrow> default_limits (initLocked c)"
  by (auto simp: default_limits_def initLocked_def)

lemma limits_evict: "evict_loop cost c = Some c' \<Longrightarrow> default_limits c' = default_limits c"
  by (induction cost c rule: evict_loop.induct) (subst (asm) (2) evict_loop.simps, auto split: if_splits)

lemma limits_sweep [simp]: "default_limits (sweep_loop now ks c) = default_limits c"
  by (induction now ks c rule: sweep_loop.induct) (auto split: option.splits)

lemma limits_scan [simp]: "default_limits (snd (scan_prefixes now ns chain ps c)) = default_limits c"
  by (induction now ns chain ps c rule: scan_prefixes.induct) (auto split: option.splits)

lemma limits_op: "cache_op h cost_of expires_of op c = Some c' \<Longrightarrow> default_limits c \<Longrightarrow> default_limits c'"
  by (cases op) (auto simp: Store_cases Load_def sweepExpired_def Let_def dest!: limits_evict split: if_splits option.splits)

lemma limits_run:
  "cache_run h cost_of expires_of ops c = Some c' \<Longrightarrow> default_limits c \<Longrightarrow> default_limits c'"
  by (induction ops arbitrary: c) (auto dest: limits_op split: option.splits)

text \<open>
  C13. Whatever is stored, loaded, deleted, searched, swept or closed, and in whatever
  order, every operation of the session cache returns (the eviction loop of \<open>Store\<close>
  never reaches the nil element of an empty list), and the cache holds at most 16384
  entries and 32 MiB by its own count, which is the exact sum of the entries' costs.
\<close>

theorem session_cache_total_and_bounded:
  assumes "\<forall>v. 0 \<le> cost_of v"
  shows "\<exists>c. cache_run h cost_of expires_of ops zero_cache = Some c \<and>
     ItemCount c \<le> sessionMemoryCacheMaxEntries \<and> sm_bytes c \<le> sessionMemoryCacheMaxBytes \<and>
     sm_bytes c = (\<Sum>(k, e)\<leftarrow>sm_entries c. se_cost e) \<and>
     distinct (map fst (sm_entries c)) \<and> set (sm_lru c) = fst ` set (sm_entries c)"
proof -
  obtain c where run: "cache_run h cost_of expires_of ops zero_cache = Some c" and ok: "cache_ok h c"
    using cache_run_ok[OF zero_ok, where h = h and cost_of = cost_of] assms by blast
  have "default_limits zero_cache" by (simp add: default_limits_def zero_cache_def)
  from limits_run[OF run this] have "default_limits c" .
  note parts = cache_okD[OF ok]
  have "ItemCount c \<le> sessionMemoryCacheMaxEntries \<and> sm_bytes c \<le> sessionMemoryCacheMaxBytes"
  proof (cases "sm_ready c")
    case True
    with parts(9-12) \<open>default_limits c\<close> show ?thesis by (auto simp: default_limits_def ItemCount_def)
  next
    case False
    with parts(13) bytes_entries[OF ok] show ?thesis
      by (simp add: ItemCount_def sessionMemoryCacheMaxEntries_def sessionMemoryCacheMaxBytes_def)
  qed
  with run parts(1,3) bytes_entries[OF ok] show ?thesis by (auto simp: dom_map_of_conv_image_fst)
qed

lemma session_cache_total_and_bounded_witness:
  "(\<forall>v. 0 \<le> sessionCost v) \<and>
   (\<exists>c. cache_run (\<lambda>k. of_nat (length k)) sessionCost ss_expiresAt
        [OStore 1 ''k'' \<lparr>ss_uuid = ''u'', ss_accountID = 7, ss_expiresAt = 9\<rparr>, OLoad 2 ''k''] zero_cache = Some c \<and>
      ItemCount c \<le> sessionMemoryCacheMaxEntries)"
  using session_cache_total_and_bounded[of sessionCost "\<lambda>k. of_nat (length k)" ss_expiresAt
      "[OStore 1 ''k'' \<lparr>ss_uuid = ''u'', ss_accountID = 7, ss_expiresAt = 9\<rparr>, OLoad 2 ''k'']"]
  by (auto simp: sessionCost_def)

text \<open>
  In every reachable cache, a \<open>Store\<close> that fits and is not yet expired evicts
  only from the old end of the recency list and as little as possible: it keeps the
  longest run of most recently used entries that leaves room for the new one, which
  becomes the most recent; nothing kept is altered.
\<close>

theorem store_evicts_least_recent:
  assumes "\<forall>v. 0 \<le> cost_of v" and "cache_run h cost_of expires_of ops zero_cache = Some c"
    and "\<not> sm_closed c" and "store_cost cost_of key v \<le> sm_maxBytes (initLocked c)" and "now < expires_of v"
  defines "c1 \<equiv> Delete key (initLocked c)"
  shows "\<exists>c' n. Store h cost_of expires_of now key v c = Some c' \<and>
     n \<le> length (sm_lru c1) \<and> sm_lru c' = key # take n (sm_lru c1) \<and>
     room (store_cost cost_of key v) n c1 \<and>
     (\<forall>m. n < m \<and> m \<le> length (sm_lru c1) \<longrightarrow> \<not> room (store_cost cost_of key v) m c1) \<and>
     map_of (sm_entries c') =
       (map_of (sm_entries c1) |` set (take n (sm_lru c1)))(key \<mapsto> store_entry h cost_of expires_of key v)"
  using Store_spec[OF run_from_zero[OF assms(2,1)], of cost_of v key now expires_of] assms(1,3-5)
  unfolding c1_def by blast

lemma store_evicts_least_recent_witness:
  "\<exists>c' n. Store (\<lambda>k. 0) sessionCost ss_expiresAt 1 ''k'' \<lparr>ss_uuid = ''u'', ss_accountID = 7, ss_expiresAt = 9\<rparr> zero_cache = Some c' \<and>
     sm_lru c' = ''k'' # take n []"
  using store_evicts_least_recent[of sessionCost "\<lambda>k. 0" ss_expiresAt "[]" zero_cache "''k''"
      "\<lparr>ss_uuid = ''u'', ss_accountID = 7, ss_expiresAt = 9\<rparr>" 1]
  by (auto simp: sessionCost_def zero_cache_def initLocked_def sessionMemoryCacheEntryCost_def
      sessionMemoryCacheMaxBytes_def Delete_def)

section \<open>The longest prefix\<close>

text \<open>The prefixes of a chain that end where a message ends.\<close>

definition boundary :: "string \<Rightarrow> string \<Rightarrow> bool" where
  "boundary p chain \<longleftrightarrow> (\<exists>rest. chain = p @ rest \<and> (rest = [] \<or> hd rest = CHR ''-''))"

definition live_value :: "int \<Rightarrow> 'v sessionMemoryCache \<Rightarrow> string \<Rightarrow> 'v option" where
  "live_value now c k =
     (case map_of (sm_entries c) k of
        Some e \<Rightarrow> if now < se_expiresAt e then Some (se_value e) else None
      | None \<Rightarrow> None)"

lemma prefix_ends_sorted: "sorted_wrt (<) (prefix_ends xs n) \<and> (\<forall>e\<in>set (prefix_ends xs n). n \<le> e)"
  by (induction xs n rule: prefix_ends.induct) (auto simp: Suc_le_eq order.strict_implies_order)

lemma prefix_ends_set:
  "e \<in> set (prefix_ends xs n) \<longleftrightarrow> n \<le> e \<and> e - n \<le> length xs \<and> (drop (e - n) xs = [] \<or> hd (drop (e - n) xs) = CHR ''-'')"
proof (induction xs n rule: prefix_ends.induct)
  case (2 x xs n)
  show ?case
  proof (cases "e = n")
    case True
    then show ?thesis using prefix_ends_sorted[of xs "Suc n"] by (auto)
  next
    case False
    show ?thesis
    proof (cases "n < e")
      case True
      then obtain d where "e = n + Suc d" using less_iff_Suc_add[of n e] by auto
      with 2 show ?thesis by auto
    qed (use 2 False in auto)
  qed
qed auto

lemma prefix_ends_boundary:
  "e \<in> set (prefix_ends chain 0) \<longleftrightarrow> e \<le> length chain \<and> boundary (take e chain) chain"
proof -
  have "(\<exists>rest. chain = take e chain @ rest \<and> (rest = [] \<or> hd rest = CHR ''-'')) \<longleftrightarrow>
      drop e chain = [] \<or> hd (drop e chain) = CHR ''-''"
    by (metis append_take_drop_id same_append_eq)
  then show ?thesis by (simp add: prefix_ends_set boundary_def)
qed

lemma bucket_hit_key:
  assumes "e \<le> length chain"
  shows "bucket_hit now ns chain e c k \<longleftrightarrow> k = ns @ take e chain \<and> live_value now c k \<noteq> None"
proof -
  have "length k = length ns + e \<and> take (length ns) k = ns \<and> drop (length ns) k = take e chain \<longleftrightarrow>
      k = ns @ take e chain"
    using assms by (metis append_take_drop_id append_eq_conv_conj length_append length_take min.absorb2)
  then show ?thesis by (auto simp: bucket_hit_def live_value_def split: option.splits)
qed

lemma find_unique: "k \<in> set xs \<Longrightarrow> (\<And>x. P x \<longleftrightarrow> x = k) \<Longrightarrow> List.find P xs = Some k"
  by (induction xs) auto

lemma bucket_find:
  assumes "cache_ok h c" and "e \<le> length chain"
  shows "List.find (bucket_hit now ns chain e c) (sm_prefixes c (h (ns @ take e chain))) =
     (if live_value now c (ns @ take e chain) \<noteq> None then Some (ns @ take e chain) else None)"
proof -
  let ?k = "ns @ take e chain"
  have "?k \<in> set (sm_prefixes c (h ?k))" if "live_value now c ?k \<noteq> None"
    using that cache_okD(6)[OF assms(1)] by (auto simp: live_value_def split: option.splits)
  then show ?thesis by (auto simp: find_None_iff bucket_hit_key[OF assms(2)] intro!: find_unique)
qed

lemma scan_result:
  assumes "cache_ok h c" and "\<forall>e\<in>set es. e \<le> length chain"
  shows "fst (scan_prefixes now ns chain (map (\<lambda>e. (h (ns @ take e chain), e)) es) c) =
     map_option (\<lambda>e. (the (live_value now c (ns @ take e chain)), take e chain))
       (List.find (\<lambda>e. live_value now c (ns @ take e chain) \<noteq> None) es)"
  using assms(2)
proof (induction es)
  case (Cons e es)
  then show ?case
    using bucket_find[OF assms(1), of e chain now ns]
    by (auto simp: live_value_def split: option.splits if_splits)
qed simp

lemma find_greatest:
  fixes e :: nat
  assumes "sorted_wrt (<) es"
  shows "List.find P (rev es) = Some e \<longleftrightarrow> e \<in> set es \<and> P e \<and> (\<forall>d\<in>set es. e < d \<longrightarrow> \<not> P d)"
  using assms
proof (induction es rule: rev_induct)
  case (snoc x xs)
  then show ?case by (auto simp: sorted_wrt_append)
qed simp

text \<open>The answer of the search, as a specification.\<close>

definition longest_live ::
    "int \<Rightarrow> string \<Rightarrow> string \<Rightarrow> 'v sessionMemoryCache \<Rightarrow> 'v \<Rightarrow> string \<Rightarrow> bool" where
  "longest_live now ns chain c v p \<longleftrightarrow>
     boundary p chain \<and> live_value now c (ns @ p) = Some v \<and>
     (\<forall>q. boundary q chain \<and> length p < length q \<longrightarrow> live_value now c (ns @ q) = None)"

lemma scan_longest:
  assumes "cache_ok h c"
  shows "fst (scan_prefixes now ns chain (rev (digest_prefixes h ns chain)) c) = Some (v, p) \<longleftrightarrow>
     longest_live now ns chain c v p"
proof -
  let ?es = "prefix_ends chain 0" and ?live = "\<lambda>e. live_value now c (ns @ take e chain)"
  have es: "e \<in> set ?es \<longleftrightarrow> e \<le> length chain \<and> boundary (take e chain) chain" for e
    by (rule prefix_ends_boundary)
  have take: "p = take (length p) chain \<and> length p \<le> length chain" if "boundary p chain" for p
    using that by (auto simp: boundary_def)
  have "fst (scan_prefixes now ns chain (rev (digest_prefixes h ns chain)) c) = Some (v, p) \<longleftrightarrow>
      (\<exists>e. List.find (\<lambda>e. ?live e \<noteq> None) (rev ?es) = Some e \<and> the (?live e) = v \<and> take e chain = p)"
    using scan_result[OF assms, of "rev ?es" chain now ns] es
    by (auto simp: digest_prefixes_def rev_map)
  also have "\<dots> \<longleftrightarrow> (\<exists>e\<in>set ?es. ?live e = Some v \<and> take e chain = p \<and> (\<forall>d\<in>set ?es. e < d \<longrightarrow> ?live d = None))"
    unfolding find_greatest[OF conjunct1[OF prefix_ends_sorted]] Bex_def by (rule ex_cong1) auto
  also have "\<dots> \<longleftrightarrow> longest_live now ns chain c v p"
    (is "?L \<longleftrightarrow> ?R")
  proof
    assume ?L
    then obtain e where e: "e \<in> set ?es" "?live e = Some v" "take e chain = p"
      "\<forall>d\<in>set ?es. e < d \<longrightarrow> ?live d = None" by blast
    have len: "length p = e" using e(1,3) es[of e] by auto
    have "live_value now c (ns @ q) = None" if q: "boundary q chain" "length p < length q" for q
    proof -
      have "length q \<in> set ?es" using es[of "length q"] take[OF q(1)] q(1) by metis
      with e(4) q(2) have "?live (length q) = None" by (simp add: len)
      with take[OF q(1)] show ?thesis by metis
    qed
    with e es[of e] show ?R by (auto simp: longest_live_def)
  next
    assume ?R
    then have "length p \<in> set ?es" "take (length p) chain = p"
      using take[of p] es[of "length p"] by (auto simp: longest_live_def)
    moreover have "?live d = None" if "d \<in> set ?es" "length p < d" for d
      using that es[of d] \<open>?R\<close> by (auto simp: longest_live_def)
    ultimately show ?L using \<open>?R\<close> by (auto simp: longest_live_def intro!: bexI[of _ "length p"])
  qed
  finally show ?thesis .
qed

lemma scan_None:
  assumes "cache_ok h c" and "boundary p chain" and "live_value now c (ns @ p) \<noteq> None"
  shows "fst (scan_prefixes now ns chain (rev (digest_prefixes h ns chain)) c) \<noteq> None"
proof -
  have p: "p = take (length p) chain" "length p \<le> length chain" using assms(2) by (auto simp: boundary_def)
  then have "length p \<in> set (prefix_ends chain 0)" using assms(2) by (simp add: prefix_ends_boundary)
  moreover have "live_value now c (ns @ take (length p) chain) \<noteq> None" using assms(3) p(1) by simp
  ultimately have "List.find (\<lambda>e. live_value now c (ns @ take e chain) \<noteq> None) (rev (prefix_ends chain 0)) \<noteq> None"
    by (auto simp only: find_None_iff set_rev)
  then show ?thesis
    using scan_result[OF assms(1), of "rev (prefix_ends chain 0)" chain now ns]
    by (auto simp: digest_prefixes_def rev_map prefix_ends_boundary)
qed

text \<open>
  C14. The incremental hashing, the collision buckets and the byte comparisons of
  \<open>longestDigestPrefix\<close> add up to the naive search: for any hash, and whatever other
  goroutines do between its two critical sections, it returns a value and a prefix
  exactly when that prefix ends at a message boundary of the chain, its full key holds
  that value and is alive, and no longer boundary prefix is alive.
\<close>

theorem search_finds_longest_live_prefix:
  assumes "\<forall>v. 0 \<le> cost_of v" and "cache_run h cost_of expires_of ops zero_cache = Some c"
    and "cache_run h cost_of expires_of ops' c = Some c'"
  shows "fst (longestDigestPrefix h (\<lambda>_. c') now ns chain c) = Some (v, p) \<longleftrightarrow>
     sm_entries c \<noteq> [] \<and> longest_live now ns chain c' v p"
proof -
  have "cache_ok h c" by (rule run_from_zero[OF assms(2,1)])
  then have "cache_ok h c'" using cache_run_ok[of h c cost_of expires_of ops'] assms(1,3) by auto
  from scan_longest[OF this] show ?thesis by (auto simp: longestDigestPrefix_def Let_def)
qed

lemma search_finds_longest_live_prefix_witness:
  "fst (longestDigestPrefix (\<lambda>k. 0) (\<lambda>_. the (cache_run (\<lambda>k. 0) sessionCost ss_expiresAt
        [OStore 1 ''n|a'' \<lparr>ss_uuid = ''u'', ss_accountID = 7, ss_expiresAt = 9\<rparr>,
         OStore 2 ''n|a-b'' \<lparr>ss_uuid = ''w'', ss_accountID = 8, ss_expiresAt = 9\<rparr>] zero_cache))
      3 ''n|'' ''a-b-c'' (the (cache_run (\<lambda>k. 0) sessionCost ss_expiresAt
        [OStore 1 ''n|a'' \<lparr>ss_uuid = ''u'', ss_accountID = 7, ss_expiresAt = 9\<rparr>,
         OStore 2 ''n|a-b'' \<lparr>ss_uuid = ''w'', ss_accountID = 8, ss_expiresAt = 9\<rparr>] zero_cache)))
     = Some (\<lparr>ss_uuid = ''w'', ss_accountID = 8, ss_expiresAt = 9\<rparr>, ''a-b'')"
proof -
  let ?ops = "[OStore 1 ''n|a'' \<lparr>ss_uuid = ''u'', ss_accountID = 7, ss_expiresAt = 9\<rparr>,
         OStore 2 ''n|a-b'' \<lparr>ss_uuid = ''w'', ss_accountID = 8, ss_expiresAt = 9\<rparr>]"
  let ?c = "cache_run (\<lambda>k. 0) sessionCost ss_expiresAt ?ops zero_cache"
  have c: "?c = Some (the ?c)" "sm_entries (the ?c) \<noteq> []"
    "live_value 3 (the ?c) ''n|a-b'' = Some \<lparr>ss_uuid = ''w'', ss_accountID = 8, ss_expiresAt = 9\<rparr>"
    "\<And>k. live_value 3 (the ?c) k \<noteq> None \<Longrightarrow> k \<in> {''n|a'', ''n|a-b''}"
    by (simp_all add: Store_def zero_cache_def initLocked_def sessionCost_def sessionMemoryCacheEntryCost_def
        sessionMemoryCacheMaxBytes_def sessionMemoryCacheMaxEntries_def evict_loop.simps live_value_def Let_def
        split: if_splits)
  have "boundary ''a-b'' ''a-b-c''" by (simp add: boundary_def)
  moreover have "live_value 3 (the ?c) (''n|'' @ q) = None" if "length ''a-b'' < length q" for q
  proof (rule ccontr)
    assume "\<not> ?thesis"
    from c(4)[OF this] that show False by auto
  qed
  ultimately have "longest_live 3 ''n|'' ''a-b-c'' (the ?c) \<lparr>ss_uuid = ''w'', ss_accountID = 8, ss_expiresAt = 9\<rparr> ''a-b''"
    using c(3) by (simp add: longest_live_def)
  with search_finds_longest_live_prefix[of sessionCost "\<lambda>k. 0" ss_expiresAt ?ops "the ?c" "[]" "the ?c"
      3 "''n|''" "''a-b-c''"] c(1,2)
  show ?thesis by (simp add: sessionCost_def)
qed

text \<open>
  A saved digest session is found again: until its five minutes are over, \<open>Find\<close>
  on any chain that continues the saved one at a message boundary returns a session
  whose prefix is at least as long as the saved chain, and the saved session itself when
  that is the prefix; deleting the chain it replaces does not lose it.
\<close>

theorem saved_session_is_found:
  assumes "cache_run h sessionCost ss_expiresAt ops zero_cache = Some (ds_cache s)"
    and "\<not> sm_closed (ds_cache s)" and "ds_ttl s = digestSessionTTL" and "digestChain \<noteq> []"
    and "512 + int (length (buildNS g ph @ digestChain) + length uuid) \<le> 32 * 1024 * 1024"
    and "now' < now + digestSessionTTL" and "boundary digestChain chain"
  shows "\<exists>s' u a p. Save h now g ph digestChain uuid acc old s = Some s' \<and>
     fst (Find h (\<lambda>c. c) now' g ph chain s') = Some (u, a, p) \<and>
     boundary p chain \<and> length digestChain \<le> length p \<and> (p = digestChain \<longrightarrow> u = uuid \<and> a = acc)"
proof -
  let ?c = "ds_cache s" and ?ns = "buildNS g ph"
  let ?e = "\<lparr>ss_uuid = uuid, ss_accountID = acc, ss_expiresAt = now + digestSessionTTL\<rparr>"
  have ok: "cache_ok h ?c" by (rule run_from_zero[OF assms(1)]) (simp add: sessionCost_def)
  have "default_limits zero_cache" by (simp add: default_limits_def zero_cache_def)
  from limits_run[OF assms(1) this] have "default_limits (initLocked ?c)" by simp
  then have max: "sm_maxBytes (initLocked ?c) = 32 * 1024 * 1024"
    using cache_okD(10)[OF init_ok[OF ok]] init_parts(5)[of ?c]
    by (auto simp: default_limits_def sessionMemoryCacheMaxBytes_def)
  obtain c1 where c1: "Store h sessionCost ss_expiresAt now (?ns @ digestChain) ?e ?c = Some c1" "cache_ok h c1"
      "map_of (sm_entries c1) (?ns @ digestChain) = Some (store_entry h sessionCost ss_expiresAt (?ns @ digestChain) ?e)"
    using Store_spec[OF ok, of sessionCost ?e "?ns @ digestChain" now ss_expiresAt] assms(2,5) max
    by (fastforce simp: sessionCost_def sessionMemoryCacheEntryCost_def digestSessionTTL_def)
  define c2 where "c2 = (if old \<noteq> [] \<and> old \<noteq> digestChain then Delete (?ns @ old) c1 else c1)"
  have ok2: "cache_ok h c2" using c1(2) by (simp add: c2_def Delete_ok)
  have live: "live_value now' c2 (?ns @ digestChain) = Some ?e"
    using c1(3) assms(6) by (simp add: c2_def Delete_def live_value_def remove_map)
  obtain v p where vp: "fst (scan_prefixes now' ?ns chain (rev (digest_prefixes h ?ns chain)) c2) = Some (v, p)"
    using scan_None[OF ok2 assms(7)] live by fastforce
  from vp[unfolded scan_longest[OF ok2]] have long: "longest_live now' ?ns chain c2 v p" .
  have len: "length digestChain \<le> length p"
    using long live assms(7) by (auto simp: longest_live_def not_less dest: leI)
  have "chain \<noteq> []" using assms(4,7) by (auto simp: boundary_def)
  moreover have "sm_entries c2 \<noteq> []" using live by (auto simp: live_value_def)
  moreover have "p = digestChain \<longrightarrow> v = ?e" using long live by (auto simp: longest_live_def)
  ultimately show ?thesis
    using c1(1) assms(3,4) vp long len
    by (auto simp: Save_def Find_def c2_def longestDigestPrefix_def Let_def digestSessionTTL_def longest_live_def
        split: prod.splits option.splits)
qed

lemma saved_session_is_found_witness:
  "\<exists>s' u a p. Save (\<lambda>k. 0) 5 3 ''p'' ''s-u'' ''id'' 9 ''s'' NewDigestSessionStore = Some s' \<and>
     fst (Find (\<lambda>k. 0) (\<lambda>c. c) 7 3 ''p'' ''s-u-m'' s') = Some (u, a, p) \<and>
     boundary p ''s-u-m'' \<and> length ''s-u'' \<le> length p \<and> (p = ''s-u'' \<longrightarrow> u = ''id'' \<and> a = 9)"
  by (rule saved_session_is_found[where ops = "[]"])
    (simp_all add: NewDigestSessionStore_def zero_cache_def digestSessionTTL_def buildNS_def format_int_def
      boundary_def digit_def format_nat.simps[of 3])

end
