(* ===== verification/Billing_Amounts.thy ===== *)
theory Billing_Amounts
  imports Complex_Main
begin

text \<open>
  Money.  A float64 amount is represented by the decimal it prints as (its shortest
  decimal form), a rational: this is what the database driver sends, what PostgreSQL
  reads as \<open>numeric\<close> and what \<open>decimal.NewFromFloat\<close> starts from.  A \<open>numeric(p, s)\<close>
  column rounds what is stored to \<open>s\<close> digits, half away from zero; arithmetic on
  \<open>numeric\<close> is exact.  Not-a-number and infinite amounts are left out.
\<close>

definition nround :: "nat \<Rightarrow> rat \<Rightarrow> rat" where
  "nround s x = (let y = x * 10 ^ s
     in of_int (if y < 0 then - \<lfloor>- y + 1 / 2\<rfloor> else \<lfloor>y + 1 / 2\<rfloor>) / 10 ^ s)"

text \<open>\<open>UsageBillingMonetaryScale\<close> and \<open>QuantizeUsageBillingAmount\<close>.\<close>

definition UsageBillingMonetaryScale :: nat where "UsageBillingMonetaryScale = 8"

definition QuantizeUsageBillingAmount :: "rat \<Rightarrow> rat" where
  "QuantizeUsageBillingAmount v = (if v = 0 then v else nround UsageBillingMonetaryScale v)"

text \<open>The values a column of scale \<open>s\<close> can hold.\<close>

definition on_scale :: "nat \<Rightarrow> rat \<Rightarrow> bool" where
  "on_scale s x \<longleftrightarrow> (\<exists>i. x = of_int i / 10 ^ s)"

lemma on_scale_of_int: "on_scale s (of_int i / 10 ^ s)"
  by (auto simp: on_scale_def)

lemma nround_on_scale: "on_scale s (nround s x)"
  unfolding nround_def Let_def by (rule on_scale_of_int)

lemma floor_half: "\<lfloor>of_int i + 1 / 2 :: rat\<rfloor> = i"
  by (rule floor_unique) auto

lemma nround_exact: "on_scale s x \<Longrightarrow> nround s x = x"
proof -
  assume "on_scale s x"
  then obtain i where i: "x = of_int i / 10 ^ s" by (auto simp: on_scale_def)
  have "\<lfloor>- of_int i + 1 / 2 :: rat\<rfloor> = - i" using floor_half[of "- i"] by (simp only: of_int_minus)
  with floor_half[of i] i show ?thesis by (simp only: nround_def Let_def) simp
qed

lemma on_scale_0 [simp]: "on_scale s 0"
  by (auto simp: on_scale_def intro: exI[of _ 0])

lemma on_scale_add: "on_scale s x \<Longrightarrow> on_scale s y \<Longrightarrow> on_scale s (x + y)"
  by (auto simp: on_scale_def add_divide_distrib[symmetric] of_int_add[symmetric] simp del: of_int_add)

lemma on_scale_minus: "on_scale s x \<Longrightarrow> on_scale s (- x)"
  by (auto simp: on_scale_def intro: exI[of _ "- i" for i])

lemma on_scale_diff: "on_scale s x \<Longrightarrow> on_scale s y \<Longrightarrow> on_scale s (x - y)"
  using on_scale_add[of s x "- y"] on_scale_minus[of s y] by simp

lemma on_scale_mono: "s \<le> t \<Longrightarrow> on_scale s x \<Longrightarrow> on_scale t x"
proof -
  assume "s \<le> t" and "on_scale s x"
  then obtain i where "x = of_int i / 10 ^ s" by (auto simp: on_scale_def)
  moreover have "(10 :: rat) ^ t = 10 ^ s * 10 ^ (t - s)" using \<open>s \<le> t\<close> by (simp flip: power_add)
  ultimately have "x = of_int (i * 10 ^ (t - s)) / 10 ^ t" by simp
  then show ?thesis unfolding on_scale_def by blast
qed

lemma quantize_on_scale: "on_scale 8 (QuantizeUsageBillingAmount v)"
  by (simp add: QuantizeUsageBillingAmount_def UsageBillingMonetaryScale_def nround_on_scale)

lemma quantize_idem: "QuantizeUsageBillingAmount (QuantizeUsageBillingAmount v) = QuantizeUsageBillingAmount v"
  using nround_exact[OF nround_on_scale, of 8 v]
  by (simp add: QuantizeUsageBillingAmount_def UsageBillingMonetaryScale_def)

lemma floor_half_near: "\<bar>of_int \<lfloor>z + 1 / 2\<rfloor> - z\<bar> \<le> 1 / 2" for z :: rat
  unfolding abs_le_iff using floor_correct[of "z + 1 / 2"] by (simp only: of_int_add of_int_1) linarith

lemma nround_near: "\<bar>nround s x - x\<bar> \<le> 1 / (2 * 10 ^ s)"
proof -
  let ?y = "x * 10 ^ s"
  let ?i = "if ?y < 0 then - \<lfloor>- ?y + 1 / 2\<rfloor> else \<lfloor>?y + 1 / 2\<rfloor>"
  have "\<bar>of_int ?i - ?y\<bar> \<le> 1 / 2"
  proof (cases "?y < 0")
    case True
    with floor_half_near[of "- ?y"] show ?thesis by (simp only: if_True of_int_minus abs_le_iff) auto
  next
    case False
    with floor_half_near[of ?y] show ?thesis by (simp only: if_False)
  qed
  then have "\<bar>of_int ?i - ?y\<bar> / 10 ^ s \<le> (1 / 2) / 10 ^ s" by (intro divide_right_mono) auto
  moreover have "nround s x - x = (of_int ?i - ?y) / 10 ^ s"
    by (simp add: nround_def Let_def diff_divide_distrib)
  ultimately show ?thesis by (simp add: abs_divide)
qed

lemma quantize_near: "\<bar>QuantizeUsageBillingAmount v - v\<bar> \<le> 1 / (2 * 10 ^ 8)"
  using nround_near[of 8 v] by (simp add: QuantizeUsageBillingAmount_def UsageBillingMonetaryScale_def)

end
