(* ===== verification/Account_Quota.thy ===== *)
theory Account_Quota
  imports Billing_Amounts "HOL-Library.Monad_Syntax"
begin

text \<open>
  The quota counters of an account (\<open>repository/usage_billing_repo.go\<close>,
  \<open>repository/account_repo.go\<close>).  They live in the JSON column \<open>extra\<close> and are updated by
  SQL expressions over it.  An expression either fails (\<open>None\<close>) or has a value; an inner
  option is SQL's NULL.  Casts between text and numbers, instants or time zones are
  PostgreSQL's and therefore parameters (\<open>pg\<close>).  Instants and local times count
  microseconds.
\<close>

section \<open>JSON and PostgreSQL\<close>

datatype jval = JNull | JBool bool | JNum rat | JStr string

text \<open>The column: SQL NULL, a JSON object, or JSON that is not an object.\<close>

datatype extra = ENull | EObj "string \<Rightarrow> jval option" | EOther

record pg =
  pg_num :: "string \<Rightarrow> rat option"
  pg_num_text :: "rat \<Rightarrow> string"
  pg_int :: "string \<Rightarrow> int option"
  pg_ts :: "string \<Rightarrow> int option"
  pg_text_us :: "int \<Rightarrow> string"
  pg_text_s :: "int \<Rightarrow> string"
  pg_local :: "string \<Rightarrow> int \<Rightarrow> int option"
  pg_instant :: "string \<Rightarrow> int \<Rightarrow> int option"

text \<open>\<open>extra->>'k'\<close>, which is NULL for a missing key, a JSON null and a non-object.\<close>

fun text_field :: "pg \<Rightarrow> extra \<Rightarrow> string \<Rightarrow> string option" where
  "text_field P (EObj m) k =
     (case m k of
        None \<Rightarrow> None
      | Some JNull \<Rightarrow> None
      | Some (JBool b) \<Rightarrow> Some (if b then ''true'' else ''false'')
      | Some (JNum r) \<Rightarrow> Some (pg_num_text P r)
      | Some (JStr s) \<Rightarrow> Some s)"
| "text_field P e k = None"

text \<open>\<open>COALESCE((extra->>'k')::numeric, 0)\<close> and its like.\<close>

definition num_or_0 :: "pg \<Rightarrow> extra \<Rightarrow> string \<Rightarrow> rat option" where
  "num_or_0 P e k = (case text_field P e k of None \<Rightarrow> Some 0 | Some s \<Rightarrow> pg_num P s)"

definition int_or :: "pg \<Rightarrow> extra \<Rightarrow> string \<Rightarrow> int \<Rightarrow> int option" where
  "int_or P e k d = (case text_field P e k of None \<Rightarrow> Some d | Some s \<Rightarrow> pg_int P s)"

definition ts_or_epoch :: "pg \<Rightarrow> extra \<Rightarrow> string \<Rightarrow> int option" where
  "ts_or_epoch P e k = (case text_field P e k of None \<Rightarrow> Some 0 | Some s \<Rightarrow> pg_ts P s)"

definition text_or :: "pg \<Rightarrow> extra \<Rightarrow> string \<Rightarrow> string \<Rightarrow> string" where
  "text_or P e k d = (case text_field P e k of None \<Rightarrow> d | Some s \<Rightarrow> s)"

text \<open>\<open>COALESCE(extra, '{}') || object\<close>: a non-object stays one (it becomes an array).\<close>

fun jmerge :: "extra \<Rightarrow> (string \<times> jval) list \<Rightarrow> extra" where
  "jmerge ENull kvs = EObj (map_of kvs)"
| "jmerge (EObj m) kvs = EObj (m ++ map_of kvs)"
| "jmerge EOther kvs = EOther"

definition hour :: int where "hour = 3600 * 1000000"
definition day :: int where "day = 24 * hour"

definition date_trunc_day :: "int \<Rightarrow> int" where "date_trunc_day l = l - l mod day"

text \<open>\<open>EXTRACT(DOW FROM l)\<close>: the local epoch was a Thursday.\<close>

definition dow :: "int \<Rightarrow> int" where "dow l = (l div day + 4) mod 7"

text \<open>SQL's remainder truncates towards zero.\<close>

definition sql_mod :: "int \<Rightarrow> int \<Rightarrow> int" where
  "sql_mod a b = sgn a * (\<bar>a\<bar> mod \<bar>b\<bar>)"

section \<open>Expressions\<close>

definition dailyExpiredExpr :: "pg \<Rightarrow> int \<Rightarrow> extra \<Rightarrow> bool option" where
  "dailyExpiredExpr P now e =
     (if text_or P e ''quota_daily_reset_mode'' ''rolling'' = ''fixed''
      then do { t \<leftarrow> ts_or_epoch P e ''quota_daily_reset_at''; Some (now \<ge> t) }
      else do { t \<leftarrow> ts_or_epoch P e ''quota_daily_start''; Some (t + 24 * hour \<le> now) })"

definition weeklyExpiredExpr :: "pg \<Rightarrow> int \<Rightarrow> extra \<Rightarrow> bool option" where
  "weeklyExpiredExpr P now e =
     (if text_or P e ''quota_weekly_reset_mode'' ''rolling'' = ''fixed''
      then do { t \<leftarrow> ts_or_epoch P e ''quota_weekly_reset_at''; Some (now \<ge> t) }
      else do { t \<leftarrow> ts_or_epoch P e ''quota_weekly_start''; Some (t + 168 * hour \<le> now) })"

definition reset_point :: "pg \<Rightarrow> int \<Rightarrow> extra \<Rightarrow> string \<Rightarrow> (string \<times> int) option" where
  "reset_point P now e hour_key =
     (let tz = text_or P e ''quota_reset_timezone'' ''UTC''
      in do { l \<leftarrow> pg_local P tz now;
              h \<leftarrow> int_or P e hour_key 0;
              Some (tz, date_trunc_day l + h * hour) })"

definition nextDailyResetAtExpr :: "pg \<Rightarrow> int \<Rightarrow> extra \<Rightarrow> string option option" where
  "nextDailyResetAtExpr P now e =
     (if text_or P e ''quota_daily_reset_mode'' ''rolling'' = ''fixed''
      then do { (tz, point) \<leftarrow> reset_point P now e ''quota_daily_reset_hour'';
                today \<leftarrow> pg_instant P tz point;
                t \<leftarrow> (if now \<ge> today then pg_instant P tz (point + day) else Some today);
                Some (Some (pg_text_s P t)) }
      else Some None)"

definition nextWeeklyResetAtExpr :: "pg \<Rightarrow> int \<Rightarrow> extra \<Rightarrow> string option option" where
  "nextWeeklyResetAtExpr P now e =
     (if text_or P e ''quota_weekly_reset_mode'' ''rolling'' = ''fixed''
      then do { target \<leftarrow> int_or P e ''quota_weekly_reset_day'' 1;
                (tz, point) \<leftarrow> reset_point P now e ''quota_weekly_reset_hour'';
                l \<leftarrow> pg_local P tz now;
                today \<leftarrow> pg_instant P tz point;
                let forward = sql_mod (target - dow l + 7) 7;
                t \<leftarrow> (if forward = 0 \<and> now \<ge> today then pg_instant P tz (point + 7 * day)
                     else pg_instant P tz (point + forward * day));
                Some (Some (pg_text_s P t)) }
      else Some None)"

section \<open>The statements\<close>

text \<open>
  What a statement adds to the object for one period: nothing without a limit; else the
  counter, restarted from the amount when the period is over, its start, and in fixed
  mode the next reset.
\<close>

definition period_increment ::
    "pg \<Rightarrow> int \<Rightarrow> rat \<Rightarrow> string \<times> string \<times> string \<times> string \<Rightarrow> bool option \<Rightarrow> string option option \<Rightarrow>
     extra \<Rightarrow> (string \<times> jval) list option" where
  "period_increment P now amount ks expired_expr next_expr e =
     (case ks of (k_limit, k_used, k_start, k_reset) \<Rightarrow>
      do { limit \<leftarrow> num_or_0 P e k_limit;
           if limit > 0
           then do { expired \<leftarrow> expired_expr;
                     used \<leftarrow> (if expired then Some amount
                             else do { u \<leftarrow> num_or_0 P e k_used; Some (u + amount) });
                     next_at \<leftarrow> (if expired then next_expr else Some None);
                     Some ((case next_at of None \<Rightarrow> [] | Some t \<Rightarrow> [(k_reset, JStr t)]) @
                       [(k_used, JNum used),
                        (k_start, JStr (if expired then pg_text_us P now else text_or P e k_start (pg_text_us P now)))]) }
           else Some [] })"

definition accountQuotaTotalIncrementExpr :: "pg \<Rightarrow> rat \<Rightarrow> extra \<Rightarrow> (string \<times> jval) list option" where
  "accountQuotaTotalIncrementExpr P amount e =
     do { u \<leftarrow> num_or_0 P e ''quota_used''; Some [(''quota_used'', JNum (u + amount))] }"

definition accountQuotaDailyIncrementExpr :: "pg \<Rightarrow> int \<Rightarrow> rat \<Rightarrow> extra \<Rightarrow> (string \<times> jval) list option" where
  "accountQuotaDailyIncrementExpr P now amount e =
     period_increment P now amount (''quota_daily_limit'', ''quota_daily_used'', ''quota_daily_start'', ''quota_daily_reset_at'')
       (dailyExpiredExpr P now e) (nextDailyResetAtExpr P now e) e"

definition accountQuotaWeeklyIncrementExpr :: "pg \<Rightarrow> int \<Rightarrow> rat \<Rightarrow> extra \<Rightarrow> (string \<times> jval) list option" where
  "accountQuotaWeeklyIncrementExpr P now amount e =
     period_increment P now amount (''quota_weekly_limit'', ''quota_weekly_used'', ''quota_weekly_start'', ''quota_weekly_reset_at'')
       (weeklyExpiredExpr P now e) (nextWeeklyResetAtExpr P now e) e"

text \<open>The conditions under which a statement may leave a period out.\<close>

definition accountQuotaExtraIsObjectCond :: "extra \<Rightarrow> bool" where
  "accountQuotaExtraIsObjectCond e = (case e of EObj m \<Rightarrow> True | _ \<Rightarrow> False)"

definition limit_unset :: "string \<Rightarrow> extra \<Rightarrow> bool" where
  "limit_unset k e =
     (case e of
        EObj m \<Rightarrow> (case m k of None \<Rightarrow> True | Some JNull \<Rightarrow> True | Some (JNum r) \<Rightarrow> r \<le> 0 | _ \<Rightarrow> False)
      | _ \<Rightarrow> True)"

record AccountQuotaState =
  TotalUsed :: rat
  TotalLimit :: rat
  DailyUsed :: rat
  DailyLimit :: rat
  WeeklyUsed :: rat
  WeeklyLimit :: rat

definition accountQuotaIncrementReturning :: "pg \<Rightarrow> extra \<Rightarrow> AccountQuotaState option" where
  "accountQuotaIncrementReturning P e =
     do { tu \<leftarrow> num_or_0 P e ''quota_used''; tl \<leftarrow> num_or_0 P e ''quota_limit'';
          du \<leftarrow> num_or_0 P e ''quota_daily_used''; dl \<leftarrow> num_or_0 P e ''quota_daily_limit'';
          wu \<leftarrow> num_or_0 P e ''quota_weekly_used''; wl \<leftarrow> num_or_0 P e ''quota_weekly_limit'';
          Some \<lparr>TotalUsed = tu, TotalLimit = tl, DailyUsed = du, DailyLimit = dl,
                WeeklyUsed = wu, WeeklyLimit = wl\<rparr> }"

text \<open>\<open>buildAccountQuotaIncrementSQLs\<close>: the condition and the assignment of each statement.\<close>

definition increment_where :: "bool \<Rightarrow> bool \<Rightarrow> extra \<Rightarrow> bool" where
  "increment_where daily weekly e \<longleftrightarrow>
     (daily \<and> weekly \<or> accountQuotaExtraIsObjectCond e) \<and>
     (daily \<or> limit_unset ''quota_daily_limit'' e) \<and> (weekly \<or> limit_unset ''quota_weekly_limit'' e)"

definition increment_set :: "pg \<Rightarrow> bool \<Rightarrow> bool \<Rightarrow> int \<Rightarrow> rat \<Rightarrow> extra \<Rightarrow> extra option" where
  "increment_set P daily weekly now amount e =
     do { t \<leftarrow> accountQuotaTotalIncrementExpr P amount e;
          d \<leftarrow> (if daily then accountQuotaDailyIncrementExpr P now amount e else Some []);
          w \<leftarrow> (if weekly then accountQuotaWeeklyIncrementExpr P now amount e else Some []);
          Some (jmerge (jmerge (jmerge e t) d) w) }"

text \<open>One statement on an account: failed, no row hit, or the new \<open>extra\<close> with the returned state.\<close>

datatype 'a stmt_result = SqlError | NoRow | Row 'a

definition execAccountQuotaIncrement ::
    "pg \<Rightarrow> bool \<Rightarrow> bool \<Rightarrow> int \<Rightarrow> rat \<Rightarrow> extra option \<Rightarrow> (AccountQuotaState \<times> extra) stmt_result" where
  "execAccountQuotaIncrement P daily weekly now amount row =
     (case row of
        None \<Rightarrow> NoRow
      | Some e \<Rightarrow>
          if \<not> increment_where daily weekly e then NoRow
          else (case do { e' \<leftarrow> increment_set P daily weekly now amount e;
                          st \<leftarrow> accountQuotaIncrementReturning P e'; Some (st, e') } of
                  None \<Rightarrow> SqlError
                | Some r \<Rightarrow> Row r))"

text \<open>The two attempts of \<open>incrementUsageBillingAccountQuota\<close>.\<close>

definition quota_statements ::
    "pg \<Rightarrow> bool \<Rightarrow> bool \<Rightarrow> int \<Rightarrow> rat \<Rightarrow> extra option \<Rightarrow> (AccountQuotaState \<times> extra) stmt_result" where
  "quota_statements P hasDaily hasWeekly now amount row =
     (case execAccountQuotaIncrement P hasDaily hasWeekly now amount row of
        NoRow \<Rightarrow>
          if hasDaily \<and> hasWeekly then NoRow
          else execAccountQuotaIncrement P True True now amount row
      | r \<Rightarrow> r)"

text \<open>Whether the increment crossed a limit.\<close>

definition crossed_limit :: "rat \<Rightarrow> AccountQuotaState \<Rightarrow> bool" where
  "crossed_limit amount st \<longleftrightarrow>
     TotalLimit st > 0 \<and> TotalUsed st \<ge> TotalLimit st \<and> TotalUsed st - amount < TotalLimit st \<or>
     DailyLimit st > 0 \<and> DailyUsed st \<ge> DailyLimit st \<and> DailyUsed st - amount < DailyLimit st \<or>
     WeeklyLimit st > 0 \<and> WeeklyUsed st \<ge> WeeklyLimit st \<and> WeeklyUsed st - amount < WeeklyLimit st"

section \<open>Equivalence of the statements\<close>

text \<open>What PostgreSQL documents of its numbers: text is read back as the number it shows.\<close>

definition pg_num_ok :: "pg \<Rightarrow> bool" where
  "pg_num_ok P \<longleftrightarrow> (\<forall>r. pg_num P (pg_num_text P r) = Some r)"

lemma unset_no_limit:
  assumes "pg_num_ok P" and "limit_unset k e"
  shows "\<exists>r. num_or_0 P e k = Some r \<and> r \<le> 0"
  using assms by (cases e) (auto simp: limit_unset_def num_or_0_def pg_num_ok_def split: option.splits jval.splits)

lemma unset_adds_nothing:
  assumes "pg_num_ok P" and "limit_unset k e"
  shows "period_increment P now amount (k, ks) ex nx e = Some []"
  using unset_no_limit[OF assms] by (cases ks) (auto simp: period_increment_def)

lemma jmerge_Nil: "accountQuotaExtraIsObjectCond e \<Longrightarrow> jmerge e [] = e"
  by (cases e) (auto simp: accountQuotaExtraIsObjectCond_def)

lemma jmerge_object: "accountQuotaExtraIsObjectCond e \<Longrightarrow> accountQuotaExtraIsObjectCond (jmerge e kvs)"
  by (cases e) (auto simp: accountQuotaExtraIsObjectCond_def)

lemma reduced_set:
  assumes "pg_num_ok P" and "increment_where daily weekly e"
  shows "increment_set P daily weekly now amount e = increment_set P True True now amount e"
proof (cases "daily \<and> weekly")
  case False
  with assms(2) have obj: "accountQuotaExtraIsObjectCond e" by (simp add: increment_where_def)
  have d: "accountQuotaDailyIncrementExpr P now amount e = Some []" if "\<not> daily"
    using that assms unset_adds_nothing by (simp add: accountQuotaDailyIncrementExpr_def increment_where_def)
  have w: "accountQuotaWeeklyIncrementExpr P now amount e = Some []" if "\<not> weekly"
    using that assms unset_adds_nothing by (simp add: accountQuotaWeeklyIncrementExpr_def increment_where_def)
  show ?thesis using False d w
    by (auto simp: increment_set_def jmerge_Nil jmerge_object obj bind_eq_None_conv split: Option.bind_split)
qed simp

text \<open>
  The statements that leave out a period are equivalent to the full one: whatever
  the caller believes about the account's daily and weekly limits, the account ends up
  with the same counters, the same returned state and the same error as after the
  statement that handles both periods.
\<close>

theorem quota_hints_are_irrelevant:
  assumes "pg_num_ok P"
  shows "quota_statements P hasDaily hasWeekly now amount row = execAccountQuotaIncrement P True True now amount row"
proof (cases row)
  case (Some e)
  have full: "increment_where True True e" by (simp add: increment_where_def)
  show ?thesis
  proof (cases "increment_where hasDaily hasWeekly e")
    case True
    from reduced_set[OF assms this, of now amount]
    have "execAccountQuotaIncrement P hasDaily hasWeekly now amount row = execAccountQuotaIncrement P True True now amount row"
      using True full Some by (simp add: execAccountQuotaIncrement_def)
    moreover have "execAccountQuotaIncrement P True True now amount row \<noteq> NoRow"
      using full Some by (simp add: execAccountQuotaIncrement_def split: option.split)
    ultimately show ?thesis by (simp add: quota_statements_def split: stmt_result.split)
  next
    case False
    then have "execAccountQuotaIncrement P hasDaily hasWeekly now amount row = NoRow"
      using Some by (simp add: execAccountQuotaIncrement_def)
    moreover have "\<not> (hasDaily \<and> hasWeekly)" using False full by auto
    ultimately show ?thesis by (auto simp: quota_statements_def)
  qed
qed (simp add: quota_statements_def execAccountQuotaIncrement_def)

text \<open>A PostgreSQL that writes numbers in unary.\<close>

definition unary_text :: "rat \<Rightarrow> string" where
  "unary_text r = (case quotient_of r of (n, d) \<Rightarrow>
     (if n < 0 then ''-'' else ''+'') @ replicate (nat \<bar>n\<bar>) (CHR ''1'') @ ''/'' @ replicate (nat d) (CHR ''1''))"

definition unary_num :: "string \<Rightarrow> rat option" where
  "unary_num s =
     (let k = length (takeWhile (\<lambda>c. c \<noteq> CHR ''/'') (tl s)); d = length (tl s) - k - 1
      in if s = [] \<or> d = 0 then None
         else Some ((if hd s = CHR ''-'' then - of_nat k else of_nat k) / of_nat d))"

definition unary_pg :: pg where
  "unary_pg = \<lparr>pg_num = unary_num, pg_num_text = unary_text, pg_int = (\<lambda>_. Some 0), pg_ts = (\<lambda>_. Some 0),
     pg_text_us = (\<lambda>_. ''now''), pg_text_s = (\<lambda>_. ''later''), pg_local = (\<lambda>_ t. Some t), pg_instant = (\<lambda>_ t. Some t)\<rparr>"

lemma takeWhile_ones:
  "takeWhile (\<lambda>c. c \<noteq> CHR ''/'') (replicate k (CHR ''1'') @ CHR ''/'' # ys) = replicate k (CHR ''1'')"
  by (induction k) auto

lemma unary_pg_ok: "pg_num_ok unary_pg"
  unfolding pg_num_ok_def
proof
  fix r
  obtain n d where q: "quotient_of r = (n, d)" by force
  then have d: "0 < d" and r: "r = of_int n / of_int d" using quotient_of_denom_pos quotient_of_div by auto
  have "pg_num unary_pg (pg_num_text unary_pg r) = Some (of_int n / of_int d)"
    using d by (simp add: takeWhile_ones unary_pg_def unary_text_def unary_num_def q Let_def)
  with r show "pg_num unary_pg (pg_num_text unary_pg r) = Some r" by simp
qed

lemma quota_hints_are_irrelevant_witness:
  "quota_statements unary_pg False True 99 3 (Some (EObj [''quota_used'' \<mapsto> JNum 4, ''quota_daily_limit'' \<mapsto> JNum 5])) =
   execAccountQuotaIncrement unary_pg True True 99 3 (Some (EObj [''quota_used'' \<mapsto> JNum 4, ''quota_daily_limit'' \<mapsto> JNum 5]))"
  using unary_pg_ok by (rule quota_hints_are_irrelevant)

end
