(* ===== verification/Usage_Billing.thy ===== *)
theory Usage_Billing
  imports Account_Quota Prelude
begin

text \<open>
  Billing (\<open>service/usage_billing.go\<close>, \<open>repository/usage_billing_repo.go\<close>,
  \<open>service/batch_image_billing_hold.go\<close>, and the clean-up of the deduplication table in
  \<open>repository/dashboard_aggregation_repo.go\<close>).  A transaction is a program of SQL
  statements on a working copy of the database; each statement may fail, and then the
  whole transaction is rolled back.  Transactions are taken to be serial: their
  statements re-evaluate their conditions under row locks, and the unique index of the
  deduplication table makes a second claim wait for the first transaction.

  SHA-256, the ten-digit print of an amount and the session's calendar day are
  parameters.  Amounts are those of \<open>Billing_Amounts\<close>, instants count microseconds.
\<close>

section \<open>Tables\<close>

record user_row =
  u_balance :: rat
  u_frozen :: rat

record sub_row =
  s_group :: id
  s_daily :: rat
  s_weekly :: rat
  s_monthly :: rat

record key_row =
  k_quota :: rat
  k_used :: rat
  k_status :: string
  k_usage_5h :: rat
  k_usage_1d :: rat
  k_usage_7d :: rat
  k_start_5h :: "int option"
  k_start_1d :: "int option"
  k_start_7d :: "int option"

record dedup_row =
  dd_request :: go_text
  dd_key :: id
  dd_fingerprint :: go_text
  dd_created :: int

text \<open>
  Deleted rows (\<open>deleted_at IS NOT NULL\<close>) are absent.  \<open>outbox\<close> holds the pending
  \<open>account_changed\<close> events, one per account (their dedup key).
\<close>

record bill_db =
  users :: "id \<Rightarrow> user_row option"
  subscriptions :: "id \<Rightarrow> sub_row option"
  groups_alive :: "id \<Rightarrow> bool"
  api_keys :: "id \<Rightarrow> key_row option"
  account_extras :: "id \<Rightarrow> extra option"
  dedup :: "dedup_row list"
  dedup_archive :: "dedup_row list"
  outbox :: "id list"

datatype billing_err =
    RequestIDRequired
  | RequestConflict
  | UserNotFound
  | SubscriptionNotFound
  | APIKeyNotFound
  | AccountNotFound
  | InsufficientBalance
  | CostExceedsHold
  | FrozenInsufficient
  | DBError

definition StatusAPIKeyActive :: string where "StatusAPIKeyActive = ''active''"
definition StatusAPIKeyQuotaExhausted :: string where "StatusAPIKeyQuotaExhausted = ''quota_exhausted''"

record billing_env =
  be_pg :: pg
  be_sha :: "go_text \<Rightarrow> go_text"
  be_print10 :: "rat \<Rightarrow> string"
  be_day_start :: "int \<Rightarrow> int"

section \<open>Transactions\<close>

text \<open>
  The list says which of the coming statements fail; a statement's function is
  \<open>None\<close> where PostgreSQL raises an error.
\<close>

type_synonym 'a tx = "bill_db \<times> bool list \<Rightarrow> (billing_err + 'a) \<times> (bill_db \<times> bool list)"

definition returnT :: "'a \<Rightarrow> 'a tx" where "returnT a s = (Inr a, s)"
definition failT :: "billing_err \<Rightarrow> 'a tx" where "failT e s = (Inl e, s)"

definition bindT :: "'a tx \<Rightarrow> ('a \<Rightarrow> 'b tx) \<Rightarrow> 'b tx" where
  "bindT p k s = (case p s of (Inl e, s') \<Rightarrow> (Inl e, s') | (Inr a, s') \<Rightarrow> k a s')"

definition catchT :: "'a tx \<Rightarrow> (billing_err + 'a) tx" where
  "catchT p s = (case p s of (r, s') \<Rightarrow> (Inr r, s'))"

definition stmt :: "(bill_db \<Rightarrow> ('a \<times> bill_db) option) \<Rightarrow> 'a tx" where
  "stmt f s =
     (case s of (db, fs) \<Rightarrow>
        if fs \<noteq> [] \<and> hd fs then (Inl DBError, (db, tl fs))
        else (case f db of None \<Rightarrow> (Inl DBError, (db, tl fs)) | Some (a, db') \<Rightarrow> (Inr a, (db', tl fs))))"

text \<open>What becomes of a transaction's COMMIT.\<close>

datatype commit = Committed | CommitReplyLost | CommitFailed

section \<open>Commands\<close>

record UsageBillingCommand =
  RequestID :: go_text
  APIKeyID :: id
  RequestFingerprint :: go_text
  RequestPayloadHash :: go_text
  UserID :: id
  AccountID :: id
  SubscriptionID :: "id option"
  AccountType :: string
  Model :: go_text
  ServiceTier :: go_text
  ReasoningEffort :: go_text
  BillingType :: int
  InputTokens :: int
  OutputTokens :: int
  CacheCreationTokens :: int
  CacheReadTokens :: int
  ImageCount :: int
  MediaType :: go_text
  BalanceCost :: rat
  SubscriptionCost :: rat
  APIKeyQuotaCost :: rat
  APIKeyRateLimitCost :: rat
  AccountQuotaCost :: rat
  AccountQuotaHasDailyLimit :: bool
  AccountQuotaHasWeeklyLimit :: bool

definition valueOrZero :: "id option \<Rightarrow> id" where
  "valueOrZero v = (case v of None \<Rightarrow> 0 | Some x \<Rightarrow> x)"

text \<open>The fields of a fingerprint, joined by bars, with the payload hash when there is one.\<close>

definition fingerprint_raw :: "go_text list \<Rightarrow> go_text \<Rightarrow> go_text" where
  "fingerprint_raw fs payload =
     (let raw = concat (map (\<lambda>f. text_of ''|'' @ f) fs);
          raw = drop 1 raw;
          h = trim_space payload
      in if h = [] then raw else raw @ text_of ''|'' @ h)"

definition buildUsageBillingFingerprint :: "billing_env \<Rightarrow> UsageBillingCommand \<Rightarrow> go_text" where
  "buildUsageBillingFingerprint E c =
     (let d = (\<lambda>i. text_of (format_int i)); f = (\<lambda>r. text_of (be_print10 E r))
      in be_sha E (fingerprint_raw
        [d (UserID c), d (AccountID c), d (APIKeyID c), trim_space (text_of (AccountType c)), trim_space (Model c),
         trim_space (ServiceTier c), trim_space (ReasoningEffort c), d (BillingType c), d (InputTokens c),
         d (OutputTokens c), d (CacheCreationTokens c), d (CacheReadTokens c), d (ImageCount c),
         trim_space (MediaType c), d (valueOrZero (SubscriptionID c)), f (BalanceCost c), f (SubscriptionCost c),
         f (APIKeyQuotaCost c), f (APIKeyRateLimitCost c), f (AccountQuotaCost c)] (RequestPayloadHash c)))"

definition quantizeMonetaryFields :: "UsageBillingCommand \<Rightarrow> UsageBillingCommand" where
  "quantizeMonetaryFields c = c\<lparr>
     BalanceCost := QuantizeUsageBillingAmount (BalanceCost c),
     SubscriptionCost := QuantizeUsageBillingAmount (SubscriptionCost c),
     APIKeyQuotaCost := QuantizeUsageBillingAmount (APIKeyQuotaCost c),
     APIKeyRateLimitCost := QuantizeUsageBillingAmount (APIKeyRateLimitCost c),
     AccountQuotaCost := QuantizeUsageBillingAmount (AccountQuotaCost c)\<rparr>"

definition Normalize :: "billing_env \<Rightarrow> UsageBillingCommand \<Rightarrow> UsageBillingCommand" where
  "Normalize E c =
     (let c = c\<lparr>RequestID := trim_space (RequestID c)\<rparr>;
          c = (if trim_space (RequestFingerprint c) = []
               then c\<lparr>RequestFingerprint := buildUsageBillingFingerprint E c\<rparr> else c)
      in quantizeMonetaryFields c)"

record UsageBillingApplyResult =
  Applied :: bool
  APIKeyQuotaExhausted :: bool
  NewBalance :: "rat option"
  BalanceOverdrafted :: bool
  QuotaState :: "AccountQuotaState option"

definition no_result :: UsageBillingApplyResult where
  "no_result = \<lparr>Applied = False, APIKeyQuotaExhausted = False, NewBalance = None,
     BalanceOverdrafted = False, QuotaState = None\<rparr>"

section \<open>Claiming a request\<close>

definition dedup_find :: "go_text \<Rightarrow> id \<Rightarrow> dedup_row list \<Rightarrow> dedup_row option" where
  "dedup_find rid key rows = List.find (\<lambda>r. dd_request r = rid \<and> dd_key r = key) rows"

definition claimUsageBillingRequest :: "int \<Rightarrow> go_text \<Rightarrow> id \<Rightarrow> go_text \<Rightarrow> bool tx" where
  "claimUsageBillingRequest now rid key fp =
     bindT (stmt (\<lambda>db. case dedup_find rid key (dedup db) of
              Some _ \<Rightarrow> Some (False, db)
            | None \<Rightarrow> Some (True, db\<lparr>dedup := dedup db @
                [\<lparr>dd_request = rid, dd_key = key, dd_fingerprint = fp, dd_created = now\<rparr>]\<rparr>))) (\<lambda>inserted.
     if \<not> inserted
     then bindT (stmt (\<lambda>db. map_option (\<lambda>r. (dd_fingerprint r, db)) (dedup_find rid key (dedup db)))) (\<lambda>existing.
          if trim_space existing \<noteq> trim_space fp then failT RequestConflict else returnT False)
     else bindT (stmt (\<lambda>db. Some (map_option dd_fingerprint (dedup_find rid key (dedup_archive db)), db)))
            (\<lambda>archived. case archived of
                Some a \<Rightarrow> if trim_space a \<noteq> trim_space fp then failT RequestConflict else returnT False
              | None \<Rightarrow> returnT True))"

section \<open>The effects of a request\<close>

definition incrementUsageBillingSubscription :: "id \<Rightarrow> rat \<Rightarrow> unit tx" where
  "incrementUsageBillingSubscription sub cost =
     bindT (stmt (\<lambda>db. case subscriptions db sub of
              Some r \<Rightarrow> if groups_alive db (s_group r)
                then Some (True, db\<lparr>subscriptions := (subscriptions db)(sub \<mapsto>
                  r\<lparr>s_daily := nround 10 (s_daily r + cost), s_weekly := nround 10 (s_weekly r + cost),
                    s_monthly := nround 10 (s_monthly r + cost)\<rparr>)\<rparr>)
                else Some (False, db)
            | None \<Rightarrow> Some (False, db))) (\<lambda>affected.
     if affected then returnT () else failT SubscriptionNotFound)"

definition deductUsageBillingBalance :: "id \<Rightarrow> rat \<Rightarrow> (rat \<times> bool) tx" where
  "deductUsageBillingBalance user amount =
     bindT (stmt (\<lambda>db. case users db user of
              Some u \<Rightarrow> if u_balance u \<ge> amount
                then (let b = nround 8 (u_balance u - amount)
                      in Some (Some b, db\<lparr>users := (users db)(user \<mapsto> u\<lparr>u_balance := b\<rparr>)\<rparr>))
                else Some (None, db)
            | None \<Rightarrow> Some (None, db))) (\<lambda>r. case r of
        Some b \<Rightarrow> returnT (b, True)
      | None \<Rightarrow>
          bindT (stmt (\<lambda>db. case users db user of
                   Some u \<Rightarrow> (let b = nround 8 (u_balance u - amount)
                     in Some (Some b, db\<lparr>users := (users db)(user \<mapsto> u\<lparr>u_balance := b\<rparr>)\<rparr>))
                 | None \<Rightarrow> Some (None, db))) (\<lambda>r. case r of
             Some b \<Rightarrow> returnT (b, False)
           | None \<Rightarrow> failT UserNotFound))"

definition incrementUsageBillingAPIKeyQuota :: "id \<Rightarrow> rat \<Rightarrow> bool tx" where
  "incrementUsageBillingAPIKeyQuota key amount =
     bindT (stmt (\<lambda>db. case api_keys db key of
              None \<Rightarrow> Some (None, db)
            | Some r \<Rightarrow>
                (let r' = r\<lparr>k_used := nround 8 (k_used r + amount),
                            k_status := (if k_quota r > 0 \<and> k_status r = StatusAPIKeyActive \<and>
                                k_used r < k_quota r \<and> k_used r + amount \<ge> k_quota r
                              then StatusAPIKeyQuotaExhausted else k_status r)\<rparr>
                 in Some (Some (k_quota r' > 0 \<and> k_used r' \<ge> k_quota r' \<and> k_used r' - amount < k_quota r'),
                          db\<lparr>api_keys := (api_keys db)(key \<mapsto> r')\<rparr>)))) (\<lambda>r.
     case r of None \<Rightarrow> failT APIKeyNotFound | Some exhausted \<Rightarrow> returnT exhausted)"

text \<open>One rate-limit window: its usage and start after adding \<open>cost\<close> at \<open>now\<close>.\<close>

definition rate_window :: "int \<Rightarrow> int \<Rightarrow> int \<Rightarrow> rat \<Rightarrow> rat \<Rightarrow> int option \<Rightarrow> rat \<times> int option" where
  "rate_window now len fresh cost usage start =
     (nround 8 (case start of Some t \<Rightarrow> if t + len \<le> now then cost else usage + cost | None \<Rightarrow> usage + cost),
      (case start of None \<Rightarrow> Some fresh | Some t \<Rightarrow> if t + len \<le> now then Some fresh else Some t))"

definition incrementUsageBillingAPIKeyRateLimit :: "billing_env \<Rightarrow> int \<Rightarrow> id \<Rightarrow> rat \<Rightarrow> unit tx" where
  "incrementUsageBillingAPIKeyRateLimit E now key cost =
     bindT (stmt (\<lambda>db. case api_keys db key of
              None \<Rightarrow> Some (False, db)
            | Some r \<Rightarrow>
                (let w5 = rate_window now (5 * hour) now cost (k_usage_5h r) (k_start_5h r);
                     w1 = rate_window now (24 * hour) (be_day_start E now) cost (k_usage_1d r) (k_start_1d r);
                     w7 = rate_window now (7 * day) (be_day_start E now) cost (k_usage_7d r) (k_start_7d r)
                 in Some (True, db\<lparr>api_keys := (api_keys db)(key \<mapsto>
                      r\<lparr>k_usage_5h := fst w5, k_start_5h := snd w5, k_usage_1d := fst w1, k_start_1d := snd w1,
                        k_usage_7d := fst w7, k_start_7d := snd w7\<rparr>)\<rparr>)))) (\<lambda>affected.
     if affected then returnT () else failT APIKeyNotFound)"

text \<open>\<open>AccountTypeSupportsQuota\<close>, on ASCII type names.\<close>

definition to_lower :: "string \<Rightarrow> string" where
  "to_lower = map (\<lambda>c. if 65 \<le> (of_char c :: nat) \<and> (of_char c :: nat) \<le> 90 then char_of ((of_char c :: nat) + 32) else c)"

definition AccountTypeSupportsQuota :: "string \<Rightarrow> bool" where
  "AccountTypeSupportsQuota t \<longleftrightarrow> to_lower t \<in> {''apikey'', ''bedrock'', ''service_account''}"

definition run_quota_statement ::
    "billing_env \<Rightarrow> bool \<Rightarrow> bool \<Rightarrow> int \<Rightarrow> rat \<Rightarrow> id \<Rightarrow> AccountQuotaState option tx" where
  "run_quota_statement E daily weekly now amount acc =
     stmt (\<lambda>db. case execAccountQuotaIncrement (be_pg E) daily weekly now amount (account_extras db acc) of
        SqlError \<Rightarrow> None
      | NoRow \<Rightarrow> Some (None, db)
      | Row (st, e) \<Rightarrow> Some (Some st, db\<lparr>account_extras := (account_extras db)(acc \<mapsto> e)\<rparr>))"

definition enqueueSchedulerOutbox :: "id \<Rightarrow> unit tx" where
  "enqueueSchedulerOutbox acc =
     stmt (\<lambda>db. Some ((), if acc \<in> set (outbox db) then db else db\<lparr>outbox := outbox db @ [acc]\<rparr>))"

definition incrementUsageBillingAccountQuota ::
    "billing_env \<Rightarrow> int \<Rightarrow> id \<Rightarrow> rat \<Rightarrow> bool \<Rightarrow> bool \<Rightarrow> AccountQuotaState tx" where
  "incrementUsageBillingAccountQuota E now acc amount hasDaily hasWeekly =
     bindT (run_quota_statement E hasDaily hasWeekly now amount acc) (\<lambda>st.
     bindT (if st = None \<and> \<not> (hasDaily \<and> hasWeekly) then run_quota_statement E True True now amount acc
            else returnT st) (\<lambda>st.
     case st of
        None \<Rightarrow> failT AccountNotFound
      | Some st \<Rightarrow> bindT (if crossed_limit amount st then enqueueSchedulerOutbox acc else returnT ()) (\<lambda>_. returnT st)))"

text \<open>Errors other than the one named are passed on; that one skips the item.\<close>

definition skipT :: "billing_err \<Rightarrow> 'a tx \<Rightarrow> 'a option tx" where
  "skipT e p = bindT (catchT p) (\<lambda>r. case r of
     Inr a \<Rightarrow> returnT (Some a) | Inl e' \<Rightarrow> if e' = e then returnT None else failT e')"

definition applyUsageBillingEffects ::
    "billing_env \<Rightarrow> int \<Rightarrow> UsageBillingCommand \<Rightarrow> UsageBillingApplyResult \<Rightarrow> UsageBillingApplyResult tx" where
  "applyUsageBillingEffects E now c result =
     bindT (case SubscriptionID c of
              Some sub \<Rightarrow> if SubscriptionCost c > 0 then incrementUsageBillingSubscription sub (SubscriptionCost c)
                          else returnT ()
            | None \<Rightarrow> returnT ()) (\<lambda>_.
     bindT (if BalanceCost c > 0
            then bindT (deductUsageBillingBalance (UserID c) (BalanceCost c)) (\<lambda>(b, sufficient).
                   returnT (result\<lparr>NewBalance := Some b, BalanceOverdrafted := \<not> sufficient\<rparr>))
            else returnT result) (\<lambda>result.
     bindT (if APIKeyQuotaCost c > 0
            then bindT (skipT APIKeyNotFound (incrementUsageBillingAPIKeyQuota (APIKeyID c) (APIKeyQuotaCost c)))
                   (\<lambda>r. returnT (result\<lparr>APIKeyQuotaExhausted := (r = Some True)\<rparr>))
            else returnT result) (\<lambda>result.
     bindT (if APIKeyRateLimitCost c > 0
            then bindT (skipT APIKeyNotFound (incrementUsageBillingAPIKeyRateLimit E now (APIKeyID c) (APIKeyRateLimitCost c)))
                   (\<lambda>_. returnT ())
            else returnT ()) (\<lambda>_.
     if AccountQuotaCost c > 0 \<and> AccountTypeSupportsQuota (AccountType c)
     then bindT (skipT AccountNotFound (incrementUsageBillingAccountQuota E now (AccountID c) (AccountQuotaCost c)
                   (AccountQuotaHasDailyLimit c) (AccountQuotaHasWeeklyLimit c)))
            (\<lambda>st. returnT (result\<lparr>QuotaState := st\<rparr>))
     else returnT result))))"

text \<open>
  The transaction of \<open>Apply\<close>: everything but a committed body is rolled back, also
  the claim of a body that turns out to be a repetition.  BEGIN is a statement that may
  fail as well.
\<close>

definition transact ::
    "bool list \<Rightarrow> commit \<Rightarrow> ('a \<times> bool) tx \<Rightarrow> bill_db \<Rightarrow> (billing_err + 'a) \<times> bill_db" where
  "transact fs cm body db =
     (case bindT (stmt (\<lambda>db. Some ((), db))) (\<lambda>_. body) (db, fs) of
        (Inl e, _) \<Rightarrow> (Inl e, db)
      | (Inr (a, applied), (db', _)) \<Rightarrow>
          if \<not> applied then (Inr a, db)
          else (case cm of
                  Committed \<Rightarrow> (Inr a, db')
                | CommitReplyLost \<Rightarrow> (Inl DBError, db')
                | CommitFailed \<Rightarrow> (Inl DBError, db)))"

definition Apply ::
    "billing_env \<Rightarrow> int \<Rightarrow> bool list \<Rightarrow> commit \<Rightarrow> UsageBillingCommand \<Rightarrow> bill_db \<Rightarrow>
     (billing_err + UsageBillingApplyResult) \<times> bill_db" where
  "Apply E now fs cm cmd db =
     (let c = Normalize E cmd
      in if RequestID c = [] then (Inl RequestIDRequired, db)
         else transact fs cm
           (bindT (claimUsageBillingRequest now (RequestID c) (APIKeyID c) (RequestFingerprint c)) (\<lambda>applied.
              if \<not> applied then returnT (no_result, False)
              else bindT (applyUsageBillingEffects E now c (no_result\<lparr>Applied := True\<rparr>)) (\<lambda>r. returnT (r, True)))) db)"

section \<open>Holds of batch image jobs\<close>

record BatchImageBalanceHoldCommand =
  h_RequestID :: go_text
  h_APIKeyID :: id
  h_RequestFingerprint :: go_text
  h_RequestPayloadHash :: go_text
  h_UserID :: id
  h_BatchID :: go_text
  HoldAmount :: rat
  ActualAmount :: rat

definition BatchImageHoldRequestID :: "go_text \<Rightarrow> go_text" where
  "BatchImageHoldRequestID batch = text_of ''batch_image_hold:'' @ trim_space batch"
definition BatchImageCaptureRequestID :: "go_text \<Rightarrow> go_text" where
  "BatchImageCaptureRequestID batch = text_of ''batch_image_capture:'' @ trim_space batch"
definition BatchImageReleaseRequestID :: "go_text \<Rightarrow> go_text" where
  "BatchImageReleaseRequestID batch = text_of ''batch_image_release:'' @ trim_space batch"

definition buildBatchImageBalanceHoldFingerprint :: "billing_env \<Rightarrow> BatchImageBalanceHoldCommand \<Rightarrow> go_text" where
  "buildBatchImageBalanceHoldFingerprint E c =
     (let d = (\<lambda>i. text_of (format_int i)); f = (\<lambda>r. text_of (be_print10 E r))
      in be_sha E (fingerprint_raw
        [d (h_UserID c), d (h_APIKeyID c), trim_space (h_BatchID c), f (HoldAmount c), f (ActualAmount c)]
        (h_RequestPayloadHash c)))"

definition NormalizeHold :: "billing_env \<Rightarrow> BatchImageBalanceHoldCommand \<Rightarrow> BatchImageBalanceHoldCommand" where
  "NormalizeHold E c =
     (let c = c\<lparr>h_RequestID := trim_space (h_RequestID c), h_BatchID := trim_space (h_BatchID c)\<rparr>
      in if trim_space (h_RequestFingerprint c) = []
         then c\<lparr>h_RequestFingerprint := buildBatchImageBalanceHoldFingerprint E c\<rparr> else c)"

record BatchImageBalanceHoldResult =
  h_Applied :: bool
  h_NewBalance :: "rat option"
  FrozenBalance :: "rat option"

definition no_hold_result :: BatchImageBalanceHoldResult where
  "no_hold_result = \<lparr>h_Applied = False, h_NewBalance = None, FrozenBalance = None\<rparr>"

definition hold_result :: "rat \<times> rat \<Rightarrow> BatchImageBalanceHoldResult" where
  "hold_result p = no_hold_result\<lparr>h_NewBalance := Some (fst p), FrozenBalance := Some (snd p)\<rparr>"

definition userExistsForBilling :: "id \<Rightarrow> bool tx" where
  "userExistsForBilling user = stmt (\<lambda>db. Some (users db user \<noteq> None, db))"

text \<open>
  The three updates of a user's row share their shape: a condition, the new balance and
  frozen balance, and the errors for a missing user and for a condition not met.
\<close>

definition update_user ::
    "id \<Rightarrow> (user_row \<Rightarrow> bool) \<Rightarrow> (user_row \<Rightarrow> user_row) \<Rightarrow> billing_err \<Rightarrow> BatchImageBalanceHoldResult tx" where
  "update_user user cond upd refused =
     bindT (stmt (\<lambda>db. case users db user of
              Some u \<Rightarrow> if cond u
                then Some (Some (u_balance (upd u), u_frozen (upd u)), db\<lparr>users := (users db)(user \<mapsto> upd u)\<rparr>)
                else Some (None, db)
            | None \<Rightarrow> Some (None, db))) (\<lambda>r. case r of
        Some p \<Rightarrow> returnT (hold_result p)
      | None \<Rightarrow> bindT (userExistsForBilling user) (\<lambda>ex. failT (if ex then refused else UserNotFound)))"

definition reserveUsageBillingBatchImageBalance ::
    "BatchImageBalanceHoldCommand \<Rightarrow> BatchImageBalanceHoldResult tx" where
  "reserveUsageBillingBatchImageBalance c =
     (if HoldAmount c \<le> 0 then returnT no_hold_result
      else update_user (h_UserID c) (\<lambda>u. u_balance u \<ge> HoldAmount c)
             (\<lambda>u. u\<lparr>u_balance := nround 8 (u_balance u - HoldAmount c),
                    u_frozen := nround 8 (u_frozen u + HoldAmount c)\<rparr>) InsufficientBalance)"

definition captureUsageBillingBatchImageBalance ::
    "BatchImageBalanceHoldCommand \<Rightarrow> BatchImageBalanceHoldResult tx" where
  "captureUsageBillingBatchImageBalance c =
     (if HoldAmount c \<le> 0 \<and> ActualAmount c \<le> 0 then returnT no_hold_result
      else if ActualAmount c - HoldAmount c > 1 / 10 ^ 8 then failT CostExceedsHold
      else update_user (h_UserID c) (\<lambda>u. u_frozen u \<ge> HoldAmount c)
             (\<lambda>u. u\<lparr>u_balance := nround 8 (u_balance u
                      + (if HoldAmount c > ActualAmount c then HoldAmount c - ActualAmount c else 0)
                      - (if ActualAmount c > HoldAmount c then ActualAmount c - HoldAmount c else 0)),
                    u_frozen := nround 8 (u_frozen u - HoldAmount c)\<rparr>) FrozenInsufficient)"

definition batchImageHoldClaimExists :: "go_text \<Rightarrow> id \<Rightarrow> bool tx" where
  "batchImageHoldClaimExists rid key =
     bindT (stmt (\<lambda>db. Some (dedup_find rid key (dedup db) \<noteq> None, db))) (\<lambda>found.
     if found then returnT True
     else stmt (\<lambda>db. Some (dedup_find rid key (dedup_archive db) \<noteq> None, db)))"

definition releaseUsageBillingBatchImageBalance ::
    "BatchImageBalanceHoldCommand \<Rightarrow> BatchImageBalanceHoldResult tx" where
  "releaseUsageBillingBatchImageBalance c =
     (if HoldAmount c \<le> 0 then returnT no_hold_result
      else bindT (batchImageHoldClaimExists (BatchImageHoldRequestID (h_BatchID c)) (h_APIKeyID c)) (\<lambda>held.
        if \<not> held then returnT no_hold_result
        else update_user (h_UserID c) (\<lambda>u. u_frozen u \<ge> HoldAmount c)
             (\<lambda>u. u\<lparr>u_balance := nround 8 (u_balance u + HoldAmount c),
                    u_frozen := nround 8 (u_frozen u - HoldAmount c)\<rparr>) FrozenInsufficient))"

definition applyBatchImageBalanceHold ::
    "billing_env \<Rightarrow> int \<Rightarrow> bool list \<Rightarrow> commit \<Rightarrow>
     (BatchImageBalanceHoldCommand \<Rightarrow> BatchImageBalanceHoldResult tx) \<Rightarrow>
     BatchImageBalanceHoldCommand \<Rightarrow> bill_db \<Rightarrow> (billing_err + BatchImageBalanceHoldResult) \<times> bill_db" where
  "applyBatchImageBalanceHold E now fs cm apply_hold cmd db =
     (let c = NormalizeHold E cmd
      in if h_RequestID c = [] then (Inl RequestIDRequired, db)
         else transact fs cm
           (bindT (claimUsageBillingRequest now (h_RequestID c) (h_APIKeyID c) (h_RequestFingerprint c)) (\<lambda>applied.
              if \<not> applied then returnT (no_hold_result, False)
              else bindT (apply_hold c) (\<lambda>r. returnT (r\<lparr>h_Applied := True\<rparr>, True)))) db)"

definition ReserveBatchImageBalance where
  "ReserveBatchImageBalance E now fs cm = applyBatchImageBalanceHold E now fs cm reserveUsageBillingBatchImageBalance"
definition CaptureBatchImageBalance where
  "CaptureBatchImageBalance E now fs cm = applyBatchImageBalanceHold E now fs cm captureUsageBillingBatchImageBalance"
definition ReleaseBatchImageBalance where
  "ReleaseBatchImageBalance E now fs cm = applyBatchImageBalanceHold E now fs cm releaseUsageBillingBatchImageBalance"

section \<open>Archiving old claims\<close>

text \<open>
  One statement of \<open>CleanupUsageBillingDedup\<close> moves at most a batch of old claims to
  the archive.  Which ones PostgreSQL picks is open: \<open>pick\<close> lists rows in the order in
  which they are found.
\<close>

definition usageBillingDedupCleanupBatchSize :: nat where "usageBillingDedupCleanupBatchSize = 10000"

definition cleanup_victims ::
    "nat \<Rightarrow> (dedup_row list \<Rightarrow> dedup_row list) \<Rightarrow> int \<Rightarrow> bill_db \<Rightarrow> dedup_row list" where
  "cleanup_victims n pick cutoff db =
     take n (filter (\<lambda>r. dd_created r < cutoff) (remdups (filter (\<lambda>r. r \<in> set (dedup db)) (pick (dedup db)))))"

definition archive_batch ::
    "nat \<Rightarrow> (dedup_row list \<Rightarrow> dedup_row list) \<Rightarrow> int \<Rightarrow> bill_db \<Rightarrow> nat \<times> bill_db" where
  "archive_batch n pick cutoff db =
     (let victims = cleanup_victims n pick cutoff db;
          new = filter (\<lambda>r. dedup_find (dd_request r) (dd_key r) (dedup_archive db) = None) victims
      in (length victims, db\<lparr>dedup := filter (\<lambda>r. r \<notin> set victims) (dedup db),
                             dedup_archive := dedup_archive db @ new\<rparr>))"

text \<open>The loop ends because a full batch shrinks the table; the list says which statements fail.\<close>

function CleanupUsageBillingDedup ::
    "(dedup_row list \<Rightarrow> dedup_row list) \<Rightarrow> int \<Rightarrow> bool list \<Rightarrow> bill_db \<Rightarrow> (billing_err + unit) \<times> bill_db" where
  "CleanupUsageBillingDedup pick cutoff fs db =
     (if fs \<noteq> [] \<and> hd fs then (Inl DBError, db)
      else if fst (archive_batch usageBillingDedupCleanupBatchSize pick cutoff db) < usageBillingDedupCleanupBatchSize
        then (Inr (), snd (archive_batch usageBillingDedupCleanupBatchSize pick cutoff db))
      else CleanupUsageBillingDedup pick cutoff (tl fs)
             (snd (archive_batch usageBillingDedupCleanupBatchSize pick cutoff db)))"
  by pat_completeness auto
termination
proof (relation "measure (\<lambda>(pick, cutoff, fs, db). length (dedup db))", goal_cases)
  case (2 pick cutoff fs db)
  let ?vs = "cleanup_victims usageBillingDedupCleanupBatchSize pick cutoff db"
  have "usageBillingDedupCleanupBatchSize \<le> length ?vs" using 2 by (simp add: archive_batch_def Let_def)
  moreover have "0 < usageBillingDedupCleanupBatchSize" by (simp add: usageBillingDedupCleanupBatchSize_def)
  ultimately have "?vs \<noteq> []" by auto
  then obtain r where r: "r \<in> set ?vs" by (cases ?vs) auto
  then have "r \<in> set (dedup db)" by (auto simp: cleanup_victims_def dest: in_set_takeD)
  with r have "length (filter (\<lambda>r. r \<notin> set ?vs) (dedup db)) < length (dedup db)"
    by (intro length_filter_less) auto
  then show ?case by (simp add: archive_batch_def Let_def)
qed simp

declare CleanupUsageBillingDedup.simps [simp del]

end
