(* ===== verification/Billing_Properties.thy ===== *)
theory Billing_Properties
  imports Usage_Billing
begin

text \<open>
  Billing is exactly once: a request's claim and its effects are one transaction, a
  claimed request is inert for ever, also after its claim was archived, and the money
  that leaves the balances is exactly the money that appears on the keys and in the
  charged requests.  Holds move money between the two balances of a user.
\<close>

section \<open>Programs of statements\<close>

named_theorems tx_simps \<open>the combinators of transactions\<close>

lemma bindT_Inr: "bindT p k s = (Inr b, s'') \<longleftrightarrow> (\<exists>a s'. p s = (Inr a, s') \<and> k a s' = (Inr b, s''))"
  by (auto simp: bindT_def split: prod.splits sum.splits)

lemma returnT_eq [simp]: "returnT a s = (r, s') \<longleftrightarrow> r = Inr a \<and> s' = s"
  by (auto simp: returnT_def)

lemma failT_eq [simp]: "failT e s = (r, s') \<longleftrightarrow> r = Inl e \<and> s' = s"
  by (auto simp: failT_def)

lemma stmt_Inr:
  "stmt f (db, fs) = (Inr a, s') \<longleftrightarrow>
     \<not> (fs \<noteq> [] \<and> hd fs) \<and> (\<exists>db'. f db = Some (a, db') \<and> s' = (db', tl fs))"
  by (auto simp: stmt_def split: option.splits)

lemma stmt_Inl:
  "stmt f (db, fs) = (Inl e, s') \<Longrightarrow> e = DBError \<and> fst s' = db"
  by (auto simp: stmt_def split: option.splits if_splits)

lemmas run_tx = bindT_def stmt_def returnT_def failT_def

lemma skipT_Inr:
  "skipT e p s = (Inr r, s') \<longleftrightarrow> (case r of Some a \<Rightarrow> p s = (Inr a, s') | None \<Rightarrow> p s = (Inl e, s'))"
  by (auto simp: skipT_def bindT_def catchT_def returnT_def failT_def split: prod.splits sum.splits option.splits)

section \<open>Claims\<close>

definition claimed :: "bill_db \<Rightarrow> go_text \<Rightarrow> id \<Rightarrow> bool" where
  "claimed db rid key \<longleftrightarrow> dedup_find rid key (dedup db) \<noteq> None \<or> dedup_find rid key (dedup_archive db) \<noteq> None"

definition claim_row :: "int \<Rightarrow> go_text \<Rightarrow> id \<Rightarrow> go_text \<Rightarrow> bill_db \<Rightarrow> bill_db" where
  "claim_row now rid key fp db = db\<lparr>dedup := dedup db @
     [\<lparr>dd_request = rid, dd_key = key, dd_fingerprint = fp, dd_created = now\<rparr>]\<rparr>"

lemma dedup_find_append:
  "dedup_find rid key (xs @ ys) = (case dedup_find rid key xs of None \<Rightarrow> dedup_find rid key ys | r \<Rightarrow> r)"
  by (induction xs) (auto simp: dedup_find_def)

lemma claim_row_claims: "claimed (claim_row now rid key fp db) rid key"
proof -
  have "dedup_find rid key [\<lparr>dd_request = rid, dd_key = key, dd_fingerprint = fp, dd_created = now\<rparr>] \<noteq> None"
    by (simp add: dedup_find_def)
  then show ?thesis by (auto simp: claimed_def claim_row_def dedup_find_append split: option.split)
qed

lemma claim_row_keeps: "claimed db rid' key' \<Longrightarrow> claimed (claim_row now rid key fp db) rid' key'"
  by (auto simp: claimed_def claim_row_def dedup_find_append split: option.splits)

lemma claim_Inr:
  assumes "claimUsageBillingRequest now rid key fp (db, fs) = (Inr applied, (db', fs'))"
  shows "if applied then \<not> claimed db rid key \<and> db' = claim_row now rid key fp db else claimed db rid key"
  using assms
  by (auto simp: claimUsageBillingRequest_def bindT_Inr stmt_Inr claimed_def claim_row_def split: option.splits if_splits)

text \<open>The claim's answer when no statement fails.\<close>

definition claim_fingerprint :: "bill_db \<Rightarrow> go_text \<Rightarrow> id \<Rightarrow> go_text option" where
  "claim_fingerprint db rid key =
     (case dedup_find rid key (dedup db) of
        Some r \<Rightarrow> Some (dd_fingerprint r)
      | None \<Rightarrow> map_option dd_fingerprint (dedup_find rid key (dedup_archive db)))"

lemma claim_answer:
  "claimUsageBillingRequest now rid key fp (db, fs) = (r, s') \<Longrightarrow>
     (case r of
        Inl e \<Rightarrow> e = DBError \<or> e = RequestConflict \<and>
          (\<exists>f. claim_fingerprint db rid key = Some f \<and> trim_space f \<noteq> trim_space fp)
      | Inr applied \<Rightarrow> applied = (claim_fingerprint db rid key = None) \<and>
          (\<forall>f. claim_fingerprint db rid key = Some f \<longrightarrow> trim_space f = trim_space fp))"
  by (auto simp: claimUsageBillingRequest_def run_tx claim_fingerprint_def split: option.splits if_splits prod.splits sum.splits)

lemma claimed_fingerprint: "claimed db rid key \<longleftrightarrow> claim_fingerprint db rid key \<noteq> None"
  by (auto simp: claimed_def claim_fingerprint_def split: option.splits)

text \<open>The shape of both kinds of billing transactions.\<close>

definition claimed_tx ::
    "int \<Rightarrow> go_text \<Rightarrow> id \<Rightarrow> go_text \<Rightarrow> 'a \<Rightarrow> 'b tx \<Rightarrow> ('b \<Rightarrow> 'a) \<Rightarrow> ('a \<times> bool) tx" where
  "claimed_tx now rid key fp repeated effects wrap =
     bindT (claimUsageBillingRequest now rid key fp) (\<lambda>applied.
       if \<not> applied then returnT (repeated, False)
       else bindT effects (\<lambda>r. returnT (wrap r, True)))"

lemma transact_claimed:
  assumes "transact fs cm (claimed_tx now rid key fp repeated effects wrap) db = (r, db')"
  shows "db' = db \<or>
     (\<not> claimed db rid key \<and> cm \<noteq> CommitFailed \<and>
      (\<exists>fs1 b fs2. effects (claim_row now rid key fp db, fs1) = (Inr b, (db', fs2)) \<and>
         r = (if cm = Committed then Inr (wrap b) else Inl DBError)))"
  using assms
  by (auto simp: transact_def claimed_tx_def bindT_Inr stmt_Inr split: prod.splits sum.splits if_splits commit.splits
      dest!: claim_Inr) blast+

section \<open>What the effects change\<close>

definition deduct :: "id \<Rightarrow> rat \<Rightarrow> bill_db \<Rightarrow> bill_db" where
  "deduct user amount db = db\<lparr>users :=
     (users db)(user := map_option (\<lambda>u. u\<lparr>u_balance := nround 8 (u_balance u - amount)\<rparr>) (users db user))\<rparr>"

lemma deduct_Inr:
  assumes "deductUsageBillingBalance user amount (db, fs) = (Inr (b, ok), (db', fs'))"
  shows "\<exists>u. users db user = Some u \<and> db' = deduct user amount db \<and> b = nround 8 (u_balance u - amount) \<and>
     ok = (amount \<le> u_balance u)"
  using assms
  by (auto simp: deductUsageBillingBalance_def bindT_Inr stmt_Inr deduct_def Let_def split: option.splits if_splits)

lemma subscription_Inr:
  assumes "incrementUsageBillingSubscription sub cost (db, fs) = (Inr a, (db', fs'))"
  shows "\<exists>r. subscriptions db sub = Some r \<and> db' = db\<lparr>subscriptions := (subscriptions db)(sub \<mapsto>
     r\<lparr>s_daily := nround 10 (s_daily r + cost), s_weekly := nround 10 (s_weekly r + cost),
       s_monthly := nround 10 (s_monthly r + cost)\<rparr>)\<rparr>"
  using assms
  by (auto simp: incrementUsageBillingSubscription_def bindT_Inr stmt_Inr split: option.splits if_splits)

text \<open>The parts of the database that a program leaves alone.\<close>

definition same_money :: "bill_db \<Rightarrow> bill_db \<Rightarrow> bool" where
  "same_money db db' \<longleftrightarrow> users db' = users db \<and> subscriptions db' = subscriptions db \<and>
     dedup db' = dedup db \<and> dedup_archive db' = dedup_archive db"

definition key_used :: "bill_db \<Rightarrow> id \<Rightarrow> rat option" where
  "key_used db key = map_option k_used (api_keys db key)"

lemma quota_outcome:
  assumes "incrementUsageBillingAPIKeyQuota key amount (db, fs) = (r, (db', fs'))"
  shows "same_money db db' \<and> (case r of
     Inl e \<Rightarrow> db' = db \<and> (e = APIKeyNotFound \<longrightarrow> api_keys db key = None)
   | Inr ex \<Rightarrow> (\<exists>k. api_keys db key = Some k) \<and>
       key_used db' = (key_used db)(key := map_option (\<lambda>u. nround 8 (u + amount)) (key_used db key)))"
  using assms
  by (auto simp: incrementUsageBillingAPIKeyQuota_def run_tx same_money_def key_used_def Let_def
      split: option.splits if_splits sum.splits prod.splits)

lemma rate_outcome:
  assumes "incrementUsageBillingAPIKeyRateLimit E now key amount (db, fs) = (r, (db', fs'))"
  shows "same_money db db' \<and> key_used db' = key_used db"
  using assms
  by (auto simp: incrementUsageBillingAPIKeyRateLimit_def run_tx same_money_def key_used_def Let_def fun_eq_iff
      split: option.splits if_splits sum.splits prod.splits)

lemma account_quota_outcome:
  assumes "incrementUsageBillingAccountQuota E now acc amount d w (db, fs) = (r, (db', fs'))"
  shows "same_money db db' \<and> key_used db' = key_used db"
  using assms
  by (auto simp: incrementUsageBillingAccountQuota_def run_quota_statement_def enqueueSchedulerOutbox_def run_tx
      same_money_def key_used_def fun_eq_iff Let_def split: option.splits if_splits sum.splits prod.splits stmt_result.splits)

text \<open>
  What one charged request does to the money: balance, key quota and the deduplication record.  The
  usage of subscriptions, rate windows and account quotas that the transaction also writes is not in it.
\<close>

definition charge_money :: "UsageBillingCommand \<Rightarrow> bill_db \<Rightarrow> bill_db \<Rightarrow> bool" where
  "charge_money c db db' \<longleftrightarrow>
     users db' = users (if BalanceCost c > 0 then deduct (UserID c) (BalanceCost c) db else db) \<and>
     (BalanceCost c > 0 \<longrightarrow> users db (UserID c) \<noteq> None) \<and>
     key_used db' = (if APIKeyQuotaCost c > 0
       then (key_used db)(APIKeyID c := map_option (\<lambda>u. nround 8 (u + APIKeyQuotaCost c)) (key_used db (APIKeyID c)))
       else key_used db) \<and>
     dedup db' = dedup db \<and> dedup_archive db' = dedup_archive db"

text \<open>The effect of a successful run, as a relation between the databases.\<close>

definition effect :: "'a tx \<Rightarrow> (bill_db \<Rightarrow> bill_db \<Rightarrow> bool) \<Rightarrow> bool" where
  "effect p Q \<longleftrightarrow> (\<forall>db fs a db' fs'. p (db, fs) = (Inr a, (db', fs')) \<longrightarrow> Q db db')"

lemma effectI: "(\<And>db fs a db' fs'. p (db, fs) = (Inr a, (db', fs')) \<Longrightarrow> Q db db') \<Longrightarrow> effect p Q"
  by (simp add: effect_def)

lemma effectD: "effect p Q \<Longrightarrow> p (db, fs) = (Inr a, (db', fs')) \<Longrightarrow> Q db db'"
  unfolding effect_def by blast

lemma effect_return [simp]: "effect (returnT a) (=)"
  by (simp add: effect_def)

lemma effect_bind: "effect p Q \<Longrightarrow> (\<And>a. effect (k a) R) \<Longrightarrow> effect (bindT p k) (Q OO R)"
  unfolding effect_def bindT_Inr by (metis relcompp.relcompI surj_pair)

lemma effect_mono: "effect p Q \<Longrightarrow> Q \<le> R \<Longrightarrow> effect p R"
  unfolding effect_def by (blast dest: predicate2D)

lemma effect_map: "effect p Q \<Longrightarrow> effect (bindT p (\<lambda>a. returnT (f a))) Q"
  by (rule effectI) (auto simp: bindT_Inr dest: effectD)

lemma skip_quota:
  "effect (skipT APIKeyNotFound (incrementUsageBillingAPIKeyQuota key amount))
     (\<lambda>db db'. same_money db db' \<and>
        key_used db' = (key_used db)(key := map_option (\<lambda>u. nround 8 (u + amount)) (key_used db key)))"
proof (rule effectI, goal_cases)
  case (1 db fs a db' fs')
  then show ?case
    using quota_outcome[of key amount db fs _ db' fs']
    by (cases a) (fastforce simp: skipT_Inr key_used_def fun_upd_idem_iff)+
qed

lemma skip_rate:
  "effect (skipT APIKeyNotFound (incrementUsageBillingAPIKeyRateLimit E now key amount))
     (\<lambda>db db'. same_money db db' \<and> key_used db' = key_used db)"
  by (rule effectI) (auto simp: skipT_Inr split: option.splits dest: rate_outcome)

lemma skip_account:
  "effect (skipT AccountNotFound (incrementUsageBillingAccountQuota E now acc amount d w))
     (\<lambda>db db'. same_money db db' \<and> key_used db' = key_used db)"
  by (rule effectI) (auto simp: skipT_Inr split: option.splits dest: account_quota_outcome)

definition other_money :: "bill_db \<Rightarrow> bill_db \<Rightarrow> bool" where
  "other_money db db' \<longleftrightarrow> users db' = users db \<and> key_used db' = key_used db \<and>
     dedup db' = dedup db \<and> dedup_archive db' = dedup_archive db"

lemma effects_money: "effect (applyUsageBillingEffects E now c r0) (charge_money c)"
proof -
  define R2 where "R2 db db' \<longleftrightarrow>
      users db' = users (if BalanceCost c > 0 then deduct (UserID c) (BalanceCost c) db else db) \<and>
      (BalanceCost c > 0 \<longrightarrow> users db (UserID c) \<noteq> None) \<and> key_used db' = key_used db \<and>
      dedup db' = dedup db \<and> dedup_archive db' = dedup_archive db" for db db'
  define R3 where "R3 db db' \<longleftrightarrow> users db' = users db \<and> dedup db' = dedup db \<and> dedup_archive db' = dedup_archive db \<and>
      key_used db' = (if APIKeyQuotaCost c > 0
       then (key_used db)(APIKeyID c := map_option (\<lambda>u. nround 8 (u + APIKeyQuotaCost c)) (key_used db (APIKeyID c)))
       else key_used db)" for db db'
  have s1: "effect (case SubscriptionID c of
              Some sub \<Rightarrow> if SubscriptionCost c > 0 then incrementUsageBillingSubscription sub (SubscriptionCost c)
                          else returnT ()
            | None \<Rightarrow> returnT ()) other_money"
    by (rule effectI) (auto simp: other_money_def key_used_def fun_eq_iff dest!: subscription_Inr split: option.splits if_splits)
  have s2: "effect (if BalanceCost c > 0
            then bindT (deductUsageBillingBalance (UserID c) (BalanceCost c)) (\<lambda>(b, sufficient).
                   returnT (r\<lparr>NewBalance := Some b, BalanceOverdrafted := \<not> sufficient\<rparr>))
            else returnT r) R2" for r
    by (rule effectI)
      (auto simp: R2_def bindT_Inr deduct_def key_used_def fun_eq_iff dest!: deduct_Inr split: if_splits)
  have s3: "effect (if APIKeyQuotaCost c > 0
            then bindT (skipT APIKeyNotFound (incrementUsageBillingAPIKeyQuota (APIKeyID c) (APIKeyQuotaCost c)))
                   (\<lambda>x. returnT (r\<lparr>APIKeyQuotaExhausted := (x = Some True)\<rparr>))
            else returnT r) R3" for r
    using effect_mono[OF effect_map[OF skip_quota[of "APIKeyID c" "APIKeyQuotaCost c"]], of R3]
      effect_mono[OF effect_return, of R3 r]
    by (auto simp: R3_def same_money_def le_fun_def)
  have s4: "effect (if APIKeyRateLimitCost c > 0
            then bindT (skipT APIKeyNotFound (incrementUsageBillingAPIKeyRateLimit E now (APIKeyID c) (APIKeyRateLimitCost c)))
                   (\<lambda>_. returnT ())
            else returnT ()) other_money"
    using effect_mono[OF effect_map[OF skip_rate[of E now "APIKeyID c" "APIKeyRateLimitCost c"]], of other_money]
      effect_mono[OF effect_return, of other_money "()"]
    by (auto simp: other_money_def same_money_def le_fun_def)
  have s5: "effect (if AccountQuotaCost c > 0 \<and> AccountTypeSupportsQuota (AccountType c)
        then bindT (skipT AccountNotFound (incrementUsageBillingAccountQuota E now (AccountID c) (AccountQuotaCost c)
                   (AccountQuotaHasDailyLimit c) (AccountQuotaHasWeeklyLimit c)))
            (\<lambda>st. returnT (r\<lparr>QuotaState := st\<rparr>))
        else returnT r) other_money" for r
    using effect_mono[OF effect_map[OF skip_account[of E now "AccountID c" "AccountQuotaCost c"]], of other_money]
      effect_mono[OF effect_return, of other_money r]
    by (auto simp: other_money_def same_money_def le_fun_def)
  have le: "other_money OO R2 OO R3 OO other_money OO other_money \<le> charge_money c"
    by (auto simp: other_money_def R2_def R3_def charge_money_def deduct_def)
  show ?thesis unfolding applyUsageBillingEffects_def
    by (rule effect_mono[OF _ le]) (intro effect_bind s1 s2 s3 s4 s5)
qed

section \<open>The ledger\<close>

text \<open>
  What happens to the database: requests are billed, with any failures, and old claims
  are archived.  \<open>charges\<close> lists the commands whose claim was taken, in order.
\<close>

datatype billing_event =
  EApply int "bool list" commit UsageBillingCommand
| EArchive "dedup_row list \<Rightarrow> dedup_row list" int "bool list"

fun bill_event :: "billing_env \<Rightarrow> billing_event \<Rightarrow> bill_db \<Rightarrow> bill_db" where
  "bill_event E (EApply now fs cm cmd) db = snd (Apply E now fs cm cmd db)"
| "bill_event E (EArchive pick cutoff fs) db = snd (CleanupUsageBillingDedup pick cutoff fs db)"

fun bill_run :: "billing_env \<Rightarrow> billing_event list \<Rightarrow> bill_db \<Rightarrow> bill_db" where
  "bill_run E [] db = db"
| "bill_run E (ev # evs) db = bill_run E evs (bill_event E ev db)"

definition claim_key :: "UsageBillingCommand \<Rightarrow> go_text \<times> id" where
  "claim_key c = (RequestID c, APIKeyID c)"

definition charge_of :: "billing_env \<Rightarrow> billing_event \<Rightarrow> bill_db \<Rightarrow> UsageBillingCommand list" where
  "charge_of E ev db =
     (case ev of
        EApply now fs cm cmd \<Rightarrow>
          (let c = Normalize E cmd
           in if \<not> claimed db (RequestID c) (APIKeyID c) \<and> claimed (bill_event E ev db) (RequestID c) (APIKeyID c)
              then [c] else [])
      | EArchive _ _ _ \<Rightarrow> [])"

fun charges :: "billing_env \<Rightarrow> billing_event list \<Rightarrow> bill_db \<Rightarrow> UsageBillingCommand list" where
  "charges E [] db = []"
| "charges E (ev # evs) db = charge_of E ev db @ charges E evs (bill_event E ev db)"

lemma Apply_claimed_tx:
  "Apply E now fs cm cmd db =
     (let c = Normalize E cmd
      in if RequestID c = [] then (Inl RequestIDRequired, db)
         else transact fs cm (claimed_tx now (RequestID c) (APIKeyID c) (RequestFingerprint c) no_result
                (applyUsageBillingEffects E now c (no_result\<lparr>Applied := True\<rparr>)) (\<lambda>r. r)) db)"
  by (simp add: Apply_def claimed_tx_def Let_def)

text \<open>Nothing happened, or the claim and all the effects.\<close>

lemma Apply_effect:
  assumes "Apply E now fs cm cmd db = (r, db')"
  defines "c \<equiv> Normalize E cmd"
  shows "db' = db \<or> (\<not> claimed db (RequestID c) (APIKeyID c) \<and> claimed db' (RequestID c) (APIKeyID c) \<and>
     charge_money c (claim_row now (RequestID c) (APIKeyID c) (RequestFingerprint c) db) db')"
proof (cases "db' = db \<or> RequestID c = []")
  case False
  let ?db = "claim_row now (RequestID c) (APIKeyID c) (RequestFingerprint c) db"
  from False assms obtain fs1 b fs2 where fresh: "\<not> claimed db (RequestID c) (APIKeyID c)"
      and run: "applyUsageBillingEffects E now c (no_result\<lparr>Applied := True\<rparr>) (?db, fs1) = (Inr b, (db', fs2))"
    by (auto simp: Apply_claimed_tx Let_def dest!: transact_claimed)
  have money: "charge_money c ?db db'" by (rule effectD[OF effects_money run])
  then have "claimed db' = claimed ?db" by (auto simp: charge_money_def claimed_def fun_eq_iff)
  with claim_row_claims fresh money show ?thesis by metis
qed (use assms in \<open>auto simp: Apply_claimed_tx Let_def\<close>)

lemma claimed_stable: "db' = db \<or> (\<exists>c now rid key fp. charge_money c (claim_row now rid key fp db) db') \<Longrightarrow>
    claimed db r k \<Longrightarrow> claimed db' r k"
proof (elim disjE exE)
  fix c now rid key fp
  assume "charge_money c (claim_row now rid key fp db) db'" and "claimed db r k"
  then show "claimed db' r k"
    using claim_row_keeps[of db r k now rid key fp] by (simp add: charge_money_def claimed_def)
qed simp

lemma dedup_find_None:
  "dedup_find rid key xs = None \<longleftrightarrow> (\<forall>r\<in>set xs. \<not> (dd_request r = rid \<and> dd_key r = key))"
  by (auto simp: dedup_find_def find_None_iff)

lemma archive_claimed:
  "claimed (snd (archive_batch n pick cutoff db)) rid key = claimed db rid key"
proof -
  let ?vs = "cleanup_victims n pick cutoff db"
  have "set ?vs \<subseteq> set (dedup db)" by (auto simp: cleanup_victims_def dest: in_set_takeD)
  then show ?thesis
    by (auto simp: claimed_def archive_batch_def Let_def dedup_find_None simp del: not_None_eq) blast
qed

lemma archive_other:
  "users (snd (archive_batch n pick cutoff db)) = users db"
  "api_keys (snd (archive_batch n pick cutoff db)) = api_keys db"
  by (simp_all add: archive_batch_def Let_def)

lemma cleanup_keeps:
  "(\<forall>rid key. claimed (snd (CleanupUsageBillingDedup pick cutoff fs db)) rid key = claimed db rid key) \<and>
   users (snd (CleanupUsageBillingDedup pick cutoff fs db)) = users db \<and>
   api_keys (snd (CleanupUsageBillingDedup pick cutoff fs db)) = api_keys db"
proof (induction pick cutoff fs db rule: CleanupUsageBillingDedup.induct)
  case (1 pick cutoff fs db)
  show ?case
    by (subst (1 2 3) CleanupUsageBillingDedup.simps) (use 1 in \<open>auto simp: archive_claimed archive_other\<close>)
qed

definition balance_of :: "bill_db \<Rightarrow> id \<Rightarrow> rat option" where
  "balance_of db u = map_option u_balance (users db u)"

definition balance_charge :: "id \<Rightarrow> UsageBillingCommand \<Rightarrow> rat" where
  "balance_charge u c = (if UserID c = u \<and> BalanceCost c > 0 then BalanceCost c else 0)"

definition key_charge :: "id \<Rightarrow> UsageBillingCommand \<Rightarrow> rat" where
  "key_charge k c = (if APIKeyID c = k \<and> APIKeyQuotaCost c > 0 then APIKeyQuotaCost c else 0)"

definition money_on_scale :: "bill_db \<Rightarrow> bool" where
  "money_on_scale db \<longleftrightarrow> (\<forall>u b. balance_of db u = Some b \<longrightarrow> on_scale 8 b) \<and> (\<forall>k b. key_used db k = Some b \<longrightarrow> on_scale 8 b)"

lemma normalized_amounts:
  "on_scale 8 (BalanceCost (Normalize E c))" "on_scale 8 (APIKeyQuotaCost (Normalize E c))"
  by (simp_all add: Normalize_def quantizeMonetaryFields_def Let_def quantize_on_scale)

text \<open>One step of the ledger.\<close>

definition ledger_step :: "bill_db \<Rightarrow> UsageBillingCommand list \<Rightarrow> bill_db \<Rightarrow> bool" where
  "ledger_step db cs db' \<longleftrightarrow>
     (\<forall>r k. claimed db r k \<longrightarrow> claimed db' r k) \<and> distinct (map claim_key cs) \<and>
     (\<forall>c\<in>set cs. \<not> claimed db (RequestID c) (APIKeyID c) \<and> claimed db' (RequestID c) (APIKeyID c)) \<and>
     (\<forall>u. balance_of db' u = map_option (\<lambda>b. b - (\<Sum>c\<leftarrow>cs. balance_charge u c)) (balance_of db u)) \<and>
     (\<forall>k. key_used db' k = map_option (\<lambda>b. b + (\<Sum>c\<leftarrow>cs. key_charge k c)) (key_used db k)) \<and>
     money_on_scale db'"

lemma ledger_refl: "money_on_scale db \<Longrightarrow> ledger_step db [] db"
  by (simp add: ledger_step_def option.map_ident)

lemma ledger_trans:
  assumes "ledger_step db cs db'" and "ledger_step db' ds db''"
  shows "ledger_step db (cs @ ds) db''"
proof -
  have "claim_key c \<noteq> claim_key d" if "c \<in> set cs" "d \<in> set ds" for c d
    using assms that unfolding ledger_step_def claim_key_def by (metis prod.inject)
  then have "claim_key ` set cs \<inter> claim_key ` set ds = {}" by blast
  with assms show ?thesis
    by (auto simp: ledger_step_def option.map_comp o_def algebra_simps)
qed

lemma charge_ledger:
  assumes "money_on_scale db" and "\<not> claimed db (RequestID c) (APIKeyID c)" and "claimed db' (RequestID c) (APIKeyID c)"
    and "on_scale 8 (BalanceCost c)" "on_scale 8 (APIKeyQuotaCost c)"
    and money: "charge_money c (claim_row now (RequestID c) (APIKeyID c) fp db) db'"
  shows "ledger_step db [c] db'"
proof -
  have same: "users (claim_row now r k fp db) = users db" "key_used (claim_row now r k fp db) = key_used db" for r k
    by (simp_all add: claim_row_def key_used_def fun_eq_iff)
  have balances: "balance_of db' u = map_option (\<lambda>b. b - balance_charge u c) (balance_of db u)" for u
    using money assms(1,4)
    by (auto simp: charge_money_def balance_of_def deduct_def same balance_charge_def money_on_scale_def option.map_comp o_def
        option.map_ident intro!: option.map_cong nround_exact on_scale_diff)
  have keys: "key_used db' k = map_option (\<lambda>b. b + key_charge k c) (key_used db k)" for k
    using money assms(1,5)
    by (auto simp: charge_money_def same key_charge_def money_on_scale_def option.map_ident
        intro!: option.map_cong nround_exact on_scale_add)
  have "money_on_scale db'"
    using assms(1,4,5) by (auto simp: money_on_scale_def balances keys balance_charge_def key_charge_def
        intro: on_scale_add on_scale_diff)
  moreover have "claimed db' r k" if "claimed db r k" for r k
    using claimed_stable[OF _ that, of db'] money by blast
  ultimately show ?thesis using assms(2,3) balances keys by (simp add: ledger_step_def)
qed

lemma event_ledger:
  assumes "money_on_scale db"
  shows "ledger_step db (charge_of E ev db) (bill_event E ev db)"
proof (cases ev)
  case (EApply now fs cm cmd)
  let ?c = "Normalize E cmd"
  obtain r db' where app: "Apply E now fs cm cmd db = (r, db')" by (cases "Apply E now fs cm cmd db")
  from Apply_effect[OF app] show ?thesis
  proof
    assume "db' = db"
    with app EApply show ?thesis by (auto simp: charge_of_def ledger_refl assms Let_def)
  next
    assume *: "\<not> claimed db (RequestID ?c) (APIKeyID ?c) \<and> claimed db' (RequestID ?c) (APIKeyID ?c) \<and>
      charge_money ?c (claim_row now (RequestID ?c) (APIKeyID ?c) (RequestFingerprint ?c) db) db'"
    then have "ledger_step db [?c] db'"
      using charge_ledger[OF assms _ _ normalized_amounts] by blast
    with * app EApply show ?thesis by (simp add: charge_of_def Let_def)
  qed
next
  case (EArchive pick cutoff fs)
  have "balance_of (snd (CleanupUsageBillingDedup pick cutoff fs db)) = balance_of db"
    "key_used (snd (CleanupUsageBillingDedup pick cutoff fs db)) = key_used db"
    using cleanup_keeps[of pick cutoff fs db] by (auto simp: balance_of_def key_used_def fun_eq_iff)
  with EArchive assms cleanup_keeps[of pick cutoff fs db] show ?thesis
    by (simp add: charge_of_def ledger_step_def money_on_scale_def option.map_ident)
qed

lemma run_ledger: "money_on_scale db \<Longrightarrow> ledger_step db (charges E evs db) (bill_run E evs db)"
proof (induction evs arbitrary: db)
  case (Cons ev evs)
  have step: "ledger_step db (charge_of E ev db) (bill_event E ev db)" by (rule event_ledger[OF Cons.prems])
  then have "money_on_scale (bill_event E ev db)" by (simp add: ledger_step_def)
  from ledger_trans[OF step Cons.IH[OF this]] show ?case by simp
qed (simp add: ledger_refl)

text \<open>
  C2. Usage is charged at most once, and exactly: over any sequence of billing attempts
  and archivings, with statements failing, commits failing and commit replies lost, the
  charged requests have distinct ids, none of them was claimed before, every claim is
  kept for ever, each user's balance has gone down by exactly the sum of the (quantised)
  costs of the charged requests, and each key's used quota up by exactly theirs.
\<close>

theorem usage_charged_at_most_once:
  assumes "money_on_scale db"
  shows "distinct (map claim_key (charges E evs db)) \<and>
     (\<forall>c\<in>set (charges E evs db). \<not> claimed db (RequestID c) (APIKeyID c) \<and> claimed (bill_run E evs db) (RequestID c) (APIKeyID c)) \<and>
     (\<forall>r k. claimed db r k \<longrightarrow> claimed (bill_run E evs db) r k) \<and>
     (\<forall>u. balance_of (bill_run E evs db) u =
        map_option (\<lambda>b. b - (\<Sum>c\<leftarrow>charges E evs db. balance_charge u c)) (balance_of db u)) \<and>
     (\<forall>k. key_used (bill_run E evs db) k =
        map_option (\<lambda>b. b + (\<Sum>c\<leftarrow>charges E evs db. key_charge k c)) (key_used db k))"
  using run_ledger[OF assms, of E evs] by (simp add: ledger_step_def)

section \<open>Answers\<close>

lemma transact_claim_answer:
  assumes "transact fs cm (claimed_tx now rid key fp repeated effects wrap) db = (Inr a, db')"
  shows "(\<exists>b fs1 fs2. \<not> claimed db rid key \<and> cm = Committed \<and> a = wrap b \<and>
        effects (claim_row now rid key fp db, fs1) = (Inr b, (db', fs2))) \<or>
     (db' = db \<and> a = repeated \<and> (\<exists>f. claim_fingerprint db rid key = Some f \<and> trim_space f = trim_space fp))"
proof -
  obtain applied db1 fs1 where claim: "claimUsageBillingRequest now rid key fp (db, tl fs) = (Inr applied, (db1, fs1))"
    and rest: "if applied then \<exists>b fs2. effects (db1, fs1) = (Inr b, (db', fs2)) \<and> cm = Committed \<and> a = wrap b
      else db' = db \<and> a = repeated"
    using assms
    by (auto simp: transact_def claimed_tx_def bindT_Inr stmt_Inr split: prod.splits sum.splits if_splits commit.splits) 
  show ?thesis
    using claim_Inr[OF claim] claim_answer[OF claim] rest by (auto split: if_splits simp: claimed_fingerprint)
qed

definition returns :: "'a tx \<Rightarrow> ('a \<Rightarrow> bool) \<Rightarrow> bool" where
  "returns p P \<longleftrightarrow> (\<forall>s a s'. p s = (Inr a, s') \<longrightarrow> P a)"

lemma returns_return [simp]: "returns (returnT a) P = P a"
  by (simp add: returns_def)

lemma returns_bind: "returns p P \<Longrightarrow> (\<And>a. P a \<Longrightarrow> returns (k a) Q) \<Longrightarrow> returns (bindT p k) Q"
  unfolding returns_def bindT_Inr by blast

lemma returns_any: "returns p (\<lambda>_. True)"
  by (simp add: returns_def)

lemma returns_if: "(b \<Longrightarrow> returns p P) \<Longrightarrow> (\<not> b \<Longrightarrow> returns q P) \<Longrightarrow> returns (if b then p else q) P"
  by simp

lemma effects_applied: 
  assumes "Applied r0"
  shows "returns (applyUsageBillingEffects E now c r0) Applied"
proof -
  have balance: "returns (if BalanceCost c > 0
      then bindT (deductUsageBillingBalance (UserID c) (BalanceCost c)) (\<lambda>(b, sufficient).
             returnT (r0\<lparr>NewBalance := Some b, BalanceOverdrafted := \<not> sufficient\<rparr>))
      else returnT r0) Applied"
    by (intro returns_if returns_bind[OF returns_any]) (auto simp: assms split: prod.split)
  have quota: "returns (if APIKeyQuotaCost c > 0
      then bindT (skipT APIKeyNotFound (incrementUsageBillingAPIKeyQuota (APIKeyID c) (APIKeyQuotaCost c)))
             (\<lambda>x. returnT (r\<lparr>APIKeyQuotaExhausted := (x = Some True)\<rparr>))
      else returnT r) Applied" if "Applied r" for r
    by (intro returns_if returns_bind[OF returns_any]) (auto simp: that)
  have account: "returns (if AccountQuotaCost c > 0 \<and> AccountTypeSupportsQuota (AccountType c)
      then bindT (skipT AccountNotFound (incrementUsageBillingAccountQuota E now (AccountID c) (AccountQuotaCost c)
             (AccountQuotaHasDailyLimit c) (AccountQuotaHasWeeklyLimit c)))
        (\<lambda>st. returnT (r\<lparr>QuotaState := st\<rparr>))
      else returnT r) Applied" if "Applied r" for r
    by (intro returns_if returns_bind[OF returns_any]) (auto simp: that)
  show ?thesis unfolding applyUsageBillingEffects_def
    by (rule returns_bind[OF returns_any], rule returns_bind[where P = Applied], rule balance,
        rule returns_bind[where P = Applied], erule quota, rule returns_bind[OF returns_any], erule account)
qed

text \<open>
  C22. The answer of \<open>Apply\<close> tells the truth.  Applied: the request was unclaimed, is
  claimed now and all its effects are in.  Not applied: nothing changed and the same
  request, with the same fingerprint, was claimed before.  An error other than the
  database's leaves no trace, and a database error leaves the state as it was unless the
  reply of a commit that took effect was lost.
\<close>

theorem billing_answers_truthfully:
  assumes "Apply E now fs cm cmd db = (r, db')"
  defines "c \<equiv> Normalize E cmd"
  shows "case r of
     Inr res \<Rightarrow> if Applied res
       then \<not> claimed db (RequestID c) (APIKeyID c) \<and> claimed db' (RequestID c) (APIKeyID c) \<and>
            charge_money c (claim_row now (RequestID c) (APIKeyID c) (RequestFingerprint c) db) db'
       else db' = db \<and> (\<exists>f. claim_fingerprint db (RequestID c) (APIKeyID c) = Some f \<and>
            trim_space f = trim_space (RequestFingerprint c))
   | Inl e \<Rightarrow> db' = db \<or> e = DBError \<and> cm = CommitReplyLost"
proof (cases r)
  case (Inl e)
  show ?thesis
  proof (cases "db' = db")
    case False
    with assms Inl show ?thesis
      by (auto simp: Apply_claimed_tx Let_def dest!: transact_claimed split: if_splits commit.splits)
         (metis commit.exhaust)
  qed (simp add: Inl)
next
  case (Inr res)
  then have "transact fs cm (claimed_tx now (RequestID c) (APIKeyID c) (RequestFingerprint c) no_result
      (applyUsageBillingEffects E now c (no_result\<lparr>Applied := True\<rparr>)) (\<lambda>r. r)) db = (Inr res, db')"
    using assms(1) by (auto simp: Apply_claimed_tx c_def Let_def split: if_splits)
  from transact_claim_answer[OF this] show ?thesis
  proof (elim disjE exE conjE)
    fix b fs1 fs2
    assume *: "\<not> claimed db (RequestID c) (APIKeyID c)" "cm = Committed" "res = b"
      "applyUsageBillingEffects E now c (no_result\<lparr>Applied := True\<rparr>)
         (claim_row now (RequestID c) (APIKeyID c) (RequestFingerprint c) db, fs1) = (Inr b, (db', fs2))"
    have "returns (applyUsageBillingEffects E now c (no_result\<lparr>Applied := True\<rparr>)) Applied"
      by (rule effects_applied) simp
    then have "Applied res" using *(4) unfolding returns_def *(3) by blast
    moreover have money: "charge_money c (claim_row now (RequestID c) (APIKeyID c) (RequestFingerprint c) db) db'"
      by (rule effectD[OF effects_money *(4)])
    moreover have "claimed db' (RequestID c) (APIKeyID c)"
      using money claim_row_claims[of now "RequestID c" "APIKeyID c" "RequestFingerprint c" db]
      by (simp add: charge_money_def claimed_def)
    ultimately show ?thesis using *(1) Inr by simp
  qed (use Inr in \<open>auto simp: no_result_def\<close>)
qed

section \<open>Examples\<close>

text \<open>A database and an environment to evaluate on: user 1 owns key 5.\<close>

definition plain_pg :: pg where
  "plain_pg = \<lparr>pg_num = (\<lambda>_. Some 0), pg_num_text = (\<lambda>_. []), pg_int = (\<lambda>_. Some 0), pg_ts = (\<lambda>_. Some 0),
     pg_text_us = (\<lambda>_. []), pg_text_s = (\<lambda>_. []), pg_local = (\<lambda>_ t. Some t), pg_instant = (\<lambda>_ t. Some t)\<rparr>"

definition plain_billing :: billing_env where
  "plain_billing = \<lparr>be_pg = plain_pg, be_sha = (\<lambda>t. t), be_print10 = (\<lambda>_. []), be_day_start = (\<lambda>t. t)\<rparr>"

definition plain_bill_db :: "rat \<Rightarrow> rat \<Rightarrow> bill_db" where
  "plain_bill_db b f = \<lparr>users = [1 \<mapsto> \<lparr>u_balance = b, u_frozen = f\<rparr>], subscriptions = (\<lambda>_. None),
     groups_alive = (\<lambda>_. True),
     api_keys = [5 \<mapsto> \<lparr>k_quota = 10, k_used = 0, k_status = StatusAPIKeyActive, k_usage_5h = 0, k_usage_1d = 0,
       k_usage_7d = 0, k_start_5h = None, k_start_1d = None, k_start_7d = None\<rparr>],
     account_extras = (\<lambda>_. None), dedup = [], dedup_archive = [], outbox = []\<rparr>"

definition plain_usage :: UsageBillingCommand where
  "plain_usage = \<lparr>RequestID = [32, 97], APIKeyID = 5, RequestFingerprint = [102], RequestPayloadHash = [], UserID = 1,
     AccountID = 2, SubscriptionID = None, AccountType = ''oauth'', Model = [], ServiceTier = [], ReasoningEffort = [],
     BillingType = 0, InputTokens = 10, OutputTokens = 5, CacheCreationTokens = 0, CacheReadTokens = 0, ImageCount = 0,
     MediaType = [], BalanceCost = 78125 / 10 ^ 9, SubscriptionCost = 0, APIKeyQuotaCost = 78125 / 10 ^ 9,
     APIKeyRateLimitCost = 0, AccountQuotaCost = 0, AccountQuotaHasDailyLimit = False, AccountQuotaHasWeeklyLimit = False\<rparr>"

lemmas usage_eval = Apply_def Normalize_def quantizeMonetaryFields_def QuantizeUsageBillingAmount_def
  UsageBillingMonetaryScale_def nround_def plain_usage_def Let_def transact_def claimUsageBillingRequest_def run_tx
  trim_space_def is_space_def dedup_find_def plain_bill_db_def applyUsageBillingEffects_def deductUsageBillingBalance_def
  incrementUsageBillingAPIKeyQuota_def skipT_def catchT_def no_result_def

lemma plain_on_scale: "money_on_scale (plain_bill_db 3 0)"
  using on_scale_of_int[of 8 300000000]
  by (auto simp: money_on_scale_def balance_of_def key_used_def plain_bill_db_def split: if_splits)

lemma usage_charged_at_most_once_witness:
  "let evs = [EApply 7 [] CommitReplyLost plain_usage, EApply 8 [] Committed plain_usage]
   in distinct (map claim_key (charges plain_billing evs (plain_bill_db 3 0))) \<and>
      balance_of (bill_run plain_billing evs (plain_bill_db 3 0)) 1 =
        map_option (\<lambda>b. b - (\<Sum>c\<leftarrow>charges plain_billing evs (plain_bill_db 3 0). balance_charge 1 c))
          (balance_of (plain_bill_db 3 0) 1)"
  using usage_charged_at_most_once[OF plain_on_scale] unfolding Let_def by blast

lemma billing_answers_truthfully_witness:
  "claimed (snd (Apply plain_billing 7 [] Committed plain_usage (plain_bill_db 3 0))) [97] 5"
proof -
  have run: "fst (Apply plain_billing 7 [] Committed plain_usage (plain_bill_db 3 0)) =
      Inr \<lparr>Applied = True, APIKeyQuotaExhausted = False, NewBalance = Some (299992187 / 10 ^ 8),
        BalanceOverdrafted = False, QuotaState = None\<rparr>"
    by (simp add: usage_eval floor_eq_iff)
  have id: "RequestID (Normalize plain_billing plain_usage) = [97]" "APIKeyID (Normalize plain_billing plain_usage) = 5"
    by (simp_all add: Normalize_def quantizeMonetaryFields_def plain_usage_def trim_space_def is_space_def Let_def)
  obtain db' where app: "Apply plain_billing 7 [] Committed plain_usage (plain_bill_db 3 0) =
      (Inr \<lparr>Applied = True, APIKeyQuotaExhausted = False, NewBalance = Some (299992187 / 10 ^ 8),
        BalanceOverdrafted = False, QuotaState = None\<rparr>, db')"
    using run by (metis prod.collapse)
  from billing_answers_truthfully[OF app] show ?thesis by (simp add: app id)
qed

end
