(* ===== verification/Hold_Properties.thy ===== *)
theory Hold_Properties
  imports Billing_Properties
begin

text \<open>
  Holds of batch image jobs: a reserve, capture or release moves money between the
  balance and the frozen balance of its user and nothing else, provided the amounts have
  no more than eight digits; and the crossing of an API key's quota.
\<close>

section \<open>Wallets\<close>

definition wallet :: "bill_db \<Rightarrow> id \<Rightarrow> rat option" where
  "wallet db u = map_option (\<lambda>r. u_balance r + u_frozen r) (users db u)"

definition wallets_ok :: "bill_db \<Rightarrow> bool" where
  "wallets_ok db \<longleftrightarrow> (\<forall>u r. users db u = Some r \<longrightarrow> on_scale 8 (u_balance r) \<and> on_scale 8 (u_frozen r) \<and> 0 \<le> u_frozen r)"

definition spend :: "id \<Rightarrow> rat \<Rightarrow> bill_db \<Rightarrow> bill_db \<Rightarrow> bool" where
  "spend user amount db db' \<longleftrightarrow>
     (\<forall>u. wallet db' u = (if u = user then map_option (\<lambda>w. w - amount) (wallet db u) else wallet db u))"

lemma spend_none: "users db' = users db \<Longrightarrow> spend user 0 db db'"
  by (auto simp: spend_def wallet_def option.map_comp o_def)

lemma update_user_Inr:
  assumes "update_user user cond upd refused (db, fs) = (Inr a, (db', fs'))"
  shows "\<exists>u. users db user = Some u \<and> cond u \<and> users db' = (users db)(user \<mapsto> upd u)"
  using assms by (auto simp: update_user_def bindT_Inr stmt_Inr split: option.splits if_splits)

lemma hold_exists_Inr:
  "batchImageHoldClaimExists rid key (db, fs) = (Inr b, (db', fs')) \<Longrightarrow> db' = db \<and> b = claimed db rid key"
  by (auto simp: batchImageHoldClaimExists_def bindT_Inr stmt_Inr claimed_def split: if_splits)

lemma update_wallet:
  assumes "users db user = Some u" and "users db' = (users db)(user \<mapsto> u')"
    and "wallets_ok db" and "on_scale 8 (u_balance u')" "on_scale 8 (u_frozen u')" "0 \<le> u_frozen u'"
    and "u_balance u' + u_frozen u' = u_balance u + u_frozen u - amount"
  shows "wallets_ok db' \<and> spend user amount db db'"
  using assms by (auto simp: wallets_ok_def spend_def wallet_def)

definition moves_money :: "id \<Rightarrow> rat \<Rightarrow> 'a tx \<Rightarrow> bool" where
  "moves_money user amount p \<longleftrightarrow>
     (\<forall>db fs a db' fs'. wallets_ok db \<longrightarrow> p (db, fs) = (Inr a, (db', fs')) \<longrightarrow>
        wallets_ok db' \<and> (spend user amount db db' \<or> users db' = users db))"

lemma reserve_moves:
  assumes "on_scale 8 (HoldAmount c)"
  shows "moves_money (h_UserID c) 0 (reserveUsageBillingBatchImageBalance c)"
  unfolding moves_money_def
proof (intro allI impI)
  fix db fs a db' fs'
  assume ok: "wallets_ok db" and run: "reserveUsageBillingBatchImageBalance c (db, fs) = (Inr a, (db', fs'))"
  show "wallets_ok db' \<and> (spend (h_UserID c) 0 db db' \<or> users db' = users db)"
  proof (cases "HoldAmount c \<le> 0")
    case False
    with run obtain u where u: "users db (h_UserID c) = Some u" "users db' = (users db)(h_UserID c \<mapsto>
        u\<lparr>u_balance := nround 8 (u_balance u - HoldAmount c), u_frozen := nround 8 (u_frozen u + HoldAmount c)\<rparr>)"
      by (auto simp: reserveUsageBillingBatchImageBalance_def dest: update_user_Inr)
    with ok have s: "on_scale 8 (u_balance u)" "on_scale 8 (u_frozen u)" "0 \<le> u_frozen u" by (auto simp: wallets_ok_def)
    have "wallets_ok db' \<and> spend (h_UserID c) 0 db db'"
      using False s assms
      by (intro update_wallet[OF u ok]) (auto simp: nround_exact on_scale_add on_scale_diff)
    then show ?thesis by blast
  qed (use run ok in \<open>auto simp: reserveUsageBillingBatchImageBalance_def\<close>)
qed

lemma capture_moves:
  assumes "on_scale 8 (HoldAmount c)" and "on_scale 8 (ActualAmount c)"
  shows "moves_money (h_UserID c) (ActualAmount c) (captureUsageBillingBatchImageBalance c)"
  unfolding moves_money_def
proof (intro allI impI)
  fix db fs a db' fs'
  assume ok: "wallets_ok db" and run: "captureUsageBillingBatchImageBalance c (db, fs) = (Inr a, (db', fs'))"
  let ?b = "\<lambda>u. u_balance u + (if HoldAmount c > ActualAmount c then HoldAmount c - ActualAmount c else 0)
     - (if ActualAmount c > HoldAmount c then ActualAmount c - HoldAmount c else 0)"
  show "wallets_ok db' \<and> (spend (h_UserID c) (ActualAmount c) db db' \<or> users db' = users db)"
  proof (cases "HoldAmount c \<le> 0 \<and> ActualAmount c \<le> 0 \<or> ActualAmount c - HoldAmount c > 1 / 10 ^ 8")
    case False
    with run obtain u where u: "users db (h_UserID c) = Some u" "u_frozen u \<ge> HoldAmount c"
      "users db' = (users db)(h_UserID c \<mapsto> u\<lparr>u_balance := nround 8 (?b u), u_frozen := nround 8 (u_frozen u - HoldAmount c)\<rparr>)"
      by (auto simp: captureUsageBillingBatchImageBalance_def dest!: update_user_Inr)
    with ok have s: "on_scale 8 (u_balance u)" "on_scale 8 (u_frozen u)" by (auto simp: wallets_ok_def)
    have b: "on_scale 8 (?b u)" using s assms by (auto intro!: on_scale_add on_scale_diff)
    have f: "on_scale 8 (u_frozen u - HoldAmount c)" using s assms by (intro on_scale_diff)
    have "wallets_ok db' \<and> spend (h_UserID c) (ActualAmount c) db db'"
      using u(2) b f by (intro update_wallet[OF u(1,3) ok]) (auto simp: nround_exact[OF b] nround_exact[OF f])
    then show ?thesis by blast
  qed (use run ok in \<open>auto simp: captureUsageBillingBatchImageBalance_def split: if_splits\<close>)
qed

lemma release_moves:
  assumes "on_scale 8 (HoldAmount c)"
  shows "moves_money (h_UserID c) 0 (releaseUsageBillingBatchImageBalance c)"
  unfolding moves_money_def
proof (intro allI impI)
  fix db fs a db' fs'
  assume ok: "wallets_ok db" and run: "releaseUsageBillingBatchImageBalance c (db, fs) = (Inr a, (db', fs'))"
  show "wallets_ok db' \<and> (spend (h_UserID c) 0 db db' \<or> users db' = users db)"
  proof (cases "users db' = users db")
    case True
    with ok show ?thesis by (simp add: wallets_ok_def)
  next
    case False
    with run obtain u where u: "users db (h_UserID c) = Some u" "u_frozen u \<ge> HoldAmount c" "users db' = (users db)(h_UserID c \<mapsto>
        u\<lparr>u_balance := nround 8 (u_balance u + HoldAmount c), u_frozen := nround 8 (u_frozen u - HoldAmount c)\<rparr>)"
      by (auto simp: releaseUsageBillingBatchImageBalance_def bindT_Inr dest!: update_user_Inr hold_exists_Inr split: if_splits)
    with ok have s: "on_scale 8 (u_balance u)" "on_scale 8 (u_frozen u)" by (auto simp: wallets_ok_def)
    have "wallets_ok db' \<and> spend (h_UserID c) 0 db db'"
      using u(2) s assms by (intro update_wallet[OF u(1,3) ok]) (auto simp: nround_exact on_scale_add on_scale_diff)
    then show ?thesis by blast
  qed
qed

lemma hold_claimed_tx:
  "applyBatchImageBalanceHold E now fs cm ap cmd db =
     (let c = NormalizeHold E cmd
      in if h_RequestID c = [] then (Inl RequestIDRequired, db)
         else transact fs cm (claimed_tx now (h_RequestID c) (h_APIKeyID c) (h_RequestFingerprint c) no_hold_result
                (ap c) (\<lambda>r. r\<lparr>h_Applied := True\<rparr>)) db)"
  by (simp add: applyBatchImageBalanceHold_def claimed_tx_def Let_def)

lemma normalize_hold [simp]:
  "h_UserID (NormalizeHold E c) = h_UserID c" "HoldAmount (NormalizeHold E c) = HoldAmount c"
  "ActualAmount (NormalizeHold E c) = ActualAmount c" "h_APIKeyID (NormalizeHold E c) = h_APIKeyID c"
  by (simp_all add: NormalizeHold_def Let_def)

lemma spend_claim_row: "spend user amount (claim_row now rid key fp db) db' = spend user amount db db'"
  by (simp add: spend_def wallet_def claim_row_def)

lemma users_claim_row: "users (claim_row now rid key fp db) = users db"
  by (simp add: claim_row_def)

lemma hold_moves:
  assumes "applyBatchImageBalanceHold E now fs cm ap cmd db = (r, db')" and "wallets_ok db"
    and "moves_money (h_UserID cmd) amount (ap (NormalizeHold E cmd))"
  shows "wallets_ok db' \<and> (spend (h_UserID cmd) amount db db' \<or> users db' = users db) \<and>
     (db' \<noteq> db \<longrightarrow> \<not> claimed db (h_RequestID (NormalizeHold E cmd)) (h_APIKeyID cmd))"
proof (cases "db' = db \<or> h_RequestID (NormalizeHold E cmd) = []")
  case False
  let ?c = "NormalizeHold E cmd"
  let ?db = "claim_row now (h_RequestID ?c) (h_APIKeyID ?c) (h_RequestFingerprint ?c) db"
  from False assms(1) obtain fs1 b fs2 where fresh: "\<not> claimed db (h_RequestID ?c) (h_APIKeyID ?c)"
    and run: "ap ?c (?db, fs1) = (Inr b, (db', fs2))"
    by (auto simp: hold_claimed_tx Let_def dest!: transact_claimed)
  have "wallets_ok ?db" using assms(2) by (simp add: wallets_ok_def claim_row_def)
  with run assms(3) have "wallets_ok db' \<and> (spend (h_UserID cmd) amount ?db db' \<or> users db' = users ?db)"
    unfolding moves_money_def by blast
  with fresh show ?thesis by (auto simp: spend_claim_row users_claim_row)
qed (use assms in \<open>auto simp: hold_claimed_tx Let_def\<close>)

text \<open>
  C5. Holds conserve money.  With amounts of at most eight digits, whatever statement or
  commit fails, a reserve and a release leave the sum of a user's balance and frozen
  balance as it was, a capture lowers it by exactly the actual cost or not at all, no other user
  is touched, the frozen balance never becomes negative, and an operation whose request
  id was claimed before changes nothing.
\<close>

theorem holds_conserve_money:
  assumes "wallets_ok db" and "on_scale 8 (HoldAmount cmd)" and "on_scale 8 (ActualAmount cmd)"
    and "op \<in> {(ReserveBatchImageBalance, 0), (CaptureBatchImageBalance, ActualAmount cmd), (ReleaseBatchImageBalance, 0)}"
    and "fst op E now fs cm cmd db = (r, db')"
  shows "wallets_ok db' \<and> (spend (h_UserID cmd) (snd op) db db' \<or> users db' = users db) \<and>
     (claimed db (h_RequestID (NormalizeHold E cmd)) (h_APIKeyID cmd) \<longrightarrow> db' = db)"
proof -
  let ?c = "NormalizeHold E cmd"
  have "moves_money (h_UserID cmd) 0 (reserveUsageBillingBatchImageBalance ?c)"
    "moves_money (h_UserID cmd) (ActualAmount cmd) (captureUsageBillingBatchImageBalance ?c)"
    "moves_money (h_UserID cmd) 0 (releaseUsageBillingBatchImageBalance ?c)"
    using reserve_moves[of ?c] capture_moves[of ?c] release_moves[of ?c] assms(2,3) by simp_all
  with assms(4,5) hold_moves[OF _ assms(1)] show ?thesis
    unfolding ReserveBatchImageBalance_def CaptureBatchImageBalance_def ReleaseBatchImageBalance_def
    by (elim insertE emptyE) fastforce+
qed

definition plain_hold :: "go_text \<Rightarrow> rat \<Rightarrow> rat \<Rightarrow> BatchImageBalanceHoldCommand" where
  "plain_hold rid h a = \<lparr>h_RequestID = rid, h_APIKeyID = 5, h_RequestFingerprint = [102], h_RequestPayloadHash = [],
     h_UserID = 1, h_BatchID = [98], HoldAmount = h, ActualAmount = a\<rparr>"

lemmas hold_eval = applyBatchImageBalanceHold_def NormalizeHold_def plain_hold_def Let_def transact_def
  claimUsageBillingRequest_def run_tx trim_space_def is_space_def dedup_find_def plain_bill_db_def update_user_def

lemma holds_conserve_money_witness:
  "wallets_ok (plain_bill_db 3 1) \<and>
   wallets_ok (snd (CaptureBatchImageBalance plain_billing 7 [] Committed (plain_hold [99] 1 (1 / 2)) (plain_bill_db 3 1)))"
proof -
  have s: "on_scale 8 3" "on_scale 8 1" "on_scale 8 (1 / 2)"
    using on_scale_of_int[of 8 300000000] on_scale_of_int[of 8 100000000] on_scale_of_int[of 8 50000000] by simp_all
  then have ok: "wallets_ok (plain_bill_db 3 1)" by (simp add: wallets_ok_def plain_bill_db_def)
  moreover have "wallets_ok db'"
    if "CaptureBatchImageBalance plain_billing 7 [] Committed (plain_hold [99] 1 (1 / 2)) (plain_bill_db 3 1) = (r, db')" for r db'
    using holds_conserve_money[of "plain_bill_db 3 1" "plain_hold [99] 1 (1 / 2)" "(CaptureBatchImageBalance, 1 / 2)"
        plain_billing 7 "[]" Committed r db'] ok s that
    by (simp add: plain_hold_def)
  ultimately show ?thesis by (metis prod.collapse)
qed

text \<open>
  The amounts of holds are not quantised before they reach the statements.  A hold that
  has a half in its ninth digit is rounded away on the balance and up on the frozen
  balance, so that money appears.
\<close>

lemma unquantized_hold_creates_money:
  "wallet (snd (ReserveBatchImageBalance E now [] Committed (plain_hold [99] (5 / 10 ^ 9) 0) (plain_bill_db 1 0))) 1 =
     Some (1 + 1 / 10 ^ 8)"
  by (simp add: ReserveBatchImageBalance_def hold_eval reserveUsageBillingBatchImageBalance_def nround_def wallet_def)

text \<open>
  A release asks whether the batch was ever reserved, not whether it was captured since:
  as long as the user has enough frozen by other batches, a batch that was captured is
  refunded in full.
\<close>

lemma release_ignores_capture:
  assumes "users db (h_UserID c) = Some u" and "0 < HoldAmount c" and "HoldAmount c \<le> u_frozen u"
    and "claimed db (BatchImageHoldRequestID (h_BatchID c)) (h_APIKeyID c)"
    and "claimed db (BatchImageCaptureRequestID (h_BatchID c)) (h_APIKeyID c)"
    and "trim_space (h_RequestID c) \<noteq> []" and "\<not> claimed db (trim_space (h_RequestID c)) (h_APIKeyID c)"
  shows "users (snd (ReleaseBatchImageBalance E now [] Committed c db)) (h_UserID c) =
     Some (u\<lparr>u_balance := nround 8 (u_balance u + HoldAmount c), u_frozen := nround 8 (u_frozen u - HoldAmount c)\<rparr>)"
proof -
  let ?c = "NormalizeHold E c"
  let ?db = "claim_row now (h_RequestID ?c) (h_APIKeyID ?c) (h_RequestFingerprint ?c) db"
  have ids: "h_RequestID ?c = trim_space (h_RequestID c)" "h_BatchID ?c = trim_space (h_BatchID c)"
    by (simp_all add: NormalizeHold_def Let_def)
  have held: "batchImageHoldClaimExists (BatchImageHoldRequestID (h_BatchID ?c)) (h_APIKeyID c) (?db, []) = (Inr True, (?db, []))"
    using claim_row_keeps[OF assms(4), of now "h_RequestID ?c" "h_APIKeyID ?c" "h_RequestFingerprint ?c"]
    by (auto simp: batchImageHoldClaimExists_def run_tx ids BatchImageHoldRequestID_def claimed_def simp del: normalize_hold)
  have claim: "claimUsageBillingRequest now (h_RequestID ?c) (h_APIKeyID ?c) (h_RequestFingerprint ?c) (db, []) = (Inr True, (?db, []))"
    using assms(7) by (simp add: claimUsageBillingRequest_def run_tx claimed_def ids claim_row_def)
  show ?thesis
    using assms(1-3,6) held claim
    by (simp add: ReleaseBatchImageBalance_def hold_claimed_tx Let_def transact_def claimed_tx_def bindT_def[of "claimUsageBillingRequest _ _ _ _"]
        releaseUsageBillingBatchImageBalance_def run_tx update_user_def ids users_claim_row hold_result_def)
qed

end
