(* ===== verification/Inflight.thy ===== *)
theory Inflight
  imports Redis_Net Complex_Main "HOL-Library.AList"
begin

text \<open>
  In-flight reservations of a user's balance: the Redis scripts and methods
  (\<open>repository/billing_inflight_cache.go\<close>), the admission of a request and the life of
  its reservation (\<open>service/billing_inflight_reservation.go\<close>).

  The server is what the scripts touch: sorted sets, hashes, deadlines and its clock in
  milliseconds.  \<open>fl\<close> rounds an exact result to a double and \<open>g14\<close> is Lua's print of a
  number read back; amounts are finite.  The order of a hash's fields is Redis's.
\<close>

section \<open>The server\<close>

record inflight_db =
  f_ms :: int
  f_zset :: "key \<Rightarrow> (string \<times> int) list"
  f_hash :: "key \<Rightarrow> (string \<times> rat) list"
  f_deadline :: "key \<Rightarrow> int option"

record floats =
  fl :: "rat \<Rightarrow> rat"
  g14 :: "rat \<Rightarrow> rat"

definition f_gone :: "key \<Rightarrow> inflight_db \<Rightarrow> inflight_db" where
  "f_gone k db = db\<lparr>f_zset := (f_zset db)(k := []), f_hash := (f_hash db)(k := []), f_deadline := (f_deadline db)(k := None)\<rparr>"

text \<open>A key without elements does not exist and has no deadline.\<close>

definition f_tidy :: "key \<Rightarrow> inflight_db \<Rightarrow> inflight_db" where
  "f_tidy k db = (if f_zset db k = [] \<and> f_hash db k = [] then f_gone k db else db)"

definition f_zadd :: "key \<Rightarrow> int \<Rightarrow> string \<Rightarrow> inflight_db \<Rightarrow> inflight_db" where
  "f_zadd k sc m db = db\<lparr>f_zset := (f_zset db)(k := AList.update m sc (f_zset db k))\<rparr>"

definition f_zrem :: "key \<Rightarrow> (string \<times> int \<Rightarrow> bool) \<Rightarrow> inflight_db \<Rightarrow> inflight_db" where
  "f_zrem k out db = f_tidy k (db\<lparr>f_zset := (f_zset db)(k := filter (\<lambda>p. \<not> out p) (f_zset db k))\<rparr>)"

definition f_hset :: "key \<Rightarrow> string \<Rightarrow> rat \<Rightarrow> inflight_db \<Rightarrow> inflight_db" where
  "f_hset k m v db = db\<lparr>f_hash := (f_hash db)(k := AList.update m v (f_hash db k))\<rparr>"

definition f_hdel :: "key \<Rightarrow> string list \<Rightarrow> inflight_db \<Rightarrow> inflight_db" where
  "f_hdel k ms db = f_tidy k (db\<lparr>f_hash := (f_hash db)(k := filter (\<lambda>p. fst p \<notin> set ms) (f_hash db k))\<rparr>)"

definition f_pexpire :: "key \<Rightarrow> int \<Rightarrow> inflight_db \<Rightarrow> inflight_db" where
  "f_pexpire k ttl db =
     (if f_zset db k = [] \<and> f_hash db k = [] then db
      else if ttl \<le> 0 then f_gone k db
      else db\<lparr>f_deadline := (f_deadline db)(k := Some (f_ms db + ttl))\<rparr>)"

definition f_pttl :: "key \<Rightarrow> inflight_db \<Rightarrow> int" where
  "f_pttl k db =
     (if f_zset db k = [] \<and> f_hash db k = [] then -2
      else case f_deadline db k of None \<Rightarrow> -1 | Some t \<Rightarrow> t - f_ms db)"

section \<open>The scripts\<close>

definition drop_expired :: "key \<Rightarrow> key \<Rightarrow> int \<Rightarrow> inflight_db \<Rightarrow> inflight_db" where
  "drop_expired zk hk now db =
     (let expired = map fst (filter (\<lambda>(m, sc). sc \<le> now) (f_zset db zk))
      in if expired = [] then db else f_hdel hk expired (f_zrem zk (\<lambda>(m, sc). sc \<le> now) db))"

definition inflight_sum :: "floats \<Rightarrow> key \<Rightarrow> inflight_db \<Rightarrow> rat" where
  "inflight_sum F hk db = foldl (\<lambda>sum v. fl F (sum + v)) 0 (map snd (f_hash db hk))"

definition register ::
    "key \<Rightarrow> key \<Rightarrow> int \<Rightarrow> string \<Rightarrow> rat \<Rightarrow> int \<Rightarrow> inflight_db \<Rightarrow> inflight_db" where
  "register zk hk expire_at member amount ttl db =
     f_pexpire hk ttl (f_pexpire zk ttl (f_hset hk member amount (f_zadd zk expire_at member db)))"

definition reserveInflightBalanceScript ::
    "floats \<Rightarrow> key \<Rightarrow> key \<Rightarrow> int \<Rightarrow> int \<Rightarrow> string \<Rightarrow> rat \<Rightarrow> rat \<Rightarrow> int \<Rightarrow> inflight_db \<Rightarrow> (bool \<times> rat) \<times> inflight_db" where
  "reserveInflightBalanceScript F zk hk now expire_at member amount balance ttl db =
     (let db = drop_expired zk hk now db;
          sum = inflight_sum F hk db;
          count = int (length (f_zset db zk))
      in if count > 0 \<and> fl F (balance - sum) < amount then ((False, g14 F sum), db)
         else ((True, g14 F sum), register zk hk expire_at member amount ttl db))"

definition renewInflightBalanceScript ::
    "key \<Rightarrow> key \<Rightarrow> string \<Rightarrow> int \<Rightarrow> int \<Rightarrow> int \<Rightarrow> inflight_db \<Rightarrow> bool \<times> inflight_db" where
  "renewInflightBalanceScript zk hk member expire_at ttl now db =
     (case map_of (f_zset db zk) member of
        None \<Rightarrow> (False, db)
      | Some score \<Rightarrow>
          if score \<le> now then (False, f_hdel hk [member] (f_zrem zk (\<lambda>p. fst p = member) db))
          else (let db = f_zadd zk expire_at member db;
                    db = (if f_pttl zk db < ttl then f_pexpire zk ttl db else db);
                    db = (if f_pttl hk db < ttl then f_pexpire hk ttl db else db)
                in (True, db)))"

definition releaseInflightBalanceScript :: "key \<Rightarrow> key \<Rightarrow> string \<Rightarrow> inflight_db \<Rightarrow> inflight_db" where
  "releaseInflightBalanceScript zk hk member db = f_hdel hk [member] (f_zrem zk (\<lambda>p. fst p = member) db)"

definition reserveInflightScopeScript ::
    "floats \<Rightarrow> key \<Rightarrow> key \<Rightarrow> int \<Rightarrow> int \<Rightarrow> string \<Rightarrow> rat \<Rightarrow> int \<Rightarrow> inflight_db \<Rightarrow> rat \<times> inflight_db" where
  "reserveInflightScopeScript F zk hk now expire_at member amount ttl db =
     (let db = drop_expired zk hk now db;
          sum = inflight_sum F hk db
      in (g14 F sum, register zk hk expire_at member amount ttl db))"

section \<open>The methods\<close>

definition billingInflightKeys :: "id \<Rightarrow> key \<times> key" where
  "billingInflightKeys user =
     (''billing:inflight:{'' @ format_int user @ ''}'', ''billing:inflight_amt:{'' @ format_int user @ ''}'')"

definition billingInflightScopeKeys :: "string \<Rightarrow> key \<times> key" where
  "billingInflightScopeKeys scope =
     (''billing:inflight_scope:{'' @ scope @ ''}'', ''billing:inflight_scope_amt:{'' @ scope @ ''}'')"

definition ttl_ms :: "int \<Rightarrow> int" where
  "ttl_ms ttl = (if ttl \<le> 0 then 1 else ttl)"

text \<open>\<open>now\<close> is the process's clock and \<open>ttl\<close> a duration, both in milliseconds.\<close>

definition ReserveInflightBalance ::
    "floats \<Rightarrow> int \<Rightarrow> id \<Rightarrow> string \<Rightarrow> rat \<Rightarrow> rat \<Rightarrow> int \<Rightarrow> (inflight_db, bool \<times> rat) prog" where
  "ReserveInflightBalance F now user requestID amount balance ttl =
     (case billingInflightKeys user of (zk, hk) \<Rightarrow>
      round_trip (reserveInflightBalanceScript F zk hk now (now + ttl_ms ttl) requestID amount balance (ttl_ms ttl)))"

definition ReleaseInflightBalance :: "id \<Rightarrow> string \<Rightarrow> (inflight_db, unit) prog" where
  "ReleaseInflightBalance user requestID =
     (case billingInflightKeys user of (zk, hk) \<Rightarrow> update (releaseInflightBalanceScript zk hk requestID))"

definition RenewInflightBalance :: "int \<Rightarrow> id \<Rightarrow> string \<Rightarrow> int \<Rightarrow> (inflight_db, bool) prog" where
  "RenewInflightBalance now user requestID ttl =
     (case billingInflightKeys user of (zk, hk) \<Rightarrow>
      round_trip (renewInflightBalanceScript zk hk requestID (now + ttl_ms ttl) (ttl_ms ttl) now))"

definition ReserveInflightScope ::
    "floats \<Rightarrow> int \<Rightarrow> string \<Rightarrow> string \<Rightarrow> rat \<Rightarrow> int \<Rightarrow> (inflight_db, rat) prog" where
  "ReserveInflightScope F now scope requestID amount ttl =
     (case billingInflightScopeKeys scope of (zk, hk) \<Rightarrow>
      round_trip (reserveInflightScopeScript F zk hk now (now + ttl_ms ttl) requestID amount (ttl_ms ttl)))"

definition ReleaseInflightScope :: "string \<Rightarrow> string \<Rightarrow> (inflight_db, unit) prog" where
  "ReleaseInflightScope scope requestID =
     (case billingInflightScopeKeys scope of (zk, hk) \<Rightarrow> update (releaseInflightBalanceScript zk hk requestID))"

section \<open>Admission\<close>

record InflightReservationConfig =
  ic_enabled :: bool
  ic_simple_mode :: bool
  ic_max :: rat
  ic_ttl_seconds :: int

definition defaultInflightReservationTTL :: int where "defaultInflightReservationTTL = 15 * 60 * 1000"

definition inflightReservationConfig :: "InflightReservationConfig option \<Rightarrow> InflightReservationConfig option" where
  "inflightReservationConfig cfg =
     (case cfg of None \<Rightarrow> None | Some c \<Rightarrow> if \<not> ic_enabled c \<or> ic_simple_mode c then None else Some c)"

definition reservation_ttl :: "InflightReservationConfig \<Rightarrow> int" where
  "reservation_ttl c = (if ic_ttl_seconds c > 0 then ic_ttl_seconds c * 1000 else defaultInflightReservationTTL)"

text \<open>A reservation: its user, request id, amount, lifetime, and the scopes it is registered in.\<close>

record reservation =
  rv_balance :: bool
  rv_user :: id
  rv_request :: string
  rv_amount :: rat
  rv_ttl :: int
  rv_scopes :: "string list"

text \<open>
  \<open>reserveInflight\<close>: \<open>user\<close> is None for a nil user, \<open>on_subscription\<close> says that the group
  bills a subscription, \<open>get_balance\<close> is the balance cache.  \<open>Inl\<close> is the refusal.
\<close>

definition reserveInflight ::
    "floats \<Rightarrow> InflightReservationConfig option \<Rightarrow> (id \<Rightarrow> (inflight_db, rat) prog) \<Rightarrow> int \<Rightarrow> string \<Rightarrow> id option \<Rightarrow> bool \<Rightarrow>
     rat \<Rightarrow> bool \<Rightarrow> (inflight_db, reservation option) prog" where
  "reserveInflight F cfg get_balance now requestID user on_subscription estimate capped =
     (case (inflightReservationConfig cfg, user) of
        (Some c, Some u) \<Rightarrow>
          if on_subscription then returnW None
          else (let estimate = (if capped \<and> ic_max c > 0 \<and> estimate > ic_max c then ic_max c else estimate)
                in if estimate \<le> 0 then returnW None
                   else bindW (catchW (get_balance u)) (\<lambda>b. case b of
                      Inl _ \<Rightarrow> returnW None
                    | Inr balance \<Rightarrow>
                        bindW (catchW (ReserveInflightBalance F now u requestID estimate balance (reservation_ttl c)))
                          (\<lambda>r. case r of
                             Inl _ \<Rightarrow> returnW None
                           | Inr (allowed, _) \<Rightarrow>
                               if \<not> allowed then failW ErrDenied
                               else returnW (Some \<lparr>rv_balance = True, rv_user = u, rv_request = requestID,
                                 rv_amount = estimate, rv_ttl = reservation_ttl c, rv_scopes = []\<rparr>))))
      | _ \<Rightarrow> returnW None)"

definition inflightSubscriptionScope :: "id \<Rightarrow> string" where
  "inflightSubscriptionScope i = ''sub:'' @ format_int i"
definition inflightAPIKeyScope :: "id \<Rightarrow> string" where
  "inflightAPIKeyScope i = ''apikey:'' @ format_int i"

definition reserveInflightScope ::
    "floats \<Rightarrow> InflightReservationConfig option \<Rightarrow> int \<Rightarrow> string \<Rightarrow> reservation option \<Rightarrow> id \<Rightarrow> string \<Rightarrow> rat \<Rightarrow>
     (inflight_db, reservation option \<times> rat) prog" where
  "reserveInflightScope F cfg now fresh_id res user scope amount =
     (case inflightReservationConfig cfg of
        None \<Rightarrow> returnW (res, 0)
      | Some c \<Rightarrow>
          (let r = (case res of Some r \<Rightarrow> r
                    | None \<Rightarrow> \<lparr>rv_balance = False, rv_user = user, rv_request = fresh_id, rv_amount = amount,
                               rv_ttl = reservation_ttl c, rv_scopes = []\<rparr>)
           in bindW (catchW (ReserveInflightScope F now scope (rv_request r) amount (rv_ttl r))) (\<lambda>p. case p of
                Inl _ \<Rightarrow> returnW (Some r, 0)
              | Inr pending \<Rightarrow> returnW (Some (r\<lparr>rv_scopes := rv_scopes r @ [scope]\<rparr>), pending))))"

text \<open>What \<open>Release\<close> sends once; errors are logged.\<close>

fun release_scopes :: "string \<Rightarrow> string list \<Rightarrow> (inflight_db, unit) prog" where
  "release_scopes requestID [] = returnW ()"
| "release_scopes requestID (s # ss) =
     bindW (tryW (ReleaseInflightScope s requestID)) (\<lambda>_. release_scopes requestID ss)"

definition release_calls :: "reservation \<Rightarrow> (inflight_db, unit) prog" where
  "release_calls r =
     bindW (if rv_balance r then tryW (ReleaseInflightBalance (rv_user r) (rv_request r)) else returnW ())
       (\<lambda>_. release_scopes (rv_request r) (rv_scopes r))"

end
