(* ===== verification/Inflight_Handle.thy ===== *)
theory Inflight_Handle
  imports Inflight "HOL-Library.Multiset"
begin

text \<open>
  The life of an \<open>InflightReservation\<close> as a concurrent system: the handler, any number
  of billing tasks, the renewal goroutine and any number of direct calls of the exported
  \<open>Release\<close>, each step one atomic operation of the code on \<open>refs\<close>, the once flags and
  the channels.  \<open>calls\<close> is the history of what was sent to Redis, \<open>direct\<close> the number of
  direct calls of \<open>Release\<close> that have not returned yet.
\<close>

datatype call = Renew | Release

text \<open>
  A task in \<open>Acquire\<close> before its load, between load and swap, holding a reference, in
  \<open>Release\<close> after the last decrement, finished (also with the no-op function).
\<close>

datatype task = TStart | TLoaded int | THolding | TReleasing | TDone

datatype handler = HRunning | HStopping | HReleasing | HDone

record handle =
  refs :: int
  stopRenew_closed :: bool
  renewing :: bool
  released :: bool
  handler :: handler
  tasks :: "task list"
  direct :: nat
  calls :: "call list"

text \<open>
  A fresh reservation: \<open>renew\<close> says whether a renewal goroutine was started, \<open>n\<close> how many
  tasks and \<open>d\<close> how many direct calls of \<open>Release\<close> there will be.  \<open>ReserveInflightBalance\<close>
  hands \<open>Release\<close> to its caller and \<open>ReserveFixedCharge\<close> calls it when a later check fails.
\<close>

definition fresh_handle :: "bool \<Rightarrow> nat \<Rightarrow> nat \<Rightarrow> handle" where
  "fresh_handle renew n d = \<lparr>refs = 1, stopRenew_closed = False, renewing = renew, released = False,
     handler = HRunning, tasks = replicate n TStart, direct = d, calls = []\<rparr>"

definition set_task :: "nat \<Rightarrow> task \<Rightarrow> handle \<Rightarrow> handle" where
  "set_task i t s = s\<lparr>tasks := (tasks s)[i := t]\<rparr>"

text \<open>The guarded part of \<open>Release\<close>.\<close>

definition release_once :: "handle \<Rightarrow> handle" where
  "release_once s = (if released s then s else s\<lparr>released := True, refs := 0, calls := calls s @ [Release]\<rparr>)"

inductive handle_step :: "handle \<Rightarrow> handle \<Rightarrow> bool" where
  acquire_load: "i < length (tasks s) \<Longrightarrow> tasks s ! i = TStart \<Longrightarrow>
    handle_step s (set_task i (TLoaded (refs s)) s)"
| acquire_none: "i < length (tasks s) \<Longrightarrow> tasks s ! i = TLoaded cur \<Longrightarrow> cur \<le> 0 \<Longrightarrow>
    handle_step s (set_task i TDone s)"
| acquire_swap: "i < length (tasks s) \<Longrightarrow> tasks s ! i = TLoaded cur \<Longrightarrow> 0 < cur \<Longrightarrow> refs s = cur \<Longrightarrow>
    handle_step s (set_task i THolding (s\<lparr>refs := cur + 1\<rparr>))"
| acquire_retry: "i < length (tasks s) \<Longrightarrow> tasks s ! i = TLoaded cur \<Longrightarrow> 0 < cur \<Longrightarrow> refs s \<noteq> cur \<Longrightarrow>
    handle_step s (set_task i TStart s)"
| task_done: "i < length (tasks s) \<Longrightarrow> tasks s ! i = THolding \<Longrightarrow>
    handle_step s (set_task i (if refs s - 1 \<le> 0 then TReleasing else TDone) (s\<lparr>refs := refs s - 1\<rparr>))"
| task_stop_renewal: "i < length (tasks s) \<Longrightarrow> tasks s ! i = TReleasing \<Longrightarrow>
    handle_step s (s\<lparr>stopRenew_closed := True\<rparr>)"
| task_release: "i < length (tasks s) \<Longrightarrow> tasks s ! i = TReleasing \<Longrightarrow> \<not> renewing s \<Longrightarrow>
    handle_step s (set_task i TDone (release_once s))"
| handler_stop: "handler s = HRunning \<Longrightarrow>
    handle_step s (s\<lparr>handler := HStopping, stopRenew_closed := True\<rparr>)"
| handler_decRef: "handler s = HStopping \<Longrightarrow> \<not> renewing s \<Longrightarrow>
    handle_step s (s\<lparr>refs := refs s - 1, handler := (if refs s - 1 \<le> 0 then HReleasing else HDone)\<rparr>)"
| handler_release: "handler s = HReleasing \<Longrightarrow> \<not> renewing s \<Longrightarrow>
    handle_step s (release_once (s\<lparr>handler := HDone\<rparr>))"
| direct_stop: "0 < direct s \<Longrightarrow> handle_step s (s\<lparr>stopRenew_closed := True\<rparr>)"
| direct_release: "0 < direct s \<Longrightarrow> \<not> renewing s \<Longrightarrow>
    handle_step s (release_once (s\<lparr>direct := direct s - 1\<rparr>))"
| renew_tick: "renewing s \<Longrightarrow> handle_step s (s\<lparr>calls := calls s @ [Renew]\<rparr>)"
| renew_lost: "renewing s \<Longrightarrow> handle_step s (s\<lparr>calls := calls s @ [Renew], renewing := False\<rparr>)"
| renew_stop: "renewing s \<Longrightarrow> stopRenew_closed s \<Longrightarrow> handle_step s (s\<lparr>renewing := False\<rparr>)"

abbreviation handle_steps :: "handle \<Rightarrow> handle \<Rightarrow> bool" where
  "handle_steps \<equiv> handle_step\<^sup>*\<^sup>*"

section \<open>The invariant\<close>

abbreviation holding :: "handle \<Rightarrow> nat" where
  "holding s \<equiv> count (mset (tasks s)) THolding"

abbreviation releasing :: "handle \<Rightarrow> nat" where
  "releasing s \<equiv> count (mset (tasks s)) TReleasing + (if handler s = HReleasing then 1 else 0)"

text \<open>
  While the reservation is not released, \<open>refs\<close> counts the holders and exactly one thread
  is about to release when it is zero.  The same holds after a release by that thread; a
  direct release leaves \<open>refs\<close> at most zero, whoever still holds a reference.
\<close>

definition counted :: "handle \<Rightarrow> bool" where
  "counted s \<longleftrightarrow> refs s = int (holding s) + (if handler s \<in> {HRunning, HStopping} then 1 else 0) \<and>
     (if released s then releasing s = 0 \<and> refs s = 0 else releasing s = (if refs s = 0 then 1 else 0))"

definition handle_inv :: "nat \<Rightarrow> handle \<Rightarrow> bool" where
  "handle_inv d s \<longleftrightarrow>
     (released s \<or> direct s = d) \<and> (direct s = d \<longrightarrow> counted s) \<and>
     (released s \<longrightarrow> refs s \<le> 0 \<and> \<not> renewing s) \<and>
     (handler s \<noteq> HRunning \<longrightarrow> stopRenew_closed s) \<and>
     (handler s \<in> {HReleasing, HDone} \<longrightarrow> \<not> renewing s) \<and>
     direct s \<le> d \<and>
     (\<exists>n. calls s = replicate n Renew @ (if released s then [Release] else []))"

lemma count_set_task:
  assumes "i < length (tasks s)"
  shows "count (mset (tasks (set_task i t s))) x =
     count (mset (tasks s)) x - (if tasks s ! i = x then 1 else 0) + (if t = x then 1 else 0)"
  using assms by (simp add: set_task_def mset_update)

lemma count_pos: "i < length xs \<Longrightarrow> xs ! i = x \<Longrightarrow> 0 < count (mset xs) x"
  by (metis count_greater_zero_iff nth_mem_mset)

lemma set_task_sel [simp]:
  "refs (set_task i t s) = refs s" "stopRenew_closed (set_task i t s) = stopRenew_closed s"
  "renewing (set_task i t s) = renewing s" "released (set_task i t s) = released s"
  "handler (set_task i t s) = handler s" "direct (set_task i t s) = direct s"
  "calls (set_task i t s) = calls s"
  by (simp_all add: set_task_def)

lemma fresh_inv: "handle_inv d (fresh_handle renew n d)"
  by (auto simp: handle_inv_def counted_def fresh_handle_def)

lemma inv_renewing: "handle_inv d s \<Longrightarrow> renewing s \<Longrightarrow> \<not> released s \<and> (\<exists>n. calls s = replicate n Renew)"
  by (auto simp: handle_inv_def split: if_splits)

lemma inv_unreleased: "handle_inv d s \<Longrightarrow> \<not> released s \<Longrightarrow> direct s = d \<and> counted s"
  by (auto simp: handle_inv_def split: if_splits)

lemma step_inv: "handle_step s s' \<Longrightarrow> handle_inv d s \<Longrightarrow> handle_inv d s'"
proof (induction rule: handle_step.induct)
  case (acquire_load i s)
  then show ?case using count_pos[of i "tasks s"] by (auto simp: handle_inv_def counted_def count_set_task)
next
  case (acquire_none i s cur)
  then show ?case by (auto simp: handle_inv_def counted_def count_set_task)
next
  case (acquire_swap i s cur)
  then show ?case by (auto simp: handle_inv_def counted_def count_set_task)
next
  case (acquire_retry i s cur)
  then show ?case by (auto simp: handle_inv_def counted_def count_set_task)
next
  case (task_done i s)
  then obtain k where "holding s = Suc k" using count_pos[of i "tasks s" THolding] gr0_conv_Suc by blast
  with task_done show ?case by (auto simp: handle_inv_def counted_def count_set_task split: if_splits)
next
  case (task_stop_renewal i s)
  then show ?case by (auto simp: handle_inv_def counted_def)
next
  case (task_release i s)
  then show ?case using count_pos[of i "tasks s" TReleasing]
    by (auto simp: handle_inv_def counted_def count_set_task release_once_def split: if_splits)
next
  case (handler_release s)
  then show ?case by (auto simp: handle_inv_def counted_def release_once_def split: if_splits)
next
  case (handler_decRef s)
  then show ?case by (auto simp: handle_inv_def counted_def split: if_splits)
next
  case (direct_release s)
  then show ?case by (auto simp: handle_inv_def release_once_def split: if_splits)
next
  case (renew_tick s)
  then obtain n where "\<not> released s" "calls s = replicate n Renew" using inv_renewing by blast
  with renew_tick show ?case
    by (auto simp: handle_inv_def counted_def replicate_append_same intro!: exI[of _ "Suc n"])
next
  case (renew_lost s)
  then obtain n where "\<not> released s" "calls s = replicate n Renew" using inv_renewing by blast
  with renew_lost show ?case
    by (auto simp: handle_inv_def counted_def replicate_append_same intro!: exI[of _ "Suc n"])
qed (auto simp: handle_inv_def counted_def)

lemma steps_inv: "handle_steps s s' \<Longrightarrow> handle_inv d s \<Longrightarrow> handle_inv d s'"
  by (induction rule: rtranclp_induct) (auto dest: step_inv)

section \<open>Safety and liveness\<close>

text \<open>
  C23. In every interleaving of the handler, the billing tasks, the renewal goroutine and
  any direct calls of \<open>Release\<close>, a reservation is released at most once and nothing is
  sent to Redis after the release: no renewal can revive a released reservation, and no
  task takes a reference on it any more.  As long as no direct call of \<open>Release\<close> has
  returned, it is released only after the handler is done and while no task holds a
  reference; a direct call releases whatever the reference count.
\<close>

theorem reservation_released_once_and_last:
  assumes "handle_steps (fresh_handle renew n d) s"
  shows "(\<exists>m. calls s = replicate m Renew @ (if released s then [Release] else [])) \<and>
     (released s \<longrightarrow> refs s \<le> 0 \<and> \<not> renewing s) \<and>
     (released s \<and> direct s = d \<longrightarrow> handler s = HDone \<and> THolding \<notin> set (tasks s) \<and> refs s = 0) \<and>
     (direct s < d \<longrightarrow> released s)"
proof -
  have inv: "handle_inv d s" by (rule steps_inv[OF assms fresh_inv])
  moreover have "handler s = HDone \<and> holding s = 0 \<and> refs s = 0" if "released s" "direct s = d"
    using inv that by (cases "handler s") (auto simp: handle_inv_def counted_def)
  ultimately show ?thesis by (auto simp: handle_inv_def)
qed

text \<open>
  A run: the goroutine renews once, a task takes its reference, the handler ends, the task
  bills and releases; a second caller of \<open>Release\<close> has not run.
\<close>

definition last_ref :: handle where
  "last_ref = \<lparr>refs = 1, stopRenew_closed = True, renewing = False, released = False,
     handler = HDone, tasks = [THolding], direct = 1, calls = [Renew]\<rparr>"

lemma last_ref_reached: "handle_steps (fresh_handle True 1 1) last_ref"
proof -
  let ?s = "\<lambda>r c w h t. \<lparr>refs = r, stopRenew_closed = c, renewing = w, released = False, handler = h,
     tasks = [t], direct = 1, calls = [Renew]\<rparr>"
  have a: "handle_step (fresh_handle True 1 1) (?s 1 False True HRunning TStart)"
    using handle_step.renew_tick[of "fresh_handle True 1 1"] by (simp add: fresh_handle_def)
  have b: "handle_step (?s 1 False True HRunning TStart) (?s 1 False True HRunning (TLoaded 1))"
    using handle_step.acquire_load[of 0 "?s 1 False True HRunning TStart"] by (simp add: set_task_def)
  have c: "handle_step (?s 1 False True HRunning (TLoaded 1)) (?s 2 False True HRunning THolding)"
    using handle_step.acquire_swap[of 0 "?s 1 False True HRunning (TLoaded 1)" 1] by (simp add: set_task_def)
  have d: "handle_step (?s 2 False True HRunning THolding) (?s 2 True True HStopping THolding)"
    using handle_step.handler_stop[of "?s 2 False True HRunning THolding"] by simp
  have e: "handle_step (?s 2 True True HStopping THolding) (?s 2 True False HStopping THolding)"
    using handle_step.renew_stop[of "?s 2 True True HStopping THolding"] by simp
  have f: "handle_step (?s 2 True False HStopping THolding) last_ref"
    using handle_step.handler_decRef[of "?s 2 True False HStopping THolding"] by (simp add: last_ref_def)
  note step = converse_rtranclp_into_rtranclp[of handle_step]
  show ?thesis
    by (intro step[OF a] step[OF b] step[OF c] step[OF d] step[OF e] r_into_rtranclp[of handle_step, OF f])
qed

lemma last_ref_released:
  assumes "handle_steps s0 last_ref"
  shows "handle_steps s0 (last_ref\<lparr>refs := 0, released := True, tasks := [TDone], calls := [Renew, Release]\<rparr>)"
proof -
  let ?s = "last_ref\<lparr>refs := 0, tasks := [TReleasing]\<rparr>"
  have a: "handle_step last_ref ?s"
    using handle_step.task_done[of 0 last_ref] by (simp add: last_ref_def set_task_def)
  have b: "handle_step ?s (last_ref\<lparr>refs := 0, released := True, tasks := [TDone], calls := [Renew, Release]\<rparr>)"
    using handle_step.task_release[of 0 ?s] by (simp add: last_ref_def set_task_def release_once_def)
  show ?thesis
    by (rule rtranclp.rtrancl_into_rtrancl[of handle_step, OF rtranclp.rtrancl_into_rtrancl[of handle_step, OF assms a] b])
qed

lemma reservation_released_once_and_last_witness:
  "\<exists>s. handle_steps (fresh_handle True 1 1) s \<and> released s \<and> direct s = 1 \<and> calls s = [Renew, Release] \<and>
     handler s = HDone \<and> THolding \<notin> set (tasks s) \<and> refs s = 0"
proof -
  let ?s = "last_ref\<lparr>refs := 0, released := True, tasks := [TDone], calls := [Renew, Release]\<rparr>"
  have run: "handle_steps (fresh_handle True 1 1) ?s" by (rule last_ref_released[OF last_ref_reached])
  have "released ?s" "direct ?s = 1" "calls ?s = [Renew, Release]" by (simp_all add: last_ref_def)
  with run reservation_released_once_and_last[OF run] show ?thesis by blast
qed

text \<open>How far a state is from the release.\<close>

definition remaining :: "handle \<Rightarrow> nat" where
  "remaining s = (case handler s of HRunning \<Rightarrow> 4 | HStopping \<Rightarrow> 3 | HReleasing \<Rightarrow> 2 | HDone \<Rightarrow> 0) +
     (if renewing s then 1 else 0) + holding s"

lemma mem_index: "x \<in> set xs \<Longrightarrow> \<exists>i<length xs. xs ! i = x"
  by (simp add: in_set_conv_nth)

lemma release_progress:
  assumes inv: "handle_inv d s" and unrel: "\<not> released s"
  shows "\<exists>s'. handle_step s s' \<and> (released s' \<or> remaining s' < remaining s)"
proof (cases "handler s")
  case HRunning
  with handle_step.handler_stop show ?thesis by (fastforce simp: remaining_def)
next
  case HStopping
  show ?thesis
  proof (cases "renewing s")
    case True
    with HStopping inv handle_step.renew_stop show ?thesis by (fastforce simp: remaining_def handle_inv_def)
  next
    case False
    let ?s = "s\<lparr>refs := refs s - 1, handler := (if refs s - 1 \<le> 0 then HReleasing else HDone)\<rparr>"
    have "remaining ?s < remaining s" using HStopping by (simp add: remaining_def)
    with handle_step.handler_decRef[OF HStopping False] show ?thesis by blast
  qed
next
  case HReleasing
  with inv have "\<not> renewing s" by (auto simp: handle_inv_def)
  with HReleasing handle_step.handler_release[of s] show ?thesis by (fastforce simp: release_once_def)
next
  case HDone
  with inv have idle: "\<not> renewing s" by (auto simp: handle_inv_def)
  have counted: "counted s" using inv_unreleased[OF inv unrel] by simp
  with HDone have refs: "refs s = int (holding s)" by (auto simp: counted_def)
  show ?thesis
  proof (cases "THolding \<in> set (tasks s)")
    case True
    then obtain i where i: "i < length (tasks s)" "tasks s ! i = THolding" using mem_index by metis
    have "0 < holding s" by (rule count_pos[OF i])
    then have "remaining (set_task i t (s\<lparr>refs := refs s - 1\<rparr>)) < remaining s" if "t \<in> {TReleasing, TDone}" for t
      using that i by (auto simp: remaining_def count_set_task)
    with handle_step.task_done[OF i] show ?thesis by (metis insertCI)
  next
    case False
    then have "count (mset (tasks s)) TReleasing = 1"
      using counted unrel HDone refs by (auto simp: counted_def count_eq_zero_iff)
    then have "TReleasing \<in> set (tasks s)" by (metis count_eq_zero_iff set_mset_mset zero_neq_one)
    then obtain i where i: "i < length (tasks s)" "tasks s ! i = TReleasing" using mem_index by metis
    from handle_step.task_release[OF i idle] show ?thesis
      by (metis release_once_def set_task_sel(4) handle.select_convs(4) handle.surjective handle.update_convs(1,4,8))
  qed
qed

text \<open>
  C24. No reservation is leaked: from every state that can be reached, however the
  threads were interleaved so far, a finite run of the threads' own steps ends with the reservation
  released, and a state in which no step is left is a released one.
\<close>

theorem reservation_eventually_released:
  assumes "handle_steps (fresh_handle renew n d) s"
  shows "(\<exists>s'. handle_steps s s' \<and> released s') \<and> ((\<nexists>s'. handle_step s s') \<longrightarrow> released s)"
proof -
  have "handle_inv d s \<Longrightarrow> \<exists>s'. handle_steps s s' \<and> released s'"
  proof (induction "remaining s" arbitrary: s rule: less_induct)
    case less
    show ?case
    proof (cases "released s")
      case False
      then obtain s1 where s1: "handle_step s s1" "released s1 \<or> remaining s1 < remaining s"
        using release_progress[OF less.prems] by blast
      moreover have "handle_inv d s1" by (rule step_inv[OF s1(1) less.prems])
      ultimately show ?thesis using less.hyps[of s1] by (meson converse_rtranclp_into_rtranclp rtranclp.rtrancl_refl)
    qed auto
  qed
  moreover have inv: "handle_inv d s" by (rule steps_inv[OF assms fresh_inv])
  ultimately show ?thesis using release_progress[OF inv] by blast
qed

lemma reservation_eventually_released_witness:
  "(\<exists>s'. handle_steps last_ref s' \<and> released s') \<and> handle_steps (fresh_handle True 1 1) last_ref"
  using reservation_eventually_released[OF last_ref_reached] last_ref_reached by blast

end
