(* ===== verification/Inflight_Properties.thy ===== *)
theory Inflight_Properties
  imports Inflight
begin

text \<open>
  The two keys of a user's in-flight reservations against an abstract ledger: which
  request ids are reserved, until when and for how much.
\<close>

section \<open>The ledger\<close>

type_synonym ledger = "string \<Rightarrow> (int \<times> rat) option"

abbreviation zkey :: "id \<Rightarrow> key" where "zkey u \<equiv> fst (billingInflightKeys u)"
abbreviation hkey :: "id \<Rightarrow> key" where "hkey u \<equiv> snd (billingInflightKeys u)"

definition ledger :: "id \<Rightarrow> inflight_db \<Rightarrow> ledger" where
  "ledger u db m =
     (case (map_of (f_zset db (zkey u)) m, map_of (f_hash db (hkey u)) m) of
        (Some e, Some v) \<Rightarrow> Some (e, v) | _ \<Rightarrow> None)"

definition live :: "int \<Rightarrow> ledger \<Rightarrow> ledger" where
  "live now L m = (case L m of Some (e, v) \<Rightarrow> if now < e then Some (e, v) else None | None \<Rightarrow> None)"

definition pending :: "ledger \<Rightarrow> rat" where
  "pending L = (\<Sum>m\<in>dom L. snd (the (L m)))"

text \<open>A sum of the amounts of a ledger, added up in some order, each addition rounded to a double.\<close>

definition rounded_sum :: "floats \<Rightarrow> ledger \<Rightarrow> rat \<Rightarrow> bool" where
  "rounded_sum F L s \<longleftrightarrow>
     (\<exists>ms. distinct ms \<and> set ms = dom L \<and> s = foldl (\<lambda>s m. fl F (s + snd (the (L m)))) 0 ms)"

text \<open>A reservation against a computed sum \<open>s\<close> of the live ones.\<close>

definition ledger_reserve :: "floats \<Rightarrow> rat \<Rightarrow> int \<Rightarrow> string \<Rightarrow> rat \<Rightarrow> rat \<Rightarrow> int \<Rightarrow> ledger \<Rightarrow> bool \<times> ledger" where
  "ledger_reserve F s now m amount balance ttl L =
     (if live now L \<noteq> Map.empty \<and> fl F (balance - s) < amount then (False, live now L)
      else (True, (live now L)(m \<mapsto> (now + ttl, amount))))"

definition ledger_renew :: "int \<Rightarrow> string \<Rightarrow> int \<Rightarrow> ledger \<Rightarrow> bool \<times> ledger" where
  "ledger_renew now m ttl L =
     (case live now L m of None \<Rightarrow> (False, L(m := None)) | Some (e, v) \<Rightarrow> (True, L(m \<mapsto> (now + ttl, v))))"

section \<open>The two keys stay in step\<close>

definition in_step :: "key \<Rightarrow> key \<Rightarrow> inflight_db \<Rightarrow> bool" where
  "in_step zk hk db \<longleftrightarrow>
     distinct (map fst (f_zset db zk)) \<and> distinct (map fst (f_hash db hk)) \<and>
     fst ` set (f_zset db zk) = fst ` set (f_hash db hk) \<and> f_hash db zk = [] \<and> f_zset db hk = [] \<and>
     f_deadline db zk = f_deadline db hk"

lemma keys_differ [simp]: "zkey u \<noteq> hkey v" "hkey v \<noteq> zkey u"
  by (simp_all add: billingInflightKeys_def)

lemma keys_inject [simp]: "zkey u = zkey v \<longleftrightarrow> u = v" "hkey u = hkey v \<longleftrightarrow> u = v"
  by (simp_all add: billingInflightKeys_def format_int_inj)

lemmas f_defs = f_gone_def f_tidy_def f_zadd_def f_zrem_def f_hset_def f_hdel_def f_pexpire_def

lemma fst_removed: "fst ` {p \<in> A. fst p \<notin> B} = fst ` A - B" by force

lemma empty_iff_keys: "xs = [] \<longleftrightarrow> fst ` set xs = {}" by simp

text \<open>Taking the same members out of both keys.\<close>

lemma in_step_remove:
  assumes "in_step zk hk db" and "zk \<noteq> hk" and "\<And>p. p \<in> set (f_zset db zk) \<Longrightarrow> out p \<longleftrightarrow> fst p \<in> set ms"
  defines "db' \<equiv> f_hdel hk ms (f_zrem zk out db)"
  shows "in_step zk hk db'"
    and "f_zset db' zk = filter (\<lambda>p. fst p \<notin> set ms) (f_zset db zk)"
    and "f_hash db' hk = filter (\<lambda>p. fst p \<notin> set ms) (f_hash db hk)"
proof -
  have z: "filter (\<lambda>p. \<not> out p) (f_zset db zk) = filter (\<lambda>p. fst p \<notin> set ms) (f_zset db zk)"
    using assms(3) by (intro filter_cong) auto
  show zs: "f_zset db' zk = filter (\<lambda>p. fst p \<notin> set ms) (f_zset db zk)"
    and hs: "f_hash db' hk = filter (\<lambda>p. fst p \<notin> set ms) (f_hash db hk)"
    using assms(2) z by (simp_all add: db'_def f_defs)
  have keys: "fst ` set (filter (\<lambda>p. fst p \<notin> set ms) (f_zset db zk))
      = fst ` set (filter (\<lambda>p. fst p \<notin> set ms) (f_hash db hk))"
    using assms(1) by (simp add: in_step_def fst_removed)
  then have "filter (\<lambda>p. fst p \<notin> set ms) (f_zset db zk) = [] \<longleftrightarrow> filter (\<lambda>p. fst p \<notin> set ms) (f_hash db hk) = []"
    by (metis empty_iff_keys)
  with assms(1,2) zs hs keys z show "in_step zk hk db'"
    by (simp add: in_step_def db'_def f_defs distinct_map_filter)
qed

text \<open>What the scripts do to the keys of other users: nothing.\<close>

definition same_at :: "key \<Rightarrow> inflight_db \<Rightarrow> inflight_db \<Rightarrow> bool" where
  "same_at k db db' \<longleftrightarrow> f_zset db' k = f_zset db k \<and> f_hash db' k = f_hash db k \<and> f_deadline db' k = f_deadline db k"

lemma same_at_refl [simp]: "same_at k db db" by (simp add: same_at_def)

lemma same_at_trans [trans]: "same_at k a b \<Longrightarrow> same_at k b c \<Longrightarrow> same_at k a c" by (simp add: same_at_def)

lemma same_at_ops [simp]:
  "k \<noteq> k' \<Longrightarrow> same_at k db (f_zadd k' sc m db)" "k \<noteq> k' \<Longrightarrow> same_at k db (f_zrem k' out db)"
  "k \<noteq> k' \<Longrightarrow> same_at k db (f_hset k' m v db)" "k \<noteq> k' \<Longrightarrow> same_at k db (f_hdel k' ms db)"
  "k \<noteq> k' \<Longrightarrow> same_at k db (f_pexpire k' ttl db)"
  by (simp_all add: same_at_def f_defs)

lemma in_step_cong: "same_at zk db db' \<Longrightarrow> same_at hk db db' \<Longrightarrow> in_step zk hk db' = in_step zk hk db"
  by (simp add: in_step_def same_at_def)

lemma ledger_cong: "same_at (zkey u) db db' \<Longrightarrow> same_at (hkey u) db db' \<Longrightarrow> ledger u db' = ledger u db"
  by (simp add: ledger_def fun_eq_iff same_at_def)

lemma same_at_scripts:
  assumes "k \<noteq> zk" and "k \<noteq> hk"
  shows "same_at k db (drop_expired zk hk now db)"
    and "same_at k db (register zk hk e m a ttl db)"
    and "same_at k db (snd (reserveInflightBalanceScript F zk hk now e m a b ttl db))"
    and "same_at k db (snd (renewInflightBalanceScript zk hk m e ttl now db))"
    and "same_at k db (releaseInflightBalanceScript zk hk m db)"
proof -
  show d: "same_at k db (drop_expired zk hk now db)" for db
    using assms by (auto simp: drop_expired_def Let_def intro: same_at_trans same_at_ops)
  show r: "same_at k db (register zk hk e m a ttl db)" for db
    unfolding register_def using assms by (meson same_at_trans same_at_ops)
  show "same_at k db (snd (reserveInflightBalanceScript F zk hk now e m a b ttl db))"
    using same_at_trans[OF d r] d by (simp add: reserveInflightBalanceScript_def Let_def)
  show "same_at k db (snd (renewInflightBalanceScript zk hk m e ttl now db))"
    using assms by (auto simp: renewInflightBalanceScript_def Let_def split: option.split
      intro!: same_at_trans[OF _ same_at_ops(5)] same_at_trans[OF same_at_ops(2) same_at_ops(4)])
  show "same_at k db (releaseInflightBalanceScript zk hk m db)"
    unfolding releaseInflightBalanceScript_def using assms by (meson same_at_trans same_at_ops)
qed

section \<open>Each script on the ledger\<close>

lemma map_of_removed: "map_of (filter (\<lambda>p. fst p \<notin> A) xs) m = (if m \<in> A then None else map_of xs m)"
  by (induction xs) auto

lemma ledger_remove:
  assumes "in_step (zkey u) (hkey u) db" and "\<And>p. p \<in> set (f_zset db (zkey u)) \<Longrightarrow> out p \<longleftrightarrow> fst p \<in> set ms"
  defines "db' \<equiv> f_hdel (hkey u) ms (f_zrem (zkey u) out db)"
  shows "in_step (zkey u) (hkey u) db'" and "ledger u db' = (\<lambda>m. if m \<in> set ms then None else ledger u db m)"
  using in_step_remove[OF assms(1) keys_differ(1) assms(2)] by (auto simp: db'_def ledger_def map_of_removed)

lemma ledger_SomeD: "ledger u db m = Some (e, v) \<Longrightarrow> map_of (f_zset db (zkey u)) m = Some e \<and> map_of (f_hash db (hkey u)) m = Some v"
  by (simp add: ledger_def split: option.splits)

lemma in_step_lookup:
  assumes "in_step (zkey u) (hkey u) db"
  shows "ledger u db m = None \<longleftrightarrow> map_of (f_zset db (zkey u)) m = None"
    and "map_of (f_hash db (hkey u)) m = None \<longleftrightarrow> map_of (f_zset db (zkey u)) m = None"
proof -
  show *: "map_of (f_hash db (hkey u)) m = None \<longleftrightarrow> map_of (f_zset db (zkey u)) m = None"
    using assms by (simp add: in_step_def map_of_eq_None_iff)
  show "ledger u db m = None \<longleftrightarrow> map_of (f_zset db (zkey u)) m = None"
    using * by (auto simp: ledger_def split: option.splits)
qed

lemma drop_expired_ledger:
  assumes "in_step (zkey u) (hkey u) db"
  shows "in_step (zkey u) (hkey u) (drop_expired (zkey u) (hkey u) now db)"
    and "ledger u (drop_expired (zkey u) (hkey u) now db) = live now (ledger u db)"
proof -
  define ms where "ms = map fst (filter (\<lambda>(m, sc). sc \<le> now) (f_zset db (zkey u)))"
  have out: "(case p of (m, sc) \<Rightarrow> sc \<le> now) \<longleftrightarrow> fst p \<in> set ms" if "p \<in> set (f_zset db (zkey u))" for p
    using that assms by (auto simp: ms_def in_step_def dest: eq_key_imp_eq_value intro!: rev_image_eqI)
  have ms: "m \<in> set ms \<longleftrightarrow> (\<exists>e v. ledger u db m = Some (e, v) \<and> e \<le> now)" for m
  proof -
    have "m \<in> set ms \<longleftrightarrow> (\<exists>e. map_of (f_zset db (zkey u)) m = Some e \<and> e \<le> now)"
    proof -
      have "map_of (f_zset db (zkey u)) m = Some e \<longleftrightarrow> (m, e) \<in> set (f_zset db (zkey u))" for e
        using assms by (simp add: in_step_def)
      then show ?thesis by (force simp: ms_def)
    qed
    moreover have "map_of (f_zset db (zkey u)) m = Some e \<longleftrightarrow> (\<exists>v. ledger u db m = Some (e, v))" for e
      using in_step_lookup(2)[OF assms, of m] by (auto simp: ledger_def split: option.splits)
    ultimately show ?thesis by blast
  qed
  have L: "live now (ledger u db) = (\<lambda>m. if m \<in> set ms then None else ledger u db m)"
    by (auto simp: live_def ms fun_eq_iff split: option.split)
  have "drop_expired (zkey u) (hkey u) now db =
      (if ms = [] then db else f_hdel (hkey u) ms (f_zrem (zkey u) (\<lambda>(m, sc). sc \<le> now) db))"
    by (simp add: drop_expired_def Let_def ms_def)
  with ledger_remove[OF assms out] assms L
  show "in_step (zkey u) (hkey u) (drop_expired (zkey u) (hkey u) now db)"
    and "ledger u (drop_expired (zkey u) (hkey u) now db) = live now (ledger u db)"
    by auto
qed

lemma pexpire_positive:
  "0 < ttl \<Longrightarrow> f_zset (f_pexpire k ttl db) = f_zset db" "0 < ttl \<Longrightarrow> f_hash (f_pexpire k ttl db) = f_hash db"
  by (simp_all add: f_pexpire_def)

lemma f_pexpire_ms [simp]: "f_ms (f_pexpire k ttl db) = f_ms db"
  by (simp add: f_pexpire_def f_gone_def)

lemma register_ledger:
  fixes e :: int and m :: string and a :: rat
  assumes "in_step (zkey u) (hkey u) db" and "0 < ttl"
  defines "db' \<equiv> register (zkey u) (hkey u) e m a ttl db"
  shows "in_step (zkey u) (hkey u) db'" and "ledger u db' = (ledger u db)(m \<mapsto> (e, a))"
proof -
  have z: "f_zset db' (zkey u) = AList.update m e (f_zset db (zkey u))" "f_zset db' (hkey u) = f_zset db (hkey u)"
    and h: "f_hash db' (hkey u) = AList.update m a (f_hash db (hkey u))" "f_hash db' (zkey u) = f_hash db (zkey u)"
    using assms(2) by (simp_all add: db'_def register_def pexpire_positive f_zadd_def f_hset_def)
  have "f_deadline db' (zkey u) = Some (f_ms db + ttl)" "f_deadline db' (hkey u) = Some (f_ms db + ttl)"
    using assms(2) by (simp_all add: db'_def register_def f_defs)
  with assms(1) z h show "in_step (zkey u) (hkey u) db'"
    by (simp add: in_step_def dom_update distinct_update)
  show "ledger u db' = (ledger u db)(m \<mapsto> (e, a))"
    by (simp add: ledger_def fun_eq_iff z h update_conv')
qed

lemma ledger_dom: "in_step (zkey u) (hkey u) db \<Longrightarrow> dom (ledger u db) = fst ` set (f_hash db (hkey u))"
  using in_step_lookup[of u db] by (auto simp: dom_def in_step_def map_of_eq_None_iff)

lemma inflight_sum_rounded:
  assumes "in_step (zkey u) (hkey u) db"
  shows "rounded_sum F (ledger u db) (inflight_sum F (hkey u) db)"
proof -
  let ?h = "f_hash db (hkey u)"
  have "snd (the (ledger u db (fst p))) = snd p" if "p \<in> set ?h" for p
  proof -
    have "map_of ?h (fst p) = Some (snd p)" using assms that by (simp add: in_step_def)
    moreover have "fst p \<in> dom (ledger u db)" using that by (simp add: ledger_dom[OF assms])
    then obtain e v where "ledger u db (fst p) = Some (e, v)" by auto
    ultimately show ?thesis by (auto dest!: ledger_SomeD)
  qed
  then have "inflight_sum F (hkey u) db = foldl (\<lambda>s m. fl F (s + snd (the (ledger u db m)))) 0 (map fst ?h)"
    by (auto simp: inflight_sum_def foldl_map intro!: foldl_cong)
  then show ?thesis using assms ledger_dom[OF assms] unfolding rounded_sum_def in_step_def by (metis set_map)
qed

lemma pending_nonempty: "in_step (zkey u) (hkey u) db \<Longrightarrow> f_zset db (zkey u) = [] \<longleftrightarrow> ledger u db = Map.empty"
  using ledger_dom[of u db] by (auto simp: in_step_def)

lemma reserve_ledger:
  fixes F :: floats and now :: int and m :: string and a b :: rat
  assumes "in_step (zkey u) (hkey u) db" and "0 < ttl"
  defines "r \<equiv> reserveInflightBalanceScript F (zkey u) (hkey u) now (now + ttl) m a b ttl db"
  shows "in_step (zkey u) (hkey u) (snd r)"
    and "\<exists>s. rounded_sum F (live now (ledger u db)) s \<and> snd (fst r) = g14 F s
      \<and> (fst (fst r), ledger u (snd r)) = ledger_reserve F s now m a b ttl (ledger u db)"
proof -
  let ?d = "drop_expired (zkey u) (hkey u) now db"
  note d = drop_expired_ledger[OF assms(1), of now]
  have sum: "rounded_sum F (live now (ledger u db)) (inflight_sum F (hkey u) ?d)"
    using inflight_sum_rounded[OF d(1), of F] by (simp add: d(2))
  have empty: "f_zset ?d (zkey u) = [] \<longleftrightarrow> live now (ledger u db) = Map.empty"
    using pending_nonempty[OF d(1)] by (simp add: d(2))
  note reg = register_ledger[OF d(1) assms(2), of "now + ttl" m a]
  show "in_step (zkey u) (hkey u) (snd r)" using d(1) reg(1) by (simp add: r_def reserveInflightBalanceScript_def Let_def)
  show "\<exists>s. rounded_sum F (live now (ledger u db)) s \<and> snd (fst r) = g14 F s
      \<and> (fst (fst r), ledger u (snd r)) = ledger_reserve F s now m a b ttl (ledger u db)"
    by (rule exI[of _ "inflight_sum F (hkey u) ?d"])
      (simp add: sum r_def reserveInflightBalanceScript_def Let_def ledger_reserve_def empty d(2) reg(2))
qed

lemma release_ledger:
  assumes "in_step (zkey u) (hkey u) db"
  shows "in_step (zkey u) (hkey u) (releaseInflightBalanceScript (zkey u) (hkey u) m db)"
    and "ledger u (releaseInflightBalanceScript (zkey u) (hkey u) m db) = (ledger u db)(m := None)"
  using ledger_remove[OF assms, of "\<lambda>p. fst p = m" "[m]"]
  by (auto simp: releaseInflightBalanceScript_def fun_eq_iff)

lemma renew_ledger:
  fixes now :: int and m :: string
  assumes "in_step (zkey u) (hkey u) db" and "0 < ttl"
  defines "r \<equiv> renewInflightBalanceScript (zkey u) (hkey u) m (now + ttl) ttl now db"
  shows "in_step (zkey u) (hkey u) (snd r)"
    and "(fst r, ledger u (snd r)) = ledger_renew now m ttl (ledger u db)"
proof -
  have "in_step (zkey u) (hkey u) (snd r) \<and> (fst r, ledger u (snd r)) = ledger_renew now m ttl (ledger u db)"
  proof (cases "ledger u db m")
    case None
    then have "map_of (f_zset db (zkey u)) m = None" using in_step_lookup(1)[OF assms(1)] by simp
    with None assms(1) show ?thesis
      by (simp add: r_def renewInflightBalanceScript_def ledger_renew_def live_def fun_upd_idem)
  next
    case (Some p)
    then obtain e v where L: "ledger u db m = Some (e, v)" by (cases p) auto
    then have z: "map_of (f_zset db (zkey u)) m = Some e" and h: "map_of (f_hash db (hkey u)) m = Some v"
      by (auto dest: ledger_SomeD)
    show ?thesis
    proof (cases "e \<le> now")
      case True
      with z have "snd r = releaseInflightBalanceScript (zkey u) (hkey u) m db" "\<not> fst r"
        by (simp_all add: r_def renewInflightBalanceScript_def releaseInflightBalanceScript_def)
      with release_ledger[OF assms(1)] L True show ?thesis by (simp add: ledger_renew_def live_def)
    next
      case False
      let ?d = "snd r"
      have ne: "f_hash db (hkey u) \<noteq> []" using h by auto
      have zs: "f_zset ?d (zkey u) = AList.update m (now + ttl) (f_zset db (zkey u))" "f_zset ?d (hkey u) = f_zset db (hkey u)"
        and hs: "f_hash ?d = f_hash db"
        using z False assms(2) by (simp_all add: r_def renewInflightBalanceScript_def Let_def pexpire_positive f_zadd_def)
      have dl: "f_deadline ?d (zkey u) = f_deadline ?d (hkey u)"
        using z False assms(1,2) ne
        by (simp add: r_def renewInflightBalanceScript_def Let_def f_defs f_pttl_def in_step_def split: option.split)
      have "m \<in> fst ` set (f_zset db (zkey u))" using z by (metis map_of_eq_None_iff option.distinct(1))
      with assms(1) zs hs dl have "in_step (zkey u) (hkey u) ?d"
        by (simp add: in_step_def dom_update distinct_update insert_absorb)
      moreover have "ledger u ?d = (ledger u db)(m \<mapsto> (now + ttl, v))"
        by (simp add: ledger_def fun_eq_iff zs hs update_conv' h)
      ultimately show ?thesis using z False L
        by (simp add: r_def renewInflightBalanceScript_def Let_def ledger_renew_def live_def)
    qed
  qed
  then show "in_step (zkey u) (hkey u) (snd r)"
    and "(fst r, ledger u (snd r)) = ledger_renew now m ttl (ledger u db)" by auto
qed

section \<open>Histories\<close>

text \<open>
  A history is a list of calls of the methods by any processes, each with the outcome of
  its round trip and the clock of the process that made it, and of passing time, in which
  the server drops the keys whose deadline is reached.
\<close>

datatype inflight_call =
    CallReserve id int string rat rat int
  | CallRenew id int string int
  | CallRelease id string
  | Pass nat

definition pass_time :: "nat \<Rightarrow> inflight_db \<Rightarrow> inflight_db" where
  "pass_time d db =
     (let now = f_ms db + int d;
          due = (\<lambda>k. case f_deadline db k of None \<Rightarrow> False | Some t \<Rightarrow> t \<le> now)
      in db\<lparr>f_ms := now, f_zset := (\<lambda>k. if due k then [] else f_zset db k),
            f_hash := (\<lambda>k. if due k then [] else f_hash db k),
            f_deadline := (\<lambda>k. if due k then None else f_deadline db k)\<rparr>)"

definition sent :: "fault \<Rightarrow> (inflight_db, 'a) prog \<Rightarrow> inflight_db \<Rightarrow> inflight_db" where
  "sent outcome p db = w_db (snd (p \<lparr>w_db = db, w_net = [(\<lambda>d. d, outcome)]\<rparr>))"

fun inflight_step :: "floats \<Rightarrow> fault \<times> inflight_call \<Rightarrow> inflight_db \<Rightarrow> inflight_db" where
  "inflight_step F (f, CallReserve u now m a b ttl) db = sent f (ReserveInflightBalance F now u m a b ttl) db"
| "inflight_step F (f, CallRenew u now m ttl) db = sent f (RenewInflightBalance now u m ttl) db"
| "inflight_step F (f, CallRelease u m) db = sent f (ReleaseInflightBalance u m) db"
| "inflight_step F (f, Pass d) db = pass_time d db"

definition inflight_run :: "floats \<Rightarrow> (fault \<times> inflight_call) list \<Rightarrow> inflight_db" where
  "inflight_run F hs = fold (inflight_step F) hs
     \<lparr>f_ms = 0, f_zset = (\<lambda>_. []), f_hash = (\<lambda>_. []), f_deadline = (\<lambda>_. None)\<rparr>"

lemma sent_round_trip: "sent f (round_trip g) db = (if f = Lost then db else snd (g db))"
  by (cases f) (simp_all add: sent_def round_trip.simps split: prod.split)

lemma ttl_ms_positive [simp]: "0 < ttl_ms ttl"
  by (simp add: ttl_ms_def)

lemma step_cases:
  "inflight_step F (f, CallReserve u now m a b ttl) db = (if f = Lost then db else
     snd (reserveInflightBalanceScript F (zkey u) (hkey u) now (now + ttl_ms ttl) m a b (ttl_ms ttl) db))"
  "inflight_step F (f, CallRenew u now m ttl) db = (if f = Lost then db else
     snd (renewInflightBalanceScript (zkey u) (hkey u) m (now + ttl_ms ttl) (ttl_ms ttl) now db))"
  "inflight_step F (f, CallRelease u m) db = (if f = Lost then db else
     releaseInflightBalanceScript (zkey u) (hkey u) m db)"
  by (simp_all add: ReserveInflightBalance_def RenewInflightBalance_def ReleaseInflightBalance_def update_def
      sent_round_trip split: prod.split)

lemma pass_time_ledger:
  assumes "in_step (zkey u) (hkey u) db"
  shows "in_step (zkey u) (hkey u) (pass_time d db)"
    and "ledger u (pass_time d db) \<in> {ledger u db, Map.empty}"
  using assms by (auto simp: in_step_def pass_time_def Let_def ledger_def fun_eq_iff split: option.split)

text \<open>The ledger after a step: the step of the same user, or none.\<close>

lemma step_ledger:
  assumes "in_step (zkey u) (hkey u) db"
  shows "in_step (zkey u) (hkey u) (inflight_step F (f, c) db) \<and>
     ledger u (inflight_step F (f, c) db) \<in> {ledger u db, Map.empty} \<union>
       (case c of CallReserve v now m a b ttl \<Rightarrow> if v = u
            then {snd (ledger_reserve F s now m a b (ttl_ms ttl) (ledger u db)) | s. rounded_sum F (live now (ledger u db)) s} else {}
        | CallRenew v now m ttl \<Rightarrow> if v = u then {snd (ledger_renew now m (ttl_ms ttl) (ledger u db))} else {}
        | CallRelease v m \<Rightarrow> if v = u then {(ledger u db)(m := None)} else {}
        | Pass d \<Rightarrow> {})"
proof -
  have other: "in_step (zkey u) (hkey u) db' \<and> ledger u db' = ledger u db"
    if "same_at (zkey u) db db'" "same_at (hkey u) db db'" for db'
    using assms(1) in_step_cong[OF that] ledger_cong[OF that] by simp
  note frame = same_at_scripts
  show ?thesis
  proof (cases c)
    case (CallReserve v now m a b ttl)
    show ?thesis
    proof (cases "v = u")
      case True
      obtain s where "rounded_sum F (live now (ledger u db)) s"
        "ledger u (snd (reserveInflightBalanceScript F (zkey u) (hkey u) now (now + ttl_ms ttl) m a b (ttl_ms ttl) db))
          = snd (ledger_reserve F s now m a b (ttl_ms ttl) (ledger u db))"
        using reserve_ledger(2)[OF assms(1) ttl_ms_positive, of F now ttl m a b] by (metis snd_conv)
      with True show ?thesis using assms CallReserve reserve_ledger(1)[OF assms(1) ttl_ms_positive, of F now ttl m a b]
        by (auto simp: step_cases simp del: inflight_step.simps)
    next
      case False
      then show ?thesis using CallReserve assms other[OF frame(3) frame(3)] by (auto simp: step_cases simp del: inflight_step.simps)
    qed
  next
    case (CallRenew v now m ttl)
    show ?thesis
    proof (cases "v = u")
      case True
      then show ?thesis using assms CallRenew renew_ledger[OF assms(1) ttl_ms_positive, of m now ttl]
        by (auto simp: step_cases simp del: inflight_step.simps dest: arg_cong[of _ _ snd])
    next
      case False
      then show ?thesis using CallRenew assms other[OF frame(4) frame(4)] by (auto simp: step_cases simp del: inflight_step.simps)
    qed
  next
    case (CallRelease v m)
    show ?thesis
    proof (cases "v = u")
      case True
      then show ?thesis using assms CallRelease release_ledger[OF assms(1), of m]
        by (auto simp: step_cases simp del: inflight_step.simps)
    next
      case False
      then show ?thesis using CallRelease assms other[OF frame(5) frame(5)] by (auto simp: step_cases simp del: inflight_step.simps)
    qed
  next
    case (Pass d)
    with pass_time_ledger[OF assms(1), of d] show ?thesis by simp
  qed
qed

lemma run_in_step: "in_step (zkey u) (hkey u) (inflight_run F hs)"
proof (induction hs rule: rev_induct)
  case Nil
  then show ?case by (simp add: inflight_run_def in_step_def)
next
  case (snoc x hs)
  then show ?case using step_ledger[of u "inflight_run F hs" F "fst x" "snd x"]
    by (simp add: inflight_run_def del: inflight_step.simps)
qed

text \<open>
  C12. After any history of calls, lost requests, lost replies and passing time, the
  methods do to the two Redis keys of a user what the ledger says: a request is
  admitted if no reservation is live or the balance less the computed sum covers it, a renewal
  extends only a live reservation and a release removes only its own.  The sum is one of the live
  amounts in some order, with every addition and the subtraction rounded in any way; the reply prints it.
\<close>

theorem inflight_refines_ledger:
  assumes "db = inflight_run F hs"
  shows "(\<exists>allowed s db'. rounded_sum F (live now (ledger u db)) s \<and>
           ReserveInflightBalance F now u m a b ttl (quiet db) = (Inr (allowed, g14 F s), quiet db') \<and>
         (allowed, ledger u db') = ledger_reserve F s now m a b (ttl_ms ttl) (ledger u db)) \<and>
    (\<exists>alive db'. RenewInflightBalance now u m ttl (quiet db) = (Inr alive, quiet db') \<and>
         (alive, ledger u db') = ledger_renew now m (ttl_ms ttl) (ledger u db)) \<and>
    (\<exists>db'. ReleaseInflightBalance u m (quiet db) = (Inr (), quiet db') \<and> ledger u db' = (ledger u db)(m := None))"
proof (intro conjI)
  have s: "in_step (zkey u) (hkey u) db" unfolding assms by (rule run_in_step)
  let ?r = "reserveInflightBalanceScript F (zkey u) (hkey u) now (now + ttl_ms ttl) m a b (ttl_ms ttl) db"
  obtain t where t: "rounded_sum F (live now (ledger u db)) t" "snd (fst ?r) = g14 F t"
    "(fst (fst ?r), ledger u (snd ?r)) = ledger_reserve F t now m a b (ttl_ms ttl) (ledger u db)"
    using reserve_ledger(2)[OF s ttl_ms_positive, of F now ttl m a b] by blast
  have "ReserveInflightBalance F now u m a b ttl (quiet db) = (Inr (fst ?r), quiet (snd ?r))"
    by (simp add: ReserveInflightBalance_def case_prod_unfold)
  then show "\<exists>allowed s db'. rounded_sum F (live now (ledger u db)) s \<and>
           ReserveInflightBalance F now u m a b ttl (quiet db) = (Inr (allowed, g14 F s), quiet db') \<and>
         (allowed, ledger u db') = ledger_reserve F s now m a b (ttl_ms ttl) (ledger u db)"
    using t by (intro exI[of _ "fst (fst ?r)"] exI[of _ t] exI[of _ "snd ?r"]) (simp add: prod_eq_iff)
  show "\<exists>alive db'. RenewInflightBalance now u m ttl (quiet db) = (Inr alive, quiet db') \<and>
         (alive, ledger u db') = ledger_renew now m (ttl_ms ttl) (ledger u db)"
    using renew_ledger(2)[OF s ttl_ms_positive] by (simp add: RenewInflightBalance_def case_prod_unfold)
  show "\<exists>db'. ReleaseInflightBalance u m (quiet db) = (Inr (), quiet db') \<and> ledger u db' = (ledger u db)(m := None)"
    using release_ledger(2)[OF s] by (simp add: ReleaseInflightBalance_def update_def case_prod_unfold)
qed

section \<open>The balance bounds what is in flight\<close>

text \<open>
  Rounding with a relative error of at most \<open>e\<close>, which for doubles is 2 to the power of -53 where nothing
  over- or underflows.
\<close>

definition rel_err :: "floats \<Rightarrow> rat \<Rightarrow> bool" where
  "rel_err F e \<longleftrightarrow> 0 \<le> e \<and> e < 1 \<and> (\<forall>x. \<bar>fl F x - x\<bar> \<le> e * \<bar>x\<bar>)"

definition covered :: "rat \<Rightarrow> rat \<Rightarrow> ledger \<Rightarrow> bool" where
  "covered k B L \<longleftrightarrow> finite (dom L) \<and> (\<forall>m e v. L m = Some (e, v) \<longrightarrow> 0 < v) \<and> (card (dom L) \<le> 1 \<or> k * pending L \<le> B)"

lemma rounded_fold_ge:
  assumes "rel_err F e" "0 \<le> s" "\<forall>v\<in>set vs. 0 \<le> v"
  shows "(1 - e) ^ length vs * (s + sum_list vs) \<le> foldl (\<lambda>s v. fl F (s + v)) s vs"
  using assms(2,3)
proof (induction vs arbitrary: s)
  case (Cons v vs)
  have e: "0 \<le> e" "e < 1" and f: "(1 - e) * (s + v) \<le> fl F (s + v)"
  proof -
    show "0 \<le> e" "e < 1" using assms(1) by (simp_all add: rel_err_def)
    have "\<bar>fl F (s + v) - (s + v)\<bar> \<le> e * (s + v)" using assms(1) Cons.prems by (metis abs_of_nonneg add_nonneg_nonneg list.set_intros(1) rel_err_def)
    then show "(1 - e) * (s + v) \<le> fl F (s + v)" by (simp add: left_diff_distrib abs_le_iff)
  qed
  have r: "0 \<le> sum_list vs" using Cons.prems(2) by (intro sum_list_nonneg) auto
  have "0 \<le> (1 - e) * (s + v)" using e Cons.prems by (intro mult_nonneg_nonneg) auto
  then have pos: "0 \<le> fl F (s + v)" using f by linarith
  have "(1 - e) * sum_list vs \<le> sum_list vs" using e r by (intro mult_left_le_one_le) auto
  then have "(1 - e) * (s + v + sum_list vs) \<le> fl F (s + v) + sum_list vs" using f by (simp add: distrib_left)
  then have "(1 - e) ^ length vs * ((1 - e) * (s + v + sum_list vs)) \<le> (1 - e) ^ length vs * (fl F (s + v) + sum_list vs)"
    using e by (intro mult_left_mono) auto
  also have "\<dots> \<le> foldl (\<lambda>s v. fl F (s + v)) (fl F (s + v)) vs" using Cons.IH[OF pos] Cons.prems(2) by simp
  finally show ?case by (simp add: mult.assoc add.assoc mult.left_commute)
qed simp

lemma rounded_sum_ge:
  assumes "rel_err F e" "rounded_sum F L s" "\<forall>m e v. L m = Some (e, v) \<longrightarrow> 0 < v"
  shows "(1 - e) ^ card (dom L) * pending L \<le> s"
proof -
  obtain ms where ms: "distinct ms" "set ms = dom L" "s = foldl (\<lambda>s m. fl F (s + snd (the (L m)))) 0 ms"
    using assms(2) by (auto simp: rounded_sum_def)
  let ?vs = "map (\<lambda>m. snd (the (L m))) ms"
  have "\<forall>v\<in>set ?vs. 0 \<le> v" using assms(3) ms(2) by (fastforce simp: less_imp_le)
  from rounded_fold_ge[OF assms(1) order_refl this]
  have "(1 - e) ^ length ms * sum_list ?vs \<le> s" using ms(3) by (simp add: foldl_map)
  then show ?thesis using ms(1,2) by (simp add: pending_def sum_list_distinct_conv_sum_set distinct_card[symmetric])
qed

text \<open>What an admitted amount leaves of the balance, whatever the rounding of the difference.\<close>

lemma rounded_room:
  assumes "rel_err F e" "0 < a" "\<not> fl F (b - s) < a"
  shows "(1 - e) * a \<le> b - s"
proof -
  have e: "0 \<le> e" "e < 1" and f: "fl F (b - s) \<le> (b - s) + e * \<bar>b - s\<bar>"
    using assms(1) by (simp_all add: rel_err_def) (metis abs_le_D1 diff_le_eq add.commute)
  have pos: "0 < b - s"
  proof (rule ccontr)
    assume "\<not> 0 < b - s"
    then have "fl F (b - s) \<le> (1 - e) * (b - s)" using f by (simp add: algebra_simps)
    also have "\<dots> \<le> 0" using e \<open>\<not> 0 < b - s\<close> by (intro mult_nonneg_nonpos) auto
    finally show False using assms(2,3) by linarith
  qed
  have "a \<le> (1 + e) * (b - s)" using f assms(3) pos by (simp add: algebra_simps)
  then have "(1 - e) * a \<le> (1 - e) * ((1 + e) * (b - s))" using e by (intro mult_left_mono) auto
  also have "\<dots> = (b - s) - e * e * (b - s)" by (simp add: algebra_simps)
  also have "\<dots> \<le> b - s" using e pos by simp
  finally show ?thesis .
qed

lemma pending_sub:
  assumes "L' \<subseteq>\<^sub>m L" and "finite (dom L)" and "\<forall>m e v. L m = Some (e, v) \<longrightarrow> 0 < v"
  shows "pending L' \<le> pending L"
proof -
  have eq: "L' m = L m" if "m \<in> dom L'" for m using assms(1) that by (simp add: map_le_def)
  have "pending L' = (\<Sum>m\<in>dom L'. snd (the (L m)))" unfolding pending_def by (simp add: eq)
  also have "\<dots> \<le> pending L" unfolding pending_def
    using assms map_le_implies_dom_le[OF assms(1)] by (intro sum_mono2) (auto intro: less_imp_le)
  finally show ?thesis .
qed

lemma covered_sub:
  assumes "covered k B L" and "0 \<le> k" and "L' \<subseteq>\<^sub>m L"
  shows "covered k B L'"
proof -
  have dom: "dom L' \<subseteq> dom L" by (rule map_le_implies_dom_le[OF assms(3)])
  then have "card (dom L') \<le> card (dom L)" "finite (dom L')"
    using assms(1) by (auto simp: covered_def intro: card_mono finite_subset)
  moreover have "pending L' \<le> pending L" using assms(1,3) by (intro pending_sub) (auto simp: covered_def)
  moreover have "\<forall>m e v. L' m = Some (e, v) \<longrightarrow> 0 < v"
  proof (intro allI impI)
    fix m e v assume "L' m = Some (e, v)"
    then have "L m = Some (e, v)" using assms(3) by (metis domI map_le_def)
    then show "0 < v" using assms(1) by (simp add: covered_def)
  qed
  moreover have "k * pending L' \<le> k * pending L" using calculation(3) assms(2) by (rule mult_left_mono)
  ultimately show ?thesis using assms(1) by (auto simp: covered_def)
qed

lemma live_sub: "live now L \<subseteq>\<^sub>m L"
  by (auto simp: map_le_def live_def split: option.splits if_splits)

lemma pending_upd:
  assumes "finite (dom L)"
  shows "pending (L(m \<mapsto> (e, a))) = a + pending (L(m := None))"
proof -
  have "pending (L(m \<mapsto> (e, a))) = (\<Sum>x\<in>insert m (dom L - {m}). snd (the ((L(m \<mapsto> (e, a))) x)))"
    by (simp add: pending_def insert_Diff_single del: fun_upd_apply)
  also have "\<dots> = a + (\<Sum>x\<in>dom L - {m}. snd (the ((L(m \<mapsto> (e, a))) x)))"
    using assms by (subst sum.insert) auto
  also have "(\<Sum>x\<in>dom L - {m}. snd (the ((L(m \<mapsto> (e, a))) x))) = pending (L(m := None))"
    unfolding pending_def by (intro sum.cong) auto
  finally show ?thesis .
qed

lemma covered_reserve:
  assumes "covered ((1 - r) ^ n) B L" and "0 < a" and "b \<le> B" and "rel_err F r" and "card (dom L) \<le> n"
    and "rounded_sum F (live now L) s"
  shows "covered ((1 - r) ^ n) B (snd (ledger_reserve F s now m a b ttl L))"
proof -
  let ?L = "live now L" and ?k = "(1 - r) ^ n"
  have r: "0 \<le> 1 - r" "1 - r \<le> 1" using assms(4) by (simp_all add: rel_err_def)
  have c: "covered ?k B ?L" by (rule covered_sub[OF assms(1) _ live_sub]) (use r in simp)
  have "covered ?k B (?L(m \<mapsto> (now + ttl, a)))" if room: "?L = Map.empty \<or> \<not> fl F (b - s) < a"
  proof (cases "?L = Map.empty")
    case False
    have pos: "\<forall>m e v. ?L m = Some (e, v) \<longrightarrow> 0 < v" using c by (simp add: covered_def)
    have p: "0 \<le> pending ?L" unfolding pending_def using pos by (intro sum_nonneg) (fastforce simp: less_imp_le)
    have fin: "finite (dom L)" using assms(1) by (simp add: covered_def)
    have "card (dom ?L) \<le> n"
      using assms(5) card_mono[OF fin map_le_implies_dom_le[OF live_sub], of now] by linarith
    moreover have "card (dom ?L) \<noteq> 0" using False c by (simp add: covered_def)
    ultimately    have k: "?k \<le> (1 - r) ^ card (dom ?L)" "?k \<le> 1 - r"
      using r power_decreasing[of "card (dom ?L)" n "1 - r"] power_decreasing[of 1 n "1 - r"] by auto
    have "?k * (a + pending ?L) \<le> (1 - r) * a + (1 - r) ^ card (dom ?L) * pending ?L"
      using k p assms(2) by (simp add: distrib_left add_mono mult_right_mono)
    also have "\<dots> \<le> (b - s) + s"
      using room False by (intro add_mono rounded_room[OF assms(4,2)] rounded_sum_ge[OF assms(4,6) pos]) simp
    finally have "?k * (a + pending ?L) \<le> B" using assms(3) by simp
    moreover have "pending (?L(m := None)) \<le> pending ?L"
      using c by (intro pending_sub) (auto simp: covered_def map_le_def)
    then have "?k * (a + pending (?L(m := None))) \<le> ?k * (a + pending ?L)" using r by (intro mult_left_mono) auto
    ultimately have "?k * pending (?L(m \<mapsto> (now + ttl, a))) \<le> B" using c by (simp add: pending_upd covered_def)
    with c assms(2) show ?thesis by (auto simp: covered_def)
  qed (use c assms(2) in \<open>auto simp: covered_def\<close>)
  with c show ?thesis by (auto simp: ledger_reserve_def)
qed

lemma covered_renew:
  assumes "covered k B L" and "0 \<le> k"
  shows "covered k B (snd (ledger_renew now m ttl L))"
proof (cases "live now L m")
  case None
  then show ?thesis using covered_sub[OF assms(1,2), of "L(m := None)"] by (simp add: ledger_renew_def map_le_def)
next
  case (Some p)
  then obtain e v where L: "L m = Some (e, v)" "live now L m = Some (e, v)"
    using live_sub[of now L] by (cases p) (auto simp: map_le_def dom_def)
  have "L = L(m \<mapsto> (e, v))" using L(1) by auto
  then have "pending L = v + pending (L(m := None))"
    using pending_upd[of L m e v] assms(1) by (simp add: covered_def)
  then have "pending (L(m \<mapsto> (now + ttl, v))) = pending L"
    using pending_upd[of L m "now + ttl" v] assms(1) by (simp add: covered_def)
  moreover have "dom (L(m \<mapsto> (now + ttl, v))) = dom L" using L(1) by auto
  ultimately show ?thesis using assms(1) L by (auto simp: ledger_renew_def covered_def)
qed

text \<open>No more reservations are live than calls were made.\<close>

lemma live_le_calls: "finite (dom (ledger u (inflight_run F hs))) \<and> card (dom (ledger u (inflight_run F hs))) \<le> length hs"
proof (induction hs rule: rev_induct)
  case Nil
  have "ledger u (inflight_run F []) = Map.empty" by (simp add: inflight_run_def ledger_def fun_eq_iff)
  then show ?case by simp
next
  case (snoc x hs)
  obtain f c where x: "x = (f, c)" by (cases x)
  let ?L = "ledger u (inflight_run F hs)"
  have sub: "finite (dom L) \<and> card (dom L) \<le> Suc (length hs)" if "dom L \<subseteq> insert m (dom ?L)" for L :: ledger and m
  proof -
    have "card (dom L) \<le> card (insert m (dom ?L))" using that snoc.IH by (intro card_mono) auto
    also have "\<dots> \<le> Suc (length hs)" using snoc.IH by (simp add: card_insert_if)
    finally show ?thesis using that snoc.IH by (meson finite_insert finite_subset)
  qed
  have l: "dom (live now ?L) \<subseteq> dom ?L" for now by (auto simp: live_def split: option.splits if_splits)
  have reserve: "dom (snd (ledger_reserve F s now m a b ttl ?L)) \<subseteq> insert m (dom ?L)" for s now m a b ttl
    using l[of now] by (auto simp: ledger_reserve_def)
  have renew: "dom (snd (ledger_renew now m ttl ?L)) \<subseteq> insert m (dom ?L)" for now m ttl
    by (auto simp: ledger_renew_def split: option.splits)
  have drop: "dom (?L(m := None)) \<subseteq> insert m (dom ?L)" for m by auto
  have "inflight_run F (hs @ [x]) = inflight_step F (f, c) (inflight_run F hs)" by (simp add: inflight_run_def x)
  moreover note step_ledger[OF run_in_step[of u F hs], of F f c]
  ultimately show ?case using sub[OF reserve] sub[OF renew] sub[OF drop] sub[of Map.empty] snoc.IH
    by (cases c) (auto split: if_splits simp del: inflight_step.simps fun_upd_apply dom_fun_upd)
qed

text \<open>
  C6. If the balance of a user that the requests were checked against was never above B,
  and no more than n reservations were ever live at once, then after any history of concurrent
  requests, losses and expiries the reservations in flight add up to at most B, up to a factor of
  1 - r to the n for additions with a relative error of at most r (for doubles 2 to the power of -53),
  unless a single request is in flight.
\<close>

theorem inflight_within_balance:
  assumes "rel_err F r"
    and "\<forall>f now m a b ttl. (f, CallReserve u now m a b ttl) \<in> set hs \<longrightarrow> 0 < a \<and> b \<le> B"
    and "\<forall>past rest. hs = past @ rest \<longrightarrow> card (dom (ledger u (inflight_run F past))) \<le> n"
  shows "card (dom (ledger u (inflight_run F hs))) \<le> 1 \<or> (1 - r) ^ n * pending (ledger u (inflight_run F hs)) \<le> B"
proof -
  let ?k = "(1 - r) ^ n"
  have k: "0 \<le> ?k" using assms(1) by (simp add: rel_err_def)
  have "covered ?k B (ledger u (inflight_run F hs))" using assms(2,3)
  proof (induction hs rule: rev_induct)
    case Nil
    have "ledger u (inflight_run F []) = Map.empty" by (simp add: inflight_run_def ledger_def fun_eq_iff)
    then show ?case by (simp add: covered_def)
  next
    case (snoc x hs)
    obtain f c where x: "x = (f, c)" by (cases x)
    let ?L = "ledger u (inflight_run F hs)"
    have IH: "covered ?k B ?L"
    proof (rule snoc.IH)
      show "\<forall>past rest. hs = past @ rest \<longrightarrow> card (dom (ledger u (inflight_run F past))) \<le> n"
        using snoc.prems(2) by (metis append.assoc)
    qed (use snoc.prems(1) in fastforce)
    have n: "card (dom ?L) \<le> n" using snoc.prems(2) by blast
    have e: "covered ?k B Map.empty" by (simp add: covered_def)
    have d: "covered ?k B (?L(m := None))" for m by (rule covered_sub[OF IH k]) (simp add: map_le_def)
    have v: "covered ?k B (snd (ledger_reserve F s now m a b (ttl_ms ttl) ?L))"
      if "c = CallReserve u now m a b ttl" "rounded_sum F (live now ?L) s" for now m a b ttl s
      using snoc.prems(1) that x by (intro covered_reserve[OF IH _ _ assms(1) n that(2)]) auto
    have "inflight_run F (hs @ [x]) = inflight_step F (f, c) (inflight_run F hs)" by (simp add: inflight_run_def x)
    moreover note step_ledger[OF run_in_step[of u F hs], of F f c]
    ultimately show ?case using IH e d v covered_renew[OF IH k]
      by (cases c) (auto split: if_splits simp del: inflight_step.simps)
  qed
  then show ?thesis by (simp add: covered_def)
qed

text \<open>An arithmetic that always rounds down, by as much as a double may.\<close>

definition low_floats :: floats where
  "low_floats = \<lparr>fl = (\<lambda>x. x - x / 2 ^ 53), g14 = (\<lambda>x. x)\<rparr>"

lemma low_rel_err: "rel_err low_floats (1 / 2 ^ 53)"
  by (simp add: rel_err_def low_floats_def abs_mult)

lemma inflight_refines_ledger_witness:
  "\<exists>allowed s db'. rounded_sum low_floats (live 10 (ledger 1 (inflight_run low_floats [(Fine, CallReserve 1 5 ''a'' 3 5 1000)]))) s \<and>
     ReserveInflightBalance low_floats 10 1 ''b'' 3 5 1000 (quiet (inflight_run low_floats [(Fine, CallReserve 1 5 ''a'' 3 5 1000)])) =
       (Inr (allowed, g14 low_floats s), quiet db') \<and>
     (allowed, ledger 1 db') = ledger_reserve low_floats s 10 ''b'' 3 5 (ttl_ms 1000) (ledger 1 (inflight_run low_floats [(Fine, CallReserve 1 5 ''a'' 3 5 1000)]))"
  using inflight_refines_ledger[OF refl] by blast

definition sample_history :: "(fault \<times> inflight_call) list" where
  "sample_history = [(Fine, CallReserve 1 5 ''a'' 3 5 1000), (ReplyLost, CallReserve 1 6 ''b'' 3 5 1000), (Fine, Pass 9),
     (Fine, CallReserve 1 7 ''c'' 2 5 1000)]"

lemma inflight_within_balance_witness:
  "card (dom (ledger 1 (inflight_run low_floats sample_history))) \<le> 1 \<or>
   (1 - 1 / 2 ^ 53) ^ 4 * pending (ledger 1 (inflight_run low_floats sample_history)) \<le> 5"
proof (rule inflight_within_balance[OF low_rel_err])
  show "\<forall>past rest. sample_history = past @ rest \<longrightarrow> card (dom (ledger 1 (inflight_run low_floats past))) \<le> 4"
  proof (intro allI impI)
    fix past rest assume "sample_history = past @ rest"
    then have "length past + length rest = length sample_history" by (metis length_append)
    then have "length past \<le> 4" by (simp add: sample_history_def)
    then show "card (dom (ledger 1 (inflight_run low_floats past))) \<le> 4"
      using live_le_calls[of 1 low_floats past] by simp
  qed
qed (auto simp: sample_history_def)

end
