(* ===== verification/Subscription.thy ===== *)
theory Subscription
  imports Redis_Net Prelude Complex_Main
begin

text \<open>
  Subscriptions: their usage windows (\<open>service/user_subscription.go\<close>), the rows and
  statements of \<open>repository/user_subscription_repo.go\<close>.  Instants and durations count
  nanoseconds; amounts are exact.  \<open>created_at\<close> and \<open>updated_at\<close>, which no decision
  reads, and the joined user and group are left out.

  Where a day begins and what \<open>AddDate\<close> adds is the time zone's: a \<open>calendar\<close>.
\<close>

section \<open>Data\<close>

record calendar =
  day_start :: "int \<Rightarrow> int"
  own_day_start :: "int \<Rightarrow> int"
  add_days :: "int \<Rightarrow> int \<Rightarrow> int"

definition subscriptionDayDuration :: int where "subscriptionDayDuration = 24 * 3600 * 1000000000"
definition week :: int where "week = 7 * subscriptionDayDuration"
definition month :: int where "month = 30 * subscriptionDayDuration"

definition zero_time :: int where "zero_time = - 62135596800 * 1000000000"
definition MaxExpiresAt :: int where "MaxExpiresAt = 4102444799 * 1000000000"
definition MaxValidityDays :: int where "MaxValidityDays = 36500"

definition SubscriptionStatusActive :: string where "SubscriptionStatusActive = ''active''"
definition SubscriptionStatusExpired :: string where "SubscriptionStatusExpired = ''expired''"
definition SubscriptionStatusSuspended :: string where "SubscriptionStatusSuspended = ''suspended''"
definition SubscriptionStatusRevoked :: string where "SubscriptionStatusRevoked = ''revoked''"

record UserSubscription =
  us_id :: id
  us_user :: id
  us_group :: id
  us_starts :: int
  us_expires :: int
  us_status :: string
  us_daily_start :: "int option"
  us_weekly_start :: "int option"
  us_monthly_start :: "int option"
  us_daily :: rat
  us_weekly :: rat
  us_monthly :: rat
  us_assigned_by :: "id option"
  us_assigned_at :: int
  us_notes :: go_text
  us_deleted :: "int option"

record Group =
  gr_type :: string
  gr_daily_limit :: "rat option"
  gr_weekly_limit :: "rat option"
  gr_monthly_limit :: "rat option"

definition IsSubscriptionType :: "Group \<Rightarrow> bool" where
  "IsSubscriptionType g \<longleftrightarrow> gr_type g = ''subscription''"

definition positive_limit :: "rat option \<Rightarrow> bool" where
  "positive_limit l = (case l of None \<Rightarrow> False | Some x \<Rightarrow> x > 0)"

definition HasDailyLimit :: "Group \<Rightarrow> bool" where "HasDailyLimit g = positive_limit (gr_daily_limit g)"
definition HasWeeklyLimit :: "Group \<Rightarrow> bool" where "HasWeeklyLimit g = positive_limit (gr_weekly_limit g)"
definition HasMonthlyLimit :: "Group \<Rightarrow> bool" where "HasMonthlyLimit g = positive_limit (gr_monthly_limit g)"

section \<open>Windows\<close>

definition IsActive :: "int \<Rightarrow> UserSubscription \<Rightarrow> bool" where
  "IsActive now s \<longleftrightarrow> us_status s = SubscriptionStatusActive \<and> now < us_expires s"

definition IsExpired :: "int \<Rightarrow> UserSubscription \<Rightarrow> bool" where
  "IsExpired now s \<longleftrightarrow> now > us_expires s"

text \<open>Both operands of the division are positive where the code reaches it.\<close>

definition daysRemainingAt :: "UserSubscription \<Rightarrow> int \<Rightarrow> int" where
  "daysRemainingAt s now =
     (let remaining = us_expires s - now
      in if remaining \<le> 0 then 0
         else remaining div subscriptionDayDuration + (if remaining mod subscriptionDayDuration \<noteq> 0 then 1 else 0))"

definition IsWindowActivated :: "UserSubscription \<Rightarrow> bool" where
  "IsWindowActivated s \<longleftrightarrow> us_daily_start s \<noteq> None \<or> us_weekly_start s \<noteq> None \<or> us_monthly_start s \<noteq> None"

definition HasOneTimeDailyQuota :: "calendar \<Rightarrow> UserSubscription \<Rightarrow> bool" where
  "HasOneTimeDailyQuota cal s \<longleftrightarrow>
     us_starts s \<noteq> zero_time \<and> us_expires s \<noteq> zero_time \<and> us_expires s \<le> add_days cal (us_starts s) 1"

definition automaticDailyWindowStartAt :: "calendar \<Rightarrow> UserSubscription \<Rightarrow> int \<Rightarrow> int option" where
  "automaticDailyWindowStartAt cal s now =
     (case us_daily_start s of
        None \<Rightarrow> None
      | Some start \<Rightarrow>
          if HasOneTimeDailyQuota cal s then None
          else if \<not> day_start cal now > day_start cal start then None
          else Some (day_start cal now))"

definition windowResetAnchor :: "calendar \<Rightarrow> UserSubscription \<Rightarrow> int \<Rightarrow> int" where
  "windowResetAnchor cal s previous =
     (let legacyAnchor = own_day_start cal (us_starts s)
      in if legacyAnchor < us_starts s \<and> previous = legacyAnchor then us_starts s else previous)"

definition automaticWindowStartAt :: "calendar \<Rightarrow> UserSubscription \<Rightarrow> int option \<Rightarrow> int \<Rightarrow> int \<Rightarrow> int option" where
  "automaticWindowStartAt cal s previous period now =
     (case previous of
        None \<Rightarrow> None
      | Some previous \<Rightarrow>
          (let anchor = windowResetAnchor cal s previous; start = anchor + period
           in if now < start \<or> \<not> start < us_expires s then None
              else (let periods = (now - anchor) div period;
                        lastPeriodBeforeExpiry = (us_expires s - anchor - 1) div period;
                        periods = (if periods > lastPeriodBeforeExpiry then lastPeriodBeforeExpiry else periods)
                    in Some (anchor + periods * period))))"

definition NeedsDailyResetAt :: "calendar \<Rightarrow> UserSubscription \<Rightarrow> int \<Rightarrow> bool" where
  "NeedsDailyResetAt cal s now \<longleftrightarrow> automaticDailyWindowStartAt cal s now \<noteq> None"

definition NeedsWeeklyResetAt :: "UserSubscription \<Rightarrow> int \<Rightarrow> bool" where
  "NeedsWeeklyResetAt s now = (case us_weekly_start s of None \<Rightarrow> False | Some t \<Rightarrow> \<not> now < t + week)"

definition NeedsMonthlyResetAt :: "UserSubscription \<Rightarrow> int \<Rightarrow> bool" where
  "NeedsMonthlyResetAt s now = (case us_monthly_start s of None \<Rightarrow> False | Some t \<Rightarrow> \<not> now < t + month)"

definition canAutomaticallyResetDailyAt :: "calendar \<Rightarrow> UserSubscription \<Rightarrow> int \<Rightarrow> bool" where
  "canAutomaticallyResetDailyAt cal s now \<longleftrightarrow> automaticDailyWindowStartAt cal s now \<noteq> None"
definition canAutomaticallyResetWeeklyAt :: "calendar \<Rightarrow> UserSubscription \<Rightarrow> int \<Rightarrow> bool" where
  "canAutomaticallyResetWeeklyAt cal s now \<longleftrightarrow> automaticWindowStartAt cal s (us_weekly_start s) week now \<noteq> None"
definition canAutomaticallyResetMonthlyAt :: "calendar \<Rightarrow> UserSubscription \<Rightarrow> int \<Rightarrow> bool" where
  "canAutomaticallyResetMonthlyAt cal s now \<longleftrightarrow> automaticWindowStartAt cal s (us_monthly_start s) month now \<noteq> None"

definition DailyResetTime :: "calendar \<Rightarrow> UserSubscription \<Rightarrow> int option" where
  "DailyResetTime cal s =
     (case us_daily_start s of
        None \<Rightarrow> None
      | Some t \<Rightarrow> if HasOneTimeDailyQuota cal s then Some (us_expires s) else Some (add_days cal (day_start cal t) 1))"

definition WeeklyResetTime :: "calendar \<Rightarrow> UserSubscription \<Rightarrow> int option" where
  "WeeklyResetTime cal s = map_option (\<lambda>t. windowResetAnchor cal s t + week) (us_weekly_start s)"

definition MonthlyResetTime :: "calendar \<Rightarrow> UserSubscription \<Rightarrow> int option" where
  "MonthlyResetTime cal s = map_option (\<lambda>t. windowResetAnchor cal s t + month) (us_monthly_start s)"

definition CheckDailyLimit :: "UserSubscription \<Rightarrow> Group \<Rightarrow> rat \<Rightarrow> bool" where
  "CheckDailyLimit s g extra = (if \<not> HasDailyLimit g then True else us_daily s + extra \<le> the (gr_daily_limit g))"
definition CheckWeeklyLimit :: "UserSubscription \<Rightarrow> Group \<Rightarrow> rat \<Rightarrow> bool" where
  "CheckWeeklyLimit s g extra = (if \<not> HasWeeklyLimit g then True else us_weekly s + extra \<le> the (gr_weekly_limit g))"
definition CheckMonthlyLimit :: "UserSubscription \<Rightarrow> Group \<Rightarrow> rat \<Rightarrow> bool" where
  "CheckMonthlyLimit s g extra = (if \<not> HasMonthlyLimit g then True else us_monthly s + extra \<le> the (gr_monthly_limit g))"

definition CheckAllLimits :: "UserSubscription \<Rightarrow> Group \<Rightarrow> rat \<Rightarrow> bool \<times> bool \<times> bool" where
  "CheckAllLimits s g extra = (CheckDailyLimit s g extra, CheckWeeklyLimit s g extra, CheckMonthlyLimit s g extra)"

section \<open>The table\<close>

text \<open>Live groups only; \<open>sub_next\<close> is the id sequence.\<close>

record sub_db =
  sub_rows :: "UserSubscription list"
  sub_next :: id
  sub_groups :: "id \<Rightarrow> Group option"

text \<open>A statement, or a transaction of statements: an error leaves the database as it was.\<close>

type_synonym ('d, 'a) stx = "'d \<Rightarrow> (err + 'a) \<times> 'd"
type_synonym 'a act = "(sub_db, 'a) stx"

definition returnA :: "'a \<Rightarrow> ('d, 'a) stx" where "returnA a db = (Inr a, db)"
definition failA :: "err \<Rightarrow> ('d, 'a) stx" where "failA e db = (Inl e, db)"
definition bindA :: "('d, 'a) stx \<Rightarrow> ('a \<Rightarrow> ('d, 'b) stx) \<Rightarrow> ('d, 'b) stx" where
  "bindA p k db = (case p db of (Inl e, db') \<Rightarrow> (Inl e, db') | (Inr a, db') \<Rightarrow> k a db')"

definition ErrSubscriptionNotFound :: err where "ErrSubscriptionNotFound = ErrInvalid ''SUBSCRIPTION_NOT_FOUND''"
definition ErrSubscriptionExpired :: err where "ErrSubscriptionExpired = ErrInvalid ''SUBSCRIPTION_EXPIRED''"
definition ErrSubscriptionSuspended :: err where "ErrSubscriptionSuspended = ErrInvalid ''SUBSCRIPTION_SUSPENDED''"
definition ErrSubscriptionAlreadyExists :: err where "ErrSubscriptionAlreadyExists = ErrInvalid ''SUBSCRIPTION_ALREADY_EXISTS''"
definition ErrSubscriptionAssignConflict :: err where "ErrSubscriptionAssignConflict = ErrInvalid ''SUBSCRIPTION_ASSIGN_CONFLICT''"
definition ErrSubscriptionNotRevoked :: err where "ErrSubscriptionNotRevoked = ErrInvalid ''SUBSCRIPTION_NOT_REVOKED''"
definition ErrSubscriptionRestoreConflict :: err where "ErrSubscriptionRestoreConflict = ErrInvalid ''SUBSCRIPTION_RESTORE_CONFLICT''"
definition ErrGroupNotSubscriptionType :: err where "ErrGroupNotSubscriptionType = ErrInvalid ''GROUP_NOT_SUBSCRIPTION_TYPE''"
definition ErrInvalidInput :: err where "ErrInvalidInput = ErrInvalid ''INVALID_INPUT''"
definition ErrDailyLimitExceeded :: err where "ErrDailyLimitExceeded = ErrInvalid ''DAILY_LIMIT_EXCEEDED''"
definition ErrWeeklyLimitExceeded :: err where "ErrWeeklyLimitExceeded = ErrInvalid ''WEEKLY_LIMIT_EXCEEDED''"
definition ErrMonthlyLimitExceeded :: err where "ErrMonthlyLimitExceeded = ErrInvalid ''MONTHLY_LIMIT_EXCEEDED''"
definition ErrAdjustWouldExpire :: err where "ErrAdjustWouldExpire = ErrInvalid ''ADJUST_WOULD_EXPIRE''"

lemmas sub_errors = ErrSubscriptionNotFound_def ErrSubscriptionExpired_def ErrSubscriptionSuspended_def
  ErrSubscriptionAlreadyExists_def ErrSubscriptionAssignConflict_def ErrSubscriptionNotRevoked_def
  ErrSubscriptionRestoreConflict_def ErrGroupNotSubscriptionType_def ErrInvalidInput_def
  ErrDailyLimitExceeded_def ErrWeeklyLimitExceeded_def ErrMonthlyLimitExceeded_def ErrAdjustWouldExpire_def

text \<open>\<open>Only\<close>: exactly one row, not deleted unless the soft-delete filter is skipped.\<close>

definition undeleted :: "UserSubscription \<Rightarrow> bool" where "undeleted r \<longleftrightarrow> us_deleted r = None"

definition only_row :: "(UserSubscription \<Rightarrow> bool) \<Rightarrow> UserSubscription act" where
  "only_row P db =
     (case filter P (sub_rows db) of
        [] \<Rightarrow> (Inl ErrSubscriptionNotFound, db) | [r] \<Rightarrow> (Inr r, db) | _ \<Rightarrow> (Inl (ErrInvalid ''not singular''), db))"

text \<open>An update of all matching rows with their number, and of one row by its id.\<close>

definition update_subs :: "(UserSubscription \<Rightarrow> bool) \<Rightarrow> (UserSubscription \<Rightarrow> UserSubscription) \<Rightarrow> int act" where
  "update_subs P f db =
     (Inr (int (length (filter P (sub_rows db)))), db\<lparr>sub_rows := map (\<lambda>r. if P r then f r else r) (sub_rows db)\<rparr>)"

definition update_one :: "id \<Rightarrow> (UserSubscription \<Rightarrow> UserSubscription) \<Rightarrow> unit act" where
  "update_one i f =
     bindA (update_subs (\<lambda>r. us_id r = i) f) (\<lambda>n. if n = 0 then failA ErrSubscriptionNotFound else returnA ())"

text \<open>The partial unique index on (user, group) of the rows that are not deleted.\<close>

definition taken :: "id \<Rightarrow> id \<Rightarrow> id \<Rightarrow> sub_db \<Rightarrow> bool" where
  "taken i u g db \<longleftrightarrow> list_ex (\<lambda>r. us_id r \<noteq> i \<and> undeleted r \<and> us_user r = u \<and> us_group r = g) (sub_rows db)"

definition Create :: "UserSubscription \<Rightarrow> id act" where
  "Create sub db =
     (if list_ex (\<lambda>r. undeleted r \<and> us_user r = us_user sub \<and> us_group r = us_group sub) (sub_rows db)
      then (Inl ErrSubscriptionAlreadyExists, db)
      else (Inr (sub_next db),
            db\<lparr>sub_rows := sub_rows db @ [sub\<lparr>us_id := sub_next db, us_deleted := None\<rparr>], sub_next := sub_next db + 1\<rparr>))"

definition GetByID :: "id \<Rightarrow> UserSubscription act" where
  "GetByID i = only_row (\<lambda>r. us_id r = i \<and> undeleted r)"

definition GetByIDForUpdate :: "id \<Rightarrow> UserSubscription act" where
  "GetByIDForUpdate i = only_row (\<lambda>r. us_id r = i \<and> undeleted r)"

definition GetByIDIncludeDeleted :: "id \<Rightarrow> UserSubscription act" where
  "GetByIDIncludeDeleted i = only_row (\<lambda>r. us_id r = i)"

definition GetByUserIDAndGroupID :: "id \<Rightarrow> id \<Rightarrow> UserSubscription act" where
  "GetByUserIDAndGroupID u g = only_row (\<lambda>r. us_user r = u \<and> us_group r = g \<and> undeleted r)"

definition GetActiveByUserIDAndGroupID :: "int \<Rightarrow> id \<Rightarrow> id \<Rightarrow> UserSubscription act" where
  "GetActiveByUserIDAndGroupID now u g =
     only_row (\<lambda>r. us_user r = u \<and> us_group r = g \<and> us_status r = SubscriptionStatusActive \<and> us_expires r > now \<and> undeleted r)"

text \<open>\<open>SetNillable\<close> leaves a field alone when it gets nil.\<close>

definition keep_nil :: "'a option \<Rightarrow> 'a option \<Rightarrow> 'a option" where
  "keep_nil new old = (case new of None \<Rightarrow> old | Some x \<Rightarrow> Some x)"

definition set_row :: "UserSubscription \<Rightarrow> UserSubscription \<Rightarrow> UserSubscription" where
  "set_row sub r = sub\<lparr>us_id := us_id r,
     us_daily_start := keep_nil (us_daily_start sub) (us_daily_start r),
     us_weekly_start := keep_nil (us_weekly_start sub) (us_weekly_start r),
     us_monthly_start := keep_nil (us_monthly_start sub) (us_monthly_start r),
     us_assigned_by := keep_nil (us_assigned_by sub) (us_assigned_by r), us_deleted := us_deleted r\<rparr>"

definition UpdateSub :: "UserSubscription \<Rightarrow> unit act" where
  "UpdateSub sub db =
     (if list_ex (\<lambda>r. us_id r = us_id sub \<and> undeleted r) (sub_rows db) \<and> taken (us_id sub) (us_user sub) (us_group sub) db
      then (Inl ErrSubscriptionAlreadyExists, db) else update_one (us_id sub) (set_row sub) db)"

definition DeleteSub :: "int \<Rightarrow> id \<Rightarrow> unit act" where
  "DeleteSub now i = bindA (update_subs (\<lambda>r. us_id r = i \<and> undeleted r) (\<lambda>r. r\<lparr>us_deleted := Some now\<rparr>)) (\<lambda>_. returnA ())"

definition restore_row :: "id \<Rightarrow> string \<Rightarrow> unit act" where
  "restore_row i status db =
     (if list_ex (\<lambda>r. us_id r = i \<and> taken i (us_user r) (us_group r) db) (sub_rows db)
      then (Inl ErrSubscriptionRestoreConflict, db)
      else update_one i (\<lambda>r. r\<lparr>us_status := status, us_deleted := None\<rparr>) db)"

definition ExistsByUserIDAndGroupID :: "id \<Rightarrow> id \<Rightarrow> bool act" where
  "ExistsByUserIDAndGroupID u g db = (Inr (list_ex (\<lambda>r. us_user r = u \<and> us_group r = g \<and> undeleted r) (sub_rows db)), db)"

definition ExistsActiveByUserIDAndGroupID :: "id \<Rightarrow> id \<Rightarrow> bool act" where
  "ExistsActiveByUserIDAndGroupID u g = ExistsByUserIDAndGroupID u g"

definition ExtendExpiry :: "id \<Rightarrow> int \<Rightarrow> unit act" where
  "ExtendExpiry i t = update_one i (\<lambda>r. r\<lparr>us_expires := t\<rparr>)"
definition UpdateStatus :: "id \<Rightarrow> string \<Rightarrow> unit act" where
  "UpdateStatus i status = update_one i (\<lambda>r. r\<lparr>us_status := status\<rparr>)"
definition UpdateNotes :: "id \<Rightarrow> go_text \<Rightarrow> unit act" where
  "UpdateNotes i notes = update_one i (\<lambda>r. r\<lparr>us_notes := notes\<rparr>)"

definition activate_rows :: "id \<Rightarrow> int \<Rightarrow> int \<Rightarrow> int act" where
  "activate_rows i dailyStart periodicStart =
     update_subs (\<lambda>r. us_id r = i \<and> us_daily_start r = None \<and> us_weekly_start r = None \<and> us_monthly_start r = None)
       (\<lambda>r. r\<lparr>us_daily_start := Some dailyStart, us_weekly_start := Some periodicStart, us_monthly_start := Some periodicStart\<rparr>)"

definition reset_fields :: "bool \<Rightarrow> bool \<Rightarrow> bool \<Rightarrow> int \<Rightarrow> int \<Rightarrow> UserSubscription \<Rightarrow> UserSubscription" where
  "reset_fields daily weekly monthly dailyStart periodicStart r =
     (let r = (if daily then r\<lparr>us_daily := 0, us_daily_start := Some dailyStart\<rparr> else r);
          r = (if weekly then r\<lparr>us_weekly := 0, us_weekly_start := Some periodicStart\<rparr> else r)
      in if monthly then r\<lparr>us_monthly := 0, us_monthly_start := Some periodicStart\<rparr> else r)"

definition ResetUsageWindows :: "id \<Rightarrow> bool \<Rightarrow> bool \<Rightarrow> bool \<Rightarrow> int \<Rightarrow> int \<Rightarrow> unit act" where
  "ResetUsageWindows i daily weekly monthly dailyStart periodicStart =
     update_one i (reset_fields daily weekly monthly dailyStart periodicStart)"

definition daily_rows :: "id \<Rightarrow> int option \<Rightarrow> int \<Rightarrow> int act" where
  "daily_rows i expected start =
     update_subs (\<lambda>r. us_id r = i \<and> us_daily_start r = expected) (\<lambda>r. r\<lparr>us_daily := 0, us_daily_start := Some start\<rparr>)"
definition weekly_rows :: "id \<Rightarrow> int option \<Rightarrow> int \<Rightarrow> int act" where
  "weekly_rows i expected start =
     update_subs (\<lambda>r. us_id r = i \<and> us_weekly_start r = expected) (\<lambda>r. r\<lparr>us_weekly := 0, us_weekly_start := Some start\<rparr>)"
definition monthly_rows :: "id \<Rightarrow> int option \<Rightarrow> int \<Rightarrow> int act" where
  "monthly_rows i expected start =
     update_subs (\<lambda>r. us_id r = i \<and> us_monthly_start r = expected) (\<lambda>r. r\<lparr>us_monthly := 0, us_monthly_start := Some start\<rparr>)"

definition IncrementUsage :: "id \<Rightarrow> rat \<Rightarrow> unit act" where
  "IncrementUsage i cost =
     bindA (\<lambda>db. update_subs (\<lambda>r. us_id r = i \<and> undeleted r \<and> sub_groups db (us_group r) \<noteq> None)
              (\<lambda>r. r\<lparr>us_daily := us_daily r + cost, us_weekly := us_weekly r + cost, us_monthly := us_monthly r + cost\<rparr>) db)
       (\<lambda>affected. if affected > 0 then returnA () else failA ErrSubscriptionNotFound)"

definition BatchUpdateExpiredStatus :: "int \<Rightarrow> int act" where
  "BatchUpdateExpiredStatus now =
     update_subs (\<lambda>r. us_status r = SubscriptionStatusActive \<and> us_expires r \<le> now) (\<lambda>r. r\<lparr>us_status := SubscriptionStatusExpired\<rparr>)"

definition ListByUserID :: "id \<Rightarrow> UserSubscription list act" where
  "ListByUserID u db = (Inr (rev (filter (\<lambda>r. us_user r = u \<and> undeleted r) (sub_rows db))), db)"
definition ListActiveByUserID :: "int \<Rightarrow> id \<Rightarrow> UserSubscription list act" where
  "ListActiveByUserID now u db =
     (Inr (rev (filter (\<lambda>r. us_user r = u \<and> us_status r = SubscriptionStatusActive \<and> us_expires r > now \<and> undeleted r) (sub_rows db))), db)"
definition CountByGroupID :: "id \<Rightarrow> int act" where
  "CountByGroupID g db = (Inr (int (length (filter (\<lambda>r. us_group r = g \<and> undeleted r) (sub_rows db)))), db)"
definition CountActiveByGroupID :: "int \<Rightarrow> id \<Rightarrow> int act" where
  "CountActiveByGroupID now g db =
     (Inr (int (length (filter (\<lambda>r. us_group r = g \<and> us_status r = SubscriptionStatusActive \<and> us_expires r > now \<and> undeleted r) (sub_rows db)))), db)"
definition DeleteByGroupID :: "int \<Rightarrow> id \<Rightarrow> int act" where
  "DeleteByGroupID now g = update_subs (\<lambda>r. us_group r = g \<and> undeleted r) (\<lambda>r. r\<lparr>us_deleted := Some now\<rparr>)"

section \<open>Over the connection\<close>

definition sql :: "('d, 'a) stx \<Rightarrow> ('d, 'a) prog" where
  "sql p = bindW (round_trip p) (\<lambda>r. case r of Inl e \<Rightarrow> failW e | Inr a \<Rightarrow> returnW a)"

text \<open>
  A transaction that starts by locking its row: the statements of others on that row wait
  for its end, so it is one step.  An error, also of a single statement, rolls it back.
\<close>

definition withSubscriptionUpdateTx :: "('d, 'a) stx \<Rightarrow> ('d, 'a) prog" where
  "withSubscriptionUpdateTx p = sql (\<lambda>db. case p db of (Inl e, _) \<Rightarrow> (Inl e, db) | (Inr a, db') \<Rightarrow> (Inr a, db'))"

text \<open>A conditional update that matched no row is a second look at the table.\<close>

definition translateConditionalWindowReset :: "id \<Rightarrow> int \<Rightarrow> (sub_db, unit) prog" where
  "translateConditionalWindowReset i affected =
     (if affected > 0 then returnW ()
      else bindW (query (\<lambda>db. list_ex (\<lambda>r. us_id r = i \<and> undeleted r) (sub_rows db)))
             (\<lambda>found. if found then returnW () else failW ErrSubscriptionNotFound))"

definition ActivateWindows :: "id \<Rightarrow> int \<Rightarrow> int \<Rightarrow> (sub_db, unit) prog" where
  "ActivateWindows i dailyStart periodicStart =
     bindW (sql (activate_rows i dailyStart periodicStart)) (translateConditionalWindowReset i)"
definition ResetDailyUsage :: "id \<Rightarrow> int option \<Rightarrow> int \<Rightarrow> (sub_db, unit) prog" where
  "ResetDailyUsage i expected start = bindW (sql (daily_rows i expected start)) (translateConditionalWindowReset i)"
definition ResetWeeklyUsage :: "id \<Rightarrow> int option \<Rightarrow> int \<Rightarrow> (sub_db, unit) prog" where
  "ResetWeeklyUsage i expected start = bindW (sql (weekly_rows i expected start)) (translateConditionalWindowReset i)"
definition ResetMonthlyUsage :: "id \<Rightarrow> int option \<Rightarrow> int \<Rightarrow> (sub_db, unit) prog" where
  "ResetMonthlyUsage i expected start = bindW (sql (monthly_rows i expected start)) (translateConditionalWindowReset i)"

definition Restore :: "id \<Rightarrow> string \<Rightarrow> (sub_db, UserSubscription) prog" where
  "Restore i status = bindW (sql (restore_row i status)) (\<lambda>_. sql (GetByID i))"

end
