(* ===== verification/Subscription_Service.thy ===== *)
theory Subscription_Service
  imports Subscription
begin

text \<open>
  The subscription service (\<open>service/subscription_service.go\<close>) and its use by the API key
  middleware.  Every reading of the clock is an argument.  The service's own cache and the
  asynchronous invalidations have no effect on the table; the synchronous ones are round
  trips that may fail (\<open>cached\<close> says whether a billing cache is there).
\<close>

section \<open>Assignment and renewal\<close>

record AssignSubscriptionInput =
  in_user :: id
  in_group :: id
  in_days :: int
  in_by :: id
  in_notes :: go_text

definition normalizeAssignValidityDays :: "int \<Rightarrow> int" where
  "normalizeAssignValidityDays days =
     (let days = (if days \<le> 0 then 30 else days) in if days > MaxValidityDays then MaxValidityDays else days)"

definition cap_expiry :: "int \<Rightarrow> int" where
  "cap_expiry t = (if t > MaxExpiresAt then MaxExpiresAt else t)"

definition appendSubscriptionNotes :: "go_text \<Rightarrow> go_text \<Rightarrow> go_text" where
  "appendSubscriptionNotes existing new =
     (if new = [] then existing else if existing = [] then new else existing @ [10] @ new)"

definition renewedSubscriptionTerm :: "calendar \<Rightarrow> UserSubscription \<Rightarrow> go_text \<Rightarrow> int \<Rightarrow> int \<Rightarrow> UserSubscription" where
  "renewedSubscriptionTerm cal existing notes startsAt expiresAt = existing\<lparr>
     us_starts := startsAt, us_expires := expiresAt, us_status := SubscriptionStatusActive,
     us_daily_start := Some (day_start cal startsAt), us_weekly_start := Some startsAt, us_monthly_start := Some startsAt,
     us_daily := 0, us_weekly := 0, us_monthly := 0, us_notes := appendSubscriptionNotes (us_notes existing) notes\<rparr>"

definition term_expired :: "bool \<Rightarrow> int \<Rightarrow> UserSubscription \<Rightarrow> bool" where
  "term_expired assignmentSemantics now s \<longleftrightarrow>
     (if assignmentSemantics
      then us_status s = SubscriptionStatusExpired \<or> (us_status s \<noteq> SubscriptionStatusSuspended \<and> \<not> us_expires s > now)
      else \<not> us_expires s > now)"

definition renew_term :: "calendar \<Rightarrow> int \<Rightarrow> int \<Rightarrow> go_text \<Rightarrow> bool \<Rightarrow> UserSubscription \<Rightarrow> unit act" where
  "renew_term cal now days notes assignmentSemantics existing =
     (if assignmentSemantics \<and> us_status existing = SubscriptionStatusSuspended then returnA ()
      else (let isExpired = term_expired assignmentSemantics now existing;
                newExpiresAt = cap_expiry (if isExpired then add_days cal now days else add_days cal (us_expires existing) days);
                notes = (if assignmentSemantics \<and> trim_space (us_notes existing) = trim_space notes then [] else notes)
            in if isExpired then UpdateSub (renewedSubscriptionTerm cal existing notes now newExpiresAt)
               else bindA (ExtendExpiry (us_id existing) newExpiresAt) (\<lambda>_.
                    bindA (if us_status existing \<noteq> SubscriptionStatusActive
                           then UpdateStatus (us_id existing) SubscriptionStatusActive else returnA ()) (\<lambda>_.
                    if notes \<noteq> [] then UpdateNotes (us_id existing) (appendSubscriptionNotes (us_notes existing) notes)
                    else returnA ()))))"

definition updateExistingSubscriptionTerm :: "calendar \<Rightarrow> int \<Rightarrow> id \<Rightarrow> int \<Rightarrow> go_text \<Rightarrow> bool \<Rightarrow> (sub_db, unit) prog" where
  "updateExistingSubscriptionTerm cal now i days notes assignmentSemantics =
     withSubscriptionUpdateTx (bindA (GetByIDForUpdate i) (renew_term cal now days notes assignmentSemantics))"

definition new_subscription :: "calendar \<Rightarrow> int \<Rightarrow> AssignSubscriptionInput \<Rightarrow> UserSubscription" where
  "new_subscription cal now i = \<lparr>us_id = 0, us_user = in_user i, us_group = in_group i, us_starts = now,
     us_expires = cap_expiry (add_days cal now (normalizeAssignValidityDays (in_days i))), us_status = SubscriptionStatusActive,
     us_daily_start = None, us_weekly_start = None, us_monthly_start = None, us_daily = 0, us_weekly = 0, us_monthly = 0,
     us_assigned_by = (if in_by i > 0 then Some (in_by i) else None), us_assigned_at = now, us_notes = in_notes i, us_deleted = None\<rparr>"

definition createSubscription :: "calendar \<Rightarrow> int \<Rightarrow> AssignSubscriptionInput \<Rightarrow> (sub_db, UserSubscription) prog" where
  "createSubscription cal now input = bindW (sql (Create (new_subscription cal now input))) (\<lambda>i. sql (GetByID i))"

definition require_subscription_group :: "id \<Rightarrow> (sub_db, unit) prog" where
  "require_subscription_group g =
     bindW (query (\<lambda>db. sub_groups db g)) (\<lambda>group. case group of
        None \<Rightarrow> failW (ErrInvalid ''group not found'')
      | Some gr \<Rightarrow> if \<not> IsSubscriptionType gr then failW ErrGroupNotSubscriptionType else returnW ())"

definition detectAssignSemanticConflict :: "calendar \<Rightarrow> UserSubscription \<Rightarrow> AssignSubscriptionInput \<Rightarrow> string option" where
  "detectAssignSemanticConflict cal existing input =
     (if us_starts existing \<noteq> zero_time \<and>
         us_expires existing \<noteq> cap_expiry (add_days cal (us_starts existing) (normalizeAssignValidityDays (in_days input)))
      then Some ''validity_days_mismatch''
      else if trim_space (us_notes existing) \<noteq> trim_space (in_notes input) then Some ''notes_mismatch''
      else None)"

text \<open>\<open>now\<close> is the check's reading of the clock, \<open>now'\<close> that of the write.\<close>

definition assignSubscriptionWithReuse ::
    "calendar \<Rightarrow> int \<Rightarrow> int \<Rightarrow> AssignSubscriptionInput \<Rightarrow> (sub_db, UserSubscription \<times> bool) prog" where
  "assignSubscriptionWithReuse cal now now' input =
     bindW (require_subscription_group (in_group input)) (\<lambda>_.
     bindW (sql (ExistsByUserIDAndGroupID (in_user input) (in_group input))) (\<lambda>exists.
     if exists then
       bindW (sql (GetByUserIDAndGroupID (in_user input) (in_group input))) (\<lambda>sub.
       if term_expired True now sub
       then bindW (updateExistingSubscriptionTerm cal now' (us_id sub) (normalizeAssignValidityDays (in_days input)) (in_notes input) True) (\<lambda>_.
            bindW (sql (GetByID (us_id sub))) (\<lambda>renewed. returnW (renewed, True)))
       else (case detectAssignSemanticConflict cal sub input of
               Some _ \<Rightarrow> failW ErrSubscriptionAssignConflict
             | None \<Rightarrow> returnW (sub, True)))
     else bindW (createSubscription cal now' input) (\<lambda>sub. returnW (sub, False))))"

definition AssignSubscription :: "calendar \<Rightarrow> int \<Rightarrow> int \<Rightarrow> AssignSubscriptionInput \<Rightarrow> (sub_db, UserSubscription) prog" where
  "AssignSubscription cal now now' input = bindW (assignSubscriptionWithReuse cal now now' input) (\<lambda>p. returnW (fst p))"

text \<open>Any error of the look-up counts as no subscription; the unique index guards the insert.\<close>

definition AssignOrExtendSubscription :: "calendar \<Rightarrow> int \<Rightarrow> AssignSubscriptionInput \<Rightarrow> (sub_db, UserSubscription \<times> bool) prog" where
  "AssignOrExtendSubscription cal now input =
     bindW (require_subscription_group (in_group input)) (\<lambda>_.
     bindW (catchW (sql (GetByUserIDAndGroupID (in_user input) (in_group input)))) (\<lambda>existing. case existing of
        Inr ex \<Rightarrow>
          bindW (updateExistingSubscriptionTerm cal now (us_id ex) (normalizeAssignValidityDays (in_days input)) (in_notes input) False) (\<lambda>_.
          bindW (sql (GetByID (us_id ex))) (\<lambda>sub. returnW (sub, True)))
      | Inl _ \<Rightarrow> bindW (createSubscription cal now input) (\<lambda>sub. returnW (sub, False))))"

record BulkAssignResult =
  ba_success :: nat
  ba_created :: nat
  ba_reused :: nat
  ba_failed :: nat
  ba_subscriptions :: "UserSubscription list"
  ba_errors :: "(id \<times> err) list"
  ba_statuses :: "id \<Rightarrow> string option"

fun bulk_assign ::
    "calendar \<Rightarrow> int \<Rightarrow> int \<Rightarrow> AssignSubscriptionInput \<Rightarrow> id list \<Rightarrow> BulkAssignResult \<Rightarrow> (sub_db, BulkAssignResult) prog" where
  "bulk_assign cal now now' input [] result = returnW result"
| "bulk_assign cal now now' input (u # us) result =
     bindW (catchW (assignSubscriptionWithReuse cal now now' (input\<lparr>in_user := u\<rparr>))) (\<lambda>r.
     bulk_assign cal now now' input us (case r of
        Inl e \<Rightarrow> result\<lparr>ba_failed := ba_failed result + 1, ba_errors := ba_errors result @ [(u, e)],
                   ba_statuses := (ba_statuses result)(u \<mapsto> ''failed'')\<rparr>
      | Inr (sub, reused) \<Rightarrow>
          (let result = result\<lparr>ba_success := ba_success result + 1, ba_subscriptions := ba_subscriptions result @ [sub]\<rparr>
           in if reused then result\<lparr>ba_reused := ba_reused result + 1, ba_statuses := (ba_statuses result)(u \<mapsto> ''reused'')\<rparr>
              else result\<lparr>ba_created := ba_created result + 1, ba_statuses := (ba_statuses result)(u \<mapsto> ''created'')\<rparr>)))"

definition BulkAssignSubscription ::
    "calendar \<Rightarrow> int \<Rightarrow> int \<Rightarrow> AssignSubscriptionInput \<Rightarrow> id list \<Rightarrow> (sub_db, BulkAssignResult) prog" where
  "BulkAssignSubscription cal now now' input us = bulk_assign cal now now' input us
     \<lparr>ba_success = 0, ba_created = 0, ba_reused = 0, ba_failed = 0, ba_subscriptions = [], ba_errors = [], ba_statuses = Map.empty\<rparr>"

definition invalidateSubscriptionCaches :: "bool \<Rightarrow> ('d, unit) prog" where
  "invalidateSubscriptionCaches cached =
     (if cached then bindW (query (\<lambda>_. ())) (\<lambda>_. query (\<lambda>_. ())) else returnW ())"

definition RevokeSubscription :: "bool \<Rightarrow> int \<Rightarrow> id \<Rightarrow> (sub_db, unit) prog" where
  "RevokeSubscription cached now i =
     bindW (sql (GetByID i)) (\<lambda>_. bindW (sql (DeleteSub now i)) (\<lambda>_. invalidateSubscriptionCaches cached))"

definition RestoreSubscription :: "bool \<Rightarrow> int \<Rightarrow> id \<Rightarrow> (sub_db, UserSubscription) prog" where
  "RestoreSubscription cached now i =
     bindW (sql (GetByIDIncludeDeleted i)) (\<lambda>sub.
     if us_deleted sub = None then failW ErrSubscriptionNotRevoked
     else bindW (sql (ExistsActiveByUserIDAndGroupID (us_user sub) (us_group sub))) (\<lambda>exists.
          if exists then failW ErrSubscriptionRestoreConflict
          else bindW (Restore i (if us_status sub = SubscriptionStatusActive \<and> \<not> us_expires sub > now
                                 then SubscriptionStatusExpired else us_status sub)) (\<lambda>restored.
               bindW (invalidateSubscriptionCaches cached) (\<lambda>_. returnW restored))))"

definition adjust_term :: "calendar \<Rightarrow> int \<Rightarrow> int \<Rightarrow> UserSubscription \<Rightarrow> unit act" where
  "adjust_term cal now days sub =
     (let days = (if days > MaxValidityDays then MaxValidityDays else days);
          days = (if days < - MaxValidityDays then - MaxValidityDays else days);
          isExpired = (\<not> us_expires sub > now)
      in if isExpired \<and> days < 0 then failA (ErrInvalid ''CANNOT_SHORTEN_EXPIRED'')
         else (let newExpiresAt = cap_expiry (if isExpired then add_days cal now days else add_days cal (us_expires sub) days)
               in if \<not> newExpiresAt > now then failA ErrAdjustWouldExpire
                  else bindA (ExtendExpiry (us_id sub) newExpiresAt) (\<lambda>_.
                       if us_status sub = SubscriptionStatusExpired then UpdateStatus (us_id sub) SubscriptionStatusActive
                       else returnA ())))"

definition lock_for_adjust :: "id \<Rightarrow> UserSubscription act" where
  "lock_for_adjust i db = (case GetByIDForUpdate i db of (Inl _, db') \<Rightarrow> (Inl ErrSubscriptionNotFound, db') | r \<Rightarrow> r)"

definition ExtendSubscription :: "calendar \<Rightarrow> int \<Rightarrow> id \<Rightarrow> int \<Rightarrow> (sub_db, UserSubscription) prog" where
  "ExtendSubscription cal now i days =
     bindW (withSubscriptionUpdateTx (bindA (lock_for_adjust i) (adjust_term cal now days))) (\<lambda>_. sql (GetByID i))"

section \<open>Reading\<close>

text \<open>\<open>l1\<close> is the answer of the in-process cache.\<close>

definition GetActiveSubscription :: "UserSubscription option \<Rightarrow> int \<Rightarrow> id \<Rightarrow> id \<Rightarrow> (sub_db, UserSubscription) prog" where
  "GetActiveSubscription l1 now u g =
     (case l1 of Some s \<Rightarrow> returnW s | None \<Rightarrow> sql (GetActiveByUserIDAndGroupID now u g))"

definition normalizeExpiredWindowsAt :: "calendar \<Rightarrow> int \<Rightarrow> UserSubscription \<Rightarrow> UserSubscription" where
  "normalizeExpiredWindowsAt cal now s =
     (let s = (if canAutomaticallyResetDailyAt cal s now then s\<lparr>us_daily_start := None, us_daily := 0\<rparr> else s);
          s = (if canAutomaticallyResetWeeklyAt cal s now then s\<lparr>us_weekly_start := None, us_weekly := 0\<rparr> else s)
      in if canAutomaticallyResetMonthlyAt cal s now then s\<lparr>us_monthly_start := None, us_monthly := 0\<rparr> else s)"

definition normalizeSubscriptionStatus :: "int \<Rightarrow> UserSubscription \<Rightarrow> UserSubscription" where
  "normalizeSubscriptionStatus now s =
     (if us_status s = SubscriptionStatusActive \<and> \<not> us_expires s > now then s\<lparr>us_status := SubscriptionStatusExpired\<rparr> else s)"

definition ListUserSubscriptions :: "calendar \<Rightarrow> int \<Rightarrow> int \<Rightarrow> id \<Rightarrow> (sub_db, UserSubscription list) prog" where
  "ListUserSubscriptions cal now now' u =
     bindW (sql (ListByUserID u)) (\<lambda>subs.
     returnW (map (normalizeSubscriptionStatus now') (map (normalizeExpiredWindowsAt cal now) subs)))"

definition ListActiveUserSubscriptions :: "calendar \<Rightarrow> int \<Rightarrow> int \<Rightarrow> id \<Rightarrow> (sub_db, UserSubscription list) prog" where
  "ListActiveUserSubscriptions cal now now' u =
     bindW (sql (ListActiveByUserID now u)) (\<lambda>subs. returnW (map (normalizeExpiredWindowsAt cal now') subs))"

record UsageWindowProgress =
  wp_limit :: rat
  wp_used :: rat
  wp_remaining :: rat
  wp_percentage :: rat
  wp_start :: int
  wp_resets_at :: int
  wp_resets_in :: int

definition window_progress :: "rat \<Rightarrow> rat \<Rightarrow> int \<Rightarrow> int \<Rightarrow> int \<Rightarrow> UsageWindowProgress" where
  "window_progress limit used start resetsAt now =
     \<lparr>wp_limit = limit, wp_used = used,
      wp_remaining = (if limit - used < 0 then 0 else limit - used),
      wp_percentage = (if used / limit * 100 > 100 then 100 else used / limit * 100),
      wp_start = start, wp_resets_at = resetsAt,
      wp_resets_in = (if resetsAt - now < 0 then 0 else (resetsAt - now) div 1000000000)\<rparr>"

record SubscriptionProgress =
  sp_id :: id
  sp_expires :: int
  sp_expires_in_days :: int
  sp_daily :: "UsageWindowProgress option"
  sp_weekly :: "UsageWindowProgress option"
  sp_monthly :: "UsageWindowProgress option"

definition calculateProgress :: "calendar \<Rightarrow> int \<Rightarrow> UserSubscription \<Rightarrow> Group \<Rightarrow> SubscriptionProgress" where
  "calculateProgress cal now s g =
     \<lparr>sp_id = us_id s, sp_expires = us_expires s, sp_expires_in_days = daysRemainingAt s now,
      sp_daily = (case us_daily_start s of None \<Rightarrow> None | Some t \<Rightarrow>
        if HasDailyLimit g then Some (window_progress (the (gr_daily_limit g)) (us_daily s) t
             (case DailyResetTime cal s of None \<Rightarrow> t + subscriptionDayDuration | Some r \<Rightarrow> r) now) else None),
      sp_weekly = (case us_weekly_start s of None \<Rightarrow> None | Some t \<Rightarrow>
        if HasWeeklyLimit g then Some (window_progress (the (gr_weekly_limit g)) (us_weekly s) t
             (case WeeklyResetTime cal s of None \<Rightarrow> t + week | Some r \<Rightarrow> r) now) else None),
      sp_monthly = (case us_monthly_start s of None \<Rightarrow> None | Some t \<Rightarrow>
        if HasMonthlyLimit g then Some (window_progress (the (gr_monthly_limit g)) (us_monthly s) t
             (case MonthlyResetTime cal s of None \<Rightarrow> t + month | Some r \<Rightarrow> r) now) else None)\<rparr>"

section \<open>Window maintenance\<close>

definition CheckAndActivateWindow :: "calendar \<Rightarrow> int \<Rightarrow> UserSubscription \<Rightarrow> (sub_db, unit) prog" where
  "CheckAndActivateWindow cal now s =
     (if IsWindowActivated s then returnW () else ActivateWindows (us_id s) (day_start cal now) now)"

definition AdminResetQuota :: "calendar \<Rightarrow> bool \<Rightarrow> int \<Rightarrow> id \<Rightarrow> bool \<Rightarrow> bool \<Rightarrow> bool \<Rightarrow> (sub_db, UserSubscription) prog" where
  "AdminResetQuota cal cached now i daily weekly monthly =
     (if \<not> daily \<and> \<not> weekly \<and> \<not> monthly then failW ErrInvalidInput
      else bindW (sql (GetByID i)) (\<lambda>s.
           bindW (sql (ResetUsageWindows (us_id s) daily weekly monthly (day_start cal now) now)) (\<lambda>_.
           bindW (if cached then tryW (query (\<lambda>_. ())) else returnW ()) (\<lambda>_. sql (GetByID i)))))"

text \<open>One window of \<open>CheckAndResetWindows\<close>: the compare-and-set from the start that was read.\<close>

definition maintain_window ::
    "int option \<Rightarrow> (int \<Rightarrow> (sub_db, unit) prog) \<Rightarrow> (int \<Rightarrow> UserSubscription) \<Rightarrow> UserSubscription \<Rightarrow> (sub_db, UserSubscription) prog" where
  "maintain_window due reset advance s =
     (case due of None \<Rightarrow> returnW s | Some start \<Rightarrow> bindW (reset start) (\<lambda>_. returnW (advance start)))"

definition CheckAndResetWindows :: "calendar \<Rightarrow> bool \<Rightarrow> int \<Rightarrow> UserSubscription \<Rightarrow> (sub_db, UserSubscription) prog" where
  "CheckAndResetWindows cal cached now s =
     (let d = automaticDailyWindowStartAt cal s now in
      bindW (maintain_window d (ResetDailyUsage (us_id s) (us_daily_start s)) (\<lambda>t. s\<lparr>us_daily_start := Some t, us_daily := 0\<rparr>) s) (\<lambda>s.
      let w = automaticWindowStartAt cal s (us_weekly_start s) week now in
      bindW (maintain_window w (ResetWeeklyUsage (us_id s) (us_weekly_start s)) (\<lambda>t. s\<lparr>us_weekly_start := Some t, us_weekly := 0\<rparr>) s) (\<lambda>s.
      let m = automaticWindowStartAt cal s (us_monthly_start s) month now in
      bindW (maintain_window m (ResetMonthlyUsage (us_id s) (us_monthly_start s)) (\<lambda>t. s\<lparr>us_monthly_start := Some t, us_monthly := 0\<rparr>) s) (\<lambda>s.
      bindW (if (d \<noteq> None \<or> w \<noteq> None \<or> m \<noteq> None) \<and> cached then tryW (query (\<lambda>_. ())) else returnW ()) (\<lambda>_. returnW s)))))"

definition EnsureWindowMaintenance :: "calendar \<Rightarrow> bool \<Rightarrow> int \<Rightarrow> int \<Rightarrow> UserSubscription \<Rightarrow> (sub_db, UserSubscription) prog" where
  "EnsureWindowMaintenance cal cached now now' s =
     bindW (if \<not> IsWindowActivated s then CheckAndActivateWindow cal now s else returnW ()) (\<lambda>_.
     bindW (CheckAndResetWindows cal cached now' s) (\<lambda>s'. sql (GetByID (us_id s'))))"

definition doWindowMaintenance :: "calendar \<Rightarrow> bool \<Rightarrow> int \<Rightarrow> int \<Rightarrow> UserSubscription \<Rightarrow> (sub_db, unit) prog" where
  "doWindowMaintenance cal cached now now' s =
     bindW (if \<not> IsWindowActivated s then tryW (CheckAndActivateWindow cal now s) else returnW ()) (\<lambda>_.
     tryW (CheckAndResetWindows cal cached now' s))"

definition CheckUsageLimits :: "UserSubscription \<Rightarrow> Group \<Rightarrow> rat \<Rightarrow> err option" where
  "CheckUsageLimits s g extra =
     (if \<not> CheckDailyLimit s g extra then Some ErrDailyLimitExceeded
      else if \<not> CheckWeeklyLimit s g extra then Some ErrWeeklyLimitExceeded
      else if \<not> CheckMonthlyLimit s g extra then Some ErrMonthlyLimitExceeded
      else None)"

text \<open>The result: whether maintenance is needed, the error, and the subscription as it was changed in memory.\<close>

definition ValidateAndCheckLimits :: "calendar \<Rightarrow> int \<Rightarrow> UserSubscription \<Rightarrow> Group \<Rightarrow> (bool \<times> err option) \<times> UserSubscription" where
  "ValidateAndCheckLimits cal now s g =
     (if us_status s = SubscriptionStatusExpired then ((False, Some ErrSubscriptionExpired), s)
      else if us_status s = SubscriptionStatusSuspended then ((False, Some ErrSubscriptionSuspended), s)
      else if \<not> us_expires s > now then ((False, Some ErrSubscriptionExpired), s)
      else (let d = canAutomaticallyResetDailyAt cal s now;
                w = canAutomaticallyResetWeeklyAt cal s now;
                m = canAutomaticallyResetMonthlyAt cal s now;
                needs = (d \<or> w \<or> m \<or> \<not> IsWindowActivated s);
                s = (if d then s\<lparr>us_daily := 0\<rparr> else s);
                s = (if w then s\<lparr>us_weekly := 0\<rparr> else s);
                s = (if m then s\<lparr>us_monthly := 0\<rparr> else s)
            in if \<not> CheckDailyLimit s g 0 then ((needs, Some ErrDailyLimitExceeded), s)
               else if \<not> CheckWeeklyLimit s g 0 then ((needs, Some ErrWeeklyLimitExceeded), s)
               else if \<not> CheckMonthlyLimit s g 0 then ((needs, Some ErrMonthlyLimitExceeded), s)
               else ((needs, None), s)))"

definition RecordUsage :: "id \<Rightarrow> rat \<Rightarrow> (sub_db, unit) prog" where
  "RecordUsage i cost = sql (IncrementUsage i cost)"

definition ValidateSubscription :: "int \<Rightarrow> UserSubscription \<Rightarrow> (sub_db, unit) prog" where
  "ValidateSubscription now s =
     (if us_status s = SubscriptionStatusExpired then failW ErrSubscriptionExpired
      else if us_status s = SubscriptionStatusSuspended then failW ErrSubscriptionSuspended
      else if IsExpired now s
      then bindW (tryW (sql (UpdateStatus (us_id s) SubscriptionStatusExpired))) (\<lambda>_. failW ErrSubscriptionExpired)
      else returnW ())"

text \<open>
  The middleware's use: validate, maintain, validate again.  \<open>Inl\<close> is the refusal; an
  error of the maintenance is the 500 answer.
\<close>

definition subscription_gate :: "calendar \<Rightarrow> bool \<Rightarrow> int \<Rightarrow> int \<Rightarrow> int \<Rightarrow> int \<Rightarrow> Group \<Rightarrow> UserSubscription \<Rightarrow> (sub_db, err + UserSubscription) prog" where
  "subscription_gate cal cached now1 now2 now3 now4 g s =
     (case ValidateAndCheckLimits cal now1 s g of
        ((False, Some e), _) \<Rightarrow> returnW (Inl e)
      | ((False, None), s') \<Rightarrow> returnW (Inr s')
      | ((True, _), s') \<Rightarrow>
          bindW (EnsureWindowMaintenance cal cached now2 now3 s') (\<lambda>refreshed.
          case ValidateAndCheckLimits cal now4 refreshed g of
            ((_, Some e), _) \<Rightarrow> returnW (Inl e)
          | ((_, None), s'') \<Rightarrow> returnW (Inr s'')))"

end
