(* ===== verification/Subscription_Windows.thy ===== *)
theory Subscription_Windows
  imports Subscription
begin

text \<open>
  When the windows of a subscription move on: the laws of the time zone as a locale,
  discharged for every zone with a fixed offset (the default zone of the program), and what
  they give for the daily window; the weekly and monthly windows need no law.  Adding days twice
  is adding their sum, which leaves out zones that skip or repeat hours in between.
\<close>

section \<open>The time zone\<close>

locale time_zone =
  fixes cal :: calendar
  assumes start_le: "day_start cal t \<le> t"
    and start_mono: "s \<le> t \<Longrightarrow> day_start cal s \<le> day_start cal t"
    and start_idem: "day_start cal (day_start cal t) = day_start cal t"
    and next_day: "t < add_days cal (day_start cal t) 1"
    and next_start: "day_start cal (add_days cal (day_start cal t) 1) = add_days cal (day_start cal t) 1"
    and same_day: "day_start cal t \<le> s \<Longrightarrow> s < add_days cal (day_start cal t) 1 \<Longrightarrow> day_start cal s = day_start cal t"
    and add_days_pos: "0 < n \<Longrightarrow> t < add_days cal t n"
    and add_days_0: "add_days cal t 0 = t"
    and add_days_add: "add_days cal (add_days cal t a) b = add_days cal t (a + b)"
begin

lemma later_day: "day_start cal s < day_start cal t \<longleftrightarrow> add_days cal (day_start cal s) 1 \<le> t"
proof
  assume "day_start cal s < day_start cal t"
  moreover have "day_start cal t = day_start cal s" if "day_start cal s \<le> t" "t < add_days cal (day_start cal s) 1"
    by (rule same_day[OF that])
  moreover have "day_start cal s \<le> t" using calculation(1) start_le[of t] by simp
  ultimately show "add_days cal (day_start cal s) 1 \<le> t" by force
next
  assume "add_days cal (day_start cal s) 1 \<le> t"
  then have "add_days cal (day_start cal s) 1 \<le> day_start cal t" using start_mono next_start by metis
  with add_days_pos[of 1 "day_start cal s"] show "day_start cal s < day_start cal t" by simp
qed

lemma add_days_mono: "a < b \<Longrightarrow> add_days cal t a < add_days cal t b"
  using add_days_pos[of "b - a" "add_days cal t a"] by (simp add: add_days_add)

lemma add_days_ge: "0 \<le> n \<Longrightarrow> t \<le> add_days cal t n"
  using add_days_pos[of n t] add_days_0[of t] by (cases "n = 0") auto

text \<open>The daily window is due exactly from the reset time that is shown.\<close>

lemma daily_due:
  "canAutomaticallyResetDailyAt cal s now \<longleftrightarrow>
     \<not> HasOneTimeDailyQuota cal s \<and> (\<exists>t. DailyResetTime cal s = Some t \<and> t \<le> now)"
  by (auto simp: canAutomaticallyResetDailyAt_def automaticDailyWindowStartAt_def DailyResetTime_def later_day
      split: option.splits)

lemma daily_current:
  assumes "automaticDailyWindowStartAt cal s now = Some t"
  shows "t \<le> now" and "now < add_days cal t 1"
    and "automaticDailyWindowStartAt cal (s\<lparr>us_daily_start := Some t, us_daily := u\<rparr>) now = None"
  using assms start_le[of now] next_day[of now]
  by (auto simp: automaticDailyWindowStartAt_def HasOneTimeDailyQuota_def start_idem split: option.splits if_splits)

end

definition fixed_zone :: "int \<Rightarrow> calendar" where
  "fixed_zone offset = \<lparr>
     day_start = (\<lambda>t. t - (t + offset) mod subscriptionDayDuration),
     own_day_start = (\<lambda>t. t - (t + offset) mod subscriptionDayDuration),
     add_days = (\<lambda>t n. t + n * subscriptionDayDuration)\<rparr>"

lemma day_positive [simp]: "0 < subscriptionDayDuration" "0 < week" "0 < month"
  by (simp_all add: subscriptionDayDuration_def week_def month_def)

lemma fixed_day: "t - (t + off) mod d = (t + off) div d * d - (off :: int)"
  by (simp add: minus_mod_eq_div_mult[symmetric])

lemma fixed_zone_time_zone: "time_zone (fixed_zone off)"
proof
  let ?d = subscriptionDayDuration and ?z = "fixed_zone off"
  have ds: "day_start ?z t = (t + off) div ?d * ?d - off" for t by (simp add: fixed_zone_def fixed_day)
  have ad: "add_days ?z t n = t + n * ?d" for t n by (simp add: fixed_zone_def)
  have split: "(t + off) div ?d * ?d + (t + off) mod ?d = t + off" for t by simp
  have range: "0 \<le> (t + off) mod ?d" "(t + off) mod ?d < ?d" for t by simp_all
  show "day_start ?z t \<le> t" for t using split[of t] range[of t] unfolding ds by linarith
  show "day_start ?z s \<le> day_start ?z t" if "s \<le> t" for s t
    using that unfolding ds by (simp add: zdiv_mono1)
  show "day_start ?z (day_start ?z t) = day_start ?z t" for t unfolding ds by simp
  show "t < add_days ?z (day_start ?z t) 1" for t using split[of t] range[of t] unfolding ds ad by linarith
  show "day_start ?z (add_days ?z (day_start ?z t) 1) = add_days ?z (day_start ?z t) 1" for t
    unfolding ds ad by (simp add: algebra_simps)
  show "day_start ?z s = day_start ?z t" if "day_start ?z t \<le> s" "s < add_days ?z (day_start ?z t) 1" for s t
  proof -
    have "(s + off) div ?d = (t + off) div ?d"
      by (rule int_div_pos_eq[where r = "s + off - (t + off) div ?d * ?d"]) (use that in \<open>auto simp: ds ad algebra_simps\<close>)
    then show ?thesis by (simp add: ds)
  qed
  show "t < add_days ?z t n" if "0 < n" for t n using that by (simp add: ad)
  show "add_days ?z t 0 = t" for t by (simp add: ad)
  show "add_days ?z (add_days ?z t a) b = add_days ?z t (a + b)" for t a b by (simp add: ad algebra_simps)
qed

interpretation fixed: time_zone "fixed_zone off" for off by (rule fixed_zone_time_zone)

section \<open>Weekly and monthly windows\<close>

abbreviation anchored :: "calendar \<Rightarrow> UserSubscription \<Rightarrow> int \<Rightarrow> int" where
  "anchored cal s t \<equiv> windowResetAnchor cal s t"

text \<open>The reached start is the last of the grid of the period before the clock and the end.\<close>

lemma grid_last:
  fixes now a p E :: int
  assumes "0 < p" and "a + p \<le> now" and "a + p < E"
  defines "k \<equiv> min ((now - a) div p) ((E - a - 1) div p)"
  shows "1 \<le> k" and "a + k * p \<le> now" and "a + k * p < E" and "now < a + k * p + p \<or> E \<le> a + k * p + p"
proof -
  have one: "1 \<le> (now - a) div p" "1 \<le> (E - a - 1) div p"
    using assms zdiv_mono1[of p "now - a" p] zdiv_mono1[of p "E - a - 1" p] by auto
  then show "1 \<le> k" by (simp add: k_def)
  have le: "x div p * p \<le> x" "x < x div p * p + p" for x
    using assms(1) div_mult_mod_eq[of x p] pos_mod_bound[of p x] pos_mod_sign[of p x] by linarith+
  have km: "k * p \<le> (now - a) div p * p" "k * p \<le> (E - a - 1) div p * p"
    using assms(1) by (simp_all add: k_def mult_right_mono)
  show "a + k * p \<le> now" "a + k * p < E" using km le(1)[of "now - a"] le(1)[of "E - a - 1"] by linarith+
  show "now < a + k * p + p \<or> E \<le> a + k * p + p"
    using le(2)[of "now - a"] le(2)[of "E - a - 1"] by (cases "(now - a) div p \<le> (E - a - 1) div p") (auto simp: k_def min_def)
qed

lemma grid_unique:
  fixes now a p E w :: int
  assumes "0 < p" "a + k * p \<le> now" "a + k * p < E" "now < a + k * p + p \<or> E \<le> a + k * p + p"
    and "a + l * p \<le> now" "a + l * p < E" "now < a + l * p + p \<or> E \<le> a + l * p + p"
  shows "k = l"
proof -
  have "\<not> x < y" if "a + y * p \<le> now" "a + y * p < E" "now < a + x * p + p \<or> E \<le> a + x * p + p" for x y
  proof
    assume "x < y"
    then have "(x + 1) * p \<le> y * p" using assms(1) by (intro mult_right_mono) auto
    with that show False by (auto simp: algebra_simps)
  qed
  from this[of l k] this[of k l] assms show ?thesis by force
qed

definition window_grid :: "calendar \<Rightarrow> UserSubscription \<Rightarrow> int \<Rightarrow> int \<Rightarrow> int \<Rightarrow> int \<Rightarrow> bool" where
  "window_grid cal s previous period now start \<longleftrightarrow>
     (\<exists>k\<ge>1. start = anchored cal s previous + k * period) \<and> start \<le> now \<and> start < us_expires s \<and>
     (now < start + period \<or> us_expires s \<le> start + period)"

lemma automatic_window:
  assumes "0 < period"
  shows "automaticWindowStartAt cal s previous period now = Some start \<longleftrightarrow>
     (\<exists>p. previous = Some p \<and> window_grid cal s p period now start)"
proof (cases previous)
  case (Some p)
  let ?a = "anchored cal s p" and ?E = "us_expires s"
  define k where "k = min ((now - ?a) div period) ((?E - ?a - 1) div period)"
  have auto: "automaticWindowStartAt cal s previous period now =
      (if ?a + period \<le> now \<and> ?a + period < ?E then Some (?a + k * period) else None)"
    by (auto simp: automaticWindowStartAt_def Some Let_def k_def min_def)
  show ?thesis
  proof (cases "?a + period \<le> now \<and> ?a + period < ?E")
    case True
    note g = grid_last[OF assms conjunct1[OF True] conjunct2[OF True], folded k_def]
    have "start = ?a + k * period" if "window_grid cal s p period now start"
      using that grid_unique[OF assms g(2-4)] by (auto simp: window_grid_def)
    moreover have "window_grid cal s p period now (?a + k * period)" using g by (auto simp: window_grid_def)
    ultimately show ?thesis unfolding auto using True Some by auto
  next
    case False
    have "\<not> window_grid cal s p period now start"
    proof
      assume "window_grid cal s p period now start"
      then obtain l where "1 \<le> l" "start = ?a + l * period" "start \<le> now" "start < ?E" by (auto simp: window_grid_def)
      moreover have "period \<le> l * period" using mult_right_mono[OF \<open>1 \<le> l\<close>, of period] assms by simp
      ultimately show False using False by linarith
    qed
    then show ?thesis unfolding auto using False Some by auto
  qed
qed (simp add: automaticWindowStartAt_def)

lemma automatic_due:
  assumes "0 < period"
  shows "automaticWindowStartAt cal s previous period now \<noteq> None \<longleftrightarrow>
     (\<exists>p. previous = Some p \<and> anchored cal s p + period \<le> now \<and> anchored cal s p + period < us_expires s)"
  by (cases previous) (auto simp: automaticWindowStartAt_def Let_def)

lemma weekly_due:
  "canAutomaticallyResetWeeklyAt cal s now \<longleftrightarrow> (\<exists>t. WeeklyResetTime cal s = Some t \<and> t \<le> now \<and> t < us_expires s)"
  unfolding canAutomaticallyResetWeeklyAt_def WeeklyResetTime_def by (subst automatic_due) auto

lemma monthly_due:
  "canAutomaticallyResetMonthlyAt cal s now \<longleftrightarrow> (\<exists>t. MonthlyResetTime cal s = Some t \<and> t \<le> now \<and> t < us_expires s)"
  unfolding canAutomaticallyResetMonthlyAt_def MonthlyResetTime_def by (subst automatic_due) auto

text \<open>A start that was reached is its own anchor.\<close>

lemma anchor_reached:
  assumes "0 < period" and "own_day_start cal (us_starts s) \<le> p" and "window_grid cal s p period now start"
  shows "anchored cal s start = start" and "own_day_start cal (us_starts s) < start"
proof -
  obtain k where k: "1 \<le> k" "start = anchored cal s p + k * period" using assms(3) by (auto simp: window_grid_def)
  have "period \<le> k * period" using mult_right_mono[OF k(1), of period] assms(1) by simp
  then have "anchored cal s p < start" using k assms(1) by linarith
  moreover have "own_day_start cal (us_starts s) \<le> anchored cal s p"
    using assms(2) by (auto simp: windowResetAnchor_def Let_def)
  ultimately show "own_day_start cal (us_starts s) < start" by simp
  then show "anchored cal s start = start" by (auto simp: windowResetAnchor_def Let_def)
qed

lemma anchor_advanced: "us_starts s' = us_starts s \<Longrightarrow> anchored cal s' t = anchored cal s t"
  by (simp add: windowResetAnchor_def Let_def)

lemma window_current:
  assumes "0 < period" and "own_day_start cal (us_starts s) \<le> p" and "window_grid cal s p period now start"
    and "us_starts s' = us_starts s" and "us_expires s' = us_expires s"
  shows "automaticWindowStartAt cal s' (Some start) period now = None"
proof -
  have "\<not> (start + period \<le> now \<and> start + period < us_expires s)" using assms(3) by (auto simp: window_grid_def)
  then show ?thesis
    using automatic_due[OF assms(1), of cal s' "Some start" now] anchor_reached(1)[OF assms(1-3)] assms(5)
    by (auto simp: anchor_advanced[OF assms(4)])
qed

section \<open>Properties\<close>

text \<open>
  C29. The reset times shown to the user are the times from which a window really restarts:
  the daily window at the next midnight of the time zone, unless the term is a single day,
  the weekly and monthly windows at the shown time if it lies before the end of the term.
\<close>

theorem shown_reset_times_are_effective:
  assumes "time_zone cal"
  shows "(canAutomaticallyResetDailyAt cal s now \<longleftrightarrow>
       \<not> HasOneTimeDailyQuota cal s \<and> (\<exists>t. DailyResetTime cal s = Some t \<and> t \<le> now)) \<and>
    (canAutomaticallyResetWeeklyAt cal s now \<longleftrightarrow> (\<exists>t. WeeklyResetTime cal s = Some t \<and> t \<le> now \<and> t < us_expires s)) \<and>
    (canAutomaticallyResetMonthlyAt cal s now \<longleftrightarrow> (\<exists>t. MonthlyResetTime cal s = Some t \<and> t \<le> now \<and> t < us_expires s))"
  using time_zone.daily_due[OF assms] weekly_due monthly_due by blast

definition one_term :: UserSubscription where
  "one_term = \<lparr>us_id = 1, us_user = 1, us_group = 1, us_starts = 0, us_expires = 30 * subscriptionDayDuration,
     us_status = SubscriptionStatusActive, us_daily_start = Some 0, us_weekly_start = Some 0, us_monthly_start = Some 0,
     us_daily = 0, us_weekly = 0, us_monthly = 0, us_assigned_by = None, us_assigned_at = 0, us_notes = [], us_deleted = None\<rparr>"

lemma shown_reset_times_are_effective_witness:
  "WeeklyResetTime (fixed_zone 0) one_term = Some week \<and> canAutomaticallyResetWeeklyAt (fixed_zone 0) one_term week \<and>
     canAutomaticallyResetDailyAt (fixed_zone 0) one_term subscriptionDayDuration"
proof -
  have w: "WeeklyResetTime (fixed_zone 0) one_term = Some week"
    by (simp add: WeeklyResetTime_def one_term_def windowResetAnchor_def fixed_zone_def)
  moreover have "DailyResetTime (fixed_zone 0) one_term = Some subscriptionDayDuration" "\<not> HasOneTimeDailyQuota (fixed_zone 0) one_term"
    by (simp_all add: DailyResetTime_def one_term_def HasOneTimeDailyQuota_def fixed_zone_def subscriptionDayDuration_def zero_time_def)
  moreover have "week < us_expires one_term" by (simp add: one_term_def week_def)
  ultimately show ?thesis
    using shown_reset_times_are_effective[OF fixed_zone_time_zone[of 0], of one_term week]
      shown_reset_times_are_effective[OF fixed_zone_time_zone[of 0], of one_term subscriptionDayDuration] by auto
qed

text \<open>
  An automatic weekly or monthly restart lands on the grid of whole periods from the
  window's anchor, at the last point that is not after the clock and before the end of
  the term; it happens exactly when a whole period has passed and the term goes on, and a
  window that was restarted is not due again at the same time.
\<close>

theorem window_restarts_on_grid:
  assumes "0 < period" and "own_day_start cal (us_starts s) \<le> p"
  shows "(automaticWindowStartAt cal s (Some p) period now = Some start \<longleftrightarrow> window_grid cal s p period now start) \<and>
    (automaticWindowStartAt cal s (Some p) period now \<noteq> None \<longleftrightarrow>
       anchored cal s p + period \<le> now \<and> anchored cal s p + period < us_expires s) \<and>
    (automaticWindowStartAt cal s (Some p) period now = Some start \<longrightarrow> automaticWindowStartAt cal s (Some start) period now = None)"
  using automatic_window[OF assms(1), of cal s "Some p" now start] automatic_due[OF assms(1), of cal s "Some p" now]
    window_current[OF assms(1,2), of now start s]
  by auto

lemma window_restarts_on_grid_witness:
  "window_grid (fixed_zone 0) one_term 0 week (2 * week + 5) (2 * week)"
proof -
  have "automaticWindowStartAt (fixed_zone 0) one_term (Some 0) week (2 * week + 5) = Some (2 * week)"
    by code_simp
  moreover have "own_day_start (fixed_zone 0) (us_starts one_term) \<le> 0"
    by (simp add: fixed_zone_def one_term_def)
  ultimately show ?thesis
    using window_restarts_on_grid[of week "fixed_zone 0" one_term 0 "2 * week + 5" "2 * week"] by simp
qed

end
