(* ===== verification/Subscription_Rows.thy ===== *)
theory Subscription_Rows
  imports Subscription_Service Subscription_Windows
begin

text \<open>
  One row of the subscription table under the statements, on a quiet connection and as a
  history of single statements of concurrent requests; the allowance of a term.
\<close>

section \<open>One row\<close>

definition has_row :: "UserSubscription \<Rightarrow> sub_db \<Rightarrow> bool" where
  "has_row r db \<longleftrightarrow> filter (\<lambda>x. us_id x = us_id r) (sub_rows db) = [r]"

definition others_same :: "id \<Rightarrow> sub_db \<Rightarrow> sub_db \<Rightarrow> bool" where
  "others_same i db db' \<longleftrightarrow>
     filter (\<lambda>x. us_id x \<noteq> i) (sub_rows db') = filter (\<lambda>x. us_id x \<noteq> i) (sub_rows db) \<and> sub_groups db' = sub_groups db"

lemma others_same_refl [simp]: "others_same i db db" by (simp add: others_same_def)

lemma others_same_trans [trans]: "others_same i a b \<Longrightarrow> others_same i b c \<Longrightarrow> others_same i a c"
  by (simp add: others_same_def)

lemma has_row_mem:
  assumes "has_row r db" and "x \<in> set (sub_rows db)" and "us_id x = us_id r"
  shows "x = r"
proof -
  have "x \<in> set (filter (\<lambda>x. us_id x = us_id r) (sub_rows db))" using assms(2,3) by simp
  with assms(1) show ?thesis by (simp only: has_row_def) simp
qed

lemma has_row_in: "has_row r db \<Longrightarrow> r \<in> set (sub_rows db)"
proof -
  assume "has_row r db"
  then have "r \<in> set (filter (\<lambda>x. us_id x = us_id r) (sub_rows db))" by (simp only: has_row_def) simp
  then show ?thesis by simp
qed

lemma filter_narrow: "(\<And>x. P x \<Longrightarrow> Q x) \<Longrightarrow> filter P xs = filter P (filter Q xs)"
  by (induction xs) auto

lemma has_row_filter: "has_row r db \<Longrightarrow> filter (\<lambda>x. us_id x = us_id r \<and> Q x) (sub_rows db) = (if Q r then [r] else [])"
  using filter_narrow[of "\<lambda>x. us_id x = us_id r \<and> Q x" "\<lambda>x. us_id x = us_id r" "sub_rows db"]
  by (simp add: has_row_def)

lemma has_row_ex: "has_row r db \<Longrightarrow> list_ex (\<lambda>x. us_id x = us_id r \<and> Q x) (sub_rows db) \<longleftrightarrow> Q r"
  using has_row_in has_row_mem by (fastforce simp: list_ex_iff)

lemma get_row: "has_row r db \<Longrightarrow> us_deleted r = None \<Longrightarrow> GetByID (us_id r) db = (Inr r, db)"
  by (simp add: GetByID_def only_row_def has_row_filter undeleted_def)

lemma filter_map_cond:
  "(\<And>x. us_id (f x) = us_id x) \<Longrightarrow>
     filter (\<lambda>x. us_id x = i) (map (\<lambda>x. if P x then f x else x) xs) = map (\<lambda>x. if P x then f x else x) (filter (\<lambda>x. us_id x = i) xs)"
  by (induction xs) auto

lemma filter_map_other:
  "(\<And>x. P x \<Longrightarrow> us_id x = i) \<Longrightarrow> (\<And>x. us_id (f x) = us_id x) \<Longrightarrow>
     filter (\<lambda>x. us_id x \<noteq> i) (map (\<lambda>x. if P x then f x else x) xs) = filter (\<lambda>x. us_id x \<noteq> i) xs"
  by (induction xs) auto

text \<open>A statement on the rows of one id.\<close>

lemma update_row:
  fixes Q :: "UserSubscription \<Rightarrow> bool"
  assumes "has_row r db" and "\<And>x. us_id (f x) = us_id x"
  defines "db' \<equiv> snd (update_subs (\<lambda>x. us_id x = us_id r \<and> Q x) f db)"
  shows "fst (update_subs (\<lambda>x. us_id x = us_id r \<and> Q x) f db) = Inr (if Q r then 1 else 0)"
    and "has_row (if Q r then f r else r) db'" and "others_same (us_id r) db db'" and "sub_next db' = sub_next db"
proof -
  show "fst (update_subs (\<lambda>x. us_id x = us_id r \<and> Q x) f db) = Inr (if Q r then 1 else 0)"
    by (simp add: update_subs_def has_row_filter[OF assms(1)])
  have "us_id (if Q r then f r else r) = us_id r" by (simp add: assms(2))
  then show "has_row (if Q r then f r else r) db'"
    using assms(1) by (simp add: has_row_def db'_def update_subs_def filter_map_cond[OF assms(2)])
  show "others_same (us_id r) db db'"
    by (simp add: others_same_def db'_def update_subs_def filter_map_other[of "\<lambda>x. us_id x = us_id r \<and> Q x" "us_id r" f] assms(2))
  show "sub_next db' = sub_next db" by (simp add: db'_def update_subs_def)
qed

lemma update_one_row:
  assumes "has_row r db" and "\<And>x. us_id (f x) = us_id x"
  obtains db' where "update_one (us_id r) f db = (Inr (), db')" "has_row (f r) db'" "others_same (us_id r) db db'" "sub_next db' = sub_next db"
proof -
  note u = update_row[OF assms, of "\<lambda>_. True", simplified]
  have "update_one (us_id r) f db = (Inr (), snd (update_subs (\<lambda>x. us_id x = us_id r) f db))"
    by (simp add: update_one_def bindA_def returnA_def failA_def split: prod.split sum.split) (use u(1) in \<open>auto simp: update_subs_def\<close>)
  then show thesis using that u by blast
qed

section \<open>Programs on a quiet connection\<close>

lemma sql_quiet [simp]:
  "sql p (quiet db) = (case p db of (Inl e, db') \<Rightarrow> (Inl e, quiet db') | (Inr a, db') \<Rightarrow> (Inr a, quiet db'))"
  by (auto simp: sql_def bindW_def failW_def returnW_def split: prod.split sum.split)

lemma sql_Inr: "p db = (Inr a, db') \<Longrightarrow> sql p (quiet db) = (Inr a, quiet db')"
  by simp

lemma conditional_reset:
  assumes "has_row r db" and "us_deleted r = None" and "\<And>x. us_id (f x) = us_id x" and "Q r"
  obtains db' where "bindW (sql (update_subs (\<lambda>x. us_id x = us_id r \<and> Q x) f)) (translateConditionalWindowReset (us_id r)) (quiet db) = (Inr (), quiet db')"
    "has_row (f r) db'" "others_same (us_id r) db db'"
proof -
  note u = update_row[OF assms(1,3), of Q]
  obtain db' where db': "update_subs (\<lambda>x. us_id x = us_id r \<and> Q x) f db = (Inr 1, db')"
    using u(1) assms(4) by (cases "update_subs (\<lambda>x. us_id x = us_id r \<and> Q x) f db") auto
  have "bindW (sql (update_subs (\<lambda>x. us_id x = us_id r \<and> Q x) f)) (translateConditionalWindowReset (us_id r)) (quiet db) = (Inr (), quiet db')"
    by (simp add: bindW_def db' translateConditionalWindowReset_def)
  then show thesis using that u(2,3) assms(4) by (simp add: db')
qed

section \<open>The allowance of a term\<close>

text \<open>
  The statements that concurrent requests, the expiry worker and administrators send for
  one subscription within its term: usage, the first activation and the compare-and-sets of the window maintenance
  (each made from a snapshot of the subscription and a clock), new expiry and status.
\<close>

datatype sub_stmt =
    Usage rat
  | Activation int
  | Daily_Reset UserSubscription int
  | Weekly_Reset UserSubscription int
  | Monthly_Reset UserSubscription int
  | New_Expiry int
  | New_Status string

definition reset_stmt :: "int option \<Rightarrow> (int \<Rightarrow> int act) \<Rightarrow> unit act" where
  "reset_stmt due act = (case due of None \<Rightarrow> returnA () | Some t \<Rightarrow> bindA (act t) (\<lambda>_. returnA ()))"

fun stmt_act :: "calendar \<Rightarrow> id \<Rightarrow> sub_stmt \<Rightarrow> unit act" where
  "stmt_act cal i (Usage c) = IncrementUsage i c"
| "stmt_act cal i (Activation now) = bindA (activate_rows i (day_start cal now) now) (\<lambda>_. returnA ())"
| "stmt_act cal i (Daily_Reset snap now) =
     reset_stmt (automaticDailyWindowStartAt cal snap now) (daily_rows i (us_daily_start snap))"
| "stmt_act cal i (Weekly_Reset snap now) =
     reset_stmt (automaticWindowStartAt cal snap (us_weekly_start snap) week now) (weekly_rows i (us_weekly_start snap))"
| "stmt_act cal i (Monthly_Reset snap now) =
     reset_stmt (automaticWindowStartAt cal snap (us_monthly_start snap) month now) (monthly_rows i (us_monthly_start snap))"
| "stmt_act cal i (New_Expiry t) = ExtendExpiry i t"
| "stmt_act cal i (New_Status st) = UpdateStatus i st"

datatype periodic = Weekly | Monthly

fun start_of :: "periodic \<Rightarrow> UserSubscription \<Rightarrow> int option" where
  "start_of Weekly = us_weekly_start" | "start_of Monthly = us_monthly_start"
fun usage_of :: "periodic \<Rightarrow> UserSubscription \<Rightarrow> rat" where
  "usage_of Weekly = us_weekly" | "usage_of Monthly = us_monthly"
fun period_of :: "periodic \<Rightarrow> int" where
  "period_of Weekly = week" | "period_of Monthly = month"

definition row_of :: "id \<Rightarrow> sub_db \<Rightarrow> UserSubscription" where
  "row_of i db = hd (filter (\<lambda>x. us_id x = i) (sub_rows db))"

text \<open>How often a window was restarted, and how much usage the restarts wiped out.\<close>

fun restarts :: "calendar \<Rightarrow> periodic \<Rightarrow> id \<Rightarrow> sub_stmt list \<Rightarrow> sub_db \<Rightarrow> nat \<times> rat" where
  "restarts cal k i [] db = (0, 0)"
| "restarts cal k i (e # es) db =
     (let db' = snd (stmt_act cal i e db); (n, wiped) = restarts cal k i es db'
      in if start_of k (row_of i db') \<noteq> start_of k (row_of i db) then (Suc n, usage_of k (row_of i db) + wiped) else (n, wiped))"

fun final_row :: "calendar \<Rightarrow> id \<Rightarrow> sub_stmt list \<Rightarrow> sub_db \<Rightarrow> UserSubscription" where
  "final_row cal i [] db = row_of i db"
| "final_row cal i (e # es) db = final_row cal i es (snd (stmt_act cal i e db))"

text \<open>The usage that was recorded: that of the statements which found the subscription.\<close>

fun charged :: "calendar \<Rightarrow> id \<Rightarrow> sub_stmt list \<Rightarrow> sub_db \<Rightarrow> rat" where
  "charged cal i [] db = 0"
| "charged cal i (e # es) db =
     (case (e, fst (stmt_act cal i e db)) of (Usage c, Inr _) \<Rightarrow> c | _ \<Rightarrow> 0) + charged cal i es (snd (stmt_act cal i e db))"

fun snapshot_of :: "sub_stmt \<Rightarrow> UserSubscription option" where
  "snapshot_of (Daily_Reset s _) = Some s" | "snapshot_of (Weekly_Reset s _) = Some s"
| "snapshot_of (Monthly_Reset s _) = Some s" | "snapshot_of _ = None"

lemma row_of_has [simp]: "has_row r db \<Longrightarrow> row_of (us_id r) db = r"
  by (simp add: row_of_def has_row_def)

definition add_usage :: "rat \<Rightarrow> UserSubscription \<Rightarrow> UserSubscription" where
  "add_usage c x = x\<lparr>us_daily := us_daily x + c, us_weekly := us_weekly x + c, us_monthly := us_monthly x + c\<rparr>"

fun row_moves :: "calendar \<Rightarrow> sub_stmt \<Rightarrow> bool \<Rightarrow> UserSubscription \<Rightarrow> UserSubscription \<Rightarrow> bool" where
  "row_moves cal (Usage c) ok r r' = (r' = (if ok then add_usage c r else r))"
| "row_moves cal (Activation now) ok r r' = (r' = (if IsWindowActivated r then r
     else r\<lparr>us_daily_start := Some (day_start cal now), us_weekly_start := Some now, us_monthly_start := Some now\<rparr>))"
| "row_moves cal (Daily_Reset snap now) ok r r' = (r' = r \<or> (\<exists>t. r' = r\<lparr>us_daily := 0, us_daily_start := Some t\<rparr>))"
| "row_moves cal (Weekly_Reset snap now) ok r r' =
     (r' = r \<or> (\<exists>t. automaticWindowStartAt cal snap (us_weekly_start r) week now = Some t \<and> r' = r\<lparr>us_weekly := 0, us_weekly_start := Some t\<rparr>))"
| "row_moves cal (Monthly_Reset snap now) ok r r' =
     (r' = r \<or> (\<exists>t. automaticWindowStartAt cal snap (us_monthly_start r) month now = Some t \<and> r' = r\<lparr>us_monthly := 0, us_monthly_start := Some t\<rparr>))"
| "row_moves cal (New_Expiry t) ok r r' = (r' = r\<lparr>us_expires := t\<rparr>)"
| "row_moves cal (New_Status st) ok r r' = (r' = r\<lparr>us_status := st\<rparr>)"

lemma reset_row:
  assumes "has_row r db" and "\<And>t x. us_id (f t x) = us_id x"
    and "\<And>t. act t = update_subs (\<lambda>x. us_id x = us_id r \<and> g x = g snap) (f t)"
  shows "\<exists>r'. has_row r' (snd (reset_stmt due act db)) \<and> (r' = r \<or> (\<exists>t. due = Some t \<and> g r = g snap \<and> r' = f t r))"
proof (cases due)
  case None
  with assms(1) show ?thesis by (auto simp: reset_stmt_def returnA_def)
next
  case (Some t)
  note u = update_row[OF assms(1), of "f t" "\<lambda>x. g x = g snap", OF assms(2)]
  obtain d where d: "update_subs (\<lambda>x. us_id x = us_id r \<and> g x = g snap) (f t) db = (Inr (if g r = g snap then 1 else 0), d)"
    using u(1) by (cases "update_subs (\<lambda>x. us_id x = us_id r \<and> g x = g snap) (f t) db") auto
  then have "snd (reset_stmt due act db) = d" by (simp add: Some reset_stmt_def bindA_def returnA_def assms(3))
  with u(2) Some d show ?thesis by (cases "g r = g snap") auto
qed

lemma usage_row:
  assumes "has_row r db"
  shows "\<exists>r'. has_row r' (snd (IncrementUsage (us_id r) c db)) \<and>
     r' = (if \<exists>u. fst (IncrementUsage (us_id r) c db) = Inr u then add_usage c r else r)"
proof -
  let ?Q = "\<lambda>x. undeleted x \<and> sub_groups db (us_group x) \<noteq> None"
  have id: "us_id (add_usage c x) = us_id x" for x by (simp add: add_usage_def)
  note u = update_row[OF assms, of "add_usage c" ?Q, OF id]
  obtain d where d: "update_subs (\<lambda>x. us_id x = us_id r \<and> ?Q x) (add_usage c) db = (Inr (if ?Q r then 1 else 0), d)"
    using u(1) by (cases "update_subs (\<lambda>x. us_id x = us_id r \<and> ?Q x) (add_usage c) db") auto
  have "IncrementUsage (us_id r) c db = (if ?Q r then (Inr (), d) else (Inl ErrSubscriptionNotFound, d))"
    using d by (simp add: IncrementUsage_def bindA_def returnA_def failA_def add_usage_def[abs_def])
  with u(2) d show ?thesis by auto
qed

lemma activation_row:
  assumes "has_row r db"
  shows "\<exists>r'. has_row r' (snd (stmt_act cal (us_id r) (Activation now) db)) \<and> row_moves cal (Activation now) ok r r'"
proof -
  let ?Q = "\<lambda>x. us_daily_start x = None \<and> us_weekly_start x = None \<and> us_monthly_start x = None"
  let ?f = "\<lambda>x. x\<lparr>us_daily_start := Some (day_start cal now), us_weekly_start := Some now, us_monthly_start := Some now\<rparr>"
  have id: "us_id (?f x) = us_id x" for x by simp
  note u = update_row[OF assms, of ?f ?Q, OF id]
  obtain d where d: "update_subs (\<lambda>x. us_id x = us_id r \<and> ?Q x) ?f db = (Inr (if ?Q r then 1 else 0), d)"
    using u(1) by (cases "update_subs (\<lambda>x. us_id x = us_id r \<and> ?Q x) ?f db") auto
  have "snd (stmt_act cal (us_id r) (Activation now) db) = d"
    using d by (simp add: activate_rows_def bindA_def returnA_def)
  moreover have "?Q r \<longleftrightarrow> \<not> IsWindowActivated r" by (auto simp: IsWindowActivated_def)
  ultimately show ?thesis using u(2) d by (cases "?Q r") auto
qed

text \<open>What a statement does to the row.\<close>

lemma stmt_row:
  fixes e :: sub_stmt
  assumes r: "has_row r db" and i: "us_id r = i"
  shows "\<exists>r'. has_row r' (snd (stmt_act cal i e db)) \<and> row_moves cal e (\<exists>u. fst (stmt_act cal i e db) = Inr u) r r'"
proof (cases e)
  case (Usage c)
  then show ?thesis using usage_row[OF r, of c] i by (auto simp: Usage)
next
  case (Activation now)
  show ?thesis using activation_row[OF r, of cal now] i unfolding Activation by blast
next
  case (Daily_Reset snap now)
  show ?thesis
    using reset_row[OF r, of "\<lambda>t x. x\<lparr>us_daily := 0, us_daily_start := Some t\<rparr>" "daily_rows i (us_daily_start snap)" us_daily_start snap] i
    by (fastforce simp: Daily_Reset daily_rows_def)
next
  case (Weekly_Reset snap now)
  show ?thesis
    using reset_row[OF r, of "\<lambda>t x. x\<lparr>us_weekly := 0, us_weekly_start := Some t\<rparr>" "weekly_rows i (us_weekly_start snap)" us_weekly_start snap] i
    by (fastforce simp: Weekly_Reset weekly_rows_def)
next
  case (Monthly_Reset snap now)
  show ?thesis
    using reset_row[OF r, of "\<lambda>t x. x\<lparr>us_monthly := 0, us_monthly_start := Some t\<rparr>" "monthly_rows i (us_monthly_start snap)" us_monthly_start snap] i
    by (fastforce simp: Monthly_Reset monthly_rows_def)
next
  case (New_Expiry t)
  show ?thesis using update_one_row[OF r, of "\<lambda>x. x\<lparr>us_expires := t\<rparr>"] i
    by (simp add: New_Expiry ExtendExpiry_def) (metis snd_conv)
next
  case (New_Status st)
  show ?thesis using update_one_row[OF r, of "\<lambda>x. x\<lparr>us_status := st\<rparr>"] i
    by (simp add: New_Status UpdateStatus_def) (metis snd_conv)
qed

lemma row_moves_id: "row_moves cal e ok r r' \<Longrightarrow> us_id r' = us_id r \<and> us_starts r' = us_starts r"
  by (cases e) (auto simp: add_usage_def split: if_splits)

text \<open>One statement restarts the window by whole periods, wiping its usage, or leaves its start.\<close>

lemma window_moves:
  assumes "row_moves cal e ok r r'" and "start_of k r = Some p" and "own_day_start cal (us_starts r) \<le> p"
    and "\<forall>s. snapshot_of e = Some s \<longrightarrow> us_starts s = us_starts r \<and> us_expires s \<le> E"
  defines "charge \<equiv> (case e of Usage c \<Rightarrow> if ok then c else 0 | _ \<Rightarrow> 0)"
  shows "start_of k r' = Some p \<and> usage_of k r' = usage_of k r + charge \<or>
    charge = 0 \<and> usage_of k r' = 0 \<and> (\<exists>q. start_of k r' = Some q \<and> p < q \<and> q < E \<and> anchored cal r q = q \<and>
       anchored cal r p + period_of k \<le> q)"
proof -
  have grid: "q < E \<and> anchored cal r q = q \<and> anchored cal r p + period \<le> q \<and> p < q"
    if "automaticWindowStartAt cal s (Some p) period now = Some q" "0 < period" "us_starts s = us_starts r" "us_expires s \<le> E"
    for s q now period
  proof -
    have g: "window_grid cal s p period now q" using automatic_window[OF that(2)] that(1) by blast
    obtain j where j: "1 \<le> j" "q = anchored cal s p + j * period" using g by (auto simp: window_grid_def)
    moreover have "period \<le> j * period" using mult_right_mono[OF j(1), of period] that(2) by simp
    ultimately have "anchored cal s p < q" using that(2) by linarith
    moreover have "p \<le> anchored cal s p" by (auto simp: windowResetAnchor_def Let_def)
    moreover have "q < us_expires s" using g by (auto simp: window_grid_def)
    moreover have "anchored cal s p + period \<le> q" using j \<open>period \<le> j * period\<close> by simp
    ultimately show ?thesis
      using anchor_reached(1)[OF that(2) _ g] assms(3) that(2-4) anchor_advanced[OF that(3)[symmetric], of cal] by auto
  qed
  have act: "IsWindowActivated r" using assms(2) by (cases k) (auto simp: IsWindowActivated_def)
  have s: "us_starts s = us_starts r" "us_expires s \<le> E" if "snapshot_of e = Some s" for s using assms(4) that by auto
  show ?thesis
  proof (cases k)
    case Weekly
    show ?thesis using assms(1,2) act s grid[OF _ day_positive(2)] unfolding Weekly charge_def
      by (cases e) (fastforce simp: add_usage_def split: if_splits)+
  next
    case Monthly
    show ?thesis using assms(1,2) act s grid[OF _ day_positive(3)] unfolding Monthly charge_def
      by (cases e) (fastforce simp: add_usage_def split: if_splits)+
  qed
qed

lemma stmt_charge:
  "(case (e, fst (stmt_act cal i e db)) of (Usage c, Inr _) \<Rightarrow> c | _ \<Rightarrow> 0) =
     (case e of Usage c \<Rightarrow> if \<exists>u. fst (stmt_act cal i e db) = Inr u then c else 0 | _ \<Rightarrow> 0)"
  by (cases e) (auto split: sum.split)

lemma term_accounts:
  assumes "has_row r db" and "us_id r = i" and "start_of k r = Some p" and "own_day_start cal (us_starts r) \<le> p"
    and "\<forall>e\<in>set es. \<forall>s. snapshot_of e = Some s \<longrightarrow> us_starts s = us_starts r \<and> us_expires s \<le> E"
  shows "\<exists>q. start_of k (final_row cal i es db) = Some q \<and>
     anchored cal r p + int (fst (restarts cal k i es db)) * period_of k \<le> anchored cal r q \<and>
     (fst (restarts cal k i es db) = 0 \<and> q = p \<or> anchored cal r q < E) \<and>
     snd (restarts cal k i es db) + usage_of k (final_row cal i es db) = usage_of k r + charged cal i es db"
  using assms
proof (induction es arbitrary: r db p)
  case Nil
  then have "row_of i db = r" using row_of_has by blast
  with Nil show ?case by simp
next
  case (Cons e es)
  let ?db = "snd (stmt_act cal i e db)" and ?ok = "\<exists>u. fst (stmt_act cal i e db) = Inr u"
  obtain r' where r': "has_row r' ?db" "row_moves cal e ?ok r r'" using stmt_row[OF Cons.prems(1,2)] by blast
  have id: "us_id r' = i" "us_starts r' = us_starts r" using row_moves_id[OF r'(2)] Cons.prems(2) by auto
  have rows: "row_of i db = r" "row_of i ?db = r'" using row_of_has[OF Cons.prems(1)] row_of_has[OF r'(1)] Cons.prems(2) id by auto
  have anch: "anchored cal r' t = anchored cal r t" for t by (rule anchor_advanced[OF id(2)])
  have snaps: "\<forall>e\<in>set es. \<forall>s. snapshot_of e = Some s \<longrightarrow> us_starts s = us_starts r' \<and> us_expires s \<le> E"
    using Cons.prems(5) id(2) by auto
  define n w where "n = fst (restarts cal k i es ?db)" and "w = snd (restarts cal k i es ?db)"
  define c where "c = (case e of Usage c \<Rightarrow> if ?ok then c else 0 | _ \<Rightarrow> 0)"
  have charged: "charged cal i (e # es) db = c + charged cal i es ?db"
    using stmt_charge[of e cal i db] by (simp add: c_def)
  have restarts: "restarts cal k i (e # es) db =
      (if start_of k r' \<noteq> start_of k r then (Suc n, usage_of k r + w) else (n, w))"
    by (simp add: rows n_def w_def case_prod_unfold Let_def)
  have pos: "0 < period_of k" by (cases k) simp_all
  have IH: "\<exists>q. start_of k (final_row cal i es ?db) = Some q \<and> anchored cal r p' + int n * period_of k \<le> anchored cal r q \<and>
      (n = 0 \<and> q = p' \<or> anchored cal r q < E) \<and> w + usage_of k (final_row cal i es ?db) = usage_of k r' + charged cal i es ?db"
    if "start_of k r' = Some p'" "own_day_start cal (us_starts r) \<le> p'" for p'
    using Cons.IH[OF r'(1) id(1) that(1) _ snaps] that(2) id(2) unfolding anch n_def w_def by metis
  have snap_e: "\<forall>s. snapshot_of e = Some s \<longrightarrow> us_starts s = us_starts r \<and> us_expires s \<le> E" using Cons.prems(5) by auto
  from window_moves[OF r'(2) Cons.prems(3,4) snap_e, folded c_def]
  show ?case
  proof (elim disjE conjE exE)
    assume "start_of k r' = Some p" "usage_of k r' = usage_of k r + c"
    then show ?thesis using IH[of p] Cons.prems(3,4) unfolding restarts charged final_row.simps
      by (auto simp del: restarts.simps charged.simps)
  next
    fix q assume q: "c = 0" "usage_of k r' = 0" "start_of k r' = Some q" "p < q" "q < E" "anchored cal r q = q"
      "anchored cal r p + period_of k \<le> q"
    obtain q' where q': "start_of k (final_row cal i es ?db) = Some q'" "q + int n * period_of k \<le> anchored cal r q'"
      "n = 0 \<and> q' = q \<or> anchored cal r q' < E" "w + usage_of k (final_row cal i es ?db) = charged cal i es ?db"
      using IH[OF q(3)] q Cons.prems(4) by auto
    then have "anchored cal r q' < E" using q by (cases "n = 0") auto
    then show ?thesis using q q' Cons.prems(3) unfolding restarts charged final_row.simps
      by (auto simp: algebra_simps simp del: restarts.simps charged.simps)
  qed
qed

end
