(* ===== verification/Subscription_Gate.thy ===== *)
theory Subscription_Gate
  imports Subscription_Rows
begin

text \<open>
  The middleware's gate on a quiet connection: what maintenance does to a subscription and
  who is let through; and a partial administrative reset that stalls the other windows.
\<close>

section \<open>What maintenance does\<close>

definition restart_daily :: "calendar \<Rightarrow> int \<Rightarrow> UserSubscription \<Rightarrow> UserSubscription" where
  "restart_daily cal now s =
     (case automaticDailyWindowStartAt cal s now of None \<Rightarrow> s | Some t \<Rightarrow> s\<lparr>us_daily := 0, us_daily_start := Some t\<rparr>)"
definition restart_weekly :: "calendar \<Rightarrow> int \<Rightarrow> UserSubscription \<Rightarrow> UserSubscription" where
  "restart_weekly cal now s =
     (case automaticWindowStartAt cal s (us_weekly_start s) week now of None \<Rightarrow> s | Some t \<Rightarrow> s\<lparr>us_weekly := 0, us_weekly_start := Some t\<rparr>)"
definition restart_monthly :: "calendar \<Rightarrow> int \<Rightarrow> UserSubscription \<Rightarrow> UserSubscription" where
  "restart_monthly cal now s =
     (case automaticWindowStartAt cal s (us_monthly_start s) month now of None \<Rightarrow> s | Some t \<Rightarrow> s\<lparr>us_monthly := 0, us_monthly_start := Some t\<rparr>)"

definition activated :: "calendar \<Rightarrow> int \<Rightarrow> UserSubscription \<Rightarrow> UserSubscription" where
  "activated cal now s = (if IsWindowActivated s then s
     else s\<lparr>us_daily_start := Some (day_start cal now), us_weekly_start := Some now, us_monthly_start := Some now\<rparr>)"

definition maintained :: "calendar \<Rightarrow> int \<Rightarrow> UserSubscription \<Rightarrow> UserSubscription" where
  "maintained cal now s =
     (if IsWindowActivated s then restart_monthly cal now (restart_weekly cal now (restart_daily cal now s)) else activated cal now s)"

text \<open>A snapshot of the row up to the usage, which the validation changes in memory.\<close>

definition snapshot :: "UserSubscription \<Rightarrow> UserSubscription \<Rightarrow> bool" where
  "snapshot r s \<longleftrightarrow> s = r\<lparr>us_daily := us_daily s, us_weekly := us_weekly s, us_monthly := us_monthly s\<rparr>"

lemma snapshotD:
  assumes "snapshot r s"
  shows "us_id s = us_id r" "us_starts s = us_starts r" "us_expires s = us_expires r" "us_status s = us_status r"
    "us_daily_start s = us_daily_start r" "us_weekly_start s = us_weekly_start r" "us_monthly_start s = us_monthly_start r"
    "us_deleted s = us_deleted r"
proof -
  obtain a b c where "s = r\<lparr>us_daily := a, us_weekly := b, us_monthly := c\<rparr>" using assms unfolding snapshot_def by blast
  then show "us_id s = us_id r" "us_starts s = us_starts r" "us_expires s = us_expires r" "us_status s = us_status r"
    "us_daily_start s = us_daily_start r" "us_weekly_start s = us_weekly_start r" "us_monthly_start s = us_monthly_start r"
    "us_deleted s = us_deleted r" by simp_all
qed

lemma automatic_same:
  "us_starts s = us_starts r \<Longrightarrow> us_expires s = us_expires r \<Longrightarrow>
     automaticWindowStartAt cal s p period now = automaticWindowStartAt cal r p period now"
  "us_starts s = us_starts r \<Longrightarrow> us_expires s = us_expires r \<Longrightarrow> us_daily_start s = us_daily_start r \<Longrightarrow>
     automaticDailyWindowStartAt cal s now = automaticDailyWindowStartAt cal r now"
  by (simp_all add: automaticWindowStartAt_def windowResetAnchor_def Let_def automaticDailyWindowStartAt_def
      HasOneTimeDailyQuota_def split: option.split)

text \<open>One window: the compare-and-set succeeds on the row the snapshot was taken of.\<close>

lemma window_stage:
  assumes "has_row r db" and "us_deleted r = None" and "\<And>t x. us_id (f t x) = us_id x"
    and "\<And>t. reset t = bindW (sql (update_subs (\<lambda>x. us_id x = us_id r \<and> g x = g r) (f t))) (translateConditionalWindowReset (us_id r))"
    and "\<And>t. snapshot (f t r) (adv t)" and "snapshot r s"
  shows "\<exists>s' db'. maintain_window due reset adv s (quiet db) = (Inr s', quiet db') \<and>
     has_row (case due of None \<Rightarrow> r | Some t \<Rightarrow> f t r) db' \<and> others_same (us_id r) db db' \<and>
     snapshot (case due of None \<Rightarrow> r | Some t \<Rightarrow> f t r) s'"
proof (cases due)
  case None
  with assms show ?thesis by (simp add: maintain_window_def)
next
  case (Some t)
  obtain db' where db': "reset t (quiet db) = (Inr (), quiet db')" "has_row (f t r) db'" "others_same (us_id r) db db'"
    unfolding assms(4) by (rule conditional_reset[OF assms(1,2), of "f t" "\<lambda>x. g x = g r"]) (use assms(3) in auto)
  with Some assms(5) show ?thesis by (auto simp: maintain_window_def)
qed

lemma snapshot_upd:
  "snapshot r s \<Longrightarrow> snapshot (r\<lparr>us_daily := 0, us_daily_start := t\<rparr>) (s\<lparr>us_daily_start := t, us_daily := 0\<rparr>)"
  "snapshot r s \<Longrightarrow> snapshot (r\<lparr>us_weekly := 0, us_weekly_start := t\<rparr>) (s\<lparr>us_weekly_start := t, us_weekly := 0\<rparr>)"
  "snapshot r s \<Longrightarrow> snapshot (r\<lparr>us_monthly := 0, us_monthly_start := t\<rparr>) (s\<lparr>us_monthly_start := t, us_monthly := 0\<rparr>)"
  by (cases r, cases s, simp add: snapshot_def)+

lemma restart_fields [simp]:
  "us_id (restart_daily cal now s) = us_id s" "us_deleted (restart_daily cal now s) = us_deleted s"
  "us_id (restart_weekly cal now s) = us_id s" "us_deleted (restart_weekly cal now s) = us_deleted s"
  "us_id (restart_monthly cal now s) = us_id s" "us_deleted (restart_monthly cal now s) = us_deleted s"
  by (simp_all add: restart_daily_def restart_weekly_def restart_monthly_def split: option.splits)

lemma resets_quiet:
  assumes r: "has_row r db" "us_deleted r = None" and s: "snapshot r s"
  shows "\<exists>s' db'. CheckAndResetWindows cal cached now s (quiet db) = (Inr s', quiet db') \<and>
     has_row (restart_monthly cal now (restart_weekly cal now (restart_daily cal now r))) db' \<and>
     others_same (us_id r) db db' \<and> us_id s' = us_id r"
proof -
  let ?r1 = "restart_daily cal now r" and ?r2 = "restart_weekly cal now (restart_daily cal now r)"
  let ?r3 = "restart_monthly cal now ?r2"
  note S = snapshotD[OF s]
  let ?d = "automaticDailyWindowStartAt cal s now"
  have "\<exists>s1 db1. maintain_window ?d (ResetDailyUsage (us_id s) (us_daily_start s)) (\<lambda>t. s\<lparr>us_daily_start := Some t, us_daily := 0\<rparr>) s (quiet db)
      = (Inr s1, quiet db1) \<and> has_row ?r1 db1 \<and> others_same (us_id r) db db1 \<and> snapshot ?r1 s1"
    using window_stage[OF r _ _ _ s, of "\<lambda>t x. x\<lparr>us_daily := 0, us_daily_start := Some t\<rparr>" "ResetDailyUsage (us_id s) (us_daily_start s)"
        us_daily_start "\<lambda>t. s\<lparr>us_daily_start := Some t, us_daily := 0\<rparr>" ?d]
    by (simp add: ResetDailyUsage_def daily_rows_def S snapshot_upd[OF s] restart_daily_def automatic_same(2)[OF S(2,3,5)])
  then obtain s1 db1 where 1: "maintain_window ?d (ResetDailyUsage (us_id s) (us_daily_start s)) (\<lambda>t. s\<lparr>us_daily_start := Some t, us_daily := 0\<rparr>) s (quiet db)
      = (Inr s1, quiet db1)" "has_row ?r1 db1" "others_same (us_id r) db db1" "snapshot ?r1 s1" by blast
  note S1 = snapshotD[OF 1(4)]
  let ?w = "automaticWindowStartAt cal s1 (us_weekly_start s1) week now"
  have "\<exists>s2 db2. maintain_window ?w (ResetWeeklyUsage (us_id s1) (us_weekly_start s1)) (\<lambda>t. s1\<lparr>us_weekly_start := Some t, us_weekly := 0\<rparr>) s1 (quiet db1)
      = (Inr s2, quiet db2) \<and> has_row ?r2 db2 \<and> others_same (us_id r) db1 db2 \<and> snapshot ?r2 s2"
    using window_stage[OF 1(2) _ _ _ _ 1(4), of "\<lambda>t x. x\<lparr>us_weekly := 0, us_weekly_start := Some t\<rparr>" "ResetWeeklyUsage (us_id s1) (us_weekly_start s1)"
        us_weekly_start "\<lambda>t. s1\<lparr>us_weekly_start := Some t, us_weekly := 0\<rparr>" ?w] r(2)
    by (simp add: ResetWeeklyUsage_def weekly_rows_def S1 snapshot_upd[OF 1(4)] restart_weekly_def automatic_same(1)[OF S1(2,3)])
  then obtain s2 db2 where 2: "maintain_window ?w (ResetWeeklyUsage (us_id s1) (us_weekly_start s1)) (\<lambda>t. s1\<lparr>us_weekly_start := Some t, us_weekly := 0\<rparr>) s1 (quiet db1)
      = (Inr s2, quiet db2)" "has_row ?r2 db2" "others_same (us_id r) db1 db2" "snapshot ?r2 s2" by blast
  note S2 = snapshotD[OF 2(4)]
  let ?m = "automaticWindowStartAt cal s2 (us_monthly_start s2) month now"
  have "\<exists>s3 db3. maintain_window ?m (ResetMonthlyUsage (us_id s2) (us_monthly_start s2)) (\<lambda>t. s2\<lparr>us_monthly_start := Some t, us_monthly := 0\<rparr>) s2 (quiet db2)
      = (Inr s3, quiet db3) \<and> has_row ?r3 db3 \<and> others_same (us_id r) db2 db3 \<and> snapshot ?r3 s3"
    using window_stage[OF 2(2) _ _ _ _ 2(4), of "\<lambda>t x. x\<lparr>us_monthly := 0, us_monthly_start := Some t\<rparr>" "ResetMonthlyUsage (us_id s2) (us_monthly_start s2)"
        us_monthly_start "\<lambda>t. s2\<lparr>us_monthly_start := Some t, us_monthly := 0\<rparr>" ?m] r(2)
    by (simp add: ResetMonthlyUsage_def monthly_rows_def S2 snapshot_upd[OF 2(4)] restart_monthly_def automatic_same(1)[OF S2(2,3)])
  then obtain s3 db3 where 3: "maintain_window ?m (ResetMonthlyUsage (us_id s2) (us_monthly_start s2)) (\<lambda>t. s2\<lparr>us_monthly_start := Some t, us_monthly := 0\<rparr>) s2 (quiet db2)
      = (Inr s3, quiet db3)" "has_row ?r3 db3" "others_same (us_id r) db2 db3" "snapshot ?r3 s3" by blast
  have "CheckAndResetWindows cal cached now s (quiet db) = (Inr s3, quiet db3)"
    by (simp add: CheckAndResetWindows_def Let_def bindW_def tryW_def 1(1) 2(1) 3(1))
  moreover have "others_same (us_id r) db db3" using 1(3) 2(3) 3(3) others_same_trans by blast
  ultimately show ?thesis using 3(2,4) snapshotD(1)[OF 3(4)] by auto
qed

lemma maintenance_quiet:
  assumes r: "has_row r db" "us_deleted r = None" and s: "snapshot r s"
  shows "\<exists>db'. EnsureWindowMaintenance cal cached now now s (quiet db) = (Inr (maintained cal now r), quiet db') \<and>
     has_row (maintained cal now r) db' \<and> others_same (us_id r) db db'"
proof (cases "IsWindowActivated r")
  case True
  then have a: "IsWindowActivated s" by (simp add: IsWindowActivated_def snapshotD[OF s])
  obtain s' db' where c: "CheckAndResetWindows cal cached now s (quiet db) = (Inr s', quiet db')"
    "has_row (maintained cal now r) db'" "others_same (us_id r) db db'" "us_id s' = us_id r"
    using resets_quiet[OF r s, of cal cached now] True unfolding maintained_def by auto
  have "GetByID (us_id s') db' = (Inr (maintained cal now r), db')"
    using get_row[OF c(2)] c(4) r(2) True by (simp add: maintained_def)
  with c a show ?thesis by (simp add: EnsureWindowMaintenance_def bindW_def)
next
  case False
  then have a: "\<not> IsWindowActivated s" by (simp add: IsWindowActivated_def snapshotD[OF s])
  let ?f = "\<lambda>x. x\<lparr>us_daily_start := Some (day_start cal now), us_weekly_start := Some now, us_monthly_start := Some now\<rparr>"
  obtain db1 where 1: "bindW (sql (update_subs (\<lambda>x. us_id x = us_id r \<and> us_daily_start x = None \<and> us_weekly_start x = None \<and> us_monthly_start x = None) ?f))
      (translateConditionalWindowReset (us_id r)) (quiet db) = (Inr (), quiet db1)" "has_row (?f r) db1" "others_same (us_id r) db db1"
    by (rule conditional_reset[OF r, of ?f "\<lambda>x. us_daily_start x = None \<and> us_weekly_start x = None \<and> us_monthly_start x = None"])
      (use False in \<open>auto simp: IsWindowActivated_def\<close>)
  have act: "CheckAndActivateWindow cal now s (quiet db) = (Inr (), quiet db1)"
    using 1(1) a by (simp add: CheckAndActivateWindow_def ActivateWindows_def activate_rows_def snapshotD(1)[OF s])
  have none: "us_daily_start s = None" "us_weekly_start s = None" "us_monthly_start s = None"
    using a by (auto simp: IsWindowActivated_def)
  have "CheckAndResetWindows cal cached now s (quiet db1) = (Inr s, quiet db1)"
    by (simp add: CheckAndResetWindows_def Let_def maintain_window_def automaticDailyWindowStartAt_def automaticWindowStartAt_def none bindW_def)
  moreover have "GetByID (us_id s) db1 = (Inr (?f r), db1)" using get_row[OF 1(2)] r(2) by (simp add: snapshotD(1)[OF s])
  moreover have "maintained cal now r = ?f r" using False by (simp add: maintained_def activated_def)
  ultimately show ?thesis using 1(2,3) a act by (simp add: EnsureWindowMaintenance_def bindW_def)
qed

section \<open>Who is let through\<close>

text \<open>The windows of a term do not start before its first day.\<close>

definition well_anchored :: "calendar \<Rightarrow> UserSubscription \<Rightarrow> bool" where
  "well_anchored cal s \<longleftrightarrow>
     (\<forall>p. us_weekly_start s = Some p \<or> us_monthly_start s = Some p \<longrightarrow> own_day_start cal (us_starts s) \<le> p)"

definition no_window_due :: "calendar \<Rightarrow> int \<Rightarrow> UserSubscription \<Rightarrow> bool" where
  "no_window_due cal now s \<longleftrightarrow>
     automaticDailyWindowStartAt cal s now = None \<and>
     automaticWindowStartAt cal s (us_weekly_start s) week now = None \<and>
     automaticWindowStartAt cal s (us_monthly_start s) month now = None"

text \<open>The verdict on a subscription whose windows are current.\<close>

definition verdict :: "int \<Rightarrow> Group \<Rightarrow> UserSubscription \<Rightarrow> err option" where
  "verdict now g s =
     (if us_status s = SubscriptionStatusExpired then Some ErrSubscriptionExpired
      else if us_status s = SubscriptionStatusSuspended then Some ErrSubscriptionSuspended
      else if \<not> us_expires s > now then Some ErrSubscriptionExpired
      else CheckUsageLimits s g 0)"

definition usable :: "int \<Rightarrow> UserSubscription \<Rightarrow> bool" where
  "usable now s \<longleftrightarrow> us_status s \<noteq> SubscriptionStatusExpired \<and> us_status s \<noteq> SubscriptionStatusSuspended \<and> now < us_expires s"

lemma restart_starts [simp]:
  "us_starts (restart_daily cal now s) = us_starts s" "us_expires (restart_daily cal now s) = us_expires s"
  "us_starts (restart_weekly cal now s) = us_starts s" "us_expires (restart_weekly cal now s) = us_expires s"
  "us_starts (restart_monthly cal now s) = us_starts s" "us_expires (restart_monthly cal now s) = us_expires s"
  "us_status (restart_daily cal now s) = us_status s" "us_status (restart_weekly cal now s) = us_status s"
  "us_status (restart_monthly cal now s) = us_status s"
  "us_weekly_start (restart_daily cal now s) = us_weekly_start s" "us_monthly_start (restart_daily cal now s) = us_monthly_start s"
  "us_daily_start (restart_weekly cal now s) = us_daily_start s" "us_monthly_start (restart_weekly cal now s) = us_monthly_start s"
  "us_daily_start (restart_monthly cal now s) = us_daily_start s" "us_weekly_start (restart_monthly cal now s) = us_weekly_start s"
  by (simp_all add: restart_daily_def restart_weekly_def restart_monthly_def split: option.splits)

lemma restarted_window:
  assumes "0 < period" and "\<And>p. previous = Some p \<Longrightarrow> own_day_start cal (us_starts s) \<le> p"
    and "us_starts s' = us_starts s" and "us_expires s' = us_expires s"
  shows "automaticWindowStartAt cal s' (case automaticWindowStartAt cal s previous period now of None \<Rightarrow> previous | Some t \<Rightarrow> Some t) period now = None"
proof (cases "automaticWindowStartAt cal s previous period now")
  case None
  then show ?thesis using automatic_same(1)[OF assms(3,4)] by simp
next
  case (Some t)
  then obtain p where p: "previous = Some p" "window_grid cal s p period now t" using automatic_window[OF assms(1)] by blast
  with Some window_current[OF assms(1) assms(2) _ assms(3,4)] show ?thesis by simp
qed

lemma maintained_current:
  assumes "time_zone cal" and "well_anchored cal s"
  shows "no_window_due cal now (maintained cal now s)" and "IsWindowActivated (maintained cal now s)"
proof -
  have "no_window_due cal now (maintained cal now s) \<and> IsWindowActivated (maintained cal now s)"
  proof (cases "IsWindowActivated s")
    case True
    let ?m = "maintained cal now s"
    have m: "us_starts ?m = us_starts s" "us_expires ?m = us_expires s"
      "us_daily_start ?m = (case automaticDailyWindowStartAt cal s now of None \<Rightarrow> us_daily_start s | Some t \<Rightarrow> Some t)"
      "us_weekly_start ?m = (case automaticWindowStartAt cal s (us_weekly_start s) week now of None \<Rightarrow> us_weekly_start s | Some t \<Rightarrow> Some t)"
      "us_monthly_start ?m = (case automaticWindowStartAt cal s (us_monthly_start s) month now of None \<Rightarrow> us_monthly_start s | Some t \<Rightarrow> Some t)"
      using True automatic_same(1)[of "restart_daily cal now s" s cal]
        automatic_same(1)[of "restart_weekly cal now (restart_daily cal now s)" s cal]
      by (simp_all add: maintained_def) (simp_all add: restart_daily_def restart_weekly_def restart_monthly_def split: option.splits)
    have "automaticDailyWindowStartAt cal ?m now = None"
    proof (cases "automaticDailyWindowStartAt cal s now")
      case None
      then show ?thesis using automatic_same(2)[OF m(1,2), of cal now] m(3) by simp
    next
      case (Some t)
      from time_zone.daily_current(3)[OF assms(1) Some]
      show ?thesis using automatic_same(2)[of ?m "s\<lparr>us_daily_start := Some t, us_daily := 0\<rparr>" cal now] m(1-3) Some by simp
    qed
    moreover have "automaticWindowStartAt cal ?m (us_weekly_start ?m) week now = None"
      unfolding m(4) by (rule restarted_window[OF _ _ m(1,2)]) (use assms(2) in \<open>auto simp: well_anchored_def\<close>)
    moreover have "automaticWindowStartAt cal ?m (us_monthly_start ?m) month now = None"
      unfolding m(5) by (rule restarted_window[OF _ _ m(1,2)]) (use assms(2) in \<open>auto simp: well_anchored_def\<close>)
    moreover have "IsWindowActivated ?m" using True m(3-5) by (auto simp: IsWindowActivated_def split: option.splits)
    ultimately show ?thesis by (simp add: no_window_due_def)
  next
    case False
    let ?m = "maintained cal now s"
    have m: "us_daily_start ?m = Some (day_start cal now)" "us_weekly_start ?m = Some now" "us_monthly_start ?m = Some now"
      using False by (simp_all add: maintained_def activated_def)
    have "now \<le> anchored cal ?m now" by (auto simp: windowResetAnchor_def Let_def)
    then have "\<not> anchored cal ?m now + week \<le> now" "\<not> anchored cal ?m now + month \<le> now"
      using day_positive(2,3) by linarith+
    then show ?thesis using m time_zone.start_idem[OF assms(1)] automatic_due[of week cal ?m "Some now" now] automatic_due[of month cal ?m "Some now" now]
      by (auto simp: no_window_due_def IsWindowActivated_def automaticDailyWindowStartAt_def)
  qed
  then show "no_window_due cal now (maintained cal now s)" and "IsWindowActivated (maintained cal now s)" by auto
qed

lemma maintained_same:
  "us_starts (maintained cal now s) = us_starts s" "us_expires (maintained cal now s) = us_expires s"
  "us_status (maintained cal now s) = us_status s" "us_id (maintained cal now s) = us_id s"
  "us_deleted (maintained cal now s) = us_deleted s"
  by (simp_all add: maintained_def activated_def)

lemma maintained_idle: "no_window_due cal now s \<Longrightarrow> IsWindowActivated s \<Longrightarrow> maintained cal now s = s"
  by (simp add: maintained_def no_window_due_def restart_daily_def restart_weekly_def restart_monthly_def)

lemma validate_current:
  assumes "no_window_due cal now s"
  shows "ValidateAndCheckLimits cal now s g = ((usable now s \<and> \<not> IsWindowActivated s, verdict now g s), s)"
  using assms by (auto simp: ValidateAndCheckLimits_def Let_def verdict_def usable_def CheckUsageLimits_def no_window_due_def
      canAutomaticallyResetDailyAt_def canAutomaticallyResetWeeklyAt_def canAutomaticallyResetMonthlyAt_def)

lemma validate_snapshot:
  assumes "usable now s"
  obtains e s' where "ValidateAndCheckLimits cal now s g = ((\<not> no_window_due cal now s \<or> \<not> IsWindowActivated s, e), s')" "snapshot s s'"
proof -
  define d w m where "d = canAutomaticallyResetDailyAt cal s now" and "w = canAutomaticallyResetWeeklyAt cal s now"
    and "m = canAutomaticallyResetMonthlyAt cal s now"
  define s' where "s' = s\<lparr>us_daily := if d then 0 else us_daily s, us_weekly := if w then 0 else us_weekly s,
    us_monthly := if m then 0 else us_monthly s\<rparr>"
  have s': "(let s = if d then s\<lparr>us_daily := 0\<rparr> else s; s = if w then s\<lparr>us_weekly := 0\<rparr> else s in if m then s\<lparr>us_monthly := 0\<rparr> else s) = s'"
    by (cases s) (simp add: s'_def)
  have "ValidateAndCheckLimits cal now s g = ((d \<or> w \<or> m \<or> \<not> IsWindowActivated s, CheckUsageLimits s' g 0), s')"
    using assms unfolding s'[symmetric]
    by (simp add: ValidateAndCheckLimits_def usable_def CheckUsageLimits_def d_def[symmetric] w_def[symmetric] m_def[symmetric] Let_def)
  moreover have "(d \<or> w \<or> m) = (\<not> no_window_due cal now s)"
    by (auto simp: d_def w_def m_def no_window_due_def canAutomaticallyResetDailyAt_def canAutomaticallyResetWeeklyAt_def
      canAutomaticallyResetMonthlyAt_def)
  moreover have "snapshot s s'" by (simp add: s'_def snapshot_def)
  ultimately show thesis using that by auto
qed

lemma validate_refused:
  assumes "\<not> usable now s"
  shows "\<exists>e. ValidateAndCheckLimits cal now s g = ((False, Some e), s) \<and> verdict now g (maintained cal now s) = Some e"
proof -
  define e where "e = (if us_status s = SubscriptionStatusExpired then ErrSubscriptionExpired
    else if us_status s = SubscriptionStatusSuspended then ErrSubscriptionSuspended else ErrSubscriptionExpired)"
  have "ValidateAndCheckLimits cal now s g = ((False, Some e), s)" "verdict now g (maintained cal now s) = Some e"
    using assms by (simp_all add: ValidateAndCheckLimits_def verdict_def maintained_same usable_def e_def) blast+
  then show ?thesis by blast
qed

text \<open>
  C8. On a quiet connection the gate decides exactly by the subscription with its windows
  brought up to date: it refuses an expired or suspended subscription untouched, and
  otherwise activates or restarts the due windows in the table, leaves all other
  subscriptions alone, and lets the request through with the row it now holds if and only
  if that row's usage is within every limit of the group; no window is due afterwards.
\<close>

theorem gate_decides_by_current_windows:
  assumes "time_zone cal" and "has_row s db" and "us_deleted s = None" and "well_anchored cal s"
  shows "\<exists>db'. subscription_gate cal cached now now now now g s (quiet db) =
       (Inr (case verdict now g (maintained cal now s) of None \<Rightarrow> Inr (maintained cal now s) | Some e \<Rightarrow> Inl e), quiet db') \<and>
     has_row (if usable now s then maintained cal now s else s) db' \<and> others_same (us_id s) db db' \<and>
     no_window_due cal now (maintained cal now s) \<and> IsWindowActivated (maintained cal now s)"
proof -
  let ?m = "maintained cal now s"
  note cur = maintained_current[OF assms(1,4), of now]
  have vm: "ValidateAndCheckLimits cal now ?m g = ((False, verdict now g ?m), ?m)"
    using validate_current[OF cur(1), of g] cur(2) by simp
  show ?thesis
  proof (cases "usable now s")
    case False
    then obtain e where "ValidateAndCheckLimits cal now s g = ((False, Some e), s)" "verdict now g ?m = Some e"
      using validate_refused by blast
    with False cur assms(2) show ?thesis by (auto simp: subscription_gate_def)
  next
    case True
    then obtain e s' where v: "ValidateAndCheckLimits cal now s g = ((\<not> no_window_due cal now s \<or> \<not> IsWindowActivated s, e), s')" "snapshot s s'"
      by (rule validate_snapshot)
    show ?thesis
    proof (cases "no_window_due cal now s \<and> IsWindowActivated s")
      case idle: True
      then have "?m = s" by (simp add: maintained_idle)
      with vm assms(2) cur show ?thesis by (auto simp: subscription_gate_def split: option.split)
    next
      case due: False
      obtain db' where db': "EnsureWindowMaintenance cal cached now now s' (quiet db) = (Inr ?m, quiet db')"
        "has_row ?m db'" "others_same (us_id s) db db'"
        using maintenance_quiet[OF assms(2,3) v(2)] by blast
      have "subscription_gate cal cached now now now now g s (quiet db) =
          (Inr (case verdict now g ?m of None \<Rightarrow> Inr ?m | Some e \<Rightarrow> Inl e), quiet db')"
        using due v(1) db'(1) vm by (auto simp: subscription_gate_def bindW_def split: option.split)
      with db'(2,3) True cur show ?thesis by auto
    qed
  qed
qed

definition plain_group :: Group where
  "plain_group = \<lparr>gr_type = ''subscription'', gr_daily_limit = None, gr_weekly_limit = Some 5, gr_monthly_limit = None\<rparr>"

definition one_row :: "UserSubscription \<Rightarrow> sub_db" where
  "one_row s = \<lparr>sub_rows = [s], sub_next = us_id s + 1, sub_groups = (\<lambda>_. Some plain_group)\<rparr>"

lemma one_row_has: "has_row s (one_row s)"
  by (simp add: has_row_def one_row_def)

lemma gate_decides_by_current_windows_witness:
  "\<exists>db'. subscription_gate (fixed_zone 0) True week week week week plain_group (one_term\<lparr>us_weekly := 9\<rparr>) (quiet (one_row (one_term\<lparr>us_weekly := 9\<rparr>))) =
     (Inr (case verdict week plain_group (maintained (fixed_zone 0) week (one_term\<lparr>us_weekly := 9\<rparr>)) of
        None \<Rightarrow> Inr (maintained (fixed_zone 0) week (one_term\<lparr>us_weekly := 9\<rparr>)) | Some e \<Rightarrow> Inl e), quiet db')"
  using gate_decides_by_current_windows[OF fixed_zone_time_zone[of 0] one_row_has, of "one_term\<lparr>us_weekly := 9\<rparr>" True week plain_group]
  by (auto simp: well_anchored_def one_term_def fixed_zone_def)

end
