(* ===== verification/Subscription_Properties.thy ===== *)
theory Subscription_Properties
  imports Subscription_Gate
begin

text \<open>
  Properties of the subscription service: the allowance of a term under concurrent
  maintenance, a partial administrative reset, adjustments, assignment and renewal, and the
  uniqueness of live subscriptions.
\<close>

section \<open>The allowance\<close>

text \<open>
  C7. However many requests maintain a subscription at the same time, from however stale
  snapshots of it, its weekly and monthly windows are restarted at most once per whole
  period of the term, and no recorded usage is lost: what the restarts wiped out and what
  the window holds add up to what it held before and all that was charged since.
\<close>

theorem allowance_granted_once_per_period:
  assumes "has_row r db" and "start_of k r = Some p" and "own_day_start cal (us_starts r) \<le> p"
    and "\<forall>e\<in>set es. \<forall>s. snapshot_of e = Some s \<longrightarrow> us_starts s = us_starts r \<and> us_expires s \<le> E"
  shows "(fst (restarts cal k (us_id r) es db) = 0 \<or>
       int (fst (restarts cal k (us_id r) es db)) \<le> (E - anchored cal r p - 1) div period_of k) \<and>
     snd (restarts cal k (us_id r) es db) + usage_of k (final_row cal (us_id r) es db) = usage_of k r + charged cal (us_id r) es db"
proof -
  let ?n = "fst (restarts cal k (us_id r) es db)"
  obtain q where q: "anchored cal r p + int ?n * period_of k \<le> anchored cal r q" "?n = 0 \<and> q = p \<or> anchored cal r q < E"
    "snd (restarts cal k (us_id r) es db) + usage_of k (final_row cal (us_id r) es db) = usage_of k r + charged cal (us_id r) es db"
    using term_accounts[OF assms(1) refl assms(2-4)] by blast
  have pos: "0 < period_of k" by (cases k) simp_all
  have "int ?n \<le> (E - anchored cal r p - 1) div period_of k" if "anchored cal r q < E"
  proof -
    have "int ?n * period_of k \<le> E - anchored cal r p - 1" using q(1) that by linarith
    then have "int ?n * period_of k div period_of k \<le> (E - anchored cal r p - 1) div period_of k"
      using pos by (intro zdiv_mono1) auto
    then show ?thesis using pos by simp
  qed
  with q(2,3) show ?thesis by auto
qed

lemma allowance_granted_once_per_period_witness:
  "int (fst (restarts (fixed_zone 0) Weekly 1
      [Usage 3, Weekly_Reset one_term (week + 5), Weekly_Reset one_term (week + 6), Usage 2] (one_row one_term))) \<le> 4"
proof -
  have "start_of Weekly one_term = Some 0" "own_day_start (fixed_zone 0) (us_starts one_term) \<le> 0" "us_id one_term = 1"
    "anchored (fixed_zone 0) one_term 0 = 0"
    by (simp_all add: one_term_def fixed_zone_def windowResetAnchor_def)
  moreover have "\<forall>e\<in>set [Usage 3, Weekly_Reset one_term (week + 5), Weekly_Reset one_term (week + 6), Usage 2].
      \<forall>s. snapshot_of e = Some s \<longrightarrow> us_starts s = us_starts one_term \<and> us_expires s \<le> 30 * subscriptionDayDuration"
    by (simp add: one_term_def)
  moreover have "(30 * subscriptionDayDuration - 0 - 1) div period_of Weekly = 4"
    by (simp add: subscriptionDayDuration_def week_def)
  ultimately show ?thesis
    using allowance_granted_once_per_period[OF one_row_has, of Weekly one_term 0 "fixed_zone 0"] by fastforce
qed

section \<open>A partial reset\<close>

lemma unstarted_moves:
  assumes "row_moves cal e ok r r'" and "us_weekly_start r = None" and "IsWindowActivated r"
  shows "us_weekly_start r' = None \<and> IsWindowActivated r' \<and>
     us_weekly r' = us_weekly r + (case e of Usage c \<Rightarrow> if ok then c else 0 | _ \<Rightarrow> 0) \<and> us_id r' = us_id r"
  using assms by (cases e) (auto simp: add_usage_def IsWindowActivated_def automaticWindowStartAt_def split: if_splits)

lemma unstarted_stays:
  assumes "has_row r db" and "us_id r = i" and "us_weekly_start r = None" and "IsWindowActivated r"
  shows "us_weekly_start (final_row cal i es db) = None \<and> IsWindowActivated (final_row cal i es db) \<and>
     us_weekly (final_row cal i es db) = us_weekly r + charged cal i es db"
  using assms
proof (induction es arbitrary: r db)
  case Nil
  then have "row_of i db = r" using row_of_has by blast
  with Nil show ?case by simp
next
  case (Cons e es)
  let ?db = "snd (stmt_act cal i e db)"
  obtain r' where r': "has_row r' ?db" "row_moves cal e (\<exists>u. fst (stmt_act cal i e db) = Inr u) r r'"
    using stmt_row[OF Cons.prems(1,2)] by blast
  note m = unstarted_moves[OF r'(2) Cons.prems(3,4)]
  have "us_weekly (final_row cal i es ?db) = us_weekly r' + charged cal i es ?db \<and>
      us_weekly_start (final_row cal i es ?db) = None \<and> IsWindowActivated (final_row cal i es ?db)"
    using Cons.IH[OF r'(1)] m Cons.prems(2) by auto
  then show ?case using m stmt_charge[of e cal i db] by (simp add: add.assoc)
qed

text \<open>
  C40. An administrator who resets only the daily quota of a subscription that was never
  used starts its daily window alone. From then on no maintenance, whatever it reads and
  whenever it runs, starts the weekly window, so weekly usage only accumulates and every
  request is refused for the rest of the term once it exceeds one week's limit.
\<close>

theorem partial_reset_stalls_weekly_window:
  assumes "has_row s db" and "us_deleted s = None" and "\<not> IsWindowActivated s" and "us_weekly s = 0"
  shows "\<exists>s1 db1. AdminResetQuota cal cached now (us_id s) True False False (quiet db) = (Inr s1, quiet db1) \<and> has_row s1 db1 \<and>
     (\<forall>es later g. us_weekly_start (final_row cal (us_id s) es db1) = None \<and>
        (HasWeeklyLimit g \<and> charged cal (us_id s) es db1 > the (gr_weekly_limit g) \<longrightarrow>
         verdict later g (maintained cal later (final_row cal (us_id s) es db1)) \<noteq> None))"
proof -
  let ?f = "reset_fields True False False (day_start cal now) now"
  have f: "?f x = x\<lparr>us_daily := 0, us_daily_start := Some (day_start cal now)\<rparr>" for x by (simp add: reset_fields_def)
  obtain db1 where u: "update_one (us_id s) ?f db = (Inr (), db1)" "has_row (?f s) db1"
    using update_one_row[OF assms(1), of ?f] by (auto simp: f)
  have get: "GetByID (us_id s) db = (Inr s, db)" "GetByID (us_id s) db1 = (Inr (?f s), db1)"
    using get_row[OF assms(1,2)] get_row[OF u(2)] assms(2) by (simp_all add: f)
  have "AdminResetQuota cal cached now (us_id s) True False False (quiet db) = (Inr (?f s), quiet db1)"
    by (simp add: AdminResetQuota_def ResetUsageWindows_def bindW_def tryW_def get u(1))
  moreover have "us_weekly_start (final_row cal (us_id s) es db1) = None \<and>
      (HasWeeklyLimit g \<and> charged cal (us_id s) es db1 > the (gr_weekly_limit g) \<longrightarrow>
       verdict later g (maintained cal later (final_row cal (us_id s) es db1)) \<noteq> None)" for es later g
  proof -
    let ?r = "final_row cal (us_id s) es db1"
    have st: "us_weekly_start ?r = None" "IsWindowActivated ?r" "us_weekly ?r = charged cal (us_id s) es db1"
      using unstarted_stays[OF u(2), of "us_id s" cal es] assms(3,4) by (auto simp: f IsWindowActivated_def)
    then have "us_weekly (maintained cal later ?r) = us_weekly ?r"
      by (simp add: maintained_def restart_daily_def restart_weekly_def restart_monthly_def automaticWindowStartAt_def split: option.split)
    with st show ?thesis by (auto simp: verdict_def CheckUsageLimits_def CheckWeeklyLimit_def)
  qed
  ultimately show ?thesis using u(2) by blast
qed

lemma partial_reset_stalls_weekly_window_witness:
  "\<exists>s1 db1. AdminResetQuota (fixed_zone 0) False 5 1 True False False
       (quiet (one_row (one_term\<lparr>us_daily_start := None, us_weekly_start := None, us_monthly_start := None\<rparr>))) = (Inr s1, quiet db1)"
  using partial_reset_stalls_weekly_window[OF one_row_has,
      of "one_term\<lparr>us_daily_start := None, us_weekly_start := None, us_monthly_start := None\<rparr>" "fixed_zone 0" False 5]
  by (auto simp: one_term_def IsWindowActivated_def)

section \<open>Adjustments of the expiry\<close>

text \<open>
  An adjustment by an administrator at some clock, with the fate of its transaction; the
  answer is read on a sound connection.
\<close>

definition adjusted :: "calendar \<Rightarrow> id \<Rightarrow> fault \<times> int \<times> int \<Rightarrow> sub_db \<Rightarrow> sub_db" where
  "adjusted cal i a db = (case a of (f, now, days) \<Rightarrow>
     w_db (snd (ExtendSubscription cal now i days \<lparr>w_db = db, w_net = [(\<lambda>d. d, f)]\<rparr>)))"

lemma sql_once:
  "w_db (snd (bindW (sql p) (\<lambda>_. sql q) \<lparr>w_db = db, w_net = [(\<lambda>d. d, f)]\<rparr>)) =
     (if f = Lost then db else if f = Fine then (case p db of (Inl e, db') \<Rightarrow> db' | (Inr a, db') \<Rightarrow> snd (q db')) else snd (p db))"
  by (cases f) (auto simp: sql_def bindW_def round_trip.simps failW_def returnW_def split: prod.splits sum.splits)

lemma cap_add:
  assumes "time_zone cal" and "0 \<le> d"
  shows "cap_expiry (add_days cal (cap_expiry t) d) = cap_expiry (add_days cal t d)"
  using time_zone.add_days_ge[OF assms, of MaxExpiresAt] time_zone.add_days_ge[OF assms, of t] by (auto simp: cap_expiry_def)

lemma adjust_row:
  assumes r: "has_row r db" "us_deleted r = None" and cal: "time_zone cal"
    and days: "now < us_expires r" "us_expires r \<le> MaxExpiresAt" "0 \<le> days" "days \<le> MaxValidityDays"
  defines "e \<equiv> cap_expiry (add_days cal (us_expires r) days)"
  shows "\<exists>st db'. bindA (lock_for_adjust (us_id r)) (adjust_term cal now days) db = (Inr (), db') \<and>
     has_row (r\<lparr>us_expires := e, us_status := st\<rparr>) db'"
proof -
  have "us_expires r \<le> e" using time_zone.add_days_ge[OF cal days(3), of "us_expires r"] days(2) by (auto simp: e_def cap_expiry_def)
  then have adj: "adjust_term cal now days r = bindA (ExtendExpiry (us_id r) e) (\<lambda>_.
      if us_status r = SubscriptionStatusExpired then UpdateStatus (us_id r) SubscriptionStatusActive else returnA ())"
    using days by (simp add: adjust_term_def Let_def e_def MaxValidityDays_def)
  have lock: "lock_for_adjust (us_id r) db = (Inr r, db)"
    using get_row[OF r] by (simp add: lock_for_adjust_def GetByIDForUpdate_def GetByID_def)
  obtain d1 where d1: "update_one (us_id r) (\<lambda>x. x\<lparr>us_expires := e\<rparr>) db = (Inr (), d1)" "has_row (r\<lparr>us_expires := e\<rparr>) d1"
    using update_one_row[OF r(1), of "\<lambda>x. x\<lparr>us_expires := e\<rparr>"] by auto
  obtain d2 where d2: "update_one (us_id r) (\<lambda>x. x\<lparr>us_status := SubscriptionStatusActive\<rparr>) d1 = (Inr (), d2)"
    "has_row (r\<lparr>us_expires := e, us_status := SubscriptionStatusActive\<rparr>) d2"
    using update_one_row[OF d1(2), of "\<lambda>x. x\<lparr>us_status := SubscriptionStatusActive\<rparr>"] by auto
  show ?thesis
  proof (cases "us_status r = SubscriptionStatusExpired")
    case True
    with d1(1) d2 show ?thesis by (auto simp: bindA_def lock adj ExtendExpiry_def UpdateStatus_def)
  next
    case False
    have "r\<lparr>us_expires := e, us_status := us_status r\<rparr> = r\<lparr>us_expires := e\<rparr>" by simp
    with False d1 show ?thesis by (auto simp: bindA_def lock adj ExtendExpiry_def returnA_def intro!: exI[of _ "us_status r"])
  qed
qed

lemma adjusted_row:
  assumes r: "has_row r db" "us_deleted r = None" and cal: "time_zone cal"
    and days: "now < us_expires r" "us_expires r \<le> MaxExpiresAt" "0 \<le> days" "days \<le> MaxValidityDays"
  shows "\<exists>st. has_row (r\<lparr>us_expires := cap_expiry (add_days cal (us_expires r) (if f = Lost then 0 else days)), us_status := st\<rparr>)
     (adjusted cal (us_id r) (f, now, days) db)"
proof -
  let ?tx = "bindA (lock_for_adjust (us_id r)) (adjust_term cal now days)"
  obtain st db' where tx: "?tx db = (Inr (), db')"
    "has_row (r\<lparr>us_expires := cap_expiry (add_days cal (us_expires r) days), us_status := st\<rparr>) db'"
    using adjust_row[OF r cal days] by blast
  have "snd (GetByID (us_id r) d) = d" for d by (simp add: GetByID_def only_row_def split: list.splits)
  then have "adjusted cal (us_id r) (f, now, days) db = (if f = Lost then db else db')"
    by (simp add: adjusted_def ExtendSubscription_def withSubscriptionUpdateTx_def sql_once tx(1))
  moreover have "r\<lparr>us_expires := cap_expiry (add_days cal (us_expires r) 0), us_status := us_status r\<rparr> = r"
    using time_zone.add_days_0[OF cal, of "us_expires r"] days(2) by (simp add: cap_expiry_def)
  ultimately show ?thesis using tx(2) r(1) by (cases "f = Lost") (auto intro: exI[of _ "us_status r"])
qed

text \<open>
  Adjustments of a running subscription are never lost or doubled by concurrency:
  whatever the order of any number of extensions, some of whose transactions failed or
  whose replies were lost, the expiry ends up moved by exactly the days of those that took
  effect, capped at the latest expiry, and nothing else of the row but its status changes.
\<close>

theorem adjustments_add_up:
  assumes "time_zone cal" and "has_row r db" and "us_deleted r = None" and "us_expires r \<le> MaxExpiresAt"
    and "\<forall>f now days. (f, now, days) \<in> set as \<longrightarrow> now < us_expires r \<and> 0 \<le> days \<and> days \<le> MaxValidityDays"
  shows "\<exists>st. has_row (r\<lparr>us_expires := cap_expiry (add_days cal (us_expires r) (\<Sum>(f, now, days)\<leftarrow>as. if f = Lost then 0 else days)), us_status := st\<rparr>)
     (fold (adjusted cal (us_id r)) as db)"
  using assms(2-)
proof (induction as arbitrary: r db)
  case Nil
  then show ?case using time_zone.add_days_0[OF assms(1), of "us_expires r"] by (auto simp: cap_expiry_def intro: exI[of _ "us_status r"])
next
  case (Cons a as)
  obtain f now days where a: "a = (f, now, days)" by (cases a)
  let ?d = "if f = Lost then 0 else days" and ?s = "\<Sum>(f, now, days)\<leftarrow>as. if f = Lost then 0 else days"
  let ?e = "cap_expiry (add_days cal (us_expires r) ?d)"
  have days: "now < us_expires r" "0 \<le> days" "days \<le> MaxValidityDays" using Cons.prems(4) a by auto
  obtain st where r': "has_row (r\<lparr>us_expires := ?e, us_status := st\<rparr>) (adjusted cal (us_id r) a db)"
    using adjusted_row[OF Cons.prems(1,2) assms(1) days(1) Cons.prems(3) days(2,3), of f] unfolding a by blast
  have grow: "us_expires r \<le> ?e" "?e \<le> MaxExpiresAt"
    using time_zone.add_days_ge[OF assms(1), of ?d "us_expires r"] days(2) Cons.prems(3) by (auto simp: cap_expiry_def)
  have sum: "0 \<le> ?s"
    using Cons.prems(4) by (intro sum_list_nonneg) (auto split: if_splits)
  have fuel: "\<forall>f now days. (f, now, days) \<in> set as \<longrightarrow> now < ?e \<and> 0 \<le> days \<and> days \<le> MaxValidityDays"
    using Cons.prems(4) grow(1) by fastforce
  have "cap_expiry (add_days cal ?e ?s) = cap_expiry (add_days cal (us_expires r) (?d + ?s))"
    using cap_add[OF assms(1) sum] time_zone.add_days_add[OF assms(1)] by simp
  then show ?case using Cons.IH[OF r'] Cons.prems(2) grow(2) fuel by (auto simp: a)
qed

lemma adjustments_add_up_witness:
  "\<exists>st. has_row (one_term\<lparr>us_expires := cap_expiry (add_days (fixed_zone 0) (us_expires one_term) 12), us_status := st\<rparr>)
     (fold (adjusted (fixed_zone 0) 1) [(Fine, 3, 5), (Lost, 4, 30), (ReplyLost, 9, 7)] (one_row one_term))"
proof -
  have "us_id one_term = 1" "us_deleted one_term = None" "us_expires one_term \<le> MaxExpiresAt"
    "\<forall>f now days. (f, now, days) \<in> set [(Fine, 3, 5), (Lost, 4, 30), (ReplyLost, 9, 7)] \<longrightarrow>
       now < us_expires one_term \<and> 0 \<le> days \<and> days \<le> MaxValidityDays"
    by (auto simp: one_term_def MaxExpiresAt_def subscriptionDayDuration_def MaxValidityDays_def)
  with adjustments_add_up[OF fixed_zone_time_zone[of 0] one_row_has[of one_term], of "[(Fine, 3, 5), (Lost, 4, 30), (ReplyLost, 9, 7)]"]
  show ?thesis by simp
qed

end
