(* ===== verification/Subscription_Assign.thy ===== *)
theory Subscription_Assign
  imports Subscription_Rows
begin

text \<open>
  Assignment of subscriptions: a user has at most one live subscription per group, through
  every method, interference and failure; and what redeeming does.
\<close>

section \<open>At most one live subscription per user and group\<close>

definition subs_ok :: "sub_db \<Rightarrow> bool" where
  "subs_ok db \<longleftrightarrow> distinct (map us_id (sub_rows db)) \<and> (\<forall>r\<in>set (sub_rows db). us_id r < sub_next db) \<and>
     (\<forall>r\<in>set (sub_rows db). \<forall>s\<in>set (sub_rows db).
        undeleted r \<and> undeleted s \<and> us_user r = us_user s \<and> us_group r = us_group s \<longrightarrow> us_id r = us_id s)"

definition keepsA :: "'a act \<Rightarrow> bool" where
  "keepsA p \<longleftrightarrow> (\<forall>db. subs_ok db \<longrightarrow> subs_ok (snd (p db)))"

named_theorems keepsA_intros \<open>statements that keep the table well formed\<close>

lemma keepsA_bind [keepsA_intros]: "keepsA p \<Longrightarrow> (\<And>a. keepsA (k a)) \<Longrightarrow> keepsA (bindA p k)"
  unfolding keepsA_def bindA_def by (force split: prod.splits sum.splits)

lemma keepsA_simple [keepsA_intros]: "keepsA (returnA a)" "keepsA (failA e)"
  by (simp_all add: keepsA_def returnA_def failA_def)

lemma keepsA_if [keepsA_intros]: "keepsA p \<Longrightarrow> keepsA q \<Longrightarrow> keepsA (if b then p else q)"
  by simp

lemma keepsA_read [keepsA_intros]: "keepsA (only_row P)" "keepsA (ExistsByUserIDAndGroupID u g)"
  "keepsA (ListByUserID u)" "keepsA (ListActiveByUserID now u)"
  by (auto simp: keepsA_def only_row_def ExistsByUserIDAndGroupID_def ListByUserID_def ListActiveByUserID_def split: list.splits)

definition same_owner :: "(UserSubscription \<Rightarrow> UserSubscription) \<Rightarrow> bool" where
  "same_owner f \<longleftrightarrow> (\<forall>x. us_id (f x) = us_id x \<and> us_user (f x) = us_user x \<and> us_group (f x) = us_group x \<and>
     (undeleted (f x) \<longrightarrow> undeleted x))"

lemma subs_ok_map:
  assumes "subs_ok db" and "\<And>r. us_id (g r) = us_id r"
    and "\<And>r s. r \<in> set (sub_rows db) \<Longrightarrow> s \<in> set (sub_rows db) \<Longrightarrow> undeleted (g r) \<Longrightarrow> undeleted (g s) \<Longrightarrow>
      us_user (g r) = us_user (g s) \<Longrightarrow> us_group (g r) = us_group (g s) \<Longrightarrow> us_id r = us_id s"
  shows "subs_ok (db\<lparr>sub_rows := map g (sub_rows db)\<rparr>)"
proof -
  have "map us_id (map g (sub_rows db)) = map us_id (sub_rows db)" using assms(2) by simp
  then have "distinct (map us_id (map g (sub_rows db)))" using assms(1) by (simp only: subs_ok_def)
  moreover have "\<forall>r\<in>set (map g (sub_rows db)). us_id r < sub_next db"
    using assms(1,2) by (auto simp: subs_ok_def)
  moreover have "us_id r = us_id s" if rs: "r \<in> set (map g (sub_rows db))" "s \<in> set (map g (sub_rows db))"
    "undeleted r \<and> undeleted s \<and> us_user r = us_user s \<and> us_group r = us_group s" for r s
  proof -
    obtain a b where ab: "r = g a" "a \<in> set (sub_rows db)" "s = g b" "b \<in> set (sub_rows db)" using rs(1,2) by auto
    have "us_id a = us_id b" by (rule assms(3)[OF ab(2,4)]) (use rs(3) ab in simp_all)
    then show ?thesis by (simp only: ab assms(2))
  qed
  moreover have "sub_rows (db\<lparr>sub_rows := map g (sub_rows db)\<rparr>) = map g (sub_rows db)"
    "sub_next (db\<lparr>sub_rows := map g (sub_rows db)\<rparr>) = sub_next db" by simp_all
  ultimately show ?thesis unfolding subs_ok_def by (metis (no_types))
qed

lemma update_keeps: "same_owner f \<Longrightarrow> subs_ok db \<Longrightarrow> subs_ok (snd (update_subs P f db))"
proof -
  assume f: "same_owner f" and ok: "subs_ok db"
  let ?g = "\<lambda>r. if P r then f r else r"
  have g: "us_id (?g r) = us_id r" "us_user (?g r) = us_user r" "us_group (?g r) = us_group r" "undeleted (?g r) \<longrightarrow> undeleted r" for r
    using f by (simp_all add: same_owner_def)
  have "subs_ok (db\<lparr>sub_rows := map ?g (sub_rows db)\<rparr>)"
  proof (rule subs_ok_map[OF ok g(1)])
    fix r s assume "r \<in> set (sub_rows db)" "s \<in> set (sub_rows db)" "undeleted (?g r)" "undeleted (?g s)"
      "us_user (?g r) = us_user (?g s)" "us_group (?g r) = us_group (?g s)"
    then show "us_id r = us_id s" using ok g(2-4) unfolding subs_ok_def by metis
  qed
  then show ?thesis by (simp add: update_subs_def)
qed

lemma keepsA_update [keepsA_intros]: "same_owner f \<Longrightarrow> keepsA (update_subs P f)"
  by (simp add: keepsA_def update_keeps)

lemma keepsA_update_one [keepsA_intros]: "same_owner f \<Longrightarrow> keepsA (update_one i f)"
  unfolding update_one_def by (intro keepsA_intros)

text \<open>Writes that the unique index guards.\<close>

lemma guarded_update:
  assumes ok: "subs_ok db" and f: "\<And>x. us_id (f x) = us_id x"
    and free: "\<And>r. r \<in> set (sub_rows db) \<Longrightarrow> us_id r = i \<Longrightarrow> undeleted (f r) \<Longrightarrow> \<not> taken i (us_user (f r)) (us_group (f r)) db"
  shows "subs_ok (snd (update_one i f db))"
proof -
  let ?g = "\<lambda>r. if us_id r = i then f r else r"
  have "subs_ok (db\<lparr>sub_rows := map ?g (sub_rows db)\<rparr>)"
  proof (rule subs_ok_map[OF ok])
    fix r s assume rs: "r \<in> set (sub_rows db)" "s \<in> set (sub_rows db)" "undeleted (?g r)" "undeleted (?g s)"
      "us_user (?g r) = us_user (?g s)" "us_group (?g r) = us_group (?g s)"
    consider "us_id r = i" "us_id s = i" | "us_id r = i" "us_id s \<noteq> i" | "us_id r \<noteq> i" "us_id s = i"
      | "us_id r \<noteq> i" "us_id s \<noteq> i" by blast
    then show "us_id r = us_id s"
    proof cases
      case 2
      then have "undeleted s \<and> us_user s = us_user (f r) \<and> us_group s = us_group (f r)" using rs by simp
      then have "taken i (us_user (f r)) (us_group (f r)) db" unfolding taken_def list_ex_iff using rs(2) 2 by blast
      moreover have "undeleted (f r)" using rs(3) 2(1) by simp
      moreover note free[OF rs(1) 2(1)]
      ultimately show ?thesis by blast
    next
      case 3
      then have "undeleted r \<and> us_user r = us_user (f s) \<and> us_group r = us_group (f s)" using rs by simp
      then have "taken i (us_user (f s)) (us_group (f s)) db" unfolding taken_def list_ex_iff using rs(1) 3 by blast
      moreover have "undeleted (f s)" using rs(4) 3(2) by simp
      moreover note free[OF rs(2) 3(2)]
      ultimately show ?thesis by blast
    next
      case 4
      then have "undeleted r" "undeleted s" "us_user r = us_user s" "us_group r = us_group s" using rs(3-6) by simp_all
      then show ?thesis using ok rs(1,2) unfolding subs_ok_def by blast
    qed simp
  qed (simp add: f)
  moreover have "snd (update_one i f db) = db\<lparr>sub_rows := map ?g (sub_rows db)\<rparr>"
    by (simp add: update_one_def bindA_def update_subs_def returnA_def failA_def)
  ultimately show ?thesis by simp
qed

lemma create_keeps: "subs_ok db \<Longrightarrow> subs_ok (snd (Create sub db))"
proof -
  assume ok: "subs_ok db"
  let ?new = "sub\<lparr>us_id := sub_next db, us_deleted := None\<rparr>"
  show ?thesis
  proof (cases "list_ex (\<lambda>r. undeleted r \<and> us_user r = us_user sub \<and> us_group r = us_group sub) (sub_rows db)")
    case False
    have "subs_ok (db\<lparr>sub_rows := sub_rows db @ [?new], sub_next := sub_next db + 1\<rparr>)"
      unfolding subs_ok_def
    proof (intro conjI ballI impI)
      show "distinct (map us_id (sub_rows (db\<lparr>sub_rows := sub_rows db @ [?new], sub_next := sub_next db + 1\<rparr>)))"
        using ok by (auto simp: subs_ok_def)
    next
      fix r assume "r \<in> set (sub_rows (db\<lparr>sub_rows := sub_rows db @ [?new], sub_next := sub_next db + 1\<rparr>))"
      then show "us_id r < sub_next (db\<lparr>sub_rows := sub_rows db @ [?new], sub_next := sub_next db + 1\<rparr>)"
        using ok by (auto simp: subs_ok_def)
    next
      fix r s assume rs: "r \<in> set (sub_rows (db\<lparr>sub_rows := sub_rows db @ [?new], sub_next := sub_next db + 1\<rparr>))"
        "s \<in> set (sub_rows (db\<lparr>sub_rows := sub_rows db @ [?new], sub_next := sub_next db + 1\<rparr>))"
        "undeleted r \<and> undeleted s \<and> us_user r = us_user s \<and> us_group r = us_group s"
      then have "r \<in> set (sub_rows db) \<and> s \<in> set (sub_rows db) \<or> r = ?new \<and> s = ?new"
        using False by (auto simp: list_ex_iff)
      with rs ok show "us_id r = us_id s" by (auto simp: subs_ok_def)
    qed
    with False show ?thesis by (simp add: Create_def)
  qed (simp add: Create_def ok)
qed

lemma keepsA_guarded [keepsA_intros]: "keepsA (Create sub)" "keepsA (UpdateSub sub)" "keepsA (restore_row i status)"
proof -
  show "keepsA (Create sub)" by (simp add: keepsA_def create_keeps)
  show "keepsA (UpdateSub sub)"
    unfolding keepsA_def
  proof (intro allI impI)
    fix db assume ok: "subs_ok db"
    show "subs_ok (snd (UpdateSub sub db))"
    proof (cases "list_ex (\<lambda>r. us_id r = us_id sub \<and> undeleted r) (sub_rows db) \<and> taken (us_id sub) (us_user sub) (us_group sub) db")
      case False
      have "subs_ok (snd (update_one (us_id sub) (set_row sub) db))"
      proof (rule guarded_update[OF ok])
        fix r assume "r \<in> set (sub_rows db)" "us_id r = us_id sub" "undeleted (set_row sub r)"
        then have "list_ex (\<lambda>r. us_id r = us_id sub \<and> undeleted r) (sub_rows db)" by (auto simp: list_ex_iff set_row_def undeleted_def)
        with False show "\<not> taken (us_id sub) (us_user (set_row sub r)) (us_group (set_row sub r)) db" by (simp add: set_row_def)
      qed (simp add: set_row_def)
      with False show ?thesis unfolding UpdateSub_def by (simp only: if_False)
    qed (simp add: UpdateSub_def ok)
  qed
  show "keepsA (restore_row i status)"
    unfolding keepsA_def
  proof (intro allI impI)
    fix db assume ok: "subs_ok db"
    show "subs_ok (snd (restore_row i status db))"
    proof (cases "list_ex (\<lambda>r. us_id r = i \<and> taken i (us_user r) (us_group r) db) (sub_rows db)")
      case False
      have "subs_ok (snd (update_one i (\<lambda>r. r\<lparr>us_status := status, us_deleted := None\<rparr>) db))"
        by (rule guarded_update[OF ok]) (use False in \<open>auto simp: list_ex_iff\<close>)
      with False show ?thesis by (simp add: restore_row_def)
    qed (simp add: restore_row_def ok)
  qed
qed

section \<open>Through every method\<close>

lemma keeps_sql [keeps_intros]: "keepsA p \<Longrightarrow> keeps subs_ok (sql p)"
  unfolding sql_def keepsA_def by (intro keeps_intros) (auto intro!: keeps_intros split: sum.split)

lemma keeps_tx [keeps_intros]: "keepsA p \<Longrightarrow> keeps subs_ok (withSubscriptionUpdateTx p)"
  unfolding withSubscriptionUpdateTx_def
  by (intro keeps_sql) (force simp: keepsA_def split: prod.split sum.split)

lemmas owner_intros = same_owner_def undeleted_def reset_fields_def Let_def

lemma keepsA_increment [keepsA_intros]: "keepsA (IncrementUsage i c)"
  unfolding keepsA_def
proof (intro allI impI)
  fix db assume ok: "subs_ok db"
  let ?f = "\<lambda>r. r\<lparr>us_daily := us_daily r + c, us_weekly := us_weekly r + c, us_monthly := us_monthly r + c\<rparr>"
  let ?P = "\<lambda>r. us_id r = i \<and> undeleted r \<and> sub_groups db (us_group r) \<noteq> None"
  have "snd (IncrementUsage i c db) = snd (update_subs ?P ?f db)"
    by (simp add: IncrementUsage_def bindA_def update_subs_def returnA_def failA_def)
  moreover have "subs_ok (snd (update_subs ?P ?f db))" by (rule update_keeps[OF _ ok]) (simp add: owner_intros)
  ultimately show "subs_ok (snd (IncrementUsage i c db))" by simp
qed

lemma keepsA_repository [keepsA_intros]:
  "keepsA (GetByID i)" "keepsA (GetByIDForUpdate i)" "keepsA (GetByIDIncludeDeleted i)" "keepsA (GetByUserIDAndGroupID u g)"
  "keepsA (GetActiveByUserIDAndGroupID now u g)" "keepsA (DeleteSub now i)" "keepsA (ExistsActiveByUserIDAndGroupID u g)"
  "keepsA (ExtendExpiry i t)" "keepsA (UpdateStatus i st)" "keepsA (UpdateNotes i n)" "keepsA (activate_rows i a b)"
  "keepsA (ResetUsageWindows i d w m a b)" "keepsA (daily_rows i x t)" "keepsA (weekly_rows i x t)" "keepsA (monthly_rows i x t)"
  "keepsA (BatchUpdateExpiredStatus now)" "keepsA (DeleteByGroupID now g)"
  unfolding GetByID_def GetByIDForUpdate_def GetByIDIncludeDeleted_def GetByUserIDAndGroupID_def GetActiveByUserIDAndGroupID_def
    DeleteSub_def ExistsActiveByUserIDAndGroupID_def ExtendExpiry_def UpdateStatus_def UpdateNotes_def activate_rows_def
    ResetUsageWindows_def daily_rows_def weekly_rows_def monthly_rows_def BatchUpdateExpiredStatus_def DeleteByGroupID_def
  by (intro keepsA_intros; simp add: owner_intros)+

lemma keepsA_transactions [keepsA_intros]:
  "keepsA (renew_term cal now days notes sem s)" "keepsA (lock_for_adjust i)" "keepsA (adjust_term cal now days s)"
proof -
  show "keepsA (renew_term cal now days notes sem s)"
    unfolding renew_term_def Let_def by (intro keepsA_intros)
  show "keepsA (lock_for_adjust i)"
    using keepsA_repository(2)[of i] by (simp add: keepsA_def lock_for_adjust_def split: prod.split sum.split) (metis snd_conv)
  show "keepsA (adjust_term cal now days s)"
    unfolding adjust_term_def Let_def by (intro keepsA_intros)
qed

lemma keeps_conditional [keeps_intros]: "keeps I (translateConditionalWindowReset i n)"
  unfolding translateConditionalWindowReset_def by (auto intro!: keeps_intros)

lemma keeps_windows [keeps_intros]:
  "keeps subs_ok (ActivateWindows i a b)" "keeps subs_ok (ResetDailyUsage i x t)" "keeps subs_ok (ResetWeeklyUsage i x t)"
  "keeps subs_ok (ResetMonthlyUsage i x t)" "keeps subs_ok (Restore i st)"
  unfolding ActivateWindows_def ResetDailyUsage_def ResetWeeklyUsage_def ResetMonthlyUsage_def Restore_def
  by (intro keeps_intros keepsA_intros)+

lemma keeps_sum_case [keeps_intros]: "(\<And>a. x = Inl a \<Longrightarrow> keeps I (p a)) \<Longrightarrow> (\<And>b. x = Inr b \<Longrightarrow> keeps I (q b)) \<Longrightarrow>
    keeps I (case x of Inl a \<Rightarrow> p a | Inr b \<Rightarrow> q b)"
  by (cases x) auto

lemma keeps_opt_case [keeps_intros]: "keeps I p \<Longrightarrow> (\<And>b. keeps I (q b)) \<Longrightarrow> keeps I (case x of None \<Rightarrow> p | Some b \<Rightarrow> q b)"
  by (cases x) auto

lemma keeps_maintain [keeps_intros]: "(\<And>t. keeps I (reset t)) \<Longrightarrow> keeps I (maintain_window due reset adv s)"
  unfolding maintain_window_def by (intro keeps_intros)

lemma keeps_group [keeps_intros]: "keeps I (require_subscription_group g)"
  unfolding require_subscription_group_def by (intro keeps_intros)

lemma keeps_assign [keeps_intros]:
  "keeps subs_ok (updateExistingSubscriptionTerm cal now i days notes sem)" "keeps subs_ok (createSubscription cal now input)"
  "keeps subs_ok (assignSubscriptionWithReuse cal now now' input)"
  unfolding assignSubscriptionWithReuse_def updateExistingSubscriptionTerm_def createSubscription_def
  by (intro keeps_intros keepsA_intros)+

lemma keeps_bulk [keeps_intros]: "keeps subs_ok (bulk_assign cal now now' input us result)"
  by (induction us arbitrary: result) (simp_all, (intro keeps_intros)+)

lemma keeps_resets [keeps_intros]: "keeps subs_ok (CheckAndResetWindows cal cached now s)" "keeps subs_ok (CheckAndActivateWindow cal now s)"
  "keeps subs_ok (invalidateSubscriptionCaches cached)"
  unfolding CheckAndResetWindows_def CheckAndActivateWindow_def invalidateSubscriptionCaches_def Let_def
  by (intro keeps_intros)+

text \<open>
  A user never holds two live subscriptions for one group, as the table refuses a second one: the methods of the
  service listed here keep this, and the row ids distinct, under any interference that keeps it and any pattern
  of failed requests and lost replies.
\<close>

theorem one_live_subscription_per_group:
  "keeps subs_ok (AssignSubscription cal now now' input) \<and> keeps subs_ok (AssignOrExtendSubscription cal now input) \<and>
   keeps subs_ok (BulkAssignSubscription cal now now' input us) \<and> keeps subs_ok (RevokeSubscription cached now i) \<and>
   keeps subs_ok (RestoreSubscription cached now i) \<and> keeps subs_ok (ExtendSubscription cal now i days) \<and>
   keeps subs_ok (AdminResetQuota cal cached now i d w m) \<and> keeps subs_ok (EnsureWindowMaintenance cal cached now now' s) \<and>
   keeps subs_ok (doWindowMaintenance cal cached now now' s) \<and> keeps subs_ok (RecordUsage i cost) \<and>
   keeps subs_ok (ValidateSubscription now s) \<and> keeps subs_ok (sql (BatchUpdateExpiredStatus now)) \<and>
   keeps subs_ok (sql (DeleteByGroupID now g))"
  unfolding AssignSubscription_def AssignOrExtendSubscription_def BulkAssignSubscription_def RevokeSubscription_def
    RestoreSubscription_def ExtendSubscription_def AdminResetQuota_def EnsureWindowMaintenance_def doWindowMaintenance_def
    RecordUsage_def ValidateSubscription_def
  by (intro conjI keeps_intros keepsA_intros)

end
