(* ===== verification/Shop.thy ===== *)
theory Shop
  imports Subscription_Service Counters Leader_Lock
begin

text \<open>
  The database of the shop: users, redeem codes, payment orders with their audit log,
  affiliate profiles with their ledger, and the subscriptions; with the statements on the
  user table (\<open>repository/user_repo.go\<close>) and the audit log that the redeem, affiliate and
  payment services share.  Redis is a component of the state.

  Amounts are rationals already at the scale of their column, so that storing does not
  round.  Instants count nanoseconds, lists of rows are in the order of their ids.
  Transactions are single steps unless a theory says otherwise.
\<close>

section \<open>Tables\<close>

record account =
  ac_balance :: rat
  ac_recharged :: rat
  ac_concurrency :: int
  ac_deleted :: bool

record RedeemCode =
  rc_id :: id
  rc_code :: go_text
  rc_type :: string
  rc_value :: rat
  rc_status :: string
  rc_used_by :: "id option"
  rc_used_at :: "int option"
  rc_expires :: "int option"
  rc_group :: "id option"
  rc_days :: int
  rc_notes :: go_text

record Affiliate =
  af_code :: string
  af_rate :: "rat option"
  af_inviter :: "id option"
  af_count :: int
  af_quota :: rat
  af_frozen :: rat
  af_history :: rat
  af_created :: int

text \<open>\<open>lg_after\<close>: the balance and the three quotas after the entry.\<close>

record ledger_row =
  lg_id :: id
  lg_user :: id
  lg_action :: string
  lg_amount :: rat
  lg_source_user :: "id option"
  lg_source_order :: "id option"
  lg_frozen_until :: "int option"
  lg_operation :: "string option"
  lg_after :: "(rat \<times> rat \<times> rat \<times> rat) option"

record PaymentOrder =
  po_id :: id
  po_user :: id
  po_amount :: rat
  po_pay :: rat
  po_bonus :: rat
  po_code :: go_text
  po_out_trade_no :: go_text
  po_trade_no :: go_text
  po_currency :: string
  po_payment_type :: go_text
  po_type :: string
  po_status :: string
  po_group :: "id option"
  po_days :: "int option"
  po_refund_amount :: rat
  po_refund_reason :: go_text
  po_refund_request_reason :: "go_text option"
  po_force :: bool
  po_paid_at :: "int option"
  po_completed_at :: "int option"
  po_failed_at :: "int option"
  po_refund_at :: "int option"
  po_expires_at :: int
  po_updated_at :: int

text \<open>What the code reads back from the detail of an audit row: only that of a pending refund.\<close>

record refundPendingAuditDetail =
  pd_refund_id :: go_text
  pd_held :: bool
  pd_rollback_ok :: bool
  pd_type :: string
  pd_balance :: rat
  pd_days :: int
  pd_subscription :: id

record audit_row =
  au_order :: id
  au_action :: string
  au_operator :: string
  au_detail :: "refundPendingAuditDetail option"

record 's shop =
  sh_redis :: 's
  sh_subs :: sub_db
  sh_group_active :: "id \<Rightarrow> bool"
  sh_users :: "id \<Rightarrow> account option"
  sh_codes :: "RedeemCode list"
  sh_next_code :: id
  sh_orders :: "PaymentOrder list"
  sh_audit :: "audit_row list"
  sh_affiliates :: "id \<Rightarrow> Affiliate option"
  sh_ledger :: "ledger_row list"
  sh_next_ledger :: id

section \<open>Statements\<close>

definition whenA :: "bool \<Rightarrow> ('d, unit) stx \<Rightarrow> ('d, unit) stx" where
  "whenA b p = (if b then p else returnA ())"

definition readA :: "('d \<Rightarrow> 'a) \<Rightarrow> ('d, 'a) stx" where
  "readA f db = (Inr (f db), db)"

definition writeA :: "('d \<Rightarrow> 'd) \<Rightarrow> ('d, unit) stx" where
  "writeA f db = (Inr (), f db)"

text \<open>The statements of the subscription repository, run in a transaction of the shop.\<close>

definition on_subs :: "'a act \<Rightarrow> ('s shop, 'a) stx" where
  "on_subs p s = (case p (sh_subs s) of (r, d) \<Rightarrow> (r, s\<lparr>sh_subs := d\<rparr>))"

text \<open>A method of a Redis cache, run on the Redis component of the shop.\<close>

definition on_redis :: "('s \<Rightarrow> 'a \<times> 's) \<Rightarrow> 's shop \<Rightarrow> 'a \<times> 's shop" where
  "on_redis f s = (case f (sh_redis s) of (a, r) \<Rightarrow> (a, s\<lparr>sh_redis := r\<rparr>))"

text \<open>\<open>defer\<close>: the second program runs after the first, whatever its result.\<close>

definition deferW :: "('s, 'a) prog \<Rightarrow> ('s, unit) prog \<Rightarrow> ('s, 'a) prog" where
  "deferW p q = bindW (catchW p) (\<lambda>r. bindW (tryW q) (\<lambda>_. case r of Inl e \<Rightarrow> failW e | Inr a \<Rightarrow> returnW a))"

abbreviation in_tx :: "('d, 'a) stx \<Rightarrow> ('d, 'a) prog" where
  "in_tx \<equiv> withSubscriptionUpdateTx"

section \<open>Users\<close>

definition ErrUserNotFound :: err where "ErrUserNotFound = ErrInvalid ''USER_NOT_FOUND''"

definition GetUserByID :: "id \<Rightarrow> ('s shop, account) stx" where
  "GetUserByID i s =
     (case sh_users s i of
        Some a \<Rightarrow> if ac_deleted a then (Inl ErrUserNotFound, s) else (Inr a, s)
      | None \<Rightarrow> (Inl ErrUserNotFound, s))"

definition update_account :: "id \<Rightarrow> (account \<Rightarrow> bool) \<Rightarrow> (account \<Rightarrow> account) \<Rightarrow> ('s shop, unit) stx" where
  "update_account i P f s =
     (case sh_users s i of
        Some a \<Rightarrow> if P a then (Inr (), s\<lparr>sh_users := (sh_users s)(i \<mapsto> f a)\<rparr>) else (Inl ErrUserNotFound, s)
      | None \<Rightarrow> (Inl ErrUserNotFound, s))"

definition UpdateBalance :: "id \<Rightarrow> rat \<Rightarrow> ('s shop, unit) stx" where
  "UpdateBalance i amount = update_account i (\<lambda>_. True)
     (\<lambda>a. a\<lparr>ac_balance := ac_balance a + amount,
            ac_recharged := (if amount > 0 then ac_recharged a + amount else ac_recharged a)\<rparr>)"

definition ApplyRedeemBalanceAdjustment :: "id \<Rightarrow> rat \<Rightarrow> ('s shop, unit) stx" where
  "ApplyRedeemBalanceAdjustment i delta = update_account i (\<lambda>a. \<not> ac_deleted a)
     (\<lambda>a. a\<lparr>ac_balance := max (ac_balance a + delta) 0\<rparr>)"

definition UpdateConcurrency :: "id \<Rightarrow> int \<Rightarrow> ('s shop, unit) stx" where
  "UpdateConcurrency i amount = update_account i (\<lambda>_. True) (\<lambda>a. a\<lparr>ac_concurrency := ac_concurrency a + amount\<rparr>)"

definition ApplyRedeemConcurrencyAdjustment :: "id \<Rightarrow> int \<Rightarrow> ('s shop, unit) stx" where
  "ApplyRedeemConcurrencyAdjustment i delta = update_account i (\<lambda>a. \<not> ac_deleted a)
     (\<lambda>a. a\<lparr>ac_concurrency := max (ac_concurrency a + delta) 0\<rparr>)"

text \<open>\<open>LEAST(amount, GREATEST(balance, 0))\<close> is taken, and returned.\<close>

definition DeductAvailableBalance :: "id \<Rightarrow> rat \<Rightarrow> ('s shop, rat) stx" where
  "DeductAvailableBalance i amount s =
     (if amount < 0 then (Inl (ErrInvalid ''deduction amount must be nonnegative''), s)
      else (case sh_users s i of
              Some a \<Rightarrow>
                if ac_deleted a then (Inl ErrUserNotFound, s)
                else (let d = min amount (max (ac_balance a) 0)
                      in (Inr d, s\<lparr>sh_users := (sh_users s)(i \<mapsto> a\<lparr>ac_balance := ac_balance a - d\<rparr>)\<rparr>))
            | None \<Rightarrow> (Inl ErrUserNotFound, s)))"

section \<open>The audit log\<close>

text \<open>
  The unique index of migration 131 on (order, action); \<open>writeAuditLog\<close> logs an error and
  goes on, the statements in transactions do not.
\<close>

definition has_audit :: "id \<Rightarrow> string \<Rightarrow> audit_row list \<Rightarrow> bool" where
  "has_audit oid action as \<longleftrightarrow> list_ex (\<lambda>a. au_order a = oid \<and> au_action a = action) as"

definition ErrConstraint :: err where "ErrConstraint = ErrInvalid ''unique constraint violated''"

definition insert_audit :: "id \<Rightarrow> string \<Rightarrow> string \<Rightarrow> refundPendingAuditDetail option \<Rightarrow> ('s shop, unit) stx" where
  "insert_audit oid action op detail s =
     (if has_audit oid action (sh_audit s) then (Inl ErrConstraint, s)
      else (Inr (), s\<lparr>sh_audit := sh_audit s @ [\<lparr>au_order = oid, au_action = action, au_operator = op, au_detail = detail\<rparr>]\<rparr>))"

definition writeAuditLog :: "id \<Rightarrow> string \<Rightarrow> string \<Rightarrow> ('s shop, unit) prog" where
  "writeAuditLog oid action op = tryW (sql (insert_audit oid action op None))"

text \<open>An error of the count reads as absence.\<close>

definition hasAuditLog :: "id \<Rightarrow> string \<Rightarrow> ('s shop, bool) prog" where
  "hasAuditLog oid action =
     bindW (catchW (query (\<lambda>s. has_audit oid action (sh_audit s)))) (\<lambda>r. returnW (case r of Inr b \<Rightarrow> b | Inl _ \<Rightarrow> False))"

end
