(* ===== verification/Rely.thy ===== *)
theory Rely
  imports Shop
begin

text \<open>
  Programs under interference, by what they guarantee to others: a relation \<open>R\<close> between two
  states of the database that every other client's action satisfies, and that every step of
  the program satisfies too.  \<open>triple R P p Q\<close>: from a state with \<open>P\<close> a run of \<open>p\<close> moves along \<open>R\<close>,
  and where it returns a value, \<open>Q\<close> holds of the value and the state then.
\<close>

definition net_rel :: "('s \<Rightarrow> 's \<Rightarrow> bool) \<Rightarrow> 's world \<Rightarrow> bool" where
  "net_rel R w \<longleftrightarrow> (\<forall>e f. (e, f) \<in> set (w_net w) \<longrightarrow> (\<forall>s. R s (e s)))"

definition triple :: "('s \<Rightarrow> 's \<Rightarrow> bool) \<Rightarrow> ('s \<Rightarrow> bool) \<Rightarrow> ('s, 'a) prog \<Rightarrow> ('a \<Rightarrow> 's \<Rightarrow> bool) \<Rightarrow> bool" where
  "triple R P p Q \<longleftrightarrow>
     (\<forall>w. P (w_db w) \<and> net_rel R w \<longrightarrow>
          R (w_db w) (w_db (snd (p w))) \<and> net_rel R (snd (p w)) \<and> (\<forall>a. fst (p w) = Inr a \<longrightarrow> Q a (w_db (snd (p w)))))"

definition stable :: "('s \<Rightarrow> 's \<Rightarrow> bool) \<Rightarrow> ('s \<Rightarrow> bool) \<Rightarrow> bool" where
  "stable R P \<longleftrightarrow> (\<forall>s s'. P s \<longrightarrow> R s s' \<longrightarrow> P s')"

text \<open>A program all of whose steps satisfy the relation, from any state.\<close>

definition guarantees :: "('s \<Rightarrow> 's \<Rightarrow> bool) \<Rightarrow> ('s, 'a) prog \<Rightarrow> bool" where
  "guarantees R p \<longleftrightarrow> triple R (\<lambda>_. True) p (\<lambda>_ _. True)"

text \<open>A statement, and the statements of a transaction, which an error undoes.\<close>

definition stxR :: "('s \<Rightarrow> 's \<Rightarrow> bool) \<Rightarrow> ('s, 'a) stx \<Rightarrow> bool" where
  "stxR R p \<longleftrightarrow> (\<forall>s. R s (snd (p s)))"

named_theorems stable_intros \<open>stable assertions\<close>
named_theorems guarantee_intros \<open>programs whose steps satisfy a relation\<close>

lemma stable_True [stable_intros]: "stable R (\<lambda>_. True)" by (simp add: stable_def)
lemma stable_const [stable_intros]: "stable R (\<lambda>_. c)" by (simp add: stable_def)

lemma stable_conj [stable_intros]: "stable R P \<Longrightarrow> stable R Q \<Longrightarrow> stable R (\<lambda>s. P s \<and> Q s)"
  by (simp add: stable_def) metis

lemma tripleD:
  assumes "triple R P p Q" and "P (w_db w)" and "net_rel R w" and "p w = (r, w')"
  shows "R (w_db w) (w_db w')" and "net_rel R w'" and "r = Inr a \<Longrightarrow> Q a (w_db w')"
  using assms unfolding triple_def by force+

lemma triple_weaken:
  "triple R P' p Q' \<Longrightarrow> (\<And>s. P s \<Longrightarrow> P' s) \<Longrightarrow> (\<And>a s. Q' a s \<Longrightarrow> Q a s) \<Longrightarrow> triple R P p Q"
  unfolding triple_def by blast

lemma triple_pre: "triple R P' p Q \<Longrightarrow> (\<And>s. P s \<Longrightarrow> P' s) \<Longrightarrow> triple R P p Q"
  by (rule triple_weaken)

lemma triple_post: "triple R P p Q' \<Longrightarrow> (\<And>a s. Q' a s \<Longrightarrow> Q a s) \<Longrightarrow> triple R P p Q"
  by (rule triple_weaken)

lemma stxRD: "stxR R p \<Longrightarrow> R s (snd (p s))"
  by (simp add: stxR_def)

lemma triple_if: "(b \<Longrightarrow> triple R P p Q) \<Longrightarrow> (\<not> b \<Longrightarrow> triple R P q Q) \<Longrightarrow> triple R P (if b then p else q) Q"
  by simp

lemma triple_cases: "(\<And>s. P s \<Longrightarrow> b) \<Longrightarrow> (b \<Longrightarrow> triple R P p Q) \<Longrightarrow> triple R P p Q"
  unfolding triple_def by blast

locale rely =
  fixes R :: "'s \<Rightarrow> 's \<Rightarrow> bool"
  assumes same: "R s s" and trans: "R a b \<Longrightarrow> R b c \<Longrightarrow> R a c"
begin

lemma triple_return: "(\<And>s. P s \<Longrightarrow> Q a s) \<Longrightarrow> triple R P (returnW a) Q"
  by (simp add: triple_def same)

lemma triple_fail: "triple R P (failW e) Q"
  by (simp add: triple_def same)

lemma triple_round_trip:
  assumes st: "stable R P" and f: "\<And>s. P s \<Longrightarrow> R s (snd (f s)) \<and> Q (fst (f s)) (snd (f s))"
  shows "triple R P (round_trip f) Q"
  unfolding triple_def
proof (intro allI impI)
  fix w assume a: "P (w_db w) \<and> net_rel R w"
  show "R (w_db w) (w_db (snd (round_trip f w))) \<and> net_rel R (snd (round_trip f w)) \<and>
        (\<forall>x. fst (round_trip f w) = Inr x \<longrightarrow> Q x (w_db (snd (round_trip f w))))"
  proof (cases "w_net w")
    case Nil
    then show ?thesis using a f[of "w_db w"] by (auto simp: round_trip.simps net_rel_def split: prod.split)
  next
    case (Cons x rest)
    obtain e q where x: "x = (e, q)" by (cases x)
    have e: "R (w_db w) (e (w_db w))" using a Cons x by (auto simp: net_rel_def)
    have P: "P (e (w_db w))" using st a e unfolding stable_def by blast
    note fe = f[OF P]
    have R: "R (w_db w) (snd (f (e (w_db w))))" using trans[OF e] fe by blast
    have N: "\<And>d. net_rel R (w\<lparr>w_db := d, w_net := rest\<rparr>)" using a Cons by (auto simp: net_rel_def)
    show ?thesis using Cons x e R N fe by (cases q) (auto simp: round_trip.simps split: prod.split)
  qed
qed

lemma triple_bind:
  assumes st: "stable R P" and p: "triple R P p Q" and k: "\<And>a. triple R (\<lambda>s. P s \<and> Q a s) (k a) S"
  shows "triple R P (bindW p k) S"
  unfolding triple_def
proof (intro allI impI)
  fix w assume a: "P (w_db w) \<and> net_rel R w"
  obtain r w1 where pw: "p w = (r, w1)" by (cases "p w")
  note d = tripleD[OF p conjunct1[OF a] conjunct2[OF a] pw]
  have P1: "P (w_db w1)" using st a d(1) unfolding stable_def by blast
  show "R (w_db w) (w_db (snd (bindW p k w))) \<and> net_rel R (snd (bindW p k w)) \<and>
        (\<forall>x. fst (bindW p k w) = Inr x \<longrightarrow> S x (w_db (snd (bindW p k w))))"
  proof (cases r)
    case (Inl e)
    then show ?thesis using d(1,2) pw by (simp add: bindW_def)
  next
    case (Inr b)
    have "P (w_db w1) \<and> Q b (w_db w1)" using P1 d(3)[OF Inr] by blast
    with k[of b] d(2) have "R (w_db w1) (w_db (snd (k b w1))) \<and> net_rel R (snd (k b w1)) \<and>
        (\<forall>x. fst (k b w1) = Inr x \<longrightarrow> S x (w_db (snd (k b w1))))" unfolding triple_def by blast
    then show ?thesis using Inr pw trans[OF d(1)] by (simp add: bindW_def)
  qed
qed

lemma triple_catch:
  assumes st: "stable R P" and p: "triple R P p Q"
  shows "triple R P (catchW p) (\<lambda>r s. case r of Inl e \<Rightarrow> True | Inr a \<Rightarrow> Q a s)"
  using p unfolding triple_def catchW_def by (auto split: prod.split sum.split)

lemma triple_try: "triple R P p Q \<Longrightarrow> triple R P (tryW p) (\<lambda>_ _. True)"
  unfolding triple_def tryW_def by auto

lemma triple_sql:
  assumes "stable R P" and "\<And>s r s'. P s \<Longrightarrow> p s = (r, s') \<Longrightarrow> R s s' \<and> (\<forall>a. r = Inr a \<longrightarrow> Q a s')"
  shows "triple R P (sql p) Q"
  unfolding sql_def
proof (rule triple_bind[OF assms(1)])
  show "triple R P (round_trip p) (\<lambda>r s'. \<forall>a. r = Inr a \<longrightarrow> Q a s')"
    by (rule triple_round_trip[OF assms(1)]) (metis assms(2) prod.collapse)
  show "triple R (\<lambda>s. P s \<and> (\<forall>a. r = Inr a \<longrightarrow> Q a s)) (case r of Inl e \<Rightarrow> failW e | Inr a \<Rightarrow> returnW a) Q" for r
    by (cases r) (auto intro: triple_fail triple_return)
qed

lemma triple_tx:
  assumes "stable R P" and "\<And>s a s'. P s \<Longrightarrow> p s = (Inr a, s') \<Longrightarrow> R s s' \<and> Q a s'"
  shows "triple R P (withSubscriptionUpdateTx p) Q"
  unfolding withSubscriptionUpdateTx_def
  by (rule triple_sql[OF assms(1)]) (auto split: prod.splits sum.splits simp: same dest: assms(2))

lemma triple_query: "stable R P \<Longrightarrow> triple R P (query f) (\<lambda>x s. x = f s)"
  unfolding query_def by (rule triple_round_trip) (simp_all add: same)

text \<open>The rules of a program whose steps need no assertion.\<close>

lemma guarantees_return [guarantee_intros]: "guarantees R (returnW a)"
  by (simp add: guarantees_def triple_return)

lemma guarantees_fail [guarantee_intros]: "guarantees R (failW e)"
  by (simp add: guarantees_def triple_fail)

lemma guarantees_bind [guarantee_intros]:
  "guarantees R p \<Longrightarrow> (\<And>a. guarantees R (k a)) \<Longrightarrow> guarantees R (bindW p k)"
  unfolding guarantees_def by (rule triple_bind[where Q = "\<lambda>_ _. True"]) (simp_all add: stable_True)

lemma guarantees_try [guarantee_intros]: "guarantees R p \<Longrightarrow> guarantees R (tryW p)"
  unfolding guarantees_def by (rule triple_try)

lemma guarantees_catch [guarantee_intros]: "guarantees R p \<Longrightarrow> guarantees R (catchW p)"
  unfolding guarantees_def by (rule triple_post[OF triple_catch]) (simp_all add: stable_True)

lemma guarantees_round_trip [guarantee_intros]: "(\<And>s. R s (snd (f s))) \<Longrightarrow> guarantees R (round_trip f)"
  unfolding guarantees_def by (rule triple_round_trip) (simp_all add: stable_True)

lemma guarantees_query [guarantee_intros]: "guarantees R (query f)"
  unfolding query_def by (rule guarantees_round_trip) (simp add: same)

lemma guarantees_sql [guarantee_intros]: "stxR R p \<Longrightarrow> guarantees R (sql p)"
  unfolding guarantees_def by (rule triple_sql) (auto simp: stable_True stxR_def, metis snd_conv)

lemma guarantees_tx [guarantee_intros]: "stxR R p \<Longrightarrow> guarantees R (withSubscriptionUpdateTx p)"
  unfolding guarantees_def by (rule triple_tx) (auto simp: stable_True stxR_def, metis snd_conv)

lemma guarantees_if [guarantee_intros]:
  "(b \<Longrightarrow> guarantees R p) \<Longrightarrow> (\<not> b \<Longrightarrow> guarantees R q) \<Longrightarrow> guarantees R (if b then p else q)"
  by simp

lemma guarantees_prod [guarantee_intros]:
  "(\<And>a b. guarantees R (k a b)) \<Longrightarrow> guarantees R (case x of (a, b) \<Rightarrow> k a b)"
  by (simp split: prod.split)

lemma guarantees_option [guarantee_intros]:
  "guarantees R p \<Longrightarrow> (\<And>a. guarantees R (k a)) \<Longrightarrow> guarantees R (case x of None \<Rightarrow> p | Some a \<Rightarrow> k a)"
  by (simp split: option.split)

lemma guarantees_sum [guarantee_intros]:
  "(\<And>a. guarantees R (p a)) \<Longrightarrow> (\<And>a. guarantees R (k a)) \<Longrightarrow> guarantees R (case x of Inl a \<Rightarrow> p a | Inr a \<Rightarrow> k a)"
  by (simp split: sum.split)

lemma guarantees_list [guarantee_intros]:
  "guarantees R p \<Longrightarrow> (\<And>a as. guarantees R (k a as)) \<Longrightarrow> guarantees R (case x of [] \<Rightarrow> p | a # as \<Rightarrow> k a as)"
  by (simp split: list.split)

lemma triple_guarantees: "guarantees R p \<Longrightarrow> triple R P p (\<lambda>_ _. True)"
  unfolding guarantees_def by (rule triple_pre) auto

lemma guarantees_triple: "triple R (\<lambda>_. True) p Q \<Longrightarrow> guarantees R p"
  unfolding guarantees_def by (rule triple_post) auto

lemma stxR_test: "stxR R p \<Longrightarrow> stxR R q \<Longrightarrow> stxR R (\<lambda>s. if B s then p s else q s)"
  by (simp add: stxR_def)

lemma triple_then:
  assumes "stable R P" and "guarantees R p" and "\<And>a. triple R P (k a) Q"
  shows "triple R P (bindW p k) Q"
  by (rule triple_bind[OF assms(1) triple_guarantees[OF assms(2)]]) (use assms(3) in \<open>simp\<close>)

lemma triple_then_fail: "guarantees R p \<Longrightarrow> triple R P (bindW p (\<lambda>_. failW e)) Q"
  by (rule triple_pre[OF triple_then]) (auto intro: stable_True triple_fail)

lemma triple_defer:
  assumes P: "stable R P" and p: "triple R P p Q" and Q: "\<And>a. stable R (Q a)" and q: "guarantees R q"
  shows "triple R P (deferW p q) Q"
  unfolding deferW_def
proof (rule triple_bind[OF P triple_catch[OF P p]], goal_cases)
  case (1 r)
  have "stable R (\<lambda>s. P s \<and> (case r of Inl e \<Rightarrow> True | Inr a \<Rightarrow> Q a s))"
    by (cases r) (simp_all add: P Q stable_conj)
  then show ?case
    by (rule triple_then[OF _ guarantees_try[OF q]]) (cases r; auto intro: triple_fail triple_return)
qed

lemma guarantees_defer [guarantee_intros]: "guarantees R p \<Longrightarrow> guarantees R q \<Longrightarrow> guarantees R (deferW p q)"
  unfolding deferW_def by (intro guarantee_intros)

lemma stxR_return [guarantee_intros]: "stxR R (returnA a)" and stxR_fail [guarantee_intros]: "stxR R (failA e)"
  by (simp_all add: stxR_def returnA_def failA_def same)

lemma stxR_bind [guarantee_intros]:
  assumes p: "stxR R p" and k: "\<And>a. stxR R (k a)"
  shows "stxR R (bindA p k)"
  unfolding stxR_def
proof
  fix s
  obtain r s1 where ps: "p s = (r, s1)" by (cases "p s")
  have 1: "R s s1" using p ps unfolding stxR_def by (metis snd_conv)
  show "R s (snd (bindA p k s))"
  proof (cases r)
    case (Inr a)
    have "R s1 (snd (k a s1))" using k unfolding stxR_def by blast
    then show ?thesis using Inr ps trans[OF 1] by (simp add: bindA_def)
  qed (use 1 ps in \<open>simp add: bindA_def\<close>)
qed

lemma stxR_if [guarantee_intros]: "(b \<Longrightarrow> stxR R p) \<Longrightarrow> (\<not> b \<Longrightarrow> stxR R q) \<Longrightarrow> stxR R (if b then p else q)"
  by simp

lemma stxR_option [guarantee_intros]:
  "stxR R p \<Longrightarrow> (\<And>a. stxR R (k a)) \<Longrightarrow> stxR R (case x of None \<Rightarrow> p | Some a \<Rightarrow> k a)"
  by (simp split: option.split)

lemma stxR_prod [guarantee_intros]:
  "(\<And>a b. stxR R (k a b)) \<Longrightarrow> stxR R (case x of (a, b) \<Rightarrow> k a b)"
  by (simp split: prod.split)

end

end
