(* ===== verification/Redeem.thy ===== *)
theory Redeem
  imports Shop
begin

text \<open>
  Redeem codes (\<open>service/redeem_service.go\<close>, \<open>service/redeem_code.go\<close>,
  \<open>repository/redeem_code_repo.go\<close>, \<open>repository/redeem_cache.go\<close>): creation, bulk changes,
  redemption with its lock, its rate limit and its transaction.

  The generated codes, the readings of the clock and the rebate of the affiliate service are
  arguments.  Cache invalidation is left out.
\<close>

section \<open>Data\<close>

definition StatusUnused :: string where "StatusUnused = ''unused''"
definition StatusUsed :: string where "StatusUsed = ''used''"
definition StatusExpired :: string where "StatusExpired = ''expired''"
definition StatusDisabled :: string where "StatusDisabled = ''disabled''"

definition RedeemTypeBalance :: string where "RedeemTypeBalance = ''balance''"
definition RedeemTypeConcurrency :: string where "RedeemTypeConcurrency = ''concurrency''"
definition RedeemTypeSubscription :: string where "RedeemTypeSubscription = ''subscription''"
definition RedeemTypeInvitation :: string where "RedeemTypeInvitation = ''invitation''"

lemmas code_status_defs = StatusUnused_def StatusUsed_def StatusExpired_def StatusDisabled_def
lemmas code_type_defs = RedeemTypeBalance_def RedeemTypeConcurrency_def RedeemTypeSubscription_def RedeemTypeInvitation_def

definition ErrRedeemCodeNotFound :: err where "ErrRedeemCodeNotFound = ErrInvalid ''REDEEM_CODE_NOT_FOUND''"
definition ErrRedeemCodeUsed :: err where "ErrRedeemCodeUsed = ErrInvalid ''REDEEM_CODE_USED''"
definition ErrRedeemCodeExpired :: err where "ErrRedeemCodeExpired = ErrInvalid ''REDEEM_CODE_EXPIRED''"
definition ErrRedeemRateLimited :: err where "ErrRedeemRateLimited = ErrInvalid ''REDEEM_RATE_LIMITED''"
definition ErrRedeemCodeLocked :: err where "ErrRedeemCodeLocked = ErrInvalid ''REDEEM_CODE_LOCKED''"
definition unsupportedRedeemTypeError :: err where "unsupportedRedeemTypeError = ErrInvalid ''REDEEM_CODE_UNSUPPORTED_TYPE''"

lemmas redeem_errors = ErrRedeemCodeNotFound_def ErrRedeemCodeUsed_def ErrRedeemCodeExpired_def ErrRedeemRateLimited_def
  ErrRedeemCodeLocked_def unsupportedRedeemTypeError_def ErrUserNotFound_def

definition IsUsed :: "RedeemCode \<Rightarrow> bool" where "IsUsed c \<longleftrightarrow> rc_status c = StatusUsed"

definition IsExpiredAt :: "int \<Rightarrow> RedeemCode \<Rightarrow> bool" where
  "IsExpiredAt now c \<longleftrightarrow>
     rc_status c = StatusExpired \<or>
     rc_status c = StatusUnused \<and> (case rc_expires c of None \<Rightarrow> False | Some t \<Rightarrow> \<not> t > now)"

definition CanUse :: "int \<Rightarrow> RedeemCode \<Rightarrow> bool" where
  "CanUse now c \<longleftrightarrow> rc_status c = StatusUnused \<and> \<not> IsExpiredAt now c"

section \<open>The table\<close>

definition only_code :: "(RedeemCode \<Rightarrow> bool) \<Rightarrow> ('s shop, RedeemCode) stx" where
  "only_code P s =
     (case filter P (sh_codes s) of
        [] \<Rightarrow> (Inl ErrRedeemCodeNotFound, s) | [c] \<Rightarrow> (Inr c, s) | _ \<Rightarrow> (Inl (ErrInvalid ''not singular''), s))"

definition GetCodeByID :: "id \<Rightarrow> ('s shop, RedeemCode) stx" where "GetCodeByID i = only_code (\<lambda>c. rc_id c = i)"
definition GetByCode :: "go_text \<Rightarrow> ('s shop, RedeemCode) stx" where "GetByCode code = only_code (\<lambda>c. rc_code c = code)"

text \<open>The column \<open>code\<close> is unique.\<close>

definition CreateRow :: "RedeemCode \<Rightarrow> ('s shop, id) stx" where
  "CreateRow c s =
     (if rc_code c = [] \<or> list_ex (\<lambda>r. rc_code r = rc_code c) (sh_codes s) then (Inl ErrConstraint, s)
      else (Inr (sh_next_code s),
            s\<lparr>sh_codes := sh_codes s @ [c\<lparr>rc_id := sh_next_code s\<rparr>], sh_next_code := sh_next_code s + 1\<rparr>))"

fun CreateBatch :: "RedeemCode list \<Rightarrow> ('s shop, unit) stx" where
  "CreateBatch [] = returnA ()"
| "CreateBatch (c # cs) = bindA (CreateRow c) (\<lambda>_. CreateBatch cs)"

definition update_codes :: "(RedeemCode \<Rightarrow> bool) \<Rightarrow> (RedeemCode \<Rightarrow> RedeemCode) \<Rightarrow> ('s shop, int) stx" where
  "update_codes P f s =
     (Inr (int (length (filter P (sh_codes s)))), s\<lparr>sh_codes := map (\<lambda>c. if P c then f c else c) (sh_codes s)\<rparr>)"

definition UseCode :: "int \<Rightarrow> id \<Rightarrow> id \<Rightarrow> ('s shop, unit) stx" where
  "UseCode now i u =
     bindA (update_codes (\<lambda>c. rc_id c = i \<and> rc_status c = StatusUnused)
              (\<lambda>c. c\<lparr>rc_status := StatusUsed, rc_used_by := Some u, rc_used_at := Some now\<rparr>))
       (\<lambda>affected. if affected = 0 then failA ErrRedeemCodeUsed else returnA ())"

definition DeleteCode :: "id \<Rightarrow> ('s shop, unit) stx" where
  "DeleteCode i s = (Inr (), s\<lparr>sh_codes := filter (\<lambda>c. rc_id c \<noteq> i) (sh_codes s)\<rparr>)"

text \<open>The fields of a bulk change: absent, or the new value (which may be NULL).\<close>

record RedeemCodeBatchUpdateFields =
  bf_status :: "string option"
  bf_expires :: "int option option"
  bf_notes :: "go_text option"
  bf_group :: "id option option"
  bf_type :: "string option"
  bf_value :: "rat option"

definition HasChanges :: "RedeemCodeBatchUpdateFields \<Rightarrow> bool" where
  "HasChanges f \<longleftrightarrow> bf_status f \<noteq> None \<or> bf_expires f \<noteq> None \<or> bf_notes f \<noteq> None \<or> bf_group f \<noteq> None \<or>
     bf_type f \<noteq> None \<or> bf_value f \<noteq> None"

definition HasCoreFieldChanges :: "RedeemCodeBatchUpdateFields \<Rightarrow> bool" where
  "HasCoreFieldChanges f \<longleftrightarrow> bf_type f \<noteq> None \<or> bf_value f \<noteq> None"

definition TouchesUsedSensitiveFields :: "RedeemCodeBatchUpdateFields \<Rightarrow> bool" where
  "TouchesUsedSensitiveFields f \<longleftrightarrow> bf_status f \<noteq> None \<or> bf_expires f \<noteq> None \<or> bf_group f \<noteq> None"

definition set_fields :: "RedeemCodeBatchUpdateFields \<Rightarrow> RedeemCode \<Rightarrow> RedeemCode" where
  "set_fields f c =
     (let c = (case bf_status f of None \<Rightarrow> c | Some x \<Rightarrow> c\<lparr>rc_status := x\<rparr>);
          c = (case bf_notes f of None \<Rightarrow> c | Some x \<Rightarrow> c\<lparr>rc_notes := x\<rparr>);
          c = (case bf_expires f of None \<Rightarrow> c | Some x \<Rightarrow> c\<lparr>rc_expires := x\<rparr>)
      in case bf_group f of None \<Rightarrow> c | Some x \<Rightarrow> c\<lparr>rc_group := x\<rparr>)"

text \<open>
  The bulk change reads the rows without locking them, so its transaction is not one step:
  at Postgres's default isolation level another transaction may commit between its two
  statements.  The rollback after a wrong count undoes the update.
\<close>

definition batch_check :: "id list \<Rightarrow> RedeemCodeBatchUpdateFields \<Rightarrow> ('s shop, unit) stx" where
  "batch_check ids f s =
     (let existing = filter (\<lambda>c. rc_id c \<in> set ids) (sh_codes s)
      in if length existing \<noteq> length ids then (Inl ErrRedeemCodeNotFound, s)
         else if TouchesUsedSensitiveFields f \<and> list_ex IsUsed existing then (Inl ErrRedeemCodeUsed, s)
         else (Inr (), s))"

definition batch_write :: "id list \<Rightarrow> RedeemCodeBatchUpdateFields \<Rightarrow> ('s shop, int) stx" where
  "batch_write ids f =
     bindA (update_codes (\<lambda>c. rc_id c \<in> set ids) (set_fields f))
       (\<lambda>affected. if affected \<noteq> int (length ids) then failA ErrRedeemCodeNotFound else returnA affected)"

definition batchUpdate :: "id list \<Rightarrow> RedeemCodeBatchUpdateFields \<Rightarrow> ('s shop, int) prog" where
  "batchUpdate ids f = bindW (sql (batch_check ids f)) (\<lambda>_. in_tx (batch_write ids f))"

section \<open>Administration\<close>

text \<open>\<open>codes\<close>: the random codes, or \<open>None\<close> when the generator failed.\<close>

record GenerateCodesRequest =
  gq_count :: int
  gq_value :: rat
  gq_type :: string

definition GenerateCodes :: "GenerateCodesRequest \<Rightarrow> go_text list option \<Rightarrow> ('s shop, RedeemCode list) prog" where
  "GenerateCodes req codes =
     (if gq_count req \<le> 0 then failW (ErrInvalid ''count must be greater than 0'')
      else if gq_type req \<noteq> RedeemTypeInvitation \<and> gq_value req = 0 then failW (ErrInvalid ''value must not be zero'')
      else if gq_count req > 1000 then failW (ErrInvalid ''cannot generate more than 1000 codes at once'')
      else (case codes of
              None \<Rightarrow> failW (ErrInvalid ''generate code'')
            | Some cs \<Rightarrow>
                (let typ = (if gq_type req = [] then RedeemTypeBalance else gq_type req);
                     value = (if typ = RedeemTypeInvitation then 0 else gq_value req);
                     rows = map (\<lambda>code. \<lparr>rc_id = 0, rc_code = code, rc_type = typ, rc_value = value, rc_status = StatusUnused,
                       rc_used_by = None, rc_used_at = None, rc_expires = None, rc_group = None, rc_days = 0, rc_notes = []\<rparr>)
                       (take (nat (gq_count req)) cs)
                 in bindW (in_tx (CreateBatch rows)) (\<lambda>_. returnW rows))))"

definition CreateCode :: "int \<Rightarrow> RedeemCode \<Rightarrow> ('s shop, id) prog" where
  "CreateCode now c =
     (let c = c\<lparr>rc_code := trim_space (rc_code c)\<rparr>
      in if rc_code c = [] then failW (ErrInvalid ''code is required'')
         else (let c = (if rc_type c = [] then c\<lparr>rc_type := RedeemTypeBalance\<rparr> else c)
               in if rc_type c \<noteq> RedeemTypeInvitation \<and> rc_value c = 0 then failW (ErrInvalid ''value must not be zero'')
                  else (let c = (if rc_status c = [] then c\<lparr>rc_status := StatusUnused\<rparr> else c)
                        in if IsExpiredAt now c then failW ErrRedeemCodeExpired else sql (CreateRow c))))"

fun dedup_ids :: "id list \<Rightarrow> id list \<Rightarrow> id list option" where
  "dedup_ids seen [] = Some (rev seen)"
| "dedup_ids seen (i # is) =
     (if i \<le> 0 then None else if i \<in> set seen then dedup_ids seen is else dedup_ids (i # seen) is)"

definition BatchUpdateCodes :: "int \<Rightarrow> id list \<Rightarrow> RedeemCodeBatchUpdateFields \<Rightarrow> ('s shop, int) prog" where
  "BatchUpdateCodes now ids f =
     (if ids = [] then failW (ErrInvalid ''REDEEM_CODE_BATCH_UPDATE_IDS_REQUIRED'')
      else if \<not> HasChanges f then failW (ErrInvalid ''REDEEM_CODE_BATCH_UPDATE_EMPTY'')
      else if HasCoreFieldChanges f then failW (ErrInvalid ''REDEEM_CODE_CORE_FIELDS_IMMUTABLE'')
      else (case dedup_ids [] ids of
              None \<Rightarrow> failW (ErrInvalid ''REDEEM_CODE_BATCH_UPDATE_INVALID_ID'')
            | Some uids \<Rightarrow>
                if (case bf_status f of None \<Rightarrow> False | Some x \<Rightarrow> x \<noteq> StatusUnused \<and> x \<noteq> StatusDisabled)
                then failW (ErrInvalid ''REDEEM_CODE_STATUS_INVALID'')
                else if (case bf_expires f of Some (Some t) \<Rightarrow> \<not> t > now | _ \<Rightarrow> False)
                then failW (ErrInvalid ''REDEEM_CODE_EXPIRES_AT_INVALID'')
                else if (case bf_group f of Some (Some g) \<Rightarrow> g \<le> 0 | _ \<Rightarrow> False)
                then failW (ErrInvalid ''REDEEM_CODE_GROUP_ID_INVALID'')
                else batchUpdate uids f))"

definition DeleteRedeemCode :: "id \<Rightarrow> ('s shop, unit) prog" where
  "DeleteRedeemCode i =
     bindW (sql (GetCodeByID i)) (\<lambda>c.
     if IsUsed c then failW (ErrInvalid ''REDEEM_CODE_DELETE_USED'') else sql (DeleteCode i))"

section \<open>Rate limit and lock\<close>

definition redeemMaxFailedAttempts :: int where "redeemMaxFailedAttempts = 30"
definition redeemRateLimitKeyPrefix :: key where "redeemRateLimitKeyPrefix = ''redeem:ratelimit:v2:''"
definition redeemLockKeyPrefix :: key where "redeemLockKeyPrefix = ''redeem:lock:''"
definition redeemRateLimitWindow :: int where "redeemRateLimitWindow = 600000"
definition redeemLockDuration :: int where "redeemLockDuration = 10000"

definition redeemRateLimitKey :: "id \<Rightarrow> key" where "redeemRateLimitKey u = redeemRateLimitKeyPrefix @ format_int u"

text \<open>\<open>bytes\<close> encodes a text in UTF-8.\<close>

definition redeemLockKey :: "(go_text \<Rightarrow> string) \<Rightarrow> go_text \<Rightarrow> key" where
  "redeemLockKey bytes code = redeemLockKeyPrefix @ bytes code"

definition incrementRedeemAttemptScript :: "'s redis \<Rightarrow> key \<Rightarrow> int \<Rightarrow> 's \<Rightarrow> int option \<times> 's" where
  "incrementRedeemAttemptScript R key window s =
     (case incr_cmd R key 1 s of
        (None, s) \<Rightarrow> (None, s)
      | (Some current, s) \<Rightarrow> (Some current, if current = 1 \<or> r_pttl R s key = - 1 then r_pexpire R s key window else s))"

text \<open>\<open>Get(...).Int()\<close> with \<open>redis.Nil\<close> read as 0.\<close>

definition GetRedeemAttemptCount :: "'s redis \<Rightarrow> id \<Rightarrow> ('s shop, int) prog" where
  "GetRedeemAttemptCount R u =
     bindW (query (\<lambda>s. r_get R (sh_redis s) (redeemRateLimitKey u)))
       (\<lambda>v. case v of None \<Rightarrow> returnW 0
          | Some t \<Rightarrow> (case parse_int t of None \<Rightarrow> failW ErrRedis | Some n \<Rightarrow> returnW n))"

definition IncrementRedeemAttemptCount :: "'s redis \<Rightarrow> id \<Rightarrow> ('s shop, int) prog" where
  "IncrementRedeemAttemptCount R u =
     check_reply (round_trip (on_redis (incrementRedeemAttemptScript R (redeemRateLimitKey u) redeemRateLimitWindow)))"

definition AcquireRedeemLock :: "'s redis \<Rightarrow> key \<Rightarrow> ('s shop, bool) prog" where
  "AcquireRedeemLock R key = round_trip (on_redis (setnx R key ''1'' (Some redeemLockDuration)))"

definition ReleaseRedeemLock :: "'s redis \<Rightarrow> key \<Rightarrow> ('s shop, unit) prog" where
  "ReleaseRedeemLock R key = round_trip (on_redis (\<lambda>s. ((), r_del R s key)))"

text \<open>\<open>cache\<close>: whether a redeem cache is configured.\<close>

definition checkRedeemRateLimit :: "'s redis \<Rightarrow> bool \<Rightarrow> id \<Rightarrow> ('s shop, unit) prog" where
  "checkRedeemRateLimit R cache u =
     (if \<not> cache then returnW ()
      else bindW (catchW (GetRedeemAttemptCount R u)) (\<lambda>r. case r of
             Inl _ \<Rightarrow> returnW ()
           | Inr n \<Rightarrow> if n \<ge> redeemMaxFailedAttempts then failW ErrRedeemRateLimited else returnW ()))"

definition incrementRedeemErrorCount :: "'s redis \<Rightarrow> bool \<Rightarrow> id \<Rightarrow> ('s shop, unit) prog" where
  "incrementRedeemErrorCount R cache u = (if cache then tryW (IncrementRedeemAttemptCount R u) else returnW ())"

definition acquireRedeemLock :: "'s redis \<Rightarrow> bool \<Rightarrow> key \<Rightarrow> ('s shop, bool) prog" where
  "acquireRedeemLock R cache key =
     (if \<not> cache then returnW True
      else bindW (catchW (AcquireRedeemLock R key)) (\<lambda>r. returnW (case r of Inl _ \<Rightarrow> True | Inr ok \<Rightarrow> ok)))"

definition releaseRedeemLock :: "'s redis \<Rightarrow> bool \<Rightarrow> key \<Rightarrow> ('s shop, unit) prog" where
  "releaseRedeemLock R cache key = (if cache then tryW (ReleaseRedeemLock R key) else returnW ())"

end
