(* ===== verification/Affiliate.thy ===== *)
theory Affiliate
  imports Shop Billing_Amounts Idempotency
begin

text \<open>
  The affiliate programme (\<open>service/affiliate_service.go\<close>, \<open>repository/affiliate_repo.go\<close>):
  profiles, rebates with their freeze, transfers to the balance and offline withdrawals,
  each with its ledger entry.

  The generated invitation codes, the settings, the hash of the idempotency key and the
  readings of the clock are arguments.
\<close>

section \<open>Data\<close>

definition affiliateCodeMaxAttempts :: nat where "affiliateCodeMaxAttempts = 12"
definition AffiliateCodeMinLength :: nat where "AffiliateCodeMinLength = 4"
definition AffiliateCodeMaxLength :: nat where "AffiliateCodeMaxLength = 32"
definition AffiliateRebateRateMin :: rat where "AffiliateRebateRateMin = 0"
definition AffiliateRebateRateMax :: rat where "AffiliateRebateRateMax = 100"

definition ErrAffiliateProfileNotFound :: err where "ErrAffiliateProfileNotFound = ErrInvalid ''AFFILIATE_PROFILE_NOT_FOUND''"
definition ErrAffiliateCodeInvalid :: err where "ErrAffiliateCodeInvalid = ErrInvalid ''AFFILIATE_CODE_INVALID''"
definition ErrAffiliateAlreadyBound :: err where "ErrAffiliateAlreadyBound = ErrInvalid ''AFFILIATE_ALREADY_BOUND''"
definition ErrAffiliateQuotaEmpty :: err where "ErrAffiliateQuotaEmpty = ErrInvalid ''AFFILIATE_QUOTA_EMPTY''"
definition ErrAffiliateQuotaInsufficient :: err where "ErrAffiliateQuotaInsufficient = ErrInvalid ''AFFILIATE_QUOTA_INSUFFICIENT''"
definition ErrAffiliateWithdrawAmountInvalid :: err where
  "ErrAffiliateWithdrawAmountInvalid = ErrInvalid ''AFFILIATE_WITHDRAW_AMOUNT_INVALID''"
definition ErrIdempotencyKeyRequired :: err where "ErrIdempotencyKeyRequired = ErrInvalid ''IDEMPOTENCY_KEY_REQUIRED''"
definition ErrIdempotencyKeyConflict :: err where "ErrIdempotencyKeyConflict = ErrInvalid ''IDEMPOTENCY_KEY_CONFLICT''"

text \<open>The settings the service reads; a cap or a duration of zero means none.\<close>

record affiliate_settings =
  as_enabled :: bool
  as_rate :: rat
  as_duration_days :: int
  as_cap :: rat
  as_freeze_hours :: int

definition affiliateCodeValidChar :: "char \<Rightarrow> bool" where
  "affiliateCodeValidChar c \<longleftrightarrow>
     (let n = of_char c :: nat in 65 \<le> n \<and> n \<le> 90 \<or> 48 \<le> n \<and> n \<le> 57 \<or> c = CHR ''_'' \<or> c = CHR ''-'')"

definition isValidAffiliateCodeFormat :: "string \<Rightarrow> bool" where
  "isValidAffiliateCodeFormat code \<longleftrightarrow>
     \<not> (length code < AffiliateCodeMinLength \<or> length code > AffiliateCodeMaxLength) \<and> list_all affiliateCodeValidChar code"

definition clampAffiliateRebateRate :: "rat \<Rightarrow> rat" where
  "clampAffiliateRebateRate v =
     (if v < AffiliateRebateRateMin then AffiliateRebateRateMin
      else if v > AffiliateRebateRateMax then AffiliateRebateRateMax else v)"

section \<open>Statements\<close>

definition queryAffiliateByUserID :: "id \<Rightarrow> ('s shop, Affiliate) stx" where
  "queryAffiliateByUserID u s =
     (case sh_affiliates s u of None \<Rightarrow> (Inl ErrAffiliateProfileNotFound, s) | Some a \<Rightarrow> (Inr a, s))"

text \<open>By an invitation code, already trimmed and in upper case: the owner is unique.  \<open>us\<close> lists the users.\<close>

definition queryAffiliateByCode :: "id list \<Rightarrow> string \<Rightarrow> ('s shop, id) stx" where
  "queryAffiliateByCode us code s =
     (case filter (\<lambda>u. case sh_affiliates s u of None \<Rightarrow> False | Some a \<Rightarrow> af_code a = code) us of
        [] \<Rightarrow> (Inl ErrAffiliateProfileNotFound, s) | u # _ \<Rightarrow> (Inr u, s))"

definition insert_affiliate :: "int \<Rightarrow> id \<Rightarrow> string \<Rightarrow> bool \<Rightarrow> ('s shop, unit) stx" where
  "insert_affiliate now u code dup s =
     (case sh_affiliates s u of
        Some _ \<Rightarrow> (Inr (), s)
      | None \<Rightarrow>
          if dup then (Inl ErrConstraint, s)
          else (Inr (), s\<lparr>sh_affiliates := (sh_affiliates s)(u \<mapsto>
                 \<lparr>af_code = code, af_rate = None, af_inviter = None, af_count = 0, af_quota = 0, af_frozen = 0,
                  af_history = 0, af_created = now\<rparr>)\<rparr>))"

text \<open>
  \<open>codes\<close>: the generated codes, each with whether another profile has it (the unique index);
  \<open>None\<close> when the generator failed.  Inside a transaction a failed insert ends it.
\<close>

fun insert_loop :: "int \<Rightarrow> id \<Rightarrow> (string \<times> bool) option list \<Rightarrow> ('s shop, unit) prog" where
  "insert_loop now u [] = returnW ()"
| "insert_loop now u (None # cs) = failW (ErrInvalid ''generate affiliate code'')"
| "insert_loop now u (Some (c, dup) # cs) =
     bindW (catchW (sql (insert_affiliate now u c dup))) (\<lambda>r. case r of
        Inr _ \<Rightarrow> returnW ()
      | Inl e \<Rightarrow> if e = ErrConstraint then insert_loop now u cs else failW e)"

definition EnsureUserAffiliate :: "int \<Rightarrow> (string \<times> bool) option list \<Rightarrow> id \<Rightarrow> ('s shop, Affiliate) prog" where
  "EnsureUserAffiliate now codes u =
     (if u \<le> 0 then failW ErrUserNotFound
      else bindW (catchW (sql (queryAffiliateByUserID u))) (\<lambda>r. case r of
             Inr a \<Rightarrow> returnW a
           | Inl e \<Rightarrow>
               if e \<noteq> ErrAffiliateProfileNotFound then failW e
               else bindW (insert_loop now u (take affiliateCodeMaxAttempts codes)) (\<lambda>_. sql (queryAffiliateByUserID u))))"

definition ensure_in_tx :: "int \<Rightarrow> (string \<times> bool) option \<Rightarrow> id \<Rightarrow> ('s shop, Affiliate) stx" where
  "ensure_in_tx now code u s =
     (case sh_affiliates s u of
        Some a \<Rightarrow> (Inr a, s)
      | None \<Rightarrow> (case code of
            None \<Rightarrow> (Inl (ErrInvalid ''generate affiliate code''), s)
          | Some (c, dup) \<Rightarrow> bindA (insert_affiliate now u c dup) (\<lambda>_. queryAffiliateByUserID u) s))"

text \<open>An update of one profile, with the number of rows.\<close>

definition update_affiliate :: "id \<Rightarrow> (Affiliate \<Rightarrow> bool) \<Rightarrow> (Affiliate \<Rightarrow> Affiliate) \<Rightarrow> ('s shop, int) stx" where
  "update_affiliate u P f s =
     (case sh_affiliates s u of
        Some a \<Rightarrow> if P a then (Inr 1, s\<lparr>sh_affiliates := (sh_affiliates s)(u \<mapsto> f a)\<rparr>) else (Inr 0, s)
      | None \<Rightarrow> (Inr 0, s))"

definition insert_ledger :: "ledger_row \<Rightarrow> ('s shop, id) stx" where
  "insert_ledger r s =
     (Inr (sh_next_ledger s),
      s\<lparr>sh_ledger := sh_ledger s @ [r\<lparr>lg_id := sh_next_ledger s\<rparr>], sh_next_ledger := sh_next_ledger s + 1\<rparr>)"

definition BindInviter :: "int \<Rightarrow> (string \<times> bool) option \<Rightarrow> (string \<times> bool) option \<Rightarrow> id \<Rightarrow> id \<Rightarrow> ('s shop, bool) stx" where
  "BindInviter now c c' u inviter =
     bindA (ensure_in_tx now c u) (\<lambda>_. bindA (ensure_in_tx now c' inviter) (\<lambda>_.
     bindA (update_affiliate u (\<lambda>a. af_inviter a = None) (\<lambda>a. a\<lparr>af_inviter := Some inviter\<rparr>)) (\<lambda>n.
     if n = 0 then returnA False
     else bindA (update_affiliate inviter (\<lambda>_. True) (\<lambda>a. a\<lparr>af_count := af_count a + 1\<rparr>)) (\<lambda>_. returnA True))))"

definition hour :: int where "hour = 3600 * 1000000000"

definition AccrueQuota :: "int \<Rightarrow> id \<Rightarrow> id \<Rightarrow> rat \<Rightarrow> int \<Rightarrow> id option \<Rightarrow> ('s shop, bool) stx" where
  "AccrueQuota now inviter invitee amount freezeHours order =
     (if amount \<le> 0 then returnA False
      else bindA (update_affiliate inviter (\<lambda>_. True)
             (\<lambda>a. if freezeHours > 0 then a\<lparr>af_frozen := af_frozen a + amount, af_history := af_history a + amount\<rparr>
                  else a\<lparr>af_quota := af_quota a + amount, af_history := af_history a + amount\<rparr>)) (\<lambda>n.
           if n = 0 then returnA False
           else bindA (insert_ledger \<lparr>lg_id = 0, lg_user = inviter, lg_action = ''accrue'', lg_amount = amount,
                  lg_source_user = Some invitee, lg_source_order = order,
                  lg_frozen_until = (if freezeHours > 0 then Some (now + freezeHours * hour) else None),
                  lg_operation = None, lg_after = None\<rparr>) (\<lambda>_. returnA True)))"

definition GetAccruedRebateFromInvitee :: "id \<Rightarrow> id \<Rightarrow> ('s shop, rat) stx" where
  "GetAccruedRebateFromInvitee inviter invitee = readA (\<lambda>s. sum_list (map lg_amount
     (filter (\<lambda>l. lg_user l = inviter \<and> lg_source_user l = Some invitee \<and> lg_action l = ''accrue'') (sh_ledger s))))"

text \<open>The matured entries: their freeze ends, and their sum moves to the available quota.\<close>

definition matured :: "int \<Rightarrow> id \<Rightarrow> ledger_row \<Rightarrow> bool" where
  "matured now u l \<longleftrightarrow> lg_user l = u \<and> (case lg_frozen_until l of None \<Rightarrow> False | Some t \<Rightarrow> t \<le> now)"

definition thawFrozenQuotaTx :: "int \<Rightarrow> id \<Rightarrow> ('s shop, rat) stx" where
  "thawFrozenQuotaTx now u s =
     (let thawed = sum_list (map lg_amount (filter (matured now u) (sh_ledger s)));
          s = s\<lparr>sh_ledger := map (\<lambda>l. if matured now u l then l\<lparr>lg_frozen_until := None\<rparr> else l) (sh_ledger s)\<rparr>
      in if thawed \<le> 0 then (Inr 0, s)
         else bindA (update_affiliate u (\<lambda>_. True)
                (\<lambda>a. a\<lparr>af_quota := af_quota a + thawed, af_frozen := max (af_frozen a - thawed) 0\<rparr>))
                (\<lambda>_. returnA thawed) s)"

definition ThawFrozenQuota :: "int \<Rightarrow> id \<Rightarrow> ('s shop, rat) prog" where
  "ThawFrozenQuota now u = in_tx (thawFrozenQuotaTx now u)"

definition queryUserBalance :: "id \<Rightarrow> ('s shop, rat) stx" where
  "queryUserBalance u s = (case sh_users s u of None \<Rightarrow> (Inl ErrUserNotFound, s) | Some a \<Rightarrow> (Inr (ac_balance a), s))"

definition queryAffiliateTransferSnapshot :: "id \<Rightarrow> ('s shop, rat \<times> rat \<times> rat \<times> rat) stx" where
  "queryAffiliateTransferSnapshot u s =
     (case (sh_users s u, sh_affiliates s u) of
        (Some c, Some a) \<Rightarrow> (Inr (ac_balance c, af_quota a, af_frozen a, af_history a), s)
      | _ \<Rightarrow> (Inl ErrUserNotFound, s))"

text \<open>The claim reads the available quota under a row lock and clears it.\<close>

definition claim_quota :: "id \<Rightarrow> ('s shop, rat) stx" where
  "claim_quota u s =
     (case sh_affiliates s u of
        Some a \<Rightarrow>
          if af_quota a > 0 then (Inr (af_quota a), s\<lparr>sh_affiliates := (sh_affiliates s)(u \<mapsto> a\<lparr>af_quota := 0\<rparr>)\<rparr>)
          else (Inl ErrAffiliateQuotaEmpty, s)
      | None \<Rightarrow> (Inl ErrAffiliateQuotaEmpty, s))"

definition TransferQuotaToBalance :: "int \<Rightarrow> (string \<times> bool) option \<Rightarrow> id \<Rightarrow> ('s shop, rat \<times> rat) stx" where
  "TransferQuotaToBalance now code u =
     bindA (ensure_in_tx now code u) (\<lambda>_. bindA (thawFrozenQuotaTx now u) (\<lambda>_.
     bindA (claim_quota u) (\<lambda>transferred.
     bindA (update_account u (\<lambda>_. True)
              (\<lambda>a. a\<lparr>ac_balance := ac_balance a + transferred, ac_recharged := ac_recharged a + transferred\<rparr>)) (\<lambda>_.
     bindA (queryUserBalance u) (\<lambda>newBalance. bindA (queryAffiliateTransferSnapshot u) (\<lambda>snap.
     bindA (insert_ledger \<lparr>lg_id = 0, lg_user = u, lg_action = ''transfer'', lg_amount = transferred, lg_source_user = None,
              lg_source_order = None, lg_frozen_until = None, lg_operation = None, lg_after = Some snap\<rparr>) (\<lambda>_.
     returnA (transferred, newBalance))))))))"

record AffiliateWithdrawResult =
  wr_ledger :: id
  wr_user :: id
  wr_amount :: rat
  wr_available :: rat
  wr_frozen :: rat
  wr_history :: rat
  wr_replayed :: bool

text \<open>The claim of an operation: \<open>None\<close> when it was registered before or the user has no profile.\<close>

definition claimAffiliateWithdrawLedger :: "id \<Rightarrow> rat \<Rightarrow> string \<Rightarrow> ('s shop, id option) stx" where
  "claimAffiliateWithdrawLedger u amount op s =
     (if sh_affiliates s u = None \<or> list_ex (\<lambda>l. lg_operation l = Some op) (sh_ledger s) then (Inr None, s)
      else bindA (insert_ledger \<lparr>lg_id = 0, lg_user = u, lg_action = ''withdraw'', lg_amount = amount, lg_source_user = None,
             lg_source_order = None, lg_frozen_until = None, lg_operation = Some op, lg_after = None\<rparr>) (\<lambda>i. returnA (Some i)) s)"

definition findAffiliateWithdrawByOperation :: "id \<Rightarrow> rat \<Rightarrow> string \<Rightarrow> ('s shop, AffiliateWithdrawResult) stx" where
  "findAffiliateWithdrawByOperation u amount op s =
     (case filter (\<lambda>l. lg_operation l = Some op) (sh_ledger s) of
        [] \<Rightarrow> (Inl ErrAffiliateQuotaInsufficient, s)
      | l # _ \<Rightarrow>
          if lg_user l = u \<and> lg_action l = ''withdraw'' \<and> lg_amount l = amount
          then (case (case lg_after l of None \<Rightarrow> (0, 0, 0, 0) | Some x \<Rightarrow> x) of (_, q, f, h) \<Rightarrow>
                  (Inr \<lparr>wr_ledger = lg_id l, wr_user = lg_user l, wr_amount = lg_amount l, wr_available = q, wr_frozen = f,
                        wr_history = h, wr_replayed = True\<rparr>, s))
          else (Inl ErrIdempotencyKeyConflict, s))"

definition set_after :: "id \<Rightarrow> rat \<times> rat \<times> rat \<times> rat \<Rightarrow> ('s shop, unit) stx" where
  "set_after i snap = writeA (\<lambda>s. s\<lparr>sh_ledger := map (\<lambda>l. if lg_id l = i then l\<lparr>lg_after := Some snap\<rparr> else l) (sh_ledger s)\<rparr>)"

definition WithdrawQuota :: "int \<Rightarrow> id \<Rightarrow> rat \<Rightarrow> string \<Rightarrow> ('s shop, AffiliateWithdrawResult) stx" where
  "WithdrawQuota now u amount op =
     (if u \<le> 0 then failA ErrUserNotFound
      else if amount \<le> 0 then failA ErrAffiliateWithdrawAmountInvalid
      else if op = [] then failA ErrIdempotencyKeyRequired
      else bindA (claimAffiliateWithdrawLedger u amount op) (\<lambda>claimed. case claimed of
             None \<Rightarrow> findAffiliateWithdrawByOperation u amount op
           | Some i \<Rightarrow>
               bindA (thawFrozenQuotaTx now u) (\<lambda>_.
               bindA (update_affiliate u (\<lambda>a. af_quota a \<ge> amount) (\<lambda>a. a\<lparr>af_quota := af_quota a - amount\<rparr>)) (\<lambda>n.
               if n = 0 then failA ErrAffiliateQuotaInsufficient
               else bindA (queryAffiliateTransferSnapshot u) (\<lambda>snap.
                    bindA (set_after i snap) (\<lambda>_.
                    case snap of (_, q, f, h) \<Rightarrow>
                      returnA \<lparr>wr_ledger = i, wr_user = u, wr_amount = amount, wr_available = q, wr_frozen = f,
                               wr_history = h, wr_replayed = False\<rparr>))))))"

section \<open>The service\<close>

definition resolveRebateRatePercent :: "affiliate_settings \<Rightarrow> Affiliate \<Rightarrow> rat" where
  "resolveRebateRatePercent st inviter =
     (case af_rate inviter of Some v \<Rightarrow> clampAffiliateRebateRate v | None \<Rightarrow> as_rate st)"

text \<open>The rebate before the cap, and the cap's truncation: \<open>None\<close> for none at all.\<close>

definition rebate_amount :: "affiliate_settings \<Rightarrow> Affiliate \<Rightarrow> rat \<Rightarrow> rat" where
  "rebate_amount st inviter base = nround 8 (base * (resolveRebateRatePercent st inviter / 100))"

definition rebate_expired :: "calendar \<Rightarrow> affiliate_settings \<Rightarrow> Affiliate \<Rightarrow> int \<Rightarrow> bool" where
  "rebate_expired cal st invitee now \<longleftrightarrow>
     as_duration_days st > 0 \<and> now > add_days cal (af_created invitee) (as_duration_days st)"

definition capped :: "affiliate_settings \<Rightarrow> rat \<Rightarrow> rat \<Rightarrow> rat option" where
  "capped st existing rebate =
     (if as_cap st > 0
      then if existing \<ge> as_cap st then None
           else Some (if rebate > as_cap st - existing then nround 8 (as_cap st - existing) else rebate)
      else Some rebate)"

text \<open>Outside a transaction every statement is a request of its own; \<open>c\<close> and \<open>c'\<close> are the generated codes.\<close>

definition AccrueInviteRebateForOrder ::
    "calendar \<Rightarrow> affiliate_settings \<Rightarrow> int \<Rightarrow> (string \<times> bool) option list \<Rightarrow> (string \<times> bool) option list \<Rightarrow>
     id \<Rightarrow> rat \<Rightarrow> id option \<Rightarrow> ('s shop, rat) prog" where
  "AccrueInviteRebateForOrder cal st now c c' invitee base order =
     (if invitee \<le> 0 \<or> base \<le> 0 \<or> \<not> as_enabled st then returnW 0
      else bindW (EnsureUserAffiliate now c invitee) (\<lambda>ie. case af_inviter ie of
             None \<Rightarrow> returnW 0
           | Some inviter \<Rightarrow>
               if inviter \<le> 0 then returnW 0
               else bindW (EnsureUserAffiliate now c' inviter) (\<lambda>ir.
                    if rebate_expired cal st ie now then returnW 0
                    else if rebate_amount st ir base \<le> 0 then returnW 0
                    else bindW (if as_cap st > 0 then sql (GetAccruedRebateFromInvitee inviter invitee) else returnW 0) (\<lambda>existing.
                         case capped st existing (rebate_amount st ir base) of
                           None \<Rightarrow> returnW 0
                         | Some rebate \<Rightarrow>
                             bindW (in_tx (AccrueQuota now inviter invitee rebate (as_freeze_hours st) order)) (\<lambda>applied.
                             returnW (if applied then rebate else 0))))))"

text \<open>The same in the transaction of the caller.\<close>

definition accrue_in_tx ::
    "calendar \<Rightarrow> affiliate_settings \<Rightarrow> int \<Rightarrow> (string \<times> bool) option \<Rightarrow> (string \<times> bool) option \<Rightarrow>
     id \<Rightarrow> rat \<Rightarrow> id option \<Rightarrow> ('s shop, rat) stx" where
  "accrue_in_tx cal st now c c' invitee base order =
     (if invitee \<le> 0 \<or> base \<le> 0 \<or> \<not> as_enabled st then returnA 0
      else bindA (ensure_in_tx now c invitee) (\<lambda>ie. case af_inviter ie of
             None \<Rightarrow> returnA 0
           | Some inviter \<Rightarrow>
               if inviter \<le> 0 then returnA 0
               else bindA (ensure_in_tx now c' inviter) (\<lambda>ir.
                    if rebate_expired cal st ie now then returnA 0
                    else if rebate_amount st ir base \<le> 0 then returnA 0
                    else bindA (if as_cap st > 0 then GetAccruedRebateFromInvitee inviter invitee else returnA 0) (\<lambda>existing.
                         case capped st existing (rebate_amount st ir base) of
                           None \<Rightarrow> returnA 0
                         | Some rebate \<Rightarrow>
                             bindA (AccrueQuota now inviter invitee rebate (as_freeze_hours st) order) (\<lambda>applied.
                             returnA (if applied then rebate else 0))))))"

text \<open>\<open>code\<close> is the raw code, trimmed and in upper case.\<close>

definition BindInviterByCode ::
    "affiliate_settings \<Rightarrow> int \<Rightarrow> (string \<times> bool) option list \<Rightarrow> (string \<times> bool) option \<Rightarrow> id list \<Rightarrow> id \<Rightarrow> string \<Rightarrow> ('s shop, unit) prog" where
  "BindInviterByCode st now c c' us u code =
     (if code = [] \<or> \<not> as_enabled st then returnW ()
      else if \<not> isValidAffiliateCodeFormat code then failW ErrAffiliateCodeInvalid
      else bindW (EnsureUserAffiliate now c u) (\<lambda>self.
           if af_inviter self \<noteq> None then returnW ()
           else bindW (catchW (sql (queryAffiliateByCode us code))) (\<lambda>r. case r of
                  Inl e \<Rightarrow> failW (if e = ErrAffiliateProfileNotFound then ErrAffiliateCodeInvalid else e)
                | Inr inviter \<Rightarrow>
                    if inviter \<le> 0 \<or> inviter = u then failW ErrAffiliateCodeInvalid
                    else bindW (in_tx (BindInviter now (case c of [] \<Rightarrow> None | x # _ \<Rightarrow> x) c' u inviter)) (\<lambda>bound.
                         if bound then returnW () else failW ErrAffiliateAlreadyBound))))"

definition TransferAffiliateQuota :: "int \<Rightarrow> (string \<times> bool) option \<Rightarrow> id \<Rightarrow> ('s shop, rat \<times> rat) prog" where
  "TransferAffiliateQuota now code u = in_tx (TransferQuotaToBalance now code u)"

definition AdminWithdrawQuota :: "(string \<Rightarrow> string) \<Rightarrow> int \<Rightarrow> id \<Rightarrow> rat \<Rightarrow> go_text \<Rightarrow> ('s shop, AffiliateWithdrawResult) prog" where
  "AdminWithdrawQuota operation now u amount rawKey =
     (if u \<le> 0 then failW (ErrInvalid ''INVALID_USER'')
      else (case NormalizeIdempotencyKey rawKey of
              Inl _ \<Rightarrow> failW (ErrInvalid ''IDEMPOTENCY_KEY_INVALID'')
            | Inr key \<Rightarrow>
                if key = [] then failW ErrIdempotencyKeyRequired
                else if nround 8 amount \<le> 0 then failW ErrAffiliateWithdrawAmountInvalid
                else in_tx (WithdrawQuota now u (nround 8 amount) (operation key))))"

end
