(* ===== verification/Redemption.thy ===== *)
theory Redemption
  imports Redeem Affiliate
begin

text \<open>
  Redeeming a code (\<open>redeem\<close> of \<open>service/redeem_service.go\<close>): rate limit and lock in Redis,
  the checks, the transaction that marks the code and grants what it stands for, and the
  rebate of the inviter.
\<close>

section \<open>Subscription methods inside a transaction\<close>

definition assign_in_tx :: "calendar \<Rightarrow> int \<Rightarrow> AssignSubscriptionInput \<Rightarrow> (UserSubscription \<times> bool) act" where
  "assign_in_tx cal now input db =
     (case sub_groups db (in_group input) of
        None \<Rightarrow> (Inl (ErrInvalid ''group not found''), db)
      | Some g \<Rightarrow>
          if \<not> IsSubscriptionType g then (Inl ErrGroupNotSubscriptionType, db)
          else (case GetByUserIDAndGroupID (in_user input) (in_group input) db of
                  (Inr ex, _) \<Rightarrow>
                    bindA (GetByIDForUpdate (us_id ex)) (\<lambda>s.
                    bindA (renew_term cal now (normalizeAssignValidityDays (in_days input)) (in_notes input) False s) (\<lambda>_.
                    bindA (GetByID (us_id ex)) (\<lambda>r. returnA (r, True)))) db
                | (Inl _, _) \<Rightarrow>
                    bindA (Create (new_subscription cal now input)) (\<lambda>i. bindA (GetByID i) (\<lambda>r. returnA (r, False))) db))"

definition extend_in_tx :: "calendar \<Rightarrow> int \<Rightarrow> id \<Rightarrow> int \<Rightarrow> UserSubscription act" where
  "extend_in_tx cal now i days = bindA (lock_for_adjust i) (\<lambda>s. bindA (adjust_term cal now days s) (\<lambda>_. GetByID i))"

definition revoke_in_tx :: "int \<Rightarrow> id \<Rightarrow> unit act" where
  "revoke_in_tx now i = bindA (GetByID i) (\<lambda>_. DeleteSub now i)"

text \<open>The notes the code writes, in Chinese.\<close>

definition redeem_note :: "go_text \<Rightarrow> go_text" where
  "redeem_note code = [36890, 36807, 20817, 25442, 30721, 32] @ code @ [32, 20817, 25442]"

definition reduce_note :: "go_text \<Rightarrow> int \<Rightarrow> go_text" where
  "reduce_note code days =
     [36890, 36807, 20817, 25442, 30721, 32] @ code @ [32, 36864, 27454, 25187, 20943, 32] @ text_of (format_int days) @ [32, 22825]"

definition reduceOrCancelSubscription :: "calendar \<Rightarrow> int \<Rightarrow> id \<Rightarrow> id \<Rightarrow> int \<Rightarrow> go_text \<Rightarrow> unit act" where
  "reduceOrCancelSubscription cal now u g days code db =
     (case GetByUserIDAndGroupID u g db of
        (Inl _, _) \<Rightarrow> (Inl ErrSubscriptionNotFound, db)
      | (Inr s0, _) \<Rightarrow>
          bindA (GetByIDForUpdate (us_id s0)) (\<lambda>s.
          let newExpiresAt = add_days cal (us_expires s) (- days) in
          bindA (if \<not> newExpiresAt > now
                 then bindA (UpdateStatus (us_id s) SubscriptionStatusExpired) (\<lambda>_. ExtendExpiry (us_id s) now)
                 else ExtendExpiry (us_id s) newExpiresAt) (\<lambda>_.
          UpdateNotes (us_id s) ((if us_notes s \<noteq> [] then us_notes s @ [10] else us_notes s) @ reduce_note code days))) db)"

section \<open>Redemption\<close>

text \<open>Conversion of a float to an integer truncates towards zero.\<close>

definition trunc :: "rat \<Rightarrow> int" where
  "trunc x = (if x < 0 then - \<lfloor>- x\<rfloor> else \<lfloor>x\<rfloor>)"

definition grant_subscription :: "calendar \<Rightarrow> int \<Rightarrow> RedeemCode \<Rightarrow> id \<Rightarrow> id \<Rightarrow> unit act" where
  "grant_subscription cal now c g u =
     (if rc_days c < 0 then reduceOrCancelSubscription cal now u g (- rc_days c) (rc_code c)
      else bindA (assign_in_tx cal now \<lparr>in_user = u, in_group = g,
             in_days = (if rc_days c = 0 then 30 else rc_days c), in_by = 0, in_notes = redeem_note (rc_code c)\<rparr>) (\<lambda>_. returnA ()))"

definition redeem_tx :: "calendar \<Rightarrow> int \<Rightarrow> int \<Rightarrow> RedeemCode \<Rightarrow> id \<Rightarrow> ('s shop, unit) stx" where
  "redeem_tx cal now now' c u =
     (\<lambda>s. case UseCode now (rc_id c) u s of
        (Inl e, s') \<Rightarrow> (Inl (if e = ErrRedeemCodeNotFound \<or> e = ErrRedeemCodeUsed then ErrRedeemCodeUsed else e), s')
      | (Inr _, s') \<Rightarrow>
         (if rc_type c = RedeemTypeBalance
          then (if rc_value c < 0 then ApplyRedeemBalanceAdjustment u (rc_value c) else UpdateBalance u (rc_value c))
          else if rc_type c = RedeemTypeConcurrency
          then (if trunc (rc_value c) < 0 then ApplyRedeemConcurrencyAdjustment u (trunc (rc_value c))
                else UpdateConcurrency u (trunc (rc_value c)))
          else if rc_type c = RedeemTypeSubscription
          then (case rc_group c of None \<Rightarrow> failA (ErrInvalid ''nil group'') | Some g \<Rightarrow> on_subs (grant_subscription cal now' c g u))
          else failA unsupportedRedeemTypeError) s')"

text \<open>The environment of the service; \<open>re_affiliate\<close> is absent without an affiliate service.\<close>

record 's redeem_env =
  re_redis :: "'s redis"
  re_cache :: bool
  re_bytes :: "go_text \<Rightarrow> string"
  re_cal :: calendar
  re_affiliate :: "affiliate_settings option"
  re_codes :: "(string \<times> bool) option list"
  re_codes' :: "(string \<times> bool) option list"

definition tryAccrueAffiliateRebateForRedeem :: "'s redeem_env \<Rightarrow> bool \<Rightarrow> int \<Rightarrow> id \<Rightarrow> rat \<Rightarrow> ('s shop, unit) prog" where
  "tryAccrueAffiliateRebateForRedeem E skip now u amount =
     (if skip then returnW ()
      else (case re_affiliate E of
              None \<Rightarrow> returnW ()
            | Some st \<Rightarrow>
                if \<not> as_enabled st then returnW ()
                else tryW (AccrueInviteRebateForOrder (re_cal E) st now (re_codes E) (re_codes' E) u amount None)))"

text \<open>\<open>now i\<close> is the \<open>i\<close>-th reading of the clock.\<close>

definition redeem_locked :: "'s redeem_env \<Rightarrow> (nat \<Rightarrow> int) \<Rightarrow> id \<Rightarrow> go_text \<Rightarrow> bool \<Rightarrow> bool \<Rightarrow> ('s shop, RedeemCode) prog" where
  "redeem_locked E now u code enforce skip =
     (let miss = (\<lambda>e. bindW (if enforce then incrementRedeemErrorCount (re_redis E) (re_cache E) u else returnW ()) (\<lambda>_. failW e))
      in bindW (catchW (sql (GetByCode code))) (\<lambda>r. case r of
           Inl e \<Rightarrow> if e = ErrRedeemCodeNotFound then miss ErrRedeemCodeNotFound else failW e
         | Inr c \<Rightarrow>
             if IsExpiredAt (now 0) c then miss ErrRedeemCodeExpired
             else if \<not> CanUse (now 1) c then miss ErrRedeemCodeUsed
             else if rc_type c = RedeemTypeSubscription \<and> rc_group c = None then failW (ErrInvalid ''REDEEM_CODE_INVALID'')
             else if rc_type c \<notin> {RedeemTypeBalance, RedeemTypeConcurrency, RedeemTypeSubscription}
             then failW unsupportedRedeemTypeError
             else bindW (sql (GetUserByID u)) (\<lambda>_.
                  bindW (in_tx (redeem_tx (re_cal E) (now 2) (now 3) c u)) (\<lambda>_.
                  bindW (if rc_type c = RedeemTypeBalance \<and> rc_value c > 0
                         then tryAccrueAffiliateRebateForRedeem E skip (now 4) u (rc_value c) else returnW ()) (\<lambda>_.
                  sql (GetCodeByID (rc_id c)))))))"

definition redeem :: "'s redeem_env \<Rightarrow> (nat \<Rightarrow> int) \<Rightarrow> id \<Rightarrow> go_text \<Rightarrow> bool \<Rightarrow> bool \<Rightarrow> ('s shop, RedeemCode) prog" where
  "redeem E now u code enforce skip =
     (let R = re_redis E; key = redeemLockKey (re_bytes E) code
      in bindW (if enforce then checkRedeemRateLimit R (re_cache E) u else returnW ()) (\<lambda>_.
         bindW (acquireRedeemLock R (re_cache E) key) (\<lambda>ok.
         if \<not> ok then failW ErrRedeemCodeLocked
         else deferW (redeem_locked E now u code enforce skip) (releaseRedeemLock R (re_cache E) key))))"

definition Redeem :: "'s redeem_env \<Rightarrow> (nat \<Rightarrow> int) \<Rightarrow> id \<Rightarrow> go_text \<Rightarrow> ('s shop, RedeemCode) prog" where
  "Redeem E now u code = redeem E now u code True False"

definition redeemForPaymentFulfillment :: "'s redeem_env \<Rightarrow> (nat \<Rightarrow> int) \<Rightarrow> id \<Rightarrow> go_text \<Rightarrow> ('s shop, RedeemCode) prog" where
  "redeemForPaymentFulfillment E now u code = redeem E now u code False True"

definition RedeemForAdminFulfillment :: "'s redeem_env \<Rightarrow> (nat \<Rightarrow> int) \<Rightarrow> id \<Rightarrow> go_text \<Rightarrow> ('s shop, RedeemCode) prog" where
  "RedeemForAdminFulfillment E now u code = redeem E now u code False False"

end
