(* ===== verification/Payment_Orders.thy ===== *)
theory Payment_Orders
  imports Redemption
begin

text \<open>
  Payment orders (\<open>service/payment_fulfillment.go\<close>, \<open>service/payment_order_lifecycle.go\<close>): the
  notification of a payment, the lease of a fulfilment, the credit of the balance through a
  redeem code, the assignment of the subscription, the rebate, cancellation and expiry.

  Instants of orders count microseconds, the precision of their columns.  The provider is an
  argument: its checks of a notification and its answers to queries.  \<open>now i\<close> is the \<open>i\<close>-th
  reading of the clock of a method.  E-mail is left out.
\<close>

section \<open>Data\<close>

definition OrderStatusPending :: string where "OrderStatusPending = ''PENDING''"
definition OrderStatusPaid :: string where "OrderStatusPaid = ''PAID''"
definition OrderStatusRecharging :: string where "OrderStatusRecharging = ''RECHARGING''"
definition OrderStatusCompleted :: string where "OrderStatusCompleted = ''COMPLETED''"
definition OrderStatusExpired :: string where "OrderStatusExpired = ''EXPIRED''"
definition OrderStatusCancelled :: string where "OrderStatusCancelled = ''CANCELLED''"
definition OrderStatusFailed :: string where "OrderStatusFailed = ''FAILED''"
definition OrderStatusRefundRequested :: string where "OrderStatusRefundRequested = ''REFUND_REQUESTED''"
definition OrderStatusRefunding :: string where "OrderStatusRefunding = ''REFUNDING''"
definition OrderStatusRefundPending :: string where "OrderStatusRefundPending = ''REFUND_PENDING''"
definition OrderStatusPartiallyRefunded :: string where "OrderStatusPartiallyRefunded = ''PARTIALLY_REFUNDED''"
definition OrderStatusRefunded :: string where "OrderStatusRefunded = ''REFUNDED''"
definition OrderStatusRefundFailed :: string where "OrderStatusRefundFailed = ''REFUND_FAILED''"

lemmas order_status_defs = OrderStatusPending_def OrderStatusPaid_def OrderStatusRecharging_def OrderStatusCompleted_def
  OrderStatusExpired_def OrderStatusCancelled_def OrderStatusFailed_def OrderStatusRefundRequested_def OrderStatusRefunding_def
  OrderStatusRefundPending_def OrderStatusPartiallyRefunded_def OrderStatusRefunded_def OrderStatusRefundFailed_def

definition OrderTypeBalance :: string where "OrderTypeBalance = ''balance''"
definition OrderTypeSubscription :: string where "OrderTypeSubscription = ''subscription''"

lemmas order_type_defs = OrderTypeBalance_def OrderTypeSubscription_def

definition paymentFulfillmentLeaseDuration :: int where "paymentFulfillmentLeaseDuration = 5 * 60 * 1000000"
definition paymentGrace :: int where "paymentGrace = 5 * 60 * 1000000"
definition amountToleranceCNY :: rat where "amountToleranceCNY = 1 / 100"
definition orderIDPrefix :: go_text where "orderIDPrefix = text_of ''sub2_''"

definition zero_decimal_currencies :: "string list" where
  "zero_decimal_currencies = [''BIF'', ''CLP'', ''DJF'', ''GNF'', ''JPY'', ''KMF'', ''KRW'', ''MGA'', ''PYG'', ''RWF'', ''VND'',
     ''VUV'', ''XAF'', ''XOF'', ''XPF'']"

definition three_decimal_currencies :: "string list" where
  "three_decimal_currencies = [''BHD'', ''IQD'', ''JOD'', ''KWD'', ''LYD'', ''OMR'', ''TND'']"

definition CurrencyMinorUnit :: "string \<Rightarrow> nat" where
  "CurrencyMinorUnit c = (if c \<in> set zero_decimal_currencies then 0 else if c \<in> set three_decimal_currencies then 3 else 2)"

definition CurrencyMaxFractionDigits :: "string \<Rightarrow> nat" where
  "CurrencyMaxFractionDigits c = (if c \<in> {''ISK'', ''UGX''} then 0 else CurrencyMinorUnit c)"

definition paymentAmountToleranceForCurrency :: "string \<Rightarrow> rat" where
  "paymentAmountToleranceForCurrency c = (if CurrencyMinorUnit c \<le> 2 then amountToleranceCNY else 1 / 10 ^ CurrencyMinorUnit c / 2)"

definition psIsRefundStatus :: "string \<Rightarrow> bool" where
  "psIsRefundStatus s \<longleftrightarrow> s \<in> {OrderStatusRefundRequested, OrderStatusRefunding, OrderStatusRefundPending,
     OrderStatusPartiallyRefunded, OrderStatusRefunded, OrderStatusRefundFailed}"

definition isSupportedPaymentOrderType :: "string \<Rightarrow> bool" where
  "isSupportedPaymentOrderType t \<longleftrightarrow> t = OrderTypeBalance \<or> t = OrderTypeSubscription"

text \<open>\<open>None\<close> is an amount that is not a number or not finite.\<close>

record notification =
  pn_trade_no :: go_text
  pn_order :: go_text
  pn_amount :: "rat option"
  pn_success :: bool

text \<open>What the checks of the provider's key and of its metadata say of an order.\<close>

datatype provider_check = ProviderOk | ProviderMismatch | MetadataMismatch

section \<open>The table\<close>

definition ErrOrderNotFound :: err where "ErrOrderNotFound = ErrInvalid ''payment order not found''"
definition ErrNotFound :: err where "ErrNotFound = ErrInvalid ''NOT_FOUND''"
definition ErrInvalidStatus :: err where "ErrInvalidStatus = ErrInvalid ''INVALID_STATUS''"
definition ErrConflict :: err where "ErrConflict = ErrInvalid ''CONFLICT''"

definition only_order :: "(PaymentOrder \<Rightarrow> bool) \<Rightarrow> ('s shop, PaymentOrder) stx" where
  "only_order P s =
     (case filter P (sh_orders s) of
        [] \<Rightarrow> (Inl ErrNotFound, s) | [po] \<Rightarrow> (Inr po, s) | _ \<Rightarrow> (Inl (ErrInvalid ''not singular''), s))"

definition get_order :: "id \<Rightarrow> ('s shop, PaymentOrder) stx" where "get_order i = only_order (\<lambda>po. po_id po = i)"

text \<open>Every update stamps \<open>updated_at\<close> with the clock unless it sets it.\<close>

definition update_orders :: "(PaymentOrder \<Rightarrow> bool) \<Rightarrow> (PaymentOrder \<Rightarrow> PaymentOrder) \<Rightarrow> int \<Rightarrow> ('s shop, int) stx" where
  "update_orders P f now s =
     (Inr (int (length (filter P (sh_orders s)))),
      s\<lparr>sh_orders := map (\<lambda>po. if P po then (f po)\<lparr>po_updated_at := now\<rparr> else po) (sh_orders s)\<rparr>)"

definition update_order :: "id \<Rightarrow> (PaymentOrder \<Rightarrow> PaymentOrder) \<Rightarrow> int \<Rightarrow> ('s shop, unit) stx" where
  "update_order i f now = bindA (update_orders (\<lambda>po. po_id po = i) f now) (\<lambda>n. if n = 0 then failA ErrNotFound else returnA ())"

section \<open>The lease of a fulfilment\<close>

definition lease_free :: "int \<Rightarrow> PaymentOrder \<Rightarrow> bool" where
  "lease_free staleBefore po \<longleftrightarrow>
     po_status po \<in> {OrderStatusPaid, OrderStatusFailed} \<or>
     po_status po = OrderStatusRecharging \<and> po_updated_at po \<le> staleBefore"

definition take_lease :: "id \<Rightarrow> int \<Rightarrow> ('s shop, int) stx" where
  "take_lease i now = update_orders (\<lambda>po. po_id po = i \<and> lease_free (now - paymentFulfillmentLeaseDuration) po)
     (\<lambda>po. po\<lparr>po_status := OrderStatusRecharging, po_failed_at := None\<rparr>) now"

text \<open>The lease is the persisted \<open>updated_at\<close>; \<open>None\<close> when the order is completed.\<close>

definition acquirePaymentFulfillmentLease :: "int \<Rightarrow> id \<Rightarrow> ('s shop, int option) prog" where
  "acquirePaymentFulfillmentLease now i =
     bindW (sql (take_lease i now)) (\<lambda>updated.
     bindW (sql (get_order i)) (\<lambda>current.
     if updated = 0
     then (if po_status current = OrderStatusCompleted then returnW None else failW ErrConflict)
     else if po_status current \<noteq> OrderStatusRecharging then failW ErrConflict
     else returnW (Some (po_updated_at current))))"

definition leased :: "id \<Rightarrow> int \<Rightarrow> PaymentOrder \<Rightarrow> bool" where
  "leased i version po \<longleftrightarrow> po_id po = i \<and> po_status po = OrderStatusRecharging \<and> po_updated_at po = version"

definition markCompleted :: "int \<Rightarrow> id \<Rightarrow> int \<Rightarrow> string \<Rightarrow> ('s shop, unit) prog" where
  "markCompleted now i version action =
     bindW (sql (update_orders (leased i version) (\<lambda>po. po\<lparr>po_status := OrderStatusCompleted, po_completed_at := Some now\<rparr>) now)) (\<lambda>updated.
     if updated = 0
     then bindW (catchW (sql (get_order i))) (\<lambda>r. case r of
            Inr current \<Rightarrow> if po_status current = OrderStatusCompleted then returnW () else failW ErrConflict
          | Inl _ \<Rightarrow> failW ErrConflict)
     else bindW (hasAuditLog i action) (\<lambda>known. if known then returnW () else writeAuditLog i action ''system''))"

definition markFailed :: "int \<Rightarrow> id \<Rightarrow> int \<Rightarrow> ('s shop, unit) prog" where
  "markFailed now i version =
     bindW (catchW (sql (update_orders (leased i version) (\<lambda>po. po\<lparr>po_status := OrderStatusFailed, po_failed_at := Some now\<rparr>) now))) (\<lambda>r.
     case r of
       Inr n \<Rightarrow> if n > 0 then writeAuditLog i ''FULFILLMENT_FAILED'' ''system'' else returnW ()
     | Inl _ \<Rightarrow> returnW ())"

section \<open>The rebate\<close>

definition paymentOrderAmountWithoutBonus :: "PaymentOrder \<Rightarrow> rat" where
  "paymentOrderAmountWithoutBonus po =
     (if po_type po \<noteq> OrderTypeBalance \<or> po_bonus po \<le> 0 then po_amount po
      else (let base = nround 2 (po_amount po - po_bonus po) in if base < 0 then 0 else base))"

definition affiliateRebateBaseAmount :: "PaymentOrder \<Rightarrow> rat" where
  "affiliateRebateBaseAmount po =
     (if po_type po = OrderTypeBalance then paymentOrderAmountWithoutBonus po
      else if po_type po = OrderTypeSubscription then po_amount po else 0)"

definition rebate_claimed :: "id \<Rightarrow> audit_row list \<Rightarrow> bool" where
  "rebate_claimed i as \<longleftrightarrow> has_audit i ''AFFILIATE_REBATE_APPLIED'' as \<or> has_audit i ''AFFILIATE_REBATE_SKIPPED'' as"

text \<open>The claim row's last action; the order of a taken action would violate the index.\<close>

definition updateClaimedAffiliateRebateAudit :: "id \<Rightarrow> string \<Rightarrow> ('s shop, unit) stx" where
  "updateClaimedAffiliateRebateAudit i action s =
     (if \<not> has_audit i ''AFFILIATE_REBATE_APPLIED'' (sh_audit s) then (Inl (ErrInvalid ''affiliate rebate claim log not found''), s)
      else (Inr (), s\<lparr>sh_audit := map (\<lambda>a. if au_order a = i \<and> au_action a = ''AFFILIATE_REBATE_APPLIED''
              then a\<lparr>au_action := action, au_operator := ''system''\<rparr> else a) (sh_audit s)\<rparr>))"

definition rebate_tx :: "'s redeem_env \<Rightarrow> affiliate_settings \<Rightarrow> int \<Rightarrow> PaymentOrder \<Rightarrow> ('s shop, unit) stx" where
  "rebate_tx E st now po s =
     (if rebate_claimed (po_id po) (sh_audit s) then (Inr (), s)
      else bindA (insert_audit (po_id po) ''AFFILIATE_REBATE_APPLIED'' ''system'' None) (\<lambda>_.
           bindA (accrue_in_tx (re_cal E) st now (case re_codes E of [] \<Rightarrow> None | c # _ \<Rightarrow> c) (case re_codes' E of [] \<Rightarrow> None | c # _ \<Rightarrow> c)
                    (po_user po) (affiliateRebateBaseAmount po) (Some (po_id po))) (\<lambda>rebate.
           updateClaimedAffiliateRebateAudit (po_id po)
             (if rebate \<le> 0 then ''AFFILIATE_REBATE_SKIPPED'' else ''AFFILIATE_REBATE_APPLIED''))) s)"

definition applyAffiliateRebateForOrder :: "'s redeem_env \<Rightarrow> int \<Rightarrow> PaymentOrder \<Rightarrow> ('s shop, unit) prog" where
  "applyAffiliateRebateForOrder E now po =
     (if affiliateRebateBaseAmount po \<le> 0 then returnW ()
      else (case re_affiliate E of
              None \<Rightarrow> returnW ()
            | Some st \<Rightarrow>
                bindW (catchW (in_tx (rebate_tx E st now po))) (\<lambda>r. case r of
                  Inr _ \<Rightarrow> returnW ()
                | Inl e \<Rightarrow> bindW (writeAuditLog (po_id po) ''AFFILIATE_REBATE_FAILED'' ''system'') (\<lambda>_. failW e))))"

section \<open>Balance orders\<close>

datatype redeemAction = redeemActionCreate | redeemActionRedeem | redeemActionSkipCompleted

definition resolveRedeemAction :: "err + RedeemCode \<Rightarrow> err + redeemAction" where
  "resolveRedeemAction r =
     (case r of
        Inl e \<Rightarrow> if e = ErrRedeemCodeNotFound then Inr redeemActionCreate else Inl e
      | Inr c \<Rightarrow> if IsUsed c then Inr redeemActionSkipCompleted else Inr redeemActionRedeem)"

definition validatePaymentRedeemCode :: "PaymentOrder \<Rightarrow> RedeemCode \<Rightarrow> bool" where
  "validatePaymentRedeemCode po c \<longleftrightarrow>
     rc_code c = po_code po \<and> rc_type c = RedeemTypeBalance \<and> \<not> \<bar>rc_value c - po_amount po\<bar> > 1 / 10 ^ 8 \<and>
     (if rc_status c = StatusUnused then rc_used_by c = None
      else rc_status c = StatusUsed \<and> rc_used_by c = Some (po_user po))"

definition payment_code :: "PaymentOrder \<Rightarrow> RedeemCode" where
  "payment_code po = \<lparr>rc_id = 0, rc_code = po_code po, rc_type = RedeemTypeBalance, rc_value = po_amount po, rc_status = StatusUnused,
     rc_used_by = None, rc_used_at = None, rc_expires = None, rc_group = None, rc_days = 0, rc_notes = []\<rparr>"

definition finish_balance :: "'s redeem_env \<Rightarrow> (nat \<Rightarrow> int) \<Rightarrow> PaymentOrder \<Rightarrow> int \<Rightarrow> ('s shop, unit) prog" where
  "finish_balance E now po version =
     bindW (applyAffiliateRebateForOrder E (now 7) po) (\<lambda>_. markCompleted (now 8) (po_id po) version ''RECHARGE_SUCCESS'')"

definition doBalance :: "'s redeem_env \<Rightarrow> (nat \<Rightarrow> int) \<Rightarrow> PaymentOrder \<Rightarrow> int \<Rightarrow> ('s shop, unit) prog" where
  "doBalance E now po version =
     bindW (catchW (sql (GetByCode (po_code po)))) (\<lambda>existing.
     case resolveRedeemAction existing of
       Inl e \<Rightarrow> failW e
     | Inr action \<Rightarrow>
         if (case existing of Inr c \<Rightarrow> \<not> validatePaymentRedeemCode po c | Inl _ \<Rightarrow> False)
         then failW (ErrInvalid ''payment redeem code mismatch'')
         else if action = redeemActionSkipCompleted then finish_balance E now po version
         else bindW (if action = redeemActionCreate then CreateCode (now 1) (payment_code po) else returnW 0) (\<lambda>_.
              bindW (redeemForPaymentFulfillment E (\<lambda>i. now (i + 2)) (po_user po) (po_code po)) (\<lambda>_.
              finish_balance E now po version)))"

definition may_fulfill :: "PaymentOrder \<Rightarrow> bool" where
  "may_fulfill po \<longleftrightarrow> po_status po = OrderStatusPaid \<or> po_status po = OrderStatusFailed \<or> po_status po = OrderStatusRecharging"

definition with_lease :: "(nat \<Rightarrow> int) \<Rightarrow> id \<Rightarrow> (int \<Rightarrow> ('s shop, unit) prog) \<Rightarrow> ('s shop, unit) prog" where
  "with_lease now i work =
     bindW (acquirePaymentFulfillmentLease (now 0) i) (\<lambda>lease. case lease of
        None \<Rightarrow> returnW ()
      | Some version \<Rightarrow>
          bindW (catchW (work version)) (\<lambda>r. case r of
             Inr _ \<Rightarrow> returnW ()
           | Inl e \<Rightarrow> bindW (markFailed (now 9) i version) (\<lambda>_. failW e)))"

definition ExecuteBalanceFulfillment :: "'s redeem_env \<Rightarrow> (nat \<Rightarrow> int) \<Rightarrow> id \<Rightarrow> ('s shop, unit) prog" where
  "ExecuteBalanceFulfillment E now i =
     bindW (sql (get_order i)) (\<lambda>po.
     if po_type po \<noteq> OrderTypeBalance then failW (ErrInvalid ''INVALID_ORDER_TYPE'')
     else if po_status po = OrderStatusCompleted then returnW ()
     else if psIsRefundStatus (po_status po) then failW ErrInvalidStatus
     else if \<not> may_fulfill po then failW ErrInvalidStatus
     else with_lease now i (doBalance E now po))"

section \<open>Subscription orders\<close>

definition paymentSubscriptionOrderNote :: "id \<Rightarrow> go_text" where
  "paymentSubscriptionOrderNote i = text_of (''payment order '' @ format_int i)"

text \<open>\<open>strings.Split\<close> at line feeds, after \<open>\r\n\<close> became \<open>\n\<close>.\<close>

fun unify_lines :: "go_text \<Rightarrow> go_text" where
  "unify_lines (a # b # xs) = (if a = 13 \<and> b = 10 then 10 # unify_lines xs else a # unify_lines (b # xs))"
| "unify_lines xs = xs"

fun split_lines :: "go_text \<Rightarrow> go_text \<Rightarrow> go_text list" where
  "split_lines acc [] = [rev acc]"
| "split_lines acc (x # xs) = (if x = 10 then rev acc # split_lines [] xs else split_lines (x # acc) xs)"

definition hasPaymentSubscriptionOrderNote :: "go_text \<Rightarrow> go_text \<Rightarrow> bool" where
  "hasPaymentSubscriptionOrderNote notes note \<longleftrightarrow> list_ex (\<lambda>l. trim_space l = note) (split_lines [] (unify_lines notes))"

definition hasPaymentSubscriptionAssignmentAudit :: "id \<Rightarrow> audit_row list \<Rightarrow> bool" where
  "hasPaymentSubscriptionAssignmentAudit i as \<longleftrightarrow> has_audit i ''SUBSCRIPTION_ASSIGNED'' as \<or> has_audit i ''SUBSCRIPTION_SUCCESS'' as"

definition assign_order :: "calendar \<Rightarrow> int \<Rightarrow> PaymentOrder \<Rightarrow> id \<Rightarrow> int \<Rightarrow> ('s shop, unit) stx" where
  "assign_order cal now po g days s =
     (let note = paymentSubscriptionOrderNote (po_id po);
          assign = bindA (on_subs (assign_in_tx cal now
            \<lparr>in_user = po_user po, in_group = g, in_days = days, in_by = 0, in_notes = note\<rparr>)) (\<lambda>_. returnA ())
      in bindA (case fst (GetByUserIDAndGroupID (po_user po) g (sh_subs s)) of
                  Inr ex \<Rightarrow> if hasPaymentSubscriptionOrderNote (us_notes ex) note then returnA () else assign
                | Inl e \<Rightarrow> if e \<noteq> ErrSubscriptionNotFound then failA e else assign)
           (\<lambda>_. insert_audit (po_id po) ''SUBSCRIPTION_ASSIGNED'' ''system'' None) s)"

text \<open>
  The transaction reads the audit log first, without a lock; of two transactions past that
  reading the unique index lets one commit.
\<close>

definition ensurePaymentSubscriptionAssigned ::
    "'s redeem_env \<Rightarrow> bool \<Rightarrow> int \<Rightarrow> PaymentOrder \<Rightarrow> id \<Rightarrow> int \<Rightarrow> ('s shop, unit) prog" where
  "ensurePaymentSubscriptionAssigned E cached now po g days =
     bindW (query (\<lambda>s. hasPaymentSubscriptionAssignmentAudit (po_id po) (sh_audit s))) (\<lambda>already.
     bindW (if already then returnW True
            else bindW (catchW (in_tx (assign_order (re_cal E) now po g days))) (\<lambda>r. case r of
                   Inr _ \<Rightarrow> returnW True
                 | Inl e \<Rightarrow>
                     if e = ErrConstraint
                     then bindW (catchW (query (\<lambda>s. hasPaymentSubscriptionAssignmentAudit (po_id po) (sh_audit s)))) (\<lambda>claimed.
                          if claimed = Inr True then returnW True else failW e)
                     else failW e)) (\<lambda>_.
     invalidateSubscriptionCaches cached))"

definition doSub :: "'s redeem_env \<Rightarrow> bool \<Rightarrow> (nat \<Rightarrow> int) \<Rightarrow> PaymentOrder \<Rightarrow> id \<Rightarrow> int \<Rightarrow> int \<Rightarrow> ('s shop, unit) prog" where
  "doSub E cached now po g days version =
     bindW (query (\<lambda>s. sub_groups (sh_subs s) g \<noteq> None \<and> sh_group_active s g)) (\<lambda>alive.
     if \<not> alive then failW (ErrInvalid ''group no longer exists or inactive'')
     else bindW (ensurePaymentSubscriptionAssigned E cached (now 1) po g days) (\<lambda>_.
          bindW (applyAffiliateRebateForOrder E (now 7) po) (\<lambda>_.
          markCompleted (now 8) (po_id po) version ''SUBSCRIPTION_SUCCESS'')))"

definition ExecuteSubscriptionFulfillment :: "'s redeem_env \<Rightarrow> bool \<Rightarrow> (nat \<Rightarrow> int) \<Rightarrow> id \<Rightarrow> ('s shop, unit) prog" where
  "ExecuteSubscriptionFulfillment E cached now i =
     bindW (sql (get_order i)) (\<lambda>po.
     if po_status po = OrderStatusCompleted then returnW ()
     else if psIsRefundStatus (po_status po) then failW ErrInvalidStatus
     else if \<not> may_fulfill po then failW ErrInvalidStatus
     else (case (po_group po, po_days po) of
             (Some g, Some days) \<Rightarrow> with_lease now i (doSub E cached now po g days)
           | _ \<Rightarrow> failW ErrInvalidStatus))"

definition rejectUnsupportedOrderType :: "int \<Rightarrow> PaymentOrder \<Rightarrow> ('s shop, unit) prog" where
  "rejectUnsupportedOrderType now po =
     bindW (catchW (sql (update_orders
       (\<lambda>p. po_id p = po_id po \<and> po_status p \<in> {OrderStatusPaid, OrderStatusRecharging})
       (\<lambda>p. p\<lparr>po_status := OrderStatusFailed, po_failed_at := Some now\<rparr>) now))) (\<lambda>r. case r of
         Inr n \<Rightarrow> if n > 0 then writeAuditLog (po_id po) ''FULFILLMENT_FAILED'' ''system'' else returnW ()
       | Inl _ \<Rightarrow> returnW ())"

definition executeFulfillment :: "'s redeem_env \<Rightarrow> bool \<Rightarrow> (nat \<Rightarrow> int) \<Rightarrow> id \<Rightarrow> ('s shop, unit) prog" where
  "executeFulfillment E cached now i =
     bindW (sql (get_order i)) (\<lambda>po.
     if po_type po = OrderTypeSubscription then ExecuteSubscriptionFulfillment E cached now i
     else if po_type po = OrderTypeBalance then ExecuteBalanceFulfillment E now i
     else rejectUnsupportedOrderType (now 0) po)"

definition RetryFulfillment :: "'s redeem_env \<Rightarrow> bool \<Rightarrow> (nat \<Rightarrow> int) \<Rightarrow> id \<Rightarrow> ('s shop, unit) prog" where
  "RetryFulfillment E cached now i =
     bindW (sql (get_order i)) (\<lambda>po.
     if po_paid_at po = None then failW ErrInvalidStatus
     else if psIsRefundStatus (po_status po) then failW ErrInvalidStatus
     else if po_status po = OrderStatusCompleted then failW ErrInvalidStatus
     else if \<not> may_fulfill po then failW ErrInvalidStatus
     else if \<not> isSupportedPaymentOrderType (po_type po) then failW (ErrInvalid ''INVALID_ORDER_TYPE'')
     else bindW (writeAuditLog i ''RECHARGE_RETRY'' ''admin'') (\<lambda>_. executeFulfillment E cached now i))"

section \<open>Notifications\<close>

definition payable :: "int \<Rightarrow> PaymentOrder \<Rightarrow> bool" where
  "payable now po \<longleftrightarrow> po_status po = OrderStatusPending \<or> po_status po = OrderStatusCancelled \<or>
     po_status po = OrderStatusExpired \<and> po_updated_at po \<ge> now - paymentGrace"

definition alreadyProcessed :: "'s redeem_env \<Rightarrow> bool \<Rightarrow> (nat \<Rightarrow> int) \<Rightarrow> id \<Rightarrow> ('s shop, unit) prog" where
  "alreadyProcessed E cached now i =
     bindW (catchW (sql (get_order i))) (\<lambda>r. case r of
        Inl _ \<Rightarrow> returnW ()
      | Inr cur \<Rightarrow>
          if po_status cur = OrderStatusCompleted \<or> po_status cur = OrderStatusRefunded then returnW ()
          else if may_fulfill cur then executeFulfillment E cached now i
          else if po_status cur = OrderStatusExpired then writeAuditLog i ''PAYMENT_AFTER_EXPIRY'' ''system''
          else returnW ())"

text \<open>\<open>now 10\<close> stamps the payment.\<close>

definition toPaid :: "'s redeem_env \<Rightarrow> bool \<Rightarrow> (nat \<Rightarrow> int) \<Rightarrow> PaymentOrder \<Rightarrow> go_text \<Rightarrow> rat \<Rightarrow> string \<Rightarrow> ('s shop, unit) prog" where
  "toPaid E cached now po tradeNo paid pk =
     bindW (sql (update_orders (\<lambda>p. po_id p = po_id po \<and> payable (now 10) p)
              (\<lambda>p. p\<lparr>po_status := OrderStatusPaid, po_pay := paid, po_trade_no := tradeNo, po_paid_at := Some (now 10),
                     po_failed_at := None\<rparr>) (now 10))) (\<lambda>c.
     if c = 0 then alreadyProcessed E cached now (po_id po)
     else bindW (if po_status po = OrderStatusCancelled \<or> po_status po = OrderStatusExpired
                 then writeAuditLog (po_id po) ''ORDER_RECOVERED'' pk else returnW ()) (\<lambda>_.
          bindW (writeAuditLog (po_id po) ''ORDER_PAID'' pk) (\<lambda>_. executeFulfillment E cached now (po_id po))))"

definition isValidProviderAmount :: "rat option \<Rightarrow> bool" where
  "isValidProviderAmount a \<longleftrightarrow> (case a of None \<Rightarrow> False | Some x \<Rightarrow> x > 0)"

definition confirmPayment ::
    "'s redeem_env \<Rightarrow> bool \<Rightarrow> (nat \<Rightarrow> int) \<Rightarrow> (PaymentOrder \<Rightarrow> provider_check) \<Rightarrow> id \<Rightarrow> notification \<Rightarrow> string \<Rightarrow> ('s shop, unit) prog" where
  "confirmPayment E cached now check i n pk =
     bindW (catchW (sql (get_order i))) (\<lambda>r. case r of
        Inl _ \<Rightarrow> returnW ()
      | Inr po \<Rightarrow>
          if check po = ProviderMismatch
          then bindW (writeAuditLog i ''PAYMENT_PROVIDER_MISMATCH'' pk) (\<lambda>_. failW (ErrInvalid ''provider mismatch''))
          else if check po = MetadataMismatch
          then bindW (writeAuditLog i ''PAYMENT_PROVIDER_METADATA_MISMATCH'' pk) (\<lambda>_. failW (ErrInvalid ''metadata mismatch''))
          else if \<not> isValidProviderAmount (pn_amount n)
          then bindW (writeAuditLog i ''PAYMENT_INVALID_AMOUNT'' pk) (\<lambda>_. failW (ErrInvalid ''invalid paid amount''))
          else if \<bar>the (pn_amount n) - po_pay po\<bar> > paymentAmountToleranceForCurrency (po_currency po)
          then bindW (writeAuditLog i ''PAYMENT_AMOUNT_MISMATCH'' pk) (\<lambda>_. failW (ErrInvalid ''amount mismatch''))
          else toPaid E cached now po (pn_trade_no n) (the (pn_amount n)) pk)"

text \<open>The legacy form of an order id: the prefix and a positive number.\<close>

definition parseLegacyPaymentOrderID :: "go_text \<Rightarrow> id option" where
  "parseLegacyPaymentOrderID raw =
     (let t = trim_space raw; rest = drop (length orderIDPrefix) t
      in if take (length orderIDPrefix) t \<noteq> orderIDPrefix \<or> rest = [] \<or> list_ex (\<lambda>x. x > 127) rest then None
         else (case parse_int (map char_of rest) of Some i \<Rightarrow> if i \<le> 0 then None else Some i | None \<Rightarrow> None))"

definition HandlePaymentNotification ::
    "'s redeem_env \<Rightarrow> bool \<Rightarrow> (nat \<Rightarrow> int) \<Rightarrow> (PaymentOrder \<Rightarrow> provider_check) \<Rightarrow> notification \<Rightarrow> string \<Rightarrow> ('s shop, unit) prog" where
  "HandlePaymentNotification E cached now check n pk =
     (if \<not> pn_success n then returnW ()
      else bindW (catchW (sql (only_order (\<lambda>po. po_out_trade_no po = pn_order n)))) (\<lambda>r. case r of
             Inr po \<Rightarrow> confirmPayment E cached now check (po_id po) n pk
           | Inl e \<Rightarrow>
               if e = ErrNotFound
               then (case parseLegacyPaymentOrderID (pn_order n) of
                       Some i \<Rightarrow> confirmPayment E cached now check i n pk
                     | None \<Rightarrow> failW ErrOrderNotFound)
               else failW e))"

section \<open>Cancellation and expiry\<close>

text \<open>The provider of an order: its reference and its two answers to a query, \<open>None\<close> for an error.\<close>

record provider_answer =
  an_paid :: bool
  an_amount :: "rat option"
  an_trade_no :: go_text

record provider =
  pv_ref :: go_text
  pv_first :: "provider_answer option"
  pv_second :: "provider_answer option"
  pv_key :: string

definition requeryPaidOrderOnce :: "provider \<Rightarrow> provider_answer option" where
  "requeryPaidOrderOnce pv =
     (if trim_space (pv_ref pv) = [] then None
      else (case pv_second pv of
              None \<Rightarrow> None
            | Some a \<Rightarrow> if \<not> an_paid a \<or> \<not> isValidProviderAmount (an_amount a) then None else Some a))"

text \<open>\<open>eqf\<close> is \<open>strings.EqualFold\<close>.\<close>

definition paymentOrderShouldPersistUpstreamTradeNo ::
    "(go_text \<Rightarrow> go_text \<Rightarrow> bool) \<Rightarrow> go_text \<Rightarrow> go_text \<Rightarrow> go_text \<Rightarrow> bool" where
  "paymentOrderShouldPersistUpstreamTradeNo eqf ref upstream current =
     (let u = trim_space upstream
      in u \<noteq> [] \<and> \<not> eqf u (trim_space current) \<and> \<not> eqf u (trim_space ref))"

definition handle_paid ::
    "'s redeem_env \<Rightarrow> bool \<Rightarrow> (nat \<Rightarrow> int) \<Rightarrow> (PaymentOrder \<Rightarrow> provider_check) \<Rightarrow> (go_text \<Rightarrow> go_text \<Rightarrow> bool) \<Rightarrow>
     provider \<Rightarrow> PaymentOrder \<Rightarrow> provider_answer \<Rightarrow> ('s shop, bool) prog" where
  "handle_paid E cached now check eqf pv po a =
     (let persist = paymentOrderShouldPersistUpstreamTradeNo eqf (pv_ref pv) (an_trade_no a) (po_trade_no po);
          tradeNo = (if persist then trim_space (an_trade_no a) else po_trade_no po)
      in bindW (if persist then tryW (sql (update_orders (\<lambda>p. po_id p = po_id po) (\<lambda>p. p\<lparr>po_trade_no := tradeNo\<rparr>) (now 11)))
                else returnW ()) (\<lambda>_.
         bindW (tryW (HandlePaymentNotification E cached now check
           \<lparr>pn_trade_no = tradeNo, pn_order = po_out_trade_no po, pn_amount = an_amount a, pn_success = True\<rparr> (pv_key pv))) (\<lambda>_.
         returnW True)))"

text \<open>True when the order turned out paid.  \<open>pv\<close> is \<open>None\<close> when no provider could be made.\<close>

definition checkPaidWithOptions ::
    "'s redeem_env \<Rightarrow> bool \<Rightarrow> (nat \<Rightarrow> int) \<Rightarrow> (PaymentOrder \<Rightarrow> provider_check) \<Rightarrow> (go_text \<Rightarrow> go_text \<Rightarrow> bool) \<Rightarrow>
     provider option \<Rightarrow> PaymentOrder \<Rightarrow> ('s shop, bool) prog" where
  "checkPaidWithOptions E cached now check eqf prov po =
     (case prov of None \<Rightarrow> returnW False | Some pv \<Rightarrow>
      if pv_ref pv = [] then returnW False
      else (case pv_first pv of None \<Rightarrow> returnW False | Some a \<Rightarrow>
        if \<not> an_paid a then returnW False
        else if isValidProviderAmount (an_amount a) then handle_paid E cached now check eqf pv po a
        else bindW (writeAuditLog (po_id po) ''PAYMENT_INVALID_AMOUNT'' (pv_key pv)) (\<lambda>_.
             case requeryPaidOrderOnce pv of None \<Rightarrow> returnW False | Some a' \<Rightarrow> handle_paid E cached now check eqf pv po a')))"

datatype cancel_outcome = AlreadyPaid | CancelDone

definition cancelCore ::
    "'s redeem_env \<Rightarrow> bool \<Rightarrow> (nat \<Rightarrow> int) \<Rightarrow> (PaymentOrder \<Rightarrow> provider_check) \<Rightarrow> (go_text \<Rightarrow> go_text \<Rightarrow> bool) \<Rightarrow>
     provider option \<Rightarrow> PaymentOrder \<Rightarrow> string \<Rightarrow> string \<Rightarrow> ('s shop, cancel_outcome) prog" where
  "cancelCore E cached now check eqf prov po status op =
     bindW (if po_trade_no po \<noteq> [] \<or> po_payment_type po \<noteq> [] then checkPaidWithOptions E cached now check eqf prov po else returnW False) (\<lambda>paid.
     if paid then returnW AlreadyPaid
     else bindW (sql (update_orders (\<lambda>p. po_id p = po_id po \<and> po_status p = OrderStatusPending) (\<lambda>p. p\<lparr>po_status := status\<rparr>) (now 12))) (\<lambda>c.
          bindW (if c > 0 then writeAuditLog (po_id po) (if status = OrderStatusExpired then ''ORDER_EXPIRED'' else ''ORDER_CANCELLED'') op
                 else returnW ()) (\<lambda>_. returnW CancelDone)))"

definition CancelOrder ::
    "'s redeem_env \<Rightarrow> bool \<Rightarrow> (nat \<Rightarrow> int) \<Rightarrow> (PaymentOrder \<Rightarrow> provider_check) \<Rightarrow> (go_text \<Rightarrow> go_text \<Rightarrow> bool) \<Rightarrow>
     provider option \<Rightarrow> id \<Rightarrow> id \<Rightarrow> ('s shop, cancel_outcome) prog" where
  "CancelOrder E cached now check eqf prov i u =
     bindW (sql (get_order i)) (\<lambda>po.
     if po_user po \<noteq> u then failW (ErrInvalid ''FORBIDDEN'')
     else if po_status po \<noteq> OrderStatusPending then failW ErrInvalidStatus
     else cancelCore E cached now check eqf prov po OrderStatusCancelled (''user:'' @ format_int u))"

definition AdminCancelOrder ::
    "'s redeem_env \<Rightarrow> bool \<Rightarrow> (nat \<Rightarrow> int) \<Rightarrow> (PaymentOrder \<Rightarrow> provider_check) \<Rightarrow> (go_text \<Rightarrow> go_text \<Rightarrow> bool) \<Rightarrow>
     provider option \<Rightarrow> id \<Rightarrow> ('s shop, cancel_outcome) prog" where
  "AdminCancelOrder E cached now check eqf prov i =
     bindW (sql (get_order i)) (\<lambda>po.
     if po_status po \<noteq> OrderStatusPending then failW ErrInvalidStatus
     else cancelCore E cached now check eqf prov po OrderStatusCancelled ''admin'')"

text \<open>The orders one after the other; \<open>prov k\<close> and \<open>now k\<close> are those of the \<open>k\<close>-th order.\<close>

fun expire_loop ::
    "'s redeem_env \<Rightarrow> bool \<Rightarrow> (nat \<Rightarrow> nat \<Rightarrow> int) \<Rightarrow> (PaymentOrder \<Rightarrow> provider_check) \<Rightarrow> (go_text \<Rightarrow> go_text \<Rightarrow> bool) \<Rightarrow>
     (nat \<Rightarrow> provider option) \<Rightarrow> nat \<Rightarrow> PaymentOrder list \<Rightarrow> nat \<Rightarrow> ('s shop, nat) prog" where
  "expire_loop E cached now check eqf prov k [] n = returnW n"
| "expire_loop E cached now check eqf prov k (po # os) n =
     bindW (catchW (cancelCore E cached (now k) check eqf (prov k) po OrderStatusExpired ''system'')) (\<lambda>r.
     expire_loop E cached now check eqf prov (Suc k) os (if r = Inr CancelDone then Suc n else n))"

definition ExpireTimedOutOrders ::
    "'s redeem_env \<Rightarrow> bool \<Rightarrow> int \<Rightarrow> (nat \<Rightarrow> nat \<Rightarrow> int) \<Rightarrow> (PaymentOrder \<Rightarrow> provider_check) \<Rightarrow> (go_text \<Rightarrow> go_text \<Rightarrow> bool) \<Rightarrow>
     (nat \<Rightarrow> provider option) \<Rightarrow> ('s shop, nat) prog" where
  "ExpireTimedOutOrders E cached t now check eqf prov =
     bindW (query (\<lambda>s. filter (\<lambda>po. po_status po = OrderStatusPending \<and> po_expires_at po \<le> t) (sh_orders s)))
       (\<lambda>os. expire_loop E cached now check eqf prov 0 os 0)"

end
