(* ===== verification/Payment_Refund.thy ===== *)
theory Payment_Refund
  imports Payment_Orders
begin

text \<open>
  Refunds (\<open>service/payment_refund.go\<close>): the request of a user, the plan of an administrator,
  its execution with the deduction before the call of the gateway, and the convergence of a
  pending refund.

  The provider instance of an order and the answers of the gateway are arguments.
\<close>

section \<open>Plans\<close>

definition DeductionTypeBalance :: string where "DeductionTypeBalance = ''balance''"
definition DeductionTypeSubscription :: string where "DeductionTypeSubscription = ''subscription''"
definition DeductionTypeNone :: string where "DeductionTypeNone = ''none''"

lemmas deduction_defs = DeductionTypeBalance_def DeductionTypeSubscription_def DeductionTypeNone_def

record RefundPlan =
  rp_order :: PaymentOrder
  rp_amount :: rat
  rp_gateway :: rat
  rp_reason :: go_text
  rp_force :: bool
  rp_type :: string
  rp_balance :: rat
  rp_days :: int
  rp_sub :: id
  rp_held :: bool

record RefundResult =
  rr_success :: bool
  rr_require_force :: bool
  rr_balance :: rat
  rr_days :: int

definition unsuccessful :: RefundResult where
  "unsuccessful = \<lparr>rr_success = False, rr_require_force = False, rr_balance = 0, rr_days = 0\<rparr>"

definition force_required :: RefundResult where
  "force_required = \<lparr>rr_success = False, rr_require_force = True, rr_balance = 0, rr_days = 0\<rparr>"

text \<open>The look-up of the provider instance: an error, none, or whether users and administrators may refund.\<close>

datatype instance_lookup = InstanceError | NoInstance | Instance (AllowUserRefund: bool) (RefundEnabled: bool)

text \<open>The gateway: an error without a pending answer, or a status with the id of the refund.\<close>

datatype refund_reply = GatewayError | GatewayReply string go_text

definition calculateGatewayRefundAmount :: "rat \<Rightarrow> rat \<Rightarrow> rat \<Rightarrow> string \<Rightarrow> rat" where
  "calculateGatewayRefundAmount orderAmount payAmount refundAmount currency =
     (if orderAmount \<le> 0 \<or> payAmount \<le> 0 \<or> refundAmount \<le> 0 then 0
      else if \<bar>refundAmount - orderAmount\<bar> \<le> paymentAmountToleranceForCurrency currency
      then nround (CurrencyMaxFractionDigits currency) payAmount
      else nround (CurrencyMaxFractionDigits currency) (payAmount * refundAmount / orderAmount))"

definition default_reason :: "id \<Rightarrow> go_text" where
  "default_reason i = text_of (''refund order:'' @ format_int i)"

section \<open>Subscription methods on the shop\<close>

definition shopExtendSubscription :: "calendar \<Rightarrow> int \<Rightarrow> id \<Rightarrow> int \<Rightarrow> ('s shop, UserSubscription) prog" where
  "shopExtendSubscription cal now i days =
     bindW (in_tx (on_subs (bindA (lock_for_adjust i) (adjust_term cal now days)))) (\<lambda>_. sql (on_subs (GetByID i)))"

definition shopRevokeSubscription :: "bool \<Rightarrow> int \<Rightarrow> id \<Rightarrow> ('s shop, unit) prog" where
  "shopRevokeSubscription cached now i =
     bindW (sql (on_subs (GetByID i))) (\<lambda>_. bindW (sql (on_subs (DeleteSub now i))) (\<lambda>_. invalidateSubscriptionCaches cached))"

section \<open>The request of a user\<close>

definition RequestRefund :: "(PaymentOrder \<Rightarrow> instance_lookup) \<Rightarrow> int \<Rightarrow> id \<Rightarrow> id \<Rightarrow> go_text \<Rightarrow> ('s shop, unit) prog" where
  "RequestRefund inst now i u reason =
     bindW (sql (get_order i)) (\<lambda>po.
     if po_user po \<noteq> u then failW (ErrInvalid ''FORBIDDEN'')
     else if po_type po \<noteq> OrderTypeBalance then failW (ErrInvalid ''INVALID_ORDER_TYPE'')
     else if po_status po \<noteq> OrderStatusCompleted then failW ErrInvalidStatus
     else if (case inst po of Instance allow _ \<Rightarrow> \<not> allow | _ \<Rightarrow> True) then failW (ErrInvalid ''USER_REFUND_DISABLED'')
     else bindW (sql (GetUserByID (po_user po))) (\<lambda>a.
          if ac_balance a < po_amount po then failW (ErrInvalid ''BALANCE_NOT_ENOUGH'')
          else bindW (sql (update_orders
                 (\<lambda>p. po_id p = i \<and> po_user p = u \<and> po_status p = OrderStatusCompleted \<and> po_type p = OrderTypeBalance)
                 (\<lambda>p. p\<lparr>po_status := OrderStatusRefundRequested, po_refund_request_reason := Some (trim_space reason),
                        po_refund_amount := po_amount po\<rparr>) now)) (\<lambda>c.
               if c = 0 then failW ErrConflict else writeAuditLog i ''REFUND_REQUESTED'' (''user:'' @ format_int u))))"

section \<open>The plan\<close>

text \<open>\<open>l1\<close>: the answer of the subscription cache.  The second component is an early result.\<close>

definition prepDeduct ::
    "UserSubscription option \<Rightarrow> int \<Rightarrow> PaymentOrder \<Rightarrow> RefundPlan \<Rightarrow> bool \<Rightarrow> ('s shop, RefundPlan \<times> RefundResult option) prog" where
  "prepDeduct l1 now po p force =
     (if po_type po = OrderTypeSubscription
      then (let p = p\<lparr>rp_type := DeductionTypeSubscription\<rparr>
            in case (po_group po, po_days po) of
                 (Some g, Some d) \<Rightarrow>
                   bindW (case l1 of Some s \<Rightarrow> returnW (Inr s)
                          | None \<Rightarrow> catchW (sql (on_subs (GetActiveByUserIDAndGroupID now (po_user po) g)))) (\<lambda>r. case r of
                     Inr s \<Rightarrow> returnW (p\<lparr>rp_days := d, rp_sub := us_id s\<rparr>, None)
                   | Inl _ \<Rightarrow> returnW (p\<lparr>rp_days := d\<rparr>, if force then None else Some force_required))
               | _ \<Rightarrow> returnW (p, None))
      else bindW (catchW (sql (GetUserByID (po_user po)))) (\<lambda>r. case r of
             Inl _ \<Rightarrow> returnW (p, if force then None else Some force_required)
           | Inr a \<Rightarrow>
               (let p = p\<lparr>rp_type := DeductionTypeBalance\<rparr>
                in if ac_balance a < rp_amount p \<and> \<not> force then returnW (p, Some force_required)
                   else returnW (p\<lparr>rp_balance := max 0 (min (rp_amount p) (ac_balance a))\<rparr>, None))))"

definition PrepareRefund ::
    "(PaymentOrder \<Rightarrow> instance_lookup) \<Rightarrow> UserSubscription option \<Rightarrow> int \<Rightarrow> id \<Rightarrow> rat option \<Rightarrow> go_text \<Rightarrow> bool \<Rightarrow> bool \<Rightarrow>
     ('s shop, RefundPlan + RefundResult) prog" where
  "PrepareRefund inst l1 now i amt reason force deduct =
     bindW (sql (get_order i)) (\<lambda>po.
     if po_status po \<notin> {OrderStatusCompleted, OrderStatusRefundRequested, OrderStatusRefundFailed} then failW ErrInvalidStatus
     else (case inst po of
             InstanceError \<Rightarrow> failW (ErrInvalid ''PROVIDER_LOOKUP_FAILED'')
           | NoInstance \<Rightarrow> failW (ErrInvalid ''REFUND_DISABLED'')
           | Instance _ enabled \<Rightarrow>
               if \<not> enabled then failW (ErrInvalid ''REFUND_DISABLED'')
               else (case amt of
                       None \<Rightarrow> failW (ErrInvalid ''INVALID_AMOUNT'')
                     | Some a \<Rightarrow>
                         (let a = (if a \<le> 0 then po_amount po else a)
                          in if a - po_amount po > paymentAmountToleranceForCurrency (po_currency po)
                             then failW (ErrInvalid ''REFUND_AMOUNT_EXCEEDED'')
                             else (let rr = trim_space reason;
                                       rr = (if rr = [] then (case po_refund_request_reason po of Some x \<Rightarrow> x | None \<Rightarrow> []) else rr);
                                       rr = (if rr = [] then default_reason i else rr);
                                       p = \<lparr>rp_order = po, rp_amount = a,
                                            rp_gateway = calculateGatewayRefundAmount (po_amount po) (po_pay po) a (po_currency po),
                                            rp_reason = rr, rp_force = force, rp_type = DeductionTypeNone, rp_balance = 0,
                                            rp_days = 0, rp_sub = 0, rp_held = False\<rparr>
                                   in if deduct
                                      then bindW (prepDeduct l1 now po p force) (\<lambda>(p, early).
                                           returnW (case early of Some er \<Rightarrow> Inr er | None \<Rightarrow> Inl p))
                                      else returnW (Inl p))))))"

section \<open>Execution\<close>

text \<open>The restored status; an error is dropped.\<close>

definition restoreStatus :: "int \<Rightarrow> RefundPlan \<Rightarrow> ('s shop, unit) prog" where
  "restoreStatus now p = tryW (sql (update_order (po_id (rp_order p))
     (\<lambda>q. q\<lparr>po_status := (if po_status (rp_order p) = OrderStatusRefundRequested then OrderStatusRefundRequested
                          else OrderStatusCompleted)\<rparr>) now))"

definition abort_refund :: "int \<Rightarrow> RefundPlan \<Rightarrow> err \<Rightarrow> ('s shop, 'a) prog" where
  "abort_refund now p e = bindW (restoreStatus now p) (\<lambda>_. failW e)"

text \<open>
  The deductions.  One that an earlier attempt made and could not give back is not made again.
\<close>

definition deduct_balance :: "(nat \<Rightarrow> int) \<Rightarrow> RefundPlan \<Rightarrow> ('s shop, RefundPlan) prog" where
  "deduct_balance now p =
     (if rp_type p = DeductionTypeBalance \<and> rp_balance p > 0
      then bindW (hasAuditLog (po_id (rp_order p)) ''REFUND_ROLLBACK_FAILED'') (\<lambda>failed.
           if failed then returnW (p\<lparr>rp_balance := 0\<rparr>)
           else bindW (catchW (sql (DeductAvailableBalance (po_user (rp_order p)) (rp_balance p)))) (\<lambda>r. case r of
                  Inl e \<Rightarrow> abort_refund (now 1) p e
                | Inr d \<Rightarrow> returnW (p\<lparr>rp_balance := d\<rparr>)))
      else returnW p)"

definition deduct_days :: "calendar \<Rightarrow> bool \<Rightarrow> (nat \<Rightarrow> int) \<Rightarrow> RefundPlan \<Rightarrow> ('s shop, RefundPlan) prog" where
  "deduct_days cal cached now p =
     (if rp_type p = DeductionTypeSubscription \<and> rp_days p > 0 \<and> rp_sub p > 0
      then bindW (hasAuditLog (po_id (rp_order p)) ''REFUND_ROLLBACK_FAILED'') (\<lambda>failed.
           if failed then returnW (p\<lparr>rp_days := 0\<rparr>)
           else bindW (catchW (shopExtendSubscription cal (now 2) (rp_sub p) (- rp_days p))) (\<lambda>r. case r of
                  Inr _ \<Rightarrow> returnW p
                | Inl e \<Rightarrow>
                    if e = ErrAdjustWouldExpire
                    then bindW (catchW (shopRevokeSubscription cached (now 3) (rp_sub p))) (\<lambda>r. case r of
                           Inr _ \<Rightarrow> returnW p | Inl e \<Rightarrow> abort_refund (now 4) p e)
                    else abort_refund (now 4) p e))
      else returnW p)"

definition refund_accepted :: "string \<Rightarrow> bool" where
  "refund_accepted status \<longleftrightarrow> status \<in> {''success'', ''refunded'', ''pending''}"

text \<open>\<open>prov\<close>: whether the provider could be made and its identity matches the order.\<close>

definition gwRefund :: "bool \<Rightarrow> refund_reply \<Rightarrow> RefundPlan \<Rightarrow> ('s shop, (string \<times> go_text) option) prog" where
  "gwRefund prov reply p =
     (if po_trade_no (rp_order p) = []
      then bindW (writeAuditLog (po_id (rp_order p)) ''REFUND_NO_TRADE_NO'' ''admin'') (\<lambda>_. returnW (Some (''success'', [])))
      else if \<not> prov then returnW None
      else (case reply of
              GatewayError \<Rightarrow> returnW None
            | GatewayReply status rid \<Rightarrow> returnW (if refund_accepted status then Some (status, rid) else None)))"

text \<open>\<open>True\<close>: the deductions were given back.\<close>

definition RollbackRefund :: "calendar \<Rightarrow> (nat \<Rightarrow> int) \<Rightarrow> RefundPlan \<Rightarrow> ('s shop, bool) prog" where
  "RollbackRefund cal now p =
     (let i = po_id (rp_order p); failed = bindW (writeAuditLog i ''REFUND_ROLLBACK_FAILED'' ''admin'') (\<lambda>_. returnW False)
      in bindW (if rp_type p = DeductionTypeBalance \<and> rp_balance p > 0
                then catchW (sql (UpdateBalance (po_user (rp_order p)) (rp_balance p))) else returnW (Inr ())) (\<lambda>r. case r of
           Inl _ \<Rightarrow> failed
         | Inr _ \<Rightarrow>
             bindW (if rp_type p = DeductionTypeSubscription \<and> rp_days p > 0 \<and> rp_sub p > 0
                    then bindW (catchW (shopExtendSubscription cal (now 5) (rp_sub p) (rp_days p))) (\<lambda>r.
                         returnW (case r of Inl _ \<Rightarrow> False | Inr _ \<Rightarrow> True))
                    else returnW True) (\<lambda>ok. if ok then returnW True else failed)))"

definition handleGwFail :: "calendar \<Rightarrow> (nat \<Rightarrow> int) \<Rightarrow> RefundPlan \<Rightarrow> ('s shop, RefundResult) prog" where
  "handleGwFail cal now p =
     (let i = po_id (rp_order p)
      in bindW (RollbackRefund cal now p) (\<lambda>ok.
         if ok
         then bindW (restoreStatus (now 6) p) (\<lambda>_. bindW (writeAuditLog i ''REFUND_GATEWAY_FAILED'' ''admin'') (\<lambda>_.
              returnW unsuccessful))
         else bindW (tryW (sql (update_order i (\<lambda>q. q\<lparr>po_status := OrderStatusRefundFailed, po_failed_at := Some (now 6)\<rparr>) (now 6)))) (\<lambda>_.
              bindW (writeAuditLog i ''REFUND_FAILED'' ''admin'') (\<lambda>_. failW (ErrInvalid ''REFUND_FAILED'')))))"

definition refunded_order :: "int \<Rightarrow> RefundPlan \<Rightarrow> PaymentOrder \<Rightarrow> PaymentOrder" where
  "refunded_order now p q = q\<lparr>
     po_status := (if rp_amount p < po_amount (rp_order p) then OrderStatusPartiallyRefunded else OrderStatusRefunded),
     po_refund_amount := rp_amount p, po_refund_reason := rp_reason p, po_refund_at := Some now, po_force := rp_force p\<rparr>"

definition refund_done :: "RefundPlan \<Rightarrow> RefundResult" where
  "refund_done p = \<lparr>rr_success = True, rr_require_force = False, rr_balance = rp_balance p, rr_days = rp_days p\<rparr>"

definition markRefundOk :: "int \<Rightarrow> RefundPlan \<Rightarrow> ('s shop, RefundResult) prog" where
  "markRefundOk now p =
     bindW (sql (update_order (po_id (rp_order p)) (refunded_order now p) now)) (\<lambda>_.
     bindW (writeAuditLog (po_id (rp_order p)) ''REFUND_SUCCESS'' ''admin'') (\<lambda>_. returnW (refund_done p)))"

definition pending_order :: "RefundPlan \<Rightarrow> PaymentOrder \<Rightarrow> PaymentOrder" where
  "pending_order p q = q\<lparr>po_status := OrderStatusRefundPending, po_refund_amount := rp_amount p, po_refund_reason := rp_reason p,
     po_refund_at := None, po_force := rp_force p, po_failed_at := None\<rparr>"

definition pending_tx :: "int \<Rightarrow> RefundPlan \<Rightarrow> go_text \<Rightarrow> ('s shop, unit) stx" where
  "pending_tx now p rid =
     bindA (update_order (po_id (rp_order p)) (pending_order p) now) (\<lambda>_.
     insert_audit (po_id (rp_order p)) ''REFUND_PENDING'' ''admin''
       (Some \<lparr>pd_refund_id = trim_space rid, pd_held = True, pd_rollback_ok = True, pd_type = rp_type p,
              pd_balance = rp_balance p, pd_days = rp_days p, pd_subscription = rp_sub p\<rparr>))"

definition markRefundPending :: "int \<Rightarrow> RefundPlan \<Rightarrow> go_text \<Rightarrow> ('s shop, RefundResult) prog" where
  "markRefundPending now p rid = bindW (in_tx (pending_tx now p rid)) (\<lambda>_. returnW unsuccessful)"

definition finishRefund :: "(nat \<Rightarrow> int) \<Rightarrow> RefundPlan \<Rightarrow> string \<times> go_text \<Rightarrow> ('s shop, RefundResult) prog" where
  "finishRefund now p r =
     (if fst r = ''pending'' then markRefundPending (now 6) p (snd r) else markRefundOk (now 6) p)"

definition ExecuteRefund ::
    "calendar \<Rightarrow> bool \<Rightarrow> (nat \<Rightarrow> int) \<Rightarrow> bool \<Rightarrow> refund_reply \<Rightarrow> RefundPlan \<Rightarrow> ('s shop, RefundResult) prog" where
  "ExecuteRefund cal cached now prov reply p =
     bindW (sql (update_orders
       (\<lambda>q. po_id q = po_id (rp_order p) \<and> po_status q \<in> {OrderStatusCompleted, OrderStatusRefundRequested, OrderStatusRefundFailed})
       (\<lambda>q. q\<lparr>po_status := OrderStatusRefunding\<rparr>) (now 0))) (\<lambda>c.
     if c = 0 then failW ErrConflict
     else bindW (deduct_balance now p) (\<lambda>p. bindW (deduct_days cal cached now p) (\<lambda>p.
          bindW (gwRefund prov reply p) (\<lambda>resp. case resp of
             None \<Rightarrow> handleGwFail cal now p
           | Some r \<Rightarrow> finishRefund now p r))))"

section \<open>Pending refunds\<close>

definition refundFinalizePlan :: "PaymentOrder \<Rightarrow> RefundPlan" where
  "refundFinalizePlan po =
     \<lparr>rp_order = po, rp_amount = po_refund_amount po,
      rp_gateway = calculateGatewayRefundAmount (po_amount po) (po_pay po) (po_refund_amount po) (po_currency po),
      rp_reason = (if trim_space (po_refund_reason po) = [] then default_reason (po_id po) else trim_space (po_refund_reason po)),
      rp_force = po_force po, rp_type = DeductionTypeBalance,
      rp_balance = (if po_type po = OrderTypeBalance then po_refund_amount po else 0), rp_days = 0, rp_sub = 0, rp_held = False\<rparr>"

definition applyTo :: "refundPendingAuditDetail \<Rightarrow> RefundPlan \<Rightarrow> RefundPlan" where
  "applyTo d p = p\<lparr>rp_held := True, rp_type := (if pd_type d = [] then DeductionTypeNone else pd_type d),
     rp_balance := pd_balance d, rp_days := pd_days d, rp_sub := pd_subscription d\<rparr>"

text \<open>The last row; an order without one counts as an old one.\<close>

definition latestRefundPendingDetail :: "id \<Rightarrow> ('s shop, refundPendingAuditDetail) stx" where
  "latestRefundPendingDetail i s =
     (case rev (filter (\<lambda>a. au_order a = i \<and> au_action a = ''REFUND_PENDING'') (sh_audit s)) of
        [] \<Rightarrow> (Inr \<lparr>pd_refund_id = [], pd_held = False, pd_rollback_ok = True, pd_type = [], pd_balance = 0, pd_days = 0,
                    pd_subscription = 0\<rparr>, s)
      | a # _ \<Rightarrow> (case au_detail a of None \<Rightarrow> (Inl (ErrInvalid ''parse refund pending audit''), s) | Some d \<Rightarrow> (Inr d, s)))"

definition applyRefundFinalDeduction :: "calendar \<Rightarrow> (nat \<Rightarrow> int) \<Rightarrow> RefundPlan \<Rightarrow> ('s shop, RefundPlan) stx" where
  "applyRefundFinalDeduction cal now p =
     (if rp_held p then returnA p
      else bindA (if rp_type p = DeductionTypeBalance \<and> rp_balance p > 0
                  then bindA (DeductAvailableBalance (po_user (rp_order p)) (rp_balance p)) (\<lambda>d. returnA (p\<lparr>rp_balance := d\<rparr>))
                  else returnA p) (\<lambda>p.
           bindA (if rp_type p = DeductionTypeSubscription \<and> rp_days p > 0 \<and> rp_sub p > 0
                  then (\<lambda>s. case on_subs (extend_in_tx cal (now 2) (rp_sub p) (- rp_days p)) s of
                          (Inl e, s') \<Rightarrow> if e = ErrAdjustWouldExpire then on_subs (revoke_in_tx (now 3) (rp_sub p)) s' else (Inl e, s')
                        | (Inr _, s') \<Rightarrow> (Inr (), s'))
                  else returnA ()) (\<lambda>_. returnA p)))"

text \<open>Only a pending refund can be claimed, to the given status.\<close>

definition claim_pending :: "id \<Rightarrow> (PaymentOrder \<Rightarrow> PaymentOrder) \<Rightarrow> int \<Rightarrow> ('s shop, unit) stx" where
  "claim_pending i f now =
     bindA (update_orders (\<lambda>q. po_id q = i \<and> po_status q = OrderStatusRefundPending) f now)
       (\<lambda>claimed. if claimed = 0 then failA ErrConflict else returnA ())"

definition success_tx :: "calendar \<Rightarrow> (nat \<Rightarrow> int) \<Rightarrow> RefundPlan \<Rightarrow> ('s shop, RefundResult) stx" where
  "success_tx cal now p =
     bindA (claim_pending (po_id (rp_order p)) (\<lambda>q. q\<lparr>po_status := OrderStatusRefunding\<rparr>) (now 1)) (\<lambda>_.
     bindA (applyRefundFinalDeduction cal now p) (\<lambda>p.
     bindA (update_order (po_id (rp_order p)) (refunded_order (now 4) p) (now 4)) (\<lambda>_.
     bindA (insert_audit (po_id (rp_order p)) ''REFUND_SUCCESS'' ''admin'' None) (\<lambda>_. returnA (refund_done p)))))"

definition returnHeldRefundDeduction :: "calendar \<Rightarrow> (nat \<Rightarrow> int) \<Rightarrow> RefundPlan \<Rightarrow> ('s shop, unit) stx" where
  "returnHeldRefundDeduction cal now p =
     bindA (if rp_type p = DeductionTypeBalance \<and> rp_balance p > 0
            then UpdateBalance (po_user (rp_order p)) (rp_balance p) else returnA ()) (\<lambda>_.
     if rp_type p = DeductionTypeSubscription \<and> rp_days p > 0 \<and> rp_sub p > 0
     then bindA (on_subs (extend_in_tx cal (now 2) (rp_sub p) (rp_days p))) (\<lambda>_. returnA ()) else returnA ())"

text \<open>
  One transaction: \<open>Inr (Some e)\<close> is a deduction that could not be given back (rolled back),
  \<open>Inr None\<close> the committed failure.  With \<open>rollbackErr\<close> the deduction is not given back.
\<close>

definition finalize_failed_tx :: "calendar \<Rightarrow> (nat \<Rightarrow> int) \<Rightarrow> RefundPlan \<Rightarrow> bool \<Rightarrow> ('s shop, err option) stx" where
  "finalize_failed_tx cal now p rollbackErr s =
     (let i = po_id (rp_order p)
      in bindA (claim_pending i (\<lambda>q. q\<lparr>po_status := OrderStatusRefundFailed, po_failed_at := Some (now 1)\<rparr>) (now 1)) (\<lambda>_ s1.
         case (if rp_held p \<and> \<not> rollbackErr then returnHeldRefundDeduction cal now p s1 else (Inr (), s1)) of
           (Inl e, _) \<Rightarrow> (Inr (Some e), s)
         | (Inr _, s2) \<Rightarrow>
             bindA (whenA rollbackErr (insert_audit i ''REFUND_ROLLBACK_FAILED'' ''admin'' None)) (\<lambda>_.
             bindA (insert_audit i ''REFUND_FAILED'' ''admin'' None) (\<lambda>_. returnA None)) s2) s)"

definition finalizeRefundFailed :: "calendar \<Rightarrow> (nat \<Rightarrow> int) \<Rightarrow> RefundPlan \<Rightarrow> ('s shop, RefundResult) prog" where
  "finalizeRefundFailed cal now p =
     bindW (in_tx (finalize_failed_tx cal now p False)) (\<lambda>returnErr.
     if returnErr = None then returnW unsuccessful
     else bindW (in_tx (finalize_failed_tx cal (\<lambda>k. now (k + 5)) p True)) (\<lambda>_. returnW unsuccessful))"

text \<open>\<open>queryable\<close>: the provider can be made and supports queries.  The error of a query is \<open>GatewayError\<close>.\<close>

definition QueryAndFinalizeRefund ::
    "calendar \<Rightarrow> UserSubscription option \<Rightarrow> bool \<Rightarrow> (nat \<Rightarrow> int) \<Rightarrow> refund_reply \<Rightarrow> id \<Rightarrow> ('s shop, RefundResult) prog" where
  "QueryAndFinalizeRefund cal l1 queryable now reply i =
     bindW (sql (get_order i)) (\<lambda>po.
     if po_status po \<noteq> OrderStatusRefundPending then failW ErrInvalidStatus
     else if \<not> queryable then failW (ErrInvalid ''REFUND_QUERY_UNSUPPORTED'')
     else bindW (sql (latestRefundPendingDetail i)) (\<lambda>d.
          case reply of
            GatewayError \<Rightarrow> failW (ErrInvalid ''query refund'')
          | GatewayReply status rid \<Rightarrow>
              bindW (if pd_held d then returnW (applyTo d (refundFinalizePlan po), None)
                     else if \<not> pd_rollback_ok d then returnW ((refundFinalizePlan po)\<lparr>rp_balance := 0, rp_days := 0\<rparr>, None)
                     else if po_type po = OrderTypeSubscription then prepDeduct l1 (now 0) po (refundFinalizePlan po) True
                     else returnW (refundFinalizePlan po, None)) (\<lambda>(p, early).
              case early of Some er \<Rightarrow> returnW er | None \<Rightarrow>
                if \<not> refund_accepted status then finalizeRefundFailed cal now p
                else if status = ''pending'' then bindW (writeAuditLog i ''REFUND_QUERY_PENDING'' ''admin'') (\<lambda>_. returnW unsuccessful)
                else in_tx (success_tx cal now p))))"

end
