(* ===== verification/Shop_Relation.thy ===== *)
theory Shop_Relation
  imports Rely Payment_Refund
begin

text \<open>
  What every client of the shop may rely on, and guarantees: a redeem code keeps its identity
  and stays used, an order that reached its end stays there and has its code used by its
  user, or its subscription on record, and (as \<open>books\<close> says) a user's recharged total moves with the codes and transfers
  that were granted.  The statements of the repositories satisfy it.
\<close>

section \<open>The relation\<close>

definition code_core :: "RedeemCode \<Rightarrow> id \<times> go_text \<times> string \<times> rat" where
  "code_core c = (rc_id c, rc_code c, rc_type c, rc_value c)"

definition codes_wf :: "'s shop \<Rightarrow> bool" where
  "codes_wf s \<longleftrightarrow> distinct (map rc_id (sh_codes s)) \<and> distinct (map rc_code (sh_codes s)) \<and>
     (\<forall>c\<in>set (sh_codes s). rc_id c < sh_next_code s)"

definition codes_kept :: "'s shop \<Rightarrow> 's shop \<Rightarrow> bool" where
  "codes_kept s s' \<longleftrightarrow> (\<forall>c\<in>set (sh_codes s). \<exists>c'\<in>set (sh_codes s'). code_core c' = code_core c \<and> (IsUsed c \<longrightarrow> c' = c))"

text \<open>What a user was granted: the positive balance codes that the user used, and the transfers.\<close>

definition grants :: "id \<Rightarrow> RedeemCode \<Rightarrow> bool" where
  "grants u c \<longleftrightarrow> rc_type c = RedeemTypeBalance \<and> IsUsed c \<and> rc_used_by c = Some u \<and> rc_value c > 0"

definition redeemed :: "id \<Rightarrow> 's shop \<Rightarrow> rat" where
  "redeemed u s = sum_list (map (\<lambda>c. if grants u c then rc_value c else 0) (sh_codes s))"

definition transfers :: "id \<Rightarrow> 's shop \<Rightarrow> rat" where
  "transfers u s = sum_list (map lg_amount (filter (\<lambda>l. lg_user l = u \<and> lg_action l = ''transfer'') (sh_ledger s)))"

definition granted :: "id \<Rightarrow> 's shop \<Rightarrow> rat" where
  "granted u s = redeemed u s + transfers u s"

text \<open>
  How strict the books are: the recharged total moves exactly with the grants, or
  (\<open>Loose True\<close>) at least as much, because the return of a refused refund counts as a
  recharge, or (\<open>Loose False\<close>) nothing is said of it.
\<close>

datatype books = Exact | Loose bool

definition paid_in :: "books \<Rightarrow> 's shop \<Rightarrow> 's shop \<Rightarrow> bool" where
  "paid_in books s s' \<longleftrightarrow> books = Loose False \<or> (\<forall>u a. sh_users s u = Some a \<longrightarrow>
     (\<exists>a'. sh_users s' u = Some a' \<and> ac_recharged a - granted u s \<le> ac_recharged a' - granted u s' \<and>
       (books = Exact \<longrightarrow> ac_recharged a' - granted u s' = ac_recharged a - granted u s)))"

lemma paid_inI:
  assumes "\<And>u a. sh_users s u = Some a \<Longrightarrow>
     \<exists>a'. sh_users s' u = Some a' \<and> ac_recharged a' - granted u s' = ac_recharged a - granted u s"
  shows "paid_in books s s'"
  unfolding paid_in_def by (metis assms order_refl)

definition order_core :: "PaymentOrder \<Rightarrow> id \<times> id \<times> rat \<times> go_text \<times> string" where
  "order_core po = (po_id po, po_user po, po_amount po, po_code po, po_type po)"

text \<open>The statuses of an order whose goods were handed out.\<close>

definition settled :: "PaymentOrder \<Rightarrow> bool" where
  "settled po \<longleftrightarrow> po_status po = OrderStatusCompleted \<or> psIsRefundStatus (po_status po)"

text \<open>The redeem code of an order, with the tolerance of the code.\<close>

definition pays_for :: "PaymentOrder \<Rightarrow> RedeemCode \<Rightarrow> bool" where
  "pays_for po c \<longleftrightarrow> rc_code c = po_code po \<and> rc_type c = RedeemTypeBalance \<and> \<bar>rc_value c - po_amount po\<bar> \<le> 1 / 10 ^ 8"

definition credited :: "PaymentOrder \<Rightarrow> 's shop \<Rightarrow> bool" where
  "credited po s \<longleftrightarrow> (\<exists>c\<in>set (sh_codes s). pays_for po c \<and> IsUsed c \<and> rc_used_by c = Some (po_user po))"

definition orders_wf :: "'s shop \<Rightarrow> bool" where
  "orders_wf s \<longleftrightarrow> distinct (map po_id (sh_orders s)) \<and> (\<forall>po\<in>set (sh_orders s). trim_space (po_code po) = po_code po)"

definition orders_kept :: "'s shop \<Rightarrow> 's shop \<Rightarrow> bool" where
  "orders_kept s s' \<longleftrightarrow>
     (\<forall>po\<in>set (sh_orders s). \<exists>po'\<in>set (sh_orders s'). order_core po' = order_core po \<and> (settled po \<longrightarrow> settled po'))"

definition assigned :: "id \<Rightarrow> 's shop \<Rightarrow> bool" where
  "assigned i s \<longleftrightarrow> hasPaymentSubscriptionAssignmentAudit i (sh_audit s)"

definition audit_kept :: "'s shop \<Rightarrow> 's shop \<Rightarrow> bool" where
  "audit_kept s s' \<longleftrightarrow> (\<forall>i. assigned i s \<longrightarrow> assigned i s')"

definition delivered :: "PaymentOrder \<Rightarrow> 's shop \<Rightarrow> bool" where
  "delivered po s \<longleftrightarrow> (po_type po = OrderTypeBalance \<longrightarrow> credited po s) \<and> (po_type po = OrderTypeSubscription \<longrightarrow> assigned (po_id po) s)"

definition orders_ok :: "'s shop \<Rightarrow> bool" where
  "orders_ok s \<longleftrightarrow> (\<forall>po\<in>set (sh_orders s). settled po \<longrightarrow> delivered po s)"

definition shop_rel :: "books \<Rightarrow> 's shop \<Rightarrow> 's shop \<Rightarrow> bool" where
  "shop_rel books s s' \<longleftrightarrow>
     (codes_wf s \<longrightarrow> codes_wf s' \<and> codes_kept s s' \<and> audit_kept s s' \<and> paid_in books s s' \<and>
        (orders_wf s \<longrightarrow> orders_wf s' \<and> orders_kept s s' \<and> (orders_ok s \<longrightarrow> orders_ok s')))"

lemma codes_kept_trans: "codes_kept a b \<Longrightarrow> codes_kept b c \<Longrightarrow> codes_kept a c"
  unfolding codes_kept_def by metis

lemma audit_kept_trans: "audit_kept a b \<Longrightarrow> audit_kept b c \<Longrightarrow> audit_kept a c"
  unfolding audit_kept_def by blast

lemma orders_kept_trans: "orders_kept a b \<Longrightarrow> orders_kept b c \<Longrightarrow> orders_kept a c"
  unfolding orders_kept_def by metis

lemma paid_in_trans: "paid_in books a b \<Longrightarrow> paid_in books b c \<Longrightarrow> paid_in books a c"
proof (cases "books = Loose False")
  case False
  assume 1: "paid_in books a b" and 2: "paid_in books b c"
  show ?thesis unfolding paid_in_def
  proof (intro disjI2 allI impI)
    fix u x assume "sh_users a u = Some x"
    then obtain y where y: "sh_users b u = Some y" "ac_recharged x - granted u a \<le> ac_recharged y - granted u b"
      "books = Exact \<longrightarrow> ac_recharged y - granted u b = ac_recharged x - granted u a"
      using 1 False unfolding paid_in_def by blast
    obtain z where "sh_users c u = Some z" "ac_recharged y - granted u b \<le> ac_recharged z - granted u c"
      "books = Exact \<longrightarrow> ac_recharged z - granted u c = ac_recharged y - granted u b"
      using 2 False y(1) unfolding paid_in_def by blast
    with y show "\<exists>z. sh_users c u = Some z \<and> ac_recharged x - granted u a \<le> ac_recharged z - granted u c \<and>
        (books = Exact \<longrightarrow> ac_recharged z - granted u c = ac_recharged x - granted u a)" by simp
  qed
qed (simp add: paid_in_def)

interpretation sr: rely "shop_rel books" for books
proof
  show "shop_rel books s s" for s :: "'s shop"
    by (auto simp: shop_rel_def codes_kept_def orders_kept_def paid_in_def audit_kept_def)
  show "shop_rel books a c" if "shop_rel books a b" and "shop_rel books b c" for a b c :: "'s shop"
    using that unfolding shop_rel_def using codes_kept_trans orders_kept_trans paid_in_trans audit_kept_trans by blast
qed

section \<open>Steps that leave the books alone\<close>

lemma pays_for_core: "code_core c' = code_core c \<Longrightarrow> pays_for po c' = pays_for po c"
  by (simp add: pays_for_def code_core_def)

lemma credited_kept: "codes_kept s s' \<Longrightarrow> credited po s \<Longrightarrow> credited po s'"
  unfolding codes_kept_def credited_def by blast

lemma delivered_kept: "codes_kept s s' \<Longrightarrow> audit_kept s s' \<Longrightarrow> delivered po s \<Longrightarrow> delivered po s'"
  using credited_kept unfolding delivered_def audit_kept_def by blast

lemma audit_same: "sh_audit s' = sh_audit s \<Longrightarrow> audit_kept s s'"
  by (simp add: audit_kept_def assigned_def)

text \<open>A step that leaves the orders alone.\<close>

lemma code_step:
  assumes "sh_orders s' = sh_orders s"
    and "codes_wf s \<Longrightarrow> codes_wf s' \<and> codes_kept s s' \<and> paid_in books s s'" and "audit_kept s s'"
  shows "shop_rel books s s'"
proof -
  have "orders_wf s' = orders_wf s" by (simp only: orders_wf_def assms(1))
  moreover have "orders_kept s s'" by (auto simp: orders_kept_def assms(1))
  moreover have "orders_ok s'" if "orders_ok s" "codes_kept s s'"
    using that delivered_kept assms(3) unfolding orders_ok_def assms(1) by blast
  ultimately show ?thesis using assms(2,3) by (auto simp: shop_rel_def)
qed

lemma frame_step:
  assumes "sh_codes s' = sh_codes s" and "sh_next_code s' = sh_next_code s" and "sh_orders s' = sh_orders s"
    and "\<And>u. transfers u s' = transfers u s"
    and "\<And>u a. sh_users s u = Some a \<Longrightarrow> \<exists>a'. sh_users s' u = Some a' \<and> ac_recharged a' = ac_recharged a"
    and "audit_kept s s'"
  shows "shop_rel books s s'"
proof (rule code_step[OF assms(3) _ assms(6)])
  have g: "granted u s' = granted u s" for u using assms(1,4) by (simp add: granted_def redeemed_def)
  have "codes_wf s' = codes_wf s" by (simp only: codes_wf_def assms(1-3))
  moreover have "codes_kept s s'" using assms(1) by (auto simp: codes_kept_def)
  moreover have "paid_in books s s'"
  proof (rule paid_inI)
    fix u a assume "sh_users s u = Some a"
    with assms(5) obtain a' where "sh_users s' u = Some a'" "ac_recharged a' = ac_recharged a" by blast
    then show "\<exists>a'. sh_users s' u = Some a' \<and> ac_recharged a' - granted u s' = ac_recharged a - granted u s"
      by (simp add: g)
  qed
  moreover assume "codes_wf s"
  ultimately show "codes_wf s' \<and> codes_kept s s' \<and> paid_in books s s'" by simp
qed

lemma transfers_ledger: "sh_ledger s' = sh_ledger s \<Longrightarrow> transfers u s' = transfers u s"
  by (simp add: transfers_def)

lemma frame_users:
  assumes "\<And>a. P a \<Longrightarrow> ac_recharged (f a) = ac_recharged a"
  shows "stxR (shop_rel books) (update_account i P f)"
  unfolding stxR_def update_account_def
  by (auto intro!: frame_step transfers_ledger audit_same simp: assms split: option.split)

lemma frame_subs: "stxR (shop_rel books) (on_subs p)"
  unfolding stxR_def on_subs_def by (auto intro!: frame_step transfers_ledger audit_same split: prod.split)

lemma audit_insert: "audit_kept s (s\<lparr>sh_audit := sh_audit s @ [a]\<rparr>)"
  by (simp add: audit_kept_def assigned_def hasPaymentSubscriptionAssignmentAudit_def has_audit_def)

lemma audit_rename:
  "audit_kept s (s\<lparr>sh_audit := map (\<lambda>a. if au_order a = i \<and> au_action a = ''AFFILIATE_REBATE_APPLIED'' then a\<lparr>au_action := x, au_operator := w\<rparr> else a)
     (sh_audit s)\<rparr>)"
proof -
  have "has_audit j y as \<Longrightarrow> y \<noteq> ''AFFILIATE_REBATE_APPLIED'' \<Longrightarrow>
      has_audit j y (map (\<lambda>a. if au_order a = i \<and> au_action a = ''AFFILIATE_REBATE_APPLIED'' then a\<lparr>au_action := x, au_operator := w\<rparr> else a) as)" for j y as
    by (induction as) (auto simp: has_audit_def)
  then show ?thesis by (auto simp: audit_kept_def assigned_def hasPaymentSubscriptionAssignmentAudit_def)
qed

lemma frame_audit: "stxR (shop_rel books) (insert_audit i a w d)" "stxR (shop_rel books) (updateClaimedAffiliateRebateAudit i a)"
  unfolding stxR_def insert_audit_def updateClaimedAffiliateRebateAudit_def
  by (auto intro!: frame_step transfers_ledger audit_insert audit_rename simp: sr.same)

lemma frame_redis: "shop_rel books s (snd (on_redis f s))"
  unfolding on_redis_def by (auto intro!: frame_step transfers_ledger audit_same split: prod.split)

lemma frame_affiliate: "stxR (shop_rel books) (update_affiliate u P f)" "stxR (shop_rel books) (insert_affiliate now u c d)"
  "stxR (shop_rel books) (claim_quota u)"
  unfolding stxR_def update_affiliate_def insert_affiliate_def claim_quota_def
  by (auto intro!: frame_step transfers_ledger audit_same split: option.split)

lemma frame_ledger: "lg_action r \<noteq> ''transfer'' \<Longrightarrow> stxR (shop_rel books) (insert_ledger r)"
  unfolding stxR_def insert_ledger_def by (auto intro!: frame_step audit_same simp: transfers_def)

lemma map_ledger_transfers:
  assumes "\<And>l. P l \<Longrightarrow> lg_user (f l) = lg_user l \<and> lg_action (f l) = lg_action l \<and> lg_amount (f l) = lg_amount l"
  shows "transfers u (s\<lparr>sh_ledger := map (\<lambda>l. if P l then f l else l) (sh_ledger s)\<rparr>) = transfers u s"
proof -
  have "map lg_amount (filter (\<lambda>l. lg_user l = u \<and> lg_action l = ''transfer'') (map (\<lambda>l. if P l then f l else l) ls)) =
        map lg_amount (filter (\<lambda>l. lg_user l = u \<and> lg_action l = ''transfer'') ls)" for ls
    by (induction ls) (auto simp: assms)
  then show ?thesis by (simp add: transfers_def)
qed

lemma frame_set_after: "stxR (shop_rel books) (set_after i snap)"
  unfolding stxR_def set_after_def writeA_def by (auto intro!: frame_step map_ledger_transfers audit_same)

lemma frame_thaw: "stxR (shop_rel books) (thawFrozenQuotaTx now u)"
  unfolding stxR_def
proof
  fix s :: "'s shop"
  let ?s = "s\<lparr>sh_ledger := map (\<lambda>l. if matured now u l then l\<lparr>lg_frozen_until := None\<rparr> else l) (sh_ledger s)\<rparr>"
  have 1: "shop_rel books s ?s" by (rule frame_step) (simp_all add: map_ledger_transfers audit_same)
  have 2: "shop_rel books t (snd (bindA (update_affiliate u P f) (\<lambda>_. returnA x) t))" for P f and x :: rat and t :: "'s shop"
  proof -
    have "stxR (shop_rel books) (bindA (update_affiliate u P f) (\<lambda>_. returnA x))" by (intro guarantee_intros frame_affiliate)
    then show ?thesis unfolding stxR_def ..
  qed
  note 3 = sr.trans[OF 1 2]
  show "shop_rel books s (snd (thawFrozenQuotaTx now u s))"
    unfolding thawFrozenQuotaTx_def Let_def using 1 3 by (simp split: if_split)
qed

section \<open>Codes\<close>

lemma redeemed_append: "redeemed u (s\<lparr>sh_codes := sh_codes s @ [c], sh_next_code := n\<rparr>) = redeemed u s + (if grants u c then rc_value c else 0)"
  by (simp add: redeemed_def)

lemma create_step:
  assumes "\<And>u. books \<noteq> Loose False \<Longrightarrow> \<not> grants u c"
  shows "stxR (shop_rel books) (CreateRow c)"
  unfolding stxR_def
proof
  fix s :: "'s shop"
  show "shop_rel books s (snd (CreateRow c s))"
  proof (cases "rc_code c = [] \<or> list_ex (\<lambda>r. rc_code r = rc_code c) (sh_codes s)")
    case True
    then show ?thesis by (simp add: CreateRow_def sr.same)
  next
    case False
    let ?c = "c\<lparr>rc_id := sh_next_code s\<rparr>"
    let ?s = "s\<lparr>sh_codes := sh_codes s @ [?c], sh_next_code := sh_next_code s + 1\<rparr>"
    have "snd (CreateRow c s) = ?s" using False by (simp add: CreateRow_def)
    moreover have "shop_rel books s ?s"
    proof (rule code_step)
      assume wf: "codes_wf s"
      have "rc_code c \<notin> rc_code ` set (sh_codes s)" using False by (auto simp: list_ex_iff)
      moreover have "sh_next_code s \<notin> rc_id ` set (sh_codes s)" using wf by (auto simp: codes_wf_def)
      ultimately have "codes_wf ?s" using wf by (auto simp: codes_wf_def)
      moreover have "codes_kept s ?s" by (auto simp: codes_kept_def)
      moreover have "paid_in books s ?s"
      proof (cases "books = Loose False")
        case False
        have "\<not> grants u ?c" for u using assms[OF False] by (simp add: grants_def IsUsed_def)
        then show ?thesis by (intro paid_inI) (simp add: granted_def redeemed_append transfers_def)
      qed (simp add: paid_in_def)
      ultimately show "codes_wf ?s \<and> codes_kept s ?s \<and> paid_in books s ?s" by blast
    qed (simp_all add: audit_same)
    ultimately show ?thesis by simp
  qed
qed

lemma create_batch_step: "(\<And>c u. c \<in> set cs \<Longrightarrow> books \<noteq> Loose False \<Longrightarrow> \<not> grants u c) \<Longrightarrow> stxR (shop_rel books) (CreateBatch cs)"
  by (induction cs) (auto intro!: guarantee_intros create_step)

definition known_code :: "RedeemCode \<Rightarrow> 's shop \<Rightarrow> bool" where
  "known_code c s \<longleftrightarrow> codes_wf s \<and> (\<exists>c'\<in>set (sh_codes s). code_core c' = code_core c \<and> (IsUsed c \<longrightarrow> c' = c))"

lemma known_code_stable [stable_intros]: "stable (shop_rel books) (known_code c)"
  unfolding stable_def known_code_def shop_rel_def codes_kept_def by metis

lemma sum_list_update:
  fixes g :: "'a \<Rightarrow> rat"
  shows "sum_list (map g (map (\<lambda>x. if P x then f x else x) xs)) =
    sum_list (map g xs) + sum_list (map (\<lambda>x. g (f x) - g x) (filter P xs))"
  by (induction xs) auto

lemma filter_key: "distinct (map k xs) \<Longrightarrow> x \<in> set xs \<Longrightarrow> Q x \<Longrightarrow> filter (\<lambda>y. k y = k x \<and> Q y) xs = [x]"
proof (induction xs)
  case (Cons y ys)
  show ?case
  proof (cases "x = y")
    case True
    then have "filter (\<lambda>z. k z = k x \<and> Q z) ys = []" using Cons.prems(1) by (auto simp: filter_empty_conv) (metis image_eqI)
    then show ?thesis using True Cons.prems(3) by simp
  next
    case False
    then have "k y \<noteq> k x" using Cons.prems by auto
    then show ?thesis using Cons False by simp
  qed
qed simp

text \<open>Marking a code: it was unused, and its user is granted its value.\<close>

lemma use_code:
  assumes wf: "codes_wf s" and run: "UseCode now (rc_id c) u s = (Inr (), s1)" and known: "known_code c s"
  obtains c1 where "c1 \<in> set (sh_codes s1)" and "code_core c1 = code_core c" and "IsUsed c1" and "rc_used_by c1 = Some u"
    and "codes_wf s1" and "codes_kept s s1" and "sh_orders s1 = sh_orders s" and "sh_users s1 = sh_users s" and "sh_ledger s1 = sh_ledger s" and "sh_audit s1 = sh_audit s"
    and "\<forall>v. redeemed v s1 = redeemed v s + (if v = u \<and> rc_type c = RedeemTypeBalance \<and> rc_value c > 0 then rc_value c else 0)"
proof -
  let ?P = "\<lambda>x. rc_id x = rc_id c \<and> rc_status x = StatusUnused"
  let ?f = "\<lambda>x. x\<lparr>rc_status := StatusUsed, rc_used_by := Some u, rc_used_at := Some now\<rparr>"
  have s1: "s1 = s\<lparr>sh_codes := map (\<lambda>x. if ?P x then ?f x else x) (sh_codes s)\<rparr>" and ne: "filter ?P (sh_codes s) \<noteq> []"
    using run by (auto simp: UseCode_def bindA_def update_codes_def failA_def returnA_def split: if_splits)
  from ne obtain c0 where c0: "c0 \<in> set (sh_codes s)" "rc_id c0 = rc_id c" "rc_status c0 = StatusUnused"
    by (auto simp: filter_empty_conv)
  from known obtain c' where c': "c' \<in> set (sh_codes s)" "code_core c' = code_core c" by (auto simp: known_code_def)
  have "c' = c0" using c' c0 wf by (auto simp: codes_wf_def code_core_def distinct_map inj_on_def)
  then have core: "code_core c0 = code_core c" using c' by simp
  have one: "filter ?P (sh_codes s) = [c0]"
    using filter_key[of rc_id "sh_codes s" c0 "\<lambda>x. rc_status x = StatusUnused"] wf c0 by (simp add: codes_wf_def)
  show thesis
  proof (rule that)
    show "?f c0 \<in> set (sh_codes s1)" using c0 s1 by force
    show "code_core (?f c0) = code_core c" using core by (simp add: code_core_def)
    show "IsUsed (?f c0)" "rc_used_by (?f c0) = Some u" by (simp_all add: IsUsed_def)
    have "map rc_id (sh_codes s1) = map rc_id (sh_codes s)" "map rc_code (sh_codes s1) = map rc_code (sh_codes s)" by (auto simp: s1)
    moreover have "\<forall>c\<in>set (sh_codes s1). rc_id c < sh_next_code s1" using wf by (auto simp: s1 codes_wf_def)
    ultimately show "codes_wf s1" using wf by (simp add: codes_wf_def)
    show "codes_kept s s1"
      unfolding codes_kept_def
    proof
      fix x assume x: "x \<in> set (sh_codes s)"
      have "(if ?P x then ?f x else x) \<in> set (sh_codes s1)" using x s1 by simp
      moreover have "code_core (if ?P x then ?f x else x) = code_core x" by (simp add: code_core_def)
      moreover have "IsUsed x \<longrightarrow> (if ?P x then ?f x else x) = x" by (simp add: IsUsed_def code_status_defs)
      ultimately show "\<exists>y\<in>set (sh_codes s1). code_core y = code_core x \<and> (IsUsed x \<longrightarrow> y = x)" by blast
    qed
    show "\<forall>v. redeemed v s1 = redeemed v s + (if v = u \<and> rc_type c = RedeemTypeBalance \<and> rc_value c > 0 then rc_value c else 0)"
    proof
      fix v
      let ?g = "\<lambda>c. if grants v c then rc_value c else 0"
      have "redeemed v s1 = redeemed v s + (?g (?f c0) - ?g c0)"
        using sum_list_update[of ?g ?P ?f "sh_codes s"] by (simp add: redeemed_def s1 one del: map_map)
      then show "redeemed v s1 = redeemed v s + (if v = u \<and> rc_type c = RedeemTypeBalance \<and> rc_value c > 0 then rc_value c else 0)"
        using core c0(3) by (auto simp: grants_def IsUsed_def code_core_def code_status_defs)
    qed
  qed (simp_all add: s1)
qed

end
