(* ===== verification/Redeem_Steps.thy ===== *)
theory Redeem_Steps
  imports Shop_Relation
begin

text \<open>
  The redemption of a code keeps the relation of the shop, whoever else is at work, and
  leaves the code used by its user; with it the methods of the redeem and the affiliate service.
\<close>

definition used_code :: "RedeemCode \<Rightarrow> id \<Rightarrow> 's shop \<Rightarrow> bool" where
  "used_code c u s \<longleftrightarrow> codes_wf s \<and> (\<exists>c'\<in>set (sh_codes s). code_core c' = code_core c \<and> IsUsed c' \<and> rc_used_by c' = Some u)"

lemma used_code_stable [stable_intros]: "stable (shop_rel books) (used_code c u)"
  unfolding stable_def used_code_def shop_rel_def codes_kept_def by metis

text \<open>What the grant of a marked code changes.\<close>

definition pays :: "id \<Rightarrow> rat \<Rightarrow> 's shop \<Rightarrow> 's shop \<Rightarrow> bool" where
  "pays u x s s' \<longleftrightarrow> sh_codes s' = sh_codes s \<and> sh_next_code s' = sh_next_code s \<and> sh_orders s' = sh_orders s \<and> sh_ledger s' = sh_ledger s \<and> sh_audit s' = sh_audit s \<and>
     (\<forall>v a. sh_users s v = Some a \<longrightarrow> (\<exists>a'. sh_users s' v = Some a' \<and> ac_recharged a' = ac_recharged a + (if v = u then x else 0)))"

lemma pays_account:
  assumes "update_account u P f s = (Inr (), s')" and "\<And>a. ac_recharged (f a) = ac_recharged a + x"
  shows "pays u x s s'"
  using assms by (auto simp: update_account_def pays_def split: option.splits if_splits)

lemma pays_subs: "on_subs p s = (Inr (), s') \<Longrightarrow> pays u 0 s s'"
  by (auto simp: on_subs_def pays_def split: prod.splits)

definition paid_value :: "RedeemCode \<Rightarrow> rat" where
  "paid_value c = (if rc_type c = RedeemTypeBalance \<and> rc_value c > 0 then rc_value c else 0)"

lemma redeem_tx_step:
  assumes known: "known_code c s" and run: "redeem_tx cal n n' c u s = (Inr (), s')"
  shows "shop_rel books s s' \<and> used_code c u s'"
proof -
  have wf: "codes_wf s" using known by (simp add: known_code_def)
  obtain s1 where use: "UseCode n (rc_id c) u s = (Inr (), s1)"
    using run by (cases "UseCode n (rc_id c) u s") (auto simp: redeem_tx_def split: sum.splits)
  obtain c1 where c1: "c1 \<in> set (sh_codes s1)" "code_core c1 = code_core c" "IsUsed c1" "rc_used_by c1 = Some u"
    and s1: "codes_wf s1" "codes_kept s s1" "sh_orders s1 = sh_orders s" "sh_users s1 = sh_users s" "sh_ledger s1 = sh_ledger s" "sh_audit s1 = sh_audit s"
    and red: "\<forall>v. redeemed v s1 = redeemed v s + (if v = u \<and> rc_type c = RedeemTypeBalance \<and> rc_value c > 0 then rc_value c else 0)"
    by (rule use_code[OF wf use known])
  have pays: "pays u (paid_value c) s1 s'"
    using run by (auto simp: redeem_tx_def use paid_value_def code_type_defs ApplyRedeemBalanceAdjustment_def UpdateBalance_def
        ApplyRedeemConcurrencyAdjustment_def UpdateConcurrency_def failA_def elim!: pays_account pays_subs split: if_splits option.splits)
  have codes: "sh_codes s' = sh_codes s1" "sh_next_code s' = sh_next_code s1" "sh_orders s' = sh_orders s" "sh_audit s' = sh_audit s"
    using pays s1 by (simp_all add: pays_def)
  have wf': "codes_wf s'" using s1(1) unfolding codes_wf_def codes .
  have kept: "codes_kept s s'" using s1(2) by (simp only: codes_kept_def codes)
  have g: "granted v s' = granted v s + (if v = u then paid_value c else 0)" for v
    using red pays by (simp add: granted_def paid_value_def pays_def redeemed_def transfers_def s1)
  have "paid_in books s s'"
  proof (rule paid_inI)
    fix v a assume "sh_users s v = Some a"
    then obtain a' where "sh_users s' v = Some a'" "ac_recharged a' = ac_recharged a + (if v = u then paid_value c else 0)"
      using pays s1(4) unfolding pays_def by metis
    then show "\<exists>a'. sh_users s' v = Some a' \<and> ac_recharged a' - granted v s' = ac_recharged a - granted v s" by (simp add: g)
  qed
  then have "shop_rel books s s'" by (intro code_step codes(3) audit_same codes(4)) (simp add: wf' kept)
  then show ?thesis using c1 wf' unfolding used_code_def codes by blast
qed

section \<open>Affiliates\<close>

lemma ensure_tx_step [guarantee_intros]: "stxR (shop_rel books) (ensure_in_tx now c u)"
proof -
  have "stxR (shop_rel books) (bindA (insert_affiliate now u x d) (\<lambda>_. queryAffiliateByUserID u))" for x d
    by (intro guarantee_intros frame_affiliate) (simp add: stxR_def queryAffiliateByUserID_def sr.same split: option.split)
  then show ?thesis
    by (auto simp: stxR_def ensure_in_tx_def sr.same split: option.split)
qed

lemma reads_step [guarantee_intros]: "stxR (shop_rel books) (queryAffiliateByUserID u)" "stxR (shop_rel books) (queryAffiliateByCode us code)"
  "stxR (shop_rel books) (queryUserBalance u)" "stxR (shop_rel books) (queryAffiliateTransferSnapshot u)"
  "stxR (shop_rel books) (readA f)" "stxR (shop_rel books) (findAffiliateWithdrawByOperation u a op)"
  "stxR (shop_rel books) (GetUserByID u)" "stxR (shop_rel books) (only_code P)" "stxR (shop_rel books) (only_order Q)"
  by (simp_all add: stxR_def queryAffiliateByUserID_def queryAffiliateByCode_def queryUserBalance_def queryAffiliateTransferSnapshot_def
      readA_def findAffiliateWithdrawByOperation_def GetUserByID_def only_code_def only_order_def sr.same split: option.split list.split prod.split)

lemma repository_steps [guarantee_intros]: "stxR (shop_rel books) (insert_audit i a w d)"
  "stxR (shop_rel books) (updateClaimedAffiliateRebateAudit i a)" "stxR (shop_rel books) (on_subs p)"
  "stxR (shop_rel books) (insert_affiliate now u c d')" "stxR (shop_rel books) (update_affiliate u P f)"
  "stxR (shop_rel books) (set_after i snap)" "stxR (shop_rel books) (thawFrozenQuotaTx now u)"
  by (fact frame_audit frame_subs frame_affiliate frame_set_after frame_thaw)+

lemma bind_inviter_step [guarantee_intros]: "stxR (shop_rel books) (BindInviter now c c' u i)"
  unfolding BindInviter_def by (intro guarantee_intros)

lemma accrue_step [guarantee_intros]: "stxR (shop_rel books) (AccrueQuota now i u a h po)"
  unfolding AccrueQuota_def by (intro guarantee_intros frame_ledger) simp_all

lemma accrue_tx_step [guarantee_intros]: "stxR (shop_rel books) (accrue_in_tx cal st now c c' u base po)"
  unfolding accrue_in_tx_def GetAccruedRebateFromInvitee_def by (intro guarantee_intros)

lemma withdraw_step [guarantee_intros]: "stxR (shop_rel books) (WithdrawQuota now u a op)"
proof -
  have "stxR (shop_rel books) (claimAffiliateWithdrawLedger u a op)"
  proof -
    have "stxR (shop_rel books) (bindA (insert_ledger \<lparr>lg_id = 0, lg_user = u, lg_action = ''withdraw'', lg_amount = a, lg_source_user = None,
             lg_source_order = None, lg_frozen_until = None, lg_operation = Some op, lg_after = None\<rparr>) (\<lambda>i. returnA (Some i)))"
      by (intro guarantee_intros frame_ledger) simp
    then show ?thesis by (auto simp: stxR_def claimAffiliateWithdrawLedger_def sr.same)
  qed
  then show ?thesis unfolding WithdrawQuota_def by (intro guarantee_intros) (assumption | intro guarantee_intros)+
qed

lemma transfer_step:
  assumes "TransferQuotaToBalance now code u s = (Inr r, s')"
  shows "shop_rel books s s'"
proof -
  obtain x1 s1 where e: "ensure_in_tx now code u s = (Inr x1, s1)"
    using assms by (cases "ensure_in_tx now code u s") (auto simp: TransferQuotaToBalance_def bindA_def split: sum.splits)
  obtain x2 s2 where t: "thawFrozenQuotaTx now u s1 = (Inr x2, s2)"
    using assms e by (cases "thawFrozenQuotaTx now u s1") (auto simp: TransferQuotaToBalance_def bindA_def split: sum.splits)
  have "shop_rel books s s1" using ensure_tx_step[of books now code u] e unfolding stxR_def by (metis snd_conv)
  moreover have "shop_rel books s1 s2" using frame_thaw[of books now u] t unfolding stxR_def by (metis snd_conv)
  moreover have "shop_rel books s2 s'"
  proof -
    obtain a c where a: "sh_affiliates s2 u = Some a" "af_quota a > 0" and c: "sh_users s2 u = Some c"
      and s': "sh_codes s' = sh_codes s2" "sh_next_code s' = sh_next_code s2" "sh_orders s' = sh_orders s2"
        "sh_users s' = (sh_users s2)(u \<mapsto> c\<lparr>ac_balance := ac_balance c + af_quota a, ac_recharged := ac_recharged c + af_quota a\<rparr>)"
        "\<exists>l. sh_ledger s' = sh_ledger s2 @ [l] \<and> lg_user l = u \<and> lg_action l = ''transfer'' \<and> lg_amount l = af_quota a" "sh_audit s' = sh_audit s2"
      using assms e t by (auto simp: TransferQuotaToBalance_def bindA_def claim_quota_def update_account_def queryUserBalance_def
          queryAffiliateTransferSnapshot_def insert_ledger_def returnA_def split: option.splits if_splits)
    have tr: "transfers v s' = transfers v s2 + (if v = u then af_quota a else 0)" for v
      using s'(5) by (auto simp: transfers_def)
    have "granted v s' = granted v s2 + (if v = u then af_quota a else 0)" for v
      using tr[of v] s'(1) by (simp add: granted_def redeemed_def)
    then have "paid_in books s2 s'" by (intro paid_inI) (auto simp: s'(4) c)
    moreover have "codes_wf s' = codes_wf s2" by (simp only: codes_wf_def s'(1,2))
    moreover have "codes_kept s2 s'" by (auto simp: codes_kept_def s'(1))
    ultimately show ?thesis by (intro code_step s'(3) audit_same s'(6)) simp
  qed
  ultimately show ?thesis using sr.trans by blast
qed

lemma insert_loop_steps [guarantee_intros]: "guarantees (shop_rel books) (insert_loop now u cs)"
  by (induction now u cs rule: insert_loop.induct) (auto simp only: insert_loop.simps intro!: guarantee_intros)

lemma ensure_steps [guarantee_intros]: "guarantees (shop_rel books) (EnsureUserAffiliate now cs u)"
  unfolding EnsureUserAffiliate_def by (intro guarantee_intros)

lemma accrue_steps [guarantee_intros]: "guarantees (shop_rel books) (AccrueInviteRebateForOrder cal st now c c' u base po)"
  unfolding AccrueInviteRebateForOrder_def GetAccruedRebateFromInvitee_def by (intro guarantee_intros)

lemma bind_code_steps [guarantee_intros]: "guarantees (shop_rel books) (BindInviterByCode st now c c' us u code)"
  unfolding BindInviterByCode_def by (intro guarantee_intros)

lemma transfer_steps [guarantee_intros]: "guarantees (shop_rel books) (TransferAffiliateQuota now code u)"
  unfolding TransferAffiliateQuota_def guarantees_def
  by (rule sr.triple_tx) (auto simp: stable_True dest: transfer_step)

lemma withdraw_steps [guarantee_intros]: "guarantees (shop_rel books) (AdminWithdrawQuota oper now u a key)"
  unfolding AdminWithdrawQuota_def by (intro guarantee_intros)

section \<open>Redemption\<close>

lemma redis_steps [guarantee_intros]: "guarantees (shop_rel books) (round_trip (on_redis f))"
  by (rule sr.guarantees_round_trip) (rule frame_redis)

lemma check_reply_steps [guarantee_intros]: "guarantees (shop_rel books) p \<Longrightarrow> guarantees (shop_rel books) (check_reply p)"
  unfolding check_reply_def by (intro guarantee_intros)

lemma lock_steps [guarantee_intros]: "guarantees (shop_rel books) (checkRedeemRateLimit Rd cache u)"
  "guarantees (shop_rel books) (incrementRedeemErrorCount Rd cache u)" "guarantees (shop_rel books) (acquireRedeemLock Rd cache key)"
  "guarantees (shop_rel books) (releaseRedeemLock Rd cache key)"
  unfolding checkRedeemRateLimit_def incrementRedeemErrorCount_def acquireRedeemLock_def releaseRedeemLock_def
    GetRedeemAttemptCount_def IncrementRedeemAttemptCount_def AcquireRedeemLock_def ReleaseRedeemLock_def
  by (intro guarantee_intros)+

lemma codes_wf_stable [stable_intros]: "stable (shop_rel books) codes_wf"
  by (simp add: stable_def shop_rel_def)

lemma try_rebate_steps [guarantee_intros]: "guarantees (shop_rel books) (tryAccrueAffiliateRebateForRedeem E skip now u x)"
  unfolding tryAccrueAffiliateRebateForRedeem_def by (intro guarantee_intros)

lemma only_code_known: "codes_wf s \<Longrightarrow> only_code P s = (Inr c, s') \<Longrightarrow> s' = s \<and> known_code c s \<and> P c"
proof -
  assume wf: "codes_wf s" and run: "only_code P s = (Inr c, s')"
  then have "filter P (sh_codes s) = [c]" "s' = s" by (auto simp: only_code_def split: list.splits)
  then have "c \<in> set (filter P (sh_codes s))" "s' = s" by simp_all
  then show ?thesis using wf by (auto simp: known_code_def)
qed

lemma get_code_triple:
  "triple (shop_rel books) codes_wf (catchW (sql (GetByCode code)))
     (\<lambda>r s. case r of Inl e \<Rightarrow> True | Inr c \<Rightarrow> known_code c s \<and> rc_code c = code)"
proof (rule sr.triple_catch[OF codes_wf_stable], rule sr.triple_sql[OF codes_wf_stable])
  fix s r s' assume "codes_wf s" "GetByCode code s = (r, s')"
  moreover have "shop_rel books s (snd (GetByCode code s))" using reads_step(8) unfolding GetByCode_def stxR_def by blast
  ultimately show "shop_rel books s s' \<and> (\<forall>c. r = Inr c \<longrightarrow> known_code c s' \<and> rc_code c = code)"
    using only_code_known[of s "\<lambda>c. rc_code c = code"] unfolding GetByCode_def by fastforce
qed

lemma redeem_known_triple:
  "triple (shop_rel books) (known_code c)
     (bindW (sql (GetUserByID u)) (\<lambda>_.
      bindW (in_tx (redeem_tx cal n n' c u)) (\<lambda>_.
      bindW (if rc_type c = RedeemTypeBalance \<and> rc_value c > 0 then tryAccrueAffiliateRebateForRedeem E skip n'' u (rc_value c)
             else returnW ()) (\<lambda>_.
      sql (GetCodeByID (rc_id c)))))) (\<lambda>_. used_code c u)"
proof -
  have last: "triple (shop_rel books) (used_code c u) (sql (GetCodeByID (rc_id c))) (\<lambda>_. used_code c u)"
  proof (intro sr.triple_sql stable_intros)
    fix s r s' assume "used_code c u s" "GetCodeByID (rc_id c) s = (r, s')"
    then show "shop_rel books s s' \<and> (\<forall>a. r = Inr a \<longrightarrow> used_code c u s')"
      by (auto simp: GetCodeByID_def only_code_def sr.same split: list.splits)
  qed
  have rebate: "guarantees (shop_rel books) (if rc_type c = RedeemTypeBalance \<and> rc_value c > 0
      then tryAccrueAffiliateRebateForRedeem E skip n'' u (rc_value c) else returnW ())"
    by (intro guarantee_intros)
  have paid: "triple (shop_rel books) (known_code c) (in_tx (redeem_tx cal n n' c u)) (\<lambda>_. used_code c u)"
  proof (intro sr.triple_tx stable_intros)
    fix s a s' assume "known_code c s" "redeem_tx cal n n' c u s = (Inr a, s')"
    then show "shop_rel books s s' \<and> used_code c u s'" using redeem_tx_step[of c s cal n n' u s' books] by simp
  qed
  have rest: "triple (shop_rel books) (\<lambda>s. known_code c s \<and> used_code c u s)
     (bindW (if rc_type c = RedeemTypeBalance \<and> rc_value c > 0 then tryAccrueAffiliateRebateForRedeem E skip n'' u (rc_value c)
             else returnW ()) (\<lambda>_. sql (GetCodeByID (rc_id c)))) (\<lambda>_. used_code c u)"
    by (rule triple_pre[OF sr.triple_then[OF used_code_stable rebate last]]) blast
  have user: "guarantees (shop_rel books) (sql (GetUserByID u))" by (intro guarantee_intros)
  show ?thesis
    by (rule sr.triple_then[OF known_code_stable user sr.triple_bind[OF known_code_stable paid rest]])
qed

theorem redeem_locked_triple:
  "triple (shop_rel books) codes_wf (redeem_locked E now u code enforce skip) (\<lambda>_ s. \<exists>c. rc_code c = code \<and> used_code c u s)"
  unfolding redeem_locked_def Let_def
proof (rule sr.triple_bind[OF codes_wf_stable get_code_triple], goal_cases)
  case (1 r)
  have miss: "guarantees (shop_rel books) (if enforce then incrementRedeemErrorCount (re_redis E) (re_cache E) u else returnW ())"
    by (intro guarantee_intros)
  show ?case
  proof (cases r)
    case (Inl e)
    then show ?thesis using miss by (auto intro!: triple_if sr.triple_then_fail sr.triple_fail)
  next
    case (Inr c)
    note main = triple_weaken[OF redeem_known_triple[of books c]]
    show ?thesis
      unfolding Inr sum.case
      by (rule triple_cases[where b = "rc_code c = code"], simp)
        (intro triple_if sr.triple_then_fail sr.triple_fail miss main; auto)
  qed
qed

lemma used_stable [stable_intros]: "stable (shop_rel books) (\<lambda>s. \<exists>c. rc_code c = code \<and> used_code c u s)"
  using used_code_stable unfolding stable_def by metis

theorem redeem_triple:
  "triple (shop_rel books) codes_wf (redeem E now u code enforce skip) (\<lambda>_ s. \<exists>c. rc_code c = code \<and> used_code c u s)"
  unfolding redeem_def Let_def
proof (rule sr.triple_then)
  show "triple (shop_rel books) codes_wf (bindW (acquireRedeemLock (re_redis E) (re_cache E) (redeemLockKey (re_bytes E) code))
      (\<lambda>ok. if \<not> ok then failW ErrRedeemCodeLocked
            else deferW (redeem_locked E now u code enforce skip) (releaseRedeemLock (re_redis E) (re_cache E) (redeemLockKey (re_bytes E) code))))
      (\<lambda>_ s. \<exists>c. rc_code c = code \<and> used_code c u s)" for a
    by (intro sr.triple_then triple_if sr.triple_fail sr.triple_defer stable_intros guarantee_intros redeem_locked_triple)
qed (intro stable_intros guarantee_intros)+

end
