(* ===== verification/Payment_Steps.thy ===== *)
theory Payment_Steps
  imports Redeem_Steps
begin

text \<open>
  The life of a payment order keeps the relation of the shop: no method settles an order
  whose goods were not handed out, whatever other clients do in between.
\<close>

section \<open>The table of orders\<close>

lemma redeemed_frame: "sh_codes s' = sh_codes s \<Longrightarrow> sh_ledger s' = sh_ledger s \<Longrightarrow> granted u s' = granted u s"
  by (simp add: granted_def redeemed_def transfers_def)

lemma orders_step:
  assumes core: "\<And>p. P p \<Longrightarrow> order_core (f p) = order_core p"
    and fin: "\<And>p. P p \<Longrightarrow> settled p \<Longrightarrow> settled (f p)"
    and new: "\<And>p. p \<in> set (sh_orders s) \<Longrightarrow> P p \<Longrightarrow> settled (f p) \<Longrightarrow> codes_wf s \<Longrightarrow> orders_wf s \<Longrightarrow> settled p \<or> delivered p s"
  shows "shop_rel books s (snd (update_orders P f now s))"
proof -
  let ?g = "\<lambda>p. (f p)\<lparr>po_updated_at := now\<rparr>"
  let ?h = "\<lambda>p. if P p then ?g p else p"
  define s' where "s' = snd (update_orders P f now s)"
  have s': "s' = s\<lparr>sh_orders := map ?h (sh_orders s)\<rparr>" by (simp add: s'_def update_orders_def)
  have h: "order_core (?h p) = order_core p" "settled p \<Longrightarrow> settled (?h p)" for p
    using core fin by (auto simp: order_core_def settled_def)
  have g: "granted u s' = granted u s" for u by (rule redeemed_frame) (simp_all add: s')
  have codes: "codes_wf s' = codes_wf s" "codes_kept s s'" "audit_kept s s'" "paid_in books s s'"
    unfolding paid_in_def g by (auto simp: s' codes_wf_def codes_kept_def intro: audit_same)
  have os: "sh_orders s' = map ?h (sh_orders s)" by (simp add: s')
  have ids: "map po_id (sh_orders s') = map po_id (sh_orders s)" "map po_code (sh_orders s') = map po_code (sh_orders s)"
  proof -
    have k: "po_id (?h p) = po_id p \<and> po_code (?h p) = po_code p" for p using h(1)[of p] by (simp add: order_core_def)
    show "map po_id (sh_orders s') = map po_id (sh_orders s)" "map po_code (sh_orders s') = map po_code (sh_orders s)"
      by (simp_all only: os map_map comp_def k)
  qed
  have "set (map po_code (sh_orders s')) = set (map po_code (sh_orders s))" by (simp only: ids)
  then have wf: "orders_wf s \<Longrightarrow> orders_wf s'"
    unfolding orders_wf_def ids(1) by (metis (no_types, lifting) imageE imageI list.set_map)
  have kept: "orders_kept s s'"
    unfolding orders_kept_def
  proof
    fix p assume p: "p \<in> set (sh_orders s)"
    then have "?h p \<in> set (sh_orders s')" by (simp only: s') simp
    then show "\<exists>p'\<in>set (sh_orders s'). order_core p' = order_core p \<and> (settled p \<longrightarrow> settled p')" using h by blast
  qed
  have deliv: "delivered (?h p) s' = delivered p s" for p
    using h(1)[of p] by (auto simp: delivered_def credited_def pays_for_def assigned_def s' order_core_def)
  have ok: "orders_ok s'" if "orders_ok s" "codes_wf s" "orders_wf s"
    unfolding orders_ok_def
  proof (intro ballI impI)
    fix q assume "q \<in> set (sh_orders s')" and q: "settled q"
    then obtain p where p: "p \<in> set (sh_orders s)" "q = ?h p" by (auto simp: s')
    have "settled p \<or> delivered p s"
    proof (cases "P p")
      case True
      then have "settled (f p)" using q p(2) by (auto simp: settled_def)
      then show ?thesis using new[OF p(1) True] that by blast
    qed (use q p in simp)
    then show "delivered q s'" using that(1) p deliv unfolding orders_ok_def by blast
  qed
  show ?thesis unfolding s'_def[symmetric] shop_rel_def using codes wf kept ok by blast
qed

lemma orders_steps:
  assumes "\<And>p. P p \<Longrightarrow> order_core (f p) = order_core p \<and> \<not> settled (f p) \<and> \<not> settled p \<or> f p = p \<or>
      order_core (f p) = order_core p \<and> settled p \<and> settled (f p)"
  shows "stxR (shop_rel books) (update_orders P f now)"
  unfolding stxR_def
proof
  show "shop_rel books s (snd (update_orders P f now s))" for s
    by (rule orders_step) (use assms in \<open>(metis | force)+\<close>)
qed

definition known_order :: "PaymentOrder \<Rightarrow> 's shop \<Rightarrow> bool" where
  "known_order po s \<longleftrightarrow> codes_wf s \<and> orders_wf s \<and> (\<exists>p\<in>set (sh_orders s). order_core p = order_core po)"

definition handed_out :: "PaymentOrder \<Rightarrow> 's shop \<Rightarrow> bool" where
  "handed_out po s \<longleftrightarrow> known_order po s \<and> delivered po s"

definition settled_order :: "PaymentOrder \<Rightarrow> 's shop \<Rightarrow> bool" where
  "settled_order po s \<longleftrightarrow> codes_wf s \<and> orders_wf s \<and> (\<exists>p\<in>set (sh_orders s). order_core p = order_core po \<and> settled p)"

lemma known_order_stable [stable_intros]: "stable (shop_rel books) (known_order po)"
  unfolding stable_def known_order_def shop_rel_def orders_kept_def by metis

lemma settled_order_stable [stable_intros]: "stable (shop_rel books) (settled_order po)"
  unfolding stable_def settled_order_def shop_rel_def orders_kept_def by metis

lemma handed_out_stable [stable_intros]: "stable (shop_rel books) (handed_out po)"
proof -
  have "delivered po s'" if "handed_out po s" "shop_rel books s s'" for s s' :: "'a shop"
    using that delivered_kept[of s s' po] by (auto simp: handed_out_def known_order_def shop_rel_def)
  then show ?thesis using known_order_stable[of books po] unfolding stable_def handed_out_def by blast
qed

lemma same_order:
  assumes "known_order po s" and "p \<in> set (sh_orders s)" and "po_id p = po_id po"
  shows "order_core p = order_core po"
proof -
  obtain q where q: "q \<in> set (sh_orders s)" "order_core q = order_core po" using assms(1) by (auto simp: known_order_def)
  then have "q = p" using assms by (auto simp: known_order_def orders_wf_def distinct_map inj_on_def order_core_def)
  then show ?thesis using q by simp
qed

lemma delivered_core: "order_core p = order_core q \<Longrightarrow> delivered p s = delivered q s"
  by (simp add: delivered_def credited_def pays_for_def order_core_def)

lemma get_order_known:
  assumes "codes_wf s" and "orders_wf s" and "only_order Q s = (Inr po, s')"
  shows "s' = s \<and> known_order po s \<and> Q po \<and> po \<in> set (sh_orders s)"
proof -
  have "filter Q (sh_orders s) = [po]" "s' = s" using assms(3) by (auto simp: only_order_def split: list.splits)
  then have "po \<in> set (filter Q (sh_orders s))" "s' = s" by simp_all
  then show ?thesis using assms(1,2) by (auto simp: known_order_def)
qed

definition shop_wf :: "'s shop \<Rightarrow> bool" where "shop_wf s \<longleftrightarrow> codes_wf s \<and> orders_wf s"

lemma shop_wf_stable [stable_intros]: "stable (shop_rel books) shop_wf"
  by (simp add: stable_def shop_rel_def shop_wf_def)

lemma get_order_triple: "triple (shop_rel books) shop_wf (sql (only_order Q)) (\<lambda>po s. known_order po s \<and> Q po)"
proof (intro sr.triple_sql stable_intros)
  fix s r s' assume "shop_wf s" "only_order Q s = (r, s')"
  then show "shop_rel books s s' \<and> (\<forall>po. r = Inr po \<longrightarrow> known_order po s' \<and> Q po)"
    using get_order_known[of s Q] reads_step(9)[of books Q] unfolding stxR_def shop_wf_def by (metis snd_conv)
qed

section \<open>Leases\<close>

lemma log_steps [guarantee_intros]: "guarantees (shop_rel books) (writeAuditLog i a w)" "guarantees (shop_rel books) (hasAuditLog i a)"
  unfolding writeAuditLog_def hasAuditLog_def by (intro guarantee_intros)+

lemma take_lease_step [guarantee_intros]: "stxR (shop_rel books) (take_lease i now)"
  unfolding take_lease_def
  by (rule orders_steps) (auto simp: order_core_def settled_def lease_free_def psIsRefundStatus_def order_status_defs)

lemma lease_steps [guarantee_intros]: "guarantees (shop_rel books) (acquirePaymentFulfillmentLease now i)"
  unfolding acquirePaymentFulfillmentLease_def get_order_def by (intro guarantee_intros)

lemma mark_failed_steps [guarantee_intros]: "guarantees (shop_rel books) (markFailed now i v)"
proof -
  have "stxR (shop_rel books) (update_orders (leased i v) (\<lambda>po. po\<lparr>po_status := OrderStatusFailed, po_failed_at := Some now\<rparr>) now)"
    by (rule orders_steps) (auto simp: order_core_def settled_def leased_def psIsRefundStatus_def order_status_defs)
  then show ?thesis unfolding markFailed_def by (intro guarantee_intros)
qed

lemma mark_completed_triple: "triple (shop_rel books) (handed_out po) (markCompleted now (po_id po) v a) (\<lambda>_ _. True)"
proof -
  have fin: "triple (shop_rel books) (handed_out po)
    (sql (update_orders (leased (po_id po) v) (\<lambda>po. po\<lparr>po_status := OrderStatusCompleted, po_completed_at := Some now\<rparr>) now)) (\<lambda>_ _. True)"
  proof (intro sr.triple_sql stable_intros conjI)
    fix s r s' assume h: "handed_out po s"
      and run: "update_orders (leased (po_id po) v) (\<lambda>po. po\<lparr>po_status := OrderStatusCompleted, po_completed_at := Some now\<rparr>) now s = (r, s')"
    have "shop_rel books s (snd (update_orders (leased (po_id po) v) (\<lambda>po. po\<lparr>po_status := OrderStatusCompleted, po_completed_at := Some now\<rparr>) now s))"
    proof (rule orders_step)
      fix p assume "p \<in> set (sh_orders s)" "leased (po_id po) v p"
      then have "order_core p = order_core po" using h same_order by (auto simp: handed_out_def leased_def)
      then show "settled p \<or> delivered p s" using h delivered_core by (auto simp: handed_out_def)
    qed (auto simp: order_core_def settled_def)
    then show "shop_rel books s s'" by (simp add: run)
  qed simp
  show ?thesis
    unfolding markCompleted_def get_order_def
    by (rule sr.triple_bind[OF handed_out_stable fin], rule sr.triple_guarantees, intro guarantee_intros)
qed

section \<open>Fulfilment\<close>

lemma rebate_steps [guarantee_intros]: "guarantees (shop_rel books) (applyAffiliateRebateForOrder E now po)"
proof -
  have "stxR (shop_rel books) (rebate_tx E st now po)" for st
  proof -
    let ?claim = "bindA (insert_audit (po_id po) ''AFFILIATE_REBATE_APPLIED'' ''system'' None) (\<lambda>_.
           bindA (accrue_in_tx (re_cal E) st now (case re_codes E of [] \<Rightarrow> None | c # _ \<Rightarrow> c) (case re_codes' E of [] \<Rightarrow> None | c # _ \<Rightarrow> c)
                    (po_user po) (affiliateRebateBaseAmount po) (Some (po_id po))) (\<lambda>rebate.
           updateClaimedAffiliateRebateAudit (po_id po)
             (if rebate \<le> 0 then ''AFFILIATE_REBATE_SKIPPED'' else ''AFFILIATE_REBATE_APPLIED'')))"
    have e: "rebate_tx E st now po = (\<lambda>s. if rebate_claimed (po_id po) (sh_audit s) then returnA () s else ?claim s)"
      by (rule ext) (simp only: rebate_tx_def returnA_def)
    have "stxR (shop_rel books) ?claim" by (intro guarantee_intros)
    then show ?thesis unfolding e by (rule sr.stxR_test[OF sr.stxR_return])
  qed
  then show ?thesis unfolding applyAffiliateRebateForOrder_def by (intro guarantee_intros)
qed

lemma finish_balance_triple: "triple (shop_rel books) (handed_out po) (finish_balance E now po v) (\<lambda>_ _. True)"
  unfolding finish_balance_def by (intro sr.triple_then stable_intros guarantee_intros mark_completed_triple)

lemma used_credited:
  assumes "codes_wf s" and "c \<in> set (sh_codes s)" and "pays_for po c" and "rc_code c' = po_code po" and "used_code c' (po_user po) s"
  shows "credited po s"
proof -
  obtain d where d: "d \<in> set (sh_codes s)" "code_core d = code_core c'" "IsUsed d" "rc_used_by d = Some (po_user po)"
    using assms(5) by (auto simp: used_code_def)
  have "rc_code d = rc_code c" using assms(3,4) d(2) by (simp add: code_core_def pays_for_def)
  then have "d = c" using assms(1,2) d(1) by (auto simp: codes_wf_def distinct_map inj_on_def)
  then show ?thesis using assms d unfolding credited_def by blast
qed

definition payment_known :: "PaymentOrder \<Rightarrow> 's shop \<Rightarrow> bool" where
  "payment_known po s \<longleftrightarrow> known_order po s \<and> (\<exists>c\<in>set (sh_codes s). pays_for po c)"

lemma payment_known_stable [stable_intros]: "stable (shop_rel books) (payment_known po)"
proof -
  have "\<exists>c\<in>set (sh_codes s'). pays_for po c" if "payment_known po s" "shop_rel books s s'" for s s' :: "'a shop"
  proof -
    have "codes_kept s s'" using that by (auto simp: payment_known_def known_order_def shop_rel_def)
    then show ?thesis using that(1) pays_for_core unfolding payment_known_def codes_kept_def by metis
  qed
  then show ?thesis using known_order_stable[of books po] unfolding stable_def payment_known_def by blast
qed

lemma pay_triple:
  assumes "po_type po = OrderTypeBalance"
  shows "triple (shop_rel books) (payment_known po)
    (bindW (redeemForPaymentFulfillment E n (po_user po) (po_code po)) (\<lambda>_. finish_balance E now po v)) (\<lambda>_ _. True)"
proof (rule sr.triple_bind[OF payment_known_stable])
  show "triple (shop_rel books) (payment_known po) (redeemForPaymentFulfillment E n (po_user po) (po_code po))
     (\<lambda>_ s. \<exists>c. rc_code c = po_code po \<and> used_code c (po_user po) s)"
    unfolding redeemForPaymentFulfillment_def
    by (rule triple_pre[OF redeem_triple]) (simp add: payment_known_def known_order_def)
  fix a
  show "triple (shop_rel books) (\<lambda>s. payment_known po s \<and> (\<exists>c. rc_code c = po_code po \<and> used_code c (po_user po) s)) (finish_balance E now po v) (\<lambda>_ _. True)"
  proof (rule triple_pre[OF finish_balance_triple], elim conjE exE)
    fix s c assume "payment_known po s" "rc_code c = po_code po" "used_code c (po_user po) s"
    then have "credited po s" unfolding payment_known_def known_order_def using used_credited by blast
    then show "handed_out po s" using assms \<open>payment_known po s\<close>
      by (simp add: handed_out_def delivered_def payment_known_def order_type_defs)
  qed
qed

lemma create_code_triple:
  "triple (shop_rel books) (\<lambda>s. known_order po s) (CreateCode now (payment_code po)) (\<lambda>_. payment_known po)"
proof (cases "trim_space (po_code po) = po_code po")
  case True
  have no: "\<not> grants u (payment_code po)" for u by (simp add: grants_def payment_code_def)
  have "triple (shop_rel books) (known_order po) (sql (CreateRow (payment_code po))) (\<lambda>_. payment_known po)"
  proof (intro sr.triple_sql stable_intros)
    fix s r s' assume k: "known_order po s" and run: "CreateRow (payment_code po) s = (r, s')"
    have "shop_rel books s (snd (CreateRow (payment_code po) s))" using create_step[of books "payment_code po"] no unfolding stxR_def by blast
    then have R: "shop_rel books s s'" by (simp add: run)
    moreover have "payment_known po s'" if "r = Inr i" for i
    proof -
      have "known_order po s'" using known_order_stable[of books po] k R unfolding stable_def by blast
      moreover have "(payment_code po)\<lparr>rc_id := i\<rparr> \<in> set (sh_codes s')" using run that by (auto simp: CreateRow_def split: if_splits)
      ultimately show ?thesis unfolding payment_known_def by (auto simp: payment_code_def pays_for_def intro!: bexI)
    qed
    ultimately show "shop_rel books s s' \<and> (\<forall>a. r = Inr a \<longrightarrow> payment_known po s')" by blast
  qed
  moreover have "(payment_code po)\<lparr>rc_code := po_code po\<rparr> = payment_code po" by (simp add: payment_code_def)
  ultimately show ?thesis
    unfolding CreateCode_def Let_def using True
    by (auto simp: payment_code_def code_type_defs code_status_defs intro!: triple_if sr.triple_fail)
next
  case False
  have "\<not> known_order po s" for s :: "'a shop"
  proof
    assume "known_order po s"
    then obtain p where "p \<in> set (sh_orders s)" "po_code p = po_code po" "orders_wf s" by (auto simp: known_order_def order_core_def)
    then have "trim_space (po_code po) = po_code po" unfolding orders_wf_def by metis
    with False show False by blast
  qed
  then show ?thesis by (simp add: triple_def)
qed

lemma valid_pays: "validatePaymentRedeemCode po c \<Longrightarrow> pays_for po c \<and> rc_code c = po_code po \<and> (IsUsed c \<longrightarrow> rc_used_by c = Some (po_user po))"
  by (auto simp: validatePaymentRedeemCode_def pays_for_def IsUsed_def code_status_defs split: if_splits)

lemma do_balance_triple:
  assumes "po_type po = OrderTypeBalance"
  shows "triple (shop_rel books) (known_order po) (doBalance E now po v) (\<lambda>_ _. True)"
  unfolding doBalance_def
proof (rule sr.triple_bind[OF known_order_stable triple_pre[OF get_code_triple]], goal_cases)
  case (1 s) then show ?case by (simp add: known_order_def)
next
  case (2 r)
  note pay = pay_triple[OF assms]
  show ?case
  proof (cases r)
    case (Inl e)
    have "triple (shop_rel books) (known_order po) (bindW (CreateCode (now 1) (payment_code po)) (\<lambda>_.
        bindW (redeemForPaymentFulfillment E (\<lambda>i. now (i + 2)) (po_user po) (po_code po)) (\<lambda>_. finish_balance E now po v))) (\<lambda>_ _. True)"
      by (rule sr.triple_bind[OF known_order_stable create_code_triple]) (rule triple_pre[OF pay], blast)
    then show ?thesis using Inl by (simp add: resolveRedeemAction_def sr.triple_fail split: if_split)
  next
    case (Inr c)
    have known: "payment_known po s" if "known_order po s" "known_code c s" "pays_for po c" for s :: "'a shop"
      using that pays_for_core unfolding payment_known_def known_code_def by metis
    have out: "handed_out po s" if "known_order po s" "known_code c s" "validatePaymentRedeemCode po c" "IsUsed c" for s :: "'a shop"
      using that valid_pays[OF that(3)] assms unfolding handed_out_def delivered_def credited_def known_code_def by (auto simp: order_type_defs)
    show ?thesis
    proof (cases "validatePaymentRedeemCode po c")
      case False
      then show ?thesis unfolding Inr resolveRedeemAction_def by (cases "IsUsed c") (simp_all add: sr.triple_fail)
    next
      case True
      note p = conjunct1[OF valid_pays[OF True]]
      show ?thesis
      proof (cases "IsUsed c")
        case used: True
        then show ?thesis
          unfolding Inr resolveRedeemAction_def sum.case
          by (simp only: True if_True if_False not_True_eq_False sum.case simp_thms) (rule triple_pre[OF finish_balance_triple], use out True used in blast)
      next
        case False
        have "triple (shop_rel books) (payment_known po) (bindW (returnW 0) (\<lambda>_.
            bindW (redeemForPaymentFulfillment E (\<lambda>i. now (i + 2)) (po_user po) (po_code po)) (\<lambda>_. finish_balance E now po v))) (\<lambda>_ _. True)"
          by (rule sr.triple_then[OF payment_known_stable sr.guarantees_return pay])
        then show ?thesis
          unfolding Inr resolveRedeemAction_def sum.case
          by (simp only: True False if_True if_False not_True_eq_False sum.case redeemAction.distinct) (erule triple_pre, use known p in blast)
      qed
    qed
  qed
qed

lemma with_lease_triple:
  assumes "stable (shop_rel books) P" and "\<And>v. triple (shop_rel books) P (work v) (\<lambda>_ _. True)"
  shows "triple (shop_rel books) P (with_lease now i work) (\<lambda>_ _. True)"
  unfolding with_lease_def
proof (rule sr.triple_then[OF assms(1)], intro guarantee_intros)
  fix lease :: "int option"
  show "triple (shop_rel books) P (case lease of None \<Rightarrow> returnW () | Some v \<Rightarrow>
      bindW (catchW (work v)) (\<lambda>r. case r of Inr _ \<Rightarrow> returnW () | Inl e \<Rightarrow> bindW (markFailed (now 9) i v) (\<lambda>_. failW e))) (\<lambda>_ _. True)"
  proof (cases lease)
    case (Some v)
    have "triple (shop_rel books) P (bindW (catchW (work v))
      (\<lambda>r. case r of Inr _ \<Rightarrow> returnW () | Inl e \<Rightarrow> bindW (markFailed (now 9) i v) (\<lambda>_. failW e))) (\<lambda>_ _. True)"
      by (rule sr.triple_bind[OF assms(1) sr.triple_catch[OF assms]], rule sr.triple_guarantees, intro guarantee_intros)
    then show ?thesis by (simp only: Some option.case)
  qed (simp add: sr.triple_return)
qed

section \<open>Subscription orders\<close>

definition sub_ready :: "PaymentOrder \<Rightarrow> 's shop \<Rightarrow> bool" where
  "sub_ready po s \<longleftrightarrow> known_order po s \<and> assigned (po_id po) s"

lemma sub_ready_stable [stable_intros]: "stable (shop_rel books) (sub_ready po)"
proof -
  have "assigned (po_id po) s'" if "sub_ready po s" "shop_rel books s s'" for s s' :: "'a shop"
    using that by (auto simp: sub_ready_def known_order_def shop_rel_def audit_kept_def)
  then show ?thesis using known_order_stable[of books po] unfolding stable_def sub_ready_def by blast
qed

lemma assign_order_steps: "stxR (shop_rel books) (assign_order cal now po g days)"
proof -
  have b: "stxR (shop_rel books) (bindA (case y of Inr ex \<Rightarrow> if B ex then returnA () else bindA (on_subs p) (\<lambda>_. returnA ())
      | Inl e \<Rightarrow> if C e then failA e else bindA (on_subs p) (\<lambda>_. returnA ()))
     (\<lambda>_. insert_audit i a w d))" for y :: "err + UserSubscription" and B C and p :: "(UserSubscription \<times> bool) act" and i a w d
    by (cases y) (auto intro!: guarantee_intros)
  show ?thesis unfolding stxR_def assign_order_def Let_def by (rule allI) (rule stxRD[OF b])
qed

lemma assign_order_assigned: "assign_order cal now po g days s = (Inr u, s') \<Longrightarrow> assigned (po_id po) s'"
  unfolding assign_order_def Let_def bindA_def
  by (auto simp: insert_audit_def assigned_def hasPaymentSubscriptionAssignmentAudit_def has_audit_def split: prod.splits sum.splits if_splits)

lemma ensure_assigned_triple:
  "triple (shop_rel books) (known_order po) (ensurePaymentSubscriptionAssigned E cached now po g days) (\<lambda>_. sub_ready po)"
proof -
  let ?claimed = "\<lambda>s. hasPaymentSubscriptionAssignmentAudit (po_id po) (sh_audit s)"
  let ?tail = "invalidateSubscriptionCaches cached"
  have look: "triple (shop_rel books) (known_order po) (query ?claimed) (\<lambda>x s. x \<longrightarrow> sub_ready po s)" if "True"
  proof -
    have "triple (shop_rel books) (known_order po) (query ?claimed) (\<lambda>x s. known_order po s \<and> x = ?claimed s)"
      unfolding query_def by (rule sr.triple_round_trip) (auto simp: sr.same intro: stable_intros)
    then show ?thesis by (rule triple_post) (simp add: sub_ready_def assigned_def)
  qed
  have tail: "triple (shop_rel books) (sub_ready po) ?tail (\<lambda>_. sub_ready po)"
  proof -
    have "triple (shop_rel books) (sub_ready po) (query (\<lambda>_. ())) (\<lambda>_. sub_ready po)"
      unfolding query_def by (rule sr.triple_round_trip) (auto simp: sr.same intro: stable_intros)
    then show ?thesis unfolding invalidateSubscriptionCaches_def
      by (auto intro!: triple_if sr.triple_return sr.triple_bind[OF sub_ready_stable] elim: triple_pre)
  qed
  have tx: "triple (shop_rel books) (known_order po) (in_tx (assign_order (re_cal E) now po g days)) (\<lambda>_. sub_ready po)"
  proof (intro sr.triple_tx stable_intros)
    fix s a s' assume k: "known_order po s" and run: "assign_order (re_cal E) now po g days s = (Inr a, s')"
    have R: "shop_rel books s s'" using assign_order_steps[of books "re_cal E" now po g days] run unfolding stxR_def by (metis snd_conv)
    then have "known_order po s'" using known_order_stable[of books po] k unfolding stable_def by blast
    then show "shop_rel books s s' \<and> sub_ready po s'" using R assign_order_assigned[OF run] by (simp add: sub_ready_def)
  qed
  have retry: "triple (shop_rel books) (known_order po)
      (bindW (catchW (query ?claimed)) (\<lambda>claimed. if claimed = Inr True then returnW True else failW e)) (\<lambda>_. sub_ready po)" for e
    by (rule sr.triple_bind[OF known_order_stable sr.triple_catch[OF known_order_stable look]])
      (auto intro!: triple_if sr.triple_return sr.triple_fail)
  have get: "triple (shop_rel books) (\<lambda>s. known_order po s \<and> (already \<longrightarrow> sub_ready po s))
     (if already then returnW True
      else bindW (catchW (in_tx (assign_order (re_cal E) now po g days))) (\<lambda>r. case r of
             Inr _ \<Rightarrow> returnW True
           | Inl e \<Rightarrow> if e = ErrConstraint
               then bindW (catchW (query ?claimed)) (\<lambda>claimed. if claimed = Inr True then returnW True else failW e)
               else failW e)) (\<lambda>_. sub_ready po)" for already
  proof (rule triple_if)
    have "triple (shop_rel books) (known_order po)
      (bindW (catchW (in_tx (assign_order (re_cal E) now po g days))) (\<lambda>r. case r of
             Inr _ \<Rightarrow> returnW True
           | Inl e \<Rightarrow> if e = ErrConstraint
               then bindW (catchW (query ?claimed)) (\<lambda>claimed. if claimed = Inr True then returnW True else failW e)
               else failW e)) (\<lambda>_. sub_ready po)"
    proof (rule sr.triple_bind[OF known_order_stable sr.triple_catch[OF known_order_stable tx]], goal_cases)
      case (1 r)
      then show ?case by (cases r) (auto intro!: sr.triple_return sr.triple_fail triple_if triple_pre[OF retry])
    qed
    then show "triple (shop_rel books) (\<lambda>s. known_order po s \<and> (already \<longrightarrow> sub_ready po s))
      (bindW (catchW (in_tx (assign_order (re_cal E) now po g days))) (\<lambda>r. case r of
             Inr _ \<Rightarrow> returnW True
           | Inl e \<Rightarrow> if e = ErrConstraint
               then bindW (catchW (query ?claimed)) (\<lambda>claimed. if claimed = Inr True then returnW True else failW e)
               else failW e)) (\<lambda>_. sub_ready po)" by (rule triple_pre) blast
  qed (auto intro: sr.triple_return)
  have st: "stable (shop_rel books) (\<lambda>s. known_order po s \<and> (already \<longrightarrow> sub_ready po s))" for already
    by (cases already) (auto intro: stable_intros)
  show ?thesis
    unfolding ensurePaymentSubscriptionAssigned_def
  proof (rule sr.triple_bind[OF known_order_stable look[OF TrueI]])
    show "triple (shop_rel books) (\<lambda>s. known_order po s \<and> (already \<longrightarrow> sub_ready po s))
      (bindW (if already then returnW True
      else bindW (catchW (in_tx (assign_order (re_cal E) now po g days))) (\<lambda>r. case r of
             Inr _ \<Rightarrow> returnW True
           | Inl e \<Rightarrow> if e = ErrConstraint
               then bindW (catchW (query ?claimed)) (\<lambda>claimed. if claimed = Inr True then returnW True else failW e)
               else failW e)) (\<lambda>_. ?tail)) (\<lambda>_. sub_ready po)" for already
      by (rule sr.triple_bind[OF st get]) (rule triple_pre[OF tail], blast)
  qed
qed

lemma do_sub_triple:
  assumes "po_type po = OrderTypeSubscription"
  shows "triple (shop_rel books) (known_order po) (doSub E cached now po g days v) (\<lambda>_ _. True)"
proof -
  have out: "handed_out po s" if "sub_ready po s" for s :: "'a shop"
    using that assms by (simp add: handed_out_def delivered_def sub_ready_def order_type_defs)
  have fin: "triple (shop_rel books) (sub_ready po) (bindW (applyAffiliateRebateForOrder E (now 7) po) (\<lambda>_.
      markCompleted (now 8) (po_id po) v ''SUBSCRIPTION_SUCCESS'')) (\<lambda>_ _. True)"
    by (rule sr.triple_then[OF sub_ready_stable rebate_steps]) (rule triple_pre[OF mark_completed_triple], rule out)
  have main: "triple (shop_rel books) (known_order po) (bindW (ensurePaymentSubscriptionAssigned E cached (now 1) po g days) (\<lambda>_.
      bindW (applyAffiliateRebateForOrder E (now 7) po) (\<lambda>_. markCompleted (now 8) (po_id po) v ''SUBSCRIPTION_SUCCESS''))) (\<lambda>_ _. True)"
    by (rule sr.triple_bind[OF known_order_stable ensure_assigned_triple]) (rule triple_pre[OF fin], blast)
  show ?thesis
    unfolding doSub_def
    by (rule sr.triple_then[OF known_order_stable sr.guarantees_query]) (intro triple_if sr.triple_fail main)
qed

end
