(* ===== verification/Payment_Flow.thy ===== *)
theory Payment_Flow
  imports Payment_Steps
begin

text \<open>
  The methods of the payment service from their entry points: notifications, retries,
  cancellation, expiry and refunds.  \<open>sound\<close>: from a well-formed shop, every step of the
  method satisfies the relation of the shop.
\<close>

definition sound :: "books \<Rightarrow> ('s shop, 'a) prog \<Rightarrow> bool" where
  "sound books p \<longleftrightarrow> triple (shop_rel books) shop_wf p (\<lambda>_ _. True)"

named_theorems sound_intros \<open>methods whose steps satisfy the relation of the shop\<close>

lemma sound_guarantees: "guarantees (shop_rel books) p \<Longrightarrow> sound books p"
  unfolding sound_def by (rule sr.triple_guarantees)

lemma sound_bind [sound_intros]: "sound books p \<Longrightarrow> (\<And>a. sound books (k a)) \<Longrightarrow> sound books (bindW p k)"
  unfolding sound_def by (rule sr.triple_bind[OF shop_wf_stable, where Q = "\<lambda>_ _. True"]) simp_all

lemma sound_catch [sound_intros]: "sound books p \<Longrightarrow> sound books (catchW p)"
  unfolding sound_def by (rule triple_post[OF sr.triple_catch[OF shop_wf_stable]]) auto

lemma sound_try [sound_intros]: "sound books p \<Longrightarrow> sound books (tryW p)"
  unfolding sound_def by (rule sr.triple_try)

lemma sound_if [sound_intros]: "sound books p \<Longrightarrow> sound books q \<Longrightarrow> sound books (if b then p else q)"
  by simp

lemma sound_option [sound_intros]:
  "sound books p \<Longrightarrow> (\<And>a. sound books (k a)) \<Longrightarrow> sound books (case x of None \<Rightarrow> p | Some a \<Rightarrow> k a)"
  by (simp split: option.split)

lemma sound_sum [sound_intros]:
  "(\<And>a. sound books (p a)) \<Longrightarrow> (\<And>a. sound books (k a)) \<Longrightarrow> sound books (case x of Inl a \<Rightarrow> p a | Inr a \<Rightarrow> k a)"
  by (simp split: sum.split)

lemma sound_prod [sound_intros]: "(\<And>a b. sound books (k a b)) \<Longrightarrow> sound books (case x of (a, b) \<Rightarrow> k a b)"
  by (simp split: prod.split)

lemma sound_simple [sound_intros]: "sound books (returnW a)" "sound books (failW e)" "sound books (query f)"
  "sound books (writeAuditLog i x w)" "sound books (sql (get_order i))" "sound books (sql (only_order Q))"
  unfolding get_order_def by (intro sound_guarantees guarantee_intros)+

section \<open>Fulfilment\<close>

text \<open>A method that reads an order first.\<close>

lemma sound_order:
  assumes "\<And>po. Q po \<Longrightarrow> triple (shop_rel books) (known_order po) (k po) (\<lambda>_ _. True)"
  shows "sound books (bindW (sql (only_order Q)) k)"
  unfolding sound_def
proof (rule sr.triple_bind[OF shop_wf_stable get_order_triple])
  fix po
  show "triple (shop_rel books) (\<lambda>s. shop_wf s \<and> known_order po s \<and> Q po) (k po) (\<lambda>_ _. True)"
    by (rule triple_cases[of _ "Q po"], simp) (rule triple_pre[OF assms], simp_all)
qed

lemma known_sound: "sound books p \<Longrightarrow> triple (shop_rel books) (known_order po) p (\<lambda>_ _. True)"
  unfolding sound_def by (erule triple_pre) (auto simp: known_order_def shop_wf_def)

lemma execute_balance_sound [sound_intros]: "sound books (ExecuteBalanceFulfillment E now i)"
  unfolding ExecuteBalanceFulfillment_def get_order_def
  by (rule sound_order) (auto intro!: triple_if sr.triple_fail sr.triple_return with_lease_triple stable_intros do_balance_triple)

text \<open>The order that is read again is the one whose type was seen: the columns do not change.\<close>

lemma execute_subscription_triple:
  assumes "po_id po = i" and "po_type po = OrderTypeSubscription"
  shows "triple (shop_rel books) (known_order po) (ExecuteSubscriptionFulfillment E cached now i) (\<lambda>_ _. True)"
  unfolding ExecuteSubscriptionFulfillment_def get_order_def
proof (rule sr.triple_bind[OF known_order_stable triple_pre[OF get_order_triple]], goal_cases)
  case (1 s) then show ?case by (simp add: known_order_def shop_wf_def)
next
  case (2 q)
  have body: "triple (shop_rel books) (known_order q) (if po_status q = OrderStatusCompleted then returnW ()
     else if psIsRefundStatus (po_status q) then failW ErrInvalidStatus
     else if \<not> may_fulfill q then failW ErrInvalidStatus
     else (case (po_group q, po_days q) of
             (Some g, Some days) \<Rightarrow> with_lease now i (doSub E cached now q g days)
           | _ \<Rightarrow> failW ErrInvalidStatus)) (\<lambda>_ _. True)" if "po_type q = OrderTypeSubscription"
    using that by (auto intro!: triple_if sr.triple_fail sr.triple_return with_lease_triple stable_intros do_sub_triple split: option.split)
  have kind: "po_type q = OrderTypeSubscription" if k: "known_order po s" and q: "known_order q s" and i: "po_id q = i" for s :: "'a shop"
  proof -
    obtain p where "p \<in> set (sh_orders s)" "order_core p = order_core q" using q by (auto simp: known_order_def)
    moreover have "order_core p = order_core po" using same_order[OF k] calculation i assms(1) by (auto simp: order_core_def)
    ultimately show ?thesis using assms(2) by (simp add: order_core_def)
  qed
  show ?case
    by (rule triple_cases[where b = "po_type q = OrderTypeSubscription"], use kind in blast) (rule triple_pre[OF body], simp_all)
qed

lemma reject_sound: "sound books (rejectUnsupportedOrderType now po)"
proof -
  have "stxR (shop_rel books) (update_orders (\<lambda>p. po_id p = po_id po \<and> po_status p \<in> {OrderStatusPaid, OrderStatusRecharging})
       (\<lambda>p. p\<lparr>po_status := OrderStatusFailed, po_failed_at := Some now\<rparr>) now)"
    by (rule orders_steps) (auto simp: order_core_def settled_def psIsRefundStatus_def order_status_defs)
  then have "guarantees (shop_rel books) (rejectUnsupportedOrderType now po)"
    unfolding rejectUnsupportedOrderType_def by (intro guarantee_intros)
  then show ?thesis by (rule sound_guarantees)
qed

lemma execute_sound [sound_intros]: "sound books (executeFulfillment E cached now i)"
  unfolding executeFulfillment_def get_order_def
  by (rule sound_order) (intro triple_if execute_subscription_triple known_sound[OF execute_balance_sound] known_sound[OF reject_sound])

lemma retry_sound [sound_intros]: "sound books (RetryFulfillment E cached now i)"
  unfolding RetryFulfillment_def by (intro sound_intros)

section \<open>Notifications, cancellation and expiry\<close>

lemma to_paid_sound [sound_intros]: "sound books (toPaid E cached now po t x pk)"
proof -
  have "stxR (shop_rel books) (update_orders (\<lambda>p. po_id p = po_id po \<and> payable (now 10) p)
              (\<lambda>p. p\<lparr>po_status := OrderStatusPaid, po_pay := x, po_trade_no := t, po_paid_at := Some (now 10),
                     po_failed_at := None\<rparr>) (now 10))"
    by (rule orders_steps) (auto simp: order_core_def settled_def payable_def psIsRefundStatus_def order_status_defs)
  then have "sound books (sql (update_orders (\<lambda>p. po_id p = po_id po \<and> payable (now 10) p)
              (\<lambda>p. p\<lparr>po_status := OrderStatusPaid, po_pay := x, po_trade_no := t, po_paid_at := Some (now 10),
                     po_failed_at := None\<rparr>) (now 10)))"
    by (intro sound_guarantees guarantee_intros)
  then show ?thesis unfolding toPaid_def alreadyProcessed_def by (intro sound_intros)
qed

lemma confirm_sound [sound_intros]: "sound books (confirmPayment E cached now check i n pk)"
  unfolding confirmPayment_def by (intro sound_intros)

lemma notification_sound [sound_intros]: "sound books (HandlePaymentNotification E cached now check n pk)"
  unfolding HandlePaymentNotification_def by (intro sound_intros)

lemma handle_paid_sound [sound_intros]: "sound books (handle_paid E cached now check eqf pv po a)"
proof -
  have "stxR (shop_rel books) (update_orders (\<lambda>p. po_id p = po_id po) (\<lambda>p. p\<lparr>po_trade_no := t\<rparr>) m)" for t m
    by (rule orders_steps) (auto simp: order_core_def settled_def)
  then have "sound books (sql (update_orders (\<lambda>p. po_id p = po_id po) (\<lambda>p. p\<lparr>po_trade_no := t\<rparr>) m))" for t m
    by (intro sound_guarantees guarantee_intros)
  then show ?thesis unfolding handle_paid_def Let_def by (intro sound_intros)
qed

lemma check_paid_sound [sound_intros]: "sound books (checkPaidWithOptions E cached now check eqf prov po)"
  unfolding checkPaidWithOptions_def by (intro sound_intros)

lemma cancel_core_sound:
  assumes "status = OrderStatusCancelled \<or> status = OrderStatusExpired"
  shows "sound books (cancelCore E cached now check eqf prov po status who)"
proof -
  have "stxR (shop_rel books) (update_orders (\<lambda>p. po_id p = po_id po \<and> po_status p = OrderStatusPending) (\<lambda>p. p\<lparr>po_status := status\<rparr>) (now 12))"
    by (rule orders_steps) (use assms in \<open>auto simp: order_core_def settled_def psIsRefundStatus_def order_status_defs\<close>)
  then have "sound books (sql (update_orders (\<lambda>p. po_id p = po_id po \<and> po_status p = OrderStatusPending) (\<lambda>p. p\<lparr>po_status := status\<rparr>) (now 12)))"
    by (intro sound_guarantees guarantee_intros)
  then show ?thesis unfolding cancelCore_def by (intro sound_intros)
qed

lemma cancel_sound [sound_intros]: "sound books (CancelOrder E cached now check eqf prov i u)"
  "sound books (AdminCancelOrder E cached now check eqf prov i)"
  unfolding CancelOrder_def AdminCancelOrder_def by (intro sound_intros cancel_core_sound disjI1 refl)+

lemma expire_loop_sound: "sound books (expire_loop E cached now check eqf prov k os n)"
  by (induction os arbitrary: k n) (simp_all, (intro sound_intros cancel_core_sound disjI2 refl | assumption)+)

lemma expire_sound [sound_intros]: "sound books (ExpireTimedOutOrders E cached t now check eqf prov)"
  unfolding ExpireTimedOutOrders_def by (intro sound_intros expire_loop_sound)

end
