(* ===== verification/Refund_Steps.thy ===== *)
theory Refund_Steps
  imports Payment_Flow
begin

text \<open>
  Refunds keep the relation of the shop without its books: a refund that is rolled back
  counts as a recharge.
\<close>

definition settled_id :: "id \<Rightarrow> 's shop \<Rightarrow> bool" where
  "settled_id i s \<longleftrightarrow> codes_wf s \<and> orders_wf s \<and> (\<exists>q\<in>set (sh_orders s). po_id q = i \<and> settled q)"

lemma settled_id_stable [stable_intros]: "stable (shop_rel books) (settled_id i)"
proof -
  have "\<exists>q\<in>set (sh_orders s'). po_id q = i \<and> settled q" if k: "settled_id i s" and R: "shop_rel books s s'" for s s' :: "'a shop"
  proof -
    obtain q where "q \<in> set (sh_orders s)" "po_id q = i" "settled q" using k by (auto simp: settled_id_def)
    moreover have "orders_kept s s'" using k R by (auto simp: settled_id_def shop_rel_def)
    ultimately obtain q' where "q' \<in> set (sh_orders s')" "order_core q' = order_core q" "settled q'" unfolding orders_kept_def by blast
    then show ?thesis using \<open>po_id q = i\<close> by (auto simp: order_core_def)
  qed
  then show ?thesis using shop_wf_stable[of books] unfolding stable_def settled_id_def shop_wf_def by blast
qed

text \<open>An update by id of an order that reached its end.\<close>

lemma settled_update:
  assumes "settled_id i s" and "\<And>p. order_core (f p) = order_core p" and "\<And>p. settled (f p)"
  shows "shop_rel books s (snd (update_order i f now s))"
proof -
  obtain q where q: "q \<in> set (sh_orders s)" "po_id q = i" "settled q" using assms(1) by (auto simp: settled_id_def)
  have "shop_rel books s (snd (update_orders (\<lambda>p. po_id p = i) f now s))"
  proof (rule orders_step)
    fix p assume "p \<in> set (sh_orders s)" "po_id p = i" "orders_wf s"
    then have "p = q" using q by (auto simp: orders_wf_def distinct_map inj_on_def)
    then show "settled p \<or> delivered p s" using q by simp
  qed (use assms in auto)
  then show ?thesis by (simp add: update_order_def bindA_def update_orders_def failA_def returnA_def)
qed

lemma settled_updates:
  assumes "\<And>p. order_core (f p) = order_core p" and "\<And>p. settled (f p)"
  shows "triple (shop_rel books) (settled_id i) (sql (update_order i f now)) (\<lambda>_ _. True)"
  by (intro sr.triple_sql stable_intros) (use settled_update[OF _ assms] in \<open>metis snd_conv\<close>)

lemma restore_steps: "triple (shop_rel books) (settled_id (po_id (rp_order p))) (restoreStatus now p) (\<lambda>_ _. True)"
  unfolding restoreStatus_def
  by (rule sr.triple_try[OF settled_updates]) (auto simp: order_core_def settled_def psIsRefundStatus_def)

lemma abort_steps: "triple (shop_rel books) (settled_id (po_id (rp_order p))) (abort_refund now p e) Q"
  unfolding abort_refund_def by (rule sr.triple_bind[OF settled_id_stable restore_steps sr.triple_fail])

text \<open>The statements of a deduction and of its return.\<close>

lemma deduct_available_step [guarantee_intros]: "stxR (shop_rel books) (DeductAvailableBalance u x)"
  unfolding stxR_def DeductAvailableBalance_def Let_def
  by (auto intro!: frame_step transfers_ledger audit_same simp: sr.same split: option.split)

lemma update_balance_step [guarantee_intros]: "stxR (shop_rel (Loose k)) (UpdateBalance u x)"
  unfolding stxR_def UpdateBalance_def update_account_def
  by (auto intro!: code_step audit_same simp: codes_wf_def codes_kept_def paid_in_def granted_def redeemed_def transfers_def
      sr.same split: option.split)

lemma extend_steps [guarantee_intros]: "guarantees (shop_rel books) (shopExtendSubscription cal now i d)"
  unfolding shopExtendSubscription_def by (intro guarantee_intros)

lemma revoke_steps [guarantee_intros]: "guarantees (shop_rel books) (shopRevokeSubscription c now i)"
  unfolding shopRevokeSubscription_def invalidateSubscriptionCaches_def by (intro guarantee_intros)

abbreviation at_end :: "books \<Rightarrow> RefundPlan \<Rightarrow> ('s shop, 'a) prog \<Rightarrow> ('a \<Rightarrow> 's shop \<Rightarrow> bool) \<Rightarrow> bool" where
  "at_end books p \<equiv> triple (shop_rel books) (settled_id (po_id (rp_order p)))"

lemma deduct_balance_steps: "at_end books p (deduct_balance now p) (\<lambda>p' _. rp_order p' = rp_order p)"
proof -
  have "guarantees (shop_rel books) (catchW (sql (DeductAvailableBalance (po_user (rp_order p)) (rp_balance p))))"
    by (intro guarantee_intros)
  then have main: "at_end books p (bindW (catchW (sql (DeductAvailableBalance (po_user (rp_order p)) (rp_balance p)))) (\<lambda>r. case r of
                  Inl e \<Rightarrow> abort_refund (now 1) p e | Inr d \<Rightarrow> returnW (p\<lparr>rp_balance := d\<rparr>))) (\<lambda>p' _. rp_order p' = rp_order p)"
    by (rule sr.triple_then[OF settled_id_stable]) (auto intro: abort_steps sr.triple_return split: sum.split)
  show ?thesis
    unfolding deduct_balance_def
    by (rule triple_if, rule sr.triple_then[OF settled_id_stable log_steps(2)], rule triple_if, rule sr.triple_return, simp,
        rule main, rule sr.triple_return, simp)
qed

lemma deduct_days_steps: "at_end books p (deduct_days cal cached now p) (\<lambda>p' _. rp_order p' = rp_order p)"
proof -
  let ?Q = "\<lambda>p' _. rp_order p' = rp_order p"
  have revoke: "at_end books p (bindW (catchW (shopRevokeSubscription cached (now 3) (rp_sub p))) (\<lambda>r. case r of
      Inr _ \<Rightarrow> returnW p | Inl e \<Rightarrow> abort_refund (now 4) p e)) ?Q"
    by (rule sr.triple_then[OF settled_id_stable], intro guarantee_intros) (auto intro: abort_steps sr.triple_return split: sum.split)
  have main: "at_end books p (bindW (catchW (shopExtendSubscription cal (now 2) (rp_sub p) (- rp_days p))) (\<lambda>r. case r of
      Inr _ \<Rightarrow> returnW p
    | Inl e \<Rightarrow> if e = ErrAdjustWouldExpire
        then bindW (catchW (shopRevokeSubscription cached (now 3) (rp_sub p))) (\<lambda>r. case r of Inr _ \<Rightarrow> returnW p | Inl e \<Rightarrow> abort_refund (now 4) p e)
        else abort_refund (now 4) p e)) ?Q"
    by (rule sr.triple_then[OF settled_id_stable], intro guarantee_intros) (auto intro: abort_steps sr.triple_return revoke triple_if split: sum.split)
  show ?thesis
    unfolding deduct_days_def
    by (rule triple_if, rule sr.triple_then[OF settled_id_stable log_steps(2)], rule triple_if, rule sr.triple_return, simp,
        rule main, rule sr.triple_return, simp)
qed

lemma gateway_steps [guarantee_intros]: "guarantees (shop_rel books) (gwRefund prov reply p)"
  unfolding gwRefund_def by (intro guarantee_intros) (auto intro!: guarantee_intros split: refund_reply.split)

lemma rollback_steps [guarantee_intros]: "guarantees (shop_rel (Loose k)) (RollbackRefund cal now p)"
  unfolding RollbackRefund_def Let_def by (intro guarantee_intros)

lemma gateway_failure_steps: "at_end (Loose k) p (handleGwFail cal now p) (\<lambda>_ _. True)"
proof -
  let ?i = "po_id (rp_order p)"
  have failed: "at_end (Loose k) p (bindW (tryW (sql (update_order ?i (\<lambda>q. q\<lparr>po_status := OrderStatusRefundFailed, po_failed_at := Some (now 6)\<rparr>) (now 6)))) (\<lambda>_.
              bindW (writeAuditLog ?i ''REFUND_FAILED'' ''admin'') (\<lambda>_. failW (ErrInvalid ''REFUND_FAILED'')))) (\<lambda>_ _. True)"
    by (rule sr.triple_bind[OF settled_id_stable sr.triple_try[OF settled_updates]])
      (auto simp: order_core_def settled_def psIsRefundStatus_def intro: sr.triple_then_fail guarantee_intros)
  have kept: "at_end (Loose k) p (bindW (restoreStatus (now 6) p) (\<lambda>_. bindW (writeAuditLog ?i ''REFUND_GATEWAY_FAILED'' ''admin'') (\<lambda>_.
              returnW unsuccessful))) (\<lambda>_ _. True)"
    by (rule sr.triple_bind[OF settled_id_stable restore_steps], rule sr.triple_guarantees, intro guarantee_intros)
  show ?thesis
    unfolding handleGwFail_def Let_def
    by (rule sr.triple_then[OF settled_id_stable rollback_steps]) (intro triple_if failed kept)
qed

lemma finish_refund_steps: "at_end books p (finishRefund now p r) (\<lambda>_ _. True)"
proof -
  have ok: "at_end books p (markRefundOk (now 6) p) (\<lambda>_ _. True)"
    unfolding markRefundOk_def
    by (rule sr.triple_bind[OF settled_id_stable settled_updates], simp add: refunded_order_def order_core_def,
        simp add: refunded_order_def settled_def psIsRefundStatus_def, rule sr.triple_guarantees, intro guarantee_intros)
  have "at_end books p (in_tx (pending_tx (now 6) p (snd r))) (\<lambda>_ _. True)"
  proof (intro sr.triple_tx stable_intros conjI)
    fix s a s' assume st: "settled_id (po_id (rp_order p)) s" and run: "pending_tx (now 6) p (snd r) s = (Inr a, s')"
    then obtain s1 d where 1: "update_order (po_id (rp_order p)) (pending_order p) (now 6) s = (Inr (), s1)"
      and 2: "insert_audit (po_id (rp_order p)) ''REFUND_PENDING'' ''admin'' d s1 = (Inr a, s')"
      by (auto simp: pending_tx_def bindA_def split: prod.splits sum.splits)
    have "shop_rel books s (snd (update_order (po_id (rp_order p)) (pending_order p) (now 6) s))"
      by (rule settled_update[OF st]) (auto simp: pending_order_def order_core_def settled_def psIsRefundStatus_def)
    moreover have "shop_rel books s1 s'" using stxRD[OF frame_audit(1), of books] 2 by (metis snd_conv)
    ultimately show "shop_rel books s s'" using 1 sr.trans by (metis snd_conv)
  qed simp
  then have "at_end books p (markRefundPending (now 6) p (snd r)) (\<lambda>_ _. True)"
    unfolding markRefundPending_def by (rule sr.triple_bind[OF settled_id_stable]) (simp add: sr.triple_return)
  with ok show ?thesis unfolding finishRefund_def by (rule triple_if[rotated])
qed

lemma start_refund: "triple (shop_rel books) shop_wf (sql (update_orders
       (\<lambda>q. po_id q = i \<and> po_status q \<in> {OrderStatusCompleted, OrderStatusRefundRequested, OrderStatusRefundFailed})
       (\<lambda>q. q\<lparr>po_status := OrderStatusRefunding\<rparr>) now)) (\<lambda>c s. c \<noteq> 0 \<longrightarrow> settled_id i s)"
proof (intro sr.triple_sql stable_intros conjI allI impI)
  let ?P = "\<lambda>q. po_id q = i \<and> po_status q \<in> {OrderStatusCompleted, OrderStatusRefundRequested, OrderStatusRefundFailed}"
  let ?f = "\<lambda>q. q\<lparr>po_status := OrderStatusRefunding\<rparr>"
  fix s r s' assume wf: "shop_wf s" and run: "update_orders ?P ?f now s = (r, s')"
  have "stxR (shop_rel books) (update_orders ?P ?f now)"
    by (rule orders_steps) (auto simp: order_core_def settled_def psIsRefundStatus_def order_status_defs)
  from stxRD[OF this, of s] show R: "shop_rel books s s'" by (simp only: run snd_conv)
  fix c assume c: "r = Inr c" "c \<noteq> 0"
  have "filter ?P (sh_orders s) \<noteq> []" using run c by (auto simp: update_orders_def)
  then obtain q where q: "q \<in> set (sh_orders s)" "?P q" by (auto simp: filter_empty_conv)
  then have "settled_id i s" using wf by (auto simp: settled_id_def shop_wf_def settled_def psIsRefundStatus_def)
  then show "settled_id i s'" using settled_id_stable[of books i] R unfolding stable_def by blast
qed

lemma execute_refund_sound: "sound (Loose k) (ExecuteRefund cal cached now prov reply p)"
proof -
  have fin: "at_end (Loose k) p (case resp of None \<Rightarrow> handleGwFail cal now p' | Some r \<Rightarrow> finishRefund now p' r) (\<lambda>_ _. True)"
    if "rp_order p' = rp_order p" for p' resp
    using gateway_failure_steps[of k p' cal now] finish_refund_steps[of "Loose k" p' now] that by (cases resp) simp_all
  have gw: "at_end (Loose k) p (bindW (gwRefund prov reply p') (\<lambda>resp. case resp of None \<Rightarrow> handleGwFail cal now p' | Some r \<Rightarrow> finishRefund now p' r))
     (\<lambda>_ _. True)" if "rp_order p' = rp_order p" for p'
    by (rule sr.triple_then[OF settled_id_stable gateway_steps fin[OF that]])
  have days: "at_end (Loose k) p (bindW (deduct_days cal cached now p') (\<lambda>p. bindW (gwRefund prov reply p) (\<lambda>resp. case resp of
             None \<Rightarrow> handleGwFail cal now p | Some r \<Rightarrow> finishRefund now p r))) (\<lambda>_ _. True)" if same: "rp_order p' = rp_order p" for p'
  proof (rule sr.triple_bind[OF settled_id_stable])
    show "at_end (Loose k) p (deduct_days cal cached now p') (\<lambda>p'' _. rp_order p'' = rp_order p)"
      using deduct_days_steps[of "Loose k" p' cal cached now] same by simp
    show "triple (shop_rel (Loose k)) (\<lambda>s. settled_id (po_id (rp_order p)) s \<and> rp_order a = rp_order p)
       (bindW (gwRefund prov reply a) (\<lambda>resp. case resp of None \<Rightarrow> handleGwFail cal now a | Some r \<Rightarrow> finishRefund now a r)) (\<lambda>_ _. True)" for a
      by (rule triple_cases[where b = "rp_order a = rp_order p"], simp) (rule triple_pre[OF gw], simp_all)
  qed
  have bal: "at_end (Loose k) p (bindW (deduct_balance now p) (\<lambda>p. bindW (deduct_days cal cached now p) (\<lambda>p. bindW (gwRefund prov reply p) (\<lambda>resp. case resp of
             None \<Rightarrow> handleGwFail cal now p | Some r \<Rightarrow> finishRefund now p r)))) (\<lambda>_ _. True)"
  proof (rule sr.triple_bind[OF settled_id_stable deduct_balance_steps])
    show "triple (shop_rel (Loose k)) (\<lambda>s. settled_id (po_id (rp_order p)) s \<and> rp_order a = rp_order p)
       (bindW (deduct_days cal cached now a) (\<lambda>p. bindW (gwRefund prov reply p) (\<lambda>resp. case resp of
             None \<Rightarrow> handleGwFail cal now p | Some r \<Rightarrow> finishRefund now p r))) (\<lambda>_ _. True)" for a
      by (rule triple_cases[where b = "rp_order a = rp_order p"], simp) (rule triple_pre[OF days], simp_all)
  qed
  show ?thesis
    unfolding ExecuteRefund_def sound_def
    by (rule sr.triple_bind[OF shop_wf_stable start_refund]) (intro triple_if sr.triple_fail triple_pre[OF bal], simp)
qed

section \<open>Convergence of a pending refund\<close>

lemma bindA_InrE:
  assumes "bindA p k s = (Inr b, s')"
  obtains a s1 where "p s = (Inr a, s1)" and "k a s1 = (Inr b, s')"
  using assms by (cases "p s") (auto simp: bindA_def split: sum.splits)

lemma step_of: "stxR (shop_rel books) p \<Longrightarrow> p s = (r, s') \<Longrightarrow> shop_rel books s s'"
  by (metis stxRD snd_conv)

lemma claim_pending_step: "(\<And>q. order_core (f q) = order_core q) \<Longrightarrow> (\<And>q. settled (f q)) \<Longrightarrow> stxR (shop_rel books) (claim_pending i f now)"
proof -
  assume f: "\<And>q. order_core (f q) = order_core q" "\<And>q. settled (f q)"
  have "stxR (shop_rel books) (update_orders (\<lambda>q. po_id q = i \<and> po_status q = OrderStatusRefundPending) f now)"
    by (rule orders_steps) (use f in \<open>auto simp: settled_def psIsRefundStatus_def\<close>)
  then show "stxR (shop_rel books) (claim_pending i f now)" unfolding claim_pending_def by (intro guarantee_intros)
qed

lemma claimed_settled:
  assumes "shop_wf s" and "claim_pending i f now s = (Inr (), s')"
  shows "settled_id i s"
proof -
  have "filter (\<lambda>q. po_id q = i \<and> po_status q = OrderStatusRefundPending) (sh_orders s) \<noteq> []"
    using assms(2) by (auto simp: claim_pending_def bindA_def update_orders_def failA_def split: if_splits)
  then obtain q where "q \<in> set (sh_orders s)" "po_id q = i" "po_status q = OrderStatusRefundPending" by (auto simp: filter_empty_conv)
  then show ?thesis using assms(1) by (auto simp: settled_id_def shop_wf_def settled_def psIsRefundStatus_def)
qed

lemma final_deduction_step:
  assumes "applyRefundFinalDeduction cal now p s = (Inr p', s')"
  shows "shop_rel books s s' \<and> rp_order p' = rp_order p"
proof (cases "rp_held p")
  case True
  then show ?thesis using assms by (simp add: applyRefundFinalDeduction_def returnA_def sr.same)
next
  case False
  let ?B = "if rp_type p = DeductionTypeBalance \<and> rp_balance p > 0
    then bindA (DeductAvailableBalance (po_user (rp_order p)) (rp_balance p)) (\<lambda>d. returnA (p\<lparr>rp_balance := d\<rparr>)) else returnA p"
  obtain p1 s1 where b: "?B s = (Inr p1, s1)"
    and d: "bindA (if rp_type p1 = DeductionTypeSubscription \<and> rp_days p1 > 0 \<and> rp_sub p1 > 0
                  then (\<lambda>s. case on_subs (extend_in_tx cal (now 2) (rp_sub p1) (- rp_days p1)) s of
                          (Inl e, s') \<Rightarrow> if e = ErrAdjustWouldExpire then on_subs (revoke_in_tx (now 3) (rp_sub p1)) s' else (Inl e, s')
                        | (Inr _, s') \<Rightarrow> (Inr (), s'))
                  else returnA ()) (\<lambda>_. returnA p1) s1 = (Inr p', s')"
    using assms False unfolding applyRefundFinalDeduction_def by (auto elim: bindA_InrE simp del: if_split)
  have "stxR (shop_rel books) ?B" by (intro guarantee_intros)
  then have 1: "shop_rel books s s1" using b by (rule step_of)
  have o1: "rp_order p1 = rp_order p" using b by (auto simp: bindA_def returnA_def split: if_splits prod.splits sum.splits)
  have sub: "shop_rel books t (snd (case on_subs x t of
                          (Inl e, s') \<Rightarrow> if e = ErrAdjustWouldExpire then on_subs y s' else (Inl e, s')
                        | (Inr _, s') \<Rightarrow> (Inr (), s')))" for x :: "UserSubscription act" and y t
  proof -
    obtain r t' where xt: "on_subs x t = (r, t')" by (cases "on_subs x t")
    have a: "shop_rel books t t'" using frame_subs xt by (rule step_of)
    have "shop_rel books t' (snd (on_subs y t'))" by (rule stxRD[OF frame_subs])
    then show ?thesis using a sr.trans[OF a] xt by (auto split: sum.split)
  qed
  have "p' = p1 \<and> shop_rel books s1 s'"
  proof (cases "rp_type p1 = DeductionTypeSubscription \<and> rp_days p1 > 0 \<and> rp_sub p1 > 0")
    case True
    then show ?thesis using d sub[of s1 "revoke_in_tx (now 3) (rp_sub p1)" "extend_in_tx cal (now 2) (rp_sub p1) (- rp_days p1)"]
      by (auto simp: bindA_def returnA_def split: prod.splits sum.splits if_splits)
  next
    case False
    then show ?thesis using d unfolding if_not_P[OF False] by (simp add: bindA_def returnA_def sr.same)
  qed
  then show ?thesis using o1 sr.trans[OF 1] by blast
qed

lemma success_steps: "triple (shop_rel books) shop_wf (in_tx (success_tx cal now p)) (\<lambda>_ _. True)"
proof (intro sr.triple_tx stable_intros conjI)
  let ?i = "po_id (rp_order p)"
  fix s a s' assume wf: "shop_wf s" and run: "success_tx cal now p s = (Inr a, s')"
  obtain s1 p2 s2 s3 s4 where c: "claim_pending ?i (\<lambda>q. q\<lparr>po_status := OrderStatusRefunding\<rparr>) (now 1) s = (Inr (), s1)"
    and d: "applyRefundFinalDeduction cal now p s1 = (Inr p2, s2)"
    and u: "update_order (po_id (rp_order p2)) (refunded_order (now 4) p2) (now 4) s2 = (Inr (), s3)"
    and l: "insert_audit (po_id (rp_order p2)) ''REFUND_SUCCESS'' ''admin'' None s3 = (Inr (), s4)" "returnA (refund_done p2) s4 = (Inr a, s')"
    using run unfolding success_tx_def by (auto elim!: bindA_InrE)
  have "stxR (shop_rel books) (claim_pending ?i (\<lambda>q. q\<lparr>po_status := OrderStatusRefunding\<rparr>) (now 1))"
    by (rule claim_pending_step) (auto simp: order_core_def settled_def psIsRefundStatus_def)
  then have 1: "shop_rel books s s1" using c by (rule step_of)
  note d2 = final_deduction_step[OF d, of books]
  have 2: "shop_rel books s s2" using sr.trans[OF 1] d2 by blast
  have "settled_id (po_id (rp_order p2)) s2"
    using settled_id_stable[of books ?i] claimed_settled[OF wf c] 2 d2 unfolding stable_def by metis
  then have "shop_rel books s2 (snd (update_order (po_id (rp_order p2)) (refunded_order (now 4) p2) (now 4) s2))"
    by (rule settled_update) (auto simp: refunded_order_def order_core_def settled_def psIsRefundStatus_def)
  then have 3: "shop_rel books s s3" using sr.trans[OF 2] by (simp only: u snd_conv)
  have "shop_rel books s3 s4" using frame_audit(1) l(1) by (rule step_of)
  then have "shop_rel books s3 s'" using l(2) by (simp add: returnA_def)
  then show "shop_rel books s s'" using sr.trans[OF 3] by blast
qed simp

lemma return_held_step: "stxR (shop_rel (Loose k)) (returnHeldRefundDeduction cal now p)"
  unfolding returnHeldRefundDeduction_def by (intro guarantee_intros)

lemma finalize_failed_step: "stxR (shop_rel (Loose k)) (finalize_failed_tx cal now p rollbackErr)"
  unfolding stxR_def
proof
  fix s :: "'a shop"
  let ?i = "po_id (rp_order p)"
  let ?claim = "claim_pending ?i (\<lambda>q. q\<lparr>po_status := OrderStatusRefundFailed, po_failed_at := Some (now 1)\<rparr>) (now 1) :: ('a shop, unit) stx"
  let ?log = "bindA (whenA rollbackErr (insert_audit ?i ''REFUND_ROLLBACK_FAILED'' ''admin'' None)) (\<lambda>_.
             bindA (insert_audit ?i ''REFUND_FAILED'' ''admin'' None) (\<lambda>_. returnA None)) :: ('a shop, err option) stx"
  have claim: "stxR (shop_rel (Loose k)) ?claim"
    by (rule claim_pending_step) (auto simp: order_core_def settled_def psIsRefundStatus_def)
  have log: "stxR (shop_rel (Loose k)) ?log" unfolding whenA_def by (intro guarantee_intros)
  obtain r s1 where c: "?claim s = (r, s1)" by (cases "?claim s")
  have 1: "shop_rel (Loose k) s s1" using claim c by (rule step_of)
  show "shop_rel (Loose k) s (snd (finalize_failed_tx cal now p rollbackErr s))"
  proof (cases r)
    case (Inl e)
    then show ?thesis using 1 c by (simp add: finalize_failed_tx_def Let_def bindA_def)
  next
    case (Inr u)
    obtain r2 s2 where h: "(if rp_held p \<and> \<not> rollbackErr then returnHeldRefundDeduction cal now p s1 else (Inr (), s1)) = (r2, s2)"
      by (meson surj_pair)
    have 2: "shop_rel (Loose k) s1 s2"
    proof (cases "rp_held p \<and> \<not> rollbackErr")
      case True
      then show ?thesis using h step_of[OF return_held_step] by simp
    next
      case False
      then have "s2 = s1" using h by (simp split: if_splits)
      then show ?thesis by (simp add: sr.same)
    qed
    have 3: "shop_rel (Loose k) s2 (snd (?log s2))" by (rule stxRD[OF log])
    have e: "finalize_failed_tx cal now p rollbackErr s = (case (r2, s2) of (Inl e, _) \<Rightarrow> (Inr (Some e), s) | (Inr _, s2) \<Rightarrow> ?log s2)"
      unfolding finalize_failed_tx_def Let_def bindA_def[of ?claim] c Inr prod.case sum.case h ..
    show ?thesis unfolding e using sr.trans[OF sr.trans[OF 1 2] 3] by (cases r2) (simp_all add: sr.same)
  qed
qed

lemma prep_steps [guarantee_intros]: "guarantees (shop_rel books) (prepDeduct l1 now po p force)"
  unfolding prepDeduct_def Let_def by (intro guarantee_intros)

lemma latest_step [guarantee_intros]: "stxR (shop_rel books) (latestRefundPendingDetail i)"
  by (simp add: stxR_def latestRefundPendingDetail_def sr.same split: list.split option.split)

lemma finalize_sound: "sound (Loose k) (QueryAndFinalizeRefund cal l1 queryable now reply i)"
proof -
  have failed: "sound (Loose k) (finalizeRefundFailed cal now p)" for p
    unfolding finalizeRefundFailed_def
    by (intro sound_intros) (intro sound_guarantees guarantee_intros finalize_failed_step)+
  have success: "sound (Loose k) (in_tx (success_tx cal now p))" for p
    unfolding sound_def by (rule success_steps)
  have detail: "sound (Loose k) (sql (latestRefundPendingDetail i))" by (intro sound_guarantees guarantee_intros)
  have prep: "sound (Loose k) (prepDeduct l1 (now 0) po p True)" for po p by (intro sound_guarantees guarantee_intros)
  show ?thesis
    unfolding QueryAndFinalizeRefund_def
    by (intro sound_intros detail) (auto split: refund_reply.split intro!: sound_intros failed success prep)
qed

lemma request_sound: "sound books (RequestRefund inst now i u reason)"
proof -
  have "stxR (shop_rel books) (update_orders
      (\<lambda>p. po_id p = i \<and> po_user p = u \<and> po_status p = OrderStatusCompleted \<and> po_type p = OrderTypeBalance)
      (\<lambda>p. p\<lparr>po_status := OrderStatusRefundRequested, po_refund_request_reason := x, po_refund_amount := y\<rparr>) now)" for x y
    by (rule orders_steps) (auto simp: order_core_def settled_def psIsRefundStatus_def)
  then have "guarantees (shop_rel books) (RequestRefund inst now i u reason)"
    unfolding RequestRefund_def get_order_def by (intro guarantee_intros)
  then show ?thesis by (rule sound_guarantees)
qed

lemma prepare_sound: "sound books (PrepareRefund inst l1 now i amt reason force deduct)"
proof -
  have "guarantees (shop_rel books) (PrepareRefund inst l1 now i amt reason force deduct)"
    unfolding PrepareRefund_def get_order_def Let_def
    by (intro guarantee_intros) (auto split: instance_lookup.split option.split intro!: guarantee_intros)
  then show ?thesis by (rule sound_guarantees)
qed

end
