(* ===== verification/Affiliate_Books.thy ===== *)
theory Affiliate_Books
  imports Rely Payment_Refund
begin

text \<open>
  The books of the affiliate programme: the three quotas of a profile are what its ledger
  says, every entry is positive, and no operation is registered twice.
\<close>

section \<open>The invariant\<close>

definition is_frozen :: "ledger_row \<Rightarrow> bool" where "is_frozen l \<longleftrightarrow> lg_frozen_until l \<noteq> None"

definition worth :: "ledger_row \<Rightarrow> rat" where
  "worth l = (if lg_action l = ''accrue'' then (if is_frozen l then 0 else lg_amount l) else - lg_amount l)"

definition frozen_part :: "ledger_row \<Rightarrow> rat" where "frozen_part l = (if is_frozen l then lg_amount l else 0)"
definition accrued_part :: "ledger_row \<Rightarrow> rat" where "accrued_part l = (if lg_action l = ''accrue'' then lg_amount l else 0)"

definition user_total :: "(ledger_row \<Rightarrow> rat) \<Rightarrow> id \<Rightarrow> ledger_row list \<Rightarrow> rat" where
  "user_total f u ls = sum_list (map (\<lambda>l. if lg_user l = u then f l else 0) ls)"

definition row_ok :: "ledger_row \<Rightarrow> bool" where
  "row_ok l \<longleftrightarrow> lg_amount l > 0 \<and> lg_action l \<in> {''accrue'', ''transfer'', ''withdraw''} \<and> (is_frozen l \<longrightarrow> lg_action l = ''accrue'')"

definition operations :: "ledger_row list \<Rightarrow> string list" where
  "operations ls = List.map_filter lg_operation ls"

text \<open>\<open>e\<close>: what a transaction under way has yet to settle with the profile of \<open>v\<close>.\<close>

definition matches :: "rat \<Rightarrow> id \<Rightarrow> ledger_row list \<Rightarrow> Affiliate \<Rightarrow> bool" where
  "matches e u ls a \<longleftrightarrow>
     af_quota a = user_total worth u ls + e \<and> af_frozen a = user_total frozen_part u ls \<and>
     af_history a = user_total accrued_part u ls \<and> af_quota a \<ge> 0"

definition affiliate_books :: "rat \<Rightarrow> id \<Rightarrow> 's shop \<Rightarrow> bool" where
  "affiliate_books e v s \<longleftrightarrow>
     (\<forall>u a. sh_affiliates s u = Some a \<longrightarrow> matches (if u = v then e else 0) u (sh_ledger s) a) \<and>
     (\<forall>l\<in>set (sh_ledger s). row_ok l \<and> sh_affiliates s (lg_user l) \<noteq> None) \<and>
     distinct (operations (sh_ledger s))"

definition affiliates_ok :: "'s shop \<Rightarrow> bool" where "affiliates_ok = affiliate_books 0 0"

definition affiliate_rel :: "'s shop \<Rightarrow> 's shop \<Rightarrow> bool" where
  "affiliate_rel s s' \<longleftrightarrow> (affiliates_ok s \<longrightarrow> affiliates_ok s')"

interpretation ar: rely affiliate_rel
  by unfold_locales (auto simp: affiliate_rel_def)

lemma no_debt: "affiliate_books 0 v s \<longleftrightarrow> affiliates_ok s"
  by (simp add: affiliates_ok_def affiliate_books_def)

lemma books_frame:
  "sh_affiliates s' = sh_affiliates s \<Longrightarrow> sh_ledger s' = sh_ledger s \<Longrightarrow> affiliate_books e v s' = affiliate_books e v s"
  by (simp add: affiliate_books_def)

lemma affiliate_frame: "sh_affiliates s' = sh_affiliates s \<Longrightarrow> sh_ledger s' = sh_ledger s \<Longrightarrow> affiliate_rel s s'"
  unfolding affiliate_rel_def affiliates_ok_def using books_frame by blast

lemma user_total_append: "user_total f u (ls @ [l]) = user_total f u ls + (if lg_user l = u then f l else 0)"
  by (simp add: user_total_def)

lemma operations_append: "operations (ls @ [l]) = operations ls @ (case lg_operation l of None \<Rightarrow> [] | Some x \<Rightarrow> [x])"
  by (simp add: operations_def map_filter_def split: option.split)

lemma operations_set: "x \<in> set (operations ls) \<longleftrightarrow> list_ex (\<lambda>l. lg_operation l = Some x) ls"
  by (force simp: operations_def map_filter_def list_ex_iff)

lemma user_total_no_rows: "(\<And>l. l \<in> set ls \<Longrightarrow> lg_user l \<noteq> u) \<Longrightarrow> user_total f u ls = 0"
  by (induction ls) (auto simp: user_total_def)

section \<open>Statements\<close>

lemma books_matches:
  "affiliate_books e v s \<Longrightarrow> sh_affiliates s u = Some b \<Longrightarrow> matches (if u = v then e else 0) u (sh_ledger s) b"
  unfolding affiliate_books_def by blast

lemma books_other: "affiliate_books e v s \<Longrightarrow> sh_affiliates s u = Some b \<Longrightarrow> u \<noteq> v \<Longrightarrow> matches 0 u (sh_ledger s) b"
  using books_matches[of e v s u b] by simp

lemma books_own: "affiliate_books e v s \<Longrightarrow> sh_affiliates s v = Some b \<Longrightarrow> matches e v (sh_ledger s) b"
  using books_matches[of e v s v b] by simp

lemma matches_other: "lg_user l \<noteq> u \<Longrightarrow> matches e u (ls @ [l]) a = matches e u ls a"
  by (simp add: matches_def user_total_append)

text \<open>A new entry, with the profile of its user changed to \<open>a'\<close>.\<close>

lemma add_row:
  assumes books: "affiliate_books e v s" and ok: "row_ok l" and v: "lg_user l = v" and a: "sh_affiliates s v \<noteq> None"
    and new: "\<And>x. lg_operation l = Some x \<Longrightarrow> \<not> list_ex (\<lambda>l. lg_operation l = Some x) (sh_ledger s)"
    and a': "matches e' v (sh_ledger s @ [l]) a'"
  shows "affiliate_books e' v (s\<lparr>sh_affiliates := (sh_affiliates s)(v \<mapsto> a'), sh_ledger := sh_ledger s @ [l], sh_next_ledger := n\<rparr>)"
proof -
  have "distinct (operations (sh_ledger s @ [l]))"
    using books new by (auto simp: affiliate_books_def operations_append operations_set split: option.split)
  moreover have "matches 0 u (sh_ledger s @ [l]) b" if "sh_affiliates s u = Some b" "u \<noteq> v" for u b
    using books_other[OF books that] that(2) v by (simp add: matches_other)
  ultimately show ?thesis using books ok v a a' by (auto simp: affiliate_books_def)
qed

lemma set_profile:
  assumes "affiliate_books e v s" and "sh_affiliates s v \<noteq> None" and "matches e' v (sh_ledger s) a'"
  shows "affiliate_books e' v (s\<lparr>sh_affiliates := (sh_affiliates s)(v \<mapsto> a')\<rparr>)"
  using assms books_other[OF assms(1)] by (auto simp: affiliate_books_def)

lemma new_profile:
  assumes ok: "affiliates_ok s"
  shows "affiliates_ok (snd (insert_affiliate now u c d s))"
proof (cases "sh_affiliates s u")
  case None
  have "\<And>l. l \<in> set (sh_ledger s) \<Longrightarrow> lg_user l \<noteq> u" using ok None by (auto simp: affiliates_ok_def affiliate_books_def)
  then have "user_total f u (sh_ledger s) = 0" for f by (rule user_total_no_rows)
  then have "matches 0 u (sh_ledger s) \<lparr>af_code = c, af_rate = None, af_inviter = None, af_count = 0, af_quota = 0, af_frozen = 0,
      af_history = 0, af_created = now\<rparr>" by (simp add: matches_def)
  then show ?thesis using ok None by (auto simp: insert_affiliate_def affiliates_ok_def affiliate_books_def)
qed (simp add: insert_affiliate_def ok)

lemma profile_field:
  assumes "\<And>a. af_quota (f a) = af_quota a \<and> af_frozen (f a) = af_frozen a \<and> af_history (f a) = af_history a"
  shows "stxR affiliate_rel (update_affiliate u P f)"
proof -
  have "matches e u ls (f a) = matches e u ls a" for e u ls a using assms by (simp add: matches_def)
  then show ?thesis
    unfolding stxR_def update_affiliate_def affiliate_rel_def affiliates_ok_def
    by (auto simp: affiliate_books_def split: option.split)
qed

text \<open>The end of a freeze.\<close>

definition thaw_row :: "int \<Rightarrow> id \<Rightarrow> ledger_row \<Rightarrow> ledger_row" where
  "thaw_row now u l = (if matured now u l then l\<lparr>lg_frozen_until := None\<rparr> else l)"

lemma thaw_totals:
  fixes now :: int and u :: id
  assumes "\<forall>l\<in>set ls. row_ok l"
  defines "x \<equiv> sum_list (map lg_amount (filter (matured now u) ls))"
  shows "user_total worth v (map (thaw_row now u) ls) = user_total worth v ls + (if v = u then x else 0)"
    and "user_total frozen_part v (map (thaw_row now u) ls) = user_total frozen_part v ls - (if v = u then x else 0)"
    and "user_total accrued_part v (map (thaw_row now u) ls) = user_total accrued_part v ls"
    and "operations (map (thaw_row now u) ls) = operations ls" and "\<forall>l\<in>set (map (thaw_row now u) ls). row_ok l"
    and "user_total frozen_part v ls \<ge> 0" and "x \<ge> 0" and "x = 0 \<Longrightarrow> map (thaw_row now u) ls = ls"
proof -
  show "user_total worth v (map (thaw_row now u) ls) = user_total worth v ls + (if v = u then x else 0)"
    using assms(1) unfolding x_def by (induction ls) (auto simp: user_total_def thaw_row_def matured_def worth_def is_frozen_def row_ok_def split: option.splits)
  show "user_total frozen_part v (map (thaw_row now u) ls) = user_total frozen_part v ls - (if v = u then x else 0)"
    using assms(1) unfolding x_def by (induction ls) (auto simp: user_total_def thaw_row_def matured_def frozen_part_def is_frozen_def split: option.splits)
  show "user_total accrued_part v (map (thaw_row now u) ls) = user_total accrued_part v ls"
    by (induction ls) (auto simp: user_total_def thaw_row_def accrued_part_def)
  show "operations (map (thaw_row now u) ls) = operations ls"
    by (induction ls) (auto simp: operations_def map_filter_def thaw_row_def)
  show "\<forall>l\<in>set (map (thaw_row now u) ls). row_ok l"
    using assms(1) by (auto simp: thaw_row_def row_ok_def is_frozen_def)
  show "user_total frozen_part v ls \<ge> 0"
    using assms(1) by (induction ls) (auto simp: user_total_def frozen_part_def row_ok_def)
  show x: "x \<ge> 0" using assms(1) unfolding x_def by (induction ls) (auto simp: row_ok_def)
  show "map (thaw_row now u) ls = ls" if "x = 0"
  proof -
    have "\<not> matured now u l" if "l \<in> set ls" for l
    proof
      assume m: "matured now u l"
      have "lg_amount l \<le> x"
        using assms(1) that m unfolding x_def by (intro member_le_sum_list) (auto simp: row_ok_def)
      then show False using \<open>x = 0\<close> assms(1) that by (auto simp: row_ok_def)
    qed
    then show ?thesis by (auto simp: thaw_row_def intro: map_idI)
  qed
qed

lemma thaw_books:
  assumes books: "affiliate_books e v s"
  shows "affiliate_books e v (snd (thawFrozenQuotaTx now u s))"
proof -
  let ?ls = "sh_ledger s"
  let ?x = "sum_list (map lg_amount (filter (matured now u) ?ls))"
  let ?s = "s\<lparr>sh_ledger := map (thaw_row now u) ?ls\<rparr>"
  have rows: "\<forall>l\<in>set ?ls. row_ok l" using books by (simp add: affiliate_books_def)
  note t = thaw_totals[OF rows]
  show ?thesis
  proof (cases "?x = 0")
    case True
    then have "snd (thawFrozenQuotaTx now u s) = s" using t(8)[of now u] by (simp add: thawFrozenQuotaTx_def Let_def thaw_row_def[symmetric])
    then show ?thesis using books by simp
  next
    case False
    then have x: "?x > 0" using t(7)[of now u] by linarith
    then obtain l where l: "l \<in> set ?ls" "matured now u l" by (metis (no_types, lifting) False filter_False list.map(1) sum_list.Nil)
    then obtain a where a: "sh_affiliates s u = Some a" using books by (fastforce simp: affiliate_books_def matured_def)
    let ?a = "a\<lparr>af_quota := af_quota a + ?x, af_frozen := max (af_frozen a - ?x) 0\<rparr>"
    have s': "snd (thawFrozenQuotaTx now u s) = ?s\<lparr>sh_affiliates := (sh_affiliates s)(u \<mapsto> ?a)\<rparr>"
      using x a by (simp add: thawFrozenQuotaTx_def Let_def update_affiliate_def bindA_def returnA_def thaw_row_def[abs_def])
    have m: "matches (if u = v then e else 0) u ?ls a" using books a by (simp add: affiliate_books_def)
    have "af_frozen a - ?x \<ge> 0"
    proof -
      have "user_total frozen_part u (map (thaw_row now u) ?ls) \<ge> 0" by (rule thaw_totals(6)[OF t(5)])
      then show ?thesis using t(2)[of u now u] m by (simp add: matches_def)
    qed
    then have own: "matches (if u = v then e else 0) u (map (thaw_row now u) ?ls) ?a"
      using m x t(1-3)[of u now u] by (simp add: matches_def)
    have others: "matches (if w = v then e else 0) w (map (thaw_row now u) ?ls) b" if "sh_affiliates s w = Some b" "w \<noteq> u" for w b
      using books_matches[OF books that(1)] that(2) t(1-3)[of w now u] by (simp add: matches_def)
    have users: "sh_affiliates s (lg_user r) \<noteq> None" if r: "r \<in> set (map (thaw_row now u) ?ls)" for r
    proof -
      obtain q where "q \<in> set ?ls" "lg_user q = lg_user r" using r by (auto simp: thaw_row_def)
      then show ?thesis using books unfolding affiliate_books_def by metis
    qed
    have ops: "distinct (operations (map (thaw_row now u) ?ls))" using t(4)[of now u] books by (simp add: affiliate_books_def)
    have sel: "sh_affiliates (snd (thawFrozenQuotaTx now u s)) = (sh_affiliates s)(u \<mapsto> ?a)"
      "sh_ledger (snd (thawFrozenQuotaTx now u s)) = map (thaw_row now u) ?ls" unfolding s' by simp_all
    show ?thesis
      unfolding affiliate_books_def sel
    proof (intro conjI allI impI ballI)
      fix w b assume "((sh_affiliates s)(u \<mapsto> ?a)) w = Some b"
      then show "matches (if w = v then e else 0) w (map (thaw_row now u) ?ls) b"
        using own others by (cases "w = u") simp_all
    next
      fix r assume r: "r \<in> set (map (thaw_row now u) ?ls)"
      show "row_ok r" using t(5)[of now u] r by blast
      show "((sh_affiliates s)(u \<mapsto> ?a)) (lg_user r) \<noteq> None" using users[OF r] by (cases "lg_user r = u") simp_all
    qed (rule ops)
  qed
qed

lemma after_books: "affiliate_books e v s \<Longrightarrow> affiliate_books e v (snd (set_after i x s))"
proof -
  let ?g = "\<lambda>l. if lg_id l = i then l\<lparr>lg_after := Some x\<rparr> else l"
  assume books: "affiliate_books e v s"
  have t: "user_total worth u (map ?g ls) = user_total worth u ls" "user_total frozen_part u (map ?g ls) = user_total frozen_part u ls"
    "user_total accrued_part u (map ?g ls) = user_total accrued_part u ls" "operations (map ?g ls) = operations ls" for u ls
    by (induction ls) (auto simp: user_total_def worth_def frozen_part_def accrued_part_def is_frozen_def operations_def map_filter_def)
  have rows: "row_ok r \<and> sh_affiliates s (lg_user r) \<noteq> None" if r: "r \<in> set (map ?g (sh_ledger s))" for r
  proof -
    obtain q where q: "q \<in> set (sh_ledger s)" "r = ?g q" using r by auto
    have "row_ok q \<and> sh_affiliates s (lg_user q) \<noteq> None" using books q(1) unfolding affiliate_books_def by blast
    then show ?thesis unfolding q(2) by (cases "lg_id q = i") (simp_all add: row_ok_def is_frozen_def)
  qed
  have m: "matches e' u (map ?g (sh_ledger s)) a = matches e' u (sh_ledger s) a" for e' u a by (simp only: matches_def t)
  have sel: "sh_affiliates (snd (set_after i x s)) = sh_affiliates s" "sh_ledger (snd (set_after i x s)) = map ?g (sh_ledger s)"
    by (simp_all add: set_after_def writeA_def)
  show ?thesis using books rows unfolding affiliate_books_def sel m t(4) by blast
qed

lemma accrue_books: "stxR affiliate_rel (AccrueQuota now i e amount h po)"
  unfolding stxR_def affiliate_rel_def
proof (intro allI impI)
  fix s :: "'a shop"
  assume ok: "affiliates_ok s"
  show "affiliates_ok (snd (AccrueQuota now i e amount h po s))"
  proof (cases "amount \<le> 0 \<or> sh_affiliates s i = None")
    case True
    then show ?thesis using ok by (auto simp: AccrueQuota_def bindA_def returnA_def update_affiliate_def split: option.split)
  next
    case False
    then obtain a where a: "sh_affiliates s i = Some a" and pos: "amount > 0" by auto
    let ?a = "if h > 0 then a\<lparr>af_frozen := af_frozen a + amount, af_history := af_history a + amount\<rparr>
              else a\<lparr>af_quota := af_quota a + amount, af_history := af_history a + amount\<rparr>"
    let ?l = "\<lparr>lg_id = sh_next_ledger s, lg_user = i, lg_action = ''accrue'', lg_amount = amount, lg_source_user = Some e, lg_source_order = po,
       lg_frozen_until = (if h > 0 then Some (now + h * hour) else None), lg_operation = None, lg_after = None\<rparr>"
    have books: "affiliate_books 0 i s" using ok no_debt by blast
    have "matches 0 i (sh_ledger s @ [?l]) ?a"
      using books_own[OF books a] pos
      by (simp add: matches_def user_total_append worth_def frozen_part_def accrued_part_def is_frozen_def)
    then have "affiliate_books 0 i (s\<lparr>sh_affiliates := (sh_affiliates s)(i \<mapsto> ?a), sh_ledger := sh_ledger s @ [?l], sh_next_ledger := sh_next_ledger s + 1\<rparr>)"
      using pos a by (intro add_row[OF books]) (simp_all add: row_ok_def is_frozen_def)
    moreover have "snd (AccrueQuota now i e amount h po s) =
        s\<lparr>sh_affiliates := (sh_affiliates s)(i \<mapsto> ?a), sh_ledger := sh_ledger s @ [?l], sh_next_ledger := sh_next_ledger s + 1\<rparr>"
      using a pos by (simp add: AccrueQuota_def bindA_def update_affiliate_def insert_ledger_def returnA_def)
    ultimately show ?thesis using no_debt by metis
  qed
qed

lemma ensure_books: "stxR affiliate_rel (ensure_in_tx now c u)"
proof -
  have "stxR affiliate_rel (insert_affiliate now u x d)" for x d
    unfolding stxR_def affiliate_rel_def using new_profile by blast
  moreover have "stxR affiliate_rel (queryAffiliateByUserID u)"
    by (simp add: stxR_def queryAffiliateByUserID_def ar.same split: option.split)
  ultimately have "stxR affiliate_rel (bindA (insert_affiliate now u x d) (\<lambda>_. queryAffiliateByUserID u))" for x d
    by (intro guarantee_intros)
  then show ?thesis by (auto simp: stxR_def ensure_in_tx_def ar.same split: option.split)
qed

lemma transfer_books:
  assumes "affiliates_ok s" and "TransferQuotaToBalance now code u s = (Inr r, s')"
  shows "affiliates_ok s'"
proof -
  obtain x1 s1 where e: "ensure_in_tx now code u s = (Inr x1, s1)"
    using assms(2) by (cases "ensure_in_tx now code u s") (auto simp: TransferQuotaToBalance_def bindA_def split: sum.splits)
  obtain x2 s2 where t: "thawFrozenQuotaTx now u s1 = (Inr x2, s2)"
    using assms(2) e by (cases "thawFrozenQuotaTx now u s1") (auto simp: TransferQuotaToBalance_def bindA_def split: sum.splits)
  have "affiliates_ok s1" using assms(1) stxRD[OF ensure_books, of s now code u] e by (simp add: affiliate_rel_def)
  then have books: "affiliate_books 0 u s2" using thaw_books[of 0 u s1 now u] t no_debt by (metis snd_conv)
  obtain a l where a: "sh_affiliates s2 u = Some a" "af_quota a > 0"
    and s': "sh_affiliates s' = (sh_affiliates s2)(u \<mapsto> a\<lparr>af_quota := 0\<rparr>)" "sh_ledger s' = sh_ledger s2 @ [l]"
    and l: "lg_user l = u" "lg_action l = ''transfer''" "lg_amount l = af_quota a" "lg_frozen_until l = None" "lg_operation l = None"
    using assms(2) e t by (auto simp: TransferQuotaToBalance_def bindA_def claim_quota_def update_account_def queryUserBalance_def
          queryAffiliateTransferSnapshot_def insert_ledger_def returnA_def split: option.splits if_splits)
  have m: "matches 0 u (sh_ledger s2 @ [l]) (a\<lparr>af_quota := 0\<rparr>)"
    using books_own[OF books a(1)] l
    by (simp add: matches_def user_total_append worth_def frozen_part_def accrued_part_def is_frozen_def)
  have "affiliate_books 0 u (s2\<lparr>sh_affiliates := (sh_affiliates s2)(u \<mapsto> a\<lparr>af_quota := 0\<rparr>), sh_ledger := sh_ledger s2 @ [l], sh_next_ledger := 0\<rparr>)"
    using a l m by (intro add_row[OF books]) (simp_all add: row_ok_def is_frozen_def)
  then have "affiliate_books 0 u s'" using s' by (simp add: affiliate_books_def)
  then show ?thesis using no_debt by blast
qed

lemma withdraw_books:
  assumes ok: "affiliates_ok s" and run: "WithdrawQuota now u amount po s = (Inr r, s')"
  shows "affiliates_ok s'"
proof -
  have pos: "u > 0" "amount > 0" "po \<noteq> []" using run by (auto simp: WithdrawQuota_def failA_def split: if_splits)
  have books: "affiliate_books 0 u s" using ok no_debt by blast
  show ?thesis
  proof (cases "sh_affiliates s u = None \<or> list_ex (\<lambda>l. lg_operation l = Some po) (sh_ledger s)")
    case True
    then have "s' = s" using run pos
      by (auto simp: WithdrawQuota_def claimAffiliateWithdrawLedger_def bindA_def findAffiliateWithdrawByOperation_def split: list.splits if_splits prod.splits)
    then show ?thesis using ok by simp
  next
    case False
    then obtain a where a: "sh_affiliates s u = Some a" by auto
    let ?l = "\<lparr>lg_id = sh_next_ledger s, lg_user = u, lg_action = ''withdraw'', lg_amount = amount, lg_source_user = None,
             lg_source_order = None, lg_frozen_until = None, lg_operation = Some po, lg_after = None\<rparr>"
    let ?s1 = "s\<lparr>sh_ledger := sh_ledger s @ [?l], sh_next_ledger := sh_next_ledger s + 1\<rparr>"
    have c: "claimAffiliateWithdrawLedger u amount po s = (Inr (Some (sh_next_ledger s)), ?s1)"
      using False by (simp add: claimAffiliateWithdrawLedger_def bindA_def insert_ledger_def returnA_def)
    have "matches amount u (sh_ledger s @ [?l]) a"
      using books_own[OF books a]
      by (simp add: matches_def user_total_append worth_def frozen_part_def accrued_part_def is_frozen_def)
    then have "affiliate_books amount u (s\<lparr>sh_affiliates := (sh_affiliates s)(u \<mapsto> a), sh_ledger := sh_ledger s @ [?l], sh_next_ledger := 0\<rparr>)"
      using a False pos by (intro add_row[OF books]) (simp_all add: row_ok_def is_frozen_def)
    moreover have "(sh_affiliates s)(u \<mapsto> a) = sh_affiliates s" using a by auto
    ultimately have 1: "affiliate_books amount u ?s1" by (simp add: affiliate_books_def)
    obtain x2 s2 where t: "thawFrozenQuotaTx now u ?s1 = (Inr x2, s2)"
      using run pos c by (cases "thawFrozenQuotaTx now u ?s1") (auto simp: WithdrawQuota_def bindA_def split: sum.splits)
    have 2: "affiliate_books amount u s2" using thaw_books[OF 1, of now u] t by simp
    obtain b where b: "sh_affiliates s2 u = Some b" "af_quota b \<ge> amount"
      using run pos c t by (auto simp: WithdrawQuota_def bindA_def update_affiliate_def failA_def split: option.splits if_splits)
    let ?s3 = "s2\<lparr>sh_affiliates := (sh_affiliates s2)(u \<mapsto> b\<lparr>af_quota := af_quota b - amount\<rparr>)\<rparr>"
    have "matches 0 u (sh_ledger s2) (b\<lparr>af_quota := af_quota b - amount\<rparr>)"
      using books_own[OF 2 b(1)] b(2) by (simp add: matches_def)
    then have 3: "affiliate_books 0 u ?s3" using b by (intro set_profile[OF 2]) simp_all
    obtain snap where "s' = snd (set_after (sh_next_ledger s) snap ?s3)"
      using run pos c t b by (auto simp: WithdrawQuota_def bindA_def update_affiliate_def returnA_def queryAffiliateTransferSnapshot_def
          set_after_def writeA_def split: option.splits)
    then show ?thesis using after_books[OF 3] no_debt by blast
  qed
qed

end
