(* ===== verification/Affiliate_Flow.thy ===== *)
theory Affiliate_Flow
  imports Affiliate_Books
begin

text \<open>Every method that touches the affiliate programme keeps its books, under interference.\<close>

section \<open>Statements\<close>

lemma affiliate_reads [guarantee_intros]: "stxR affiliate_rel (queryAffiliateByUserID u)" "stxR affiliate_rel (queryAffiliateByCode us code)"
  "stxR affiliate_rel (readA f)" "stxR affiliate_rel (GetUserByID u)" "stxR affiliate_rel (only_code P)" "stxR affiliate_rel (only_order Q)"
  by (simp_all add: stxR_def queryAffiliateByUserID_def queryAffiliateByCode_def readA_def GetUserByID_def only_code_def only_order_def ar.same
      split: option.split list.split)

lemma affiliate_frames [guarantee_intros]: "stxR affiliate_rel (update_account u P g)" "stxR affiliate_rel (insert_audit i a w d)"
  "stxR affiliate_rel (updateClaimedAffiliateRebateAudit i a)" "stxR affiliate_rel (on_subs p)" "stxR affiliate_rel (CreateRow c)"
  "stxR affiliate_rel (update_codes R f)" "stxR affiliate_rel (update_orders Q h now)" "stxR affiliate_rel (DeductAvailableBalance u x)"
  "stxR affiliate_rel (latestRefundPendingDetail i)"
  by (auto intro!: affiliate_frame simp: stxR_def update_account_def insert_audit_def updateClaimedAffiliateRebateAudit_def on_subs_def
      CreateRow_def update_codes_def update_orders_def DeductAvailableBalance_def latestRefundPendingDetail_def Let_def
      split: option.split prod.split list.split)

lemma affiliate_statements [guarantee_intros]: "stxR affiliate_rel (ensure_in_tx now c u)" "stxR affiliate_rel (AccrueQuota now i e x h po)"
  "stxR affiliate_rel (insert_affiliate now u c' d)"
  by (fact ensure_books accrue_books)+ (auto simp: stxR_def affiliate_rel_def new_profile)

lemma affiliate_bind [guarantee_intros]: "stxR affiliate_rel (BindInviter now c c' u i)"
  unfolding BindInviter_def by (intro guarantee_intros profile_field) simp_all

lemma affiliate_accrue_tx [guarantee_intros]: "stxR affiliate_rel (accrue_in_tx cal st now c c' u base po)"
  unfolding accrue_in_tx_def GetAccruedRebateFromInvitee_def by (intro guarantee_intros)

lemma affiliate_redis [guarantee_intros]: "guarantees affiliate_rel (round_trip (on_redis f))"
  by (rule ar.guarantees_round_trip) (auto intro: affiliate_frame simp: on_redis_def split: prod.split)

lemma affiliate_create_batch [guarantee_intros]: "stxR affiliate_rel (CreateBatch cs)"
  by (induction cs) (auto intro!: guarantee_intros)

lemma affiliate_use_code [guarantee_intros]: "stxR affiliate_rel (UseCode now i u)"
  unfolding UseCode_def by (intro guarantee_intros)

section \<open>Methods of the affiliate service\<close>

lemma affiliate_insert_loop [guarantee_intros]: "guarantees affiliate_rel (insert_loop now u cs)"
  by (induction now u cs rule: insert_loop.induct) (auto simp only: insert_loop.simps intro!: guarantee_intros)

lemma affiliate_ensure [guarantee_intros]: "guarantees affiliate_rel (EnsureUserAffiliate now cs u)"
  unfolding EnsureUserAffiliate_def by (intro guarantee_intros)

lemma affiliate_rebate [guarantee_intros]: "guarantees affiliate_rel (AccrueInviteRebateForOrder cal st now c c' u base po)"
  unfolding AccrueInviteRebateForOrder_def GetAccruedRebateFromInvitee_def by (intro guarantee_intros)

lemma affiliate_bind_code [guarantee_intros]: "guarantees affiliate_rel (BindInviterByCode st now c c' us u code)"
  unfolding BindInviterByCode_def by (intro guarantee_intros)

lemma affiliate_thaw [guarantee_intros]: "guarantees affiliate_rel (ThawFrozenQuota now u)"
proof -
  have "affiliates_ok (snd (thawFrozenQuotaTx now u s))" if "affiliates_ok s" for s :: "'a shop"
    using thaw_books[of 0 u s now u] that no_debt by blast
  then have "stxR affiliate_rel (thawFrozenQuotaTx now u :: ('a shop, rat) stx)" by (simp add: stxR_def affiliate_rel_def)
  then show ?thesis unfolding ThawFrozenQuota_def by (intro guarantee_intros)
qed

lemma affiliate_transfer [guarantee_intros]: "guarantees affiliate_rel (TransferAffiliateQuota now code u)"
  unfolding TransferAffiliateQuota_def guarantees_def
  by (rule ar.triple_tx) (auto simp: stable_True affiliate_rel_def dest: transfer_books)

lemma affiliate_withdraw [guarantee_intros]: "guarantees affiliate_rel (AdminWithdrawQuota oper now u a key)"
proof -
  have "guarantees affiliate_rel (in_tx (WithdrawQuota now u x y) :: ('a shop, AffiliateWithdrawResult) prog)" for x y
    unfolding guarantees_def by (rule ar.triple_tx) (auto simp: stable_True affiliate_rel_def dest: withdraw_books)
  then show ?thesis unfolding AdminWithdrawQuota_def by (simp add: ar.guarantees_fail split: sum.split)
qed

section \<open>Redemption and payment\<close>

lemma affiliate_check_reply [guarantee_intros]: "guarantees affiliate_rel p \<Longrightarrow> guarantees affiliate_rel (check_reply p)"
  unfolding check_reply_def by (intro guarantee_intros)

lemma affiliate_locks [guarantee_intros]: "guarantees affiliate_rel (checkRedeemRateLimit Rd cache u)"
  "guarantees affiliate_rel (incrementRedeemErrorCount Rd cache u)" "guarantees affiliate_rel (acquireRedeemLock Rd cache key)"
  "guarantees affiliate_rel (releaseRedeemLock Rd cache key)"
  unfolding checkRedeemRateLimit_def incrementRedeemErrorCount_def acquireRedeemLock_def releaseRedeemLock_def
    GetRedeemAttemptCount_def IncrementRedeemAttemptCount_def AcquireRedeemLock_def ReleaseRedeemLock_def
  by (intro guarantee_intros)+

lemma affiliate_redeem_tx [guarantee_intros]: "stxR affiliate_rel (redeem_tx cal n n' c u)"
proof -
  let ?pay = "if rc_type c = RedeemTypeBalance
     then (if rc_value c < 0 then ApplyRedeemBalanceAdjustment u (rc_value c) else UpdateBalance u (rc_value c))
     else if rc_type c = RedeemTypeConcurrency
     then (if trunc (rc_value c) < 0 then ApplyRedeemConcurrencyAdjustment u (trunc (rc_value c)) else UpdateConcurrency u (trunc (rc_value c)))
     else if rc_type c = RedeemTypeSubscription
     then (case rc_group c of None \<Rightarrow> failA (ErrInvalid ''nil group'') | Some g \<Rightarrow> on_subs (grant_subscription cal n' c g u))
     else failA unsupportedRedeemTypeError"
  have pay: "stxR affiliate_rel ?pay"
    unfolding ApplyRedeemBalanceAdjustment_def UpdateBalance_def ApplyRedeemConcurrencyAdjustment_def UpdateConcurrency_def
    by (intro guarantee_intros)
  show ?thesis
    unfolding stxR_def
  proof
    fix s :: "'a shop"
    obtain r s1 where u: "UseCode n (rc_id c) u s = (r, s1)" by (cases "UseCode n (rc_id c) u s")
    have 1: "affiliate_rel s s1" using stxRD[OF affiliate_use_code, of s n "rc_id c" u] u by simp
    have 2: "affiliate_rel s1 (snd (?pay s1))" by (rule stxRD[OF pay])
    show "affiliate_rel s (snd (redeem_tx cal n n' c u s))"
      using 1 ar.trans[OF 1 2] unfolding redeem_tx_def u by (cases r) (simp_all only: prod.case sum.case snd_conv)
  qed
qed

lemma affiliate_redeem [guarantee_intros]: "guarantees affiliate_rel (redeem E now u code enforce skip)"
  unfolding redeem_def redeem_locked_def Let_def GetByCode_def GetCodeByID_def tryAccrueAffiliateRebateForRedeem_def
  by (intro guarantee_intros)

lemma affiliate_log [guarantee_intros]: "guarantees affiliate_rel (writeAuditLog i a w)" "guarantees affiliate_rel (hasAuditLog i a)"
  unfolding writeAuditLog_def hasAuditLog_def by (intro guarantee_intros)+

lemma affiliate_order_rebate [guarantee_intros]: "guarantees affiliate_rel (applyAffiliateRebateForOrder E now po)"
proof -
  have b: "stxR affiliate_rel (bindA (insert_audit (po_id po) ''AFFILIATE_REBATE_APPLIED'' ''system'' None) (\<lambda>_.
           bindA (accrue_in_tx (re_cal E) st now c c' u x y) (\<lambda>rebate.
           updateClaimedAffiliateRebateAudit (po_id po) (z rebate))))" for st c c' u x y z
    by (intro guarantee_intros)
  have "affiliate_rel s (snd (rebate_tx E st now po s))" for st and s :: "'a shop"
  proof (cases "rebate_claimed (po_id po) (sh_audit s)")
    case False
    show ?thesis unfolding rebate_tx_def if_not_P[OF False] by (rule stxRD[OF b])
  qed (simp add: rebate_tx_def ar.same)
  then have "stxR affiliate_rel (rebate_tx E st now po :: ('a shop, unit) stx)" for st by (simp add: stxR_def)
  then show ?thesis unfolding applyAffiliateRebateForOrder_def by (intro guarantee_intros)
qed

lemma affiliate_create_code [guarantee_intros]: "guarantees affiliate_rel (CreateCode now c)"
  unfolding CreateCode_def Let_def by (intro guarantee_intros)

lemma affiliate_payment [guarantee_intros]: "guarantees affiliate_rel (executeFulfillment E cached now i)"
proof -
  have mark: "guarantees affiliate_rel (markCompleted n j v a)" "guarantees affiliate_rel (markFailed n j v)"
    "guarantees affiliate_rel (acquirePaymentFulfillmentLease n j)" for n j v a
    unfolding markCompleted_def markFailed_def acquirePaymentFulfillmentLease_def take_lease_def get_order_def by (intro guarantee_intros)+
  have balance: "guarantees affiliate_rel (doBalance E now po v)" for po v
    unfolding doBalance_def finish_balance_def redeemForPaymentFulfillment_def GetByCode_def
    by (intro guarantee_intros mark)
  have assign: "stxR affiliate_rel (assign_order cal n po g d :: ('a shop, unit) stx)" for cal n po g d
  proof -
    have b: "stxR affiliate_rel (bindA (case y of Inr ex \<Rightarrow> if B ex then returnA () else bindA (on_subs p) (\<lambda>_. returnA ())
        | Inl e \<Rightarrow> if C e then failA e else bindA (on_subs p) (\<lambda>_. returnA ()))
       (\<lambda>_. insert_audit i a w d))" for y :: "err + UserSubscription" and B C and p :: "(UserSubscription \<times> bool) act" and i a w d
      by (cases y) (auto intro!: guarantee_intros)
    show ?thesis unfolding stxR_def assign_order_def Let_def by (rule allI) (rule stxRD[OF b])
  qed
  have sub: "guarantees affiliate_rel (doSub E cached now po g d v)" for po g d v
    unfolding doSub_def ensurePaymentSubscriptionAssigned_def invalidateSubscriptionCaches_def
    by (intro guarantee_intros mark assign)
  show ?thesis
    unfolding executeFulfillment_def ExecuteSubscriptionFulfillment_def ExecuteBalanceFulfillment_def rejectUnsupportedOrderType_def
      with_lease_def get_order_def
    by (intro guarantee_intros mark balance sub)
qed

lemma affiliate_notification [guarantee_intros]: "guarantees affiliate_rel (HandlePaymentNotification E cached now check n pk)"
  unfolding HandlePaymentNotification_def confirmPayment_def toPaid_def alreadyProcessed_def get_order_def
  by (intro guarantee_intros)

end
