(* ===== verification/Shop_Properties.thy ===== *)
theory Shop_Properties
  imports Refund_Steps Affiliate_Flow Subscription_Rows
begin

text \<open>
  What the shop promises: the recharged total of a user is what was granted, an order that
  reached its end was delivered, the affiliate books balance.  \<open>shop_method\<close> lists the
  methods; other clients may do anything between two round trips that they themselves
  guarantee, and any round trip may fail before or after its effect.
\<close>

section \<open>The methods\<close>

inductive shop_method :: "('s shop, unit) prog \<Rightarrow> bool" where
  redeem: "shop_method (tryW (Redeem E now u code))"
| redeem_admin: "shop_method (tryW (RedeemForAdminFulfillment E now u code))"
| generate: "shop_method (tryW (GenerateCodes req codes))"
| create: "rc_status c \<noteq> StatusUsed \<Longrightarrow> shop_method (tryW (CreateCode t c))"
| transfer: "shop_method (tryW (TransferAffiliateQuota t code' u))"
| withdraw: "shop_method (tryW (AdminWithdrawQuota oper t u amount key))"
| bind_inviter: "shop_method (tryW (BindInviterByCode st t cs c' us u text))"
| notify: "shop_method (tryW (HandlePaymentNotification E cached now check n pk))"
| retry: "shop_method (tryW (RetryFulfillment E cached now i))"
| cancel: "shop_method (tryW (CancelOrder E cached now check eqf prov i u))"
| admin_cancel: "shop_method (tryW (AdminCancelOrder E cached now check eqf prov i))"
| expire: "shop_method (tryW (ExpireTimedOutOrders E cached t nows check eqf provs))"
| request_refund: "shop_method (tryW (RequestRefund inst t i u reason))"
| prepare_refund: "shop_method (tryW (PrepareRefund inst l1 t i amt reason force deduct))"

inductive refund_method :: "('s shop, unit) prog \<Rightarrow> bool" where
  execute: "refund_method (tryW (ExecuteRefund cal cached now prov reply p))"
| converge: "refund_method (tryW (QueryAndFinalizeRefund cal l1 queryable now reply i))"

lemma redeem_sound: "sound books (redeem E now u code enforce skip)"
  unfolding sound_def by (rule triple_weaken[OF redeem_triple]) (simp_all add: shop_wf_def)

lemma generate_sound: "sound books (GenerateCodes req codes)"
proof -
  have "\<not> grants u c" if "rc_status c = StatusUnused" for u c using that by (simp add: grants_def IsUsed_def code_status_defs)
  then have "stxR (shop_rel books) (CreateBatch (map (\<lambda>code. \<lparr>rc_id = 0, rc_code = code, rc_type = t, rc_value = v, rc_status = StatusUnused,
      rc_used_by = None, rc_used_at = None, rc_expires = None, rc_group = None, rc_days = 0, rc_notes = []\<rparr>) cs))" for t v cs
    by (intro create_batch_step) auto
  then have "guarantees (shop_rel books) (GenerateCodes req codes)"
    unfolding GenerateCodes_def Let_def by (intro guarantee_intros)
  then show ?thesis by (rule sound_guarantees)
qed

lemma create_sound:
  assumes "rc_status c \<noteq> StatusUsed"
  shows "sound books (CreateCode t c)"
proof -
  have new: "stxR (shop_rel books) (CreateRow d)" if "rc_status d \<noteq> StatusUsed" for d
    by (rule create_step) (use that in \<open>simp add: grants_def IsUsed_def\<close>)
  have "guarantees (shop_rel books) (CreateCode t c)"
    unfolding CreateCode_def Let_def
    by (intro guarantee_intros new) (use assms in \<open>auto simp: code_status_defs\<close>)
  then show ?thesis by (rule sound_guarantees)
qed

lemma method_sound: "shop_method p \<Longrightarrow> sound books p"
  by (induction rule: shop_method.induct)
    (auto intro!: sound_try sound_intros redeem_sound generate_sound create_sound request_sound prepare_sound sound_guarantees[OF transfer_steps]
       sound_guarantees[OF withdraw_steps] sound_guarantees[OF bind_code_steps] simp: Redeem_def RedeemForAdminFulfillment_def)

lemma refund_sound: "refund_method p \<Longrightarrow> sound (Loose k) p"
  by (induction rule: refund_method.induct) (auto intro: sound_try execute_refund_sound finalize_sound)

lemma sound_run: "sound books p \<Longrightarrow> shop_wf (w_db w) \<Longrightarrow> net_rel (shop_rel books) w \<Longrightarrow> shop_rel books (w_db w) (w_db (snd (p w)))"
  unfolding sound_def triple_def by blast

section \<open>Recharges\<close>

text \<open>
  C3. A user's recharged total against what was granted: the positive balance codes the user
  has used and the affiliate quota the user has transferred.  Over the methods of
  \<open>shop_method\<close> (redemption, generation and creation of codes, affiliate transfer and
  withdrawal, notification, retry, cancellation and expiry of orders, request and preparation
  of a refund), whatever fails and as long as the other clients keep the same books, the two
  move exactly together: no code pays twice and none is marked used without paying.  With
  the execution and the convergence of refunds, by this method or by the others, the total
  never falls behind the grants; it may exceed them, by refunds that were refused and
  returned.  In both cases the used codes stay as they are.  Not covered are the
  administrator's bulk change and deletion of codes, which break both.
\<close>

theorem recharged_follows_grants:
  assumes "if books = Exact then shop_method p else shop_method p \<or> refund_method p"
    and "codes_wf (w_db w)" and "orders_wf (w_db w)" and "net_rel (shop_rel books) w"
    and "books \<noteq> Loose False" and "sh_users (w_db w) u = Some a"
  shows "\<exists>a'. sh_users (w_db (snd (p w))) u = Some a' \<and>
      ac_recharged a' - ac_recharged a \<ge> granted u (w_db (snd (p w))) - granted u (w_db w) \<and>
      (books = Exact \<longrightarrow> ac_recharged a' - ac_recharged a = granted u (w_db (snd (p w))) - granted u (w_db w)) \<and>
      codes_wf (w_db (snd (p w))) \<and> (\<forall>c\<in>set (sh_codes (w_db w)). IsUsed c \<longrightarrow> c \<in> set (sh_codes (w_db (snd (p w)))))"
proof -
  have "sound books p"
    using assms(1) method_sound[of p books] refund_sound[of p] by (cases books) auto
  then have "shop_rel books (w_db w) (w_db (snd (p w)))"
    using sound_run[OF _ _ assms(4)] assms(2,3) by (simp add: shop_wf_def)
  then have r: "codes_wf (w_db (snd (p w)))" "codes_kept (w_db w) (w_db (snd (p w)))"
    "paid_in books (w_db w) (w_db (snd (p w)))"
    using assms(2) by (simp_all add: shop_rel_def)
  obtain a' where "sh_users (w_db (snd (p w))) u = Some a'"
    "ac_recharged a - granted u (w_db w) \<le> ac_recharged a' - granted u (w_db (snd (p w)))"
    "books = Exact \<longrightarrow> ac_recharged a' - granted u (w_db (snd (p w))) = ac_recharged a - granted u (w_db w)"
    using r(3) assms(5,6) unfolding paid_in_def by blast
  moreover have "c \<in> set (sh_codes (w_db (snd (p w))))" if "c \<in> set (sh_codes (w_db w))" "IsUsed c" for c
    using r(2) that unfolding codes_kept_def by metis
  ultimately show ?thesis using r(1) by (intro exI[of _ a']) (simp add: algebra_simps)
qed

text \<open>A small shop: a user, an unused code for 10, and a pending order for 5.\<close>

definition demo_env :: "refdb redeem_env" where
  "demo_env = \<lparr>re_redis = ref_redis, re_cache = False, re_bytes = map char_of, re_cal = \<lparr>day_start = id, own_day_start = id, add_days = \<lambda>t d. t + d\<rparr>,
     re_affiliate = None, re_codes = [], re_codes' = []\<rparr>"

definition demo_code :: RedeemCode where
  "demo_code = \<lparr>rc_id = 1, rc_code = [88], rc_type = RedeemTypeBalance, rc_value = 10, rc_status = StatusUnused, rc_used_by = None,
     rc_used_at = None, rc_expires = None, rc_group = None, rc_days = 0, rc_notes = []\<rparr>"

definition demo_order :: PaymentOrder where
  "demo_order = \<lparr>po_id = 1, po_user = 1, po_amount = 5, po_pay = 5, po_bonus = 0, po_code = [80], po_out_trade_no = [79], po_trade_no = [],
     po_currency = ''CNY'', po_payment_type = [], po_type = OrderTypeBalance, po_status = OrderStatusPending, po_group = None, po_days = None,
     po_refund_amount = 0, po_refund_reason = [], po_refund_request_reason = None, po_force = False, po_paid_at = None,
     po_completed_at = None, po_failed_at = None, po_refund_at = None, po_expires_at = 100, po_updated_at = 0\<rparr>"

definition demo_shop :: "refdb shop" where
  "demo_shop = \<lparr>sh_redis = empty_db 1000000000, sh_subs = \<lparr>sub_rows = [], sub_next = 1, sub_groups = Map.empty\<rparr>, sh_group_active = \<lambda>_. False,
     sh_users = [1 \<mapsto> \<lparr>ac_balance = 0, ac_recharged = 0, ac_concurrency = 1, ac_deleted = False\<rparr>], sh_codes = [demo_code], sh_next_code = 2,
     sh_orders = [demo_order], sh_audit = [], sh_affiliates = Map.empty, sh_ledger = [], sh_next_ledger = 1\<rparr>"

lemma demo_wf: "codes_wf demo_shop" "orders_wf demo_shop" "orders_ok demo_shop"
  by (simp_all add: codes_wf_def orders_wf_def orders_ok_def demo_shop_def demo_code_def demo_order_def settled_def psIsRefundStatus_def
      order_status_defs trim_space_def is_space_def)

lemma net_quiet [simp]: "net_rel R (quiet s)"
  by (simp add: net_rel_def)

lemma demo_redeem: "map_option ac_recharged (sh_users (w_db (snd (tryW (Redeem demo_env (\<lambda>_. 0) 1 [88]) (quiet demo_shop)))) 1) = Some 10"
  by (simp add: Redeem_def redeem_def redeem_locked_def checkRedeemRateLimit_def acquireRedeemLock_def releaseRedeemLock_def deferW_def
      bindW_def catchW_def tryW_def demo_env_def demo_shop_def demo_code_def GetByCode_def GetCodeByID_def only_code_def IsExpiredAt_def CanUse_def
      GetUserByID_def withSubscriptionUpdateTx_def redeem_tx_def UseCode_def update_codes_def bindA_def returnA_def UpdateBalance_def update_account_def
      tryAccrueAffiliateRebateForRedeem_def code_type_defs code_status_defs)

theorem recharged_follows_grants_witness:
  "\<exists>a'. sh_users (w_db (snd (tryW (Redeem demo_env (\<lambda>_. 0) 1 [88]) (quiet demo_shop)))) 1 = Some a' \<and> ac_recharged a' = 10 \<and>
     granted 1 (w_db (snd (tryW (Redeem demo_env (\<lambda>_. 0) 1 [88]) (quiet demo_shop)))) = granted 1 demo_shop + 10"
proof -
  have m: "shop_method (tryW (Redeem demo_env (\<lambda>_. 0) 1 [88]))" by (rule shop_method.redeem)
  have u: "sh_users (w_db (quiet demo_shop)) 1 = Some \<lparr>ac_balance = 0, ac_recharged = 0, ac_concurrency = 1, ac_deleted = False\<rparr>"
    by (simp add: demo_shop_def)
  have p: "if Exact = Exact then shop_method (tryW (Redeem demo_env (\<lambda>_. 0) 1 [88]))
      else shop_method (tryW (Redeem demo_env (\<lambda>_. 0) 1 [88])) \<or> refund_method (tryW (Redeem demo_env (\<lambda>_. 0) 1 [88]))"
    using m by simp
  show ?thesis using recharged_follows_grants[OF p _ _ net_quiet _ u] demo_wf demo_redeem by auto
qed

section \<open>Orders\<close>

text \<open>
  C4. Through notifications, retries, cancellation, expiry and refunds, under interference
  and failure, an order that is completed or in any refund status was delivered: a balance
  order has its redeem code used by its user for its amount, a subscription order has its
  assignment on record.  It never goes back to a status from which it could be fulfilled again.
\<close>

theorem settled_orders_are_delivered:
  assumes "shop_method p \<or> refund_method p" and "codes_wf (w_db w)" and "orders_wf (w_db w)" and "orders_ok (w_db w)"
    and "net_rel (shop_rel (Loose False)) w"
  shows "orders_ok (w_db (snd (p w))) \<and>
    (\<forall>po\<in>set (sh_orders (w_db w)). settled po \<longrightarrow>
       (\<exists>po'\<in>set (sh_orders (w_db (snd (p w)))). po_id po' = po_id po \<and> settled po' \<and> delivered po' (w_db (snd (p w)))))"
proof -
  have kept: "sound (Loose False) p" using assms(1) method_sound[of p] refund_sound[of p] by blast
  have "shop_rel (Loose False) (w_db w) (w_db (snd (p w)))"
    using sound_run[OF kept _ assms(5)] assms(2,3) by (simp add: shop_wf_def)
  then have r: "orders_ok (w_db (snd (p w)))" "orders_kept (w_db w) (w_db (snd (p w)))"
    using assms(2-4) by (simp_all add: shop_rel_def)
  show ?thesis
  proof (intro conjI ballI impI)
    fix po assume "po \<in> set (sh_orders (w_db w))" "settled po"
    then obtain po' where "po' \<in> set (sh_orders (w_db (snd (p w))))" "order_core po' = order_core po" "settled po'"
      using r(2) unfolding orders_kept_def by blast
    then show "\<exists>po'\<in>set (sh_orders (w_db (snd (p w)))). po_id po' = po_id po \<and> settled po' \<and> delivered po' (w_db (snd (p w)))"
      using r(1) by (auto simp: orders_ok_def order_core_def)
  qed (rule r(1))
qed

definition demo_note :: notification where
  "demo_note = \<lparr>pn_trade_no = [84], pn_order = [79], pn_amount = Some 5, pn_success = True\<rparr>"

lemmas run_defs = redeem_def redeem_locked_def checkRedeemRateLimit_def acquireRedeemLock_def releaseRedeemLock_def deferW_def
  bindW_def catchW_def tryW_def GetByCode_def GetCodeByID_def only_code_def IsExpiredAt_def CanUse_def
  GetUserByID_def withSubscriptionUpdateTx_def redeem_tx_def UseCode_def update_codes_def bindA_def returnA_def UpdateBalance_def update_account_def
  tryAccrueAffiliateRebateForRedeem_def code_type_defs code_status_defs

lemmas pay_defs = HandlePaymentNotification_def only_order_def confirmPayment_def get_order_def writeAuditLog_def insert_audit_def hasAuditLog_def
  has_audit_def isValidProviderAmount_def toPaid_def update_orders_def payable_def executeFulfillment_def ExecuteBalanceFulfillment_def
  may_fulfill_def with_lease_def acquirePaymentFulfillmentLease_def take_lease_def lease_free_def doBalance_def resolveRedeemAction_def
  CreateCode_def payment_code_def CreateRow_def redeemForPaymentFulfillment_def finish_balance_def applyAffiliateRebateForOrder_def
  markCompleted_def leased_def psIsRefundStatus_def order_status_defs order_type_defs paymentAmountToleranceForCurrency_def amountToleranceCNY_def

lemma demo_pay:
  "map po_status (sh_orders (w_db (snd (tryW (HandlePaymentNotification demo_env False (\<lambda>_. 1) (\<lambda>_. ProviderOk) demo_note ''x'') (quiet demo_shop))))) = [OrderStatusCompleted]"
  "map_option ac_balance (sh_users (w_db (snd (tryW (HandlePaymentNotification demo_env False (\<lambda>_. 1) (\<lambda>_. ProviderOk) demo_note ''x'') (quiet demo_shop)))) 1) = Some 5"
  by (simp_all add: run_defs pay_defs demo_env_def demo_shop_def demo_code_def demo_order_def demo_note_def trim_space_def is_space_def
      CurrencyMinorUnit_def zero_decimal_currencies_def three_decimal_currencies_def)

theorem settled_orders_are_delivered_witness:
  "orders_ok (w_db (snd (tryW (HandlePaymentNotification demo_env False (\<lambda>_. 1) (\<lambda>_. ProviderOk) demo_note ''x'') (quiet demo_shop)))) \<and>
   map po_status (sh_orders (w_db (snd (tryW (HandlePaymentNotification demo_env False (\<lambda>_. 1) (\<lambda>_. ProviderOk) demo_note ''x'') (quiet demo_shop))))) = [OrderStatusCompleted]"
proof -
  have m: "shop_method (tryW (HandlePaymentNotification demo_env False (\<lambda>_. 1) (\<lambda>_. ProviderOk) demo_note ''x''))"
    by (rule shop_method.notify)
  show ?thesis
    using settled_orders_are_delivered[OF disjI1[OF m], of "quiet demo_shop"] demo_wf demo_pay(1) by simp
qed

section \<open>Affiliates\<close>

inductive affiliate_method :: "('s shop, unit) prog \<Rightarrow> bool" where
  ensure: "affiliate_method (tryW (EnsureUserAffiliate t cs u))"
| rebate: "affiliate_method (tryW (AccrueInviteRebateForOrder cal st t cs cs' u base po))"
| thaw: "affiliate_method (tryW (ThawFrozenQuota t u))"
| transfer: "affiliate_method (tryW (TransferAffiliateQuota t code u))"
| withdraw: "affiliate_method (tryW (AdminWithdrawQuota oper t u amount key))"
| bind_inviter: "affiliate_method (tryW (BindInviterByCode st t cs c' us u text))"
| redeem: "affiliate_method (tryW (redeem E now u text enforce skip))"
| notify: "affiliate_method (tryW (HandlePaymentNotification E cached now check n pk))"

lemma affiliate_method_steps: "affiliate_method p \<Longrightarrow> guarantees affiliate_rel p"
  by (induction rule: affiliate_method.induct) (intro guarantee_intros)+

text \<open>
  C9. The affiliate quotas are the ledger's: the history is the sum of the accrued rebates,
  the frozen quota the sum of those still frozen, the available quota what remains after
  transfers and withdrawals and never negative; every entry is positive and no idempotency
  key is registered twice.  Every method keeps this, under interference and failure.
\<close>

theorem affiliate_ledger_balances:
  assumes "affiliate_method p" and "affiliates_ok (w_db w)" and "net_rel affiliate_rel w"
  shows "affiliates_ok (w_db (snd (p w)))"
  using affiliate_method_steps[OF assms(1)] assms(2,3) unfolding guarantees_def triple_def affiliate_rel_def by blast

text \<open>The user of the small shop was invited by user 2; rebates are 20 percent, frozen for a day.\<close>

definition demo_settings :: affiliate_settings where
  "demo_settings = \<lparr>as_enabled = True, as_rate = 20, as_duration_days = 0, as_cap = 0, as_freeze_hours = 24\<rparr>"

definition demo_affiliates :: "refdb shop" where
  "demo_affiliates = demo_shop\<lparr>sh_affiliates :=
     [1 \<mapsto> \<lparr>af_code = ''AAAA'', af_rate = None, af_inviter = Some 2, af_count = 0, af_quota = 0, af_frozen = 0, af_history = 0, af_created = 0\<rparr>,
      2 \<mapsto> \<lparr>af_code = ''BBBB'', af_rate = None, af_inviter = None, af_count = 1, af_quota = 0, af_frozen = 0, af_history = 0, af_created = 0\<rparr>]\<rparr>"

lemma demo_affiliates_ok: "affiliates_ok demo_affiliates"
  by (auto simp: affiliates_ok_def affiliate_books_def matches_def demo_affiliates_def demo_shop_def user_total_def operations_def map_filter_def
      split: if_splits)

lemma demo_rebate:
  "map_option af_frozen (sh_affiliates (w_db (snd (tryW (AccrueInviteRebateForOrder (re_cal demo_env) demo_settings 0 [] [] 1 100 (Some 1)) (quiet demo_affiliates)))) 2) = Some 20"
  by (simp add: AccrueInviteRebateForOrder_def EnsureUserAffiliate_def queryAffiliateByUserID_def bindW_def catchW_def tryW_def rebate_expired_def
      rebate_amount_def resolveRebateRatePercent_def capped_def AccrueQuota_def update_affiliate_def insert_ledger_def bindA_def returnA_def
      withSubscriptionUpdateTx_def demo_settings_def demo_affiliates_def demo_shop_def nround_def floor_eq_iff)

theorem affiliate_ledger_balances_witness:
  "affiliates_ok (w_db (snd (tryW (AccrueInviteRebateForOrder (re_cal demo_env) demo_settings 0 [] [] 1 100 (Some 1)) (quiet demo_affiliates)))) \<and>
   map_option af_frozen (sh_affiliates (w_db (snd (tryW (AccrueInviteRebateForOrder (re_cal demo_env) demo_settings 0 [] [] 1 100 (Some 1)) (quiet demo_affiliates)))) 2) = Some 20"
proof -
  have m: "affiliate_method (tryW (AccrueInviteRebateForOrder (re_cal demo_env) demo_settings 0 [] [] 1 100 (Some 1)))"
    by (rule affiliate_method.rebate)
  show ?thesis using affiliate_ledger_balances[OF m, of "quiet demo_affiliates"] demo_affiliates_ok demo_rebate by simp
qed

end
