(* ===== verification/Shop_Races.thy ===== *)
theory Shop_Races
  imports Shop_Properties
begin

text \<open>
  Where the shop loses its books: the bulk change of codes against a redemption, the second
  refund of an order, the recharged total of a refund that the gateway refused.
\<close>

section \<open>The bulk change of codes\<close>

definition reopen :: RedeemCodeBatchUpdateFields where
  "reopen = \<lparr>bf_status = Some StatusUnused, bf_expires = None, bf_notes = None, bf_group = None, bf_type = None, bf_value = None\<rparr>"

lemma update_one_code:
  assumes "codes_wf s" and "c \<in> set (sh_codes s)" and "Q c"
  shows "filter (\<lambda>x. rc_id x = rc_id c \<and> Q x) (sh_codes s) = [c]"
  using filter_key[of rc_id "sh_codes s" c Q] assms by (simp add: codes_wf_def)

text \<open>The transaction of a redemption of an unused, positive balance code.\<close>

definition paid :: "rat \<Rightarrow> account \<Rightarrow> account" where
  "paid x a = a\<lparr>ac_balance := ac_balance a + x, ac_recharged := ac_recharged a + x\<rparr>"

definition marked :: "int \<Rightarrow> id \<Rightarrow> id \<Rightarrow> RedeemCode \<Rightarrow> RedeemCode" where
  "marked now i u x = (if rc_id x = i \<and> rc_status x = StatusUnused
     then x\<lparr>rc_status := StatusUsed, rc_used_by := Some u, rc_used_at := Some now\<rparr> else x)"

lemma redeem_tx_pays:
  assumes "codes_wf s" and "c \<in> set (sh_codes s)" and "rc_status c = StatusUnused" and "rc_id d = rc_id c"
    and "rc_type d = RedeemTypeBalance" and "rc_value d > 0" and "sh_users s u = Some a"
  shows "redeem_tx cal n n' d u s = (Inr (), s\<lparr>sh_codes := map (marked n (rc_id c) u) (sh_codes s), sh_users := (sh_users s)(u \<mapsto> paid (rc_value d) a)\<rparr>)"
proof -
  have one: "filter (\<lambda>x. rc_id x = rc_id c \<and> rc_status x = StatusUnused) (sh_codes s) = [c]"
    using update_one_code[OF assms(1,2), of "\<lambda>x. rc_status x = StatusUnused"] assms(3) by simp
  have m: "(\<lambda>x. if rc_id x = rc_id c \<and> rc_status x = StatusUnused then x\<lparr>rc_status := StatusUsed, rc_used_by := Some u, rc_used_at := Some n\<rparr> else x)
      = marked n (rc_id c) u" by (rule ext) (simp only: marked_def)
  have "UseCode n (rc_id c) u s = (Inr (), s\<lparr>sh_codes := map (marked n (rc_id c) u) (sh_codes s)\<rparr>)"
    unfolding UseCode_def bindA_def update_codes_def one m by (simp add: returnA_def)
  then show ?thesis using assms(4-7) by (simp add: redeem_tx_def UpdateBalance_def update_account_def paid_def)
qed

text \<open>
  C35. A bulk change reads the codes without locking them and then updates them by id alone.
  If a redemption of an unused code commits in between, a change of the status to unused
  reopens the code the redemption has paid for, and the code pays a second time.
\<close>

theorem batch_update_reopens_used_code:
  assumes "codes_wf s" and "c \<in> set (sh_codes s)" and "rc_status c = StatusUnused" and "rc_id c > 0"
    and "rc_type c = RedeemTypeBalance" and "rc_value c > 0" and "sh_users s u = Some a"
  shows "\<exists>t t'. BatchUpdateCodes now [rc_id c] reopen
       \<lparr>w_db = s, w_net = [(\<lambda>x. x, Fine), (\<lambda>x. snd (redeem_tx cal n n' c u x), Fine)]\<rparr> = (Inr 1, quiet t) \<and>
     map_option ac_recharged (sh_users t u) = Some (ac_recharged a + rc_value c) \<and>
     redeem_tx cal n n' c u t = (Inr (), t') \<and>
     map_option ac_recharged (sh_users t' u) = Some (ac_recharged a + 2 * rc_value c)"
proof -
  let ?s1 = "s\<lparr>sh_codes := map (marked n (rc_id c) u) (sh_codes s), sh_users := (sh_users s)(u \<mapsto> paid (rc_value c) a)\<rparr>"
  let ?g = "\<lambda>x. if rc_id x = rc_id c then x\<lparr>rc_status := StatusUnused\<rparr> else x"
  let ?t = "?s1\<lparr>sh_codes := map ?g (sh_codes ?s1)\<rparr>"
  have pay: "redeem_tx cal n n' c u s = (Inr (), ?s1)" using redeem_tx_pays assms by blast
  have one: "filter (\<lambda>x. rc_id x = rc_id c) (sh_codes s) = [c]"
    using update_one_code[OF assms(1,2), of "\<lambda>_. True"] by simp
  have ids: "rc_id (marked n (rc_id c) u x) = rc_id x" "rc_code (marked n (rc_id c) u x) = rc_code x" for x by (simp_all add: marked_def)
  have fm: "filter (\<lambda>x. rc_id x = rc_id c) (map (marked n (rc_id c) u) (sh_codes s)) = [marked n (rc_id c) u c]"
    by (simp add: filter_map o_def ids one)
  have check: "batch_check [rc_id c] reopen s = (Inr (), s)"
    using assms(3) by (simp add: batch_check_def one IsUsed_def code_status_defs)
  have upd: "batch_write [rc_id c] reopen ?s1 = (Inr 1, ?t)"
    unfolding batch_write_def bindA_def update_codes_def
    by (simp add: fm set_fields_def reopen_def returnA_def)
  have run: "BatchUpdateCodes now [rc_id c] reopen
       \<lparr>w_db = s, w_net = [(\<lambda>x. x, Fine), (\<lambda>x. snd (redeem_tx cal n n' c u x), Fine)]\<rparr> = (Inr 1, quiet ?t)"
    using assms(4) check upd pay
    by (simp add: BatchUpdateCodes_def HasChanges_def HasCoreFieldChanges_def batchUpdate_def sql_def withSubscriptionUpdateTx_def
        bindW_def round_trip.simps quiet_def) (simp add: reopen_def)
  have cs: "sh_codes ?t = map (\<lambda>x. ?g (marked n (rc_id c) u x)) (sh_codes s)" by (simp add: comp_def)
  have wf: "codes_wf ?t"
  proof -
    have i: "rc_id (?g (marked n (rc_id c) u x)) = rc_id x" "rc_code (?g (marked n (rc_id c) u x)) = rc_code x" for x by (simp_all add: ids)
    have "map rc_id (sh_codes ?t) = map rc_id (sh_codes s)" "map rc_code (sh_codes ?t) = map rc_code (sh_codes s)"
      unfolding cs by (simp_all only: map_map comp_def i)
    moreover have "\<forall>x\<in>set (sh_codes ?t). rc_id x < sh_next_code ?t"
      using assms(1) unfolding cs by (auto simp: codes_wf_def ids)
    ultimately show ?thesis using assms(1) by (simp only: codes_wf_def)
  qed
  have c': "?g (marked n (rc_id c) u c) \<in> set (sh_codes ?t)" "rc_status (?g (marked n (rc_id c) u c)) = StatusUnused"
    using assms(2) unfolding cs by (force simp: ids)+
  have again: "\<exists>t'. redeem_tx cal n n' c u ?t = (Inr (), t') \<and> map_option ac_recharged (sh_users t' u) = Some (ac_recharged a + 2 * rc_value c)"
    using redeem_tx_pays[OF wf c', of c u "paid (rc_value c) a" cal n n'] assms(5,6) by (simp add: ids paid_def)
  then obtain t' where "redeem_tx cal n n' c u ?t = (Inr (), t')" "map_option ac_recharged (sh_users t' u) = Some (ac_recharged a + 2 * rc_value c)"
    by blast
  moreover have "map_option ac_recharged (sh_users ?t u) = Some (ac_recharged a + rc_value c)" by (simp add: paid_def)
  ultimately show ?thesis using run by blast
qed

theorem batch_update_reopens_used_code_witness:
  "\<exists>t t'. BatchUpdateCodes 0 [1] reopen
       \<lparr>w_db = demo_shop, w_net = [(\<lambda>x. x, Fine), (\<lambda>x. snd (redeem_tx (re_cal demo_env) 0 0 demo_code 1 x), Fine)]\<rparr> = (Inr 1, quiet t) \<and>
     map_option ac_recharged (sh_users t 1) = Some 10 \<and>
     redeem_tx (re_cal demo_env) 0 0 demo_code 1 t = (Inr (), t') \<and> map_option ac_recharged (sh_users t' 1) = Some 20"
  using batch_update_reopens_used_code[of demo_shop demo_code 1 "\<lparr>ac_balance = 0, ac_recharged = 0, ac_concurrency = 1, ac_deleted = False\<rparr>" 0 "re_cal demo_env" 0 0]
  by (simp add: demo_wf) (simp add: demo_shop_def demo_code_def)

section \<open>Refunds\<close>

definition has_order :: "PaymentOrder \<Rightarrow> 's shop \<Rightarrow> bool" where
  "has_order po s \<longleftrightarrow> filter (\<lambda>q. po_id q = po_id po) (sh_orders s) = [po]"

lemma filter_one: "filter (\<lambda>q. po_id q = i) os = [po] \<Longrightarrow> filter (\<lambda>q. po_id q = i \<and> C q) os = (if C po then [po] else [])"
proof -
  assume "filter (\<lambda>q. po_id q = i) os = [po]"
  then have "filter C (filter (\<lambda>q. po_id q = i) os) = (if C po then [po] else [])" by simp
  then show ?thesis by (simp add: conj_commute)
qed

lemma update_one_order:
  assumes "has_order po s" and "\<And>q. po_id (f q) = po_id q" and "C po"
  shows "\<exists>os. update_orders (\<lambda>q. po_id q = po_id po \<and> C q) f now s = (Inr 1, s\<lparr>sh_orders := os\<rparr>) \<and>
    filter (\<lambda>q. po_id q = po_id po) os = [(f po)\<lparr>po_updated_at := now\<rparr>]"
proof -
  let ?h = "\<lambda>q. if po_id q = po_id po \<and> C q then (f q)\<lparr>po_updated_at := now\<rparr> else q"
  have "po_id (?h q) = po_id q" for q by (simp add: assms(2))
  then have "filter (\<lambda>q. po_id q = po_id po) (map ?h os) = map ?h (filter (\<lambda>q. po_id q = po_id po) os)" for os
    by (simp only: filter_map o_def)
  then have "filter (\<lambda>q. po_id q = po_id po) (map ?h (sh_orders s)) = [(f po)\<lparr>po_updated_at := now\<rparr>]"
    using assms(1,3) unfolding has_order_def by simp
  moreover have "update_orders (\<lambda>q. po_id q = po_id po \<and> C q) f now s = (Inr 1, s\<lparr>sh_orders := map ?h (sh_orders s)\<rparr>)"
    using assms(1,3) by (simp add: update_orders_def has_order_def filter_one)
  ultimately show ?thesis by blast
qed

text \<open>The start of a refund: the order is refunding, the deduction is made.\<close>

lemma refund_starts:
  assumes "has_order po s" and "po_status po \<in> {OrderStatusCompleted, OrderStatusRefundRequested, OrderStatusRefundFailed}"
    and "rp_order p = po" and "rp_type p = DeductionTypeBalance" and "0 < rp_balance p"
    and "sh_users s (po_user po) = Some a" and "\<not> ac_deleted a" and "rp_balance p \<le> ac_balance a"
    and "\<not> has_audit (po_id po) ''REFUND_ROLLBACK_FAILED'' (sh_audit s)"
  obtains os where "filter (\<lambda>q. po_id q = po_id po) os = [po\<lparr>po_status := OrderStatusRefunding, po_updated_at := now 0\<rparr>]"
    and "ExecuteRefund cal cached now prov reply p (quiet s) =
      bindW (gwRefund prov reply p) (\<lambda>resp. case resp of None \<Rightarrow> handleGwFail cal now p | Some r \<Rightarrow> finishRefund now p r)
        (quiet (s\<lparr>sh_orders := os, sh_users := (sh_users s)(po_user po \<mapsto> a\<lparr>ac_balance := ac_balance a - rp_balance p\<rparr>)\<rparr>))"
proof -
  obtain os where u: "update_orders (\<lambda>q. po_id q = po_id po \<and> po_status q \<in> {OrderStatusCompleted, OrderStatusRefundRequested, OrderStatusRefundFailed})
       (\<lambda>q. q\<lparr>po_status := OrderStatusRefunding\<rparr>) (now 0) s = (Inr 1, s\<lparr>sh_orders := os\<rparr>)"
    and os: "filter (\<lambda>q. po_id q = po_id po) os = [po\<lparr>po_status := OrderStatusRefunding, po_updated_at := now 0\<rparr>]"
    using update_one_order[OF assms(1), of "\<lambda>q. q\<lparr>po_status := OrderStatusRefunding\<rparr>"
        "\<lambda>q. po_status q \<in> {OrderStatusCompleted, OrderStatusRefundRequested, OrderStatusRefundFailed}" "now 0"] assms(2) by auto
  let ?s1 = "s\<lparr>sh_orders := os\<rparr>"
  let ?s2 = "s\<lparr>sh_orders := os, sh_users := (sh_users s)(po_user po \<mapsto> a\<lparr>ac_balance := ac_balance a - rp_balance p\<rparr>)\<rparr>"
  have d: "deduct_balance now p (quiet ?s1) = (Inr p, quiet ?s2)"
    using assms(3-9) by (simp add: deduct_balance_def hasAuditLog_def bindW_def catchW_def DeductAvailableBalance_def Let_def min_def)
  have e: "deduct_days cal cached now p w = (Inr p, w)" for w :: "'a shop world"
    using assms(4) by (simp add: deduct_days_def deduction_defs)
  have start: "sql (update_orders (\<lambda>q. po_id q = po_id (rp_order p) \<and> po_status q \<in> {OrderStatusCompleted, OrderStatusRefundRequested, OrderStatusRefundFailed})
       (\<lambda>q. q\<lparr>po_status := OrderStatusRefunding\<rparr>) (now 0)) (quiet s) = (Inr 1, quiet ?s1)"
    by (simp only: sql_quiet assms(3) u prod.case sum.case)
  show thesis
  proof (rule that[OF os])
    show "ExecuteRefund cal cached now prov reply p (quiet s) =
      bindW (gwRefund prov reply p) (\<lambda>resp. case resp of None \<Rightarrow> handleGwFail cal now p | Some r \<Rightarrow> finishRefund now p r) (quiet ?s2)"
      unfolding ExecuteRefund_def bindW_def[of "sql _"] start using d e by (simp add: bindW_def[of "deduct_balance now p"] bindW_def[of "deduct_days cal cached now p"])
  qed
qed

lemma update_order_one:
  assumes "has_order po s" and "\<And>q. po_id (f q) = po_id q"
  shows "\<exists>os. update_order (po_id po) f now s = (Inr (), s\<lparr>sh_orders := os\<rparr>) \<and>
    filter (\<lambda>q. po_id q = po_id po) os = [(f po)\<lparr>po_updated_at := now\<rparr>]"
proof -
  obtain os where "update_orders (\<lambda>q. po_id q = po_id po) f now s = (Inr 1, s\<lparr>sh_orders := os\<rparr>)"
    "filter (\<lambda>q. po_id q = po_id po) os = [(f po)\<lparr>po_updated_at := now\<rparr>]"
    using update_one_order[OF assms, of "\<lambda>_. True" now] by auto
  then show ?thesis by (auto simp: update_order_def bindA_def returnA_def)
qed

lemma write_log_quiet: "\<exists>as. writeAuditLog i x w (quiet s) = (Inr (), quiet (s\<lparr>sh_audit := as\<rparr>))"
proof (cases "has_audit i x (sh_audit s)")
  case True
  then have "writeAuditLog i x w (quiet s) = (Inr (), quiet (s\<lparr>sh_audit := sh_audit s\<rparr>))" by (simp add: writeAuditLog_def insert_audit_def tryW_def)
  then show ?thesis by blast
qed (auto simp: writeAuditLog_def insert_audit_def tryW_def)

text \<open>
  C39. A refund of a balance order that the gateway refuses gives the deduction back and
  returns the order to the status from which it was taken, completed or requested.  But the deduction comes back as
  a recharge: the user's recharged total has grown by it.
\<close>

theorem refused_refund_restores:
  assumes "has_order po s" and "po_status po \<in> {OrderStatusCompleted, OrderStatusRefundRequested, OrderStatusRefundFailed}"
    and "rp_order p = po" and "rp_type p = DeductionTypeBalance" and "0 < rp_balance p" and "po_trade_no po \<noteq> []"
    and "sh_users s (po_user po) = Some a" and "\<not> ac_deleted a" and "rp_balance p \<le> ac_balance a"
    and "\<not> has_audit (po_id po) ''REFUND_ROLLBACK_FAILED'' (sh_audit s)"
  shows "\<exists>t. ExecuteRefund cal cached now prov GatewayError p (quiet s) = (Inr unsuccessful, quiet t) \<and>
     map po_status (filter (\<lambda>q. po_id q = po_id po) (sh_orders t)) =
       [if po_status po = OrderStatusRefundRequested then OrderStatusRefundRequested else OrderStatusCompleted] \<and>
     sh_users t = (sh_users s)(po_user po \<mapsto> a\<lparr>ac_recharged := ac_recharged a + rp_balance p\<rparr>)"
proof -
  let ?i = "po_id po" and ?u = "po_user po"
  let ?f = "\<lambda>q. q\<lparr>po_status := (if po_status po = OrderStatusRefundRequested then OrderStatusRefundRequested else OrderStatusCompleted)\<rparr>"
  obtain os where os: "filter (\<lambda>q. po_id q = ?i) os = [po\<lparr>po_status := OrderStatusRefunding, po_updated_at := now 0\<rparr>]"
    and run: "ExecuteRefund cal cached now prov GatewayError p (quiet s) =
      bindW (gwRefund prov GatewayError p) (\<lambda>resp. case resp of None \<Rightarrow> handleGwFail cal now p | Some r \<Rightarrow> finishRefund now p r)
        (quiet (s\<lparr>sh_orders := os, sh_users := (sh_users s)(?u \<mapsto> a\<lparr>ac_balance := ac_balance a - rp_balance p\<rparr>)\<rparr>))"
    using refund_starts[OF assms(1-5,7-10)] by metis
  let ?s2 = "s\<lparr>sh_orders := os, sh_users := (sh_users s)(?u \<mapsto> a\<lparr>ac_balance := ac_balance a - rp_balance p\<rparr>)\<rparr>"
  let ?s3 = "s\<lparr>sh_orders := os, sh_users := (sh_users s)(?u \<mapsto> a\<lparr>ac_recharged := ac_recharged a + rp_balance p\<rparr>)\<rparr>"
  have gw: "gwRefund prov GatewayError p w = (Inr None, w)" for w :: "'a shop world"
    using assms(3,6) by (simp add: gwRefund_def)
  have given: "RollbackRefund cal now p (quiet ?s2) = (Inr True, quiet ?s3)"
    using assms(3,4,5) by (simp add: RollbackRefund_def Let_def bindW_def catchW_def UpdateBalance_def update_account_def deduction_defs)
  have h: "has_order (po\<lparr>po_status := OrderStatusRefunding, po_updated_at := now 0\<rparr>) ?s3" using os by (simp add: has_order_def)
  obtain os' where r: "update_order ?i ?f (now 6) ?s3 = (Inr (), ?s3\<lparr>sh_orders := os'\<rparr>)"
    and os': "map po_status (filter (\<lambda>q. po_id q = ?i) os') = [if po_status po = OrderStatusRefundRequested then OrderStatusRefundRequested else OrderStatusCompleted]"
    using update_order_one[OF h, of ?f "now 6"] by auto
  have restore: "restoreStatus (now 6) p (quiet ?s3) = (Inr (), quiet (?s3\<lparr>sh_orders := os'\<rparr>))"
    unfolding restoreStatus_def assms(3) tryW_def sql_quiet r by simp
  obtain as where l: "writeAuditLog ?i ''REFUND_GATEWAY_FAILED'' ''admin'' (quiet (?s3\<lparr>sh_orders := os'\<rparr>)) = (Inr (), quiet (?s3\<lparr>sh_orders := os', sh_audit := as\<rparr>))"
    using write_log_quiet[of ?i "''REFUND_GATEWAY_FAILED''" "''admin''" "?s3\<lparr>sh_orders := os'\<rparr>"] by auto
  have "handleGwFail cal now p (quiet ?s2) = (Inr unsuccessful, quiet (?s3\<lparr>sh_orders := os', sh_audit := as\<rparr>))"
    unfolding handleGwFail_def Let_def assms(3) bindW_def given prod.case sum.case if_True restore l by simp
  then have "ExecuteRefund cal cached now prov GatewayError p (quiet s) = (Inr unsuccessful, quiet (?s3\<lparr>sh_orders := os', sh_audit := as\<rparr>))"
    unfolding run bindW_def gw by simp
  then show ?thesis using os' by (intro exI[of _ "?s3\<lparr>sh_orders := os', sh_audit := as\<rparr>"]) simp
qed

text \<open>The small shop after its order has been paid and delivered, and its full refund.\<close>

definition paid_order :: PaymentOrder where
  "paid_order = demo_order\<lparr>po_status := OrderStatusCompleted, po_trade_no := [84]\<rparr>"

definition paid_shop :: "audit_row list \<Rightarrow> refdb shop" where
  "paid_shop as = demo_shop\<lparr>sh_orders := [paid_order], sh_audit := as,
     sh_users := [1 \<mapsto> \<lparr>ac_balance = 5, ac_recharged = 5, ac_concurrency = 1, ac_deleted = False\<rparr>]\<rparr>"

definition paid_plan :: RefundPlan where
  "paid_plan = \<lparr>rp_order = paid_order, rp_amount = 5, rp_gateway = 5, rp_reason = [114], rp_force = False,
     rp_type = DeductionTypeBalance, rp_balance = 5, rp_days = 0, rp_sub = 0, rp_held = False\<rparr>"

theorem refused_refund_restores_witness:
  "\<exists>t. ExecuteRefund (re_cal demo_env) False (\<lambda>_. 0) True GatewayError paid_plan (quiet (paid_shop [])) = (Inr unsuccessful, quiet t) \<and>
     map po_status (filter (\<lambda>q. po_id q = 1) (sh_orders t)) = [OrderStatusCompleted] \<and>
     map_option ac_recharged (sh_users t 1) = Some 10"
  using refused_refund_restores[of paid_order "paid_shop []" paid_plan "\<lparr>ac_balance = 5, ac_recharged = 5, ac_concurrency = 1, ac_deleted = False\<rparr>"
      "re_cal demo_env" False "\<lambda>_. 0" True]
  by (simp add: has_order_def paid_shop_def paid_order_def paid_plan_def demo_shop_def demo_order_def has_audit_def order_status_defs)
     (metis account.select_convs(2) account.update_convs(2) fun_upd_same option.map(2))

text \<open>
  C38. The audit log takes one row per order and action.  A second refund of an order that the
  gateway leaves pending (the first one having failed) therefore cannot record its second
  REFUND_PENDING: the method fails after the gateway accepted the refund, the deduction is
  kept, the order stays REFUNDING, and neither a new refund nor the query of the pending one
  takes it from there.
\<close>

theorem second_pending_refund_sticks:
  assumes "has_order po s" and "po_status po \<in> {OrderStatusCompleted, OrderStatusRefundRequested, OrderStatusRefundFailed}"
    and "rp_order p = po" and "rp_type p = DeductionTypeBalance" and "0 < rp_balance p" and "po_trade_no po \<noteq> []"
    and "sh_users s (po_user po) = Some a" and "\<not> ac_deleted a" and "rp_balance p \<le> ac_balance a"
    and "\<not> has_audit (po_id po) ''REFUND_ROLLBACK_FAILED'' (sh_audit s)" and "has_audit (po_id po) ''REFUND_PENDING'' (sh_audit s)"
  shows "\<exists>t. ExecuteRefund cal cached now True (GatewayReply ''pending'' rid) p (quiet s) = (Inl ErrConstraint, quiet t) \<and>
     map po_status (filter (\<lambda>q. po_id q = po_id po) (sh_orders t)) = [OrderStatusRefunding] \<and>
     map_option ac_balance (sh_users t (po_user po)) = Some (ac_balance a - rp_balance p) \<and>
     fst (QueryAndFinalizeRefund cal l1 queryable now' reply (po_id po) (quiet t)) = Inl ErrInvalidStatus \<and>
     fst (PrepareRefund inst l1 m (po_id po) amt reason force deduct (quiet t)) = Inl ErrInvalidStatus \<and>
     fst (ExecuteRefund cal cached now' prov reply p (quiet t)) = Inl ErrConflict"
proof -
  let ?i = "po_id po" and ?u = "po_user po"
  let ?q = "po\<lparr>po_status := OrderStatusRefunding, po_updated_at := now 0\<rparr>"
  obtain os where os: "filter (\<lambda>q. po_id q = ?i) os = [?q]"
    and run: "ExecuteRefund cal cached now True (GatewayReply ''pending'' rid) p (quiet s) =
      bindW (gwRefund True (GatewayReply ''pending'' rid) p) (\<lambda>resp. case resp of None \<Rightarrow> handleGwFail cal now p | Some r \<Rightarrow> finishRefund now p r)
        (quiet (s\<lparr>sh_orders := os, sh_users := (sh_users s)(?u \<mapsto> a\<lparr>ac_balance := ac_balance a - rp_balance p\<rparr>)\<rparr>))"
    using refund_starts[OF assms(1-5,7-10)] by metis
  let ?t = "s\<lparr>sh_orders := os, sh_users := (sh_users s)(?u \<mapsto> a\<lparr>ac_balance := ac_balance a - rp_balance p\<rparr>)\<rparr>"
  have gw: "gwRefund True (GatewayReply ''pending'' rid) p w = (Inr (Some (''pending'', rid)), w)" for w :: "'a shop world"
    using assms(3,6) by (simp add: gwRefund_def refund_accepted_def)
  have h: "has_order ?q ?t" using os by (simp add: has_order_def)
  obtain os' where "update_order ?i (pending_order p) (now 6) ?t = (Inr (), ?t\<lparr>sh_orders := os'\<rparr>)"
    using update_order_one[OF h, of "pending_order p" "now 6"] by (auto simp: pending_order_def)
  then have "\<exists>d. pending_tx (now 6) p rid ?t = (Inl ErrConstraint, d)"
    using assms(3,11) by (simp add: pending_tx_def bindA_def insert_audit_def)
  then have "finishRefund now p (''pending'', rid) (quiet ?t) = (Inl ErrConstraint, quiet ?t)"
    by (auto simp: finishRefund_def markRefundPending_def bindW_def withSubscriptionUpdateTx_def)
  then have sticks: "ExecuteRefund cal cached now True (GatewayReply ''pending'' rid) p (quiet s) = (Inl ErrConstraint, quiet ?t)"
    unfolding run bindW_def gw by simp
  have get: "sql (get_order ?i) (quiet ?t) = (Inr ?q, quiet ?t)"
    using os by (simp add: get_order_def only_order_def)
  have none: "filter (\<lambda>q. po_id q = ?i \<and> po_status q \<in> {OrderStatusCompleted, OrderStatusRefundRequested, OrderStatusRefundFailed}) os = []"
    using filter_one[OF os] by (simp add: order_status_defs)
  have "fst (QueryAndFinalizeRefund cal l1 queryable now' reply ?i (quiet ?t)) = Inl ErrInvalidStatus"
    unfolding QueryAndFinalizeRefund_def bindW_def[of "sql (get_order _)"] get by (simp add: order_status_defs)
  moreover have "fst (PrepareRefund inst l1 m ?i amt reason force deduct (quiet ?t)) = Inl ErrInvalidStatus"
    unfolding PrepareRefund_def bindW_def[of "sql (get_order _)"] get by (simp add: order_status_defs)
  moreover have "fst (ExecuteRefund cal cached now' prov reply p (quiet ?t)) = Inl ErrConflict"
    unfolding ExecuteRefund_def bindW_def[of "sql (update_orders _ _ _)"] sql_quiet update_orders_def assms(3) using none by simp
  ultimately show ?thesis using sticks os by (intro exI[of _ ?t]) simp
qed

theorem second_pending_refund_sticks_witness:
  "\<exists>t. ExecuteRefund (re_cal demo_env) False (\<lambda>_. 0) True (GatewayReply ''pending'' [49]) paid_plan
       (quiet (paid_shop [\<lparr>au_order = 1, au_action = ''REFUND_PENDING'', au_operator = ''admin'', au_detail = None\<rparr>])) = (Inl ErrConstraint, quiet t) \<and>
     map po_status (filter (\<lambda>q. po_id q = 1) (sh_orders t)) = [OrderStatusRefunding] \<and>
     map_option ac_balance (sh_users t 1) = Some 0 \<and>
     fst (QueryAndFinalizeRefund (re_cal demo_env) None True (\<lambda>_. 0) (GatewayReply ''success'' [49]) 1 (quiet t)) = Inl ErrInvalidStatus \<and>
     fst (PrepareRefund (\<lambda>_. Instance True True) None 0 1 None [] False True (quiet t)) = Inl ErrInvalidStatus"
proof -
  have x: "has_order paid_order (paid_shop as)" "sh_users (paid_shop as) (po_user paid_order) =
      Some \<lparr>ac_balance = 5, ac_recharged = 5, ac_concurrency = 1, ac_deleted = False\<rparr>" for as
    by (simp_all add: has_order_def paid_shop_def paid_order_def demo_order_def demo_shop_def)
  have y: "po_status paid_order = OrderStatusCompleted" "po_trade_no paid_order = [84]" "po_id paid_order = 1" "po_user paid_order = 1"
    "rp_order paid_plan = paid_order" "rp_type paid_plan = DeductionTypeBalance" "rp_balance paid_plan = 5"
    by (simp_all add: paid_order_def demo_order_def paid_plan_def)
  have z: "sh_audit (paid_shop as) = as" for as by (simp add: paid_shop_def)
  show ?thesis
    using second_pending_refund_sticks[OF x(1) _ y(5) y(6) _ _ x(2),
        of "[\<lparr>au_order = 1, au_action = ''REFUND_PENDING'', au_operator = ''admin'', au_detail = None\<rparr>]" "re_cal demo_env" False "\<lambda>_. 0" "[49]"
        None True "\<lambda>_. 0" "GatewayReply ''success'' [49]" "\<lambda>_. Instance True True" 0 None "[]" False True True]
    by (simp add: y z has_audit_def) metis
qed

end
