(* ===== verification/Keyword_Matcher.thy ===== *)
theory Keyword_Matcher
  imports Prelude "HOL-Library.Word" "HOL-Library.Monad_Syntax" "HOL-Library.Sublist"
begin

text \<open>
  The blocked-keyword matcher of content moderation
  (\<open>service/content_moderation_keyword_matcher.go\<close>): a trie over the bytes of the lower-cased
  keywords, kept as two arrays whose edges form one linked list per node, turned by a breadth-first
  pass into an automaton with failure links, and then flattened into one edge array that the match
  searches by bisection.  Indices are \<open>int\<close> (the code tests them against \<open>-1\<close>), converted with
  \<open>int32\<close>, \<open>uint32\<close> and \<open>uint16\<close> where the code converts them.  An index outside its array and a
  loop that does not return are both \<open>None\<close>.
\<close>

section \<open>Conversions, indexing and \<open>strings.ToLower\<close>\<close>

type_synonym byte = "8 word"

type_synonym go_bytes = "byte list"

definition int32 :: "int \<Rightarrow> int" where "int32 i = signed_take_bit 31 i"

definition uint32 :: "int \<Rightarrow> int" where "uint32 i = take_bit 32 i"

definition uint16 :: "int \<Rightarrow> int" where "uint16 i = take_bit 16 i"

definition at_index :: "'a list \<Rightarrow> int \<Rightarrow> 'a option" where
  "at_index xs i = (if 0 \<le> i \<and> i < int (length xs) then Some (xs ! nat i) else None)"

definition store_index :: "'a list \<Rightarrow> int \<Rightarrow> 'a \<Rightarrow> 'a list option" where
  "store_index xs i x = (if 0 \<le> i \<and> i < int (length xs) then Some (xs[nat i := x]) else None)"

definition ascii_lower :: "byte \<Rightarrow> byte" where
  "ascii_lower c = (if 65 \<le> c \<and> c \<le> 90 then c + 32 else c)"

text \<open>\<open>strings.ToLower\<close>: a text of bytes below \<open>0x80\<close> is mapped byte by byte; any other text goes
  through the Unicode tables, which are the parameter \<open>uni\<close>.\<close>

definition ToLower :: "(go_bytes \<Rightarrow> go_bytes) \<Rightarrow> go_bytes \<Rightarrow> go_bytes" where
  "ToLower uni s = (if \<forall>c\<in>set s. c < 128 then map ascii_lower s else uni s)"

section \<open>Nodes and edges\<close>

record keyword_node =
  n_failure :: int
  n_bestKeyword :: int
  n_edgeStart :: int
  n_edgeCount :: int

record keyword_edge =
  e_target :: int
  e_label :: byte

record build_edge =
  b_target :: int
  b_nextSibling :: int
  b_label :: byte

record keyword_matcher =
  m_nodes :: "keyword_node list"
  m_edges :: "keyword_edge list"
  m_rootTransitions :: "int list"
  m_keywords :: "go_bytes list"

definition newKeywordNode :: keyword_node where
  "newKeywordNode = \<lparr>n_failure = 0, n_bestKeyword = -1, n_edgeStart = 0, n_edgeCount = 0\<rparr>"

definition buildFirstEdge :: "keyword_node \<Rightarrow> int" where
  "buildFirstEdge node = (if n_edgeStart node = 0 then -1 else int32 (uint32 (n_edgeStart node - 1)))"

partial_function (option) find_sibling :: "build_edge list \<Rightarrow> int \<Rightarrow> byte \<Rightarrow> int option" where
  "find_sibling es i c =
     (if i < 0 then Some (-1)
      else do { e \<leftarrow> at_index es i;
                if b_label e = c then Some (b_target e) else find_sibling es (b_nextSibling e) c })"

definition buildTransition :: "keyword_node list \<Rightarrow> build_edge list \<Rightarrow> int \<Rightarrow> byte \<Rightarrow> int option" where
  "buildTransition ns es state c =
     (if state < 0 \<or> int (length ns) \<le> state then Some (-1)
      else find_sibling es (buildFirstEdge (ns ! nat state)) c)"

definition minKeywordIndex :: "int \<Rightarrow> int \<Rightarrow> int" where
  "minKeywordIndex left right =
     (if left < 0 then right else if right < 0 \<or> left < right then left else right)"

section \<open>Inserting the keywords\<close>

type_synonym trie_build = "keyword_node list \<times> build_edge list"

fun insert_bytes :: "keyword_node list \<Rightarrow> build_edge list \<Rightarrow> int \<Rightarrow> go_bytes \<Rightarrow> (trie_build \<times> int) option" where
  "insert_bytes ns es state [] = Some ((ns, es), state)"
| "insert_bytes ns es state (c # cs) = do {
     found \<leftarrow> buildTransition ns es state c;
     if found < 0 then do {
       let created = int32 (int (length ns));
       let ns1 = ns @ [newKeywordNode];
       node \<leftarrow> at_index ns1 state;
       let es1 = es @ [\<lparr>b_target = created, b_nextSibling = buildFirstEdge node, b_label = c\<rparr>];
       ns2 \<leftarrow> store_index ns1 state (node\<lparr>n_edgeStart := uint32 (int (length es1))\<rparr>);
       insert_bytes ns2 es1 created cs }
     else insert_bytes ns es found cs }"

definition insert_keyword :: "(go_bytes \<Rightarrow> go_bytes) \<Rightarrow> int \<Rightarrow> go_bytes \<Rightarrow> trie_build \<Rightarrow> trie_build option" where
  "insert_keyword uni keywordIndex keyword = (\<lambda>(ns, es).
     if keyword = [] then Some (ns, es)
     else do {
       ((ns1, es1), state) \<leftarrow> insert_bytes ns es 0 (ToLower uni keyword);
       node \<leftarrow> at_index ns1 state;
       if n_bestKeyword node < 0 \<or> int32 keywordIndex < n_bestKeyword node
       then do { ns2 \<leftarrow> store_index ns1 state (node\<lparr>n_bestKeyword := int32 keywordIndex\<rparr>);
                 Some (ns2, es1) }
       else Some (ns1, es1) })"

fun insert_keywords :: "(go_bytes \<Rightarrow> go_bytes) \<Rightarrow> int \<Rightarrow> go_bytes list \<Rightarrow> trie_build \<Rightarrow> trie_build option" where
  "insert_keywords uni i [] b = Some b"
| "insert_keywords uni i (k # ks) b = do { b1 \<leftarrow> insert_keyword uni i k b; insert_keywords uni (i + 1) ks b1 }"

section \<open>The breadth-first pass\<close>

partial_function (option) root_edges ::
    "build_edge list \<Rightarrow> int \<Rightarrow> int list \<Rightarrow> int list \<Rightarrow> (int list \<times> int list) option" where
  "root_edges es i roots queue =
     (if i < 0 then Some (roots, queue)
      else do { e \<leftarrow> at_index es i;
                root_edges es (b_nextSibling e) (roots[unat (b_label e) := b_target e]) (queue @ [b_target e]) })"

partial_function (option) fallback_walk ::
    "keyword_node list \<Rightarrow> build_edge list \<Rightarrow> int \<Rightarrow> byte \<Rightarrow> int option" where
  "fallback_walk ns es failure c = do {
     fallback \<leftarrow> buildTransition ns es failure c;
     if fallback < 0 \<and> failure \<noteq> 0
     then do { node \<leftarrow> at_index ns failure; fallback_walk ns es (n_failure node) c }
     else Some fallback }"

definition link_child :: "keyword_node list \<Rightarrow> build_edge list \<Rightarrow> int \<Rightarrow> build_edge \<Rightarrow> keyword_node list option" where
  "link_child ns es state edge = do {
     node \<leftarrow> at_index ns state;
     fallback \<leftarrow> fallback_walk ns es (n_failure node) (b_label edge);
     child \<leftarrow> at_index ns (b_target edge);
     let child1 = (if 0 \<le> fallback then child\<lparr>n_failure := fallback\<rparr> else child);
     ns1 \<leftarrow> store_index ns (b_target edge) child1;
     failed \<leftarrow> at_index ns1 (n_failure child1);
     store_index ns1 (b_target edge)
       (child1\<lparr>n_bestKeyword := minKeywordIndex (n_bestKeyword child1) (n_bestKeyword failed)\<rparr>) }"

partial_function (option) link_children ::
    "keyword_node list \<Rightarrow> build_edge list \<Rightarrow> int \<Rightarrow> int \<Rightarrow> int list \<Rightarrow> (keyword_node list \<times> int list) option" where
  "link_children ns es state i queue =
     (if i < 0 then Some (ns, queue)
      else do { edge \<leftarrow> at_index es i;
                ns1 \<leftarrow> link_child ns es state edge;
                link_children ns1 es state (b_nextSibling edge) (queue @ [b_target edge]) })"

partial_function (option) link_queue ::
    "keyword_node list \<Rightarrow> build_edge list \<Rightarrow> int list \<Rightarrow> nat \<Rightarrow> keyword_node list option" where
  "link_queue ns es queue queueIndex =
     (if queueIndex < length queue
      then do { node \<leftarrow> at_index ns (queue ! queueIndex);
                (ns1, queue1) \<leftarrow> link_children ns es (queue ! queueIndex) (buildFirstEdge node) queue;
                link_queue ns1 es queue1 (queueIndex + 1) }
      else Some ns)"

section \<open>Flattening the edges\<close>

text \<open>The scratch array \<open>outgoing\<close> has 256 entries and is reused from node to node.\<close>

partial_function (option) collect_edges ::
    "build_edge list \<Rightarrow> int \<Rightarrow> keyword_edge list \<Rightarrow> int \<Rightarrow> (keyword_edge list \<times> int) option" where
  "collect_edges es i outgoing count =
     (if i < 0 then Some (outgoing, count)
      else do { e \<leftarrow> at_index es i;
                outgoing1 \<leftarrow> store_index outgoing count \<lparr>e_target = b_target e, e_label = b_label e\<rparr>;
                collect_edges es (b_nextSibling e) outgoing1 (count + 1) })"

fun insert_edge_at :: "keyword_edge list \<Rightarrow> keyword_edge \<Rightarrow> nat \<Rightarrow> keyword_edge list" where
  "insert_edge_at outgoing current 0 = outgoing[0 := current]"
| "insert_edge_at outgoing current (Suc at) =
     (if e_label current < e_label (outgoing ! at)
      then insert_edge_at (outgoing[Suc at := outgoing ! at]) current at
      else outgoing[Suc at := current])"

definition sort_outgoing :: "keyword_edge list \<Rightarrow> nat \<Rightarrow> keyword_edge list" where
  "sort_outgoing outgoing count =
     fold (\<lambda>index out. insert_edge_at out (out ! index) index) [1..<count] outgoing"

definition flatten_node ::
    "build_edge list \<Rightarrow> nat \<Rightarrow> keyword_node list \<times> keyword_edge list \<times> keyword_edge list
      \<Rightarrow> (keyword_node list \<times> keyword_edge list \<times> keyword_edge list) option" where
  "flatten_node es nodeIndex = (\<lambda>(ns, edges, outgoing). do {
     node \<leftarrow> at_index ns (int nodeIndex);
     (outgoing1, count) \<leftarrow> collect_edges es (buildFirstEdge node) outgoing 0;
     let outgoing2 = sort_outgoing outgoing1 (nat count);
     Some (ns[nodeIndex := node\<lparr>n_edgeStart := uint32 (int (length edges)), n_edgeCount := uint16 count\<rparr>],
           edges @ take (nat count) outgoing2, outgoing2) })"

fun flatten_nodes ::
    "build_edge list \<Rightarrow> nat list \<Rightarrow> keyword_node list \<times> keyword_edge list \<times> keyword_edge list
      \<Rightarrow> (keyword_node list \<times> keyword_edge list \<times> keyword_edge list) option" where
  "flatten_nodes es [] st = Some st"
| "flatten_nodes es (i # is) st = do { st1 \<leftarrow> flatten_node es i st; flatten_nodes es is st1 }"

text \<open>The inner option is the pointer the constructor returns: \<open>None\<close> is \<open>nil\<close>.\<close>

definition newKeywordMatcher :: "(go_bytes \<Rightarrow> go_bytes) \<Rightarrow> go_bytes list \<Rightarrow> keyword_matcher option option" where
  "newKeywordMatcher uni kws =
     (if kws = [] then Some None
      else do {
        (ns, es) \<leftarrow> insert_keywords uni 0 kws ([newKeywordNode], []);
        if length ns = 1 then Some None
        else do {
          root \<leftarrow> at_index ns 0;
          (roots, queue) \<leftarrow> root_edges es (buildFirstEdge root) (replicate 256 0) [];
          ns1 \<leftarrow> link_queue ns es queue 0;
          (ns2, edges, _) \<leftarrow> flatten_nodes es [0..<length ns1]
                                (ns1, [], replicate 256 \<lparr>e_target = 0, e_label = 0\<rparr>);
          Some (Some \<lparr>m_nodes = ns2, m_edges = edges, m_rootTransitions = roots, m_keywords = kws\<rparr>) } })"

section \<open>Matching\<close>

function bisect_label :: "keyword_edge list \<Rightarrow> int \<Rightarrow> int \<Rightarrow> byte \<Rightarrow> int option" where
  "bisect_label edges left right c =
     (if left < right then do {
        let middle = left + (right - left) div 2;
        edge \<leftarrow> at_index edges middle;
        if e_label edge < c then bisect_label edges (middle + 1) right c
        else bisect_label edges left middle c }
      else Some left)"
  by pat_completeness auto
termination by (relation "measure (\<lambda>(edges, left, right, c). nat (right - left))") auto

definition next_state :: "keyword_matcher \<Rightarrow> int \<Rightarrow> byte \<Rightarrow> int option" where
  "next_state m state c =
     (if state = 0 then Some (m_rootTransitions m ! unat c)
      else if state < 0 \<or> int (length (m_nodes m)) \<le> state then Some 0
      else do {
        let node = m_nodes m ! nat state;
        left \<leftarrow> bisect_label (m_edges m) (n_edgeStart node) (n_edgeStart node + n_edgeCount node) c;
        if left < n_edgeStart node + n_edgeCount node
        then do { edge \<leftarrow> at_index (m_edges m) left;
                  Some (if e_label edge = c then e_target edge else 0) }
        else Some 0 })"

partial_function (option) follow :: "keyword_matcher \<Rightarrow> int \<Rightarrow> byte \<Rightarrow> int option" where
  "follow m state c = do {
     found \<leftarrow> next_state m state c;
     if found \<noteq> 0 then Some found
     else if state = 0 then Some state
     else do { node \<leftarrow> at_index (m_nodes m) state; follow m (n_failure node) c } }"

fun scan_text :: "keyword_matcher \<Rightarrow> int \<Rightarrow> int \<Rightarrow> go_bytes \<Rightarrow> (go_bytes \<times> bool) option" where
  "scan_text m state best [] =
     (if best < 0 \<or> int (length (m_keywords m)) \<le> best then Some ([], False)
      else Some (m_keywords m ! nat best, True))"
| "scan_text m state best (c # cs) = do {
     state1 \<leftarrow> follow m state c;
     node \<leftarrow> at_index (m_nodes m) state1;
     let best1 = minKeywordIndex best (n_bestKeyword node);
     if best1 = 0 then do { keyword \<leftarrow> at_index (m_keywords m) 0; Some (keyword, True) }
     else scan_text m state1 best1 cs }"

definition Match :: "(go_bytes \<Rightarrow> go_bytes) \<Rightarrow> keyword_matcher option \<Rightarrow> go_bytes \<Rightarrow> (go_bytes \<times> bool) option" where
  "Match uni mo text = (case mo of
     None \<Rightarrow> Some ([], False)
   | Some m \<Rightarrow> if text = [] \<or> m_nodes m = [] \<or> m_keywords m = [] then Some ([], False)
               else scan_text m 0 (-1) (ToLower uni text))"

section \<open>The scan without an automaton\<close>

text \<open>\<open>matchBlockedKeyword\<close> of \<open>content_moderation.go\<close>, which a snapshot without a matcher uses.\<close>

fun first_contained :: "(go_bytes \<Rightarrow> go_bytes) \<Rightarrow> go_bytes \<Rightarrow> go_bytes list \<Rightarrow> go_bytes \<times> bool" where
  "first_contained uni lower [] = ([], False)"
| "first_contained uni lower (kw # kws) =
     (if kw = [] then first_contained uni lower kws
      else if sublist (ToLower uni kw) lower then (kw, True)
      else first_contained uni lower kws)"

definition matchBlockedKeyword :: "(go_bytes \<Rightarrow> go_bytes) \<Rightarrow> go_bytes \<Rightarrow> go_bytes list \<Rightarrow> go_bytes \<times> bool" where
  "matchBlockedKeyword uni text kws =
     (if text = [] \<or> kws = [] then ([], False) else first_contained uni (ToLower uni text) kws)"

text \<open>\<open>contentModerationRuntimeSnapshot.matchBlockedKeyword\<close>: a nil snapshot or a nil configuration is
  the outer \<open>None\<close>; otherwise the matcher pointer and the configured keywords.\<close>

definition snapshot_matchBlockedKeyword ::
    "(go_bytes \<Rightarrow> go_bytes) \<Rightarrow> (keyword_matcher option \<times> go_bytes list) option \<Rightarrow> go_bytes
      \<Rightarrow> (go_bytes \<times> bool) option" where
  "snapshot_matchBlockedKeyword uni snap text = (case snap of
     None \<Rightarrow> Some ([], False)
   | Some (Some m, kws) \<Rightarrow> Match uni (Some m) text
   | Some (None, kws) \<Rightarrow> Some (matchBlockedKeyword uni text kws))"

end
