(* ===== verification/Keyword_Trie.thy ===== *)
theory Keyword_Trie
  imports Keyword_Matcher
begin

text \<open>
  The trie the matcher builds.  \<open>W\<close> gives the word of each node and \<open>K\<close> its outgoing edges in the
  order of its sibling list; \<open>graph W K\<close> says that they are a trie and \<open>stored ns es K\<close> that the
  two arrays of the code hold it.  \<open>insert_keywords_ok\<close> shows that the insertion of the keywords
  returns, keeps both, and leaves at each node the least index of the keywords that end there.
\<close>

named_theorems keyword_simps "arithmetic of the conversions"

lemma int32_id [keyword_simps]: "- 2147483648 \<le> i \<Longrightarrow> i < 2147483648 \<Longrightarrow> int32 i = i"
  unfolding int32_def by (rule signed_take_bit_int_eq_self) simp_all

lemma uint32_id [keyword_simps]: "0 \<le> i \<Longrightarrow> i < 4294967296 \<Longrightarrow> uint32 i = i"
  unfolding uint32_def by (rule take_bit_int_eq_self) auto

lemma uint16_id [keyword_simps]: "0 \<le> i \<Longrightarrow> i < 65536 \<Longrightarrow> uint16 i = i"
  unfolding uint16_def by (rule take_bit_int_eq_self) auto

lemma at_index_int [simp]: "at_index xs (int i) = (if i < length xs then Some (xs ! i) else None)"
  by (simp add: at_index_def)

lemma at_index_0 [simp]: "at_index xs 0 = (if xs \<noteq> [] then Some (xs ! 0) else None)"
  by (simp add: at_index_def)

lemma store_index_int [simp]:
  "store_index xs (int i) x = (if i < length xs then Some (xs[i := x]) else None)"
  by (simp add: store_index_def)

lemma at_index_append: "at_index xs i = Some x \<Longrightarrow> at_index (xs @ ys) i = Some x"
  by (auto simp: at_index_def nth_append split: if_splits)

section \<open>Sibling lists\<close>

inductive chain :: "build_edge list \<Rightarrow> int \<Rightarrow> build_edge list \<Rightarrow> bool" for es where
  chain_nil: "i < 0 \<Longrightarrow> chain es i []"
| chain_cons: "0 \<le> i \<Longrightarrow> at_index es i = Some e \<Longrightarrow> chain es (b_nextSibling e) ks \<Longrightarrow> chain es i (e # ks)"

lemma chain_append: "chain es i ks \<Longrightarrow> chain (es @ xs) i ks"
  by (induction rule: chain.induct) (auto intro: chain.intros at_index_append)

definition label_target :: "build_edge list \<Rightarrow> byte \<Rightarrow> int" where
  "label_target ks c = (case find (\<lambda>e. b_label e = c) ks of None \<Rightarrow> -1 | Some e \<Rightarrow> b_target e)"

lemma chain_find: "chain es i ks \<Longrightarrow> find_sibling es i c = Some (label_target ks c)"
  by (induction rule: chain.induct)
    (subst find_sibling.simps; simp add: label_target_def; fail)+

section \<open>The trie\<close>

definition graph :: "go_bytes list \<Rightarrow> build_edge list list \<Rightarrow> bool" where
  "graph W K \<longleftrightarrow> W \<noteq> [] \<and> W ! 0 = [] \<and> distinct W \<and> length K = length W
     \<and> Suc (sum_list (map length K)) = length W
     \<and> (\<forall>s<length W. distinct (map b_label (K ! s)))
     \<and> (\<forall>s<length W. \<forall>e\<in>set (K ! s). \<exists>t<length W. b_target e = int t \<and> W ! t = W ! s @ [b_label e])
     \<and> (\<forall>t<length W. t \<noteq> 0 \<longrightarrow> (\<exists>s<length W. \<exists>e\<in>set (K ! s). b_target e = int t))"

definition stored :: "keyword_node list \<Rightarrow> build_edge list \<Rightarrow> build_edge list list \<Rightarrow> bool" where
  "stored ns es K \<longleftrightarrow> length ns = length K \<and> length es = sum_list (map length K)
     \<and> (\<forall>s<length K. chain es (buildFirstEdge (ns ! s)) (K ! s))"

lemma graph_length: "graph W K \<Longrightarrow> length K = length W"
  by (simp add: graph_def)

lemma graph_root: "graph W K \<Longrightarrow> W ! 0 = []" and graph_nonempty: "graph W K \<Longrightarrow> W \<noteq> []"
  by (simp_all add: graph_def)

lemma graph_inj: "graph W K \<Longrightarrow> s < length W \<Longrightarrow> t < length W \<Longrightarrow> W ! s = W ! t \<Longrightarrow> s = t"
  by (simp add: graph_def nth_eq_iff_index_eq)

lemma graph_empty_word: "graph W K \<Longrightarrow> s < length W \<Longrightarrow> W ! s = [] \<longleftrightarrow> s = 0"
  using graph_inj[of W K s 0] graph_root[of W K] graph_nonempty[of W K] by auto

lemma graph_edge:
  assumes "graph W K" "s < length W" "e \<in> set (K ! s)"
  obtains t where "t < length W" "b_target e = int t" "W ! t = W ! s @ [b_label e]" "t \<noteq> 0"
proof -
  obtain t where t: "t < length W" "b_target e = int t" "W ! t = W ! s @ [b_label e]"
    using assms unfolding graph_def by blast
  moreover have "t \<noteq> 0" using t(3) graph_root[OF assms(1)] by (intro notI) simp
  ultimately show thesis by (rule that)
qed

lemma graph_parent:
  assumes "graph W K" "t < length W" "t \<noteq> 0"
  obtains s e where "s < length W" "e \<in> set (K ! s)" "b_target e = int t" "W ! t = W ! s @ [b_label e]"
proof -
  obtain s e where se: "s < length W" "e \<in> set (K ! s)" "b_target e = int t"
    using assms unfolding graph_def by meson
  with graph_edge[OF assms(1) se(1,2)] have "W ! t = W ! s @ [b_label e]"
    by (metis of_nat_eq_iff)
  with se show thesis by (rule that)
qed

lemma graph_child:
  assumes "graph W K" "s < length W" "t < length W" "W ! t = W ! s @ [c]"
  shows "\<exists>e\<in>set (K ! s). b_label e = c \<and> b_target e = int t"
proof -
  have "t \<noteq> 0" using assms(3-) graph_root[OF assms(1)] by (intro notI) simp
  then obtain p e where "p < length W" "e \<in> set (K ! p)" "b_target e = int t" "W ! t = W ! p @ [b_label e]"
    using graph_parent assms by metis
  with assms graph_inj[of W K p s] show ?thesis by auto
qed

lemma graph_prefix_closed:
  assumes "graph W K" "t < length W" "W ! t = w @ [c]"
  obtains s where "s < length W" "W ! s = w"
proof -
  have "t \<noteq> 0" using assms(3) graph_root[OF assms(1)] by (intro notI) simp
  then show thesis using graph_parent[OF assms(1,2)] assms(3) that by (metis append1_eq_conv)
qed

lemma graph_targets_distinct:
  assumes g: "graph W K" and s: "s < length W"
  shows "distinct (map b_target (K ! s))"
proof -
  have "inj_on b_target (set (K ! s))"
  proof (rule inj_onI)
    fix x y assume xy: "x \<in> set (K ! s)" "y \<in> set (K ! s)" "b_target x = b_target y"
    have "b_label x = b_label y"
      using graph_edge[OF g s xy(1)] graph_edge[OF g s xy(2)] xy(3)
      by (metis append1_eq_conv of_nat_eq_iff)
    moreover have "inj_on b_label (set (K ! s))"
      using g s by (auto simp: graph_def distinct_map)
    ultimately show "x = y" using xy by (auto dest: inj_onD)
  qed
  moreover have "distinct (K ! s)" using g s by (auto simp: graph_def distinct_map)
  ultimately show ?thesis by (simp add: distinct_map)
qed

text \<open>What a transition of the trie says about the words.\<close>

definition goes :: "go_bytes list \<Rightarrow> nat \<Rightarrow> byte \<Rightarrow> nat \<Rightarrow> bool" where
  "goes W s c t \<longleftrightarrow> t < length W \<and> W ! t = W ! s @ [c]"

lemma goes_nonzero: "graph W K \<Longrightarrow> goes W s c t \<Longrightarrow> t \<noteq> 0"
  using graph_root[of W K] by (auto simp: goes_def intro!: gr0I)

lemma label_target_cases:
  assumes "graph W K" "s < length W"
  obtains (none) "label_target (K ! s) c = -1" "\<forall>t. \<not> goes W s c t"
  | (some) t where "label_target (K ! s) c = int t" "goes W s c t"
proof (cases "find (\<lambda>e. b_label e = c) (K ! s)")
  case None
  then have "\<forall>e\<in>set (K ! s). b_label e \<noteq> c" by (auto simp: find_None_iff)
  then have "\<forall>t. \<not> goes W s c t" using graph_child[OF assms] by (auto simp: goes_def)
  with None show thesis by (intro none) (auto simp: label_target_def)
next
  case (Some e)
  then have "e \<in> set (K ! s)" "b_label e = c" by (auto simp: find_Some_iff)
  with graph_edge[OF assms, of e] Some show thesis
    by (metis some goes_def label_target_def option.simps(5))
qed

lemma buildTransition_stored:
  assumes "stored ns es K" "s < length K"
  shows "buildTransition ns es (int s) c = Some (label_target (K ! s) c)"
  using assms by (auto simp: stored_def buildTransition_def chain_find)

lemma buildTransition_cases:
  assumes "graph W K" "stored ns es K" "s < length W"
  obtains (none) "buildTransition ns es (int s) c = Some (-1)" "\<forall>t. \<not> goes W s c t"
  | (some) t where "buildTransition ns es (int s) c = Some (int t)" "goes W s c t"
  using label_target_cases[OF assms(1,3), of c] buildTransition_stored[OF assms(2), of s c] assms
  by (metis graph_length)

section \<open>Adding a node\<close>

lemma sum_length_update:
  assumes "s < length K"
  shows "sum_list (map length (K[s := e # K ! s])) = Suc (sum_list (map length K))"
proof -
  have "(map length K) ! s \<le> sum_list (map length K)"
    by (rule elem_le_sum_list) (use assms in simp)
  then show ?thesis using assms by (simp add: map_update sum_list_update)
qed

lemma graph_extend:
  assumes g: "graph W K" and s: "s < length W" and no: "\<forall>t. \<not> goes W s c t"
    and e: "b_target e = int (length W)" "b_label e = c"
  shows "graph (W @ [W ! s @ [c]]) (K[s := e # K ! s] @ [[]])"
proof -
  let ?W = "W @ [W ! s @ [c]]" and ?K = "K[s := e # K ! s] @ [[]]"
  have [simp]: "length K = length W" using graph_length[OF g] .
  have new: "W ! s @ [c] \<notin> set W"
    using no by (auto simp: goes_def in_set_conv_nth)
  have kids: "\<And>u x. u < length W \<Longrightarrow> x \<in> set (?K ! u) \<Longrightarrow> x \<in> set (K ! u) \<or> (u = s \<and> x = e)"
    using graph_length[OF g] s by (auto simp: nth_append nth_list_update split: if_splits)
  have labels: "c \<notin> b_label ` set (K ! s)"
  proof
    assume "c \<in> b_label ` set (K ! s)"
    then obtain x where x: "x \<in> set (K ! s)" "b_label x = c" by blast
    obtain t where "t < length W" "W ! t = W ! s @ [b_label x]" using graph_edge[OF g s x(1)] by metis
    with x no show False by (simp add: goes_def)
  qed
  have "\<forall>u<length ?W. distinct (map b_label (?K ! u))"
    using g s labels e(2) by (auto simp: graph_def nth_append nth_list_update less_Suc_eq)
  moreover have "\<exists>t<length ?W. b_target x = int t \<and> ?W ! t = ?W ! u @ [b_label x]"
    if u: "u < length ?W" and x: "x \<in> set (?K ! u)" for u x
  proof -
    have u': "u < length W" using u x g by (cases "u = length W") (auto simp: nth_append)
    from kids[OF u' x] show ?thesis
    proof
      assume "x \<in> set (K ! u)"
      with graph_edge[OF g u'] obtain t where "t < length W" "b_target x = int t" "W ! t = W ! u @ [b_label x]"
        by metis
      then show ?thesis using u' by (intro exI[of _ t]) (auto simp: nth_append)
    next
      assume "u = s \<and> x = e"
      then show ?thesis using s e by (intro exI[of _ "length W"]) (auto simp: nth_append)
    qed
  qed
  moreover have "\<exists>u<length ?W. \<exists>x\<in>set (?K ! u). b_target x = int t" if t: "t < length ?W" "t \<noteq> 0" for t
  proof (cases "t = length W")
    case True
    then show ?thesis using g s e by (intro exI[of _ s] conjI bexI[of _ e]) (auto simp: nth_append)
  next
    case False
    then have "t < length W" using t by simp
    then obtain u x where "u < length W" "x \<in> set (K ! u)" "b_target x = int t"
      using graph_parent[OF g _ t(2)] by metis
    then show ?thesis using g s
      by (intro exI[of _ u] conjI bexI[of _ x]) (auto simp: nth_append nth_list_update)
  qed
  ultimately show ?thesis
    using g s new sum_length_update[of s K e] unfolding graph_def by (simp add: nth_append)
qed

lemma stored_extend:
  assumes st: "stored ns es K" and s: "s < length K" and small: "length es < 2147483647"
    and e: "b_nextSibling e = buildFirstEdge (ns ! s)"
  shows "stored ((ns @ [newKeywordNode])[s := (ns ! s)\<lparr>n_edgeStart := uint32 (int (length (es @ [e])))\<rparr>])
           (es @ [e]) (K[s := e # K ! s] @ [[]])"
proof -
  let ?ns = "(ns @ [newKeywordNode])[s := (ns ! s)\<lparr>n_edgeStart := uint32 (int (length (es @ [e])))\<rparr>]"
  let ?K = "K[s := e # K ! s] @ [[]]"
  have "uint32 (int (Suc (length es))) = int (Suc (length es))" "uint32 (int (length es)) = int (length es)"
      "int32 (int (length es)) = int (length es)"
    using small by (simp_all add: keyword_simps)
  then have first: "buildFirstEdge (?ns ! s) = int (length es)"
    using s st by (simp add: stored_def buildFirstEdge_def)
  have "chain (es @ [e]) (buildFirstEdge (?ns ! u)) (?K ! u)" if u: "u < length ?K" for u
  proof -
    consider "u = length K" | "u = s" | "u < length K" "u \<noteq> s" using u by fastforce
    then show ?thesis
    proof cases
      case 1
      then have "buildFirstEdge (?ns ! u) = -1"
        using st s by (simp add: stored_def nth_list_update nth_append newKeywordNode_def buildFirstEdge_def)
      then show ?thesis using 1 by (auto simp: nth_append intro: chain_nil)
    next
      case 2
      have "chain (es @ [e]) (int (length es)) (e # K ! s)"
        using st s by (intro chain_cons chain_append) (auto simp: stored_def e nth_append)
      then show ?thesis using 2 s by (simp only: first) (simp add: nth_append)
    next
      case 3
      then show ?thesis using st by (auto simp: stored_def nth_append intro: chain_append)
    qed
  qed
  then show ?thesis using st sum_length_update[OF s, of e] by (simp add: stored_def)
qed


section \<open>Inserting a keyword\<close>

lemma insert_bytes_ok:
  assumes "graph W K" "stored ns es K" "s < length W" "length W + length cs \<le> 2147483648"
  shows "\<exists>X K' ns' es' t. insert_bytes ns es (int s) cs = Some ((ns', es'), int t)
     \<and> graph (W @ X) K' \<and> stored ns' es' K' \<and> t < length (W @ X) \<and> (W @ X) ! t = W ! s @ cs
     \<and> length X \<le> length cs
     \<and> map n_bestKeyword ns' = map n_bestKeyword ns @ replicate (length X) (-1)
     \<and> map n_failure ns' = map n_failure ns @ replicate (length X) 0"
  using assms
proof (induction cs arbitrary: W K ns es s)
  case Nil
  then show ?case by (intro exI[of _ "[]"] exI[of _ K] exI[of _ ns] exI[of _ es] exI[of _ s]) simp
next
  case (Cons c cs)
  show ?case
  proof (rule buildTransition_cases[OF Cons.prems(1-3), of c])
    fix t assume t: "buildTransition ns es (int s) c = Some (int t)" "goes W s c t"
    then have "t < length W" and wt: "W ! t = W ! s @ [c]" by (auto simp: goes_def)
    from Cons.IH[OF Cons.prems(1,2) this(1)] Cons.prems(4)
    obtain X K' ns' es' r where *: "insert_bytes ns es (int t) cs = Some ((ns', es'), int r)"
      "graph (W @ X) K'" "stored ns' es' K'" "r < length (W @ X)" "(W @ X) ! r = W ! t @ cs" "length X \<le> length cs"
      "map n_bestKeyword ns' = map n_bestKeyword ns @ replicate (length X) (-1)"
      "map n_failure ns' = map n_failure ns @ replicate (length X) 0"
      by auto
    show ?thesis
      by (rule exI[of _ X], rule exI[of _ K'], rule exI[of _ ns'], rule exI[of _ es'], rule exI[of _ r])
        (use * t(1) wt in simp)
  next
    assume no: "buildTransition ns es (int s) c = Some (-1)" "\<forall>t. \<not> goes W s c t"
    have len: "length ns = length W" "length K = length W" "length es < 2147483647" "Suc (length es) = length W"
      using Cons.prems by (auto simp: stored_def graph_def)
    define e where "e = \<lparr>b_target = int (length W), b_nextSibling = buildFirstEdge (ns ! s), b_label = c\<rparr>"
    define ns2 where "ns2 = (ns @ [newKeywordNode])[s := (ns ! s)\<lparr>n_edgeStart := uint32 (int (length (es @ [e])))\<rparr>]"
    define K2 where "K2 = K[s := e # K ! s] @ [[]]"
    let ?W = "W @ [W ! s @ [c]]"
    have g2: "graph ?W K2"
      unfolding K2_def by (rule graph_extend[OF Cons.prems(1,3) no(2)]) (simp_all add: e_def)
    have st2: "stored ns2 (es @ [e]) K2"
      unfolding ns2_def K2_def by (rule stored_extend[OF Cons.prems(2)]) (use Cons.prems len in \<open>simp_all add: e_def\<close>)
    have "int32 (int (length W)) = int (length W)"
      using Cons.prems(4) by (simp add: keyword_simps)
    then have step: "insert_bytes ns es (int s) (c # cs) = insert_bytes ns2 (es @ [e]) (int (length W)) cs"
      using no(1) len Cons.prems(3) by (simp add: e_def ns2_def nth_append Let_def)
    have maps: "map n_bestKeyword ns2 = map n_bestKeyword ns @ [-1]" "map n_failure ns2 = map n_failure ns @ [0]"
      unfolding ns2_def using Cons.prems(3) len
      by (simp_all add: map_update list_update_append1 newKeywordNode_def)
        (simp_all add: list_update_same_conv)
    from Cons.IH[OF g2 st2, of "length W"] Cons.prems(4)
    obtain X K' ns' es' r where *: "insert_bytes ns2 (es @ [e]) (int (length W)) cs = Some ((ns', es'), int r)"
      "graph (?W @ X) K'" "stored ns' es' K'" "r < length (?W @ X)" "(?W @ X) ! r = ?W ! length W @ cs"
      "length X \<le> length cs"
      "map n_bestKeyword ns' = map n_bestKeyword ns2 @ replicate (length X) (-1)"
      "map n_failure ns' = map n_failure ns2 @ replicate (length X) 0"
      by auto
    show ?thesis
      by (rule exI[of _ "(W ! s @ [c]) # X"], rule exI[of _ K'], rule exI[of _ ns'], rule exI[of _ es'], rule exI[of _ r])
        (use * in \<open>simp add: step maps del: insert_bytes.simps\<close>)
  qed
qed


section \<open>Inserting the keywords\<close>

definition least_index :: "(nat \<Rightarrow> bool) \<Rightarrow> int \<Rightarrow> bool" where
  "least_index P b \<longleftrightarrow> -1 \<le> b \<and> (0 \<le> b \<longrightarrow> P (nat b)) \<and> (\<forall>i. P i \<longrightarrow> 0 \<le> b \<and> b \<le> int i)"

lemma least_index_cong: "(\<And>i. P i \<longleftrightarrow> Q i) \<Longrightarrow> b = c \<Longrightarrow> least_index P b = least_index Q c"
  by (simp add: least_index_def)

lemma least_index_none: "\<forall>i. \<not> P i \<Longrightarrow> least_index P (-1)"
  by (simp add: least_index_def)

lemma least_index_min:
  assumes "least_index P a" "least_index Q b"
  shows "least_index (\<lambda>i. P i \<or> Q i) (minKeywordIndex a b)"
proof (cases "a < 0")
  case True
  then have "a = -1" "\<forall>i. \<not> P i" using assms(1) by (auto simp: least_index_def)
  then show ?thesis using assms(2) by (simp add: minKeywordIndex_def)
next
  case a: False
  show ?thesis
  proof (cases "b < 0")
    case True
    then have "b = -1" "\<forall>i. \<not> Q i" using assms(2) by (auto simp: least_index_def)
    then show ?thesis using assms(1) a by (simp add: minKeywordIndex_def)
  next
    case False
    then show ?thesis using a assms by (fastforce simp: minKeywordIndex_def least_index_def)
  qed
qed

lemma least_index_zero: "least_index P b \<Longrightarrow> b = 0 \<longleftrightarrow> P 0"
  by (force simp: least_index_def)

text \<open>What is relied on of the Unicode tables: \<open>unicode.ToLower\<close> drops no rune.\<close>

definition keeps_text :: "(go_bytes \<Rightarrow> go_bytes) \<Rightarrow> bool" where
  "keeps_text uni \<longleftrightarrow> (\<forall>s. s \<noteq> [] \<longrightarrow> uni s \<noteq> [])"

lemma ToLower_Nil_iff: "keeps_text uni \<Longrightarrow> ToLower uni s = [] \<longleftrightarrow> s = []"
  by (cases "s = []") (simp_all add: keeps_text_def ToLower_def)

definition lowered :: "(go_bytes \<Rightarrow> go_bytes) \<Rightarrow> go_bytes list \<Rightarrow> go_bytes list" where
  "lowered uni kws = map (\<lambda>k. if k = [] then [] else ToLower uni k) kws"

definition ends_at :: "go_bytes list \<Rightarrow> nat \<Rightarrow> go_bytes \<Rightarrow> nat \<Rightarrow> bool" where
  "ends_at L k w i \<longleftrightarrow> i < k \<and> L ! i \<noteq> [] \<and> L ! i = w"

definition built :: "go_bytes list \<Rightarrow> nat \<Rightarrow> go_bytes list \<Rightarrow> build_edge list list \<Rightarrow> trie_build \<Rightarrow> bool" where
  "built L k W K b \<longleftrightarrow> graph W K \<and> stored (fst b) (snd b) K
     \<and> (\<forall>s<length W. n_failure (fst b ! s) = 0 \<and> least_index (ends_at L k (W ! s)) (n_bestKeyword (fst b ! s)))
     \<and> (\<forall>i<k. L ! i \<in> set W)"

lemma built_start: "built L 0 [[]] [[]] ([newKeywordNode], [])"
  by (auto simp: built_def graph_def stored_def newKeywordNode_def least_index_def ends_at_def buildFirstEdge_def
      intro: chain_nil)

lemma ends_at_Suc: "w \<noteq> L ! k \<or> L ! k = [] \<Longrightarrow> ends_at L (Suc k) w = ends_at L k w"
  by (auto simp: ends_at_def less_Suc_eq fun_eq_iff)

lemma least_index_Suc:
  assumes "least_index (ends_at L k (L ! k)) b" "L ! k \<noteq> []"
  shows "least_index (ends_at L (Suc k) (L ! k)) (if b < 0 \<or> int k < b then int k else b)"
proof (cases "b < 0")
  case True
  then show ?thesis using assms by (auto simp: least_index_def ends_at_def less_Suc_eq)
next
  case False
  then have "nat b < k" using assms by (simp add: least_index_def ends_at_def)
  then show ?thesis using assms False by (auto simp: least_index_def ends_at_def less_Suc_eq)
qed

lemma stored_update:
  assumes "stored ns es K" "s < length K" "n_edgeStart node = n_edgeStart (ns ! s)"
  shows "stored (ns[s := node]) es K"
  using assms by (auto simp: stored_def buildFirstEdge_def nth_list_update)

lemma insert_bytes_built:
  assumes b: "built L k W K b" and len: "length W + length cs \<le> 2147483648"
  shows "\<exists>X K' b' t. insert_bytes (fst b) (snd b) 0 cs = Some (b', int t) \<and> built L k (W @ X) K' b'
           \<and> t < length (W @ X) \<and> (W @ X) ! t = cs \<and> length X \<le> length cs"
proof -
  have g: "graph W K" "stored (fst b) (snd b) K" and s: "0 < length W" and r: "W ! 0 = []"
    using b graph_nonempty graph_root by (auto simp: built_def)
  obtain X K' ns' es' t where *: "insert_bytes (fst b) (snd b) 0 cs = Some ((ns', es'), int t)"
      "graph (W @ X) K'" "stored ns' es' K'" "t < length (W @ X)" "(W @ X) ! t = cs" "length X \<le> length cs"
      "map n_bestKeyword ns' = map n_bestKeyword (fst b) @ replicate (length X) (-1)"
      "map n_failure ns' = map n_failure (fst b) @ replicate (length X) 0"
    using insert_bytes_ok[OF g s len] r by auto
  have l: "length ns' = length (W @ X)" "length (fst b) = length W"
    using * g by (auto simp: stored_def graph_length)
  have "n_failure (ns' ! u) = 0 \<and> least_index (ends_at L k ((W @ X) ! u)) (n_bestKeyword (ns' ! u))"
    if u: "u < length (W @ X)" for u
  proof -
    have f: "n_failure (ns' ! u) = (map n_failure (fst b) @ replicate (length X) 0) ! u"
      using *(8) u l by (metis nth_map)
    have k: "n_bestKeyword (ns' ! u) = (map n_bestKeyword (fst b) @ replicate (length X) (-1)) ! u"
      using *(7) u l by (metis nth_map)
    show ?thesis
    proof (cases "u < length W")
      case True
      then show ?thesis using f k b l by (simp add: nth_append built_def)
    next
      case False
      have "(W @ X) ! u \<notin> set W"
        using False u graph_inj[OF *(2) u] by (metis in_set_conv_nth nth_append trans_less_add1 length_append)
      then have "\<forall>i. \<not> ends_at L k ((W @ X) ! u) i" using b by (auto simp: ends_at_def built_def)
      then show ?thesis using f k l u False by (simp add: nth_append least_index_none)
    qed
  qed
  moreover have "\<forall>i<k. L ! i \<in> set (W @ X)" using b by (auto simp: built_def)
  ultimately have "built L k (W @ X) K' (ns', es')" using * by (simp add: built_def)
  with * show ?thesis by blast
qed

lemma insert_keyword_built:
  assumes b: "built L k W K b" and len: "length W + length (L ! k) \<le> 2147483648" "k < 2147483648"
    and L: "L ! k = (if kw = [] then [] else ToLower uni kw)" and ne: "keeps_text uni"
  shows "\<exists>X K' b'. insert_keyword uni (int k) kw b = Some b' \<and> built L (Suc k) (W @ X) K' b'
           \<and> length X \<le> length (L ! k)"
proof (cases "kw = []")
  case True
  have "built L (Suc k) W K b"
    using b L True graph_nonempty[of W K] graph_root[of W K]
    by (auto simp: built_def ends_at_Suc less_Suc_eq) (metis length_greater_0_conv nth_mem)
  then show ?thesis using True
    by (intro exI[of _ "[]"] exI[of _ K] exI[of _ b]) (simp add: insert_keyword_def case_prod_beta)
next
  case False
  then have Lk: "L ! k = ToLower uni kw" "L ! k \<noteq> []" using L ToLower_Nil_iff[OF ne] by auto
  obtain X K' ns es t where *: "insert_bytes (fst b) (snd b) 0 (L ! k) = Some ((ns, es), int t)"
      "built L k (W @ X) K' (ns, es)" "t < length (W @ X)" "(W @ X) ! t = L ! k" "length X \<le> length (L ! k)"
    using insert_bytes_built[OF b len(1)] by (metis surj_pair)
  let ?W = "W @ X"
  have g: "graph ?W K'" "stored ns es K'" and l: "length K' = length ?W" "length ns = length ?W"
    using *(2) by (auto simp: built_def stored_def graph_length)
  have bt: "least_index (ends_at L k (L ! k)) (n_bestKeyword (ns ! t))"
    using *(2,3,4) by (auto simp: built_def)
  define best where "best = (if n_bestKeyword (ns ! t) < 0 \<or> int k < n_bestKeyword (ns ! t) then int k
                             else n_bestKeyword (ns ! t))"
  define ns' where "ns' = ns[t := (ns ! t)\<lparr>n_bestKeyword := best\<rparr>]"
  have "int32 (int k) = int k" using len(2) by (simp add: keyword_simps)
  moreover have "ns[t := (ns ! t)\<lparr>n_bestKeyword := n_bestKeyword (ns ! t)\<rparr>] = ns" by simp
  ultimately have step: "insert_keyword uni (int k) kw b = Some (ns', es)"
    using *(1,3) False Lk(1) l unfolding ns'_def best_def insert_keyword_def by (cases b) auto
  have st: "stored ns' es K'"
    unfolding ns'_def by (rule stored_update[OF g(2)]) (use *(3) l in simp_all)
  have "n_failure (ns' ! u) = 0 \<and> least_index (ends_at L (Suc k) (?W ! u)) (n_bestKeyword (ns' ! u))"
    if u: "u < length ?W" for u
  proof (cases "u = t")
    case True
    have "least_index (ends_at L (Suc k) (L ! k)) best"
      unfolding best_def by (rule least_index_Suc[OF bt Lk(2)])
    then show ?thesis using True *(2,3,4) l by (simp add: ns'_def built_def)
  next
    case False
    then have "?W ! u \<noteq> L ! k" using graph_inj[OF g(1) u *(3)] *(4) by metis
    then show ?thesis using False *(2) u l by (simp add: ns'_def ends_at_Suc built_def)
  qed
  moreover have "\<forall>i<Suc k. L ! i \<in> set ?W"
    using *(2,3,4) by (metis built_def less_Suc_eq nth_mem)
  ultimately have "built L (Suc k) ?W K' (ns', es)" using g(1) st by (simp add: built_def)
  with step *(5) show ?thesis by blast
qed

lemma insert_keywords_built:
  assumes "built L k W K b" "L = lowered uni kws" "kws = pre @ ks" "length pre = k"
    "keeps_text uni"
    "length W + sum_list (map length (drop k L)) \<le> 2147483648" "length kws \<le> 2147483648"
  shows "\<exists>W' K' b'. insert_keywords uni (int k) ks b = Some b' \<and> built L (length kws) W' K' b'
           \<and> length W' \<le> length W + sum_list (map length (drop k L))"
  using assms
proof (induction ks arbitrary: k W K b pre)
  case Nil
  then show ?case by (intro exI[of _ W] exI[of _ K] exI[of _ b]) simp
next
  case (Cons kw ks)
  have k: "k < length L" "L ! k = (if kw = [] then [] else ToLower uni kw)"
    using Cons.prems(2,3,4) by (auto simp: lowered_def nth_append)
  then have d: "sum_list (map length (drop k L)) = length (L ! k) + sum_list (map length (drop (Suc k) L))"
    by (simp add: Cons_nth_drop_Suc[symmetric])
  have "length W + length (L ! k) \<le> 2147483648" "k < 2147483648"
    using Cons.prems(2,3,4,6,7) d by auto
  from insert_keyword_built[OF Cons.prems(1) this k(2) Cons.prems(5)]
  obtain X K1 b1 where *: "insert_keyword uni (int k) kw b = Some b1" "built L (Suc k) (W @ X) K1 b1"
      "length X \<le> length (L ! k)"
    by blast
  from Cons.IH[OF *(2) Cons.prems(2), of "pre @ [kw]"] Cons.prems *(3) d
  obtain W' K' b' where "insert_keywords uni (int (Suc k)) ks b1 = Some b'" "built L (length kws) W' K' b'"
      "length W' \<le> length (W @ X) + sum_list (map length (drop (Suc k) L))"
    by fastforce
  then show ?case using *(1,3) d
    by (intro exI[of _ W'] exI[of _ K'] exI[of _ b']) (simp add: add.commute)
qed

text \<open>The whole insertion, from the single root node.\<close>

lemma insert_keywords_ok:
  assumes "L = lowered uni kws" "keeps_text uni"
    "Suc (sum_list (map length L)) \<le> 2147483648" "length kws \<le> 2147483648"
  obtains W K ns es where "insert_keywords uni 0 kws ([newKeywordNode], []) = Some (ns, es)"
    "built L (length kws) W K (ns, es)" "length W \<le> Suc (sum_list (map length L))"
proof -
  have "\<exists>W' K' b'. insert_keywords uni (int 0) kws ([newKeywordNode], []) = Some b' \<and> built L (length kws) W' K' b'
           \<and> length W' \<le> length [[] :: go_bytes] + sum_list (map length (drop 0 L))"
    by (rule insert_keywords_built[where pre = "[]", OF built_start assms(1)]) (use assms in auto)
  then show thesis using that by auto
qed

end
