(* ===== verification/Keyword_Links.thy ===== *)
theory Keyword_Links
  imports Keyword_Trie
begin

text \<open>
  The breadth-first pass of \<open>newContentModerationKeywordMatcher\<close>.  A node is \<open>raw\<close> as the insertion
  leaves it and \<open>good\<close> once its failure link is the longest proper suffix of its word in the trie and
  its keyword the least one that ends its word.  \<open>link_queue_ok\<close> shows that the pass returns with every
  node good; \<open>longest_go\<close> and \<open>no_go\<close> say what a walk along failure links finds, here and in the match.
\<close>

section \<open>Walking along failure links\<close>

definition is_fail :: "go_bytes list \<Rightarrow> nat \<Rightarrow> nat \<Rightarrow> bool" where
  "is_fail W s f \<longleftrightarrow> f < length W \<and> strict_suffix (W ! f) (W ! s)
     \<and> (\<forall>u<length W. strict_suffix (W ! u) (W ! s) \<longrightarrow> suffix (W ! u) (W ! f))"

definition longest_go :: "go_bytes list \<Rightarrow> nat \<Rightarrow> byte \<Rightarrow> nat \<Rightarrow> nat \<Rightarrow> bool" where
  "longest_go W f c v t \<longleftrightarrow> v < length W \<and> suffix (W ! v) (W ! f) \<and> goes W v c t
     \<and> (\<forall>u t'. u < length W \<longrightarrow> suffix (W ! u) (W ! f) \<longrightarrow> goes W u c t' \<longrightarrow> suffix (W ! u) (W ! v))"

definition no_go :: "go_bytes list \<Rightarrow> nat \<Rightarrow> byte \<Rightarrow> bool" where
  "no_go W f c \<longleftrightarrow> (\<forall>u t. u < length W \<longrightarrow> suffix (W ! u) (W ! f) \<longrightarrow> \<not> goes W u c t)"

lemma strict_suffix_length: "strict_suffix xs ys \<Longrightarrow> length xs < length ys"
  by (auto simp: strict_suffix_def suffix_def)

lemma is_fail_length: "is_fail W s f \<Longrightarrow> length (W ! f) < length (W ! s)"
  by (simp add: is_fail_def strict_suffix_length)

lemma longest_go_here: "f < length W \<Longrightarrow> goes W f c t \<Longrightarrow> longest_go W f c f t"
  by (simp add: longest_go_def)

lemma go_through_fail:
  assumes "is_fail W f g" "\<forall>t. \<not> goes W f c t"
  shows "longest_go W g c v t \<Longrightarrow> longest_go W f c v t" "no_go W g c \<Longrightarrow> no_go W f c"
proof -
  have up: "suffix (W ! u) (W ! g) \<Longrightarrow> suffix (W ! u) (W ! f)" for u
    using assms(1) by (metis is_fail_def strict_suffix_def suffix_order.order_trans)
  have down: "suffix (W ! u) (W ! g)"
    if "u < length W" "suffix (W ! u) (W ! f)" "goes W u c t'" for u t'
  proof -
    have "W ! u \<noteq> W ! f" using that(3) assms(2) by (auto simp: goes_def)
    then show ?thesis using that assms(1) by (simp add: is_fail_def strict_suffix_def)
  qed
  show "longest_go W g c v t \<Longrightarrow> longest_go W f c v t"
    unfolding longest_go_def using up down by blast
  show "no_go W g c \<Longrightarrow> no_go W f c"
    unfolding no_go_def using down by blast
qed

lemma no_go_root:
  assumes "graph W K" "\<forall>t. \<not> goes W 0 c t"
  shows "no_go W 0 c"
  using assms graph_root[OF assms(1)] graph_empty_word[OF assms(1)] by (auto simp: no_go_def)

text \<open>From a step of the suffixes to the failure link of the node below.\<close>

lemma strict_suffix_snoc: "strict_suffix (xs @ [c]) (ys @ [d]) \<longleftrightarrow> c = d \<and> strict_suffix xs ys"
  by (auto simp: strict_suffix_def)

lemma is_fail_child_some:
  assumes g: "graph W K" and f: "is_fail W s f" and t: "goes W s c t" and v: "longest_go W f c v r"
  shows "is_fail W t r"
proof -
  have r: "r < length W" "W ! r = W ! v @ [c]" and wt: "W ! t = W ! s @ [c]" using v t by (auto simp: longest_go_def goes_def)
  have "suffix (W ! u) (W ! r)" if u: "u < length W" "strict_suffix (W ! u) (W ! t)" for u
  proof (cases "W ! u" rule: rev_cases)
    case (snoc x y)
    with u wt have xy: "y = c" "strict_suffix x (W ! s)" by (auto simp: strict_suffix_snoc)
    obtain p where p: "p < length W" "W ! p = x" using graph_prefix_closed[OF g u(1) snoc] by blast
    have "suffix (W ! p) (W ! f)" using f xy p unfolding is_fail_def by blast
    moreover have "goes W p c u" using p xy snoc u(1) by (simp add: goes_def)
    ultimately have "suffix x (W ! v)" using v p by (auto simp: longest_go_def)
    then show ?thesis using snoc xy r by simp
  qed simp
  moreover have "strict_suffix (W ! v) (W ! s)"
    using f v suffix_order.le_less_trans[of "W ! v" "W ! f" "W ! s"] by (simp add: is_fail_def longest_go_def)
  ultimately show ?thesis using r wt by (simp add: is_fail_def strict_suffix_snoc)
qed

lemma is_fail_child_none:
  assumes g: "graph W K" and f: "is_fail W s f" and t: "goes W s c t" and no: "no_go W f c"
  shows "is_fail W t 0"
proof -
  have wt: "W ! t = W ! s @ [c]" using t by (auto simp: goes_def)
  have "W ! u = []" if u: "u < length W" "strict_suffix (W ! u) (W ! t)" for u
  proof (cases "W ! u" rule: rev_cases)
    case (snoc x y)
    with u wt have xy: "y = c" "strict_suffix x (W ! s)" by (auto simp: strict_suffix_snoc)
    obtain p where p: "p < length W" "W ! p = x" using graph_prefix_closed[OF g u(1) snoc] by blast
    then have "suffix x (W ! f)" using f xy by (metis is_fail_def)
    then show ?thesis using no p snoc xy u(1) by (metis no_go_def goes_def)
  qed simp
  then show ?thesis
    using graph_nonempty[OF g] graph_root[OF g] wt by (auto simp: is_fail_def strict_suffix_def)
qed

lemma is_fail_depth_one:
  assumes "graph W K" "t < length W" "length (W ! t) = 1"
  shows "is_fail W t 0"
proof -
  have "W ! u = []" if "strict_suffix (W ! u) (W ! t)" for u
    using strict_suffix_length[OF that] assms(3) by simp
  then show ?thesis
    using graph_nonempty[OF assms(1)] graph_root[OF assms(1)] assms(3) by (auto simp: is_fail_def strict_suffix_def)
qed

section \<open>Nodes before and after the pass\<close>

definition suffix_hit :: "go_bytes list \<Rightarrow> go_bytes \<Rightarrow> nat \<Rightarrow> bool" where
  "suffix_hit L w i \<longleftrightarrow> i < length L \<and> L ! i \<noteq> [] \<and> suffix (L ! i) w"

definition raw :: "go_bytes list \<Rightarrow> go_bytes list \<Rightarrow> keyword_node \<Rightarrow> nat \<Rightarrow> bool" where
  "raw L W node s \<longleftrightarrow> n_failure node = 0 \<and> least_index (ends_at L (length L) (W ! s)) (n_bestKeyword node)"

definition good :: "go_bytes list \<Rightarrow> go_bytes list \<Rightarrow> keyword_node \<Rightarrow> nat \<Rightarrow> bool" where
  "good L W node s \<longleftrightarrow> (\<exists>f. n_failure node = int f \<and> is_fail W s f)
     \<and> least_index (suffix_hit L (W ! s)) (n_bestKeyword node)"

definition deep :: "go_bytes list \<Rightarrow> go_bytes list \<Rightarrow> keyword_node list \<Rightarrow> nat \<Rightarrow> bool" where
  "deep L W ns d \<longleftrightarrow> n_failure (ns ! 0) = 0 \<and> n_bestKeyword (ns ! 0) = -1
     \<and> (\<forall>u<length W. u \<noteq> 0 \<longrightarrow> length (W ! u) \<le> d \<longrightarrow> good L W (ns ! u) u)"

lemma deep_mono: "deep L W ns d \<Longrightarrow> d' \<le> d \<Longrightarrow> deep L W ns d'"
  by (auto simp: deep_def)

lemma suffix_hit_split:
  assumes "is_fail W t f" "\<forall>i<length L. L ! i \<in> set W"
  shows "suffix_hit L (W ! t) i \<longleftrightarrow> ends_at L (length L) (W ! t) i \<or> suffix_hit L (W ! f) i"
proof -
  have "suffix (L ! i) (W ! f)" if "i < length L" "strict_suffix (L ! i) (W ! t)"
    using that assms by (metis in_set_conv_nth is_fail_def)
  moreover have "suffix (L ! i) (W ! t)" if "suffix (L ! i) (W ! f)"
    using that assms(1) by (metis is_fail_def strict_suffix_def suffix_order.order_trans)
  ultimately show ?thesis by (auto simp: suffix_hit_def ends_at_def strict_suffix_def)
qed

lemma raw_depth_one_good:
  assumes "graph W K" "t < length W" "length (W ! t) = 1" "raw L W node t" "\<forall>i<length L. L ! i \<in> set W"
  shows "good L W node t"
proof -
  have f: "is_fail W t 0" by (rule is_fail_depth_one[OF assms(1-3)])
  have "suffix_hit L (W ! t) = ends_at L (length L) (W ! t)"
    using suffix_hit_split[OF f assms(5)] graph_root[OF assms(1)] by (auto simp: suffix_hit_def fun_eq_iff)
  then show ?thesis using f assms(4) by (auto simp: good_def raw_def intro!: exI[of _ 0])
qed

section \<open>One child\<close>

lemma fallback_walk_ok:
  assumes "graph W K" "stored ns es K" "f < length W" "deep L W ns (length (W ! f))"
  shows "(fallback_walk ns es (int f) c = Some (-1) \<and> no_go W f c)
       \<or> (\<exists>v t. fallback_walk ns es (int f) c = Some (int t) \<and> longest_go W f c v t)"
  using assms(3,4)
proof (induction "length (W ! f)" arbitrary: f rule: less_induct)
  case less
  have len: "length ns = length W" using assms by (simp add: stored_def graph_length)
  show ?case
  proof (rule buildTransition_cases[OF assms(1,2) less.prems(1), of c])
    fix t assume t: "buildTransition ns es (int f) c = Some (int t)" "goes W f c t"
    then show ?thesis
      using longest_go_here[OF less.prems(1) t(2)] by (subst (1 2) fallback_walk.simps) auto
  next
    assume no: "buildTransition ns es (int f) c = Some (-1)" "\<forall>t. \<not> goes W f c t"
    show ?thesis
    proof (cases "f = 0")
      case True
      then show ?thesis
        using no no_go_root[OF assms(1)] by (subst fallback_walk.simps) simp
    next
      case False
      then obtain g where g: "n_failure (ns ! f) = int g" "is_fail W f g"
        using less.prems by (auto simp: deep_def good_def)
      have step: "fallback_walk ns es (int f) c = fallback_walk ns es (int g) c"
        using no(1) False less.prems(1) len g(1) by (subst fallback_walk.simps) simp
      have "length (W ! g) < length (W ! f)" "g < length W"
        using is_fail_length[OF g(2)] g(2) by (auto simp: is_fail_def)
      then show ?thesis
        using less.hyps[of g] less.prems(2) deep_mono go_through_fail[OF g(2) no(2)] unfolding step
        by (meson less_imp_le_nat)
    qed
  qed
qed

lemma link_child_ok:
  assumes g: "graph W K" and st: "stored ns es K" and s: "s < length W" "s \<noteq> 0"
    and t: "goes W s (b_label edge) t" "b_target edge = int t"
    and dp: "deep L W ns (length (W ! s))" and rw: "raw L W (ns ! t) t"
    and L: "\<forall>i<length L. L ! i \<in> set W"
  shows "\<exists>node. link_child ns es (int s) edge = Some (ns[t := node]) \<and> good L W node t
           \<and> n_edgeStart node = n_edgeStart (ns ! t)"
proof -
  let ?c = "b_label edge"
  have len: "length ns = length W" using g st by (simp add: stored_def graph_length)
  have tl: "t < length W" "t \<noteq> 0" "length (W ! t) = Suc (length (W ! s))"
    using t(1) goes_nonzero[OF g t(1)] by (auto simp: goes_def)
  obtain f where f: "n_failure (ns ! s) = int f" "is_fail W s f"
    using dp s by (auto simp: deep_def good_def)
  have fl: "f < length W" "deep L W ns (length (W ! f))"
    using f(2) deep_mono[OF dp] is_fail_length[OF f(2)] by (auto simp: is_fail_def)
  obtain fb h where fb: "fallback_walk ns es (int f) ?c = Some fb" "is_fail W t h"
    and h: "h = (if 0 \<le> fb then nat fb else 0)"
  proof (rule disjE[OF fallback_walk_ok[OF g st fl, of ?c]], goal_cases)
    case 1
    show ?case by (rule 1(1)[of "-1" 0]) (use 1(2) is_fail_child_none[OF g f(2) t(1)] in simp_all)
  next
    case 2
    then obtain v r where r: "fallback_walk ns es (int f) ?c = Some (int r)" "longest_go W f ?c v r" by blast
    show ?case by (rule 2(1)[of "int r" r]) (use r is_fail_child_some[OF g f(2) t(1) r(2)] in simp_all)
  qed
  define child where "child = (ns ! t)\<lparr>n_failure := int h\<rparr>"
  have child: "(if 0 \<le> fb then (ns ! t)\<lparr>n_failure := fb\<rparr> else ns ! t) = child"
    using h rw by (auto simp: child_def raw_def)
  have hl: "h < length W" "h \<noteq> t" "length (W ! h) \<le> length (W ! s)"
    using fb(2) is_fail_length[OF fb(2)] tl by (auto simp: is_fail_def)
  have best_h: "least_index (suffix_hit L (W ! h)) (n_bestKeyword (ns ! h))"
  proof (cases "h = 0")
    case True
    then show ?thesis using dp graph_root[OF g] by (auto simp: deep_def suffix_hit_def intro: least_index_none)
  next
    case False
    then show ?thesis using dp hl by (auto simp: deep_def good_def)
  qed
  define node where "node = child\<lparr>n_bestKeyword := minKeywordIndex (n_bestKeyword child) (n_bestKeyword (ns ! h))\<rparr>"
  have "least_index (ends_at L (length L) (W ! t)) (n_bestKeyword child)"
    using rw by (simp add: raw_def child_def)
  from least_index_min[OF this best_h] have "least_index (suffix_hit L (W ! t)) (n_bestKeyword node)"
    using suffix_hit_split[OF fb(2) L] by (simp add: node_def cong: least_index_cong)
  then have "good L W node t" using fb(2) by (auto simp: good_def node_def child_def)
  moreover have "n_failure child = int h" by (simp add: child_def)
  then have "link_child ns es (int s) edge = Some (ns[t := node])"
    using fb(1) f(1) s(1) len tl(1) t(2) hl(1,2) child
    unfolding link_child_def by (simp add: Let_def node_def)
  ultimately show ?thesis by (auto simp: node_def child_def)
qed


section \<open>All children of a node\<close>

text \<open>What \<open>link_children\<close> does to the nodes, over the list of the edges it visits.\<close>

lemma link_children_ok:
  assumes g: "graph W K" and s: "s < length W" "s \<noteq> 0" and L: "\<forall>i<length L. L ! i \<in> set W"
  shows "chain es i ks \<Longrightarrow> stored ns es K \<Longrightarrow> set ks \<subseteq> set (K ! s) \<Longrightarrow> distinct (map b_target ks) \<Longrightarrow>
    deep L W ns (length (W ! s)) \<Longrightarrow> (\<forall>t. int t \<in> b_target ` set ks \<longrightarrow> raw L W (ns ! t) t) \<Longrightarrow>
    \<exists>ns'. link_children ns es (int s) i Q = Some (ns', Q @ map b_target ks) \<and> stored ns' es K
      \<and> deep L W ns' (length (W ! s))
      \<and> (\<forall>t. if int t \<in> b_target ` set ks then good L W (ns' ! t) t else ns' ! t = ns ! t)"
proof (induction arbitrary: ns Q rule: chain.induct)
  case (chain_nil i)
  then show ?case by (subst link_children.simps) simp
next
  case (chain_cons i e ks)
  obtain t where t: "t < length W" "b_target e = int t" "W ! t = W ! s @ [b_label e]"
    using graph_edge[OF g s(1), of e] chain_cons.prems(2) by auto
  have go: "goes W s (b_label e) t" using t by (simp add: goes_def)
  have nz: "t \<noteq> 0" by (rule goes_nonzero[OF g go])
  have rw: "raw L W (ns ! t) t" using chain_cons.prems(5) t(2) by auto
  obtain node where node: "link_child ns es (int s) e = Some (ns[t := node])" "good L W node t"
      "n_edgeStart node = n_edgeStart (ns ! t)"
    using link_child_ok[OF g chain_cons.prems(1) s go t(2) chain_cons.prems(4) rw L] by blast
  let ?ns = "ns[t := node]"
  have len: "length ns = length W" "length K = length W"
    using g chain_cons.prems(1) by (simp_all add: stored_def graph_length)
  have st: "stored ?ns es K" by (rule stored_update[OF chain_cons.prems(1)]) (use t(1) len node(3) in simp_all)
  have dp: "deep L W ?ns (length (W ! s))"
    using chain_cons.prems(4) t(1,3) nz len node(2) by (auto simp: deep_def nth_list_update)
  have notin: "int t \<notin> b_target ` set ks" using chain_cons.prems(3) t(2) by (auto simp: image_iff)
  have rw': "\<forall>u. int u \<in> b_target ` set ks \<longrightarrow> raw L W (?ns ! u) u"
  proof (intro allI impI)
    fix u assume u: "int u \<in> b_target ` set ks"
    then have "u \<noteq> t" using notin by auto
    then show "raw L W (?ns ! u) u" using chain_cons.prems(5) u by simp
  qed
  have ks: "set ks \<subseteq> set (K ! s)" "distinct (map b_target ks)" using chain_cons.prems by auto
  obtain ns' where ns': "link_children ?ns es (int s) (b_nextSibling e) (Q @ [b_target e]) = Some (ns', (Q @ [b_target e]) @ map b_target ks)"
      "stored ns' es K" "deep L W ns' (length (W ! s))"
      "\<forall>u. if int u \<in> b_target ` set ks then good L W (ns' ! u) u else ns' ! u = ?ns ! u"
    using chain_cons.IH[OF st ks dp rw'] by blast
  have "link_children ns es (int s) i Q = Some (ns', Q @ map b_target (e # ks))"
    using ns'(1) chain_cons.hyps(1,2) node(1) by (subst link_children.simps) simp
  moreover have "\<forall>u. if int u \<in> b_target ` set (e # ks) then good L W (ns' ! u) u else ns' ! u = ns ! u"
  proof
    fix u
    show "if int u \<in> b_target ` set (e # ks) then good L W (ns' ! u) u else ns' ! u = ns ! u"
    proof (cases "u = t")
      case True
      then have "ns' ! u = node" using ns'(4) notin t(1) len by (metis nth_list_update_eq)
      then show ?thesis using True node(2) t(2) by simp
    next
      case False
      then show ?thesis using ns'(4)[rule_format, of u] t(2) by (simp split: if_splits)
    qed
  qed
  ultimately show ?case using ns'(2,3) by blast
qed


section \<open>The queue\<close>

definition kids :: "build_edge list list \<Rightarrow> nat \<Rightarrow> int list" where
  "kids K s = map b_target (K ! s)"

definition depth :: "go_bytes list \<Rightarrow> int \<Rightarrow> nat" where
  "depth W q = length (W ! nat q)"

definition queue_inv :: "go_bytes list \<Rightarrow> go_bytes list \<Rightarrow> build_edge list list \<Rightarrow> keyword_node list
    \<Rightarrow> int list \<Rightarrow> nat \<Rightarrow> bool" where
  "queue_inv L W K ns Q qi \<longleftrightarrow> qi \<le> length Q
     \<and> Q = kids K 0 @ concat (map (\<lambda>q. kids K (nat q)) (take qi Q))
     \<and> distinct Q \<and> (\<forall>q\<in>set Q. \<exists>s<length W. q = int s \<and> s \<noteq> 0)
     \<and> sorted (map (depth W) Q) \<and> (qi < length Q \<longrightarrow> (\<forall>q\<in>set Q. depth W q \<le> Suc (depth W (Q ! qi))))
     \<and> n_failure (ns ! 0) = 0 \<and> n_bestKeyword (ns ! 0) = -1
     \<and> (\<forall>s<length W. s \<noteq> 0 \<longrightarrow> (if int s \<in> set Q then good L W (ns ! s) s else raw L W (ns ! s) s))"

lemma queue_inv_nodes:
  assumes "queue_inv L W K ns Q qi"
  shows "n_bestKeyword (ns ! 0) = -1"
    "s < length W \<Longrightarrow> s \<noteq> 0 \<Longrightarrow> if int s \<in> set Q then good L W (ns ! s) s else raw L W (ns ! s) s"
  using assms unfolding queue_inv_def by blast+

lemma kids_word:
  assumes "graph W K" "s < length W" "q \<in> set (kids K s)"
  obtains t where "t < length W" "q = int t" "t \<noteq> 0" "depth W q = Suc (length (W ! s))"
proof -
  obtain e where "e \<in> set (K ! s)" "q = b_target e" using assms(3) by (auto simp: kids_def)
  then show thesis using graph_edge[OF assms(1,2)] that by (metis depth_def length_append_singleton nat_int)
qed

lemma kids_parent:
  assumes "graph W K" "s < length W" "p < length W" "q \<in> set (kids K s)" "q \<in> set (kids K p)"
  shows "s = p"
proof -
  obtain e x where ex: "e \<in> set (K ! s)" "x \<in> set (K ! p)" "q = b_target e" "q = b_target x"
    using assms(4,5) by (auto simp: kids_def)
  obtain t where t: "q = int t" "W ! t = W ! s @ [b_label e]" using graph_edge[OF assms(1,2) ex(1)] ex(3) by metis
  obtain r where r: "q = int r" "W ! r = W ! p @ [b_label x]" using graph_edge[OF assms(1,3) ex(2)] ex(4) by metis
  from t r have "W ! s = W ! p" by simp
  then show ?thesis using graph_inj[OF assms(1-3)] by simp
qed

lemma kids_distinct: "graph W K \<Longrightarrow> s < length W \<Longrightarrow> distinct (kids K s)"
  unfolding kids_def by (rule graph_targets_distinct)

lemma kids_of_parent:
  assumes "graph W K" "u < length W" "u \<noteq> 0"
  obtains p where "p < length W" "int u \<in> set (kids K p)" "length (W ! u) = Suc (length (W ! p))"
proof -
  obtain s e where "s < length W" "e \<in> set (K ! s)" "b_target e = int u" "W ! u = W ! s @ [b_label e]"
    by (rule graph_parent[OF assms])
  then show thesis by (intro that[of s]) (auto simp: kids_def image_iff intro: bexI[of _ e])
qed

text \<open>Every node no deeper than the one at the head is in the queue.\<close>

lemma queue_complete:
  assumes g: "graph W K" and inv: "queue_inv L W K ns Q qi" and qi: "qi < length Q"
  shows "u < length W \<Longrightarrow> u \<noteq> 0 \<Longrightarrow> length (W ! u) \<le> depth W (Q ! qi) \<Longrightarrow> int u \<in> set Q"
proof (induction "length (W ! u)" arbitrary: u rule: less_induct)
  case less
  obtain p where p: "p < length W" "int u \<in> set (kids K p)" "length (W ! u) = Suc (length (W ! p))"
    by (rule kids_of_parent[OF g less.prems(1,2)])
  have Q: "Q = kids K 0 @ concat (map (\<lambda>q. kids K (nat q)) (take qi Q))" and sorted: "sorted (map (depth W) Q)"
    using inv by (auto simp: queue_inv_def)
  show ?case
  proof (cases "p = 0")
    case True
    then show ?thesis using p(2) by (subst Q) simp
  next
    case False
    then have "int p \<in> set Q" using less.hyps[of p] p less.prems(3) by simp
    then obtain j where j: "j < length Q" "Q ! j = int p" by (auto simp: in_set_conv_nth)
    have "j < qi"
    proof (rule ccontr)
      assume "\<not> j < qi"
      then have "depth W (Q ! qi) \<le> depth W (Q ! j)"
        using sorted_nth_mono[OF sorted, of qi j] j by simp
      then show False using less.prems(3) p(3) j(2) by (simp add: depth_def)
    qed
    then have "int p \<in> set (take qi Q)" using j by (auto simp: in_set_conv_nth intro!: exI[of _ j])
    then show ?thesis using p(2) by (subst Q) force
  qed
qed

lemma queue_step:
  assumes g: "graph W K" and st: "stored ns es K" and inv: "queue_inv L W K ns Q qi" and qi: "qi < length Q"
    and L: "\<forall>i<length L. L ! i \<in> set W"
  shows "\<exists>s ns'. Q ! qi = int s \<and> s < length ns
     \<and> link_children ns es (Q ! qi) (buildFirstEdge (ns ! s)) Q = Some (ns', Q @ kids K s)
     \<and> stored ns' es K \<and> queue_inv L W K ns' (Q @ kids K s) (Suc qi)"
proof -
  have Q: "Q = kids K 0 @ concat (map (\<lambda>q. kids K (nat q)) (take qi Q))" "distinct Q"
      "\<forall>q\<in>set Q. \<exists>s<length W. q = int s \<and> s \<noteq> 0" "sorted (map (depth W) Q)"
      "\<forall>q\<in>set Q. depth W q \<le> Suc (depth W (Q ! qi))"
    using inv qi by (auto simp: queue_inv_def)
  obtain s where s: "Q ! qi = int s" "s < length W" "s \<noteq> 0" using Q(3) qi by (metis nth_mem)
  have len: "length ns = length W" "length K = length W"
    using g st by (simp_all add: stored_def graph_length)
  have dp: "deep L W ns (length (W ! s))"
    using inv queue_complete[OF g inv qi] s by (auto simp: queue_inv_def deep_def depth_def)
  have new: "q \<notin> set Q" if q: "q \<in> set (kids K s)" for q
  proof
    assume "q \<in> set Q"
    then have "q \<in> set (kids K 0) \<or> (\<exists>p\<in>set (take qi Q). q \<in> set (kids K (nat p)))"
      by (subst (asm) Q(1)) auto
    then show False
    proof
      assume "q \<in> set (kids K 0)"
      then show False using kids_parent[OF g s(2) _ q, of 0] s(3) graph_nonempty[OF g] by auto
    next
      assume "\<exists>p\<in>set (take qi Q). q \<in> set (kids K (nat p))"
      then obtain p where p: "p \<in> set (take qi Q)" "q \<in> set (kids K (nat p))" by blast
      then obtain r where r: "p = int r" "r < length W" using Q(3) in_set_takeD by metis
      then have "r = s" using kids_parent[OF g s(2) r(2) q] p(2) by simp
      then show False
        using p(1) r(1) s(1) Q(2) qi id_take_nth_drop[OF qi] by (metis distinct_append disjoint_iff list.set_intros(1))
    qed
  qed
  have ch: "chain es (buildFirstEdge (ns ! s)) (K ! s)" using st s len by (simp add: stored_def)
  have rw: "\<forall>t. int t \<in> b_target ` set (K ! s) \<longrightarrow> raw L W (ns ! t) t"
  proof (intro allI impI)
    fix t assume "int t \<in> b_target ` set (K ! s)"
    then have t: "int t \<in> set (kids K s)" by (simp add: kids_def)
    then have "int t \<notin> set Q" by (rule new)
    then show "raw L W (ns ! t) t"
      using inv kids_word[OF g s(2) t] by (metis (no_types, lifting) of_nat_eq_iff queue_inv_def)
  qed
  have dist: "distinct (map b_target (K ! s))" by (rule graph_targets_distinct[OF g s(2)])
  obtain ns' where ns': "link_children ns es (int s) (buildFirstEdge (ns ! s)) Q = Some (ns', Q @ map b_target (K ! s))"
      "stored ns' es K" "deep L W ns' (length (W ! s))"
      "\<forall>t. if int t \<in> b_target ` set (K ! s) then good L W (ns' ! t) t else ns' ! t = ns ! t"
    using link_children_ok[OF g s(2,3) L ch st order_refl dist dp rw] by blast
  let ?Q = "Q @ kids K s"
  have kd: "depth W q = Suc (depth W (Q ! qi))" if "q \<in> set (kids K s)" for q
    using kids_word[OF g s(2) that] s(1) by (metis depth_def nat_int)
  have 1: "?Q = kids K 0 @ concat (map (\<lambda>q. kids K (nat q)) (take (Suc qi) ?Q))"
  proof -
    have "concat (map (\<lambda>q. kids K (nat q)) (take (Suc qi) ?Q))
        = concat (map (\<lambda>q. kids K (nat q)) (take qi Q)) @ kids K s"
      using qi s(1) by (simp add: take_Suc_conv_app_nth)
    then show ?thesis using Q(1) by (metis append.assoc)
  qed
  have 2: "distinct ?Q" using Q(2) kids_distinct[OF g s(2)] new by auto
  have 3: "\<forall>q\<in>set ?Q. \<exists>s<length W. q = int s \<and> s \<noteq> 0"
    using Q(3) kids_word[OF g s(2)] by (metis Un_iff set_append)
  have 4: "sorted (map (depth W) ?Q)"
  proof -
    have "map (depth W) (kids K s) = replicate (length (kids K s)) (Suc (depth W (Q ! qi)))"
      using kd by (simp add: map_replicate_const[symmetric] cong: map_cong)
    then show ?thesis using Q(4,5) by (auto simp: sorted_append kd)
  qed
  have 5: "Suc qi < length ?Q \<longrightarrow> (\<forall>q\<in>set ?Q. depth W q \<le> Suc (depth W (?Q ! Suc qi)))"
  proof
    assume that: "Suc qi < length ?Q"
    have "depth W (?Q ! qi) \<le> depth W (?Q ! Suc qi)"
      using sorted_nth_mono[OF 4, of qi "Suc qi"] that by (simp del: map_append)
    then show "\<forall>q\<in>set ?Q. depth W q \<le> Suc (depth W (?Q ! Suc qi))"
      using Q(5) kd qi by (fastforce simp: nth_append)
  qed
  have 6: "\<forall>u<length W. u \<noteq> 0 \<longrightarrow> (if int u \<in> set ?Q then good L W (ns' ! u) u else raw L W (ns' ! u) u)"
  proof (intro allI impI)
    fix u assume "u < length W" "u \<noteq> 0"
    then show "if int u \<in> set ?Q then good L W (ns' ! u) u else raw L W (ns' ! u) u"
      using inv ns'(4)[rule_format, of u] by (auto simp: queue_inv_def kids_def split: if_splits)
  qed
  have 7: "n_failure (ns' ! 0) = 0" "n_bestKeyword (ns' ! 0) = -1" using ns'(3) by (simp_all add: deep_def)
  have "Suc qi \<le> length ?Q" using qi by simp
  then have "queue_inv L W K ns' ?Q (Suc qi)"
    unfolding queue_inv_def by (intro conjI 1 2 3 4 5 6 7)
  then show ?thesis using s ns'(1,2) len unfolding kids_def by (intro exI[of _ s] exI[of _ ns']) simp
qed

lemma queue_length:
  assumes "queue_inv L W K ns Q qi"
  shows "length Q \<le> length W"
proof -
  have Q: "distinct Q" "set Q \<subseteq> int ` {..<length W}" using assms by (auto simp: queue_inv_def)
  have "card (set Q) \<le> card (int ` {..<length W})" by (rule card_mono) (use Q in auto)
  then show ?thesis using distinct_card[OF Q(1)] by (simp add: card_image)
qed

lemma link_queue_run:
  assumes g: "graph W K" and L: "\<forall>i<length L. L ! i \<in> set W"
  shows "stored ns es K \<Longrightarrow> queue_inv L W K ns Q qi \<Longrightarrow>
    \<exists>ns' Q'. link_queue ns es Q qi = Some ns' \<and> stored ns' es K \<and> queue_inv L W K ns' Q' (length Q')"
proof (induction "length W - qi" arbitrary: ns Q qi rule: less_induct)
  case less
  show ?case
  proof (cases "qi < length Q")
    case True
    from queue_step[OF g less.prems True L]
    obtain s ns1 where s: "Q ! qi = int s" "s < length ns"
        "link_children ns es (Q ! qi) (buildFirstEdge (ns ! s)) Q = Some (ns1, Q @ kids K s)"
        "stored ns1 es K" "queue_inv L W K ns1 (Q @ kids K s) (Suc qi)"
      by blast
    have "link_queue ns es Q qi = link_queue ns1 es (Q @ kids K s) (Suc qi)"
      using True s(1-3) by (subst link_queue.simps) simp
    then show ?thesis using less.hyps[OF _ s(4,5)] True queue_length[OF less.prems(2)] by simp
  next
    case False
    then have "qi = length Q" using less.prems(2) by (simp add: queue_inv_def)
    then show ?thesis using less.prems by (subst link_queue.simps) auto
  qed
qed

text \<open>At the end the queue holds every node but the root, so every node is good.\<close>

lemma queue_done:
  assumes g: "graph W K" and inv: "queue_inv L W K ns Q (length Q)"
  shows "u < length W \<Longrightarrow> u \<noteq> 0 \<Longrightarrow> int u \<in> set Q"
proof (induction "length (W ! u)" arbitrary: u rule: less_induct)
  case less
  obtain p where p: "p < length W" "int u \<in> set (kids K p)" "length (W ! u) = Suc (length (W ! p))"
    by (rule kids_of_parent[OF g less.prems])
  have Q: "Q = kids K 0 @ concat (map (\<lambda>q. kids K (nat q)) Q)" using inv by (simp add: queue_inv_def)
  show ?case
  proof (cases "p = 0")
    case True
    then show ?thesis using p(2) by (subst Q) simp
  next
    case False
    then have "int p \<in> set Q" using less.hyps[of p] p by simp
    then show ?thesis using p(2) by (subst Q) force
  qed
qed

definition linked :: "go_bytes list \<Rightarrow> go_bytes list \<Rightarrow> keyword_node list \<Rightarrow> bool" where
  "linked L W ns \<longleftrightarrow> n_bestKeyword (ns ! 0) = -1 \<and> (\<forall>s<length W. s \<noteq> 0 \<longrightarrow> good L W (ns ! s) s)"

lemma link_queue_ok:
  assumes b: "built L (length L) W K (ns, es)"
  obtains ns' where "link_queue ns es (kids K 0) 0 = Some ns'" "stored ns' es K" "linked L W ns'"
proof -
  have g: "graph W K" and st: "stored ns es K" and L: "\<forall>i<length L. L ! i \<in> set W"
    and rw: "\<forall>s<length W. raw L W (ns ! s) s"
    using b by (auto simp: built_def raw_def)
  have r: "0 < length W" "W ! 0 = []" using graph_nonempty[OF g] graph_root[OF g] by auto
  have root: "n_failure (ns ! 0) = 0" "n_bestKeyword (ns ! 0) = -1"
    using rw r by (auto simp: raw_def least_index_def ends_at_def)
  have one: "depth W q = 1" if "q \<in> set (kids K 0)" for q
    using kids_word[OF g r(1) that] r(2) by (metis One_nat_def list.size(3))
  have node: "\<exists>s<length W. q = int s \<and> s \<noteq> 0" if "q \<in> set (kids K 0)" for q
    using kids_word[OF g r(1) that] by metis
  have 1: "if int s \<in> set (kids K 0) then good L W (ns ! s) s else raw L W (ns ! s) s" if s: "s < length W" for s
  proof (cases "int s \<in> set (kids K 0)")
    case True
    then have "length (W ! s) = 1" using one[of "int s"] by (simp add: depth_def)
    then show ?thesis using raw_depth_one_good[OF g s _ _ L] rw s True by simp
  qed (use rw s in simp)
  have 2: "sorted (map (depth W) (kids K 0))"
    using one by (simp add: sorted_iff_nth_mono)
  have 3: "kids K 0 = kids K 0 @ concat (map (\<lambda>q. kids K (nat q)) (take 0 (kids K 0)))" by simp
  have 4: "0 < length (kids K 0) \<longrightarrow> (\<forall>q\<in>set (kids K 0). depth W q \<le> Suc (depth W (kids K 0 ! 0)))"
    using one by simp
  have 5: "\<forall>q\<in>set (kids K 0). \<exists>s<length W. q = int s \<and> s \<noteq> 0" using node by blast
  have 6: "\<forall>s<length W. s \<noteq> 0 \<longrightarrow> (if int s \<in> set (kids K 0) then good L W (ns ! s) s else raw L W (ns ! s) s)"
    using 1 by blast
  have inv: "queue_inv L W K ns (kids K 0) 0"
    unfolding queue_inv_def by (intro conjI root 2 3 4 5 6 kids_distinct[OF g r(1)] le0)
  obtain ns' Q where "link_queue ns es (kids K 0) 0 = Some ns'" "stored ns' es K" "queue_inv L W K ns' Q (length Q)"
    using link_queue_run[OF g L st inv] by blast
  moreover from queue_done[OF g this(3)] queue_inv_nodes[OF this(3)] have "linked L W ns'"
    by (simp add: linked_def)
  ultimately show thesis using that by blast
qed

end
