(* ===== verification/Keyword_Search.thy ===== *)
theory Keyword_Search
  imports Keyword_Links "HOL-Library.Multiset"
begin

text \<open>
  The flattened automaton and the match.  \<open>flatten_nodes_ok\<close> shows that every node's edges end as a
  sorted segment of the one edge array, \<open>next_state_ok\<close> that bisection in it (and the root's table)
  gives the transition of the trie, \<open>follow_ok\<close> that a step of the match keeps the longest suffix of the
  text read so far, and \<open>Match_ok\<close> that the match agrees with the linear scan of the same keywords.
\<close>

section \<open>The transitions of the root\<close>

lemma root_edges_ok:
  "chain es i ks \<Longrightarrow> root_edges es i r q
     = Some (fold (\<lambda>e r. r[unat (b_label e) := b_target e]) ks r, q @ map b_target ks)"
  by (induction arbitrary: r q rule: chain.induct) (subst root_edges.simps; simp)+

lemma unat_byte [simp]: "unat (c :: byte) < 256"
  using unsigned_less[of c] by simp

lemma root_fold:
  "distinct (map b_label ks) \<Longrightarrow> length r = 256 \<Longrightarrow>
   fold (\<lambda>e r. r[unat (b_label e) := b_target e]) ks r ! unat c
     = (case find (\<lambda>e. b_label e = c) ks of None \<Rightarrow> r ! unat c | Some e \<Rightarrow> b_target e)"
proof (induction ks arbitrary: r)
  case (Cons e ks)
  have "find (\<lambda>e. b_label e = c) ks = None" if "b_label e = c"
    using Cons.prems(1) that by (auto simp: find_None_iff) (metis image_eqI)
  then show ?case using Cons by (auto simp: nth_list_update word_unat_eq_iff[symmetric] split: option.split)
qed simp

lemma root_table_cases:
  assumes "graph W K" "roots = fold (\<lambda>e r. r[unat (b_label e) := b_target e]) (K ! 0) (replicate 256 0)"
  obtains (none) "roots ! unat c = 0" "\<forall>t. \<not> goes W 0 c t"
  | (some) t where "roots ! unat c = int t" "goes W 0 c t"
proof -
  have s: "0 < length W" using graph_nonempty[OF assms(1)] by simp
  have "distinct (map b_label (K ! 0))" using assms(1) s by (simp add: graph_def)
  then have r: "roots ! unat c = (case find (\<lambda>e. b_label e = c) (K ! 0) of None \<Rightarrow> 0 | Some e \<Rightarrow> b_target e)"
    using root_fold[of "K ! 0" "replicate 256 0" c] by (simp add: assms(2) cong: option.case_cong)
  show thesis
  proof (cases rule: label_target_cases[OF assms(1) s, of c])
    case 1
    have "\<forall>e\<in>set (K ! 0). b_label e \<noteq> c"
      using 1(2) graph_edge[OF assms(1) s] by (metis goes_def)
    then have "find (\<lambda>e. b_label e = c) (K ! 0) = None" by (simp add: find_None_iff)
    then show thesis using r 1(2) by (intro none) simp_all
  next
    case (2 t)
    then have "\<exists>e. find (\<lambda>e. b_label e = c) (K ! 0) = Some e \<and> b_target e = int t"
      by (auto simp: label_target_def split: option.splits)
    then show thesis using r 2(2) by (intro some[of t]) auto
  qed
qed

section \<open>Collecting and sorting the edges of a node\<close>

definition flat :: "build_edge \<Rightarrow> keyword_edge" where
  "flat e = \<lparr>e_target = b_target e, e_label = b_label e\<rparr>"

lemma collect_edges_ok:
  "chain es i ks \<Longrightarrow> n + length ks \<le> length out \<Longrightarrow>
   collect_edges es i out (int n)
     = Some (take n out @ map flat ks @ drop (n + length ks) out, int (n + length ks))"
proof (induction arbitrary: n out rule: chain.induct)
  case (chain_nil i)
  then show ?case by (subst collect_edges.simps) simp
next
  case (chain_cons i e ks)
  have "collect_edges es i out (int n) = collect_edges es (b_nextSibling e) (out[n := flat e]) (int (Suc n))"
    using chain_cons.hyps(1,2) chain_cons.prems by (subst collect_edges.simps) (simp add: flat_def add.commute)
  also have "\<dots> = Some (take (Suc n) (out[n := flat e]) @ map flat ks @ drop (Suc n + length ks) (out[n := flat e]),
      int (Suc n + length ks))"
    by (rule chain_cons.IH) (use chain_cons.prems in simp)
  finally show ?case using chain_cons.prems by (simp add: take_Suc_conv_app_nth)
qed

lemma insert_edge_at_ok:
  assumes "k < length out" "sorted (map e_label (take k out))"
  shows "length (insert_edge_at out cur k) = length out
    \<and> mset (take (Suc k) (insert_edge_at out cur k)) = add_mset cur (mset (take k out))
    \<and> sorted (map e_label (take (Suc k) (insert_edge_at out cur k)))
    \<and> drop (Suc k) (insert_edge_at out cur k) = drop (Suc k) out"
  using assms
proof (induction k arbitrary: out)
  case 0
  then show ?case by (cases out) simp_all
next
  case (Suc k)
  have tk: "take (Suc k) out = take k out @ [out ! k]" using Suc.prems(1) by (simp add: take_Suc_conv_app_nth)
  have sk: "sorted (map e_label (take k out))" "\<forall>x\<in>set (take k out). e_label x \<le> e_label (out ! k)"
    using Suc.prems(2) by (auto simp: tk sorted_append)
  show ?case
  proof (cases "e_label cur < e_label (out ! k)")
    case True
    let ?o = "out[Suc k := out ! k]"
    let ?R = "insert_edge_at ?o cur k"
    have o: "k < length ?o" "sorted (map e_label (take k ?o))" using Suc.prems(1) sk(1) by simp_all
    have R: "length ?R = length out" "mset (take (Suc k) ?R) = add_mset cur (mset (take k out))"
        "sorted (map e_label (take (Suc k) ?R))" "drop (Suc k) ?R = drop (Suc k) ?o"
      using Suc.IH[OF o] by simp_all
    have d: "drop (Suc k) ?o = out ! k # drop (Suc (Suc k)) out"
      using Suc.prems(1) by (simp add: Cons_nth_drop_Suc[symmetric] drop_update_swap)
    have at: "?R ! Suc k = out ! k"
      using R(1,4) d Suc.prems(1) by (metis hd_drop_conv_nth list.sel(1))
    then have t2: "take (Suc (Suc k)) ?R = take (Suc k) ?R @ [out ! k]"
      using R(1) Suc.prems(1) by (simp add: take_Suc_conv_app_nth[of "Suc k"])
    have "\<forall>x\<in>set (take (Suc k) ?R). e_label x \<le> e_label (out ! k)"
      using R(2) True sk(2) by (metis (no_types, lifting) insert_iff less_imp_le set_mset_add_mset_insert set_mset_mset)
    then have "sorted (map e_label (take (Suc (Suc k)) ?R))" using R(3) by (simp add: t2 sorted_append)
    moreover have "mset (take (Suc (Suc k)) ?R) = add_mset cur (mset (take (Suc k) out))"
      using R(2) by (simp add: t2 tk)
    moreover have "drop (Suc (Suc k)) ?R = drop (Suc (Suc k)) out"
      using R(4) d by (metis drop_Suc list.sel(3) tl_drop)
    ultimately show ?thesis using True R(1) by simp
  next
    case False
    have "sorted (map e_label (take (Suc k) out @ [cur]))"
      using Suc.prems(2) sk(2) False by (auto simp: sorted_append tk)
    then show ?thesis using False Suc.prems(1) by (simp add: take_Suc_conv_app_nth[of "Suc k"])
  qed
qed

lemma sort_outgoing_ok:
  "m \<le> length out \<Longrightarrow> length (sort_outgoing out m) = length out
    \<and> mset (take m (sort_outgoing out m)) = mset (take m out)
    \<and> sorted (map e_label (take m (sort_outgoing out m)))
    \<and> drop m (sort_outgoing out m) = drop m out"
proof (induction m)
  case 0
  then show ?case by (simp add: sort_outgoing_def)
next
  case (Suc n)
  let ?R = "sort_outgoing out n"
  have R: "length ?R = length out" "mset (take n ?R) = mset (take n out)" "sorted (map e_label (take n ?R))"
      "drop n ?R = drop n out"
    using Suc by simp_all
  have at: "?R ! n = out ! n" using R(1,4) Suc.prems by (metis Suc_le_eq hd_drop_conv_nth)
  have step: "sort_outgoing out (Suc n) = insert_edge_at ?R (out ! n) n"
  proof (cases "n = 0")
    case True
    then show ?thesis using Suc.prems by (simp add: sort_outgoing_def)
  next
    case False
    then show ?thesis using at by (simp add: sort_outgoing_def)
  qed
  have "n < length ?R" using R(1) Suc.prems by simp
  from insert_edge_at_ok[OF this R(3), of "out ! n"]
  have I: "length (sort_outgoing out (Suc n)) = length ?R"
      "mset (take (Suc n) (sort_outgoing out (Suc n))) = add_mset (out ! n) (mset (take n ?R))"
      "sorted (map e_label (take (Suc n) (sort_outgoing out (Suc n))))"
      "drop (Suc n) (sort_outgoing out (Suc n)) = drop (Suc n) ?R"
    by (simp_all only: step)
  have "drop (Suc n) ?R = drop (Suc n) out" using R(4) by (simp only: drop_Suc tl_drop[symmetric])
  moreover have "add_mset (out ! n) (mset (take n out)) = mset (take (Suc n) out)"
    using Suc.prems by (simp add: take_Suc_conv_app_nth)
  ultimately show ?case using I R(1,2) by simp
qed

section \<open>Flattening\<close>

definition segment :: "keyword_edge list \<Rightarrow> keyword_node \<Rightarrow> build_edge list \<Rightarrow> bool" where
  "segment edges node ks \<longleftrightarrow> (\<exists>pre S post. edges = pre @ S @ post \<and> n_edgeStart node = int (length pre)
     \<and> n_edgeCount node = int (length S) \<and> sorted (map e_label S) \<and> mset S = mset (map flat ks))"

lemma segment_append: "segment edges node ks \<Longrightarrow> segment (edges @ xs) node ks"
  unfolding segment_def by (metis append.assoc)

definition flat_inv :: "keyword_node list \<Rightarrow> build_edge list list \<Rightarrow> nat
    \<Rightarrow> keyword_node list \<times> keyword_edge list \<times> keyword_edge list \<Rightarrow> bool" where
  "flat_inv ns0 K j = (\<lambda>(ns, edges, out). length ns = length ns0 \<and> length out = 256
     \<and> length edges = sum_list (map length (take j K))
     \<and> (\<forall>u<j. segment edges (ns ! u) (K ! u)) \<and> (\<forall>u. j \<le> u \<longrightarrow> ns ! u = ns0 ! u)
     \<and> map n_failure ns = map n_failure ns0 \<and> map n_bestKeyword ns = map n_bestKeyword ns0)"

lemma byte_labels:
  assumes "distinct (map b_label ks)"
  shows "length ks \<le> 256"
proof -
  have "card (set (map b_label ks)) \<le> card (UNIV :: byte set)" by (rule card_mono) auto
  then show ?thesis using distinct_card[OF assms] by (simp add: card_word)
qed

lemma flatten_node_ok:
  assumes g: "graph W K" and st: "stored ns0 es K" and j: "j < length K" and small: "length W \<le> 2147483648"
    and inv: "flat_inv ns0 K j st0"
  shows "\<exists>st1. flatten_node es j st0 = Some st1 \<and> flat_inv ns0 K (Suc j) st1"
proof -
  obtain ns edges out where st0: "st0 = (ns, edges, out)" by (cases st0)
  have inv': "length ns = length ns0" "length out = 256" "length edges = sum_list (map length (take j K))"
      "\<forall>u<j. segment edges (ns ! u) (K ! u)" "\<forall>u. j \<le> u \<longrightarrow> ns ! u = ns0 ! u"
      "map n_failure ns = map n_failure ns0" "map n_bestKeyword ns = map n_bestKeyword ns0"
    using inv by (auto simp: flat_inv_def st0)
  have len: "length ns = length K" "length K = length W" using inv'(1) st g by (simp_all add: stored_def graph_length)
  have kj: "length (K ! j) \<le> 256" by (rule byte_labels) (use g j len in \<open>simp add: graph_def\<close>)
  have ch: "chain es (buildFirstEdge (ns ! j)) (K ! j)" using st j inv'(5) by (simp add: stored_def)
  define out1 where "out1 = map flat (K ! j) @ drop (length (K ! j)) out"
  define out2 where "out2 = sort_outgoing out1 (length (K ! j))"
  define S where "S = take (length (K ! j)) out2"
  have col: "collect_edges es (buildFirstEdge (ns ! j)) out 0 = Some (out1, int (length (K ! j)))"
    using collect_edges_ok[OF ch, of 0 out] kj inv'(2) by (simp add: out1_def)
  have l1: "length out1 = 256" using kj inv'(2) by (simp add: out1_def)
  then have S: "length out2 = 256" "mset S = mset (map flat (K ! j))" "sorted (map e_label S)" "length S = length (K ! j)"
    using sort_outgoing_ok[of "length (K ! j)" out1] kj by (auto simp: out2_def S_def) (simp add: out1_def)
  have tot: "sum_list (map length (take j K)) \<le> sum_list (map length K)"
    by (metis append_take_drop_id le_add1 map_append sum_list_append)
  then have small_edges: "uint32 (int (length edges)) = int (length edges)"
    using g small inv'(3) by (simp add: graph_def keyword_simps)
  have small_count: "uint16 (int (length (K ! j))) = int (length (K ! j))" using kj by (simp add: keyword_simps)
  define node where "node = (ns ! j)\<lparr>n_edgeStart := int (length edges), n_edgeCount := int (length (K ! j))\<rparr>"
  have run: "flatten_node es j st0 = Some (ns[j := node], edges @ S, out2)"
    using j len col by (simp add: flatten_node_def st0 Let_def small_edges small_count node_def S_def out2_def)
  have "segment (edges @ S) node (K ! j)"
    unfolding segment_def using S(2,3,4)
    by (intro exI[of _ edges] exI[of _ S] exI[of _ "[]"]) (simp add: node_def)
  then have "\<forall>u<Suc j. segment (edges @ S) (ns[j := node] ! u) (K ! u)"
    using inv'(4) segment_append j len by (auto simp: less_Suc_eq)
  moreover have "length (edges @ S) = sum_list (map length (take (Suc j) K))"
    using inv'(3) S(4) j by (simp add: take_Suc_conv_app_nth)
  moreover have "map n_failure (ns[j := node]) = map n_failure ns0" "map n_bestKeyword (ns[j := node]) = map n_bestKeyword ns0"
    using inv'(6,7) j len by (simp_all add: map_update node_def list_update_same_conv) (metis nth_map list_update_id)+
  ultimately have "flat_inv ns0 K (Suc j) (ns[j := node], edges @ S, out2)"
    using inv'(1,5) S(1) by (simp add: flat_inv_def)
  with run show ?thesis by blast
qed

lemma flatten_nodes_ok:
  assumes g: "graph W K" and st: "stored ns0 es K" and small: "length W \<le> 2147483648"
  shows "j \<le> length K \<Longrightarrow> flat_inv ns0 K j st0 \<Longrightarrow>
    \<exists>st1. flatten_nodes es [j..<length K] st0 = Some st1 \<and> flat_inv ns0 K (length K) st1"
proof (induction "length K - j" arbitrary: j st0)
  case 0
  then show ?case by simp
next
  case (Suc n)
  then have j: "j < length K" by simp
  from flatten_node_ok[OF g st j small Suc.prems(2)]
  obtain st1 where "flatten_node es j st0 = Some st1" "flat_inv ns0 K (Suc j) st1" by blast
  with Suc.hyps(1)[of "Suc j" st1] Suc.hyps(2) j show ?case by (simp add: upt_conv_Cons)
qed


section \<open>Transitions of the flattened automaton\<close>

declare bisect_label.simps [simp del]

lemma bisect_label_step:
  assumes "left < right" "left + (right - left) div 2 = middle" "at_index edges middle = Some e"
  shows "bisect_label edges left right c
    = (if e_label e < c then bisect_label edges (middle + 1) right c else bisect_label edges left middle c)"
  using assms by (subst bisect_label.simps) (simp add: Let_def)

lemma bisect_label_ok:
  assumes "a \<le> b" "b \<le> length S" "edges = pre @ S @ post" "sorted (map e_label S)"
    "\<forall>i<a. e_label (S ! i) < c" "\<forall>i. b \<le> i \<longrightarrow> i < length S \<longrightarrow> c \<le> e_label (S ! i)"
  shows "\<exists>l. bisect_label edges (int (length pre + a)) (int (length pre + b)) c = Some (int (length pre + l))
     \<and> l \<le> length S \<and> (\<forall>i<l. e_label (S ! i) < c) \<and> (\<forall>i. l \<le> i \<longrightarrow> i < length S \<longrightarrow> c \<le> e_label (S ! i))"
  using assms
proof (induction "b - a" arbitrary: a b rule: less_induct)
  case less
  have mono: "\<And>i j. i \<le> j \<Longrightarrow> j < length S \<Longrightarrow> e_label (S ! i) \<le> e_label (S ! j)"
    using sorted_nth_mono[OF less.prems(4)] by simp
  show ?case
  proof (cases "a < b")
    case False
    then show ?thesis using less.prems by (intro exI[of _ a]) (subst bisect_label.simps, simp)
  next
    case True
    define m where "m = a + (b - a) div 2"
    have m: "a \<le> m" "m < b" using True by (auto simp: m_def)
    have mid: "int (length pre + a) + (int (length pre + b) - int (length pre + a)) div 2 = int (length pre + m)"
      using True by (simp add: m_def zdiv_int of_nat_diff)
    have e: "at_index edges (int (length pre + m)) = Some (S ! m)"
      using m less.prems(2,3) by (simp add: nth_append del: of_nat_add)
    show ?thesis
    proof (cases "e_label (S ! m) < c")
      case lt: True
      have "bisect_label edges (int (length pre + a)) (int (length pre + b)) c
          = bisect_label edges (int (length pre + Suc m)) (int (length pre + b)) c"
        using lt by (subst bisect_label_step[OF _ mid e]) (use True in \<open>simp_all add: ac_simps\<close>)
      moreover have "\<forall>i<Suc m. e_label (S ! i) < c"
      proof (intro allI impI)
        fix i assume "i < Suc m"
        then have "e_label (S ! i) \<le> e_label (S ! m)" using mono[of i m] m less.prems(2) by simp
        then show "e_label (S ! i) < c" using lt by simp
      qed
      ultimately show ?thesis
        using less.hyps[of b "Suc m"] m less.prems by simp
    next
      case ge: False
      have "bisect_label edges (int (length pre + a)) (int (length pre + b)) c
          = bisect_label edges (int (length pre + a)) (int (length pre + m)) c"
        using ge by (subst bisect_label_step[OF _ mid e]) (use True in simp_all)
      moreover have "\<forall>i. m \<le> i \<longrightarrow> i < length S \<longrightarrow> c \<le> e_label (S ! i)"
      proof (intro allI impI)
        fix i assume "m \<le> i" "i < length S"
        then have "e_label (S ! m) \<le> e_label (S ! i)" by (rule mono)
        then show "c \<le> e_label (S ! i)" using ge by simp
      qed
      ultimately show ?thesis
        using less.hyps[of m a] m less.prems by simp
    qed
  qed
qed

lemma next_state_segment:
  assumes g: "graph W K" and s: "s < length W" "s \<noteq> 0" and len: "length (m_nodes m) = length W"
    and seg: "segment (m_edges m) (m_nodes m ! s) (K ! s)"
  shows "(next_state m (int s) c = Some 0 \<and> (\<forall>t. \<not> goes W s c t))
       \<or> (\<exists>t. next_state m (int s) c = Some (int t) \<and> goes W s c t)"
proof -
  let ?n = "m_nodes m ! s"
  obtain pre S post where S: "m_edges m = pre @ S @ post" "n_edgeStart ?n = int (length pre)"
      "n_edgeCount ?n = int (length S)" "sorted (map e_label S)" "mset S = mset (map flat (K ! s))"
    using seg unfolding segment_def by blast
  have set: "set S = flat ` set (K ! s)" using S(5) by (metis list.set_map set_mset_mset)
  obtain l where l: "bisect_label (m_edges m) (int (length pre)) (int (length pre + length S)) c = Some (int (length pre + l))"
      "l \<le> length S" "\<forall>i<l. e_label (S ! i) < c" "\<forall>i. l \<le> i \<longrightarrow> i < length S \<longrightarrow> c \<le> e_label (S ! i)"
    using bisect_label_ok[of 0 "length S" S "m_edges m" pre post c] S(1,4) by auto
  have run: "next_state m (int s) c = (if l < length S then Some (if e_label (S ! l) = c then e_target (S ! l) else 0) else Some 0)"
    using s len S(1,2,3) l(1,2) by (simp add: next_state_def Let_def nth_append flip: of_nat_add)
  show ?thesis
  proof (cases "l < length S \<and> e_label (S ! l) = c")
    case True
    then have "S ! l \<in> flat ` set (K ! s)" using set by (metis nth_mem)
    then obtain e where e: "e \<in> set (K ! s)" "S ! l = flat e" by blast
    obtain t where "t < length W" "b_target e = int t" "W ! t = W ! s @ [b_label e]"
      using graph_edge[OF g s(1) e(1)] by metis
    then have "e_target (S ! l) = int t" "goes W s c t" using e(2) True by (auto simp: flat_def goes_def)
    then show ?thesis using run True by auto
  next
    case False
    have "e_label x \<noteq> c" if x: "x \<in> set S" for x
    proof -
      obtain i where i: "i < length S" "S ! i = x" using x by (auto simp: in_set_conv_nth)
      show ?thesis
      proof (cases "i < l")
        case True
        then show ?thesis using l(3) i by auto
      next
        case ge: False
        then have "l < length S" "e_label (S ! l) \<le> e_label x"
          using i sorted_nth_mono[OF S(4), of l i] by auto
        then show ?thesis using False l(4) by force
      qed
    qed
    then have "\<forall>e\<in>set (K ! s). b_label e \<noteq> c" using set by (force simp: flat_def)
    then have "\<forall>t. \<not> goes W s c t" using graph_child[OF g s(1)] by (auto simp: goes_def)
    then show ?thesis using run False by auto
  qed
qed


section \<open>The match\<close>

definition automaton :: "go_bytes list \<Rightarrow> go_bytes list \<Rightarrow> keyword_matcher \<Rightarrow> bool" where
  "automaton L W m \<longleftrightarrow> length (m_nodes m) = length W \<and> linked L W (m_nodes m)
     \<and> (\<forall>s<length W. \<forall>c. (next_state m (int s) c = Some 0 \<and> (\<forall>t. \<not> goes W s c t))
          \<or> (\<exists>t. next_state m (int s) c = Some (int t) \<and> goes W s c t))"

lemma follow_go:
  assumes g: "graph W K" and a: "automaton L W m"
  shows "s < length W \<Longrightarrow> (follow m (int s) c = Some 0 \<and> no_go W s c)
       \<or> (\<exists>v t. follow m (int s) c = Some (int t) \<and> longest_go W s c v t)"
proof (induction "length (W ! s)" arbitrary: s rule: less_induct)
  case less
  from a less.prems consider (none) "next_state m (int s) c = Some 0" "\<forall>t. \<not> goes W s c t"
    | (some) t where "next_state m (int s) c = Some (int t)" "goes W s c t"
    unfolding automaton_def by blast
  then show ?case
  proof cases
    case none
    show ?thesis
    proof (cases "s = 0")
      case True
      then show ?thesis using none no_go_root[OF g] by (subst follow.simps) simp
    next
      case False
      then obtain f where f: "n_failure (m_nodes m ! s) = int f" "is_fail W s f"
        using a less.prems by (auto simp: automaton_def linked_def good_def)
      have step: "follow m (int s) c = follow m (int f) c"
        using none(1) False less.prems a f(1) by (subst follow.simps) (simp add: automaton_def)
      have "length (W ! f) < length (W ! s)" "f < length W"
        using is_fail_length[OF f(2)] f(2) by (auto simp: is_fail_def)
      then show ?thesis
        using less.hyps[of f] go_through_fail[OF f(2) none(2)] unfolding step by blast
    qed
  next
    case some
    have "t \<noteq> 0" by (rule goes_nonzero[OF g some(2)])
    then have "follow m (int s) c = Some (int t)" using some(1) by (subst follow.simps) simp
    then show ?thesis using longest_go_here[OF less.prems some(2)] by blast
  qed
qed

definition at_state :: "go_bytes list \<Rightarrow> go_bytes \<Rightarrow> nat \<Rightarrow> bool" where
  "at_state W w s \<longleftrightarrow> s < length W \<and> suffix (W ! s) w
     \<and> (\<forall>u<length W. suffix (W ! u) w \<longrightarrow> suffix (W ! u) (W ! s))"

lemma follow_ok:
  assumes g: "graph W K" and a: "automaton L W m" and s: "at_state W w s"
  shows "\<exists>t. follow m (int s) c = Some (int t) \<and> at_state W (w @ [c]) t"
proof -
  have sl: "s < length W" "suffix (W ! s) w" using s by (auto simp: at_state_def)
  have below: "\<exists>p. p < length W \<and> suffix (W ! p) (W ! s) \<and> W ! u = W ! p @ [c] \<and> goes W p c u"
    if u: "u < length W" "suffix (W ! u) (w @ [c])" "W ! u \<noteq> []" for u
  proof -
    obtain x where x: "W ! u = x @ [c]" "suffix x w" using u(2,3) by (cases "W ! u" rule: rev_cases) auto
    obtain p where p: "p < length W" "W ! p = x" using graph_prefix_closed[OF g u(1) x(1)] by blast
    then have "suffix (W ! p) (W ! s)" using s x(2) by (auto simp: at_state_def)
    then show ?thesis using p x(1) u(1) by (auto simp: goes_def)
  qed
  from follow_go[OF g a sl(1), of c] show ?thesis
  proof (elim disjE exE conjE)
    assume f: "follow m (int s) c = Some 0" "no_go W s c"
    have "suffix (W ! u) (W ! 0)" if "u < length W" "suffix (W ! u) (w @ [c])" for u
      using below[OF that] f(2) graph_root[OF g] by (cases "W ! u = []") (auto simp: no_go_def)
    then have "at_state W (w @ [c]) 0"
      using graph_nonempty[OF g] graph_root[OF g] by (simp add: at_state_def)
    then show ?thesis using f(1) by (intro exI[of _ 0]) simp
  next
    fix v t assume f: "follow m (int s) c = Some (int t)" "longest_go W s c v t"
    then have t: "t < length W" "W ! t = W ! v @ [c]" "suffix (W ! v) (W ! s)" by (auto simp: longest_go_def goes_def)
    have "suffix (W ! u) (W ! t)" if "u < length W" "suffix (W ! u) (w @ [c])" for u
      using below[OF that] f(2) t(2) by (cases "W ! u = []") (auto simp: longest_go_def)
    moreover have "suffix (W ! v) w" using t(3) sl(2) suffix_order.order_trans by blast
    ultimately show ?thesis using f(1) t by (auto simp: at_state_def)
  qed
qed

definition hit :: "go_bytes list \<Rightarrow> go_bytes \<Rightarrow> nat \<Rightarrow> bool" where
  "hit L w i \<longleftrightarrow> i < length L \<and> L ! i \<noteq> [] \<and> sublist (L ! i) w"

lemma hit_snoc: "hit L (w @ [c]) i \<longleftrightarrow> hit L w i \<or> suffix_hit L (w @ [c]) i"
  by (auto simp: hit_def suffix_hit_def sublist_snoc)

lemma at_state_hit:
  assumes "at_state W w s" "\<forall>i<length L. L ! i \<in> set W"
  shows "suffix_hit L w i \<longleftrightarrow> suffix_hit L (W ! s) i"
proof -
  have "suffix (L ! i) w \<longleftrightarrow> suffix (L ! i) (W ! s)" if "i < length L"
  proof -
    obtain u where u: "u < length W" "W ! u = L ! i" using assms(2) \<open>i < length L\<close> by (metis in_set_conv_nth)
    have "suffix (L ! i) w" if "suffix (L ! i) (W ! s)"
      using that assms(1) suffix_order.order_trans unfolding at_state_def by blast
    then show ?thesis using assms(1) u unfolding at_state_def by metis
  qed
  then show ?thesis by (auto simp: suffix_hit_def)
qed

lemma linked_best:
  assumes "graph W K" "linked L W ns" "s < length W"
  shows "least_index (suffix_hit L (W ! s)) (n_bestKeyword (ns ! s))"
  using assms(2,3) graph_root[OF assms(1)]
  by (cases "s = 0") (auto simp: linked_def good_def suffix_hit_def intro: least_index_none)

definition verdict :: "go_bytes list \<Rightarrow> int \<Rightarrow> go_bytes \<times> bool" where
  "verdict kws b = (if b < 0 then ([], False) else (kws ! nat b, True))"

lemma scan_text_ok:
  assumes g: "graph W K" and a: "automaton L W m" and L: "\<forall>i<length L. L ! i \<in> set W"
    and kws: "m_keywords m = kws" "length kws = length L" "kws \<noteq> []"
  shows "at_state W w s \<Longrightarrow> least_index (hit L w) b \<Longrightarrow> b \<noteq> 0 \<Longrightarrow>
    \<exists>b'. least_index (hit L (w @ cs)) b' \<and> scan_text m (int s) b cs = Some (verdict kws b')"
proof (induction cs arbitrary: w s b)
  case Nil
  then have "b < int (length kws)" using kws(2) by (auto simp: least_index_def hit_def)
  then show ?case using Nil kws by (intro exI[of _ b]) (simp add: verdict_def)
next
  case (Cons c cs)
  obtain t where t: "follow m (int s) c = Some (int t)" "at_state W (w @ [c]) t"
    using follow_ok[OF g a Cons.prems(1)] by blast
  have tl: "t < length W" "t < length (m_nodes m)" using t(2) a by (auto simp: at_state_def automaton_def)
  let ?b = "minKeywordIndex b (n_bestKeyword (m_nodes m ! t))"
  have lk: "linked L W (m_nodes m)" using a by (simp add: automaton_def)
  have li: "least_index (hit L (w @ [c])) ?b"
    using least_index_min[OF Cons.prems(2) linked_best[OF g lk tl(1)]] at_state_hit[OF t(2) L]
    by (simp add: hit_snoc cong: least_index_cong)
  show ?case
  proof (cases "?b = 0")
    case True
    then have "hit L (w @ [c]) 0" using least_index_zero[OF li] by simp
    then have "hit L (w @ c # cs) 0"
      using sublist_order.order_trans[OF _ sublist_append_rightI[of "w @ [c]" cs]] by (simp add: hit_def)
    then have "least_index (hit L (w @ c # cs)) 0" by (simp add: least_index_def)
    moreover have "scan_text m (int s) b (c # cs) = Some (verdict kws 0)"
      using t(1) tl(2) True kws by (simp add: Let_def verdict_def)
    ultimately show ?thesis by blast
  next
    case False
    from Cons.IH[OF t(2) li False] t(1) tl(2) False show ?thesis by (simp add: Let_def)
  qed
qed

section \<open>The linear scan\<close>

lemma first_contained_find:
  "first_contained uni lower kws
     = (case find (\<lambda>k. k \<noteq> [] \<and> sublist (ToLower uni k) lower) kws of None \<Rightarrow> ([], False) | Some k \<Rightarrow> (k, True))"
  by (induction kws) auto

lemma first_contained_least:
  assumes "least_index (hit (lowered uni kws) lower) b" "keeps_text uni"
  shows "first_contained uni lower kws = verdict kws b"
proof -
  let ?P = "\<lambda>k. k \<noteq> [] \<and> sublist (ToLower uni k) lower"
  have hit: "hit (lowered uni kws) lower i \<longleftrightarrow> i < length kws \<and> ?P (kws ! i)" for i
    using ToLower_Nil_iff[OF assms(2)]
    by (cases "i < length kws"; cases "kws ! i = []") (simp_all add: hit_def lowered_def)
  show ?thesis
  proof (cases "b < 0")
    case True
    then have "\<not> hit (lowered uni kws) lower i" for i
      using assms(1) by (auto simp: least_index_def)
    then have "\<forall>k\<in>set kws. \<not> ?P k" using hit by (metis in_set_conv_nth)
    then have "find ?P kws = None" by (simp add: find_None_iff)
    then show ?thesis using True by (simp add: first_contained_find verdict_def)
  next
    case False
    then have "hit (lowered uni kws) lower (nat b)" using assms(1) by (simp add: least_index_def)
    then have at: "nat b < length kws" "?P (kws ! nat b)" using hit by auto
    have "\<not> hit (lowered uni kws) lower j" if "j < nat b" for j
      using assms(1) that False by (auto simp: least_index_def)
    then have "\<forall>j<nat b. \<not> ?P (kws ! j)" using hit at(1) by auto
    then have "find ?P kws = Some (kws ! nat b)" using at by (subst find_Some_iff) blast
    then show ?thesis using False by (simp add: first_contained_find verdict_def)
  qed
qed

section \<open>The constructor and the match together\<close>

lemma lowered_size:
  "sum_list (map length (lowered uni kws)) = sum_list (map (\<lambda>k. length (ToLower uni k)) kws)"
  by (induction kws) (auto simp: lowered_def ToLower_def)

lemma newKeywordMatcher_ok:
  assumes ne: "keeps_text uni" and kws: "kws \<noteq> []" "length kws \<le> 2147483648"
    and small: "sum_list (map (\<lambda>k. length (ToLower uni k)) kws) < 2147483648"
  obtains (nil) "newKeywordMatcher uni kws = Some None" "\<forall>k\<in>set kws. k = []"
  | (built) m W K where "newKeywordMatcher uni kws = Some (Some m)" "graph W K" "automaton (lowered uni kws) W m"
      "\<forall>i<length kws. lowered uni kws ! i \<in> set W" "m_keywords m = kws"
proof -
  let ?L = "lowered uni kws"
  have lenL: "length ?L = length kws" by (simp add: lowered_def)
  have "Suc (sum_list (map length ?L)) \<le> 2147483648" using small by (simp add: lowered_size)
  then obtain W K ns es where ins: "insert_keywords uni 0 kws ([newKeywordNode], []) = Some (ns, es)"
      "built ?L (length kws) W K (ns, es)" "length W \<le> Suc (sum_list (map length ?L))"
    by (rule insert_keywords_ok[OF refl ne _ kws(2)])
  have g: "graph W K" and st: "stored ns es K" and inW: "\<forall>i<length kws. ?L ! i \<in> set W"
    using ins(2) by (auto simp: built_def)
  have len: "length ns = length W" "length K = length W" using g st by (simp_all add: stored_def graph_length)
  show thesis
  proof (cases "length W = 1")
    case True
    then have "W = [[]]" using graph_root[OF g] by (cases W) auto
    then have "\<forall>i<length kws. kws ! i = []" using inW ToLower_Nil_iff[OF ne] by (auto simp: lowered_def split: if_splits)
    then have "\<forall>k\<in>set kws. k = []" by (metis in_set_conv_nth)
    moreover have "newKeywordMatcher uni kws = Some None"
      using kws(1) ins(1) True len by (simp add: newKeywordMatcher_def)
    ultimately show thesis by (rule nil[rotated])
  next
    case False
    define roots where "roots = fold (\<lambda>e r. r[unat (b_label e) := b_target e]) (K ! 0) (replicate 256 0)"
    have ch: "chain es (buildFirstEdge (ns ! 0)) (K ! 0)"
      using st len graph_nonempty[OF g] by (simp add: stored_def)
    have "ns \<noteq> []" using len graph_nonempty[OF g] by auto
    have re: "root_edges es (buildFirstEdge (ns ! 0)) (replicate 256 0) [] = Some (roots, kids K 0)"
      using root_edges_ok[OF ch] by (simp add: roots_def kids_def)
    obtain ns1 where ns1: "link_queue ns es (kids K 0) 0 = Some ns1" "stored ns1 es K" "linked ?L W ns1"
      using link_queue_ok ins(2) lenL by metis
    have len1: "length ns1 = length K" using ns1(2) by (simp add: stored_def)
    have W: "length W \<le> 2147483648" using ins(3) small by (simp add: lowered_size)
    have "flat_inv ns1 K 0 (ns1, [], replicate 256 \<lparr>e_target = 0, e_label = 0\<rparr>)"
      by (simp add: flat_inv_def)
    then obtain ns2 edges out where fl: "flatten_nodes es [0..<length K] (ns1, [], replicate 256 \<lparr>e_target = 0, e_label = 0\<rparr>)
        = Some (ns2, edges, out)" "flat_inv ns1 K (length K) (ns2, edges, out)"
      using flatten_nodes_ok[OF g ns1(2) W, of 0] by (metis le0 prod_cases3)
    define m where "m = \<lparr>m_nodes = ns2, m_edges = edges, m_rootTransitions = roots, m_keywords = kws\<rparr>"
    have run: "newKeywordMatcher uni kws = Some (Some m)"
      using kws(1) ins(1) False len re ns1(1) fl(1) len1 \<open>ns \<noteq> []\<close>
      by (simp add: newKeywordMatcher_def m_def)
    have f: "length ns2 = length W" "map n_failure ns2 = map n_failure ns1" "map n_bestKeyword ns2 = map n_bestKeyword ns1"
        "\<forall>s<length W. segment edges (ns2 ! s) (K ! s)"
      using fl(2) len len1 by (auto simp: flat_inv_def)
    have same: "n_failure (ns2 ! s) = n_failure (ns1 ! s)" "n_bestKeyword (ns2 ! s) = n_bestKeyword (ns1 ! s)"
      if "s < length W" for s
      using f that len1 len by (metis nth_map)+
    have "linked ?L W ns2"
      using ns1(3) same graph_nonempty[OF g] by (simp add: linked_def good_def)
    moreover have "(next_state m (int s) c = Some 0 \<and> (\<forall>t. \<not> goes W s c t))
          \<or> (\<exists>t. next_state m (int s) c = Some (int t) \<and> goes W s c t)" if s: "s < length W" for s c
    proof (cases "s = 0")
      case True
      then show ?thesis using root_table_cases[OF g roots_def, of c]
        by (simp add: next_state_def m_def) metis
    next
      case False
      show ?thesis by (rule next_state_segment[OF g s False]) (use f s in \<open>simp_all add: m_def\<close>)
    qed
    ultimately have "automaton ?L W m" using f(1) by (simp add: automaton_def m_def)
    then show thesis using built run g inW by (simp add: m_def)
  qed
qed

lemma Match_ok:
  assumes ne: "keeps_text uni" and len: "length kws \<le> 2147483648"
    and small: "sum_list (map (\<lambda>k. length (ToLower uni k)) kws) < 2147483648"
  shows "\<exists>mo. newKeywordMatcher uni kws = Some mo \<and> Match uni mo text = Some (matchBlockedKeyword uni text kws)"
proof (cases "kws = []")
  case True
  then show ?thesis by (simp add: newKeywordMatcher_def Match_def matchBlockedKeyword_def)
next
  case False
  show ?thesis
  proof (cases rule: newKeywordMatcher_ok[OF ne False len small])
    case 1
    have "first_contained uni lower ks = ([], False)" if "\<forall>k\<in>set ks. k = []" for lower ks
      using that by (induction ks) auto
    then show ?thesis using 1 by (simp add: Match_def matchBlockedKeyword_def)
  next
    case (2 m W K)
    let ?L = "lowered uni kws"
    have lenL: "length kws = length ?L" by (simp add: lowered_def)
    have start: "at_state W [] 0" using graph_nonempty[OF 2(2)] graph_root[OF 2(2)] by (simp add: at_state_def)
    have none: "least_index (hit ?L []) (-1)" by (rule least_index_none) (auto simp: hit_def)
    obtain b where b: "least_index (hit ?L (ToLower uni text)) b"
        "scan_text m (int 0) (-1) (ToLower uni text) = Some (verdict kws b)"
      using scan_text_ok[OF 2(2,3) _ 2(5) lenL False start none] 2(4) lenL by auto
    have "m_nodes m \<noteq> []" using 2(3) graph_nonempty[OF 2(2)] by (auto simp: automaton_def)
    then show ?thesis
      using 2(1,5) False b(2) first_contained_least[OF b(1) ne] by (simp add: Match_def matchBlockedKeyword_def)
  qed
qed

section \<open>The matcher agrees with the linear scan\<close>

text \<open>The property of the keyword matcher, and its witness.\<close>

lemma snapshot_of_matcher:
  "Match uni mo text = Some (matchBlockedKeyword uni text kws) \<Longrightarrow>
   snapshot_matchBlockedKeyword uni (Some (mo, kws)) text = Some (matchBlockedKeyword uni text kws)"
  by (cases mo) (simp_all add: snapshot_matchBlockedKeyword_def)

text \<open>
  C18.  The automaton is the linear scan.  For every list of keywords whose lower-cased bytes number
  less than \<open>2 ^ 31\<close> (so that no node index wraps), \<open>newContentModerationKeywordMatcher\<close> returns
  without a panic and without looping, and matching any text against what it returns, nil included,
  returns too, with the keyword \<open>matchBlockedKeyword\<close> finds by trying the keywords one by one in
  their configured order: the first that occurs in the lower-cased text.  So does the lookup through
  a runtime snapshot that holds the matcher.
\<close>

theorem matcher_agrees_with_scan:
  assumes "keeps_text uni" "length kws \<le> 2147483648"
    "sum_list (map (\<lambda>k. length (ToLower uni k)) kws) < 2147483648"
  shows "\<exists>mo. newKeywordMatcher uni kws = Some mo \<and>
    (\<forall>text. Match uni mo text = Some (matchBlockedKeyword uni text kws) \<and>
      snapshot_matchBlockedKeyword uni (Some (mo, kws)) text = Some (matchBlockedKeyword uni text kws))"
proof -
  obtain mo where mo: "newKeywordMatcher uni kws = Some mo" using Match_ok[OF assms] by blast
  have "Match uni mo t = Some (matchBlockedKeyword uni t kws)" for t
    using Match_ok[OF assms, of t] mo by auto
  with mo show ?thesis using snapshot_of_matcher by blast
qed

text \<open>Keywords \<open>he\<close>, \<open>She\<close> and \<open>his\<close>, as bytes, with texts below \<open>0x80\<close> only.\<close>

definition sample_keywords :: "go_bytes list" where
  "sample_keywords = [[104, 101], [83, 104, 101], [104, 105, 115]]"

theorem matcher_agrees_with_scan_witness:
  "\<exists>mo. newKeywordMatcher (\<lambda>s. s) sample_keywords = Some mo
     \<and> Match (\<lambda>s. s) mo [84, 72, 73, 83] = Some ([104, 105, 115], True)
     \<and> Match (\<lambda>s. s) mo [115, 104, 101] = Some ([104, 101], True)
     \<and> Match (\<lambda>s. s) mo [104, 105] = Some ([], False)"
proof -
  have "keeps_text (\<lambda>s. s)" by (simp add: keeps_text_def)
  then obtain mo where "newKeywordMatcher (\<lambda>s. s) sample_keywords = Some mo"
      "\<And>text. Match (\<lambda>s. s) mo text = Some (matchBlockedKeyword (\<lambda>s. s) text sample_keywords)"
    using matcher_agrees_with_scan[of "\<lambda>s. s" sample_keywords] by (auto simp: sample_keywords_def ToLower_def)
  moreover have "matchBlockedKeyword (\<lambda>s. s) [84, 72, 73, 83] sample_keywords = ([104, 105, 115], True)"
    "matchBlockedKeyword (\<lambda>s. s) [115, 104, 101] sample_keywords = ([104, 101], True)"
    "matchBlockedKeyword (\<lambda>s. s) [104, 105] sample_keywords = ([], False)"
    by (code_simp)+
  ultimately show ?thesis by metis
qed

end
