(* ===== verification/Gw_Account.thy ===== *)
theory Gw_Account
  imports Usage_Billing
begin

text \<open>
  An upstream account as the gateway schedules it (\<open>service/account.go\<close>, the routing part of
  \<open>service/account_proxy_routing.go\<close>): the settings in its JSON \<open>extra\<close>, whether it may be scheduled,
  its quota, its request-rate and window-cost zones, and the choice of its outbound proxy.  Instants
  count nanoseconds; \<open>time.Now()\<close> is an argument.  The standard library's number parser, time parser,
  time zones and floating-point rounding are the fields of \<open>acct_env\<close>.
\<close>

section \<open>Accounts\<close>

record proxy =
  px_id :: id
  px_status :: string
  px_expires :: "int option"

record gw_account =
  ga_id :: id
  ga_platform :: string
  ga_type :: string
  ga_extra :: extra
  ga_proxy_id :: "id option"
  ga_proxy_ids :: "id list"
  ga_proxies :: "proxy option list"
  ga_selected_proxy :: id
  ga_concurrency :: int
  ga_priority :: int
  ga_load_factor :: "int option"
  ga_status :: string
  ga_last_used :: "int option"
  ga_expires :: "int option"
  ga_auto_pause :: bool
  ga_schedulable :: bool
  ga_perf_paused :: bool
  ga_rate_limit_reset :: "int option"
  ga_overload_until :: "int option"
  ga_temp_until :: "int option"
  ga_window_start :: "int option"
  ga_window_end :: "int option"

record acct_env =
  ae_float :: "string \<Rightarrow> rat option"
  ae_atoi :: "string \<Rightarrow> int option"
  ae_time :: "string \<Rightarrow> int option"
  ae_zone :: "string \<Rightarrow> bool"
  ae_local :: "string \<Rightarrow> int \<Rightarrow> int"
  ae_instant :: "string \<Rightarrow> int \<Rightarrow> int"
  ae_round :: "rat \<Rightarrow> rat"

definition PlatformAnthropic :: string where "PlatformAnthropic = ''anthropic''"
definition PlatformGemini :: string where "PlatformGemini = ''gemini''"
definition PlatformAntigravity :: string where "PlatformAntigravity = ''antigravity''"
definition AccountTypeOAuth :: string where "AccountTypeOAuth = ''oauth''"
definition AccountTypeSetupToken :: string where "AccountTypeSetupToken = ''setup-token''"
definition StatusActive :: string where "StatusActive = ''active''"

section \<open>Settings in \<open>extra\<close>\<close>

text \<open>\<open>a.Extra[key]\<close>; a nil map has no key.  A JSON number arrives as a \<open>float64\<close>.\<close>

definition extra_at :: "gw_account \<Rightarrow> string \<Rightarrow> jval option" where
  "extra_at a k = (case ga_extra a of EObj m \<Rightarrow> m k | _ \<Rightarrow> None)"

definition extra_nil :: "gw_account \<Rightarrow> bool" where
  "extra_nil a \<longleftrightarrow> (case ga_extra a of EObj m \<Rightarrow> False | _ \<Rightarrow> True)"

definition trim_string :: "string \<Rightarrow> string" where
  "trim_string s = map char_of (trim_space (text_of s))"

text \<open>\<open>int(v)\<close> of a float truncates towards zero.\<close>

definition rat_trunc :: "rat \<Rightarrow> int" where
  "rat_trunc r = (if 0 \<le> r then \<lfloor>r\<rfloor> else \<lceil>r\<rceil>)"

definition parseExtraFloat64 :: "acct_env \<Rightarrow> jval \<Rightarrow> rat" where
  "parseExtraFloat64 E v = (case v of
     JNum r \<Rightarrow> r
   | JStr s \<Rightarrow> (case ae_float E (trim_string s) of Some f \<Rightarrow> f | None \<Rightarrow> 0)
   | _ \<Rightarrow> 0)"

definition parseExtraInt :: "acct_env \<Rightarrow> jval \<Rightarrow> int" where
  "parseExtraInt E v = (case v of
     JNum r \<Rightarrow> rat_trunc r
   | JStr s \<Rightarrow> (case ae_atoi E (trim_string s) of Some i \<Rightarrow> i | None \<Rightarrow> 0)
   | _ \<Rightarrow> 0)"

definition getExtraFloat64 :: "acct_env \<Rightarrow> gw_account \<Rightarrow> string \<Rightarrow> rat" where
  "getExtraFloat64 E a k = (case extra_at a k of Some v \<Rightarrow> parseExtraFloat64 E v | None \<Rightarrow> 0)"

text \<open>The zero \<open>time.Time\<close> is \<open>None\<close>.\<close>

definition getExtraTime :: "acct_env \<Rightarrow> gw_account \<Rightarrow> string \<Rightarrow> int option" where
  "getExtraTime E a k = (case extra_at a k of Some (JStr s) \<Rightarrow> ae_time E s | _ \<Rightarrow> None)"

definition getExtraString :: "gw_account \<Rightarrow> string \<Rightarrow> string" where
  "getExtraString a k = (case extra_at a k of Some (JStr s) \<Rightarrow> s | _ \<Rightarrow> [])"

definition getExtraInt :: "acct_env \<Rightarrow> gw_account \<Rightarrow> string \<Rightarrow> int" where
  "getExtraInt E a k = (case extra_at a k of Some v \<Rightarrow> rat_trunc (parseExtraFloat64 E v) | None \<Rightarrow> 0)"

section \<open>Quotas\<close>

definition GetQuotaLimit :: "acct_env \<Rightarrow> gw_account \<Rightarrow> rat" where
  "GetQuotaLimit E a = getExtraFloat64 E a ''quota_limit''"

definition GetQuotaUsed :: "acct_env \<Rightarrow> gw_account \<Rightarrow> rat" where
  "GetQuotaUsed E a = getExtraFloat64 E a ''quota_used''"

definition GetQuotaDailyLimit :: "acct_env \<Rightarrow> gw_account \<Rightarrow> rat" where
  "GetQuotaDailyLimit E a = getExtraFloat64 E a ''quota_daily_limit''"

definition GetQuotaDailyUsed :: "acct_env \<Rightarrow> gw_account \<Rightarrow> rat" where
  "GetQuotaDailyUsed E a = getExtraFloat64 E a ''quota_daily_used''"

definition GetQuotaWeeklyLimit :: "acct_env \<Rightarrow> gw_account \<Rightarrow> rat" where
  "GetQuotaWeeklyLimit E a = getExtraFloat64 E a ''quota_weekly_limit''"

definition GetQuotaWeeklyUsed :: "acct_env \<Rightarrow> gw_account \<Rightarrow> rat" where
  "GetQuotaWeeklyUsed E a = getExtraFloat64 E a ''quota_weekly_used''"

definition GetQuotaDailyResetMode :: "gw_account \<Rightarrow> string" where
  "GetQuotaDailyResetMode a = (if getExtraString a ''quota_daily_reset_mode'' = ''fixed'' then ''fixed'' else ''rolling'')"

definition GetQuotaWeeklyResetMode :: "gw_account \<Rightarrow> string" where
  "GetQuotaWeeklyResetMode a = (if getExtraString a ''quota_weekly_reset_mode'' = ''fixed'' then ''fixed'' else ''rolling'')"

definition GetQuotaDailyResetHour :: "acct_env \<Rightarrow> gw_account \<Rightarrow> int" where
  "GetQuotaDailyResetHour E a = getExtraInt E a ''quota_daily_reset_hour''"

definition GetQuotaWeeklyResetHour :: "acct_env \<Rightarrow> gw_account \<Rightarrow> int" where
  "GetQuotaWeeklyResetHour E a = getExtraInt E a ''quota_weekly_reset_hour''"

definition GetQuotaWeeklyResetDay :: "acct_env \<Rightarrow> gw_account \<Rightarrow> int" where
  "GetQuotaWeeklyResetDay E a =
     (if extra_at a ''quota_weekly_reset_day'' = None then 1 else getExtraInt E a ''quota_weekly_reset_day'')"

definition GetQuotaResetTimezone :: "gw_account \<Rightarrow> string" where
  "GetQuotaResetTimezone a =
     (let tz = getExtraString a ''quota_reset_timezone'' in if tz \<noteq> [] then tz else ''UTC'')"

text \<open>
  Calendar arithmetic in a time zone: local times count nanoseconds too.  \<open>AddDate(0, 0, n)\<close> keeps
  the clock of the time it starts from.
\<close>

definition ns_hour :: int where "ns_hour = 3600 * 1000000000"
definition ns_day :: int where "ns_day = 24 * ns_hour"

definition ns_weekday :: "int \<Rightarrow> int" where "ns_weekday l = (l div ns_day + 4) mod 7"

definition date_at_hour :: "acct_env \<Rightarrow> string \<Rightarrow> int \<Rightarrow> int \<Rightarrow> int" where
  "date_at_hour E tz t h = (let l = ae_local E tz t in ae_instant E tz (l - l mod ns_day + h * ns_hour))"

definition AddDays :: "acct_env \<Rightarrow> string \<Rightarrow> int \<Rightarrow> int \<Rightarrow> int" where
  "AddDays E tz t n = ae_instant E tz (ae_local E tz t + n * ns_day)"

definition nextFixedDailyReset :: "acct_env \<Rightarrow> int \<Rightarrow> string \<Rightarrow> int \<Rightarrow> int" where
  "nextFixedDailyReset E h tz after =
     (let today = date_at_hour E tz after h in if after \<ge> today then AddDays E tz today 1 else today)"

definition lastFixedDailyReset :: "acct_env \<Rightarrow> int \<Rightarrow> string \<Rightarrow> int \<Rightarrow> int" where
  "lastFixedDailyReset E h tz now =
     (let today = date_at_hour E tz now h in if now < today then AddDays E tz today (-1) else today)"

text \<open>Go's \<open>%\<close> truncates, as SQL's does.\<close>

definition nextFixedWeeklyReset :: "acct_env \<Rightarrow> int \<Rightarrow> int \<Rightarrow> string \<Rightarrow> int \<Rightarrow> int" where
  "nextFixedWeeklyReset E d h tz after =
     (let todayReset = date_at_hour E tz after h;
          currentDay = ns_weekday (ae_local E tz todayReset);
          daysForward = sql_mod (d - currentDay + 7) 7;
          daysForward = (if daysForward = 0 \<and> after \<ge> todayReset then 7 else daysForward)
      in AddDays E tz todayReset daysForward)"

definition lastFixedWeeklyReset :: "acct_env \<Rightarrow> int \<Rightarrow> int \<Rightarrow> string \<Rightarrow> int \<Rightarrow> int" where
  "lastFixedWeeklyReset E d h tz now =
     (let todayReset = date_at_hour E tz now h;
          currentDay = ns_weekday (ae_local E tz todayReset);
          daysBack = sql_mod (currentDay - d + 7) 7;
          daysBack = (if daysBack = 0 \<and> now < todayReset then 7 else daysBack)
      in AddDays E tz todayReset (- daysBack))"

definition quota_zone :: "acct_env \<Rightarrow> gw_account \<Rightarrow> string" where
  "quota_zone E a = (let tz = GetQuotaResetTimezone a in if ae_zone E tz then tz else ''UTC'')"

definition isFixedDailyPeriodExpired :: "acct_env \<Rightarrow> int \<Rightarrow> gw_account \<Rightarrow> int option \<Rightarrow> bool" where
  "isFixedDailyPeriodExpired E now a periodStart = (case periodStart of
     None \<Rightarrow> True
   | Some t \<Rightarrow> t < lastFixedDailyReset E (GetQuotaDailyResetHour E a) (quota_zone E a) now)"

definition isFixedWeeklyPeriodExpired :: "acct_env \<Rightarrow> int \<Rightarrow> gw_account \<Rightarrow> int option \<Rightarrow> bool" where
  "isFixedWeeklyPeriodExpired E now a periodStart = (case periodStart of
     None \<Rightarrow> True
   | Some t \<Rightarrow> t < lastFixedWeeklyReset E (GetQuotaWeeklyResetDay E a) (GetQuotaWeeklyResetHour E a) (quota_zone E a) now)"

definition isPeriodExpired :: "int \<Rightarrow> int option \<Rightarrow> int \<Rightarrow> bool" where
  "isPeriodExpired now periodStart dur = (case periodStart of None \<Rightarrow> True | Some t \<Rightarrow> now - t \<ge> dur)"

definition IsDailyQuotaPeriodExpired :: "acct_env \<Rightarrow> int \<Rightarrow> gw_account \<Rightarrow> bool" where
  "IsDailyQuotaPeriodExpired E now a =
     (let start = getExtraTime E a ''quota_daily_start''
      in if GetQuotaDailyResetMode a = ''fixed'' then isFixedDailyPeriodExpired E now a start
         else isPeriodExpired now start (24 * ns_hour))"

definition IsWeeklyQuotaPeriodExpired :: "acct_env \<Rightarrow> int \<Rightarrow> gw_account \<Rightarrow> bool" where
  "IsWeeklyQuotaPeriodExpired E now a =
     (let start = getExtraTime E a ''quota_weekly_start''
      in if GetQuotaWeeklyResetMode a = ''fixed'' then isFixedWeeklyPeriodExpired E now a start
         else isPeriodExpired now start (7 * 24 * ns_hour))"

definition HasAnyQuotaLimit :: "acct_env \<Rightarrow> gw_account \<Rightarrow> bool" where
  "HasAnyQuotaLimit E a \<longleftrightarrow> GetQuotaLimit E a > 0 \<or> GetQuotaDailyLimit E a > 0 \<or> GetQuotaWeeklyLimit E a > 0"

definition IsQuotaExceeded :: "acct_env \<Rightarrow> int \<Rightarrow> gw_account \<Rightarrow> bool" where
  "IsQuotaExceeded E now a =
     (if GetQuotaLimit E a > 0 \<and> GetQuotaUsed E a \<ge> GetQuotaLimit E a then True
      else if GetQuotaDailyLimit E a > 0
        \<and> (let start = getExtraTime E a ''quota_daily_start'';
               expired = (if GetQuotaDailyResetMode a = ''fixed'' then isFixedDailyPeriodExpired E now a start
                          else isPeriodExpired now start (24 * ns_hour))
           in \<not> expired \<and> GetQuotaDailyUsed E a \<ge> GetQuotaDailyLimit E a) then True
      else if GetQuotaWeeklyLimit E a > 0
        \<and> (let start = getExtraTime E a ''quota_weekly_start'';
               expired = (if GetQuotaWeeklyResetMode a = ''fixed'' then isFixedWeeklyPeriodExpired E now a start
                          else isPeriodExpired now start (7 * 24 * ns_hour))
           in \<not> expired \<and> GetQuotaWeeklyUsed E a \<ge> GetQuotaWeeklyLimit E a) then True
      else False)"

definition SupportsAccountQuota :: "gw_account \<Rightarrow> bool" where
  "SupportsAccountQuota a = AccountTypeSupportsQuota (ga_type a)"

section \<open>Whether an account may be scheduled\<close>

definition AccountIsActive :: "gw_account \<Rightarrow> bool" where
  "AccountIsActive a \<longleftrightarrow> ga_status a = StatusActive"

definition before_opt :: "int \<Rightarrow> int option \<Rightarrow> bool" where
  "before_opt now t = (case t of None \<Rightarrow> False | Some u \<Rightarrow> now < u)"

definition IsSchedulable :: "acct_env \<Rightarrow> int \<Rightarrow> gw_account \<Rightarrow> bool" where
  "IsSchedulable E now a =
     (if \<not> AccountIsActive a \<or> \<not> ga_schedulable a \<or> ga_perf_paused a then False
      else if ga_auto_pause a \<and> (case ga_expires a of None \<Rightarrow> False | Some t \<Rightarrow> \<not> now < t) then False
      else if before_opt now (ga_overload_until a) then False
      else if before_opt now (ga_rate_limit_reset a) then False
      else if before_opt now (ga_temp_until a) then False
      else if SupportsAccountQuota a \<and> IsQuotaExceeded E now a then False
      else True)"

definition IsMixedSchedulingEnabled :: "gw_account \<Rightarrow> bool" where
  "IsMixedSchedulingEnabled a \<longleftrightarrow> ga_platform a = PlatformAntigravity \<and> extra_at a ''mixed_scheduling'' = Some (JBool True)"

definition IsAnthropicOAuthOrSetupToken :: "gw_account \<Rightarrow> bool" where
  "IsAnthropicOAuthOrSetupToken a \<longleftrightarrow>
     ga_platform a = PlatformAnthropic \<and> (ga_type a = AccountTypeOAuth \<or> ga_type a = AccountTypeSetupToken)"

section \<open>Window cost, sessions and request rate\<close>

datatype WindowCostSchedulability = WindowCostSchedulable | WindowCostStickyOnly | WindowCostNotSchedulable

definition GetWindowCostLimit :: "acct_env \<Rightarrow> gw_account \<Rightarrow> rat" where
  "GetWindowCostLimit E a = (case extra_at a ''window_cost_limit'' of Some v \<Rightarrow> parseExtraFloat64 E v | None \<Rightarrow> 0)"

definition GetWindowCostStickyReserve :: "acct_env \<Rightarrow> gw_account \<Rightarrow> rat" where
  "GetWindowCostStickyReserve E a = (case extra_at a ''window_cost_sticky_reserve'' of
     Some v \<Rightarrow> if parseExtraFloat64 E v > 0 then parseExtraFloat64 E v else 10
   | None \<Rightarrow> 10)"

definition GetMaxSessions :: "acct_env \<Rightarrow> gw_account \<Rightarrow> int" where
  "GetMaxSessions E a = (case extra_at a ''max_sessions'' of Some v \<Rightarrow> parseExtraInt E v | None \<Rightarrow> 0)"

definition GetSessionIdleTimeoutMinutes :: "acct_env \<Rightarrow> gw_account \<Rightarrow> int" where
  "GetSessionIdleTimeoutMinutes E a = (case extra_at a ''session_idle_timeout_minutes'' of
     Some v \<Rightarrow> if parseExtraInt E v > 0 then parseExtraInt E v else 5
   | None \<Rightarrow> 5)"

definition GetBaseRPM :: "acct_env \<Rightarrow> gw_account \<Rightarrow> int" where
  "GetBaseRPM E a = (case extra_at a ''base_rpm'' of
     Some v \<Rightarrow> if parseExtraInt E v > 0 then parseExtraInt E v else 0
   | None \<Rightarrow> 0)"

definition GetRPMStrategy :: "gw_account \<Rightarrow> string" where
  "GetRPMStrategy a =
     (if extra_at a ''rpm_strategy'' = Some (JStr ''sticky_exempt'') then ''sticky_exempt'' else ''tiered'')"

definition GetRPMStickyBuffer :: "acct_env \<Rightarrow> gw_account \<Rightarrow> int" where
  "GetRPMStickyBuffer E a =
     (if extra_nil a then 0
      else
        (let manual = (case extra_at a ''rpm_sticky_buffer'' of Some v \<Rightarrow> parseExtraInt E v | None \<Rightarrow> 0)
         in if manual > 0 then manual
            else if GetBaseRPM E a \<le> 0 then 0
            else
              (let conc = (if ga_concurrency a < 0 then 0 else ga_concurrency a);
                   sess = (if GetMaxSessions E a < 0 then 0 else GetMaxSessions E a);
                   buffer = conc + sess;
                   floor = GetBaseRPM E a div 5;
                   floor = (if floor < 1 then 1 else floor)
               in if buffer < floor then floor else buffer)))"

definition CheckRPMSchedulability :: "acct_env \<Rightarrow> gw_account \<Rightarrow> int \<Rightarrow> WindowCostSchedulability" where
  "CheckRPMSchedulability E a currentRPM =
     (let baseRPM = GetBaseRPM E a
      in if baseRPM \<le> 0 then WindowCostSchedulable
         else if currentRPM < baseRPM then WindowCostSchedulable
         else if GetRPMStrategy a = ''sticky_exempt'' then WindowCostStickyOnly
         else if currentRPM < baseRPM + GetRPMStickyBuffer E a then WindowCostStickyOnly
         else WindowCostNotSchedulable)"

definition CheckWindowCostSchedulability :: "acct_env \<Rightarrow> gw_account \<Rightarrow> rat \<Rightarrow> WindowCostSchedulability" where
  "CheckWindowCostSchedulability E a currentWindowCost =
     (let limit = GetWindowCostLimit E a
      in if limit \<le> 0 then WindowCostSchedulable
         else if currentWindowCost < limit then WindowCostSchedulable
         else if currentWindowCost < ae_round E (limit + GetWindowCostStickyReserve E a) then WindowCostStickyOnly
         else WindowCostNotSchedulable)"

text \<open>The zone of the server's clock is the empty name.\<close>

definition GetCurrentWindowStartTime :: "acct_env \<Rightarrow> int \<Rightarrow> gw_account \<Rightarrow> int" where
  "GetCurrentWindowStartTime E now a =
     (case (ga_window_start a, ga_window_end a) of
        (Some s, Some e) \<Rightarrow>
          if now < e then s
          else (let l = ae_local E [] now in ae_instant E [] (l - l mod ns_hour))
      | _ \<Rightarrow> (let l = ae_local E [] now in ae_instant E [] (l - l mod ns_hour)))"

section \<open>Load factors and proxies\<close>

definition EffectiveLoadFactor :: "gw_account \<Rightarrow> int" where
  "EffectiveLoadFactor a =
     (case ga_load_factor a of
        Some f \<Rightarrow> if f > 0 then f else if ga_concurrency a > 0 then ga_concurrency a else 1
      | None \<Rightarrow> if ga_concurrency a > 0 then ga_concurrency a else 1)"

definition TotalConcurrency :: "gw_account \<Rightarrow> int" where
  "TotalConcurrency a =
     (if length (ga_proxy_ids a) > 1 \<and> ga_concurrency a > 0
      then ga_concurrency a * int (length (ga_proxy_ids a)) else ga_concurrency a)"

definition TotalLoadFactor :: "gw_account \<Rightarrow> int" where
  "TotalLoadFactor a =
     (let n = length (ga_proxy_ids a); n = (if n < 2 then 1 else n) in EffectiveLoadFactor a * int n)"

definition ProxyIsActive :: "proxy \<Rightarrow> bool" where
  "ProxyIsActive p \<longleftrightarrow> px_status p = StatusActive"

definition ProxyIsExpired :: "int \<Rightarrow> proxy \<Rightarrow> bool" where
  "ProxyIsExpired now p = (case px_expires p of None \<Rightarrow> False | Some t \<Rightarrow> \<not> t > now)"

definition proxy_usable :: "int \<Rightarrow> id \<Rightarrow> proxy option \<Rightarrow> bool" where
  "proxy_usable now pid po =
     (case po of None \<Rightarrow> False | Some p \<Rightarrow> px_id p = pid \<and> ProxyIsActive p \<and> \<not> ProxyIsExpired now p)"

definition WithProxyRoute :: "int \<Rightarrow> gw_account \<Rightarrow> id \<Rightarrow> gw_account option" where
  "WithProxyRoute now a proxyID =
     (if proxyID = 0 then Some a
      else case find (proxy_usable now proxyID) (ga_proxies a) of
        Some (Some p) \<Rightarrow> Some (a\<lparr>ga_proxy_id := Some (px_id p), ga_selected_proxy := proxyID\<rparr>)
      | _ \<Rightarrow> None)"

definition available_proxies :: "int \<Rightarrow> gw_account \<Rightarrow> id list" where
  "available_proxies now a = filter (\<lambda>i. list_ex (proxy_usable now i) (ga_proxies a)) (ga_proxy_ids a)"

definition validateProxyReservation :: "gw_account \<Rightarrow> gw_account \<Rightarrow> bool" where
  "validateProxyReservation selected hydrated \<longleftrightarrow>
     (if length (ga_proxy_ids selected) < 2 \<and> length (ga_proxy_ids hydrated) < 2 then True
      else \<not> (ga_proxy_ids selected \<noteq> ga_proxy_ids hydrated \<or> ga_concurrency selected \<noteq> ga_concurrency hydrated
              \<or> ga_selected_proxy selected = 0))"

end
