(* ===== verification/Scheduling.thy ===== *)
theory Scheduling
  imports Gw_Account Slot_Leases
begin

text \<open>
  The order in which the gateway tries accounts (\<open>service/gateway_scheduling.go\<close>): the layered
  filters of the load-aware selection, the least recently used choice, and the sorts and shuffles of
  the other layers.  Random draws are parameters: \<open>rnd\<close> is read modulo the bound the code passes
  to \<open>mathrand.Intn\<close>, and a shuffle gets one stream of draws per group, indexed by where the group
  starts.
\<close>

type_synonym cand = "gw_account \<times> load_info"

section \<open>The layered filters\<close>

definition filterByMinPriority :: "cand list \<Rightarrow> cand list" where
  "filterByMinPriority accounts = (case accounts of
     [] \<Rightarrow> []
   | acc # rest \<Rightarrow>
       (let minPriority = fold (\<lambda>a m. if ga_priority (fst a) < m then ga_priority (fst a) else m) rest (ga_priority (fst acc))
        in filter (\<lambda>a. ga_priority (fst a) = minPriority) accounts))"

definition filterByMinLoadRate :: "cand list \<Rightarrow> cand list" where
  "filterByMinLoadRate accounts = (case accounts of
     [] \<Rightarrow> []
   | acc # rest \<Rightarrow>
       (let minLoadRate = fold (\<lambda>a m. if LoadRate (snd a) < m then LoadRate (snd a) else m) rest (LoadRate (snd acc))
        in filter (\<lambda>a. LoadRate (snd a) = minLoadRate) accounts))"

definition soonest_end :: "int \<Rightarrow> cand list \<Rightarrow> int option \<Rightarrow> int option" where
  "soonest_end now = fold (\<lambda>a minEnd. case ga_window_end (fst a) of
       None \<Rightarrow> minEnd
     | Some e \<Rightarrow> if \<not> now < e then minEnd
                 else (case minEnd of None \<Rightarrow> Some e | Some t \<Rightarrow> if e < t then Some e else minEnd))"

definition filterBySoonestReset :: "int \<Rightarrow> cand list \<Rightarrow> cand list" where
  "filterBySoonestReset now accounts =
     (if length accounts \<le> 1 then accounts
      else case soonest_end now accounts None of
        None \<Rightarrow> accounts
      | Some t \<Rightarrow> filter (\<lambda>a. case ga_window_end (fst a) of None \<Rightarrow> False | Some e \<Rightarrow> now < e \<and> e = t) accounts)"

text \<open>The first loop of \<open>selectByLRU\<close> stops at the first account that was never used.\<close>

fun lru_scan :: "cand list \<Rightarrow> int option \<Rightarrow> bool \<times> int option" where
  "lru_scan [] minTime = (False, minTime)"
| "lru_scan (acc # accs) minTime = (case ga_last_used (fst acc) of
     None \<Rightarrow> (True, minTime)
   | Some t \<Rightarrow> lru_scan accs (case minTime of None \<Rightarrow> Some t | Some m \<Rightarrow> if t < m then Some t else minTime))"

definition selectByLRU :: "nat \<Rightarrow> cand list \<Rightarrow> bool \<Rightarrow> cand option" where
  "selectByLRU rnd accounts preferOAuth =
     (if accounts = [] then None
      else if length accounts = 1 then Some (accounts ! 0)
      else
        (let (hasNil, minTime) = lru_scan accounts None;
             candidateIdxs = filter (\<lambda>i. if hasNil then ga_last_used (fst (accounts ! i)) = None
                else ga_last_used (fst (accounts ! i)) \<noteq> None \<and> ga_last_used (fst (accounts ! i)) = minTime)
                [0..<length accounts]
         in if length candidateIdxs = 1 then Some (accounts ! (candidateIdxs ! 0))
            else
              (let oauthIdxs = filter (\<lambda>i. ga_type (fst (accounts ! i)) = AccountTypeOAuth) candidateIdxs;
                   candidateIdxs = (if preferOAuth \<and> oauthIdxs \<noteq> [] then oauthIdxs else candidateIdxs)
               in Some (accounts ! (candidateIdxs ! (rnd mod length candidateIdxs))))))"

text \<open>One round of the loop of layer 2: which account it tries next, and what it leaves.\<close>

definition pick_next :: "nat \<Rightarrow> int \<Rightarrow> bool \<Rightarrow> bool \<Rightarrow> cand list \<Rightarrow> cand option" where
  "pick_next rnd now preferSoonestReset preferOAuth available =
     (let candidates = filterByMinPriority available;
          candidates = (if preferSoonestReset then filterBySoonestReset now candidates else candidates);
          candidates = filterByMinLoadRate candidates
      in selectByLRU rnd candidates preferOAuth)"

definition remove_tried :: "id \<Rightarrow> cand list \<Rightarrow> cand list" where
  "remove_tried selectedID available = filter (\<lambda>a. ga_id (fst a) \<noteq> selectedID) available"

section \<open>Sorting and shuffling\<close>

text \<open>\<open>sort.SliceStable\<close>: the stable order of a strict weak ordering.\<close>

fun insert_stable :: "('a \<Rightarrow> 'a \<Rightarrow> bool) \<Rightarrow> 'a \<Rightarrow> 'a list \<Rightarrow> 'a list" where
  "insert_stable lt x [] = [x]"
| "insert_stable lt x (y # ys) = (if lt y x then y # insert_stable lt x ys else x # y # ys)"

definition SliceStable :: "('a \<Rightarrow> 'a \<Rightarrow> bool) \<Rightarrow> 'a list \<Rightarrow> 'a list" where
  "SliceStable lt xs = foldr (insert_stable lt) xs []"

text \<open>\<open>mathrand.Shuffle\<close>: Fisher-Yates, from the last index down.\<close>

definition swap_at :: "nat \<Rightarrow> nat \<Rightarrow> 'a list \<Rightarrow> 'a list" where
  "swap_at i j xs = xs[i := xs ! j, j := xs ! i]"

fun fisher_yates :: "(nat \<Rightarrow> nat) \<Rightarrow> nat \<Rightarrow> 'a list \<Rightarrow> 'a list" where
  "fisher_yates rnd 0 xs = xs"
| "fisher_yates rnd (Suc i) xs = fisher_yates rnd i (swap_at (Suc i) (rnd (Suc i) mod Suc (Suc i)) xs)"

definition Shuffle :: "(nat \<Rightarrow> nat) \<Rightarrow> 'a list \<Rightarrow> 'a list" where
  "Shuffle rnd xs = fisher_yates rnd (length xs - 1) xs"

definition sameLastUsedAt :: "int option \<Rightarrow> int option \<Rightarrow> bool" where
  "sameLastUsedAt a b = (case (a, b) of
     (None, None) \<Rightarrow> True
   | (Some s, Some t) \<Rightarrow> s div 1000000000 = t div 1000000000
   | _ \<Rightarrow> False)"

definition sameAccountWithLoadGroup :: "cand \<Rightarrow> cand \<Rightarrow> bool" where
  "sameAccountWithLoadGroup a b \<longleftrightarrow>
     ga_priority (fst a) = ga_priority (fst b) \<and> LoadRate (snd a) = LoadRate (snd b)
     \<and> sameLastUsedAt (ga_last_used (fst a)) (ga_last_used (fst b))"

definition sameAccountGroup :: "gw_account \<Rightarrow> gw_account \<Rightarrow> bool" where
  "sameAccountGroup a b \<longleftrightarrow>
     ga_priority a = ga_priority b \<and> sameLastUsedAt (ga_last_used a) (ga_last_used b)"

text \<open>
  The loops that cut a sorted slice into groups of neighbours and treat each: \<open>act\<close> gets the index
  where its group starts.
\<close>

function by_groups :: "('a \<Rightarrow> 'a \<Rightarrow> bool) \<Rightarrow> (nat \<Rightarrow> 'a list \<Rightarrow> 'a list) \<Rightarrow> nat \<Rightarrow> 'a list \<Rightarrow> 'a list" where
  "by_groups same act i [] = []"
| "by_groups same act i (x # xs) =
     (let grp = x # takeWhile (same x) xs
      in act i grp @ by_groups same act (i + length grp) (dropWhile (same x) xs))"
  by pat_completeness auto
termination
  by (relation "measure (\<lambda>(same, act, i, xs). length xs)") (auto intro: le_imp_less_Suc length_dropWhile_le)

definition shuffleWithinSortGroups :: "(nat \<Rightarrow> nat \<Rightarrow> nat) \<Rightarrow> cand list \<Rightarrow> cand list" where
  "shuffleWithinSortGroups rnd accounts =
     (if length accounts \<le> 1 then accounts
      else by_groups sameAccountWithLoadGroup
             (\<lambda>i grp. if length grp > 1 then Shuffle (rnd i) grp else grp) 0 accounts)"

definition shuffleWithinPriorityAndLastUsed :: "(nat \<Rightarrow> nat \<Rightarrow> nat) \<Rightarrow> bool \<Rightarrow> gw_account list \<Rightarrow> gw_account list" where
  "shuffleWithinPriorityAndLastUsed rnd preferOAuth accounts =
     (if length accounts \<le> 1 then accounts
      else by_groups sameAccountGroup
        (\<lambda>i grp. if length grp > 1
           then if preferOAuth
             then (let oauth = filter (\<lambda>a. ga_type a = AccountTypeOAuth) grp;
                       others = filter (\<lambda>a. ga_type a \<noteq> AccountTypeOAuth) grp
                   in (if length oauth > 1 then Shuffle (rnd i) oauth else oauth)
                      @ (if length others > 1 then Shuffle (rnd (i + length oauth)) others else others))
             else Shuffle (rnd i) grp
           else grp) 0 accounts)"

definition shuffleWithinPriority :: "(nat \<Rightarrow> nat \<Rightarrow> nat) \<Rightarrow> gw_account list \<Rightarrow> gw_account list" where
  "shuffleWithinPriority rnd accounts =
     (if length accounts \<le> 1 then accounts
      else by_groups (\<lambda>a b. ga_priority b = ga_priority a)
             (\<lambda>i grp. if length grp > 1 then Shuffle (rnd i) grp else grp) 0 accounts)"

definition less_last_used :: "int option \<Rightarrow> int option \<Rightarrow> bool" where
  "less_last_used a b = (case (a, b) of
     (None, Some _) \<Rightarrow> True
   | (Some s, Some t) \<Rightarrow> s < t
   | _ \<Rightarrow> False)"

definition less_priority_last_used :: "bool \<Rightarrow> gw_account \<Rightarrow> gw_account \<Rightarrow> bool" where
  "less_priority_last_used preferOAuth a b =
     (if ga_priority a \<noteq> ga_priority b then ga_priority a < ga_priority b
      else case (ga_last_used a, ga_last_used b) of
        (None, Some _) \<Rightarrow> True
      | (Some _, None) \<Rightarrow> False
      | (None, None) \<Rightarrow> if preferOAuth \<and> ga_type a \<noteq> ga_type b then ga_type a = AccountTypeOAuth else False
      | (Some s, Some t) \<Rightarrow> s < t)"

definition sortAccountsByPriorityAndLastUsed :: "(nat \<Rightarrow> nat \<Rightarrow> nat) \<Rightarrow> bool \<Rightarrow> gw_account list \<Rightarrow> gw_account list" where
  "sortAccountsByPriorityAndLastUsed rnd preferOAuth accounts =
     shuffleWithinPriorityAndLastUsed rnd preferOAuth (SliceStable (less_priority_last_used preferOAuth) accounts)"

definition less_priority_only :: "bool \<Rightarrow> gw_account \<Rightarrow> gw_account \<Rightarrow> bool" where
  "less_priority_only preferOAuth a b =
     (if ga_priority a \<noteq> ga_priority b then ga_priority a < ga_priority b
      else if preferOAuth \<and> ga_type a \<noteq> ga_type b then ga_type a = AccountTypeOAuth
      else False)"

definition sortAccountsByPriorityOnly :: "bool \<Rightarrow> gw_account list \<Rightarrow> gw_account list" where
  "sortAccountsByPriorityOnly preferOAuth = SliceStable (less_priority_only preferOAuth)"

definition sortCandidatesForFallback :: "(nat \<Rightarrow> nat \<Rightarrow> nat) \<Rightarrow> bool \<Rightarrow> string \<Rightarrow> gw_account list \<Rightarrow> gw_account list" where
  "sortCandidatesForFallback rnd preferOAuth mode accounts =
     (if mode = ''random'' then shuffleWithinPriority rnd (sortAccountsByPriorityOnly preferOAuth accounts)
      else sortAccountsByPriorityAndLastUsed rnd preferOAuth accounts)"

text \<open>The order of layer 1, over routed accounts with their loads.\<close>

definition less_routed :: "cand \<Rightarrow> cand \<Rightarrow> bool" where
  "less_routed a b =
     (if ga_priority (fst a) \<noteq> ga_priority (fst b) then ga_priority (fst a) < ga_priority (fst b)
      else if LoadRate (snd a) \<noteq> LoadRate (snd b) then LoadRate (snd a) < LoadRate (snd b)
      else less_last_used (ga_last_used (fst a)) (ga_last_used (fst b)))"

definition sort_routed :: "(nat \<Rightarrow> nat \<Rightarrow> nat) \<Rightarrow> cand list \<Rightarrow> cand list" where
  "sort_routed rnd accounts = shuffleWithinSortGroups rnd (SliceStable less_routed accounts)"

text \<open>Candidates with their loads: an account missing from the batch counts as idle; full ones go.\<close>

definition with_loads :: "(id \<Rightarrow> load_info option) \<Rightarrow> gw_account list \<Rightarrow> cand list" where
  "with_loads loadMap candidates =
     filter (\<lambda>c. LoadRate (snd c) < 100)
       (map (\<lambda>acc. (acc, case loadMap (ga_id acc) of
              Some li \<Rightarrow> li
            | None \<Rightarrow> \<lparr>li_id = ga_id acc, CurrentConcurrency = 0, WaitingCount = 0, LoadRate = 0\<rparr>)) candidates)"

end
