(* ===== verification/Scheduling_Order.thy ===== *)
theory Scheduling_Order
  imports Scheduling "HOL-Library.Multiset" "HOL-Library.Product_Lexorder"
begin

text \<open>
  What the order of \<open>Scheduling\<close> is.  Sorting and shuffling permute; a sort followed by a shuffle of
  its groups is sorted by the groups' key; the layered filters with the least-recently-used choice
  pick an account of least rank, so that trying and removing one account after another goes through
  all of them in the order of their ranks.
\<close>

section \<open>Permutations\<close>

lemma mset_insert_stable [simp]: "mset (insert_stable lt x xs) = add_mset x (mset xs)"
  by (induction xs) auto

lemma mset_SliceStable [simp]: "mset (SliceStable lt xs) = mset xs"
  by (induction xs) (simp_all add: SliceStable_def)

lemma mset_fisher_yates: "i < length xs \<Longrightarrow> mset (fisher_yates rnd i xs) = mset xs"
proof (induction i arbitrary: xs)
  case (Suc i)
  let ?j = "rnd (Suc i) mod Suc (Suc i)"
  have j: "?j < length xs" using Suc.prems by (metis Suc_lessI less_trans mod_less_divisor zero_less_Suc)
  have "mset (swap_at (Suc i) ?j xs) = mset xs"
    using mset_swap[OF j Suc.prems] by (simp add: swap_at_def)
  moreover have "i < length (swap_at (Suc i) ?j xs)" using Suc.prems by (simp add: swap_at_def)
  ultimately show ?case using Suc.IH by simp
qed simp

lemma mset_Shuffle [simp]: "mset (Shuffle rnd xs) = mset xs"
  by (cases "xs = []") (simp_all add: Shuffle_def mset_fisher_yates)

lemma mset_by_groups:
  "(\<And>i grp. mset (act i grp) = mset grp) \<Longrightarrow> mset (by_groups same act i xs) = mset xs"
proof (induction same act i xs rule: by_groups.induct)
  case (2 same act i x xs)
  have "mset (by_groups same act (i + length (x # takeWhile (same x) xs)) (dropWhile (same x) xs)) = mset (dropWhile (same x) xs)"
    by (rule "2.IH"[OF refl "2.prems"])
  then show ?case using "2.prems"
    by (simp add: Let_def) (metis mset_append takeWhile_dropWhile_id)
qed simp

lemma mset_partition: "mset (filter P xs) + mset (filter (\<lambda>x. \<not> P x) xs) = mset xs"
  by (simp add: mset_filter)

lemma mset_shuffles [simp]:
  "mset (shuffleWithinSortGroups rnd cs) = mset cs"
  "mset (shuffleWithinPriorityAndLastUsed rnd2 pr xs) = mset xs"
  "mset (shuffleWithinPriority rnd3 xs) = mset xs"
proof -
  show "mset (shuffleWithinSortGroups rnd cs) = mset cs" "mset (shuffleWithinPriority rnd3 xs) = mset xs"
    by (simp_all add: shuffleWithinSortGroups_def shuffleWithinPriority_def mset_by_groups)
  show "mset (shuffleWithinPriorityAndLastUsed rnd2 pr xs) = mset xs"
    unfolding shuffleWithinPriorityAndLastUsed_def
    by (auto intro!: mset_by_groups simp: Let_def mset_partition)
qed

lemma mset_sortCandidatesForFallback: "mset (sortCandidatesForFallback rnd pr mode xs) = mset xs"
  by (simp add: sortCandidatesForFallback_def sortAccountsByPriorityAndLastUsed_def sortAccountsByPriorityOnly_def)

section \<open>Sorted by a key\<close>

lemma set_insert_stable [simp]: "set (insert_stable lt x xs) = insert x (set xs)"
  by (induction xs) auto

lemma sorted_insert_stable:
  fixes f :: "'a \<Rightarrow> 'b::linorder"
  assumes "\<And>a b. lt a b \<longleftrightarrow> f a < f b" "sorted (map f xs)"
  shows "sorted (map f (insert_stable lt x xs))"
  using assms(2)
proof (induction xs)
  case (Cons y ys)
  then show ?case using assms(1) by (auto simp: not_less)
qed simp

lemma sorted_SliceStable:
  fixes f :: "'a \<Rightarrow> 'b::linorder"
  assumes "\<And>a b. lt a b \<longleftrightarrow> f a < f b"
  shows "sorted (map f (SliceStable lt xs))"
  by (induction xs) (simp_all add: SliceStable_def sorted_insert_stable[OF assms])

lemma sorted_coarser:
  fixes f :: "'a \<Rightarrow> 'b::linorder" and h :: "'a \<Rightarrow> 'c::linorder"
  assumes "sorted (map f xs)" "\<And>a b. f a \<le> f b \<Longrightarrow> h a \<le> h b"
  shows "sorted (map h xs)"
  using assms by (auto simp: sorted_iff_nth_mono)

lemma sorted_by_groups:
  fixes h :: "'a \<Rightarrow> 'b::linorder" and g :: "'a \<Rightarrow> 'c::linorder"
  assumes "\<And>a b. same a b \<longleftrightarrow> h a = h b" "\<And>a b. h a < h b \<Longrightarrow> g a \<le> g b"
    "\<And>i grp. mset (act i grp) = mset grp"
    "\<And>i grp k. (\<forall>a\<in>set grp. h a = k) \<Longrightarrow> sorted (map g (act i grp))"
  shows "sorted (map h xs) \<Longrightarrow> sorted (map g (by_groups same act i xs))"
proof (induction "length xs" arbitrary: i xs rule: less_induct)
  case less
  show ?case
  proof (cases xs)
    case (Cons x ys)
    let ?G = "x # takeWhile (same x) ys" and ?D = "dropWhile (same x) ys"
    let ?R = "by_groups same act (i + length ?G) ?D"
    have G: "\<forall>a\<in>set ?G. h a = h x" using set_takeWhileD assms(1) by fastforce
    have ys: "sorted (map h ys)" "\<forall>y\<in>set ys. h x \<le> h y" using less.prems Cons by auto
    have D: "sorted (map h ?D)"
      using ys(1) sorted_wrt_append[of "(\<le>)" "map h (takeWhile (same x) ys)" "map h ?D"]
      by (metis map_append takeWhile_dropWhile_id)
    have gt: "h x < h y" if y: "y \<in> set ?D" for y
    proof -
      obtain z zs where z: "?D = z # zs" using y by (cases ?D) auto
      then have "\<not> same x z" by (metis hd_dropWhile list.distinct(1) list.sel(1))
      then have "h x \<noteq> h z" by (simp add: assms(1))
      moreover have "z \<in> set ys" using z by (metis list.set_intros(1) set_dropWhileD)
      ultimately have "h x < h z" using ys(2) by (simp add: order_less_le)
      moreover have "h z \<le> h y" using D y z by auto
      ultimately show ?thesis by simp
    qed
    have "length ?D < length xs" using Cons by (simp add: le_imp_less_Suc length_dropWhile_le)
    then have R: "sorted (map g ?R)" using less.hyps D by blast
    have "mset ?R = mset ?D" by (rule mset_by_groups[OF assms(3)])
    then have "set ?R = set ?D" by (rule mset_eq_setD)
    moreover have "set (act i ?G) = set ?G" by (rule mset_eq_setD[OF assms(3)])
    ultimately have "g a \<le> g b" if "a \<in> set (act i ?G)" "b \<in> set ?R" for a b
      using that G gt assms(2) by metis
    then have "sorted (map g (act i ?G) @ map g ?R)"
      unfolding sorted_append using R assms(4)[OF G, of i] by auto
    moreover have "by_groups same act i xs = act i ?G @ ?R" using Cons by (simp add: Let_def)
    ultimately show ?thesis by simp
  qed simp
qed

section \<open>The fallback order\<close>

definition used_key :: "int option \<Rightarrow> int \<times> int" where
  "used_key t = (case t of None \<Rightarrow> (0, 0) | Some t \<Rightarrow> (1, t))"

definition used_second :: "int option \<Rightarrow> int \<times> int" where
  "used_second t = (case t of None \<Rightarrow> (0, 0) | Some t \<Rightarrow> (1, t div 1000000000))"

definition oauth_last :: "bool \<Rightarrow> gw_account \<Rightarrow> int" where
  "oauth_last preferOAuth a = (if preferOAuth \<and> ga_type a \<noteq> AccountTypeOAuth then 1 else 0)"

lemma used_second_mono: "used_key s \<le> used_key t \<Longrightarrow> used_second s \<le> used_second t"
  by (auto simp: used_key_def used_second_def zdiv_mono1 split: option.splits)

lemma sameLastUsedAt_iff: "sameLastUsedAt s t \<longleftrightarrow> used_second s = used_second t"
  by (auto simp: sameLastUsedAt_def used_second_def split: option.splits)

lemma less_last_used_iff: "less_last_used s t \<longleftrightarrow> used_key s < used_key t"
  by (auto simp: less_last_used_def used_key_def split: option.splits)

definition sort_key_full :: "bool \<Rightarrow> gw_account \<Rightarrow> int \<times> (int \<times> int) \<times> int" where
  "sort_key_full pr a = (ga_priority a, used_key (ga_last_used a),
     if ga_last_used a = None then oauth_last pr a else 0)"

lemma less_priority_last_used_iff:
  "less_priority_last_used pr a b \<longleftrightarrow> sort_key_full pr a < sort_key_full pr b"
  by (auto simp: less_priority_last_used_def sort_key_full_def used_key_def oauth_last_def split: option.splits)

text \<open>
  The key the result is sorted by: priority, the second of the last use (never used first) and,
  when OAuth accounts are preferred, these first.
\<close>

definition fallback_key :: "bool \<Rightarrow> gw_account \<Rightarrow> int \<times> (int \<times> int) \<times> int" where
  "fallback_key pr a = (ga_priority a, used_second (ga_last_used a), oauth_last pr a)"

definition group_key :: "gw_account \<Rightarrow> int \<times> (int \<times> int)" where
  "group_key a = (ga_priority a, used_second (ga_last_used a))"

lemma group_key_coarser: "sort_key_full pr a \<le> sort_key_full pr b \<Longrightarrow> group_key a \<le> group_key b"
  using used_second_mono[of "ga_last_used a" "ga_last_used b"]
  by (auto simp: sort_key_full_def group_key_def less_le)

lemma sorted_constant: "\<forall>a\<in>set xs. f a = k \<Longrightarrow> sorted (map f xs)"
  by (induction xs) auto

lemma sorted_sortAccountsByPriorityAndLastUsed:
  "sorted (map (fallback_key pr) (sortAccountsByPriorityAndLastUsed rnd pr xs))"
proof -
  let ?S = "SliceStable (less_priority_last_used pr) xs"
  have h: "sorted (map group_key ?S)"
    by (rule sorted_coarser[OF sorted_SliceStable[OF less_priority_last_used_iff] group_key_coarser])
  show ?thesis
  proof (cases "length ?S \<le> 1")
    case True
    then show ?thesis
      by (cases ?S) (auto simp: sortAccountsByPriorityAndLastUsed_def shuffleWithinPriorityAndLastUsed_def)
  next
    case False
    let ?act = "\<lambda>i grp. if length grp > 1
           then if pr
             then (let oauth = filter (\<lambda>a. ga_type a = AccountTypeOAuth) grp;
                       others = filter (\<lambda>a. ga_type a \<noteq> AccountTypeOAuth) grp
                   in (if length oauth > 1 then Shuffle (rnd i) oauth else oauth)
                      @ (if length others > 1 then Shuffle (rnd (i + length oauth)) others else others))
             else Shuffle (rnd i) grp
           else grp"
    have perm: "mset (?act i grp) = mset grp" for i grp
      by (auto simp: Let_def mset_partition)
    have part: "sorted (map (fallback_key pr) (?act i grp))" if k: "\<forall>a\<in>set grp. group_key a = k" for i grp k
    proof -
      let ?O = "filter (\<lambda>a. ga_type a = AccountTypeOAuth) grp" and ?N = "filter (\<lambda>a. ga_type a \<noteq> AccountTypeOAuth) grp"
      have key: "fallback_key pr a = (fst k, snd k, oauth_last pr a)" if "a \<in> set grp" for a
        using k that by (auto simp: fallback_key_def group_key_def)
      show ?thesis
      proof (cases pr)
        case True
        have O: "\<forall>a\<in>set xs. fallback_key pr a = (fst k, snd k, 0)" if "mset xs = mset ?O" for xs
        proof -
          have "set xs = set ?O" using that by (rule mset_eq_setD)
          then show ?thesis using key True by (simp add: oauth_last_def)
        qed
        have N: "\<forall>a\<in>set xs. fallback_key pr a = (fst k, snd k, 1)" if "mset xs = mset ?N" for xs
        proof -
          have "set xs = set ?N" using that by (rule mset_eq_setD)
          then show ?thesis using key True by (simp add: oauth_last_def)
        qed
        have cat: "sorted (map (fallback_key pr) (xs @ ys))" if "mset xs = mset ?O" "mset ys = mset ?N" for xs ys
          using sorted_constant[OF O[OF that(1)]] sorted_constant[OF N[OF that(2)]] O[OF that(1)] N[OF that(2)]
          by (auto simp: sorted_append)
        show ?thesis
        proof (cases "length grp > 1")
          case big: True
          have "sorted (map (fallback_key pr) ((if length ?O > 1 then Shuffle (rnd i) ?O else ?O)
                  @ (if length ?N > 1 then Shuffle (rnd (i + length ?O)) ?N else ?N)))"
            by (rule cat) simp_all
          then show ?thesis using True big by (simp add: Let_def)
        next
          case False
          then show ?thesis by (cases grp) auto
        qed
      next
        case False
        have "set (?act i grp) = set grp" by (rule mset_eq_setD[OF perm])
        then have "\<forall>a\<in>set (?act i grp). fallback_key pr a = (fst k, snd k, 0)"
          using key False by (simp add: oauth_last_def)
        then show ?thesis by (rule sorted_constant)
      qed
    qed
    have "sorted (map (fallback_key pr) (by_groups sameAccountGroup ?act 0 ?S))"
    proof (rule sorted_by_groups[where h = group_key, OF _ _ perm part h])
      show "sameAccountGroup a b \<longleftrightarrow> group_key a = group_key b" for a b
        by (simp add: sameAccountGroup_def group_key_def sameLastUsedAt_iff)
      show "group_key a < group_key b \<Longrightarrow> fallback_key pr a \<le> fallback_key pr b" for a b
        by (auto simp: group_key_def fallback_key_def)
    qed
    then show ?thesis using False
      by (simp add: sortAccountsByPriorityAndLastUsed_def shuffleWithinPriorityAndLastUsed_def)
  qed
qed

lemma sorted_random_fallback:
  "sorted (map ga_priority (shuffleWithinPriority rnd (sortAccountsByPriorityOnly pr xs)))"
proof -
  let ?S = "sortAccountsByPriorityOnly pr xs"
  have "sorted (map (\<lambda>a. (ga_priority a, oauth_last pr a)) ?S)"
    unfolding sortAccountsByPriorityOnly_def
    by (rule sorted_SliceStable) (auto simp: less_priority_only_def oauth_last_def)
  then have h: "sorted (map ga_priority ?S)"
    by (rule sorted_coarser) auto
  show ?thesis
  proof (cases "length ?S \<le> 1")
    case True
    then show ?thesis using h by (simp add: shuffleWithinPriority_def)
  next
    case False
    have "sorted (map ga_priority (by_groups (\<lambda>a b. ga_priority b = ga_priority a)
             (\<lambda>i grp. if length grp > 1 then Shuffle (rnd i) grp else grp) 0 ?S))"
    proof (rule sorted_by_groups[where h = ga_priority])
      fix i k and grp :: "gw_account list"
      assume k: "\<forall>a\<in>set grp. ga_priority a = k"
      have "set (if length grp > 1 then Shuffle (rnd i) grp else grp) = set grp"
        by simp (metis mset_Shuffle set_mset_mset)
      then show "sorted (map ga_priority (if length grp > 1 then Shuffle (rnd i) grp else grp))"
        using k by (intro sorted_constant[where k = k]) blast
    qed (use h in auto)
    then show ?thesis using False by (simp add: shuffleWithinPriority_def)
  qed
qed

section \<open>The layered picks as an order\<close>

text \<open>
  The layered selection as an order.  \<open>layer_rank\<close> ranks an account by priority, by the end of its
  session window (when the soonest reset is preferred), by load, by last use and by type;
  \<open>pick_next_least\<close>: each round picks an account of least rank, and \<open>try_order_ok\<close>: the rounds go
  through all accounts once, in the order of their ranks.
\<close>

section \<open>Least elements\<close>

lemma fold_min:
  fixes f :: "'a \<Rightarrow> 'b::linorder"
  shows "(\<forall>a\<in>set xs. fold (\<lambda>a m. if f a < m then f a else m) xs m0 \<le> f a)
    \<and> fold (\<lambda>a m. if f a < m then f a else m) xs m0 \<le> m0
    \<and> (fold (\<lambda>a m. if f a < m then f a else m) xs m0 = m0 \<or> fold (\<lambda>a m. if f a < m then f a else m) xs m0 \<in> f ` set xs)"
proof (induction xs arbitrary: m0)
  case (Cons x xs)
  let ?F = "\<lambda>m. fold (\<lambda>a m. if f a < m then f a else m) xs m"
  from Cons.IH[of "f x"] Cons.IH[of m0] show ?case by (cases "f x < m0") auto
qed simp

text \<open>\<open>B\<close> holds the elements of \<open>A\<close> that are least under \<open>f\<close>.\<close>

definition least_under :: "('a \<Rightarrow> 'b::linorder) \<Rightarrow> 'a set \<Rightarrow> 'a set \<Rightarrow> bool" where
  "least_under f A B \<longleftrightarrow> (\<forall>a. a \<in> B \<longleftrightarrow> a \<in> A \<and> (\<forall>b\<in>A. f a \<le> f b)) \<and> (A \<noteq> {} \<longrightarrow> B \<noteq> {})"

lemma least_under_lex:
  assumes "least_under f A B" "s \<in> B" "\<forall>b\<in>B. g s \<le> g b"
  shows "s \<in> A \<and> (\<forall>b\<in>A. (f s, g s) \<le> (f b, g b))"
proof -
  have s: "s \<in> A" "\<forall>b\<in>A. f s \<le> f b" using assms(1,2) by (auto simp: least_under_def)
  have "(f s, g s) \<le> (f b, g b)" if b: "b \<in> A" for b
  proof (cases "f s = f b")
    case True
    then have "b \<in> B" using assms(1) s b by (auto simp: least_under_def)
    then show ?thesis using True assms(3) by simp
  next
    case False
    then show ?thesis using s(2) b by (simp add: order_less_le)
  qed
  with s(1) show ?thesis by blast
qed

lemma least_under_filter:
  fixes f :: "'a \<Rightarrow> 'b::linorder"
  assumes "m \<in> f ` set xs" "\<forall>a\<in>set xs. m \<le> f a"
  shows "least_under f (set xs) (set (filter (\<lambda>a. f a = m) xs))"
proof -
  obtain a0 where a0: "a0 \<in> set xs" "f a0 = m" using assms(1) by blast
  have "(f a = m) \<longleftrightarrow> (\<forall>b\<in>set xs. f a \<le> f b)" if a: "a \<in> set xs" for a
  proof
    show "f a = m \<Longrightarrow> \<forall>b\<in>set xs. f a \<le> f b" using assms(2) by blast
    assume "\<forall>b\<in>set xs. f a \<le> f b"
    then have "f a \<le> m" using a0 by blast
    then show "f a = m" using assms(2) a by (intro antisym) blast+
  qed
  then have "\<forall>a. a \<in> set (filter (\<lambda>a. f a = m) xs) \<longleftrightarrow> a \<in> set xs \<and> (\<forall>b\<in>set xs. f a \<le> f b)" by auto
  moreover have "set (filter (\<lambda>a. f a = m) xs) \<noteq> {}" using a0 by auto
  ultimately show ?thesis unfolding least_under_def by (intro conjI impI)
qed

section \<open>The filters\<close>

lemma filterByMinPriority_least:
  "least_under (\<lambda>c. ga_priority (fst c)) (set cs) (set (filterByMinPriority cs))"
proof (cases cs)
  case (Cons c rest)
  let ?f = "\<lambda>c :: cand. ga_priority (fst c)"
  let ?m = "fold (\<lambda>a m. if ?f a < m then ?f a else m) rest (?f c)"
  have "?m \<in> ?f ` set cs" "\<forall>a\<in>set cs. ?m \<le> ?f a" using fold_min[of rest ?f "?f c"] Cons by auto
  from least_under_filter[OF this] show ?thesis using Cons by (simp add: filterByMinPriority_def Let_def)
qed (simp add: filterByMinPriority_def least_under_def)

lemma filterByMinLoadRate_least:
  "least_under (\<lambda>c. LoadRate (snd c)) (set cs) (set (filterByMinLoadRate cs))"
proof (cases cs)
  case (Cons c rest)
  let ?f = "\<lambda>c :: cand. LoadRate (snd c)"
  let ?m = "fold (\<lambda>a m. if ?f a < m then ?f a else m) rest (?f c)"
  have "?m \<in> ?f ` set cs" "\<forall>a\<in>set cs. ?m \<le> ?f a" using fold_min[of rest ?f "?f c"] Cons by auto
  from least_under_filter[OF this] show ?thesis using Cons by (simp add: filterByMinLoadRate_def Let_def)
qed (simp add: filterByMinLoadRate_def least_under_def)

text \<open>Accounts in a running session window first, by its end; the others after them.\<close>

definition window_key :: "int \<Rightarrow> cand \<Rightarrow> int \<times> int" where
  "window_key now c = (case ga_window_end (fst c) of None \<Rightarrow> (1, 0) | Some e \<Rightarrow> if now < e then (0, e) else (1, 0))"

lemma window_key_active: "fst (window_key now c) = 0 \<longleftrightarrow> (\<exists>e. ga_window_end (fst c) = Some e \<and> now < e)"
  by (auto simp: window_key_def split: option.splits)

lemma soonest_fold:
  "(soonest_end now cs m = None \<longleftrightarrow> m = None \<and> (\<forall>c\<in>set cs. fst (window_key now c) = 1))
    \<and> (\<forall>t. soonest_end now cs m = Some t \<longrightarrow> (m = Some t \<or> (\<exists>c\<in>set cs. window_key now c = (0, t)))
         \<and> (\<forall>c\<in>set cs. (0, t) \<le> window_key now c) \<and> (\<forall>u. m = Some u \<longrightarrow> t \<le> u))"
  unfolding soonest_end_def
proof (induction cs arbitrary: m)
  case (Cons c cs)
  show ?case
  proof (cases "ga_window_end (fst c)")
    case None
    then show ?thesis using Cons.IH[of m] by (auto simp: window_key_def)
  next
    case (Some e)
    show ?thesis
    proof (cases "now < e")
      case False
      then show ?thesis using Some Cons.IH[of m] by (auto simp: window_key_def)
    next
      case True
      then have k: "window_key now c = (0, e)" using Some by (simp add: window_key_def)
      show ?thesis
      proof (cases m)
        case None
        then show ?thesis using Some True k Cons.IH[of "Some e"] by auto
      next
        case (Some t)
        then show ?thesis
          using \<open>ga_window_end (fst c) = Some e\<close> True k Cons.IH[of "Some e"] Cons.IH[of "Some t"]
          by (cases "e < t") auto
      qed
    qed
  qed
qed simp

lemma filterBySoonestReset_least:
  "least_under (window_key now) (set cs) (set (filterBySoonestReset now cs))"
proof (cases "length cs \<le> 1")
  case True
  then show ?thesis by (cases cs) (auto simp: filterBySoonestReset_def least_under_def)
next
  case False
  note fold = soonest_fold[of now cs None]
  show ?thesis
  proof (cases "soonest_end now cs None")
    case None
    then have "\<forall>c\<in>set cs. fst (window_key now c) = 1" using fold by simp
    then have "\<forall>c\<in>set cs. window_key now c = (1, 0)"
      by (auto simp: window_key_def split: option.splits if_splits)
    moreover have "filterBySoonestReset now cs = cs" using False None by (simp add: filterBySoonestReset_def)
    ultimately show ?thesis by (auto simp: least_under_def)
  next
    case (Some t)
    have w: "(case ga_window_end (fst a) of None \<Rightarrow> False | Some e \<Rightarrow> now < e \<and> e = t) \<longleftrightarrow> window_key now a = (0, t)"
      for a :: cand
      by (auto simp: window_key_def split: option.splits)
    have "filterBySoonestReset now cs = filter (\<lambda>a. window_key now a = (0, t)) cs"
      using False Some by (simp add: filterBySoonestReset_def w)
    moreover have "least_under (window_key now) (set cs) (set (filter (\<lambda>a. window_key now a = (0, t)) cs))"
      by (rule least_under_filter) (use fold Some in force)+
    ultimately show ?thesis by simp
  qed
qed

section \<open>The least recently used\<close>

definition lru_key :: "bool \<Rightarrow> cand \<Rightarrow> (int \<times> int) \<times> int" where
  "lru_key pr c = (used_key (ga_last_used (fst c)), oauth_last pr (fst c))"

lemma lru_scan_nil: "lru_scan cs m = (True, m') \<Longrightarrow> \<exists>c\<in>set cs. ga_last_used (fst c) = None"
  by (induction cs m rule: lru_scan.induct) (auto split: option.splits)

definition scan_least :: "int option set \<Rightarrow> int option \<Rightarrow> int option \<Rightarrow> bool" where
  "scan_least S m m' \<longleftrightarrow> None \<notin> S \<and> (m' = None \<longleftrightarrow> S = {} \<and> m = None) \<and> m' \<in> insert m S
     \<and> (\<forall>t u. m' = Some t \<longrightarrow> Some u \<in> insert m S \<longrightarrow> t \<le> u)"

lemma scan_least_step:
  assumes r: "scan_least S (case m of None \<Rightarrow> Some t | Some u \<Rightarrow> if t < u then Some t else m) m'"
  shows "scan_least (insert (Some t) S) m m'"
proof -
  have "m' \<noteq> None" using r by (cases m) (auto simp: scan_least_def split: if_splits)
  then obtain v where v: "m' = Some v" by blast
  have "None \<notin> S" "Some v \<in> insert m (insert (Some t) S)"
    using r v by (auto simp: scan_least_def split: option.splits if_splits)
  moreover have "v \<le> t" "\<forall>u. Some u \<in> S \<longrightarrow> v \<le> u" "\<forall>u. m = Some u \<longrightarrow> v \<le> u"
    using r v by (auto simp: scan_least_def split: option.splits if_splits)
  ultimately show ?thesis using v by (auto simp: scan_least_def)
qed

lemma lru_scan_least:
  "lru_scan cs m = (False, m') \<Longrightarrow> scan_least ((\<lambda>c. ga_last_used (fst c)) ` set cs) m m'"
proof (induction cs m rule: lru_scan.induct)
  case (2 c cs m)
  then obtain t where t: "ga_last_used (fst c) = Some t" by (cases "ga_last_used (fst c)") auto
  have "lru_scan cs (case m of None \<Rightarrow> Some t | Some u \<Rightarrow> if t < u then Some t else m) = (False, m')"
    using 2(2) t by simp
  then show ?case using scan_least_step[OF 2(1)[OF t]] t by simp
qed (simp add: scan_least_def)

lemma selectByLRU_least:
  assumes "cs \<noteq> []"
  shows "\<exists>s. selectByLRU rnd cs pr = Some s \<and> s \<in> set cs \<and> (\<forall>b\<in>set cs. lru_key pr s \<le> lru_key pr b)"
proof (cases "length cs = 1")
  case True
  then show ?thesis by (cases cs) (auto simp: selectByLRU_def)
next
  case False
  let ?u = "\<lambda>i. ga_last_used (fst (cs ! i))"
  obtain hasNil minTime where scan: "lru_scan cs None = (hasNil, minTime)" by fastforce
  define I where "I = filter (\<lambda>i. if hasNil then ?u i = None else ?u i \<noteq> None \<and> ?u i = minTime) [0..<length cs]"
  define O' where "O' = filter (\<lambda>i. ga_type (fst (cs ! i)) = AccountTypeOAuth) I"
  have least: "least_under (\<lambda>i. used_key (?u i)) (set [0..<length cs]) (set I)"
  proof (cases hasNil)
    case True
    then obtain c where "c \<in> set cs" "ga_last_used (fst c) = None" using lru_scan_nil[of cs None minTime] scan by auto
    then obtain i where i: "i < length cs" "?u i = None" by (metis in_set_conv_nth)
    have "(used_key u = (0, 0)) = (u = None)" for u by (simp add: used_key_def split: option.splits)
    then have "I = filter (\<lambda>i. used_key (?u i) = (0, 0)) [0..<length cs]"
      using True unfolding I_def by simp
    moreover have "(0, 0) \<in> (\<lambda>i. used_key (?u i)) ` set [0..<length cs]"
      using i by (auto simp: used_key_def image_iff intro!: bexI[of _ i])
    moreover have "\<forall>j\<in>set [0..<length cs]. (0, 0) \<le> used_key (?u j)"
      by (simp add: used_key_def split: option.splits)
    ultimately show ?thesis using least_under_filter[of "(0, 0)" "\<lambda>i. used_key (?u i)" "[0..<length cs]"] by simp
  next
    case nil: False
    then have s: "scan_least ((\<lambda>c. ga_last_used (fst c)) ` set cs) None minTime" using lru_scan_least scan by simp
    then obtain t where t: "minTime = Some t" using assms by (cases minTime) (auto simp: scan_least_def)
    then have "Some t \<in> (\<lambda>c. ga_last_used (fst c)) ` set cs" using s by (simp add: scan_least_def)
    then obtain c where c: "c \<in> set cs" "ga_last_used (fst c) = Some t" by (metis imageE)
    then obtain i where i: "i < length cs" "?u i = Some t" by (metis in_set_conv_nth)
    have le: "t \<le> u" if "Some u \<in> (\<lambda>c. ga_last_used (fst c)) ` set cs" for u
      using s t that unfolding scan_least_def by (elim conjE) simp
    have some: "\<exists>u. ?u j = Some u \<and> t \<le> u" if j: "j < length cs" for j
    proof -
      have m: "cs ! j \<in> set cs" using j by simp
      have "None \<notin> (\<lambda>c. ga_last_used (fst c)) ` set cs" using s unfolding scan_least_def by (rule conjunct1)
      moreover have "?u j \<in> (\<lambda>c. ga_last_used (fst c)) ` set cs" using m by (rule imageI)
      ultimately have "?u j \<noteq> None" by metis
      then obtain u where u: "?u j = Some u" by blast
      have "Some u \<in> (\<lambda>c. ga_last_used (fst c)) ` set cs" using m u by (intro image_eqI[of _ _ "cs ! j"]) simp_all
      then have "t \<le> u" by (rule le)
      with u show ?thesis by (intro exI conjI)
    qed
    have "(used_key u = (1, t)) = (u = Some t)" for u by (simp add: used_key_def split: option.splits)
    then have "I = filter (\<lambda>i. used_key (?u i) = (1, t)) [0..<length cs]"
      using nil t unfolding I_def by (intro filter_cong) auto
    moreover have "(1, t) \<in> (\<lambda>i. used_key (?u i)) ` set [0..<length cs]"
      using i by (auto simp: used_key_def image_iff intro!: bexI[of _ i])
    moreover have "\<forall>j\<in>set [0..<length cs]. (1, t) \<le> used_key (?u j)"
      using some by (fastforce simp: used_key_def)
    ultimately show ?thesis using least_under_filter[of "(1, t)" "\<lambda>i. used_key (?u i)" "[0..<length cs]"] by simp
  qed
  then have I: "I \<noteq> []" "\<forall>i\<in>set I. i < length cs" using assms by (auto simp: least_under_def)
  define J where "J = (if pr \<and> O' \<noteq> [] then O' else I)"
  have J: "J \<noteq> []" "set J \<subseteq> set I" using I by (auto simp: J_def O'_def)
  have best: "\<forall>b\<in>set I. oauth_last pr (fst (cs ! i)) \<le> oauth_last pr (fst (cs ! b))" if "i \<in> set J" for i
    using that by (cases "pr \<and> O' \<noteq> []") (auto simp: J_def O'_def oauth_last_def filter_empty_conv)
  have "\<exists>i\<in>set J. selectByLRU rnd cs pr = Some (cs ! i)"
  proof (cases "length I = 1")
    case True
    then have "J = I" using J by (cases I) (auto simp: J_def O'_def split: if_splits)
    moreover have "selectByLRU rnd cs pr = Some (cs ! (I ! 0))"
      using assms False scan True by (simp add: selectByLRU_def I_def Let_def)
    ultimately show ?thesis using I(1) by (metis length_greater_0_conv nth_mem)
  next
    case many: False
    have "selectByLRU rnd cs pr = Some (cs ! (J ! (rnd mod length J)))"
      using assms False scan many by (simp add: selectByLRU_def I_def O'_def J_def Let_def)
    moreover have "J ! (rnd mod length J) \<in> set J" using J(1) by simp
    ultimately show ?thesis by blast
  qed
  then obtain i where i: "i \<in> set J" "selectByLRU rnd cs pr = Some (cs ! i)" by blast
  have "i \<in> set I" using i(1) J(2) by blast
  from least_under_lex[OF least this best[OF i(1)]]
  have "i < length cs" "\<forall>b<length cs. lru_key pr (cs ! i) \<le> lru_key pr (cs ! b)" by (auto simp: lru_key_def)
  moreover from this(2) have "\<forall>b\<in>set cs. lru_key pr (cs ! i) \<le> lru_key pr b" by (metis in_set_conv_nth)
  ultimately show ?thesis using i(2) by auto
qed

section \<open>The rounds\<close>

definition layer_rank :: "int \<Rightarrow> bool \<Rightarrow> bool \<Rightarrow> cand \<Rightarrow> int \<times> (int \<times> int) \<times> int \<times> (int \<times> int) \<times> int" where
  "layer_rank now soonest pr c =
     (ga_priority (fst c), if soonest then window_key now c else (0, 0), LoadRate (snd c), lru_key pr c)"

lemma least_under_all: "least_under (\<lambda>c. k) A A"
  by (simp add: least_under_def)

lemma pick_next_least:
  assumes "cs \<noteq> []"
  shows "\<exists>s. pick_next rnd now soonest pr cs = Some s \<and> s \<in> set cs
    \<and> (\<forall>b\<in>set cs. layer_rank now soonest pr s \<le> layer_rank now soonest pr b)"
proof -
  let ?B = "filterByMinPriority cs"
  let ?C = "if soonest then filterBySoonestReset now ?B else ?B"
  let ?D = "filterByMinLoadRate ?C"
  let ?w = "\<lambda>c. if soonest then window_key now c else (0, 0)"
  note B = filterByMinPriority_least[of cs]
  have C: "least_under ?w (set ?B) (set ?C)"
    using filterBySoonestReset_least[of now ?B] least_under_all[of "(0, 0) :: int \<times> int" "set ?B"] by (cases soonest) auto
  note D = filterByMinLoadRate_least[of ?C]
  have "?D \<noteq> []" using assms B C D by (auto simp: least_under_def)
  then obtain s where s: "selectByLRU rnd ?D pr = Some s" "s \<in> set ?D" "\<forall>b\<in>set ?D. lru_key pr s \<le> lru_key pr b"
    using selectByLRU_least by metis
  from least_under_lex[OF D s(2,3)] have 1: "s \<in> set ?C"
    "\<forall>b\<in>set ?C. (LoadRate (snd s), lru_key pr s) \<le> (LoadRate (snd b), lru_key pr b)" by auto
  from least_under_lex[OF C 1(1), of "\<lambda>c. (LoadRate (snd c), lru_key pr c)"] 1(2) have 2: "s \<in> set ?B"
    "\<forall>b\<in>set ?B. (?w s, LoadRate (snd s), lru_key pr s) \<le> (?w b, LoadRate (snd b), lru_key pr b)" by auto
  from least_under_lex[OF B 2(1), of "\<lambda>c. (?w c, LoadRate (snd c), lru_key pr c)"] 2(2)
  have "s \<in> set cs" "\<forall>b\<in>set cs. layer_rank now soonest pr s \<le> layer_rank now soonest pr b"
    by (auto simp: layer_rank_def)
  then show ?thesis using s(1) by (simp add: pick_next_def Let_def)
qed

text \<open>The accounts the loop of layer 2 tries, in order, when every attempt fails.\<close>

function try_order :: "(nat \<Rightarrow> nat) \<Rightarrow> int \<Rightarrow> bool \<Rightarrow> bool \<Rightarrow> cand list \<Rightarrow> cand list" where
  "try_order rnd now soonest pr available =
     (if available = [] then []
      else case pick_next (rnd (length available)) now soonest pr available of
        None \<Rightarrow> []
      | Some s \<Rightarrow> s # try_order rnd now soonest pr (remove_tried (ga_id (fst s)) available))"
  by pat_completeness auto

lemma remove_tried_shorter: "s \<in> set cs \<Longrightarrow> length (remove_tried (ga_id (fst s)) cs) < length cs"
  unfolding remove_tried_def by (rule length_filter_less) auto

lemma pick_next_member: "pick_next rnd now soonest pr cs = Some s \<Longrightarrow> cs \<noteq> [] \<Longrightarrow> s \<in> set cs"
  using pick_next_least[of cs rnd now soonest pr] by auto

termination try_order
  by (relation "measure (\<lambda>(rnd, now, soonest, pr, cs). length cs)")
    (auto intro: remove_tried_shorter pick_next_member)

declare try_order.simps [simp del]

lemma mset_remove_tried:
  assumes "distinct (map (\<lambda>c. ga_id (fst c)) cs)" "s \<in> set cs"
  shows "add_mset s (mset (remove_tried (ga_id (fst s)) cs)) = mset cs"
  using assms
proof (induction cs)
  case (Cons c cs)
  have rest: "remove_tried (ga_id (fst c)) cs = cs" if "c = s"
    using Cons.prems(1) that by (auto simp: remove_tried_def filter_id_conv image_iff)
  show ?case
  proof (cases "c = s")
    case True
    then show ?thesis using rest by (simp add: remove_tried_def)
  next
    case False
    then have "s \<in> set cs" "ga_id (fst c) \<noteq> ga_id (fst s)" using Cons.prems by (auto simp: image_iff)
    then show ?thesis using Cons False by (simp add: remove_tried_def)
  qed
qed simp

lemma try_order_ok:
  "distinct (map (\<lambda>c. ga_id (fst c)) cs) \<Longrightarrow>
   mset (try_order rnd now soonest pr cs) = mset cs
     \<and> sorted (map (layer_rank now soonest pr) (try_order rnd now soonest pr cs))"
proof (induction rnd now soonest pr cs rule: try_order.induct)
  case (1 rnd now soonest pr cs)
  show ?case
  proof (cases "cs = []")
    case True
    then show ?thesis by (simp add: try_order.simps)
  next
    case False
    obtain s where s: "pick_next (rnd (length cs)) now soonest pr cs = Some s" "s \<in> set cs"
        "\<forall>b\<in>set cs. layer_rank now soonest pr s \<le> layer_rank now soonest pr b"
      using pick_next_least[OF False] by metis
    let ?R = "remove_tried (ga_id (fst s)) cs"
    have eq: "try_order rnd now soonest pr cs = s # try_order rnd now soonest pr ?R"
      using False s(1) by (subst try_order.simps) simp
    have "distinct (map (\<lambda>c. ga_id (fst c)) ?R)"
      using "1.prems" by (auto simp: remove_tried_def distinct_map_filter)
    from "1.IH"[OF False s(1) this]
    have R: "mset (try_order rnd now soonest pr ?R) = mset ?R" "sorted (map (layer_rank now soonest pr) (try_order rnd now soonest pr ?R))"
      by auto
    have "set (try_order rnd now soonest pr ?R) \<subseteq> set cs"
      using mset_eq_setD[OF R(1)] by (auto simp: remove_tried_def)
    then show ?thesis
      using R s(3) mset_remove_tried[OF "1.prems" s(2)] by (auto simp: eq)
  qed
qed

end
