(* ===== verification/Account_Selection.thy ===== *)
theory Account_Selection
  imports Scheduling_Order Concurrency_Service Session_Limit Counters
begin

text \<open>
  \<open>selectAccountWithLoadAwareness\<close> (\<open>service/gateway_scheduling.go\<close>) from the point where the group,
  the platform and the schedulable accounts are known and load batches are enabled: the gates an
  account passes, slot and proxy admission (\<open>account_proxy_routing.go\<close>), session registration, and
  the layers (routed accounts, sticky account, load-aware order, queueing).

  The services it consults are fields of \<open>sel_env\<close>: model support, channel restriction, profit
  control, model-level rate limits, the scheduler snapshot, the load batch and its cache
  (\<open>Load_Cache\<close>), usage statistics, and the maps its prefetches left in the context.  The whole
  selection happens at one instant \<open>sv_now\<close>.
\<close>

section \<open>The request and its environment\<close>

record wait_plan =
  wp_account :: id
  wp_max :: int
  wp_timeout :: int
  wp_waiting :: int

record selection =
  sel_account :: gw_account
  sel_acquired :: bool
  sel_release :: "release_fn option"
  sel_wait :: "wait_plan option"

record sched_cfg =
  StickySessionMaxWaiting :: int
  StickySessionWaitTimeout :: int
  FallbackWaitTimeout :: int
  FallbackMaxWaiting :: int
  FallbackSelectionMode :: string
  PreferSoonestReset :: bool

text \<open>The places that shuffle draw from streams of their own.\<close>

datatype shuffle_site = RoutedShuffle | LegacyShuffle | FallbackShuffle

record 's sel_env =
  sv_redis :: "'s redis"
  sv_slots :: concurrencyCache
  sv_perf :: "'s perf"
  sv_gate :: "'s gate option"
  sv_sessions :: "sessionLimitCache option"
  sv_rpm :: bool
  sv_snapshot :: "(id \<Rightarrow> ('s, gw_account option) prog) option"
  sv_loads :: "(id \<times> int) list \<Rightarrow> ('s, id \<Rightarrow> load_info option) prog"
  sv_stats :: "id \<Rightarrow> int \<Rightarrow> ('s, rat) prog"
  sv_parse_cost :: "string \<Rightarrow> rat option"
  sv_print_cost :: "rat \<Rightarrow> string"
  sv_window_prefetch :: "id \<Rightarrow> rat option"
  sv_rpm_prefetch :: "id \<Rightarrow> int option"
  sv_acct :: acct_env
  sv_now :: int
  sv_cfg :: sched_cfg
  sv_profit_gate :: bool
  sv_profit :: "gw_account \<Rightarrow> bool"
  sv_model :: "gw_account \<Rightarrow> bool"
  sv_channel :: "gw_account \<Rightarrow> bool"
  sv_model_limits :: "gw_account \<Rightarrow> bool"
  sv_clear_sticky :: "gw_account \<Rightarrow> bool"
  sv_strict :: "id list option"
  sv_pick :: "nat \<Rightarrow> nat"
  sv_shuffle :: "shuffle_site \<Rightarrow> nat \<Rightarrow> nat \<Rightarrow> nat"

record sel_request =
  rq_group :: id
  rq_session :: string
  rq_excluded :: "id list"
  rq_platform :: string
  rq_mixed :: bool
  rq_routing :: "id list"
  rq_prefetched :: id
  rq_accounts :: "gw_account list"

definition ErrNoAvailableAccounts :: err where
  "ErrNoAvailableAccounts = ErrInvalid ''no available accounts''"
definition ErrStrictFailoverOwnerBound :: err where
  "ErrStrictFailoverOwnerBound = ErrInvalid ''strict failover owner bound''"

section \<open>Gates\<close>

definition strictFailoverAllows :: "'s sel_env \<Rightarrow> id \<Rightarrow> bool" where
  "strictFailoverAllows V i = (case sv_strict V of None \<Rightarrow> True | Some allowed \<Rightarrow> i \<in> set allowed)"

definition isAccountAllowedForPlatform :: "gw_account \<Rightarrow> string \<Rightarrow> bool \<Rightarrow> bool" where
  "isAccountAllowedForPlatform a platform useMixed =
     (if useMixed
      then if ga_platform a = platform then True
           else ga_platform a = PlatformAntigravity \<and> IsMixedSchedulingEnabled a
      else ga_platform a = platform)"

definition isAccountSchedulableForSelection :: "'s sel_env \<Rightarrow> gw_account \<Rightarrow> bool" where
  "isAccountSchedulableForSelection V a = IsSchedulable (sv_acct V) (sv_now V) a"

definition isAccountSchedulableForModelSelection :: "'s sel_env \<Rightarrow> gw_account \<Rightarrow> bool" where
  "isAccountSchedulableForModelSelection V a \<longleftrightarrow> strictFailoverAllows V (ga_id a) \<and> sv_model_limits V a"

definition isAccountSchedulableForQuota :: "'s sel_env \<Rightarrow> gw_account \<Rightarrow> bool" where
  "isAccountSchedulableForQuota V a =
     (if \<not> SupportsAccountQuota a then True else \<not> IsQuotaExceeded (sv_acct V) (sv_now V) a)"

definition zone_admits :: "WindowCostSchedulability \<Rightarrow> bool \<Rightarrow> bool" where
  "zone_admits z isSticky =
     (case z of WindowCostSchedulable \<Rightarrow> True | WindowCostStickyOnly \<Rightarrow> isSticky | WindowCostNotSchedulable \<Rightarrow> False)"

definition windowCostFromPrefetchContext :: "'s sel_env \<Rightarrow> id \<Rightarrow> rat option" where
  "windowCostFromPrefetchContext V i = (if i \<le> 0 then None else sv_window_prefetch V i)"

definition cached_window_cost :: "'s sel_env \<Rightarrow> id \<Rightarrow> ('s, rat option) prog" where
  "cached_window_cost V i =
     (case sv_sessions V of
        None \<Rightarrow> returnW None
      | Some _ \<Rightarrow> bindW (catchW (GetWindowCost (sv_redis V) (sv_parse_cost V) 0 i)) (\<lambda>r. case r of
            Inl _ \<Rightarrow> returnW None
          | Inr (cost, hit) \<Rightarrow> returnW (if hit then Some cost else None)))"

definition isAccountSchedulableForWindowCost :: "'s sel_env \<Rightarrow> gw_account \<Rightarrow> bool \<Rightarrow> ('s, bool) prog" where
  "isAccountSchedulableForWindowCost V a isSticky =
     (if \<not> IsAnthropicOAuthOrSetupToken a then returnW True
      else if GetWindowCostLimit (sv_acct V) a \<le> 0 then returnW True
      else
        (let decide = (\<lambda>cost. returnW (zone_admits (CheckWindowCostSchedulability (sv_acct V) a cost) isSticky))
         in case windowCostFromPrefetchContext V (ga_id a) of
              Some cost \<Rightarrow> decide cost
            | None \<Rightarrow> bindW (cached_window_cost V (ga_id a)) (\<lambda>hit. case hit of
                Some cost \<Rightarrow> decide cost
              | None \<Rightarrow>
                  bindW (catchW (sv_stats V (ga_id a) (GetCurrentWindowStartTime (sv_acct V) (sv_now V) a))) (\<lambda>r. case r of
                    Inl _ \<Rightarrow> returnW True
                  | Inr cost \<Rightarrow>
                      bindW (if sv_sessions V = None then returnW ()
                             else tryW (SetWindowCost (sv_redis V) (sv_print_cost V) (ga_id a) cost))
                        (\<lambda>_. decide cost)))))"

definition isAccountSchedulableForRPM :: "'s sel_env \<Rightarrow> gw_account \<Rightarrow> bool \<Rightarrow> ('s, bool) prog" where
  "isAccountSchedulableForRPM V a isSticky =
     (if \<not> IsAnthropicOAuthOrSetupToken a then returnW True
      else if GetBaseRPM (sv_acct V) a \<le> 0 then returnW True
      else bindW (case sv_rpm_prefetch V (ga_id a) of
               Some n \<Rightarrow> returnW n
             | None \<Rightarrow> if sv_rpm V
                 then bindW (catchW (GetRPM (sv_redis V) (ga_id a))) (\<lambda>r. returnW (case r of Inl _ \<Rightarrow> 0 | Inr n \<Rightarrow> n))
                 else returnW 0)
        (\<lambda>currentRPM. returnW (zone_admits (CheckRPMSchedulability (sv_acct V) a currentRPM) isSticky)))"

text \<open>The gates before the window cost, in the order of the filter loops.\<close>

definition basic_gates :: "'s sel_env \<Rightarrow> sel_request \<Rightarrow> gw_account \<Rightarrow> bool" where
  "basic_gates V rq a \<longleftrightarrow> isAccountSchedulableForSelection V a \<and> sv_profit V a
     \<and> isAccountAllowedForPlatform a (rq_platform rq) (rq_mixed rq) \<and> sv_model V a"

definition pure_gates :: "'s sel_env \<Rightarrow> sel_request \<Rightarrow> gw_account \<Rightarrow> bool" where
  "pure_gates V rq a \<longleftrightarrow> basic_gates V rq a \<and> \<not> sv_channel V a
     \<and> isAccountSchedulableForModelSelection V a \<and> isAccountSchedulableForQuota V a"

definition candidate_gates :: "'s sel_env \<Rightarrow> sel_request \<Rightarrow> gw_account \<Rightarrow> ('s, bool) prog" where
  "candidate_gates V rq a =
     (if \<not> pure_gates V rq a then returnW False
      else bindW (isAccountSchedulableForWindowCost V a False) (\<lambda>ok.
        if \<not> ok then returnW False else isAccountSchedulableForRPM V a False))"

fun filterW :: "('a \<Rightarrow> ('s, bool) prog) \<Rightarrow> 'a list \<Rightarrow> ('s, 'a list) prog" where
  "filterW g [] = returnW []"
| "filterW g (x # xs) = bindW (g x) (\<lambda>ok. bindW (filterW g xs) (\<lambda>ys. returnW (if ok then x # ys else ys)))"

section \<open>Sticky sessions\<close>

definition stickySessionPrefix :: key where
  "stickySessionPrefix = ''sticky_session:''"

definition stickySessionTTL :: int where
  "stickySessionTTL = 3600"

definition buildSessionKey :: "id \<Rightarrow> string \<Rightarrow> key" where
  "buildSessionKey groupID sessionHash = stickySessionPrefix @ format_int groupID @ '':'' @ sessionHash"

definition GetSessionAccountID :: "'s redis \<Rightarrow> id \<Rightarrow> string \<Rightarrow> ('s, id) prog" where
  "GetSessionAccountID R groupID sessionHash =
     bindW (query (\<lambda>s. r_get R s (buildSessionKey groupID sessionHash)))
       (\<lambda>v. case v of None \<Rightarrow> failW (ErrInvalid ''sticky session not found'')
          | Some t \<Rightarrow> (case parse_int t of None \<Rightarrow> failW ErrRedis | Some n \<Rightarrow> returnW n))"

definition SetSessionAccountID :: "'s redis \<Rightarrow> id \<Rightarrow> string \<Rightarrow> id \<Rightarrow> ('s, unit) prog" where
  "SetSessionAccountID R groupID sessionHash accountID =
     update (\<lambda>s. r_set R s (buildSessionKey groupID sessionHash) (format_int accountID) (Some (stickySessionTTL * 1000)))"

definition RefreshSessionTTL :: "'s redis \<Rightarrow> id \<Rightarrow> string \<Rightarrow> ('s, unit) prog" where
  "RefreshSessionTTL R groupID sessionHash =
     update (\<lambda>s. r_expire R s (buildSessionKey groupID sessionHash) stickySessionTTL)"

definition DeleteSessionAccountID :: "'s redis \<Rightarrow> id \<Rightarrow> string \<Rightarrow> ('s, unit) prog" where
  "DeleteSessionAccountID R groupID sessionHash = update (\<lambda>s. r_del R s (buildSessionKey groupID sessionHash))"

definition BindStickySession :: "'s redis \<Rightarrow> id \<Rightarrow> string \<Rightarrow> id \<Rightarrow> ('s, unit) prog" where
  "BindStickySession R groupID sessionHash accountID =
     (if sessionHash = [] \<or> accountID \<le> 0 then returnW ()
      else SetSessionAccountID R groupID sessionHash accountID)"

definition bindGatewayStickySessionDuringSelection :: "'s sel_env \<Rightarrow> sel_request \<Rightarrow> id \<Rightarrow> ('s, unit) prog" where
  "bindGatewayStickySessionDuringSelection V rq accountID =
     (if sv_profit_gate V then returnW ()
      else BindStickySession (sv_redis V) (rq_group rq) (rq_session rq) accountID)"

definition stickyAccountID :: "'s sel_env \<Rightarrow> sel_request \<Rightarrow> ('s, id) prog" where
  "stickyAccountID V rq =
     (if rq_prefetched rq > 0 then returnW (rq_prefetched rq)
      else if rq_session rq = [] then returnW 0
      else bindW (catchW (GetSessionAccountID (sv_redis V) (rq_group rq) (rq_session rq)))
        (\<lambda>r. returnW (case r of Inl _ \<Rightarrow> 0 | Inr i \<Rightarrow> i)))"

definition checkAndRegisterSession :: "'s sel_env \<Rightarrow> gw_account \<Rightarrow> string \<Rightarrow> ('s, bool) prog" where
  "checkAndRegisterSession V a sessionID =
     (if \<not> IsAnthropicOAuthOrSetupToken a then returnW True
      else if GetMaxSessions (sv_acct V) a \<le> 0 \<or> sessionID = [] then returnW True
      else case sv_sessions V of
        None \<Rightarrow> returnW True
      | Some sc \<Rightarrow>
          bindW (catchW (RegisterSession (sv_redis V) sc (ga_id a) sessionID (GetMaxSessions (sv_acct V) a)
                   (GetSessionIdleTimeoutMinutes (sv_acct V) a * 60 * 1000000000)))
            (\<lambda>r. returnW (case r of
                Inl _ \<Rightarrow> True
              | Inr (allowed, e) \<Rightarrow> if e \<noteq> None then True else allowed)))"

definition ReleaseAccountSession :: "'s sel_env \<Rightarrow> gw_account \<Rightarrow> string \<Rightarrow> ('s, unit) prog" where
  "ReleaseAccountSession V a sessionID =
     (if sv_sessions V = None \<or> sessionID = [] \<or> \<not> IsAnthropicOAuthOrSetupToken a
         \<or> GetMaxSessions (sv_acct V) a \<le> 0
      then returnW ()
      else tryW (UnregisterSession (sv_redis V) (ga_id a) sessionID))"

section \<open>Admission\<close>

text \<open>Programs of the service: a result or an error, with the process state after.\<close>

definition retS :: "'a \<Rightarrow> proc \<Rightarrow> ('s, 'a) svc" where
  "retS a p = returnW (Inr a, p)"

definition errS :: "err \<Rightarrow> proc \<Rightarrow> ('s, 'a) svc" where
  "errS e p = returnW (Inl e, p)"

definition liftS :: "('s, 'a) prog \<Rightarrow> proc \<Rightarrow> ('s, 'a) svc" where
  "liftS q p = bindW (catchW q) (\<lambda>r. returnW (r, p))"

definition bindS :: "(proc \<Rightarrow> ('s, 'a) svc) \<Rightarrow> ('a \<Rightarrow> proc \<Rightarrow> ('s, 'b) svc) \<Rightarrow> proc \<Rightarrow> ('s, 'b) svc" where
  "bindS m k p = bindW (m p) (\<lambda>(r, p). case r of Inl e \<Rightarrow> returnW (Inl e, p) | Inr a \<Rightarrow> k a p)"

definition orS :: "(proc \<Rightarrow> ('s, 'a option) svc) \<Rightarrow> (proc \<Rightarrow> ('s, 'a option) svc) \<Rightarrow> proc \<Rightarrow> ('s, 'a option) svc" where
  "orS m k = bindS m (\<lambda>r. case r of Some x \<Rightarrow> retS (Some x) | None \<Rightarrow> k)"

definition releaseS :: "'s sel_env \<Rightarrow> release_fn option \<Rightarrow> proc \<Rightarrow> ('s, unit) svc" where
  "releaseS V rf p = (case rf of None \<Rightarrow> returnW (Inr (), p)
     | Some f \<Rightarrow> bindW (run_release (sv_redis V) (sv_slots V) f p) (\<lambda>p. returnW (Inr (), p)))"

definition RouteAccount :: "'s sel_env \<Rightarrow> AcquireResult \<Rightarrow> gw_account \<Rightarrow> proc \<Rightarrow> ('s, gw_account) svc" where
  "RouteAccount V result a =
     (if \<not> Acquired result \<or> ProxyID result = 0 then retS a
      else case WithProxyRoute (sv_now V) a (ProxyID result) of
        Some a' \<Rightarrow> retS a'
      | None \<Rightarrow> bindS (releaseS V (ReleaseFunc result)) (\<lambda>_. errS (ErrInvalid ''selected proxy is unavailable'')))"

definition AcquireAccountRoute :: "'s sel_env \<Rightarrow> gw_account \<Rightarrow> int \<Rightarrow> proc \<Rightarrow> ('s, AcquireResult \<times> gw_account) svc" where
  "AcquireAccountRoute V a limit =
     bindS (if length (ga_proxy_ids a) > 1
            then (let ids = available_proxies (sv_now V) a
                  in if ids = [] then errS (ErrInvalid ''account has no available proxy'')
                     else acquireAccountProxyPoolSlot (sv_redis V) (sv_slots V) (sv_gate V) (ga_id a) limit ids
                            [ga_selected_proxy a])
            else svcAcquireAccountSlot (sv_redis V) (sv_slots V) (sv_perf V) (sv_gate V) (ga_id a) limit [])
       (\<lambda>result. if \<not> Acquired result then retS (result, a)
                 else bindS (RouteAccount V result a) (\<lambda>routed. retS (result, routed)))"

definition tryAcquireAccountSlot :: "'s sel_env \<Rightarrow> gw_account \<Rightarrow> proc \<Rightarrow> ('s, AcquireResult \<times> gw_account) svc" where
  "tryAcquireAccountSlot V a =
     (if \<not> strictFailoverAllows V (ga_id a) then errS ErrStrictFailoverOwnerBound
      else AcquireAccountRoute V a (ga_concurrency a))"

text \<open>The callers read an error as "not acquired" and keep their account then.\<close>

definition acquired_route :: "'s sel_env \<Rightarrow> gw_account \<Rightarrow> proc \<Rightarrow> ('s, (AcquireResult \<times> gw_account) option) svc" where
  "acquired_route V a p =
     bindW (tryAcquireAccountSlot V a p) (\<lambda>(r, p). retS (case r of
         Inl _ \<Rightarrow> None
       | Inr (result, a') \<Rightarrow> if Acquired result then Some (result, a') else None) p)"

definition hydrateSelectedAccount :: "'s sel_env \<Rightarrow> gw_account \<Rightarrow> proc \<Rightarrow> ('s, gw_account) svc" where
  "hydrateSelectedAccount V a =
     (case sv_snapshot V of
        None \<Rightarrow> retS a
      | Some get \<Rightarrow> bindS (liftS (get (ga_id a))) (\<lambda>h. case h of
            None \<Rightarrow> errS (ErrInvalid ''selected gateway account not found during hydration'')
          | Some hydrated \<Rightarrow>
              if ga_selected_proxy a > 0
              then (case WithProxyRoute (sv_now V) hydrated (ga_selected_proxy a) of
                      Some r \<Rightarrow> retS r
                    | None \<Rightarrow> errS (ErrInvalid ''selected proxy is unavailable''))
              else retS hydrated))"

definition newSelectionResult ::
    "'s sel_env \<Rightarrow> gw_account \<Rightarrow> bool \<Rightarrow> release_fn option \<Rightarrow> wait_plan option \<Rightarrow> proc \<Rightarrow> ('s, selection) svc" where
  "newSelectionResult V a acquired release plan p =
     bindW (hydrateSelectedAccount V a p) (\<lambda>(r, p).
       (let r = (case r of
              Inl e \<Rightarrow> Inl e
            | Inr h \<Rightarrow> if acquired \<and> \<not> validateProxyReservation a h
                       then Inl (ErrInvalid ''proxy configuration changed during admission'') else Inr h)
        in case r of
             Inl e \<Rightarrow> bindS (if acquired then releaseS V release else retS ()) (\<lambda>_. errS e) p
           | Inr h \<Rightarrow> retS \<lparr>sel_account = h, sel_acquired = acquired, sel_release = release, sel_wait = plan\<rparr> p))"

section \<open>The layers\<close>

text \<open>
  The layers of \<open>selectAccountWithLoadAwareness\<close>.  A layer gives \<open>Some selection\<close>, or \<open>None\<close> when the
  code falls through to the next one; an error ends the selection.
\<close>

section \<open>Trying accounts\<close>

fun first_try :: "('b \<Rightarrow> proc \<Rightarrow> ('s, 'a option) svc) \<Rightarrow> 'b list \<Rightarrow> proc \<Rightarrow> ('s, 'a option) svc" where
  "first_try f [] = retS None"
| "first_try f (x # xs) = orS (f x) (first_try f xs)"

text \<open>The body of the three loops that take a slot: routed accounts, layer 2, and its legacy order.\<close>

definition try_account :: "'s sel_env \<Rightarrow> sel_request \<Rightarrow> gw_account \<Rightarrow> proc \<Rightarrow> ('s, selection option) svc" where
  "try_account V rq a =
     bindS (acquired_route V a) (\<lambda>r. case r of
       None \<Rightarrow> retS None
     | Some (result, acc) \<Rightarrow>
         bindS (liftS (checkAndRegisterSession V acc (rq_session rq))) (\<lambda>ok.
           if \<not> ok then bindS (releaseS V (ReleaseFunc result)) (\<lambda>_. retS None)
           else bindS (if rq_session rq = [] then retS ()
                       else liftS (tryW (bindGatewayStickySessionDuringSelection V rq (ga_id acc)))) (\<lambda>_.
             bindS (newSelectionResult V acc True (ReleaseFunc result) None) (\<lambda>sel. retS (Some sel)))))"

definition sticky_plan :: "'s sel_env \<Rightarrow> id \<Rightarrow> int \<Rightarrow> wait_plan" where
  "sticky_plan V i mx = \<lparr>wp_account = i, wp_max = mx, wp_timeout = StickySessionWaitTimeout (sv_cfg V),
     wp_waiting = StickySessionMaxWaiting (sv_cfg V)\<rparr>"

definition fallback_plan :: "'s sel_env \<Rightarrow> id \<Rightarrow> int \<Rightarrow> wait_plan" where
  "fallback_plan V i mx = \<lparr>wp_account = i, wp_max = mx, wp_timeout = FallbackWaitTimeout (sv_cfg V),
     wp_waiting = FallbackMaxWaiting (sv_cfg V)\<rparr>"

text \<open>Queueing at an account: it too takes a session.\<close>

definition wait_at :: "'s sel_env \<Rightarrow> sel_request \<Rightarrow> wait_plan \<Rightarrow> gw_account \<Rightarrow> proc \<Rightarrow> ('s, selection option) svc" where
  "wait_at V rq plan acc =
     bindS (liftS (checkAndRegisterSession V acc (rq_session rq))) (\<lambda>ok.
       if \<not> ok then retS None
       else bindS (newSelectionResult V acc False None (Some plan)) (\<lambda>sel. retS (Some sel)))"

text \<open>The wait of a sticky account: an unreadable counter counts as zero.\<close>

definition sticky_wait :: "'s sel_env \<Rightarrow> sel_request \<Rightarrow> id \<Rightarrow> gw_account \<Rightarrow> proc \<Rightarrow> ('s, selection option) svc" where
  "sticky_wait V rq i acc =
     bindS (liftS (bindW (catchW (GetAccountWaitingCount (sv_redis V) i)) (\<lambda>r. returnW (case r of Inl _ \<Rightarrow> 0 | Inr n \<Rightarrow> n))))
       (\<lambda>waitingCount.
          if waitingCount < StickySessionMaxWaiting (sv_cfg V)
          then wait_at V rq (sticky_plan V i (ga_concurrency acc)) acc
          else retS None)"

definition account_by_id :: "sel_request \<Rightarrow> id \<Rightarrow> gw_account option" where
  "account_by_id rq i = find (\<lambda>a. ga_id a = i) (rev (rq_accounts rq))"

definition load_requests :: "gw_account list \<Rightarrow> (id \<times> int) list" where
  "load_requests = map (\<lambda>a. (ga_id a, TotalLoadFactor a))"

section \<open>Layer 1: routed accounts\<close>

definition routing_accounts :: "sel_request \<Rightarrow> gw_account list" where
  "routing_accounts rq =
     List.map_filter (\<lambda>i. if i \<in> set (rq_excluded rq) then None else account_by_id rq i) (rq_routing rq)"

definition routed_sticky :: "'s sel_env \<Rightarrow> sel_request \<Rightarrow> id \<Rightarrow> proc \<Rightarrow> ('s, selection option) svc" where
  "routed_sticky V rq sticky =
     (if \<not> (rq_session rq \<noteq> [] \<and> sticky > 0 \<and> sticky \<in> set (rq_routing rq) \<and> sticky \<notin> set (rq_excluded rq))
      then retS None
      else case account_by_id rq sticky of
        None \<Rightarrow> bindS (liftS (tryW (DeleteSessionAccountID (sv_redis V) (rq_group rq) (rq_session rq)))) (\<lambda>_. retS None)
      | Some a \<Rightarrow>
          bindS (liftS (if pure_gates V rq a then isAccountSchedulableForWindowCost V a True else returnW False)) (\<lambda>gatePass.
          bindS (liftS (if gatePass then isAccountSchedulableForRPM V a True else returnW False)) (\<lambda>rpmPass.
            if \<not> rpmPass then retS None
            else bindS (acquired_route V a) (\<lambda>r. case r of
                None \<Rightarrow> sticky_wait V rq sticky a
              | Some (result, acc) \<Rightarrow>
                  bindS (liftS (checkAndRegisterSession V acc (rq_session rq))) (\<lambda>ok.
                    if \<not> ok then bindS (releaseS V (ReleaseFunc result)) (\<lambda>_. retS None)
                    else bindS (newSelectionResult V acc True (ReleaseFunc result) None) (\<lambda>sel. retS (Some sel)))))))"

definition routed_available :: "'s sel_env \<Rightarrow> gw_account list \<Rightarrow> proc \<Rightarrow> ('s, cand list) svc" where
  "routed_available V candidates =
     bindS (liftS (catchW (sv_loads V (load_requests candidates)))) (\<lambda>r.
       retS (with_loads (case r of Inl _ \<Rightarrow> Map.empty | Inr m \<Rightarrow> m) candidates))"

definition layer1 :: "'s sel_env \<Rightarrow> sel_request \<Rightarrow> id \<Rightarrow> proc \<Rightarrow> ('s, selection option) svc" where
  "layer1 V rq sticky =
     (if rq_routing rq = [] then retS None
      else bindS (liftS (filterW (candidate_gates V rq) (routing_accounts rq))) (\<lambda>candidates.
        if candidates = [] then retS None
        else orS (routed_sticky V rq sticky)
          (bindS (routed_available V candidates) (\<lambda>available.
            if available = [] then retS None
            else (let ordered = sort_routed (sv_shuffle V RoutedShuffle) available
                  in orS (first_try (\<lambda>c. try_account V rq (fst c)) ordered)
                       (first_try (\<lambda>c. wait_at V rq (sticky_plan V (ga_id (fst c)) (ga_concurrency (fst c))) (fst c)) ordered))))))"

section \<open>Layer 1.5: the sticky account\<close>

definition layer_sticky :: "'s sel_env \<Rightarrow> sel_request \<Rightarrow> id \<Rightarrow> proc \<Rightarrow> ('s, selection option) svc" where
  "layer_sticky V rq sticky =
     (if \<not> (rq_routing rq = [] \<and> rq_session rq \<noteq> [] \<and> sticky > 0 \<and> sticky \<notin> set (rq_excluded rq)) then retS None
      else case account_by_id rq sticky of
        None \<Rightarrow> retS None
      | Some a \<Rightarrow>
          bindS (if sv_clear_sticky V a
                 then liftS (tryW (DeleteSessionAccountID (sv_redis V) (rq_group rq) (rq_session rq))) else retS ()) (\<lambda>_.
          bindS (liftS (isAccountSchedulableForWindowCost V a True)) (\<lambda>windowCostOK.
          bindS (liftS (isAccountSchedulableForRPM V a True)) (\<lambda>rpmOK.
            if \<not> (\<not> sv_clear_sticky V a \<and> pure_gates V rq a \<and> windowCostOK \<and> rpmOK) then retS None
            else bindS (acquired_route V a) (\<lambda>r. case r of
                None \<Rightarrow> sticky_wait V rq sticky a
              | Some (result, acc) \<Rightarrow>
                  bindS (liftS (checkAndRegisterSession V acc (rq_session rq))) (\<lambda>ok.
                    if \<not> ok then bindS (releaseS V (ReleaseFunc result)) (\<lambda>_. sticky_wait V rq sticky acc)
                    else bindS (liftS (tryW (RefreshSessionTTL (sv_redis V) (rq_group rq) (rq_session rq)))) (\<lambda>_.
                      bindS (newSelectionResult V acc True (ReleaseFunc result) None) (\<lambda>sel. retS (Some sel)))))))))"

section \<open>Layer 2: load-aware selection\<close>

definition layer2_pick :: "'s sel_env \<Rightarrow> sel_request \<Rightarrow> cand list \<Rightarrow> cand option" where
  "layer2_pick V rq available =
     pick_next (sv_pick V (length available)) (sv_now V) (PreferSoonestReset (sv_cfg V))
       (rq_platform rq = PlatformGemini) available"

function layer2_loop :: "'s sel_env \<Rightarrow> sel_request \<Rightarrow> cand list \<Rightarrow> proc \<Rightarrow> ('s, selection option) svc" where
  "layer2_loop V rq available =
     (if available = [] then retS None
      else case layer2_pick V rq available of
        None \<Rightarrow> retS None
      | Some selected \<Rightarrow>
          orS (try_account V rq (fst selected)) (layer2_loop V rq (remove_tried (ga_id (fst selected)) available)))"
  by pat_completeness auto
termination
  by (relation "measure (\<lambda>(V, rq, available). length available)")
    (auto simp: layer2_pick_def intro: remove_tried_shorter pick_next_member)

declare layer2_loop.simps [simp del]

definition tryAcquireByLegacyOrder :: "'s sel_env \<Rightarrow> sel_request \<Rightarrow> gw_account list \<Rightarrow> proc \<Rightarrow> ('s, selection option) svc" where
  "tryAcquireByLegacyOrder V rq candidates =
     first_try (try_account V rq)
       (sortAccountsByPriorityAndLastUsed (sv_shuffle V LegacyShuffle) (rq_platform rq = PlatformGemini) candidates)"

definition layer2 :: "'s sel_env \<Rightarrow> sel_request \<Rightarrow> gw_account list \<Rightarrow> proc \<Rightarrow> ('s, selection option) svc" where
  "layer2 V rq candidates =
     bindS (liftS (catchW (sv_loads V (load_requests candidates)))) (\<lambda>r. case r of
       Inl _ \<Rightarrow> tryAcquireByLegacyOrder V rq candidates
     | Inr loadMap \<Rightarrow> layer2_loop V rq (with_loads loadMap candidates))"

section \<open>Layer 3 and the whole selection\<close>

definition layer3 :: "'s sel_env \<Rightarrow> sel_request \<Rightarrow> gw_account list \<Rightarrow> proc \<Rightarrow> ('s, selection option) svc" where
  "layer3 V rq candidates =
     first_try (\<lambda>a. wait_at V rq (fallback_plan V (ga_id a) (ga_concurrency a)) a)
       (sortCandidatesForFallback (sv_shuffle V FallbackShuffle) (rq_platform rq = PlatformGemini)
          (FallbackSelectionMode (sv_cfg V)) candidates)"

definition some_restricted :: "'s sel_env \<Rightarrow> sel_request \<Rightarrow> bool" where
  "some_restricted V rq =
     list_ex (\<lambda>a. ga_id a \<notin> set (rq_excluded rq) \<and> basic_gates V rq a \<and> sv_channel V a) (rq_accounts rq)"

definition layers_2_3 :: "'s sel_env \<Rightarrow> sel_request \<Rightarrow> proc \<Rightarrow> ('s, selection option) svc" where
  "layers_2_3 V rq =
     bindS (liftS (filterW (candidate_gates V rq) (filter (\<lambda>a. ga_id a \<notin> set (rq_excluded rq)) (rq_accounts rq))))
       (\<lambda>candidates.
          if candidates = []
          then errS (if some_restricted V rq then ErrInvalid ''no available accounts (channel pricing restriction)''
                     else ErrNoAvailableAccounts)
          else orS (layer2 V rq candidates) (layer3 V rq candidates))"

definition strictFailoverSelectionError :: "'s sel_env \<Rightarrow> err + 'a \<Rightarrow> err + 'a" where
  "strictFailoverSelectionError V r = (case r of
     Inl e \<Rightarrow> if sv_strict V \<noteq> None
         \<and> (e = ErrNoAvailableAccounts \<or> e = ErrInvalid ''no available accounts (channel pricing restriction)'')
       then Inl (ErrInvalid ''strict failover unconfirmed'') else r
   | Inr _ \<Rightarrow> r)"

definition select_layers :: "'s sel_env \<Rightarrow> sel_request \<Rightarrow> proc \<Rightarrow> ('s, selection) svc" where
  "select_layers V rq =
     bindS (liftS (stickyAccountID V rq)) (\<lambda>sticky.
       if rq_accounts rq = [] then errS ErrNoAvailableAccounts
       else bindS (orS (layer1 V rq sticky) (orS (layer_sticky V rq sticky) (layers_2_3 V rq))) (\<lambda>r. case r of
           Some sel \<Rightarrow> retS sel
         | None \<Rightarrow> errS ErrNoAvailableAccounts))"

definition selectAccountWithLoadAwareness :: "'s sel_env \<Rightarrow> sel_request \<Rightarrow> proc \<Rightarrow> ('s, selection) svc" where
  "selectAccountWithLoadAwareness V rq p =
     bindW (select_layers V rq p) (\<lambda>(r, p). returnW (strictFailoverSelectionError V r, p))"

section \<open>Layer 2 follows the ranks\<close>

text \<open>The filters and picks of layer 2, repeated, try the candidates in the order of \<open>try_order\<close>.\<close>

lemma layer2_first_try:
  "layer2_loop V rq cs = first_try (\<lambda>c. try_account V rq (fst c))
     (try_order (sv_pick V) (sv_now V) (PreferSoonestReset (sv_cfg V)) (rq_platform rq = PlatformGemini) cs)"
proof (induction V rq cs rule: layer2_loop.induct)
  case (1 V rq cs)
  show ?case
  proof (cases "cs = []")
    case True
    then show ?thesis by (simp add: layer2_loop.simps try_order.simps)
  next
    case False
    then show ?thesis using 1
      by (subst layer2_loop.simps, subst try_order.simps) (auto simp: layer2_pick_def split: option.splits)
  qed
qed

end
