(* ===== verification/Selection_Logic.thy ===== *)
theory Selection_Logic
  imports Account_Selection
begin

text \<open>
  A Hoare logic for the programs of the selection: \<open>valid P m Q E\<close> says that from a state with \<open>P\<close>
  the program \<open>m\<close> ends with a value and \<open>Q\<close>, or with an error and \<open>E\<close>; it never ends otherwise.
  With it: whatever the network does, a selected account has passed the gates
  (\<open>selection_from\<close>, \<open>valid_select\<close>).
\<close>

type_synonym 's sel_state = "proc \<times> 's world"

definition valid ::
    "('s sel_state \<Rightarrow> bool) \<Rightarrow> (proc \<Rightarrow> ('s, 'a) svc) \<Rightarrow> ('a \<Rightarrow> 's sel_state \<Rightarrow> bool) \<Rightarrow> ('s sel_state \<Rightarrow> bool) \<Rightarrow> bool" where
  "valid P m Q E \<longleftrightarrow> (\<forall>p w. P (p, w) \<longrightarrow> (case m p w of
       (Inr (Inr a, p'), w') \<Rightarrow> Q a (p', w')
     | (Inr (Inl e, p'), w') \<Rightarrow> E (p', w')
     | (Inl e, w') \<Rightarrow> False))"

named_theorems vcg \<open>rules of the selection logic\<close>

lemma validI:
  assumes "\<And>p w. P (p, w) \<Longrightarrow> (\<exists>a p' w'. m p w = (Inr (Inr a, p'), w') \<and> Q a (p', w'))
      \<or> (\<exists>e p' w'. m p w = (Inr (Inl e, p'), w') \<and> E (p', w'))"
  shows "valid P m Q E"
  unfolding valid_def
proof (intro allI impI)
  fix p w
  assume "P (p, w)"
  from assms[OF this] show "case m p w of (Inr (Inr a, p'), w') \<Rightarrow> Q a (p', w')
     | (Inr (Inl e, p'), w') \<Rightarrow> E (p', w') | (Inl e, w') \<Rightarrow> False" by auto
qed

lemma validE:
  assumes "valid P m Q E" "P (p, w)"
  obtains a p' w' where "m p w = (Inr (Inr a, p'), w')" "Q a (p', w')"
        | e p' w' where "m p w = (Inr (Inl e, p'), w')" "E (p', w')"
proof -
  from assms have v: "case m p w of (Inr (Inr a, p'), w') \<Rightarrow> Q a (p', w')
     | (Inr (Inl e, p'), w') \<Rightarrow> E (p', w') | (Inl e, w') \<Rightarrow> False" by (auto simp: valid_def)
  obtain r w' where m: "m p w = (r, w')" by fastforce
  show ?thesis
  proof (cases r)
    case (Inr b)
    obtain x p' where b: "b = (x, p')" by fastforce
    show ?thesis using v m Inr b that by (cases x) auto
  qed (use v m in simp)
qed

lemma valid_ret [vcg]: "valid (Q a) (retS a) Q E"
  by (rule validI) (simp add: retS_def)

lemma valid_err [vcg]: "valid E (errS e) Q E"
  by (rule validI) (simp add: errS_def)

lemma valid_conseq:
  assumes "valid P m Q E" "\<And>\<sigma>. P' \<sigma> \<Longrightarrow> P \<sigma>" "\<And>a \<sigma>. Q a \<sigma> \<Longrightarrow> Q' a \<sigma>" "\<And>\<sigma>. E \<sigma> \<Longrightarrow> E' \<sigma>"
  shows "valid P' m Q' E'"
proof (rule validI)
  fix p w
  assume "P' (p, w)"
  then have "P (p, w)" by (rule assms(2))
  with assms(1) show "(\<exists>a p' w'. m p w = (Inr (Inr a, p'), w') \<and> Q' a (p', w'))
      \<or> (\<exists>e p' w'. m p w = (Inr (Inl e, p'), w') \<and> E' (p', w'))"
    by (rule validE) (use assms(3,4) in blast)+
qed

lemma valid_bind:
  assumes "valid P m R E" "\<And>a. valid (R a) (k a) Q E"
  shows "valid P (bindS m k) Q E"
proof (rule validI)
  fix p w
  assume "P (p, w)"
  with assms(1) show "(\<exists>a p' w'. bindS m k p w = (Inr (Inr a, p'), w') \<and> Q a (p', w'))
      \<or> (\<exists>e p' w'. bindS m k p w = (Inr (Inl e, p'), w') \<and> E (p', w'))"
  proof (cases rule: validE)
    case (1 a p1 w1)
    from assms(2) 1(2) show ?thesis
      by (rule validE) (use 1(1) in \<open>auto simp: bindS_def\<close>)
  next
    case (2 e p1 w1)
    then show ?thesis by (auto simp: bindS_def)
  qed
qed

lemma valid_or:
  assumes "valid P m (\<lambda>r. case r of None \<Rightarrow> R | Some x \<Rightarrow> Q (Some x)) E" "valid R k Q E"
  shows "valid P (orS m k) Q E"
  unfolding orS_def
proof (rule valid_bind[OF assms(1)])
  show "valid (case r of None \<Rightarrow> R | Some x \<Rightarrow> Q (Some x)) (case r of None \<Rightarrow> k | Some x \<Rightarrow> retS (Some x)) Q E" for r
    by (cases r) (use assms(2) valid_ret[of Q "Some _" E] in auto)
qed

lemma valid_if:
  assumes "b \<Longrightarrow> valid P m Q E" "\<not> b \<Longrightarrow> valid P k Q E"
  shows "valid P (if b then m else k) Q E"
  using assms by simp

text \<open>A value that a step only passes on does not matter: \<open>valid\<close> with a pure fact.\<close>

lemma valid_pure: "(b \<Longrightarrow> valid P m Q E) \<Longrightarrow> valid (\<lambda>\<sigma>. b \<and> P \<sigma>) m Q E"
  by (rule validI) (blast elim: validE)

lemma valid_first_try:
  assumes "\<And>x n. x \<in> set xs \<Longrightarrow> valid (P (Suc n)) (f x) (\<lambda>r. case r of None \<Rightarrow> P n | Some y \<Rightarrow> Q (Some y)) E"
    and "\<And>n. n \<ge> k \<Longrightarrow> (\<And>\<sigma>. P n \<sigma> \<Longrightarrow> Q None \<sigma>)"
  shows "n \<ge> k \<Longrightarrow> valid (P (length xs + n)) (first_try f xs) Q E"
  using assms(1)
proof (induction xs)
  case Nil
  then show ?case using valid_conseq[OF valid_ret[of Q None E]] assms(2) by auto
next
  case (Cons x xs)
  have "valid (P (Suc (length xs + n))) (f x) (\<lambda>r. case r of None \<Rightarrow> P (length xs + n) | Some y \<Rightarrow> Q (Some y)) E"
    by (rule Cons.prems(2)) simp
  moreover have "valid (P (length xs + n)) (first_try f xs) Q E"
    by (rule Cons.IH) (use Cons.prems in auto)
  ultimately show ?case by (simp add: valid_or)
qed

text \<open>Programs lifted from Redis: errors included, only the world changes.\<close>

lemma valid_lift:
  assumes "\<And>p w. P (p, w) \<Longrightarrow> Q' (fst (q w)) (p, snd (q w))"
  shows "valid P (liftS q) (\<lambda>a. Q' (Inr a)) (\<lambda>\<sigma>. \<exists>e. Q' (Inl e) \<sigma>)"
proof (rule validI)
  fix p w
  assume "P (p, w)"
  then have "Q' (fst (q w)) (p, snd (q w))" by (rule assms)
  then show "(\<exists>a p' w'. liftS q p w = (Inr (Inr a, p'), w') \<and> Q' (Inr a) (p', w'))
      \<or> (\<exists>e p' w'. liftS q p w = (Inr (Inl e, p'), w') \<and> (\<exists>e. Q' (Inl e) (p', w')))"
    by (cases "q w"; cases "fst (q w)") (auto simp: liftS_def catchW_def bindW_def)
qed

section \<open>Programs that always end with a value\<close>

definition ends :: "('s, 'a) prog \<Rightarrow> bool" where
  "ends q \<longleftrightarrow> (\<forall>w. \<exists>a w'. q w = (Inr a, w'))"

lemma endsD: "ends q \<Longrightarrow> \<exists>a w'. q w = (Inr a, w')"
  by (simp add: ends_def)

lemma ends_intros:
  "ends (returnW a)" "ends (tryW q)" "ends (catchW q)"
  by (simp_all add: ends_def returnW_def tryW_def catchW_def split: prod.split)

lemma ends_bind: "ends q \<Longrightarrow> (\<And>a. ends (k a)) \<Longrightarrow> ends (bindW q k)"
  unfolding ends_def by (metis bindW_Inr)

lemma ends_cases:
  "(b \<Longrightarrow> ends q) \<Longrightarrow> (\<not> b \<Longrightarrow> ends q') \<Longrightarrow> ends (if b then q else q')"
  "ends q \<Longrightarrow> (\<And>a. ends (f a)) \<Longrightarrow> ends (case x of None \<Rightarrow> q | Some a \<Rightarrow> f a)"
  "(\<And>e. ends (g e)) \<Longrightarrow> (\<And>a. ends (h a)) \<Longrightarrow> ends (case y of Inl e \<Rightarrow> g e | Inr a \<Rightarrow> h a)"
  "(\<And>a b. ends (k a b)) \<Longrightarrow> ends (case z of (a, b) \<Rightarrow> k a b)"
  by (cases x; cases y; cases z; simp)+

lemmas ends_rules = ends_intros ends_bind ends_cases

lemma ends_run_release: "ends (run_release R c rf p)"
  by (cases rf) (auto intro!: ends_rules)

lemma ends_admit: "ends (admitAccountRequest R c gate a result p)"
  unfolding admitAccountRequest_def by (intro ends_rules ends_run_release)

lemma ends_pool: "ends (acquireAccountProxyPoolSlot R c gate a limit ids pinned p)"
  unfolding acquireAccountProxyPoolSlot_def Let_def by (intro ends_rules ends_admit)

lemma ends_body: "ends (acquire_account_body R c gate a mx ids p)"
  unfolding acquire_account_body_def Let_def by (intro ends_rules ends_admit ends_pool)

lemma ends_acquire: "ends (svcAcquireAccountSlot R c perf gate a mx ids p)"
  unfolding svcAcquireAccountSlot_def
  by (cases perf) (simp_all, (intro ends_rules ends_body)+)

section \<open>What a program gives\<close>

text \<open>Facts about results that hold in every world.\<close>

definition gives :: "('a \<Rightarrow> bool) \<Rightarrow> (proc \<Rightarrow> ('s, 'a) svc) \<Rightarrow> bool" where
  "gives Q m \<longleftrightarrow> valid (\<lambda>_. True) m (\<lambda>a _. Q a) (\<lambda>_. True)"

definition offers :: "('a \<Rightarrow> bool) \<Rightarrow> (proc \<Rightarrow> ('s, 'a option) svc) \<Rightarrow> bool" where
  "offers Q m \<longleftrightarrow> gives (pred_option Q) m"

lemma givesI: "(\<And>p w. \<exists>r p' w'. m p w = (Inr (r, p'), w') \<and> (\<forall>a. r = Inr a \<longrightarrow> Q a)) \<Longrightarrow> gives Q m"
  unfolding gives_def
proof (rule validI)
  fix p w
  assume *: "\<And>p w. \<exists>r p' w'. m p w = (Inr (r, p'), w') \<and> (\<forall>a. r = Inr a \<longrightarrow> Q a)"
  obtain r p' w' where "m p w = (Inr (r, p'), w')" "\<forall>a. r = Inr a \<longrightarrow> Q a" using * by blast
  then show "(\<exists>a p' w'. m p w = (Inr (Inr a, p'), w') \<and> Q a) \<or> (\<exists>e p' w'. m p w = (Inr (Inl e, p'), w') \<and> True)"
    by (cases r) auto
qed

lemma givesE:
  assumes "gives Q m"
  obtains r p' w' where "m p w = (Inr (r, p'), w')" "\<And>a. r = Inr a \<Longrightarrow> Q a"
proof -
  from assms have "valid (\<lambda>_. True) m (\<lambda>a _. Q a) (\<lambda>_. True)" by (simp add: gives_def)
  then show ?thesis
    by (rule validE[of _ _ _ _ p w]) (use that in auto)
qed

lemma gives_mono: "gives Q m \<Longrightarrow> (\<And>a. Q a \<Longrightarrow> Q' a) \<Longrightarrow> gives Q' m"
  unfolding gives_def by (erule valid_conseq)

lemma gives_ret: "Q a \<Longrightarrow> gives Q (retS a)"
  by (rule givesI) (simp add: retS_def)

lemma gives_err: "gives Q (errS e)"
  by (rule givesI) (simp add: errS_def)

lemma gives_ends: "(\<And>p. ends (m p)) \<Longrightarrow> gives (\<lambda>_. True) m"
  by (rule givesI) (metis endsD surj_pair)

lemma gives_lift: "(\<And>w a w'. q w = (Inr a, w') \<Longrightarrow> Q a) \<Longrightarrow> gives Q (liftS q)"
proof (rule givesI)
  fix p w
  assume *: "\<And>w a w'. q w = (Inr a, w') \<Longrightarrow> Q a"
  obtain r w' where q: "q w = (r, w')" by fastforce
  show "\<exists>r p' w'. liftS q p w = (Inr (r, p'), w') \<and> (\<forall>a. r = Inr a \<longrightarrow> Q a)"
    using * q by (auto simp: liftS_def catchW_def bindW_def)
qed

lemma gives_bind:
  assumes "gives R m" "\<And>a. R a \<Longrightarrow> gives Q (k a)"
  shows "gives Q (bindS m k)"
proof (rule givesI)
  fix p w
  obtain r p1 w1 where m: "m p w = (Inr (r, p1), w1)" "\<And>a. r = Inr a \<Longrightarrow> R a" using assms(1) by (rule givesE[where p = p and w = w]) blast
  show "\<exists>r p' w'. bindS m k p w = (Inr (r, p'), w') \<and> (\<forall>a. r = Inr a \<longrightarrow> Q a)"
  proof (cases r)
    case (Inl e)
    then show ?thesis using m(1) by (simp add: bindS_def)
  next
    case (Inr a)
    then have "gives Q (k a)" using m(2) assms(2) by blast
    then obtain r' p' w' where "k a p1 w1 = (Inr (r', p'), w')" "\<And>a. r' = Inr a \<Longrightarrow> Q a" by (rule givesE[where p = p1 and w = w1]) blast
    then show ?thesis using m(1) Inr by (simp add: bindS_def)
  qed
qed

lemma offers_none: "offers Q (retS None)"
  by (simp add: offers_def gives_ret)

lemma offers_err: "offers Q (errS e)"
  by (simp add: offers_def gives_err)

lemma offers_bind: "gives R m \<Longrightarrow> (\<And>a. R a \<Longrightarrow> offers Q (k a)) \<Longrightarrow> offers Q (bindS m k)"
  unfolding offers_def by (rule gives_bind)

lemma offers_some: "gives Q m \<Longrightarrow> offers Q (bindS m (\<lambda>x. retS (Some x)))"
  unfolding offers_def by (erule gives_bind) (simp add: gives_ret)

lemma offers_or: "offers Q m \<Longrightarrow> offers Q k \<Longrightarrow> offers Q (orS m k)"
  unfolding offers_def orS_def
  by (erule gives_bind) (auto split: option.splits intro: gives_ret)

lemma offers_first_try: "(\<And>x. x \<in> set xs \<Longrightarrow> offers Q (f x)) \<Longrightarrow> offers Q (first_try f xs)"
  by (induction xs) (auto intro: offers_none offers_or)

section \<open>What is selected has passed the gates\<close>

text \<open>
  Whatever the network does, an account that is selected is one of the listed accounts, is not
  excluded and has passed the gates, with a slot or with a wait plan for that account.
\<close>

text \<open>
  The two gates that look at spending, asked somewhere on the way; \<open>sticky\<close> tells whether they
  were asked for an account that the session already uses.
\<close>

definition measured_gates :: "'s sel_env \<Rightarrow> gw_account \<Rightarrow> bool \<Rightarrow> bool" where
  "measured_gates V a sticky \<longleftrightarrow>
     (\<exists>w w'. isAccountSchedulableForWindowCost V a sticky w = (Inr True, w'))
     \<and> (\<exists>w w'. isAccountSchedulableForRPM V a sticky w = (Inr True, w'))"

definition spending_ok :: "'s sel_env \<Rightarrow> sel_request \<Rightarrow> gw_account \<Rightarrow> bool \<Rightarrow> bool" where
  "spending_ok V rq a sticky \<longleftrightarrow> measured_gates V a sticky
     \<and> (sticky \<longrightarrow> rq_session rq \<noteq> [] \<and> (rq_prefetched rq > 0 \<longrightarrow> ga_id a = rq_prefetched rq))"

text \<open>With the values that the prefetch has put into the context, the gates are decided by their zones.\<close>

lemma measured_prefetched:
  assumes "measured_gates V a sticky" "IsAnthropicOAuthOrSetupToken a"
  shows "GetWindowCostLimit (sv_acct V) a > 0 \<Longrightarrow> windowCostFromPrefetchContext V (ga_id a) = Some cost \<Longrightarrow>
      zone_admits (CheckWindowCostSchedulability (sv_acct V) a cost) sticky"
    and "GetBaseRPM (sv_acct V) a > 0 \<Longrightarrow> sv_rpm_prefetch V (ga_id a) = Some n \<Longrightarrow>
      zone_admits (CheckRPMSchedulability (sv_acct V) a n) sticky"
  using assms by (auto simp: measured_gates_def isAccountSchedulableForWindowCost_def isAccountSchedulableForRPM_def)

definition selection_from :: "'s sel_env \<Rightarrow> sel_request \<Rightarrow> selection \<Rightarrow> bool" where
  "selection_from V rq sel \<longleftrightarrow> (\<exists>a\<in>set (rq_accounts rq).
     ga_id a \<notin> set (rq_excluded rq) \<and> pure_gates V rq a \<and> (\<exists>sticky. spending_ok V rq a sticky)
     \<and> ga_id (sel_account sel) = ga_id a
     \<and> (case sel_wait sel of
          None \<Rightarrow> sel_acquired sel
        | Some plan \<Rightarrow> \<not> sel_acquired sel \<and> wp_account plan = ga_id a \<and> wp_max plan = ga_concurrency a))"

text \<open>The snapshot answers with the account it was asked for.\<close>

definition snapshot_ok :: "'s sel_env \<Rightarrow> bool" where
  "snapshot_ok V \<longleftrightarrow> (\<forall>get i w h w'. sv_snapshot V = Some get \<longrightarrow> get i w = (Inr (Some h), w') \<longrightarrow> ga_id h = i)"

definition usable :: "'s sel_env \<Rightarrow> sel_request \<Rightarrow> gw_account \<Rightarrow> bool" where
  "usable V rq a \<longleftrightarrow> a \<in> set (rq_accounts rq) \<and> ga_id a \<notin> set (rq_excluded rq) \<and> pure_gates V rq a
     \<and> (\<exists>sticky. spending_ok V rq a sticky)"

definition same_account :: "gw_account \<Rightarrow> gw_account \<Rightarrow> bool" where
  "same_account a b \<longleftrightarrow> ga_id b = ga_id a \<and> ga_concurrency b = ga_concurrency a"

lemma same_account_refl [simp]: "same_account a a"
  by (simp add: same_account_def)

lemma WithProxyRoute_same: "WithProxyRoute now a pid = Some b \<Longrightarrow> same_account a b"
  by (auto simp: WithProxyRoute_def same_account_def split: if_splits option.splits)

lemma gives_release: "gives (\<lambda>_. True) (releaseS V rf)"
  by (rule gives_ends) (auto simp: releaseS_def intro!: ends_rules ends_run_release split: option.split)

lemma gives_route: "gives (same_account a) (RouteAccount V result a)"
  unfolding RouteAccount_def
  by (auto intro!: gives_ret gives_bind[OF gives_release] gives_err dest: WithProxyRoute_same split: option.splits)

lemma gives_acquire: "gives (\<lambda>(result, b). same_account a b) (tryAcquireAccountSlot V a)"
  unfolding tryAcquireAccountSlot_def AcquireAccountRoute_def Let_def
  by (auto intro!: gives_ret gives_err gives_bind[OF gives_route] gives_bind[OF gives_ends] ends_pool ends_acquire
      simp: ends_intros errS_def)

lemma gives_acquired: "gives (pred_option (\<lambda>(result, b). same_account a b)) (acquired_route V a)"
proof (rule givesI)
  fix p w
  obtain r p' w' where "tryAcquireAccountSlot V a p w = (Inr (r, p'), w')"
    "\<And>x. r = Inr x \<Longrightarrow> case x of (result, b) \<Rightarrow> same_account a b"
    using gives_acquire[of a V] by (rule givesE[where p = p and w = w]) blast
  then show "\<exists>r p' w'. acquired_route V a p w = (Inr (r, p'), w')
      \<and> (\<forall>x. r = Inr x \<longrightarrow> pred_option (\<lambda>(result, b). same_account a b) x)"
    by (cases r) (auto simp: acquired_route_def retS_def)
qed

lemma gives_hydrate:
  assumes "snapshot_ok V"
  shows "gives (\<lambda>h. ga_id h = ga_id a) (hydrateSelectedAccount V a)"
proof (cases "sv_snapshot V")
  case None
  then show ?thesis by (simp add: hydrateSelectedAccount_def gives_ret)
next
  case (Some get)
  have g: "gives (pred_option (\<lambda>h. ga_id h = ga_id a)) (liftS (get (ga_id a)))"
  proof (rule gives_lift)
    fix w r w'
    assume "get (ga_id a) w = (Inr r, w')"
    then show "pred_option (\<lambda>h. ga_id h = ga_id a) r" using assms Some by (cases r) (auto simp: snapshot_ok_def)
  qed
  have "gives (\<lambda>h. ga_id h = ga_id a) (case h of
            None \<Rightarrow> errS e
          | Some hydrated \<Rightarrow>
              if ga_selected_proxy a > 0
              then (case WithProxyRoute (sv_now V) hydrated (ga_selected_proxy a) of Some r \<Rightarrow> retS r | None \<Rightarrow> errS e')
              else retS hydrated)" if "pred_option (\<lambda>h. ga_id h = ga_id a) h" for h e e'
  proof (cases h)
    case (Some x)
    then show ?thesis using that
      by (cases "WithProxyRoute (sv_now V) x (ga_selected_proxy a)")
        (auto intro!: gives_ret gives_err dest: WithProxyRoute_same simp: same_account_def)
  qed (simp add: gives_err)
  from gives_bind[OF g this] show ?thesis by (simp add: hydrateSelectedAccount_def Some)
qed

lemma gives_selection:
  fixes V :: "'s sel_env"
  assumes "snapshot_ok V"
  shows "gives (\<lambda>sel. ga_id (sel_account sel) = ga_id a \<and> sel_acquired sel = acq \<and> sel_wait sel = plan \<and> sel_release sel = rf)
    (newSelectionResult V a acq rf plan)"
proof (rule givesI)
  fix p w
  obtain r p1 w1 where h: "hydrateSelectedAccount V a p w = (Inr (r, p1), w1)" "\<And>x. r = Inr x \<Longrightarrow> ga_id x = ga_id a"
    using gives_hydrate[OF assms, of a] by (rule givesE[where p = p and w = w]) blast
  have e: "gives (\<lambda>_. False) (bindS (if acq then releaseS V rf else retS ()) (\<lambda>_. errS e :: proc \<Rightarrow> ('s, selection) svc))" for e
    by (auto intro!: gives_bind[OF gives_release] gives_bind[OF gives_ret[where Q = "\<lambda>_. True"]] gives_err)
  have E: "\<exists>e' p' w'. bindS (if acq then releaseS V rf else retS ()) (\<lambda>_. errS e :: proc \<Rightarrow> ('s, selection) svc) p1 w1 = (Inr (Inl e', p'), w')"
    for e
  proof -
    obtain x p' w' where x: "bindS (if acq then releaseS V rf else retS ()) (\<lambda>_. errS e :: proc \<Rightarrow> ('s, selection) svc) p1 w1 = (Inr (x, p'), w')"
      "\<And>b. x = Inr b \<Longrightarrow> False"
      using e[of e] by (rule givesE[where p = p1 and w = w1]) blast
    then show ?thesis by (cases x) auto
  qed
  show "\<exists>r p' w'. newSelectionResult V a acq rf plan p w = (Inr (r, p'), w') \<and> (\<forall>sel. r = Inr sel \<longrightarrow>
      ga_id (sel_account sel) = ga_id a \<and> sel_acquired sel = acq \<and> sel_wait sel = plan \<and> sel_release sel = rf)"
  proof (cases r)
    case (Inl e)
    then show ?thesis using h(1) E[of e] by (auto simp: newSelectionResult_def simp del: if_split)
  next
    case (Inr x)
    show ?thesis
    proof (cases "acq \<and> \<not> validateProxyReservation a x")
      case True
      then show ?thesis using h(1) Inr E[of "ErrInvalid ''proxy configuration changed during admission''"]
        by (auto simp: newSelectionResult_def simp del: if_split)
    next
      case False
      then show ?thesis using h Inr by (auto simp: newSelectionResult_def retS_def)
    qed
  qed
qed

lemma offers_selection:
  assumes "snapshot_ok V" "usable V rq a" "same_account a b"
    "acq \<Longrightarrow> plan = None" "\<not> acq \<Longrightarrow> \<exists>x. plan = Some x \<and> wp_account x = ga_id a \<and> wp_max x = ga_concurrency a"
  shows "offers (selection_from V rq) (bindS (newSelectionResult V b acq rf plan) (\<lambda>sel. retS (Some sel)))"
proof (rule offers_some, rule gives_mono[OF gives_selection[OF assms(1)]])
  fix sel :: selection
  assume "ga_id (sel_account sel) = ga_id b \<and> sel_acquired sel = acq \<and> sel_wait sel = plan \<and> sel_release sel = rf"
  then show "selection_from V rq sel"
    using assms(2-5) unfolding selection_from_def usable_def same_account_def
    by (intro bexI[of _ a]) (cases acq; auto)+
qed

lemma gives_lift_any: "gives (\<lambda>_. True) (liftS q)"
  by (rule gives_lift) simp

lemma gives_any_if: "gives (\<lambda>_. True) m \<Longrightarrow> gives (\<lambda>_. True) k \<Longrightarrow> gives (\<lambda>_. True) (if b then m else k)"
  by simp

lemma offers_if: "(b \<Longrightarrow> offers Q m) \<Longrightarrow> (\<not> b \<Longrightarrow> offers Q k) \<Longrightarrow> offers Q (if b then m else k)"
  by simp

lemmas any_rules = gives_lift_any gives_any_if gives_ret[where Q = "\<lambda>_. True", OF TrueI] gives_release

section \<open>The layers\<close>

text \<open>After a slot: the session is registered, or the slot goes back and \<open>next\<close> runs.\<close>

lemma offers_admitted:
  assumes "snapshot_ok V" "usable V rq a" "same_account a b" "offers (selection_from V rq) nxt"
    "gives (\<lambda>_. True) m"
  shows "offers (selection_from V rq)
    (bindS (liftS q) (\<lambda>ok. if \<not> ok then bindS (releaseS V rf) (\<lambda>_. nxt)
       else bindS m (\<lambda>_. bindS (newSelectionResult V b True rf None) (\<lambda>sel. retS (Some sel)))))"
  using assms by (auto intro!: offers_bind[OF gives_lift_any] offers_bind[OF gives_release] offers_bind[OF assms(5)]
      offers_selection[where plan = None])

lemma offers_admitted_plain:
  assumes "snapshot_ok V" "usable V rq a" "same_account a b" "offers (selection_from V rq) nxt"
  shows "offers (selection_from V rq)
    (bindS (liftS q) (\<lambda>ok. if \<not> ok then bindS (releaseS V rf) (\<lambda>_. nxt)
       else bindS (newSelectionResult V b True rf None) (\<lambda>sel. retS (Some sel))))"
  using assms by (auto intro!: offers_bind[OF gives_lift_any] offers_bind[OF gives_release]
      offers_selection[where plan = None])

lemma offers_acquired:
  assumes "offers Q m" "\<And>result b. same_account a b \<Longrightarrow> offers Q (k result b)"
  shows "offers Q (bindS (acquired_route V a) (\<lambda>r. case r of None \<Rightarrow> m | Some (result, acc) \<Rightarrow> k result acc))"
  using assms by (auto intro!: offers_bind[OF gives_acquired] split: option.splits)

lemma offers_try_account:
  assumes "snapshot_ok V" "usable V rq a"
  shows "offers (selection_from V rq) (try_account V rq a)"
  unfolding try_account_def
  by (rule offers_acquired[OF offers_none], rule offers_admitted[OF assms _ offers_none])
    (simp_all add: any_rules)

lemma offers_wait_at:
  assumes "snapshot_ok V" "usable V rq a" "same_account a b" "wp_account plan = ga_id a" "wp_max plan = ga_concurrency a"
  shows "offers (selection_from V rq) (wait_at V rq plan b)"
  unfolding wait_at_def
  by (rule offers_bind[OF gives_lift_any], rule offers_if[OF offers_none], rule offers_selection[OF assms(1-3)])
    (simp_all add: assms)

lemma offers_sticky_wait:
  assumes "snapshot_ok V" "usable V rq a" "same_account a b" "i = ga_id a"
  shows "offers (selection_from V rq) (sticky_wait V rq i b)"
  unfolding sticky_wait_def
  by (rule offers_bind[OF gives_lift_any], rule offers_if[OF offers_wait_at[OF assms(1-3)] offers_none])
    (use assms(3,4) in \<open>simp_all add: sticky_plan_def same_account_def\<close>)

lemma account_by_id_Some:
  assumes "account_by_id rq i = Some a"
  shows "a \<in> set (rq_accounts rq) \<and> ga_id a = i"
proof -
  obtain j where j: "j < length (rev (rq_accounts rq))" "ga_id (rev (rq_accounts rq) ! j) = i" "a = rev (rq_accounts rq) ! j"
    using assms by (auto simp: account_by_id_def find_Some_iff)
  then have "a \<in> set (rev (rq_accounts rq))" using nth_mem by blast
  then show ?thesis using j(2,3) by simp
qed

lemma filterW_result:
  "filterW g xs w = (Inr ys, w') \<Longrightarrow> y \<in> set ys \<Longrightarrow> y \<in> set xs \<and> (\<exists>w1 w2. g y w1 = (Inr True, w2))"
proof (induction xs arbitrary: ys w w')
  case (Cons x xs)
  obtain r w1 where g: "g x w = (r, w1)" by fastforce
  then obtain ok where ok: "r = Inr ok" using Cons.prems(1) by (cases r) (auto simp: bindW_def)
  obtain r2 w2 where f: "filterW g xs w1 = (r2, w2)" by fastforce
  then obtain zs where zs: "r2 = Inr zs" using Cons.prems(1) g ok by (cases r2) (auto simp: bindW_def)
  have "ys = (if ok then x # zs else zs)" using Cons.prems(1) g ok f zs by (auto simp: bindW_def)
  then show ?case using Cons.IH[OF f[unfolded zs]] Cons.prems(2) g ok by (auto split: if_splits)
qed simp

lemma gives_candidates:
  "(\<And>x. x \<in> set xs \<Longrightarrow> x \<in> set (rq_accounts rq) \<and> ga_id x \<notin> set (rq_excluded rq)) \<Longrightarrow>
   gives (\<lambda>ys. \<forall>y\<in>set ys. usable V rq y) (liftS (filterW (candidate_gates V rq) xs))"
proof (rule gives_lift, rule ballI)
  fix w ys w' y
  assume xs: "\<And>x. x \<in> set xs \<Longrightarrow> x \<in> set (rq_accounts rq) \<and> ga_id x \<notin> set (rq_excluded rq)"
    and f: "filterW (candidate_gates V rq) xs w = (Inr ys, w')" "y \<in> set ys"
  from filterW_result[OF f] obtain w1 w2 where y: "y \<in> set xs" "candidate_gates V rq y w1 = (Inr True, w2)" by blast
  then have p: "pure_gates V rq y" by (auto simp: candidate_gates_def split: if_splits)
  obtain r w3 where c: "isAccountSchedulableForWindowCost V y False w1 = (r, w3)" by fastforce
  then have "r = Inr True" "isAccountSchedulableForRPM V y False w3 = (Inr True, w2)"
    using y(2) p by (auto simp: candidate_gates_def bindW_def split: sum.splits if_splits)
  with c have "spending_ok V rq y False" by (auto simp: spending_ok_def measured_gates_def)
  then show "usable V rq y" using xs[OF y(1)] p by (auto simp: usable_def)
qed

lemma set_with_loads: "c \<in> set (with_loads m cs) \<Longrightarrow> fst c \<in> set cs"
  by (auto simp: with_loads_def)

lemma set_sort_routed [simp]: "set (sort_routed rnd cs) = set cs"
proof -
  have "mset (sort_routed rnd cs) = mset cs" by (simp add: sort_routed_def)
  then show ?thesis by (rule mset_eq_setD)
qed

lemma asked: "q w = (Inr b, w') \<Longrightarrow> b \<longrightarrow> (\<exists>w w'. q w = (Inr True, w'))"
  by (cases b) (simp_all, blast+)

lemma asked_if: "(if c then q else returnW False) w = (Inr b, w') \<Longrightarrow> b \<longrightarrow> c \<and> (\<exists>w w'. q w = (Inr True, w'))"
  by (cases c; cases b) (simp_all, blast+)

lemma offers_routed_sticky:
  assumes "snapshot_ok V" "rq_prefetched rq > 0 \<Longrightarrow> sticky = rq_prefetched rq"
  shows "offers (selection_from V rq) (routed_sticky V rq sticky)"
proof (cases "account_by_id rq sticky")
  case None
  then show ?thesis unfolding routed_sticky_def
    by (auto intro!: offers_if offers_none offers_bind[OF gives_lift_any])
next
  case (Some a)
  note a = account_by_id_Some[OF Some]
  have body: "offers (selection_from V rq) (bindS (acquired_route V a) (\<lambda>r. case r of
                None \<Rightarrow> sticky_wait V rq sticky a
              | Some (result, acc) \<Rightarrow>
                  bindS (liftS (checkAndRegisterSession V acc (rq_session rq))) (\<lambda>ok.
                    if \<not> ok then bindS (releaseS V (ReleaseFunc result)) (\<lambda>_. retS None)
                    else bindS (newSelectionResult V acc True (ReleaseFunc result) None) (\<lambda>sel. retS (Some sel)))))"
    if "usable V rq a"
    using assms(1) that a
    by (auto intro!: offers_acquired offers_sticky_wait offers_admitted_plain offers_none)
  have gate: "gives (\<lambda>b. b \<longrightarrow> pure_gates V rq a \<and> (\<exists>w w'. isAccountSchedulableForWindowCost V a True w = (Inr True, w')))
      (liftS (if pure_gates V rq a then isAccountSchedulableForWindowCost V a True else returnW False))"
    by (rule gives_lift) (rule asked_if)
  have rpm: "gives (\<lambda>b. b \<longrightarrow> g \<and> (\<exists>w w'. isAccountSchedulableForRPM V a True w = (Inr True, w')))
      (liftS (if g then isAccountSchedulableForRPM V a True else returnW False))" for g
    by (rule gives_lift) (rule asked_if)
  show ?thesis unfolding routed_sticky_def Some option.case
  proof (rule offers_if[OF offers_none], rule offers_bind[OF gate], rule offers_bind[OF rpm], rule offers_if[OF offers_none])
    fix g r
    assume "\<not> \<not> (rq_session rq \<noteq> [] \<and> 0 < sticky \<and> sticky \<in> set (rq_routing rq) \<and> sticky \<notin> set (rq_excluded rq))"
      "g \<longrightarrow> pure_gates V rq a \<and> (\<exists>w w'. isAccountSchedulableForWindowCost V a True w = (Inr True, w'))"
      "r \<longrightarrow> g \<and> (\<exists>w w'. isAccountSchedulableForRPM V a True w = (Inr True, w'))" "\<not> \<not> r"
    then have "usable V rq a" using a assms(2) by (auto simp: usable_def spending_ok_def measured_gates_def)
    from body[OF this] show "offers (selection_from V rq) (bindS (acquired_route V a) (\<lambda>r. case r of
                None \<Rightarrow> sticky_wait V rq sticky a
              | Some (result, acc) \<Rightarrow>
                  bindS (liftS (checkAndRegisterSession V acc (rq_session rq))) (\<lambda>ok.
                    if \<not> ok then bindS (releaseS V (ReleaseFunc result)) (\<lambda>_. retS None)
                    else bindS (newSelectionResult V acc True (ReleaseFunc result) None) (\<lambda>sel. retS (Some sel)))))" .
  qed
qed

lemma offers_layer_sticky:
  assumes "snapshot_ok V" "rq_prefetched rq > 0 \<Longrightarrow> sticky = rq_prefetched rq"
  shows "offers (selection_from V rq) (layer_sticky V rq sticky)"
proof (cases "account_by_id rq sticky")
  case None
  then show ?thesis unfolding layer_sticky_def by (simp add: offers_none)
next
  case (Some a)
  note a = account_by_id_Some[OF Some]
  have body: "offers (selection_from V rq) (bindS (acquired_route V a) (\<lambda>r. case r of
                None \<Rightarrow> sticky_wait V rq sticky a
              | Some (result, acc) \<Rightarrow>
                  bindS (liftS (checkAndRegisterSession V acc (rq_session rq))) (\<lambda>ok.
                    if \<not> ok then bindS (releaseS V (ReleaseFunc result)) (\<lambda>_. sticky_wait V rq sticky acc)
                    else bindS (liftS (tryW (RefreshSessionTTL (sv_redis V) (rq_group rq) (rq_session rq)))) (\<lambda>_.
                      bindS (newSelectionResult V acc True (ReleaseFunc result) None) (\<lambda>sel. retS (Some sel))))))"
    if u: "usable V rq a"
    using a by (intro offers_acquired offers_sticky_wait[OF assms(1) u] offers_admitted[OF assms(1) u] gives_lift_any) simp_all
  have cost: "gives (\<lambda>b. b \<longrightarrow> (\<exists>w w'. isAccountSchedulableForWindowCost V a True w = (Inr True, w')))
      (liftS (isAccountSchedulableForWindowCost V a True))"
    by (rule gives_lift) (rule asked)
  have rpm: "gives (\<lambda>b. b \<longrightarrow> (\<exists>w w'. isAccountSchedulableForRPM V a True w = (Inr True, w')))
      (liftS (isAccountSchedulableForRPM V a True))"
    by (rule gives_lift) (rule asked)
  show ?thesis unfolding layer_sticky_def Some option.case
    by (rule offers_if[OF offers_none], rule offers_bind, rule gives_any_if[OF gives_lift_any any_rules(3)],
        rule offers_bind[OF cost], rule offers_bind[OF rpm], rule offers_if[OF offers_none],
        rule body) (use a assms(2) in \<open>auto simp: usable_def spending_ok_def measured_gates_def\<close>)
qed

lemma offers_layer1:
  assumes "snapshot_ok V" "rq_prefetched rq > 0 \<Longrightarrow> sticky = rq_prefetched rq"
  shows "offers (selection_from V rq) (layer1 V rq sticky)"
proof -
  have r: "x \<in> set (rq_accounts rq) \<and> ga_id x \<notin> set (rq_excluded rq)" if x: "x \<in> set (routing_accounts rq)" for x
  proof -
    from x obtain i where "i \<notin> set (rq_excluded rq)" "account_by_id rq i = Some x"
      by (auto simp: routing_accounts_def List.map_filter_def split: if_splits)
    then show ?thesis using account_by_id_Some by blast
  qed
  have av: "gives (\<lambda>cs. \<forall>c\<in>set cs. usable V rq (fst c)) (routed_available V ys)" if "\<forall>y\<in>set ys. usable V rq y" for ys
    unfolding routed_available_def
    by (rule gives_bind[OF gives_lift_any], rule gives_ret) (use that set_with_loads in blast)
  have loops: "offers (selection_from V rq) (orS (first_try (\<lambda>c. try_account V rq (fst c)) cs)
      (first_try (\<lambda>c. wait_at V rq (sticky_plan V (ga_id (fst c)) (ga_concurrency (fst c))) (fst c)) cs))"
    if "\<forall>c\<in>set cs. usable V rq (fst c)" for cs :: "cand list"
    using that
    by (intro offers_or offers_first_try offers_try_account[OF assms(1)] offers_wait_at[OF assms(1)])
      (auto simp: sticky_plan_def)
  show ?thesis unfolding layer1_def Let_def
    by (rule offers_if[OF offers_none], rule offers_bind[OF gives_candidates[OF r]], assumption,
        rule offers_if[OF offers_none], rule offers_or[OF offers_routed_sticky[OF assms]], assumption,
        rule offers_bind[OF av], assumption, rule offers_if[OF offers_none], rule loops) simp
qed

lemma set_try_order: "set (try_order rnd now soonest pr cs) \<subseteq> set cs"
proof (induction rnd now soonest pr cs rule: try_order.induct)
  case (1 rnd now soonest pr cs)
  show ?case
  proof (cases "cs = [] \<or> pick_next (rnd (length cs)) now soonest pr cs = None")
    case True
    then show ?thesis by (subst try_order.simps) auto
  next
    case False
    then obtain s where s: "cs \<noteq> []" "pick_next (rnd (length cs)) now soonest pr cs = Some s" by auto
    have "set (try_order rnd now soonest pr (remove_tried (ga_id (fst s)) cs)) \<subseteq> set cs"
      using 1[OF s] by (auto simp: remove_tried_def)
    then show ?thesis using s pick_next_member[OF s(2,1)] by (subst try_order.simps) simp
  qed
qed

lemma offers_layer2:
  assumes "snapshot_ok V" "\<forall>y\<in>set ys. usable V rq y"
  shows "offers (selection_from V rq) (layer2 V rq ys)"
proof -
  have s: "set (sortAccountsByPriorityAndLastUsed f pr ys) = set ys" for f pr
  proof -
    have "mset (sortAccountsByPriorityAndLastUsed f pr ys) = mset ys"
      by (simp add: sortAccountsByPriorityAndLastUsed_def)
    then show ?thesis by (rule mset_eq_setD)
  qed
  have legacy: "offers (selection_from V rq) (tryAcquireByLegacyOrder V rq ys)"
    unfolding tryAcquireByLegacyOrder_def
    by (rule offers_first_try, rule offers_try_account[OF assms(1)]) (use assms(2) s in auto)
  have loop: "offers (selection_from V rq) (layer2_loop V rq (with_loads m ys))" for m
    unfolding layer2_first_try
    by (rule offers_first_try, rule offers_try_account[OF assms(1)])
      (use assms(2) set_try_order set_with_loads in blast)
  show ?thesis unfolding layer2_def
    by (rule offers_bind[OF gives_lift_any]) (auto intro: legacy loop split: sum.splits)
qed

lemma offers_layers_2_3:
  assumes "snapshot_ok V"
  shows "offers (selection_from V rq) (layers_2_3 V rq)"
proof -
  have l3: "offers (selection_from V rq) (layer3 V rq ys)" if ys: "\<forall>y\<in>set ys. usable V rq y" for ys
  proof -
    have "set (sortCandidatesForFallback f pr md ys) = set ys" for f pr md
      by (rule mset_eq_setD[OF mset_sortCandidatesForFallback])
    then show ?thesis unfolding layer3_def
      by (intro offers_first_try offers_wait_at[OF assms]) (use ys in \<open>auto simp: fallback_plan_def\<close>)
  qed
  show ?thesis unfolding layers_2_3_def
    by (rule offers_bind[OF gives_candidates], simp, rule offers_if[OF offers_err],
        rule offers_or[OF offers_layer2[OF assms] l3])
qed

lemma gives_sticky: "gives (\<lambda>i. rq_prefetched rq > 0 \<longrightarrow> i = rq_prefetched rq) (liftS (stickyAccountID V rq))"
  by (rule gives_lift) (auto simp: stickyAccountID_def split: if_splits)

lemma gives_select:
  assumes "snapshot_ok V"
  shows "gives (selection_from V rq) (select_layers V rq)"
proof -
  have "offers (selection_from V rq) (orS (layer1 V rq sticky) (orS (layer_sticky V rq sticky) (layers_2_3 V rq)))"
    if "rq_prefetched rq > 0 \<longrightarrow> sticky = rq_prefetched rq" for sticky
    using that by (intro offers_or offers_layer1 offers_layer_sticky offers_layers_2_3 assms) simp_all
  then have o: "gives (pred_option (selection_from V rq)) (orS (layer1 V rq sticky) (orS (layer_sticky V rq sticky) (layers_2_3 V rq)))"
    if "rq_prefetched rq > 0 \<longrightarrow> sticky = rq_prefetched rq" for sticky using that by (simp add: offers_def)
  then have "gives (selection_from V rq) (bindS (orS (layer1 V rq sticky) (orS (layer_sticky V rq sticky) (layers_2_3 V rq)))
      (\<lambda>r. case r of Some sel \<Rightarrow> retS sel | None \<Rightarrow> errS ErrNoAvailableAccounts))"
    if "rq_prefetched rq > 0 \<longrightarrow> sticky = rq_prefetched rq" for sticky
    by (auto intro!: gives_bind[OF o[OF that]] gives_ret gives_err split: option.splits)
  then show ?thesis unfolding select_layers_def
    by (intro gives_bind[OF gives_sticky]) (simp add: gives_err)
qed

end
