(* ===== verification/Selection_Slots.thy ===== *)
theory Selection_Slots
  imports Selection_Logic
begin

text \<open>
  A selection keeps no slot but the one it returns.  \<open>slot_members\<close> are the members of this process in
  the slot sets of accounts and proxies; the other clients may do anything but add to them
  (\<open>friendly\<close>).  A program that adds none is \<open>adds_none\<close>; taking a slot adds what its release closure
  \<open>held\<close>s, and releasing removes it.
\<close>

section \<open>The slots of this process\<close>

definition slot_key :: "key \<Rightarrow> bool" where
  "slot_key k \<longleftrightarrow> (\<exists>a. k = accountSlotKey a) \<or> (\<exists>a q. k = accountProxySlotKey a q)"

definition slot_members :: "'s redis \<Rightarrow> string \<Rightarrow> 's \<Rightarrow> (key \<times> member) set" where
  "slot_members R pre s = {(k, m). slot_key k \<and> own pre m \<and> r_zscore R s k m \<noteq> None}"

definition friendly :: "'s redis \<Rightarrow> string \<Rightarrow> 's world \<Rightarrow> bool" where
  "friendly R pre w \<longleftrightarrow>
     (\<forall>e f. (e, f) \<in> set (w_net w) \<longrightarrow> f = Fine \<and> (\<forall>s. slot_members R pre (e s) \<subseteq> slot_members R pre s))"

definition adds_none :: "'s redis \<Rightarrow> string \<Rightarrow> ('s, 'a) prog \<Rightarrow> bool" where
  "adds_none R pre q \<longleftrightarrow> (\<forall>w. friendly R pre w \<longrightarrow> friendly R pre (snd (q w))
     \<and> slot_members R pre (w_db (snd (q w))) \<subseteq> slot_members R pre (w_db w))"

text \<open>What a release closure stands for.\<close>

definition held :: "release_fn option \<Rightarrow> (key \<times> member) set" where
  "held rf = (case rf of
     Some (RelAccount a rid) \<Rightarrow> {(accountSlotKey a, rid)}
   | Some (RelProxy a q rid) \<Rightarrow> {(accountSlotKey a, rid), (accountProxySlotKey a q, rid)}
   | _ \<Rightarrow> {})"

named_theorems adds_none_intros \<open>programs that add no slot\<close>

lemma adds_noneD:
  assumes "adds_none R pre q" "friendly R pre w" "q w = (r, w')"
  shows "friendly R pre w'" "slot_members R pre (w_db w') \<subseteq> slot_members R pre (w_db w)"
  using assms by (simp_all add: adds_none_def) (metis snd_conv)+

lemma adds_noneI:
  assumes "\<And>w r w'. friendly R pre w \<Longrightarrow> q w = (r, w')
      \<Longrightarrow> friendly R pre w' \<and> slot_members R pre (w_db w') \<subseteq> slot_members R pre (w_db w)"
  shows "adds_none R pre q"
  using assms by (simp add: adds_none_def) (metis prod.exhaust_sel)

lemma friendly_round_trip:
  assumes "friendly R pre w"
  shows "\<exists>s w'. round_trip f w = (Inr (fst (f s)), w') \<and> w_db w' = snd (f s) \<and> friendly R pre w'
    \<and> slot_members R pre s \<subseteq> slot_members R pre (w_db w)"
proof (cases "w_net w")
  case Nil
  then show ?thesis using assms
    by (intro exI[of _ "w_db w"]) (simp add: round_trip.simps friendly_def split: prod.split)
next
  case (Cons x rest)
  then obtain e where x: "x = (e, Fine)" "slot_members R pre (e (w_db w)) \<subseteq> slot_members R pre (w_db w)"
    using assms by (cases x) (auto simp: friendly_def)
  show ?thesis using assms Cons x
    by (intro exI[of _ "e (w_db w)"]) (auto simp: round_trip.simps friendly_def split: prod.split)
qed

lemma adds_none_round_trip [adds_none_intros]:
  assumes "\<And>s. slot_members R pre (snd (f s)) \<subseteq> slot_members R pre s"
  shows "adds_none R pre (round_trip f)"
  unfolding adds_none_def
proof (intro allI impI)
  fix w
  assume "friendly R pre w"
  from friendly_round_trip[OF this, of f] obtain s w' where
    "round_trip f w = (Inr (fst (f s)), w')" "w_db w' = snd (f s)" "friendly R pre w'"
    "slot_members R pre s \<subseteq> slot_members R pre (w_db w)" by blast
  then show "friendly R pre (snd (round_trip f w))
      \<and> slot_members R pre (w_db (snd (round_trip f w))) \<subseteq> slot_members R pre (w_db w)"
    using assms[of s] by auto
qed

lemma adds_none_query [adds_none_intros]: "adds_none R pre (query f)"
  by (simp add: query_def adds_none_round_trip)

lemma adds_none_update [adds_none_intros]:
  "(\<And>s. slot_members R pre (f s) \<subseteq> slot_members R pre s) \<Longrightarrow> adds_none R pre (update f)"
  by (simp add: update_def adds_none_round_trip)

lemma adds_none_pure [adds_none_intros]: "adds_none R pre (returnW a)" "adds_none R pre (failW e)"
  by (simp_all add: adds_none_def)

lemma adds_none_bind [adds_none_intros]:
  assumes "adds_none R pre q" "\<And>a. adds_none R pre (k a)"
  shows "adds_none R pre (bindW q k)"
  unfolding adds_none_def
proof (intro allI impI)
  fix w
  assume w: "friendly R pre w"
  obtain r w1 where q: "q w = (r, w1)" by fastforce
  have 1: "friendly R pre w1" "slot_members R pre (w_db w1) \<subseteq> slot_members R pre (w_db w)"
    using adds_noneD[OF assms(1) w q] .
  show "friendly R pre (snd (bindW q k w)) \<and> slot_members R pre (w_db (snd (bindW q k w))) \<subseteq> slot_members R pre (w_db w)"
  proof (cases r)
    case (Inr a)
    have "friendly R pre (snd (k a w1)) \<and> slot_members R pre (w_db (snd (k a w1))) \<subseteq> slot_members R pre (w_db w1)"
      using assms(2)[of a] 1(1) by (simp add: adds_none_def)
    then show ?thesis using q Inr 1(2) by auto
  qed (use q 1 in simp)
qed

lemma adds_none_try [adds_none_intros]: "adds_none R pre q \<Longrightarrow> adds_none R pre (tryW q)"
  by (simp add: adds_none_def tryW_def)

lemma adds_none_catch [adds_none_intros]: "adds_none R pre q \<Longrightarrow> adds_none R pre (catchW q)"
  by (rule adds_noneI) (auto simp: catchW_def dest: adds_noneD split: prod.splits)

lemma adds_none_cases [adds_none_intros]:
  "(b \<Longrightarrow> adds_none R pre q) \<Longrightarrow> (\<not> b \<Longrightarrow> adds_none R pre q') \<Longrightarrow> adds_none R pre (if b then q else q')"
  "adds_none R pre q \<Longrightarrow> (\<And>a. adds_none R pre (f a)) \<Longrightarrow> adds_none R pre (case x of None \<Rightarrow> q | Some a \<Rightarrow> f a)"
  "(\<And>e. adds_none R pre (g e)) \<Longrightarrow> (\<And>a. adds_none R pre (h a)) \<Longrightarrow> adds_none R pre (case y of Inl e \<Rightarrow> g e | Inr a \<Rightarrow> h a)"
  "(\<And>a b. adds_none R pre (k a b)) \<Longrightarrow> adds_none R pre (case z of (a, b) \<Rightarrow> k a b)"
  by (cases x; cases y; cases z; simp)+

lemma adds_none_pipeline [adds_none_intros]:
  assumes "\<And>f s. f \<in> set fs \<Longrightarrow> slot_members R pre (snd (f s)) \<subseteq> slot_members R pre s"
  shows "adds_none R pre (pipelineW fs)"
  using assms
proof (induction fs)
  case Nil
  then show ?case by (simp add: adds_none_def)
next
  case (Cons f fs)
  have "pipelineW (f # fs) = bindW (catchW (round_trip f)) (\<lambda>r. bindW (catchW (pipelineW fs)) (\<lambda>rs.
      (case r of Inl e \<Rightarrow> failW e | Inr a \<Rightarrow> (case rs of Inl e \<Rightarrow> failW e | Inr as \<Rightarrow> returnW (a # as)))))"
    by (rule ext) (auto simp: bindW_def catchW_def failW_def returnW_def split: prod.split sum.split)
  moreover have "adds_none R pre (round_trip f)" "adds_none R pre (pipelineW fs)"
    using Cons by (auto intro: adds_none_round_trip)
  ultimately show ?case by (auto intro!: adds_none_intros)
qed

section \<open>Commands\<close>

context redis_store
begin

lemma slots_prune [simp]: "slot_members R pre (r_zremrangebyscore R s k hi) \<subseteq> slot_members R pre s"
  by (auto simp: slot_members_def zscore_zremrange split: if_splits)

lemma slots_zrem: "slot_members R pre (r_zrem R s k m) = slot_members R pre s - {(k, m)}"
  by (auto simp: slot_members_def zscore_zrem split: if_splits)

lemma slots_expire [simp]: "slot_members R pre (r_expire R s k d) \<subseteq> slot_members R pre s"
  by (auto simp: slot_members_def r_expire_def zscore_pexpire split: if_splits)

lemma slots_zadd: "slot_members R pre (r_zadd R s k sc m) \<subseteq> insert (k, m) (slot_members R pre s)"
  by (auto simp: slot_members_def zscore_zadd split: if_splits)

lemma slots_zadd_other: "\<not> slot_key k \<Longrightarrow> slot_members R pre (r_zadd R s k sc m) = slot_members R pre s"
  by (auto simp: slot_members_def zscore_zadd split: if_splits)

lemma slots_set_other: "\<not> slot_key k \<Longrightarrow> slot_members R pre (r_set R s k v px) = slot_members R pre s"
  by (auto simp: slot_members_def) (metis zscore_set)+

lemma slots_set_string:
  assumes "px = None \<or> 0 < the px"
  shows "slot_members R pre (r_set R s k v px) \<subseteq> slot_members R pre s"
proof -
  have "r_zscore R (r_set R s k v px) k' m = (if k' = k then None else r_zscore R s k' m)" for k' m
    using zscore_set zscore_set_same[OF assms] by simp
  then show ?thesis by (auto simp: slot_members_def split: if_splits)
qed

lemma slots_del [simp]: "slot_members R pre (r_del R s k) \<subseteq> slot_members R pre s"
  by (auto simp: slot_members_def zscore_del split: if_splits)

lemma slot_key_simps [simp]: "slot_key (accountSlotKey a)" "slot_key (accountProxySlotKey a q)"
  "\<not> slot_key accountActiveIndexKey" "\<not> slot_key (accountProxyCursorKey a)" "\<not> slot_key (sessionLimitKey a)"
  by (auto simp: slot_key_def key_simps)
    (simp_all add: sessionLimitKey_def sessionLimitKeyPrefix_def slot_key_defs prefix_defs)

section \<open>Programs that add no slot\<close>

lemma adds_none_touch [adds_none_intros]: "adds_none R pre (touchActiveIndexAt R accountActiveIndexKey i t)"
  unfolding touchActiveIndexAt_def by (intro adds_none_intros) (simp add: slots_zadd_other)

lemma cmd_slots [simp]:
  "slot_members R pre (snd (cmd_prune R k hi s)) \<subseteq> slot_members R pre s"
  "slot_members R pre (snd (cmd_zcard R k s)) = slot_members R pre s"
  "slot_members R pre (snd (cmd_get R k s)) = slot_members R pre s"
  "slot_members R pre (snd (cmd_zcount_above R k hi s)) = slot_members R pre s"
  by (simp_all add: cmd_prune_def cmd_zcard_def cmd_get_def cmd_zcount_above_def)

lemma adds_none_load [adds_none_intros]: "adds_none R pre (readActiveLoadForKey R c i sk wk now)"
  unfolding readActiveLoadForKey_def load_cmds_def
  by (intro adds_none_intros) (auto simp: cmd_slots(2,3) dest!: subsetD[OF cmd_slots(1)])

lemma adds_none_refresh [adds_none_intros]: "adds_none R pre (refreshAccountActiveIndex R c i)"
  unfolding refreshAccountActiveIndex_def refreshActiveIndex_def redisUnixSeconds_def Let_def
  by (intro adds_none_intros) (simp add: slots_zrem)

lemma slots_register: "slot_members R pre (snd (registerSessionScript R (sessionLimitKey i) mx idle u s)) \<subseteq> slot_members R pre s"
proof -
  let ?p = "r_zremrangebyscore R s (sessionLimitKey i) (time_sec R s - idle)"
  have "slot_members R pre (r_expire R (r_zadd R ?p (sessionLimitKey i) t u) (sessionLimitKey i) d) \<subseteq> slot_members R pre s" for t d
    using slots_expire[of pre "r_zadd R ?p (sessionLimitKey i) t u" "sessionLimitKey i" d]
      slots_zadd_other[of "sessionLimitKey i" pre ?p t u] slots_prune[of pre s "sessionLimitKey i" "time_sec R s - idle"]
    by (metis slot_key_simps(5) subset_trans)
  moreover have "slot_members R pre ?p \<subseteq> slot_members R pre s" by simp
  ultimately show ?thesis by (simp add: registerSessionScript_def Let_def)
qed

lemma adds_none_session [adds_none_intros]: "adds_none R pre (RegisterSession R sc i u mx d)"
  unfolding RegisterSession_def by (intro adds_none_intros slots_register)

lemma adds_none_sticky [adds_none_intros]:
  "adds_none R pre (GetSessionAccountID R g h)"
  "adds_none R pre (BindStickySession R g h i)"
  "adds_none R pre (RefreshSessionTTL R g h)"
  "adds_none R pre (DeleteSessionAccountID R g h)"
proof -
  show "adds_none R pre (GetSessionAccountID R g h)" "adds_none R pre (RefreshSessionTTL R g h)"
    "adds_none R pre (DeleteSessionAccountID R g h)"
    unfolding GetSessionAccountID_def RefreshSessionTTL_def DeleteSessionAccountID_def
    by (intro adds_none_intros; simp)+
  show "adds_none R pre (BindStickySession R g h i)"
    unfolding BindStickySession_def SetSessionAccountID_def
    by (intro adds_none_intros slots_set_string) (simp add: stickySessionTTL_def)
qed

lemma adds_none_reads [adds_none_intros]:
  "adds_none R pre (GetWindowCost R parse zero i)"
  "adds_none R pre (SetWindowCost R print i cost)"
  "adds_none R pre (GetRPM R i)"
  "adds_none R pre (GetAccountWaitingCount R i)"
proof -
  show "adds_none R pre (GetWindowCost R parse zero i)" "adds_none R pre (GetAccountWaitingCount R i)"
    unfolding GetWindowCost_def GetAccountWaitingCount_def by (intro adds_none_intros)+
  show "adds_none R pre (SetWindowCost R print i cost)"
    unfolding SetWindowCost_def by (intro adds_none_intros slots_set_string) (simp add: windowCostCacheTTL_def)
  show "adds_none R pre (GetRPM R i)"
    unfolding GetRPM_def currentMinute_def get_int_def by (intro adds_none_intros)
qed

text \<open>The batch read that stands behind \<open>sv_loads\<close>.\<close>

lemma adds_none_batch: "adds_none R pre (GetAccountsLoadBatch R c accounts)"
  unfolding GetAccountsLoadBatch_def redisUnixSeconds_def count_cmds_def
  by (intro adds_none_intros) (auto simp: cmd_slots(2,3,4) dest!: subsetD[OF cmd_slots(1)])

section \<open>Taking and giving back\<close>

lemma slots_take:
  "slot_members R pre (r_expire R (r_zadd R s k t m) k d) \<subseteq> insert (k, m) (slot_members R pre s)"
  using slots_expire[of pre "r_zadd R s k t m" k d] slots_zadd[of pre s k t m] by blast

lemma slots_acquire:
  "slot_members R pre (snd (acquireScript R k lk mx ttl m s))
     \<subseteq> slot_members R pre s \<union> (if fst (fst (acquireScript R k lk mx ttl m s)) = 1 then {(k, m)} else {})"
proof -
  let ?p = "r_zremrangebyscore R (r_zremrangebyscore R s k (time_sec R s - ttl)) lk (time_sec R s - 60)"
  have p: "slot_members R pre ?p \<subseteq> slot_members R pre s"
    using slots_prune[of pre "r_zremrangebyscore R s k (time_sec R s - ttl)" lk "time_sec R s - 60"]
      slots_prune[of pre s k "time_sec R s - ttl"] by blast
  moreover have "slot_members R pre (r_expire R (r_zadd R ?p k t m) k d) \<subseteq> insert (k, m) (slot_members R pre s)" for t d
    using slots_take[of pre ?p k t m d] p by blast
  ultimately show ?thesis by (auto simp: acquireScript_def Let_def simp del: zscore_zremrange)
qed

lemma slots_pool_scan:
  "pool_scan R acc now ttl m lst n ps i start s = (r, s') \<Longrightarrow>
     (case r of Inr _ \<Rightarrow> slot_members R pre s' \<subseteq> slot_members R pre s
      | Inl pid \<Rightarrow> \<exists>key. (key, pid) \<in> set ps \<and> slot_members R pre s' \<subseteq> slot_members R pre s \<union> {(acc, m), (key, m)})"
proof (induction ps arbitrary: i start s)
  case (Cons p ps)
  obtain key pid where p: "p = (key, pid)" by (cases p)
  let ?s = "r_zremrangebyscore R s key (now - ttl)"
  have s: "slot_members R pre ?s \<subseteq> slot_members R pre s" by simp
  show ?case
  proof (cases "r_zscore R ?s key m = None")
    case True
    then have "pool_scan R acc now ttl m lst n ps (i + 1) (if lst = Some pid then (i + 1) mod n else start) ?s = (r, s')"
      using Cons.prems by (simp add: p Let_def del: zscore_zremrange)
    note IH = Cons.IH[OF this]
    show ?thesis
    proof (cases r)
      case (Inl q)
      then obtain k' where "(k', q) \<in> set ps" "slot_members R pre s' \<subseteq> slot_members R pre ?s \<union> {(acc, m), (k', m)}"
        using IH by auto
      moreover from this(2) s have "slot_members R pre s' \<subseteq> slot_members R pre s \<union> {(acc, m), (k', m)}" by blast
      ultimately show ?thesis unfolding p Inl sum.case by (intro exI[of _ k'] conjI) simp_all
    next
      case (Inr n')
      then have "slot_members R pre s' \<subseteq> slot_members R pre ?s" using IH by simp
      then show ?thesis using s unfolding Inr sum.case by (rule subset_trans)
    qed
  next
    case False
    then have "r = Inl pid" "s' = r_expire R (r_zadd R (r_expire R (r_zadd R ?s key now m) key ttl) acc now m) acc ttl"
      using Cons.prems by (auto simp: p Let_def simp del: zscore_zremrange)
    moreover have "slot_members R pre (r_expire R (r_zadd R (r_expire R (r_zadd R ?s key now m) key ttl) acc now m) acc ttl)
        \<subseteq> slot_members R pre s \<union> {(acc, m), (key, m)}"
      using slots_take[of pre "r_expire R (r_zadd R ?s key now m) key ttl" acc now m ttl] slots_take[of pre ?s key now m ttl] s
      by blast
    ultimately show ?thesis by (auto simp: p)
  qed
qed auto

lemma pool_keys_set:
  "pool_keys a seen ids = Some ps \<Longrightarrow> (key, pid) \<in> set ps \<Longrightarrow>
    \<exists>i\<in>set ids. 0 < i \<and> key = accountProxySlotKey a i \<and> pid = format_int i"
proof (induction ids arbitrary: seen ps)
  case (Cons i ids)
  then obtain qs where qs: "0 < i" "pool_keys a (i # seen) ids = Some qs" "ps = (accountProxySlotKey a i, format_int i) # qs"
    by (auto split: if_splits)
  then show ?case using Cons.IH[OF qs(2)] Cons.prems(2) by auto
qed simp

lemma slots_pool:
  assumes "pool_keys a seen ids = Some ps" "\<forall>i\<in>set ids. in_int64 i"
  shows "slot_members R pre (snd (acquireProxyPoolScript R (accountSlotKey a) lk (accountProxyCursorKey a) ps limit ttl m pinned s))
     \<subseteq> slot_members R pre s
       \<union> (if fst (fst (acquireProxyPoolScript R (accountSlotKey a) lk (accountProxyCursorKey a) ps limit ttl m pinned s)) = 0 then {}
          else {(accountSlotKey a, m), (accountProxySlotKey a
            (fst (fst (acquireProxyPoolScript R (accountSlotKey a) lk (accountProxyCursorKey a) ps limit ttl m pinned s))), m)})"
    (is "slot_members R pre (snd ?A) \<subseteq> _")
proof -
  let ?now = "time_sec R s" and ?acc = "accountSlotKey a"
  define s1 where "s1 = r_zremrangebyscore R (r_zremrangebyscore R s ?acc (?now - ttl)) lk (?now - 60)"
  have s1: "slot_members R pre s1 \<subseteq> slot_members R pre s"
    using slots_prune[of pre "r_zremrangebyscore R s ?acc (?now - ttl)" lk "?now - 60"]
      slots_prune[of pre s ?acc "?now - ttl"] unfolding s1_def by blast
  obtain r s2 where c: "pool_scan R ?acc ?now ttl m (r_get R s1 (accountProxyCursorKey a)) (length ps) ps 0 0 s1 = (r, s2)"
    by fastforce
  note scan = slots_pool_scan[OF c, of pre]
  show ?thesis
  proof (cases r)
    case (Inl pid)
    then obtain key where k: "(key, pid) \<in> set ps"
      "slot_members R pre s2 \<subseteq> slot_members R pre s1 \<union> {(?acc, m), (key, m)}" using scan by auto
    from pool_keys_set[OF assms(1) k(1)] obtain i where i: "0 < i" "key = accountProxySlotKey a i" "pid = format_int i" "i \<in> set ids"
      by blast
    have n: "parse_int pid = Some i" using i(3,4) assms(2) by (simp add: parse_int_format_int)
    have "?A = ((i, ?now), s2)" using c Inl n by (simp add: acquireProxyPoolScript_def Let_def s1_def)
    then show ?thesis using k(2) i s1 by auto
  next
    case (Inr start)
    then have s2: "slot_members R pre s2 \<subseteq> slot_members R pre s1" using scan by simp
    show ?thesis
    proof (cases "limit > 0 \<and> r_zcard R s2 ?acc + r_zcard R s2 lk \<ge> limit * int (length ps)
        \<or> pool_pick R limit pinned ps start [0..<length ps] s2 = None")
      case True
      then have "?A = ((0, ?now), s2)" using c Inr by (auto simp: acquireProxyPoolScript_def Let_def s1_def)
      then show ?thesis using s1 s2 by auto
    next
      case False
      then obtain key pid where pp: "pool_pick R limit pinned ps start [0..<length ps] s2 = Some (key, pid)" by force
      then have "ps \<noteq> []" by auto
      from pool_pick_Some[OF pp this] have "(key, pid) \<in> set ps" by blast
      from pool_keys_set[OF assms(1) this] obtain i where i: "0 < i" "key = accountProxySlotKey a i" "pid = format_int i" "i \<in> set ids"
        by blast
      have n: "parse_int pid = Some i" using i(3,4) assms(2) by (simp add: parse_int_format_int)
      let ?s3 = "r_expire R (r_zadd R s2 key ?now m) key ttl"
      let ?s4 = "r_expire R (r_zadd R ?s3 ?acc ?now m) ?acc ttl"
      have "?A = ((i, ?now), r_set R ?s4 (accountProxyCursorKey a) pid (Some (ttl * 1000)))"
        using c Inr False pp n by (auto simp: acquireProxyPoolScript_def Let_def s1_def)
      moreover have "slot_members R pre ?s4 \<subseteq> slot_members R pre s \<union> {(?acc, m), (key, m)}"
        using slots_take[of pre ?s3 ?acc ?now m ttl] slots_take[of pre s2 key ?now m ttl] s1 s2 by blast
      ultimately show ?thesis using i by (auto simp: slots_set_other)
    qed
  qed
qed

end

end
