(* ===== verification/Selection_Leaks.thy ===== *)
theory Selection_Leaks
  imports Selection_Slots Selection_Logic Service_Properties
begin

text \<open>
  The invariant of a selection: the slots of this process are those of \<open>M\<close>, and the next \<open>k\<close> request
  ids are new (\<open>slots_at\<close>).  Every step keeps it, up to the closure a result carries.
\<close>

section \<open>Request ids\<close>

definition request_id :: "proc \<Rightarrow> nat \<Rightarrow> member" where
  "request_id p j = rid_prefix p @ ''-'' @ format36 (unat (rid_counter p + of_nat j))"

definition upcoming :: "nat \<Rightarrow> proc \<Rightarrow> member set" where
  "upcoming k p = request_id p ` {1..k}"

text \<open>None of the next \<open>k\<close> ids has been released already.\<close>

definition fresh_ids :: "nat \<Rightarrow> proc \<Rightarrow> bool" where
  "fresh_ids k p \<longleftrightarrow> k < 2 ^ 64 \<and> upcoming k p \<inter> set (once_done p) = {}"

lemma upcoming_mono: "n \<le> k \<Longrightarrow> upcoming n p \<subseteq> upcoming k p"
  unfolding upcoming_def by (intro image_mono) auto

lemma fresh_ids_mono: "fresh_ids k p \<Longrightarrow> n \<le> k \<Longrightarrow> fresh_ids n p"
  using upcoming_mono[of n k p] by (auto simp: fresh_ids_def)

lemma fresh_generate:
  assumes "fresh_ids (Suc k) p" "generateRequestID p = (rid, p1)"
  shows "rid \<notin> set (once_done p1) \<union> upcoming k p1" "fresh_ids k p1"
proof -
  have p1: "p1 = p\<lparr>rid_counter := rid_counter p + 1\<rparr>" "rid = request_id p 1"
    using assms(2) by (auto simp: generateRequestID_def request_id_def Let_def)
  have shift: "request_id p1 = (\<lambda>j. request_id p (Suc j))"
    by (rule ext) (simp add: request_id_def p1 add.assoc)
  have up: "upcoming k p1 = request_id p ` {2..Suc k}"
  proof -
    have "upcoming k p1 = request_id p ` (Suc ` {1..k})" by (simp only: upcoming_def shift image_image)
    also have "Suc ` {1..k} = {2..Suc k}" by (simp add: image_Suc_atLeastAtMost numeral_2_eq_2)
    finally show ?thesis .
  qed
  have "request_id p 1 \<noteq> request_id p j" if j: "j \<in> {2..Suc k}" for j
  proof
    assume "request_id p 1 = request_id p j"
    then have "format36 (unat (rid_counter p + of_nat 1)) = format36 (unat (rid_counter p + of_nat j))"
      by (simp add: request_id_def)
    then have "rid_counter p + of_nat 1 = rid_counter p + of_nat j"
      by (intro word_unat_eq_iff[THEN iffD2] format36_inj)
    then have "(of_nat 1 :: 64 word) = of_nat j" by (rule add_left_imp_eq)
    then have "unat (of_nat 1 :: 64 word) = unat (of_nat j :: 64 word)" by simp
    then have "1 mod (2 :: nat) ^ 64 = j mod 2 ^ 64" by (simp only: unat_of_nat) simp
    then show False using j assms(1) by (simp add: fresh_ids_def)
  qed
  then have "rid \<notin> upcoming k p1" unfolding p1(2) up by blast
  moreover have "rid \<in> upcoming (Suc k) p" by (simp add: p1(2) upcoming_def)
  ultimately show "rid \<notin> set (once_done p1) \<union> upcoming k p1" using assms(1) by (auto simp: fresh_ids_def p1(1))
  have "upcoming k p1 \<subseteq> upcoming (Suc k) p" unfolding up unfolding upcoming_def by (intro image_mono) auto
  then show "fresh_ids k p1" using assms(1) by (auto simp: fresh_ids_def p1(1))
qed

section \<open>The invariant\<close>

definition slots_at :: "'s redis \<Rightarrow> string \<Rightarrow> (key \<times> member) set \<Rightarrow> nat \<Rightarrow> 's sel_state \<Rightarrow> bool" where
  "slots_at R pre M k \<sigma> \<longleftrightarrow> friendly R pre (snd \<sigma>) \<and> slot_members R pre (w_db (snd \<sigma>)) \<subseteq> M \<and> fresh_ids k (fst \<sigma>)"

text \<open>A closure of this selection that has not run.\<close>

definition spare :: "nat \<Rightarrow> release_fn option \<Rightarrow> proc \<Rightarrow> bool" where
  "spare k rf p = (case rf of
     None \<Rightarrow> True | Some RelNothing \<Rightarrow> True
   | Some (RelAccount a rid) \<Rightarrow> rid \<notin> set (once_done p) \<union> upcoming k p
   | Some (RelProxy a q rid) \<Rightarrow> rid \<notin> set (once_done p) \<union> upcoming k p
   | _ \<Rightarrow> False)"

definition holding :: "'s redis \<Rightarrow> string \<Rightarrow> (key \<times> member) set \<Rightarrow> nat \<Rightarrow> release_fn option \<Rightarrow> 's sel_state \<Rightarrow> bool" where
  "holding R pre M k rf \<sigma> \<longleftrightarrow> slots_at R pre (M \<union> held rf) k \<sigma> \<and> spare k rf (fst \<sigma>)"

lemma slots_at_mono: "slots_at R pre M k \<sigma> \<Longrightarrow> M \<subseteq> M' \<Longrightarrow> n \<le> k \<Longrightarrow> slots_at R pre M' n \<sigma>"
  by (auto simp: slots_at_def intro: fresh_ids_mono)

lemma slots_at_adds_none:
  assumes "adds_none R pre q" "slots_at R pre M k (p, w)" "q w = (r, w')"
  shows "slots_at R pre M k (p, w')"
  using adds_noneD[OF assms(1) _ assms(3)] assms(2) by (auto simp: slots_at_def)

lemma holding_adds_none:
  assumes "adds_none R pre q" "holding R pre M k rf (p, w)" "q w = (r, w')"
  shows "holding R pre M k rf (p, w')"
  using slots_at_adds_none[OF assms(1) _ assms(3)] assms(2) by (auto simp: holding_def)

lemma holding_none: "holding R pre M k None \<sigma> \<longleftrightarrow> slots_at R pre M k \<sigma>"
  by (simp add: holding_def held_def spare_def)

text \<open>The result of an acquisition holds what its closure would release.\<close>

definition taken_ok :: "'s redis \<Rightarrow> string \<Rightarrow> (key \<times> member) set \<Rightarrow> nat \<Rightarrow> AcquireResult \<Rightarrow> 's sel_state \<Rightarrow> bool" where
  "taken_ok R pre M k result \<sigma> \<longleftrightarrow>
     holding R pre M k (ReleaseFunc result) \<sigma> \<and> (\<not> Acquired result \<longrightarrow> ReleaseFunc result = None)"

text \<open>The services consulted on the way add no slots themselves.\<close>

definition gate_ok :: "'s redis \<Rightarrow> string \<Rightarrow> 's gate option \<Rightarrow> bool" where
  "gate_ok R pre gate \<longleftrightarrow> (\<forall>check i. gate = Some check \<longrightarrow> adds_none R pre (check i))"

definition perf_ok :: "'s redis \<Rightarrow> string \<Rightarrow> 's perf \<Rightarrow> bool" where
  "perf_ok R pre perf \<longleftrightarrow> (case perf of
     NoPerf \<Rightarrow> True
   | PerfTrial trial \<Rightarrow> \<forall>i. adds_none R pre (trial i)
       \<and> (\<forall>w b cancel w'. trial i w = (Inr (b, Some cancel), w') \<longrightarrow> adds_none R pre cancel)
   | PerfReader paused \<Rightarrow> \<forall>i. adds_none R pre (paused i))"

section \<open>Releasing\<close>

context redis_store
begin

lemma drop_slot:
  assumes "friendly R pre w" "slot_members R pre (w_db w) \<subseteq> M \<union> D"
    "\<And>s. slot_members R pre (snd (f s)) \<subseteq> slot_members R pre s - D" "adds_none R pre k"
    "bindW (round_trip f) (\<lambda>_. k) w = (r, w')"
  shows "friendly R pre w' \<and> slot_members R pre (w_db w') \<subseteq> M"
proof -
  from friendly_round_trip[OF assms(1), of f] obtain s w1 where
    1: "round_trip f w = (Inr (fst (f s)), w1)" "w_db w1 = snd (f s)" "friendly R pre w1"
      "slot_members R pre s \<subseteq> slot_members R pre (w_db w)" by blast
  have "slot_members R pre (w_db w1) \<subseteq> M" using 1(2,4) assms(2) assms(3)[of s] by auto
  moreover have "k w1 = (r, w')" using 1(1) assms(5) by simp
  ultimately show ?thesis using adds_noneD[OF assms(4) 1(3)] by blast
qed

lemma run_release_slots:
  assumes "holding R pre M k (Some rf) (p, w)"
  shows "\<exists>p' w'. run_release R c rf p w = (Inr p', w') \<and> slots_at R pre M k (p', w')"
proof -
  note h = assms[unfolded holding_def slots_at_def, simplified]
  have once: "fresh_ids k (p\<lparr>once_done := rid # once_done p\<rparr>)" if "rid \<notin> set (once_done p) \<union> upcoming k p" for rid
    using h that by (auto simp: fresh_ids_def upcoming_def request_id_def)
  show ?thesis
  proof (cases rf)
    case RelNothing
    then show ?thesis using h by (simp add: slots_at_def held_def)
  next
    case (RelAccount a rid)
    obtain r w' where w': "ReleaseAccountSlot R c a rid w = (r, w')" by fastforce
    have "friendly R pre w' \<and> slot_members R pre (w_db w') \<subseteq> M"
      by (rule drop_slot[where D = "{(accountSlotKey a, rid)}",
            OF _ _ _ adds_none_refresh w'[unfolded ReleaseAccountSlot_def update_def]])
        (use h RelAccount in \<open>auto simp: held_def slots_zrem\<close>)
    then show ?thesis using h w' RelAccount once[of rid]
      by (simp add: spare_def slots_at_def)
  next
    case (RelProxy a q rid)
    obtain r w' where w': "ReleaseAccountProxyPoolSlot R c a q rid w = (r, w')" by fastforce
    have "friendly R pre w' \<and> slot_members R pre (w_db w') \<subseteq> M"
      by (rule drop_slot[where D = "{(accountSlotKey a, rid), (accountProxySlotKey a q, rid)}",
            OF _ _ _ adds_none_refresh w'[unfolded ReleaseAccountProxyPoolSlot_def]])
        (use h RelProxy in \<open>auto simp: held_def slots_zrem releaseProxyPoolScript_def\<close>)
    then show ?thesis using h w' RelProxy once[of rid]
      by (simp add: spare_def slots_at_def)
  qed (use h in \<open>simp_all add: spare_def\<close>)
qed

section \<open>Acquiring\<close>

lemma ends_touch: "ends (touchActiveIndexAt R index i t)"
  unfolding touchActiveIndexAt_def by (intro ends_rules)

lemma valid_slots: "slots_at R pre M k (p, w) \<Longrightarrow> friendly R pre w \<and> slot_members R pre (w_db w) \<subseteq> M \<and> fresh_ids k p"
  by (simp add: slots_at_def)

lemma account_slot_taken:
  assumes "friendly R pre w" "AcquireAccountSlot R c a mx rid w = (r, w')"
  shows "friendly R pre w' \<and> (\<exists>ok. r = Inr ok \<and> slot_members R pre (w_db w')
    \<subseteq> slot_members R pre (w_db w) \<union> (if ok then {(accountSlotKey a, rid)} else {}))"
proof -
  let ?f = "acquireScript R (accountSlotKey a) (liveAccountSlotKey a) mx (slotTTLSeconds c) rid"
  from friendly_round_trip[OF assms(1), of ?f] obtain s w1 where
    1: "round_trip ?f w = (Inr (fst (?f s)), w1)" "w_db w1 = snd (?f s)" "friendly R pre w1"
      "slot_members R pre s \<subseteq> slot_members R pre (w_db w)" by blast
  obtain result now where rn: "fst (?f s) = (result, now)" by fastforce
  let ?t = "if result = 1 then touchActiveIndexAt R accountActiveIndexKey a (now + slotTTLSeconds c) else returnW ()"
  have t: "adds_none R pre ?t" by (intro adds_none_intros)
  obtain w2 where w2: "?t w1 = (Inr (), w2)"
  proof -
    have "ends ?t" by (intro ends_cases ends_touch ends_intros)
    from endsD[OF this, of w1] show thesis using that by (metis (full_types) unit.exhaust)
  qed
  have r: "r = Inr (result = 1)" "w' = w2"
    using assms(2) 1(1) rn w2 by (auto simp: AcquireAccountSlot_def bindW_def)
  note s2 = adds_noneD[OF t 1(3) w2]
  have "slot_members R pre (w_db w1) \<subseteq> slot_members R pre s \<union> (if result = 1 then {(accountSlotKey a, rid)} else {})"
    using slots_acquire[of pre "accountSlotKey a" "liveAccountSlotKey a" mx "slotTTLSeconds c" rid s] 1(2) rn by simp
  then have "slot_members R pre (w_db w2) \<subseteq> slot_members R pre (w_db w) \<union> (if result = 1 then {(accountSlotKey a, rid)} else {})"
    using s2(2) 1(4) by auto
  then show ?thesis using r s2(1) by auto
qed

lemma pool_slot_taken:
  assumes "friendly R pre w" "AcquireAccountProxyPoolSlot R c a ids mx rid pinned w = (r, w')" "\<forall>i\<in>set ids. in_int64 i"
  shows "friendly R pre w' \<and> slot_members R pre (w_db w') \<subseteq> slot_members R pre (w_db w)
    \<union> (case r of Inl e \<Rightarrow> {} | Inr q \<Rightarrow> if q = 0 then {} else {(accountSlotKey a, rid), (accountProxySlotKey a q, rid)})"
proof (cases "ids = [] \<or> pool_keys a [] ids = None")
  case True
  then have "w' = w \<and> (\<exists>e. r = Inl e)" using assms(2)
    unfolding AcquireAccountProxyPoolSlot_def Let_def by (elim disjE) (auto split: if_splits)
  then show ?thesis using assms(1) by auto
next
  case False
  then obtain ps where ps: "pool_keys a [] ids = Some ps" "ids \<noteq> []" by auto
  define pin where "pin = (case pinned of [] \<Rightarrow> 0 | p # _ \<Rightarrow> p)"
  let ?f = "acquireProxyPoolScript R (accountSlotKey a) (liveAccountSlotKey a) (accountProxyCursorKey a) ps mx
      (slotTTLSeconds c) rid pin"
  from friendly_round_trip[OF assms(1), of ?f] obtain s w1 where
    1: "round_trip ?f w = (Inr (fst (?f s)), w1)" "w_db w1 = snd (?f s)" "friendly R pre w1"
      "slot_members R pre s \<subseteq> slot_members R pre (w_db w)" by blast
  obtain sel now where rn: "fst (?f s) = (sel, now)" by fastforce
  let ?t = "if sel > 0 then touchActiveIndexAt R accountActiveIndexKey a (now + slotTTLSeconds c) else returnW ()"
  have t: "adds_none R pre ?t" by (intro adds_none_intros)
  obtain w2 where w2: "?t w1 = (Inr (), w2)"
  proof -
    have "ends ?t" by (intro ends_cases ends_touch ends_intros)
    from endsD[OF this, of w1] show thesis using that by (metis (full_types) unit.exhaust)
  qed
  have r: "r = Inr sel" "w' = w2"
    using assms(2) 1(1) rn w2 ps by (auto simp: AcquireAccountProxyPoolSlot_def bindW_def pin_def Let_def)
  note s2 = adds_noneD[OF t 1(3) w2]
  have "slot_members R pre (w_db w1) \<subseteq> slot_members R pre s
      \<union> (if sel = 0 then {} else {(accountSlotKey a, rid), (accountProxySlotKey a sel, rid)})"
    using slots_pool[OF ps(1) assms(3), of pre "liveAccountSlotKey a" mx "slotTTLSeconds c" rid pin s] 1(2) rn
    by (cases "sel = 0") simp_all
  then have "slot_members R pre (w_db w2) \<subseteq> slot_members R pre (w_db w)
      \<union> (if sel = 0 then {} else {(accountSlotKey a, rid), (accountProxySlotKey a sel, rid)})"
    using s2(2) 1(4) by auto
  then show ?thesis using r s2(1) by simp
qed

lemma valid_admit:
  assumes "gate_ok R pre gate"
    "Acquired result" "ReleaseFunc result \<noteq> None"
  shows "valid (holding R pre M k (ReleaseFunc result)) (admitAccountRequest R c gate a result)
    (taken_ok R pre M k) (slots_at R pre M k)"
proof (rule validI)
  fix p w
  assume h: "holding R pre M k (ReleaseFunc result) (p, w)"
  show "(\<exists>x p' w'. admitAccountRequest R c gate a result p w = (Inr (Inr x, p'), w') \<and> taken_ok R pre M k x (p', w'))
      \<or> (\<exists>e p' w'. admitAccountRequest R c gate a result p w = (Inr (Inl e, p'), w') \<and> slots_at R pre M k (p', w'))"
  proof (cases gate)
    case None
    then show ?thesis using h assms(2) by (auto simp: admitAccountRequest_def taken_ok_def)
  next
    case (Some check)
    obtain v w1 where v: "check a w = (v, w1)" by fastforce
    have h1: "holding R pre M k (ReleaseFunc result) (p, w1)"
      by (rule holding_adds_none[where q = "check a" and w = w and r = v])
        (use assms(1) Some h v in \<open>simp_all add: gate_ok_def\<close>)
    obtain rf where rf: "ReleaseFunc result = Some rf" using assms(3) by blast
    from run_release_slots[OF h1[unfolded rf], of c] obtain p2 w2 where
      "run_release R c rf p w1 = (Inr p2, w2)" "slots_at R pre M k (p2, w2)" by blast
    then show ?thesis using Some v assms(2) rf h1
      by (cases "v = Inr True") (auto simp: admitAccountRequest_def catchW_def bindW_def taken_ok_def)
  qed
qed

lemma taken_none: "slots_at R pre M k \<sigma> \<Longrightarrow> taken_ok R pre M k not_acquired \<sigma>"
  by (simp add: taken_ok_def not_acquired_def holding_none)

lemma valid_run: "valid P m Q E \<Longrightarrow> P (p, w) \<Longrightarrow> (\<exists>x p' w'. m p w = (Inr (Inr x, p'), w') \<and> Q x (p', w'))
      \<or> (\<exists>e p' w'. m p w = (Inr (Inl e, p'), w') \<and> E (p', w'))"
  by (erule (1) validE) blast+

lemma valid_pool:
  assumes "gate_ok R pre gate" "\<forall>i\<in>set ids. in_int64 i"
  shows "valid (slots_at R pre M (Suc k)) (acquireAccountProxyPoolSlot R c gate a limit ids pinned)
    (taken_ok R pre M k) (slots_at R pre M k)"
proof (rule validI)
  fix p w
  assume s: "slots_at R pre M (Suc k) (p, w)"
  then have f: "friendly R pre w" "slot_members R pre (w_db w) \<subseteq> M" "fresh_ids (Suc k) p" by (auto simp: slots_at_def)
  let ?m = "acquireAccountProxyPoolSlot R c gate a limit ids pinned"
  show "(\<exists>x p' w'. ?m p w = (Inr (Inr x, p'), w') \<and> taken_ok R pre M k x (p', w'))
      \<or> (\<exists>e p' w'. ?m p w = (Inr (Inl e, p'), w') \<and> slots_at R pre M k (p', w'))"
  proof (cases "pool_keys a [] ids = None")
    case True
    then show ?thesis using slots_at_mono[OF s, of M k] by (auto simp: acquireAccountProxyPoolSlot_def)
  next
    case False
    obtain rid p1 where g: "generateRequestID p = (rid, p1)" by fastforce
    note new = fresh_generate[OF f(3) g]
    obtain r w1 where r: "AcquireAccountProxyPoolSlot R c a ids limit rid pinned w = (r, w1)" by fastforce
    note t = pool_slot_taken[OF f(1) r assms(2)]
    show ?thesis
    proof (cases "\<exists>q. r = Inr q \<and> q \<noteq> 0")
      case False
      then have "slots_at R pre M k (p1, w1)" using t f(2) new(2)
        by (cases r) (auto simp: slots_at_def)
      then show ?thesis using False r g \<open>pool_keys a [] ids \<noteq> None\<close> taken_none[of pre M k "(p1, w1)"]
        by (cases r) (auto simp: acquireAccountProxyPoolSlot_def catchW_def bindW_def)
    next
      case True
      then obtain q where q: "r = Inr q" "q \<noteq> 0" by blast
      let ?res = "\<lparr>ProxyID = q, Acquired = True, ReleaseFunc = Some (RelProxy a q rid)\<rparr>"
      have "holding R pre M k (ReleaseFunc ?res) (p1, w1)"
        using t f(2) new q by (auto simp: holding_def slots_at_def held_def spare_def)
      from valid_run[OF valid_admit[OF assms(1), of ?res M k c a] this]
      show ?thesis using q r g \<open>pool_keys a [] ids \<noteq> None\<close>
        by (auto simp: acquireAccountProxyPoolSlot_def catchW_def bindW_def)
    qed
  qed
qed

lemma valid_body:
  assumes "gate_ok R pre gate"
  shows "valid (slots_at R pre M (Suc k)) (acquire_account_body R c gate a mx [])
    (taken_ok R pre M k) (slots_at R pre M k)"
proof (rule validI)
  fix p w
  assume s: "slots_at R pre M (Suc k) (p, w)"
  then have f: "friendly R pre w" "slot_members R pre (w_db w) \<subseteq> M" "fresh_ids (Suc k) p" by (auto simp: slots_at_def)
  let ?m = "acquire_account_body R c gate a mx []"
  show "(\<exists>x p' w'. ?m p w = (Inr (Inr x, p'), w') \<and> taken_ok R pre M k x (p', w'))
      \<or> (\<exists>e p' w'. ?m p w = (Inr (Inl e, p'), w') \<and> slots_at R pre M k (p', w'))"
  proof (cases "mx \<le> 0")
    case True
    let ?res = "\<lparr>ProxyID = 0, Acquired = True, ReleaseFunc = Some RelNothing\<rparr>"
    have "holding R pre M k (ReleaseFunc ?res) (p, w)"
      using slots_at_mono[OF s, of M k] by (simp add: holding_def held_def spare_def)
    from valid_run[OF valid_admit[OF assms, of ?res M k c a] this]
    show ?thesis using True by (auto simp: acquire_account_body_def)
  next
    case False
    obtain rid p1 where g: "generateRequestID p = (rid, p1)" by fastforce
    note new = fresh_generate[OF f(3) g]
    obtain r w1 where r: "AcquireAccountSlot R c a mx rid w = (r, w1)" by fastforce
    from account_slot_taken[OF f(1) r] obtain ok where t: "friendly R pre w1" "r = Inr ok"
      "slot_members R pre (w_db w1) \<subseteq> slot_members R pre (w_db w) \<union> (if ok then {(accountSlotKey a, rid)} else {})" by blast
    show ?thesis
    proof (cases ok)
      case no: False
      then have "slots_at R pre M k (p1, w1)" using t f(2) new(2) by (auto simp: slots_at_def)
      then show ?thesis using False no r g t(2) taken_none[of pre M k "(p1, w1)"]
        by (auto simp: acquire_account_body_def catchW_def bindW_def)
    next
      case True
      let ?res = "\<lparr>ProxyID = 0, Acquired = True, ReleaseFunc = Some (RelAccount a rid)\<rparr>"
      have "holding R pre M k (ReleaseFunc ?res) (p1, w1)"
        using t f(2) new True by (auto simp: holding_def slots_at_def held_def spare_def)
      from valid_run[OF valid_admit[OF assms, of ?res M k c a] this]
      show ?thesis using False True r g t(2) by (auto simp: acquire_account_body_def catchW_def bindW_def)
    qed
  qed
qed

lemma slots_catch:
  assumes "adds_none R pre q" "slots_at R pre M k (p, w)"
  shows "\<exists>r w'. q w = (r, w') \<and> catchW q w = (Inr r, w') \<and> slots_at R pre M k (p, w')"
proof -
  obtain r w' where q: "q w = (r, w')" by fastforce
  show ?thesis using q slots_at_adds_none[OF assms q] by auto
qed

lemma valid_svc:
  assumes "gate_ok R pre gate" "perf_ok R pre perf"
  shows "valid (slots_at R pre M (Suc k)) (svcAcquireAccountSlot R c perf gate a mx [])
    (taken_ok R pre M k) (slots_at R pre M k)"
proof (rule validI)
  fix p w
  assume s: "slots_at R pre M (Suc k) (p, w)"
  let ?body = "acquire_account_body R c gate a mx []"
  let ?m = "svcAcquireAccountSlot R c perf gate a mx []"
  note less = slots_at_mono[of R pre M "Suc k" _ M k, simplified]
  note body = valid_run[OF valid_body[OF assms(1)]]
  show "(\<exists>x p' w'. ?m p w = (Inr (Inr x, p'), w') \<and> taken_ok R pre M k x (p', w'))
      \<or> (\<exists>e p' w'. ?m p w = (Inr (Inl e, p'), w') \<and> slots_at R pre M k (p', w'))"
  proof (cases perf)
    case NoPerf
    then show ?thesis using body[OF s] by (simp add: svcAcquireAccountSlot_def)
  next
    case (PerfReader paused)
    from slots_catch[of pre "paused a", OF _ s] obtain r w1 where
      r: "catchW (paused a) w = (Inr r, w1)" "slots_at R pre M (Suc k) (p, w1)"
      using assms(2) PerfReader by (auto simp: perf_ok_def)
    show ?thesis using r(1) body[OF r(2)] less[OF r(2)] taken_none[OF less[OF r(2)]] PerfReader
      by (cases r) (auto simp: svcAcquireAccountSlot_def)
  next
    case (PerfTrial trial)
    from slots_catch[of pre "trial a", OF _ s] obtain r w1 where
      r: "trial a w = (r, w1)" "catchW (trial a) w = (Inr r, w1)" "slots_at R pre M (Suc k) (p, w1)"
      using assms(2) PerfTrial by (auto simp: perf_ok_def)
    show ?thesis
    proof (cases "\<exists>cancel. r = Inr (True, cancel)")
      case False
      then show ?thesis using r(2) less[OF r(3)] taken_none[OF less[OF r(3)]] PerfTrial
        by (cases r) (auto simp: svcAcquireAccountSlot_def)
    next
      case True
      then obtain cancel where c: "r = Inr (True, cancel)" by blast
      have k: "\<And>kk. cancel = Some kk \<Longrightarrow> adds_none R pre kk"
        using assms(2) r(1) c unfolding perf_ok_def PerfTrial perf.case by blast
      have done': "slots_at R pre M k (p2, w2) \<Longrightarrow>
          \<exists>w3. bindW (case cancel of None \<Rightarrow> returnW () | Some kk \<Rightarrow> if b then tryW kk else returnW ()) (\<lambda>_. returnW x) w2
             = (Inr x, w3) \<and> slots_at R pre M k (p2, w3)" for b x p2 w2
      proof (cases "cancel = None \<or> \<not> b")
        case False
        then obtain kk where kk: "cancel = Some kk" b by auto
        assume "slots_at R pre M k (p2, w2)"
        from slots_catch[OF k[OF kk(1)] this] obtain r3 w3 where "kk w2 = (r3, w3)" "slots_at R pre M k (p2, w3)" by blast
        then show ?thesis using kk by simp
      qed (cases cancel; auto)
      from body[OF r(3), of c a mx] show ?thesis
      proof (elim disjE exE conjE)
        fix e p2 w2
        assume b: "?body p w1 = (Inr (Inl e, p2), w2)" "slots_at R pre M k (p2, w2)"
        from done'[OF b(2), of True "(Inl e :: err + AcquireResult, p2)"] obtain w3 where w3:
          "bindW (case cancel of None \<Rightarrow> returnW () | Some kk \<Rightarrow> if True then tryW kk else returnW ()) (\<lambda>_. returnW (Inl e :: err + AcquireResult, p2)) w2
             = (Inr (Inl e, p2), w3)" "slots_at R pre M k (p2, w3)" by blast
        have "?m p w = (Inr (Inl e, p2), w3)" using b(1) r(2) c PerfTrial w3(1)
          by (cases cancel) (auto simp: svcAcquireAccountSlot_def)
        then show ?thesis using w3(2) by blast
      next
        fix x p2 w2
        assume b: "?body p w1 = (Inr (Inr x, p2), w2)" "taken_ok R pre M k x (p2, w2)"
        show ?thesis
        proof (cases "Acquired x")
          case True
          then have "?m p w = (Inr (Inr x, p2), w2)" using b(1) r(2) c PerfTrial
            by (cases cancel) (auto simp: svcAcquireAccountSlot_def)
          then show ?thesis using b(2) by blast
        next
          case no: False
          then have "slots_at R pre M k (p2, w2)" using b(2) by (auto simp: taken_ok_def holding_none)
          from done'[OF this, of True "(Inr x :: err + AcquireResult, p2)"] obtain w3 where w3:
            "bindW (case cancel of None \<Rightarrow> returnW () | Some kk \<Rightarrow> if True then tryW kk else returnW ()) (\<lambda>_. returnW (Inr x :: err + AcquireResult, p2)) w2
             = (Inr (Inr x, p2), w3)" "slots_at R pre M k (p2, w3)" by blast
          then have "taken_ok R pre M k x (p2, w3)" using b(2) no by (auto simp: taken_ok_def holding_none)
          moreover have "?m p w = (Inr (Inr x, p2), w3)" using b(1) r(2) c PerfTrial w3(1) no
            by (cases cancel) (auto simp: svcAcquireAccountSlot_def)
          ultimately show ?thesis by blast
        qed
      qed
    qed
  qed
qed

end

end
