(* ===== verification/Selection_Safety.thy ===== *)
theory Selection_Safety
  imports Selection_Leaks
begin

text \<open>
  The layers keep the invariant of \<open>Selection_Leaks\<close>: \<open>costs n m\<close> says that \<open>m\<close> uses at most \<open>n\<close>
  request ids and leaves only the slot of the selection it gives.
\<close>

section \<open>The environment\<close>

definition env_ok :: "'s redis \<Rightarrow> string \<Rightarrow> 's sel_env \<Rightarrow> bool" where
  "env_ok R pre V \<longleftrightarrow> sv_redis V = R \<and> gate_ok R pre (sv_gate V) \<and> perf_ok R pre (sv_perf V)
     \<and> (\<forall>get i. sv_snapshot V = Some get \<longrightarrow> adds_none R pre (get i))
     \<and> (\<forall>x. adds_none R pre (sv_loads V x)) \<and> (\<forall>i t. adds_none R pre (sv_stats V i t))"

definition narrow :: "gw_account \<Rightarrow> bool" where
  "narrow a \<longleftrightarrow> (\<forall>i\<in>set (ga_proxy_ids a). in_int64 i)"

definition kept :: "'s redis \<Rightarrow> string \<Rightarrow> (key \<times> member) set \<Rightarrow> nat \<Rightarrow> selection option \<Rightarrow> 's sel_state \<Rightarrow> bool" where
  "kept R pre M k r \<sigma> = (case r of
     None \<Rightarrow> slots_at R pre M k \<sigma>
   | Some sel \<Rightarrow> slots_at R pre (M \<union> held (sel_release sel)) 0 \<sigma>)"

definition costs :: "'s redis \<Rightarrow> string \<Rightarrow> (key \<times> member) set \<Rightarrow> nat \<Rightarrow> (proc \<Rightarrow> ('s, selection option) svc) \<Rightarrow> bool" where
  "costs R pre M n m \<longleftrightarrow> (\<forall>k. valid (slots_at R pre M (n + k)) m (kept R pre M k) (slots_at R pre M 0))"

definition uses :: "'s redis \<Rightarrow> string \<Rightarrow> (key \<times> member) set \<Rightarrow> release_fn option \<Rightarrow> (proc \<Rightarrow> ('s, selection option) svc) \<Rightarrow> bool" where
  "uses R pre M rf m \<longleftrightarrow> (\<forall>k. valid (holding R pre M k rf) m (kept R pre M k) (slots_at R pre M 0))"

definition steady :: "'s redis \<Rightarrow> string \<Rightarrow> (key \<times> member) set \<Rightarrow> ('a \<Rightarrow> bool) \<Rightarrow> (proc \<Rightarrow> ('s, 'a) svc) \<Rightarrow> bool" where
  "steady R pre M P m \<longleftrightarrow> (\<forall>k. valid (slots_at R pre M k) m (\<lambda>a \<sigma>. P a \<and> slots_at R pre M k \<sigma>) (slots_at R pre M 0))"

lemma costsD: "costs R pre M n m \<Longrightarrow> valid (slots_at R pre M (n + k)) m (kept R pre M k) (slots_at R pre M 0)"
  by (simp add: costs_def)

lemma costs_none: "costs R pre M n (retS None)"
  unfolding costs_def
  by (intro allI valid_conseq[OF valid_ret[where Q = "kept R pre M _"]])
    (auto simp: kept_def intro: slots_at_mono)

lemma costs_err: "costs R pre M n (errS e)"
  unfolding costs_def
  by (intro allI valid_conseq[OF valid_err[where E = "slots_at R pre M 0"]]) (auto intro: slots_at_mono)

lemma costs_mono:
  assumes "costs R pre M n m" "n \<le> n'"
  shows "costs R pre M n' m"
  unfolding costs_def
proof
  fix k
  have "valid (slots_at R pre M (n + (n' - n + k))) m (kept R pre M (n' - n + k)) (slots_at R pre M 0)"
    using assms(1) by (rule costsD)
  then show "valid (slots_at R pre M (n' + k)) m (kept R pre M k) (slots_at R pre M 0)"
    by (rule valid_conseq)
      (use assms(2) in \<open>auto simp: kept_def intro: slots_at_mono split: option.splits\<close>)
qed

lemma costs_if: "(b \<Longrightarrow> costs R pre M n m) \<Longrightarrow> (\<not> b \<Longrightarrow> costs R pre M n m') \<Longrightarrow> costs R pre M n (if b then m else m')"
  by simp

lemma costs_or: "costs R pre M n m \<Longrightarrow> costs R pre M n' m' \<Longrightarrow> costs R pre M (n + n') (orS m m')"
  unfolding costs_def
proof (intro allI valid_or)
  fix k
  assume m: "\<forall>k. valid (slots_at R pre M (n + k)) m (kept R pre M k) (slots_at R pre M 0)"
    and m': "\<forall>k. valid (slots_at R pre M (n' + k)) m' (kept R pre M k) (slots_at R pre M 0)"
  show "valid (slots_at R pre M (n + n' + k)) m
      (\<lambda>r. case r of None \<Rightarrow> slots_at R pre M (n' + k) | Some x \<Rightarrow> kept R pre M k (Some x)) (slots_at R pre M 0)"
    by (rule valid_conseq[OF m[rule_format, of "n' + k"]]) (auto simp: kept_def add.assoc split: option.splits)
  show "valid (slots_at R pre M (n' + k)) m' (kept R pre M k) (slots_at R pre M 0)"
    using m' by blast
qed

lemma costs_first_try:
  "(\<And>x. x \<in> set xs \<Longrightarrow> costs R pre M n (f x)) \<Longrightarrow> costs R pre M (n * length xs) (first_try f xs)"
proof (induction xs)
  case (Cons x xs)
  have "costs R pre M (n + n * length xs) (orS (f x) (first_try f xs))"
    using Cons by (intro costs_or) auto
  then show ?case by simp
qed (simp add: costs_none)

lemma steadyI:
  "(\<And>k. valid (slots_at R pre M k) m (\<lambda>a \<sigma>. P a \<and> slots_at R pre M k \<sigma>) (slots_at R pre M 0)) \<Longrightarrow> steady R pre M P m"
  by (simp add: steady_def)

lemma steady_ret: "P a \<Longrightarrow> steady R pre M P (retS a)"
proof (rule steadyI)
  fix k
  assume "P a"
  then show "valid (slots_at R pre M k) (retS a) (\<lambda>a \<sigma>. P a \<and> slots_at R pre M k \<sigma>) (slots_at R pre M 0)"
    by (intro valid_conseq[OF valid_ret[of "\<lambda>a \<sigma>. P a \<and> slots_at R pre M k \<sigma>" a "slots_at R pre M 0"]]) auto
qed

lemma steady_lift:
  assumes "adds_none R pre q" "\<And>w a w'. q w = (Inr a, w') \<Longrightarrow> P a"
  shows "steady R pre M P (liftS q)"
proof (rule steadyI, rule validI)
  fix k p w
  assume s: "slots_at R pre M k (p, w)"
  obtain r w' where q: "q w = (r, w')" by fastforce
  have s': "slots_at R pre M k (p, w')" by (rule slots_at_adds_none[OF assms(1) s q])
  then have "slots_at R pre M 0 (p, w')" by (auto intro: slots_at_mono)
  then show "(\<exists>a p' w'. liftS q p w = (Inr (Inr a, p'), w') \<and> P a \<and> slots_at R pre M k (p', w'))
      \<or> (\<exists>e p' w'. liftS q p w = (Inr (Inl e, p'), w') \<and> slots_at R pre M 0 (p', w'))"
    using q s' assms(2)[of w] by (cases r) (auto simp: liftS_def)
qed

lemma steady_bind:
  assumes "steady R pre M P m" "\<And>a. P a \<Longrightarrow> steady R pre M Q (g a)"
  shows "steady R pre M Q (bindS m g)"
  unfolding steady_def
  by (intro allI valid_bind[OF assms(1)[unfolded steady_def, rule_format]] valid_pure assms(2)[unfolded steady_def, rule_format])

lemma costs_bind:
  assumes "steady R pre M P m" "\<And>a. P a \<Longrightarrow> costs R pre M n (g a)"
  shows "costs R pre M n (bindS m g)"
  unfolding costs_def
  by (intro allI valid_bind[OF assms(1)[unfolded steady_def, rule_format]] valid_pure assms(2)[unfolded costs_def, rule_format])

lemma uses_bind_lift:
  assumes "adds_none R pre q" "\<And>a. uses R pre M rf (g a)"
    and "\<And>w. \<exists>a w'. q w = (Inr a, w')"
  shows "uses R pre M rf (bindS (liftS q) g)"
  unfolding uses_def
proof (intro allI, rule validI)
  fix k p w
  assume h: "holding R pre M k rf (p, w)"
  obtain a w' where q: "q w = (Inr a, w')" using assms(3) by blast
  have "holding R pre M k rf (p, w')" by (rule holding_adds_none[OF assms(1) h q])
  then show "(\<exists>x p' w'. bindS (liftS q) g p w = (Inr (Inr x, p'), w') \<and> kept R pre M k x (p', w'))
      \<or> (\<exists>e p' w'. bindS (liftS q) g p w = (Inr (Inl e, p'), w') \<and> slots_at R pre M 0 (p', w'))"
    using assms(2)[of a, unfolded uses_def, rule_format, of k] q
    by (auto simp: bindS_def liftS_def elim!: validE)
qed

section \<open>Slots taken, given back and returned\<close>

context redis_store
begin

lemma valid_release:
  assumes "sv_redis V = R"
  shows "valid (holding R pre M k rf) (releaseS V rf) (\<lambda>_. slots_at R pre M k) E"
proof (rule validI)
  fix p w
  assume h: "holding R pre M k rf (p, w)"
  show "(\<exists>a p' w'. releaseS V rf p w = (Inr (Inr a, p'), w') \<and> slots_at R pre M k (p', w'))
      \<or> (\<exists>e p' w'. releaseS V rf p w = (Inr (Inl e, p'), w') \<and> E (p', w'))"
  proof (cases rf)
    case None
    then show ?thesis using h by (simp add: releaseS_def holding_none)
  next
    case (Some f)
    from run_release_slots[OF h[unfolded Some], of "sv_slots V"] obtain p' w' where
      "run_release R (sv_slots V) f p w = (Inr p', w')" "slots_at R pre M k (p', w')" by blast
    then show ?thesis using Some assms by (auto simp: releaseS_def)
  qed
qed

lemma valid_release_err:
  assumes "sv_redis V = R"
  shows "valid (holding R pre M k rf) (bindS (releaseS V rf) (\<lambda>_. errS e)) Q (slots_at R pre M k)"
  by (rule valid_bind[OF valid_release[OF assms] valid_err])

lemma valid_route:
  assumes "sv_redis V = R"
  shows "valid (taken_ok R pre M k result)
    (if \<not> Acquired result then retS (result, a) else bindS (RouteAccount V result a) (\<lambda>routed. retS (result, routed)))
    (\<lambda>(res, b). taken_ok R pre M k res) (slots_at R pre M k)"
proof -
  let ?E = "slots_at R pre M k"
  have ret: "valid (taken_ok R pre M k result) (retS (result, b)) (\<lambda>(res, b). taken_ok R pre M k res) ?E" for b
    using valid_ret[of "\<lambda>(res, b). taken_ok R pre M k res" "(result, b)" ?E] by simp
  have bind: "valid (taken_ok R pre M k result) (bindS (retS b) (\<lambda>routed. retS (result, routed)))
      (\<lambda>(res, b). taken_ok R pre M k res) ?E" for b
    by (rule valid_bind[OF valid_ret[of "\<lambda>_. taken_ok R pre M k result" b ?E]]) (rule ret)
  have fail: "valid (taken_ok R pre M k result) (bindS (bindS (releaseS V (ReleaseFunc result)) (\<lambda>_. errS e)) (\<lambda>routed. retS (result, routed)))
      (\<lambda>(res, b). taken_ok R pre M k res) ?E" for e
  proof (rule valid_bind[of _ _ "\<lambda>_ _. False"])
    show "valid (taken_ok R pre M k result) (bindS (releaseS V (ReleaseFunc result)) (\<lambda>_. errS e)) (\<lambda>_ _. False) ?E"
      by (rule valid_conseq[OF valid_release_err[OF assms]]) (simp_all add: taken_ok_def)
    show "valid (\<lambda>_. False) (retS (result, x)) (\<lambda>(res, b). taken_ok R pre M k res) ?E" for x by (simp add: valid_def)
  qed
  show ?thesis
    unfolding RouteAccount_def by (auto intro: ret bind fail split: option.split)
qed

lemma valid_try_acquire:
  assumes "env_ok R pre V" "narrow a"
  shows "valid (slots_at R pre M (Suc k)) (tryAcquireAccountSlot V a)
    (\<lambda>(res, b). taken_ok R pre M k res) (slots_at R pre M k)"
proof -
  have r: "sv_redis V = R" "gate_ok R pre (sv_gate V)" "perf_ok R pre (sv_perf V)" using assms(1) by (simp_all add: env_ok_def)
  have err: "valid (slots_at R pre M (Suc k)) (errS e) Q (slots_at R pre M k)" for e and Q :: "'b \<Rightarrow> 's sel_state \<Rightarrow> bool"
    by (rule valid_conseq[OF valid_err[of "slots_at R pre M k"]]) (auto intro: slots_at_mono)
  have ids: "\<forall>i\<in>set (available_proxies (sv_now V) a). in_int64 i"
    using assms(2) by (simp add: narrow_def available_proxies_def)
  have get: "valid (slots_at R pre M (Suc k))
      (if length (ga_proxy_ids a) > 1
       then (let ids = available_proxies (sv_now V) a
             in if ids = [] then errS (ErrInvalid ''account has no available proxy'')
                else acquireAccountProxyPoolSlot (sv_redis V) (sv_slots V) (sv_gate V) (ga_id a) l ids [ga_selected_proxy a])
       else svcAcquireAccountSlot (sv_redis V) (sv_slots V) (sv_perf V) (sv_gate V) (ga_id a) l [])
      (taken_ok R pre M k) (slots_at R pre M k)" for l
    unfolding r(1) Let_def by (intro valid_if err valid_pool[OF r(2) ids] valid_svc r)
  show ?thesis unfolding tryAcquireAccountSlot_def AcquireAccountRoute_def
    by (intro valid_if err valid_bind[OF get valid_route[OF r(1)]])
qed

lemma valid_acquired:
  assumes "env_ok R pre V" "narrow a"
  shows "valid (slots_at R pre M (Suc k)) (acquired_route V a)
    (\<lambda>r \<sigma>. case r of None \<Rightarrow> slots_at R pre M k \<sigma> | Some (res, b) \<Rightarrow> holding R pre M k (ReleaseFunc res) \<sigma>) E"
proof (rule validI)
  fix p w
  assume "slots_at R pre M (Suc k) (p, w)"
  with valid_try_acquire[OF assms, of M k]
  show "(\<exists>r p' w'. acquired_route V a p w = (Inr (Inr r, p'), w') \<and>
        (case r of None \<Rightarrow> slots_at R pre M k (p', w') | Some (res, b) \<Rightarrow> holding R pre M k (ReleaseFunc res) (p', w')))
      \<or> (\<exists>e p' w'. acquired_route V a p w = (Inr (Inl e, p'), w') \<and> E (p', w'))"
  proof (cases rule: validE)
    case (1 x p' w')
    obtain res b where x: "x = (res, b)" by fastforce
    show ?thesis
    proof (cases "Acquired res")
      case True
      then show ?thesis using 1 x by (simp add: acquired_route_def retS_def taken_ok_def)
    next
      case False
      then have "slots_at R pre M k (p', w')" using 1(2) x by (auto simp: taken_ok_def holding_none)
      then show ?thesis using 1(1) x False by (simp add: acquired_route_def retS_def)
    qed
  next
    case (2 e p' w')
    then show ?thesis by (simp add: acquired_route_def retS_def)
  qed
qed

lemma hydrate_runs:
  assumes "env_ok R pre V" "holding R pre M k rf (p, w)"
  shows "\<exists>r w'. hydrateSelectedAccount V a p w = (Inr (r, p), w') \<and> holding R pre M k rf (p, w')"
proof (cases "sv_snapshot V")
  case None
  then show ?thesis using assms(2) by (simp add: hydrateSelectedAccount_def retS_def)
next
  case (Some get)
  have g: "adds_none R pre (get (ga_id a))" using assms(1) Some by (simp add: env_ok_def)
  obtain r w' where q: "get (ga_id a) w = (r, w')" by fastforce
  have h: "holding R pre M k rf (p, w')" by (rule holding_adds_none[OF g assms(2) q])
  have "\<exists>r'. hydrateSelectedAccount V a p w = (Inr (r', p), w')"
    using q by (cases r) (auto simp: hydrateSelectedAccount_def Some bindS_def liftS_def errS_def retS_def split: option.split)
  then show ?thesis using h by blast
qed

lemma uses_selection:
  assumes "env_ok R pre V" "\<not> acq \<Longrightarrow> rf = None"
  shows "uses R pre M rf (bindS (newSelectionResult V b acq rf plan) (\<lambda>sel. retS (Some sel)))"
  unfolding uses_def
proof (intro allI, rule validI)
  fix k p w
  assume h: "holding R pre M k rf (p, w)"
  from hydrate_runs[OF assms(1) h] obtain r w1 where
    r: "hydrateSelectedAccount V b p w = (Inr (r, p), w1)" "holding R pre M k rf (p, w1)" by blast
  let ?m = "bindS (newSelectionResult V b acq rf plan) (\<lambda>sel. retS (Some sel))"
  have red: "sv_redis V = R" using assms(1) by (simp add: env_ok_def)
  have fail: "\<exists>p' w'. bindS (if acq then releaseS V rf else retS ()) (\<lambda>_. errS e) p w1 = (Inr (Inl e, p'), w')
      \<and> slots_at R pre M 0 (p', w')" for e
  proof (cases acq)
    case True
    from validE[OF valid_release[OF red, of pre M k rf "\<lambda>_. False"] r(2)] obtain x p' w' where
      x: "releaseS V rf p w1 = (Inr (Inr x, p'), w')" "slots_at R pre M k (p', w')" by metis
    from x(2) have "slots_at R pre M 0 (p', w')" by (rule slots_at_mono) simp_all
    then show ?thesis using x(1) True by (simp add: bindS_def errS_def)
  next
    case False
    then have "slots_at R pre M k (p, w1)" using r(2) assms(2) by (simp add: holding_none)
    then have "slots_at R pre M 0 (p, w1)" by (rule slots_at_mono) simp_all
    then show ?thesis using False by (simp add: bindS_def errS_def retS_def)
  qed
  have good: "kept R pre M k (Some \<lparr>sel_account = h, sel_acquired = acq, sel_release = rf, sel_wait = plan\<rparr>) (p, w1)" for h
    using r(2) by (auto simp: kept_def holding_def intro: slots_at_mono)
  show "(\<exists>x p' w'. ?m p w = (Inr (Inr x, p'), w') \<and> kept R pre M k x (p', w'))
      \<or> (\<exists>e p' w'. ?m p w = (Inr (Inl e, p'), w') \<and> slots_at R pre M 0 (p', w'))"
  proof (cases "\<exists>h. r = Inr h \<and> \<not> (acq \<and> \<not> validateProxyReservation b h)")
    case True
    then obtain h where h: "r = Inr h" "\<not> (acq \<and> \<not> validateProxyReservation b h)" by blast
    then have "newSelectionResult V b acq rf plan p w =
        (Inr (Inr \<lparr>sel_account = h, sel_acquired = acq, sel_release = rf, sel_wait = plan\<rparr>, p), w1)"
      using r(1) by (auto simp: newSelectionResult_def retS_def)
    then show ?thesis using good by (simp add: bindS_def retS_def)
  next
    case False
    then obtain e where "newSelectionResult V b acq rf plan p w = bindS (if acq then releaseS V rf else retS ()) (\<lambda>_. errS e) p w1"
      using r(1) by (cases r) (auto simp: newSelectionResult_def)
    then obtain p' w' where "newSelectionResult V b acq rf plan p w = (Inr (Inl e, p'), w')" "slots_at R pre M 0 (p', w')"
      using fail[of e] by auto
    then show ?thesis by (simp add: bindS_def)
  qed
qed

end

section \<open>The programs of the layers\<close>

text \<open>
  The layers of the selection, one after the other: each leaves the slots of this process as they were,
  but for the slot of the selection it returns (\<open>costs_*\<close>), and the whole selection (\<open>select_slots\<close>).
\<close>

lemma uses_none: "uses R pre M None m \<Longrightarrow> costs R pre M 0 m"
proof -
  have "holding R pre M k None = slots_at R pre M k" for k by (rule ext) (rule holding_none)
  then show "uses R pre M None m \<Longrightarrow> costs R pre M 0 m" by (simp add: uses_def costs_def)
qed

lemma bind_ret [simp]: "bindS (retS x) g = g x"
  by (intro ext) (simp add: bindS_def retS_def)

context redis_store
begin

lemma adds_none_check:
  assumes "sv_redis V = R"
  shows "adds_none R pre (checkAndRegisterSession V a h)"
  unfolding checkAndRegisterSession_def assms by (intro adds_none_intros)

lemma ends_check: "\<exists>b w'. checkAndRegisterSession V a h w = (Inr b, w')"
  by (rule endsD) (unfold checkAndRegisterSession_def, intro ends_rules)

lemma uses_admitted:
  assumes "sv_redis V = R" "costs R pre M 0 nxt" "uses R pre M rf m"
  shows "uses R pre M rf (bindS (liftS (checkAndRegisterSession V a h)) (\<lambda>ok.
    if \<not> ok then bindS (releaseS V rf) (\<lambda>_. nxt) else m))"
proof (rule uses_bind_lift[OF adds_none_check[OF assms(1)]])
  fix ok
  have "uses R pre M rf (bindS (releaseS V rf) (\<lambda>_. nxt))"
    unfolding uses_def
    by (intro allI valid_bind[OF valid_release[OF assms(1)]]) (use costsD[OF assms(2)] in simp)
  then show "uses R pre M rf (if \<not> ok then bindS (releaseS V rf) (\<lambda>_. nxt) else m)" using assms(3) by simp
qed (rule ends_check)

lemma costs_acquired:
  assumes "env_ok R pre V" "narrow a" "costs R pre M 0 m" "\<And>res b. uses R pre M (ReleaseFunc res) (k res b)"
  shows "costs R pre M 1 (bindS (acquired_route V a) (\<lambda>r. case r of None \<Rightarrow> m | Some (result, acc) \<Rightarrow> k result acc))"
  unfolding costs_def
proof
  fix n
  show "valid (slots_at R pre M (1 + n)) (bindS (acquired_route V a) (\<lambda>r. case r of None \<Rightarrow> m | Some (result, acc) \<Rightarrow> k result acc))
      (kept R pre M n) (slots_at R pre M 0)"
    unfolding plus_1_eq_Suc
  proof (rule valid_bind[OF valid_acquired[OF assms(1,2)]])
    fix r
    show "valid (\<lambda>\<sigma>. case r of None \<Rightarrow> slots_at R pre M n \<sigma> | Some (res, b) \<Rightarrow> holding R pre M n (ReleaseFunc res) \<sigma>)
        (case r of None \<Rightarrow> m | Some (result, acc) \<Rightarrow> k result acc) (kept R pre M n) (slots_at R pre M 0)"
      using costsD[OF assms(3), of n] assms(4)[unfolded uses_def] by (auto split: option.split)
  qed
qed

lemma costs_try_account:
  assumes "env_ok R pre V" "narrow a"
  shows "costs R pre M 1 (try_account V rq a)"
proof -
  have r: "sv_redis V = R" using assms(1) by (simp add: env_ok_def)
  have bind: "uses R pre M rf (bindS (if rq_session rq = [] then retS ()
        else liftS (tryW (bindGatewayStickySessionDuringSelection V rq i))) (\<lambda>_.
          bindS (newSelectionResult V b True rf None) (\<lambda>sel. retS (Some sel))))" for rf i b
  proof (cases "rq_session rq = []")
    case True
    then show ?thesis by (simp, intro uses_selection[OF assms(1)]) simp
  next
    case False
    have "adds_none R pre (tryW (bindGatewayStickySessionDuringSelection V rq i))"
      unfolding bindGatewayStickySessionDuringSelection_def r by (intro adds_none_intros)
    then show ?thesis using False
      by (simp, intro uses_bind_lift uses_selection[OF assms(1)]) (simp_all add: tryW_def)
  qed
  show ?thesis unfolding try_account_def
    by (intro costs_acquired[OF assms costs_none] uses_admitted[OF r costs_none] bind)
qed

lemma costs_wait_at:
  assumes "env_ok R pre V"
  shows "costs R pre M 0 (wait_at V rq plan b)"
proof -
  have r: "sv_redis V = R" using assms(1) by (simp add: env_ok_def)
  have "costs R pre M 0 (bindS (newSelectionResult V b False None (Some plan)) (\<lambda>sel. retS (Some sel)))"
    by (rule uses_none[OF uses_selection[OF assms]]) simp
  then show ?thesis unfolding wait_at_def
    by (intro costs_bind[OF steady_lift[OF adds_none_check[OF r], where P = "\<lambda>_. True"]] costs_if costs_none) simp_all
qed

lemma costs_sticky_wait:
  assumes "env_ok R pre V"
  shows "costs R pre M 0 (sticky_wait V rq i b)"
proof -
  have r: "sv_redis V = R" using assms(1) by (simp add: env_ok_def)
  have "adds_none R pre (bindW (catchW (GetAccountWaitingCount (sv_redis V) i)) (\<lambda>r. returnW (case r of Inl _ \<Rightarrow> 0 | Inr n \<Rightarrow> n)))"
    unfolding r by (intro adds_none_intros)
  then show ?thesis unfolding sticky_wait_def
    by (intro costs_bind[OF steady_lift[where P = "\<lambda>_. True"]] costs_if costs_none costs_wait_at[OF assms]) simp_all
qed

lemma adds_none_gates:
  assumes "env_ok R pre V"
  shows "adds_none R pre (isAccountSchedulableForWindowCost V a sticky)"
    "adds_none R pre (isAccountSchedulableForRPM V a sticky)"
    "adds_none R pre (candidate_gates V rq a)"
    "adds_none R pre (filterW (candidate_gates V rq) xs)"
    "adds_none R pre (stickyAccountID V rq)"
    "adds_none R pre (sv_loads V ls)"
proof -
  have r: "sv_redis V = R" and st: "\<And>i t. adds_none R pre (sv_stats V i t)" using assms by (simp_all add: env_ok_def)
  show w: "adds_none R pre (isAccountSchedulableForWindowCost V a sticky)" for a sticky
    unfolding isAccountSchedulableForWindowCost_def cached_window_cost_def Let_def r
    by (intro adds_none_intros st)
  show rpm: "adds_none R pre (isAccountSchedulableForRPM V a sticky)" for a sticky
    unfolding isAccountSchedulableForRPM_def r by (intro adds_none_intros)
  show c: "adds_none R pre (candidate_gates V rq a)" for a
    unfolding candidate_gates_def by (intro adds_none_intros w rpm)
  show "adds_none R pre (filterW (candidate_gates V rq) xs)"
  proof (induction xs)
    case Nil
    show ?case unfolding filterW.simps by (rule adds_none_pure)
  next
    case (Cons x xs)
    then show ?case unfolding filterW.simps by (intro adds_none_intros c)
  qed
  show "adds_none R pre (stickyAccountID V rq)"
    unfolding stickyAccountID_def r by (intro adds_none_intros)
  show "adds_none R pre (sv_loads V ls)" using assms by (simp add: env_ok_def)
qed

lemma steady_any: "adds_none R pre q \<Longrightarrow> steady R pre M (\<lambda>_. True) (liftS q)"
  by (rule steady_lift) simp_all

section \<open>The layers\<close>

lemma costs_sticky_body:
  assumes "env_ok R pre V" "narrow a" "costs R pre M 0 m" "\<And>b. costs R pre M 0 (nxt b)"
    "\<And>rf b. uses R pre M rf (fin rf b)"
  shows "costs R pre M 1 (bindS (acquired_route V a) (\<lambda>r. case r of None \<Rightarrow> m | Some (result, acc) \<Rightarrow>
      bindS (liftS (checkAndRegisterSession V acc h)) (\<lambda>ok.
        if \<not> ok then bindS (releaseS V (ReleaseFunc result)) (\<lambda>_. nxt acc) else fin (ReleaseFunc result) acc)))"
proof -
  have r: "sv_redis V = R" using assms(1) by (simp add: env_ok_def)
  show ?thesis by (intro costs_acquired[OF assms(1,2,3)] uses_admitted[OF r assms(4)] assms(5))
qed

lemma narrow_listed: "\<forall>a\<in>set (rq_accounts rq). narrow a \<Longrightarrow> account_by_id rq i = Some a \<Longrightarrow> narrow a"
  using account_by_id_Some[of rq i a] by blast

lemma costs_routed_sticky:
  assumes "env_ok R pre V" "\<forall>a\<in>set (rq_accounts rq). narrow a"
  shows "costs R pre M 1 (routed_sticky V rq i)"
proof (cases "account_by_id rq i")
  case None
  have r: "sv_redis V = R" using assms(1) by (simp add: env_ok_def)
  have "adds_none R pre (tryW (DeleteSessionAccountID (sv_redis V) (rq_group rq) (rq_session rq)))"
    unfolding r by (intro adds_none_intros)
  then show ?thesis using None unfolding routed_sticky_def
    by (auto intro!: costs_if costs_none costs_bind[OF steady_any])
next
  case (Some a)
  note body = costs_sticky_body[OF assms(1) narrow_listed[OF assms(2) Some] costs_sticky_wait[OF assms(1)] costs_none
      uses_selection[OF assms(1)]]
  show ?thesis unfolding routed_sticky_def Some option.case
    by (intro costs_if costs_none costs_bind[OF steady_any] body adds_none_cases adds_none_gates[OF assms(1)] adds_none_pure)
      simp_all
qed

lemma costs_layer_sticky:
  assumes "env_ok R pre V" "\<forall>a\<in>set (rq_accounts rq). narrow a"
  shows "costs R pre M 1 (layer_sticky V rq i)"
proof (cases "account_by_id rq i")
  case None
  then show ?thesis by (simp add: layer_sticky_def costs_none)
next
  case (Some a)
  have r: "sv_redis V = R" using assms(1) by (simp add: env_ok_def)
  have fin: "uses R pre M rf (bindS (liftS (tryW (RefreshSessionTTL (sv_redis V) (rq_group rq) (rq_session rq)))) (\<lambda>_.
      bindS (newSelectionResult V b True rf None) (\<lambda>sel. retS (Some sel))))" for rf b
    unfolding r
    by (intro uses_bind_lift uses_selection[OF assms(1)] adds_none_intros) (simp_all add: tryW_def)
  note body = costs_sticky_body[OF assms(1) narrow_listed[OF assms(2) Some] costs_sticky_wait[OF assms(1)]
      costs_sticky_wait[OF assms(1)] fin]
  have clear: "steady R pre M (\<lambda>_. True) (if c then liftS (tryW (DeleteSessionAccountID (sv_redis V) (rq_group rq) (rq_session rq)))
      else retS ())" for c
    unfolding r by (simp add: steady_any steady_ret adds_none_intros)
  show ?thesis unfolding layer_sticky_def Some option.case
    by (intro costs_if costs_none costs_bind[OF clear] costs_bind[OF steady_any] body adds_none_gates[OF assms(1)])
qed

lemma filterW_short: "filterW g xs w = (Inr ys, w') \<Longrightarrow> length ys \<le> length xs"
proof (induction xs arbitrary: ys w)
  case (Cons x xs)
  obtain r w1 where g: "g x w = (r, w1)" by fastforce
  then obtain ok where ok: "r = Inr ok" using Cons.prems by (cases r) (auto simp: bindW_def)
  obtain r2 w2 where f: "filterW g xs w1 = (r2, w2)" by fastforce
  then obtain zs where zs: "r2 = Inr zs" using Cons.prems g ok by (cases r2) (auto simp: bindW_def)
  then have "ys = (if ok then x # zs else zs)" "w2 = w'" using Cons.prems g ok f by (auto simp: bindW_def)
  then show ?case using Cons.IH f zs by fastforce
qed simp

lemma steady_candidates:
  assumes "env_ok R pre V" "\<forall>x\<in>set xs. narrow x"
  shows "steady R pre M (\<lambda>ys. (\<forall>y\<in>set ys. narrow y) \<and> length ys \<le> length xs) (liftS (filterW (candidate_gates V rq) xs))"
proof (rule steady_lift[OF adds_none_gates(4)[OF assms(1)]])
  fix w ys w'
  assume f: "filterW (candidate_gates V rq) xs w = (Inr ys, w')"
  then show "(\<forall>y\<in>set ys. narrow y) \<and> length ys \<le> length xs"
    using filterW_result[OF f] filterW_short[OF f] assms(2) by blast
qed

lemma with_loads_short: "length (with_loads m cs) \<le> length cs"
  unfolding with_loads_def by (rule order_trans[OF length_filter_le]) simp

lemma costs_loop:
  assumes "env_ok R pre V" "\<forall>x\<in>set xs. narrow (g x)" "length xs \<le> n"
  shows "costs R pre M n (first_try (\<lambda>x. try_account V rq (g x)) xs)"
proof -
  have "costs R pre M (1 * length xs) (first_try (\<lambda>x. try_account V rq (g x)) xs)"
    by (intro costs_first_try costs_try_account[OF assms(1)]) (use assms(2) in blast)
  then show ?thesis by (rule costs_mono) (use assms(3) in simp)
qed

lemma costs_waits:
  assumes "env_ok R pre V"
  shows "costs R pre M 0 (first_try (\<lambda>x. wait_at V rq (pl x) (g x)) xs)"
proof -
  have "costs R pre M (0 * length xs) (first_try (\<lambda>x. wait_at V rq (pl x) (g x)) xs)"
    by (rule costs_first_try) (rule costs_wait_at[OF assms])
  then show ?thesis by simp
qed

lemma costs_layer1:
  assumes "env_ok R pre V" "\<forall>a\<in>set (rq_accounts rq). narrow a"
  shows "costs R pre M (1 + length (rq_routing rq)) (layer1 V rq i)"
proof -
  have routed: "\<forall>a\<in>set (routing_accounts rq). narrow a"
    using narrow_listed[OF assms(2)] by (auto simp: routing_accounts_def List.map_filter_def split: if_splits)
  have short: "length (routing_accounts rq) \<le> length (rq_routing rq)"
    unfolding routing_accounts_def List.map_filter_def by (simp add: length_filter_le)
  have av: "steady R pre M (\<lambda>cs. (\<forall>c\<in>set cs. narrow (fst c)) \<and> length cs \<le> length ys) (routed_available V ys)"
    if ys: "\<forall>y\<in>set ys. narrow y" for ys
    unfolding routed_available_def
    by (intro steady_bind[OF steady_any] steady_ret adds_none_intros adds_none_gates[OF assms(1)])
      (use ys set_with_loads with_loads_short in blast)
  have loops: "costs R pre M n (orS (first_try (\<lambda>c. try_account V rq (fst c)) (sort_routed f cs))
      (first_try (\<lambda>c. wait_at V rq (sticky_plan V (ga_id (fst c)) (ga_concurrency (fst c))) (fst c)) (sort_routed f cs)))"
    if "\<forall>c\<in>set cs. narrow (fst c)" "length cs \<le> n" for cs f n
  proof -
    have "length (sort_routed f cs) = length cs"
      using mset_eq_length[of "sort_routed f cs" cs] by (simp add: sort_routed_def)
    then have "costs R pre M n (first_try (\<lambda>c. try_account V rq (fst c)) (sort_routed f cs))"
      by (intro costs_loop[OF assms(1)]) (use that in simp_all)
    from costs_or[OF this costs_waits[OF assms(1)]] show ?thesis by simp
  qed
  show ?thesis unfolding layer1_def Let_def
    apply (intro costs_if costs_none costs_bind[OF steady_candidates[OF assms(1) routed]])
    apply (intro costs_or costs_routed_sticky[OF assms])
    apply (rule costs_bind[OF av])
     apply blast
    apply (intro costs_if costs_none loops)
     apply (use short in auto)
    done
qed

lemma try_order_short: "length (try_order rnd now soonest pr cs) \<le> length cs"
proof (induction rnd now soonest pr cs rule: try_order.induct)
  case (1 rnd now soonest pr cs)
  show ?case
  proof (cases "cs = [] \<or> pick_next (rnd (length cs)) now soonest pr cs = None")
    case True
    then show ?thesis by (subst try_order.simps) auto
  next
    case False
    then obtain s where s: "cs \<noteq> []" "pick_next (rnd (length cs)) now soonest pr cs = Some s" by auto
    have "length (remove_tried (ga_id (fst s)) cs) < length cs"
      by (rule remove_tried_shorter[OF pick_next_member[OF s(2,1)]])
    then show ?thesis using s 1[OF s] by (subst try_order.simps) simp
  qed
qed

lemma costs_layer2:
  assumes "env_ok R pre V" "\<forall>y\<in>set ys. narrow y"
  shows "costs R pre M (length ys) (layer2 V rq ys)"
proof -
  have legacy: "costs R pre M (length ys) (tryAcquireByLegacyOrder V rq ys)"
  proof -
    let ?S = "sortAccountsByPriorityAndLastUsed (sv_shuffle V LegacyShuffle) (rq_platform rq = PlatformGemini) ys"
    have "mset ?S = mset ys" by (simp add: sortAccountsByPriorityAndLastUsed_def)
    from mset_eq_setD[OF this] mset_eq_length[OF this] show ?thesis
      unfolding tryAcquireByLegacyOrder_def
      using costs_loop[OF assms(1), of ?S "\<lambda>x. x" "length ys" M rq] assms(2) by simp
  qed
  have loop: "costs R pre M (length ys) (layer2_loop V rq (with_loads m ys))" for m
    unfolding layer2_first_try
  proof (rule costs_loop[OF assms(1)])
    let ?T = "try_order (sv_pick V) (sv_now V) (PreferSoonestReset (sv_cfg V)) (rq_platform rq = PlatformGemini) (with_loads m ys)"
    show "\<forall>x\<in>set ?T. narrow (fst x)" using assms(2) set_try_order set_with_loads by blast
    show "length ?T \<le> length ys" by (rule order_trans[OF try_order_short with_loads_short])
  qed
  show ?thesis unfolding layer2_def
    by (intro costs_bind[OF steady_any] adds_none_intros adds_none_gates[OF assms(1)])
      (use legacy loop in \<open>simp split: sum.split\<close>)
qed

lemma costs_layers_2_3:
  assumes "env_ok R pre V" "\<forall>a\<in>set (rq_accounts rq). narrow a"
  shows "costs R pre M (length (rq_accounts rq)) (layers_2_3 V rq)"
proof -
  let ?L = "filter (\<lambda>a. ga_id a \<notin> set (rq_excluded rq)) (rq_accounts rq)"
  have L: "\<forall>x\<in>set ?L. narrow x" "length ?L \<le> length (rq_accounts rq)"
    using assms(2) by (auto simp: length_filter_le)
  have "costs R pre M (length (rq_accounts rq)) (orS (layer2 V rq ys) (layer3 V rq ys))"
    if "(\<forall>y\<in>set ys. narrow y) \<and> length ys \<le> length ?L" for ys
  proof -
    have "costs R pre M (length ys) (layer2 V rq ys)" using that by (intro costs_layer2[OF assms(1)]) blast
    moreover have "costs R pre M 0 (layer3 V rq ys)" unfolding layer3_def by (rule costs_waits[OF assms(1)])
    ultimately have "costs R pre M (length ys + 0) (orS (layer2 V rq ys) (layer3 V rq ys))" by (rule costs_or)
    moreover have "length ys + 0 \<le> length (rq_accounts rq)" using that L(2) by linarith
    ultimately show ?thesis by (rule costs_mono)
  qed
  then show ?thesis unfolding layers_2_3_def
    by (intro costs_bind[OF steady_candidates[OF assms(1) L(1)]] costs_if costs_err)
qed

lemma select_slots:
  assumes "env_ok R pre V" "\<forall>a\<in>set (rq_accounts rq). narrow a"
    "slots_at R pre M (2 + length (rq_routing rq) + length (rq_accounts rq)) (p, w)"
  shows "\<exists>r p' w'. selectAccountWithLoadAwareness V rq p w = (Inr (r, p'), w')
    \<and> slots_at R pre (M \<union> (case r of Inl e \<Rightarrow> {} | Inr sel \<Rightarrow> held (sel_release sel))) 0 (p', w')"
proof -
  let ?N = "2 + length (rq_routing rq) + length (rq_accounts rq)"
  have layers: "costs R pre M ?N (orS (layer1 V rq i) (orS (layer_sticky V rq i) (layers_2_3 V rq)))" for i
    by (rule costs_mono[OF costs_or[OF costs_layer1[OF assms(1,2)] costs_or[OF costs_layer_sticky[OF assms(1,2)]
        costs_layers_2_3[OF assms(1,2)]]]]) simp
  let ?Q = "\<lambda>sel. slots_at R pre (M \<union> held (sel_release sel)) 0"
  have finish: "valid (slots_at R pre M ?N) (bindS (orS (layer1 V rq i) (orS (layer_sticky V rq i) (layers_2_3 V rq)))
      (\<lambda>r. case r of Some sel \<Rightarrow> retS sel | None \<Rightarrow> errS ErrNoAvailableAccounts)) ?Q (slots_at R pre M 0)" for i
  proof (rule valid_bind)
    show "valid (slots_at R pre M ?N) (orS (layer1 V rq i) (orS (layer_sticky V rq i) (layers_2_3 V rq)))
        (kept R pre M 0) (slots_at R pre M 0)"
      using costsD[OF layers[of i], of 0] by simp
    show "valid (kept R pre M 0 r) (case r of Some sel \<Rightarrow> retS sel | None \<Rightarrow> errS ErrNoAvailableAccounts) ?Q (slots_at R pre M 0)" for r
    proof (cases r)
      case None
      then show ?thesis by (auto intro: valid_conseq[OF valid_err[of "slots_at R pre M 0"]] simp: kept_def)
    next
      case (Some sel)
      then show ?thesis by (auto intro: valid_conseq[OF valid_ret[of ?Q sel "slots_at R pre M 0"]] simp: kept_def)
    qed
  qed
  have empty: "valid (slots_at R pre M ?N) (errS ErrNoAvailableAccounts) ?Q (slots_at R pre M 0)"
    by (rule valid_conseq[OF valid_err[of "slots_at R pre M 0"]]) (auto intro: slots_at_mono)
  have "valid (slots_at R pre M ?N) (select_layers V rq) ?Q (slots_at R pre M 0)"
    unfolding select_layers_def
  proof (rule valid_bind[OF steady_any[OF adds_none_gates(5)[OF assms(1)], unfolded steady_def, rule_format]], rule valid_pure)
    show "valid (slots_at R pre M ?N) (if rq_accounts rq = [] then errS ErrNoAvailableAccounts
        else bindS (orS (layer1 V rq i) (orS (layer_sticky V rq i) (layers_2_3 V rq)))
          (\<lambda>r. case r of Some sel \<Rightarrow> retS sel | None \<Rightarrow> errS ErrNoAvailableAccounts)) ?Q (slots_at R pre M 0)" for i
      by (intro valid_if empty finish)
  qed
  from this assms(3) show ?thesis
  proof (rule validE)
    fix sel p' w'
    assume "select_layers V rq p w = (Inr (Inr sel, p'), w')" "?Q sel (p', w')"
    then show ?thesis by (simp add: selectAccountWithLoadAwareness_def strictFailoverSelectionError_def)
  next
    fix e p' w'
    assume "select_layers V rq p w = (Inr (Inl e, p'), w')" "slots_at R pre M 0 (p', w')"
    then show ?thesis by (simp add: selectAccountWithLoadAwareness_def strictFailoverSelectionError_def)
  qed
qed

end

end
