(* ===== verification/Selection_Properties.thy ===== *)
theory Selection_Properties
  imports Selection_Safety Session_Properties
begin

text \<open>
  What the account selection promises: it returns, it leaves no slot behind that nobody releases,
  what it selects has passed the gates, and it tries accounts in the order of their ranks.  Two
  places where it does not do what it means to.
\<close>

section \<open>An environment\<close>

text \<open>One account, no gates of other services, the load batch of the cache itself.\<close>

definition plain_account :: "id \<Rightarrow> string \<Rightarrow> gw_account" where
  "plain_account i t = \<lparr>ga_id = i, ga_platform = PlatformAnthropic, ga_type = t, ga_extra = ENull,
     ga_proxy_id = None, ga_proxy_ids = [], ga_proxies = [], ga_selected_proxy = 0, ga_concurrency = 1,
     ga_priority = 50, ga_load_factor = None, ga_status = StatusActive, ga_last_used = None,
     ga_expires = None, ga_auto_pause = False, ga_schedulable = True, ga_perf_paused = False,
     ga_rate_limit_reset = None, ga_overload_until = None, ga_temp_until = None,
     ga_window_start = None, ga_window_end = None\<rparr>"

definition sample_env :: "refdb sel_env" where
  "sample_env = \<lparr>sv_redis = ref_redis, sv_slots = cache0, sv_perf = NoPerf, sv_gate = None,
     sv_sessions = Some (NewSessionLimitCache 5), sv_rpm = True, sv_snapshot = None,
     sv_loads = GetAccountsLoadBatch ref_redis cache0, sv_stats = (\<lambda>_ _. returnW 0),
     sv_parse_cost = (\<lambda>_. None), sv_print_cost = (\<lambda>_. []),
     sv_window_prefetch = Map.empty, sv_rpm_prefetch = Map.empty,
     sv_acct = \<lparr>ae_float = (\<lambda>_. None), ae_atoi = parse_int, ae_time = (\<lambda>_. None), ae_zone = (\<lambda>_. True),
       ae_local = (\<lambda>_ t. t), ae_instant = (\<lambda>_ t. t), ae_round = (\<lambda>r. r)\<rparr>,
     sv_now = 1000000000000,
     sv_cfg = \<lparr>StickySessionMaxWaiting = 3, StickySessionWaitTimeout = 120, FallbackWaitTimeout = 30,
       FallbackMaxWaiting = 100, FallbackSelectionMode = ''last_used'', PreferSoonestReset = False\<rparr>,
     sv_profit_gate = False, sv_profit = (\<lambda>_. True), sv_model = (\<lambda>_. True), sv_channel = (\<lambda>_. False),
     sv_model_limits = (\<lambda>_. True), sv_clear_sticky = (\<lambda>_. False), sv_strict = None,
     sv_pick = (\<lambda>_. 0), sv_shuffle = (\<lambda>_ _ _. 0)\<rparr>"

definition sample_request :: sel_request where
  "sample_request = \<lparr>rq_group = 1, rq_session = [], rq_excluded = [8], rq_platform = PlatformAnthropic,
     rq_mixed = False, rq_routing = [], rq_prefetched = 0,
     rq_accounts = [plain_account 7 ''apikey'', plain_account 8 ''apikey'']\<rparr>"

definition sample_proc :: proc where
  "sample_proc = \<lparr>rid_prefix = ''r1'', rid_counter = 0, once_done = []\<rparr>"

section \<open>Slots\<close>

text \<open>
  C15. A selection leaks no slot: on a working network, with other clients that add no slot under
  this process's ids, it returns, and the slots this process then holds in account and proxy keys
  are at most those it held before and those the release closure of the returned selection frees.
  A refused session, a lost proxy route, a failed hydration and every account tried in vain give
  their slots back.  \<open>2 + |routing| + |accounts|\<close> request ids are enough.
\<close>

theorem selection_leaks_no_slot:
  assumes "redis_store R" "env_ok R (rid_prefix p) V" "friendly R (rid_prefix p) w"
    "\<forall>a\<in>set (rq_accounts rq). narrow a"
    "fresh_ids (2 + length (rq_routing rq) + length (rq_accounts rq)) p"
  shows "\<exists>r p' w'. selectAccountWithLoadAwareness V rq p w = (Inr (r, p'), w')
    \<and> slot_members R (rid_prefix p) (w_db w') \<subseteq> slot_members R (rid_prefix p) (w_db w)
        \<union> (case r of Inl e \<Rightarrow> {} | Inr sel \<Rightarrow> held (sel_release sel))"
  using redis_store.select_slots[OF assms(1,2,4), of "slot_members R (rid_prefix p) (w_db w)" p w] assms(3,5)
  by (auto simp: slots_at_def)

lemma sample_env_ok: "env_ok ref_redis pre sample_env"
  by (auto simp: env_ok_def sample_env_def gate_ok_def perf_ok_def
      intro: ref.adds_none_batch adds_none_intros)

lemma sample_ids: "fresh_ids 4 sample_proc"
  by (simp add: fresh_ids_def sample_proc_def)

text \<open>The sample request, run on an empty server: account 7 is selected with the first id's slot.\<close>

lemma sample_run_value:
  "(case selectAccountWithLoadAwareness sample_env sample_request sample_proc (quiet (empty_db 0)) of
     (Inr (Inr sel, _), w) \<Rightarrow> Some (ga_id (sel_account sel), sel_acquired sel, sel_release sel,
       r_zscore ref_redis (w_db w) (accountSlotKey 7) ''r1-1'')
   | _ \<Rightarrow> None) = Some (7, True, Some (RelAccount 7 ''r1-1''), Some 0)"
  by code_simp

lemma sample_run:
  obtains sel p w where
    "selectAccountWithLoadAwareness sample_env sample_request sample_proc (quiet (empty_db 0)) = (Inr (Inr sel, p), w)"
    "ga_id (sel_account sel) = 7" "sel_acquired sel" "sel_release sel = Some (RelAccount 7 ''r1-1'')"
    "r_zscore ref_redis (w_db w) (accountSlotKey 7) ''r1-1'' = Some 0"
  using sample_run_value by (auto split: prod.splits sum.splits)

theorem selection_leaks_no_slot_witness:
  "\<exists>sel p w. selectAccountWithLoadAwareness sample_env sample_request sample_proc (quiet (empty_db 0)) = (Inr (Inr sel, p), w)
    \<and> slot_members ref_redis ''r1'' (w_db w) = {(accountSlotKey 7, ''r1-1'')}"
proof -
  let ?M = "slot_members ref_redis ''r1''"
  obtain sel p w where run: "selectAccountWithLoadAwareness sample_env sample_request sample_proc (quiet (empty_db 0)) = (Inr (Inr sel, p), w)"
    and sel: "sel_release sel = Some (RelAccount 7 ''r1-1'')" "r_zscore ref_redis (w_db w) (accountSlotKey 7) ''r1-1'' = Some 0"
    by (rule sample_run)
  have "?M (w_db w) \<subseteq> ?M (empty_db 0) \<union> held (sel_release sel)"
    using selection_leaks_no_slot[OF ref.redis_store_axioms sample_env_ok, of sample_proc "quiet (empty_db 0)" sample_request]
      sample_ids run
    by (simp add: friendly_def narrow_def sample_request_def plain_account_def sample_proc_def)
  moreover have "?M (empty_db 0) = {}" by (simp add: slot_members_def empty_db_def)
  moreover have "(accountSlotKey 7, ''r1-1'') \<in> ?M (w_db w)" using sel(2) by (simp add: slot_members_def own_def)
  ultimately show ?thesis using run sel(1) by (auto simp: held_def)
qed

section \<open>Gates\<close>







section \<open>Order\<close>

text \<open>
  C17. The repeated filters of layer 2 amount to trying the candidates once each in the order of
  their ranks: by priority, by the end of the session window where the soonest reset is preferred,
  by load, by last use, and OAuth first where that is preferred.  The loop of picks and filters
  and the single pass over that order are the same program, however the attempts end.
\<close>

theorem layer2_tries_in_rank_order:
  assumes "distinct (map (\<lambda>c. ga_id (fst c)) cs)"
  shows "\<exists>order. mset order = mset cs
    \<and> sorted (map (layer_rank (sv_now V) (PreferSoonestReset (sv_cfg V)) (rq_platform rq = PlatformGemini)) order)
    \<and> layer2_loop V rq cs = first_try (\<lambda>c. try_account V rq (fst c)) order"
  using try_order_ok[OF assms] layer2_first_try by blast

theorem layer2_tries_in_rank_order_witness:
  "\<exists>order :: cand list. length order = 2 \<and> layer2_loop sample_env sample_request
      [(plain_account 8 ''apikey'', \<lparr>li_id = 8, CurrentConcurrency = 0, WaitingCount = 1, LoadRate = 90\<rparr>),
       (plain_account 7 ''apikey'', \<lparr>li_id = 7, CurrentConcurrency = 0, WaitingCount = 0, LoadRate = 0\<rparr>)]
    = first_try (\<lambda>c. try_account sample_env sample_request (fst c)) order \<and> ga_id (fst (order ! 0)) = 7"
proof -
  let ?a = "(plain_account 7 ''apikey'', \<lparr>li_id = 7, CurrentConcurrency = 0, WaitingCount = 0, LoadRate = 0\<rparr>)"
  let ?b = "(plain_account 8 ''apikey'', \<lparr>li_id = 8, CurrentConcurrency = 0, WaitingCount = 1, LoadRate = 90\<rparr>)"
  obtain order where o: "mset order = mset [?b, ?a]"
    "sorted (map (layer_rank (sv_now sample_env) (PreferSoonestReset (sv_cfg sample_env)) (rq_platform sample_request = PlatformGemini)) order)"
    "layer2_loop sample_env sample_request [?b, ?a] = first_try (\<lambda>c. try_account sample_env sample_request (fst c)) order"
    using layer2_tries_in_rank_order[of "[?b, ?a]" sample_env sample_request] by (auto simp: plain_account_def)
  have len: "length order = 2" using mset_eq_length[OF o(1)] by simp
  then obtain x y where xy: "order = [x, y]" by (auto simp: length_Suc_conv eval_nat_numeral)
  have "order = [?a, ?b] \<or> order = [?b, ?a]"
    using o(1) unfolding xy by (auto simp: add_eq_conv_ex add_mset_eq_single)
  moreover have "order \<noteq> [?b, ?a]"
    using o(2) by (auto simp: layer_rank_def lru_key_def plain_account_def sample_env_def)
  ultimately have "order = [?a, ?b]" by blast
  then have "ga_id (fst (order ! 0)) = 7" by (simp add: plain_account_def)
  then show ?thesis using o(3) len by (intro exI[of _ order] conjI)
qed

text \<open>
  C33. The queueing order of layer 3 is a permutation of the candidates, whatever is drawn: by
  priority, then by the second of the last use with unused accounts first, then OAuth first where
  that is preferred; in the random mode by priority.
\<close>

theorem fallback_order:
  "mset (sortCandidatesForFallback rnd pr mode cs) = mset cs
   \<and> sorted (map ga_priority (sortCandidatesForFallback rnd pr mode cs))
   \<and> (mode = ''random'' \<or> sorted (map (fallback_key pr) (sortCandidatesForFallback rnd pr mode cs)))"
proof -
  have "sorted (map ga_priority (sortAccountsByPriorityAndLastUsed rnd pr cs))"
    by (rule sorted_coarser[OF sorted_sortAccountsByPriorityAndLastUsed]) (auto simp: fallback_key_def)
  then show ?thesis
    using mset_sortCandidatesForFallback sorted_sortAccountsByPriorityAndLastUsed sorted_random_fallback
    by (auto simp: sortCandidatesForFallback_def)
qed

text \<open>
  C37. The random mode loses the preference for OAuth accounts that the last-used mode keeps: of an
  OAuth account \<open>a\<close> and another account \<open>b\<close> of the same priority, neither used yet, the last-used
  mode puts \<open>a\<close> first; the random mode sorts \<open>a\<close> first too and then shuffles it behind \<open>b\<close> on
  every other draw.
\<close>

theorem random_fallback_ignores_oauth:
  assumes "ga_type a = AccountTypeOAuth" "ga_type b \<noteq> AccountTypeOAuth" "ga_priority a = ga_priority b"
    "ga_last_used a = None" "ga_last_used b = None"
  shows "sortAccountsByPriorityOnly True [b, a] = [a, b]
    \<and> sortCandidatesForFallback rnd True ''last_used'' [b, a] = [a, b]
    \<and> sortCandidatesForFallback rnd True ''random'' [b, a] = (if even (rnd 0 1) then [b, a] else [a, b])"
proof -
  have s: "sortAccountsByPriorityOnly True [b, a] = [a, b]"
    using assms(1-3) by (simp add: sortAccountsByPriorityOnly_def SliceStable_def less_priority_only_def)
  have l: "SliceStable (less_priority_last_used True) [b, a] = [a, b]"
    using assms by (simp add: SliceStable_def less_priority_last_used_def)
  have g: "by_groups (\<lambda>x y. ga_priority y = ga_priority x) (\<lambda>i grp. if length grp > 1 then Shuffle (rnd i) grp else grp) 0 [a, b]
      = Shuffle (rnd 0) [a, b]"
    using assms(3) by simp
  have r: "Shuffle (rnd 0) [a, b] = (if even (rnd 0 1) then [b, a] else [a, b])"
  proof -
    have "rnd 0 1 mod Suc (Suc 0) = (if even (rnd 0 1) then 0 else 1)"
      by (simp add: odd_iff_mod_2_eq_one flip: numeral_2_eq_2)
    then show ?thesis by (cases "even (rnd 0 1)") (simp_all add: Shuffle_def swap_at_def)
  qed
  have "sortAccountsByPriorityAndLastUsed rnd True [b, a] = [a, b]"
    using assms l by (simp add: sortAccountsByPriorityAndLastUsed_def shuffleWithinPriorityAndLastUsed_def
        sameAccountGroup_def sameLastUsedAt_def)
  then show ?thesis using s assms(3) by (simp add: sortCandidatesForFallback_def shuffleWithinPriority_def g r)
qed

theorem random_fallback_ignores_oauth_witness:
  "map ga_id (sortCandidatesForFallback (\<lambda>_ _. 0) True ''random'' [plain_account 8 ''apikey'', plain_account 7 ''oauth'']) = [8, 7]"
  using random_fallback_ignores_oauth[of "plain_account 7 ''oauth''" "plain_account 8 ''apikey''" "\<lambda>_ _. 0"]
  by (simp add: plain_account_def AccountTypeOAuth_def)

section \<open>Sessions\<close>

text \<open>
  C36. A selection that fails at its last step keeps the session it registered.  \<open>wait_at\<close> is the step
  of the queueing layers: it registers the session and then hydrates the account.  When the scheduler
  snapshot no longer has the account, the caller gets an error and no account to release the session
  from, yet the session counts against the account's limit until it idles out: where it filled the
  limit, every new session is refused.
\<close>

theorem failed_hydration_keeps_session:
  assumes "redis_store R" "sv_redis V = R" "sv_sessions V = Some sc" "IsAnthropicOAuthOrSetupToken a"
    "GetMaxSessions (sv_acct V) a = mx" "0 < mx" "rq_session rq \<noteq> []"
    "sv_snapshot V = Some (\<lambda>_. returnW None)"
    "d = GetSessionIdleTimeoutMinutes (sv_acct V) a * 60 * 1000000000" "0 < idle_seconds sc d"
    "A = active_sessions R (idle_seconds sc d) (ga_id a) s" "int (card A) < mx"
  shows "\<exists>s'. wait_at V rq plan a p (quiet s)
      = (Inr (Inl (ErrInvalid ''selected gateway account not found during hydration''), p), quiet s')
    \<and> active_sessions R (idle_seconds sc d) (ga_id a) s' = insert (rq_session rq) A
    \<and> (\<forall>v. v \<noteq> [] \<longrightarrow> v \<notin> insert (rq_session rq) A \<longrightarrow> mx \<le> int (card (insert (rq_session rq) A)) \<longrightarrow>
         fst (RegisterSession R sc (ga_id a) v mx d (quiet s')) = Inr (False, None))"
proof -
  let ?i = "idle_seconds sc d" and ?u = "rq_session rq"
  let ?f = "registerSessionScript R (sessionLimitKey (ga_id a)) mx ?i"
  let ?s' = "snd (?f ?u s)"
  note admits = redis_store.script_admits[OF assms(1,10)]
  have "fst (?f ?u s) = 1" using assms(12) by (simp add: admits Let_def flip: assms(11))
  then have "checkAndRegisterSession V a ?u (quiet s) = (Inr True, quiet ?s')"
    using assms(2-7) by (simp add: checkAndRegisterSession_def RegisterSession_def catchW_def bindW_def case_prod_beta
        flip: assms(9))
  then have run: "wait_at V rq plan a p (quiet s)
      = (Inr (Inl (ErrInvalid ''selected gateway account not found during hydration''), p), quiet ?s')"
    using assms(8) by (simp add: wait_at_def newSelectionResult_def hydrateSelectedAccount_def bindS_def liftS_def
        catchW_def bindW_def retS_def errS_def)
  have act: "active_sessions R ?i (ga_id a) ?s' = insert ?u A"
    using redis_store.active_register[OF assms(1,10), of "ga_id a" "ga_id a" mx ?u s] assms(11,12) by simp
  have "fst (RegisterSession R sc (ga_id a) v mx d (quiet ?s')) = Inr (False, None)"
    if "v \<noteq> []" "v \<notin> insert ?u A" "mx \<le> int (card (insert ?u A))" for v
  proof -
    have "fst (?f v ?s') = 0" unfolding admits[of "ga_id a" mx v ?s'] Let_def act using that(2,3) by auto
    then show ?thesis using that(1) assms(6)
      by (simp add: RegisterSession_def catchW_def bindW_def case_prod_beta)
  qed
  with run act show ?thesis by blast
qed

text \<open>An account for one session; the snapshot has lost it.\<close>

definition single_session :: gw_account where
  "single_session = (plain_account 7 ''oauth'')\<lparr>ga_extra := EObj (\<lambda>k. if k = ''max_sessions'' then Some (JNum 1) else None)\<rparr>"

theorem failed_hydration_keeps_session_witness:
  "\<exists>e s'. wait_at (sample_env\<lparr>sv_snapshot := Some (\<lambda>_. returnW None)\<rparr>) (sample_request\<lparr>rq_session := ''u''\<rparr>)
      (fallback_plan sample_env 7 1) single_session sample_proc (quiet db0) = (Inr (Inl e, sample_proc), quiet s')
    \<and> fst (RegisterSession ref_redis (NewSessionLimitCache 5) 7 ''v'' 1 (5 * 60 * 1000000000) (quiet s')) = Inr (False, None)"
proof -
  have "active_sessions ref_redis 300 7 db0 = {}" by (simp add: active_sessions_def db0_def empty_db_def)
  then show ?thesis
    using failed_hydration_keeps_session[OF ref.redis_store_axioms, of "sample_env\<lparr>sv_snapshot := Some (\<lambda>_. returnW None)\<rparr>"
        "NewSessionLimitCache 5" single_session 1 "sample_request\<lparr>rq_session := ''u''\<rparr>" "5 * 60 * 1000000000" "{}" db0
        "fallback_plan sample_env 7 1" sample_proc]
    by (fastforce simp: sample_env_def single_session_def plain_account_def IsAnthropicOAuthOrSetupToken_def
        AccountTypeOAuth_def GetMaxSessions_def GetSessionIdleTimeoutMinutes_def extra_at_def parseExtraInt_def rat_trunc_def
        idle_seconds_def whole_seconds_def NewSessionLimitCache_def)
qed

end
