(* ===== verification/Pricing.thy ===== *)
theory Pricing
  imports Gw_Account "HOL-Library.Sublist" "HOL-Library.Multiset"
begin

text \<open>
  What a request costs (\<open>service/billing_service.go\<close>), and which price applies to it
  (\<open>service/model_pricing_resolver.go\<close>, the interval part of \<open>service/channel.go\<close>).

  Prices and costs are rationals; \<open>pe_round\<close> rounds each exact result to a double.  The remote
  price list, the built-in table, the price cards of channels and the recognition of OpenAI
  and Anthropic model names are further fields of \<open>price_env\<close>; \<open>pe_now\<close> is the clock in nanoseconds
  since 1970.  A nil price is \<open>None\<close>; counts of tokens do not overflow.
\<close>

section \<open>Prices\<close>

record model_pricing =
  mp_ultrafast :: rat
  mp_input :: rat
  mp_input_prio :: rat
  mp_image_input :: rat
  mp_image_cache_read :: rat
  mp_output :: rat
  mp_output_prio :: rat
  mp_write :: rat
  mp_write_prio :: rat
  mp_write_explicit :: bool
  mp_read :: rat
  mp_read_prio :: rat
  mp_fast :: "rat option"
  mp_flex :: "rat option"
  mp_efforts :: "string \<Rightarrow> rat option"
  mp_write5m :: rat
  mp_write1h :: rat
  mp_split :: bool
  mp_long_threshold :: int
  mp_long_inclusive :: bool
  mp_long_input :: rat
  mp_long_output :: rat
  mp_image_output :: rat
  mp_image_output_explicit :: bool

definition no_pricing :: model_pricing where
  "no_pricing = \<lparr>mp_ultrafast = 0, mp_input = 0, mp_input_prio = 0, mp_image_input = 0, mp_image_cache_read = 0,
     mp_output = 0, mp_output_prio = 0, mp_write = 0, mp_write_prio = 0, mp_write_explicit = False,
     mp_read = 0, mp_read_prio = 0, mp_fast = None, mp_flex = None, mp_efforts = (\<lambda>_. None),
     mp_write5m = 0, mp_write1h = 0, mp_split = False, mp_long_threshold = 0, mp_long_inclusive = False,
     mp_long_input = 0, mp_long_output = 0, mp_image_output = 0, mp_image_output_explicit = False\<rparr>"

text \<open>An entry of the price list; \<open>ll_absent\<close> marks one without token prices.\<close>

record litellm_pricing =
  ll_input :: rat
  ll_input_prio :: rat
  ll_output :: rat
  ll_output_prio :: rat
  ll_write :: rat
  ll_write_explicit :: bool
  ll_write_prio :: rat
  ll_write1h :: rat
  ll_read :: rat
  ll_read_prio :: rat
  ll_long_threshold :: int
  ll_long_input :: rat
  ll_long_output :: rat
  ll_provider :: string
  ll_image_input :: rat
  ll_image_cache_read :: rat
  ll_image_output :: rat
  ll_absent :: bool

datatype billing_mode = ModeUnset | ModeToken | ModePerRequest | ModeImage | ModeVideo

record interval =
  iv_min :: int
  iv_max :: "int option"
  iv_label :: string
  iv_input :: "rat option"
  iv_output :: "rat option"
  iv_write :: "rat option"
  iv_write1h :: "rat option"
  iv_read :: "rat option"
  iv_input_mult :: "rat option"
  iv_output_mult :: "rat option"
  iv_write_mult :: "rat option"
  iv_read_mult :: "rat option"
  iv_per_request :: "rat option"

record channel_pricing =
  cp_models :: "string list"
  cp_mode :: billing_mode
  cp_input :: "rat option"
  cp_output :: "rat option"
  cp_write :: "rat option"
  cp_write1h :: "rat option"
  cp_read :: "rat option"
  cp_fast :: "rat option"
  cp_flex :: "rat option"
  cp_efforts :: "string \<Rightarrow> rat option"
  cp_image_input :: "rat option"
  cp_image_output :: "rat option"
  cp_per_request :: "rat option"
  cp_intervals :: "interval list"
  cp_time :: "(int \<Rightarrow> rat) option"

datatype price_source = SourceGroup | SourceChannel | SourceLiteLLM | SourceFallback

record resolved_pricing =
  rs_mode :: billing_mode
  rs_base :: "model_pricing option"
  rs_intervals :: "interval list"
  rs_tiers :: "interval list"
  rs_default :: rat
  rs_source :: price_source
  rs_split :: bool
  rs_channel :: "channel_pricing option"
  rs_long :: bool

record usage_tokens =
  ut_input :: int
  ut_image_input :: int
  ut_image_cache_read :: int
  ut_output :: int
  ut_write :: int
  ut_read :: int
  ut_write5m :: int
  ut_write1h :: int
  ut_image_output :: int

record cost_breakdown =
  cb_input :: rat
  cb_image_input :: rat
  cb_output :: rat
  cb_image_output :: rat
  cb_write :: rat
  cb_read :: rat
  cb_total :: rat
  cb_actual :: rat
  cb_mode :: billing_mode
  cb_long :: bool

record price_env =
  pe_round :: "rat \<Rightarrow> rat"
  pe_litellm :: "string \<Rightarrow> litellm_pricing option"
  pe_fallback :: "string \<Rightarrow> model_pricing option"
  pe_channel :: "id \<Rightarrow> string \<Rightarrow> channel_pricing option"
  pe_codex :: "string \<Rightarrow> string"
  pe_gpt56 :: "string \<Rightarrow> bool"
  pe_sol_luna_terra :: "string \<Rightarrow> bool"
  pe_astra :: "string \<Rightarrow> bool"
  pe_opus55 :: "string \<Rightarrow> bool"
  pe_now :: int

record group_prices =
  gp_long :: bool
  gp_pricing :: "channel_pricing list"

record cost_input =
  ci_model :: string
  ci_group_id :: "id option"
  ci_group :: "group_prices option"
  ci_tokens :: usage_tokens
  ci_count :: int
  ci_units :: rat
  ci_tier :: string
  ci_rate :: rat
  ci_at :: "int option"
  ci_service_tier :: string
  ci_effort :: string
  ci_resolver :: bool
  ci_resolved :: "resolved_pricing option"
  ci_long :: "bool option"
  ci_no_model_long :: bool

section \<open>Service tiers and multipliers\<close>

definition normalizeBillingServiceTier :: "string \<Rightarrow> string" where
  "normalizeBillingServiceTier tier = to_lower (trim_string tier)"

definition usePriorityServiceTierPricing :: "string \<Rightarrow> model_pricing \<Rightarrow> bool" where
  "usePriorityServiceTierPricing tier p =
     (let tier = normalizeBillingServiceTier tier
      in if tier \<noteq> ''priority'' \<and> tier \<noteq> ''fast'' then False
         else if mp_fast p \<noteq> None then False
         else mp_input_prio p > 0 \<or> mp_output_prio p > 0 \<or> mp_write_prio p > 0 \<or> mp_read_prio p > 0)"

definition serviceTierCostMultiplier :: "string \<Rightarrow> rat" where
  "serviceTierCostMultiplier tier =
     (let tier = normalizeBillingServiceTier tier
      in if tier = ''priority'' \<or> tier = ''fast'' \<or> tier = ''ultrafast'' then 2
         else if tier = ''flex'' then 1 / 2 else 1)"

definition configuredServiceTierMultiplier :: "string \<Rightarrow> model_pricing \<Rightarrow> rat" where
  "configuredServiceTierMultiplier tier p =
     (let t = normalizeBillingServiceTier tier
      in if t = ''ultrafast'' \<and> mp_ultrafast p > 0 then mp_ultrafast p
         else if t = ''priority'' \<or> t = ''fast''
         then (case mp_fast p of Some m \<Rightarrow> m | None \<Rightarrow> serviceTierCostMultiplier tier)
         else if t = ''flex''
         then (case mp_flex p of Some m \<Rightarrow> m | None \<Rightarrow> serviceTierCostMultiplier tier)
         else serviceTierCostMultiplier tier)"

definition NormalizeMaxReasoningEffort :: "string \<Rightarrow> string" where
  "NormalizeMaxReasoningEffort raw =
     (let v = filter (\<lambda>c. c \<notin> set ''-_ '') (to_lower (trim_string raw))
      in if v \<in> {''minimal'', ''low'', ''medium'', ''high'', ''max''} then v
         else if v = ''xhigh'' \<or> v = ''extrahigh'' then ''xhigh''
         else [])"

definition reasoningEffortBillingMultiplier :: "string \<Rightarrow> (string \<Rightarrow> rat option) \<Rightarrow> rat" where
  "reasoningEffortBillingMultiplier effort multipliers =
     (let effort = to_lower (trim_string effort);
          effort = (if effort \<noteq> ''none'' then NormalizeMaxReasoningEffort effort else effort)
      in if effort = [] then 1
         else case multipliers effort of None \<Rightarrow> 1 | Some m \<Rightarrow> if m \<le> 0 then 1 else m)"

definition resolvedChannelTimeMultiplier :: "resolved_pricing \<Rightarrow> int option \<Rightarrow> rat" where
  "resolvedChannelTimeMultiplier rs pricingAt =
     (case rs_channel rs of
        None \<Rightarrow> 1
      | Some cp \<Rightarrow> if rs_source rs \<noteq> SourceChannel then 1
          else case (cp_time cp, pricingAt) of (Some f, Some t) \<Rightarrow> f t | _ \<Rightarrow> 1)"

definition applyCostBreakdownMultiplier :: "price_env \<Rightarrow> rat \<Rightarrow> cost_breakdown \<Rightarrow> cost_breakdown" where
  "applyCostBreakdownMultiplier E m b =
     (if m = 1 then b
      else (let f = (\<lambda>x. pe_round E (x * m))
            in b\<lparr>cb_input := f (cb_input b), cb_image_input := f (cb_image_input b), cb_output := f (cb_output b),
                 cb_image_output := f (cb_image_output b), cb_write := f (cb_write b), cb_read := f (cb_read b),
                 cb_total := f (cb_total b), cb_actual := f (cb_actual b)\<rparr>))"

section \<open>The cost of tokens\<close>

text \<open>\<open>math.Round\<close> goes half away from zero.\<close>

definition math_round :: "rat \<Rightarrow> int" where
  "math_round x = (if x < 0 then - \<lfloor>- x + 1 / 2\<rfloor> else \<lfloor>x + 1 / 2\<rfloor>)"

definition normalizeCacheCreationBreakdown :: "price_env \<Rightarrow> usage_tokens \<Rightarrow> int \<times> int" where
  "normalizeCacheCreationBreakdown E t =
     (let a = (if ut_write5m t < 0 then 0 else ut_write5m t);
          b = (if ut_write1h t < 0 then 0 else ut_write1h t);
          n = ut_write t
      in if n \<le> 0 \<or> a \<le> n \<and> b \<le> n - a then (a, b)
         else (let total = pe_round E (of_int a + of_int b);
                   r = math_round (pe_round E (pe_round E (of_int n * of_int a) / total));
                   a = (if r \<ge> n then n else r)
               in (a, n - a)))"

definition computeCacheCreationCost :: "price_env \<Rightarrow> model_pricing \<Rightarrow> usage_tokens \<Rightarrow> rat \<Rightarrow> rat \<Rightarrow> rat" where
  "computeCacheCreationCost E p t price multiplier =
     (let R = pe_round E; cost = (\<lambda>n x. R (R (of_int n * x) * multiplier))
      in if mp_split p \<and> (mp_write5m p > 0 \<or> mp_write1h p > 0)
         then (let (a, b) = normalizeCacheCreationBreakdown E t
               in if a = 0 \<and> b = 0 \<and> ut_write t > 0 then cost (ut_write t) (mp_write5m p)
                  else R (cost a (mp_write5m p) + cost b (mp_write1h p)))
         else cost (ut_write t) price)"

definition longContextMultiplierOrOne :: "rat \<Rightarrow> rat" where
  "longContextMultiplierOrOne m = (if m \<le> 0 then 1 else m)"

definition shouldApplySessionLongContextPricing :: "usage_tokens \<Rightarrow> model_pricing \<Rightarrow> bool" where
  "shouldApplySessionLongContextPricing t p =
     (if mp_long_threshold p \<le> 0 then False
      else if mp_long_input p \<le> 1 \<and> mp_long_output p \<le> 1 then False
      else (let n = ut_input t + ut_write t + ut_read t
            in if mp_long_inclusive p then n \<ge> mp_long_threshold p else n > mp_long_threshold p))"

text \<open>Unit prices of a request: input, output, cache reads, cache writes, and the tier's multiplier.\<close>

record unit_prices =
  up_input :: rat
  up_output :: rat
  up_read :: rat
  up_write :: rat
  up_write_mult :: rat
  up_tier :: rat

definition tier_prices :: "model_pricing \<Rightarrow> string \<Rightarrow> unit_prices" where
  "tier_prices p tier =
     (let pick = (\<lambda>prio std. if prio > 0 then prio else std)
      in if usePriorityServiceTierPricing tier p
         then \<lparr>up_input = pick (mp_input_prio p) (mp_input p), up_output = pick (mp_output_prio p) (mp_output p),
               up_read = pick (mp_read_prio p) (mp_read p), up_write = pick (mp_write_prio p) (mp_write p),
               up_write_mult = 1, up_tier = 1\<rparr>
         else \<lparr>up_input = mp_input p, up_output = mp_output p, up_read = mp_read p, up_write = mp_write p,
               up_write_mult = 1, up_tier = configuredServiceTierMultiplier tier p\<rparr>)"

definition long_prices :: "price_env \<Rightarrow> model_pricing \<Rightarrow> unit_prices \<Rightarrow> unit_prices" where
  "long_prices E p u =
     (let R = pe_round E; m = longContextMultiplierOrOne (mp_long_input p)
      in u\<lparr>up_input := R (up_input u * m),
           up_output := R (up_output u * longContextMultiplierOrOne (mp_long_output p)),
           up_read := R (up_read u * m), up_write_mult := m\<rparr>)"

definition input_costs :: "price_env \<Rightarrow> model_pricing \<Rightarrow> usage_tokens \<Rightarrow> rat \<Rightarrow> rat \<times> rat" where
  "input_costs E p t inputPrice =
     (let R = pe_round E
      in if ut_image_input t > 0
         then (let (text, image) = (if ut_input t - ut_image_input t < 0 then (0, ut_input t)
                                    else (ut_input t - ut_image_input t, ut_image_input t));
                   imagePrice = (if mp_image_input p = 0 then inputPrice else mp_image_input p)
               in (R (of_int text * inputPrice), R (of_int image * imagePrice)))
         else (R (of_int (ut_input t) * inputPrice), 0))"

definition output_costs :: "price_env \<Rightarrow> model_pricing \<Rightarrow> usage_tokens \<Rightarrow> rat \<Rightarrow> rat \<times> rat" where
  "output_costs E p t outputPrice =
     (let R = pe_round E;
          text = (if ut_output t - ut_image_output t < 0 then 0 else ut_output t - ut_image_output t)
      in (R (of_int text * outputPrice),
          if ut_image_output t > 0
          then (let imgPrice = (if mp_image_output p = 0 \<and> \<not> mp_image_output_explicit p then outputPrice
                                else mp_image_output p)
                in R (of_int (ut_image_output t) * imgPrice))
          else 0))"

definition cache_read_cost :: "price_env \<Rightarrow> model_pricing \<Rightarrow> usage_tokens \<Rightarrow> rat \<Rightarrow> rat" where
  "cache_read_cost E p t price =
     (let R = pe_round E; image = min (max (ut_image_cache_read t) 0) (max (ut_read t) 0)
      in if image > 0 \<and> mp_image_cache_read p > 0
         then R (R (of_int (ut_read t - image) * price) + R (of_int image * mp_image_cache_read p))
         else R (of_int (ut_read t) * price))"

definition cost_at :: "price_env \<Rightarrow> model_pricing \<Rightarrow> usage_tokens \<Rightarrow> rat \<Rightarrow> unit_prices \<Rightarrow> cost_breakdown" where
  "cost_at E p t rate u =
     (let R = pe_round E;
          rate = (if rate < 0 then 0 else rate);
          scale = (\<lambda>x. if up_tier u \<noteq> 1 then R (x * up_tier u) else x);
          (input, image_input) = input_costs E p t (up_input u);
          (output, image_output) = output_costs E p t (up_output u);
          input = scale input; image_input = scale image_input;
          output = scale output; image_output = scale image_output;
          write = scale (computeCacheCreationCost E p t (up_write u) (up_write_mult u));
          read = scale (cache_read_cost E p t (up_read u));
          total = R (R (R (R (R (input + image_input) + output) + image_output) + write) + read)
      in \<lparr>cb_input = input, cb_image_input = image_input, cb_output = output, cb_image_output = image_output,
          cb_write = write, cb_read = read, cb_total = total, cb_actual = R (total * rate),
          cb_mode = ModeUnset, cb_long = False\<rparr>)"

text \<open>The recursive call for the baseline does not apply the long context, so it is a call of \<open>cost_at\<close>.\<close>

definition computeTokenBreakdown ::
    "price_env \<Rightarrow> model_pricing \<Rightarrow> usage_tokens \<Rightarrow> rat \<Rightarrow> string \<Rightarrow> bool \<Rightarrow> cost_breakdown" where
  "computeTokenBreakdown E p t rate tier applyLongCtx =
     (let u = tier_prices p tier
      in if applyLongCtx \<and> shouldApplySessionLongContextPricing t p
         then (let baseline = cost_at E p t rate u; b = cost_at E p t rate (long_prices E p u)
               in b\<lparr>cb_long := cb_actual b > cb_actual baseline\<rparr>)
         else cost_at E p t rate u)"

section \<open>Prices of particular models\<close>

definition isDeepSeekModel :: "string \<Rightarrow> bool" where
  "isDeepSeekModel model = prefix ''deepseek-'' (to_lower (trim_string model))"

definition isDeepSeekProModel :: "string \<Rightarrow> bool" where
  "isDeepSeekProModel model = sublist ''deepseek-v4-pro'' (to_lower (trim_string model))"

text \<open>Double on working days, Beijing time, from 1 to 4 and from 6 to 10 o'clock UTC.\<close>

definition deepseekPeakMultiplierAt :: "int \<Rightarrow> rat" where
  "deepseekPeakMultiplierAt now =
     (if ns_weekday (now + 8 * ns_hour) = 6 \<or> ns_weekday (now + 8 * ns_hour) = 0 then 1
      else (let h = now div ns_hour mod 24
            in if h \<ge> 1 \<and> h < 4 \<or> h \<ge> 6 \<and> h < 10 then 2 else 1))"

definition openAIModelFastPricingRatio :: "price_env \<Rightarrow> string \<Rightarrow> rat" where
  "openAIModelFastPricingRatio E normalized =
     (if normalized \<in> {''gpt-5.4'', ''gpt-5.6-sol'', ''gpt-5.6-terra'', ''gpt-5.6-luna'', ''gpt-6-astra'',
         ''gpt-6.1-terra'', ''gpt-6.1-sol'', ''gpt-6-sol'', ''gpt-6-luna''} then 2
      else if normalized = ''gpt-5.5'' then 5 / 2
      else if pe_astra E normalized then 2 else 0)"

definition enforceOpenAIFastPricingRatio :: "price_env \<Rightarrow> rat \<Rightarrow> model_pricing \<Rightarrow> model_pricing" where
  "enforceOpenAIFastPricingRatio E ratio p =
     (if ratio \<le> 0 then p
      else (let R = pe_round E
            in p\<lparr>mp_input_prio := R (mp_input p * ratio), mp_output_prio := R (mp_output p * ratio),
                 mp_read_prio := (if mp_read p > 0 then R (mp_read p * ratio) else mp_read_prio p),
                 mp_write_prio := (if mp_write p > 0 then R (mp_write p * ratio) else mp_write_prio p)\<rparr>))"

definition fill_cache_write :: "price_env \<Rightarrow> model_pricing \<Rightarrow> model_pricing" where
  "fill_cache_write E p =
     p\<lparr>mp_write := (if mp_write p \<le> 0 then pe_round E (mp_input p * (5 / 4)) else mp_write p),
       mp_write_prio := (if mp_write_prio p \<le> 0 then pe_round E (mp_input_prio p * (5 / 4)) else mp_write_prio p)\<rparr>"

definition deepseek_prices :: "price_env \<Rightarrow> string \<Rightarrow> model_pricing \<Rightarrow> model_pricing" where
  "deepseek_prices E model p =
     (let R = pe_round E
      in if isDeepSeekProModel model
         then p\<lparr>mp_input := R (66 / 10 ^ 8), mp_output := R (198 / 10 ^ 8), mp_read := R (22 / 10 ^ 9)\<rparr>
         else p\<lparr>mp_input := R (15 / 10 ^ 8), mp_output := R (6 / 10 ^ 7), mp_read := R (3 / 10 ^ 9)\<rparr>)"

definition needsOpus55FastMultiplier :: "price_env \<Rightarrow> string \<Rightarrow> model_pricing \<Rightarrow> bool" where
  "needsOpus55FastMultiplier E model p \<longleftrightarrow> pe_opus55 E model \<and> mp_fast p = None"

definition usesCacheWritePremium :: "price_env \<Rightarrow> string \<Rightarrow> bool" where
  "usesCacheWritePremium E normalized \<longleftrightarrow> pe_gpt56 E normalized \<or> pe_sol_luna_terra E normalized"

definition policy_multipliers :: "price_env \<Rightarrow> string \<Rightarrow> model_pricing \<Rightarrow> model_pricing" where
  "policy_multipliers E model p =
     (let p' = (if pe_astra E (pe_codex E model) then p\<lparr>mp_ultrafast := 6\<rparr> else p)
      in if needsOpus55FastMultiplier E model p then p'\<lparr>mp_fast := Some 2\<rparr> else p')"

definition policy_prices :: "price_env \<Rightarrow> string \<Rightarrow> model_pricing \<Rightarrow> model_pricing" where
  "policy_prices E model p =
     (let normalized = pe_codex E model;
          fastRatio = openAIModelFastPricingRatio E normalized;
          p = policy_multipliers E model p;
          p = (if usesCacheWritePremium E normalized \<and> \<not> mp_write_explicit p then fill_cache_write E p else p)
      in if fastRatio > 0
         then (let p = enforceOpenAIFastPricingRatio E fastRatio p
               in if pe_sol_luna_terra E normalized \<and> mp_write_explicit p
                  then p\<lparr>mp_write_prio := pe_round E (mp_write p * fastRatio)\<rparr> else p)
         else p)"

definition applyModelSpecificPricingPolicyEx ::
    "price_env \<Rightarrow> string \<Rightarrow> model_pricing \<Rightarrow> bool \<Rightarrow> model_pricing" where
  "applyModelSpecificPricingPolicyEx E model p forceDeepSeekRates =
     (if forceDeepSeekRates \<and> isDeepSeekModel model then deepseek_prices E model p
      else
        (let normalized = pe_codex E model;
             needsCreation = (usesCacheWritePremium E normalized \<and> \<not> mp_write_explicit p
               \<and> (mp_write p \<le> 0 \<or> mp_input_prio p > 0 \<and> mp_write_prio p \<le> 0))
         in if \<not> needsCreation \<and> openAIModelFastPricingRatio E normalized \<le> 0 \<and> \<not> needsOpus55FastMultiplier E model p then p
            else policy_prices E model p))"

text \<open>
  Two lifetimes of cache writes are told apart only where the longer one is dearer.  An entry without
  token prices is skipped; \<open>None\<close> is \<open>ErrModelPricingUnavailable\<close>.
\<close>

definition litellm_model_pricing :: "price_env \<Rightarrow> string \<Rightarrow> litellm_pricing \<Rightarrow> model_pricing" where
  "litellm_model_pricing E model l =
     no_pricing\<lparr>mp_input := ll_input l, mp_input_prio := ll_input_prio l, mp_output := ll_output l, mp_output_prio := ll_output_prio l,
       mp_write_explicit := (pe_sol_luna_terra E model \<and> ll_write_explicit l), mp_write := ll_write l, mp_write_prio := ll_write_prio l,
       mp_read := ll_read l, mp_read_prio := ll_read_prio l, mp_write5m := ll_write l, mp_write1h := ll_write1h l,
       mp_split := (ll_write1h l > 0 \<and> ll_write1h l > ll_write l),
       mp_long_threshold := ll_long_threshold l, mp_long_inclusive := (to_lower (ll_provider l) = ''xai''),
       mp_long_input := ll_long_input l, mp_long_output := ll_long_output l,
       mp_image_input := ll_image_input l, mp_image_cache_read := ll_image_cache_read l, mp_image_output := ll_image_output l\<rparr>"

definition GetModelPricing :: "price_env \<Rightarrow> string \<Rightarrow> model_pricing option" where
  "GetModelPricing E model =
     (let model = to_lower model
      in case pe_litellm E model of
        Some l \<Rightarrow>
          if \<not> ll_absent l then Some (applyModelSpecificPricingPolicyEx E model (litellm_model_pricing E model l) True)
          else map_option (\<lambda>p. applyModelSpecificPricingPolicyEx E model p True) (pe_fallback E model)
      | None \<Rightarrow> map_option (\<lambda>p. applyModelSpecificPricingPolicyEx E model p True) (pe_fallback E model))"

section \<open>Price cards\<close>

definition channelTierOverridePrice :: "price_env \<Rightarrow> rat \<Rightarrow> rat \<Rightarrow> rat \<Rightarrow> rat" where
  "channelTierOverridePrice E baseStandard baseTier channelStandard =
     (if baseStandard > 0 \<and> baseTier > 0
      then pe_round E (channelStandard * pe_round E (baseTier / baseStandard)) else 0)"

definition set_input :: "price_env \<Rightarrow> rat option \<Rightarrow> model_pricing \<Rightarrow> model_pricing" where
  "set_input E v p = (case v of None \<Rightarrow> p
     | Some x \<Rightarrow> p\<lparr>mp_input := x, mp_input_prio := channelTierOverridePrice E (mp_input p) (mp_input_prio p) x\<rparr>)"

definition set_output :: "price_env \<Rightarrow> rat option \<Rightarrow> model_pricing \<Rightarrow> model_pricing" where
  "set_output E v p = (case v of None \<Rightarrow> p
     | Some x \<Rightarrow> p\<lparr>mp_output := x, mp_output_prio := channelTierOverridePrice E (mp_output p) (mp_output_prio p) x\<rparr>)"

definition set_read :: "price_env \<Rightarrow> rat option \<Rightarrow> model_pricing \<Rightarrow> model_pricing" where
  "set_read E v p = (case v of None \<Rightarrow> p
     | Some x \<Rightarrow> p\<lparr>mp_read := x, mp_read_prio := channelTierOverridePrice E (mp_read p) (mp_read_prio p) x\<rparr>)"

text \<open>A lone write price sets both lifetimes.\<close>

definition set_write :: "price_env \<Rightarrow> rat option \<Rightarrow> rat option \<Rightarrow> model_pricing \<Rightarrow> model_pricing" where
  "set_write E v v1h p = (case v of None \<Rightarrow> p
     | Some x \<Rightarrow> p\<lparr>mp_write := x, mp_write_prio := channelTierOverridePrice E (mp_write p) (mp_write_prio p) x,
         mp_write_explicit := True, mp_write5m := x, mp_write1h := (if v1h = None then x else mp_write1h p)\<rparr>)"

definition set_write1h :: "rat option \<Rightarrow> model_pricing \<Rightarrow> model_pricing" where
  "set_write1h v p = (case v of None \<Rightarrow> p | Some x \<Rightarrow> p\<lparr>mp_write1h := x, mp_split := True\<rparr>)"

definition applyChannelTokenPriceOverrides :: "price_env \<Rightarrow> channel_pricing \<Rightarrow> model_pricing \<Rightarrow> model_pricing" where
  "applyChannelTokenPriceOverrides E cp p =
     set_read E (cp_read cp) (set_write1h (cp_write1h cp) (set_write E (cp_write cp) (cp_write1h cp)
       (set_output E (cp_output cp) (set_input E (cp_input cp) p))))"

definition applyChannelImagePriceOverrides :: "channel_pricing option \<Rightarrow> model_pricing \<Rightarrow> model_pricing" where
  "applyChannelImagePriceOverrides cpo p = (case cpo of None \<Rightarrow> p
     | Some cp \<Rightarrow>
         (let p = (case cp_image_output cp of None \<Rightarrow> p
              | Some x \<Rightarrow> p\<lparr>mp_image_output := x, mp_image_output_explicit := True\<rparr>)
          in case cp_image_input cp of None \<Rightarrow> p | Some x \<Rightarrow> p\<lparr>mp_image_input := x\<rparr>))"

definition interval_priced :: "interval \<Rightarrow> bool" where
  "interval_priced iv \<longleftrightarrow> iv_input iv \<noteq> None \<or> iv_output iv \<noteq> None \<or> iv_write iv \<noteq> None
     \<or> iv_write1h iv \<noteq> None \<or> iv_read iv \<noteq> None \<or> iv_per_request iv \<noteq> None \<or> iv_input_mult iv \<noteq> None
     \<or> iv_output_mult iv \<noteq> None \<or> iv_write_mult iv \<noteq> None \<or> iv_read_mult iv \<noteq> None"

definition filterValidIntervals :: "interval list \<Rightarrow> interval list" where
  "filterValidIntervals = filter interval_priced"

definition applyTokenOverrides :: "price_env \<Rightarrow> channel_pricing \<Rightarrow> resolved_pricing \<Rightarrow> resolved_pricing" where
  "applyTokenOverrides E cp rs =
     (let base = (case rs_base rs of None \<Rightarrow> no_pricing | Some p \<Rightarrow> p);
          base = applyChannelTokenPriceOverrides E cp base;
          split = (cp_write1h cp \<noteq> None \<or> list_ex (\<lambda>iv. iv_write1h iv \<noteq> None) (cp_intervals cp));
          base = (if split then base\<lparr>mp_split := True\<rparr> else base);
          base = base\<lparr>mp_fast := cp_fast cp, mp_flex := cp_flex cp, mp_efforts := cp_efforts cp\<rparr>
      in rs\<lparr>rs_base := Some (applyChannelImagePriceOverrides (Some cp) base),
            rs_split := (rs_split rs \<or> split), rs_intervals := filterValidIntervals (cp_intervals cp)\<rparr>)"

definition applyRequestTierOverrides :: "channel_pricing \<Rightarrow> resolved_pricing \<Rightarrow> resolved_pricing" where
  "applyRequestTierOverrides cp rs =
     rs\<lparr>rs_tiers := filterValidIntervals (cp_intervals cp),
        rs_default := (case cp_per_request cp of None \<Rightarrow> rs_default rs | Some x \<Rightarrow> x)\<rparr>"

definition per_request_mode :: "billing_mode \<Rightarrow> bool" where
  "per_request_mode mode \<longleftrightarrow> mode = ModePerRequest \<or> mode = ModeImage \<or> mode = ModeVideo"

definition mode_or_token :: "billing_mode \<Rightarrow> billing_mode" where
  "mode_or_token mode = (if mode = ModeUnset then ModeToken else mode)"

definition resolveBasePricing :: "price_env \<Rightarrow> string \<Rightarrow> model_pricing option \<times> price_source" where
  "resolveBasePricing E model = (case GetModelPricing E model of
     None \<Rightarrow> (None, SourceFallback) | Some p \<Rightarrow> (Some p, SourceLiteLLM))"

definition split_of :: "model_pricing option \<Rightarrow> bool" where
  "split_of base = (case base of None \<Rightarrow> False | Some p \<Rightarrow> mp_split p)"

definition fresh_resolved :: "billing_mode \<Rightarrow> model_pricing option \<Rightarrow> price_source \<Rightarrow> channel_pricing option \<Rightarrow> bool \<Rightarrow> resolved_pricing" where
  "fresh_resolved mode base source cp long = \<lparr>rs_mode = mode, rs_base = base, rs_intervals = [], rs_tiers = [],
     rs_default = 0, rs_source = source, rs_split = split_of base, rs_channel = cp, rs_long = long\<rparr>"

definition resolveConfiguredPricing ::
    "price_env \<Rightarrow> channel_pricing \<Rightarrow> string \<Rightarrow> price_source \<Rightarrow> bool \<Rightarrow> resolved_pricing" where
  "resolveConfiguredPricing E cp model source long =
     (let mode = mode_or_token (cp_mode cp)
      in if per_request_mode mode
         then applyRequestTierOverrides cp (fresh_resolved mode None source (Some cp) long)
         else applyTokenOverrides E cp (fresh_resolved mode (fst (resolveBasePricing E model)) source (Some cp) long))"

definition normalizeChannelPricingModelName :: "string \<Rightarrow> string" where
  "normalizeChannelPricingModelName model =
     (let m = to_lower (trim_string model)
      in if prefix ''claude-'' m then map (\<lambda>c. if c = CHR ''.'' then CHR ''-'' else c) m else m)"

text \<open>The two loops over entries and patterns: an exact name wins, else the first wildcard.\<close>

fun match_patterns :: "string \<Rightarrow> (channel_pricing \<times> string) list \<Rightarrow> channel_pricing option \<Rightarrow> channel_pricing option" where
  "match_patterns model [] wildcard = wildcard"
| "match_patterns model ((entry, pat) # rest) wildcard =
     (let normalized = normalizeChannelPricingModelName pat
      in if normalized = model then Some entry
         else if normalized \<noteq> [] \<and> last normalized = CHR ''*'' \<and> prefix (butlast normalized) model \<and> wildcard = None
         then match_patterns model rest (Some entry)
         else match_patterns model rest wildcard)"

definition matchGroupModelPricing :: "group_prices option \<Rightarrow> string \<Rightarrow> channel_pricing option" where
  "matchGroupModelPricing grp model = (case grp of None \<Rightarrow> None
     | Some g \<Rightarrow> match_patterns (normalizeChannelPricingModelName model)
         (concat (map (\<lambda>e. map (Pair e) (cp_models e)) (gp_pricing g))) None)"

definition lookupChannelPricingNormalized :: "price_env \<Rightarrow> id \<Rightarrow> string \<Rightarrow> channel_pricing option" where
  "lookupChannelPricingNormalized E groupID model = (case pe_channel E groupID model of
     Some cp \<Rightarrow> Some cp
   | None \<Rightarrow>
       (let normalized = pe_codex E model
        in if normalized = [] \<or> to_lower normalized = to_lower (trim_string model) then None
           else pe_channel E groupID normalized))"

text \<open>A second look-up of the same card finds nothing either, so the last branch of the code is idle.\<close>

definition Resolve :: "price_env \<Rightarrow> string \<Rightarrow> id option \<Rightarrow> group_prices option \<Rightarrow> resolved_pricing" where
  "Resolve E model groupID grp =
     (let long = (case grp of None \<Rightarrow> True | Some g \<Rightarrow> gp_long g)
      in case matchGroupModelPricing grp model of
        Some gp \<Rightarrow>
          resolveConfiguredPricing E (if cp_mode gp = ModeUnset \<or> cp_mode gp = ModeToken then gp\<lparr>cp_intervals := []\<rparr> else gp)
            model SourceGroup long
      | None \<Rightarrow>
          (let ch = (case groupID of None \<Rightarrow> None | Some g \<Rightarrow> lookupChannelPricingNormalized E g model);
               (base, source) = resolveBasePricing E model
           in case ch of
             None \<Rightarrow> fresh_resolved ModeToken base source None long
           | Some cp \<Rightarrow>
               if per_request_mode (cp_mode cp)
               then applyRequestTierOverrides cp (fresh_resolved (cp_mode cp) None SourceChannel (Some cp) long)
               else applyTokenOverrides E cp (fresh_resolved ModeToken base SourceChannel (Some cp) long)))"

section \<open>Intervals\<close>

definition interval_matches :: "int \<Rightarrow> interval \<Rightarrow> bool" where
  "interval_matches n iv \<longleftrightarrow> n > iv_min iv \<and> (case iv_max iv of None \<Rightarrow> True | Some m \<Rightarrow> n \<le> m)"

definition FindMatchingInterval :: "interval list \<Rightarrow> int \<Rightarrow> interval option" where
  "FindMatchingInterval ivs n = find (interval_matches n) ivs"

definition interval_prices_ok :: "interval \<Rightarrow> bool" where
  "interval_prices_ok iv \<longleftrightarrow>
     (\<forall>v\<in>{iv_input iv, iv_output iv, iv_write iv, iv_write1h iv, iv_read iv, iv_per_request iv}. case v of None \<Rightarrow> True | Some x \<Rightarrow> \<not> x < 0)
     \<and> (\<forall>v\<in>{iv_input_mult iv, iv_output_mult iv, iv_write_mult iv, iv_read_mult iv}. case v of None \<Rightarrow> True | Some x \<Rightarrow> \<not> x \<le> 0)"

definition validateSingleInterval :: "interval \<Rightarrow> bool" where
  "validateSingleInterval iv \<longleftrightarrow> \<not> iv_min iv < 0
     \<and> (case iv_max iv of None \<Rightarrow> True | Some m \<Rightarrow> \<not> m \<le> 0 \<and> \<not> m \<le> iv_min iv) \<and> interval_prices_ok iv"

fun validateIntervalOverlap :: "interval list \<Rightarrow> bool" where
  "validateIntervalOverlap [] = True"
| "validateIntervalOverlap [iv] = True"
| "validateIntervalOverlap (prev # iv # rest) =
     ((case iv_max prev of None \<Rightarrow> False | Some m \<Rightarrow> \<not> m > iv_min iv) \<and> validateIntervalOverlap (iv # rest))"

text \<open>\<open>sort.Slice\<close> may order equal lower bounds either way; such intervals overlap and are refused in any order.\<close>

definition ValidateIntervals :: "interval list \<Rightarrow> billing_mode \<Rightarrow> bool" where
  "ValidateIntervals ivs mode =
     (if ivs = [] then True
      else (let sorted = sort_key iv_min ivs
            in list_all validateSingleInterval sorted \<and> (per_request_mode mode \<or> validateIntervalOverlap sorted)))"

definition scale_opt :: "price_env \<Rightarrow> rat option \<Rightarrow> rat \<Rightarrow> rat" where
  "scale_opt E m x = (case m of None \<Rightarrow> x | Some k \<Rightarrow> pe_round E (x * k))"

definition intervalToModelPricing :: "price_env \<Rightarrow> interval \<Rightarrow> model_pricing option \<Rightarrow> channel_pricing option \<Rightarrow> model_pricing" where
  "intervalToModelPricing E iv base cpo =
     (let p = (case base of None \<Rightarrow> no_pricing | Some p \<Rightarrow> p);
          p = (if iv_input iv \<noteq> None then set_input E (iv_input iv) p
               else p\<lparr>mp_input := scale_opt E (iv_input_mult iv) (mp_input p),
                      mp_input_prio := scale_opt E (iv_input_mult iv) (mp_input_prio p)\<rparr>);
          p = (if iv_output iv \<noteq> None then set_output E (iv_output iv) p
               else p\<lparr>mp_output := scale_opt E (iv_output_mult iv) (mp_output p),
                      mp_output_prio := scale_opt E (iv_output_mult iv) (mp_output_prio p)\<rparr>);
          p = (if iv_write iv \<noteq> None then set_write E (iv_write iv) (iv_write1h iv) p
               else p\<lparr>mp_write := scale_opt E (iv_write_mult iv) (mp_write p),
                      mp_write_prio := scale_opt E (iv_write_mult iv) (mp_write_prio p),
                      mp_write5m := scale_opt E (iv_write_mult iv) (mp_write5m p),
                      mp_write1h := scale_opt E (iv_write_mult iv) (mp_write1h p)\<rparr>);
          p = set_write1h (iv_write1h iv) p;
          p = (if iv_read iv \<noteq> None then set_read E (iv_read iv) p
               else p\<lparr>mp_read := scale_opt E (iv_read_mult iv) (mp_read p),
                      mp_read_prio := scale_opt E (iv_read_mult iv) (mp_read_prio p)\<rparr>)
      in applyChannelImagePriceOverrides cpo p)"

definition GetIntervalPricing :: "price_env \<Rightarrow> resolved_pricing \<Rightarrow> int \<Rightarrow> model_pricing option" where
  "GetIntervalPricing E rs n =
     (if rs_intervals rs = [] then rs_base rs
      else case FindMatchingInterval (rs_intervals rs) n of
        None \<Rightarrow> rs_base rs
      | Some iv \<Rightarrow> Some ((intervalToModelPricing E iv (rs_base rs) (rs_channel rs))\<lparr>mp_split := rs_split rs\<rparr>))"

section \<open>The cost of a request\<close>

definition GetRequestTierPrice :: "resolved_pricing \<Rightarrow> string \<Rightarrow> rat" where
  "GetRequestTierPrice rs label =
     (case find (\<lambda>iv. iv_label iv = label \<and> iv_per_request iv \<noteq> None) (rs_tiers rs) of
        None \<Rightarrow> 0 | Some iv \<Rightarrow> (case iv_per_request iv of None \<Rightarrow> 0 | Some x \<Rightarrow> x))"

definition GetRequestTierPriceByContext :: "resolved_pricing \<Rightarrow> int \<Rightarrow> rat" where
  "GetRequestTierPriceByContext rs n = (case FindMatchingInterval (rs_tiers rs) n of
     None \<Rightarrow> 0 | Some iv \<Rightarrow> (case iv_per_request iv of None \<Rightarrow> 0 | Some x \<Rightarrow> x))"

definition total_context :: "usage_tokens \<Rightarrow> int" where
  "total_context t = ut_input t + ut_write t + ut_read t"

definition calculatePerRequestCost :: "price_env \<Rightarrow> resolved_pricing \<Rightarrow> cost_input \<Rightarrow> cost_breakdown" where
  "calculatePerRequestCost E rs ci =
     (let R = pe_round E;
          units = (if ci_units ci \<le> 0 then of_int (if ci_count ci \<le> 0 then 1 else ci_count ci) else ci_units ci);
          unitPrice = (if ci_tier ci \<noteq> [] then GetRequestTierPrice rs (ci_tier ci) else 0);
          unitPrice = (if unitPrice = 0 then GetRequestTierPriceByContext rs (total_context (ci_tokens ci)) else unitPrice);
          unitPrice = (if unitPrice = 0 then rs_default rs else unitPrice);
          total = R (unitPrice * units)
      in \<lparr>cb_input = 0, cb_image_input = 0, cb_output = 0, cb_image_output = 0, cb_write = 0, cb_read = 0,
          cb_total = total, cb_actual = R (total * ci_rate ci), cb_mode = ModeUnset, cb_long = False\<rparr>)"

definition context_tiers_enabled :: "resolved_pricing \<Rightarrow> cost_input \<Rightarrow> bool" where
  "context_tiers_enabled rs ci \<longleftrightarrow> rs_long rs \<or> ci_long ci = Some True"

definition calculateTokenCost :: "price_env \<Rightarrow> resolved_pricing \<Rightarrow> cost_input \<Rightarrow> cost_breakdown option" where
  "calculateTokenCost E rs ci =
     (case GetIntervalPricing E rs (if context_tiers_enabled rs ci then total_context (ci_tokens ci) else 1) of
        None \<Rightarrow> None
      | Some p \<Rightarrow>
          (let R = pe_round E;
               pricingAt = (case ci_at ci of None \<Rightarrow> pe_now E | Some t \<Rightarrow> t);
               p = applyModelSpecificPricingPolicyEx E (ci_model ci) p (rs_source rs = SourceLiteLLM);
               mult = deepseekPeakMultiplierAt pricingAt;
               p = (if rs_source rs = SourceLiteLLM \<and> isDeepSeekModel (ci_model ci) \<and> mult > 1
                    then p\<lparr>mp_input := R (mp_input p * mult), mp_output := R (mp_output p * mult),
                           mp_read := R (mp_read p * mult)\<rparr> else p);
               applyLongCtx = (rs_intervals rs = [] \<and> context_tiers_enabled rs ci \<and> \<not> ci_no_model_long ci);
               b = computeTokenBreakdown E p (ci_tokens ci) (ci_rate ci) (ci_service_tier ci) applyLongCtx;
               b = applyCostBreakdownMultiplier E (resolvedChannelTimeMultiplier rs (ci_at ci)) b
           in Some (applyCostBreakdownMultiplier E (reasoningEffortBillingMultiplier (ci_effort ci) (mp_efforts p)) b)))"

definition CalculateCostUnified :: "price_env \<Rightarrow> cost_input \<Rightarrow> cost_breakdown option" where
  "CalculateCostUnified E ci =
     (if \<not> ci_resolver ci
      then (case GetModelPricing E (ci_model ci) of
              None \<Rightarrow> None
            | Some p \<Rightarrow>
                (let long = (case ci_long ci of None \<Rightarrow> True | Some b \<Rightarrow> b);
                     b = computeTokenBreakdown E p (ci_tokens ci) (ci_rate ci) (ci_service_tier ci)
                           (long \<and> \<not> ci_no_model_long ci)
                 in Some (applyCostBreakdownMultiplier E (reasoningEffortBillingMultiplier (ci_effort ci) (mp_efforts p)) b)))
      else
        (let rs = (case ci_resolved ci of Some rs \<Rightarrow> rs
                   | None \<Rightarrow> Resolve E (ci_model ci) (ci_group_id ci) (ci_group ci));
             ci = (if ci_rate ci < 0 then ci\<lparr>ci_rate := 0\<rparr> else ci);
             result = (if per_request_mode (rs_mode rs)
               then (let b = calculatePerRequestCost E rs ci
                     in Some (case rs_channel rs of None \<Rightarrow> b
                          | Some cp \<Rightarrow> applyCostBreakdownMultiplier E (reasoningEffortBillingMultiplier (ci_effort ci) (cp_efforts cp)) b))
               else calculateTokenCost E rs ci)
         in map_option (\<lambda>b. b\<lparr>cb_mode := mode_or_token (rs_mode rs)\<rparr>) result))"

section \<open>Bounds\<close>

text \<open>
  Rounding to doubles, where nothing over- or underflows; a price is a double that is not negative.
\<close>

definition rounds :: "(rat \<Rightarrow> rat) \<Rightarrow> bool" where
  "rounds R \<longleftrightarrow> mono R \<and> R 0 = 0 \<and> (\<forall>x. R (R x) = R x) \<and> (\<forall>x>0. R x > 0)"

definition price :: "(rat \<Rightarrow> rat) \<Rightarrow> rat \<Rightarrow> bool" where
  "price R x \<longleftrightarrow> 0 \<le> x \<and> R x = x"

definition prices_ok :: "(rat \<Rightarrow> rat) \<Rightarrow> model_pricing \<Rightarrow> bool" where
  "prices_ok R p \<longleftrightarrow> price R (mp_input p) \<and> price R (mp_input_prio p) \<and> price R (mp_image_input p)
     \<and> price R (mp_image_cache_read p) \<and> price R (mp_output p) \<and> price R (mp_output_prio p)
     \<and> price R (mp_write p) \<and> price R (mp_write_prio p) \<and> price R (mp_read p) \<and> price R (mp_read_prio p)
     \<and> price R (mp_write5m p) \<and> price R (mp_write1h p) \<and> price R (mp_image_output p)
     \<and> pred_option ((\<le>) 0) (mp_fast p) \<and> pred_option ((\<le>) 0) (mp_flex p)"

definition tokens_ok :: "usage_tokens \<Rightarrow> bool" where
  "tokens_ok t \<longleftrightarrow> 0 \<le> ut_input t \<and> 0 \<le> ut_output t \<and> 0 \<le> ut_write t \<and> 0 \<le> ut_read t"

definition units_ok :: "(rat \<Rightarrow> rat) \<Rightarrow> unit_prices \<Rightarrow> bool" where
  "units_ok R u \<longleftrightarrow> price R (up_input u) \<and> price R (up_output u) \<and> price R (up_read u) \<and> price R (up_write u)
     \<and> 0 \<le> up_write_mult u \<and> 0 \<le> up_tier u"

lemma rounds_mono: "rounds R \<Longrightarrow> x \<le> y \<Longrightarrow> R x \<le> R y"
  by (auto simp: rounds_def dest: monoD)

lemma price_round: "rounds R \<Longrightarrow> 0 \<le> x \<Longrightarrow> price R (R x)"
  using rounds_mono[of R 0 x] by (auto simp: rounds_def price_def)

lemma price_0: "rounds R \<Longrightarrow> price R 0"
  by (simp add: price_def rounds_def)

lemma price_ge_0: "price R x \<Longrightarrow> 0 \<le> x"
  by (simp add: price_def)

lemma price_sum: "rounds R \<Longrightarrow> price R x \<Longrightarrow> price R y \<Longrightarrow> price R (R (x + y)) \<and> x \<le> R (x + y) \<and> y \<le> R (x + y)"
  using rounds_mono[of R x "x + y"] rounds_mono[of R y "x + y"] by (auto simp: price_def rounds_def intro: price_round)

lemma price_scaled: "rounds R \<Longrightarrow> price R x \<Longrightarrow> 0 \<le> m \<Longrightarrow> price R (R (x * m))"
  by (simp add: price_round price_ge_0)

lemma price_lines: "rounds R \<Longrightarrow> price R x \<Longrightarrow> 0 \<le> n \<Longrightarrow> price R (R (of_int n * x))"
  by (simp add: price_round price_ge_0)

lemma math_round_nonneg: "0 \<le> x \<Longrightarrow> 0 \<le> math_round x"
  by (simp add: math_round_def)

lemma split_details:
  assumes "rounds (pe_round E)" "normalizeCacheCreationBreakdown E t = (a, b)"
  shows "0 \<le> a \<and> 0 \<le> b"
proof -
  let ?a = "max 0 (ut_write5m t)" and ?b = "max 0 (ut_write1h t)" and ?n = "ut_write t" and ?R = "pe_round E"
  have R: "0 \<le> ?R x" if "0 \<le> x" for x using price_ge_0[OF price_round[OF assms(1) that]] .
  have m: "(if x < 0 then 0 else x) = max 0 x" for x :: int by simp
  have "0 \<le> math_round (?R (?R (of_int ?n * of_int ?a) / ?R (of_int ?a + of_int ?b)))" if "0 < ?n"
    using that by (intro math_round_nonneg R divide_nonneg_nonneg mult_nonneg_nonneg add_nonneg_nonneg) auto
  then show ?thesis using assms(2) unfolding normalizeCacheCreationBreakdown_def Let_def m
    by (auto split: if_splits)
qed

lemma price_write_cost:
  assumes R: "rounds (pe_round E)" and p: "prices_ok (pe_round E) p" "price (pe_round E) x" "0 \<le> m" "tokens_ok t"
  shows "price (pe_round E) (computeCacheCreationCost E p t x m)"
proof -
  obtain a b where ab: "normalizeCacheCreationBreakdown E t = (a, b)" by (cases "normalizeCacheCreationBreakdown E t")
  have line: "price (pe_round E) (pe_round E (pe_round E (of_int n * y) * m))" if "0 \<le> n" "price (pe_round E) y" for n y
    using that p(3) by (intro price_scaled price_lines R)
  have n: "0 \<le> a" "0 \<le> b" "0 \<le> ut_write t" using split_details[OF R ab] p(4) by (auto simp: tokens_ok_def)
  have q: "price (pe_round E) (mp_write5m p)" "price (pe_round E) (mp_write1h p)" using p(1) by (auto simp: prices_ok_def)
  show ?thesis unfolding computeCacheCreationCost_def Let_def ab
    using line[OF n(1) q(1)] line[OF n(2) q(2)] line[OF n(3) q(1)] line[OF n(3) p(2)] price_sum[OF R] by auto
qed

lemma price_read_cost:
  assumes R: "rounds (pe_round E)" and p: "prices_ok (pe_round E) p" "price (pe_round E) x" "tokens_ok t"
  shows "price (pe_round E) (cache_read_cost E p t x)"
proof -
  have q: "price (pe_round E) (mp_image_cache_read p)" "0 \<le> ut_read t" using p by (auto simp: prices_ok_def tokens_ok_def)
  let ?i = "min (max (ut_image_cache_read t) 0) (max (ut_read t) 0)"
  have i: "0 \<le> ?i" "0 \<le> ut_read t - ?i" using q(2) by auto
  show ?thesis unfolding cache_read_cost_def Let_def
    using price_sum[OF R price_lines[OF R p(2) i(2)] price_lines[OF R q(1) i(1)]] price_lines[OF R p(2) q(2)] by simp
qed

lemma price_io_costs:
  assumes R: "rounds (pe_round E)" and p: "prices_ok (pe_round E) p" "price (pe_round E) x" "tokens_ok t"
  shows "price (pe_round E) (fst (input_costs E p t x))" "price (pe_round E) (snd (input_costs E p t x))"
    "price (pe_round E) (fst (output_costs E p t x))" "price (pe_round E) (snd (output_costs E p t x))"
  using p by (auto simp: input_costs_def output_costs_def Let_def tokens_ok_def prices_ok_def price_ge_0
      intro!: price_round[OF R] price_0[OF R] mult_nonneg_nonneg)

lemma cost_at_simps:
  fixes E p t rate u
  defines "b \<equiv> cost_at E p t rate u" and "R \<equiv> pe_round E"
    and "scale \<equiv> \<lambda>x. if up_tier u \<noteq> 1 then pe_round E (x * up_tier u) else x"
  shows "cb_input b = scale (fst (input_costs E p t (up_input u)))"
    "cb_image_input b = scale (snd (input_costs E p t (up_input u)))"
    "cb_output b = scale (fst (output_costs E p t (up_output u)))"
    "cb_image_output b = scale (snd (output_costs E p t (up_output u)))"
    "cb_write b = scale (computeCacheCreationCost E p t (up_write u) (up_write_mult u))"
    "cb_read b = scale (cache_read_cost E p t (up_read u))"
    "cb_total b = R (R (R (R (R (cb_input b + cb_image_input b) + cb_output b) + cb_image_output b) + cb_write b) + cb_read b)"
    "cb_actual b = R (cb_total b * (if rate < 0 then 0 else rate))" "\<not> cb_long b"
  by (simp_all add: b_def R_def scale_def cost_at_def Let_def split_beta)

lemma cost_parts:
  fixes rate :: rat
  assumes R: "rounds (pe_round E)" and p: "prices_ok (pe_round E) p" "tokens_ok t" and u: "units_ok (pe_round E) u"
  defines "b \<equiv> cost_at E p t rate u"
  shows "\<forall>x\<in>{cb_input b, cb_image_input b, cb_output b, cb_image_output b, cb_write b, cb_read b}.
      price (pe_round E) x \<and> x \<le> cb_total b"
    "price (pe_round E) (cb_total b)" "0 \<le> cb_actual b" "rate \<le> 0 \<Longrightarrow> cb_actual b = 0"
proof -
  have scaled: "price (pe_round E) (if up_tier u \<noteq> 1 then pe_round E (x * up_tier u) else x)" if "price (pe_round E) x" for x
    using u that price_scaled[OF R that] by (simp add: units_ok_def)
  have x: "price (pe_round E) (cb_input b)" "price (pe_round E) (cb_image_input b)" "price (pe_round E) (cb_output b)"
    "price (pe_round E) (cb_image_output b)" "price (pe_round E) (cb_write b)" "price (pe_round E) (cb_read b)"
    unfolding b_def cost_at_simps using u
    by (intro scaled price_io_costs[OF R p(1) _ p(2)] price_write_cost[OF R p(1) _ _ p(2)] price_read_cost[OF R p(1) _ p(2)];
        simp add: units_ok_def)+
  note S = price_sum[OF R]
  let ?s2 = "pe_round E (cb_input b + cb_image_input b)"
  let ?s3 = "pe_round E (?s2 + cb_output b)"
  let ?s4 = "pe_round E (?s3 + cb_image_output b)"
  let ?s5 = "pe_round E (?s4 + cb_write b)"
  have t: "cb_total b = pe_round E (?s5 + cb_read b)" unfolding b_def by (rule cost_at_simps)
  note s2 = S[OF x(1,2)] note s3 = S[OF conjunct1[OF s2] x(3)] note s4 = S[OF conjunct1[OF s3] x(4)]
  note s5 = S[OF conjunct1[OF s4] x(5)] note s6 = S[OF conjunct1[OF s5] x(6)]
  show total: "price (pe_round E) (cb_total b)" unfolding t using s6 by blast
  show "\<forall>x\<in>{cb_input b, cb_image_input b, cb_output b, cb_image_output b, cb_write b, cb_read b}.
      price (pe_round E) x \<and> x \<le> cb_total b"
    using x s2 s3 s4 s5 s6 unfolding t by (auto intro: order_trans)
  have a: "cb_actual b = pe_round E (cb_total b * (if rate < 0 then 0 else rate))" unfolding b_def by (rule cost_at_simps)
  show "0 \<le> cb_actual b" unfolding a using price_ge_0[OF price_round[OF R]] price_ge_0[OF total] by simp
  show "cb_actual b = 0" if "rate \<le> 0" using that R unfolding a by (auto simp: rounds_def)
qed

lemma units_tier_prices: "rounds R \<Longrightarrow> prices_ok R p \<Longrightarrow> units_ok R (tier_prices p tier)"
  by (auto simp: units_ok_def tier_prices_def Let_def prices_ok_def configuredServiceTierMultiplier_def
      serviceTierCostMultiplier_def price_ge_0 split: option.splits)

lemma units_long_prices: "rounds (pe_round E) \<Longrightarrow> units_ok (pe_round E) u \<Longrightarrow> units_ok (pe_round E) (long_prices E p u)"
  by (auto simp: units_ok_def long_prices_def Let_def longContextMultiplierOrOne_def price_scaled)

text \<open>
  The parts of the cost of tokens are never negative and none exceeds the total; the amount charged
  is not negative, and a rate of zero or below charges nothing.  This holds for every service tier,
  with and without long context, however results are rounded.
\<close>

theorem token_cost_bounds:
  assumes "rounds (pe_round E)" "prices_ok (pe_round E) p" "tokens_ok t"
  shows "let b = computeTokenBreakdown E p t rate tier long
    in (\<forall>x\<in>{cb_input b, cb_image_input b, cb_output b, cb_image_output b, cb_write b, cb_read b}. 0 \<le> x \<and> x \<le> cb_total b)
       \<and> 0 \<le> cb_actual b \<and> (rate \<le> 0 \<longrightarrow> cb_actual b = 0)"
proof -
  let ?u = "tier_prices p tier"
  have u: "units_ok (pe_round E) ?u" by (rule units_tier_prices[OF assms(1,2)])
  have P: "(\<forall>x\<in>{cb_input b, cb_image_input b, cb_output b, cb_image_output b, cb_write b, cb_read b}. 0 \<le> x \<and> x \<le> cb_total b)
       \<and> 0 \<le> cb_actual b \<and> (rate \<le> 0 \<longrightarrow> cb_actual b = 0)"
    if "b = cost_at E p t rate v" "units_ok (pe_round E) v" for b v
    using cost_parts[OF assms that(2), of rate] unfolding that(1) by (auto dest: price_ge_0)
  show ?thesis
    using P[OF refl u] P[OF refl units_long_prices[OF assms(1) u, of p]]
    by (simp add: computeTokenBreakdown_def Let_def)
qed

section \<open>Long contexts\<close>

lemma line_mono: "rounds R \<Longrightarrow> 0 \<le> n \<Longrightarrow> x \<le> y \<Longrightarrow> R (of_int n * x) \<le> R (of_int n * y)"
  by (rule rounds_mono) (auto intro: mult_left_mono)

lemma write_cost_mono:
  assumes R: "rounds (pe_round E)" and p: "prices_ok (pe_round E) p" "price (pe_round E) x" "tokens_ok t" "0 \<le> m" "m \<le> m'"
  shows "computeCacheCreationCost E p t x m \<le> computeCacheCreationCost E p t x m'"
proof -
  obtain a b where ab: "normalizeCacheCreationBreakdown E t = (a, b)" by (cases "normalizeCacheCreationBreakdown E t")
  have line: "pe_round E (pe_round E (of_int n * y) * m) \<le> pe_round E (pe_round E (of_int n * y) * m')"
    if "0 \<le> n" "price (pe_round E) y" for n y
    using p(5) price_ge_0[OF price_lines[OF R that(2,1)]] by (intro rounds_mono[OF R] mult_left_mono)
  have n: "0 \<le> a" "0 \<le> b" "0 \<le> ut_write t" using split_details[OF R ab] p(3) by (auto simp: tokens_ok_def)
  have q: "price (pe_round E) (mp_write5m p)" "price (pe_round E) (mp_write1h p)" using p(1) by (auto simp: prices_ok_def)
  have sum: "pe_round E (pe_round E (pe_round E (of_int a * mp_write5m p) * m) + pe_round E (pe_round E (of_int b * mp_write1h p) * m))
      \<le> pe_round E (pe_round E (pe_round E (of_int a * mp_write5m p) * m') + pe_round E (pe_round E (of_int b * mp_write1h p) * m'))"
    by (intro rounds_mono[OF R] add_mono line n q)
  show ?thesis unfolding computeCacheCreationCost_def Let_def ab
    using sum line[OF n(3) q(1)] line[OF n(3) p(2)] by auto
qed

lemma read_cost_mono:
  assumes R: "rounds (pe_round E)" and "tokens_ok t" "x \<le> y"
  shows "cache_read_cost E p t x \<le> cache_read_cost E p t y"
proof -
  let ?i = "min (max (ut_image_cache_read t) 0) (max (ut_read t) 0)"
  have i: "0 \<le> ut_read t - ?i" "0 \<le> ut_read t" using assms(2) by (auto simp: tokens_ok_def)
  show ?thesis unfolding cache_read_cost_def Let_def
    using line_mono[OF R i(1) assms(3)] line_mono[OF R i(2) assms(3)] rounds_mono[OF R add_right_mono] by simp
qed

lemma io_costs_mono:
  assumes R: "rounds (pe_round E)" and "tokens_ok t" "x \<le> y"
  shows "fst (input_costs E p t x) \<le> fst (input_costs E p t y)" "snd (input_costs E p t x) \<le> snd (input_costs E p t y)"
    "fst (output_costs E p t x) \<le> fst (output_costs E p t y)" "snd (output_costs E p t x) \<le> snd (output_costs E p t y)"
  using assms(2,3) unfolding input_costs_def output_costs_def Let_def tokens_ok_def
  by (auto intro!: line_mono[OF R] simp del: of_int_diff)

lemma cost_at_mono:
  fixes rate :: rat
  assumes R: "rounds (pe_round E)" and p: "prices_ok (pe_round E) p" "tokens_ok t" and u: "units_ok (pe_round E) u"
    and le: "up_input u \<le> up_input v" "up_output u \<le> up_output v" "up_read u \<le> up_read v" "up_write v = up_write u"
      "up_write_mult u \<le> up_write_mult v" "up_tier v = up_tier u"
  shows "cb_total (cost_at E p t rate u) \<le> cb_total (cost_at E p t rate v)"
    "cb_actual (cost_at E p t rate u) \<le> cb_actual (cost_at E p t rate v)"
proof -
  have scale: "(if up_tier u \<noteq> 1 then pe_round E (x * up_tier u) else x) \<le> (if up_tier u \<noteq> 1 then pe_round E (y * up_tier u) else y)"
    if "x \<le> y" for x y
    using that u by (auto simp: units_ok_def intro: rounds_mono[OF R] mult_right_mono)
  have w: "price (pe_round E) (up_write u)" "0 \<le> up_write_mult u" using u by (auto simp: units_ok_def)
  show total: "cb_total (cost_at E p t rate u) \<le> cb_total (cost_at E p t rate v)"
    unfolding cost_at_simps le(4,6)
    by (intro rounds_mono[OF R] add_mono scale io_costs_mono[OF R p(2)] le
        write_cost_mono[OF R p(1) w(1) p(2) w(2)] read_cost_mono[OF R p(2)])
  show "cb_actual (cost_at E p t rate u) \<le> cb_actual (cost_at E p t rate v)"
    unfolding cost_at_simps(8) by (intro rounds_mono[OF R] mult_right_mono total) simp
qed

text \<open>
  The long-context surcharge never makes a request cheaper, where each of its multipliers is unset or
  at least one; the breakdown is marked as long exactly when the surcharge raised the charge.
\<close>

theorem long_context_never_cheaper:
  assumes "rounds (pe_round E)" "prices_ok (pe_round E) p" "tokens_ok t"
    "mp_long_input p \<le> 0 \<or> 1 \<le> mp_long_input p" "mp_long_output p \<le> 0 \<or> 1 \<le> mp_long_output p"
  shows "let b = computeTokenBreakdown E p t rate tier True; b0 = computeTokenBreakdown E p t rate tier False
    in cb_total b0 \<le> cb_total b \<and> cb_actual b0 \<le> cb_actual b \<and> (cb_long b \<longleftrightarrow> cb_actual b0 < cb_actual b)"
proof -
  let ?u = "tier_prices p tier" and ?v = "long_prices E p (tier_prices p tier)"
  have u: "units_ok (pe_round E) ?u" by (rule units_tier_prices[OF assms(1,2)])
  have up: "x \<le> pe_round E (x * longContextMultiplierOrOne m)" if "price (pe_round E) x" "m \<le> 0 \<or> 1 \<le> m" for x m
  proof -
    have "x * 1 \<le> x * longContextMultiplierOrOne m"
      using that by (intro mult_left_mono) (auto simp: longContextMultiplierOrOne_def price_def)
    from rounds_mono[OF assms(1) this] show ?thesis using that(1) by (simp add: price_def)
  qed
  have one: "up_write_mult ?u = 1" by (simp add: tier_prices_def Let_def)
  have le: "up_input ?u \<le> up_input ?v" "up_output ?u \<le> up_output ?v" "up_read ?u \<le> up_read ?v"
    "up_write ?v = up_write ?u" "up_write_mult ?u \<le> up_write_mult ?v" "up_tier ?v = up_tier ?u"
    using u up[OF _ assms(4), of "up_input ?u"] up[OF _ assms(5), of "up_output ?u"] up[OF _ assms(4), of "up_read ?u"]
      assms(4) one
    by (auto simp: long_prices_def Let_def units_ok_def) (auto simp: longContextMultiplierOrOne_def)
  show ?thesis
    using cost_at_mono[OF assms(1-3) u le, of rate] cost_at_simps(9)[of E p t rate ?u]
    by (auto simp: computeTokenBreakdown_def Let_def)
qed

section \<open>What is billed\<close>














section \<open>Intervals do not overlap\<close>

lemma overlap_free:
  assumes "list_all validateSingleInterval ivs" "validateIntervalOverlap ivs" "i < j" "j < length ivs" "interval_matches n (ivs ! i)"
  shows "\<not> interval_matches n (ivs ! j)"
  using assms
proof (induction ivs arbitrary: i j rule: validateIntervalOverlap.induct)
  case (3 prev iv rest)
  have step: "\<forall>k < length (iv # rest). iv_min iv \<le> iv_min ((iv # rest) ! k)"
    using "3.prems"(1,2)
  proof (induction rest arbitrary: prev iv)
    case (Cons x xs)
    have m: "iv_min iv \<le> iv_min x"
      using Cons.prems by (auto simp: validateSingleInterval_def split: option.splits)
    have "\<forall>k < length (x # xs). iv_min x \<le> iv_min ((x # xs) ! k)"
      using Cons.prems by (intro Cons.IH[of iv x]) (auto split: option.splits)
    with m show ?case by (auto simp: nth_Cons less_Suc_eq_0_disj split: nat.splits)
  qed simp
  show ?case
  proof (cases i)
    case 0
    obtain m where m: "iv_max prev = Some m" "m \<le> iv_min iv" using "3.prems"(2) by (auto split: option.splits)
    have "n \<le> m" using "3.prems"(5) 0 m(1) by (simp add: interval_matches_def)
    moreover obtain k where k: "j = Suc k" "k < length (iv # rest)" using "3.prems"(3,4) 0 by (cases j) auto
    moreover have "iv_min iv \<le> iv_min ((iv # rest) ! k)" using step k(2) by blast
    ultimately show ?thesis using m(2) by (simp add: interval_matches_def)
  next
    case (Suc i')
    then obtain k where k: "j = Suc k" using "3.prems"(3) by (cases j) auto
    then show ?thesis using "3.IH"[of i' k] "3.prems" Suc by simp
  qed
qed auto

text \<open>Of intervals that are pairwise apart, one at most matches, so their order does not matter.\<close>

lemma at_most_one:
  assumes "\<And>i j. i < j \<Longrightarrow> j < length xs \<Longrightarrow> P (xs ! i) \<Longrightarrow> \<not> P (xs ! j)"
  shows "length (filter P xs) \<le> 1"
  using assms
proof (induction xs)
  case (Cons x xs)
  have "\<not> P y" if "P x" "y \<in> set xs" for y
    using Cons.prems[of 0 "Suc k" for k] that by (auto simp: in_set_conv_nth)
  then have "P x \<Longrightarrow> filter P xs = []" by (simp add: filter_empty_conv)
  moreover have "length (filter P xs) \<le> 1"
    using Cons.prems[of "Suc i" "Suc j" for i j] by (intro Cons.IH) simp
  ultimately show ?case by auto
qed simp

lemma find_filter: "find P xs = (case filter P xs of [] \<Rightarrow> None | x # _ \<Rightarrow> Some x)"
  by (induction xs) auto

lemma find_any_order:
  assumes "length (filter P xs) \<le> 1" "mset ys = mset xs"
  shows "find P ys = find P xs"
proof -
  have m: "mset (filter P ys) = mset (filter P xs)" using assms(2) by simp
  have "filter P ys = filter P xs"
  proof (cases "filter P xs")
    case (Cons x zs)
    then have "mset (filter P ys) = {#x#}" using m assms(1) by simp
    then have "filter P ys = [x]" by (simp only: mset_single_iff)
    then show ?thesis using Cons assms(1) by simp
  qed (use m in simp)
  then show ?thesis by (simp add: find_filter)
qed

text \<open>
  Once the intervals of a token price card are accepted, a context belongs to one of them at most, and the interval found does not
  depend on the order in which they are stored.
\<close>

theorem intervals_unique:
  assumes "ValidateIntervals ivs mode" "\<not> per_request_mode mode"
  shows "length (filter (interval_matches n) ivs) \<le> 1
    \<and> (FindMatchingInterval ivs n = Some iv \<longleftrightarrow> iv \<in> set ivs \<and> interval_matches n iv)
    \<and> (mset ivs' = mset ivs \<longrightarrow> FindMatchingInterval ivs' n = FindMatchingInterval ivs n)"
proof -
  let ?s = "sort_key iv_min ivs"
  have v: "list_all validateSingleInterval ?s" "validateIntervalOverlap ?s"
    using assms by (cases "ivs = []"; simp add: ValidateIntervals_def Let_def)+
  have "length (filter (interval_matches n) ?s) \<le> 1"
    by (rule at_most_one) (rule overlap_free[OF v])
  moreover have "mset (filter (interval_matches n) ?s) = mset (filter (interval_matches n) ivs)" by simp
  ultimately have one: "length (filter (interval_matches n) ivs) \<le> 1" by (metis size_mset)
  have "FindMatchingInterval ivs n = Some iv \<longleftrightarrow> iv \<in> set (filter (interval_matches n) ivs)"
    using one by (cases "filter (interval_matches n) ivs") (auto simp: FindMatchingInterval_def find_filter simp del: set_filter)
  moreover have "mset ivs' = mset ivs \<Longrightarrow> FindMatchingInterval ivs' n = FindMatchingInterval ivs n"
    unfolding FindMatchingInterval_def by (rule find_any_order[OF one])
  ultimately show ?thesis using one by simp
qed

section \<open>Which price applies\<close>

text \<open>The card that prices a request: one of the group, whose token prices have no intervals, before the channel's.\<close>

definition card_for :: "price_env \<Rightarrow> string \<Rightarrow> id option \<Rightarrow> group_prices option \<Rightarrow> channel_pricing option" where
  "card_for E model groupID grp = (case matchGroupModelPricing grp model of
     Some gp \<Rightarrow> Some (if per_request_mode (cp_mode gp) then gp else gp\<lparr>cp_intervals := []\<rparr>)
   | None \<Rightarrow> (case groupID of None \<Rightarrow> None | Some g \<Rightarrow> lookupChannelPricingNormalized E g model))"


definition card_source :: "string \<Rightarrow> group_prices option \<Rightarrow> price_source" where
  "card_source model grp = (if matchGroupModelPricing grp model \<noteq> None then SourceGroup else SourceChannel)"

lemma mode_or_token_simps:
  "per_request_mode (mode_or_token mode) = per_request_mode mode" "per_request_mode mode \<Longrightarrow> mode_or_token mode = mode"
  "per_request_mode mode \<or> mode_or_token mode = ModeToken"
  "(mode = ModeUnset \<or> mode = ModeToken) = (\<not> per_request_mode mode)"
  by (cases mode; simp add: mode_or_token_def per_request_mode_def)+

lemma resolveConfiguredPricing_eq:
  "resolveConfiguredPricing E cp model source long = (if per_request_mode (cp_mode cp)
     then applyRequestTierOverrides cp (fresh_resolved (cp_mode cp) None source (Some cp) long)
     else applyTokenOverrides E cp (fresh_resolved ModeToken (GetModelPricing E model) source (Some cp) long))"
  using mode_or_token_simps(3)[of "cp_mode cp"]
  by (cases "per_request_mode (cp_mode cp)")
    (simp_all add: resolveConfiguredPricing_def Let_def mode_or_token_simps(1,2) resolveBasePricing_def
      per_request_mode_def[of ModeToken] split: option.split)

lemma Resolve_card:
  fixes grp :: "group_prices option"
  defines "long \<equiv> (case grp of None \<Rightarrow> True | Some g \<Rightarrow> gp_long g)"
  shows "Resolve E model groupID grp = (case card_for E model groupID grp of
      None \<Rightarrow> fresh_resolved ModeToken (GetModelPricing E model) (snd (resolveBasePricing E model)) None long
    | Some cp \<Rightarrow> if per_request_mode (cp_mode cp)
        then applyRequestTierOverrides cp (fresh_resolved (cp_mode cp) None (card_source model grp) (Some cp) long)
        else applyTokenOverrides E cp (fresh_resolved ModeToken (GetModelPricing E model) (card_source model grp) (Some cp) long))"
proof (cases "matchGroupModelPricing grp model")
  case None
  obtain src where "resolveBasePricing E model = (GetModelPricing E model, src)"
    by (cases "GetModelPricing E model") (auto simp: resolveBasePricing_def)
  then show ?thesis unfolding Resolve_def Let_def card_for_def card_source_def None long_def by (simp split: option.split)
next
  case (Some gp)
  then show ?thesis unfolding Resolve_def Let_def card_for_def card_source_def long_def
    by (simp add: resolveConfiguredPricing_eq mode_or_token_simps(4))
qed

lemma unsplit_price_simps [simp]:
  "mp_input (p\<lparr>mp_split := b\<rparr>) = mp_input p" "mp_output (p\<lparr>mp_split := b\<rparr>) = mp_output p"
  "mp_read (p\<lparr>mp_split := b\<rparr>) = mp_read p" "mp_write (p\<lparr>mp_split := b\<rparr>) = mp_write p"
  by simp_all


lemma image_price_simps [simp]:
  "mp_input (applyChannelImagePriceOverrides cpo p) = mp_input p" "mp_output (applyChannelImagePriceOverrides cpo p) = mp_output p"
  "mp_read (applyChannelImagePriceOverrides cpo p) = mp_read p" "mp_write5m (applyChannelImagePriceOverrides cpo p) = mp_write5m p"
  "mp_write1h (applyChannelImagePriceOverrides cpo p) = mp_write1h p"
  by (simp_all add: applyChannelImagePriceOverrides_def Let_def split: option.split)



section \<open>The price policy\<close>

lemma price_no_ops:
  "mp_ultrafast p = x \<Longrightarrow> p\<lparr>mp_ultrafast := x\<rparr> = p" "mp_write_prio p = x \<Longrightarrow> p\<lparr>mp_write_prio := x\<rparr> = p"
  "mp_write p = x \<Longrightarrow> mp_write_prio p = y \<Longrightarrow> p\<lparr>mp_write := x, mp_write_prio := y\<rparr> = p"
  "mp_input p = x \<Longrightarrow> mp_output p = y \<Longrightarrow> mp_read p = z \<Longrightarrow> p\<lparr>mp_input := x, mp_output := y, mp_read := z\<rparr> = p"
  by (cases p; simp)+

lemma fill_twice:
  assumes "rounds (pe_round E)" "0 \<le> mp_input_prio p" "0 < k" "0 \<le> mp_input p"
  shows "fill_cache_write E (enforceOpenAIFastPricingRatio E k (fill_cache_write E p)) = enforceOpenAIFastPricingRatio E k (fill_cache_write E p)"
proof -
  have pos: "0 < pe_round E x" if "0 < x" for x using assms(1) that by (simp add: rounds_def)
  have zero: "pe_round E 0 = 0" using assms(1) by (simp add: rounds_def)
  consider "mp_write p > 0" | "mp_write p \<le> 0" "mp_input p > 0" | "mp_write p \<le> 0" "mp_input p = 0" using assms(4) by linarith
  then show ?thesis
  proof cases
    case 3
    then show ?thesis using assms(2,3) zero pos[of "mp_input_prio p * (5 / 4)"]
      by (cases "mp_input_prio p = 0") (auto simp: fill_cache_write_def enforceOpenAIFastPricingRatio_def Let_def)
  qed (use assms(3) pos[of "mp_input p * (5 / 4)"] pos[of "mp_write p * k"] pos[of "pe_round E (mp_input p * (5 / 4)) * k"] in
      \<open>auto simp: fill_cache_write_def enforceOpenAIFastPricingRatio_def Let_def\<close>)
qed

lemma fill_twice_plain: "fill_cache_write E (fill_cache_write E p) = fill_cache_write E p"
  by (simp add: fill_cache_write_def)

lemma enforce_twice:
  "enforceOpenAIFastPricingRatio E k (enforceOpenAIFastPricingRatio E k p) = enforceOpenAIFastPricingRatio E k p"
  by (simp add: enforceOpenAIFastPricingRatio_def Let_def)

lemma policy_fields:
  "mp_write_explicit (fill_cache_write E p) = mp_write_explicit p" "mp_fast (fill_cache_write E p) = mp_fast p"
  "mp_ultrafast (fill_cache_write E p) = mp_ultrafast p"
  "mp_write_explicit (enforceOpenAIFastPricingRatio E k p) = mp_write_explicit p"
  "mp_fast (enforceOpenAIFastPricingRatio E k p) = mp_fast p" "mp_ultrafast (enforceOpenAIFastPricingRatio E k p) = mp_ultrafast p"
  "mp_write (enforceOpenAIFastPricingRatio E k p) = mp_write p"
  by (simp_all add: enforceOpenAIFastPricingRatio_def fill_cache_write_def Let_def)

lemma enforce_write_prio:
  "enforceOpenAIFastPricingRatio E k (enforceOpenAIFastPricingRatio E k p\<lparr>mp_write_prio := pe_round E (mp_write p * k)\<rparr>)
     \<lparr>mp_write_prio := pe_round E (mp_write p * k)\<rparr> = enforceOpenAIFastPricingRatio E k p\<lparr>mp_write_prio := pe_round E (mp_write p * k)\<rparr>"
  by (simp add: enforceOpenAIFastPricingRatio_def Let_def)

lemma policy_multipliers_id:
  "mp_fast q = mp_fast (policy_multipliers E model p) \<Longrightarrow> mp_ultrafast q = mp_ultrafast (policy_multipliers E model p)
    \<Longrightarrow> policy_multipliers E model q = q"
  by (auto simp: policy_multipliers_def Let_def needsOpus55FastMultiplier_def price_no_ops split: if_splits)

lemma policy_prices_twice:
  assumes "rounds (pe_round E)" "prices_ok (pe_round E) p"
  shows "policy_prices E model (policy_prices E model p) = policy_prices E model p"
proof -
  define k where "k = openAIModelFastPricingRatio E (pe_codex E model)"
  define p2 where "p2 = policy_multipliers E model p"
  define q where "q = policy_prices E model p"
  have ok: "0 \<le> mp_input p2" "0 \<le> mp_input_prio p2"
    using assms(2) by (auto simp: prices_ok_def price_def p2_def policy_multipliers_def Let_def)
  have fields: "mp_write_explicit q = mp_write_explicit p2" "mp_fast q = mp_fast p2" "mp_ultrafast q = mp_ultrafast p2"
    unfolding q_def policy_prices_def p2_def by (simp_all add: Let_def policy_fields)
  have id: "policy_multipliers E model q = q" using fields(2,3) unfolding p2_def by (rule policy_multipliers_id)
  have "policy_prices E model q = q"
  proof (cases "k > 0")
    case True
    then show ?thesis unfolding policy_prices_def[of E model q] id unfolding q_def policy_prices_def k_def[symmetric] p2_def[symmetric] Let_def
      by (cases "mp_write_explicit p2"; cases "usesCacheWritePremium E (pe_codex E model)"; cases "pe_sol_luna_terra E (pe_codex E model)")
        (simp_all add: policy_fields enforce_twice enforce_write_prio fill_twice[OF assms(1) ok(2) True ok(1)])
  next
    case False
    then show ?thesis unfolding policy_prices_def[of E model q] id unfolding q_def policy_prices_def k_def[symmetric] p2_def[symmetric] Let_def
      by (simp add: policy_fields fill_twice_plain)
  qed
  then show ?thesis unfolding q_def .
qed

text \<open>
  The price policy for a model is idempotent: applied to its own result, as the calculation of token
  costs does with the prices of the catalogue, it changes nothing, so no multiplier or premium is charged twice.
\<close>

theorem policy_idempotent:
  assumes "rounds (pe_round E)" "prices_ok (pe_round E) p"
  shows "applyModelSpecificPricingPolicyEx E model (applyModelSpecificPricingPolicyEx E model p force) force
    = applyModelSpecificPricingPolicyEx E model p force"
  using policy_prices_twice[OF assms, of model]
  by (auto simp: applyModelSpecificPricingPolicyEx_def Let_def deepseek_prices_def)

section \<open>No request is paid for\<close>

text \<open>Price lists and cards as the validation of the administration accepts them: nothing negative, all doubles.\<close>

definition litellm_ok :: "(rat \<Rightarrow> rat) \<Rightarrow> litellm_pricing \<Rightarrow> bool" where
  "litellm_ok R l \<longleftrightarrow> (\<forall>x\<in>{ll_input l, ll_input_prio l, ll_output l, ll_output_prio l, ll_write l, ll_write_prio l, ll_write1h l,
     ll_read l, ll_read_prio l, ll_image_input l, ll_image_cache_read l, ll_image_output l}. price R x)"

definition interval_ok :: "(rat \<Rightarrow> rat) \<Rightarrow> interval \<Rightarrow> bool" where
  "interval_ok R iv \<longleftrightarrow>
     (\<forall>v\<in>{iv_input iv, iv_output iv, iv_write iv, iv_write1h iv, iv_read iv, iv_per_request iv}. pred_option (price R) v)
     \<and> (\<forall>v\<in>{iv_input_mult iv, iv_output_mult iv, iv_write_mult iv, iv_read_mult iv}. pred_option ((\<le>) 0) v)"

definition card_ok :: "(rat \<Rightarrow> rat) \<Rightarrow> channel_pricing \<Rightarrow> bool" where
  "card_ok R cp \<longleftrightarrow>
     (\<forall>v\<in>{cp_input cp, cp_output cp, cp_write cp, cp_write1h cp, cp_read cp, cp_image_input cp, cp_image_output cp, cp_per_request cp}.
        pred_option (price R) v)
     \<and> pred_option ((\<le>) 0) (cp_fast cp) \<and> pred_option ((\<le>) 0) (cp_flex cp)
     \<and> list_all (interval_ok R) (cp_intervals cp) \<and> pred_option (\<lambda>f. \<forall>t. 0 \<le> f t) (cp_time cp)"

definition resolved_ok :: "(rat \<Rightarrow> rat) \<Rightarrow> resolved_pricing \<Rightarrow> bool" where
  "resolved_ok R rs \<longleftrightarrow> pred_option (prices_ok R) (rs_base rs) \<and> list_all (interval_ok R) (rs_intervals rs)
     \<and> list_all (interval_ok R) (rs_tiers rs) \<and> 0 \<le> rs_default rs \<and> pred_option (card_ok R) (rs_channel rs)"

definition env_ok :: "price_env \<Rightarrow> bool" where
  "env_ok E \<longleftrightarrow> rounds (pe_round E) \<and> (\<forall>m. pred_option (litellm_ok (pe_round E)) (pe_litellm E m))
     \<and> (\<forall>m. pred_option (prices_ok (pe_round E)) (pe_fallback E m))
     \<and> (\<forall>g m. pred_option (card_ok (pe_round E)) (pe_channel E g m))"

lemma env_rounds: "env_ok E \<Longrightarrow> rounds (pe_round E)"
  by (simp add: env_ok_def)

lemma price_override: "rounds (pe_round E) \<Longrightarrow> 0 \<le> x \<Longrightarrow> price (pe_round E) (channelTierOverridePrice E a b x)"
  by (simp add: channelTierOverridePrice_def price_0 price_round price_ge_0[OF price_round])

lemma price_scale_opt: "rounds (pe_round E) \<Longrightarrow> price (pe_round E) x \<Longrightarrow> pred_option ((\<le>) 0) m \<Longrightarrow> price (pe_round E) (scale_opt E m x)"
  by (auto simp: scale_opt_def intro: price_scaled split: option.split)

lemma prices_ok_sets:
  assumes "rounds (pe_round E)" "prices_ok (pe_round E) p" "pred_option (price (pe_round E)) v"
  shows "prices_ok (pe_round E) (set_input E v p)" "prices_ok (pe_round E) (set_output E v p)" "prices_ok (pe_round E) (set_read E v p)"
    "prices_ok (pe_round E) (set_write E v w p)" "prices_ok (pe_round E) (set_write1h v p)"
  using assms price_override[OF assms(1)]
  by (auto simp: set_input_def set_output_def set_read_def set_write_def set_write1h_def prices_ok_def price_ge_0 split: option.split)

lemma prices_ok_image:
  "prices_ok R p \<Longrightarrow> pred_option (card_ok R) cpo \<Longrightarrow> prices_ok R (applyChannelImagePriceOverrides cpo p)"
  by (auto simp: applyChannelImagePriceOverrides_def Let_def prices_ok_def card_ok_def split: option.split)

lemma prices_ok_none: "rounds R \<Longrightarrow> prices_ok R no_pricing"
  by (simp add: no_pricing_def prices_ok_def price_0)

lemma prices_ok_enforce:
  "rounds (pe_round E) \<Longrightarrow> prices_ok (pe_round E) p \<Longrightarrow> prices_ok (pe_round E) (enforceOpenAIFastPricingRatio E k p)"
  by (auto simp: enforceOpenAIFastPricingRatio_def Let_def prices_ok_def intro!: price_scaled)

lemma prices_ok_fill:
  "rounds (pe_round E) \<Longrightarrow> prices_ok (pe_round E) p \<Longrightarrow> prices_ok (pe_round E) (fill_cache_write E p)"
  by (auto simp: fill_cache_write_def prices_ok_def price_ge_0 intro!: price_round)

lemma prices_ok_policy:
  assumes "rounds (pe_round E)" "prices_ok (pe_round E) p"
  shows "prices_ok (pe_round E) (applyModelSpecificPricingPolicyEx E model p force)"
proof -
  have "prices_ok (pe_round E) (deepseek_prices E model p)"
    using assms by (auto simp: deepseek_prices_def Let_def prices_ok_def intro!: price_round)
  moreover have "prices_ok (pe_round E) (policy_prices E model p)"
  proof -
    define p2 where "p2 = policy_multipliers E model p"
    have p2: "prices_ok (pe_round E) p2" using assms(2) by (auto simp: p2_def policy_multipliers_def Let_def prices_ok_def)
    have up: "prices_ok (pe_round E) (q\<lparr>mp_write_prio := pe_round E (mp_write q * k)\<rparr>)"
      if "prices_ok (pe_round E) q" "0 < k" for q k
      using that price_scaled[OF assms(1), of "mp_write q" k] by (simp add: prices_ok_def)
    show ?thesis unfolding policy_prices_def p2_def[symmetric] Let_def
      using p2 prices_ok_fill[OF assms(1) p2] prices_ok_enforce[OF assms(1) p2] prices_ok_enforce[OF assms(1) prices_ok_fill[OF assms(1) p2]]
      by (auto intro!: up split del: if_split split: if_splits)
  qed
  ultimately show ?thesis using assms(2) by (simp add: applyModelSpecificPricingPolicyEx_def Let_def)
qed

lemma prices_ok_catalogue:
  assumes "env_ok E" "GetModelPricing E model = Some p"
  shows "prices_ok (pe_round E) p"
proof -
  have l: "prices_ok (pe_round E) (litellm_model_pricing E m l)" if "pe_litellm E m = Some l" for m l
    using assms(1) that price_0[OF env_rounds[OF assms(1)]]
    by (auto simp: env_ok_def litellm_ok_def litellm_model_pricing_def no_pricing_def prices_ok_def pred_option_def)
  have f: "prices_ok (pe_round E) q" if "pe_fallback E m = Some q" for m q
    using assms(1) that by (auto simp: env_ok_def pred_option_def)
  show ?thesis using assms(2) prices_ok_policy[OF env_rounds[OF assms(1)]] l f
    by (auto simp: GetModelPricing_def Let_def split: option.splits if_splits)
qed

lemma prices_ok_interval:
  assumes R: "rounds (pe_round E)" and "interval_ok (pe_round E) iv" "pred_option (prices_ok (pe_round E)) base"
    "pred_option (card_ok (pe_round E)) cpo"
  shows "prices_ok (pe_round E) (intervalToModelPricing E iv base cpo)"
proof -
  have sc: "prices_ok (pe_round E) (p\<lparr>mp_input := scale_opt E (iv_input_mult iv) (mp_input p), mp_input_prio := scale_opt E (iv_input_mult iv) (mp_input_prio p)\<rparr>)"
    "prices_ok (pe_round E) (p\<lparr>mp_output := scale_opt E (iv_output_mult iv) (mp_output p), mp_output_prio := scale_opt E (iv_output_mult iv) (mp_output_prio p)\<rparr>)"
    "prices_ok (pe_round E) (p\<lparr>mp_read := scale_opt E (iv_read_mult iv) (mp_read p), mp_read_prio := scale_opt E (iv_read_mult iv) (mp_read_prio p)\<rparr>)"
    "prices_ok (pe_round E) (p\<lparr>mp_write := scale_opt E (iv_write_mult iv) (mp_write p), mp_write_prio := scale_opt E (iv_write_mult iv) (mp_write_prio p),
        mp_write5m := scale_opt E (iv_write_mult iv) (mp_write5m p), mp_write1h := scale_opt E (iv_write_mult iv) (mp_write1h p)\<rparr>)"
    if "prices_ok (pe_round E) p" for p
    using that assms(2) price_scale_opt[OF R] by (simp_all add: prices_ok_def interval_ok_def)
  have base: "prices_ok (pe_round E) (case base of None \<Rightarrow> no_pricing | Some p \<Rightarrow> p)"
    using assms(3) prices_ok_none[OF R] by (auto split: option.split)
  show ?thesis unfolding intervalToModelPricing_def Let_def using assms(2) unfolding interval_ok_def
    by (intro prices_ok_image assms(4)) (simp add: sc base prices_ok_sets[OF R])
qed

definition group_ok :: "(rat \<Rightarrow> rat) \<Rightarrow> group_prices \<Rightarrow> bool" where
  "group_ok R g \<longleftrightarrow> list_all (card_ok R) (gp_pricing g)"

lemma match_patterns_in:
  "match_patterns model ps w = Some cp \<Longrightarrow> cp \<in> fst ` set ps \<or> w = Some cp"
  by (induction model ps w rule: match_patterns.induct) (force simp: Let_def split: if_splits)+

lemma card_for_ok:
  assumes "env_ok E" "pred_option (group_ok (pe_round E)) grp" "card_for E model groupID grp = Some cp"
  shows "card_ok (pe_round E) cp"
proof (cases "matchGroupModelPricing grp model")
  case None
  then show ?thesis using assms(1,3)
    by (auto simp: card_for_def lookupChannelPricingNormalized_def env_ok_def pred_option_def Let_def split: option.splits if_splits)
next
  case (Some gp)
  then obtain g where "grp = Some g" "gp \<in> set (gp_pricing g)"
    by (auto simp: matchGroupModelPricing_def dest!: match_patterns_in split: option.splits)
  then have "card_ok (pe_round E) gp" using assms(2) by (simp add: group_ok_def list_all_iff)
  then show ?thesis using assms(3) Some by (auto simp: card_for_def card_ok_def split: if_splits)
qed

lemma resolved_ok_token:
  assumes R: "rounds (pe_round E)" and "card_ok (pe_round E) cp" "resolved_ok (pe_round E) rs"
  shows "resolved_ok (pe_round E) (applyTokenOverrides E cp rs)"
proof -
  define b where "b = (case rs_base rs of None \<Rightarrow> no_pricing | Some p \<Rightarrow> p)"
  have b: "prices_ok (pe_round E) b" using assms(3) prices_ok_none[OF R] by (auto simp: b_def resolved_ok_def split: option.split)
  have c: "prices_ok (pe_round E) (applyChannelTokenPriceOverrides E cp b)"
    unfolding applyChannelTokenPriceOverrides_def using assms(2)
    by (intro prices_ok_sets[OF R] b) (simp_all add: card_ok_def)
  have d: "prices_ok (pe_round E) (applyChannelImagePriceOverrides (Some cp) (q\<lparr>mp_fast := cp_fast cp, mp_flex := cp_flex cp, mp_efforts := cp_efforts cp\<rparr>))"
    if "prices_ok (pe_round E) q" for q
    using that assms(2) by (intro prices_ok_image) (auto simp: prices_ok_def card_ok_def)
  have e: "prices_ok (pe_round E) (q\<lparr>mp_split := True\<rparr>)" if "prices_ok (pe_round E) q" for q
    using that by (simp add: prices_ok_def)
  have iv: "list_all (interval_ok (pe_round E)) (filterValidIntervals (cp_intervals cp))"
    using assms(2) by (simp add: card_ok_def filterValidIntervals_def list_all_iff)
  show ?thesis unfolding applyTokenOverrides_def Let_def b_def[symmetric] using assms(3) iv d[OF c] d[OF e[OF c]]
    by (simp add: resolved_ok_def)
qed

lemma resolved_ok_tiers:
  assumes "card_ok R cp" "resolved_ok R rs"
  shows "resolved_ok R (applyRequestTierOverrides cp rs)"
  using assms by (auto simp: applyRequestTierOverrides_def resolved_ok_def card_ok_def filterValidIntervals_def list_all_iff
      price_ge_0 pred_option_def split: option.split)

lemma resolved_ok_Resolve:
  assumes "env_ok E" "pred_option (group_ok (pe_round E)) grp"
  shows "resolved_ok (pe_round E) (Resolve E model groupID grp)"
proof -
  note R = env_rounds[OF assms(1)]
  have f: "resolved_ok (pe_round E) (fresh_resolved mode base source cpo long)"
    if "pred_option (prices_ok (pe_round E)) base" "pred_option (card_ok (pe_round E)) cpo" for mode base source cpo long
    using that by (simp add: fresh_resolved_def resolved_ok_def)
  have base: "pred_option (prices_ok (pe_round E)) (GetModelPricing E model)"
    using prices_ok_catalogue[OF assms(1)] by (auto simp: pred_option_def)
  show ?thesis
  proof (cases "card_for E model groupID grp")
    case None
    then show ?thesis using f[OF base] by (simp add: Resolve_card)
  next
    case (Some cp)
    note c = card_for_ok[OF assms Some]
    have cs: "pred_option (card_ok (pe_round E)) (Some cp)" using c by simp
    show ?thesis unfolding Resolve_card Some
      using resolved_ok_token[OF R c f[OF base cs]] resolved_ok_tiers[OF c f[OF _ cs, of None]] by simp
  qed
qed

lemma multiplier_bounds:
  assumes "rounds (pe_round E)" "0 \<le> m" "0 \<le> cb_total b" "0 \<le> cb_actual b"
  shows "0 \<le> cb_total (applyCostBreakdownMultiplier E m b)" "0 \<le> cb_actual (applyCostBreakdownMultiplier E m b)"
    "cb_actual b = 0 \<Longrightarrow> cb_actual (applyCostBreakdownMultiplier E m b) = 0"
  using assms price_ge_0[OF price_round[OF assms(1)]]
  by (auto simp: applyCostBreakdownMultiplier_def Let_def rounds_def)

definition fair :: "rat \<Rightarrow> cost_breakdown \<Rightarrow> bool" where
  "fair rate b \<longleftrightarrow> 0 \<le> cb_total b \<and> 0 \<le> cb_actual b \<and> (rate \<le> 0 \<longrightarrow> cb_actual b = 0)"

lemma fair_multiplier: "rounds (pe_round E) \<Longrightarrow> 0 \<le> m \<Longrightarrow> fair rate b \<Longrightarrow> fair rate (applyCostBreakdownMultiplier E m b)"
  using multiplier_bounds[of E m b] by (auto simp: fair_def)

lemma effort_nonneg: "0 \<le> reasoningEffortBillingMultiplier effort ms"
  by (auto simp: reasoningEffortBillingMultiplier_def Let_def split: option.split)

lemma time_nonneg:
  assumes "resolved_ok R rs"
  shows "0 \<le> resolvedChannelTimeMultiplier rs t"
proof (cases "rs_channel rs")
  case (Some cp)
  then have "pred_option (\<lambda>f. \<forall>t. 0 \<le> f t) (cp_time cp)" using assms by (simp add: resolved_ok_def card_ok_def)
  then show ?thesis using Some by (cases "cp_time cp"; cases t) (simp_all add: resolvedChannelTimeMultiplier_def)
qed (simp add: resolvedChannelTimeMultiplier_def)

lemma fair_tokens:
  assumes "rounds (pe_round E)" "prices_ok (pe_round E) p" "tokens_ok t"
  shows "fair rate (computeTokenBreakdown E p t rate tier long)"
proof -
  let ?b = "computeTokenBreakdown E p t rate tier long"
  have "(\<forall>x\<in>{cb_input ?b, cb_image_input ?b, cb_output ?b, cb_image_output ?b, cb_write ?b, cb_read ?b}. 0 \<le> x \<and> x \<le> cb_total ?b)
       \<and> 0 \<le> cb_actual ?b \<and> (rate \<le> 0 \<longrightarrow> cb_actual ?b = 0)"
    by (rule token_cost_bounds[OF assms, of rate tier long, unfolded Let_def])
  moreover from this have "0 \<le> cb_total ?b" by (meson insertI1 order_trans)
  ultimately show ?thesis by (simp add: fair_def)
qed

lemma prices_ok_peak:
  assumes "rounds (pe_round E)" "prices_ok (pe_round E) p" "0 < m"
  shows "prices_ok (pe_round E) (p\<lparr>mp_input := pe_round E (mp_input p * m), mp_output := pe_round E (mp_output p * m),
    mp_read := pe_round E (mp_read p * m)\<rparr>)"
  using assms(2,3) price_scaled[OF assms(1), of _ m] by (simp add: prices_ok_def)

lemma fair_token_cost:
  assumes R: "rounds (pe_round E)" and ok: "resolved_ok (pe_round E) rs" "tokens_ok (ci_tokens ci)"
    and run: "calculateTokenCost E rs ci = Some b"
  shows "fair (ci_rate ci) b"
proof -
  obtain p0 where p0: "GetIntervalPricing E rs (if context_tiers_enabled rs ci then total_context (ci_tokens ci) else 1) = Some p0"
    using run by (auto simp: calculateTokenCost_def split: option.splits)
  have iv: "interval_ok (pe_round E) iv" if "FindMatchingInterval (rs_intervals rs) n = Some iv" for n iv
    using that ok(1) by (auto simp: FindMatchingInterval_def find_Some_iff resolved_ok_def list_all_length)
  have split: "prices_ok (pe_round E) q \<Longrightarrow> prices_ok (pe_round E) (q\<lparr>mp_split := c\<rparr>)" for q c by (simp add: prices_ok_def)
  have p: "prices_ok (pe_round E) p0"
    using p0 ok(1) iv unfolding GetIntervalPricing_def
    by (auto simp: resolved_ok_def split: if_splits option.splits intro!: split prices_ok_interval[OF R])
  define p1 where "p1 = applyModelSpecificPricingPolicyEx E (ci_model ci) p0 (rs_source rs = SourceLiteLLM)"
  have p1: "prices_ok (pe_round E) p1" unfolding p1_def by (rule prices_ok_policy[OF R p])
  define m where "m = deepseekPeakMultiplierAt (case ci_at ci of None \<Rightarrow> pe_now E | Some t \<Rightarrow> t)"
  define p2 where "p2 = (if rs_source rs = SourceLiteLLM \<and> isDeepSeekModel (ci_model ci) \<and> m > 1
     then p1\<lparr>mp_input := pe_round E (mp_input p1 * m), mp_output := pe_round E (mp_output p1 * m),
       mp_read := pe_round E (mp_read p1 * m)\<rparr> else p1)"
  have p2: "prices_ok (pe_round E) p2" using p1 prices_ok_peak[OF R p1, of m] by (simp add: p2_def)
  have "\<exists>long. b = applyCostBreakdownMultiplier E (reasoningEffortBillingMultiplier (ci_effort ci) (mp_efforts p2))
      (applyCostBreakdownMultiplier E (resolvedChannelTimeMultiplier rs (ci_at ci))
        (computeTokenBreakdown E p2 (ci_tokens ci) (ci_rate ci) (ci_service_tier ci) long))"
    using run unfolding calculateTokenCost_def p0 option.case Let_def p1_def[symmetric] m_def[symmetric] p2_def[symmetric]
    by blast
  then show ?thesis
    by (auto intro!: fair_multiplier[OF R] fair_tokens[OF R p2 ok(2)] effort_nonneg time_nonneg[OF ok(1)])
qed

lemma fair_request_cost:
  assumes R: "rounds (pe_round E)" and ok: "resolved_ok (pe_round E) rs" and rate: "0 \<le> ci_rate ci"
  shows "fair (ci_rate ci) (calculatePerRequestCost E rs ci)"
proof -
  have tier: "0 \<le> x" if "iv \<in> set (rs_tiers rs)" "iv_per_request iv = Some x" for iv x
    using ok that price_ge_0 by (force simp: resolved_ok_def list_all_iff interval_ok_def)
  have "0 \<le> GetRequestTierPrice rs l" "0 \<le> GetRequestTierPriceByContext rs n" "0 \<le> rs_default rs" for l n
    using ok tier unfolding GetRequestTierPrice_def GetRequestTierPriceByContext_def FindMatchingInterval_def
    by (auto simp: resolved_ok_def find_Some_iff split: option.splits) (metis nth_mem)+
  then show ?thesis using rate price_ge_0[OF price_round[OF R]] R
    by (auto simp: fair_def calculatePerRequestCost_def Let_def rounds_def)
qed

text \<open>
  No request pays its user back: whatever the model, price card, service tier, context, effort and rate, and
  however results are rounded, total and charge are not negative, and a rate of zero or below charges
  nothing, as long as no price and no count of tokens is negative.
\<close>

theorem request_never_pays_back:
  assumes "env_ok E" "tokens_ok (ci_tokens ci)" "pred_option (group_ok (pe_round E)) (ci_group ci)"
    "pred_option (resolved_ok (pe_round E)) (ci_resolved ci)" "CalculateCostUnified E ci = Some b"
  shows "0 \<le> cb_total b \<and> 0 \<le> cb_actual b \<and> (ci_rate ci \<le> 0 \<longrightarrow> cb_actual b = 0)"
proof -
  note R = env_rounds[OF assms(1)]
  have "fair (ci_rate ci) b"
  proof (cases "ci_resolver ci")
    case False
    then show ?thesis using assms(5) prices_ok_catalogue[OF assms(1)]
      by (auto simp: CalculateCostUnified_def Let_def intro!: fair_multiplier[OF R] effort_nonneg fair_tokens[OF R] assms(2)
          split: option.splits)
  next
    case True
    define rs where "rs = (case ci_resolved ci of Some rs \<Rightarrow> rs | None \<Rightarrow> Resolve E (ci_model ci) (ci_group_id ci) (ci_group ci))"
    define ci' where "ci' = (if ci_rate ci < 0 then ci\<lparr>ci_rate := 0\<rparr> else ci)"
    have rs: "resolved_ok (pe_round E) rs"
      using assms(4) resolved_ok_Resolve[OF assms(1,3)] by (cases "ci_resolved ci") (simp_all add: rs_def)
    have ci': "0 \<le> ci_rate ci'" "tokens_ok (ci_tokens ci')" using assms(2) by (simp_all add: ci'_def)
    have rate: "fair (ci_rate ci') c \<Longrightarrow> fair (ci_rate ci) c" for c by (auto simp: fair_def ci'_def split: if_splits)
    have mode: "fair r c \<Longrightarrow> fair r (c\<lparr>cb_mode := m\<rparr>)" for r c m by (simp add: fair_def)
    have "fair (ci_rate ci') b"
      using assms(5) True fair_request_cost[OF R rs ci'(1)] fair_token_cost[OF R rs ci'(2)]
      unfolding CalculateCostUnified_def Let_def rs_def[symmetric] ci'_def[symmetric]
      by (auto intro!: mode fair_multiplier[OF R] effort_nonneg split: if_splits option.splits)
    then show ?thesis by (rule rate)
  qed
  then show ?thesis by (simp add: fair_def)
qed

section \<open>Examples\<close>










end
