(* ===== verification/Spec2Isabelle.thy ===== *)
theory Spec2Isabelle
  imports Service_Properties Load_Cache Rate_Properties Suspension_Properties Session_Properties Lock_Properties Idempotency_Claims
    Digest_Properties Hold_Properties Inflight_Handle Inflight_Properties Subscription_Properties Subscription_Assign Shop_Races
    Keyword_Search Selection_Properties Pricing
begin

text \<open>
  Verification of the Go backend of Sub2API (\<open>src/backend/internal\<close>), a gateway that sells
  access to upstream AI accounts: it admits requests against concurrency, session and rate limits,
  charges them to balances, subscriptions and quotas, and sells balance and subscriptions
  through redeem codes, payments and an affiliate programme.  The development models the parts
  that decide about admission and money, each as the code has it, and proves what the parts
  promise each other.

  Foundations.  \<open>Prelude\<close> holds Go's decimal printing and parsing, the simplification
  collections and generic facts, and strings as code points with \<open>strings.TrimSpace\<close>;
  \<open>Billing_Amounts\<close> money as rationals with the rounding of \<open>numeric(p,s)\<close> columns.
  \<open>Redis_Iface\<close> takes the Redis server as a parameter: a record of commands and the locale
  \<open>redis_store\<close> of the documented laws the code relies on, with a reference server that meets
  them.  \<open>Redis_Net\<close> gives programs of round trips: before each one other clients may change
  the state, and it may fail before or after its effect; every schedule of interference and
  failures is a value of the world.  A Lua script or SQL transaction is one round trip.
  \<open>Rely\<close> adds rely-guarantee triples over these programs.

  Concurrency slots (\<open>repository/concurrency_cache.go\<close>, \<open>concurrency_group_transfer.go\<close>,
  \<open>account_proxy_concurrency.go\<close>, \<open>service/concurrency_service.go\<close>, \<open>account_proxy_routing.go\<close>,
  \<open>api_key_fallback_concurrency.go\<close>).  \<open>Slot_Keys\<close>: the key space, injective and disjoint.
  \<open>Slot_Scripts\<close>: the Lua scripts.  \<open>Slot_Cache\<close>, \<open>Slot_Leases\<close>: the Go methods.
  \<open>Slot_Safety\<close>, \<open>Slot_System\<close>: the transition system of all clients and the limits that hold
  in every reachable state.  \<open>Slot_Semaphore\<close>: refinement of a counting semaphore with leases.
  \<open>Slot_Theorems\<close>, \<open>Slot_Properties\<close>: the properties.  \<open>Slot_Provider\<close>, \<open>Concurrency_Service\<close>,
  \<open>Service_Properties\<close>, \<open>Load_Cache\<close>: the service on top of it.

  Counters and locks.  \<open>Counters\<close>, \<open>Counter_Properties\<close>, \<open>Rate_Properties\<close>,
  \<open>Window_Properties\<close>, \<open>Suspension_Properties\<close>: failure counters, requests per minute, download
  permits, suspensions (\<open>timeout_counter_cache.go\<close>, \<open>rpm_cache.go\<close>, \<open>temp_unsched_cache.go\<close>
  and others).  \<open>Lease_Lock\<close>, \<open>Msg_Queue\<close>, \<open>Leader_Lock\<close>, \<open>Lock_Properties\<close>: the lock of the
  message queue and of leader election.  \<open>Session_Limit\<close>, \<open>Session_Properties\<close>: sessions per
  account.  \<open>Session_Memory\<close> with its properties and \<open>Digest_Properties\<close>: the bounded
  session cache and its hashed prefix search (\<open>session_memory_cache.go\<close>,
  \<open>digest_session_store.go\<close>).

  Idempotency (\<open>service/idempotency.go\<close>, \<open>repository/idempotency_repo.go\<close>): \<open>Idempotency\<close>,
  \<open>Idempotency_Properties\<close>, \<open>Idempotency_Gate\<close>, \<open>Idempotency_Claims\<close>.  Requests may outlive their
  claims and report late; claims exclude each other as long as none reports on a row that
  another has taken over, and \<open>late_report_reopens_key\<close> shows what happens when one does.

  Billing.  \<open>Usage_Billing\<close>, \<open>Billing_Properties\<close>, \<open>Hold_Properties\<close>: one charge per request,
  holds of batch jobs (\<open>usage_billing.go\<close>, \<open>usage_billing_repo.go\<close>).  \<open>Account_Quota\<close>: the
  SQL expressions of account quotas.  \<open>Inflight\<close>, \<open>Inflight_Handle\<close>, \<open>Inflight_Properties\<close>:
  reservations of running requests (\<open>billing_inflight_cache.go\<close>,
  \<open>billing_inflight_reservation.go\<close>).  The sum in the script is rounded at each addition: the
  refinement holds for any rounding, the bound on what is in flight up to a relative error.

  Prices (\<open>billing_service.go\<close>, \<open>model_pricing_resolver.go\<close>, \<open>channel.go\<close>).  \<open>Pricing\<close>: the cost of a request
  from tokens, units, tiers and multipliers, the price cards of groups and channels over the
  catalogue, and the intervals of a card.  Rounding to doubles is a function \<open>pe_round\<close>; bounds hold
  for every monotone rounding that keeps 0 and doubles, the itemised invoice in exact arithmetic.

  Subscriptions (\<open>user_subscription.go\<close>, \<open>user_subscription_repo.go\<close>,
  \<open>subscription_service.go\<close>): \<open>Subscription\<close>, \<open>Subscription_Service\<close>, \<open>Subscription_Windows\<close>,
  \<open>Subscription_Rows\<close>, \<open>Subscription_Gate\<close>, \<open>Subscription_Properties\<close>, \<open>Subscription_Assign\<close>.

  Shop.  \<open>Shop\<close>: the database of accounts, codes, orders, audit log, affiliates and ledger.
  \<open>Redeem\<close>, \<open>Redemption\<close> (\<open>redeem_service.go\<close>, \<open>redeem_code_repo.go\<close>, \<open>redeem_cache.go\<close>),
  \<open>Affiliate\<close> (\<open>affiliate_service.go\<close>, \<open>affiliate_repo.go\<close>), \<open>Payment_Orders\<close>
  (\<open>payment_fulfillment.go\<close>, \<open>payment_order_lifecycle.go\<close>), \<open>Payment_Refund\<close>
  (\<open>payment_refund.go\<close>).  \<open>Shop_Relation\<close> is the relation every client guarantees and relies
  on (with the books exact, or loose where refused refunds are returned), \<open>Redeem_Steps\<close>, \<open>Payment_Steps\<close>, \<open>Payment_Flow\<close>, \<open>Refund_Steps\<close> show it for every method,
  \<open>Affiliate_Books\<close>, \<open>Affiliate_Flow\<close> do so for the affiliate ledger.  \<open>Shop_Properties\<close> draws the
  consequences, \<open>Shop_Races\<close> shows three places where the code loses its books.

  Keyword block list (\<open>content_moderation_keyword_matcher.go\<close>).  \<open>Keyword_Matcher\<close>: the automaton as
  the code builds and runs it, with every index that could panic written out.  \<open>Keyword_Trie\<close>: the
  trie of the keywords.  \<open>Keyword_Links\<close>: the failure links lead to the longest suffix that is a
  node.  \<open>Keyword_Search\<close>: a search stands at the longest suffix of what it has read, so it agrees
  with the linear scan.

  Account selection (\<open>service/gateway_scheduling.go\<close>, \<open>account.go\<close>, \<open>account_proxy_routing.go\<close>,
  \<open>repository/gateway_cache.go\<close>).  \<open>Gw_Account\<close>: the account and its settings.  \<open>Scheduling\<close>: filters,
  sorts and shuffles; \<open>Scheduling_Order\<close>: what they order by.  \<open>Account_Selection\<close>: gates, sticky
  sessions, admission and the layers of \<open>selectAccountWithLoadAwareness\<close>, for one group, platform and
  list of accounts, with load batches enabled and at one instant.  The services it consults are
  fields of \<open>sel_env\<close>.  \<open>Selection_Logic\<close> is a Hoare logic over its programs, \<open>Selection_Slots\<close> and
  \<open>Selection_Leaks\<close> follow the slots of this process, \<open>Selection_Safety\<close> bounds the request ids each
  layer uses (one per account tried, \<open>2 + |routing| + |accounts|\<close> in all, so a closure that ran is
  never met again), \<open>Selection_Properties\<close> states the results.  The loop of layer 2 ends because
  each round removes the account it picked.

  Interfaces.  \<open>redis_store\<close> (the server), \<open>lease_lock\<close> (provided by the queue and the leader
  lock), the slot provider (provided twice by the slot cache), the laws of the time zone,
  and \<open>rely\<close> (provided by the relation of the shop and by that of the affiliate books) are
  locales, each interpreted on the definitions of the code.

  Bounds and fuel.  Loops over lists are structural recursion.  The retry and scan loops take the
  finite list of answers they will get or recurse with a proved measure; the session cache's
  search and eviction are total functions.  Nothing is fuelled whose exhaustion a theorem could
  hide.  Sorted-set scores stay below 2 to the 53; in-flight scripts unpack at most the members
  Lua's stack takes (about 8000).

  Assumptions.  Amounts are finite and at the scale of their columns, floats are the decimals they
  print as; \<open>fl\<close>, \<open>g14\<close> and \<open>pe_round\<close> stand for the rounding of doubles where the code computes in them.
  The money ledger of a charge covers balance, key quota and deduplication.  The laws of the
  time zone leave out zones with skipped or repeated hours.  The lemma on the leader lock is about
  instances that lock in Redis, not about the fallbacks for a Redis that fails.
  SQL transactions are serial steps unless a theory says otherwise (the bulk change of codes is
  two steps).  Time-zone functions, SHA-256, JSON, random codes, the payment providers and the
  network are parameters.  In the shop, \<open>DeleteRedeemCode\<close> and \<open>BatchUpdateCodes\<close> are modelled
  but are not among the methods that keep the books: \<open>Shop_Races\<close> shows why.

  Not modelled.  HTTP handlers and streaming, conversions between vendor protocols, OAuth,
  administration and listings over the generated ORM, monitoring, configuration, mail and bots,
  plugins and backup, and the frontend: input and output, generated code, or behaviour that
  lies in third-party services.
\<close>

end
